(* ===== verification/Prelude.thy ===== *)
theory Prelude
  imports Main "HOL-Library.Product_Lexorder"
begin

section \<open>Prelude: transactions, rows and the values the components share\<close>

text \<open>
  What every component uses: the scalar types of the database columns, the transaction type of
  the service layer (a state transformer that may raise), the few session operations the code
  performs on a table, and the lemmas about them. A table is the list of its rows; a query is a
  \<open>filter\<close>; \<open>scalars(...).one_or_none()\<close> raises when two rows match, as SQLAlchemy does.
\<close>

named_theorems txn_simps \<open>evaluation of transaction combinators\<close>
named_theorems schema_simps \<open>row and table constraints of the models\<close>

subsection \<open>Scalars\<close>

text \<open>
  A UUID column is its 128-bit number (PostgreSQL orders UUIDs as these numbers). A timestamp is
  the number of microseconds of the UTC instant; a \<open>timedelta\<close> is a number of microseconds.
\<close>

type_synonym uuid = nat
type_synonym datetime = int

abbreviation seconds :: "int \<Rightarrow> int" where "seconds n \<equiv> n * 1000000"
abbreviation minutes :: "int \<Rightarrow> int" where "minutes n \<equiv> n * 60000000"
abbreviation hours :: "int \<Rightarrow> int" where "hours n \<equiv> n * 3600000000"
abbreviation days :: "int \<Rightarrow> int" where "days n \<equiv> n * 86400000000"

text \<open>The truth value of an optional string: both \<open>None\<close> and the empty string are false.\<close>

definition truthy :: "string option \<Rightarrow> bool" where
  "truthy x = (case x of None \<Rightarrow> False | Some v \<Rightarrow> v \<noteq> [])"

lemma truthy_simps [simp]:
  "truthy None = False"
  "truthy (Some []) = False"
  "truthy (Some (c # cs)) = True"
  by (simp_all add: truthy_def)

text \<open>Lower-case hexadecimal strings of a fixed length, the shape of digests and commit ids.\<close>

definition hex_chars :: string where
  "hex_chars = ''0123456789abcdef''"

definition is_hex :: "nat \<Rightarrow> string \<Rightarrow> bool" where
  "is_hex n v = (length v = n \<and> list_all (\<lambda>c. c \<in> set hex_chars) v)"

lemma is_hex_replicate [simp]: "is_hex 64 (replicate 64 c) \<longleftrightarrow> c \<in> set hex_chars"
  by (auto simp: is_hex_def list_all_iff)

subsection \<open>Exceptions\<close>

text \<open>
  \<open>AppException\<close> carries its code and kind (the public message is presentation text), and
  \<open>GitHubFailure\<close>, its subclass, a code and an optional retry delay.
\<close>

datatype error_kind =
  NOT_FOUND | CONFLICT | UNAUTHORIZED | FORBIDDEN | INVALID_INPUT | UNAVAILABLE

datatype exn =
    AppException string error_kind
  | GitHubFailure string "int option"
  | WebhookRejected string
  | IntegrityError
  | MultipleResultsFound
  | AssertionError
  | IndexError
  | KeyError
  | TypeError
  | ValueError string
  | TimeoutError
  | InvalidTokenError
  | AttributeError
  | RecursionError
  | StopIteration
  | HTTPError
  | OSError
  | OverflowError

fun is_app :: "exn \<Rightarrow> bool" where
  "is_app (AppException _ _) = True"
| "is_app (GitHubFailure _ _) = True"
| "is_app _ = False"

fun app_code :: "exn \<Rightarrow> string" where
  "app_code (AppException c _) = c"
| "app_code (GitHubFailure c _) = c"
| "app_code _ = []"

fun app_kind :: "exn \<Rightarrow> error_kind" where
  "app_kind (AppException _ k) = k"
| "app_kind _ = UNAVAILABLE"

text \<open>Computations that may raise and have no state.\<close>

definition proceed :: "exn + 'a \<Rightarrow> ('a \<Rightarrow> exn + 'b) \<Rightarrow> exn + 'b" where
  "proceed x f = (case x of Inl e \<Rightarrow> Inl e | Inr y \<Rightarrow> f y)"

lemma proceed_Inr: "proceed x f = Inr z \<longleftrightarrow> (\<exists>y. x = Inr y \<and> f y = Inr z)"
  by (auto simp: proceed_def split: sum.splits)

subsection \<open>Transactions\<close>

text \<open>
  The body of an \<open>async with transaction(engine)\<close> block: from a database state it either
  raises or returns a value and the changed state.
\<close>

type_synonym ('s, 'a) txn = "'s \<Rightarrow> exn + 'a \<times> 's"

definition ret :: "'a \<Rightarrow> ('s, 'a) txn" where
  "ret x s = Inr (x, s)"

definition raise :: "exn \<Rightarrow> ('s, 'a) txn" where
  "raise e s = Inl e"

definition bind :: "('s, 'a) txn \<Rightarrow> ('a \<Rightarrow> ('s, 'b) txn) \<Rightarrow> ('s, 'b) txn" where
  "bind m f s = (case m s of Inl e \<Rightarrow> Inl e | Inr (x, s') \<Rightarrow> f x s')"

definition gets :: "('s \<Rightarrow> 'a) \<Rightarrow> ('s, 'a) txn" where
  "gets f s = Inr (f s, s)"

definition modify :: "('s \<Rightarrow> 's) \<Rightarrow> ('s, unit) txn" where
  "modify f s = Inr ((), f s)"

definition check :: "bool \<Rightarrow> exn \<Rightarrow> ('s, unit) txn" where
  "check b e = (if b then ret () else raise e)"

text \<open>
  \<open>try: m; except AppException\<close> around a body that only reads: the handler starts from the
  state before the body.
\<close>

definition catch_app :: "('s, 'a) txn \<Rightarrow> (exn \<Rightarrow> ('s, 'a) txn) \<Rightarrow> ('s, 'a) txn" where
  "catch_app m h s = (case m s of Inl e \<Rightarrow> if is_app e then h e s else Inl e | Inr r \<Rightarrow> Inr r)"

text \<open>
  \<open>try: x = m; except AppException as exc\<close> around a body that only reads, as a value: the error or
  the result.
\<close>

definition attempt_app :: "('s, 'a) txn \<Rightarrow> ('s, exn + 'a) txn" where
  "attempt_app m s =
     (case m s of
        Inl e \<Rightarrow> if is_app e then Inr (Inl e, s) else Inl e
      | Inr (x, s') \<Rightarrow> Inr (Inr x, s'))"

text \<open>
  \<open>session.flush()\<close> sends the pending rows, so the constraints of the schema are checked; a
  transaction flushes before it commits. An exception rolls everything back.
\<close>

definition flush :: "('s \<Rightarrow> bool) \<Rightarrow> ('s, unit) txn" where
  "flush ok s = (if ok s then Inr ((), s) else Inl IntegrityError)"

definition transaction :: "('s \<Rightarrow> bool) \<Rightarrow> ('s, 'a) txn \<Rightarrow> 's \<Rightarrow> (exn + 'a) \<times> 's" where
  "transaction ok m s =
     (case m s of
        Inl e \<Rightarrow> (Inl e, s)
      | Inr (x, s') \<Rightarrow> if ok s' then (Inr x, s') else (Inl IntegrityError, s))"

lemma ret_simps [simp, txn_simps]:
  "ret x s = Inr (y, s') \<longleftrightarrow> y = x \<and> s' = s"
  "ret x s = Inl e \<longleftrightarrow> False"
  by (auto simp: ret_def)

lemma raise_simps [simp, txn_simps]:
  "raise e s = Inr r \<longleftrightarrow> False"
  "raise e s = Inl e' \<longleftrightarrow> e' = e"
  by (auto simp: raise_def)

lemma gets_simps [simp, txn_simps]:
  "gets f s = Inr (y, s') \<longleftrightarrow> y = f s \<and> s' = s"
  "gets f s = Inl e \<longleftrightarrow> False"
  by (auto simp: gets_def)

lemma modify_simps [simp, txn_simps]:
  "modify f s = Inr (y, s') \<longleftrightarrow> s' = f s"
  "modify f s = Inl e \<longleftrightarrow> False"
  by (auto simp: modify_def)

lemma check_simps [simp, txn_simps]:
  "check b e s = Inr (y, s') \<longleftrightarrow> b \<and> s' = s"
  "check b e s = Inl e' \<longleftrightarrow> \<not> b \<and> e' = e"
  by (auto simp: check_def)

lemma flush_simps [simp, txn_simps]:
  "flush ok s = Inr (y, s') \<longleftrightarrow> ok s \<and> s' = s"
  "flush ok s = Inl e \<longleftrightarrow> \<not> ok s \<and> e = IntegrityError"
  by (auto simp: flush_def)

lemma bind_Inr: "bind m f s = Inr r \<longleftrightarrow> (\<exists>x s'. m s = Inr (x, s') \<and> f x s' = Inr r)"
  by (auto simp: bind_def split: sum.splits)

lemma bindE:
  assumes "bind m f s = Inr r"
  obtains x s' where "m s = Inr (x, s')" "f x s' = Inr r"
  using assms by (auto simp: bind_Inr)

lemma bind_Inl:
  "bind m f s = Inl e \<longleftrightarrow> m s = Inl e \<or> (\<exists>x s'. m s = Inr (x, s') \<and> f x s' = Inl e)"
  by (auto simp: bind_def split: sum.splits)

lemma bind_eval:
  "m s = Inr (x, s') \<Longrightarrow> bind m f s = f x s'"
  "m s = Inl e \<Longrightarrow> bind m f s = Inl e"
  by (simp_all add: bind_def)

lemma attempt_app_Inr:
  "attempt_app m s = Inr (r, s') \<longleftrightarrow>
   (\<exists>e. m s = Inl e \<and> is_app e \<and> r = Inl e \<and> s' = s) \<or> (\<exists>x. m s = Inr (x, s') \<and> r = Inr x)"
  by (auto simp: attempt_app_def split: sum.splits)

lemmas txn_eval = bind_def ret_def raise_def gets_def modify_def check_def flush_def

lemma transaction_Inl: "m s = Inl e \<Longrightarrow> transaction ok m s = (Inl e, s)"
  by (simp add: transaction_def)

lemma transaction_commit: "m s = Inr (x, s') \<Longrightarrow> ok s' \<Longrightarrow> transaction ok m s = (Inr x, s')"
  by (simp add: transaction_def)

lemma transaction_Inr_iff:
  "transaction ok m s = (Inr x, s') \<longleftrightarrow> m s = Inr (x, s') \<and> ok s'"
  by (auto simp: transaction_def split: sum.splits prod.splits)

lemma transaction_raises:
  "transaction ok m s = (Inl e, s') \<Longrightarrow> s' = s"
  by (auto simp: transaction_def split: sum.splits prod.splits if_splits)

text \<open>The database keeps its constraints whatever the body does.\<close>

lemma transaction_ok: "ok s \<Longrightarrow> ok (snd (transaction ok m s))"
  by (auto simp: transaction_def split: sum.splits prod.splits)

end
