(* ===== verification/Row_Store.thy ===== *)
theory Row_Store
  imports Prelude
begin

section \<open>Tables of rows and the session operations on them\<close>

text \<open>
  The operations an SQLAlchemy session performs on one table, over the accessor of the table and
  its record update: \<open>scalars(select ...).one_or_none()\<close>, \<open>scalar(select ...)\<close>, adding a
  row, writing a loaded row back, a bulk \<open>update ... where\<close>. The locale \<open>row_store\<close> states
  what a component relies on (the accessor and the update belong together, rows have a key) and
  proves once what a lookup returns after an insert or a write.
\<close>

definition put_row :: "('r \<Rightarrow> uuid) \<Rightarrow> 'r \<Rightarrow> 'r list \<Rightarrow> 'r list" where
  "put_row key r rs = map (\<lambda>x. if key x = key r then r else x) rs"

definition one_or_none :: "'r list \<Rightarrow> ('s, 'r option) txn" where
  "one_or_none rs =
     (case rs of
        [] \<Rightarrow> ret None
      | [r] \<Rightarrow> ret (Some r)
      | _ \<Rightarrow> raise MultipleResultsFound)"

definition select_one :: "('s \<Rightarrow> 'r list) \<Rightarrow> ('r \<Rightarrow> bool) \<Rightarrow> ('s, 'r option) txn" where
  "select_one rows P s = one_or_none (filter P (rows s)) s"

text \<open>\<open>scalar\<close> takes the first row and ignores any other.\<close>

definition select_first :: "('s \<Rightarrow> 'r list) \<Rightarrow> ('r \<Rightarrow> bool) \<Rightarrow> ('s, 'r option) txn" where
  "select_first rows P = gets (\<lambda>s. find P (rows s))"

definition select_all :: "('s \<Rightarrow> 'r list) \<Rightarrow> ('r \<Rightarrow> bool) \<Rightarrow> ('s, 'r list) txn" where
  "select_all rows P = gets (\<lambda>s. filter P (rows s))"

definition add_row :: "(('r list \<Rightarrow> 'r list) \<Rightarrow> 's \<Rightarrow> 's) \<Rightarrow> 'r \<Rightarrow> ('s, unit) txn" where
  "add_row upd r = modify (upd (\<lambda>rs. rs @ [r]))"

definition save_row ::
  "(('r list \<Rightarrow> 'r list) \<Rightarrow> 's \<Rightarrow> 's) \<Rightarrow> ('r \<Rightarrow> uuid) \<Rightarrow> 'r \<Rightarrow> ('s, unit) txn" where
  "save_row upd key r = modify (upd (put_row key r))"

definition update_where ::
  "(('r list \<Rightarrow> 'r list) \<Rightarrow> 's \<Rightarrow> 's) \<Rightarrow> ('r \<Rightarrow> bool) \<Rightarrow> ('r \<Rightarrow> 'r) \<Rightarrow> ('s, unit) txn" where
  "update_where upd P f = modify (upd (map (\<lambda>r. if P r then f r else r)))"

definition delete_where ::
  "(('r list \<Rightarrow> 'r list) \<Rightarrow> 's \<Rightarrow> 's) \<Rightarrow> ('r \<Rightarrow> bool) \<Rightarrow> ('s, unit) txn" where
  "delete_where upd P = modify (upd (filter (\<lambda>r. \<not> P r)))"

subsection \<open>Inversion of the operations\<close>

lemma one_or_none_Inr:
  "one_or_none rs s = Inr (x, s') \<longleftrightarrow> s' = s \<and> (rs = [] \<and> x = None \<or> (\<exists>r. rs = [r] \<and> x = Some r))"
  by (auto simp: one_or_none_def split: list.splits)

lemma one_or_none_Inl:
  "one_or_none rs s = Inl e \<longleftrightarrow> 2 \<le> length rs \<and> e = MultipleResultsFound"
proof (cases rs)
  case (Cons a as)
  then show ?thesis by (cases as) (auto simp: one_or_none_def)
qed (simp add: one_or_none_def)

lemma select_one_state: "select_one rows P s = Inr (x, s') \<Longrightarrow> s' = s"
  by (simp add: select_one_def one_or_none_Inr)

lemma select_one_Some:
  "select_one rows P s = Inr (Some r, s') \<Longrightarrow> s' = s \<and> r \<in> set (rows s) \<and> P r"
proof -
  assume "select_one rows P s = Inr (Some r, s')"
  then have st: "s' = s" and one: "filter P (rows s) = [r]"
    by (auto simp: select_one_def one_or_none_Inr)
  from one have "r \<in> set (filter P (rows s))" by simp
  with st show ?thesis by simp
qed

lemma select_one_None:
  "select_one rows P s = Inr (None, s') \<longleftrightarrow> s' = s \<and> (\<forall>r \<in> set (rows s). \<not> P r)"
  by (auto simp: select_one_def one_or_none_Inr filter_empty_conv)

lemma select_one_Inr_cases [consumes 1, case_names None Some]:
  assumes "select_one rows P s = Inr (x, s')"
  obtains "x = None" "s' = s" "\<forall>r \<in> set (rows s). \<not> P r"
  | r where "x = Some r" "s' = s" "r \<in> set (rows s)" "P r"
proof (cases x)
  case None
  with assms that(1) show ?thesis by (simp add: select_one_None)
next
  case (Some r)
  with assms that(2) show ?thesis by (auto dest: select_one_Some)
qed

lemma select_first_Inr:
  "select_first rows P s = Inr (x, s') \<longleftrightarrow> s' = s \<and> x = find P (rows s)"
  by (auto simp: select_first_def)

lemma find_SomeD: "find P xs = Some x \<Longrightarrow> x \<in> set xs \<and> P x"
  by (auto simp: find_Some_iff in_set_conv_nth)

lemma find_skip: "(\<And>x. x \<in> set xs \<Longrightarrow> \<not> P x) \<Longrightarrow> find P (xs @ ys) = find P ys"
  by (induction xs) auto

lemma select_first_Inr_cases [consumes 1, case_names None Some]:
  assumes "select_first rows P s = Inr (x, s')"
  obtains "x = None" "s' = s" "\<forall>r \<in> set (rows s). \<not> P r"
  | r where "x = Some r" "s' = s" "r \<in> set (rows s)" "P r"
proof (cases x)
  case None
  with assms have "find P (rows s) = None" "s' = s" by (simp_all add: select_first_Inr)
  with None that(1) show ?thesis by (simp add: find_None_iff)
next
  case (Some r)
  with assms have "find P (rows s) = Some r" "s' = s" by (simp_all add: select_first_Inr)
  with Some that(2) find_SomeD show ?thesis by metis
qed

lemma select_all_Inr:
  "select_all rows P s = Inr (x, s') \<longleftrightarrow> s' = s \<and> x = filter P (rows s)"
  by (auto simp: select_all_def)

lemma select_total [simp]:
  "select_first rows P s \<noteq> Inl e" "select_all rows P s \<noteq> Inl e"
  by (simp_all add: select_first_def select_all_def)

lemma write_Inr [simp, txn_simps]:
  "add_row upd r s = Inr (u, s') \<longleftrightarrow> s' = upd (\<lambda>rs. rs @ [r]) s"
  "save_row upd key r s = Inr (u, s') \<longleftrightarrow> s' = upd (put_row key r) s"
  "update_where upd P f s = Inr (u, s') \<longleftrightarrow> s' = upd (map (\<lambda>r. if P r then f r else r)) s"
  "delete_where upd P s = Inr (u, s') \<longleftrightarrow> s' = upd (filter (\<lambda>r. \<not> P r)) s"
  by (simp_all add: add_row_def save_row_def update_where_def delete_where_def)

lemma write_Inl [simp, txn_simps]:
  "add_row upd r s \<noteq> Inl e"
  "save_row upd key r s \<noteq> Inl e"
  "update_where upd P f s \<noteq> Inl e"
  "delete_where upd P s \<noteq> Inl e"
  by (simp_all add: add_row_def save_row_def update_where_def delete_where_def)

lemmas row_ops = one_or_none_def select_one_def select_first_def select_all_def
  add_row_def save_row_def update_where_def delete_where_def put_row_def

subsection \<open>Rows after a write\<close>

lemma put_row_keys [simp]: "map key (put_row key r rs) = map key rs"
  by (simp add: put_row_def)

lemma put_row_length [simp]: "length (put_row key r rs) = length rs"
  by (simp add: put_row_def)

lemma put_row_twice: "key a = key b \<Longrightarrow> put_row key b (put_row key a rs) = put_row key b rs"
  by (simp add: put_row_def)

lemma put_row_absent: "key r \<notin> key ` set rs \<Longrightarrow> put_row key r rs = rs"
  by (induction rs) (auto simp: put_row_def)

lemma set_put_row: "set (put_row key r rs) \<subseteq> insert r {x \<in> set rs. key x \<noteq> key r}"
  by (auto simp: put_row_def)

lemma put_row_in: "x \<in> set (put_row key r rs) \<Longrightarrow> x = r \<or> (x \<in> set rs \<and> key x \<noteq> key r)"
  using set_put_row [of key r rs] by auto

lemma put_row_other: "x \<in> set rs \<Longrightarrow> key x \<noteq> key r \<Longrightarrow> x \<in> set (put_row key r rs)"
  by (force simp: put_row_def)

lemma put_row_mem: "\<exists>x \<in> set rs. key x = key r \<Longrightarrow> r \<in> set (put_row key r rs)"
  by (force simp: put_row_def)

lemma list_all_put_row: "list_all P rs \<Longrightarrow> P r \<Longrightarrow> list_all P (put_row key r rs)"
  by (induction rs) (auto simp: put_row_def)

text \<open>
  A column that a write leaves alone on the written row keeps its values, hence its uniqueness.
\<close>

lemma put_row_column:
  assumes "\<And>x. x \<in> set rs \<Longrightarrow> key x = key r \<Longrightarrow> f x = f r"
  shows "map f (put_row key r rs) = map f rs"
  using assms by (induction rs) (auto simp: put_row_def)

lemma distinct_filter_put_row:
  assumes "distinct (map key rs)" and "distinct (map f (filter P rs))"
    and "\<And>x. x \<in> set rs \<Longrightarrow> P x \<Longrightarrow> key x \<noteq> key r \<Longrightarrow> P r \<Longrightarrow> f x \<noteq> f r"
  shows "distinct (map f (filter P (put_row key r rs)))"
  using assms
proof (induction rs)
  case (Cons x xs)
  have split: "put_row key r (x # xs) = (if key x = key r then r else x) # put_row key r xs"
    by (simp add: put_row_def)
  show ?case
  proof (cases "key x = key r")
    case True
    then have absent: "key r \<notin> key ` set xs" using Cons.prems(1) by auto
    have "f r \<notin> f ` set (filter P xs)" if "P r"
    proof
      assume "f r \<in> f ` set (filter P xs)"
      then obtain y where "y \<in> set xs" "P y" "f y = f r" by auto
      moreover then have "key y \<noteq> key r" using absent by (metis imageI)
      ultimately show False using Cons.prems(3) [of y] that by auto
    qed
    moreover have "distinct (map f (filter P xs))" using Cons.prems(2) by (simp split: if_splits)
    ultimately show ?thesis unfolding split put_row_absent [OF absent] by (simp add: True)
  next
    case False
    have IH: "distinct (map f (filter P (put_row key r xs)))"
      using Cons.prems by (intro Cons.IH) (auto split: if_splits)
    have "f x \<notin> f ` set (filter P (put_row key r xs))" if "P x"
    proof
      assume "f x \<in> f ` set (filter P (put_row key r xs))"
      then obtain y where y: "y \<in> set (put_row key r xs)" "P y" "f x = f y" by auto
      from put_row_in [OF y(1)] show False
        using Cons.prems(2) Cons.prems(3) [of x] that False y by auto
    qed
    with IH show ?thesis unfolding split by (simp add: False)
  qed
qed (simp add: put_row_def)

lemma filter_put_row:
  "\<not> P r \<Longrightarrow> (\<And>x. x \<in> set rs \<Longrightarrow> key x = key r \<Longrightarrow> \<not> P x) \<Longrightarrow>
   filter P (put_row key r rs) = filter P rs"
  by (induction rs) (auto simp: put_row_def)

lemma distinct_key_unique:
  "distinct (map key rs) \<Longrightarrow> x \<in> set rs \<Longrightarrow> y \<in> set rs \<Longrightarrow> key x = key y \<Longrightarrow> x = y"
  by (metis distinct_map inj_onD)

lemma filter_key_unique:
  "distinct (map key rs) \<Longrightarrow> r \<in> set rs \<Longrightarrow> filter (\<lambda>x. key x = key r) rs = [r]"
proof (induction rs)
  case (Cons x xs)
  show ?case
  proof (cases "x = r")
    case True
    with Cons.prems have "\<forall>y \<in> set xs. key y \<noteq> key r"
      by (auto simp: image_iff)
    with True show ?thesis by (simp add: filter_empty_conv)
  next
    case False
    with Cons show ?thesis by (auto dest: distinct_key_unique)
  qed
qed simp

lemma length_filter_distinct:
  "distinct (map f rs) \<Longrightarrow> (\<And>x. x \<in> set rs \<Longrightarrow> P x \<Longrightarrow> f x = c) \<Longrightarrow> length (filter P rs) \<le> 1"
proof (induction rs)
  case (Cons x xs)
  show ?case
  proof (cases "P x")
    case True
    have "\<not> P y" if "y \<in> set xs" for y
    proof
      assume "P y"
      with that True Cons.prems(2) have "f x = f y" by simp
      with that Cons.prems(1) show False by (auto simp: image_iff)
    qed
    then show ?thesis by (simp add: filter_empty_conv)
  next
    case False
    with Cons show ?thesis by simp
  qed
qed simp

text \<open>A unique column makes \<open>one_or_none\<close> safe.\<close>

lemma select_one_unique:
  assumes "distinct (map f (rows s))" and "\<And>x. x \<in> set (rows s) \<Longrightarrow> P x \<Longrightarrow> f x = c"
  shows "select_one rows P s \<noteq> Inl e"
  using length_filter_distinct [OF assms, of P] by (simp add: select_one_def one_or_none_Inl)

lemma select_one_key:
  "distinct (map key (rows s)) \<Longrightarrow> r \<in> set (rows s) \<Longrightarrow> key r = i \<Longrightarrow>
   select_one rows (\<lambda>x. key x = i) s = Inr (Some r, s)"
  using filter_key_unique [of key "rows s" r]
  by (auto simp: select_one_def one_or_none_def ret_def)

lemma select_one_found:
  assumes "distinct (map f (rows s))" and "\<And>x. x \<in> set (rows s) \<Longrightarrow> P x \<Longrightarrow> f x = f r"
    and "r \<in> set (rows s)" and "P r"
  shows "select_one rows P s = Inr (Some r, s)"
proof -
  have "filter P (rows s) = [r]"
  proof -
    have "length (filter P (rows s)) \<le> 1" using assms(1,2) by (rule length_filter_distinct)
    moreover have "r \<in> set (filter P (rows s))" using assms(3,4) by simp
    ultimately show ?thesis by (cases "filter P (rows s)") auto
  qed
  then show ?thesis by (simp add: select_one_def one_or_none_def ret_def)
qed

subsection \<open>The contract of a table\<close>

locale row_store =
  fixes rows :: "'s \<Rightarrow> 'r list"
    and upd :: "('r list \<Rightarrow> 'r list) \<Rightarrow> 's \<Rightarrow> 's"
    and key :: "'r \<Rightarrow> uuid"
  assumes rows_upd: "rows (upd f s) = f (rows s)"
    and upd_upd: "upd g (upd f s) = upd (\<lambda>rs. g (f rs)) s"
begin

lemma add_then_select:
  assumes "add_row upd r s = Inr (u, s')" and "key r \<notin> key ` set (rows s)"
  shows "select_one rows (\<lambda>x. key x = key r) s' = Inr (Some r, s')"
proof -
  have "filter (\<lambda>x. key x = key r) (rows s) = []"
    using assms(2) by (auto simp: filter_empty_conv image_iff)
  with assms(1) show ?thesis by (simp add: rows_upd select_one_def one_or_none_def ret_def)
qed

lemma save_then_select:
  assumes "save_row upd key r s = Inr (u, s')" and "distinct (map key (rows s))"
    and "key r \<in> key ` set (rows s)"
  shows "select_one rows (\<lambda>x. key x = key r) s' = Inr (Some r, s')"
proof (rule select_one_key)
  show "distinct (map key (rows s'))" using assms(1,2) by (simp add: rows_upd)
  show "r \<in> set (rows s')" using assms(1,3) by (auto simp: rows_upd intro!: put_row_mem)
qed simp

lemma save_other:
  assumes "save_row upd key r s = Inr (u, s')" and "x \<in> set (rows s)" and "key x \<noteq> key r"
  shows "x \<in> set (rows s')"
  using assms by (simp add: rows_upd put_row_other)

lemma save_keeps_keys:
  "save_row upd key r s = Inr (u, s') \<Longrightarrow> map key (rows s') = map key (rows s)"
  by (simp add: rows_upd)

lemma save_save:
  assumes "save_row upd key r s = Inr (u, s1)" and "save_row upd key r' s1 = Inr (v, s2)"
    and "key r' = key r"
  shows "save_row upd key r' s = Inr (w, s2)"
proof -
  have "(\<lambda>rs. put_row key r' (put_row key r rs)) = put_row key r'"
    using assms(3) by (auto simp: put_row_def fun_eq_iff)
  with assms(1,2) show ?thesis by (simp add: upd_upd)
qed

end

end
