(* ===== verification/Text.thy ===== *)
theory Text
  imports Prelude
begin

section \<open>Python strings\<close>

text \<open>
  The string operations of the standard library that several components use, over lists of
  characters: \<open>strip\<close>, \<open>replace\<close>, hexadecimal text of a number and the constructor of \<open>UUID\<close>
  from text, with the round trip between them. Characters are the code points below 256.
\<close>

subsection \<open>Stripping and replacing\<close>

definition strip_set :: "char set \<Rightarrow> string \<Rightarrow> string" where
  "strip_set cs s = rev (dropWhile (\<lambda>c. c \<in> cs) (rev (dropWhile (\<lambda>c. c \<in> cs) s)))"

definition white :: "char set" where
  "white =
     {CHR 0x09, CHR 0x0A, CHR 0x0B, CHR 0x0C, CHR 0x0D, CHR 0x1C, CHR 0x1D, CHR 0x1E, CHR 0x1F,
      CHR 0x20, CHR 0x85, CHR 0xA0}"

definition strip_white :: "string \<Rightarrow> string" where
  "strip_white s = strip_set white s"

fun starts_with :: "string \<Rightarrow> string \<Rightarrow> bool" where
  "starts_with [] s = True"
| "starts_with (p # ps) [] = False"
| "starts_with (p # ps) (c # cs) = (p = c \<and> starts_with ps cs)"

definition ends_with :: "string \<Rightarrow> string \<Rightarrow> bool" where
  "ends_with p s = starts_with (rev p) (rev s)"

text \<open>\<open>s.replace(old, new)\<close> for a non-empty \<open>old\<close>.\<close>

function replace_text :: "string \<Rightarrow> string \<Rightarrow> string \<Rightarrow> string" where
  "replace_text old new [] = []"
| "replace_text old new (c # cs) =
     (if old \<noteq> [] \<and> starts_with old (c # cs)
      then new @ replace_text old new (drop (length old) (c # cs))
      else c # replace_text old new cs)"
  by pat_completeness auto
termination by (relation "measure (\<lambda>(old, new, s). length s)") auto

lemma strip_set_none: "(\<And>c. c \<in> set s \<Longrightarrow> c \<notin> cs) \<Longrightarrow> strip_set cs s = s"
  unfolding strip_set_def
  by (metis dropWhile_eq_self_iff hd_in_set list.set_sel(1) rev_rev_ident set_rev)

lemma starts_with_absent: "x \<notin> set s \<Longrightarrow> \<not> starts_with (x # p) s"
  by (cases s) auto

lemma replace_absent: "x \<notin> set s \<Longrightarrow> replace_text (x # p) new s = s"
proof (induction s)
  case (Cons c cs)
  then show ?case using starts_with_absent [of x "c # cs" p] by simp
qed simp

lemma starts_with_append: "starts_with p s \<longleftrightarrow> (\<exists>t. s = p @ t)"
  by (induction p s rule: starts_with.induct) auto

subsection \<open>Hexadecimal text\<close>

definition hex_value :: "char \<Rightarrow> nat option" where
  "hex_value c =
     (let n = of_char c :: nat in
      if 48 \<le> n \<and> n \<le> 57 then Some (n - 48)
      else if 97 \<le> n \<and> n \<le> 102 then Some (n - 87)
      else if 65 \<le> n \<and> n \<le> 70 then Some (n - 55)
      else None)"

text \<open>The digits of \<open>int(s, 16)\<close>: one underscore may stand between two digits.\<close>

fun hex_run :: "nat \<Rightarrow> string \<Rightarrow> nat option" where
  "hex_run acc [] = Some acc"
| "hex_run acc (c # cs) =
     (if c = CHR ''_''
      then (case cs of
              [] \<Rightarrow> None
            | d # ds \<Rightarrow>
                (case hex_value d of None \<Rightarrow> None | Some v \<Rightarrow> hex_run (16 * acc + v) ds))
      else (case hex_value c of None \<Rightarrow> None | Some v \<Rightarrow> hex_run (16 * acc + v) cs))"

definition hex_first :: "string \<Rightarrow> nat option" where
  "hex_first s =
     (case s of
        [] \<Rightarrow> None
      | c # cs \<Rightarrow> (case hex_value c of None \<Rightarrow> None | Some v \<Rightarrow> hex_run v cs))"

definition hex_int :: "string \<Rightarrow> nat option" where
  "hex_int s =
     (let t = strip_white s;
          t = (if starts_with ''+'' t then drop 1 t else t)
      in if starts_with ''0x'' t \<or> starts_with ''0X'' t
         then hex_first (if starts_with ''_'' (drop 2 t) then drop 3 t else drop 2 t)
         else hex_first t)"

text \<open>\<open>UUID(s)\<close> removes the URN prefixes, braces and hyphens and reads 32 hexadecimal characters.\<close>

definition uuid_of_text :: "string \<Rightarrow> exn + uuid" where
  "uuid_of_text s =
     (let h = filter (\<lambda>c. c \<noteq> CHR ''-'')
                (strip_set {CHR ''{'', CHR ''}''}
                   (replace_text ''uuid:'' [] (replace_text ''urn:'' [] s)))
      in if length h \<noteq> 32 then Inl (ValueError ''badly formed hexadecimal UUID string'')
         else (case hex_int h of
                 None \<Rightarrow> Inl (ValueError ''invalid literal'')
               | Some n \<Rightarrow> Inr n))"

fun hex_pad :: "nat \<Rightarrow> nat \<Rightarrow> string" where
  "hex_pad 0 u = []"
| "hex_pad (Suc n) u = hex_pad n (u div 16) @ [hex_chars ! (u mod 16)]"

definition uuid_text :: "uuid \<Rightarrow> string" where
  "uuid_text u =
     (let h = hex_pad 32 u in
      take 8 h @ ''-'' @ take 4 (drop 8 h) @ ''-'' @ take 4 (drop 12 h) @ ''-'' @
      take 4 (drop 16 h) @ ''-'' @ drop 20 h)"

lemma hex_digit_value: "n < 16 \<Longrightarrow> hex_value (hex_chars ! n) = Some n"
proof -
  have "list_all (\<lambda>n. hex_value (hex_chars ! n) = Some n) [0..<16]" by code_simp
  then show "n < 16 \<Longrightarrow> ?thesis" by (simp add: list_all_iff)
qed

lemma hex_digit_mem: "n < 16 \<Longrightarrow> hex_chars ! n \<in> set hex_chars"
  by (rule nth_mem) (simp add: hex_chars_def)

lemma hex_pad_chars: "set (hex_pad n u) \<subseteq> set hex_chars"
  by (induction n u rule: hex_pad.induct) (auto simp: hex_digit_mem)

lemma hex_pad_length [simp]: "length (hex_pad n u) = n"
  by (induction n u rule: hex_pad.induct) auto

lemma hex_run_append:
  "CHR ''_'' \<notin> set xs \<Longrightarrow>
   hex_run acc (xs @ ys) = (case hex_run acc xs of None \<Rightarrow> None | Some v \<Rightarrow> hex_run v ys)"
  by (induction xs arbitrary: acc) (auto split: option.splits)

lemma hex_run_pad: "hex_run acc (hex_pad n u) = Some (acc * 16 ^ n + u mod 16 ^ n)"
proof (induction n u arbitrary: acc rule: hex_pad.induct)
  case (2 n u)
  have "CHR ''_'' \<notin> set (hex_pad n (u div 16))"
    using hex_pad_chars [of n "u div 16"] by (auto simp: hex_chars_def)
  moreover have "hex_chars ! (u mod 16) \<noteq> CHR ''_''"
    using hex_digit_mem [of "u mod 16"] by (auto simp: hex_chars_def)
  moreover have "16 * (acc * 16 ^ n + u div 16 mod 16 ^ n) + u mod 16 = acc * 16 ^ Suc n + u mod 16 ^ Suc n"
    using mod_mult2_eq [of u 16 "16 ^ n"] by simp
  ultimately show ?case
    using "2.IH" by (simp add: hex_run_append hex_digit_value)
qed simp

lemma hex_first_run: "s \<noteq> [] \<Longrightarrow> CHR ''_'' \<notin> set s \<Longrightarrow> hex_first s = hex_run 0 s"
  by (cases s) (auto simp: hex_first_def split: option.splits)

lemma hex_int_pad:
  assumes "0 < n"
  shows "hex_int (hex_pad n u) = Some (u mod 16 ^ n)"
proof -
  have hex: "c \<in> set hex_chars" if "c \<in> set (hex_pad n u)" for c
    using that hex_pad_chars by blast
  have "strip_white (hex_pad n u) = hex_pad n u"
    unfolding strip_white_def by (rule strip_set_none) (auto dest!: hex simp: hex_chars_def white_def)
  moreover have "\<not> starts_with ''+'' (hex_pad n u)"
    by (rule starts_with_absent) (auto dest!: hex simp: hex_chars_def)
  moreover have "\<not> starts_with ''0x'' (hex_pad n u)" "\<not> starts_with ''0X'' (hex_pad n u)"
    using hex [of "CHR ''x''"] hex [of "CHR ''X''"]
    by (auto simp: starts_with_append hex_chars_def)
  moreover have "hex_first (hex_pad n u) = hex_run 0 (hex_pad n u)"
    using assms by (intro hex_first_run) (auto dest!: hex simp: hex_chars_def simp flip: length_greater_0_conv)
  ultimately show ?thesis by (simp add: hex_int_def hex_run_pad)
qed

lemma uuid_text_chars: "set (uuid_text u) \<subseteq> insert (CHR ''-'') (set hex_chars)"
  using hex_pad_chars [of 32 u]
  by (auto simp: uuid_text_def Let_def dest!: in_set_takeD in_set_dropD)

lemma uuid_text_hex: "filter (\<lambda>c. c \<noteq> CHR ''-'') (uuid_text u) = hex_pad 32 u"
proof -
  define h where "h = hex_pad 32 u"
  have plain: "filter (\<lambda>c. c \<noteq> CHR ''-'') xs = xs" if "set xs \<subseteq> set h" for xs
    using that hex_pad_chars [of 32 u] by (auto simp: filter_id_conv h_def hex_chars_def)
  have "h = take 8 h @ drop 8 h" by simp
  also have "drop 8 h = take 4 (drop 8 h) @ drop 4 (drop 8 h)"
    by (rule append_take_drop_id [symmetric])
  also have "drop 4 (drop 8 h) = take 4 (drop 12 h) @ drop 4 (drop 12 h)"
    using append_take_drop_id [of 4 "drop 12 h"] by simp
  also have "drop 4 (drop 12 h) = take 4 (drop 16 h) @ drop 20 h"
    using append_take_drop_id [of 4 "drop 16 h"] by simp
  finally have "h = take 8 h @ take 4 (drop 8 h) @ take 4 (drop 12 h) @ take 4 (drop 16 h) @ drop 20 h"
    by simp
  then show ?thesis
    unfolding uuid_text_def Let_def h_def [symmetric]
    by (simp add: plain set_take_subset set_drop_subset subset_trans [OF set_take_subset set_drop_subset])
qed

theorem uuid_round_trip:
  assumes "u < 2 ^ 128"
  shows "uuid_of_text (uuid_text u) = Inr u"
proof -
  have mem: "c = CHR ''-'' \<or> c \<in> set hex_chars" if "c \<in> set (uuid_text u)" for c
    using that uuid_text_chars by blast
  have "replace_text ''urn:'' [] (uuid_text u) = uuid_text u"
    "replace_text ''uuid:'' [] (uuid_text u) = uuid_text u"
    by (rule replace_absent, use mem [of "CHR ''u''"] in \<open>auto simp: hex_chars_def\<close>)+
  moreover have "strip_set {CHR ''{'', CHR ''}''} (uuid_text u) = uuid_text u"
    by (rule strip_set_none) (auto dest!: mem simp: hex_chars_def)
  ultimately show ?thesis
    using assms by (simp add: uuid_of_text_def uuid_text_hex hex_int_pad)
qed

subsection \<open>Decimal text\<close>

fun digits :: "nat \<Rightarrow> string" where
  "digits n = (if n < 10 then [char_of (48 + n)] else digits (n div 10) @ [char_of (48 + n mod 10)])"

declare digits.simps [simp del]

definition int_text :: "int \<Rightarrow> string" where
  "int_text n = (if n < 0 then ''-'' @ digits (nat (- n)) else digits (nat n))"

definition digit_value :: "char \<Rightarrow> nat option" where
  "digit_value c = (let n = of_char c :: nat in if 48 \<le> n \<and> n \<le> 57 then Some (n - 48) else None)"

text \<open>The digits of \<open>int(s)\<close>: one underscore may stand between two digits.\<close>

fun digit_run :: "nat \<Rightarrow> string \<Rightarrow> nat option" where
  "digit_run acc [] = Some acc"
| "digit_run acc (c # cs) =
     (if c = CHR ''_''
      then (case cs of
              [] \<Rightarrow> None
            | d # ds \<Rightarrow>
                (case digit_value d of None \<Rightarrow> None | Some v \<Rightarrow> digit_run (10 * acc + v) ds))
      else (case digit_value c of None \<Rightarrow> None | Some v \<Rightarrow> digit_run (10 * acc + v) cs))"

definition digit_first :: "string \<Rightarrow> nat option" where
  "digit_first s =
     (case s of
        [] \<Rightarrow> None
      | c # cs \<Rightarrow> (case digit_value c of None \<Rightarrow> None | Some v \<Rightarrow> digit_run v cs))"

definition parse_int :: "string \<Rightarrow> int option" where
  "parse_int s =
     (let t = strip_white s in
      if starts_with ''-'' t then map_option (\<lambda>n. - int n) (digit_first (drop 1 t))
      else if starts_with ''+'' t then map_option int (digit_first (drop 1 t))
      else map_option int (digit_first t))"

lemma digit_char:
  assumes "n < 10"
  shows "digit_value (char_of (48 + n)) = Some n \<and> char_of (48 + n) \<noteq> CHR ''_''"
proof -
  have n: "of_char (char_of (48 + n)) = 48 + n" using assms by simp
  have "char_of (48 + n) \<noteq> CHR ''_''"
  proof
    assume "char_of (48 + n) = CHR ''_''"
    then have "48 + n = of_char (CHR ''_'')" using n by metis
    then show False using assms by simp
  qed
  with n show ?thesis using assms by (simp add: digit_value_def Let_def)
qed

lemma digits_chars: "c \<in> set (digits n) \<Longrightarrow> \<exists>d < (10::nat). c = char_of (48 + d)"
proof (induction n rule: digits.induct)
  case (1 n)
  show ?case
  proof (cases "n < 10")
    case True
    with 1 show ?thesis by (auto simp: digits.simps [of n])
  next
    case False
    with 1 show ?thesis by (auto simp: digits.simps [of n] intro: exI [of _ "n mod 10"])
  qed
qed

lemma digits_nonempty [simp]: "digits n \<noteq> []"
  by (simp add: digits.simps [of n])

lemma digit_run_append:
  "CHR ''_'' \<notin> set xs \<Longrightarrow>
   digit_run acc (xs @ ys) = (case digit_run acc xs of None \<Rightarrow> None | Some v \<Rightarrow> digit_run v ys)"
  by (induction xs arbitrary: acc) (auto split: option.splits)

lemma digits_plain: "CHR ''_'' \<notin> set (digits n)"
  using digits_chars digit_char by metis

lemma digit_run_digits: "digit_run 0 (digits n) = Some n"
proof (induction n rule: digits.induct)
  case (1 n)
  show ?case
  proof (cases "n < 10")
    case True
    then show ?thesis using digit_char [of n] by (simp add: digits.simps [of n])
  next
    case False
    then show ?thesis
      using 1 digits_plain [of "n div 10"] digit_char [of "n mod 10"]
      by (simp add: digits.simps [of n] digit_run_append)
  qed
qed

lemma digit_first_digits: "digit_first (digits n) = Some n"
proof -
  obtain c cs where c: "digits n = c # cs" by (cases "digits n") auto
  then have "c \<noteq> CHR ''_''" using digits_plain [of n] by auto
  then show ?thesis using digit_run_digits [of n] c by (simp add: digit_first_def split: option.splits)
qed

lemma digits_not_white: "c \<in> set (digits n) \<Longrightarrow> c \<notin> white \<and> c \<noteq> CHR ''-'' \<and> c \<noteq> CHR ''+''"
proof -
  assume "c \<in> set (digits n)"
  then obtain d :: nat where "d < 10" "c = char_of (48 + d)" using digits_chars by blast
  moreover have "list_all (\<lambda>d::nat. char_of (48 + d) \<notin> white \<and> char_of (48 + d) \<noteq> CHR ''-'' \<and>
      char_of (48 + d) \<noteq> CHR ''+'') [0..<10]"
    unfolding white_def by code_simp
  ultimately show ?thesis by (simp add: list_all_iff)
qed

lemma parse_int_text: "0 \<le> n \<Longrightarrow> parse_int (int_text n) = Some n"
proof -
  assume n: "0 \<le> n"
  have s: "strip_white (digits (nat n)) = digits (nat n)"
    unfolding strip_white_def using digits_not_white by (intro strip_set_none) blast
  have "\<not> starts_with ''-'' (digits (nat n))" "\<not> starts_with ''+'' (digits (nat n))"
    using digits_not_white by (metis starts_with_absent)+
  with s n show ?thesis by (simp add: parse_int_def int_text_def Let_def digit_first_digits)
qed

end
