(* ===== verification/Jobs.thy ===== *)
theory Jobs
  imports Row_Store Text
begin

section \<open>The durable job queue\<close>

text \<open>
  \<^verbatim>\<open>app/shared/jobs\<close>: the table of jobs with its constraints (\<^verbatim>\<open>models.py\<close>), the lease
  operations enqueue, claim, fence, expired, finish and heartbeat (\<^verbatim>\<open>store.py\<close>), one cycle of
  the runner (\<^verbatim>\<open>runner.py\<close>), and the two ways the services cancel a job.
\<close>

subsection \<open>The table\<close>

datatype job_kind = SYNC_PULL_REQUESTS | ANALYZE_PR | EXPLAIN_FINDINGS | PROCESS_WEBHOOK

datatype job_state = READY | LEASED | SUCCEEDED | DEAD | CANCELED

datatype outcome = OUT_RETRY | OUT_FAILED | OUT_SUCCEEDED | OUT_CANCELED

text \<open>One element of the JSON column \<open>attempt_history\<close>.\<close>

record attempt =
  att_attempt :: int
  att_generation :: int
  att_started_at :: datetime
  att_finished_at :: "datetime option"
  att_outcome :: "outcome option"
  att_error_code :: "string option"

record job =
  job_id :: uuid
  job_workspace_id :: "uuid option"
  job_kind :: job_kind
  job_aggregate_id :: uuid
  job_dedupe_key :: string
  job_state :: job_state
  job_attempts :: int
  job_max_attempts :: int
  job_available_at :: datetime
  job_lease_until :: "datetime option"
  job_lease_generation :: int
  job_claimed_by :: "string option"
  job_completed_at :: "datetime option"
  job_error_code :: "string option"
  job_attempt_history :: "attempt list"

record job_tables =
  jobs :: "job list"

definition job_row_ok :: "job \<Rightarrow> bool" where
  "job_row_ok j \<longleftrightarrow>
     0 \<le> job_attempts j \<and> job_attempts j \<le> job_max_attempts j \<and> 0 < job_max_attempts j \<and>
     0 \<le> job_lease_generation j \<and>
     (job_state j = LEASED \<and> job_lease_until j \<noteq> None \<and> job_claimed_by j \<noteq> None \<or>
      job_state j \<noteq> LEASED \<and> job_lease_until j = None \<and> job_claimed_by j = None) \<and>
     (job_state j \<in> {SUCCEEDED, DEAD, CANCELED}) = (job_completed_at j \<noteq> None) \<and>
     (job_workspace_id j \<noteq> None \<or> job_kind j = PROCESS_WEBHOOK) \<and>
     is_hex 64 (job_dedupe_key j)"

definition jobs_ok :: "job list \<Rightarrow> bool" where
  "jobs_ok js \<longleftrightarrow>
     distinct (map job_id js) \<and>
     distinct (map job_dedupe_key js) \<and>
     distinct (map (\<lambda>j. (job_kind j, job_aggregate_id j)) js) \<and>
     list_all job_row_ok js"

definition jobs_schema :: "'a job_tables_scheme \<Rightarrow> bool" where
  "jobs_schema s = jobs_ok (jobs s)"

interpretation job_store: row_store jobs jobs_update job_id
  by unfold_locales simp_all

subsection \<open>Enqueue\<close>

fun kind_text :: "job_kind \<Rightarrow> string" where
  "kind_text SYNC_PULL_REQUESTS = ''SYNC_PULL_REQUESTS''"
| "kind_text ANALYZE_PR = ''ANALYZE_PR''"
| "kind_text EXPLAIN_FINDINGS = ''EXPLAIN_FINDINGS''"
| "kind_text PROCESS_WEBHOOK = ''PROCESS_WEBHOOK''"

definition dedupe_text :: "job_kind \<Rightarrow> uuid \<Rightarrow> uuid option \<Rightarrow> string" where
  "dedupe_text kind aggregate wid =
     kind_text kind @ '':'' @ uuid_text aggregate @ '':'' @
     (case wid of None \<Rightarrow> ''None'' | Some w \<Rightarrow> uuid_text w)"

text \<open>
  The columns \<open>enqueue\<close> does not set take their server defaults; \<open>sha\<close> is the hex digest of
  SHA-256, \<open>jid\<close> the fresh primary key and \<open>now\<close> the transaction time.
\<close>

definition new_job ::
  "(string \<Rightarrow> string) \<Rightarrow> datetime \<Rightarrow> uuid \<Rightarrow> job_kind \<Rightarrow> uuid \<Rightarrow> uuid option \<Rightarrow> job" where
  "new_job sha now jid kind aggregate wid =
     \<lparr>job_id = jid, job_workspace_id = wid, job_kind = kind, job_aggregate_id = aggregate,
      job_dedupe_key = sha (dedupe_text kind aggregate wid), job_state = READY,
      job_attempts = 0, job_max_attempts = 3, job_available_at = now, job_lease_until = None,
      job_lease_generation = 0, job_claimed_by = None, job_completed_at = None,
      job_error_code = None, job_attempt_history = []\<rparr>"

definition enqueue_job ::
  "(string \<Rightarrow> string) \<Rightarrow> datetime \<Rightarrow> uuid \<Rightarrow> job_kind \<Rightarrow> uuid \<Rightarrow> uuid option \<Rightarrow>
   ('a job_tables_scheme, unit) txn" where
  "enqueue_job sha now jid kind aggregate wid =
     add_row jobs_update (new_job sha now jid kind aggregate wid)"

subsection \<open>Claim, fence, expiry, heartbeat\<close>

record claim =
  claim_id :: uuid
  claim_aggregate_id :: uuid
  claim_workspace_id :: "uuid option"
  claim_kind :: job_kind
  claim_generation :: int
  claim_worker :: string

definition claim_of :: "job \<Rightarrow> string \<Rightarrow> claim" where
  "claim_of j worker =
     \<lparr>claim_id = job_id j, claim_aggregate_id = job_aggregate_id j,
      claim_workspace_id = job_workspace_id j, claim_kind = job_kind j,
      claim_generation = job_lease_generation j, claim_worker = worker\<rparr>"

text \<open>
  \<open>for update skip locked\<close>: rows that concurrent transactions hold (\<open>locked\<close>) are passed over.
\<close>

definition claimable :: "uuid list \<Rightarrow> datetime \<Rightarrow> job_kind list \<Rightarrow> job \<Rightarrow> bool" where
  "claimable locked now kinds j \<longleftrightarrow>
     job_state j = READY \<and> job_available_at j \<le> now \<and> job_kind j \<in> set kinds \<and>
     job_id j \<notin> set locked"

definition ready_order :: "job \<Rightarrow> datetime \<times> uuid" where
  "ready_order j = (job_available_at j, job_id j)"

definition next_ready :: "uuid list \<Rightarrow> datetime \<Rightarrow> job_kind list \<Rightarrow> job list \<Rightarrow> job option" where
  "next_ready locked now kinds js =
     (case sort_key ready_order (filter (claimable locked now kinds) js) of
        [] \<Rightarrow> None
      | j # _ \<Rightarrow> Some j)"

definition lease :: "datetime \<Rightarrow> string \<Rightarrow> job \<Rightarrow> job" where
  "lease now worker j =
     j\<lparr>job_state := LEASED,
       job_attempts := job_attempts j + 1,
       job_lease_generation := job_lease_generation j + 1,
       job_claimed_by := Some worker,
       job_lease_until := Some (now + seconds 60),
       job_attempt_history := job_attempt_history j @
         [\<lparr>att_attempt = job_attempts j + 1, att_generation = job_lease_generation j + 1,
           att_started_at = now, att_finished_at = None, att_outcome = None,
           att_error_code = None\<rparr>]\<rparr>"

definition claim_job ::
  "uuid list \<Rightarrow> datetime \<Rightarrow> string \<Rightarrow> job_kind list \<Rightarrow> ('a job_tables_scheme, claim option) txn" where
  "claim_job locked now worker kinds =
     bind (gets (\<lambda>s. next_ready locked now kinds (jobs s))) (\<lambda>found.
     case found of
       None \<Rightarrow> ret None
     | Some j \<Rightarrow>
         bind (save_row jobs_update job_id (lease now worker j)) (\<lambda>_.
         bind (flush jobs_schema) (\<lambda>_.
         ret (Some (claim_of (lease now worker j) worker)))))"

definition holds_lease :: "claim \<Rightarrow> job \<Rightarrow> bool" where
  "holds_lease c j \<longleftrightarrow>
     job_state j = LEASED \<and> job_lease_generation j = claim_generation c \<and>
     job_claimed_by j = Some (claim_worker c) \<and> job_lease_until j \<noteq> None"

definition fence :: "datetime \<Rightarrow> claim \<Rightarrow> bool \<Rightarrow> ('a job_tables_scheme, job option) txn" where
  "fence now c expired =
     bind (select_one jobs (\<lambda>j. job_id j = claim_id c)) (\<lambda>found.
     case found of
       None \<Rightarrow> ret None
     | Some j \<Rightarrow>
         if \<not> holds_lease c j then ret None
         else if (the (job_lease_until j) \<le> now) \<noteq> expired then ret None
         else ret (Some j))"

definition lease_expired :: "datetime \<Rightarrow> job \<Rightarrow> bool" where
  "lease_expired now j \<longleftrightarrow>
     job_state j = LEASED \<and> (case job_lease_until j of None \<Rightarrow> False | Some t \<Rightarrow> t \<le> now)"

text \<open>An unordered query with a limit; the model takes the rows in table order.\<close>

definition expired_claims ::
  "datetime \<Rightarrow> job_kind list \<Rightarrow> ('a job_tables_scheme, claim list) txn" where
  "expired_claims now kinds =
     bind (select_all jobs (\<lambda>j. lease_expired now j \<and> job_kind j \<in> set kinds)) (\<lambda>rows.
     ret (map (\<lambda>j. claim_of j (case job_claimed_by j of None \<Rightarrow> [] | Some w \<Rightarrow> w)) (take 50 rows)))"

definition heartbeat :: "datetime \<Rightarrow> datetime \<Rightarrow> claim \<Rightarrow> ('a job_tables_scheme, bool) txn" where
  "heartbeat now now' c =
     bind (fence now c False) (\<lambda>found.
     case found of
       None \<Rightarrow> ret False
     | Some j \<Rightarrow>
         bind (save_row jobs_update job_id (j\<lparr>job_lease_until := Some (now' + seconds 60)\<rparr>)) (\<lambda>_.
         ret True))"

text \<open>
  The renewal task of the runner wakes every 15 seconds until a heartbeat fails or the handler is
  done; the list holds the two clock readings of each wake-up before it is cancelled. A database
  error ends the task.
\<close>

fun renew ::
  "('a job_tables_scheme \<Rightarrow> bool) \<Rightarrow> (datetime \<times> datetime) list \<Rightarrow> claim \<Rightarrow>
   'a job_tables_scheme \<Rightarrow> 'a job_tables_scheme" where
  "renew ok [] c s = s"
| "renew ok ((now, now') # wakes) c s =
     (case transaction ok (heartbeat now now' c) s of
        (Inr True, s') \<Rightarrow> renew ok wakes c s'
      | (_, s') \<Rightarrow> s')"

subsection \<open>Finish and cancel\<close>

text \<open>\<open>history[-1].update(...)\<close> raises on an empty history.\<close>

definition close_last ::
  "datetime \<Rightarrow> outcome \<Rightarrow> string option \<Rightarrow> attempt list \<Rightarrow> exn + attempt list" where
  "close_last now out code h =
     (if h = [] then Inl IndexError
      else Inr (butlast h @
        [(last h)\<lparr>att_finished_at := Some now, att_outcome := Some out, att_error_code := code\<rparr>]))"

definition finish ::
  "datetime \<Rightarrow> string option \<Rightarrow> bool \<Rightarrow> int \<Rightarrow> job \<Rightarrow> exn + job" where
  "finish now code retry delay j =
     (let again = (truthy code \<and> retry \<and> job_attempts j < job_max_attempts j);
          out = (if again then OUT_RETRY else if truthy code then OUT_FAILED else OUT_SUCCEEDED)
      in case close_last now out code (job_attempt_history j) of
           Inl e \<Rightarrow> Inl e
         | Inr h \<Rightarrow> Inr (j\<lparr>
             job_state := (if again then READY else if truthy code then DEAD else SUCCEEDED),
             job_error_code := code,
             job_lease_until := None,
             job_claimed_by := None,
             job_completed_at := (if again then None else Some now),
             job_available_at :=
               (if again then now + seconds (max delay (if job_attempts j = 1 then 5 else 30))
                else job_available_at j),
             job_attempt_history := h\<rparr>))"

definition finish_job ::
  "datetime \<Rightarrow> string option \<Rightarrow> bool \<Rightarrow> int \<Rightarrow> job \<Rightarrow> ('a job_tables_scheme, job) txn" where
  "finish_job now code retry delay j =
     (case finish now code retry delay j of
        Inl e \<Rightarrow> raise e
      | Inr j' \<Rightarrow> bind (save_row jobs_update job_id j') (\<lambda>_. ret j'))"

text \<open>
  The pattern all four workers complete a claim with: the fence, then \<open>finish\<close> on the fenced row.
\<close>

definition fenced_finish ::
  "datetime \<Rightarrow> claim \<Rightarrow> bool \<Rightarrow> datetime \<Rightarrow> string option \<Rightarrow> bool \<Rightarrow> int \<Rightarrow>
   ('a job_tables_scheme, job option) txn" where
  "fenced_finish now c expired now' code retry delay =
     bind (fence now c expired) (\<lambda>found.
     case found of
       None \<Rightarrow> ret None
     | Some j \<Rightarrow> bind (finish_job now' code retry delay j) (\<lambda>j'. ret (Some j')))"

text \<open>
  Two workers turn the dead job of an unauthorised run into a cancelled one; the webhook worker
  also rewrites the outcome of the attempt it has just closed.
\<close>

definition cancel_finished :: "bool \<Rightarrow> job \<Rightarrow> job" where
  "cancel_finished mark j =
     j\<lparr>job_state := CANCELED,
       job_attempt_history :=
         (let h = job_attempt_history j in
          if mark then butlast h @ [(last h)\<lparr>att_outcome := Some OUT_CANCELED\<rparr>] else h)\<rparr>"

text \<open>
  The job part of \<open>AnalysisService.cancel\<close>: the open attempt of a leased job is closed.
\<close>

definition cancel_analysis_job :: "datetime \<Rightarrow> job \<Rightarrow> job" where
  "cancel_analysis_job now j =
     (let h = job_attempt_history j;
          h' = (if job_state j = LEASED \<and> h \<noteq> []
                then butlast h @ [(last h)\<lparr>att_finished_at := Some now,
                       att_outcome := Some OUT_CANCELED,
                       att_error_code := Some ''USER_CANCELED''\<rparr>]
                else h)
      in j\<lparr>job_attempt_history := h', job_state := CANCELED, job_completed_at := Some now,
           job_lease_until := None, job_claimed_by := None,
           job_error_code := Some ''USER_CANCELED''\<rparr>)"

text \<open>The job part of \<open>ReviewService.cancel\<close>: the last attempt is closed in any state.\<close>

definition cancel_review_job :: "datetime \<Rightarrow> job \<Rightarrow> job" where
  "cancel_review_job now j =
     (let h = job_attempt_history j;
          h' = (if h \<noteq> []
                then butlast h @ [(last h)\<lparr>att_finished_at := Some now,
                       att_outcome := Some OUT_CANCELED,
                       att_error_code := Some ''USER_CANCELED''\<rparr>]
                else h)
      in j\<lparr>job_state := CANCELED, job_completed_at := Some now, job_lease_until := None,
           job_claimed_by := None, job_error_code := Some ''USER_CANCELED'',
           job_attempt_history := h'\<rparr>)"

subsection \<open>One cycle of the runner\<close>

text \<open>
  A handler runs its own transactions; whatever it raises is logged and dropped. \<open>handlers\<close> is
  the dictionary from kinds to handlers, \<open>now\<close> and \<open>now'\<close> the two clock readings of the cycle.
  The result says whether a job was run (otherwise the runner sleeps).
\<close>

type_synonym 's handler = "claim \<Rightarrow> bool \<Rightarrow> 's \<Rightarrow> (exn + unit) \<times> 's"

definition run_handler :: "(job_kind \<times> 's handler) list \<Rightarrow> claim \<Rightarrow> bool \<Rightarrow> 's \<Rightarrow> 's" where
  "run_handler handlers c expired s =
     (case map_of handlers (claim_kind c) of
        None \<Rightarrow> s
      | Some h \<Rightarrow> snd (h c expired s))"

fun recover :: "(job_kind \<times> 's handler) list \<Rightarrow> claim list \<Rightarrow> 's \<Rightarrow> 's" where
  "recover handlers [] s = s"
| "recover handlers (c # cs) s = recover handlers cs (run_handler handlers c True s)"

definition cycle ::
  "('a job_tables_scheme \<Rightarrow> bool) \<Rightarrow> (job_kind \<times> 'a job_tables_scheme handler) list \<Rightarrow> string \<Rightarrow>
   uuid list \<Rightarrow> datetime \<Rightarrow> datetime \<Rightarrow> 'a job_tables_scheme \<Rightarrow> (exn + bool) \<times> 'a job_tables_scheme" where
  "cycle ok handlers worker locked now now' s =
     (case transaction ok (expired_claims now (map fst handlers)) s of
        (Inl e, s1) \<Rightarrow> (Inl e, s1)
      | (Inr stale, s1) \<Rightarrow>
          (case transaction ok (claim_job locked now' worker (map fst handlers))
                  (recover handlers stale s1) of
             (Inl e, s3) \<Rightarrow> (Inl e, s3)
           | (Inr None, s3) \<Rightarrow> (Inr False, s3)
           | (Inr (Some c), s3) \<Rightarrow> (Inr True, run_handler handlers c False s3)))"

end
