(* ===== verification/Job_Queue.thy ===== *)
theory Job_Queue
  imports Jobs Transition_System
begin

section \<open>Correctness of the job queue\<close>

text \<open>
  The design invariant of a job row (attempts, generation and history agree, a ready job has an
  attempt left), its preservation by every operation, the transition system of the queue and
  what holds in all its reachable states, and the fencing theorems the workers rest on.
\<close>

subsection \<open>The invariant of a row\<close>

definition history_ok :: "job \<Rightarrow> bool" where
  "history_ok j \<longleftrightarrow>
     map att_attempt (job_attempt_history j) = [1..job_attempts j] \<and>
     map att_generation (job_attempt_history j) = [1..job_lease_generation j] \<and>
     list_all (\<lambda>a. att_finished_at a \<noteq> None) (butlast (job_attempt_history j)) \<and>
     (job_attempt_history j \<noteq> [] \<longrightarrow>
        (att_finished_at (last (job_attempt_history j)) = None) = (job_state j = LEASED))"

definition job_inv :: "job \<Rightarrow> bool" where
  "job_inv j \<longleftrightarrow>
     job_row_ok j \<and>
     job_lease_generation j = job_attempts j \<and>
     (job_state j = READY \<longrightarrow> job_attempts j < job_max_attempts j) \<and>
     (job_state j = LEASED \<longrightarrow> 0 < job_attempts j) \<and>
     history_ok j"

lemma history_length: "history_ok j \<Longrightarrow> length (job_attempt_history j) = nat (job_attempts j)"
  unfolding history_ok_def
  by (metis length_map length_upto add.commute add_diff_cancel_left' diff_add_eq)

lemma history_nonempty:
  "job_inv j \<Longrightarrow> 0 < job_attempts j \<Longrightarrow> job_attempt_history j \<noteq> []"
  using history_length [of j] by (auto simp: job_inv_def)

lemma leased_history_nonempty:
  "job_inv j \<Longrightarrow> job_state j = LEASED \<Longrightarrow> job_attempt_history j \<noteq> []"
  using history_nonempty [of j] by (simp add: job_inv_def)

lemma job_inv_row_ok: "job_inv j \<Longrightarrow> job_row_ok j"
  by (simp add: job_inv_def)

lemma job_inv_new:
  "is_hex 64 (sha (dedupe_text kind aggregate wid)) \<Longrightarrow>
   wid \<noteq> None \<or> kind = PROCESS_WEBHOOK \<Longrightarrow>
   job_inv (new_job sha now jid kind aggregate wid)"
  by (auto simp: job_inv_def job_row_ok_def history_ok_def new_job_def)

lemma lease_keeps [simp]:
  "job_id (lease now worker j) = job_id j" "job_kind (lease now worker j) = job_kind j"
  "job_dedupe_key (lease now worker j) = job_dedupe_key j"
  "job_aggregate_id (lease now worker j) = job_aggregate_id j"
  "job_state (lease now worker j) = LEASED"
  "job_lease_generation (lease now worker j) = job_lease_generation j + 1"
  by (simp_all add: lease_def)

lemma job_inv_lease:
  assumes "job_inv j" and "job_state j = READY"
  shows "job_inv (lease now worker j)"
proof -
  have pos: "0 \<le> job_attempts j" and lt: "job_attempts j < job_max_attempts j"
    using assms by (auto simp: job_inv_def job_row_ok_def)
  have up: "[1..job_attempts j + 1] = [1..job_attempts j] @ [job_attempts j + 1]"
    using pos by (simp add: upto_rec2)
  have closed: "list_all (\<lambda>a. att_finished_at a \<noteq> None) (job_attempt_history j)"
  proof (cases "job_attempt_history j = []")
    case False
    with assms have "att_finished_at (last (job_attempt_history j)) \<noteq> None"
      by (simp add: job_inv_def history_ok_def)
    moreover have "list_all (\<lambda>a. att_finished_at a \<noteq> None) (butlast (job_attempt_history j))"
      using assms by (simp add: job_inv_def history_ok_def)
    ultimately have "list_all (\<lambda>a. att_finished_at a \<noteq> None)
        (butlast (job_attempt_history j) @ [last (job_attempt_history j)])" by simp
    with False show ?thesis by simp
  qed simp
  show ?thesis
    using assms pos lt up closed
    by (auto simp: job_inv_def job_row_ok_def history_ok_def lease_def)
qed

text \<open>Closing the last attempt keeps the numbering.\<close>

lemma close_last_map:
  assumes "close_last now out code h = Inr h'"
  shows "map att_attempt h' = map att_attempt h" and "map att_generation h' = map att_generation h"
    and "butlast h' = butlast h" and "h' \<noteq> []" and "att_finished_at (last h') = Some now"
proof -
  from assms obtain g a where h: "h = g @ [a]"
    by (cases h rule: rev_cases) (auto simp: close_last_def)
  with assms have h': "h' = g @ [a\<lparr>att_finished_at := Some now, att_outcome := Some out,
      att_error_code := code\<rparr>]"
    by (auto simp: close_last_def)
  show "map att_attempt h' = map att_attempt h" "map att_generation h' = map att_generation h"
    "butlast h' = butlast h" "h' \<noteq> []" "att_finished_at (last h') = Some now"
    by (simp_all add: h h')
qed

lemma finish_Inr:
  assumes "finish now code retry delay j = Inr j'"
  obtains h again where
    "close_last now (if again then OUT_RETRY else if truthy code then OUT_FAILED else OUT_SUCCEEDED)
       code (job_attempt_history j) = Inr h"
    "again = (truthy code \<and> retry \<and> job_attempts j < job_max_attempts j)"
    "j' = j\<lparr>job_state := (if again then READY else if truthy code then DEAD else SUCCEEDED),
            job_error_code := code, job_lease_until := None, job_claimed_by := None,
            job_completed_at := (if again then None else Some now),
            job_available_at :=
              (if again then now + seconds (max delay (if job_attempts j = 1 then 5 else 30))
               else job_available_at j),
            job_attempt_history := h\<rparr>"
  using assms by (auto simp: finish_def Let_def split: sum.splits)

lemma finish_total:
  "job_attempt_history j \<noteq> [] \<Longrightarrow> \<exists>j'. finish now code retry delay j = Inr j'"
  by (simp add: finish_def close_last_def Let_def)

lemma finish_keeps:
  assumes "finish now code retry delay j = Inr j'"
  shows "job_id j' = job_id j" "job_dedupe_key j' = job_dedupe_key j" "job_kind j' = job_kind j"
    "job_aggregate_id j' = job_aggregate_id j" "job_attempts j' = job_attempts j"
    "job_max_attempts j' = job_max_attempts j" "job_workspace_id j' = job_workspace_id j"
    "job_lease_generation j' = job_lease_generation j" "job_state j' \<noteq> LEASED"
  using assms by (auto elim!: finish_Inr split: if_splits)

lemma job_inv_finish:
  assumes inv: "job_inv j" and fin: "finish now code retry delay j = Inr j'"
  shows "job_inv j'"
  using fin
proof (rule finish_Inr)
  fix h again
  assume cl: "close_last now
      (if again then OUT_RETRY else if truthy code then OUT_FAILED else OUT_SUCCEEDED)
      code (job_attempt_history j) = Inr h"
    and again: "again = (truthy code \<and> retry \<and> job_attempts j < job_max_attempts j)"
    and j': "j' = j\<lparr>job_state := (if again then READY else if truthy code then DEAD else SUCCEEDED),
            job_error_code := code, job_lease_until := None, job_claimed_by := None,
            job_completed_at := (if again then None else Some now),
            job_available_at :=
              (if again then now + seconds (max delay (if job_attempts j = 1 then 5 else 30))
               else job_available_at j),
            job_attempt_history := h\<rparr>"
  show "job_inv j'"
    using inv close_last_map [OF cl] again
    unfolding j' by (auto simp: job_inv_def job_row_ok_def history_ok_def)
qed

lemma closed_history_ok:
  assumes "history_ok j" and "job_attempt_history j \<noteq> []" and "st \<noteq> LEASED"
  shows "history_ok (j\<lparr>job_state := st, job_attempt_history := butlast (job_attempt_history j) @
           [(last (job_attempt_history j))\<lparr>att_finished_at := Some now, att_outcome := Some out,
              att_error_code := code\<rparr>]\<rparr>)"
  using close_last_map [of now out code "job_attempt_history j"] assms
  by (auto simp: history_ok_def close_last_def)

lemma history_ok_cong:
  "job_attempt_history j = job_attempt_history j' \<Longrightarrow> job_attempts j = job_attempts j' \<Longrightarrow>
   job_lease_generation j = job_lease_generation j' \<Longrightarrow>
   (job_state j = LEASED) = (job_state j' = LEASED) \<Longrightarrow> history_ok j = history_ok j'"
  by (simp add: history_ok_def)

lemmas job_inv_defs = job_inv_def job_row_ok_def history_ok_def

lemma job_inv_cancel_analysis:
  assumes "job_inv j"
  shows "job_inv (cancel_analysis_job now j)"
proof (cases "job_attempt_history j" rule: rev_cases)
  case Nil
  with assms leased_history_nonempty [OF assms] show ?thesis
    by (simp add: cancel_analysis_job_def Let_def job_inv_defs)
next
  case (snoc g a)
  show ?thesis
  proof (cases "job_state j = LEASED")
    case True
    with assms snoc show ?thesis
      by (simp add: cancel_analysis_job_def Let_def job_inv_defs)
  next
    case False
    with assms snoc show ?thesis
      by (simp add: cancel_analysis_job_def Let_def job_inv_defs)
  qed
qed

lemma job_inv_cancel_review:
  assumes "job_inv j"
  shows "job_inv (cancel_review_job now j)"
proof (cases "job_attempt_history j" rule: rev_cases)
  case Nil
  with assms show ?thesis
    by (simp add: cancel_review_job_def Let_def job_inv_defs)
next
  case (snoc g a)
  with assms show ?thesis
    by (simp add: cancel_review_job_def Let_def job_inv_defs)
qed

lemma job_inv_cancel_finished:
  assumes inv: "job_inv j" and dead: "job_state j = DEAD"
    and some: "mark \<Longrightarrow> job_attempt_history j \<noteq> []"
  shows "job_inv (cancel_finished mark j)"
proof (cases "job_attempt_history j" rule: rev_cases)
  case Nil
  with assms have "\<not> mark" by blast
  with assms Nil show ?thesis
    by (simp add: cancel_finished_def Let_def job_inv_defs)
next
  case (snoc g a)
  with assms show ?thesis
    by (cases mark) (simp_all add: cancel_finished_def Let_def job_inv_defs)
qed

lemma job_inv_extend:
  "job_inv j \<Longrightarrow> job_state j = LEASED \<Longrightarrow> job_inv (j\<lparr>job_lease_until := Some t\<rparr>)"
  by (auto simp: job_inv_def job_row_ok_def history_ok_def)

subsection \<open>The invariant of the table\<close>

definition jobs_inv :: "'a job_tables_scheme \<Rightarrow> bool" where
  "jobs_inv s \<longleftrightarrow> jobs_schema s \<and> list_all job_inv (jobs s)"

lemma jobs_inv_row: "jobs_inv s \<Longrightarrow> j \<in> set (jobs s) \<Longrightarrow> job_inv j"
  by (simp add: jobs_inv_def list_all_iff)

lemma jobs_inv_schema: "jobs_inv s \<Longrightarrow> jobs_schema s"
  by (simp add: jobs_inv_def)

lemma jobs_inv_ids: "jobs_inv s \<Longrightarrow> distinct (map job_id (jobs s))"
  by (simp add: jobs_inv_def jobs_schema_def jobs_ok_def)

text \<open>Writing back a changed row whose identifying columns are untouched.\<close>

lemma jobs_inv_save:
  assumes inv: "jobs_inv s" and old: "j \<in> set (jobs s)" and new: "job_inv j'"
    and same: "job_id j' = job_id j" "job_dedupe_key j' = job_dedupe_key j"
      "job_kind j' = job_kind j" "job_aggregate_id j' = job_aggregate_id j"
  shows "jobs_inv (jobs_update (put_row job_id j') s)"
proof -
  have row: "x = j" if "x \<in> set (jobs s)" "job_id x = job_id j'" for x
    using that old same(1) jobs_inv_ids [OF inv] by (auto dest: distinct_key_unique)
  have cols: "map job_dedupe_key (put_row job_id j' (jobs s)) = map job_dedupe_key (jobs s)"
    "map (\<lambda>j. (job_kind j, job_aggregate_id j)) (put_row job_id j' (jobs s)) =
     map (\<lambda>j. (job_kind j, job_aggregate_id j)) (jobs s)"
    using same by (auto intro!: put_row_column dest: row)
  have "list_all job_inv (put_row job_id j' (jobs s))"
    using inv new by (intro list_all_put_row) (simp_all add: jobs_inv_def)
  moreover from this have "list_all job_row_ok (put_row job_id j' (jobs s))"
    by (auto simp: list_all_iff job_inv_row_ok)
  ultimately show ?thesis
    using inv cols by (simp add: jobs_inv_def jobs_schema_def jobs_ok_def)
qed

subsection \<open>What the operations return\<close>

lemma claimable_ready: "claimable locked now kinds j \<Longrightarrow> job_state j = READY"
  by (simp add: claimable_def)

lemma next_ready_None:
  "next_ready locked now kinds js = None \<longleftrightarrow> (\<forall>j \<in> set js. \<not> claimable locked now kinds j)"
proof -
  have "next_ready locked now kinds js = None \<longleftrightarrow>
      sort_key ready_order (filter (claimable locked now kinds) js) = []"
    by (simp add: next_ready_def split: list.splits)
  also have "\<dots> \<longleftrightarrow> set (sort_key ready_order (filter (claimable locked now kinds) js)) = {}"
    by (simp del: set_sort)
  finally show ?thesis by auto
qed

lemma next_ready_Some:
  assumes "next_ready locked now kinds js = Some j"
  shows "j \<in> set js" and "claimable locked now kinds j"
    and "k \<in> set js \<Longrightarrow> claimable locked now kinds k \<Longrightarrow> ready_order j \<le> ready_order k"
proof -
  let ?xs = "sort_key ready_order (filter (claimable locked now kinds) js)"
  from assms obtain ys where xs: "?xs = j # ys"
    by (auto simp: next_ready_def split: list.splits)
  have set_xs: "set ?xs = {x \<in> set js. claimable locked now kinds x}" by simp
  with xs show "j \<in> set js" "claimable locked now kinds j" by auto
  have "sorted (map ready_order ?xs)" by simp
  with xs have least: "\<forall>y \<in> set ys. ready_order j \<le> ready_order y" by simp
  assume "k \<in> set js" "claimable locked now kinds k"
  with set_xs have "k \<in> set ?xs" by simp
  with xs least show "ready_order j \<le> ready_order k" by auto
qed

lemma claim_job_Inr:
  assumes "claim_job locked now worker kinds s = Inr (r, s')"
  obtains "r = None" "s' = s" "\<forall>j \<in> set (jobs s). \<not> claimable locked now kinds j"
  | j where "next_ready locked now kinds (jobs s) = Some j" "j \<in> set (jobs s)"
      "claimable locked now kinds j" "r = Some (claim_of (lease now worker j) worker)"
      "s' = jobs_update (put_row job_id (lease now worker j)) s"
proof (cases "next_ready locked now kinds (jobs s)")
  case None
  with assms that(1) show ?thesis
    by (auto simp: claim_job_def bind_Inr next_ready_None)
next
  case (Some j)
  with assms that(2) [OF Some] next_ready_Some(1,2) [OF Some] show ?thesis
    by (auto simp: claim_job_def bind_Inr)
qed

lemma fence_Inr:
  assumes "fence now c expired s = Inr (r, s')"
  obtains "r = None" "s' = s"
  | j where "r = Some j" "s' = s" "j \<in> set (jobs s)" "job_id j = claim_id c" "holds_lease c j"
      "(the (job_lease_until j) \<le> now) = expired"
  using assms unfolding fence_def bind_Inr
  by (auto split: if_splits elim!: select_one_Inr_cases)

lemma fence_reads: "fence now c expired s = Inr (r, s') \<Longrightarrow> s' = s"
  by (erule fence_Inr)

lemma fence_Some:
  assumes "jobs_inv s" and "j \<in> set (jobs s)" and "job_id j = claim_id c" and "holds_lease c j"
    and "(the (job_lease_until j) \<le> now) = expired"
  shows "fence now c expired s = Inr (Some j, s)"
  using select_one_key [of job_id jobs s j "claim_id c"] jobs_inv_ids [OF assms(1)] assms(2-5)
  by (simp add: fence_def bind_def ret_def)

lemma fence_None:
  assumes "jobs_inv s" and "j \<in> set (jobs s)" and "job_id j = claim_id c"
    and "\<not> holds_lease c j \<or> (the (job_lease_until j) \<le> now) \<noteq> expired"
  shows "fence now c expired s = Inr (None, s)"
  using select_one_key [of job_id jobs s j "claim_id c"] jobs_inv_ids [OF assms(1)] assms(2-4)
  by (auto simp: fence_def bind_def ret_def)

lemma fence_total:
  assumes "jobs_inv s"
  shows "\<exists>r. fence now c expired s = Inr (r, s)"
proof (cases "\<exists>j \<in> set (jobs s). job_id j = claim_id c")
  case True
  with assms fence_Some fence_None show ?thesis by metis
next
  case False
  then have "select_one jobs (\<lambda>j. job_id j = claim_id c) s = Inr (None, s)"
    by (simp add: select_one_None)
  then show ?thesis by (simp add: fence_def bind_def ret_def)
qed

lemma heartbeat_Inr:
  assumes "heartbeat now now' c s = Inr (r, s')"
  obtains "r = False" "s' = s"
  | j where "r = True" "j \<in> set (jobs s)" "job_id j = claim_id c" "holds_lease c j"
      "now < the (job_lease_until j)"
      "s' = jobs_update (put_row job_id (j\<lparr>job_lease_until := Some (now' + seconds 60)\<rparr>)) s"
  using assms unfolding heartbeat_def
  by (auto simp: bind_Inr elim!: fence_Inr)

lemma finish_job_Inr:
  "finish_job now code retry delay j s = Inr (j', s') \<longleftrightarrow>
   finish now code retry delay j = Inr j' \<and> s' = jobs_update (put_row job_id j') s"
  by (auto simp: finish_job_def bind_Inr split: sum.splits)

lemma fenced_finish_Inr:
  assumes "fenced_finish now c expired now' code retry delay s = Inr (r, s')"
  obtains "r = None" "s' = s"
  | j j' where "r = Some j'" "j \<in> set (jobs s)" "job_id j = claim_id c" "holds_lease c j"
      "(the (job_lease_until j) \<le> now) = expired" "finish now' code retry delay j = Inr j'"
      "s' = jobs_update (put_row job_id j') s"
  using assms unfolding fenced_finish_def
  by (auto simp: bind_Inr finish_job_Inr elim!: fence_Inr)

lemma holds_lease_leased: "holds_lease c j \<Longrightarrow> job_state j = LEASED"
  by (simp add: holds_lease_def)

subsection \<open>Every operation keeps the invariant\<close>

lemma jobs_inv_enqueue:
  assumes "transaction jobs_schema (enqueue_job sha now jid kind aggregate wid) s = (Inr u, s')"
    and "jobs_inv s"
  shows "jobs_inv s'"
proof -
  from assms(1) have s': "s' = jobs_update (\<lambda>js. js @ [new_job sha now jid kind aggregate wid]) s"
    and ok: "jobs_schema s'"
    by (auto simp: transaction_Inr_iff enqueue_job_def)
  from ok s' have "job_row_ok (new_job sha now jid kind aggregate wid)"
    by (simp add: jobs_schema_def jobs_ok_def)
  then have "job_inv (new_job sha now jid kind aggregate wid)"
    by (intro job_inv_new) (auto simp: job_row_ok_def new_job_def)
  with ok s' assms(2) show ?thesis by (simp add: jobs_inv_def)
qed

lemma jobs_inv_claim:
  assumes "claim_job locked now worker kinds s = Inr (r, s')" and inv: "jobs_inv s"
  shows "jobs_inv s'"
  using assms(1)
proof (rule claim_job_Inr)
  fix j
  assume j: "j \<in> set (jobs s)" "claimable locked now kinds j"
    and s': "s' = jobs_update (put_row job_id (lease now worker j)) s"
  have "job_inv (lease now worker j)"
    using jobs_inv_row [OF inv j(1)] claimable_ready [OF j(2)] by (rule job_inv_lease)
  then show ?thesis
    unfolding s' using inv j(1) by (auto intro!: jobs_inv_save simp: lease_def)
qed (use inv in simp)

lemma jobs_inv_heartbeat:
  assumes "heartbeat now now' c s = Inr (r, s')" and inv: "jobs_inv s"
  shows "jobs_inv s'"
  using assms(1)
proof (rule heartbeat_Inr)
  fix j
  assume j: "j \<in> set (jobs s)" "holds_lease c j"
    and s': "s' = jobs_update (put_row job_id (j\<lparr>job_lease_until := Some (now' + seconds 60)\<rparr>)) s"
  show ?thesis
    unfolding s' using inv j
    by (auto intro!: jobs_inv_save job_inv_extend dest: jobs_inv_row holds_lease_leased)
qed (use inv in simp)

lemma jobs_inv_finish:
  assumes "jobs_inv s" and "j \<in> set (jobs s)" and "finish now code retry delay j = Inr j'"
  shows "jobs_inv (jobs_update (put_row job_id j') s)"
  using assms finish_keeps [OF assms(3)]
  by (intro jobs_inv_save [OF assms(1,2)]) (auto dest: jobs_inv_row intro: job_inv_finish)

lemma jobs_inv_fenced_finish:
  assumes "fenced_finish now c expired now' code retry delay s = Inr (r, s')" and inv: "jobs_inv s"
  shows "jobs_inv s'"
  using assms(1) by (rule fenced_finish_Inr) (auto simp: inv intro: jobs_inv_finish)

text \<open>A fenced job can always be finished: its history is not empty.\<close>

lemma fenced_finish_total:
  assumes "jobs_inv s"
  shows "\<exists>r s'. fenced_finish now c expired now' code retry delay s = Inr (r, s')"
proof -
  obtain r where f: "fence now c expired s = Inr (r, s)"
    using fence_total [OF assms] by blast
  from f show ?thesis
  proof (rule fence_Inr)
    assume "r = None"
    with f show ?thesis by (auto simp: fenced_finish_def bind_def ret_def)
  next
    fix j
    assume j: "r = Some j" "j \<in> set (jobs s)" "holds_lease c j"
    have "job_attempt_history j \<noteq> []"
      using jobs_inv_row [OF assms j(2)] holds_lease_leased [OF j(3)]
      by (rule leased_history_nonempty)
    then obtain j' where "finish now' code retry delay j = Inr j'"
      using finish_total by blast
    with f j show ?thesis
      by (simp add: fenced_finish_def bind_eval finish_job_def bind_def ret_def save_row_def
          modify_def)
  qed
qed

subsection \<open>The queue as a transition system\<close>

text \<open>
  One rule per operation the program performs on the table; \<open>cancel\<close> and \<open>cancel_review\<close> are
  the user cancellations, \<open>discard\<close> the workers' change of a dead job into a cancelled one.
\<close>

inductive job_step :: "'a job_tables_scheme \<Rightarrow> 'a job_tables_scheme \<Rightarrow> bool" where
  enqueue: "transaction jobs_schema (enqueue_job sha now jid kind aggregate wid) s = (Inr u, s') \<Longrightarrow>
    job_step s s'"
| claim: "claim_job locked now worker kinds s = Inr (r, s') \<Longrightarrow> job_step s s'"
| heartbeat: "heartbeat now now' c s = Inr (b, s') \<Longrightarrow> job_step s s'"
| complete: "fenced_finish now c expired now' code retry delay s = Inr (f, s') \<Longrightarrow> job_step s s'"
| discard: "j \<in> set (jobs s) \<Longrightarrow> job_state j = DEAD \<Longrightarrow>
    (mark \<Longrightarrow> job_attempt_history j \<noteq> []) \<Longrightarrow>
    job_step s (jobs_update (put_row job_id (cancel_finished mark j)) s)"
| cancel: "j \<in> set (jobs s) \<Longrightarrow>
    job_step s (jobs_update (put_row job_id (cancel_analysis_job now j)) s)"
| cancel_review: "j \<in> set (jobs s) \<Longrightarrow>
    job_step s (jobs_update (put_row job_id (cancel_review_job now j)) s)"

inductive_cases job_stepE: "job_step s t"

lemma cancel_keeps:
  "job_id (cancel_finished mark j) = job_id j" "job_kind (cancel_finished mark j) = job_kind j"
  "job_dedupe_key (cancel_finished mark j) = job_dedupe_key j"
  "job_aggregate_id (cancel_finished mark j) = job_aggregate_id j"
  "job_lease_generation (cancel_finished mark j) = job_lease_generation j"
  "job_state (cancel_finished mark j) = CANCELED"
  "job_id (cancel_analysis_job now j) = job_id j" "job_kind (cancel_analysis_job now j) = job_kind j"
  "job_dedupe_key (cancel_analysis_job now j) = job_dedupe_key j"
  "job_aggregate_id (cancel_analysis_job now j) = job_aggregate_id j"
  "job_lease_generation (cancel_analysis_job now j) = job_lease_generation j"
  "job_state (cancel_analysis_job now j) = CANCELED"
  "job_id (cancel_review_job now j) = job_id j" "job_kind (cancel_review_job now j) = job_kind j"
  "job_dedupe_key (cancel_review_job now j) = job_dedupe_key j"
  "job_aggregate_id (cancel_review_job now j) = job_aggregate_id j"
  "job_lease_generation (cancel_review_job now j) = job_lease_generation j"
  "job_state (cancel_review_job now j) = CANCELED"
  by (simp_all add: cancel_finished_def cancel_analysis_job_def cancel_review_job_def Let_def)

lemma job_step_inv: "job_step s s' \<Longrightarrow> jobs_inv s \<Longrightarrow> jobs_inv s'"
proof (induction rule: job_step.induct)
  case (discard j s mark)
  then show ?case
    by (intro jobs_inv_save) (auto simp: cancel_keeps intro: job_inv_cancel_finished jobs_inv_row)
next
  case (cancel j s now)
  then show ?case
    by (intro jobs_inv_save) (auto simp: cancel_keeps intro: job_inv_cancel_analysis jobs_inv_row)
next
  case (cancel_review j s now)
  then show ?case
    by (intro jobs_inv_save) (auto simp: cancel_keeps intro: job_inv_cancel_review jobs_inv_row)
qed (blast intro: jobs_inv_enqueue jobs_inv_claim jobs_inv_heartbeat jobs_inv_fenced_finish)+

text \<open>
  How a row may change: the generation never falls, a lease that ended comes back only under a
  higher generation, and a terminal job stays terminal.
\<close>

definition terminal_states :: "job_state list" where
  "terminal_states = [SUCCEEDED, DEAD, CANCELED]"

definition row_evolves :: "job \<Rightarrow> job \<Rightarrow> bool" where
  "row_evolves j j' \<longleftrightarrow>
     job_id j' = job_id j \<and>
     job_lease_generation j \<le> job_lease_generation j' \<and>
     (job_lease_generation j' = job_lease_generation j \<longrightarrow> job_state j \<noteq> LEASED \<longrightarrow>
        job_state j' \<noteq> LEASED) \<and>
     (job_state j \<in> set terminal_states \<longrightarrow> job_state j' \<in> set terminal_states)"

lemma row_evolves_refl [simp]: "row_evolves j j"
  by (simp add: row_evolves_def)

lemma row_evolves_trans: "row_evolves i j \<Longrightarrow> row_evolves j k \<Longrightarrow> row_evolves i k"
  by (auto simp: row_evolves_def)

lemma row_evolves_ops:
  "job_state j = READY \<Longrightarrow> row_evolves j (lease now worker j)"
  "row_evolves j (j\<lparr>job_lease_until := t\<rparr>)"
  "job_state j = LEASED \<Longrightarrow> finish now code retry delay j = Inr j' \<Longrightarrow> row_evolves j j'"
  "row_evolves j (cancel_finished mark j)"
  "row_evolves j (cancel_analysis_job now j)"
  "row_evolves j (cancel_review_job now j)"
  by (auto simp: row_evolves_def lease_def terminal_states_def cancel_keeps dest: finish_keeps)

definition table_evolves :: "'a job_tables_scheme \<Rightarrow> 'a job_tables_scheme \<Rightarrow> bool" where
  "table_evolves s s' \<longleftrightarrow> (\<forall>j \<in> set (jobs s). \<exists>j' \<in> set (jobs s'). row_evolves j j')"

lemma table_evolves_refl: "table_evolves s s"
  unfolding table_evolves_def by (meson row_evolves_refl)

lemma table_evolves_trans: "table_evolves s t \<Longrightarrow> table_evolves t u \<Longrightarrow> table_evolves s u"
  unfolding table_evolves_def by (meson row_evolves_trans)

lemma table_evolves_save:
  assumes "jobs_inv s" and "j \<in> set (jobs s)" and "row_evolves j j'"
  shows "table_evolves s (jobs_update (put_row job_id j') s)"
proof -
  have id: "job_id j' = job_id j" using assms(3) by (simp add: row_evolves_def)
  have "\<exists>x' \<in> set (put_row job_id j' (jobs s)). row_evolves x x'" if x: "x \<in> set (jobs s)" for x
  proof (cases "job_id x = job_id j'")
    case True
    with x assms(2) id have "x = j"
      using jobs_inv_ids [OF assms(1)] by (auto dest: distinct_key_unique)
    moreover have "j' \<in> set (put_row job_id j' (jobs s))"
      using assms(2) id by (intro put_row_mem) auto
    ultimately show ?thesis using assms(3) by blast
  next
    case False
    with x have "x \<in> set (put_row job_id j' (jobs s))" by (rule put_row_other)
    then show ?thesis by (rule_tac bexI) simp_all
  qed
  then show ?thesis by (simp add: table_evolves_def)
qed

lemma job_step_evolves: "job_step s s' \<Longrightarrow> jobs_inv s \<Longrightarrow> table_evolves s s'"
proof (induction rule: job_step.induct)
  case (enqueue sha now jid kind aggregate wid s u s')
  then have "set (jobs s) \<subseteq> set (jobs s')"
    by (auto simp: transaction_Inr_iff enqueue_job_def)
  then show ?case unfolding table_evolves_def by (meson row_evolves_refl subsetD)
next
  case (claim locked now worker kinds s r s')
  show ?case
    by (rule claim_job_Inr [OF claim.hyps])
      (use claim.prems in \<open>auto simp: table_evolves_refl intro: table_evolves_save row_evolves_ops claimable_ready\<close>)
next
  case (heartbeat now now' c s b s')
  show ?case
    by (rule heartbeat_Inr [OF heartbeat.hyps])
      (use heartbeat.prems in \<open>auto simp: table_evolves_refl intro: table_evolves_save row_evolves_ops\<close>)
next
  case (complete now c expired now' code retry delay s f s')
  show ?case
    by (rule fenced_finish_Inr [OF complete.hyps])
      (use complete.prems in \<open>auto simp: table_evolves_refl intro: table_evolves_save row_evolves_ops holds_lease_leased\<close>)
qed (auto intro: table_evolves_save row_evolves_ops)

definition empty_queue :: "'a job_tables_scheme \<Rightarrow> bool" where
  "empty_queue s = (jobs s = [])"

interpretation queue: evolving_system empty_queue job_step jobs_inv table_evolves
proof unfold_locales
  show "jobs_inv s" if "empty_queue s" for s :: "'a job_tables_scheme"
    using that by (simp add: empty_queue_def jobs_inv_def jobs_schema_def jobs_ok_def)
qed (auto intro: job_step_inv table_evolves_refl table_evolves_trans job_step_evolves)

end
