(* ===== verification/Job_Properties.thy ===== *)
theory Job_Properties
  imports Job_Queue
begin

section \<open>What the queue guarantees to its workers\<close>

text \<open>
  The fencing guarantees (a claim is spent once its job was finished or leased again, and stays
  spent), the bound on the work a queue can hand out, and the properties of the single operations.
\<close>

subsection \<open>Spent claims\<close>

definition spent :: "claim \<Rightarrow> 'a job_tables_scheme \<Rightarrow> bool" where
  "spent c s \<longleftrightarrow>
     (\<exists>j \<in> set (jobs s). job_id j = claim_id c \<and>
        (claim_generation c < job_lease_generation j \<or>
         claim_generation c = job_lease_generation j \<and> job_state j \<noteq> LEASED))"

lemma spent_evolves: "spent c s \<Longrightarrow> table_evolves s t \<Longrightarrow> spent c t"
  unfolding spent_def table_evolves_def
  by (fastforce simp: row_evolves_def)

lemma spent_fence:
  assumes "jobs_inv s" and "spent c s"
  shows "fence now c expired s = Inr (None, s)"
proof -
  from assms(2) obtain j where "j \<in> set (jobs s)" "job_id j = claim_id c"
    "claim_generation c < job_lease_generation j \<or>
     claim_generation c = job_lease_generation j \<and> job_state j \<noteq> LEASED"
    unfolding spent_def by blast
  with assms(1) show ?thesis by (intro fence_None) (auto simp: holds_lease_def)
qed

lemma finish_spends:
  assumes "fenced_finish now c expired now' code retry delay s = Inr (Some j', s')"
  shows "spent c s'"
  using assms
proof (rule fenced_finish_Inr)
  fix j k
  assume j: "Some j' = Some k" "j \<in> set (jobs s)" "job_id j = claim_id c" "holds_lease c j"
    and fin: "finish now' code retry delay j = Inr k"
    and s': "s' = jobs_update (put_row job_id k) s"
  from j finish_keeps [OF fin] have "j' \<in> set (put_row job_id j' (jobs s))"
    by (intro put_row_mem) auto
  with j finish_keeps [OF fin] show ?thesis
    by (auto simp: spent_def s' holds_lease_def intro!: bexI [of _ j'])
qed simp

lemma claim_row:
  assumes "claim_job locked now worker kinds s = Inr (Some c, s')"
  obtains j where "j \<in> set (jobs s)" "job_state j = READY" "job_id j = claim_id c"
    "claim_generation c = job_lease_generation j + 1" "lease now worker j \<in> set (jobs s')"
    "c = claim_of (lease now worker j) worker"
  using assms
proof (rule claim_job_Inr)
  fix j
  assume j: "j \<in> set (jobs s)" "claimable locked now kinds j"
    and c: "Some c = Some (claim_of (lease now worker j) worker)"
    and s': "s' = jobs_update (put_row job_id (lease now worker j)) s"
  have "lease now worker j \<in> set (jobs s')"
    unfolding s' using j(1) by (auto simp: lease_def intro!: put_row_mem)
  with j c claimable_ready [OF j(2)] that show ?thesis
    by (auto simp: claim_of_def lease_def)
qed simp

lemma row_unique:
  "jobs_inv s \<Longrightarrow> j \<in> set (jobs s) \<Longrightarrow> k \<in> set (jobs s) \<Longrightarrow> job_id j = job_id k \<Longrightarrow> j = k"
  by (auto dest: jobs_inv_ids distinct_key_unique)

lemma claims_increase:
  assumes inv: "jobs_inv s"
    and c: "claim_job locked now worker kinds s = Inr (Some c, s')"
    and run: "job_step\<^sup>*\<^sup>* s' t"
    and d: "claim_job locked' now' worker' kinds' t = Inr (Some d, u)"
    and same: "claim_id d = claim_id c"
  shows "claim_generation c < claim_generation d"
proof -
  have inv': "jobs_inv s'" using c inv by (rule jobs_inv_claim)
  from c obtain j where j: "job_id j = claim_id c" "claim_generation c = job_lease_generation j + 1"
      "lease now worker j \<in> set (jobs s')"
    by (rule claim_row)
  from run inv' have ev: "table_evolves s' t" and inv_t: "jobs_inv t"
    by (rule queue.evolves_steps, rule queue.inv_steps)
  from ev j(3) obtain j' where j': "j' \<in> set (jobs t)" "row_evolves (lease now worker j) j'"
    by (auto simp: table_evolves_def)
  from d obtain k where k: "k \<in> set (jobs t)" "job_id k = claim_id d"
      "claim_generation d = job_lease_generation k + 1"
    by (rule claim_row)
  have "k = j'"
    using inv_t k j' same j by (intro row_unique [OF inv_t]) (auto simp: row_evolves_def lease_def)
  with k j j' show ?thesis by (auto simp: row_evolves_def lease_def)
qed

lemma claim_job_finds:
  assumes inv: "jobs_inv s" and j: "next_ready locked now kinds (jobs s) = Some j"
  shows "jobs_schema (jobs_update (put_row job_id (lease now worker j)) s)"
    and "claim_job locked now worker kinds s =
      Inr (Some (claim_of (lease now worker j) worker), jobs_update (put_row job_id (lease now worker j)) s)"
proof -
  have "job_inv (lease now worker j)"
    using jobs_inv_row [OF inv next_ready_Some(1) [OF j]]
      claimable_ready [OF next_ready_Some(2) [OF j]] by (rule job_inv_lease)
  then show ok: "jobs_schema (jobs_update (put_row job_id (lease now worker j)) s)"
    using inv next_ready_Some(1) [OF j] by (intro jobs_inv_schema jobs_inv_save) auto
  with j show "claim_job locked now worker kinds s =
      Inr (Some (claim_of (lease now worker j) worker), jobs_update (put_row job_id (lease now worker j)) s)"
    by (simp add: claim_job_def txn_eval save_row_def)
qed

subsection \<open>The work left in a queue\<close>

definition job_fuel :: "job \<Rightarrow> nat" where
  "job_fuel j =
     (if job_state j \<in> set terminal_states then 0
      else 2 * nat (job_max_attempts j - job_attempts j) + (if job_state j = LEASED then 1 else 0))"

definition queue_fuel :: "'a job_tables_scheme \<Rightarrow> nat" where
  "queue_fuel s = sum_list (map job_fuel (jobs s))"

lemma sum_list_put_row:
  fixes f :: "'r \<Rightarrow> nat"
  assumes "distinct (map key rs)" and "r \<in> set rs" and "key r' = key r" and "f r' < f r"
  shows "sum_list (map f (put_row key r' rs)) < sum_list (map f rs)"
  using assms(1,2)
proof (induction rs)
  case (Cons x xs)
  show ?case
  proof (cases "x = r")
    case True
    with Cons.prems(1) assms(3) have "put_row key r' xs = xs"
      by (intro put_row_absent) auto
    with True assms(3,4) show ?thesis by (simp add: put_row_def)
  next
    case False
    with Cons.prems have "key x \<noteq> key r'" using assms(3) by (auto simp: image_iff)
    with Cons False show ?thesis by (simp add: put_row_def)
  qed
qed simp

lemma queue_fuel_save:
  "jobs_inv s \<Longrightarrow> j \<in> set (jobs s) \<Longrightarrow> job_id j' = job_id j \<Longrightarrow> job_fuel j' < job_fuel j \<Longrightarrow>
   queue_fuel (jobs_update (put_row job_id j') s) < queue_fuel s"
  by (simp add: queue_fuel_def sum_list_put_row [OF jobs_inv_ids])

lemma job_fuel_lease:
  "job_inv j \<Longrightarrow> job_state j = READY \<Longrightarrow> job_fuel (lease now worker j) < job_fuel j"
  by (auto simp: job_fuel_def lease_def job_inv_def terminal_states_def)

lemma job_fuel_finish:
  assumes "job_state j = LEASED" and "finish now code retry delay j = Inr j'"
  shows "job_fuel j' < job_fuel j"
  using assms(2) by (rule finish_Inr) (use assms(1) in \<open>auto simp: job_fuel_def terminal_states_def\<close>)

text \<open>A unit of work: a job is handed out, or a handed-out job is finished or retried.\<close>

inductive work_step :: "'a job_tables_scheme \<Rightarrow> 'a job_tables_scheme \<Rightarrow> bool" where
  hand_out: "claim_job locked now worker kinds s = Inr (Some c, s') \<Longrightarrow> work_step s s'"
| settle: "fenced_finish now c expired now' code retry delay s = Inr (Some j, s') \<Longrightarrow> work_step s s'"

lemma work_step_fuel: "work_step s s' \<Longrightarrow> jobs_inv s \<Longrightarrow> queue_fuel s' < queue_fuel s"
proof (induction rule: work_step.induct)
  case (hand_out locked now worker kinds s c s')
  show ?case
    by (rule claim_job_Inr [OF hand_out.hyps])
      (use hand_out.prems in \<open>auto intro!: queue_fuel_save job_fuel_lease
        dest: jobs_inv_row claimable_ready\<close>)
next
  case (settle now c expired now' code retry delay s j s')
  show ?case
    by (rule fenced_finish_Inr [OF settle.hyps])
      (use settle.prems in \<open>auto intro!: queue_fuel_save job_fuel_finish
        dest: holds_lease_leased finish_keeps\<close>)
qed

lemma work_step_job_step: "work_step s s' \<Longrightarrow> job_step s s'"
  by (auto elim!: work_step.cases intro: job_step.intros)

subsection \<open>Sample rows for the witnesses\<close>

definition sample_sha :: "string \<Rightarrow> string" where
  "sample_sha t = replicate 64 (CHR ''0'')"

definition sample_queue :: job_tables where
  "sample_queue = \<lparr>jobs = [new_job sample_sha 100 7 ANALYZE_PR 70 (Some 1)]\<rparr>"

lemma sample_new_inv [simp]:
  "wid \<noteq> None \<or> kind = PROCESS_WEBHOOK \<Longrightarrow> job_inv (new_job sample_sha now jid kind aggregate wid)"
  by (rule job_inv_new) (simp_all add: sample_sha_def is_hex_def hex_chars_def list_all_iff)

lemma sample_queue_inv [simp]: "jobs_inv sample_queue"
  by (auto simp: sample_queue_def jobs_inv_def jobs_schema_def jobs_ok_def intro: job_inv_row_ok)

definition sample_job :: job where
  "sample_job = new_job sample_sha 100 7 ANALYZE_PR 70 (Some 1)"

definition sample_leased :: job_tables where
  "sample_leased = \<lparr>jobs = [lease 200 ''w'' sample_job]\<rparr>"

definition sample_claim :: claim where
  "sample_claim = claim_of (lease 200 ''w'' sample_job) ''w''"

definition sample_retried :: job where
  "sample_retried = projr (finish 300 (Some ''E'') True 5 (lease 200 ''w'' sample_job))"

lemma sample_leased_inv [simp]: "jobs_inv sample_leased"
proof -
  have "job_inv sample_job" unfolding sample_job_def by simp
  moreover have "job_state sample_job = READY" by (simp add: sample_job_def new_job_def)
  ultimately have "job_inv (lease 200 ''w'' sample_job)" by (rule job_inv_lease)
  then show ?thesis
    by (simp add: sample_leased_def jobs_inv_def jobs_schema_def jobs_ok_def job_inv_row_ok)
qed

lemma sample_claims:
  "claim_job [] 200 ''w'' [ANALYZE_PR] sample_queue = Inr (Some sample_claim, sample_leased)"
proof -
  have "next_ready [] 200 [ANALYZE_PR] (jobs sample_queue) = Some sample_job"
    by (simp add: next_ready_def claimable_def sample_queue_def sample_job_def new_job_def)
  moreover have "jobs_update (put_row job_id (lease 200 ''w'' sample_job)) sample_queue = sample_leased"
    by (simp add: sample_queue_def sample_leased_def put_row_def sample_job_def)
  moreover have "jobs_schema sample_leased" by (rule jobs_inv_schema) simp
  ultimately show ?thesis
    by (simp add: claim_job_def txn_eval save_row_def sample_claim_def)
qed

lemma sample_finishes:
  "fenced_finish 300 sample_claim False 300 (Some ''E'') True 5 sample_leased =
   Inr (Some sample_retried, \<lparr>jobs = [sample_retried]\<rparr>)"
  by (simp add: fenced_finish_def fence_def row_ops txn_eval sample_leased_def sample_claim_def
      claim_of_def holds_lease_def lease_def sample_job_def new_job_def finish_job_def finish_def
      close_last_def sample_retried_def)

lemma sample_retried_row:
  "job_state sample_retried = READY" "job_id sample_retried = 7"
  "job_available_at sample_retried = 300 + seconds 5" "job_lease_generation sample_retried = 1"
  "job_kind sample_retried = ANALYZE_PR"
  by (simp_all add: sample_retried_def finish_def close_last_def lease_def sample_job_def new_job_def)

lemma sample_retried_inv: "jobs_inv \<lparr>jobs = [sample_retried]\<rparr>"
  using jobs_inv_fenced_finish [OF sample_finishes] by simp

subsection \<open>Properties\<close>

text \<open>
  C1. Every reachable state of the job queue satisfies the table constraints and the design
  invariant: the attempts, the lease generation and the history of each job agree, exactly the
  leased jobs have an open attempt, and a ready job has an attempt left.
\<close>

theorem reachable_jobs_inv:
  assumes "empty_queue s" and "job_step\<^sup>*\<^sup>* s t"
  shows "jobs_inv t"
  using assms by (rule queue.inv_reachable)

theorem reachable_jobs_inv_witness:
  "empty_queue \<lparr>jobs = []\<rparr> \<and> job_step\<^sup>*\<^sup>* \<lparr>jobs = []\<rparr> sample_queue \<and> jobs_inv sample_queue"
proof -
  have e: "empty_queue \<lparr>jobs = []\<rparr>" by (simp add: empty_queue_def)
  have "job_row_ok (new_job sample_sha 100 7 ANALYZE_PR 70 (Some 1))"
    by (rule job_inv_row_ok) simp
  then have "transaction jobs_schema (enqueue_job sample_sha 100 7 ANALYZE_PR 70 (Some 1))
      \<lparr>jobs = []\<rparr> = (Inr (), sample_queue)"
    by (simp add: transaction_Inr_iff enqueue_job_def jobs_schema_def jobs_ok_def sample_queue_def)
  then have r: "job_step\<^sup>*\<^sup>* \<lparr>jobs = []\<rparr> sample_queue"
    by (blast intro: job_step.enqueue)
  from e r reachable_jobs_inv [OF e r] show ?thesis by blast
qed

text \<open>
  C2. A claim completes its job at most once: when a worker has finished a job under a claim,
  the fence refuses that claim in every later state of the queue, whatever happens in between.
\<close>

theorem claim_completes_once:
  assumes "jobs_inv s"
    and "fenced_finish now c expired now' code retry delay s = Inr (Some j, s')"
    and "job_step\<^sup>*\<^sup>* s' t"
  shows "fence n c b t = Inr (None, t)"
proof -
  have inv: "jobs_inv s'" using assms(2,1) by (rule jobs_inv_fenced_finish)
  have "spent c t"
    using finish_spends [OF assms(2)] queue.evolves_steps [OF assms(3) inv] by (rule spent_evolves)
  with queue.inv_steps [OF assms(3) inv] show ?thesis by (rule spent_fence)
qed

theorem claim_completes_once_witness:
  "fenced_finish 300 sample_claim False 300 (Some ''E'') True 5 sample_leased =
     Inr (Some sample_retried, \<lparr>jobs = [sample_retried]\<rparr>) \<and>
   fence 310 sample_claim False \<lparr>jobs = [sample_retried]\<rparr> = Inr (None, \<lparr>jobs = [sample_retried]\<rparr>)"
  using sample_finishes claim_completes_once [OF sample_leased_inv sample_finishes rtranclp.rtrancl_refl]
  by blast

text \<open>
  C3. Lease generations fence off stale workers: when the same job is claimed again after any
  number of steps, the later claim has a higher generation and the earlier one is refused.
\<close>

theorem later_claim_fences_earlier:
  assumes "jobs_inv s"
    and "claim_job locked now worker kinds s = Inr (Some c, s')"
    and "job_step\<^sup>*\<^sup>* s' t"
    and "claim_job locked' now' worker' kinds' t = Inr (Some d, u)"
    and "claim_id d = claim_id c"
  shows "claim_generation c < claim_generation d \<and> fence n c b u = Inr (None, u)"
proof -
  have lt: "claim_generation c < claim_generation d"
    using assms by (rule claims_increase)
  have inv: "jobs_inv u"
    using assms(4) queue.inv_steps [OF assms(3) jobs_inv_claim [OF assms(2,1)]]
    by (rule jobs_inv_claim)
  from assms(4) obtain k where "job_id k = claim_id d" "lease now' worker' k \<in> set (jobs u)"
      "claim_generation d = job_lease_generation k + 1"
    by (rule claim_row)
  with lt assms(5) have "spent c u"
    unfolding spent_def by (intro bexI [of _ "lease now' worker' k"]) (auto simp: lease_def)
  with lt spent_fence [OF inv] show ?thesis by blast
qed

theorem later_claim_fences_earlier_witness:
  "\<exists>d u. claim_job [] (seconds 10) ''v'' [ANALYZE_PR] \<lparr>jobs = [sample_retried]\<rparr> = Inr (Some d, u) \<and>
     claim_generation sample_claim < claim_generation d \<and>
     fence (seconds 11) sample_claim False u = Inr (None, u)"
proof -
  let ?d = "claim_of (lease (seconds 10) ''v'' sample_retried) ''v''"
  let ?u = "jobs_update (put_row job_id (lease (seconds 10) ''v'' sample_retried)) \<lparr>jobs = [sample_retried]\<rparr>"
  have "next_ready [] (seconds 10) [ANALYZE_PR] [sample_retried] = Some sample_retried"
    by (simp add: next_ready_def claimable_def sample_retried_row)
  then have r: "claim_job [] (seconds 10) ''v'' [ANALYZE_PR] \<lparr>jobs = [sample_retried]\<rparr> = Inr (Some ?d, ?u)"
    using claim_job_finds(2) [OF sample_retried_inv] by simp
  have id: "claim_id ?d = claim_id sample_claim"
    by (simp add: claim_of_def sample_claim_def sample_retried_row) (simp add: sample_job_def new_job_def)
  have steps: "job_step\<^sup>*\<^sup>* sample_leased \<lparr>jobs = [sample_retried]\<rparr>"
    using sample_finishes by (blast intro: job_step.complete)
  from later_claim_fences_earlier [OF sample_queue_inv sample_claims steps r id]
  show ?thesis using r by blast
qed

text \<open>
  The queue hands out a bounded amount of work: at most \<open>queue_fuel\<close> hand-outs and
  settlements can follow one another without a new job, two for each attempt that is left.
\<close>

theorem work_is_bounded:
  assumes "(work_step ^^ n) s t" and "jobs_inv s"
  shows "n + queue_fuel t \<le> queue_fuel s"
  using assms
proof (induction n arbitrary: t)
  case (Suc n)
  from Suc.prems(1) obtain u where u: "(work_step ^^ n) s u" "work_step u t" by auto
  from u(1) have "job_step\<^sup>*\<^sup>* s u"
    using work_step_job_step by (auto dest!: relpowp_imp_rtranclp elim: mono_rtranclp [rule_format])
  then have "queue_fuel t < queue_fuel u"
    using u(2) queue.inv_steps Suc.prems(2) work_step_fuel by blast
  with Suc.IH [OF u(1) Suc.prems(2)] show ?case by simp
qed simp

theorem work_is_bounded_witness:
  "(work_step ^^ 2) sample_queue \<lparr>jobs = [sample_retried]\<rparr> \<and>
   2 + queue_fuel \<lparr>jobs = [sample_retried]\<rparr> \<le> queue_fuel sample_queue"
proof -
  have steps: "(work_step ^^ 2) sample_queue \<lparr>jobs = [sample_retried]\<rparr>"
    using work_step.hand_out [OF sample_claims] work_step.settle [OF sample_finishes]
    by (auto simp: numeral_2_eq_2)
  from steps work_is_bounded [OF steps sample_queue_inv] show ?thesis by blast
qed

text \<open>
  Claiming never fails and is fair: it returns nothing only when no unlocked job of the
  worker's kinds is due, otherwise the due job that became available first (ties by id), and the
  lease it writes always passes the table constraints.
\<close>

theorem claim_total_and_fair:
  assumes "jobs_inv s"
  shows "\<exists>r s'. transaction jobs_schema (claim_job locked now worker kinds) s = (Inr r, s') \<and>
    (case r of
       None \<Rightarrow> s' = s \<and> (\<forall>j \<in> set (jobs s). \<not> claimable locked now kinds j)
     | Some c \<Rightarrow> \<exists>j \<in> set (jobs s). claimable locked now kinds j \<and>
         (\<forall>k \<in> set (jobs s). claimable locked now kinds k \<longrightarrow> ready_order j \<le> ready_order k) \<and>
         c = claim_of (lease now worker j) worker \<and>
         s' = jobs_update (put_row job_id (lease now worker j)) s)"
proof (cases "next_ready locked now kinds (jobs s)")
  case None
  then have "claim_job locked now worker kinds s = Inr (None, s)"
    by (simp add: claim_job_def bind_def gets_def ret_def)
  with assms None show ?thesis
    by (intro exI [of _ None] exI [of _ s])
      (simp add: transaction_Inr_iff next_ready_None jobs_inv_schema)
next
  case (Some j)
  note j = next_ready_Some [OF Some]
  let ?s = "jobs_update (put_row job_id (lease now worker j)) s"
  have "transaction jobs_schema (claim_job locked now worker kinds) s =
      (Inr (Some (claim_of (lease now worker j) worker)), ?s)"
    using claim_job_finds [OF assms Some] by (simp add: transaction_Inr_iff)
  with j show ?thesis by auto
qed

theorem claim_total_and_fair_witness:
  "\<exists>r s'. transaction jobs_schema (claim_job [] 200 ''w'' [ANALYZE_PR]) sample_queue = (Inr r, s')"
  using claim_total_and_fair [OF sample_queue_inv, of "[]" 200 "''w''" "[ANALYZE_PR]"] by blast

end
