(* ===== verification/Users.thy ===== *)
theory Users
  imports Jobs
begin

section \<open>Users\<close>

text \<open>
  \<^verbatim>\<open>app/domain/user\<close>: the \<open>users\<close> table with its constraints (\<^verbatim>\<open>models.py\<close>), the upsert of a
  GitHub identity and the lookup of active users (\<^verbatim>\<open>repository.py\<close>), the service functions and
  \<open>UserAPI.profiles\<close> (\<^verbatim>\<open>service.py\<close>, \<^verbatim>\<open>api.py\<close>), and the parser of the closed set of review
  modes (\<^verbatim>\<open>shared/review_mode.py\<close>). The lookups every other component uses to check the caller
  leave the database alone; that contract is the locale \<open>reader\<close>.
\<close>

subsection \<open>Read-only transaction steps\<close>

locale reader =
  fixes read :: "('s, 'a) txn"
    and holds :: "'a \<Rightarrow> 's \<Rightarrow> bool"
  assumes reads: "read s = Inr (x, s') \<Longrightarrow> s' = s \<and> holds x s"
begin

lemma reader_state: "read s = Inr (x, s') \<Longrightarrow> s' = s"
  using reads by blast

lemma reader_holds: "read s = Inr (x, s') \<Longrightarrow> holds x s"
  using reads by blast

text \<open>A step that runs after the reader starts from the state the reader was given.\<close>

lemma then_bind:
  "bind read f s = Inr r \<longleftrightarrow> (\<exists>x. read s = Inr (x, s) \<and> holds x s \<and> f x s = Inr r)"
  unfolding bind_Inr using reads by blast

lemma then_bind_error:
  "bind read f s = Inl e \<longleftrightarrow> read s = Inl e \<or> (\<exists>x. read s = Inr (x, s) \<and> holds x s \<and> f x s = Inl e)"
  unfolding bind_Inl using reads by blast

text \<open>When the reader raises, nothing runs after it and the transaction changes nothing.\<close>

lemma raises_first: "read s = Inl e \<Longrightarrow> transaction ok (bind read f) s = (Inl e, s)"
  by (simp add: transaction_def bind_def)

end

subsection \<open>The table\<close>

datatype active_status = ACTIVE | INACTIVE

datatype review_mode = JUNIOR | SENIOR

record user =
  user_id :: uuid
  github_user_id :: int
  login :: string
  display_name :: "string option"
  avatar_url :: "string option"
  user_status :: active_status
  user_review_mode :: review_mode
  user_updated_at :: datetime

record user_tables = job_tables +
  users :: "user list"

definition user_row_ok :: "user \<Rightarrow> bool" where
  "user_row_ok u \<longleftrightarrow> 0 < github_user_id u"

definition users_ok :: "user list \<Rightarrow> bool" where
  "users_ok us \<longleftrightarrow>
     distinct (map user_id us) \<and> distinct (map github_user_id us) \<and> list_all user_row_ok us"

interpretation user_store: row_store users users_update user_id
  by unfold_locales simp_all

subsection \<open>Review modes\<close>

definition parse_review_mode :: "string \<Rightarrow> exn + review_mode" where
  "parse_review_mode v =
     (if v = ''JUNIOR'' then Inr JUNIOR
      else if v = ''SENIOR'' then Inr SENIOR
      else Inl (ValueError ''INVALID_REVIEW_MODE''))"

subsection \<open>Repository and service\<close>

record github_identity =
  gi_github_user_id :: int
  gi_login :: string
  gi_display_name :: "string option"
  gi_avatar_url :: "string option"

record user_snapshot =
  us_id :: uuid
  us_github_user_id :: int
  us_login :: string
  us_display_name :: "string option"
  us_avatar_url :: "string option"
  us_review_mode :: review_mode

definition snapshot :: "user \<Rightarrow> user_snapshot" where
  "snapshot u =
     \<lparr>us_id = user_id u, us_github_user_id = github_user_id u, us_login = login u,
      us_display_name = display_name u, us_avatar_url = avatar_url u,
      us_review_mode = user_review_mode u\<rparr>"

definition user_unavailable :: exn where
  "user_unavailable = AppException ''USER_UNAVAILABLE'' UNAUTHORIZED"

text \<open>
  \<open>insert ... on conflict (github_user_id) do update\<close>, returning the row; \<open>fresh\<close> is the key a
  new row gets, \<open>now\<close> the transaction time of its default columns.
\<close>

definition new_user :: "datetime \<Rightarrow> uuid \<Rightarrow> github_identity \<Rightarrow> user" where
  "new_user now fresh i =
     \<lparr>user_id = fresh, github_user_id = gi_github_user_id i, login = gi_login i,
      display_name = gi_display_name i, avatar_url = gi_avatar_url i,
      user_status = ACTIVE, user_review_mode = SENIOR, user_updated_at = now\<rparr>"

definition merge_identity :: "datetime \<Rightarrow> github_identity \<Rightarrow> user \<Rightarrow> user" where
  "merge_identity now i u =
     u\<lparr>login := gi_login i, display_name := gi_display_name i, avatar_url := gi_avatar_url i,
       user_updated_at := now\<rparr>"

definition upsert_user ::
  "datetime \<Rightarrow> uuid \<Rightarrow> github_identity \<Rightarrow> ('a user_tables_scheme, user) txn" where
  "upsert_user now fresh i =
     bind (select_first users (\<lambda>u. github_user_id u = gi_github_user_id i)) (\<lambda>found.
     case found of
       None \<Rightarrow>
         bind (add_row users_update (new_user now fresh i)) (\<lambda>_.
         bind (flush (\<lambda>s. users_ok (users s))) (\<lambda>_. ret (new_user now fresh i)))
     | Some u \<Rightarrow>
         bind (save_row users_update user_id (merge_identity now i u)) (\<lambda>_.
         ret (merge_identity now i u)))"

definition active_user :: "uuid \<Rightarrow> ('a user_tables_scheme, user option) txn" where
  "active_user uid = select_one users (\<lambda>u. user_id u = uid \<and> user_status u = ACTIVE)"

definition upsert_identity ::
  "datetime \<Rightarrow> uuid \<Rightarrow> github_identity \<Rightarrow> ('a user_tables_scheme, user_snapshot) txn" where
  "upsert_identity now fresh i =
     bind (upsert_user now fresh i) (\<lambda>u.
     if user_status u \<noteq> ACTIVE then raise user_unavailable else ret (snapshot u))"

definition get_active :: "uuid \<Rightarrow> ('a user_tables_scheme, user_snapshot) txn" where
  "get_active uid =
     bind (active_user uid) (\<lambda>found.
     case found of
       None \<Rightarrow> raise user_unavailable
     | Some u \<Rightarrow> ret (snapshot u))"

text \<open>The row is written, with its update time, only when the mode changes.\<close>

definition set_review_mode ::
  "datetime \<Rightarrow> uuid \<Rightarrow> string \<Rightarrow> ('a user_tables_scheme, user_snapshot) txn" where
  "set_review_mode now uid mode =
     bind (active_user uid) (\<lambda>found.
     case found of
       None \<Rightarrow> raise user_unavailable
     | Some u \<Rightarrow>
         (case parse_review_mode mode of
            Inl e \<Rightarrow> raise e
          | Inr m \<Rightarrow>
              let u' = (if user_review_mode u = m then u
                        else u\<lparr>user_review_mode := m, user_updated_at := now\<rparr>)
              in bind (save_row users_update user_id u') (\<lambda>_.
                 bind (flush (\<lambda>s. users_ok (users s))) (\<lambda>_. ret (snapshot u')))))"

text \<open>The dictionary of the first 51 requested users that are active.\<close>

definition profiles :: "uuid list \<Rightarrow> ('a user_tables_scheme, uuid \<Rightarrow> user_snapshot option) txn" where
  "profiles ids =
     bind (select_all users (\<lambda>u. user_id u \<in> set (take 51 ids) \<and> user_status u = ACTIVE)) (\<lambda>us.
     ret (map_of (map (\<lambda>u. (user_id u, snapshot u)) us)))"

subsection \<open>Lemmas\<close>

lemma snapshot_id [simp]: "us_id (snapshot u) = user_id u"
  "us_github_user_id (snapshot u) = github_user_id u"
  by (simp_all add: snapshot_def)

definition user_is_active :: "uuid \<Rightarrow> user_snapshot \<Rightarrow> 'a user_tables_scheme \<Rightarrow> bool" where
  "user_is_active uid x s \<longleftrightarrow>
     (\<exists>u \<in> set (users s). user_id u = uid \<and> user_status u = ACTIVE \<and> x = snapshot u)"

lemma get_active_Inr:
  assumes "get_active uid s = Inr (x, s')"
  shows "s' = s \<and> user_is_active uid x s"
  using assms
  by (auto simp: get_active_def active_user_def bind_Inr user_is_active_def split: option.splits
      dest!: select_one_Some)

lemma user_is_active_id: "user_is_active uid x s \<Longrightarrow> us_id x = uid"
  by (auto simp: user_is_active_def)

interpretation user_read: reader "get_active uid" "user_is_active uid"
  using get_active_Inr by unfold_locales

lemma get_active_exists:
  assumes "users_ok (users s)" and "u \<in> set (users s)" and "user_id u = uid" and "user_status u = ACTIVE"
  shows "get_active uid s = Inr (snapshot u, s)"
proof -
  have "select_one users (\<lambda>u. user_id u = uid \<and> user_status u = ACTIVE) s = Inr (Some u, s)"
    using assms by (intro select_one_found [of user_id]) (auto simp: users_ok_def)
  then show ?thesis by (simp add: get_active_def active_user_def bind_eval ret_def)
qed

lemma get_active_error:
  assumes "users_ok (users s)" and "get_active uid s = Inl e"
  shows "e = user_unavailable"
proof -
  have "select_one users (\<lambda>u. user_id u = uid \<and> user_status u = ACTIVE) s \<noteq> Inl e" for e
    using assms(1) by (intro select_one_unique [of user_id _ _ _ uid]) (auto simp: users_ok_def)
  with assms(2) show ?thesis
    by (auto simp: get_active_def active_user_def bind_Inl split: option.splits)
qed

lemma merge_identity_keeps [simp]:
  "user_id (merge_identity now i u) = user_id u"
  "github_user_id (merge_identity now i u) = github_user_id u"
  "user_status (merge_identity now i u) = user_status u"
  "user_review_mode (merge_identity now i u) = user_review_mode u"
  by (simp_all add: merge_identity_def)

lemma users_ok_put:
  assumes "users_ok us" and "u \<in> set us" and "user_id u' = user_id u"
    and "github_user_id u' = github_user_id u"
  shows "users_ok (put_row user_id u' us)"
proof -
  have same: "x = u" if "x \<in> set us" "user_id x = user_id u'" for x
    using assms that by (auto simp: users_ok_def dest: distinct_key_unique)
  then have "map github_user_id (put_row user_id u' us) = map github_user_id us"
    using assms by (intro put_row_column) auto
  moreover have "user_row_ok u'"
    using assms by (auto simp: users_ok_def user_row_ok_def list_all_iff)
  ultimately show ?thesis using assms(1) by (auto simp: users_ok_def intro: list_all_put_row)
qed

lemma upsert_user_Inr:
  assumes "upsert_user now fresh i s = Inr (u, s')"
  obtains (new) "\<forall>x \<in> set (users s). github_user_id x \<noteq> gi_github_user_id i" "u = new_user now fresh i"
      "s' = users_update (\<lambda>us. us @ [u]) s" "users_ok (users s')"
  | (old) v where "v \<in> set (users s)" "github_user_id v = gi_github_user_id i"
      "u = merge_identity now i v" "s' = users_update (put_row user_id u) s"
  using assms unfolding upsert_user_def
  by (auto simp: bind_Inr intro: new old split: option.splits elim!: select_first_Inr_cases)

lemma upsert_user_ok:
  assumes "users_ok (users s)" and "upsert_user now fresh i s = Inr (u, s')"
  shows "users_ok (users s')" and "u \<in> set (users s')" and "github_user_id u = gi_github_user_id i"
proof -
  have "users_ok (users s') \<and> u \<in> set (users s') \<and> github_user_id u = gi_github_user_id i"
    using assms(2)
  proof (cases rule: upsert_user_Inr)
    case new
    then show ?thesis by (auto simp: new_user_def)
  next
    case (old v)
    with assms(1) have "users_ok (users s')" by (auto intro: users_ok_put)
    moreover have "u \<in> set (users s')" using old by (auto intro!: put_row_mem)
    ultimately show ?thesis using old by simp
  qed
  then show "users_ok (users s')" "u \<in> set (users s')" "github_user_id u = gi_github_user_id i"
    by blast+
qed

end
