(* ===== verification/Auth.thy ===== *)
theory Auth
  imports Users
begin

section \<open>Authentication\<close>

text \<open>
  \<^verbatim>\<open>app/domain/auth\<close>: login attempts and refresh sessions with their constraints
  (\<^verbatim>\<open>models.py\<close>), the statements on them (\<^verbatim>\<open>repository.py\<close>), the login and session service
  (\<^verbatim>\<open>service.py\<close>), the state of a GitHub installation (\<^verbatim>\<open>installation.py\<close>) and the access
  token codec (\<^verbatim>\<open>shared/security/token_codec.py\<close>). SHA-256 (\<open>sha\<close>), the JWT library, the
  random tokens, the fresh keys and the answer of GitHub are parameters.
\<close>

subsection \<open>Tables\<close>

datatype login_purpose = OAUTH_LOGIN | GITHUB_INSTALL

record login_attempt =
  la_id :: uuid
  la_created_at :: datetime
  la_purpose :: login_purpose
  la_state_hash :: string
  la_browser_binding_hash :: string
  la_user_id :: "uuid option"
  la_workspace_id :: "uuid option"
  la_return_path :: string
  la_expires_at :: datetime
  la_consumed_at :: "datetime option"

record refresh_session =
  rs_id :: uuid
  rs_created_at :: datetime
  rs_user_id :: uuid
  rs_token_hash :: string
  rs_family_id :: uuid
  rs_expires_at :: datetime
  rs_rotated_at :: "datetime option"
  rs_replaced_by_id :: "uuid option"
  rs_revoked_at :: "datetime option"
  rs_revoke_reason :: "string option"

record auth_tables = user_tables +
  login_attempts :: "login_attempt list"
  refresh_sessions :: "refresh_session list"

definition login_row_ok :: "login_attempt \<Rightarrow> bool" where
  "login_row_ok a \<longleftrightarrow>
     is_hex 64 (la_state_hash a) \<and> is_hex 64 (la_browser_binding_hash a) \<and>
     la_created_at a < la_expires_at a \<and>
     (la_purpose a = OAUTH_LOGIN \<and> la_user_id a = None \<and> la_workspace_id a = None \<or>
      la_purpose a = GITHUB_INSTALL \<and> la_user_id a \<noteq> None \<and> la_workspace_id a \<noteq> None)"

definition refresh_row_ok :: "refresh_session \<Rightarrow> bool" where
  "refresh_row_ok r \<longleftrightarrow>
     is_hex 64 (rs_token_hash r) \<and> rs_created_at r < rs_expires_at r \<and>
     (rs_rotated_at r = None) = (rs_replaced_by_id r = None) \<and>
     rs_replaced_by_id r \<noteq> Some (rs_id r) \<and>
     (rs_revoked_at r = None) = (rs_revoke_reason r = None)"

definition logins_ok :: "login_attempt list \<Rightarrow> bool" where
  "logins_ok xs \<longleftrightarrow>
     distinct (map la_id xs) \<and> distinct (map la_state_hash xs) \<and> list_all login_row_ok xs"

definition refreshes_ok :: "refresh_session list \<Rightarrow> bool" where
  "refreshes_ok xs \<longleftrightarrow>
     distinct (map rs_id xs) \<and> distinct (map rs_token_hash xs) \<and>
     distinct (filter (\<lambda>x. x \<noteq> None) (map rs_replaced_by_id xs)) \<and> list_all refresh_row_ok xs"

definition auth_schema :: "'a auth_tables_scheme \<Rightarrow> bool" where
  "auth_schema s \<longleftrightarrow>
     users_ok (users s) \<and> logins_ok (login_attempts s) \<and> refreshes_ok (refresh_sessions s)"

interpretation login_store: row_store login_attempts login_attempts_update la_id
  by unfold_locales simp_all

interpretation refresh_store: row_store refresh_sessions refresh_sessions_update rs_id
  by unfold_locales simp_all

subsection \<open>Access tokens\<close>

record access_claims =
  cl_sub :: string
  cl_iss :: string
  cl_aud :: string
  cl_iat :: datetime
  cl_exp :: datetime
  cl_jti :: string
  cl_type :: string

definition encode_access ::
  "(access_claims \<Rightarrow> string \<Rightarrow> string) \<Rightarrow> datetime \<Rightarrow> uuid \<Rightarrow> uuid \<Rightarrow> string \<Rightarrow> string" where
  "encode_access jwt now jti uid key =
     jwt \<lparr>cl_sub = uuid_text uid, cl_iss = ''prism'', cl_aud = ''prism-api'', cl_iat = now,
          cl_exp = now + seconds 900, cl_jti = uuid_text jti, cl_type = ''access''\<rparr> key"

text \<open>
  \<open>jwt token key issuer audience\<close> is the verified decoding: the claims, or the error it raises.
\<close>

definition decode_access ::
  "(string \<Rightarrow> string \<Rightarrow> string \<Rightarrow> string \<Rightarrow> exn + access_claims) \<Rightarrow> string \<Rightarrow> string \<Rightarrow> exn + uuid" where
  "decode_access jwt token key =
     (if length token > 4096 then Inl (ValueError ''Invalid access token'')
      else case jwt token key ''prism'' ''prism-api'' of
             Inl e \<Rightarrow> Inl e
           | Inr claims \<Rightarrow>
               if cl_type claims \<noteq> ''access'' then Inl (ValueError ''Invalid access token'')
               else uuid_of_text (cl_sub claims))"

subsection \<open>Repository\<close>

definition live_attempt :: "login_purpose \<Rightarrow> string \<Rightarrow> string \<Rightarrow> datetime \<Rightarrow> login_attempt \<Rightarrow> bool" where
  "live_attempt p state_hash binding_hash now a \<longleftrightarrow>
     la_state_hash a = state_hash \<and> la_browser_binding_hash a = binding_hash \<and> la_purpose a = p \<and>
     la_consumed_at a = None \<and> now < la_expires_at a"

text \<open>
  \<open>update ... where ... returning\<close>: the rows it changed, of which at most one may be.
\<close>

definition consume_attempt ::
  "login_purpose \<Rightarrow> string \<Rightarrow> string \<Rightarrow> datetime \<Rightarrow> datetime \<Rightarrow>
   ('a auth_tables_scheme, login_attempt option) txn" where
  "consume_attempt p state_hash binding_hash now now' =
     bind (select_all login_attempts (live_attempt p state_hash binding_hash now)) (\<lambda>found.
     bind (update_where login_attempts_update (live_attempt p state_hash binding_hash now)
             (\<lambda>a. a\<lparr>la_consumed_at := Some now'\<rparr>)) (\<lambda>_.
     one_or_none found))"

definition consume_login ::
  "string \<Rightarrow> string \<Rightarrow> datetime \<Rightarrow> ('a auth_tables_scheme, bool) txn" where
  "consume_login state_hash binding_hash now =
     bind (consume_attempt OAUTH_LOGIN state_hash binding_hash now now) (\<lambda>found.
     ret (found \<noteq> None))"

text \<open>The signed 64-bit key of the advisory lock: the first eight bytes of the family's UUID.\<close>

definition family_lock_key :: "uuid \<Rightarrow> int" where
  "family_lock_key family =
     (let n = int (family div 2 ^ 64) in if n < 2 ^ 63 then n else n - 2 ^ 64)"

definition lock_refresh :: "string \<Rightarrow> ('a auth_tables_scheme, refresh_session option) txn" where
  "lock_refresh h =
     bind (select_first refresh_sessions (\<lambda>r. rs_token_hash r = h)) (\<lambda>found.
     case found of
       None \<Rightarrow> ret None
     | Some _ \<Rightarrow> select_one refresh_sessions (\<lambda>r. rs_token_hash r = h))"

definition revoke_family :: "uuid \<Rightarrow> datetime \<Rightarrow> string \<Rightarrow> ('a auth_tables_scheme, unit) txn" where
  "revoke_family family now reason =
     update_where refresh_sessions_update
       (\<lambda>r. rs_family_id r = family \<and> rs_revoked_at r = None)
       (\<lambda>r. r\<lparr>rs_revoked_at := Some now, rs_revoke_reason := Some reason\<rparr>)"

subsection \<open>Login\<close>

definition login_rejected :: exn where
  "login_rejected = AppException ''LOGIN_REJECTED'' UNAUTHORIZED"

definition session_expired :: exn where
  "session_expired = AppException ''SESSION_EXPIRED'' UNAUTHORIZED"

definition auth_unavailable :: exn where
  "auth_unavailable = AppException ''AUTH_UNAVAILABLE'' UNAVAILABLE"

text \<open>
  What a login or a refresh draws from outside the database: whether authentication is
  configured, the hash, the token library with the signing key, and fresh values. \<open>ev_db_now\<close> is
  the clock of the database, which fills \<open>created_at\<close>; \<open>ev_now\<close> and \<open>ev_later\<close> are the readings
  of the application clock.
\<close>

record auth_env =
  ev_ready :: bool
  ev_key :: string
  ev_sha :: "string \<Rightarrow> string"
  ev_jwt :: "access_claims \<Rightarrow> string \<Rightarrow> string"
  ev_db_now :: datetime
  ev_now :: datetime
  ev_later :: datetime
  ev_token :: string
  ev_binding :: string
  ev_id :: uuid
  ev_family :: uuid
  ev_jti :: uuid
  ev_user_id :: uuid

record session_tokens =
  st_access_token :: string
  st_refresh_token :: string
  st_expires_at :: datetime

definition new_attempt ::
  "auth_env \<Rightarrow> login_purpose \<Rightarrow> uuid option \<Rightarrow> uuid option \<Rightarrow> string \<Rightarrow> login_attempt" where
  "new_attempt ev p uid wid path =
     \<lparr>la_id = ev_id ev, la_created_at = ev_db_now ev, la_purpose = p,
      la_state_hash = ev_sha ev (ev_token ev),
      la_browser_binding_hash = ev_sha ev (ev_binding ev), la_user_id = uid,
      la_workspace_id = wid, la_return_path = path, la_expires_at = ev_now ev + minutes 10,
      la_consumed_at = None\<rparr>"

text \<open>\<open>url\<close> stands for \<open>authorization_url\<close>; the result is the address and the browser binding.\<close>

definition start_login ::
  "auth_env \<Rightarrow> (string \<Rightarrow> string \<Rightarrow> string) \<Rightarrow> string \<Rightarrow> 'a auth_tables_scheme \<Rightarrow>
   (exn + string \<times> string) \<times> 'a auth_tables_scheme" where
  "start_login ev url return_path s =
     (if \<not> ev_ready ev then (Inl auth_unavailable, s)
      else if return_path \<noteq> ''/'' then (Inl login_rejected, s)
      else case transaction auth_schema
                  (add_row login_attempts_update (new_attempt ev OAUTH_LOGIN None None ''/'')) s of
             (Inl e, s') \<Rightarrow> (Inl e, s')
           | (Inr _, s') \<Rightarrow> (Inr (url (ev_token ev) (ev_binding ev), ev_binding ev), s'))"

definition new_session ::
  "auth_env \<Rightarrow> uuid \<Rightarrow> uuid \<Rightarrow> datetime \<Rightarrow> refresh_session" where
  "new_session ev uid family expires =
     \<lparr>rs_id = ev_id ev, rs_created_at = ev_db_now ev, rs_user_id = uid,
      rs_token_hash = ev_sha ev (ev_token ev), rs_family_id = family, rs_expires_at = expires,
      rs_rotated_at = None, rs_replaced_by_id = None, rs_revoked_at = None,
      rs_revoke_reason = None\<rparr>"

definition open_session ::
  "auth_env \<Rightarrow> github_identity \<Rightarrow> ('a auth_tables_scheme, session_tokens) txn" where
  "open_session ev identity =
     bind (upsert_identity (ev_db_now ev) (ev_user_id ev) identity) (\<lambda>user.
     bind (add_row refresh_sessions_update
             (new_session ev (us_id user) (ev_family ev) (ev_later ev + days 7))) (\<lambda>_.
     ret \<lparr>st_access_token = encode_access (ev_jwt ev) (ev_later ev) (ev_jti ev) (us_id user) (ev_key ev),
          st_refresh_token = ev_token ev, st_expires_at = ev_later ev + days 7\<rparr>))"

text \<open>
  The state is consumed in a transaction of its own; \<open>identity code binding\<close> is the exchange with
  GitHub, outside any transaction.
\<close>

definition callback ::
  "auth_env \<Rightarrow> (string \<Rightarrow> string \<Rightarrow> exn + github_identity) \<Rightarrow> string \<Rightarrow> string \<Rightarrow> string \<Rightarrow>
   'a auth_tables_scheme \<Rightarrow> (exn + session_tokens) \<times> 'a auth_tables_scheme" where
  "callback ev identity code state binding s =
     (if \<not> ev_ready ev then (Inl auth_unavailable, s)
      else if code = [] \<or> 1024 < length code \<or> length state \<noteq> 43 \<or> length binding \<noteq> 43
      then (Inl login_rejected, s)
      else case transaction auth_schema
                  (consume_login (ev_sha ev state) (ev_sha ev binding) (ev_now ev)) s of
             (Inl e, s1) \<Rightarrow> (Inl e, s1)
           | (Inr False, s1) \<Rightarrow> (Inl login_rejected, s1)
           | (Inr True, s1) \<Rightarrow>
               (case identity code binding of
                  Inl e \<Rightarrow> (Inl e, s1)
                | Inr i \<Rightarrow> transaction auth_schema (open_session ev i) s1))"

subsection \<open>Refresh and logout\<close>

text \<open>
  The transaction of \<open>refresh\<close> returns no tokens when the token is unknown, reused or out of time;
  the error is raised after it has committed, so that a revocation stays.
\<close>

definition rotate_session :: "auth_env \<Rightarrow> refresh_session \<Rightarrow> refresh_session" where
  "rotate_session ev r = r\<lparr>rs_rotated_at := Some (ev_now ev), rs_replaced_by_id := Some (ev_id ev)\<rparr>"

definition refresh_body ::
  "auth_env \<Rightarrow> string \<Rightarrow> ('a auth_tables_scheme, session_tokens option) txn" where
  "refresh_body ev raw =
     bind (lock_refresh (ev_sha ev raw)) (\<lambda>current.
     case current of
       None \<Rightarrow> ret None
     | Some r \<Rightarrow>
         if rs_rotated_at r \<noteq> None \<or> rs_revoked_at r \<noteq> None then
           bind (revoke_family (rs_family_id r) (ev_now ev) ''REUSE'') (\<lambda>_. ret None)
         else if ev_now ev < rs_expires_at r then
           bind (get_active (rs_user_id r)) (\<lambda>user.
           bind (add_row refresh_sessions_update
                   (new_session ev (us_id user) (rs_family_id r) (rs_expires_at r))) (\<lambda>_.
           bind (save_row refresh_sessions_update rs_id (rotate_session ev r)) (\<lambda>_.
           ret (Some \<lparr>st_access_token =
                        encode_access (ev_jwt ev) (ev_later ev) (ev_jti ev) (us_id user) (ev_key ev),
                      st_refresh_token = ev_token ev, st_expires_at = rs_expires_at r\<rparr>))))
         else ret None)"

definition refresh ::
  "auth_env \<Rightarrow> string \<Rightarrow> 'a auth_tables_scheme \<Rightarrow> (exn + session_tokens) \<times> 'a auth_tables_scheme" where
  "refresh ev raw s =
     (if \<not> ev_ready ev then (Inl auth_unavailable, s)
      else if length raw \<noteq> 43 then (Inl session_expired, s)
      else case transaction auth_schema (refresh_body ev raw) s of
             (Inl e, s') \<Rightarrow> (Inl e, s')
           | (Inr None, s') \<Rightarrow> (Inl session_expired, s')
           | (Inr (Some t), s') \<Rightarrow> (Inr t, s'))"

definition logout_body :: "auth_env \<Rightarrow> string \<Rightarrow> ('a auth_tables_scheme, unit) txn" where
  "logout_body ev raw =
     bind (lock_refresh (ev_sha ev raw)) (\<lambda>current.
     case current of
       None \<Rightarrow> ret ()
     | Some r \<Rightarrow> revoke_family (rs_family_id r) (ev_now ev) ''LOGOUT'')"

definition logout ::
  "auth_env \<Rightarrow> string \<Rightarrow> 'a auth_tables_scheme \<Rightarrow> (exn + unit) \<times> 'a auth_tables_scheme" where
  "logout ev raw s =
     (if \<not> ev_ready ev then (Inl auth_unavailable, s)
      else if length raw \<noteq> 43 then (Inr (), s)
      else transaction auth_schema (logout_body ev raw) s)"

text \<open>Errors of the codec become \<open>SESSION_EXPIRED\<close>; any other error of the library passes.\<close>

fun token_error :: "exn \<Rightarrow> bool" where
  "token_error InvalidTokenError = True"
| "token_error (ValueError _) = True"
| "token_error TypeError = True"
| "token_error KeyError = True"
| "token_error _ = False"

definition current_user ::
  "auth_env \<Rightarrow> (string \<Rightarrow> string \<Rightarrow> string \<Rightarrow> string \<Rightarrow> exn + access_claims) \<Rightarrow> string \<Rightarrow>
   'a auth_tables_scheme \<Rightarrow> (exn + user_snapshot) \<times> 'a auth_tables_scheme" where
  "current_user ev jwt access s =
     (if \<not> ev_ready ev then (Inl auth_unavailable, s)
      else case decode_access jwt access (ev_key ev) of
             Inl e \<Rightarrow> (Inl (if token_error e then session_expired else e), s)
           | Inr uid \<Rightarrow> transaction auth_schema (get_active uid) s)"

definition require_principal ::
  "auth_env \<Rightarrow> (string \<Rightarrow> string \<Rightarrow> string \<Rightarrow> string \<Rightarrow> exn + access_claims) \<Rightarrow> string option \<Rightarrow>
   'a auth_tables_scheme \<Rightarrow> (exn + uuid \<times> user_snapshot) \<times> 'a auth_tables_scheme" where
  "require_principal ev jwt authorization s =
     (case authorization of
        None \<Rightarrow> (Inl session_expired, s)
      | Some h \<Rightarrow>
          if \<not> starts_with ''Bearer '' h then (Inl session_expired, s)
          else case current_user ev jwt (drop 7 h) s of
                 (Inl e, s') \<Rightarrow> (Inl e, s')
               | (Inr u, s') \<Rightarrow> (Inr (us_id u, u), s'))"

subsection \<open>State of a GitHub installation\<close>

definition install_start ::
  "auth_env \<Rightarrow> uuid \<Rightarrow> uuid \<Rightarrow> string \<Rightarrow> 'a auth_tables_scheme \<Rightarrow>
   (exn + string \<times> string) \<times> 'a auth_tables_scheme" where
  "install_start ev uid wid target s =
     (case transaction auth_schema
             (add_row login_attempts_update
               (new_attempt ev GITHUB_INSTALL (Some uid) (Some wid) target)) s of
        (Inl e, s') \<Rightarrow> (Inl e, s')
      | (Inr _, s') \<Rightarrow> (Inr (ev_token ev, ev_binding ev), s'))"

definition install_body ::
  "auth_env \<Rightarrow> string \<Rightarrow> string \<Rightarrow>
   ('a auth_tables_scheme, uuid option \<times> uuid option \<times> string) txn" where
  "install_body ev state binding =
     bind (consume_attempt GITHUB_INSTALL (ev_sha ev state) (ev_sha ev binding)
             (ev_now ev) (ev_later ev)) (\<lambda>found.
     case found of
       None \<Rightarrow> raise login_rejected
     | Some a \<Rightarrow> ret (la_user_id a, la_workspace_id a, la_return_path a))"

definition install_consume ::
  "auth_env \<Rightarrow> string \<Rightarrow> string \<Rightarrow> 'a auth_tables_scheme \<Rightarrow>
   (exn + uuid option \<times> uuid option \<times> string) \<times> 'a auth_tables_scheme" where
  "install_consume ev state binding s =
     (if length state \<noteq> 43 \<or> length binding \<noteq> 43 then (Inl login_rejected, s)
      else transaction auth_schema (install_body ev state binding) s)"

end
