(* ===== verification/Auth_Sessions.thy ===== *)
theory Auth_Sessions
  imports Auth Transition_System
begin

section \<open>Correctness of logins and refresh sessions\<close>

text \<open>
  The invariant of the refresh sessions (a family is one login: its tokens share user, expiry and
  revocation, and at most one has not been rotated), its preservation by every operation, the
  transition system of the authentication component, and what follows in its reachable states.
\<close>

subsection \<open>The invariant of a family\<close>

definition same_login :: "refresh_session \<Rightarrow> refresh_session \<Rightarrow> bool" where
  "same_login r r' \<longleftrightarrow>
     rs_user_id r = rs_user_id r' \<and> rs_expires_at r = rs_expires_at r' \<and>
     (rs_revoked_at r = None) = (rs_revoked_at r' = None)"

definition families_ok :: "refresh_session list \<Rightarrow> bool" where
  "families_ok rs \<longleftrightarrow>
     (\<forall>r \<in> set rs. \<forall>r' \<in> set rs. rs_family_id r = rs_family_id r' \<longrightarrow>
        same_login r r' \<and> (rs_rotated_at r = None \<and> rs_rotated_at r' = None \<longrightarrow> r = r')) \<and>
     (\<forall>r \<in> set rs. \<forall>i. rs_replaced_by_id r = Some i \<longrightarrow>
        (\<exists>r' \<in> set rs. rs_id r' = i \<and> rs_family_id r' = rs_family_id r))"

definition auth_inv :: "'a auth_tables_scheme \<Rightarrow> bool" where
  "auth_inv s \<longleftrightarrow> auth_schema s \<and> families_ok (refresh_sessions s)"

lemma families_okI:
  assumes "\<And>r r'. r \<in> set rs \<Longrightarrow> r' \<in> set rs \<Longrightarrow> rs_family_id r = rs_family_id r' \<Longrightarrow>
      same_login r r' \<and> (rs_rotated_at r = None \<and> rs_rotated_at r' = None \<longrightarrow> r = r')"
    and "\<And>r i. r \<in> set rs \<Longrightarrow> rs_replaced_by_id r = Some i \<Longrightarrow>
      \<exists>r' \<in> set rs. rs_id r' = i \<and> rs_family_id r' = rs_family_id r"
  shows "families_ok rs"
  unfolding families_ok_def using assms by blast

lemma families_same:
  "families_ok rs \<Longrightarrow> r \<in> set rs \<Longrightarrow> r' \<in> set rs \<Longrightarrow> rs_family_id r = rs_family_id r' \<Longrightarrow> same_login r r'"
  by (auto simp: families_ok_def)

lemma families_live:
  "families_ok rs \<Longrightarrow> r \<in> set rs \<Longrightarrow> r' \<in> set rs \<Longrightarrow> rs_family_id r = rs_family_id r' \<Longrightarrow>
   rs_rotated_at r = None \<Longrightarrow> rs_rotated_at r' = None \<Longrightarrow> r = r'"
  by (auto simp: families_ok_def)

lemma families_next:
  "families_ok rs \<Longrightarrow> r \<in> set rs \<Longrightarrow> rs_replaced_by_id r = Some i \<Longrightarrow>
   \<exists>r' \<in> set rs. rs_id r' = i \<and> rs_family_id r' = rs_family_id r"
  by (auto simp: families_ok_def)

lemma families_add:
  assumes "families_ok rs" and "rs_family_id n \<notin> rs_family_id ` set rs" and "rs_replaced_by_id n = None"
  shows "families_ok (rs @ [n])"
proof -
  have "\<forall>r \<in> set rs. rs_family_id r \<noteq> rs_family_id n \<and> rs_family_id n \<noteq> rs_family_id r"
    using assms(2) by (metis imageI)
  moreover have "same_login n n" by (simp add: same_login_def)
  ultimately show ?thesis using assms(1,3) unfolding families_ok_def by simp
qed

definition revoked :: "uuid \<Rightarrow> datetime \<Rightarrow> string \<Rightarrow> refresh_session \<Rightarrow> refresh_session" where
  "revoked family now reason r =
     (if rs_family_id r = family \<and> rs_revoked_at r = None
      then r\<lparr>rs_revoked_at := Some now, rs_revoke_reason := Some reason\<rparr> else r)"

lemma revoked_keeps [simp]:
  "rs_id (revoked f now reason r) = rs_id r" "rs_family_id (revoked f now reason r) = rs_family_id r"
  "rs_user_id (revoked f now reason r) = rs_user_id r"
  "rs_token_hash (revoked f now reason r) = rs_token_hash r"
  "rs_expires_at (revoked f now reason r) = rs_expires_at r"
  "rs_rotated_at (revoked f now reason r) = rs_rotated_at r"
  "rs_replaced_by_id (revoked f now reason r) = rs_replaced_by_id r"
  "(rs_revoked_at (revoked f now reason r) = None) = (rs_revoked_at r = None \<and> rs_family_id r \<noteq> f)"
  by (auto simp: revoked_def)

lemma families_revoke:
  assumes "families_ok rs"
  shows "families_ok (map (revoked f now reason) rs)"
proof -
  let ?g = "revoked f now reason"
  show ?thesis
  proof (rule families_okI)
    fix x x'
    assume "x \<in> set (map ?g rs)" and "x' \<in> set (map ?g rs)" and eq: "rs_family_id x = rs_family_id x'"
    then obtain r r' where r: "r \<in> set rs" "x = ?g r" and r': "r' \<in> set rs" "x' = ?g r'" by auto
    with eq have "rs_family_id r = rs_family_id r'" by simp
    with r r' show "same_login x x' \<and> (rs_rotated_at x = None \<and> rs_rotated_at x' = None \<longrightarrow> x = x')"
      using families_same [OF assms r(1) r'(1)] families_live [OF assms r(1) r'(1)]
      by (auto simp: same_login_def)
  next
    fix x i
    assume "x \<in> set (map ?g rs)" and i: "rs_replaced_by_id x = Some i"
    then obtain r where r: "r \<in> set rs" "x = ?g r" by auto
    with i obtain y where "y \<in> set rs" "rs_id y = i" "rs_family_id y = rs_family_id r"
      using families_next [OF assms r(1)] by auto
    with r show "\<exists>y \<in> set (map ?g rs). rs_id y = i \<and> rs_family_id y = rs_family_id x"
      by (intro bexI [of _ "?g y"]) auto
  qed
qed

lemma refreshes_revoke:
  assumes "refreshes_ok rs"
  shows "refreshes_ok (map (revoked f now reason) rs)"
proof -
  have "refresh_row_ok (revoked f now reason r)" if "refresh_row_ok r" for r
    using that by (auto simp: refresh_row_ok_def revoked_def)
  moreover have "map rs_id (map (revoked f now reason) rs) = map rs_id rs"
    "map rs_token_hash (map (revoked f now reason) rs) = map rs_token_hash rs"
    "map rs_replaced_by_id (map (revoked f now reason) rs) = map rs_replaced_by_id rs"
    by simp_all
  ultimately show ?thesis using assms unfolding refreshes_ok_def list_all_iff
    by (simp only: set_map) auto
qed

lemma rotate_keeps [simp]:
  "rs_id (rotate_session ev r) = rs_id r" "rs_family_id (rotate_session ev r) = rs_family_id r"
  "rs_user_id (rotate_session ev r) = rs_user_id r" "rs_token_hash (rotate_session ev r) = rs_token_hash r"
  "rs_expires_at (rotate_session ev r) = rs_expires_at r" "rs_revoked_at (rotate_session ev r) = rs_revoked_at r"
  "rs_rotated_at (rotate_session ev r) = Some (ev_now ev)" "rs_replaced_by_id (rotate_session ev r) = Some (ev_id ev)"
  by (simp_all add: rotate_session_def)

lemma new_session_simps [simp]:
  "rs_id (new_session ev uid f t) = ev_id ev" "rs_family_id (new_session ev uid f t) = f"
  "rs_user_id (new_session ev uid f t) = uid" "rs_expires_at (new_session ev uid f t) = t"
  "rs_token_hash (new_session ev uid f t) = ev_sha ev (ev_token ev)"
  "rs_rotated_at (new_session ev uid f t) = None" "rs_replaced_by_id (new_session ev uid f t) = None"
  "rs_revoked_at (new_session ev uid f t) = None"
  by (simp_all add: new_session_def)

text \<open>The rows after a rotation: the rotated row, the new one, and the others.\<close>

definition rotation :: "auth_env \<Rightarrow> refresh_session \<Rightarrow> refresh_session list \<Rightarrow> refresh_session list" where
  "rotation ev r rs =
     put_row rs_id (rotate_session ev r)
       (rs @ [new_session ev (rs_user_id r) (rs_family_id r) (rs_expires_at r)])"

lemma families_rotation:
  assumes fam: "families_ok rs" and r: "r \<in> set rs" and live: "rs_rotated_at r = None" "rs_revoked_at r = None"
    and ids: "distinct (map rs_id (rotation ev r rs))"
  shows "families_ok (rotation ev r rs)"
proof -
  let ?n = "new_session ev (rs_user_id r) (rs_family_id r) (rs_expires_at r)"
  from ids have d: "distinct (map rs_id (rs @ [?n]))" by (simp only: rotation_def put_row_keys)
  then have n: "ev_id ev \<noteq> rs_id r" and d0: "distinct (map rs_id rs)" using r by auto
  have mem: "x = rotate_session ev r \<or> x = ?n \<or> (x \<in> set rs \<and> rs_id x \<noteq> rs_id r)"
    if "x \<in> set (rotation ev r rs)" for x
    using that by (auto simp: rotation_def dest!: put_row_in)
  have in_n: "?n \<in> set (rotation ev r rs)"
    using n unfolding rotation_def by (intro put_row_other) auto
  have in_r: "rotate_session ev r \<in> set (rotation ev r rs)"
    using r by (auto simp: rotation_def intro!: put_row_mem)
  have sl: "same_login x r" if "x \<in> set (rotation ev r rs)" "rs_family_id x = rs_family_id r" for x
    using mem [OF that(1)] that(2) families_same [OF fam, of x r] r live
    by (auto simp: same_login_def)
  have un: "x = ?n" if "x \<in> set (rotation ev r rs)" "rs_family_id x = rs_family_id r" "rs_rotated_at x = None" for x
    using mem [OF that(1)] that(2,3) families_live [OF fam, of x r] r live by auto
  have pair: "same_login x y \<and> (rs_rotated_at x = None \<and> rs_rotated_at y = None \<longrightarrow> x = y)"
    if x: "x \<in> set (rotation ev r rs)" and y: "y \<in> set (rotation ev r rs)"
      and eq: "rs_family_id x = rs_family_id y" for x y
  proof (cases "rs_family_id y = rs_family_id r")
    case True
    then show ?thesis using sl [OF x] sl [OF y] un [OF x] un [OF y] eq by (auto simp: same_login_def)
  next
    case False
    with x y eq have "x \<in> set rs" "y \<in> set rs" by (auto dest!: mem)
    then show ?thesis using families_same [OF fam] families_live [OF fam] eq by blast
  qed
  have succ: "\<exists>y \<in> set (rotation ev r rs). rs_id y = i \<and> rs_family_id y = rs_family_id x"
    if x: "x \<in> set (rotation ev r rs)" and i: "rs_replaced_by_id x = Some i" for x i
    using mem [OF x]
  proof (elim disjE conjE)
    assume "x \<in> set rs" and "rs_id x \<noteq> rs_id r"
    then obtain y where y: "y \<in> set rs" "rs_id y = i" "rs_family_id y = rs_family_id x"
      using families_next [OF fam] i by blast
    show ?thesis
    proof (cases "rs_id y = rs_id r")
      case True
      then have "y = r" using d0 y(1) r by (auto dest: distinct_key_unique)
      with in_r y show ?thesis by (intro bexI [of _ "rotate_session ev r"]) auto
    next
      case False
      with y have "y \<in> set (rotation ev r rs)" by (auto simp: rotation_def intro: put_row_other)
      with y show ?thesis by blast
    qed
  next
    assume "x = rotate_session ev r"
    then show ?thesis using in_n i by (intro bexI [of _ ?n]) auto
  next
    assume "x = ?n"
    then show ?thesis using i by simp
  qed
  from pair succ show ?thesis by (rule families_okI)
qed

subsection \<open>Inversion of the operations\<close>

lemma consume_attempt_Inr:
  assumes "consume_attempt p h b now now' s = Inr (x, s')"
  shows "one_or_none (filter (live_attempt p h b now) (login_attempts s)) s' = Inr (x, s')"
    and "s' = login_attempts_update
      (map (\<lambda>a. if live_attempt p h b now a then a\<lparr>la_consumed_at := Some now'\<rparr> else a)) s"
  using assms by (auto simp: consume_attempt_def bind_Inr select_all_Inr one_or_none_Inr)

lemma consume_attempt_Some:
  assumes "consume_attempt p h b now now' s = Inr (Some a, s')"
  shows "a \<in> set (login_attempts s)" and "live_attempt p h b now a"
proof -
  have "filter (live_attempt p h b now) (login_attempts s) = [a]"
    using consume_attempt_Inr(1) [OF assms] by (auto simp: one_or_none_Inr)
  then have "a \<in> set (filter (live_attempt p h b now) (login_attempts s))" by simp
  then show "a \<in> set (login_attempts s)" "live_attempt p h b now a" by auto
qed

lemma lock_refresh_Inr_cases [consumes 1, case_names None Some]:
  assumes "lock_refresh h s = Inr (x, s')"
  obtains "x = None" "s' = s" "\<forall>r \<in> set (refresh_sessions s). rs_token_hash r \<noteq> h"
  | r where "x = Some r" "s' = s" "r \<in> set (refresh_sessions s)" "rs_token_hash r = h"
  using assms unfolding lock_refresh_def bind_Inr
proof (elim exE conjE)
  fix y s1
  assume "select_first refresh_sessions (\<lambda>r. rs_token_hash r = h) s = Inr (y, s1)"
    and rest: "(case y of None \<Rightarrow> ret None
      | Some _ \<Rightarrow> select_one refresh_sessions (\<lambda>r. rs_token_hash r = h)) s1 = Inr (x, s')"
  then show thesis
  proof (cases rule: select_first_Inr_cases)
    case None
    with rest that(1) show ?thesis by simp
  next
    case (Some r)
    with rest have "select_one refresh_sessions (\<lambda>r. rs_token_hash r = h) s = Inr (x, s')" by simp
    then show ?thesis
    proof (cases rule: select_one_Inr_cases)
      case None
      with that(1) show ?thesis by simp
    next
      case (Some r)
      with that(2) show ?thesis by simp
    qed
  qed
qed

lemma lock_refresh_found:
  assumes "auth_schema s" and "r \<in> set (refresh_sessions s)"
  shows "lock_refresh (rs_token_hash r) s = Inr (Some r, s)"
proof -
  have d: "distinct (map rs_token_hash (refresh_sessions s))"
    using assms(1) by (simp add: auth_schema_def refreshes_ok_def)
  have "select_one refresh_sessions (\<lambda>x. rs_token_hash x = rs_token_hash r) s = Inr (Some r, s)"
    using d assms(2) by (intro select_one_found [of rs_token_hash]) auto
  moreover obtain x where "find (\<lambda>x. rs_token_hash x = rs_token_hash r) (refresh_sessions s) = Some x"
    using assms(2) by (cases "find (\<lambda>x. rs_token_hash x = rs_token_hash r) (refresh_sessions s)")
      (auto simp: find_None_iff)
  ultimately show ?thesis by (simp add: lock_refresh_def select_first_def gets_def bind_def)
qed

lemma revoke_family_Inr:
  "revoke_family f now reason s = Inr (u, s') \<longleftrightarrow>
   s' = refresh_sessions_update (map (revoked f now reason)) s"
  by (simp add: revoke_family_def revoked_def [abs_def])

lemma refresh_body_Inr_cases [consumes 1, case_names idle reuse rotated]:
  assumes "refresh_body ev raw s = Inr (x, s')"
  obtains "x = None" "s' = s"
  | r where "r \<in> set (refresh_sessions s)" "rs_token_hash r = ev_sha ev raw" "x = None"
      "rs_rotated_at r \<noteq> None \<or> rs_revoked_at r \<noteq> None"
      "s' = refresh_sessions_update (map (revoked (rs_family_id r) (ev_now ev) ''REUSE'')) s"
  | r user where "r \<in> set (refresh_sessions s)" "rs_token_hash r = ev_sha ev raw"
      "rs_rotated_at r = None" "rs_revoked_at r = None" "ev_now ev < rs_expires_at r"
      "user_is_active (rs_user_id r) user s"
      "x = Some \<lparr>st_access_token =
             encode_access (ev_jwt ev) (ev_later ev) (ev_jti ev) (rs_user_id r) (ev_key ev),
           st_refresh_token = ev_token ev, st_expires_at = rs_expires_at r\<rparr>"
      "s' = refresh_sessions_update (rotation ev r) s"
  using assms unfolding refresh_body_def bind_Inr
proof (elim exE conjE)
  fix c s1
  assume lock: "lock_refresh (ev_sha ev raw) s = Inr (c, s1)"
    and rest: "(case c of None \<Rightarrow> ret None
       | Some r \<Rightarrow>
         if rs_rotated_at r \<noteq> None \<or> rs_revoked_at r \<noteq> None then
           bind (revoke_family (rs_family_id r) (ev_now ev) ''REUSE'') (\<lambda>_. ret None)
         else if ev_now ev < rs_expires_at r then
           bind (get_active (rs_user_id r)) (\<lambda>user.
           bind (add_row refresh_sessions_update
                   (new_session ev (us_id user) (rs_family_id r) (rs_expires_at r))) (\<lambda>_.
           bind (save_row refresh_sessions_update rs_id (rotate_session ev r)) (\<lambda>_.
           ret (Some \<lparr>st_access_token =
                        encode_access (ev_jwt ev) (ev_later ev) (ev_jti ev) (us_id user) (ev_key ev),
                      st_refresh_token = ev_token ev, st_expires_at = rs_expires_at r\<rparr>))))
         else ret None) s1 = Inr (x, s')"
  show thesis
    using lock
  proof (cases rule: lock_refresh_Inr_cases)
    case None
    with rest that(1) show ?thesis by simp
  next
    case (Some r)
    show ?thesis
    proof (cases "rs_rotated_at r \<noteq> None \<or> rs_revoked_at r \<noteq> None")
      case True
      with Some rest that(2) show ?thesis by (auto simp: bind_Inr revoke_family_Inr)
    next
      case False
      show ?thesis
      proof (cases "ev_now ev < rs_expires_at r")
        case True
        with False Some rest obtain user where user: "user_is_active (rs_user_id r) user s"
          and x: "x = Some \<lparr>st_access_token =
             encode_access (ev_jwt ev) (ev_later ev) (ev_jti ev) (us_id user) (ev_key ev),
             st_refresh_token = ev_token ev, st_expires_at = rs_expires_at r\<rparr>"
          and s': "s' = refresh_sessions_update (put_row rs_id (rotate_session ev r))
             (refresh_sessions_update (\<lambda>rs. rs @
               [new_session ev (us_id user) (rs_family_id r) (rs_expires_at r)]) s)"
          by (simp add: bind_Inr del: fun_upd_apply) (metis get_active_Inr)
        have "us_id user = rs_user_id r" using user by (rule user_is_active_id)
        moreover from this s' have "s' = refresh_sessions_update (rotation ev r) s"
          by (simp add: rotation_def [abs_def] o_def)
        ultimately show ?thesis using x user Some False True that(3) by simp
      next
        case expired: False
        with False Some rest that(1) show ?thesis by simp
      qed
    qed
  qed
qed

end
