(* ===== verification/Auth_Properties.thy ===== *)
theory Auth_Properties
  imports Auth_Sessions
begin

section \<open>The authentication component as a transition system\<close>

text \<open>
  The steps of the component (every service call that writes), what each does to the two tables,
  the invariant of the reachable states, and the properties: a login state works once, a family
  has one live token, a reused token ends its family for good, and when a refresh succeeds.
\<close>

subsection \<open>What an operation does to the tables\<close>

inductive session_step :: "refresh_session list \<Rightarrow> refresh_session list \<Rightarrow> bool" where
  unchanged: "session_step rs rs"
| opened: "rs_family_id n \<notin> rs_family_id ` set rs \<Longrightarrow> rs_replaced_by_id n = None \<Longrightarrow>
    session_step rs (rs @ [n])"
| revoke: "session_step rs (map (revoked f now reason) rs)"
| rotate: "r \<in> set rs \<Longrightarrow> rs_rotated_at r = None \<Longrightarrow> rs_revoked_at r = None \<Longrightarrow>
    session_step rs (rotation ev r rs)"

inductive login_step :: "login_attempt list \<Rightarrow> login_attempt list \<Rightarrow> bool" where
  unchanged: "login_step xs xs"
| added: "login_step xs (xs @ [a])"
| consumed: "login_step xs
    (map (\<lambda>a. if live_attempt p h b now a then a\<lparr>la_consumed_at := Some now'\<rparr> else a) xs)"

inductive_cases session_stepE: "session_step rs rs'"
inductive_cases login_stepE: "login_step xs xs'"

definition auth_change :: "'a auth_tables_scheme \<Rightarrow> 'a auth_tables_scheme \<Rightarrow> bool" where
  "auth_change s s' \<longleftrightarrow>
     s' = s \<or>
     auth_schema s' \<and> login_step (login_attempts s) (login_attempts s') \<and>
     session_step (refresh_sessions s) (refresh_sessions s')"

inductive auth_step :: "'a auth_tables_scheme \<Rightarrow> 'a auth_tables_scheme \<Rightarrow> bool" where
  start: "auth_step s (snd (start_login ev url path s))"
| callback: "ev_family ev \<notin> rs_family_id ` set (refresh_sessions s) \<Longrightarrow>
    auth_step s (snd (callback ev identity code state binding s))"
| refresh: "auth_step s (snd (refresh ev raw s))"
| logout: "auth_step s (snd (logout ev raw s))"
| install_start: "auth_step s (snd (install_start ev uid wid target s))"
| install_consume: "auth_step s (snd (install_consume ev state binding s))"

lemma transaction_change:
  assumes "\<And>x t. m s = Inr (x, t) \<Longrightarrow> auth_schema t \<Longrightarrow>
      login_step (login_attempts s) (login_attempts t) \<and>
      session_step (refresh_sessions s) (refresh_sessions t)"
  shows "auth_change s (snd (transaction auth_schema m s))"
  using assms by (auto simp: auth_change_def transaction_def split: sum.splits)

lemma change_start: "auth_change s (snd (start_login ev url path s))"
proof -
  have "auth_change s (snd (transaction auth_schema
      (add_row login_attempts_update (new_attempt ev OAUTH_LOGIN None None ''/'')) s))"
    by (rule transaction_change) (auto intro: login_step.intros session_step.intros)
  then show ?thesis
    by (auto simp: start_login_def auth_change_def split: prod.splits sum.splits)
qed

lemma change_install_start: "auth_change s (snd (install_start ev uid wid target s))"
proof -
  have "auth_change s (snd (transaction auth_schema
      (add_row login_attempts_update (new_attempt ev GITHUB_INSTALL (Some uid) (Some wid) target)) s))"
    by (rule transaction_change) (auto intro: login_step.intros session_step.intros)
  then show ?thesis
    by (auto simp: install_start_def split: prod.splits sum.splits)
qed

lemma install_body_Inr:
  assumes "install_body ev state binding s = Inr (x, s')"
  obtains a where
    "consume_attempt GITHUB_INSTALL (ev_sha ev state) (ev_sha ev binding) (ev_now ev) (ev_later ev) s
       = Inr (Some a, s')" "x = (la_user_id a, la_workspace_id a, la_return_path a)"
  using assms by (auto simp: install_body_def bind_Inr split: option.splits)

lemma change_install_consume: "auth_change s (snd (install_consume ev state binding s))"
proof (cases "length state \<noteq> 43 \<or> length binding \<noteq> 43")
  case False
  have "auth_change s (snd (transaction auth_schema (install_body ev state binding) s))"
    by (rule transaction_change, erule install_body_Inr)
      (auto dest!: consume_attempt_Inr(2) intro: login_step.intros session_step.intros)
  with False show ?thesis by (simp add: install_consume_def)
qed (simp add: install_consume_def auth_change_def)

lemma change_refresh: "auth_change s (snd (refresh ev raw s))"
proof -
  have "auth_change s (snd (transaction auth_schema (refresh_body ev raw) s))"
  proof (rule transaction_change)
    fix x t
    assume "refresh_body ev raw s = Inr (x, t)"
    then show "login_step (login_attempts s) (login_attempts t) \<and>
        session_step (refresh_sessions s) (refresh_sessions t)"
      by (cases rule: refresh_body_Inr_cases) (auto intro: login_step.intros session_step.intros)
  qed
  then show ?thesis
    by (auto simp: refresh_def auth_change_def split: prod.splits sum.splits option.splits)
qed

lemma logout_body_Inr_cases:
  assumes "logout_body ev raw s = Inr (x, s')"
  obtains "s' = s"
  | r where "r \<in> set (refresh_sessions s)" "rs_token_hash r = ev_sha ev raw"
      "s' = refresh_sessions_update (map (revoked (rs_family_id r) (ev_now ev) ''LOGOUT'')) s"
  using assms unfolding logout_body_def
  by (auto simp: bind_Inr revoke_family_Inr elim!: lock_refresh_Inr_cases)

lemma change_logout: "auth_change s (snd (logout ev raw s))"
proof -
  have "auth_change s (snd (transaction auth_schema (logout_body ev raw) s))"
  proof (rule transaction_change)
    fix x t
    assume "logout_body ev raw s = Inr (x, t)"
    then show "login_step (login_attempts s) (login_attempts t) \<and>
        session_step (refresh_sessions s) (refresh_sessions t)"
      by (rule logout_body_Inr_cases) (auto intro: login_step.intros session_step.intros)
  qed
  then show ?thesis
    by (auto simp: logout_def auth_change_def split: prod.splits sum.splits option.splits)
qed

text \<open>The identity upsert changes only the table of users.\<close>

lemma upsert_user_tables:
  assumes "upsert_user now fresh i s = Inr (u, s')"
  shows "login_attempts s' = login_attempts s" "refresh_sessions s' = refresh_sessions s"
  using assms by (cases rule: upsert_user_Inr; simp)+

lemma upsert_identity_Inr:
  "upsert_identity now fresh i s = Inr (x, s') \<longleftrightarrow>
   (\<exists>u. upsert_user now fresh i s = Inr (u, s') \<and> user_status u = ACTIVE \<and> x = snapshot u)"
  by (auto simp: upsert_identity_def bind_Inr split: if_splits)

lemma open_session_Inr:
  assumes "open_session ev i s = Inr (x, s')"
  obtains u t where "upsert_user (ev_db_now ev) (ev_user_id ev) i s = Inr (u, t)"
    "user_status u = ACTIVE" "users s' = users t"
    "login_attempts s' = login_attempts s"
    "refresh_sessions s' = refresh_sessions s @
       [new_session ev (user_id u) (ev_family ev) (ev_later ev + days 7)]"
proof -
  from assms obtain x1 t v t2 where id: "upsert_identity (ev_db_now ev) (ev_user_id ev) i s = Inr (x1, t)"
    and "add_row refresh_sessions_update
      (new_session ev (us_id x1) (ev_family ev) (ev_later ev + days 7)) t = Inr (v, t2)"
    and "ret \<lparr>st_access_token = encode_access (ev_jwt ev) (ev_later ev) (ev_jti ev) (us_id x1) (ev_key ev),
          st_refresh_token = ev_token ev, st_expires_at = ev_later ev + days 7\<rparr> t2 = Inr (x, s')"
    unfolding open_session_def bind_Inr by (elim exE conjE) (rule that)
  then have s': "s' = refresh_sessions_update (\<lambda>rs. rs @
      [new_session ev (us_id x1) (ev_family ev) (ev_later ev + days 7)]) t" by simp
  from id obtain u where u: "upsert_user (ev_db_now ev) (ev_user_id ev) i s = Inr (u, t)"
    and st: "user_status u = ACTIVE" "x1 = snapshot u"
    unfolding upsert_identity_Inr by blast
  show ?thesis
    by (rule that [OF u st(1)]) (simp_all add: s' st(2) upsert_user_tables [OF u])
qed

lemma consume_login_Inr:
  "consume_login h b now s = Inr (x, s') \<longleftrightarrow>
   (\<exists>f. consume_attempt OAUTH_LOGIN h b now now s = Inr (f, s') \<and> x = (f \<noteq> None))"
  by (auto simp: consume_login_def bind_Inr)

text \<open>The transaction that consumes a login state, as \<open>callback\<close> runs it.\<close>

lemma consume_login_change:
  assumes "transaction auth_schema (consume_login h b now) s = (r, s1)"
  shows "auth_change s s1 \<and> refresh_sessions s1 = refresh_sessions s"
proof (cases r)
  case (Inl e)
  with assms show ?thesis by (auto dest: transaction_raises simp: auth_change_def)
next
  case (Inr x)
  with assms obtain f where ok: "auth_schema s1"
    and f: "consume_attempt OAUTH_LOGIN h b now now s = Inr (f, s1)"
    by (auto simp: transaction_Inr_iff consume_login_Inr)
  from consume_attempt_Inr(2) [OF f] ok show ?thesis
    by (auto simp: auth_change_def intro: login_step.intros session_step.intros)
qed

lemma change_callback:
  assumes fresh: "ev_family ev \<notin> rs_family_id ` set (refresh_sessions s)"
  shows "auth_change s (snd (callback ev identity code state binding s))"
proof -
  obtain r s1 where tx: "transaction auth_schema
      (consume_login (ev_sha ev state) (ev_sha ev binding) (ev_now ev)) s = (r, s1)"
    by (cases "transaction auth_schema
      (consume_login (ev_sha ev state) (ev_sha ev binding) (ev_now ev)) s")
  have first: "auth_change s s1" "refresh_sessions s1 = refresh_sessions s"
    using consume_login_change [OF tx] by auto
  have second: "auth_change s (snd (transaction auth_schema (open_session ev i) s1))" for i
  proof (cases "open_session ev i s1")
    case (Inl e)
    with first(1) show ?thesis by (simp add: transaction_Inl)
  next
    case (Inr p)
    then obtain x s2 where open_s: "open_session ev i s1 = Inr (x, s2)" by (cases p) auto
    show ?thesis
    proof (cases "auth_schema s2")
      case True
      from open_s have "login_attempts s2 = login_attempts s1 \<and>
          (\<exists>uid t. refresh_sessions s2 = refresh_sessions s @ [new_session ev uid (ev_family ev) t])"
        by (rule open_session_Inr) (use first(2) in auto)
      then have "session_step (refresh_sessions s) (refresh_sessions s2)"
        "login_attempts s2 = login_attempts s1"
        using fresh session_step.opened [of "new_session ev _ (ev_family ev) _"] by auto
      with first(1) True show ?thesis
        using transaction_commit [of "open_session ev i" s1 x s2 auth_schema] open_s
        by (auto simp: auth_change_def intro: login_step.intros)
    next
      case False
      with open_s first(1) show ?thesis by (simp add: transaction_def)
    qed
  qed
  have "auth_change s s" by (simp add: auth_change_def)
  with first(1) second tx show ?thesis
    by (auto simp: callback_def split: sum.splits bool.splits)
qed

lemma auth_step_change: "auth_step s s' \<Longrightarrow> auth_change s s'"
  by (induction rule: auth_step.induct)
    (auto intro: change_start change_callback change_refresh change_logout change_install_start
      change_install_consume)

subsection \<open>Invariant and evolution\<close>

lemma session_step_families:
  assumes "session_step rs rs'" and "families_ok rs" and "refreshes_ok rs'"
  shows "families_ok rs'"
  using assms
  by (cases rule: session_step.cases)
    (auto intro: families_add families_revoke families_rotation simp: refreshes_ok_def)

lemma auth_inv_change: "auth_change s s' \<Longrightarrow> auth_inv s \<Longrightarrow> auth_inv s'"
  by (auto simp: auth_change_def auth_inv_def auth_schema_def intro: session_step_families)

definition session_evolves :: "refresh_session \<Rightarrow> refresh_session \<Rightarrow> bool" where
  "session_evolves r r' \<longleftrightarrow>
     rs_id r' = rs_id r \<and> rs_token_hash r' = rs_token_hash r \<and> rs_family_id r' = rs_family_id r \<and>
     rs_user_id r' = rs_user_id r \<and> rs_expires_at r' = rs_expires_at r \<and>
     (rs_rotated_at r \<noteq> None \<longrightarrow> rs_rotated_at r' = rs_rotated_at r) \<and>
     (rs_revoked_at r \<noteq> None \<longrightarrow>
        rs_revoked_at r' = rs_revoked_at r \<and> rs_revoke_reason r' = rs_revoke_reason r)"

definition login_evolves :: "login_attempt \<Rightarrow> login_attempt \<Rightarrow> bool" where
  "login_evolves a a' \<longleftrightarrow>
     la_id a' = la_id a \<and> la_state_hash a' = la_state_hash a \<and>
     la_browser_binding_hash a' = la_browser_binding_hash a \<and> la_purpose a' = la_purpose a \<and>
     (la_consumed_at a \<noteq> None \<longrightarrow> la_consumed_at a' = la_consumed_at a)"

definition auth_evolves :: "'a auth_tables_scheme \<Rightarrow> 'a auth_tables_scheme \<Rightarrow> bool" where
  "auth_evolves s s' \<longleftrightarrow>
     (\<forall>r \<in> set (refresh_sessions s). \<exists>r' \<in> set (refresh_sessions s'). session_evolves r r') \<and>
     (\<forall>a \<in> set (login_attempts s). \<exists>a' \<in> set (login_attempts s'). login_evolves a a')"

lemma session_evolves_refl [simp]: "session_evolves r r"
  by (simp add: session_evolves_def)

lemma session_evolves_revoked [simp]: "session_evolves r (revoked f now reason r)"
  by (auto simp: session_evolves_def revoked_def)

lemma evolves_self:
  "r \<in> set rs \<Longrightarrow> \<exists>r' \<in> set rs. session_evolves r r'"
  "a \<in> set xs \<Longrightarrow> \<exists>a' \<in> set xs. login_evolves a a'"
  by (auto simp: login_evolves_def intro: bexI [of _ r] bexI [of _ a])

lemma session_evolves_trans: "session_evolves r r' \<Longrightarrow> session_evolves r' r'' \<Longrightarrow> session_evolves r r''"
  by (auto simp: session_evolves_def)

lemma login_evolves_trans: "login_evolves a b \<Longrightarrow> login_evolves b c \<Longrightarrow> login_evolves a c"
  by (auto simp: login_evolves_def)

lemma session_step_evolves:
  assumes "session_step rs rs'" and ids: "distinct (map rs_id rs)" and r: "r \<in> set rs"
  shows "\<exists>r' \<in> set rs'. session_evolves r r'"
  using assms(1)
proof (cases rule: session_step.cases)
  case (rotate q ev)
  show ?thesis
  proof (cases "rs_id r = rs_id q")
    case True
    then have "r = q" using ids r rotate(2) by (auto dest: distinct_key_unique)
    moreover have "rotate_session ev q \<in> set rs'"
      using rotate by (auto simp: rotation_def intro!: put_row_mem)
    moreover have "session_evolves q (rotate_session ev q)"
      using rotate by (simp add: session_evolves_def)
    ultimately show ?thesis by blast
  next
    case False
    then have "r \<in> set rs'" using r rotate(1) by (auto simp: rotation_def intro: put_row_other)
    then show ?thesis by (intro bexI [of _ r]) simp_all
  qed
qed (use r in \<open>auto intro: bexI [of _ r]\<close>)

lemma login_step_evolves:
  assumes "login_step xs xs'" and "a \<in> set xs"
  shows "\<exists>a' \<in> set xs'. login_evolves a a'"
  using assms(1)
proof (cases rule: login_step.cases)
  case (consumed p h b now now')
  let ?f = "\<lambda>a. if live_attempt p h b now a then a\<lparr>la_consumed_at := Some now'\<rparr> else a"
  have "login_evolves a (?f a)" by (simp add: login_evolves_def live_attempt_def)
  moreover have "?f a \<in> set xs'" using assms(2) unfolding consumed set_map by (rule imageI)
  ultimately show ?thesis by blast
qed (use assms(2) in \<open>auto simp: login_evolves_def intro: bexI [of _ a]\<close>)

lemma auth_evolves_change:
  assumes "auth_inv s" and "auth_change s s'"
  shows "auth_evolves s s'"
proof -
  have "distinct (map rs_id (refresh_sessions s))"
    using assms(1) by (simp add: auth_inv_def auth_schema_def refreshes_ok_def)
  then show ?thesis
    using assms(2)
    by (auto simp: auth_change_def auth_evolves_def
        intro: session_step_evolves login_step_evolves evolves_self)
qed

definition empty_auth :: "'a auth_tables_scheme \<Rightarrow> bool" where
  "empty_auth s \<longleftrightarrow> users s = [] \<and> login_attempts s = [] \<and> refresh_sessions s = []"

interpretation auth: evolving_system empty_auth auth_step auth_inv auth_evolves
proof unfold_locales
  show "auth_inv s" if "empty_auth s" for s :: "'a auth_tables_scheme"
    using that by (simp add: empty_auth_def auth_inv_def auth_schema_def users_ok_def logins_ok_def
        refreshes_ok_def families_ok_def)
  show "auth_evolves s s" for s :: "'a auth_tables_scheme"
    by (auto simp: auth_evolves_def intro: evolves_self)
  show "auth_evolves s u" if "auth_evolves s t" "auth_evolves t u" for s t u :: "'a auth_tables_scheme"
    using that unfolding auth_evolves_def by (meson session_evolves_trans login_evolves_trans)
qed (auto intro: auth_inv_change auth_step_change auth_evolves_change)

end
