(* ===== verification/Auth_Results.thy ===== *)
theory Auth_Results
  imports Auth_Properties
begin

section \<open>Properties of logins and sessions\<close>

subsection \<open>Consuming and revoking\<close>

lemma no_live_attempt:
  assumes "auth_inv s" and "a \<in> set (login_attempts s)" and "la_state_hash a = h" and "la_consumed_at a \<noteq> None"
  shows "x \<in> set (login_attempts s) \<Longrightarrow> \<not> live_attempt p h b now x"
proof
  assume x: "x \<in> set (login_attempts s)" and live: "live_attempt p h b now x"
  have "distinct (map la_state_hash (login_attempts s))"
    using assms(1) by (simp add: auth_inv_def auth_schema_def logins_ok_def)
  moreover have "la_state_hash x = la_state_hash a" using live assms(3) by (simp add: live_attempt_def)
  ultimately have "x = a" using x assms(2) by (metis distinct_key_unique)
  with live assms(4) show False by (simp add: live_attempt_def)
qed

lemma consume_login_none:
  assumes "auth_inv s" and none: "\<And>x. x \<in> set (login_attempts s) \<Longrightarrow> \<not> live_attempt OAUTH_LOGIN h b now x"
  shows "transaction auth_schema (consume_login h b now) s = (Inr False, s)"
proof -
  have "filter (live_attempt OAUTH_LOGIN h b now) (login_attempts s) = []"
    using none by (auto simp: filter_empty_conv)
  moreover have "login_attempts_update (map (\<lambda>a. if live_attempt OAUTH_LOGIN h b now a
      then a\<lparr>la_consumed_at := Some now\<rparr> else a)) s = s"
  proof -
    have "map (\<lambda>a. if live_attempt OAUTH_LOGIN h b now a
        then a\<lparr>la_consumed_at := Some now\<rparr> else a) (login_attempts s) = login_attempts s"
      using none by (simp add: map_idI)
    then show ?thesis by (cases s) simp
  qed
  ultimately have "consume_login h b now s = Inr (False, s)"
    unfolding consume_login_Inr consume_attempt_def bind_Inr
    by (auto simp: select_all_Inr one_or_none_Inr)
  with assms(1) show ?thesis by (simp add: transaction_commit auth_inv_def)
qed

text \<open>The state of the table after the transaction that consumes an attempt.\<close>

lemma consume_login_marks:
  assumes "auth_inv s" and "a \<in> set (login_attempts s)" and "live_attempt OAUTH_LOGIN h b now a"
    and "transaction auth_schema (consume_login h b now) s = (r, s1)"
  shows "r = Inr True \<and> (\<exists>a' \<in> set (login_attempts s1). la_state_hash a' = h \<and> la_consumed_at a' \<noteq> None)"
proof -
  let ?P = "live_attempt OAUTH_LOGIN h b now"
  let ?f = "\<lambda>a. if ?P a then a\<lparr>la_consumed_at := Some now\<rparr> else a"
  have "logins_ok (login_attempts s)" and rest: "users_ok (users s)" "refreshes_ok (refresh_sessions s)"
    using assms(1) by (simp_all add: auth_inv_def auth_schema_def)
  then have d: "distinct (map la_state_hash (login_attempts s))"
    and ids: "distinct (map la_id (login_attempts s))" and rows: "list_all login_row_ok (login_attempts s)"
    by (simp_all add: logins_ok_def)
  have "length (filter ?P (login_attempts s)) \<le> 1"
    using d by (rule length_filter_distinct [where c = h]) (simp add: live_attempt_def)
  moreover have "a \<in> set (filter ?P (login_attempts s))" using assms(2,3) by simp
  ultimately obtain x where "filter ?P (login_attempts s) = [x]"
    by (cases "filter ?P (login_attempts s)") auto
  then have eval: "consume_login h b now s = Inr (True, login_attempts_update (map ?f) s)"
    unfolding consume_login_Inr consume_attempt_def bind_Inr
    by (auto simp: select_all_Inr one_or_none_Inr)
  have cols: "map la_state_hash (map ?f xs) = map la_state_hash xs" "map la_id (map ?f xs) = map la_id xs" for xs
    by simp_all
  have "list_all login_row_ok (map ?f (login_attempts s))"
    using rows by (auto simp: list_all_iff login_row_ok_def)
  then have "logins_ok (map ?f (login_attempts s))"
    using d ids cols by (simp only: logins_ok_def)
  then have ok: "auth_schema (login_attempts_update (map ?f) s)" using rest by (simp add: auth_schema_def)
  have "?f a \<in> set (login_attempts (login_attempts_update (map ?f) s))" using assms(2) by auto
  moreover have "la_state_hash (?f a) = h \<and> la_consumed_at (?f a) \<noteq> None"
    using assms(3) by (simp add: live_attempt_def)
  ultimately show ?thesis
    using transaction_commit [of "consume_login h b now" s True "login_attempts_update (map ?f) s" auth_schema]
      eval ok assms(4) by auto
qed

lemma callback_marks:
  assumes "auth_inv s" and "a \<in> set (login_attempts s)"
    and "live_attempt OAUTH_LOGIN (ev_sha ev state) (ev_sha ev binding) (ev_now ev) a"
    and "ev_ready ev" and "code \<noteq> []" "length code \<le> 1024" "length state = 43" "length binding = 43"
  shows "\<exists>a' \<in> set (login_attempts (snd (callback ev identity code state binding s))).
    la_state_hash a' = ev_sha ev state \<and> la_consumed_at a' \<noteq> None"
proof -
  obtain r s1 where tx: "transaction auth_schema
      (consume_login (ev_sha ev state) (ev_sha ev binding) (ev_now ev)) s = (r, s1)"
    by (cases "transaction auth_schema
      (consume_login (ev_sha ev state) (ev_sha ev binding) (ev_now ev)) s")
  have r: "r = Inr True" and marked: "\<exists>a' \<in> set (login_attempts s1).
      la_state_hash a' = ev_sha ev state \<and> la_consumed_at a' \<noteq> None"
    using consume_login_marks [OF assms(1-3) tx] by auto
  have keep: "login_attempts (snd (transaction auth_schema (open_session ev i) s1)) = login_attempts s1" for i
    by (auto simp: transaction_def split: sum.splits elim: open_session_Inr)
  show ?thesis using marked keep tx r assms(4-) by (auto simp: callback_def split: sum.splits)
qed

text \<open>A family all of whose tokens are revoked: nothing in it can be refreshed.\<close>

definition family_dead :: "uuid \<Rightarrow> 'a auth_tables_scheme \<Rightarrow> bool" where
  "family_dead f s \<longleftrightarrow>
     (\<exists>r \<in> set (refresh_sessions s). rs_family_id r = f) \<and>
     (\<forall>r \<in> set (refresh_sessions s). rs_family_id r = f \<longrightarrow> rs_revoked_at r \<noteq> None)"

lemma family_dead_evolves:
  assumes "family_dead f s" and "auth_evolves s t" and "auth_inv t"
  shows "family_dead f t"
proof -
  from assms(1) obtain r where r: "r \<in> set (refresh_sessions s)" "rs_family_id r = f" "rs_revoked_at r \<noteq> None"
    unfolding family_dead_def by blast
  with assms(2) obtain r' where r': "r' \<in> set (refresh_sessions t)" "session_evolves r r'"
    unfolding auth_evolves_def by blast
  then have "rs_family_id r' = f" "rs_revoked_at r' \<noteq> None" using r by (auto simp: session_evolves_def)
  moreover have "families_ok (refresh_sessions t)" using assms(3) by (simp add: auth_inv_def)
  ultimately show ?thesis using r'(1) unfolding family_dead_def
    by (metis families_same same_login_def)
qed

lemma revoke_dead:
  "r \<in> set (refresh_sessions s) \<Longrightarrow>
   family_dead (rs_family_id r) (refresh_sessions_update (map (revoked (rs_family_id r) now reason)) s)"
proof -
  assume r: "r \<in> set (refresh_sessions s)"
  have "rs_revoked_at (revoked (rs_family_id r) now reason q) \<noteq> None" if "rs_family_id q = rs_family_id r" for q
    using that by (simp add: revoked_def)
  with r show ?thesis unfolding family_dead_def
    by (auto simp del: not_None_eq)
qed

lemma auth_schema_revoke:
  "auth_schema s \<Longrightarrow> auth_schema (refresh_sessions_update (map (revoked f now reason)) s)"
  by (simp add: auth_schema_def refreshes_revoke)

text \<open>Presenting a rotated or revoked token.\<close>

lemma refresh_reused:
  assumes "auth_schema s" and "r \<in> set (refresh_sessions s)" and "rs_token_hash r = ev_sha ev raw"
    and "rs_rotated_at r \<noteq> None \<or> rs_revoked_at r \<noteq> None"
  shows "transaction auth_schema (refresh_body ev raw) s =
    (Inr None, refresh_sessions_update (map (revoked (rs_family_id r) (ev_now ev) ''REUSE'')) s)"
proof -
  have "lock_refresh (ev_sha ev raw) s = Inr (Some r, s)"
    using lock_refresh_found [OF assms(1,2)] assms(3) by simp
  moreover have "revoke_family (rs_family_id r) (ev_now ev) ''REUSE'' s =
      Inr ((), refresh_sessions_update (map (revoked (rs_family_id r) (ev_now ev) ''REUSE'')) s)"
    by (simp add: revoke_family_Inr)
  ultimately have "refresh_body ev raw s =
      Inr (None, refresh_sessions_update (map (revoked (rs_family_id r) (ev_now ev) ''REUSE'')) s)"
    using assms(4) by (simp add: refresh_body_def bind_def ret_def)
  then show ?thesis using auth_schema_revoke [OF assms(1)] by (rule transaction_commit)
qed

lemma refresh_dead:
  assumes "auth_inv s" and "family_dead f s" and "r \<in> set (refresh_sessions s)" and "rs_family_id r = f"
    and "rs_token_hash r = ev_sha ev raw" and "ev_ready ev"
  shows "fst (refresh ev raw s) = Inl session_expired"
proof -
  have "rs_revoked_at r \<noteq> None" using assms(2-4) by (simp add: family_dead_def)
  then show ?thesis using refresh_reused [of s r ev raw] assms by (simp add: refresh_def auth_inv_def)
qed

subsection \<open>The rows of a successful rotation\<close>

lemma rotation_list:
  assumes "rs = xs @ r # ys" and "distinct (map rs_id rs)" and "ev_id ev \<noteq> rs_id r"
  shows "rotation ev r rs =
    xs @ rotate_session ev r # ys @ [new_session ev (rs_user_id r) (rs_family_id r) (rs_expires_at r)]"
proof -
  have "put_row rs_id (rotate_session ev r) zs = zs" if "rs_id r \<notin> rs_id ` set zs" for zs
    using that by (intro put_row_absent) simp
  moreover have "rs_id r \<notin> rs_id ` set xs" "rs_id r \<notin> rs_id ` set ys" using assms(1,2) by auto
  ultimately show ?thesis using assms(1,3) by (simp add: rotation_def put_row_def)
qed

lemma rotation_ok:
  assumes inv: "auth_inv s" and r: "r \<in> set (refresh_sessions s)" and live: "rs_rotated_at r = None"
    and fresh: "ev_id ev \<notin> rs_id ` set (refresh_sessions s)"
      "ev_sha ev (ev_token ev) \<notin> rs_token_hash ` set (refresh_sessions s)"
    and hex: "is_hex 64 (ev_sha ev (ev_token ev))" and clock: "ev_db_now ev < rs_expires_at r"
  shows "refreshes_ok (rotation ev r (refresh_sessions s))"
proof -
  let ?rs = "refresh_sessions s"
  obtain xs ys where split: "?rs = xs @ r # ys" using r by (meson split_list)
  have ok: "refreshes_ok ?rs" and fam: "families_ok ?rs" using inv by (simp_all add: auth_inv_def auth_schema_def)
  have id: "ev_id ev \<noteq> rs_id r" using fresh r by auto
  have eq: "rotation ev r ?rs = xs @ rotate_session ev r # ys @
      [new_session ev (rs_user_id r) (rs_family_id r) (rs_expires_at r)]"
    using ok by (intro rotation_list split id) (simp add: refreshes_ok_def)
  have "refresh_row_ok r" using ok r by (simp add: refreshes_ok_def list_all_iff)
  then have rows: "refresh_row_ok (rotate_session ev r)"
    "refresh_row_ok (new_session ev (rs_user_id r) (rs_family_id r) (rs_expires_at r))"
    using id hex clock by (auto simp: refresh_row_ok_def rotate_session_def new_session_def)
  have old: "rs_replaced_by_id r = None"
    using \<open>refresh_row_ok r\<close> live by (simp add: refresh_row_ok_def)
  have new: "Some (ev_id ev) \<notin> rs_replaced_by_id ` set ?rs"
  proof
    assume "Some (ev_id ev) \<in> rs_replaced_by_id ` set ?rs"
    then obtain q where "q \<in> set ?rs" "rs_replaced_by_id q = Some (ev_id ev)" by auto
    with fam obtain q' where "q' \<in> set ?rs" "rs_id q' = ev_id ev" by (blast dest: families_next)
    with fresh(1) show False by (metis imageI)
  qed
  let ?N = "\<lambda>zs. filter (\<lambda>x. x \<noteq> None) (map rs_replaced_by_id zs)"
  have "distinct (map rs_id (rotation ev r ?rs))" "distinct (map rs_token_hash (rotation ev r ?rs))"
  proof -
    have "map rs_id (rotation ev r ?rs) = map rs_id ?rs @ [ev_id ev]"
      by (simp add: rotation_def)
    moreover have "map rs_token_hash (rotation ev r ?rs) = map rs_token_hash ?rs @ [ev_sha ev (ev_token ev)]"
      unfolding eq by (simp add: split)
    ultimately show "distinct (map rs_id (rotation ev r ?rs))" "distinct (map rs_token_hash (rotation ev r ?rs))"
      using ok fresh by (simp_all add: refreshes_ok_def)
  qed
  moreover have "distinct (?N (rotation ev r ?rs))"
  proof -
    have "distinct (?N xs @ ?N ys)" using ok unfolding split refreshes_ok_def by (simp add: old)
    moreover have "Some (ev_id ev) \<notin> set (?N xs @ ?N ys)" using new unfolding split by auto
    ultimately show ?thesis unfolding eq by (simp del: not_None_eq)
  qed
  moreover have "list_all refresh_row_ok (rotation ev r ?rs)"
  proof -
    have "list_all refresh_row_ok (xs @ r # ys)" using ok unfolding split refreshes_ok_def by blast
    with rows show ?thesis unfolding eq by simp
  qed
  ultimately show ?thesis by (simp add: refreshes_ok_def)
qed

subsection \<open>Properties\<close>

text \<open>
  C6. In every state the authentication component reaches from empty tables, two refresh sessions
  of one family belong to the same user, expire at the same time (rotation never extends a login),
  are both revoked or both not, and at most one session of a family has not been rotated away.
\<close>

theorem reachable_families:
  assumes "empty_auth s0" and "auth_step\<^sup>*\<^sup>* s0 s"
    and "r \<in> set (refresh_sessions s)" and "r' \<in> set (refresh_sessions s)"
    and "rs_family_id r = rs_family_id r'"
  shows "rs_user_id r = rs_user_id r' \<and> rs_expires_at r = rs_expires_at r' \<and>
    (rs_revoked_at r = None) = (rs_revoked_at r' = None) \<and>
    (rs_rotated_at r = None \<and> rs_rotated_at r' = None \<longrightarrow> r = r')"
proof -
  have "families_ok (refresh_sessions s)"
    using auth.inv_reachable [OF assms(1,2)] by (simp add: auth_inv_def)
  then show ?thesis
    using families_same families_live assms(3-5) unfolding same_login_def by meson
qed

text \<open>
  A login state works once: after a callback that found a live attempt for it, whatever the
  exchange with GitHub answered and whatever the component does next, every later callback with
  that state is rejected and changes nothing.
\<close>

theorem login_state_works_once:
  assumes "auth_inv s" and "a \<in> set (login_attempts s)"
    and "live_attempt OAUTH_LOGIN (ev_sha ev state) (ev_sha ev binding) (ev_now ev) a"
    and "ev_ready ev" and "code \<noteq> []" and "length code \<le> 1024" and "length state = 43"
    and "length binding = 43" and "ev_family ev \<notin> rs_family_id ` set (refresh_sessions s)"
    and "auth_step\<^sup>*\<^sup>* (snd (callback ev identity code state binding s)) t"
    and "ev_ready ev'" and "ev_sha ev' state = ev_sha ev state"
  shows "callback ev' identity' code' state binding' t = (Inl login_rejected, t)"
proof -
  let ?s1 = "snd (callback ev identity code state binding s)"
  obtain a1 where a1: "a1 \<in> set (login_attempts ?s1)" "la_state_hash a1 = ev_sha ev state"
      "la_consumed_at a1 \<noteq> None"
    using callback_marks [OF assms(1-8)] by blast
  have inv1: "auth_inv ?s1" using auth_inv_change [OF change_callback [OF assms(9)] assms(1)] .
  have "auth_evolves ?s1 t" using auth.evolves_steps [OF assms(10) inv1] .
  with a1(1) obtain a2 where a2: "a2 \<in> set (login_attempts t)" "login_evolves a1 a2"
    unfolding auth_evolves_def by blast
  then have a2': "la_state_hash a2 = ev_sha ev' state" "la_consumed_at a2 \<noteq> None"
    using a1 assms(12) by (auto simp: login_evolves_def)
  have inv: "auth_inv t" using auth.inv_steps [OF assms(10) inv1] .
  have "transaction auth_schema
      (consume_login (ev_sha ev' state) (ev_sha ev' binding') (ev_now ev')) t = (Inr False, t)"
    using no_live_attempt [OF inv a2(1) a2'] by (intro consume_login_none [OF inv])
  with assms(11) show ?thesis by (simp add: callback_def)
qed

text \<open>
  C7. Reuse detection: presenting a refresh token that was rotated or revoked fails with
  SESSION_EXPIRED, and the revocation of its family is committed for good: in every state reached
  afterwards each token of the family is refused in the same way.
\<close>

theorem reused_token_ends_family:
  assumes "auth_inv s" and "ev_ready ev" and "length raw = 43"
    and "r \<in> set (refresh_sessions s)" and "rs_token_hash r = ev_sha ev raw"
    and "rs_rotated_at r \<noteq> None \<or> rs_revoked_at r \<noteq> None"
    and "auth_step\<^sup>*\<^sup>* (snd (refresh ev raw s)) t"
    and "q \<in> set (refresh_sessions t)" and "rs_family_id q = rs_family_id r"
    and "rs_token_hash q = ev_sha ev' raw'" and "ev_ready ev'"
  shows "fst (refresh ev raw s) = Inl session_expired \<and> rs_revoked_at q \<noteq> None \<and>
    fst (refresh ev' raw' t) = Inl session_expired"
proof -
  let ?s1 = "refresh_sessions_update (map (revoked (rs_family_id r) (ev_now ev) ''REUSE'')) s"
  have "auth_schema s" using assms(1) by (simp add: auth_inv_def)
  then have eval: "refresh ev raw s = (Inl session_expired, ?s1)"
    using refresh_reused [OF _ assms(4-6)] assms(2,3) by (simp add: refresh_def)
  have inv1: "auth_inv ?s1" using auth_inv_change [OF change_refresh assms(1), of ev raw] eval by simp
  have steps: "auth_step\<^sup>*\<^sup>* ?s1 t" using assms(7) eval by simp
  have inv: "auth_inv t" using auth.inv_steps [OF steps inv1] .
  have dead: "family_dead (rs_family_id r) t"
    using family_dead_evolves [OF revoke_dead [OF assms(4)] auth.evolves_steps [OF steps inv1] inv] .
  then have "rs_revoked_at q \<noteq> None" using assms(8,9) by (simp add: family_dead_def)
  moreover have "fst (refresh ev' raw' t) = Inl session_expired"
    using refresh_dead [OF inv dead assms(8-11)] .
  ultimately show ?thesis using eval by simp
qed

text \<open>
  When a refresh succeeds: with fresh randomness, exactly for a stored token that is neither
  rotated nor revoked nor out of time and whose user is active; the answer then carries the new
  token with the old expiry, and the old session points at its replacement.
\<close>

theorem refresh_succeeds_iff:
  assumes "auth_inv s" and "ev_ready ev" and "length raw = 43"
    and "ev_id ev \<notin> rs_id ` set (refresh_sessions s)"
    and "ev_sha ev (ev_token ev) \<notin> rs_token_hash ` set (refresh_sessions s)"
    and "is_hex 64 (ev_sha ev (ev_token ev))" and "ev_db_now ev \<le> ev_now ev"
  shows "fst (refresh ev raw s) = Inr tok \<longleftrightarrow>
    (\<exists>r u. r \<in> set (refresh_sessions s) \<and> rs_token_hash r = ev_sha ev raw \<and>
       rs_rotated_at r = None \<and> rs_revoked_at r = None \<and> ev_now ev < rs_expires_at r \<and>
       u \<in> set (users s) \<and> user_id u = rs_user_id r \<and> user_status u = ACTIVE \<and>
       tok = \<lparr>st_access_token =
                encode_access (ev_jwt ev) (ev_later ev) (ev_jti ev) (user_id u) (ev_key ev),
              st_refresh_token = ev_token ev, st_expires_at = rs_expires_at r\<rparr> \<and>
       snd (refresh ev raw s) = refresh_sessions_update (rotation ev r) s)" (is "?L \<longleftrightarrow> ?R")
proof
  assume ?L
  then obtain s' where tx: "transaction auth_schema (refresh_body ev raw) s = (Inr (Some tok), s')"
    and s': "snd (refresh ev raw s) = s'"
    using assms(2,3) by (auto simp: refresh_def split: prod.splits sum.splits option.splits)
  then have "refresh_body ev raw s = Inr (Some tok, s')" by (simp add: transaction_Inr_iff)
  then show ?R
  proof (cases rule: refresh_body_Inr_cases)
    case (rotated r user)
    then obtain u where "u \<in> set (users s)" "user_id u = rs_user_id r" "user_status u = ACTIVE"
      by (auto simp: user_is_active_def)
    with rotated s' show ?thesis by (intro exI [of _ r] exI [of _ u]) simp
  qed simp_all
next
  assume ?R
  then obtain r u where r: "r \<in> set (refresh_sessions s)" "rs_token_hash r = ev_sha ev raw"
      "rs_rotated_at r = None" "rs_revoked_at r = None" "ev_now ev < rs_expires_at r"
    and u: "u \<in> set (users s)" "user_id u = rs_user_id r" "user_status u = ACTIVE"
    and tok: "tok = \<lparr>st_access_token =
                encode_access (ev_jwt ev) (ev_later ev) (ev_jti ev) (user_id u) (ev_key ev),
              st_refresh_token = ev_token ev, st_expires_at = rs_expires_at r\<rparr>" by blast
  have schema: "auth_schema s" using assms(1) by (simp add: auth_inv_def)
  have "lock_refresh (ev_sha ev raw) s = Inr (Some r, s)"
    using lock_refresh_found [OF schema r(1)] r(2) by simp
  moreover have "get_active (rs_user_id r) s = Inr (snapshot u, s)"
    using schema u by (intro get_active_exists) (simp_all add: auth_schema_def)
  ultimately have body: "refresh_body ev raw s = Inr (Some tok, refresh_sessions_update (rotation ev r) s)"
    using r u(2) tok
    by (simp add: refresh_body_def bind_def ret_def add_row_def save_row_def modify_def
        rotation_def [abs_def] o_def)
  have "refreshes_ok (rotation ev r (refresh_sessions s))"
    using rotation_ok [OF assms(1) r(1,3) assms(4-6)] assms(7) r(5) by simp
  then have "auth_schema (refresh_sessions_update (rotation ev r) s)"
    using schema by (simp add: auth_schema_def)
  with body show ?L using assms(2,3)
    by (simp add: refresh_def transaction_def)
qed

text \<open>
  C8. An access token round trips: if the token library gives back the claims it signed, a request
  whose header carries the token issued for an active user is that user's request, and nothing is
  written.
\<close>

theorem issued_token_is_accepted:
  assumes "auth_schema s" and "ev_ready ev" and "u \<in> set (users s)" and "user_status u = ACTIVE"
    and "user_id u < 2 ^ 128"
    and "jwt (encode_access (ev_jwt ev) now jti (user_id u) (ev_key ev)) (ev_key ev) ''prism'' ''prism-api''
         = Inr \<lparr>cl_sub = uuid_text (user_id u), cl_iss = ''prism'', cl_aud = ''prism-api'', cl_iat = now,
                cl_exp = now + seconds 900, cl_jti = uuid_text jti, cl_type = ''access''\<rparr>"
    and "length (encode_access (ev_jwt ev) now jti (user_id u) (ev_key ev)) \<le> 4096"
  shows "require_principal ev jwt
      (Some (''Bearer '' @ encode_access (ev_jwt ev) now jti (user_id u) (ev_key ev))) s =
    (Inr (user_id u, snapshot u), s)"
proof -
  have "get_active (user_id u) s = Inr (snapshot u, s)"
    using assms(1,3,4) by (intro get_active_exists) (simp_all add: auth_schema_def)
  then have "transaction auth_schema (get_active (user_id u)) s = (Inr (snapshot u), s)"
    using assms(1) by (rule transaction_commit)
  moreover have "decode_access jwt (encode_access (ev_jwt ev) now jti (user_id u) (ev_key ev)) (ev_key ev) =
      Inr (user_id u)"
    using assms(5-7) by (simp add: decode_access_def uuid_round_trip)
  ultimately show ?thesis
    using assms(2) by (simp add: require_principal_def current_user_def)
qed

subsection \<open>Concrete runs\<close>

text \<open>A login, a refresh and the reuse of the first token, with a digest that keeps the examples small.\<close>

definition sample_digest :: "string \<Rightarrow> string" where
  "sample_digest t = replicate 64 (case t of [] \<Rightarrow> CHR ''0'' | c # _ \<Rightarrow> c)"

definition sample_token :: "char \<Rightarrow> string" where
  "sample_token c = replicate 43 c"

definition sample_env :: "int \<Rightarrow> char \<Rightarrow> nat \<Rightarrow> auth_env" where
  "sample_env now c n =
     \<lparr>ev_ready = True, ev_key = ''key'', ev_sha = sample_digest, ev_jwt = (\<lambda>c k. k),
      ev_db_now = now, ev_now = now, ev_later = now, ev_token = sample_token c,
      ev_binding = sample_token c, ev_id = n, ev_family = 100 + n, ev_jti = n, ev_user_id = 50 + n\<rparr>"

definition sample_identity :: "string \<Rightarrow> string \<Rightarrow> exn + github_identity" where
  "sample_identity code binding =
     Inr \<lparr>gi_github_user_id = 7, gi_login = ''o'', gi_display_name = None, gi_avatar_url = None\<rparr>"

definition sample_empty :: auth_tables where
  "sample_empty = \<lparr>jobs = [], users = [], login_attempts = [], refresh_sessions = []\<rparr>"

definition sample_started :: auth_tables where
  "sample_started = snd (start_login (sample_env 0 (CHR ''a'') 1) (\<lambda>x y. x) ''/'' sample_empty)"

definition sample_logged_in :: auth_tables where
  "sample_logged_in =
     snd (callback (sample_env 1 (CHR ''b'') 2) sample_identity ''c'' (sample_token (CHR ''a''))
       (sample_token (CHR ''a'')) sample_started)"

definition sample_refreshed :: auth_tables where
  "sample_refreshed =
     snd (refresh (sample_env 2 (CHR ''c'') 3) (sample_token (CHR ''b'')) sample_logged_in)"

lemma sample_token_simps [simp]:
  "length (sample_token c) = 43" "sample_digest (sample_token c) = replicate 64 c"
  by (simp_all add: sample_token_def sample_digest_def numeral_eq_Suc)

lemmas sample_defs = sample_env_def sample_identity_def sample_empty_def

lemmas auth_ok_defs = auth_schema_def users_ok_def user_row_ok_def logins_ok_def login_row_ok_def
  refreshes_ok_def refresh_row_ok_def

lemma sample_started_eq:
  "sample_started = sample_empty\<lparr>login_attempts :=
     [new_attempt (sample_env 0 (CHR ''a'') 1) OAUTH_LOGIN None None ''/'']\<rparr>"
  by (simp add: sample_started_def start_login_def transaction_def txn_eval row_ops sample_defs
      new_attempt_def auth_ok_defs hex_chars_def)

lemma sample_logged_in_eq:
  "sample_logged_in = sample_empty\<lparr>
     users := [new_user 1 52 (projr (sample_identity [] []))],
     login_attempts := [(new_attempt (sample_env 0 (CHR ''a'') 1) OAUTH_LOGIN None None ''/'')
       \<lparr>la_consumed_at := Some 1\<rparr>],
     refresh_sessions := [new_session (sample_env 1 (CHR ''b'') 2) 52 102 (1 + days 7)]\<rparr>"
  by (simp add: sample_logged_in_def sample_started_eq callback_def transaction_def txn_eval row_ops
      consume_login_def consume_attempt_def live_attempt_def open_session_def upsert_identity_def
      upsert_user_def sample_defs new_attempt_def new_session_def new_user_def snapshot_def
      auth_ok_defs hex_chars_def)

definition sample_old_session :: refresh_session where
  "sample_old_session = new_session (sample_env 1 (CHR ''b'') 2) 52 102 (1 + days 7)"

definition sample_new_session :: refresh_session where
  "sample_new_session = new_session (sample_env 2 (CHR ''c'') 3) 52 102 (1 + days 7)"

lemma sample_refreshed_eq:
  "sample_refreshed = sample_logged_in\<lparr>refresh_sessions :=
     [rotate_session (sample_env 2 (CHR ''c'') 3) sample_old_session, sample_new_session]\<rparr>"
  by (simp add: sample_refreshed_def sample_logged_in_eq refresh_def transaction_def txn_eval row_ops
      refresh_body_def lock_refresh_def get_active_def active_user_def
      sample_old_session_def sample_new_session_def
      sample_defs new_attempt_def new_session_def new_user_def snapshot_def rotate_session_def
      auth_ok_defs hex_chars_def)

lemma sample_steps:
  "auth_step sample_empty sample_started"
  "auth_step sample_started sample_logged_in"
  "auth_step sample_logged_in sample_refreshed"
proof -
  show "auth_step sample_empty sample_started"
    unfolding sample_started_def by (rule auth_step.start)
  show "auth_step sample_started sample_logged_in"
    unfolding sample_logged_in_def
    by (rule auth_step.callback) (simp add: sample_started_eq sample_empty_def)
  show "auth_step sample_logged_in sample_refreshed"
    unfolding sample_refreshed_def by (rule auth_step.refresh)
qed

lemma sample_invs: "auth_inv sample_started" "auth_inv sample_logged_in" "auth_inv sample_refreshed"
proof -
  have "empty_auth sample_empty" by (simp add: empty_auth_def sample_empty_def)
  then show "auth_inv sample_started" "auth_inv sample_logged_in" "auth_inv sample_refreshed"
    using sample_steps by (meson auth.inv_start auth.inv_step)+
qed

theorem reachable_families_witness:
  "rs_expires_at (rotate_session (sample_env 2 (CHR ''c'') 3) sample_old_session) =
   rs_expires_at sample_new_session"
proof -
  have "empty_auth sample_empty" by (simp add: empty_auth_def sample_empty_def)
  moreover have "auth_step\<^sup>*\<^sup>* sample_empty sample_refreshed"
    using sample_steps by (meson rtranclp.rtrancl_into_rtrancl rtranclp.rtrancl_refl)
  ultimately show ?thesis
    by (rule reachable_families [THEN conjunct2, THEN conjunct1])
      (simp_all add: sample_refreshed_eq sample_old_session_def sample_new_session_def)
qed

theorem login_state_works_once_witness:
  "callback (sample_env 5 (CHR ''d'') 9) sample_identity ''c'' (sample_token (CHR ''a''))
     (sample_token (CHR ''a'')) sample_logged_in = (Inl login_rejected, sample_logged_in)"
proof (rule login_state_works_once [OF sample_invs(1)])
  show "auth_step\<^sup>*\<^sup>* (snd (callback (sample_env 1 (CHR ''b'') 2) sample_identity ''c''
      (sample_token (CHR ''a'')) (sample_token (CHR ''a'')) sample_started)) sample_logged_in"
    unfolding sample_logged_in_def by (rule rtranclp.rtrancl_refl)
  show "new_attempt (sample_env 0 (CHR ''a'') 1) OAUTH_LOGIN None None ''/''
      \<in> set (login_attempts sample_started)"
    by (simp add: sample_started_eq)
qed (simp_all add: live_attempt_def new_attempt_def sample_env_def sample_started_eq sample_empty_def)

theorem reused_token_ends_family_witness:
  "fst (refresh (sample_env 6 (CHR ''d'') 9) (sample_token (CHR ''c''))
     (snd (refresh (sample_env 5 (CHR ''d'') 9) (sample_token (CHR ''b'')) sample_refreshed))) =
   Inl session_expired"
proof -
  let ?ev = "sample_env 5 (CHR ''d'') 9"
  let ?t = "snd (refresh ?ev (sample_token (CHR ''b'')) sample_refreshed)"
  let ?r = "rotate_session (sample_env 2 (CHR ''c'') 3) sample_old_session"
  have t: "?t = refresh_sessions_update (map (revoked 102 5 ''REUSE'')) sample_refreshed"
    using refresh_reused [of sample_refreshed ?r ?ev "sample_token (CHR ''b'')"] sample_invs(3)
    by (simp add: refresh_def sample_refreshed_eq auth_inv_def sample_env_def sample_old_session_def)
  have q: "revoked 102 5 ''REUSE'' sample_new_session \<in> set (refresh_sessions ?t)"
    unfolding t by (simp add: sample_refreshed_eq)
  have r: "?r \<in> set (refresh_sessions sample_refreshed)" by (simp add: sample_refreshed_eq)
  show ?thesis
    by (rule reused_token_ends_family [OF sample_invs(3) _ _ r _ _ rtranclp.rtrancl_refl q,
          THEN conjunct2, THEN conjunct2])
      (simp_all add: sample_env_def sample_old_session_def sample_new_session_def)
qed

theorem refresh_succeeds_iff_witness:
  "fst (refresh (sample_env 2 (CHR ''c'') 3) (sample_token (CHR ''b'')) sample_logged_in) =
   Inr \<lparr>st_access_token = ''key'', st_refresh_token = sample_token (CHR ''c''),
        st_expires_at = 1 + days 7\<rparr>"
proof -
  let ?ev = "sample_env 2 (CHR ''c'') 3"
  have old: "refresh_sessions sample_logged_in = [sample_old_session]"
    by (simp add: sample_logged_in_eq sample_old_session_def)
  have "refresh_sessions_update (rotation ?ev sample_old_session) sample_logged_in =
      sample_logged_in\<lparr>refresh_sessions := rotation ?ev sample_old_session [sample_old_session]\<rparr>"
    using old by (cases sample_logged_in) simp
  then have new: "snd (refresh ?ev (sample_token (CHR ''b'')) sample_logged_in) =
      refresh_sessions_update (rotation ?ev sample_old_session) sample_logged_in"
    unfolding sample_refreshed_def [symmetric] sample_refreshed_eq
    by (simp add: rotation_def put_row_def sample_old_session_def sample_new_session_def sample_env_def)
  show ?thesis
  proof (subst refresh_succeeds_iff [OF sample_invs(2)])
    show "\<exists>r u. r \<in> set (refresh_sessions sample_logged_in) \<and>
       rs_token_hash r = ev_sha ?ev (sample_token (CHR ''b'')) \<and>
       rs_rotated_at r = None \<and> rs_revoked_at r = None \<and> ev_now ?ev < rs_expires_at r \<and>
       u \<in> set (users sample_logged_in) \<and> user_id u = rs_user_id r \<and> user_status u = ACTIVE \<and>
       \<lparr>st_access_token = ''key'', st_refresh_token = sample_token (CHR ''c''),
        st_expires_at = 1 + days 7\<rparr> =
       \<lparr>st_access_token = encode_access (ev_jwt ?ev) (ev_later ?ev) (ev_jti ?ev) (user_id u) (ev_key ?ev),
        st_refresh_token = ev_token ?ev, st_expires_at = rs_expires_at r\<rparr> \<and>
       snd (refresh ?ev (sample_token (CHR ''b'')) sample_logged_in) =
         refresh_sessions_update (rotation ?ev r) sample_logged_in"
      by (rule exI [of _ sample_old_session], rule exI [of _ "hd (users sample_logged_in)"], unfold new)
        (simp add: sample_logged_in_eq sample_old_session_def sample_defs new_user_def encode_access_def)
  qed (simp_all add: old sample_old_session_def sample_env_def hex_chars_def)
qed

theorem issued_token_is_accepted_witness:
  "require_principal (sample_env 2 (CHR ''c'') 3)
     (\<lambda>token key iss aud. Inr \<lparr>cl_sub = uuid_text 52, cl_iss = iss, cl_aud = aud, cl_iat = 2,
        cl_exp = 2 + seconds 900, cl_jti = uuid_text 8, cl_type = ''access''\<rparr>)
     (Some (''Bearer '' @ encode_access (ev_jwt (sample_env 2 (CHR ''c'') 3)) 2 8 52 ''key''))
     sample_logged_in =
   (Inr (52, snapshot (hd (users sample_logged_in))), sample_logged_in)"
proof -
  have u: "user_id (hd (users sample_logged_in)) = 52"
    by (simp add: sample_logged_in_eq new_user_def)
  show ?thesis
    using issued_token_is_accepted [of sample_logged_in "sample_env 2 (CHR ''c'') 3"
        "hd (users sample_logged_in)" _ 2 8, unfolded u] sample_invs(2)
    by (simp add: auth_inv_def sample_logged_in_eq sample_env_def new_user_def encode_access_def)
qed

end
