(* ===== verification/Workspaces.thy ===== *)
theory Workspaces
  imports Auth
begin

section \<open>Workspaces, members and invitations\<close>

text \<open>
  \<^verbatim>\<open>app/domain/workspace\<close>: the tables and their constraints (\<^verbatim>\<open>models.py\<close>), the queries
  (\<^verbatim>\<open>repository.py\<close>), the permission table (\<^verbatim>\<open>permission.py\<close>), the guard \<open>require\<close> that every
  other component authorises its caller with, and the operations of \<open>WorkspaceService\<close>. Each
  operation is one transaction under the row lock of its workspace, so it is one atomic step.
\<close>

subsection \<open>Tables\<close>

datatype role = OWNER | ADMIN | MEMBER

datatype member_status = M_ACTIVE | LEFT | REMOVED

datatype invitation_status = I_PENDING | ACCEPTED | REVOKED | EXPIRED

record workspace =
  ws_id :: uuid
  ws_name :: string
  ws_status :: active_status
  ws_created_by :: uuid

record workspace_member =
  wm_id :: uuid
  wm_workspace_id :: uuid
  wm_user_id :: uuid
  wm_role :: role
  wm_status :: member_status
  wm_joined_at :: datetime
  wm_ended_at :: "datetime option"

record invitation =
  inv_id :: uuid
  inv_created_at :: datetime
  inv_workspace_id :: uuid
  inv_target :: int
  inv_invited_by :: uuid
  inv_token_hash :: string
  inv_role :: role
  inv_status :: invitation_status
  inv_expires_at :: datetime
  inv_accepted_at :: "datetime option"
  inv_revoked_at :: "datetime option"
  inv_accepted_by :: "uuid option"

record workspace_tables = auth_tables +
  workspaces :: "workspace list"
  members :: "workspace_member list"
  invitations :: "invitation list"

definition workspace_row_ok :: "workspace \<Rightarrow> bool" where
  "workspace_row_ok w \<longleftrightarrow> list_ex (\<lambda>c. c \<noteq> CHR '' '') (ws_name w)"

definition member_row_ok :: "workspace_member \<Rightarrow> bool" where
  "member_row_ok m \<longleftrightarrow> (wm_status m = M_ACTIVE) = (wm_ended_at m = None)"

definition invitation_row_ok :: "invitation \<Rightarrow> bool" where
  "invitation_row_ok i \<longleftrightarrow>
     0 < inv_target i \<and> is_hex 64 (inv_token_hash i) \<and> inv_role i \<noteq> OWNER \<and>
     inv_created_at i < inv_expires_at i \<and>
     (inv_status i = ACCEPTED \<and> inv_accepted_at i \<noteq> None \<and> inv_accepted_by i \<noteq> None \<or>
      inv_status i \<noteq> ACCEPTED \<and> inv_accepted_at i = None \<and> inv_accepted_by i = None) \<and>
     (inv_status i = REVOKED) = (inv_revoked_at i \<noteq> None)"

definition active_owner :: "workspace_member \<Rightarrow> bool" where
  "active_owner m \<longleftrightarrow> wm_role m = OWNER \<and> wm_status m = M_ACTIVE"

definition members_ok :: "workspace_member list \<Rightarrow> bool" where
  "members_ok ms \<longleftrightarrow>
     distinct (map wm_id ms) \<and>
     distinct (map (\<lambda>m. (wm_workspace_id m, wm_user_id m)) ms) \<and>
     distinct (map wm_workspace_id (filter active_owner ms)) \<and>
     list_all member_row_ok ms"

definition invitations_ok :: "invitation list \<Rightarrow> bool" where
  "invitations_ok xs \<longleftrightarrow>
     distinct (map inv_id xs) \<and> distinct (map inv_token_hash xs) \<and>
     distinct (map (\<lambda>i. (inv_workspace_id i, inv_target i)) (filter (\<lambda>i. inv_status i = I_PENDING) xs)) \<and>
     list_all invitation_row_ok xs"

definition workspaces_ok :: "workspace list \<Rightarrow> bool" where
  "workspaces_ok ws \<longleftrightarrow> distinct (map ws_id ws) \<and> list_all workspace_row_ok ws"

definition workspace_schema :: "'a workspace_tables_scheme \<Rightarrow> bool" where
  "workspace_schema s \<longleftrightarrow>
     users_ok (users s) \<and> workspaces_ok (workspaces s) \<and> members_ok (members s) \<and>
     invitations_ok (invitations s)"

interpretation workspace_store: row_store workspaces workspaces_update ws_id
  by unfold_locales simp_all

interpretation member_store: row_store members members_update wm_id
  by unfold_locales simp_all

interpretation invitation_store: row_store invitations invitations_update inv_id
  by unfold_locales simp_all

subsection \<open>Permissions\<close>

text \<open>A permission is its name; an unknown name grants nothing.\<close>

definition allowed :: "role \<Rightarrow> string \<Rightarrow> bool" where
  "allowed r permission \<longleftrightarrow>
     r \<in> set (case map_of
                 [(''read'', [OWNER, ADMIN, MEMBER]), (''sync'', [OWNER, ADMIN, MEMBER]),
                  (''manage'', [OWNER, ADMIN]), (''owner'', [OWNER])] permission of
               None \<Rightarrow> [] | Some grants \<Rightarrow> grants)"

subsection \<open>Repository\<close>

definition lock_workspace :: "uuid \<Rightarrow> ('a workspace_tables_scheme, workspace option) txn" where
  "lock_workspace wid = select_one workspaces (\<lambda>w. ws_id w = wid)"

definition find_member ::
  "uuid \<Rightarrow> uuid \<Rightarrow> ('a workspace_tables_scheme, workspace_member option) txn" where
  "find_member wid uid = select_one members (\<lambda>m. wm_workspace_id m = wid \<and> wm_user_id m = uid)"

definition after_cursor :: "uuid option \<Rightarrow> uuid \<Rightarrow> bool" where
  "after_cursor cursor k \<longleftrightarrow> (case cursor of None \<Rightarrow> True | Some c \<Rightarrow> c < k)"

text \<open>\<open>if cursor\<close> tests for \<open>None\<close>: a \<open>UUID\<close> object is always true.\<close>

definition page :: "('r \<Rightarrow> uuid) \<Rightarrow> uuid option \<Rightarrow> 'r list \<Rightarrow> 'r list" where
  "page key cursor rs = take 51 (sort_key key (filter (\<lambda>r. after_cursor cursor (key r)) rs))"

definition user_workspaces ::
  "uuid \<Rightarrow> uuid option \<Rightarrow> ('a workspace_tables_scheme, (workspace \<times> workspace_member) list) txn" where
  "user_workspaces uid cursor =
     gets (\<lambda>s. page (\<lambda>(w, m). ws_id w) cursor
       [(w, m). w \<leftarrow> workspaces s, m \<leftarrow> members s,
         wm_workspace_id m = ws_id w \<and> wm_user_id m = uid \<and> wm_status m = M_ACTIVE \<and>
         ws_status w = ACTIVE])"

definition workspace_members ::
  "uuid \<Rightarrow> uuid option \<Rightarrow> ('a workspace_tables_scheme, workspace_member list) txn" where
  "workspace_members wid cursor =
     gets (\<lambda>s. page wm_user_id cursor
       (filter (\<lambda>m. wm_workspace_id m = wid \<and> wm_status m = M_ACTIVE) (members s)))"

definition invitation_by_hash :: "string \<Rightarrow> ('a workspace_tables_scheme, invitation option) txn" where
  "invitation_by_hash digest = select_one invitations (\<lambda>i. inv_token_hash i = digest)"

definition find_invitation ::
  "uuid \<Rightarrow> uuid \<Rightarrow> ('a workspace_tables_scheme, invitation option) txn" where
  "find_invitation wid iid = select_one invitations (\<lambda>i. inv_workspace_id i = wid \<and> inv_id i = iid)"

definition lapsed :: "uuid \<Rightarrow> datetime \<Rightarrow> invitation \<Rightarrow> bool" where
  "lapsed wid now i \<longleftrightarrow>
     inv_workspace_id i = wid \<and> inv_status i = I_PENDING \<and> inv_expires_at i \<le> now"

definition expire :: "uuid \<Rightarrow> datetime \<Rightarrow> ('a workspace_tables_scheme, unit) txn" where
  "expire wid now =
     update_where invitations_update (lapsed wid now) (\<lambda>i. i\<lparr>inv_status := EXPIRED\<rparr>)"

definition pending :: "uuid \<Rightarrow> int \<Rightarrow> ('a workspace_tables_scheme, invitation option) txn" where
  "pending wid target =
     select_one invitations
       (\<lambda>i. inv_workspace_id i = wid \<and> inv_target i = target \<and> inv_status i = I_PENDING)"

definition pending_page ::
  "uuid \<Rightarrow> uuid option \<Rightarrow> ('a workspace_tables_scheme, invitation list) txn" where
  "pending_page wid cursor =
     gets (\<lambda>s. page inv_id cursor
       (filter (\<lambda>i. inv_workspace_id i = wid \<and> inv_status i = I_PENDING) (invitations s)))"

subsection \<open>The guard\<close>

definition workspace_missing :: exn where
  "workspace_missing = AppException ''WORKSPACE_NOT_FOUND'' NOT_FOUND"

definition permission_denied :: exn where
  "permission_denied = AppException ''PERMISSION_DENIED'' FORBIDDEN"

definition workspace_conflict :: "string \<Rightarrow> exn" where
  "workspace_conflict code = AppException code CONFLICT"

definition active_workspace :: "workspace option \<Rightarrow> bool" where
  "active_workspace w \<longleftrightarrow> (case w of None \<Rightarrow> False | Some w \<Rightarrow> ws_status w = ACTIVE)"

definition require ::
  "uuid \<Rightarrow> uuid \<Rightarrow> string \<Rightarrow> ('a workspace_tables_scheme, workspace_member) txn" where
  "require uid wid permission =
     bind (lock_workspace wid) (\<lambda>workspace.
     bind (get_active uid) (\<lambda>_.
     bind (find_member wid uid) (\<lambda>found.
     case found of
       None \<Rightarrow> raise workspace_missing
     | Some m \<Rightarrow>
         if \<not> active_workspace workspace \<or> wm_status m \<noteq> M_ACTIVE then raise workspace_missing
         else if \<not> allowed (wm_role m) permission then raise permission_denied
         else ret m)))"

definition require_permission ::
  "uuid \<Rightarrow> uuid \<Rightarrow> string \<Rightarrow> ('a workspace_tables_scheme, role) txn" where
  "require_permission uid wid permission = bind (require uid wid permission) (\<lambda>m. ret (wm_role m))"

definition lock_system :: "uuid \<Rightarrow> ('a workspace_tables_scheme, bool) txn" where
  "lock_system wid = bind (lock_workspace wid) (\<lambda>w. ret (active_workspace w))"

subsection \<open>The service\<close>

record workspace_view =
  wv_id :: uuid
  wv_name :: string
  wv_role :: role

record member_view =
  mv_user_id :: uuid
  mv_role :: role
  mv_login :: "string option"
  mv_display_name :: "string option"

record invitation_view =
  iv_id :: uuid
  iv_target :: int
  iv_role :: role
  iv_status :: invitation_status
  iv_expires_at :: datetime

definition view_of :: "invitation \<Rightarrow> invitation_view" where
  "view_of i =
     \<lparr>iv_id = inv_id i, iv_target = inv_target i, iv_role = inv_role i, iv_status = inv_status i,
      iv_expires_at = inv_expires_at i\<rparr>"

text \<open>\<open>None\<close> is a service without a database engine.\<close>

definition with_engine ::
  "bool \<Rightarrow> ('a workspace_tables_scheme, 'b) txn \<Rightarrow> 'a workspace_tables_scheme \<Rightarrow>
   (exn + 'b) \<times> 'a workspace_tables_scheme" where
  "with_engine engine m s =
     (if engine then transaction workspace_schema m s
      else (Inl (AppException ''DATABASE_UNAVAILABLE'' UNAVAILABLE), s))"

definition new_member :: "datetime \<Rightarrow> uuid \<Rightarrow> uuid \<Rightarrow> uuid \<Rightarrow> role \<Rightarrow> workspace_member" where
  "new_member db_now fresh wid uid r =
     \<lparr>wm_id = fresh, wm_workspace_id = wid, wm_user_id = uid, wm_role = r, wm_status = M_ACTIVE,
      wm_joined_at = db_now, wm_ended_at = None\<rparr>"

definition create_workspace ::
  "datetime \<Rightarrow> uuid \<Rightarrow> uuid \<Rightarrow> uuid \<Rightarrow> string \<Rightarrow> ('a workspace_tables_scheme, workspace_view) txn" where
  "create_workspace db_now fresh fresh_member uid name =
     bind (get_active uid) (\<lambda>_.
     bind (add_row workspaces_update
             \<lparr>ws_id = fresh, ws_name = name, ws_status = ACTIVE, ws_created_by = uid\<rparr>) (\<lambda>_.
     bind (flush workspace_schema) (\<lambda>_.
     bind (add_row members_update (new_member db_now fresh_member fresh uid OWNER)) (\<lambda>_.
     ret \<lparr>wv_id = fresh, wv_name = name, wv_role = OWNER\<rparr>))))"

definition list_workspaces ::
  "uuid \<Rightarrow> uuid option \<Rightarrow> ('a workspace_tables_scheme, workspace_view list) txn" where
  "list_workspaces uid cursor =
     bind (get_active uid) (\<lambda>_.
     bind (user_workspaces uid cursor) (\<lambda>rows.
     ret (map (\<lambda>(w, m). \<lparr>wv_id = ws_id w, wv_name = ws_name w, wv_role = wm_role m\<rparr>) rows)))"

definition list_members ::
  "uuid \<Rightarrow> uuid \<Rightarrow> uuid option \<Rightarrow> ('a workspace_tables_scheme, member_view list) txn" where
  "list_members uid wid cursor =
     bind (require uid wid ''read'') (\<lambda>_.
     bind (workspace_members wid cursor) (\<lambda>ms.
     bind (profiles (map wm_user_id ms)) (\<lambda>known.
     ret (map (\<lambda>m. \<lparr>mv_user_id = wm_user_id m, mv_role = wm_role m,
                     mv_login = map_option us_login (known (wm_user_id m)),
                     mv_display_name =
                       (case known (wm_user_id m) of None \<Rightarrow> None | Some u \<Rightarrow> us_display_name u)\<rparr>) ms))))"

definition new_invitation ::
  "(string \<Rightarrow> string) \<Rightarrow> datetime \<Rightarrow> datetime \<Rightarrow> uuid \<Rightarrow> string \<Rightarrow> uuid \<Rightarrow> uuid \<Rightarrow> int \<Rightarrow> role \<Rightarrow> invitation" where
  "new_invitation sha db_now now fresh raw uid wid target r =
     \<lparr>inv_id = fresh, inv_created_at = db_now, inv_workspace_id = wid, inv_target = target,
      inv_invited_by = uid, inv_token_hash = sha raw, inv_role = r, inv_status = I_PENDING,
      inv_expires_at = now + hours 24, inv_accepted_at = None, inv_revoked_at = None,
      inv_accepted_by = None\<rparr>"

definition invite ::
  "(string \<Rightarrow> string) \<Rightarrow> datetime \<Rightarrow> datetime \<Rightarrow> datetime \<Rightarrow> uuid \<Rightarrow> string \<Rightarrow> uuid \<Rightarrow> uuid \<Rightarrow> int \<Rightarrow> role \<Rightarrow>
   ('a workspace_tables_scheme, invitation_view \<times> string) txn" where
  "invite sha db_now now now' fresh raw uid wid target r =
     bind (require uid wid (if r = ADMIN then ''owner'' else ''manage'')) (\<lambda>_.
     bind (expire wid now) (\<lambda>_.
     bind (pending wid target) (\<lambda>found.
     if found \<noteq> None then raise (workspace_conflict ''INVITATION_EXISTS'')
     else
       bind (add_row invitations_update (new_invitation sha db_now now' fresh raw uid wid target r)) (\<lambda>_.
       bind (flush workspace_schema) (\<lambda>_.
       ret (view_of (new_invitation sha db_now now' fresh raw uid wid target r), raw))))))"

definition list_invitations ::
  "datetime \<Rightarrow> uuid \<Rightarrow> uuid \<Rightarrow> uuid option \<Rightarrow> ('a workspace_tables_scheme, invitation_view list) txn" where
  "list_invitations now uid wid cursor =
     bind (require uid wid ''manage'') (\<lambda>_.
     bind (expire wid now) (\<lambda>_.
     bind (pending_page wid cursor) (\<lambda>rows. ret (map view_of rows))))"

definition revoke_invitation ::
  "datetime \<Rightarrow> uuid \<Rightarrow> uuid \<Rightarrow> uuid \<Rightarrow> ('a workspace_tables_scheme, unit) txn" where
  "revoke_invitation now uid wid iid =
     bind (require uid wid ''manage'') (\<lambda>actor.
     bind (find_invitation wid iid) (\<lambda>found.
     case found of
       None \<Rightarrow> raise workspace_missing
     | Some i \<Rightarrow>
         if inv_role i = ADMIN \<and> wm_role actor \<noteq> OWNER then raise permission_denied
         else if inv_status i \<noteq> I_PENDING then raise (workspace_conflict ''WORKSPACE_CONFLICT'')
         else save_row invitations_update inv_id
                (i\<lparr>inv_status := REVOKED, inv_revoked_at := Some now\<rparr>)))"

definition rejoin :: "datetime \<Rightarrow> role \<Rightarrow> workspace_member \<Rightarrow> workspace_member" where
  "rejoin now r m =
     m\<lparr>wm_status := M_ACTIVE, wm_role := r, wm_ended_at := None, wm_joined_at := now\<rparr>"

text \<open>The last part of \<open>accept\<close>: the inviter must still be entitled, the member must not be active.\<close>

definition seat_invitee ::
  "datetime \<Rightarrow> datetime \<Rightarrow> datetime \<Rightarrow> uuid \<Rightarrow> uuid \<Rightarrow> invitation \<Rightarrow> workspace \<Rightarrow>
   ('a workspace_tables_scheme, workspace_view) txn" where
  "seat_invitee db_now now' now'' fresh uid i w =
     bind (find_member (inv_workspace_id i) (inv_invited_by i)) (\<lambda>inviter.
     bind (check (case inviter of None \<Rightarrow> False | Some v \<Rightarrow>
                    wm_status v = M_ACTIVE \<and>
                    allowed (wm_role v) (if inv_role i = ADMIN then ''owner'' else ''manage''))
                 (workspace_conflict ''INVITER_UNAVAILABLE'')) (\<lambda>_.
     bind (find_member (inv_workspace_id i) uid) (\<lambda>m.
     bind (check (case m of None \<Rightarrow> True | Some m \<Rightarrow> wm_status m \<noteq> M_ACTIVE)
                 (workspace_conflict ''ALREADY_MEMBER'')) (\<lambda>_.
     bind (case m of
             Some m \<Rightarrow> save_row members_update wm_id (rejoin now' (inv_role i) m)
           | None \<Rightarrow> add_row members_update
                       (new_member db_now fresh (inv_workspace_id i) uid (inv_role i))) (\<lambda>_.
     bind (save_row invitations_update inv_id
             (i\<lparr>inv_status := ACCEPTED, inv_accepted_by := Some uid,
                inv_accepted_at := Some now''\<rparr>)) (\<lambda>_.
     ret \<lparr>wv_id = ws_id w, wv_name = ws_name w, wv_role = inv_role i\<rparr>))))))"

text \<open>
  \<open>refresh\<close> reads the invitation again after the workspace lock; in an atomic step it is the same
  row.
\<close>

definition accept_invitation ::
  "(string \<Rightarrow> string) \<Rightarrow> datetime \<Rightarrow> datetime \<Rightarrow> datetime \<Rightarrow> datetime \<Rightarrow> uuid \<Rightarrow> uuid \<Rightarrow> string \<Rightarrow>
   ('a workspace_tables_scheme, workspace_view) txn" where
  "accept_invitation sha db_now now now' now'' fresh uid raw =
     bind (get_active uid) (\<lambda>user.
     bind (invitation_by_hash (sha raw)) (\<lambda>found.
     case found of
       None \<Rightarrow> raise workspace_missing
     | Some i \<Rightarrow>
         bind (lock_workspace (inv_workspace_id i)) (\<lambda>workspace.
         case workspace of
           None \<Rightarrow> raise workspace_missing
         | Some w \<Rightarrow>
             if ws_status w \<noteq> ACTIVE then raise workspace_missing
             else if inv_target i \<noteq> us_github_user_id user then raise permission_denied
             else if inv_status i \<noteq> I_PENDING \<or> inv_expires_at i \<le> now
             then raise (workspace_conflict ''INVITATION_UNAVAILABLE'')
             else seat_invitee db_now now' now'' fresh uid i w)))"

definition plain_view :: "uuid \<Rightarrow> role \<Rightarrow> member_view" where
  "plain_view uid r = \<lparr>mv_user_id = uid, mv_role = r, mv_login = None, mv_display_name = None\<rparr>"

text \<open>The member an operation acts on: missing unless it is active.\<close>

definition target_member ::
  "uuid \<Rightarrow> uuid \<Rightarrow> ('a workspace_tables_scheme, workspace_member) txn" where
  "target_member wid target =
     bind (find_member wid target) (\<lambda>found.
     case found of
       None \<Rightarrow> raise workspace_missing
     | Some m \<Rightarrow> if wm_status m \<noteq> M_ACTIVE then raise workspace_missing else ret m)"

definition change_role ::
  "uuid \<Rightarrow> uuid \<Rightarrow> uuid \<Rightarrow> role \<Rightarrow> ('a workspace_tables_scheme, member_view) txn" where
  "change_role uid wid target r =
     bind (require uid wid ''owner'') (\<lambda>_.
     bind (target_member wid target) (\<lambda>m.
     if wm_role m = OWNER then raise (workspace_conflict ''OWNER_TRANSFER_REQUIRED'')
     else
       bind (get_active target) (\<lambda>_.
       bind (save_row members_update wm_id (m\<lparr>wm_role := r\<rparr>)) (\<lambda>_.
       ret (plain_view target r)))))"

definition remove_member ::
  "datetime \<Rightarrow> uuid \<Rightarrow> uuid \<Rightarrow> uuid \<Rightarrow> ('a workspace_tables_scheme, unit) txn" where
  "remove_member now uid wid target =
     bind (require uid wid (if uid = target then ''read'' else ''manage'')) (\<lambda>actor.
     bind (target_member wid target) (\<lambda>m.
     if wm_role m = OWNER then raise (workspace_conflict ''OWNER_TRANSFER_REQUIRED'')
     else if uid \<noteq> target \<and> wm_role m = ADMIN \<and> wm_role actor \<noteq> OWNER then raise permission_denied
     else save_row members_update wm_id
            (m\<lparr>wm_status := (if uid = target then LEFT else REMOVED), wm_ended_at := Some now\<rparr>)))"

definition transfer_ownership ::
  "uuid \<Rightarrow> uuid \<Rightarrow> uuid \<Rightarrow> ('a workspace_tables_scheme, member_view) txn" where
  "transfer_ownership uid wid target =
     bind (require uid wid ''owner'') (\<lambda>owner.
     bind (target_member wid target) (\<lambda>m.
     if uid = target then raise (workspace_conflict ''WORKSPACE_CONFLICT'')
     else
       bind (get_active target) (\<lambda>_.
       bind (save_row members_update wm_id (owner\<lparr>wm_role := ADMIN\<rparr>)) (\<lambda>_.
       bind (flush workspace_schema) (\<lambda>_.
       bind (save_row members_update wm_id (m\<lparr>wm_role := OWNER\<rparr>)) (\<lambda>_.
       ret (plain_view target OWNER)))))))"

end
