(* ===== verification/Workspace_Members.thy ===== *)
theory Workspace_Members
  imports Workspaces Transition_System
begin

section \<open>Correctness of the workspace operations\<close>

text \<open>
  The guard as a read-only step with what it establishes, inversion rules for each operation, the
  ownership invariant (every workspace has exactly one active owner) with its preservation, and
  the transition system of the component.
\<close>

subsection \<open>The guard\<close>

definition authorized ::
  "uuid \<Rightarrow> uuid \<Rightarrow> string \<Rightarrow> workspace_member \<Rightarrow> 'a workspace_tables_scheme \<Rightarrow> bool" where
  "authorized uid wid permission m s \<longleftrightarrow>
     (\<exists>w \<in> set (workspaces s). ws_id w = wid \<and> ws_status w = ACTIVE) \<and>
     (\<exists>u \<in> set (users s). user_id u = uid \<and> user_status u = ACTIVE) \<and>
     m \<in> set (members s) \<and> wm_workspace_id m = wid \<and> wm_user_id m = uid \<and>
     wm_status m = M_ACTIVE \<and> allowed (wm_role m) permission"

lemma allowed_simps [simp]:
  "allowed r ''read''" "allowed r ''sync''" "allowed r ''manage'' = (r \<noteq> MEMBER)"
  "allowed r ''owner'' = (r = OWNER)"
  by (cases r; simp add: allowed_def)+

lemma lock_workspace_state: "lock_workspace wid s = Inr (w, s') \<Longrightarrow> s' = s"
  by (auto simp: lock_workspace_def dest: select_one_state)

lemma active_workspace_found:
  assumes "lock_workspace wid s = Inr (w, s')" and "active_workspace w"
  shows "\<exists>w \<in> set (workspaces s). ws_id w = wid \<and> ws_status w = ACTIVE"
  using assms by (auto simp: lock_workspace_def active_workspace_def split: option.splits dest: select_one_Some)

lemma require_reads:
  assumes "require uid wid permission s = Inr (m, s')"
  shows "s' = s \<and> authorized uid wid permission m s"
  using assms unfolding require_def bind_Inr
proof (elim exE conjE)
  fix w s1 u s2 f s3
  assume w: "lock_workspace wid s = Inr (w, s1)" and u: "get_active uid s1 = Inr (u, s2)"
    and f: "find_member wid uid s2 = Inr (f, s3)"
    and rest: "(case f of None \<Rightarrow> raise workspace_missing
       | Some m \<Rightarrow> if \<not> active_workspace w \<or> wm_status m \<noteq> M_ACTIVE then raise workspace_missing
           else if \<not> allowed (wm_role m) permission then raise permission_denied else ret m) s3 = Inr (m, s')"
  have s1: "s1 = s" using lock_workspace_state [OF w] .
  have s2: "s2 = s" and act: "user_is_active uid u s" using get_active_Inr [OF u] s1 by auto
  from rest have m: "f = Some m" "s' = s3" "active_workspace w" "wm_status m = M_ACTIVE"
    "allowed (wm_role m) permission"
    by (auto split: option.splits if_splits)
  have "s3 = s \<and> m \<in> set (members s) \<and> wm_workspace_id m = wid \<and> wm_user_id m = uid"
    using f m(1) s2 by (auto simp: find_member_def dest: select_one_Some)
  then show ?thesis
    using m active_workspace_found [OF w m(3)] act by (auto simp: authorized_def user_is_active_def)
qed

interpretation guard: reader "require uid wid permission" "authorized uid wid permission"
  using require_reads by unfold_locales

text \<open>The member an operation acts on.\<close>

definition is_member :: "uuid \<Rightarrow> uuid \<Rightarrow> workspace_member \<Rightarrow> 'a workspace_tables_scheme \<Rightarrow> bool" where
  "is_member wid uid m s \<longleftrightarrow>
     m \<in> set (members s) \<and> wm_workspace_id m = wid \<and> wm_user_id m = uid \<and> wm_status m = M_ACTIVE"

lemma target_member_reads:
  "target_member wid target s = Inr (m, s') \<Longrightarrow> s' = s \<and> is_member wid target m s"
  by (auto simp: target_member_def find_member_def bind_Inr is_member_def split: option.splits if_splits
      dest!: select_one_Some)

interpretation target: reader "target_member wid uid" "is_member wid uid"
  using target_member_reads by unfold_locales

lemma find_member_Inr_cases [consumes 1, case_names None Some]:
  assumes "find_member wid uid s = Inr (x, s')"
  obtains "x = None" "s' = s" "\<forall>m \<in> set (members s). \<not> (wm_workspace_id m = wid \<and> wm_user_id m = uid)"
  | m where "x = Some m" "s' = s" "m \<in> set (members s)" "wm_workspace_id m = wid" "wm_user_id m = uid"
  using assms unfolding find_member_def by (cases rule: select_one_Inr_cases) auto

lemma find_member_found:
  assumes "members_ok (members s)" and "m \<in> set (members s)"
  shows "find_member (wm_workspace_id m) (wm_user_id m) s = Inr (Some m, s)"
  unfolding find_member_def using assms
  by (intro select_one_found [of "\<lambda>m. (wm_workspace_id m, wm_user_id m)"]) (auto simp: members_ok_def)

lemma find_member_total: "members_ok (members s) \<Longrightarrow> find_member wid uid s \<noteq> Inl e"
  unfolding find_member_def members_ok_def
  by (intro select_one_unique [of "\<lambda>m. (wm_workspace_id m, wm_user_id m)" _ _ _ "(wid, uid)"]) auto

lemma lock_workspace_total: "workspaces_ok (workspaces s) \<Longrightarrow> lock_workspace wid s \<noteq> Inl e"
  unfolding lock_workspace_def workspaces_ok_def
  by (intro select_one_unique [of ws_id _ _ _ wid]) auto

lemma lock_workspace_found:
  "workspaces_ok (workspaces s) \<Longrightarrow> w \<in> set (workspaces s) \<Longrightarrow> lock_workspace (ws_id w) s = Inr (Some w, s)"
  unfolding lock_workspace_def workspaces_ok_def by (intro select_one_key) auto

lemma require_holds:
  assumes "workspace_schema s" and "authorized uid wid permission m s"
  shows "require uid wid permission s = Inr (m, s)"
proof -
  from assms(2) obtain w u where w: "w \<in> set (workspaces s)" "ws_id w = wid" "ws_status w = ACTIVE"
    and u: "u \<in> set (users s)" "user_id u = uid" "user_status u = ACTIVE"
    and m: "m \<in> set (members s)" "wm_workspace_id m = wid" "wm_user_id m = uid" "wm_status m = M_ACTIVE"
      "allowed (wm_role m) permission"
    unfolding authorized_def by blast
  have "lock_workspace wid s = Inr (Some w, s)"
    using assms(1) w lock_workspace_found [of s w] by (simp add: workspace_schema_def)
  moreover have "get_active uid s = Inr (snapshot u, s)"
    using assms(1) u by (intro get_active_exists) (simp_all add: workspace_schema_def)
  moreover have "find_member wid uid s = Inr (Some m, s)"
    using assms(1) m find_member_found [of s m] by (simp add: workspace_schema_def)
  ultimately show ?thesis
    using w m by (simp add: require_def bind_def active_workspace_def ret_def)
qed

definition guard_error :: "exn \<Rightarrow> bool" where
  "guard_error e \<longleftrightarrow> e \<in> {workspace_missing, permission_denied, user_unavailable}"

lemma require_error:
  assumes "workspace_schema s" and "require uid wid permission s = Inl e"
  shows "guard_error e"
proof -
  have ok: "users_ok (users s)" "workspaces_ok (workspaces s)" "members_ok (members s)"
    using assms(1) by (simp_all add: workspace_schema_def)
  from assms(2) show ?thesis
    unfolding require_def bind_Inl guard_error_def
    using lock_workspace_total [OF ok(2)] get_active_error [OF ok(1)] find_member_total [OF ok(3)]
    by (auto dest!: lock_workspace_state get_active_Inr split: option.splits if_splits
        elim!: find_member_Inr_cases)
qed

lemma target_member_found:
  "members_ok (members s) \<Longrightarrow> is_member wid uid m s \<Longrightarrow> target_member wid uid s = Inr (m, s)"
  using find_member_found [of s m] by (auto simp: target_member_def bind_def is_member_def ret_def)

lemma target_member_error:
  assumes "members_ok (members s)" and "target_member wid uid s = Inl e"
  shows "e = workspace_missing"
  using assms(2) find_member_total [OF assms(1)] unfolding target_member_def bind_Inl
  by (auto split: option.splits if_splits)

subsection \<open>Inversion of the operations\<close>

lemma create_workspace_Inr:
  assumes "create_workspace db_now fresh fresh_member uid name s = Inr (v, s')"
  obtains w where "w = \<lparr>ws_id = fresh, ws_name = name, ws_status = ACTIVE, ws_created_by = uid\<rparr>"
    "workspace_schema (workspaces_update (\<lambda>ws. ws @ [w]) s)"
    "s' = members_update (\<lambda>ms. ms @ [new_member db_now fresh_member fresh uid OWNER])
            (workspaces_update (\<lambda>ws. ws @ [w]) s)"
  using assms by (auto simp: create_workspace_def bind_Inr dest!: get_active_Inr)

definition lapse :: "uuid \<Rightarrow> datetime \<Rightarrow> invitation \<Rightarrow> invitation" where
  "lapse wid now i = (if lapsed wid now i then i\<lparr>inv_status := EXPIRED\<rparr> else i)"

lemma expire_Inr [simp]:
  "expire wid now s = Inr (u, s') \<longleftrightarrow> s' = invitations_update (map (lapse wid now)) s"
  by (simp add: expire_def lapse_def [abs_def])

lemma expire_Inl [simp]: "expire wid now s \<noteq> Inl e"
  by (simp add: expire_def)

lemma invite_Inr:
  assumes "invite sha db_now now now' fresh raw uid wid target r s = Inr (v, s')"
  obtains m where "authorized uid wid (if r = ADMIN then ''owner'' else ''manage'') m s"
    "s' = invitations_update (\<lambda>xs. map (lapse wid now) xs @
            [new_invitation sha db_now now' fresh raw uid wid target r]) s"
  using assms unfolding invite_def
  by (auto simp: bind_Inr pending_def o_def split: if_splits
      dest!: require_reads select_one_state)

lemma list_invitations_Inr:
  assumes "list_invitations now uid wid cursor s = Inr (v, s')"
  obtains m where "authorized uid wid ''manage'' m s"
    "s' = invitations_update (map (lapse wid now)) s"
  using assms unfolding list_invitations_def
  by (auto simp: bind_Inr pending_page_def dest!: require_reads)

lemma revoke_invitation_Inr:
  assumes "revoke_invitation now uid wid iid s = Inr (v, s')"
  obtains m i where "authorized uid wid ''manage'' m s" "i \<in> set (invitations s)"
    "inv_workspace_id i = wid" "inv_id i = iid" "inv_role i = ADMIN \<Longrightarrow> wm_role m = OWNER"
    "inv_status i = I_PENDING"
    "s' = invitations_update (put_row inv_id (i\<lparr>inv_status := REVOKED, inv_revoked_at := Some now\<rparr>)) s"
  using assms unfolding revoke_invitation_def
  by (auto simp: bind_Inr find_invitation_def split: option.splits if_splits
      dest!: require_reads select_one_Some)

lemma change_role_Inr:
  assumes "change_role uid wid tgt r s = Inr (v, s')"
  obtains a m where "authorized uid wid ''owner'' a s" "is_member wid tgt m s" "wm_role m \<noteq> OWNER"
    "s' = members_update (put_row wm_id (m\<lparr>wm_role := r\<rparr>)) s"
  using assms unfolding change_role_def
  by (auto simp: bind_Inr split: if_splits dest!: require_reads target_member_reads get_active_Inr)

lemma remove_member_Inr:
  assumes "remove_member now uid wid tgt s = Inr (v, s')"
  obtains a m where "authorized uid wid (if uid = tgt then ''read'' else ''manage'') a s"
    "is_member wid tgt m s" "wm_role m \<noteq> OWNER" "uid \<noteq> tgt \<Longrightarrow> wm_role m = ADMIN \<Longrightarrow> wm_role a = OWNER"
    "s' = members_update (put_row wm_id
      (m\<lparr>wm_status := (if uid = tgt then LEFT else REMOVED), wm_ended_at := Some now\<rparr>)) s"
  using assms unfolding remove_member_def
  by (auto simp: bind_Inr split: if_splits dest!: require_reads target_member_reads)

lemma transfer_ownership_Inr:
  assumes "transfer_ownership uid wid tgt s = Inr (v, s')"
  obtains a m where "authorized uid wid ''owner'' a s" "is_member wid tgt m s" "uid \<noteq> tgt"
    "workspace_schema (members_update (put_row wm_id (a\<lparr>wm_role := ADMIN\<rparr>)) s)"
    "s' = members_update (\<lambda>ms. put_row wm_id (m\<lparr>wm_role := OWNER\<rparr>)
            (put_row wm_id (a\<lparr>wm_role := ADMIN\<rparr>) ms)) s"
  using assms unfolding transfer_ownership_def
  by (auto simp: bind_Inr o_def split: if_splits dest!: require_reads target_member_reads get_active_Inr)

definition used_invitation :: "uuid \<Rightarrow> datetime \<Rightarrow> invitation \<Rightarrow> invitation" where
  "used_invitation uid now i =
     i\<lparr>inv_status := ACCEPTED, inv_accepted_by := Some uid, inv_accepted_at := Some now\<rparr>"

definition join_rows ::
  "datetime \<Rightarrow> datetime \<Rightarrow> uuid \<Rightarrow> uuid \<Rightarrow> invitation \<Rightarrow> workspace_member option \<Rightarrow>
   workspace_member list \<Rightarrow> workspace_member list" where
  "join_rows db_now now fresh uid i old ms =
     (case old of
        Some m \<Rightarrow> put_row wm_id (rejoin now (inv_role i) m) ms
      | None \<Rightarrow> ms @ [new_member db_now fresh (inv_workspace_id i) uid (inv_role i)])"

text \<open>The row of the user in the workspace before it joins: none, or one that has ended.\<close>

definition former_member ::
  "uuid \<Rightarrow> uuid \<Rightarrow> workspace_member option \<Rightarrow> 'a workspace_tables_scheme \<Rightarrow> bool" where
  "former_member wid uid old s \<longleftrightarrow>
     (case old of
        None \<Rightarrow> \<forall>m \<in> set (members s). \<not> (wm_workspace_id m = wid \<and> wm_user_id m = uid)
      | Some m \<Rightarrow> m \<in> set (members s) \<and> wm_workspace_id m = wid \<and> wm_user_id m = uid \<and>
                  wm_status m \<noteq> M_ACTIVE)"

lemma join_Inr:
  "(case m of
      None \<Rightarrow> add_row members_update (new_member db_now fresh (inv_workspace_id i) uid (inv_role i))
    | Some m \<Rightarrow> save_row members_update wm_id (rejoin now (inv_role i) m)) s = Inr (u, s') \<longleftrightarrow>
   s' = members_update (join_rows db_now now fresh uid i m) s"
  by (cases m) (simp_all add: join_rows_def [abs_def])

lemma seat_invitee_Inr:
  assumes "seat_invitee db_now now' now'' fresh uid i w s = Inr (v, s')"
  obtains inviter old where
    "is_member (inv_workspace_id i) (inv_invited_by i) inviter s"
    "allowed (wm_role inviter) (if inv_role i = ADMIN then ''owner'' else ''manage'')"
    "former_member (inv_workspace_id i) uid old s"
    "v = \<lparr>wv_id = ws_id w, wv_name = ws_name w, wv_role = inv_role i\<rparr>"
    "s' = invitations_update (put_row inv_id (used_invitation uid now'' i))
            (members_update (join_rows db_now now' fresh uid i old) s)"
proof -
  from assms obtain b s2 m s3 where b: "find_member (inv_workspace_id i) (inv_invited_by i) s = Inr (b, s2)"
    and bok: "case b of None \<Rightarrow> False | Some v \<Rightarrow> wm_status v = M_ACTIVE \<and>
        allowed (wm_role v) (if inv_role i = ADMIN then ''owner'' else ''manage'')"
    and m: "find_member (inv_workspace_id i) uid s2 = Inr (m, s3)"
    and mok: "case m of None \<Rightarrow> True | Some m \<Rightarrow> wm_status m \<noteq> M_ACTIVE"
    and s': "s' = invitations_update (put_row inv_id (used_invitation uid now'' i))
        (members_update (join_rows db_now now' fresh uid i m) s3)"
    and v: "v = \<lparr>wv_id = ws_id w, wv_name = ws_name w, wv_role = inv_role i\<rparr>"
    unfolding seat_invitee_def used_invitation_def by (auto simp: bind_Inr join_Inr)
  from b bok obtain inviter where inviter: "b = Some inviter" "s2 = s"
      "is_member (inv_workspace_id i) (inv_invited_by i) inviter s"
      "allowed (wm_role inviter) (if inv_role i = ADMIN then ''owner'' else ''manage'')"
    by (auto elim!: find_member_Inr_cases simp: is_member_def)
  have "s3 = s \<and> former_member (inv_workspace_id i) uid m s"
    using m mok inviter(2) by (auto elim!: find_member_Inr_cases simp: former_member_def)
  with that [OF inviter(3,4)] v s' show ?thesis by blast
qed

lemma accept_invitation_Inr:
  assumes "accept_invitation sha db_now now now' now'' fresh uid raw s = Inr (v, s')"
  obtains user i w where "user_is_active uid user s" "i \<in> set (invitations s)"
    "inv_token_hash i = sha raw" "w \<in> set (workspaces s)" "ws_id w = inv_workspace_id i"
    "ws_status w = ACTIVE" "inv_target i = us_github_user_id user" "inv_status i = I_PENDING"
    "now < inv_expires_at i" "seat_invitee db_now now' now'' fresh uid i w s = Inr (v, s')"
  using assms unfolding accept_invitation_def invitation_by_hash_def lock_workspace_def
  by (auto simp: bind_Inr split: option.splits if_splits dest!: get_active_Inr select_one_Some)

end
