(* ===== verification/Workspace_System.thy ===== *)
theory Workspace_System
  imports Workspace_Members
begin

section \<open>The workspace component as a transition system\<close>

text \<open>
  The committed operations of the service as steps (and any step of another component, which
  leaves the three tables alone), the ownership invariant of the reachable states and the way rows
  evolve.
\<close>

inductive ws_step :: "'a workspace_tables_scheme \<Rightarrow> 'a workspace_tables_scheme \<Rightarrow> bool" where
  others: "workspaces s' = workspaces s \<Longrightarrow> members s' = members s \<Longrightarrow>
    invitations s' = invitations s \<Longrightarrow> users_ok (users s') \<Longrightarrow> ws_step s s'"
| create: "transaction workspace_schema (create_workspace db_now fresh fresh_member uid name) s = (Inr v, s') \<Longrightarrow>
    ws_step s s'"
| invite: "transaction workspace_schema (invite sha db_now now now' fresh raw uid wid tgt r) s = (Inr p, s') \<Longrightarrow>
    ws_step s s'"
| list_invitations: "transaction workspace_schema (list_invitations now uid wid cursor) s = (Inr vs, s') \<Longrightarrow>
    ws_step s s'"
| revoke: "transaction workspace_schema (revoke_invitation now uid wid iid) s = (Inr u, s') \<Longrightarrow> ws_step s s'"
| accept: "transaction workspace_schema (accept_invitation sha db_now now now' now'' fresh uid raw) s = (Inr v, s') \<Longrightarrow>
    ws_step s s'"
| change_role: "transaction workspace_schema (change_role uid wid tgt r) s = (Inr mv, s') \<Longrightarrow> ws_step s s'"
| remove: "transaction workspace_schema (remove_member now uid wid tgt) s = (Inr u, s') \<Longrightarrow> ws_step s s'"
| transfer: "transaction workspace_schema (transfer_ownership uid wid tgt) s = (Inr mv, s') \<Longrightarrow> ws_step s s'"

subsection \<open>Ownership\<close>

definition owned :: "workspace list \<Rightarrow> workspace_member list \<Rightarrow> bool" where
  "owned ws ms \<longleftrightarrow>
     (\<forall>w \<in> set ws. \<exists>m \<in> set ms. wm_workspace_id m = ws_id w \<and> active_owner m) \<and>
     (\<forall>m \<in> set ms. \<exists>w \<in> set ws. ws_id w = wm_workspace_id m)"

definition ws_inv :: "'a workspace_tables_scheme \<Rightarrow> bool" where
  "ws_inv s \<longleftrightarrow> workspace_schema s \<and> owned (workspaces s) (members s)"

lemma owned_new:
  "owned ws ms \<Longrightarrow> ws_id w = wid \<Longrightarrow> owned (ws @ [w]) (ms @ [new_member t k wid uid OWNER])"
  by (auto simp: owned_def new_member_def active_owner_def)

lemma owned_add:
  "owned ws ms \<Longrightarrow> w \<in> set ws \<Longrightarrow> ws_id w = wm_workspace_id m \<Longrightarrow> owned ws (ms @ [m])"
  by (auto simp: owned_def)

lemma owned_put:
  assumes own: "owned ws ms" and ids: "distinct (map wm_id ms)" and m: "m \<in> set ms"
    and keep: "wm_id m' = wm_id m" "wm_workspace_id m' = wm_workspace_id m"
    and "\<not> active_owner m \<or> active_owner m'"
  shows "owned ws (put_row wm_id m' ms)"
proof -
  have here: "m' \<in> set (put_row wm_id m' ms)" using m keep by (intro put_row_mem) auto
  have "\<exists>y \<in> set (put_row wm_id m' ms). wm_workspace_id y = ws_id w \<and> active_owner y"
    if w: "w \<in> set ws" for w
  proof -
    obtain y where y: "y \<in> set ms" "wm_workspace_id y = ws_id w" "active_owner y"
      using own w unfolding owned_def by blast
    show ?thesis
    proof (cases "wm_id y = wm_id m'")
      case True
      then have "y = m" using ids y(1) m keep(1) by (metis distinct_key_unique)
      with y here keep assms(6) show ?thesis by (intro bexI [of _ m']) auto
    next
      case False
      with y show ?thesis by (intro bexI [of _ y]) (auto intro: put_row_other)
    qed
  qed
  moreover have "\<exists>w \<in> set ws. ws_id w = wm_workspace_id y" if "y \<in> set (put_row wm_id m' ms)" for y
    using put_row_in [OF that] own m keep(2) unfolding owned_def by metis
  ultimately show ?thesis unfolding owned_def by blast
qed

text \<open>After a transfer every other workspace keeps its owner and this one has the new one.\<close>

lemma owned_transfer:
  assumes own: "owned ws ms" and ids: "distinct (map wm_id ms)"
    and one: "distinct (map wm_workspace_id (filter active_owner ms))"
    and a: "a \<in> set ms" "active_owner a" and m: "m \<in> set ms" "wm_status m = M_ACTIVE" "wm_id m \<noteq> wm_id a"
    and same: "wm_workspace_id m = wm_workspace_id a"
  shows "owned ws (put_row wm_id (m\<lparr>wm_role := OWNER\<rparr>) (put_row wm_id (a\<lparr>wm_role := ADMIN\<rparr>) ms))"
    (is "owned ws ?ms")
proof -
  let ?m = "m\<lparr>wm_role := OWNER\<rparr>"
  have here: "?m \<in> set ?ms" using m a by (intro put_row_mem bexI [of _ m] put_row_other) auto
  have "\<exists>y \<in> set ?ms. wm_workspace_id y = ws_id w \<and> active_owner y" if w: "w \<in> set ws" for w
  proof -
    obtain y where y: "y \<in> set ms" "wm_workspace_id y = ws_id w" "active_owner y"
      using own w unfolding owned_def by blast
    show ?thesis
    proof (cases "wm_workspace_id y = wm_workspace_id a")
      case True
      with here y m same show ?thesis by (intro bexI [of _ ?m]) (auto simp: active_owner_def)
    next
      case False
      have "wm_id y \<noteq> wm_id a" using False ids y(1) a(1) by (metis distinct_key_unique)
      moreover have "wm_id y \<noteq> wm_id m" using False same ids y(1) m(1) by (metis distinct_key_unique)
      ultimately have "y \<in> set ?ms" using y(1) by (intro put_row_other) auto
      with y show ?thesis by blast
    qed
  qed
  moreover have "\<exists>w \<in> set ws. ws_id w = wm_workspace_id y" if "y \<in> set ?ms" for y
  proof -
    have "y = ?m \<or> y = a\<lparr>wm_role := ADMIN\<rparr> \<or> y \<in> set ms"
      using that by (auto dest!: put_row_in)
    then have "\<exists>z \<in> set ms. wm_workspace_id z = wm_workspace_id y" using m(1) a(1) by auto
    then show ?thesis using own unfolding owned_def by metis
  qed
  ultimately show ?thesis unfolding owned_def by blast
qed

lemma allowed_owner_role: "authorized uid wid ''owner'' m s \<Longrightarrow> wm_role m = OWNER"
  by (auto simp: authorized_def)

lemma join_rows_owned:
  assumes "owned ws (members s)" and "distinct (map wm_id (members s))"
    and "former_member (inv_workspace_id i) uid old s" and "w \<in> set ws" "ws_id w = inv_workspace_id i"
  shows "owned ws (join_rows db_now now fresh uid i old (members s))"
proof (cases old)
  case None
  with owned_add [OF assms(1,4)] assms(5) show ?thesis by (simp add: join_rows_def new_member_def)
next
  case (Some m)
  with assms show ?thesis
    by (auto simp: join_rows_def former_member_def rejoin_def active_owner_def intro!: owned_put)
qed

lemma create_owned:
  assumes "ws_inv s" and "create_workspace db_now fresh fresh_member uid name s = Inr (v, s')"
  shows "owned (workspaces s') (members s')"
  using assms(2)
proof (rule create_workspace_Inr)
  fix w
  assume w: "w = \<lparr>ws_id = fresh, ws_name = name, ws_status = ACTIVE, ws_created_by = uid\<rparr>"
    and s': "s' = members_update (\<lambda>ms. ms @ [new_member db_now fresh_member fresh uid OWNER])
            (workspaces_update (\<lambda>ws. ws @ [w]) s)"
  have "owned (workspaces s) (members s)" using assms(1) by (simp add: ws_inv_def)
  then have "owned (workspaces s @ [w]) (members s @ [new_member db_now fresh_member fresh uid OWNER])"
    by (rule owned_new) (simp add: w)
  then show ?thesis by (simp add: s')
qed

lemma ws_step_inv:
  assumes "ws_step s s'" and "ws_inv s"
  shows "ws_inv s'"
proof -
  have ids: "distinct (map wm_id (members s))"
    and one: "distinct (map wm_workspace_id (filter active_owner (members s)))"
    and own: "owned (workspaces s) (members s)"
    using assms(2) by (simp_all add: ws_inv_def workspace_schema_def members_ok_def)
  have "workspace_schema s' \<and> owned (workspaces s') (members s')"
    using assms(1)
  proof (cases rule: ws_step.cases)
    case others
    then show ?thesis using assms(2) by (simp add: ws_inv_def workspace_schema_def)
  next
    case create
    then show ?thesis using create_owned [OF assms(2)] by (auto simp: transaction_Inr_iff)
  next
    case invite
    then show ?thesis using own by (auto simp: transaction_Inr_iff elim!: invite_Inr)
  next
    case list_invitations
    then show ?thesis using own by (auto simp: transaction_Inr_iff elim!: list_invitations_Inr)
  next
    case revoke
    then show ?thesis using own by (auto simp: transaction_Inr_iff elim!: revoke_invitation_Inr)
  next
    case accept
    then show ?thesis
      by (auto simp: transaction_Inr_iff elim!: accept_invitation_Inr seat_invitee_Inr
          intro: join_rows_owned [OF own ids])
  next
    case change_role
    then show ?thesis using own ids
      by (auto simp: transaction_Inr_iff is_member_def active_owner_def elim!: change_role_Inr intro!: owned_put)
  next
    case remove
    then show ?thesis using own ids
      by (auto simp: transaction_Inr_iff is_member_def active_owner_def elim!: remove_member_Inr intro!: owned_put)
  next
    case (transfer uid wid tgt mv)
    then have ok: "workspace_schema s'" and op: "transfer_ownership uid wid tgt s = Inr (mv, s')"
      by (simp_all add: transaction_Inr_iff)
    from op show ?thesis
    proof (rule transfer_ownership_Inr)
      fix a m
      assume a: "authorized uid wid ''owner'' a s" and m: "is_member wid tgt m s" and ne: "uid \<noteq> tgt"
        and s': "s' = members_update (\<lambda>ms. put_row wm_id (m\<lparr>wm_role := OWNER\<rparr>)
            (put_row wm_id (a\<lparr>wm_role := ADMIN\<rparr>) ms)) s"
      have "wm_id m \<noteq> wm_id a"
        using a m ne ids unfolding authorized_def is_member_def by (metis distinct_key_unique)
      then have "owned (workspaces s) (put_row wm_id (m\<lparr>wm_role := OWNER\<rparr>)
          (put_row wm_id (a\<lparr>wm_role := ADMIN\<rparr>) (members s)))"
        using a m allowed_owner_role [OF a] unfolding authorized_def is_member_def
        by (intro owned_transfer [OF own ids one]) (simp_all add: active_owner_def)
      with ok s' show ?thesis by simp
    qed
  qed
  then show ?thesis by (simp add: ws_inv_def)
qed

subsection \<open>Evolution of an invitation\<close>

definition invitation_evolves :: "invitation \<Rightarrow> invitation \<Rightarrow> bool" where
  "invitation_evolves i i' \<longleftrightarrow>
     inv_id i' = inv_id i \<and> inv_token_hash i' = inv_token_hash i \<and>
     inv_workspace_id i' = inv_workspace_id i \<and> inv_target i' = inv_target i \<and>
     inv_role i' = inv_role i \<and> (inv_status i \<noteq> I_PENDING \<longrightarrow> i' = i)"

definition ws_evolves :: "'a workspace_tables_scheme \<Rightarrow> 'a workspace_tables_scheme \<Rightarrow> bool" where
  "ws_evolves s s' \<longleftrightarrow>
     (\<forall>i \<in> set (invitations s). \<exists>i' \<in> set (invitations s'). invitation_evolves i i')"

lemma invitation_evolves_refl [simp]: "invitation_evolves i i"
  by (simp add: invitation_evolves_def)

lemma invitation_evolves_trans:
  "invitation_evolves i j \<Longrightarrow> invitation_evolves j k \<Longrightarrow> invitation_evolves i k"
  by (auto simp: invitation_evolves_def)

lemma ws_evolves_same: "invitations s' = invitations s \<Longrightarrow> ws_evolves s s'"
  by (auto simp: ws_evolves_def intro: invitation_evolves_refl)

lemma ws_evolvesI:
  "(\<And>i. i \<in> set (invitations s) \<Longrightarrow> f i \<in> set (invitations s') \<and> invitation_evolves i (f i)) \<Longrightarrow>
   ws_evolves s s'"
  unfolding ws_evolves_def by blast

lemma lapse_evolves [simp]: "invitation_evolves i (lapse wid now i)"
  by (auto simp: invitation_evolves_def lapse_def lapsed_def)

lemma put_evolves:
  assumes "distinct (map inv_id xs)" and "j \<in> set xs" and "invitation_evolves j j'" and "i \<in> set xs"
  shows "\<exists>i' \<in> set (put_row inv_id j' xs). invitation_evolves i i'"
proof (cases "inv_id i = inv_id j'")
  case True
  then have "i = j" using assms by (metis distinct_key_unique invitation_evolves_def)
  moreover have "j' \<in> set (put_row inv_id j' xs)"
    using assms(2,3) by (intro put_row_mem) (auto simp: invitation_evolves_def)
  ultimately show ?thesis using assms(3) by blast
next
  case False
  with assms(4) show ?thesis by (intro bexI [of _ i]) (auto intro: put_row_other)
qed

lemma ws_evolves_put:
  assumes "distinct (map inv_id (invitations s))" and "j \<in> set (invitations s)"
    and "invitations s' = put_row inv_id j' (invitations s)" and "invitation_evolves j j'"
  shows "ws_evolves s s'"
  using put_evolves [OF assms(1,2,4)] assms(3) unfolding ws_evolves_def by simp

lemma evolves_closed:
  "inv_status i = I_PENDING \<Longrightarrow> invitation_evolves i (i\<lparr>inv_status := REVOKED, inv_revoked_at := t\<rparr>)"
  "inv_status i = I_PENDING \<Longrightarrow> invitation_evolves i (used_invitation uid now i)"
  by (simp_all add: invitation_evolves_def used_invitation_def)

lemma ws_step_evolves:
  assumes "ws_inv s" and "ws_step s s'"
  shows "ws_evolves s s'"
proof -
  have ids: "distinct (map inv_id (invitations s))"
    using assms(1) by (simp add: ws_inv_def workspace_schema_def invitations_ok_def)
  show ?thesis
    using assms(2)
  proof (cases rule: ws_step.cases)
    case others
    then show ?thesis by (simp add: ws_evolves_same)
  next
    case create
    then show ?thesis by (auto simp: transaction_Inr_iff elim!: create_workspace_Inr intro!: ws_evolves_same)
  next
    case invite
    then show ?thesis
      by (auto simp: transaction_Inr_iff elim!: invite_Inr intro!: ws_evolvesI [of s "lapse _ _"])
  next
    case list_invitations
    then show ?thesis
      by (auto simp: transaction_Inr_iff elim!: list_invitations_Inr intro!: ws_evolvesI [of s "lapse _ _"])
  next
    case revoke
    then show ?thesis
      by (auto simp: transaction_Inr_iff elim!: revoke_invitation_Inr
          intro: ws_evolves_put [OF ids] evolves_closed)
  next
    case accept
    then show ?thesis
      by (auto simp: transaction_Inr_iff elim!: accept_invitation_Inr seat_invitee_Inr
          intro: ws_evolves_put [OF ids] evolves_closed)
  next
    case change_role
    then show ?thesis by (auto simp: transaction_Inr_iff elim!: change_role_Inr intro!: ws_evolves_same)
  next
    case remove
    then show ?thesis by (auto simp: transaction_Inr_iff elim!: remove_member_Inr intro!: ws_evolves_same)
  next
    case transfer
    then show ?thesis by (auto simp: transaction_Inr_iff elim!: transfer_ownership_Inr intro!: ws_evolves_same)
  qed
qed

definition no_workspaces :: "'a workspace_tables_scheme \<Rightarrow> bool" where
  "no_workspaces s \<longleftrightarrow>
     workspaces s = [] \<and> members s = [] \<and> invitations s = [] \<and> users_ok (users s)"

interpretation spaces: evolving_system no_workspaces ws_step ws_inv ws_evolves
proof unfold_locales
  show "ws_inv s" if "no_workspaces s" for s :: "'a workspace_tables_scheme"
    using that by (simp add: no_workspaces_def ws_inv_def workspace_schema_def workspaces_ok_def
        members_ok_def invitations_ok_def owned_def)
  show "ws_evolves s s" for s :: "'a workspace_tables_scheme" by (rule ws_evolves_same) simp
  show "ws_evolves s u" if "ws_evolves s t" "ws_evolves t u" for s t u :: "'a workspace_tables_scheme"
    using that unfolding ws_evolves_def by (meson invitation_evolves_trans)
qed (auto intro: ws_step_inv ws_step_evolves)

end
