(* ===== verification/Workspace_Results.thy ===== *)
theory Workspace_Results
  imports Workspace_System
begin

section \<open>Properties of workspaces\<close>

subsection \<open>Constraints after a write\<close>

lemma members_ok_put:
  assumes ok: "members_ok ms" and m: "m \<in> set ms" and keep: "wm_id m' = wm_id m"
      "wm_workspace_id m' = wm_workspace_id m" "wm_user_id m' = wm_user_id m"
    and row: "member_row_ok m'"
    and own: "\<And>x. active_owner m' \<Longrightarrow> x \<in> set ms \<Longrightarrow> active_owner x \<Longrightarrow>
      wm_workspace_id x = wm_workspace_id m' \<Longrightarrow> wm_id x = wm_id m'"
  shows "members_ok (put_row wm_id m' ms)"
proof -
  have ids: "distinct (map wm_id ms)" using ok by (simp add: members_ok_def)
  have "map (\<lambda>m. (wm_workspace_id m, wm_user_id m)) (put_row wm_id m' ms) =
      map (\<lambda>m. (wm_workspace_id m, wm_user_id m)) ms"
  proof (rule put_row_column)
    fix x assume "x \<in> set ms" "wm_id x = wm_id m'"
    then have "x = m" using ids m keep(1) by (metis distinct_key_unique)
    then show "(wm_workspace_id x, wm_user_id x) = (wm_workspace_id m', wm_user_id m')" using keep by simp
  qed
  moreover have "distinct (map wm_workspace_id (filter active_owner (put_row wm_id m' ms)))"
    using ok ids own by (intro distinct_filter_put_row) (auto simp: members_ok_def)
  ultimately show ?thesis using ok row by (simp add: members_ok_def list_all_put_row)
qed

lemma owner_unique:
  assumes "members_ok ms" and "x \<in> set ms" "active_owner x" and "y \<in> set ms" "active_owner y"
    and "wm_workspace_id x = wm_workspace_id y"
  shows "x = y"
proof -
  have "distinct (map wm_workspace_id (filter active_owner ms))"
    using assms(1) by (simp add: members_ok_def)
  then show ?thesis by (rule distinct_key_unique) (use assms in auto)
qed

lemma lapse_keeps [simp]:
  "inv_id (lapse wid now i) = inv_id i" "inv_token_hash (lapse wid now i) = inv_token_hash i"
  "inv_role (lapse wid now i) = inv_role i" "inv_workspace_id (lapse wid now i) = inv_workspace_id i"
  "inv_target (lapse wid now i) = inv_target i"
  "inv_status (lapse wid now i) = I_PENDING \<longleftrightarrow> inv_status i = I_PENDING \<and> \<not> lapsed wid now i"
  by (auto simp: lapse_def)

lemma lapse_pending: "inv_status (lapse wid now i) = I_PENDING \<Longrightarrow> lapse wid now i = i"
  by (auto simp: lapse_def split: if_splits)

lemma invitations_ok_lapse:
  assumes "invitations_ok xs"
  shows "invitations_ok (map (lapse wid now) xs)"
proof -
  let ?f = "\<lambda>i. (inv_workspace_id i, inv_target i)"
  let ?P = "\<lambda>i. inv_status i = I_PENDING"
  have "map ?f (filter ?P (map (lapse wid now) ys)) = map ?f (filter (\<lambda>i. \<not> lapsed wid now i) (filter ?P ys))" for ys
    by (induction ys) auto
  moreover have "distinct (map ?f (filter (\<lambda>i. \<not> lapsed wid now i) (filter ?P xs)))"
    by (rule distinct_map_filter) (use assms in \<open>simp add: invitations_ok_def\<close>)
  moreover have "map inv_id (map (lapse wid now) xs) = map inv_id xs"
    "map inv_token_hash (map (lapse wid now) xs) = map inv_token_hash xs" by simp_all
  moreover have "invitation_row_ok (lapse wid now i)" if "invitation_row_ok i" for i
    using that by (auto simp: lapse_def lapsed_def invitation_row_ok_def)
  ultimately show ?thesis
    using assms unfolding invitations_ok_def by (simp only: list_all_iff set_map) blast
qed

subsection \<open>Ownership\<close>

text \<open>
  C4. In every state the component reaches from empty tables, whatever other components do in
  between, each workspace has exactly one active owner.
\<close>

theorem one_active_owner:
  assumes "no_workspaces s0" and "ws_step\<^sup>*\<^sup>* s0 s" and "w \<in> set (workspaces s)"
  shows "\<exists>!m. m \<in> set (members s) \<and> wm_workspace_id m = ws_id w \<and> active_owner m"
proof -
  have inv: "ws_inv s" using spaces.inv_reachable [OF assms(1,2)] .
  then obtain m where m: "m \<in> set (members s)" "wm_workspace_id m = ws_id w" "active_owner m"
    using assms(3) unfolding ws_inv_def owned_def by blast
  have ok: "members_ok (members s)" using inv by (simp add: ws_inv_def workspace_schema_def)
  show ?thesis using m owner_unique [OF ok] by (intro ex1I [of _ m]) auto
qed

text \<open>
  A transfer of ownership succeeds exactly when the caller is the active owner of an active
  workspace and the target is another active member with an active account; it then swaps the two
  roles in one step and nothing else, so no constraint can fail on the way.
\<close>

theorem transfer_succeeds_iff:
  assumes "ws_inv s"
  shows "fst (transaction workspace_schema (transfer_ownership uid wid tgt) s) = Inr v \<longleftrightarrow>
    uid \<noteq> tgt \<and> v = plain_view tgt OWNER \<and>
    (\<exists>u \<in> set (users s). user_id u = tgt \<and> user_status u = ACTIVE) \<and>
    (\<exists>a m. authorized uid wid ''owner'' a s \<and> is_member wid tgt m s \<and>
       snd (transaction workspace_schema (transfer_ownership uid wid tgt) s) =
         members_update (\<lambda>ms. put_row wm_id (m\<lparr>wm_role := OWNER\<rparr>)
           (put_row wm_id (a\<lparr>wm_role := ADMIN\<rparr>) ms)) s)" (is "?L \<longleftrightarrow> ?R")
proof
  assume ?L
  then obtain s' where tx: "transaction workspace_schema (transfer_ownership uid wid tgt) s = (Inr v, s')"
    by (cases "transaction workspace_schema (transfer_ownership uid wid tgt) s") auto
  then have op: "transfer_ownership uid wid tgt s = Inr (v, s')" by (simp add: transaction_Inr_iff)
  then have "v = plain_view tgt OWNER \<and> (\<exists>u \<in> set (users s). user_id u = tgt \<and> user_status u = ACTIVE)"
    unfolding transfer_ownership_def
    by (auto simp: bind_Inr user_is_active_def split: if_splits
        dest!: require_reads target_member_reads get_active_Inr)
  then show ?R using transfer_ownership_Inr [OF op] tx by (metis snd_conv)
next
  assume R: ?R
  then obtain u a m where u: "u \<in> set (users s)" "user_id u = tgt" "user_status u = ACTIVE"
    and a: "authorized uid wid ''owner'' a s" and m: "is_member wid tgt m s" and ne: "uid \<noteq> tgt"
    and v: "v = plain_view tgt OWNER" by blast
  have schema: "workspace_schema s" using assms by (simp add: ws_inv_def)
  then have ok: "members_ok (members s)" by (simp add: workspace_schema_def)
  have am: "a \<in> set (members s)" "active_owner a" "wm_workspace_id a = wid" "wm_user_id a = uid" "wm_status a = M_ACTIVE"
    using a by (auto simp: authorized_def active_owner_def)
  have mm: "m \<in> set (members s)" "wm_workspace_id m = wid" "wm_user_id m = tgt" "wm_status m = M_ACTIVE"
    using m by (auto simp: is_member_def)
  have rows: "member_row_ok a" "member_row_ok m"
    using ok am(1) mm(1) by (auto simp: members_ok_def list_all_iff)
  let ?ms = "put_row wm_id (a\<lparr>wm_role := ADMIN\<rparr>) (members s)"
  have ok1: "members_ok ?ms"
    using rows am by (intro members_ok_put [OF ok am(1)]) (auto simp: member_row_ok_def active_owner_def)
  have "wm_id m \<noteq> wm_id a"
    using ok am mm ne unfolding members_ok_def by (metis distinct_key_unique)
  then have m1: "m \<in> set ?ms" using mm(1) by (intro put_row_other) auto
  have "members_ok (put_row wm_id (m\<lparr>wm_role := OWNER\<rparr>) ?ms)"
  proof (rule members_ok_put [OF ok1 m1])
    fix x assume "x \<in> set ?ms" "active_owner x" "wm_workspace_id x = wm_workspace_id (m\<lparr>wm_role := OWNER\<rparr>)"
    then have "x \<in> set (members s)" "wm_id x \<noteq> wm_id a" "active_owner x" "wm_workspace_id x = wid"
      using put_row_in [of x wm_id "a\<lparr>wm_role := ADMIN\<rparr>" "members s"] mm(2) by (auto simp: active_owner_def)
    then have "x = a" using owner_unique [OF ok _ _ am(1,2)] am(3) by simp
    with \<open>wm_id x \<noteq> wm_id a\<close> show "wm_id x = wm_id (m\<lparr>wm_role := OWNER\<rparr>)" by simp
  qed (use rows mm in \<open>auto simp: member_row_ok_def\<close>)
  then have final: "workspace_schema (members_update (\<lambda>ms. put_row wm_id (m\<lparr>wm_role := OWNER\<rparr>)
      (put_row wm_id (a\<lparr>wm_role := ADMIN\<rparr>) ms)) s)"
    using schema by (simp add: workspace_schema_def)
  have mid: "workspace_schema (members_update (put_row wm_id (a\<lparr>wm_role := ADMIN\<rparr>)) s)"
    using schema ok1 by (simp add: workspace_schema_def)
  have "require uid wid ''owner'' s = Inr (a, s)" using require_holds [OF schema a] .
  moreover have "target_member wid tgt s = Inr (m, s)" using target_member_found [OF ok m] .
  moreover have "get_active tgt s = Inr (snapshot u, s)"
    using schema u by (intro get_active_exists) (simp_all add: workspace_schema_def)
  ultimately have "transfer_ownership uid wid tgt s = Inr (v, members_update (\<lambda>ms.
      put_row wm_id (m\<lparr>wm_role := OWNER\<rparr>) (put_row wm_id (a\<lparr>wm_role := ADMIN\<rparr>) ms)) s)"
    using ne v mid
    by (simp add: transfer_ownership_def bind_def ret_def save_row_def modify_def flush_def o_def)
  then show ?L using final by (simp add: transaction_def)
qed

subsection \<open>Authority and isolation\<close>

text \<open>The operations a user performs on a workspace it names.\<close>

inductive manages ::
  "uuid \<Rightarrow> uuid \<Rightarrow> 'a workspace_tables_scheme \<Rightarrow> 'a workspace_tables_scheme \<Rightarrow> bool" for uid wid where
  invites: "invite sha db_now now now' fresh raw uid wid tgt r s = Inr (p, s') \<Longrightarrow> manages uid wid s s'"
| lists: "list_invitations now uid wid cursor s = Inr (vs, s') \<Longrightarrow> manages uid wid s s'"
| revokes: "revoke_invitation now uid wid iid s = Inr (u, s') \<Longrightarrow> manages uid wid s s'"
| changes: "change_role uid wid tgt r s = Inr (mv, s') \<Longrightarrow> manages uid wid s s'"
| removes: "remove_member now uid wid tgt s = Inr (u, s') \<Longrightarrow> manages uid wid s s'"
| transfers: "transfer_ownership uid wid tgt s = Inr (mv, s') \<Longrightarrow> manages uid wid s s'"

definition elevated :: "workspace_member \<Rightarrow> bool" where
  "elevated m \<longleftrightarrow> wm_status m = M_ACTIVE \<and> wm_role m \<noteq> MEMBER"

definition admin_offer :: "invitation \<Rightarrow> bool" where
  "admin_offer i \<longleftrightarrow> inv_status i = I_PENDING \<and> inv_role i = ADMIN"

lemma authorized_owner:
  "authorized uid wid p m s \<Longrightarrow> wm_role m = OWNER \<Longrightarrow>
   m \<in> set (members s) \<and> wm_workspace_id m = wid \<and> wm_user_id m = uid \<and> active_owner m"
  by (auto simp: authorized_def active_owner_def)

text \<open>
  All operations of the service: those on a workspace the user names, accepting an invitation to
  it, founding it, and the two that only read.
\<close>

inductive acts ::
  "uuid \<Rightarrow> uuid \<Rightarrow> 'a workspace_tables_scheme \<Rightarrow> 'a workspace_tables_scheme \<Rightarrow> bool" for uid wid where
  managing: "manages uid wid s s' \<Longrightarrow> acts uid wid s s'"
| accepting: "accept_invitation sha db_now now now' now'' fresh uid raw s = Inr (v, s') \<Longrightarrow> wv_id v = wid \<Longrightarrow>
    acts uid wid s s'"
| founding: "create_workspace db_now fresh fresh_member uid name s = Inr (v, s') \<Longrightarrow> wv_id v = wid \<Longrightarrow>
    acts uid wid s s'"
| roster: "list_members uid wid cursor s = Inr (mvs, s') \<Longrightarrow> acts uid wid s s'"
| overview: "list_workspaces uid cursor s = Inr (wvs, s') \<Longrightarrow> acts uid wid s s'"

text \<open>
  How a user rises without being the owner: it takes up an open offer made to its GitHub account
  by someone who is the active owner at that moment, or it founds a workspace that did not exist.
\<close>

definition appointed :: "uuid \<Rightarrow> uuid \<Rightarrow> 'a workspace_tables_scheme \<Rightarrow> workspace_member \<Rightarrow> bool" where
  "appointed uid wid s m \<longleftrightarrow> wm_user_id m = uid \<and> wm_workspace_id m = wid \<and>
     (wm_role m = OWNER \<and> wid \<notin> ws_id ` set (workspaces s) \<or>
      wm_role m = ADMIN \<and>
      (\<exists>i \<in> set (invitations s). \<exists>u \<in> set (users s). \<exists>a \<in> set (members s).
         admin_offer i \<and> inv_workspace_id i = wid \<and> user_id u = uid \<and> inv_target i = github_user_id u \<and>
         active_owner a \<and> wm_workspace_id a = wid \<and> wm_user_id a = inv_invited_by i))"

lemma manages_appoints_none:
  assumes "ws_inv s" and "manages uid wid s s'"
    and no: "\<not> (\<exists>m \<in> set (members s). wm_workspace_id m = wid \<and> wm_user_id m = uid \<and> active_owner m)"
  shows "(\<forall>m \<in> set (members s'). elevated m \<longrightarrow> m \<in> set (members s)) \<and>
    (\<forall>m \<in> set (members s). elevated m \<and> wm_user_id m \<noteq> uid \<longrightarrow> m \<in> set (members s')) \<and>
    (\<forall>i \<in> set (invitations s'). admin_offer i \<longrightarrow> i \<in> set (invitations s))"
  using assms(2)
proof (cases rule: manages.cases)
  case (invites sha db_now now now' fresh raw tgt r p)
  then show ?thesis
  proof (rule invite_Inr)
    fix m
    assume m: "authorized uid wid (if r = ADMIN then ''owner'' else ''manage'') m s"
      and s': "s' = invitations_update (\<lambda>xs. map (lapse wid now) xs @
            [new_invitation sha db_now now' fresh raw uid wid tgt r]) s"
    have "r \<noteq> ADMIN" 
    proof
      assume "r = ADMIN"
      with m have "wm_role m = OWNER" by (simp add: allowed_owner_role)
      with authorized_owner [OF m] no show False by blast
    qed
    then show ?thesis
      using lapse_pending by (fastforce simp: s' admin_offer_def new_invitation_def)
  qed
next
  case (lists now cursor vs)
  then show ?thesis
    using lapse_pending by (fastforce simp: admin_offer_def elim!: list_invitations_Inr)
next
  case (revokes now iid u)
  then show ?thesis
    by (auto simp: admin_offer_def elim!: revoke_invitation_Inr dest!: put_row_in)
next
  case (changes tgt r mv)
  then show ?thesis using no by (auto elim!: change_role_Inr dest: authorized_owner allowed_owner_role)
next
  case (removes now tgt u)
  then show ?thesis
  proof (rule remove_member_Inr)
    fix a m
    assume a: "authorized uid wid (if uid = tgt then ''read'' else ''manage'') a s"
      and m: "is_member wid tgt m s" and r: "wm_role m \<noteq> OWNER"
      and adm: "uid \<noteq> tgt \<Longrightarrow> wm_role m = ADMIN \<Longrightarrow> wm_role a = OWNER"
      and s': "s' = members_update (put_row wm_id
        (m\<lparr>wm_status := (if uid = tgt then LEFT else REMOVED), wm_ended_at := Some now\<rparr>)) s"
        (is "_ = members_update (put_row wm_id ?m) s")
    have ids: "distinct (map wm_id (members s))"
      using assms(1) by (simp add: ws_inv_def workspace_schema_def members_ok_def)
    have member: "wm_role m = MEMBER" if "uid \<noteq> tgt"
      using adm [OF that] r no authorized_owner [OF a] by (cases "wm_role m") auto
    have away: "wm_id x \<noteq> wm_id m" if "x \<in> set (members s)" "elevated x" "wm_user_id x \<noteq> uid" for x
    proof
      assume "wm_id x = wm_id m"
      then have "x = m"
        using that m ids unfolding is_member_def by (metis distinct_key_unique)
      with that m member show False by (auto simp: elevated_def is_member_def)
    qed
    have "\<not> elevated ?m" by (simp add: elevated_def)
    then show ?thesis using away by (auto simp: s' dest!: put_row_in intro!: put_row_other)
  qed
next
  case (transfers tgt mv)
  then show ?thesis using no by (auto elim!: transfer_ownership_Inr dest: authorized_owner allowed_owner_role)
qed

lemma list_members_reads: "list_members uid wid cursor s = Inr (v, s') \<Longrightarrow> s' = s"
  by (auto simp: list_members_def workspace_members_def profiles_def select_all_def bind_Inr dest!: require_reads)

lemma list_workspaces_reads: "list_workspaces uid cursor s = Inr (v, s') \<Longrightarrow> s' = s"
  by (auto simp: list_workspaces_def user_workspaces_def bind_Inr dest!: get_active_Inr)

lemma joined_row:
  assumes "former_member (inv_workspace_id i) uid old s"
    and "m \<in> set (join_rows db_now now fresh uid i old (members s))" and "m \<notin> set (members s)"
  shows "wm_user_id m = uid \<and> wm_workspace_id m = inv_workspace_id i \<and> wm_role m = inv_role i"
  using assms by (auto simp: join_rows_def former_member_def new_member_def rejoin_def
      split: option.splits dest!: put_row_in)

lemma join_keeps_elevated:
  assumes "former_member (inv_workspace_id i) uid old s" and "distinct (map wm_id (members s))"
    and m: "m \<in> set (members s)" "elevated m"
  shows "m \<in> set (join_rows db_now now fresh uid i old (members s))"
proof (cases old)
  case None
  then show ?thesis using m by (simp add: join_rows_def)
next
  case (Some x)
  then have x: "x \<in> set (members s)" "\<not> elevated x"
    using assms(1) by (simp_all add: former_member_def elevated_def)
  have "wm_id m \<noteq> wm_id x"
    using assms(2) x m by (metis distinct_key_unique)
  then show ?thesis using m Some by (simp add: join_rows_def rejoin_def put_row_other)
qed

lemma accept_appoints_offered:
  assumes "ws_inv s" and "accept_invitation sha db_now now now' now'' fresh uid raw s = Inr (v, s')"
  shows "(\<forall>m \<in> set (members s'). elevated m \<longrightarrow> m \<in> set (members s) \<or> appointed uid (wv_id v) s m) \<and>
    (\<forall>m \<in> set (members s). elevated m \<longrightarrow> m \<in> set (members s')) \<and>
    (\<forall>i \<in> set (invitations s'). admin_offer i \<longrightarrow> i \<in> set (invitations s))"
proof -
  from assms(2) obtain user i w where user: "user_is_active uid user s" and i: "i \<in> set (invitations s)"
      "inv_status i = I_PENDING" "inv_target i = us_github_user_id user"
    and w: "ws_id w = inv_workspace_id i"
    and seat: "seat_invitee db_now now' now'' fresh uid i w s = Inr (v, s')"
    by (rule accept_invitation_Inr)
  from seat obtain inviter old where inviter: "is_member (inv_workspace_id i) (inv_invited_by i) inviter s"
      "allowed (wm_role inviter) (if inv_role i = ADMIN then ''owner'' else ''manage'')"
    and old: "former_member (inv_workspace_id i) uid old s" and v: "wv_id v = inv_workspace_id i"
    and s': "s' = invitations_update (put_row inv_id (used_invitation uid now'' i))
            (members_update (join_rows db_now now' fresh uid i old) s)"
    by (rule seat_invitee_Inr) (simp add: w)
  have ids: "distinct (map wm_id (members s))" and role: "inv_role i \<noteq> OWNER"
    using assms(1) i(1)
    by (auto simp: ws_inv_def workspace_schema_def members_ok_def invitations_ok_def list_all_iff
        invitation_row_ok_def)
  obtain u where u: "u \<in> set (users s)" "user_id u = uid" "user = snapshot u"
    using user by (auto simp: user_is_active_def)
  have "appointed uid (wv_id v) s m"
    if "m \<in> set (join_rows db_now now' fresh uid i old (members s))" "elevated m" "m \<notin> set (members s)" for m
  proof -
    have m: "wm_user_id m = uid" "wm_workspace_id m = inv_workspace_id i" "wm_role m = inv_role i"
      using joined_row [OF old that(1,3)] by simp_all
    then have admin: "inv_role i = ADMIN" using that(2) role by (cases "inv_role i") (auto simp: elevated_def)
    then have "active_owner inviter \<and> inviter \<in> set (members s) \<and>
        wm_workspace_id inviter = inv_workspace_id i \<and> wm_user_id inviter = inv_invited_by i"
      using inviter by (auto simp: is_member_def active_owner_def allowed_owner_role)
    with m admin i u v show ?thesis
      by (auto simp: appointed_def admin_offer_def intro!: bexI [of _ i] bexI [of _ u] bexI [of _ inviter])
  qed
  then show ?thesis
    using join_keeps_elevated [OF old ids]
    by (auto simp: s' admin_offer_def used_invitation_def dest!: put_row_in)
qed

lemma create_appoints_founder:
  assumes "create_workspace db_now fresh fresh_member uid name s = Inr (v, s')"
  shows "(\<forall>m \<in> set (members s'). elevated m \<longrightarrow> m \<in> set (members s) \<or> appointed uid (wv_id v) s m) \<and>
    (\<forall>m \<in> set (members s). elevated m \<longrightarrow> m \<in> set (members s')) \<and> invitations s' = invitations s"
  using assms
  by (auto simp: create_workspace_def bind_Inr appointed_def new_member_def workspace_schema_def
      workspaces_ok_def dest!: get_active_Inr)

text \<open>
  C5. Only the owner appoints: whatever operation of the service a user performs on a workspace it
  does not own, no invitation to become administrator is issued, no other administrator or owner
  loses that position, and nobody becomes administrator or owner, with two exceptions, both of the
  user itself: it becomes administrator by accepting an open invitation to that role, addressed to
  its GitHub account and issued by somebody who still is the active owner, and it becomes owner of
  a workspace it founds, which did not exist before.
\<close>

theorem only_owner_appoints:
  assumes "ws_inv s" and "acts uid wid s s'"
    and no: "\<not> (\<exists>m \<in> set (members s). wm_workspace_id m = wid \<and> wm_user_id m = uid \<and> active_owner m)"
  shows "(\<forall>m \<in> set (members s'). elevated m \<longrightarrow> m \<in> set (members s) \<or> appointed uid wid s m) \<and>
    (\<forall>m \<in> set (members s). elevated m \<and> wm_user_id m \<noteq> uid \<longrightarrow> m \<in> set (members s')) \<and>
    (\<forall>i \<in> set (invitations s'). admin_offer i \<longrightarrow> i \<in> set (invitations s))"
  using assms(2)
proof (cases rule: acts.cases)
  case managing
  then show ?thesis using manages_appoints_none [OF assms(1) _ no] by blast
next
  case accepting
  then show ?thesis using accept_appoints_offered [OF assms(1)] by blast
next
  case founding
  then show ?thesis using create_appoints_founder by (metis (no_types, lifting))
next
  case roster
  then show ?thesis by (auto dest!: list_members_reads)
next
  case overview
  then show ?thesis by (auto dest!: list_workspaces_reads)
qed

lemma filter_members_put:
  "m \<in> set ms \<Longrightarrow> distinct (map wm_id ms) \<Longrightarrow> wm_workspace_id m = wid \<Longrightarrow> wm_id m' = wm_id m \<Longrightarrow>
   wm_workspace_id m' = wid \<Longrightarrow>
   filter (\<lambda>m. wm_workspace_id m \<noteq> wid) (put_row wm_id m' ms) = filter (\<lambda>m. wm_workspace_id m \<noteq> wid) ms"
  by (intro filter_put_row) (simp, metis distinct_key_unique)

text \<open>
  Workspaces are isolated: an operation on one workspace leaves the workspaces, and the members
  and invitations of every other workspace, exactly as they were.
\<close>

theorem workspaces_isolated:
  assumes "ws_inv s" and "manages uid wid s s'"
  shows "workspaces s' = workspaces s \<and>
    filter (\<lambda>m. wm_workspace_id m \<noteq> wid) (members s') = filter (\<lambda>m. wm_workspace_id m \<noteq> wid) (members s) \<and>
    filter (\<lambda>i. inv_workspace_id i \<noteq> wid) (invitations s') =
      filter (\<lambda>i. inv_workspace_id i \<noteq> wid) (invitations s)"
proof -
  have mids: "distinct (map wm_id (members s))" and iids: "distinct (map inv_id (invitations s))"
    using assms(1) by (simp_all add: ws_inv_def workspace_schema_def members_ok_def invitations_ok_def)
  have iput: "filter (\<lambda>i. inv_workspace_id i \<noteq> wid) (put_row inv_id i' (invitations s)) =
      filter (\<lambda>i. inv_workspace_id i \<noteq> wid) (invitations s)"
    if "i \<in> set (invitations s)" "inv_workspace_id i = wid" "inv_id i' = inv_id i" "inv_workspace_id i' = wid"
    for i i'
    using that iids by (intro filter_put_row) (simp, metis distinct_key_unique)
  have ilapse: "filter (\<lambda>i. inv_workspace_id i \<noteq> wid) (map (lapse wid now) xs) =
      filter (\<lambda>i. inv_workspace_id i \<noteq> wid) xs" for now xs
    by (induction xs) (auto simp: lapse_def lapsed_def)
  from assms(2) show ?thesis
  proof (cases rule: manages.cases)
    case invites
    then show ?thesis by (auto simp: ilapse new_invitation_def elim!: invite_Inr)
  next
    case lists
    then show ?thesis by (auto simp: ilapse elim!: list_invitations_Inr)
  next
    case revokes
    then show ?thesis by (elim revoke_invitation_Inr) (simp add: iput)
  next
    case changes
    then show ?thesis by (elim change_role_Inr) (auto simp: is_member_def intro: filter_members_put [OF _ mids])
  next
    case removes
    then show ?thesis by (elim remove_member_Inr) (auto simp: is_member_def intro: filter_members_put [OF _ mids])
  next
    case (transfers tgt mv)
    then show ?thesis
    proof (rule transfer_ownership_Inr)
      fix a m
      assume a: "authorized uid wid ''owner'' a s" and m: "is_member wid tgt m s" and ne: "uid \<noteq> tgt"
        and s': "s' = members_update (\<lambda>ms. put_row wm_id (m\<lparr>wm_role := OWNER\<rparr>)
            (put_row wm_id (a\<lparr>wm_role := ADMIN\<rparr>) ms)) s"
      let ?ms = "put_row wm_id (a\<lparr>wm_role := ADMIN\<rparr>) (members s)"
      have "wm_id m \<noteq> wm_id a"
        using a m ne mids unfolding authorized_def is_member_def by (metis distinct_key_unique)
      then have "m \<in> set ?ms" using m by (intro put_row_other) (auto simp: is_member_def)
      then have "filter (\<lambda>m. wm_workspace_id m \<noteq> wid) (put_row wm_id (m\<lparr>wm_role := OWNER\<rparr>) ?ms) =
          filter (\<lambda>m. wm_workspace_id m \<noteq> wid) ?ms"
        using m mids by (intro filter_members_put) (auto simp: is_member_def)
      also have "\<dots> = filter (\<lambda>m. wm_workspace_id m \<noteq> wid) (members s)"
        using a by (intro filter_members_put [OF _ mids]) (auto simp: authorized_def)
      finally show ?thesis by (simp add: s')
    qed
  qed
qed

subsection \<open>Invitations\<close>

lemma invitation_unique:
  "invitations_ok xs \<Longrightarrow> i \<in> set xs \<Longrightarrow> j \<in> set xs \<Longrightarrow> inv_token_hash i = inv_token_hash j \<Longrightarrow> i = j"
  unfolding invitations_ok_def by (metis distinct_key_unique)

lemma accept_needs_pending:
  assumes "ws_inv s" and "i \<in> set (invitations s)" and "inv_token_hash i = sha raw"
    and "inv_status i \<noteq> I_PENDING"
  shows "\<exists>e. transaction workspace_schema (accept_invitation sha db_now now now' now'' fresh uid raw) s = (Inl e, s)"
proof (cases "transaction workspace_schema (accept_invitation sha db_now now now' now'' fresh uid raw) s")
  case (Pair r s')
  show ?thesis
  proof (cases r)
    case (Inl e)
    with Pair show ?thesis by (auto dest: transaction_raises)
  next
    case (Inr v)
    with Pair have "accept_invitation sha db_now now now' now'' fresh uid raw s = Inr (v, s')"
      by (simp add: transaction_Inr_iff)
    then show ?thesis
    proof (rule accept_invitation_Inr)
      fix j assume "j \<in> set (invitations s)" "inv_token_hash j = sha raw" "inv_status j = I_PENDING"
      then have "j = i"
        using assms(1-3) invitation_unique [of "invitations s" j i] by (simp add: ws_inv_def workspace_schema_def)
      with assms(4) \<open>inv_status j = I_PENDING\<close> show ?thesis by simp
    qed
  qed
qed

lemma join_rows_mem:
  assumes "former_member (inv_workspace_id i) uid old s"
  shows "\<exists>m \<in> set (join_rows db_now now fresh uid i old (members s)).
    wm_workspace_id m = inv_workspace_id i \<and> wm_user_id m = uid \<and> wm_status m = M_ACTIVE \<and>
    wm_role m = inv_role i"
proof (cases old)
  case None
  then show ?thesis by (simp add: join_rows_def new_member_def)
next
  case (Some m)
  with assms have "rejoin now (inv_role i) m \<in> set (join_rows db_now now fresh uid i old (members s))"
    by (auto simp: join_rows_def former_member_def rejoin_def intro!: put_row_mem)
  with Some assms show ?thesis
    by (intro bexI [of _ "rejoin now (inv_role i) m"]) (auto simp: former_member_def rejoin_def)
qed

text \<open>
  An invitation admits one person once: accepting a token means that the caller's GitHub
  account is the invited one and the invitation was open and unexpired; it makes the caller an
  active member with the invited role, which is never the owner's; and in every state reached
  afterwards nobody can accept that token again.
\<close>

theorem accept_joins_once:
  assumes "ws_inv s"
    and "transaction workspace_schema (accept_invitation sha db_now now now' now'' fresh uid raw) s = (Inr v, s1)"
    and "ws_step\<^sup>*\<^sup>* s1 t"
  shows "(\<exists>i \<in> set (invitations s). \<exists>u \<in> set (users s).
      inv_token_hash i = sha raw \<and> inv_status i = I_PENDING \<and> now < inv_expires_at i \<and>
      inv_role i \<noteq> OWNER \<and> user_id u = uid \<and> user_status u = ACTIVE \<and>
      inv_target i = github_user_id u \<and> wv_id v = inv_workspace_id i \<and> wv_role v = inv_role i \<and>
      (\<exists>m. is_member (inv_workspace_id i) uid m s1 \<and> wm_role m = inv_role i)) \<and>
    (\<exists>e. transaction workspace_schema (accept_invitation sha b c c' c'' k uid' raw) t = (Inl e, t))"
proof -
  have op: "accept_invitation sha db_now now now' now'' fresh uid raw s = Inr (v, s1)"
    using assms(2) by (simp add: transaction_Inr_iff)
  have step: "ws_step s s1" using assms(2) by (rule ws_step.accept)
  have iok: "invitations_ok (invitations s)" using assms(1) by (simp add: ws_inv_def workspace_schema_def)
  from op obtain user i w where user: "user_is_active uid user s" and i: "i \<in> set (invitations s)"
      "inv_token_hash i = sha raw" and w: "ws_id w = inv_workspace_id i"
    and cond: "inv_target i = us_github_user_id user" "inv_status i = I_PENDING" "now < inv_expires_at i"
    and seat: "seat_invitee db_now now' now'' fresh uid i w s = Inr (v, s1)"
    by (rule accept_invitation_Inr)
  from seat obtain old where old: "former_member (inv_workspace_id i) uid old s"
    and v: "v = \<lparr>wv_id = ws_id w, wv_name = ws_name w, wv_role = inv_role i\<rparr>"
    and s1: "s1 = invitations_update (put_row inv_id (used_invitation uid now'' i))
            (members_update (join_rows db_now now' fresh uid i old) s)"
    by (rule seat_invitee_Inr)
  have role: "inv_role i \<noteq> OWNER"
    using iok i(1) by (auto simp: invitations_ok_def list_all_iff invitation_row_ok_def)
  have seated: "\<exists>m. is_member (inv_workspace_id i) uid m s1 \<and> wm_role m = inv_role i"
    using join_rows_mem [OF old, of db_now now' fresh] by (auto simp: s1 is_member_def)
  have used: "used_invitation uid now'' i \<in> set (invitations s1)"
    using i(1) by (auto simp: s1 used_invitation_def intro!: put_row_mem)
  have inv1: "ws_inv s1" using ws_step_inv [OF step assms(1)] .
  from used spaces.evolves_steps [OF assms(3) inv1] obtain i' where i': "i' \<in> set (invitations t)"
      "invitation_evolves (used_invitation uid now'' i) i'"
    unfolding ws_evolves_def by blast
  then have "inv_token_hash i' = sha raw" "inv_status i' \<noteq> I_PENDING"
    using i(2) by (auto simp: invitation_evolves_def used_invitation_def)
  then have "\<exists>e. transaction workspace_schema (accept_invitation sha b c c' c'' k uid' raw) t = (Inl e, t)"
    by (rule accept_needs_pending [OF spaces.inv_steps [OF assms(3) inv1] i'(1)])
  moreover obtain u where "u \<in> set (users s)" "user_id u = uid" "user_status u = ACTIVE" "user = snapshot u"
    using user by (auto simp: user_is_active_def)
  ultimately show ?thesis
    using i cond role seated v w by (intro conjI bexI [of _ i] bexI [of _ u]) simp_all
qed

text \<open>
  Inviting succeeds exactly when the caller may invite for that role (the owner for an
  administrator) and no unexpired invitation for the same account is open: with a fresh token and
  key the partial unique index on open invitations can never be violated, because lapsed ones are
  expired first.
\<close>

theorem invite_succeeds_iff:
  assumes "ws_inv s" and "r \<noteq> OWNER" and "0 < tgt" and "is_hex 64 (sha raw)"
    and "fresh \<notin> inv_id ` set (invitations s)" and "sha raw \<notin> inv_token_hash ` set (invitations s)"
    and "db_now \<le> now'"
  shows "(\<exists>p s'. transaction workspace_schema (invite sha db_now now now' fresh raw uid wid tgt r) s = (Inr p, s')) \<longleftrightarrow>
    (\<exists>m. authorized uid wid (if r = ADMIN then ''owner'' else ''manage'') m s) \<and>
    \<not> (\<exists>i \<in> set (invitations s). inv_workspace_id i = wid \<and> inv_target i = tgt \<and>
         inv_status i = I_PENDING \<and> now < inv_expires_at i)" (is "?L \<longleftrightarrow> ?R")
proof -
  let ?p = "if r = ADMIN then ''owner'' else ''manage''"
  let ?s = "invitations_update (map (lapse wid now)) s"
  let ?n = "new_invitation sha db_now now' fresh raw uid wid tgt r"
  let ?Q = "\<lambda>i. inv_workspace_id i = wid \<and> inv_target i = tgt \<and> inv_status i = I_PENDING"
  have schema: "workspace_schema s" and iok: "invitations_ok (invitations s)"
    using assms(1) by (simp_all add: ws_inv_def workspace_schema_def)
  have lok: "invitations_ok (map (lapse wid now) (invitations s))" using invitations_ok_lapse [OF iok] .
  have Q: "?Q (lapse wid now x) \<longleftrightarrow> ?Q x \<and> now < inv_expires_at x" for x
    by (auto simp: lapsed_def)
  have rows: "invitations ?s = map (lapse wid now) (invitations s)" by simp
  have open_iff: "(\<exists>i \<in> set (invitations ?s). ?Q i) \<longleftrightarrow>
      (\<exists>i \<in> set (invitations s). ?Q i \<and> now < inv_expires_at i)"
    unfolding rows set_map bex_simps Q ..
  show ?thesis
  proof
    assume ?L
    then obtain p s' where "invite sha db_now now now' fresh raw uid wid tgt r s = Inr (p, s')"
      by (auto simp: transaction_Inr_iff)
    then obtain m s1 u s2 f s3 where m: "require uid wid ?p s = Inr (m, s1)" and e: "expire wid now s1 = Inr (u, s2)"
      and f: "pending wid tgt s2 = Inr (f, s3)" and "f = None"
      unfolding invite_def bind_Inr by (elim exE conjE) (rule that, assumption+, simp split: if_splits)
    then have "pending wid tgt ?s = Inr (None, s3)" using require_reads [OF m] by simp
    then have "\<not> (\<exists>i \<in> set (invitations ?s). ?Q i)" by (simp add: pending_def select_one_None)
    with require_reads [OF m] open_iff show ?R by blast
  next
    assume R: ?R
    then obtain m where "authorized uid wid ?p m s" by blast
    then have req: "require uid wid ?p s = Inr (m, s)" by (rule require_holds [OF schema])
    have none: "\<forall>i \<in> set (invitations ?s). \<not> ?Q i" using R open_iff by blast
    then have pend: "pending wid tgt ?s = Inr (None, ?s)"
      unfolding pending_def by (simp add: select_one_None)
    have "invitations_ok (map (lapse wid now) (invitations s) @ [?n])"
    proof -
      have "invitation_row_ok ?n" using assms(2-4,7) by (auto simp: invitation_row_ok_def new_invitation_def)
      moreover have "(wid, tgt) \<notin> (\<lambda>i. (inv_workspace_id i, inv_target i)) `
          set (filter (\<lambda>i. inv_status i = I_PENDING) (map (lapse wid now) (invitations s)))"
      proof
        assume "(wid, tgt) \<in> (\<lambda>i. (inv_workspace_id i, inv_target i)) `
          set (filter (\<lambda>i. inv_status i = I_PENDING) (map (lapse wid now) (invitations s)))"
        then obtain j where "j \<in> set (map (lapse wid now) (invitations s))" "?Q j"
          unfolding set_filter by blast
        with none show False unfolding rows by blast
      qed
      ultimately show ?thesis using lok assms(5,6) by (simp add: invitations_ok_def new_invitation_def)
    qed
    then have ok: "workspace_schema (invitations_update (\<lambda>xs. map (lapse wid now) xs @ [?n]) s)"
      using schema by (simp add: workspace_schema_def)
    have exp: "expire wid now s = Inr ((), ?s)" by simp
    have "invite sha db_now now now' fresh raw uid wid tgt r s =
        Inr ((view_of ?n, raw), invitations_update (\<lambda>xs. map (lapse wid now) xs @ [?n]) s)"
      unfolding invite_def bind_eval(1) [of "require uid wid ?p" s m s, OF req]
        bind_eval(1) [of "expire wid now" s "()" ?s, OF exp]
        bind_eval(1) [of "pending wid tgt" ?s None ?s, OF pend] using ok
      by (simp add: bind_def ret_def add_row_def modify_def flush_def o_def)
    with ok show ?L by (metis transaction_commit)
  qed
qed

subsection \<open>Concrete runs\<close>

text \<open>Three users; the first creates a workspace and invites the second, who joins.\<close>

definition space_user :: "uuid \<Rightarrow> user" where
  "space_user u =
     \<lparr>user_id = u, github_user_id = int u, login = ''u'', display_name = None, avatar_url = None,
      user_status = ACTIVE, user_review_mode = SENIOR, user_updated_at = 0\<rparr>"

definition space_digest :: "string \<Rightarrow> string" where
  "space_digest t = replicate 64 (CHR ''a'')"

definition space_empty :: workspace_tables where
  "space_empty = \<lparr>jobs = [], users = [space_user 1, space_user 2, space_user 3], login_attempts = [],
     refresh_sessions = [], workspaces = [], members = [], invitations = []\<rparr>"

definition space_created :: workspace_tables where
  "space_created = space_empty\<lparr>
     workspaces := [\<lparr>ws_id = 10, ws_name = ''w'', ws_status = ACTIVE, ws_created_by = 1\<rparr>],
     members := [new_member 0 20 10 1 OWNER]\<rparr>"

definition space_invitation :: invitation where
  "space_invitation = new_invitation space_digest 1 1 30 ''t'' 1 10 2 ADMIN"

definition space_invited :: workspace_tables where
  "space_invited = space_created\<lparr>invitations := [space_invitation]\<rparr>"

definition space_joined :: workspace_tables where
  "space_joined = space_created\<lparr>
     members := [new_member 0 20 10 1 OWNER, new_member 2 21 10 2 ADMIN],
     invitations := [used_invitation 2 2 space_invitation]\<rparr>"

lemmas space_defs = space_joined_def space_invited_def space_created_def space_empty_def
  space_invitation_def new_invitation_def new_member_def space_user_def space_digest_def
  used_invitation_def

lemmas space_ok_defs = workspace_schema_def users_ok_def user_row_ok_def workspaces_ok_def
  workspace_row_ok_def members_ok_def member_row_ok_def active_owner_def invitations_ok_def
  invitation_row_ok_def hex_chars_def

lemma space_created_eq:
  "transaction workspace_schema (create_workspace 0 10 20 1 ''w'') space_empty =
   (Inr \<lparr>wv_id = 10, wv_name = ''w'', wv_role = OWNER\<rparr>, space_created)"
  by (simp add: create_workspace_def get_active_def active_user_def transaction_def txn_eval row_ops
      space_defs space_ok_defs)

lemma space_start: "no_workspaces space_empty"
  by (simp add: no_workspaces_def space_defs space_ok_defs)

lemma space_reached: "ws_step\<^sup>*\<^sup>* space_empty space_created"
  by (rule r_into_rtranclp, rule ws_step.create, rule space_created_eq)

lemma space_created_inv: "ws_inv space_created"
  using spaces.inv_reachable [OF space_start space_reached] .

lemma space_invited_inv: "ws_inv space_invited"
proof -
  have "owned (workspaces space_invited) (members space_invited)"
    using space_created_inv by (simp add: ws_inv_def space_invited_def)
  moreover have "workspace_schema space_invited" by (simp add: space_defs space_ok_defs)
  ultimately show ?thesis by (simp add: ws_inv_def)
qed

lemma space_joined_eq:
  "transaction workspace_schema (accept_invitation space_digest 2 2 2 2 21 2 ''t'') space_invited =
   (Inr \<lparr>wv_id = 10, wv_name = ''w'', wv_role = ADMIN\<rparr>, space_joined)"
  by (simp add: accept_invitation_def seat_invitee_def invitation_by_hash_def lock_workspace_def
      find_member_def get_active_def active_user_def snapshot_def transaction_def txn_eval row_ops
      space_defs space_ok_defs allowed_def)

lemma space_joined_inv: "ws_inv space_joined"
  using ws_step_inv [OF ws_step.accept [OF space_joined_eq] space_invited_inv] .

theorem one_active_owner_witness:
  "\<exists>!m. m \<in> set (members space_created) \<and> wm_workspace_id m = 10 \<and> active_owner m"
  using one_active_owner [OF space_start space_reached, of "hd (workspaces space_created)"]
  by (simp add: space_created_def)

lemma space_joined_rows:
  "new_member 0 20 10 1 OWNER \<in> set (members space_joined)"
  "new_member 2 21 10 2 ADMIN \<in> set (members space_joined)"
  by (simp_all add: space_joined_def)

lemma space_joined_auth:
  "authorized 1 10 ''owner'' (new_member 0 20 10 1 OWNER) space_joined"
  "is_member 10 2 (new_member 2 21 10 2 ADMIN) space_joined"
  by (simp_all add: authorized_def is_member_def space_defs)

theorem transfer_succeeds_iff_witness:
  "fst (transaction workspace_schema (transfer_ownership 1 10 2) space_joined) = Inr (plain_view 2 OWNER)"
proof (subst transfer_succeeds_iff [OF space_joined_inv], intro conjI exI)
  show "\<exists>u \<in> set (users space_joined). user_id u = 2 \<and> user_status u = ACTIVE"
    by (simp add: space_defs)
  show "authorized 1 10 ''owner'' (new_member 0 20 10 1 OWNER) space_joined"
    "is_member 10 2 (new_member 2 21 10 2 ADMIN) space_joined"
    by (rule space_joined_auth)+
  show "snd (transaction workspace_schema (transfer_ownership 1 10 2) space_joined) =
      members_update (\<lambda>ms. put_row wm_id ((new_member 2 21 10 2 ADMIN)\<lparr>wm_role := OWNER\<rparr>)
        (put_row wm_id ((new_member 0 20 10 1 OWNER)\<lparr>wm_role := ADMIN\<rparr>) ms)) space_joined"
    by (simp add: transfer_ownership_def require_def target_member_def lock_workspace_def
        find_member_def get_active_def active_user_def transaction_def txn_eval row_ops
        active_workspace_def space_defs space_ok_defs)
qed simp_all

text \<open>The administrator, who is not the owner, cannot touch the owner's position.\<close>

theorem only_owner_appoints_witness:
  "new_member 0 20 10 1 OWNER \<in> set (members (space_joined\<lparr>members :=
     put_row wm_id ((new_member 2 21 10 2 ADMIN)\<lparr>wm_status := LEFT, wm_ended_at := Some 3\<rparr>)
       (members space_joined)\<rparr>))"
proof -
  have "acts 2 10 space_joined (space_joined\<lparr>members :=
     put_row wm_id ((new_member 2 21 10 2 ADMIN)\<lparr>wm_status := LEFT, wm_ended_at := Some 3\<rparr>)
       (members space_joined)\<rparr>)"
    by (rule acts.managing, rule manages.removes [of 3 _ _ 2 _ "()"])
      (simp add: remove_member_def require_def target_member_def lock_workspace_def find_member_def
        get_active_def active_user_def txn_eval row_ops active_workspace_def space_defs)
  then show ?thesis
    by (rule only_owner_appoints [OF space_joined_inv, THEN conjunct2, THEN conjunct1, rule_format])
      (auto simp: space_defs active_owner_def elevated_def)
qed

theorem workspaces_isolated_witness:
  "workspaces space_joined = workspaces (space_joined\<lparr>members :=
     put_row wm_id ((new_member 2 21 10 2 ADMIN)\<lparr>wm_role := MEMBER\<rparr>) (members space_joined)\<rparr>)"
proof -
  have "manages 1 10 space_joined (space_joined\<lparr>members :=
     put_row wm_id ((new_member 2 21 10 2 ADMIN)\<lparr>wm_role := MEMBER\<rparr>) (members space_joined)\<rparr>)"
    by (rule manages.changes [of _ _ 2 MEMBER _ "plain_view 2 MEMBER"])
      (simp add: change_role_def require_def target_member_def lock_workspace_def find_member_def
        get_active_def active_user_def txn_eval row_ops active_workspace_def space_defs)
  then show ?thesis using workspaces_isolated [OF space_joined_inv] by simp
qed

theorem accept_joins_once_witness:
  "\<exists>e. transaction workspace_schema (accept_invitation space_digest 3 3 3 3 22 3 ''t'') space_joined =
     (Inl e, space_joined)"
  using accept_joins_once [OF space_invited_inv space_joined_eq rtranclp.rtrancl_refl, where b = 3 and c = 3 and c' = 3 and c'' = 3 and k = 22 and uid' = 3]
  by (rule conjunct2)

theorem invite_succeeds_iff_witness:
  "\<exists>p s'. transaction workspace_schema (invite space_digest 1 1 1 30 ''t'' 1 10 2 ADMIN) space_created = (Inr p, s')"
proof (subst invite_succeeds_iff [OF space_created_inv])
  show "(\<exists>m. authorized 1 10 (if ADMIN = ADMIN then ''owner'' else ''manage'') m space_created) \<and>
    \<not> (\<exists>i \<in> set (invitations space_created). inv_workspace_id i = 10 \<and> inv_target i = 2 \<and>
         inv_status i = I_PENDING \<and> 1 < inv_expires_at i)"
    by (simp add: authorized_def space_defs)
qed (simp_all add: space_defs hex_chars_def)

end
