(* ===== verification/Repositories.thy ===== *)
theory Repositories
  imports Workspaces Json
begin

section \<open>Repository connections\<close>

text \<open>
  \<^verbatim>\<open>app/domain/repository\<close>: the connections of GitHub repositories to workspaces, their rule
  configurations and the short-lived candidate lists (\<^verbatim>\<open>models.py\<close>), the queries
  (\<^verbatim>\<open>repository.py\<close>, \<^verbatim>\<open>candidates.py\<close>), the service with its access guard (\<^verbatim>\<open>service.py\<close>), the
  interface other components use (\<^verbatim>\<open>api.py\<close>) and the event mapping for webhooks (\<^verbatim>\<open>events.py\<close>).
  A row lock is taken inside one atomic step.
\<close>

subsection \<open>Tables\<close>

datatype repo_status = R_ACTIVE | SUSPENDED | DISCONNECTED

datatype ai_mode = OFF | FINDINGS_ONLY

record repository =
  rc_id :: uuid
  rc_workspace_id :: uuid
  rc_github_id :: int
  rc_installation_id :: int
  rc_owner_login :: string
  rc_name :: string
  rc_is_private :: bool
  rc_default_branch :: "string option"
  rc_status :: repo_status
  rc_generation :: int
  rc_config_id :: uuid
  rc_auto_analysis :: bool
  rc_ai_mode :: ai_mode
  rc_ai_policy_version :: int
  rc_connected_by :: uuid
  rc_connected_at :: datetime
  rc_disconnected_at :: "datetime option"
  rc_last_sync_at :: "datetime option"

record candidate =
  cr_github_id :: int
  cr_installation_id :: int
  cr_owner_login :: string
  cr_name :: string
  cr_is_private :: bool
  cr_default_branch :: "string option"
  cr_admin :: bool

record candidate_set =
  cs_id :: uuid
  cs_created_at :: datetime
  cs_workspace_id :: uuid
  cs_user_id :: uuid
  cs_expires_at :: datetime
  cs_truncated :: bool
  cs_skipped :: int
  cs_items :: "candidate list"

record rule_config =
  cf_id :: uuid
  cf_workspace_id :: uuid
  cf_repository_id :: uuid
  cf_version :: int
  cf_schema_version :: int
  cf_rules :: "(string \<times> json) list"
  cf_layer_mappings :: "(string \<times> json) list"
  cf_ignored_paths :: "string list"
  cf_auto_analysis :: bool
  cf_ai_mode :: ai_mode
  cf_digest :: string
  cf_created_by :: uuid

record repository_tables = workspace_tables +
  repositories :: "repository list"
  candidate_sets :: "candidate_set list"
  rule_configs :: "rule_config list"

definition repository_row_ok :: "repository \<Rightarrow> bool" where
  "repository_row_ok r \<longleftrightarrow>
     0 < rc_github_id r \<and> 0 < rc_installation_id r \<and> 0 < rc_generation r \<and> 0 < rc_ai_policy_version r \<and>
     (rc_status r = DISCONNECTED) = (rc_disconnected_at r \<noteq> None)"

definition repo_live :: "repository \<Rightarrow> bool" where
  "repo_live r \<longleftrightarrow> rc_status r = R_ACTIVE \<or> rc_status r = SUSPENDED"

definition repositories_ok :: "repository list \<Rightarrow> bool" where
  "repositories_ok rs \<longleftrightarrow>
     distinct (map rc_id rs) \<and>
     distinct (map (\<lambda>r. (rc_workspace_id r, rc_github_id r)) rs) \<and>
     distinct (map rc_github_id (filter repo_live rs)) \<and>
     list_all repository_row_ok rs"

definition candidate_sets_ok :: "candidate_set list \<Rightarrow> bool" where
  "candidate_sets_ok cs \<longleftrightarrow>
     distinct (map cs_id cs) \<and>
     distinct (map (\<lambda>c. (cs_workspace_id c, cs_user_id c)) cs) \<and>
     list_all (\<lambda>c. cs_created_at c < cs_expires_at c \<and> length (cs_items c) \<le> 300) cs"

definition rule_configs_ok :: "rule_config list \<Rightarrow> bool" where
  "rule_configs_ok cs \<longleftrightarrow>
     distinct (map cf_id cs) \<and>
     distinct (map (\<lambda>c. (cf_repository_id c, cf_version c)) cs) \<and>
     list_all (\<lambda>c. 0 < cf_version c \<and> 0 < cf_schema_version c \<and> is_hex 64 (cf_digest c)) cs"

definition repository_schema :: "'a repository_tables_scheme \<Rightarrow> bool" where
  "repository_schema s \<longleftrightarrow>
     workspace_schema s \<and> repositories_ok (repositories s) \<and>
     candidate_sets_ok (candidate_sets s) \<and> rule_configs_ok (rule_configs s)"

interpretation repository_store: row_store repositories repositories_update rc_id
  by unfold_locales simp_all

interpretation candidate_store: row_store candidate_sets candidate_sets_update cs_id
  by unfold_locales simp_all

interpretation config_store: row_store rule_configs rule_configs_update cf_id
  by unfold_locales simp_all

subsection \<open>Queries\<close>

definition get_repository ::
  "uuid \<Rightarrow> uuid \<Rightarrow> ('a repository_tables_scheme, repository option) txn" where
  "get_repository wid rid = select_one repositories (\<lambda>r. rc_workspace_id r = wid \<and> rc_id r = rid)"

definition by_github ::
  "uuid \<Rightarrow> int \<Rightarrow> ('a repository_tables_scheme, repository option) txn" where
  "by_github wid gid = select_one repositories (\<lambda>r. rc_workspace_id r = wid \<and> rc_github_id r = gid)"

definition repository_page ::
  "uuid \<Rightarrow> uuid option \<Rightarrow> ('a repository_tables_scheme, repository list) txn" where
  "repository_page wid cursor =
     gets (\<lambda>s. page rc_id cursor (filter (\<lambda>r. rc_workspace_id r = wid) (repositories s)))"

definition event_mapping ::
  "int \<Rightarrow> int \<Rightarrow> ('a repository_tables_scheme, repository option) txn" where
  "event_mapping installation gid =
     select_one repositories (\<lambda>r. rc_installation_id r = installation \<and> rc_github_id r = gid \<and>
       rc_status r = R_ACTIVE)"

definition event_candidates ::
  "int \<Rightarrow> int list option \<Rightarrow> datetime \<Rightarrow> ('a repository_tables_scheme, repository list) txn" where
  "event_candidates installation ids before =
     gets (\<lambda>s. sort_key (\<lambda>r. (rc_workspace_id r, rc_id r))
       (filter (\<lambda>r. rc_installation_id r = installation \<and> rc_status r = R_ACTIVE \<and>
          rc_connected_at r \<le> before \<and>
          (case ids of None \<Rightarrow> True | Some gs \<Rightarrow> rc_github_id r \<in> set gs)) (repositories s)))"

definition event_by_id :: "uuid \<Rightarrow> ('a repository_tables_scheme, repository option) txn" where
  "event_by_id rid = select_one repositories (\<lambda>r. rc_id r = rid)"

subsection \<open>Service\<close>

record repository_snapshot =
  rs_repo_id :: uuid
  rs_workspace_id :: uuid
  rs_github_id :: int
  rs_installation_id :: int
  rs_owner_login :: string
  rs_name :: string
  rs_status :: repo_status
  rs_generation :: int
  rs_last_sync_at :: "datetime option"

definition repo_snapshot :: "repository \<Rightarrow> repository_snapshot" where
  "repo_snapshot r =
     \<lparr>rs_repo_id = rc_id r, rs_workspace_id = rc_workspace_id r, rs_github_id = rc_github_id r,
      rs_installation_id = rc_installation_id r, rs_owner_login = rc_owner_login r,
      rs_name = rc_name r, rs_status = rc_status r, rs_generation = rc_generation r,
      rs_last_sync_at = rc_last_sync_at r\<rparr>"

definition repository_not_found :: exn where
  "repository_not_found = AppException ''REPOSITORY_NOT_FOUND'' NOT_FOUND"

definition repository_inactive :: exn where
  "repository_inactive = AppException ''REPOSITORY_INACTIVE'' CONFLICT"

definition repository_exists :: exn where
  "repository_exists = AppException ''REPOSITORY_EXISTS'' CONFLICT"

definition repo_access ::
  "uuid \<Rightarrow> uuid \<Rightarrow> uuid \<Rightarrow> string \<Rightarrow> bool \<Rightarrow> ('a repository_tables_scheme, repository) txn" where
  "repo_access uid wid rid permission active =
     bind (require_permission uid wid permission) (\<lambda>_.
     bind (get_repository wid rid) (\<lambda>found.
     case found of
       None \<Rightarrow> raise repository_not_found
     | Some r \<Rightarrow>
         if active \<and> rc_status r \<noteq> R_ACTIVE then raise repository_inactive else ret r))"

record verified =
  vr_github_id :: int
  vr_installation_id :: int
  vr_owner_login :: string
  vr_name :: string
  vr_is_private :: bool
  vr_default_branch :: "string option"

definition reconnect :: "datetime \<Rightarrow> uuid \<Rightarrow> verified \<Rightarrow> repository \<Rightarrow> repository" where
  "reconnect now uid v r =
     r\<lparr>rc_generation := rc_generation r + 1, rc_status := R_ACTIVE, rc_disconnected_at := None,
       rc_connected_at := now, rc_connected_by := uid, rc_installation_id := vr_installation_id v,
       rc_owner_login := vr_owner_login v, rc_name := vr_name v, rc_is_private := vr_is_private v,
       rc_default_branch := vr_default_branch v\<rparr>"

definition new_repository :: "datetime \<Rightarrow> uuid \<Rightarrow> uuid \<Rightarrow> uuid \<Rightarrow> uuid \<Rightarrow> verified \<Rightarrow> repository" where
  "new_repository db_now rid cid uid wid v =
     \<lparr>rc_id = rid, rc_workspace_id = wid, rc_github_id = vr_github_id v,
      rc_installation_id = vr_installation_id v, rc_owner_login = vr_owner_login v,
      rc_name = vr_name v, rc_is_private = vr_is_private v, rc_default_branch = vr_default_branch v,
      rc_status = R_ACTIVE, rc_generation = 1, rc_config_id = cid, rc_auto_analysis = False,
      rc_ai_mode = OFF, rc_ai_policy_version = 1, rc_connected_by = uid, rc_connected_at = db_now,
      rc_disconnected_at = None, rc_last_sync_at = None\<rparr>"

text \<open>The canonical JSON text of the default configuration, whose SHA-256 is its digest.\<close>

definition default_config_text :: string where
  \<open>default_config_text =
     ''{"ai_mode":"OFF","auto_analysis_enabled":false,"ignored_paths":[],"layer_mappings":{},"rules":{},"schema_version":1}''\<close>

definition default_config :: "(string \<Rightarrow> string) \<Rightarrow> uuid \<Rightarrow> uuid \<Rightarrow> uuid \<Rightarrow> uuid \<Rightarrow> rule_config" where
  "default_config sha cid rid uid wid =
     \<lparr>cf_id = cid, cf_workspace_id = wid, cf_repository_id = rid, cf_version = 1,
      cf_schema_version = 1, cf_rules = [], cf_layer_mappings = [], cf_ignored_paths = [],
      cf_auto_analysis = False, cf_ai_mode = OFF, cf_digest = sha default_config_text,
      cf_created_by = uid\<rparr>"

definition connect ::
  "(string \<Rightarrow> string) \<Rightarrow> datetime \<Rightarrow> datetime \<Rightarrow> uuid \<Rightarrow> uuid \<Rightarrow> uuid \<Rightarrow> uuid \<Rightarrow> verified \<Rightarrow>
   ('a repository_tables_scheme, repository_snapshot) txn" where
  "connect sha db_now now rid cid uid wid v =
     bind (require_permission uid wid ''manage'') (\<lambda>_.
     bind (by_github wid (vr_github_id v)) (\<lambda>found.
     case found of
       Some r \<Rightarrow>
         if rc_status r \<noteq> DISCONNECTED then raise repository_exists
         else
           bind (save_row repositories_update rc_id (reconnect now uid v r)) (\<lambda>_.
           bind (flush repository_schema) (\<lambda>_.
           ret (repo_snapshot (reconnect now uid v r))))
     | None \<Rightarrow>
         bind (add_row repositories_update (new_repository db_now rid cid uid wid v)) (\<lambda>_.
         bind (add_row rule_configs_update (default_config sha cid rid uid wid)) (\<lambda>_.
         bind (flush repository_schema) (\<lambda>_.
         ret (repo_snapshot (new_repository db_now rid cid uid wid v)))))))"

definition list_repositories ::
  "uuid \<Rightarrow> uuid \<Rightarrow> uuid option \<Rightarrow> ('a repository_tables_scheme, repository_snapshot list) txn" where
  "list_repositories uid wid cursor =
     bind (require_permission uid wid ''read'') (\<lambda>_.
     bind (repository_page wid cursor) (\<lambda>rows. ret (map repo_snapshot rows)))"

definition disconnect ::
  "datetime \<Rightarrow> uuid \<Rightarrow> uuid \<Rightarrow> uuid \<Rightarrow> ('a repository_tables_scheme, unit) txn" where
  "disconnect now uid wid rid =
     bind (repo_access uid wid rid ''manage'' False) (\<lambda>r.
     save_row repositories_update rc_id
       (r\<lparr>rc_status := DISCONNECTED, rc_disconnected_at := Some now\<rparr>))"

subsection \<open>Candidate lists\<close>

record candidate_list =
  cl_items :: "candidate list"
  cl_truncated :: bool
  cl_skipped :: int

definition save_candidate_set ::
  "datetime \<Rightarrow> datetime \<Rightarrow> uuid \<Rightarrow> uuid \<Rightarrow> uuid \<Rightarrow> candidate_list \<Rightarrow>
   ('a repository_tables_scheme, unit) txn" where
  "save_candidate_set db_now now fresh uid wid found =
     bind (delete_where candidate_sets_update
             (\<lambda>c. cs_expires_at c \<le> now \<or> cs_workspace_id c = wid \<and> cs_user_id c = uid)) (\<lambda>_.
     bind (add_row candidate_sets_update
             \<lparr>cs_id = fresh, cs_created_at = db_now, cs_workspace_id = wid, cs_user_id = uid,
              cs_expires_at = now + minutes 15, cs_truncated = cl_truncated found,
              cs_skipped = cl_skipped found, cs_items = cl_items found\<rparr>) (\<lambda>_.
     flush repository_schema))"

definition load_candidate_set ::
  "datetime \<Rightarrow> uuid \<Rightarrow> uuid \<Rightarrow> ('a repository_tables_scheme, candidate_set option) txn" where
  "load_candidate_set now uid wid =
     select_first candidate_sets
       (\<lambda>c. cs_workspace_id c = wid \<and> cs_user_id c = uid \<and> now < cs_expires_at c)"

definition connection_states ::
  "uuid \<Rightarrow> int list \<Rightarrow> ('a repository_tables_scheme, int list \<times> int list) txn" where
  "connection_states wid gids =
     bind (select_all repositories (\<lambda>r. rc_github_id r \<in> set gids \<and> repo_live r)) (\<lambda>rows.
     (let here = map rc_github_id (filter (\<lambda>r. rc_workspace_id r = wid) rows);
          elsewhere = map rc_github_id (filter (\<lambda>r. rc_workspace_id r \<noteq> wid) rows)
      in ret (here, filter (\<lambda>g. g \<notin> set here) elsewhere)))"

subsection \<open>The interface of the component\<close>

definition repo_require ::
  "uuid \<Rightarrow> uuid \<Rightarrow> uuid \<Rightarrow> string \<Rightarrow> bool \<Rightarrow> ('a repository_tables_scheme, repository_snapshot) txn" where
  "repo_require uid wid rid permission active =
     bind (repo_access uid wid rid permission active) (\<lambda>r. ret (repo_snapshot r))"

definition save_candidates ::
  "datetime \<Rightarrow> datetime \<Rightarrow> uuid \<Rightarrow> uuid \<Rightarrow> uuid \<Rightarrow> candidate_list \<Rightarrow>
   ('a repository_tables_scheme, unit) txn" where
  "save_candidates db_now now fresh uid wid found =
     bind (require_permission uid wid ''manage'') (\<lambda>_.
     save_candidate_set db_now now fresh uid wid found)"

datatype connect_state = CONNECTED | OTHER_TEAM | AVAILABLE | ADMIN_REQUIRED

definition candidates_not_found :: exn where
  "candidates_not_found = AppException ''CANDIDATES_NOT_FOUND'' NOT_FOUND"

record candidate_view =
  cv_expires_at :: datetime
  cv_truncated :: bool
  cv_skipped :: int
  cv_items :: "(candidate \<times> connect_state) list"

definition connect_state_of :: "int list \<Rightarrow> int list \<Rightarrow> candidate \<Rightarrow> connect_state" where
  "connect_state_of here elsewhere c =
     (if cr_github_id c \<in> set here then CONNECTED
      else if cr_github_id c \<in> set elsewhere then OTHER_TEAM
      else if cr_admin c then AVAILABLE else ADMIN_REQUIRED)"

definition view_candidates ::
  "datetime \<Rightarrow> uuid \<Rightarrow> uuid \<Rightarrow> ('a repository_tables_scheme, candidate_view) txn" where
  "view_candidates now uid wid =
     bind (require_permission uid wid ''manage'') (\<lambda>_.
     bind (load_candidate_set now uid wid) (\<lambda>loaded.
     case loaded of
       None \<Rightarrow> raise candidates_not_found
     | Some row \<Rightarrow>
         bind (connection_states wid (map cr_github_id (cs_items row))) (\<lambda>(here, elsewhere).
         ret \<lparr>cv_expires_at = cs_expires_at row, cv_truncated = cs_truncated row,
              cv_skipped = cs_skipped row,
              cv_items = map (\<lambda>c. (c, connect_state_of here elsewhere c))
                (sort_key (\<lambda>c. (lower (cr_owner_login c), lower (cr_name c))) (cs_items row))\<rparr>)))"

text \<open>The dictionary of the caller's list; a later item with the same key replaces an earlier one.\<close>

definition candidate_map ::
  "datetime \<Rightarrow> uuid \<Rightarrow> uuid \<Rightarrow> ('a repository_tables_scheme, int \<Rightarrow> candidate option) txn" where
  "candidate_map now uid wid =
     bind (require_permission uid wid ''manage'') (\<lambda>_.
     bind (load_candidate_set now uid wid) (\<lambda>loaded.
     case loaded of
       None \<Rightarrow> raise candidates_not_found
     | Some row \<Rightarrow> ret (map_of (rev (map (\<lambda>c. (cr_github_id c, c)) (cs_items row))))))"

definition repo_sync_success ::
  "uuid \<Rightarrow> uuid \<Rightarrow> uuid \<Rightarrow> datetime \<Rightarrow> ('a repository_tables_scheme, unit) txn" where
  "repo_sync_success uid wid rid at =
     bind (repo_access uid wid rid ''sync'' True) (\<lambda>r.
     save_row repositories_update rc_id (r\<lparr>rc_last_sync_at := Some at\<rparr>))"

definition suspend_repository ::
  "uuid \<Rightarrow> uuid \<Rightarrow> uuid \<Rightarrow> ('a repository_tables_scheme, unit) txn" where
  "suspend_repository uid wid rid =
     bind (repo_access uid wid rid ''read'' False) (\<lambda>r.
     if rc_status r = R_ACTIVE
     then save_row repositories_update rc_id (r\<lparr>rc_status := SUSPENDED\<rparr>)
     else ret ())"

definition config_unsupported :: exn where
  "config_unsupported = AppException ''CONFIG_UNSUPPORTED'' CONFLICT"

definition analysis_config ::
  "uuid \<Rightarrow> uuid \<Rightarrow> uuid \<Rightarrow> uuid option \<Rightarrow>
   ('a repository_tables_scheme, uuid \<times> string \<times> string list) txn" where
  "analysis_config uid wid rid version =
     bind (repo_access uid wid rid ''sync'' True) (\<lambda>r.
     bind (select_first rule_configs (\<lambda>c.
             cf_id c = (case version of None \<Rightarrow> rc_config_id r | Some v \<Rightarrow> v) \<and>
             cf_workspace_id c = wid \<and> cf_repository_id c = rid)) (\<lambda>found.
     case found of
       None \<Rightarrow> raise config_unsupported
     | Some c \<Rightarrow>
         if cf_rules c \<noteq> [] \<or> cf_layer_mappings c \<noteq> [] then raise config_unsupported
         else ret (cf_id c, cf_digest c, cf_ignored_paths c)))"

subsection \<open>Events of GitHub deliveries\<close>

definition connection_changed :: exn where
  "connection_changed = AppException ''CONNECTION_CHANGED'' CONFLICT"

definition event_require ::
  "uuid \<Rightarrow> uuid \<Rightarrow> int \<Rightarrow> ('a repository_tables_scheme, repository_snapshot) txn" where
  "event_require wid rid generation =
     bind (lock_system wid) (\<lambda>active.
     bind (get_repository wid rid) (\<lambda>found.
     case found of
       None \<Rightarrow> raise connection_changed
     | Some r \<Rightarrow>
         if \<not> active \<or> rc_status r \<noteq> R_ACTIVE \<or> rc_generation r \<noteq> generation
         then raise connection_changed
         else ret (repo_snapshot r)))"

definition event_mapped ::
  "int \<Rightarrow> int \<Rightarrow> ('a repository_tables_scheme, repository_snapshot option) txn" where
  "event_mapped installation gid =
     bind (event_mapping installation gid) (\<lambda>found.
     case found of
       None \<Rightarrow> ret None
     | Some r \<Rightarrow>
         bind (event_require (rc_workspace_id r) (rc_id r) (rc_generation r)) (\<lambda>x. ret (Some x)))"

text \<open>
  The loop takes the locks one by one and reads each row again under its lock.
\<close>

fun lock_each ::
  "int \<Rightarrow> datetime \<Rightarrow> repository list \<Rightarrow> ('a repository_tables_scheme, uuid list) txn" where
  "lock_each installation before [] = ret []"
| "lock_each installation before (c # cs) =
     bind (lock_system (rc_workspace_id c)) (\<lambda>_.
     bind (get_repository (rc_workspace_id c) (rc_id c)) (\<lambda>found.
     bind (lock_each installation before cs) (\<lambda>rest.
     case found of
       None \<Rightarrow> ret rest
     | Some r \<Rightarrow>
         if rc_status r = R_ACTIVE \<and> rc_installation_id r = installation \<and> rc_connected_at r \<le> before
         then ret (rc_id r # rest)
         else ret rest)))"

definition lock_affected ::
  "int \<Rightarrow> int list option \<Rightarrow> datetime \<Rightarrow> ('a repository_tables_scheme, uuid list) txn" where
  "lock_affected installation ids before =
     bind (event_candidates installation ids before) (\<lambda>cs. lock_each installation before cs)"

fun suspend_locked :: "uuid list \<Rightarrow> ('a repository_tables_scheme, unit) txn" where
  "suspend_locked [] = ret ()"
| "suspend_locked (rid # rids) =
     bind (event_by_id rid) (\<lambda>found.
     case found of
       None \<Rightarrow> suspend_locked rids
     | Some r \<Rightarrow>
         if rc_status r = R_ACTIVE then
           bind (save_row repositories_update rc_id (r\<lparr>rc_status := SUSPENDED\<rparr>)) (\<lambda>_.
           suspend_locked rids)
         else suspend_locked rids)"

definition event_sync_success ::
  "uuid \<Rightarrow> uuid \<Rightarrow> int \<Rightarrow> datetime \<Rightarrow> ('a repository_tables_scheme, unit) txn" where
  "event_sync_success wid rid generation at =
     bind (event_require wid rid generation) (\<lambda>_.
     bind (get_repository wid rid) (\<lambda>found.
     case found of
       None \<Rightarrow> raise AssertionError
     | Some r \<Rightarrow> save_row repositories_update rc_id (r\<lparr>rc_last_sync_at := Some at\<rparr>)))"

end
