(* ===== verification/Repository_Results.thy ===== *)
theory Repository_Results
  imports Repositories Workspace_Results
begin

section \<open>Correctness of repository connections\<close>

subsection \<open>Guards\<close>

definition repo_authorized ::
  "uuid \<Rightarrow> uuid \<Rightarrow> uuid \<Rightarrow> string \<Rightarrow> bool \<Rightarrow> repository \<Rightarrow> 'a repository_tables_scheme \<Rightarrow> bool" where
  "repo_authorized uid wid rid permission active r s \<longleftrightarrow>
     (\<exists>m. authorized uid wid permission m s) \<and>
     r \<in> set (repositories s) \<and> rc_workspace_id r = wid \<and> rc_id r = rid \<and>
     (active \<longrightarrow> rc_status r = R_ACTIVE)"

lemma require_permission_reads:
  "require_permission uid wid p s = Inr (r, s') \<Longrightarrow> s' = s \<and> (\<exists>m. authorized uid wid p m s)"
  by (auto simp: require_permission_def bind_Inr dest: require_reads)

lemma repo_access_reads:
  assumes "repo_access uid wid rid p active s = Inr (r, s')"
  shows "s' = s \<and> repo_authorized uid wid rid p active r s"
  using assms unfolding repo_access_def get_repository_def
  by (auto simp: bind_Inr repo_authorized_def split: option.splits if_splits
      dest!: require_permission_reads select_one_Some)

interpretation repo_guard: reader "repo_access uid wid rid p active" "repo_authorized uid wid rid p active"
  using repo_access_reads by unfold_locales

definition live_connection ::
  "uuid \<Rightarrow> uuid \<Rightarrow> int \<Rightarrow> repository_snapshot \<Rightarrow> 'a repository_tables_scheme \<Rightarrow> bool" where
  "live_connection wid rid g x s \<longleftrightarrow>
     (\<exists>w \<in> set (workspaces s). ws_id w = wid \<and> ws_status w = ACTIVE) \<and>
     (\<exists>r \<in> set (repositories s). rc_workspace_id r = wid \<and> rc_id r = rid \<and>
        rc_status r = R_ACTIVE \<and> rc_generation r = g \<and> x = repo_snapshot r)"

lemma lock_system_reads:
  assumes "lock_system wid s = Inr (b, s')"
  shows "s' = s \<and> (b \<longrightarrow> (\<exists>w \<in> set (workspaces s). ws_id w = wid \<and> ws_status w = ACTIVE))"
proof -
  from assms obtain w where w: "lock_workspace wid s = Inr (w, s')" and b: "b = active_workspace w"
    by (auto simp: lock_system_def bind_Inr)
  from lock_workspace_state [OF w] active_workspace_found [OF w] b show ?thesis by simp
qed

lemma get_repository_reads:
  "get_repository wid rid s = Inr (x, s') \<Longrightarrow> s' = s \<and>
     (case x of None \<Rightarrow> True | Some r \<Rightarrow> r \<in> set (repositories s) \<and> rc_workspace_id r = wid \<and> rc_id r = rid)"
  unfolding get_repository_def by (erule select_one_Inr_cases) auto

lemma event_require_reads:
  assumes "event_require wid rid g s = Inr (x, s')"
  shows "s' = s \<and> live_connection wid rid g x s"
  using assms unfolding event_require_def get_repository_def
  by (auto simp: bind_Inr live_connection_def split: option.splits if_splits
      dest!: lock_system_reads select_one_Some)

interpretation event_guard: reader "event_require wid rid g" "live_connection wid rid g"
  using event_require_reads by unfold_locales

lemma repositories_unique:
  "repositories_ok rs \<Longrightarrow> x \<in> set rs \<Longrightarrow> y \<in> set rs \<Longrightarrow> rc_id x = rc_id y \<Longrightarrow> x = y"
  unfolding repositories_ok_def by (metis distinct_key_unique)

lemma get_repository_total: "repositories_ok (repositories s) \<Longrightarrow> get_repository wid rid s \<noteq> Inl e"
  unfolding get_repository_def repositories_ok_def
  by (intro select_one_unique [of rc_id _ _ _ rid]) auto

lemma lock_system_total: "workspaces_ok (workspaces s) \<Longrightarrow> lock_system wid s \<noteq> Inl e"
  using lock_workspace_total by (auto simp: lock_system_def bind_Inl)

lemma event_require_error:
  assumes "repository_schema s" and "event_require wid rid g s = Inl e"
  shows "e = connection_changed"
proof -
  have ok: "workspaces_ok (workspaces s)" "repositories_ok (repositories s)"
    using assms(1) by (simp_all add: repository_schema_def workspace_schema_def)
  from assms(2) show ?thesis
    using lock_system_total [OF ok(1)] get_repository_total [OF ok(2)] unfolding event_require_def bind_Inl
    by (auto split: option.splits if_splits dest!: lock_system_reads)
qed

subsection \<open>Steps on the table of connections\<close>

text \<open>How a row changes: the generation never falls, and within one generation a connection that
  has stopped being active stays so.\<close>

definition repo_evolves :: "repository \<Rightarrow> repository \<Rightarrow> bool" where
  "repo_evolves r r' \<longleftrightarrow>
     rc_id r' = rc_id r \<and> rc_workspace_id r' = rc_workspace_id r \<and> rc_github_id r' = rc_github_id r \<and>
     rc_config_id r' = rc_config_id r \<and> rc_generation r \<le> rc_generation r' \<and>
     (rc_generation r' = rc_generation r \<and> rc_status r \<noteq> R_ACTIVE \<longrightarrow> rc_status r' \<noteq> R_ACTIVE) \<and>
     (rc_generation r' = rc_generation r \<longrightarrow> rc_installation_id r' = rc_installation_id r)"

lemma repo_evolves_refl [simp]: "repo_evolves r r"
  by (simp add: repo_evolves_def)

lemma repo_evolves_updates:
  "repo_evolves r (r\<lparr>rc_status := DISCONNECTED, rc_disconnected_at := t\<rparr>)"
  "repo_evolves r (r\<lparr>rc_status := SUSPENDED\<rparr>)"
  "repo_evolves r (r\<lparr>rc_last_sync_at := t\<rparr>)"
  "repo_evolves r (reconnect now uid v r)"
  by (simp_all add: repo_evolves_def reconnect_def)

lemma repo_evolves_trans: "repo_evolves a b \<Longrightarrow> repo_evolves b c \<Longrightarrow> repo_evolves a c"
  by (auto simp: repo_evolves_def)

definition table_grows :: "repository list \<Rightarrow> repository list \<Rightarrow> bool" where
  "table_grows rs rs' \<longleftrightarrow> (\<forall>r \<in> set rs. \<exists>r' \<in> set rs'. repo_evolves r r')"

lemma table_grows_refl: "table_grows rs rs"
  by (auto simp: table_grows_def intro: repo_evolves_refl)

lemma table_grows_trans: "table_grows a b \<Longrightarrow> table_grows b c \<Longrightarrow> table_grows a c"
  unfolding table_grows_def by (meson repo_evolves_trans)

lemma table_grows_add: "table_grows rs (rs @ [r])"
  by (auto simp: table_grows_def intro: repo_evolves_refl)

lemma table_grows_put:
  assumes "distinct (map rc_id rs)" and "r \<in> set rs" and "repo_evolves r r'"
  shows "table_grows rs (put_row rc_id r' rs)"
  unfolding table_grows_def
proof
  fix x assume x: "x \<in> set rs"
  have id: "rc_id r' = rc_id r" using assms(3) by (simp add: repo_evolves_def)
  show "\<exists>y \<in> set (put_row rc_id r' rs). repo_evolves x y"
  proof (cases "rc_id x = rc_id r")
    case True
    then have "x = r" using assms(1,2) x by (metis distinct_key_unique)
    moreover have "r' \<in> set (put_row rc_id r' rs)" using assms(2) id by (intro put_row_mem) auto
    ultimately show ?thesis using assms(3) by blast
  next
    case False
    then show ?thesis using x id by (intro bexI [of _ x]) (auto intro: put_row_other)
  qed
qed

text \<open>The operations of the component that write, as committed steps, and steps of other components.\<close>

inductive repo_step :: "'a repository_tables_scheme \<Rightarrow> 'a repository_tables_scheme \<Rightarrow> bool" where
  others: "repositories s' = repositories s \<Longrightarrow> repository_schema s' \<Longrightarrow> repo_step s s'"
| connect: "transaction repository_schema (connect sha db_now now rid cid uid wid v) s = (Inr x, s') \<Longrightarrow> repo_step s s'"
| disconnect: "transaction repository_schema (disconnect now uid wid rid) s = (Inr u, s') \<Longrightarrow> repo_step s s'"
| sync_success: "transaction repository_schema (repo_sync_success uid wid rid at) s = (Inr u, s') \<Longrightarrow> repo_step s s'"
| suspend: "transaction repository_schema (suspend_repository uid wid rid) s = (Inr u, s') \<Longrightarrow> repo_step s s'"
| suspend_locked: "transaction repository_schema (suspend_locked rids) s = (Inr u, s') \<Longrightarrow> repo_step s s'"
| event_success: "transaction repository_schema (event_sync_success wid rid g at) s = (Inr u, s') \<Longrightarrow> repo_step s s'"

lemma connect_Inr:
  assumes "connect sha db_now now rid cid uid wid v s = Inr (x, s')"
  obtains (again) r where "(\<exists>m. authorized uid wid ''manage'' m s)" "r \<in> set (repositories s)" "rc_workspace_id r = wid"
      "rc_github_id r = vr_github_id v" "rc_status r = DISCONNECTED" "x = repo_snapshot (reconnect now uid v r)"
      "s' = repositories_update (put_row rc_id (reconnect now uid v r)) s"
  | (first) "(\<exists>m. authorized uid wid ''manage'' m s)"
      "\<forall>r \<in> set (repositories s). \<not> (rc_workspace_id r = wid \<and> rc_github_id r = vr_github_id v)"
      "x = repo_snapshot (new_repository db_now rid cid uid wid v)"
      "s' = rule_configs_update (\<lambda>cs. cs @ [default_config sha cid rid uid wid])
         (repositories_update (\<lambda>rs. rs @ [new_repository db_now rid cid uid wid v]) s)"
proof -
  from assms obtain y s1 f s2 where "require_permission uid wid ''manage'' s = Inr (y, s1)"
    and f: "by_github wid (vr_github_id v) s1 = Inr (f, s2)"
    and rest: "(case f of
       Some r \<Rightarrow>
         if rc_status r \<noteq> DISCONNECTED then raise repository_exists
         else
           bind (save_row repositories_update rc_id (reconnect now uid v r)) (\<lambda>_.
           bind (flush repository_schema) (\<lambda>_.
           ret (repo_snapshot (reconnect now uid v r))))
     | None \<Rightarrow>
         bind (add_row repositories_update (new_repository db_now rid cid uid wid v)) (\<lambda>_.
         bind (add_row rule_configs_update (default_config sha cid rid uid wid)) (\<lambda>_.
         bind (flush repository_schema) (\<lambda>_.
         ret (repo_snapshot (new_repository db_now rid cid uid wid v)))))) s2 = Inr (x, s')"
    unfolding connect_def bind_Inr [of "require_permission uid wid ''manage''"]
      bind_Inr [of "by_github wid (vr_github_id v)"] by blast
  then have s1: "s1 = s" and m: "\<exists>m. authorized uid wid ''manage'' m s"
    using require_permission_reads by blast+
  from f show ?thesis unfolding by_github_def s1
  proof (cases rule: select_one_Inr_cases)
    case None
    with rest m first show ?thesis by (auto simp: bind_Inr)
  next
    case (Some r)
    with rest m again show ?thesis by (auto simp: bind_Inr split: if_splits)
  qed
qed

lemma disconnect_Inr:
  assumes "disconnect now uid wid rid s = Inr (u, s')"
  obtains r where "repo_authorized uid wid rid ''manage'' False r s"
    "s' = repositories_update (put_row rc_id (r\<lparr>rc_status := DISCONNECTED, rc_disconnected_at := Some now\<rparr>)) s"
  using assms by (auto simp: disconnect_def bind_Inr dest!: repo_access_reads)

lemma suspend_locked_grows:
  assumes "suspend_locked rids s = Inr (u, s')" and "distinct (map rc_id (repositories s))"
  shows "table_grows (repositories s) (repositories s')"
  using assms
proof (induction rids arbitrary: s)
  case Nil
  then show ?case by (simp add: table_grows_refl)
next
  case (Cons rid rids)
  from Cons.prems(1) obtain f s1 where f: "event_by_id rid s = Inr (f, s1)"
    and rest: "(case f of None \<Rightarrow> suspend_locked rids | Some r \<Rightarrow>
         if rc_status r = R_ACTIVE then
           bind (save_row repositories_update rc_id (r\<lparr>rc_status := SUSPENDED\<rparr>)) (\<lambda>_. suspend_locked rids)
         else suspend_locked rids) s1 = Inr (u, s')"
    by (auto simp: bind_Inr)
  from f show ?case unfolding event_by_id_def
  proof (cases rule: select_one_Inr_cases)
    case None
    with rest Cons.IH Cons.prems(2) show ?thesis by simp
  next
    case (Some r)
    show ?thesis
    proof (cases "rc_status r = R_ACTIVE")
      case True
      let ?s = "repositories_update (put_row rc_id (r\<lparr>rc_status := SUSPENDED\<rparr>)) s"
      from True Some rest have "suspend_locked rids ?s = Inr (u, s')" by (simp add: bind_Inr)
      then have "table_grows (repositories ?s) (repositories s')"
        using Cons.prems(2) by (intro Cons.IH) simp_all
      moreover have "table_grows (repositories s) (repositories ?s)"
        using Some Cons.prems(2) True by (auto simp: repo_evolves_def intro: table_grows_put)
      ultimately show ?thesis by (blast intro: table_grows_trans)
    next
      case False
      with Some rest Cons.IH Cons.prems(2) show ?thesis by simp
    qed
  qed
qed

lemma repo_step_schema: "repo_step s s' \<Longrightarrow> repository_schema s'"
  by (induction rule: repo_step.induct) (auto simp: transaction_Inr_iff)

lemma repo_step_grows:
  assumes "repository_schema s" and "repo_step s s'"
  shows "table_grows (repositories s) (repositories s')"
proof -
  have ids: "distinct (map rc_id (repositories s))"
    using assms(1) by (simp add: repository_schema_def repositories_ok_def)
  show ?thesis
    using assms(2)
  proof (cases rule: repo_step.cases)
    case others
    then show ?thesis by (simp add: table_grows_refl)
  next
    case (connect sha db_now now rid cid uid wid v x)
    then have "Repositories.connect sha db_now now rid cid uid wid v s = Inr (x, s')"
      by (simp add: transaction_Inr_iff)
    then show ?thesis
      by (cases rule: connect_Inr)
        (auto simp: repo_evolves_updates intro: table_grows_add table_grows_put [OF ids])
  next
    case disconnect
    then show ?thesis
      by (auto simp: transaction_Inr_iff repo_authorized_def elim!: disconnect_Inr
          intro!: table_grows_put [OF ids _ repo_evolves_updates(1)])
  next
    case sync_success
    then show ?thesis
      by (auto simp: transaction_Inr_iff repo_sync_success_def bind_Inr repo_authorized_def
          dest!: repo_access_reads intro!: table_grows_put [OF ids _ repo_evolves_updates(3)])
  next
    case suspend
    then show ?thesis
      by (auto simp: transaction_Inr_iff suspend_repository_def bind_Inr repo_authorized_def
          table_grows_refl split: if_splits dest!: repo_access_reads
          intro!: table_grows_put [OF ids _ repo_evolves_updates(2)])
  next
    case suspend_locked
    then show ?thesis using suspend_locked_grows ids by (auto simp: transaction_Inr_iff)
  next
    case event_success
    then show ?thesis
      unfolding event_sync_success_def get_repository_def
      by (auto simp: transaction_Inr_iff bind_Inr split: option.splits
          dest!: event_require_reads select_one_Some
          intro!: table_grows_put [OF ids _ repo_evolves_updates(3)])
  qed
qed

interpretation repos: evolving_system repository_schema repo_step repository_schema
  "\<lambda>s s'. table_grows (repositories s) (repositories s')"
  by unfold_locales
    (auto intro: table_grows_refl table_grows_trans repo_step_schema repo_step_grows)

subsection \<open>Properties\<close>

text \<open>
  C9. A lost connection never validates again: if the row of a connection is disconnected or
  suspended in generation \<open>g\<close>, then in every state reached afterwards, whatever reconnections
  happen, a job or delivery that carries generation \<open>g\<close> is refused with CONNECTION_CHANGED and
  changes nothing.
\<close>

theorem lost_generation_never_validates:
  assumes "repository_schema s" and "r \<in> set (repositories s)" and "rc_status r \<noteq> R_ACTIVE"
    and "repo_step\<^sup>*\<^sup>* s t"
  shows "transaction ok (bind (event_require wid (rc_id r) (rc_generation r)) f) t = (Inl connection_changed, t)"
proof -
  have schema: "repository_schema t" using repos.inv_steps [OF assms(4,1)] .
  obtain q where q: "q \<in> set (repositories t)" "repo_evolves r q"
    using repos.evolves_steps [OF assms(4,1)] assms(2) unfolding table_grows_def by blast
  have dead: "\<not> live_connection wid (rc_id r) (rc_generation r) x t" for x
  proof
    assume "live_connection wid (rc_id r) (rc_generation r) x t"
    then obtain p where p: "p \<in> set (repositories t)" "rc_id p = rc_id r" "rc_status p = R_ACTIVE"
        "rc_generation p = rc_generation r"
      unfolding live_connection_def by blast
    have "p = q"
      using repositories_unique [of "repositories t" p q] schema p q
      by (simp add: repository_schema_def repo_evolves_def)
    with p q(2) assms(3) show False by (simp add: repo_evolves_def)
  qed
  obtain e where e: "event_require wid (rc_id r) (rc_generation r) t = Inl e"
  proof (cases "event_require wid (rc_id r) (rc_generation r) t")
    case (Inr y)
    then show ?thesis using event_require_reads dead by (cases y) blast
  qed blast
  show ?thesis using event_guard.raises_first [OF e] event_require_error [OF schema e] by simp
qed

text \<open>The caller's list, as \<open>candidate_map\<close> returns it.\<close>

definition keyed :: "candidate list \<Rightarrow> int \<Rightarrow> candidate option" where
  "keyed items = map_of (rev (map (\<lambda>c. (cr_github_id c, c)) items))"

lemma require_permission_holds:
  "workspace_schema s \<Longrightarrow> authorized uid wid p m s \<Longrightarrow> require_permission uid wid p s = Inr (wm_role m, s)"
  using require_holds [of s uid wid p m] by (simp add: require_permission_def bind_def ret_def)

lemma require_permission_error:
  "workspace_schema s \<Longrightarrow> require_permission uid wid p s = Inl e \<Longrightarrow> guard_error e"
  by (auto simp: require_permission_def bind_Inl dest: require_error)

text \<open>
  Candidate lists are private and short-lived: after a user saves the list found for a team,
  selecting from it within fifteen minutes sees exactly that list, after that it is not found; the
  unexpired lists of every other user or team are kept as they are.
\<close>

theorem candidates_round_trip:
  assumes "repository_schema s" and "authorized uid wid ''manage'' m s"
    and "length (cl_items found) \<le> 300" and "fresh \<notin> cs_id ` set (candidate_sets s)"
    and "db_now \<le> now" and "now < later"
    and "transaction repository_schema (save_candidates db_now now fresh uid wid found) s = (r, s')"
  shows "r = Inr () \<and>
    fst (transaction repository_schema (candidate_map later uid wid) s') =
      (if later < now + minutes 15 then Inr (keyed (cl_items found)) else Inl candidates_not_found) \<and>
    (\<forall>c \<in> set (candidate_sets s). (cs_user_id c, cs_workspace_id c) \<noteq> (uid, wid) \<and> now < cs_expires_at c \<longrightarrow>
       c \<in> set (candidate_sets s'))"
proof -
  let ?row = "\<lparr>cs_id = fresh, cs_created_at = db_now, cs_workspace_id = wid, cs_user_id = uid,
      cs_expires_at = now + minutes 15, cs_truncated = cl_truncated found,
      cs_skipped = cl_skipped found, cs_items = cl_items found\<rparr>"
  let ?gone = "\<lambda>c. cs_expires_at c \<le> now \<or> cs_workspace_id c = wid \<and> cs_user_id c = uid"
  let ?t = "candidate_sets_update (\<lambda>cs. filter (\<lambda>c. \<not> ?gone c) cs @ [?row]) s"
  have ok: "candidate_sets_ok (candidate_sets s)" and ws: "workspace_schema s"
    using assms(1) by (simp_all add: repository_schema_def)
  have "candidate_sets_ok (filter (\<lambda>c. \<not> ?gone c) (candidate_sets s) @ [?row])"
    using ok assms(3-5)
    by (auto simp: candidate_sets_ok_def distinct_map_filter list_all_iff)
  then have schema: "repository_schema ?t"
    using assms(1) by (simp add: repository_schema_def workspace_schema_def)
  have "save_candidates db_now now fresh uid wid found s = Inr ((), ?t)"
    using require_permission_holds [OF ws assms(2)] schema
    by (simp add: save_candidates_def save_candidate_set_def bind_def delete_where_def add_row_def
        modify_def flush_def o_def)
  then have tx: "r = Inr ()" "s' = ?t"
    using assms(7) schema by (auto simp: transaction_def)
  have perm: "require_permission uid wid ''manage'' s' = Inr (wm_role m, s')"
    using assms(2) schema unfolding tx(2)
    by (intro require_permission_holds) (simp_all add: repository_schema_def authorized_def)
  have "find (\<lambda>c. cs_workspace_id c = wid \<and> cs_user_id c = uid \<and> later < cs_expires_at c) (candidate_sets s') =
      (if later < now + minutes 15 then Some ?row else None)"
  proof -
    have "find (\<lambda>c. cs_workspace_id c = wid \<and> cs_user_id c = uid \<and> later < cs_expires_at c)
        (filter (\<lambda>c. \<not> ?gone c) (candidate_sets s) @ [?row]) =
      find (\<lambda>c. cs_workspace_id c = wid \<and> cs_user_id c = uid \<and> later < cs_expires_at c) [?row]"
      by (rule find_skip) auto
    then show ?thesis unfolding tx(2) by simp
  qed
  then have "candidate_map later uid wid s' =
      (if later < now + minutes 15 then Inr (keyed (cl_items found), s') else Inl candidates_not_found)"
    using perm by (simp add: candidate_map_def load_candidate_set_def select_first_def gets_def bind_def
        ret_def raise_def keyed_def)
  then have "fst (transaction repository_schema (candidate_map later uid wid) s') =
      (if later < now + minutes 15 then Inr (keyed (cl_items found)) else Inl candidates_not_found)"
    using schema tx(2) by (simp add: transaction_def)
  with tx show ?thesis by auto
qed

lemma by_github_found:
  "repositories_ok (repositories s) \<Longrightarrow> r \<in> set (repositories s) \<Longrightarrow>
   by_github (rc_workspace_id r) (rc_github_id r) s = Inr (Some r, s)"
  unfolding by_github_def
  by (intro select_one_found [of "\<lambda>r. (rc_workspace_id r, rc_github_id r)"]) (auto simp: repositories_ok_def)

lemma reconnect_simps [simp]:
  "rc_id (reconnect now uid v r) = rc_id r" "rc_workspace_id (reconnect now uid v r) = rc_workspace_id r"
  "rc_github_id (reconnect now uid v r) = rc_github_id r"
  "rc_generation (reconnect now uid v r) = rc_generation r + 1"
  "rc_status (reconnect now uid v r) = R_ACTIVE" "rc_disconnected_at (reconnect now uid v r) = None"
  "rc_installation_id (reconnect now uid v r) = vr_installation_id v"
  "rc_ai_policy_version (reconnect now uid v r) = rc_ai_policy_version r"
  by (simp_all add: reconnect_def)

definition elsewhere_live :: "int \<Rightarrow> uuid \<Rightarrow> repository list \<Rightarrow> bool" where
  "elsewhere_live gid wid rs \<longleftrightarrow>
     (\<exists>r \<in> set rs. rc_github_id r = gid \<and> rc_workspace_id r \<noteq> wid \<and> repo_live r)"

lemma repositories_ok_reconnect:
  assumes ok: "repositories_ok rs" and r: "r \<in> set rs" "rc_github_id r = vr_github_id v" "rc_workspace_id r = wid"
    and pos: "0 < vr_installation_id v"
  shows "repositories_ok (put_row rc_id (reconnect now uid v r) rs) \<longleftrightarrow> \<not> elsewhere_live (vr_github_id v) wid rs"
proof
  let ?r = "reconnect now uid v r"
  have ids: "distinct (map rc_id rs)" using ok by (simp add: repositories_ok_def)
  have live: "repo_live ?r" by (simp add: repo_live_def)
  {
    assume "repositories_ok (put_row rc_id ?r rs)"
    then have d: "distinct (map rc_github_id (filter repo_live (put_row rc_id ?r rs)))"
      by (simp add: repositories_ok_def)
    show "\<not> elsewhere_live (vr_github_id v) wid rs"
    proof
      assume "elsewhere_live (vr_github_id v) wid rs"
      then obtain x where x: "x \<in> set rs" "rc_github_id x = vr_github_id v" "rc_workspace_id x \<noteq> wid" "repo_live x"
        unfolding elsewhere_live_def by blast
      have "rc_id x \<noteq> rc_id ?r" using x r ids by (metis distinct_key_unique reconnect_simps(1))
      then have "x \<in> set (filter repo_live (put_row rc_id ?r rs))" using x by (auto intro: put_row_other)
      moreover have "?r \<in> set (filter repo_live (put_row rc_id ?r rs))"
        using r(1) live by (simp add: put_row_mem bexI [of _ r])
      ultimately have "x = ?r" using d x(2) r(2) by (metis distinct_key_unique reconnect_simps(3))
      with x(3) r(3) show False by simp
    qed
  }
  assume free: "\<not> elsewhere_live (vr_github_id v) wid rs"
  have same: "x = r" if "x \<in> set rs" "rc_id x = rc_id ?r" for x
    using that ids r(1) by (metis distinct_key_unique reconnect_simps(1))
  have "map (\<lambda>r. (rc_workspace_id r, rc_github_id r)) (put_row rc_id ?r rs) =
      map (\<lambda>r. (rc_workspace_id r, rc_github_id r)) rs"
    using same by (intro put_row_column) auto
  moreover have "distinct (map rc_github_id (filter repo_live (put_row rc_id ?r rs)))"
  proof (rule distinct_filter_put_row [OF ids])
    show "distinct (map rc_github_id (filter repo_live rs))" using ok by (simp add: repositories_ok_def)
    fix x assume x: "x \<in> set rs" "repo_live x" "rc_id x \<noteq> rc_id ?r"
    show "rc_github_id x \<noteq> rc_github_id ?r"
    proof
      assume eq: "rc_github_id x = rc_github_id ?r"
      then have "rc_workspace_id x = wid" using free x r unfolding elsewhere_live_def by auto
      then have "x = r"
        using ok x(1) r eq unfolding repositories_ok_def
        by (metis (mono_tags, lifting) distinct_key_unique reconnect_simps(3))
      with x(3) show False by simp
    qed
  qed
  moreover have "repository_row_ok ?r"
    using ok r(1) pos by (auto simp: repositories_ok_def list_all_iff repository_row_ok_def)
  ultimately show "repositories_ok (put_row rc_id ?r rs)"
    using ok by (simp add: repositories_ok_def list_all_put_row)
qed

text \<open>
  Reconnecting a repository the team had disconnected: it fails with the database's uniqueness
  error, changing nothing, exactly when another team holds a live connection to the same GitHub
  repository; otherwise the row becomes active in the next generation and keeps its rule
  configuration. A connection that is still live is refused as existing.
\<close>

theorem reconnect_outcomes:
  assumes "repository_schema s" and "authorized uid wid ''manage'' m s"
    and "r \<in> set (repositories s)" and "rc_workspace_id r = wid" and "rc_github_id r = vr_github_id v"
    and "0 < vr_installation_id v"
  shows "transaction repository_schema (connect sha db_now now rid cid uid wid v) s =
    (if repo_live r then (Inl repository_exists, s)
     else if elsewhere_live (vr_github_id v) wid (repositories s) then (Inl IntegrityError, s)
     else (Inr (repo_snapshot (reconnect now uid v r)),
           repositories_update (put_row rc_id (reconnect now uid v r)) s))"
proof -
  have ok: "repositories_ok (repositories s)" and ws: "workspace_schema s"
    using assms(1) by (simp_all add: repository_schema_def)
  have perm: "require_permission uid wid ''manage'' s = Inr (wm_role m, s)"
    using require_permission_holds [OF ws assms(2)] .
  have found: "by_github wid (vr_github_id v) s = Inr (Some r, s)"
    using by_github_found [OF ok assms(3)] assms(4,5) by simp
  let ?t = "repositories_update (put_row rc_id (reconnect now uid v r)) s"
  have "repository_schema ?t \<longleftrightarrow> \<not> elsewhere_live (vr_github_id v) wid (repositories s)"
    using repositories_ok_reconnect [OF ok assms(3,5,4,6)] assms(1)
    by (simp add: repository_schema_def workspace_schema_def)
  moreover have "repo_live r \<longleftrightarrow> rc_status r \<noteq> DISCONNECTED"
    by (cases "rc_status r") (simp_all add: repo_live_def)
  ultimately show ?thesis
    using perm found
    by (simp add: connect_def transaction_def bind_def ret_def raise_def save_row_def modify_def flush_def)
qed

subsection \<open>Concrete runs\<close>

definition shop_verified :: verified where
  "shop_verified = \<lparr>vr_github_id = 99, vr_installation_id = 5, vr_owner_login = ''o'', vr_name = ''n'',
     vr_is_private = True, vr_default_branch = None\<rparr>"

definition shop_row :: repository where
  "shop_row = new_repository 1 70 80 1 10 shop_verified"

definition shop_gone :: repository where
  "shop_gone = shop_row\<lparr>rc_status := DISCONNECTED, rc_disconnected_at := Some 2\<rparr>"

definition shop :: "repository list \<Rightarrow> repository_tables" where
  "shop rs = \<lparr>jobs = [], users = [space_user 1, space_user 2, space_user 3], login_attempts = [],
     refresh_sessions = [],
     workspaces = [\<lparr>ws_id = 10, ws_name = ''w'', ws_status = ACTIVE, ws_created_by = 1\<rparr>],
     members = [new_member 0 20 10 1 OWNER], invitations = [], repositories = rs,
     candidate_sets = [], rule_configs = []\<rparr>"

lemmas shop_defs = shop_def shop_row_def shop_gone_def new_repository_def shop_verified_def
  space_user_def new_member_def

lemma shop_auth: "authorized 1 10 ''manage'' (new_member 0 20 10 1 OWNER) (shop rs)"
  by (simp add: authorized_def shop_def space_user_def new_member_def)

lemma shop_ok: "repository_schema (shop [])" "repository_schema (shop [shop_row])" "repository_schema (shop [shop_gone])"
  by (simp_all add: repository_schema_def shop_defs space_ok_defs repositories_ok_def repository_row_ok_def
      repo_live_def candidate_sets_ok_def rule_configs_ok_def)

theorem reconnect_outcomes_witness:
  "fst (transaction repository_schema (connect space_digest 3 3 71 81 1 10 shop_verified) (shop [shop_gone])) =
     Inr (repo_snapshot (reconnect 3 1 shop_verified shop_gone))"
  by (subst reconnect_outcomes [OF shop_ok(3) shop_auth, of shop_gone])
    (simp_all add: shop_defs repo_live_def elsewhere_live_def)

theorem lost_generation_never_validates_witness:
  "transaction repository_schema (bind (event_require 10 70 1) (\<lambda>x. ret x))
     (shop [reconnect 3 1 shop_verified shop_gone]) =
   (Inl connection_changed, shop [reconnect 3 1 shop_verified shop_gone])"
proof -
  have tx: "transaction repository_schema (connect space_digest 3 3 71 81 1 10 shop_verified) (shop [shop_gone]) =
      (Inr (repo_snapshot (reconnect 3 1 shop_verified shop_gone)),
       shop [reconnect 3 1 shop_verified shop_gone])"
    by (simp add: connect_def require_permission_def require_def by_github_def lock_workspace_def
        get_active_def active_user_def find_member_def active_workspace_def transaction_def txn_eval row_ops
        repository_schema_def shop_defs space_ok_defs repositories_ok_def repository_row_ok_def
        repo_live_def candidate_sets_ok_def rule_configs_ok_def reconnect_def)
  have "repo_step\<^sup>*\<^sup>* (shop [shop_gone]) (shop [reconnect 3 1 shop_verified shop_gone])"
    using repo_step.connect [OF tx] by blast
  then show ?thesis
    using lost_generation_never_validates [OF shop_ok(3), of shop_gone _ repository_schema 10 "\<lambda>x. ret x"]
    by (simp add: shop_def shop_gone_def shop_row_def new_repository_def)
qed

theorem candidates_round_trip_witness:
  "fst (transaction repository_schema (candidate_map 5 1 10)
     (snd (transaction repository_schema
       (save_candidates 1 1 60 1 10 \<lparr>cl_items = [], cl_truncated = False, cl_skipped = 0\<rparr>) (shop [])))) =
   Inr (keyed [])"
  using candidates_round_trip [OF shop_ok(1) shop_auth, of "\<lparr>cl_items = [], cl_truncated = False, cl_skipped = 0\<rparr>"
      60 1 1 5 "fst (transaction repository_schema
       (save_candidates 1 1 60 1 10 \<lparr>cl_items = [], cl_truncated = False, cl_skipped = 0\<rparr>) (shop []))"]
  by (simp add: shop_def)

end
