(* ===== verification/Pull_Requests.thy ===== *)
theory Pull_Requests
  imports Repositories
begin

section \<open>Pull requests and their synchronisation\<close>

text \<open>
  \<^verbatim>\<open>app/domain/pull_request\<close>: the snapshots of pull requests and the synchronisation runs
  (\<^verbatim>\<open>models.py\<close>), the queries and the upsert of a fetched snapshot (\<^verbatim>\<open>repository.py\<close>), the request
  of a run and the worker that executes its job (\<^verbatim>\<open>service.py\<close>), the read operations
  (\<^verbatim>\<open>query.py\<close>) and the entry points of other components (\<^verbatim>\<open>api.py\<close>). What GitHub answers
  (\<^verbatim>\<open>github.py\<close>, \<open>fetch\<close>) is an argument of the worker here.
\<close>

subsection \<open>Tables\<close>

datatype pull_state = P_OPEN | P_CLOSED

datatype merge_status = UNKNOWN | NOT_MERGED | MERGED

datatype actor = USER | SYSTEM

datatype sync_mode = SINGLE | RECENT | PAGE

datatype run_status = PENDING | RUNNING | COMPLETED | FAILED | RUN_CANCELED

record pull_request =
  pr_id :: uuid
  pr_workspace_id :: uuid
  pr_repository_id :: uuid
  pr_github_id :: int
  pr_number :: int
  pr_title :: string
  pr_author_id :: "int option"
  pr_author_login :: "string option"
  pr_state :: pull_state
  pr_merge_status :: merge_status
  pr_is_draft :: bool
  pr_base_ref :: "string option"
  pr_head_ref :: "string option"
  pr_base_sha :: "string option"
  pr_head_sha :: "string option"
  pr_changed_files :: "int option"
  pr_commits :: "int option"
  pr_github_created_at :: datetime
  pr_github_updated_at :: datetime
  pr_closed_at :: "datetime option"
  pr_merged_at :: "datetime option"
  pr_synced_at :: datetime
  pr_generation :: int

record sync_run =
  sr_id :: uuid
  sr_created_at :: datetime
  sr_workspace_id :: uuid
  sr_repository_id :: uuid
  sr_generation :: int
  sr_actor :: actor
  sr_requested_by :: "uuid option"
  sr_mode :: sync_mode
  sr_number :: "int option"
  sr_cursor :: "string option"
  sr_next_cursor :: "string option"
  sr_etag :: "string option"
  sr_status :: run_status
  sr_fetched :: int
  sr_started_at :: "datetime option"
  sr_finished_at :: "datetime option"
  sr_success_at :: "datetime option"
  sr_error_code :: "string option"

record pull_tables = repository_tables +
  pull_requests :: "pull_request list"
  sync_runs :: "sync_run list"

text \<open>A check that evaluates to \<open>NULL\<close> does not reject the row.\<close>

definition sha_ok :: "string option \<Rightarrow> bool" where
  "sha_ok x = (case x of None \<Rightarrow> True | Some v \<Rightarrow> is_hex 40 v \<or> is_hex 64 v)"

definition count_ok :: "int option \<Rightarrow> bool" where
  "count_ok x = (case x of None \<Rightarrow> True | Some n \<Rightarrow> 0 \<le> n)"

definition pull_row_ok :: "pull_request \<Rightarrow> bool" where
  "pull_row_ok p \<longleftrightarrow>
     0 < pr_github_id p \<and> 0 < pr_number p \<and> 0 < pr_generation p \<and>
     count_ok (pr_changed_files p) \<and> count_ok (pr_commits p) \<and>
     sha_ok (pr_base_sha p) \<and> sha_ok (pr_head_sha p)"

definition pulls_ok :: "pull_request list \<Rightarrow> bool" where
  "pulls_ok ps \<longleftrightarrow>
     distinct (map pr_id ps) \<and>
     distinct (map (\<lambda>p. (pr_repository_id p, pr_number p)) ps) \<and>
     distinct (map (\<lambda>p. (pr_repository_id p, pr_github_id p)) ps) \<and>
     list_all pull_row_ok ps"

definition sync_open :: "sync_run \<Rightarrow> bool" where
  "sync_open r \<longleftrightarrow> sr_status r = PENDING \<or> sr_status r = RUNNING"

definition sync_mode_ok :: "sync_run \<Rightarrow> bool" where
  "sync_mode_ok r =
     (case sr_mode r of
        SINGLE \<Rightarrow> (case sr_number r of None \<Rightarrow> True | Some n \<Rightarrow> 0 < n) \<and> sr_cursor r = None
      | RECENT \<Rightarrow> sr_number r = None \<and> sr_cursor r = None
      | PAGE \<Rightarrow> sr_number r = None \<and> sr_cursor r \<noteq> None)"

definition sync_row_ok :: "sync_run \<Rightarrow> bool" where
  "sync_row_ok r \<longleftrightarrow>
     0 < sr_generation r \<and> 0 \<le> sr_fetched r \<and>
     (sr_actor r = USER) = (sr_requested_by r \<noteq> None) \<and>
     sync_mode_ok r \<and>
     (sr_status r \<in> {COMPLETED, FAILED, RUN_CANCELED}) = (sr_finished_at r \<noteq> None)"

definition sync_runs_ok :: "sync_run list \<Rightarrow> bool" where
  "sync_runs_ok rs \<longleftrightarrow>
     distinct (map sr_id rs) \<and>
     distinct (map sr_repository_id (filter sync_open rs)) \<and>
     list_all sync_row_ok rs"

definition pull_schema :: "'a pull_tables_scheme \<Rightarrow> bool" where
  "pull_schema s \<longleftrightarrow>
     repository_schema s \<and> jobs_schema s \<and> pulls_ok (pull_requests s) \<and> sync_runs_ok (sync_runs s)"

interpretation pull_store: row_store pull_requests pull_requests_update pr_id
  by unfold_locales simp_all

interpretation sync_store: row_store sync_runs sync_runs_update sr_id
  by unfold_locales simp_all

subsection \<open>Queries\<close>

text \<open>\<open>order_by(... desc()).limit(1)\<close>\<close>

definition newest :: "('r \<Rightarrow> 'k :: linorder) \<Rightarrow> 'r list \<Rightarrow> 'r option" where
  "newest key rs = (case rev (sort_key key rs) of [] \<Rightarrow> None | r # _ \<Rightarrow> Some r)"

definition latest_sync ::
  "uuid \<Rightarrow> uuid \<Rightarrow> int \<Rightarrow> ('a pull_tables_scheme, sync_run option) txn" where
  "latest_sync wid rid generation =
     gets (\<lambda>s. newest (\<lambda>r. (sr_created_at r, sr_id r))
       (filter (\<lambda>r. sr_workspace_id r = wid \<and> sr_repository_id r = rid \<and>
          sr_generation r = generation \<and> (sr_mode r = RECENT \<or> sr_mode r = PAGE)) (sync_runs s)))"

definition active_sync :: "uuid \<Rightarrow> ('a pull_tables_scheme, sync_run option) txn" where
  "active_sync rid = select_one sync_runs (\<lambda>r. sr_repository_id r = rid \<and> sync_open r)"

definition get_sync ::
  "uuid \<Rightarrow> uuid \<Rightarrow> uuid \<Rightarrow> ('a pull_tables_scheme, sync_run option) txn" where
  "get_sync wid rid sid =
     select_one sync_runs (\<lambda>r. sr_workspace_id r = wid \<and> sr_repository_id r = rid \<and> sr_id r = sid)"

definition sync_by_id :: "uuid \<Rightarrow> ('a pull_tables_scheme, sync_run option) txn" where
  "sync_by_id sid = select_one sync_runs (\<lambda>r. sr_id r = sid)"

definition get_pull :: "uuid \<Rightarrow> uuid \<Rightarrow> ('a pull_tables_scheme, pull_request option) txn" where
  "get_pull wid pid = select_one pull_requests (\<lambda>p. pr_workspace_id p = wid \<and> pr_id p = pid)"

definition pull_order :: "pull_request \<Rightarrow> datetime \<times> uuid" where
  "pull_order p = (pr_github_updated_at p, pr_id p)"

definition pull_page ::
  "uuid \<Rightarrow> uuid \<Rightarrow> uuid option \<Rightarrow> ('a pull_tables_scheme, pull_request list) txn" where
  "pull_page wid rid cursor =
     (let rows = (\<lambda>P. gets (\<lambda>s. take 51 (rev (sort_key pull_order
        (filter (\<lambda>p. pr_workspace_id p = wid \<and> pr_repository_id p = rid \<and> P p) (pull_requests s))))))
      in case cursor of
           None \<Rightarrow> rows (\<lambda>_. True)
         | Some pid \<Rightarrow>
             bind (get_pull wid pid) (\<lambda>found.
             case found of
               None \<Rightarrow> ret []
             | Some anchor \<Rightarrow>
                 if pr_repository_id anchor \<noteq> rid then ret []
                 else rows (\<lambda>p. pull_order p < pull_order anchor)))"

text \<open>A completed run has a finishing time, so the default of the sort key is never used.\<close>

definition cached_sync ::
  "uuid \<Rightarrow> sync_mode \<Rightarrow> string option \<Rightarrow> int option \<Rightarrow> int \<Rightarrow> ('a pull_tables_scheme, sync_run option) txn" where
  "cached_sync rid mode cursor number generation =
     gets (\<lambda>s. newest (\<lambda>r. case sr_finished_at r of None \<Rightarrow> 0 | Some t \<Rightarrow> t)
       (filter (\<lambda>r. sr_repository_id r = rid \<and> sr_mode r = mode \<and> sr_cursor r = cursor \<and>
          sr_number r = number \<and> sr_generation r = generation \<and> sr_status r = COMPLETED) (sync_runs s)))"

subsection \<open>Storing a fetched snapshot\<close>

text \<open>
  A validated answer of GitHub; \<open>rp_zoned\<close> says that both its creation and its update time carry
  a time zone, and \<open>rp_merged\<close> is absent in list answers.
\<close>

record remote_pull =
  rp_id :: int
  rp_number :: int
  rp_title :: string
  rp_user :: "(int \<times> string) option"
  rp_state :: pull_state
  rp_draft :: bool
  rp_base :: "string option \<times> string option"
  rp_head :: "string option \<times> string option"
  rp_created_at :: datetime
  rp_updated_at :: datetime
  rp_zoned :: bool
  rp_closed_at :: "datetime option"
  rp_merged_at :: "datetime option"
  rp_merged :: "bool option"
  rp_changed_files :: "int option"
  rp_commits :: "int option"

definition merge_of :: "remote_pull \<Rightarrow> merge_status" where
  "merge_of p =
     (if rp_merged_at p \<noteq> None \<or> rp_merged p = Some True then MERGED
      else if rp_merged p = Some False then NOT_MERGED
      else UNKNOWN)"

definition pull_values ::
  "uuid \<Rightarrow> datetime \<Rightarrow> uuid \<Rightarrow> uuid \<Rightarrow> int \<Rightarrow> remote_pull \<Rightarrow> pull_request" where
  "pull_values key now wid rid generation p =
     \<lparr>pr_id = key, pr_workspace_id = wid, pr_repository_id = rid, pr_github_id = rp_id p,
      pr_number = rp_number p, pr_title = rp_title p, pr_author_id = map_option fst (rp_user p),
      pr_author_login = map_option snd (rp_user p), pr_state = rp_state p,
      pr_merge_status = merge_of p, pr_is_draft = rp_draft p, pr_base_ref = fst (rp_base p),
      pr_head_ref = fst (rp_head p), pr_base_sha = snd (rp_base p), pr_head_sha = snd (rp_head p),
      pr_changed_files = rp_changed_files p, pr_commits = rp_commits p,
      pr_github_created_at = rp_created_at p, pr_github_updated_at = rp_updated_at p,
      pr_closed_at = rp_closed_at p, pr_merged_at = rp_merged_at p, pr_synced_at = now,
      pr_generation = generation\<rparr>"

definition snapshot_conflict :: exn where
  "snapshot_conflict = GitHubFailure ''GITHUB_SNAPSHOT_CONFLICT'' None"

text \<open>
  The query first flushes what an earlier call has changed. \<open>fresh\<close> is the primary key a new row
  would get, \<open>now\<close> the clock reading.
\<close>

definition upsert_pull ::
  "uuid \<Rightarrow> datetime \<Rightarrow> uuid \<Rightarrow> uuid \<Rightarrow> int \<Rightarrow> remote_pull \<Rightarrow> ('a pull_tables_scheme, unit) txn" where
  "upsert_pull fresh now wid rid generation p =
     bind (flush pull_schema) (\<lambda>_.
     bind (select_one pull_requests (\<lambda>q. pr_repository_id q = rid \<and> pr_number q = rp_number p)) (\<lambda>found.
     case found of
       None \<Rightarrow> add_row pull_requests_update (pull_values fresh now wid rid generation p)
     | Some q \<Rightarrow>
         if rp_updated_at p < pr_github_updated_at q then ret ()
         else if pr_github_updated_at q = rp_updated_at p \<and>
                 (pr_head_sha q \<noteq> snd (rp_head p) \<or> pr_base_sha q \<noteq> snd (rp_base p))
         then raise snapshot_conflict
         else save_row pull_requests_update pr_id (pull_values (pr_id q) now wid rid generation p)))"

subsection \<open>Requesting a run\<close>

definition sync_in_progress :: exn where
  "sync_in_progress = AppException ''SYNC_IN_PROGRESS'' CONFLICT"

definition new_sync ::
  "datetime \<Rightarrow> uuid \<Rightarrow> uuid \<Rightarrow> uuid \<Rightarrow> int \<Rightarrow> uuid option \<Rightarrow> sync_mode \<Rightarrow> string option \<Rightarrow> int option \<Rightarrow>
   sync_run option \<Rightarrow> sync_run" where
  "new_sync db_now sid wid rid generation uid mode cursor number cached =
     \<lparr>sr_id = sid, sr_created_at = db_now, sr_workspace_id = wid, sr_repository_id = rid,
      sr_generation = generation, sr_actor = (if uid = None then SYSTEM else USER),
      sr_requested_by = uid, sr_mode = mode, sr_number = number, sr_cursor = cursor,
      sr_next_cursor = (case cached of None \<Rightarrow> None | Some r \<Rightarrow> sr_next_cursor r),
      sr_etag = (case cached of None \<Rightarrow> None | Some r \<Rightarrow> sr_etag r),
      sr_status = PENDING, sr_fetched = 0, sr_started_at = None, sr_finished_at = None,
      sr_success_at = None, sr_error_code = None\<rparr>"

definition sync_mode_of :: "int \<Rightarrow> int option \<Rightarrow> sync_mode" where
  "sync_mode_of pg number =
     (if number \<noteq> None \<and> number \<noteq> Some 0 then SINGLE else if pg = 1 then RECENT else PAGE)"

definition sync_cursor_of :: "int \<Rightarrow> int option \<Rightarrow> string option" where
  "sync_cursor_of pg number =
     (if sync_mode_of pg number = PAGE then Some (int_text pg) else None)"

definition enqueue_sync ::
  "(string \<Rightarrow> string) \<Rightarrow> datetime \<Rightarrow> uuid \<Rightarrow> uuid \<Rightarrow> uuid \<Rightarrow> uuid \<Rightarrow> uuid \<Rightarrow> int \<Rightarrow> int option \<Rightarrow>
   ('a pull_tables_scheme, sync_run) txn" where
  "enqueue_sync sha db_now sid jid uid wid rid pg number =
     bind (repo_require uid wid rid ''sync'' True) (\<lambda>repo.
     (let mode = sync_mode_of pg number; cursor = sync_cursor_of pg number in
      bind (active_sync rid) (\<lambda>existing.
      case existing of
        Some r \<Rightarrow>
          if (sr_mode r, sr_cursor r, sr_number r, sr_generation r) \<noteq>
             (mode, cursor, number, rs_generation repo)
          then raise sync_in_progress
          else ret r
      | None \<Rightarrow>
          bind (cached_sync rid mode cursor number (rs_generation repo)) (\<lambda>cached.
          (let run = new_sync db_now sid wid rid (rs_generation repo) (Some uid) mode cursor number cached in
           bind (add_row sync_runs_update run) (\<lambda>_.
           bind (flush pull_schema) (\<lambda>_.
           bind (enqueue_job sha db_now jid SYNC_PULL_REQUESTS sid (Some wid)) (\<lambda>_.
           ret run))))))))"

text \<open>A delivery asks for a fresh run of one pull request; it does not join a running one.\<close>

definition request_event_sync ::
  "(string \<Rightarrow> string) \<Rightarrow> datetime \<Rightarrow> uuid \<Rightarrow> uuid \<Rightarrow> uuid \<Rightarrow> uuid \<Rightarrow> int \<Rightarrow> int \<Rightarrow>
   ('a pull_tables_scheme, uuid option) txn" where
  "request_event_sync sha db_now sid jid wid rid generation number =
     bind (event_require wid rid generation) (\<lambda>_.
     bind (active_sync rid) (\<lambda>existing.
     if existing \<noteq> None then ret None
     else
       bind (add_row sync_runs_update
               (new_sync db_now sid wid rid generation None SINGLE None (Some number) None)) (\<lambda>_.
       bind (flush pull_schema) (\<lambda>_.
       bind (enqueue_job sha db_now jid SYNC_PULL_REQUESTS sid (Some wid)) (\<lambda>_.
       ret (Some sid))))))"

subsection \<open>The worker\<close>

definition sync_access :: "sync_run \<Rightarrow> ('a pull_tables_scheme, repository_snapshot) txn" where
  "sync_access r =
     (if sr_actor r = SYSTEM
      then event_require (sr_workspace_id r) (sr_repository_id r) (sr_generation r)
      else
        (case sr_requested_by r of
           None \<Rightarrow> raise AssertionError
         | Some uid \<Rightarrow> repo_require uid (sr_workspace_id r) (sr_repository_id r) ''sync'' True))"

text \<open>\<open>int(run.request_cursor or "1")\<close>\<close>

definition cursor_page :: "string option \<Rightarrow> exn + int" where
  "cursor_page cursor =
     (case parse_int (if truthy cursor then the cursor else ''1'') of
        None \<Rightarrow> Inl (ValueError ''int'')
      | Some n \<Rightarrow> Inr n)"

text \<open>What the first transaction hands to the request: the connection, page, number and ETag.\<close>

record sync_task =
  st_repo :: repository_snapshot
  st_page :: int
  st_number :: "int option"
  st_etag :: "string option"

definition begin_sync ::
  "datetime \<Rightarrow> datetime \<Rightarrow> claim \<Rightarrow> ('a pull_tables_scheme, sync_task option) txn" where
  "begin_sync now now' c =
     bind (sync_by_id (claim_aggregate_id c)) (\<lambda>found.
     case found of
       None \<Rightarrow> ret None
     | Some r \<Rightarrow>
         bind (sync_access r) (\<lambda>repo.
         bind (get_sync (sr_workspace_id r) (sr_repository_id r) (sr_id r)) (\<lambda>again.
         case again of
           None \<Rightarrow> raise AssertionError
         | Some run \<Rightarrow>
             bind (fence now c False) (\<lambda>job.
             case job of
               None \<Rightarrow> ret None
             | Some _ \<Rightarrow>
                 if rs_generation repo \<noteq> sr_generation run then raise connection_changed
                 else
                   (case cursor_page (sr_cursor run) of
                      Inl e \<Rightarrow> raise e
                    | Inr pg \<Rightarrow>
                        bind (save_row sync_runs_update sr_id
                          (run\<lparr>sr_status := RUNNING, sr_started_at := Some now'\<rparr>)) (\<lambda>_.
                        ret (Some \<lparr>st_repo = repo, st_page = pg, st_number = sr_number run,
                                   st_etag = sr_etag run\<rparr>)))))))"

text \<open>
  The rows of an answer, each with the key it would be inserted under and the clock reading of its
  upsert.
\<close>

type_synonym fetched_rows = "(uuid \<times> datetime \<times> remote_pull) list"

fun upsert_pulls ::
  "uuid \<Rightarrow> uuid \<Rightarrow> int \<Rightarrow> fetched_rows \<Rightarrow> ('a pull_tables_scheme, unit) txn" where
  "upsert_pulls wid rid generation [] = ret ()"
| "upsert_pulls wid rid generation ((fresh, now, p) # rows) =
     bind (upsert_pull fresh now wid rid generation p) (\<lambda>_. upsert_pulls wid rid generation rows)"

definition next_cursor_of :: "sync_run \<Rightarrow> nat \<Rightarrow> exn + string option" where
  "next_cursor_of r n =
     (if n = 30 \<and> sr_mode r \<noteq> SINGLE
      then (case cursor_page (sr_cursor r) of
              Inl e \<Rightarrow> Inl e
            | Inr pg \<Rightarrow> Inr (Some (int_text (pg + 1))))
      else Inr None)"

definition store_fetched ::
  "datetime \<Rightarrow> fetched_rows \<Rightarrow> string option \<Rightarrow> bool \<Rightarrow> sync_run \<Rightarrow>
   ('a pull_tables_scheme, sync_run) txn" where
  "store_fetched now rows etag not_modified r =
     bind (upsert_pulls (sr_workspace_id r) (sr_repository_id r) (sr_generation r) rows) (\<lambda>_.
     case (if not_modified then Inr (sr_next_cursor r) else next_cursor_of r (length rows)) of
       Inl e \<Rightarrow> raise e
     | Inr cursor \<Rightarrow>
         bind (if sr_actor r = SYSTEM
               then event_sync_success (sr_workspace_id r) (sr_repository_id r) (sr_generation r) now
               else (case sr_requested_by r of
                       None \<Rightarrow> raise AssertionError
                     | Some uid \<Rightarrow> repo_sync_success uid (sr_workspace_id r) (sr_repository_id r) now)) (\<lambda>_.
         ret (r\<lparr>sr_etag := etag, sr_fetched := int (length rows), sr_success_at := Some now,
                sr_next_cursor := cursor\<rparr>)))"

definition close_sync :: "datetime \<Rightarrow> job_state \<Rightarrow> string option \<Rightarrow> sync_run \<Rightarrow> sync_run" where
  "close_sync now state code r =
     r\<lparr>sr_status := (if state = READY then PENDING else if truthy code then FAILED else COMPLETED),
       sr_finished_at := (if state = READY then None else Some now),
       sr_error_code := code\<rparr>"

text \<open>The clock readings of one completion, in order.\<close>

record sync_clock =
  ck_fence :: datetime
  ck_success :: datetime
  ck_finish :: datetime
  ck_closed :: datetime

definition access_outcome ::
  "sync_run \<Rightarrow> exn + repository_snapshot \<Rightarrow> string option \<Rightarrow> bool \<Rightarrow> string option \<times> bool" where
  "access_outcome r access code retry =
     (case access of
        Inl e \<Rightarrow> (Some (app_code e), False)
      | Inr repo \<Rightarrow>
          if rs_generation repo \<noteq> sr_generation r then (Some ''CONNECTION_CHANGED'', False)
          else (code, retry))"

definition complete_sync ::
  "sync_clock \<Rightarrow> claim \<Rightarrow> fetched_rows \<Rightarrow> string option \<Rightarrow> bool \<Rightarrow> int \<Rightarrow> bool \<Rightarrow> string option \<Rightarrow> bool \<Rightarrow>
   ('a pull_tables_scheme, unit) txn" where
  "complete_sync ck c rows code0 retry0 delay expired etag not_modified =
     bind (sync_by_id (claim_aggregate_id c)) (\<lambda>found.
     case found of
       None \<Rightarrow> ret ()
     | Some r \<Rightarrow>
         bind (attempt_app (sync_access r)) (\<lambda>access.
         (let (code, retry) = access_outcome r access code0 retry0 in
          bind (get_sync (sr_workspace_id r) (sr_repository_id r) (sr_id r)) (\<lambda>again.
          case again of
            None \<Rightarrow> raise AssertionError
          | Some run \<Rightarrow>
              bind (fence (ck_fence ck) c expired) (\<lambda>fenced.
              case fenced of
                None \<Rightarrow> ret ()
              | Some job \<Rightarrow>
                  bind (if code = Some ''GITHUB_ACCESS_UNAVAILABLE''
                        then suspend_locked [sr_repository_id run] else ret ()) (\<lambda>_.
                  bind (if code = None then store_fetched (ck_success ck) rows etag not_modified run
                        else ret run) (\<lambda>run'.
                  bind (finish_job (ck_finish ck) code retry delay job) (\<lambda>job'.
                  save_row sync_runs_update sr_id (close_sync (ck_closed ck) (job_state job') code run')))))))))"

text \<open>
  \<open>execute\<close>: two transactions around the request, which runs outside any transaction and may time
  out; \<open>fetched\<close> is its result, \<open>meanwhile\<close> what other transactions do to the database before the
  second one, \<open>ck\<close> and \<open>ck'\<close> the clocks of the completion and of the one that records a failure.
  \<open>except GitHubFailure\<close>, \<open>except TimeoutError\<close> and \<open>except AppException\<close> cover all of it.
\<close>

type_synonym fetch_result = "exn + fetched_rows \<times> string option \<times> bool"

definition retried_codes :: "string list" where
  "retried_codes = [''GITHUB_UNAVAILABLE'', ''GITHUB_RATE_LIMIT'', ''GITHUB_SNAPSHOT_CONFLICT'']"

definition sync_delay :: "int option \<Rightarrow> int" where
  "sync_delay after = (case after of None \<Rightarrow> 5 | Some n \<Rightarrow> if n = 0 then 5 else n)"

fun sync_failure ::
  "sync_clock \<Rightarrow> claim \<Rightarrow> exn \<Rightarrow> 'a pull_tables_scheme \<Rightarrow> (exn + unit) \<times> 'a pull_tables_scheme" where
  "sync_failure ck c (GitHubFailure code after) s =
     transaction pull_schema
       (complete_sync ck c [] (Some code) (code \<in> set retried_codes) (sync_delay after) False None False) s"
| "sync_failure ck c TimeoutError s =
     transaction pull_schema (complete_sync ck c [] (Some ''GITHUB_TIMEOUT'') True 5 False None False) s"
| "sync_failure ck c (AppException code kind) s =
     transaction pull_schema (complete_sync ck c [] (Some code) False 5 False None False) s"
| "sync_failure ck c e s = (Inl e, s)"

definition execute_sync ::
  "datetime \<Rightarrow> datetime \<Rightarrow> sync_clock \<Rightarrow> sync_clock \<Rightarrow> (sync_task \<Rightarrow> fetch_result) \<Rightarrow>
   ('a pull_tables_scheme \<Rightarrow> 'a pull_tables_scheme) \<Rightarrow> claim \<Rightarrow> bool \<Rightarrow>
   'a pull_tables_scheme \<Rightarrow> (exn + unit) \<times> 'a pull_tables_scheme" where
  "execute_sync now now' ck ck' fetched meanwhile c expired s =
     (if expired
      then transaction pull_schema
             (complete_sync ck c [] (Some ''LEASE_EXPIRED'') True 5 True None False) s
      else
        (case transaction pull_schema (begin_sync now now' c) s of
           (Inl e, s1) \<Rightarrow> sync_failure ck' c e s1
         | (Inr None, s1) \<Rightarrow> (Inr (), s1)
         | (Inr (Some task), s1) \<Rightarrow>
             (case fetched task of
                Inl e \<Rightarrow> sync_failure ck' c e (meanwhile s1)
              | Inr (rows, etag, not_modified) \<Rightarrow>
                  (case transaction pull_schema
                          (complete_sync ck c rows None False 5 False etag not_modified) (meanwhile s1) of
                     (Inl e, s2) \<Rightarrow> sync_failure ck' c e s2
                   | done_sync \<Rightarrow> done_sync))))"

subsection \<open>Reading\<close>

record sync_view =
  sv_id :: uuid
  sv_status :: run_status
  sv_fetched :: int
  sv_next_cursor :: "string option"
  sv_error_code :: "string option"
  sv_success_at :: "datetime option"

definition sync_view_of :: "sync_run \<Rightarrow> sync_view" where
  "sync_view_of r =
     \<lparr>sv_id = sr_id r, sv_status = sr_status r, sv_fetched = sr_fetched r,
      sv_next_cursor = sr_next_cursor r, sv_error_code = sr_error_code r,
      sv_success_at = sr_success_at r\<rparr>"

record pull_view =
  pv_id :: uuid
  pv_repository_id :: uuid
  pv_number :: int
  pv_title :: string
  pv_author_login :: "string option"
  pv_state :: pull_state
  pv_merge_status :: merge_status
  pv_is_draft :: bool
  pv_base_sha :: "string option"
  pv_head_sha :: "string option"
  pv_github_updated_at :: datetime
  pv_synced_at :: datetime

definition pull_view_of :: "pull_request \<Rightarrow> pull_view" where
  "pull_view_of p =
     \<lparr>pv_id = pr_id p, pv_repository_id = pr_repository_id p, pv_number = pr_number p,
      pv_title = pr_title p, pv_author_login = pr_author_login p, pv_state = pr_state p,
      pv_merge_status = pr_merge_status p, pv_is_draft = pr_is_draft p, pv_base_sha = pr_base_sha p,
      pv_head_sha = pr_head_sha p, pv_github_updated_at = pr_github_updated_at p,
      pv_synced_at = pr_synced_at p\<rparr>"

definition not_found :: exn where
  "not_found = AppException ''NOT_FOUND'' NOT_FOUND"

definition sync_status ::
  "uuid \<Rightarrow> uuid \<Rightarrow> uuid \<Rightarrow> uuid \<Rightarrow> ('a pull_tables_scheme, sync_view) txn" where
  "sync_status uid wid rid sid =
     bind (repo_require uid wid rid ''read'' False) (\<lambda>_.
     bind (get_sync wid rid sid) (\<lambda>found.
     case found of None \<Rightarrow> raise not_found | Some r \<Rightarrow> ret (sync_view_of r)))"

definition sync_latest ::
  "uuid \<Rightarrow> uuid \<Rightarrow> uuid \<Rightarrow> ('a pull_tables_scheme, sync_view option) txn" where
  "sync_latest uid wid rid =
     bind (repo_require uid wid rid ''read'' True) (\<lambda>repo.
     bind (latest_sync wid rid (rs_generation repo)) (\<lambda>found. ret (map_option sync_view_of found)))"

definition list_pulls ::
  "uuid \<Rightarrow> uuid \<Rightarrow> uuid \<Rightarrow> uuid option \<Rightarrow> ('a pull_tables_scheme, pull_view list) txn" where
  "list_pulls uid wid rid cursor =
     bind (repo_require uid wid rid ''read'' True) (\<lambda>_.
     bind (pull_page wid rid cursor) (\<lambda>rows. ret (map pull_view_of rows)))"

definition pull_detail :: "uuid \<Rightarrow> uuid \<Rightarrow> uuid \<Rightarrow> ('a pull_tables_scheme, pull_view) txn" where
  "pull_detail uid wid pid =
     bind (require_permission uid wid ''read'') (\<lambda>_.
     bind (get_pull wid pid) (\<lambda>found.
     case found of
       None \<Rightarrow> raise not_found
     | Some p \<Rightarrow>
         bind (repo_require uid wid (pr_repository_id p) ''read'' True) (\<lambda>_. ret (pull_view_of p))))"

definition analysis_snapshot :: "uuid \<Rightarrow> uuid \<Rightarrow> uuid \<Rightarrow> ('a pull_tables_scheme, pull_view) txn" where
  "analysis_snapshot uid wid pid =
     bind (require_permission uid wid ''sync'') (\<lambda>_.
     bind (get_pull wid pid) (\<lambda>found.
     case found of
       None \<Rightarrow> raise not_found
     | Some p \<Rightarrow>
         bind (repo_require uid wid (pr_repository_id p) ''sync'' True) (\<lambda>_. ret (pull_view_of p))))"

definition request_sync ::
  "(string \<Rightarrow> string) \<Rightarrow> datetime \<Rightarrow> uuid \<Rightarrow> uuid \<Rightarrow> uuid \<Rightarrow> uuid \<Rightarrow> uuid \<Rightarrow> ('a pull_tables_scheme, uuid) txn" where
  "request_sync sha db_now sid jid uid wid rid =
     bind (enqueue_sync sha db_now sid jid uid wid rid 1 None) (\<lambda>r. ret (sr_id r))"

end
