(* ===== verification/Run_Tracking.thy ===== *)
theory Run_Tracking
  imports Job_Queue
begin

section \<open>Runs and the jobs that carry them\<close>

text \<open>
  A synchronisation, analysis or review run has one job of the queue, and the two rows move
  together: the run is open while its job can still be claimed, and closes as its job does. The
  phase of a run or job forgets everything else; \<open>tracked\<close> says that the table of runs and the
  table of jobs agree. The locale \<open>tracked_runs\<close> states what the operations of a component
  have to show about each write.
\<close>

datatype phase = Open | Done | Broken | Stopped

fun job_phase :: "job_state \<Rightarrow> phase" where
  "job_phase READY = Open"
| "job_phase LEASED = Open"
| "job_phase SUCCEEDED = Done"
| "job_phase DEAD = Broken"
| "job_phase CANCELED = Stopped"

definition carries :: "job_kind \<Rightarrow> uuid \<Rightarrow> job \<Rightarrow> bool" where
  "carries kind rid j \<longleftrightarrow> job_kind j = kind \<and> job_aggregate_id j = rid"

definition tracked :: "job_kind \<Rightarrow> ('r \<Rightarrow> uuid) \<Rightarrow> ('r \<Rightarrow> phase) \<Rightarrow> 'r list \<Rightarrow> job list \<Rightarrow> bool" where
  "tracked kind key phase rs js \<longleftrightarrow>
     (\<forall>r \<in> set rs. \<exists>j \<in> set js. carries kind (key r) j \<and> job_phase (job_state j) = phase r)"

text \<open>The claim was issued for a job of this table.\<close>

definition issued :: "job_kind \<Rightarrow> claim \<Rightarrow> job list \<Rightarrow> bool" where
  "issued kind c js \<longleftrightarrow> (\<exists>j \<in> set js. job_id j = claim_id c \<and> carries kind (claim_aggregate_id c) j)"

lemma issued_claim: "j \<in> set js \<Longrightarrow> job_kind j = kind \<Longrightarrow> issued kind (claim_of j worker) js"
  by (auto simp: issued_def carries_def claim_of_def)

lemma carrier_unique:
  assumes "jobs_ok js" and "j \<in> set js" and "k \<in> set js" and "carries kind rid j" and "carries kind rid k"
  shows "k = j"
proof -
  have "distinct (map (\<lambda>j. (job_kind j, job_aggregate_id j)) js)" using assms(1) by (simp add: jobs_ok_def)
  from distinct_key_unique [OF this assms(3,2)] assms(4,5) show ?thesis by (simp add: carries_def)
qed

lemma issued_job:
  "jobs_ok js \<Longrightarrow> issued kind c js \<Longrightarrow> j \<in> set js \<Longrightarrow> job_id j = claim_id c \<Longrightarrow> carries kind (claim_aggregate_id c) j"
  unfolding issued_def jobs_ok_def by (metis distinct_key_unique)

text \<open>The jobs of one kind: a component of another kind leaves them alone.\<close>

definition jobs_of :: "job_kind \<Rightarrow> job list \<Rightarrow> job list" where
  "jobs_of kind js = filter (\<lambda>j. job_kind j = kind) js"

lemma jobs_of_add: "\<forall>j \<in> set (jobs_of kind js). \<exists>j' \<in> set (jobs_of kind (js @ [k])). row_evolves j j'"
  unfolding jobs_of_def by (auto intro: row_evolves_refl)

lemma jobs_of_put:
  assumes "jobs_inv s" and "j \<in> set (jobs s)" and "row_evolves j j'" and "job_kind j' = job_kind j"
  shows "\<forall>i \<in> set (jobs_of kind (jobs s)). \<exists>i' \<in> set (jobs_of kind (put_row job_id j' (jobs s))). row_evolves i i'"
proof
  fix i assume i: "i \<in> set (jobs_of kind (jobs s))"
  have id: "job_id j' = job_id j" using assms(3) by (simp add: row_evolves_def)
  show "\<exists>i' \<in> set (jobs_of kind (put_row job_id j' (jobs s))). row_evolves i i'"
  proof (cases "job_id i = job_id j")
    case True
    then have "i = j" using i assms(2) jobs_inv_ids [OF assms(1)]
      by (auto simp: jobs_of_def dest: distinct_key_unique)
    moreover have "j' \<in> set (put_row job_id j' (jobs s))" using assms(2) id by (intro put_row_mem) auto
    ultimately show ?thesis using i assms(3,4) by (auto simp: jobs_of_def)
  next
    case False
    with i id show ?thesis
      by (intro bexI [of _ i]) (auto simp: jobs_of_def intro: put_row_other)
  qed
qed

text \<open>A job of the kind stays in the table, under its identity and for its run.\<close>

definition job_persists :: "job_kind \<Rightarrow> job list \<Rightarrow> job list \<Rightarrow> bool" where
  "job_persists kind js js' \<longleftrightarrow>
     (\<forall>j \<in> set (jobs_of kind js). \<exists>j' \<in> set js'. job_id j' = job_id j \<and> job_kind j' = job_kind j \<and>
        job_aggregate_id j' = job_aggregate_id j)"

lemma persists_issued: "job_persists kind js js' \<Longrightarrow> issued kind c js \<Longrightarrow> issued kind c js'"
  unfolding job_persists_def issued_def carries_def jobs_of_def
  by (elim bexE conjE, drule bspec, simp) metis

lemma persists_same: "jobs_of kind js' = jobs_of kind js \<Longrightarrow> job_persists kind js js'"
proof -
  assume same: "jobs_of kind js' = jobs_of kind js"
  have "j \<in> set js'" if "j \<in> set (jobs_of kind js)" for j
    using that unfolding same [symmetric] by (simp add: jobs_of_def)
  then show ?thesis unfolding job_persists_def by metis
qed

lemma persists_refl [simp]: "job_persists kind js js"
  by (simp add: persists_same)

lemma persists_add [simp]: "job_persists kind js (js @ [j])"
  by (force simp: job_persists_def jobs_of_def)

lemma persists_put:
  assumes "distinct (map job_id js)" and "j \<in> set js" and "job_id j' = job_id j" and "job_kind j' = job_kind j"
    and "job_aggregate_id j' = job_aggregate_id j"
  shows "job_persists kind js (put_row job_id j' js)"
  unfolding job_persists_def
proof
  fix x assume "x \<in> set (jobs_of kind js)"
  then have x: "x \<in> set js" by (simp add: jobs_of_def)
  show "\<exists>y \<in> set (put_row job_id j' js). job_id y = job_id x \<and> job_kind y = job_kind x \<and> job_aggregate_id y = job_aggregate_id x"
  proof (cases "job_id x = job_id j")
    case True
    then have "x = j" using distinct_key_unique [OF assms(1) x assms(2)] by simp
    moreover have "j' \<in> set (put_row job_id j' js)" using assms(2,3) by (intro put_row_mem) auto
    ultimately show ?thesis using assms(3-5) by metis
  next
    case False
    then show ?thesis using x assms(3) by (intro bexI [of _ x]) (auto intro: put_row_other)
  qed
qed

lemma jobs_inv_add:
  assumes "jobs_inv s" and "jobs_schema s'" and "jobs s' = jobs s @ [new_job sha now jid kind aggregate wid]"
  shows "jobs_inv s'"
proof -
  have "job_row_ok (new_job sha now jid kind aggregate wid)"
    using assms(2,3) by (simp add: jobs_schema_def jobs_ok_def)
  then have "job_inv (new_job sha now jid kind aggregate wid)"
    by (intro job_inv_new) (auto simp: job_row_ok_def new_job_def)
  with assms show ?thesis by (simp add: jobs_inv_def)
qed

lemma jobs_inv_cong: "jobs s' = jobs s \<Longrightarrow> jobs_inv s' = jobs_inv s"
  by (simp add: jobs_inv_def jobs_schema_def)

locale tracked_runs =
  fixes kind :: job_kind and key :: "'r \<Rightarrow> uuid" and phase :: "'r \<Rightarrow> phase"
    and runs_ok :: "'r list \<Rightarrow> bool"
  assumes keys: "runs_ok rs \<Longrightarrow> distinct (map key rs)"
begin

lemma tracked_empty: "tracked kind key phase [] js"
  by (simp add: tracked_def)

text \<open>A run is requested together with its job.\<close>

lemma tracked_request:
  "tracked kind key phase rs js \<Longrightarrow> carries kind (key r) j \<Longrightarrow> job_phase (job_state j) = phase r \<Longrightarrow>
   tracked kind key phase (rs @ [r]) (js @ [j])"
  by (auto simp: tracked_def)

lemma tracked_enqueue: "tracked kind key phase rs js \<Longrightarrow> tracked kind key phase rs (js @ [j])"
  by (auto simp: tracked_def)

text \<open>A write to a job that keeps its phase, or to a job of another kind.\<close>

lemma tracked_job:
  assumes "tracked kind key phase rs js" and "jobs_ok js" and "j \<in> set js" and "job_id j' = job_id j"
    and "job_kind j' = job_kind j" and "job_aggregate_id j' = job_aggregate_id j"
    and "job_kind j \<noteq> kind \<or> job_phase (job_state j') = job_phase (job_state j)"
  shows "tracked kind key phase rs (put_row job_id j' js)"
  unfolding tracked_def
proof
  fix r assume "r \<in> set rs"
  then obtain k where k: "k \<in> set js" "carries kind (key r) k" "job_phase (job_state k) = phase r"
    using assms(1) unfolding tracked_def by blast
  show "\<exists>j \<in> set (put_row job_id j' js). carries kind (key r) j \<and> job_phase (job_state j) = phase r"
  proof (cases "job_id k = job_id j'")
    case True
    then have "k = j" using assms(2-4) k(1) unfolding jobs_ok_def by (metis distinct_key_unique)
    moreover have "j' \<in> set (put_row job_id j' js)" using assms(3,4) by (intro put_row_mem) auto
    ultimately show ?thesis using k assms(5-7) by (intro bexI [of _ j']) (auto simp: carries_def)
  next
    case False
    then show ?thesis using k by (intro bexI [of _ k]) (auto intro: put_row_other)
  qed
qed

text \<open>A write to a run that keeps its phase.\<close>

lemma tracked_run:
  assumes "tracked kind key phase rs js" and "r \<in> set rs" and "key r' = key r" and "phase r' = phase r"
  shows "tracked kind key phase (put_row key r' rs) js"
  using assms unfolding tracked_def by (metis put_row_in)

text \<open>A run and its job change together.\<close>

lemma tracked_together:
  assumes "tracked kind key phase rs js" and ok: "jobs_ok js"
    and j: "j \<in> set js" "job_id j' = job_id j" "carries kind (key r') j"
    and j': "carries kind (key r') j'" "job_phase (job_state j') = phase r'"
  shows "tracked kind key phase (put_row key r' rs) (put_row job_id j' js)"
  unfolding tracked_def
proof
  fix r assume "r \<in> set (put_row key r' rs)"
  then consider "r = r'" | "r \<in> set rs" "key r \<noteq> key r'" using put_row_in by metis
  then show "\<exists>j \<in> set (put_row job_id j' js). carries kind (key r) j \<and> job_phase (job_state j) = phase r"
  proof cases
    case 1
    have "j' \<in> set (put_row job_id j' js)" using j by (intro put_row_mem) auto
    with 1 j' show ?thesis by blast
  next
    case 2
    then obtain k where k: "k \<in> set js" "carries kind (key r) k" "job_phase (job_state k) = phase r"
      using assms(1) unfolding tracked_def by blast
    have "job_id k \<noteq> job_id j'"
    proof
      assume "job_id k = job_id j'"
      then have "k = j" using ok j(1,2) k(1) unfolding jobs_ok_def by (metis distinct_key_unique)
      with k(2) j(3) 2(2) show False by (simp add: carries_def)
    qed
    with k show ?thesis by (intro bexI [of _ k]) (auto intro: put_row_other)
  qed
qed

lemma tracked_others:
  assumes "tracked kind key phase rs js" and "jobs_of kind js' = jobs_of kind js"
  shows "tracked kind key phase rs js'"
proof -
  have "j \<in> set js' \<longleftrightarrow> j \<in> set js" if "carries kind x j" for j x
    using arg_cong [OF assms(2), of set] that by (auto simp: jobs_of_def carries_def)
  with assms(1) show ?thesis unfolding tracked_def by blast
qed

text \<open>Claiming and prolonging a lease keep every phase.\<close>

lemma tracked_claim:
  assumes "claim_job locked now worker kinds s = Inr (x, s')" and "jobs_inv s"
    and "tracked kind key phase rs (jobs s)"
  shows "tracked kind key phase rs (jobs s')"
  using assms(1)
proof (cases rule: claim_job_Inr)
  case (2 j)
  then show ?thesis
    using assms(2,3) claimable_ready [OF 2(3)]
    by (auto simp: jobs_inv_def jobs_schema_def intro!: tracked_job)
qed (use assms in simp)

lemma tracked_heartbeat:
  assumes "heartbeat now now' c s = Inr (b, s')" and "jobs_inv s"
    and "tracked kind key phase rs (jobs s)"
  shows "tracked kind key phase rs (jobs s')"
  using assms(1)
proof (cases rule: heartbeat_Inr)
  case (2 j)
  then show ?thesis
    using assms(2,3) by (auto simp: jobs_inv_def jobs_schema_def intro!: tracked_job)
qed (use assms in simp)

text \<open>A job carries one run only.\<close>

lemma one_run_per_job:
  "runs_ok rs \<Longrightarrow> r \<in> set rs \<Longrightarrow> r' \<in> set rs \<Longrightarrow> carries kind (key r) j \<Longrightarrow> carries kind (key r') j \<Longrightarrow> r = r'"
  using keys by (metis carries_def distinct_key_unique)

text \<open>The one carrier of a run is in its phase.\<close>

lemma tracked_carrier:
  assumes "tracked kind key phase rs js" and "jobs_ok js" and "r \<in> set rs"
  shows "\<exists>!j. j \<in> set js \<and> carries kind (key r) j"
    and "j \<in> set js \<Longrightarrow> carries kind (key r) j \<Longrightarrow> job_phase (job_state j) = phase r"
  using assms carrier_unique [OF assms(2)] unfolding tracked_def by metis+

end

end
