(* ===== verification/Pull_Request_Results.thy ===== *)
theory Pull_Request_Results
  imports Pull_Requests Repository_Results Run_Tracking
begin

section \<open>Correctness of the synchronisation\<close>

subsection \<open>What the operations do\<close>

definition sync_authorized :: "sync_run \<Rightarrow> repository_snapshot \<Rightarrow> 'a pull_tables_scheme \<Rightarrow> bool" where
  "sync_authorized r x s \<longleftrightarrow>
     (\<exists>q \<in> set (repositories s). x = repo_snapshot q \<and> rc_workspace_id q = sr_workspace_id r \<and>
        rc_id q = sr_repository_id r \<and> rc_status q = R_ACTIVE) \<and>
     (sr_actor r = SYSTEM \<longrightarrow> rs_generation x = sr_generation r)"

lemma repo_require_reads:
  assumes "repo_require uid wid rid p active s = Inr (x, s')"
  shows "s' = s \<and> (\<exists>q. repo_authorized uid wid rid p active q s \<and> x = repo_snapshot q)"
  using assms unfolding repo_require_def by (auto simp: bind_Inr dest!: repo_access_reads)

lemma sync_access_reads:
  assumes "sync_access r s = Inr (x, s')"
  shows "s' = s \<and> sync_authorized r x s"
proof (cases "sr_actor r = SYSTEM")
  case True
  with assms have "event_require (sr_workspace_id r) (sr_repository_id r) (sr_generation r) s = Inr (x, s')"
    by (simp add: sync_access_def)
  from event_require_reads [OF this] show ?thesis
    by (auto simp: live_connection_def sync_authorized_def repo_snapshot_def)
next
  case False
  with assms show ?thesis
    by (auto simp: sync_access_def sync_authorized_def repo_authorized_def split: option.splits
        dest!: repo_require_reads)
qed

interpretation sync_guard: reader "sync_access r" "sync_authorized r"
  using sync_access_reads by unfold_locales

lemma attempt_access_reads: "attempt_app (sync_access r) s = Inr (x, s') \<Longrightarrow> s' = s"
  by (auto simp: attempt_app_Inr dest: sync_access_reads)

lemma enqueue_sync_Inr:
  assumes "enqueue_sync sha db_now sid jid uid wid rid pg number s = Inr (x, s')"
  obtains (joined) "s' = s" "x \<in> set (sync_runs s)" "sr_repository_id x = rid" "sync_open x"
      "sr_mode x = sync_mode_of pg number" "sr_cursor x = sync_cursor_of pg number" "sr_number x = number"
  | (fresh) q cached where "repo_authorized uid wid rid ''sync'' True q s"
      "\<forall>r \<in> set (sync_runs s). \<not> (sr_repository_id r = rid \<and> sync_open r)"
      "x = new_sync db_now sid wid rid (rc_generation q) (Some uid) (sync_mode_of pg number)
             (sync_cursor_of pg number) number cached"
      "s' = jobs_update (\<lambda>js. js @ [new_job sha db_now jid SYNC_PULL_REQUESTS sid (Some wid)])
             (sync_runs_update (\<lambda>rs. rs @ [x]) s)"
proof -
  from assms obtain repo s1 found s2 where "repo_require uid wid rid ''sync'' True s = Inr (repo, s1)"
    and f: "active_sync rid s1 = Inr (found, s2)"
    and rest: "(case found of
        Some r \<Rightarrow>
          if (sr_mode r, sr_cursor r, sr_number r, sr_generation r) \<noteq>
             (sync_mode_of pg number, sync_cursor_of pg number, number, rs_generation repo)
          then raise sync_in_progress
          else ret r
      | None \<Rightarrow>
          bind (cached_sync rid (sync_mode_of pg number) (sync_cursor_of pg number) number (rs_generation repo)) (\<lambda>cached.
          (let run = new_sync db_now sid wid rid (rs_generation repo) (Some uid) (sync_mode_of pg number) (sync_cursor_of pg number) number cached in
           bind (add_row sync_runs_update run) (\<lambda>_.
           bind (flush pull_schema) (\<lambda>_.
           bind (enqueue_job sha db_now jid SYNC_PULL_REQUESTS sid (Some wid)) (\<lambda>_.
           ret run)))))) s2 = Inr (x, s')"
    unfolding enqueue_sync_def Let_def bind_Inr [of "repo_require uid wid rid ''sync'' True"]
      bind_Inr [of "active_sync rid"] by blast
  then obtain q where q: "s1 = s" "repo_authorized uid wid rid ''sync'' True q s" "repo = repo_snapshot q"
    using repo_require_reads by blast
  from f show ?thesis unfolding active_sync_def q(1)
  proof (cases rule: select_one_Inr_cases)
    case None
    with rest q(3) obtain cached where
      "x = new_sync db_now sid wid rid (rc_generation q) (Some uid) (sync_mode_of pg number) (sync_cursor_of pg number) number cached"
      "s' = jobs_update (\<lambda>js. js @ [new_job sha db_now jid SYNC_PULL_REQUESTS sid (Some wid)])
             (sync_runs_update (\<lambda>rs. rs @ [x]) s)"
      by (auto simp: bind_Inr Let_def enqueue_job_def repo_snapshot_def cached_sync_def)
    with q None show ?thesis by (intro fresh) auto
  next
    case (Some r)
    with rest joined show ?thesis by (auto split: if_splits)
  qed
qed

lemma request_event_sync_Inr:
  assumes "request_event_sync sha db_now sid jid wid rid g number s = Inr (x, s')"
  obtains (busy) "s' = s" "x = None"
  | (fresh) "x = Some sid" "\<forall>r \<in> set (sync_runs s). \<not> (sr_repository_id r = rid \<and> sync_open r)"
      "s' = jobs_update (\<lambda>js. js @ [new_job sha db_now jid SYNC_PULL_REQUESTS sid (Some wid)])
             (sync_runs_update (\<lambda>rs. rs @ [new_sync db_now sid wid rid g None SINGLE None (Some number) None]) s)"
  using assms unfolding request_event_sync_def active_sync_def enqueue_job_def
  by (auto simp: bind_Inr select_one_None split: if_splits dest!: event_require_reads elim!: select_one_Inr_cases)

lemma sync_runs_unique:
  "pull_schema s \<Longrightarrow> r \<in> set (sync_runs s) \<Longrightarrow> q \<in> set (sync_runs s) \<Longrightarrow> sr_id r = sr_id q \<Longrightarrow> r = q"
  unfolding pull_schema_def sync_runs_ok_def by (metis distinct_key_unique)

text \<open>The row is read once to authorise and again under its lock: it is the same row.\<close>

lemma sync_read_again:
  assumes "pull_schema s" and "sync_by_id sid s = Inr (Some r, s1)"
  shows "s1 = s" and "r \<in> set (sync_runs s)" and "sr_id r = sid"
    and "get_sync (sr_workspace_id r) (sr_repository_id r) (sr_id r) s = Inr (Some r, s)"
proof -
  from assms(2) show row: "s1 = s" "r \<in> set (sync_runs s)" "sr_id r = sid"
    unfolding sync_by_id_def by (auto dest: select_one_Some)
  have "distinct (map sr_id (sync_runs s))" using assms(1) by (simp add: pull_schema_def sync_runs_ok_def)
  then show "get_sync (sr_workspace_id r) (sr_repository_id r) (sr_id r) s = Inr (Some r, s)"
    unfolding get_sync_def using row by (intro select_one_found [of sr_id]) auto
qed

lemma begin_sync_Inr:
  assumes "begin_sync now now' c s = Inr (x, s')" and "pull_schema s"
  obtains (idle) "s' = s" "x = None"
  | (started) r j repo pg where "r \<in> set (sync_runs s)" "sr_id r = claim_aggregate_id c"
      "sync_authorized r repo s" "rs_generation repo = sr_generation r"
      "j \<in> set (jobs s)" "job_id j = claim_id c" "holds_lease c j" "now < the (job_lease_until j)"
      "cursor_page (sr_cursor r) = Inr pg"
      "x = Some \<lparr>st_repo = repo, st_page = pg, st_number = sr_number r, st_etag = sr_etag r\<rparr>"
      "s' = sync_runs_update (put_row sr_id (r\<lparr>sr_status := RUNNING, sr_started_at := Some now'\<rparr>)) s"
proof -
  from assms(1) obtain found s1 where f: "sync_by_id (claim_aggregate_id c) s = Inr (found, s1)"
    unfolding begin_sync_def bind_Inr [of "sync_by_id _"] by blast
  show ?thesis
  proof (cases found)
    case None
    with f have "s1 = s" unfolding sync_by_id_def by (auto dest: select_one_state)
    with None f assms(1) have "s' = s \<and> x = None" by (auto simp: begin_sync_def bind_def ret_def)
    with idle show ?thesis by blast
  next
    case (Some r)
    note again = sync_read_again [OF assms(2) f [unfolded Some]]
    from assms(1) f again obtain repo job s3 where acc: "sync_authorized r repo s"
      and fenced: "fence now c False s = Inr (job, s3)"
      and rest: "(case job of
               None \<Rightarrow> ret None
             | Some _ \<Rightarrow>
                 if rs_generation repo \<noteq> sr_generation r then raise connection_changed
                 else
                   (case cursor_page (sr_cursor r) of
                      Inl e \<Rightarrow> raise e
                    | Inr pg \<Rightarrow>
                        bind (save_row sync_runs_update sr_id
                          (r\<lparr>sr_status := RUNNING, sr_started_at := Some now'\<rparr>)) (\<lambda>_.
                        ret (Some \<lparr>st_repo = repo, st_page = pg, st_number = sr_number r,
                                   st_etag = sr_etag r\<rparr>)))) s3 = Inr (x, s')"
      unfolding begin_sync_def Some by (auto simp: bind_Inr Some dest!: sync_access_reads)
    from fenced show ?thesis
    proof (cases rule: fence_Inr)
      case 1
      with rest idle show ?thesis by simp
    next
      case (2 j)
      with rest started again acc show ?thesis
        by (auto simp: bind_Inr not_le split: if_splits sum.splits)
    qed
  qed
qed

text \<open>Frames: the steps inside a completion that touch one table only.\<close>

lemma suspend_locked_frame:
  "suspend_locked rids s = Inr (u, s') \<Longrightarrow> \<exists>f. s' = repositories_update f s"
proof (induction rids arbitrary: s)
  case Nil
  then show ?case by (auto intro: exI [of _ id])
next
  case (Cons rid rids)
  from Cons.prems obtain f s1 where f: "event_by_id rid s = Inr (f, s1)"
    and rest: "(case f of None \<Rightarrow> suspend_locked rids | Some r \<Rightarrow>
         if rc_status r = R_ACTIVE then
           bind (save_row repositories_update rc_id (r\<lparr>rc_status := SUSPENDED\<rparr>)) (\<lambda>_. suspend_locked rids)
         else suspend_locked rids) s1 = Inr (u, s')"
    by (auto simp: bind_Inr)
  from f have "s1 = s" unfolding event_by_id_def by (rule select_one_state)
  with rest have "suspend_locked rids s = Inr (u, s') \<or>
      (\<exists>r. suspend_locked rids (repositories_update (put_row rc_id (r\<lparr>rc_status := SUSPENDED\<rparr>)) s) = Inr (u, s'))"
    by (auto simp: bind_Inr split: option.splits if_splits)
  then show ?case
  proof
    assume "\<exists>r. suspend_locked rids (repositories_update (put_row rc_id (r\<lparr>rc_status := SUSPENDED\<rparr>)) s) = Inr (u, s')"
    then obtain r g where "s' = repositories_update g (repositories_update (put_row rc_id (r\<lparr>rc_status := SUSPENDED\<rparr>)) s)"
      using Cons.IH by blast
    then show ?thesis by (intro exI [of _ "g \<circ> put_row rc_id (r\<lparr>rc_status := SUSPENDED\<rparr>)"]) simp
  qed (rule Cons.IH)
qed

lemma event_sync_success_frame:
  assumes "event_sync_success wid rid g at s = Inr (u, s')"
  shows "\<exists>f. s' = repositories_update f s"
proof -
  from assms obtain x s1 r s2 where "event_require wid rid g s = Inr (x, s1)"
    and "get_repository wid rid s1 = Inr (r, s2)"
    and rest: "(case r of None \<Rightarrow> raise AssertionError
      | Some r \<Rightarrow> save_row repositories_update rc_id (r\<lparr>rc_last_sync_at := Some at\<rparr>)) s2 = Inr (u, s')"
    unfolding event_sync_success_def bind_Inr by blast
  then have "s2 = s" using event_require_reads get_repository_reads by metis
  with rest show ?thesis by (cases r) auto
qed

lemma repo_sync_success_frame:
  "repo_sync_success uid wid rid at s = Inr (u, s') \<Longrightarrow> \<exists>f. s' = repositories_update f s"
  unfolding repo_sync_success_def by (auto simp: bind_Inr dest!: repo_access_reads)

lemma upsert_pull_Inr:
  assumes "upsert_pull fresh now wid rid g p s = Inr (u, s')"
  obtains (added) "\<forall>q \<in> set (pull_requests s). \<not> (pr_repository_id q = rid \<and> pr_number q = rp_number p)"
      "s' = pull_requests_update (\<lambda>ps. ps @ [pull_values fresh now wid rid g p]) s"
  | (older) q where "q \<in> set (pull_requests s)" "rp_updated_at p < pr_github_updated_at q" "s' = s"
  | (newer) q where "pull_schema s" "q \<in> set (pull_requests s)" "pr_repository_id q = rid" "pr_number q = rp_number p"
      "pr_github_updated_at q \<le> rp_updated_at p"
      "pr_github_updated_at q = rp_updated_at p \<longrightarrow> pr_head_sha q = snd (rp_head p) \<and> pr_base_sha q = snd (rp_base p)"
      "s' = pull_requests_update (put_row pr_id (pull_values (pr_id q) now wid rid g p)) s"
proof -
  from assms obtain found where ok: "pull_schema s"
    and f: "select_one pull_requests (\<lambda>q. pr_repository_id q = rid \<and> pr_number q = rp_number p) s = Inr (found, s)"
    and rest: "(case found of
       None \<Rightarrow> add_row pull_requests_update (pull_values fresh now wid rid g p)
     | Some q \<Rightarrow>
         if rp_updated_at p < pr_github_updated_at q then ret ()
         else if pr_github_updated_at q = rp_updated_at p \<and>
                 (pr_head_sha q \<noteq> snd (rp_head p) \<or> pr_base_sha q \<noteq> snd (rp_base p))
         then raise snapshot_conflict
         else save_row pull_requests_update pr_id (pull_values (pr_id q) now wid rid g p)) s = Inr (u, s')"
    unfolding upsert_pull_def by (auto simp: bind_Inr dest: select_one_state)
  from f show ?thesis
  proof (cases rule: select_one_Inr_cases)
    case None
    with rest added show ?thesis by simp
  next
    case (Some q)
    show ?thesis
    proof (cases "rp_updated_at p < pr_github_updated_at q")
      case True
      with rest Some older [of q] show ?thesis by simp
    next
      case False
      with rest Some have "\<not> (pr_github_updated_at q = rp_updated_at p \<and>
           (pr_head_sha q \<noteq> snd (rp_head p) \<or> pr_base_sha q \<noteq> snd (rp_base p)))"
        by (simp del: de_Morgan_conj split: if_splits)
      with rest Some ok False newer [of q] show ?thesis by (simp split: if_splits)
    qed
  qed
qed

text \<open>
  What a snapshot may become: a snapshot that GitHub dated later, or one of the same date with the
  same commits.
\<close>

definition pull_evolves :: "pull_request \<Rightarrow> pull_request \<Rightarrow> bool" where
  "pull_evolves p p' \<longleftrightarrow>
     pr_id p' = pr_id p \<and> pr_repository_id p' = pr_repository_id p \<and> pr_number p' = pr_number p \<and>
     pr_github_updated_at p \<le> pr_github_updated_at p' \<and>
     (pr_github_updated_at p' = pr_github_updated_at p \<longrightarrow>
        pr_head_sha p' = pr_head_sha p \<and> pr_base_sha p' = pr_base_sha p)"

lemma pull_evolves_refl [simp]: "pull_evolves p p"
  by (simp add: pull_evolves_def)

lemma pull_evolves_trans: "pull_evolves p q \<Longrightarrow> pull_evolves q r \<Longrightarrow> pull_evolves p r"
  by (auto simp: pull_evolves_def)

definition pulls_evolve :: "pull_request list \<Rightarrow> pull_request list \<Rightarrow> bool" where
  "pulls_evolve ps ps' \<longleftrightarrow> (\<forall>p \<in> set ps. \<exists>p' \<in> set ps'. pull_evolves p p')"

lemma pulls_evolve_refl [simp]: "pulls_evolve ps ps"
  by (auto simp: pulls_evolve_def intro: pull_evolves_refl)

lemma pulls_evolve_trans: "pulls_evolve a b \<Longrightarrow> pulls_evolve b c \<Longrightarrow> pulls_evolve a c"
  unfolding pulls_evolve_def by (meson pull_evolves_trans)

lemma pulls_evolve_put:
  assumes "distinct (map pr_id ps)" and "q \<in> set ps" and "pull_evolves q p"
  shows "pulls_evolve ps (put_row pr_id p ps)"
  unfolding pulls_evolve_def
proof
  fix x assume x: "x \<in> set ps"
  have id: "pr_id p = pr_id q" using assms(3) by (simp add: pull_evolves_def)
  show "\<exists>y \<in> set (put_row pr_id p ps). pull_evolves x y"
  proof (cases "pr_id x = pr_id q")
    case True
    then have "x = q" using assms(1,2) x by (metis distinct_key_unique)
    moreover have "p \<in> set (put_row pr_id p ps)" using assms(2) id by (intro put_row_mem) auto
    ultimately show ?thesis using assms(3) by blast
  next
    case False
    then show ?thesis using x id by (intro bexI [of _ x]) (auto intro: put_row_other)
  qed
qed

lemma upsert_pulls_frame:
  "upsert_pulls wid rid g rows s = Inr (u, s') \<Longrightarrow>
   pulls_evolve (pull_requests s) (pull_requests s') \<and> (\<exists>f. s' = pull_requests_update f s)"
proof (induction rows arbitrary: s)
  case Nil
  then show ?case by (auto intro: exI [of _ id])
next
  case (Cons row rows)
  obtain fresh now p where row: "row = (fresh, now, p)" by (cases row) auto
  from Cons.prems obtain v s1 where one: "upsert_pull fresh now wid rid g p s = Inr (v, s1)"
    and more: "upsert_pulls wid rid g rows s1 = Inr (u, s')"
    by (auto simp: bind_Inr row)
  from one have "pulls_evolve (pull_requests s) (pull_requests s1) \<and> (\<exists>f. s1 = pull_requests_update f s)"
  proof (cases rule: upsert_pull_Inr)
    case added
    then show ?thesis by (auto simp: pulls_evolve_def intro: pull_evolves_refl)
  next
    case (older q)
    then show ?thesis by (auto intro: exI [of _ id])
  next
    case (newer q)
    have "distinct (map pr_id (pull_requests s))"
      using newer(1) by (simp add: pull_schema_def pulls_ok_def)
    moreover have "pull_evolves q (pull_values (pr_id q) now wid rid g p)"
      using newer by (simp add: pull_evolves_def pull_values_def)
    ultimately show ?thesis using newer by (auto intro: pulls_evolve_put)
  qed
  with Cons.IH [OF more] show ?case
    by (auto intro: pulls_evolve_trans exI [of _ "_ \<circ> _"])
qed


lemma store_fetched_frame:
  assumes "store_fetched now rows etag nm r s = Inr (r', s')"
  obtains f g cursor where "s' = repositories_update f (pull_requests_update g s)"
    "pulls_evolve (pull_requests s) (pull_requests s')"
    "r' = r\<lparr>sr_etag := etag, sr_fetched := int (length rows), sr_success_at := Some now, sr_next_cursor := cursor\<rparr>"
    "(if nm then Inr (sr_next_cursor r) else next_cursor_of r (length rows)) = Inr cursor"
proof -
  from assms obtain v s1 cursor w where
    up: "upsert_pulls (sr_workspace_id r) (sr_repository_id r) (sr_generation r) rows s = Inr (v, s1)"
    and cursor: "(if nm then Inr (sr_next_cursor r) else next_cursor_of r (length rows)) = Inr cursor"
    and upd: "(if sr_actor r = SYSTEM
               then event_sync_success (sr_workspace_id r) (sr_repository_id r) (sr_generation r) now
               else (case sr_requested_by r of
                       None \<Rightarrow> raise AssertionError
                     | Some uid \<Rightarrow> repo_sync_success uid (sr_workspace_id r) (sr_repository_id r) now)) s1 = Inr (w, s')"
    and r': "r' = r\<lparr>sr_etag := etag, sr_fetched := int (length rows), sr_success_at := Some now, sr_next_cursor := cursor\<rparr>"
    unfolding store_fetched_def by (auto simp: bind_Inr split: sum.splits)
  from upd have "\<exists>f. s' = repositories_update f s1"
    by (auto split: if_splits option.splits dest: event_sync_success_frame repo_sync_success_frame)
  with upsert_pulls_frame [OF up] cursor r' that show ?thesis by force
qed

lemma complete_sync_Inr:
  assumes "complete_sync ck c rows code0 retry0 delay expired etag nm s = Inr (u, s')" and "pull_schema s"
  obtains (idle) "s' = s"
      "(\<forall>r \<in> set (sync_runs s). sr_id r \<noteq> claim_aggregate_id c) \<or> fence (ck_fence ck) c expired s = Inr (None, s)"
  | (closed) r j j' r' code retry f g where "r \<in> set (sync_runs s)" "sr_id r = claim_aggregate_id c"
      "j \<in> set (jobs s)" "job_id j = claim_id c" "holds_lease c j"
      "(the (job_lease_until j) \<le> ck_fence ck) = expired"
      "finish (ck_finish ck) code retry delay j = Inr j'" "sr_id r' = sr_id r"
      "s' = sync_runs_update (put_row sr_id (close_sync (ck_closed ck) (job_state j') code r'))
             (jobs_update (put_row job_id j') (repositories_update f (pull_requests_update g s)))"
      "pulls_evolve (pull_requests s) (pull_requests s')"
proof -
  from assms(1) obtain found s1 where f: "sync_by_id (claim_aggregate_id c) s = Inr (found, s1)"
    unfolding complete_sync_def bind_Inr [of "sync_by_id _"] by blast
  show ?thesis
  proof (cases found)
    case None
    with f have "s1 = s" "\<forall>r \<in> set (sync_runs s). sr_id r \<noteq> claim_aggregate_id c"
      unfolding sync_by_id_def by (auto simp: select_one_None)
    moreover from this None f assms(1) have "s' = s" by (auto simp: complete_sync_def bind_def ret_def)
    ultimately show ?thesis using idle by blast
  next
    case (Some r)
    note again = sync_read_again [OF assms(2) f [unfolded Some]]
    from assms(1) f again obtain access code retry job s3 where
      cr: "(code, retry) = access_outcome r access code0 retry0"
      and fenced: "fence (ck_fence ck) c expired s = Inr (job, s3)"
      and rest: "(case job of
                None \<Rightarrow> ret ()
              | Some job \<Rightarrow>
                  bind (if code = Some ''GITHUB_ACCESS_UNAVAILABLE''
                        then suspend_locked [sr_repository_id r] else ret ()) (\<lambda>_.
                  bind (if code = None then store_fetched (ck_success ck) rows etag nm r
                        else ret r) (\<lambda>run'.
                  bind (finish_job (ck_finish ck) code retry delay job) (\<lambda>job'.
                  save_row sync_runs_update sr_id (close_sync (ck_closed ck) (job_state job') code run'))))) s3 = Inr (u, s')"
      unfolding complete_sync_def Some Let_def
      by (auto simp: bind_Inr Some case_prod_beta prod_eq_iff dest!: attempt_access_reads)
    from fenced show ?thesis
    proof (cases rule: fence_Inr)
      case 1
      with rest fenced idle show ?thesis by simp
    next
      case (2 j)
      from rest 2(1,2) obtain v s4 r' s5 j' where
        sus: "(if code = Some ''GITHUB_ACCESS_UNAVAILABLE'' then suspend_locked [sr_repository_id r] else ret ()) s = Inr (v, s4)"
        and st: "(if code = None then store_fetched (ck_success ck) rows etag nm r else ret r) s4 = Inr (r', s5)"
        and fin: "finish (ck_finish ck) code retry delay j = Inr j'"
        and s': "s' = sync_runs_update (put_row sr_id (close_sync (ck_closed ck) (job_state j') code r'))
             (jobs_update (put_row job_id j') s5)"
        by (auto simp: bind_Inr finish_job_Inr simp del: suspend_locked.simps)
      have "\<exists>f. s4 = repositories_update f s"
        using sus suspend_locked_frame [of "[sr_repository_id r]" s v s4]
        by (auto split: if_splits simp del: suspend_locked.simps intro: exI [of _ id])
      then obtain f where s4: "s4 = repositories_update f s" ..
      have "\<exists>f g. s5 = repositories_update f (pull_requests_update g s) \<and> sr_id r' = sr_id r \<and>
          pulls_evolve (pull_requests s) (pull_requests s5)"
      proof (cases "code = None")
        case True
        with st have "store_fetched (ck_success ck) rows etag nm r s4 = Inr (r', s5)" by simp
        then show ?thesis
        proof (rule store_fetched_frame)
          fix h g cursor
          assume "s5 = repositories_update h (pull_requests_update g s4)"
            and "pulls_evolve (pull_requests s4) (pull_requests s5)"
            and "r' = r\<lparr>sr_etag := etag, sr_fetched := int (length rows), sr_success_at := Some (ck_success ck),
                  sr_next_cursor := cursor\<rparr>"
          with s4 show ?thesis by (intro exI [of _ "h \<circ> f"] exI [of _ g]) simp
        qed
      next
        case False
        with st s4 show ?thesis by (intro exI [of _ f] exI [of _ id]) simp
      qed
      then obtain f g where "s5 = repositories_update f (pull_requests_update g s)" "sr_id r' = sr_id r"
          "pulls_evolve (pull_requests s) (pull_requests s5)" by blast
      with closed [OF again(2,3) 2(3,4,5,6) fin] s' show ?thesis by simp
    qed
  qed
qed


subsection \<open>The synchronisation as a transition system\<close>

fun run_phase :: "run_status \<Rightarrow> phase" where
  "run_phase PENDING = Open"
| "run_phase RUNNING = Open"
| "run_phase COMPLETED = Done"
| "run_phase FAILED = Broken"
| "run_phase RUN_CANCELED = Stopped"

definition sync_phase :: "sync_run \<Rightarrow> phase" where
  "sync_phase r = run_phase (sr_status r)"

interpretation sync_tracking: tracked_runs SYNC_PULL_REQUESTS sr_id sync_phase sync_runs_ok
  by unfold_locales (simp add: sync_runs_ok_def)

definition pull_inv :: "'a pull_tables_scheme \<Rightarrow> bool" where
  "pull_inv s \<longleftrightarrow>
     pull_schema s \<and> jobs_inv s \<and> tracked SYNC_PULL_REQUESTS sr_id sync_phase (sync_runs s) (jobs s)"

text \<open>
  The transactions of the component, the queue operations on its jobs, and any transaction of
  another component (it writes neither runs nor snapshots nor the jobs of runs).
\<close>

inductive pull_step :: "'a pull_tables_scheme \<Rightarrow> 'a pull_tables_scheme \<Rightarrow> bool" where
  others: "sync_runs s' = sync_runs s \<Longrightarrow> pull_requests s' = pull_requests s \<Longrightarrow>
    jobs_of SYNC_PULL_REQUESTS (jobs s') = jobs_of SYNC_PULL_REQUESTS (jobs s) \<Longrightarrow> pull_schema s' \<Longrightarrow> jobs_inv s' \<Longrightarrow> pull_step s s'"
| claim: "transaction pull_schema (claim_job locked now worker kinds) s = (Inr x, s') \<Longrightarrow> pull_step s s'"
| heartbeat: "transaction pull_schema (heartbeat now now' c) s = (Inr b, s') \<Longrightarrow> pull_step s s'"
| request: "transaction pull_schema (enqueue_sync sha db_now sid jid uid wid rid pg number) s = (Inr r, s') \<Longrightarrow>
    pull_step s s'"
| event: "transaction pull_schema (request_event_sync sha db_now sid jid wid rid g n) s = (Inr i, s') \<Longrightarrow>
    pull_step s s'"
| start: "issued SYNC_PULL_REQUESTS c (jobs s) \<Longrightarrow>
    transaction pull_schema (begin_sync now now' c) s = (Inr t, s') \<Longrightarrow> pull_step s s'"
| complete: "issued SYNC_PULL_REQUESTS c (jobs s) \<Longrightarrow>
    transaction pull_schema (complete_sync ck c rows code retry delay expired etag nm) s = (Inr u, s') \<Longrightarrow>
    pull_step s s'"

lemma new_sync_phase: "sync_phase (new_sync db_now sid wid rid g uid mode cursor number cached) = Open"
  by (simp add: sync_phase_def new_sync_def)

lemma new_sync_id: "sr_id (new_sync db_now sid wid rid g uid mode cursor number cached) = sid"
  by (simp add: new_sync_def)

lemma pull_inv_requested:
  assumes "pull_inv s" and "pull_schema s'" and "sr_id r = sid" and "sync_phase r = Open"
    and "sync_runs s' = sync_runs s @ [r]"
    and "jobs s' = jobs s @ [new_job sha db_now jid SYNC_PULL_REQUESTS sid (Some wid)]"
  shows "pull_inv s'"
  using assms unfolding pull_inv_def
  by (auto intro: jobs_inv_add sync_tracking.tracked_request
      simp: pull_schema_def carries_def new_job_def)

text \<open>The run closes exactly as \<open>finish\<close> leaves its job.\<close>

lemma close_sync_phase:
  "finish now code retry delay j = Inr j' \<Longrightarrow>
   sync_phase (close_sync t (job_state j') code r) = job_phase (job_state j')"
  by (auto simp: sync_phase_def close_sync_def elim!: finish_Inr)

lemma close_sync_id [simp]: "sr_id (close_sync t st code r) = sr_id r"
  by (simp add: close_sync_def)

lemma pull_step_inv:
  assumes "pull_inv s" and "pull_step s s'"
  shows "pull_inv s'"
proof -
  have inv: "pull_schema s" "jobs_inv s" "tracked SYNC_PULL_REQUESTS sr_id sync_phase (sync_runs s) (jobs s)"
    using assms(1) by (simp_all add: pull_inv_def)
  then have ok: "jobs_ok (jobs s)" by (simp add: pull_schema_def jobs_schema_def)
  from assms(2) show ?thesis
  proof (cases rule: pull_step.cases)
    case others
    with inv show ?thesis by (auto simp: pull_inv_def intro: sync_tracking.tracked_others)
  next
    case (claim locked now worker kinds x)
    then have op: "claim_job locked now worker kinds s = Inr (x, s')" and ok': "pull_schema s'"
      by (simp_all add: transaction_Inr_iff)
    then have "sync_runs s' = sync_runs s" by (auto elim!: claim_job_Inr)
    with op ok' inv show ?thesis
      using jobs_inv_claim [OF op inv(2)] sync_tracking.tracked_claim [OF op inv(2,3)]
      by (simp add: pull_inv_def)
  next
    case (heartbeat now now' c b)
    then have op: "Jobs.heartbeat now now' c s = Inr (b, s')" and ok': "pull_schema s'"
      by (simp_all add: transaction_Inr_iff)
    then have "sync_runs s' = sync_runs s" by (auto elim!: heartbeat_Inr)
    with op ok' inv show ?thesis
      using jobs_inv_heartbeat [OF op inv(2)] sync_tracking.tracked_heartbeat [OF op inv(2,3)]
      by (simp add: pull_inv_def)
  next
    case (request sha db_now sid jid uid wid rid pg number r)
    then have op: "enqueue_sync sha db_now sid jid uid wid rid pg number s = Inr (r, s')" and ok': "pull_schema s'"
      by (simp_all add: transaction_Inr_iff)
    from op show ?thesis
    proof (cases rule: enqueue_sync_Inr)
      case joined
      with assms(1) show ?thesis by simp
    next
      case (fresh q cached)
      then show ?thesis
        by (intro pull_inv_requested [OF assms(1) ok', of r]) (auto simp: new_sync_phase new_sync_id)
    qed
  next
    case (event sha db_now sid jid wid rid g n i)
    then have op: "request_event_sync sha db_now sid jid wid rid g n s = Inr (i, s')" and ok': "pull_schema s'"
      by (simp_all add: transaction_Inr_iff)
    from op show ?thesis
    proof (cases rule: request_event_sync_Inr)
      case busy
      with assms(1) show ?thesis by simp
    next
      case fresh
      then show ?thesis
        by (intro pull_inv_requested [OF assms(1) ok', OF new_sync_id new_sync_phase]) auto
    qed
  next
    case (start c now now' t)
    then have op: "begin_sync now now' c s = Inr (t, s')" and ok': "pull_schema s'"
      by (simp_all add: transaction_Inr_iff)
    from op inv(1) show ?thesis
    proof (cases rule: begin_sync_Inr)
      case idle
      with assms(1) show ?thesis by simp
    next
      case (started r j repo pg)
      have "carries SYNC_PULL_REQUESTS (sr_id r) j"
        using issued_job [OF ok start(1) started(5,6)] started(2) by simp
      then have "sync_phase r = Open"
        using sync_tracking.tracked_carrier(2) [OF inv(3) ok started(1,5)] holds_lease_leased [OF started(7)]
        by simp
      then have "tracked SYNC_PULL_REQUESTS sr_id sync_phase
          (put_row sr_id (r\<lparr>sr_status := RUNNING, sr_started_at := Some now'\<rparr>) (sync_runs s)) (jobs s)"
        by (intro sync_tracking.tracked_run [OF inv(3) started(1)]) (simp_all add: sync_phase_def)
      with ok' inv started show ?thesis
        by (simp add: pull_inv_def jobs_inv_def jobs_schema_def)
    qed
  next
    case (complete c ck rows code retry delay expired etag nm u)
    then have op: "complete_sync ck c rows code retry delay expired etag nm s = Inr (u, s')" and ok': "pull_schema s'"
      by (simp_all add: transaction_Inr_iff)
    from op inv(1) show ?thesis
    proof (cases rule: complete_sync_Inr)
      case idle
      with assms(1) show ?thesis by simp
    next
      case (closed r j j' r' code retry f g)
      have fin: "jobs_inv (jobs_update (put_row job_id j') s)"
        using jobs_inv_finish [OF inv(2) closed(3,7)] .
      have carrier: "carries SYNC_PULL_REQUESTS (sr_id r) j"
        using issued_job [OF ok complete(1) closed(3,4)] closed(2) by simp
      have "tracked SYNC_PULL_REQUESTS sr_id sync_phase
          (put_row sr_id (close_sync (ck_closed ck) (job_state j') code r') (sync_runs s))
          (put_row job_id j' (jobs s))"
        using closed carrier finish_keeps [OF closed(7)]
        by (intro sync_tracking.tracked_together [OF inv(3) ok])
          (auto simp: close_sync_phase carries_def) 
      with fin ok' closed show ?thesis
        by (auto simp: pull_inv_def jobs_inv_def jobs_schema_def)
    qed
  qed
qed


text \<open>Snapshots only move forward, and the job of a run evolves as in the queue.\<close>

definition sync_evolves :: "'a pull_tables_scheme \<Rightarrow> 'a pull_tables_scheme \<Rightarrow> bool" where
  "sync_evolves s s' \<longleftrightarrow>
     pulls_evolve (pull_requests s) (pull_requests s') \<and>
     (\<forall>j \<in> set (jobs_of SYNC_PULL_REQUESTS (jobs s)). \<exists>j' \<in> set (jobs_of SYNC_PULL_REQUESTS (jobs s')). row_evolves j j')"

lemma sync_evolves_refl: "sync_evolves s s"
  unfolding sync_evolves_def by (meson pulls_evolve_refl row_evolves_refl)

lemma sync_evolves_trans: "sync_evolves s t \<Longrightarrow> sync_evolves t u \<Longrightarrow> sync_evolves s u"
  unfolding sync_evolves_def by (meson pulls_evolve_trans row_evolves_trans)

lemma pull_step_evolves:
  assumes "pull_inv s" and "pull_step s s'"
  shows "sync_evolves s s'"
proof -
  have inv: "pull_schema s" "jobs_inv s" using assms(1) by (simp_all add: pull_inv_def)
  from assms(2) show ?thesis
  proof (cases rule: pull_step.cases)
    case others
    then show ?thesis unfolding sync_evolves_def by (metis pulls_evolve_refl row_evolves_refl)
  next
    case (claim locked now worker kinds x)
    then have "claim_job locked now worker kinds s = Inr (x, s')" by (simp add: transaction_Inr_iff)
    then show ?thesis
    proof (cases rule: claim_job_Inr)
      case (2 j)
      then have "row_evolves j (lease now worker j)" using claimable_ready by (blast intro: row_evolves_ops)
      with jobs_of_put [OF inv(2) 2(2) this] 2 show ?thesis by (simp add: sync_evolves_def)
    qed (simp add: sync_evolves_refl)
  next
    case (heartbeat now now' c b)
    then have "Jobs.heartbeat now now' c s = Inr (b, s')" by (simp add: transaction_Inr_iff)
    then show ?thesis
    proof (cases rule: heartbeat_Inr)
      case (2 j)
      with jobs_of_put [OF inv(2) 2(2) row_evolves_ops(2)] show ?thesis by (simp add: sync_evolves_def)
    qed (simp add: sync_evolves_refl)
  next
    case (request sha db_now sid jid uid wid rid pg number r)
    then have "enqueue_sync sha db_now sid jid uid wid rid pg number s = Inr (r, s')"
      by (simp add: transaction_Inr_iff)
    then show ?thesis
      by (cases rule: enqueue_sync_Inr) (simp_all add: sync_evolves_refl, simp add: sync_evolves_def jobs_of_add)
  next
    case (event sha db_now sid jid wid rid g n i)
    then have "request_event_sync sha db_now sid jid wid rid g n s = Inr (i, s')"
      by (simp add: transaction_Inr_iff)
    then show ?thesis
      by (cases rule: request_event_sync_Inr) (simp_all add: sync_evolves_refl, simp add: sync_evolves_def jobs_of_add)
  next
    case (start c now now' t)
    then have "begin_sync now now' c s = Inr (t, s')" by (simp add: transaction_Inr_iff)
    from this inv(1) show ?thesis
      by (cases rule: begin_sync_Inr)
        (use sync_evolves_refl [of s] in \<open>simp_all add: sync_evolves_def\<close>)
  next
    case (complete c ck rows code retry delay expired etag nm u)
    then have "complete_sync ck c rows code retry delay expired etag nm s = Inr (u, s')"
      by (simp add: transaction_Inr_iff)
    from this inv(1) show ?thesis
    proof (cases rule: complete_sync_Inr)
      case idle
      then show ?thesis by (simp add: sync_evolves_refl)
    next
      case (closed r j j' r' code retry f g)
      have "row_evolves j j'"
        using row_evolves_ops(3) closed holds_lease_leased by blast
      with jobs_of_put [OF inv(2) closed(3) this] finish_keeps [OF closed(7)] closed
      show ?thesis by (simp add: sync_evolves_def)
    qed
  qed
qed

interpretation sync: evolving_system pull_inv pull_step pull_inv sync_evolves
  by unfold_locales
    (auto intro: pull_step_inv pull_step_evolves sync_evolves_refl dest: sync_evolves_trans)

subsection \<open>A claim that lost its lease\<close>

definition lease_lost :: "claim \<Rightarrow> 'a job_tables_scheme \<Rightarrow> bool" where
  "lease_lost c s \<longleftrightarrow> (\<forall>j \<in> set (jobs s). job_id j = claim_id c \<longrightarrow> \<not> holds_lease c j)"

lemma complete_sync_lost:
  assumes "pull_schema s" and "lease_lost c s"
  shows "snd (transaction pull_schema (complete_sync ck c rows code retry delay expired etag nm) s) = s"
proof (cases "transaction pull_schema (complete_sync ck c rows code retry delay expired etag nm) s")
  case (Pair a s')
  show ?thesis
  proof (cases a)
    case (Inl e)
    with Pair show ?thesis by (auto dest: transaction_raises)
  next
    case (Inr u)
    with Pair have "complete_sync ck c rows code retry delay expired etag nm s = Inr (u, s')"
      by (simp add: transaction_Inr_iff)
    from this assms(1) have "s' = s"
      by (cases rule: complete_sync_Inr) (use assms(2) in \<open>auto simp: lease_lost_def\<close>)
    with Pair show ?thesis by simp
  qed
qed

lemma sync_failure_lost:
  "pull_schema s \<Longrightarrow> lease_lost c s \<Longrightarrow> snd (sync_failure ck c e s) = s"
  by (cases e) (simp_all add: complete_sync_lost)

lemma execute_sync_lost:
  assumes "pull_schema s" and "lease_lost c s"
  shows "snd (execute_sync now now' ck ck' fetched meanwhile c expired s) = s"
proof (cases expired)
  case True
  with assms show ?thesis by (simp add: execute_sync_def complete_sync_lost)
next
  case False
  obtain a s1 where b: "transaction pull_schema (begin_sync now now' c) s = (a, s1)" by fastforce
  show ?thesis
  proof (cases a)
    case (Inl e)
    with b have "s1 = s" by (auto dest: transaction_raises)
    with False b Inl assms show ?thesis by (simp add: execute_sync_def sync_failure_lost)
  next
    case (Inr t)
    with b have "begin_sync now now' c s = Inr (t, s1)" by (simp add: transaction_Inr_iff)
    from this assms(1) have "s1 = s \<and> t = None"
      by (cases rule: begin_sync_Inr) (use assms(2) in \<open>auto simp: lease_lost_def\<close>)
    with False b Inr show ?thesis by (simp add: execute_sync_def)
  qed
qed


text \<open>\<open>execute\<close> is a sequence of these steps, whatever GitHub answers.\<close>

lemma complete_sync_steps:
  assumes "issued SYNC_PULL_REQUESTS c (jobs s)"
  shows "pull_step\<^sup>*\<^sup>* s (snd (transaction pull_schema (complete_sync ck c rows code retry delay expired etag nm) s))"
proof (cases "transaction pull_schema (complete_sync ck c rows code retry delay expired etag nm) s")
  case (Pair a s')
  then show ?thesis
    using assms by (cases a) (auto dest: transaction_raises intro: pull_step.complete)
qed

lemma sync_failure_steps:
  "issued SYNC_PULL_REQUESTS c (jobs s) \<Longrightarrow> pull_step\<^sup>*\<^sup>* s (snd (sync_failure ck c e s))"
  by (cases e) (auto intro: complete_sync_steps)

lemma begin_sync_jobs:
  assumes "transaction pull_schema (begin_sync now now' c) s = (a, s1)" and "pull_schema s"
  shows "jobs s1 = jobs s"
proof (cases a)
  case (Inl e)
  with assms(1) show ?thesis by (auto dest: transaction_raises)
next
  case (Inr t)
  with assms(1) have "begin_sync now now' c s = Inr (t, s1)" by (simp add: transaction_Inr_iff)
  from this assms(2) show ?thesis by (cases rule: begin_sync_Inr) simp_all
qed

lemma execute_sync_steps:
  assumes "pull_schema s" and "issued SYNC_PULL_REQUESTS c (jobs s)"
    and "\<And>x. pull_step\<^sup>*\<^sup>* x (meanwhile x)"
    and "\<And>x. issued SYNC_PULL_REQUESTS c (jobs x) \<Longrightarrow> issued SYNC_PULL_REQUESTS c (jobs (meanwhile x))"
  shows "pull_step\<^sup>*\<^sup>* s (snd (execute_sync now now' ck ck' fetched meanwhile c expired s))"
proof (cases expired)
  case True
  with assms(2) show ?thesis by (simp add: execute_sync_def complete_sync_steps)
next
  case False
  obtain a s1 where b: "transaction pull_schema (begin_sync now now' c) s = (a, s1)" by fastforce
  have is1: "issued SYNC_PULL_REQUESTS c (jobs s1)" using begin_sync_jobs [OF b assms(1)] assms(2) by simp
  note is2 = assms(4) [OF is1]
  show ?thesis
  proof (cases a)
    case (Inl e)
    with b have "s1 = s" by (auto dest: transaction_raises)
    with False b Inl assms(2) show ?thesis by (simp add: execute_sync_def sync_failure_steps)
  next
    case (Inr t)
    have s1: "pull_step\<^sup>*\<^sup>* s s1" using pull_step.start [OF assms(2)] b Inr by blast
    show ?thesis
    proof (cases t)
      case None
      with False b Inr s1 show ?thesis by (simp add: execute_sync_def)
    next
      case (Some task)
      have m: "pull_step\<^sup>*\<^sup>* s (meanwhile s1)" using s1 assms(3) by (rule rtranclp_trans)
      show ?thesis
      proof (cases "fetched task")
        case (Inl e)
        with False b \<open>a = Inr t\<close> Some m sync_failure_steps [OF is2, of ck' e] show ?thesis
          by (simp add: execute_sync_def)
      next
        case (Inr f)
        obtain rows etag nm where f: "f = (rows, etag, nm)" by (cases f) auto
        let ?m = "transaction pull_schema (complete_sync ck c rows None False 5 False etag nm) (meanwhile s1)"
        have all: "snd (execute_sync now now' ck ck' fetched meanwhile c expired s) =
            (case ?m of (Inl e, s2) \<Rightarrow> snd (sync_failure ck' c e s2) | (Inr u, s2) \<Rightarrow> s2)"
          using False b \<open>a = Inr t\<close> Some Inr f
          by (auto simp: execute_sync_def split: prod.splits sum.splits)
        obtain a2 s2 where m2: "?m = (a2, s2)" by fastforce
        show ?thesis
        proof (cases a2)
          case (Inl e)
          with m2 have "s2 = meanwhile s1" by (auto dest: transaction_raises)
          with all m2 Inl m sync_failure_steps [OF is2, of ck' e] show ?thesis by simp
        next
          case (Inr u)
          have "pull_step\<^sup>*\<^sup>* (meanwhile s1) s2"
            using complete_sync_steps [OF is2, of ck rows None False 5 False etag nm] m2 by simp
          with all m2 Inr m show ?thesis by simp
        qed
      qed
    qed
  qed
qed

text \<open>An authorised request reaches the decision about the run.\<close>

lemma get_repository_found:
  "repository_schema s \<Longrightarrow> q \<in> set (repositories s) \<Longrightarrow> rc_workspace_id q = wid \<Longrightarrow> rc_id q = rid \<Longrightarrow>
   get_repository wid rid s = Inr (Some q, s)"
  unfolding get_repository_def repository_schema_def repositories_ok_def
  by (intro select_one_found [of rc_id]) auto

lemma repo_require_holds:
  assumes "repository_schema s" and "repo_authorized uid wid rid p active q s"
  shows "repo_require uid wid rid p active s = Inr (repo_snapshot q, s)"
proof -
  from assms obtain m where "authorized uid wid p m s" by (auto simp: repo_authorized_def)
  then have "require_permission uid wid p s = Inr (wm_role m, s)"
    using assms(1) by (intro require_permission_holds) (simp_all add: repository_schema_def)
  moreover have "get_repository wid rid s = Inr (Some q, s)"
    using assms by (intro get_repository_found) (simp_all add: repo_authorized_def)
  ultimately show ?thesis
    using assms(2) by (auto simp: repo_require_def repo_access_def repo_authorized_def bind_def ret_def)
qed

lemma active_sync_found:
  assumes "pull_schema s"
  shows "active_sync rid s = Inr (find (\<lambda>r. sr_repository_id r = rid \<and> sync_open r) (sync_runs s), s)"
proof (cases "find (\<lambda>r. sr_repository_id r = rid \<and> sync_open r) (sync_runs s)")
  case None
  then have "\<forall>r \<in> set (sync_runs s). \<not> (sr_repository_id r = rid \<and> sync_open r)"
    by (simp only: find_None_iff) blast
  then show ?thesis unfolding None active_sync_def by (simp only: select_one_None)
next
  case (Some r)
  then have r: "r \<in> set (sync_runs s)" "sr_repository_id r = rid" "sync_open r" using find_SomeD by fast+
  have ok: "distinct (map sr_repository_id (filter sync_open (sync_runs s)))"
    using assms by (simp add: pull_schema_def sync_runs_ok_def)
  have "filter (\<lambda>r. sr_repository_id r = rid \<and> sync_open r) (sync_runs s) =
      filter (\<lambda>x. sr_repository_id x = sr_repository_id r) (filter sync_open (sync_runs s))"
    using r(2) by (simp add: conj_commute)
  also have "\<dots> = [r]" using ok r by (intro filter_key_unique) auto
  finally show ?thesis
    unfolding Some by (simp add: active_sync_def select_one_def one_or_none_def ret_def)
qed

subsection \<open>Properties\<close>

text \<open>
  C10. No synchronisation gets stuck or lies about its job: in every state the component, the
  queue and the other components reach together, each run has exactly one job, the run is open
  precisely while that job can still be executed, COMPLETED precisely when the job succeeded and
  FAILED precisely when the job is dead.
\<close>

theorem sync_runs_match_jobs:
  assumes "pull_inv s" and "pull_step\<^sup>*\<^sup>* s t" and "r \<in> set (sync_runs t)"
  shows "\<exists>j. (\<forall>k \<in> set (jobs t). carries SYNC_PULL_REQUESTS (sr_id r) k = (k = j)) \<and> j \<in> set (jobs t) \<and>
    sync_open r = (job_state j = READY \<or> job_state j = LEASED) \<and>
    (sr_status r = COMPLETED) = (job_state j = SUCCEEDED) \<and>
    (sr_status r = FAILED) = (job_state j = DEAD)"
proof -
  have inv: "tracked SYNC_PULL_REQUESTS sr_id sync_phase (sync_runs t) (jobs t)" and ok: "jobs_ok (jobs t)"
    using sync.inv_steps [OF assms(2,1)] by (simp_all add: pull_inv_def pull_schema_def jobs_schema_def)
  obtain j where j: "j \<in> set (jobs t)" "carries SYNC_PULL_REQUESTS (sr_id r) j"
    using sync_tracking.tracked_carrier(1) [OF inv ok assms(3)] by blast
  have "job_phase (job_state j) = run_phase (sr_status r)"
    using sync_tracking.tracked_carrier(2) [OF inv ok assms(3) j] by (simp add: sync_phase_def)
  then have "sync_open r = (job_state j = READY \<or> job_state j = LEASED)"
    "(sr_status r = COMPLETED) = (job_state j = SUCCEEDED)" "(sr_status r = FAILED) = (job_state j = DEAD)"
    by (cases "job_state j"; cases "sr_status r"; simp add: sync_open_def)+
  moreover have "\<forall>k \<in> set (jobs t). carries SYNC_PULL_REQUESTS (sr_id r) k = (k = j)"
    using j carrier_unique [OF ok j(1) _ j(2)] by blast
  ultimately show ?thesis using j(1) by blast
qed

text \<open>
  C11. Stored snapshots never go back in time: whatever answers of GitHub arrive in whatever order,
  a stored pull request stays stored under its repository and number, its GitHub update time
  never decreases, and while that time is the same its base and head commits are the same.
\<close>

theorem snapshots_move_forward:
  assumes "pull_inv s" and "pull_step\<^sup>*\<^sup>* s t" and "p \<in> set (pull_requests s)"
  shows "\<exists>q \<in> set (pull_requests t). pr_id q = pr_id p \<and> pr_repository_id q = pr_repository_id p \<and>
    pr_number q = pr_number p \<and> pr_github_updated_at p \<le> pr_github_updated_at q \<and>
    (pr_github_updated_at q = pr_github_updated_at p \<longrightarrow>
       pr_head_sha q = pr_head_sha p \<and> pr_base_sha q = pr_base_sha p)"
  using sync.evolves_steps [OF assms(2,1)] assms(3)
  unfolding sync_evolves_def pulls_evolve_def pull_evolves_def by blast

text \<open>
  A completion is final: once the completion of a claim has gone through its fence and
  committed, no later execution with that claim, by a worker that lost its lease or a recovered
  one, with whatever answer of GitHub, changes anything.
\<close>

theorem completed_claim_is_spent:
  assumes "pull_inv s" and "issued SYNC_PULL_REQUESTS c (jobs s)"
    and "fence (ck_fence ck) c expired s = Inr (Some j, s)"
    and "r \<in> set (sync_runs s)" and "sr_id r = claim_aggregate_id c"
    and "transaction pull_schema (complete_sync ck c rows code retry delay expired etag nm) s = (Inr u, s1)"
    and "pull_step\<^sup>*\<^sup>* s1 t"
  shows "snd (execute_sync now now' ck1 ck2 fetched meanwhile c expired' t) = t"
proof (rule execute_sync_lost)
  have inv: "pull_schema s" "jobs_inv s" using assms(1) by (simp_all add: pull_inv_def)
  have inv1: "pull_inv s1" using assms(1) pull_step.complete [OF assms(2,6)] by (rule pull_step_inv)
  have inv_t: "pull_schema t" "jobs_inv t"
    using sync.inv_steps [OF assms(7) inv1] by (simp_all add: pull_inv_def)
  then show "pull_schema t" by simp
  from assms(6) have "complete_sync ck c rows code retry delay expired etag nm s = Inr (u, s1)"
    by (simp add: transaction_Inr_iff)
  from this inv(1) obtain k k' where k: "k \<in> set (jobs s)" "job_id k = claim_id c" "holds_lease c k"
      and fin: "\<exists>n code retry delay. finish n code retry delay k = Inr k'"
      and s1: "jobs s1 = put_row job_id k' (jobs s)"
  proof (cases rule: complete_sync_Inr)
    case idle
    with assms(3-5) show ?thesis by auto
  next
    case (closed r j j' r' code retry f g)
    have "jobs s1 = put_row job_id j' (jobs s)" using closed(9) by simp
    moreover have "\<exists>n code retry delay. finish n code retry delay j = Inr j'"
      using closed(7) by (intro exI)
    ultimately show ?thesis using that closed(3-5) by metis
  qed
  have kind: "job_kind k = SYNC_PULL_REQUESTS"
    using issued_job [OF _ assms(2) k(1,2)] inv(1) by (simp add: pull_schema_def jobs_schema_def carries_def)
  have k': "job_id k' = claim_id c" "job_kind k' = SYNC_PULL_REQUESTS" "job_state k' \<noteq> LEASED"
      "job_lease_generation k' = claim_generation c"
    using fin finish_keeps k kind by (auto simp: holds_lease_def)
  have "k' \<in> set (jobs s1)" unfolding s1 using k k' by (intro put_row_mem) auto
  then have "k' \<in> set (jobs_of SYNC_PULL_REQUESTS (jobs s1))" using k'(2) by (simp add: jobs_of_def)
  then obtain q where q: "q \<in> set (jobs t)" "row_evolves k' q"
    using sync.evolves_steps [OF assms(7) inv1] unfolding sync_evolves_def by (auto simp: jobs_of_def)
  show "lease_lost c t"
    unfolding lease_lost_def
  proof (intro ballI impI)
    fix x assume x: "x \<in> set (jobs t)" "job_id x = claim_id c"
    then have "x = q" using q k'(1) jobs_inv_ids [OF inv_t(2)]
      by (auto simp: row_evolves_def dest: distinct_key_unique)
    then show "\<not> holds_lease c x" using q(2) k' by (auto simp: row_evolves_def holds_lease_def)
  qed
qed


text \<open>
  A request for a synchronisation has one of three outcomes. While a run of the repository is
  open, the same request joins it and a different one is refused with SYNC_IN_PROGRESS, and
  nothing is written; otherwise exactly one pending run and its one ready job are added, for the
  connection as it is now, and no database constraint can refuse them.
\<close>

definition fresh_sync_keys :: "(string \<Rightarrow> string) \<Rightarrow> uuid \<Rightarrow> uuid \<Rightarrow> uuid \<Rightarrow> 'a pull_tables_scheme \<Rightarrow> bool" where
  "fresh_sync_keys sha sid jid wid s \<longleftrightarrow>
     (\<forall>r \<in> set (sync_runs s). sr_id r \<noteq> sid) \<and>
     (\<forall>j \<in> set (jobs s). job_id j \<noteq> jid \<and> job_aggregate_id j \<noteq> sid \<and>
        job_dedupe_key j \<noteq> sha (dedupe_text SYNC_PULL_REQUESTS sid (Some wid))) \<and>
     is_hex 64 (sha (dedupe_text SYNC_PULL_REQUESTS sid (Some wid)))"

lemma new_sync_schema:
  assumes "pull_schema s" and "fresh_sync_keys sha sid jid wid s" and "0 < g" and "1 \<le> pg" and "number \<noteq> Some 0"
    and "case number of None \<Rightarrow> True | Some n \<Rightarrow> 0 < n"
    and "\<forall>r \<in> set (sync_runs s). \<not> (sr_repository_id r = rid \<and> sync_open r)"
    and run_def: "run = new_sync db_now sid wid rid g (Some uid) (sync_mode_of pg number) (sync_cursor_of pg number) number cached"
  shows "pull_schema (sync_runs_update (\<lambda>rs. rs @ [run]) s)"
    and "pull_schema (jobs_update (\<lambda>js. js @ [new_job sha db_now jid SYNC_PULL_REQUESTS sid (Some wid)])
           (sync_runs_update (\<lambda>rs. rs @ [run]) s))"
proof -
  have run: "sr_id run = sid" "sr_repository_id run = rid" "sync_open run"
    by (simp_all add: run_def new_sync_def sync_open_def)
  have row: "sync_row_ok run"
    using assms(3-6)
    by (auto simp: run_def new_sync_def sync_row_ok_def sync_mode_ok_def sync_cursor_of_def sync_mode_of_def
        split: option.splits)
  have runs: "sync_runs_ok (sync_runs s @ [run])"
    using assms(1,2,7) row run by (auto simp: pull_schema_def sync_runs_ok_def fresh_sync_keys_def)
  have job: "job_row_ok (new_job sha db_now jid SYNC_PULL_REQUESTS sid (Some wid))"
    using assms(2) by (auto simp: job_row_ok_def new_job_def fresh_sync_keys_def)
  have jobs: "jobs_ok (jobs s @ [new_job sha db_now jid SYNC_PULL_REQUESTS sid (Some wid)])"
    using assms(1,2) job by (auto simp: pull_schema_def jobs_schema_def jobs_ok_def fresh_sync_keys_def new_job_def)
  show "pull_schema (sync_runs_update (\<lambda>rs. rs @ [run]) s)"
    and "pull_schema (jobs_update (\<lambda>js. js @ [new_job sha db_now jid SYNC_PULL_REQUESTS sid (Some wid)])
           (sync_runs_update (\<lambda>rs. rs @ [run]) s))"
    using assms(1) runs jobs
    by (simp_all add: pull_schema_def jobs_schema_def repository_schema_def workspace_schema_def)
qed

theorem sync_request_outcomes:
  assumes "pull_schema s" and "repo_authorized uid wid rid ''sync'' True q s"
    and "fresh_sync_keys sha sid jid wid s" and "1 \<le> pg" and "case number of None \<Rightarrow> True | Some n \<Rightarrow> 0 < n"
  shows "case find (\<lambda>r. sr_repository_id r = rid \<and> sync_open r) (sync_runs s) of
      Some r \<Rightarrow>
        transaction pull_schema (enqueue_sync sha db_now sid jid uid wid rid pg number) s =
          (if sr_mode r = sync_mode_of pg number \<and> sr_cursor r = sync_cursor_of pg number \<and>
              sr_number r = number \<and> sr_generation r = rc_generation q
           then Inr r else Inl sync_in_progress, s)
    | None \<Rightarrow> \<exists>r. fst (transaction pull_schema (enqueue_sync sha db_now sid jid uid wid rid pg number) s) = Inr r \<and>
        sr_id r = sid \<and> sr_status r = PENDING \<and> sr_repository_id r = rid \<and> sr_generation r = rc_generation q \<and>
        sr_number r = number \<and>
        snd (transaction pull_schema (enqueue_sync sha db_now sid jid uid wid rid pg number) s) =
          jobs_update (\<lambda>js. js @ [new_job sha db_now jid SYNC_PULL_REQUESTS sid (Some wid)])
            (sync_runs_update (\<lambda>rs. rs @ [r]) s)"
proof (cases "find (\<lambda>r. sr_repository_id r = rid \<and> sync_open r) (sync_runs s)")
  case (Some r)
  then show ?thesis
    using repo_require_holds [OF _ assms(2)] active_sync_found [OF assms(1), of rid] assms(1)
    by (auto simp: enqueue_sync_def transaction_def bind_def ret_def raise_def pull_schema_def repo_snapshot_def Let_def)
next
  case None
  have none: "\<forall>r \<in> set (sync_runs s). \<not> (sr_repository_id r = rid \<and> sync_open r)"
    using None by (simp only: find_None_iff) blast
  obtain cached where cached: "cached_sync rid (sync_mode_of pg number) (sync_cursor_of pg number) number (rc_generation q) s = Inr (cached, s)"
    by (auto simp: cached_sync_def)
  let ?run = "new_sync db_now sid wid rid (rc_generation q) (Some uid) (sync_mode_of pg number) (sync_cursor_of pg number) number cached"
  have g: "0 < rc_generation q"
    using assms(1,2) by (auto simp: repo_authorized_def pull_schema_def repository_schema_def
        repositories_ok_def repository_row_ok_def list_all_iff)
  have n: "number \<noteq> Some 0" using assms(5) by auto
  note schema = new_sync_schema [OF assms(1,3) g assms(4) n assms(5) none refl, of db_now uid cached]
  have "enqueue_sync sha db_now sid jid uid wid rid pg number s =
      Inr (?run, jobs_update (\<lambda>js. js @ [new_job sha db_now jid SYNC_PULL_REQUESTS sid (Some wid)])
            (sync_runs_update (\<lambda>rs. rs @ [?run]) s))"
    using repo_require_holds [OF _ assms(2)] active_sync_found [OF assms(1), of rid] assms(1) None cached schema
    by (simp add: enqueue_sync_def bind_def ret_def pull_schema_def repo_snapshot_def Let_def
        add_row_def modify_def flush_def enqueue_job_def)
  with schema(2) None show ?thesis by (simp add: transaction_def new_sync_def)
qed

subsection \<open>Concrete runs\<close>

definition sync_shop :: "sync_run list \<Rightarrow> job list \<Rightarrow> pull_request list \<Rightarrow> pull_tables" where
  "sync_shop rs js ps = \<lparr>jobs = js, users = [space_user 1, space_user 2, space_user 3], login_attempts = [],
     refresh_sessions = [],
     workspaces = [\<lparr>ws_id = 10, ws_name = ''w'', ws_status = ACTIVE, ws_created_by = 1\<rparr>],
     members = [new_member 0 20 10 1 OWNER], invitations = [], repositories = [shop_row],
     candidate_sets = [], rule_configs = [], pull_requests = ps, sync_runs = rs\<rparr>"

definition shop_run :: sync_run where
  "shop_run = new_sync 1 90 10 70 1 (Some 1) RECENT None None None"

definition shop_job :: job where
  "shop_job = new_job space_digest 1 91 SYNC_PULL_REQUESTS 90 (Some 10)"

lemmas sync_shop_defs = sync_shop_def shop_run_def shop_job_def shop_row_def new_repository_def shop_verified_def
  space_user_def new_member_def new_sync_def new_job_def

lemmas pull_ok_defs = pull_schema_def repository_schema_def repositories_ok_def repository_row_ok_def
  repo_live_def candidate_sets_ok_def rule_configs_ok_def jobs_schema_def jobs_ok_def job_row_ok_def
  pulls_ok_def pull_row_ok_def sync_runs_ok_def sync_row_ok_def sync_mode_ok_def sync_open_def sha_ok_def count_ok_def

lemma sync_shop_auth: "repo_authorized 1 10 70 ''sync'' True shop_row (sync_shop rs js ps)"
  by (auto simp: repo_authorized_def authorized_def sync_shop_defs intro: exI [of _ "new_member 0 20 10 1 OWNER"])

lemma sync_shop_empty: "pull_schema (sync_shop [] [] [])"
  by (simp add: pull_ok_defs sync_shop_defs space_ok_defs)

lemma sync_shop_start: "pull_inv (sync_shop [] [] [])"
  using sync_shop_empty by (simp add: pull_inv_def jobs_inv_def jobs_schema_def jobs_ok_def tracked_def sync_shop_def)

lemmas pull_eval = repo_require_def repo_access_def get_repository_def require_permission_def require_def
  lock_workspace_def get_active_def active_user_def find_member_def active_workspace_def transaction_def
  txn_eval row_ops repo_snapshot_def Let_def

lemma shop_request:
  "transaction pull_schema (enqueue_sync space_digest 1 90 91 1 10 70 1 None) (sync_shop [] [] []) =
   (Inr shop_run, sync_shop [shop_run] [shop_job] [])"
  by (simp add: enqueue_sync_def active_sync_def cached_sync_def newest_def sync_mode_of_def sync_cursor_of_def
      enqueue_job_def pull_eval pull_ok_defs space_ok_defs space_digest_def sync_shop_defs)

theorem sync_request_outcomes_witness:
  "\<exists>r. fst (transaction pull_schema (enqueue_sync space_digest 1 90 91 1 10 70 1 None) (sync_shop [] [] [])) = Inr r \<and>
     sr_id r = 90 \<and> sr_status r = PENDING"
  using sync_request_outcomes [OF sync_shop_empty sync_shop_auth, of space_digest 90 91 1 None 1]
  by (auto simp: fresh_sync_keys_def sync_shop_def space_digest_def hex_chars_def)

theorem sync_runs_match_jobs_witness:
  "job_state shop_job = READY \<and> sync_open shop_run"
proof -
  have "pull_step\<^sup>*\<^sup>* (sync_shop [] [] []) (sync_shop [shop_run] [shop_job] [])"
    using pull_step.request [OF shop_request] by (rule r_into_rtranclp)
  from sync_runs_match_jobs [OF sync_shop_start this, of shop_run] show ?thesis
    by (auto simp: sync_shop_defs sync_open_def)
qed

text \<open>The job is leased and its run is running; GitHub answers with a newer snapshot.\<close>

definition shop_old :: pull_request where
  "shop_old = \<lparr>pr_id = 60, pr_workspace_id = 10, pr_repository_id = 70, pr_github_id = 5, pr_number = 7, pr_title = [],
     pr_author_id = None, pr_author_login = None, pr_state = P_OPEN, pr_merge_status = UNKNOWN, pr_is_draft = False,
     pr_base_ref = None, pr_head_ref = None, pr_base_sha = None, pr_head_sha = None, pr_changed_files = None,
     pr_commits = None, pr_github_created_at = 1, pr_github_updated_at = 2, pr_closed_at = None, pr_merged_at = None,
     pr_synced_at = 2, pr_generation = 1\<rparr>"

definition shop_answer :: remote_pull where
  "shop_answer = \<lparr>rp_id = 5, rp_number = 7, rp_title = [], rp_user = None, rp_state = P_OPEN, rp_draft = False,
     rp_base = (None, None), rp_head = (None, None), rp_created_at = 1, rp_updated_at = 4, rp_zoned = True,
     rp_closed_at = None, rp_merged_at = None, rp_merged = None, rp_changed_files = None, rp_commits = None\<rparr>"

definition shop_leased :: job where
  "shop_leased = lease 2 ''w'' shop_job"

definition shop_running :: pull_tables where
  "shop_running = sync_shop [shop_run\<lparr>sr_status := RUNNING\<rparr>] [shop_leased] [shop_old]"

definition shop_clock :: sync_clock where
  "shop_clock = \<lparr>ck_fence = 5, ck_success = 5, ck_finish = 6, ck_closed = 6\<rparr>"

definition shop_closed :: sync_run where
  "shop_closed = shop_run\<lparr>sr_status := COMPLETED, sr_fetched := 1, sr_success_at := Some 5, sr_finished_at := Some 6\<rparr>"

definition shop_done :: job where
  "shop_done = (case finish 6 None False 5 shop_leased of Inl _ \<Rightarrow> shop_leased | Inr j \<Rightarrow> j)"

definition shop_completed :: pull_tables where
  "shop_completed = (sync_shop [shop_closed] [shop_done] [pull_values 60 5 10 70 1 shop_answer])
     \<lparr>repositories := [shop_row\<lparr>rc_last_sync_at := Some 5\<rparr>]\<rparr>"

lemmas shop_running_defs = shop_running_def shop_leased_def shop_old_def shop_answer_def shop_clock_def shop_closed_def
  shop_completed_def pull_values_def merge_of_def shop_done_def sync_shop_defs lease_def claim_of_def finish_def close_last_def

lemma shop_complete:
  "transaction pull_schema
     (complete_sync shop_clock (claim_of shop_leased ''w'') [(61, 5, shop_answer)] None False 5 False None False) shop_running =
   (Inr (), shop_completed)"
  by (simp add: complete_sync_def sync_by_id_def get_sync_def sync_access_def attempt_app_def access_outcome_def fence_def
      holds_lease_def store_fetched_def next_cursor_of_def upsert_pull_def repo_sync_success_def finish_job_def
      close_sync_def pull_eval pull_ok_defs space_ok_defs space_digest_def shop_running_defs)


lemma shop_leased_inv: "job_inv shop_leased"
  unfolding shop_leased_def shop_job_def
  by (intro job_inv_lease job_inv_new) (simp_all add: space_digest_def hex_chars_def new_job_def)

lemma shop_running_inv: "pull_inv shop_running"
proof -
  have "pull_schema shop_running"
    by (simp add: pull_ok_defs space_ok_defs space_digest_def shop_running_defs)
  then show ?thesis
    using shop_leased_inv
    by (simp add: pull_inv_def jobs_inv_def pull_schema_def tracked_def carries_def sync_phase_def
        shop_running_def sync_shop_def)
      (simp add: shop_running_defs)
qed

lemma shop_leased_facts: "job_id shop_leased = 91" "job_aggregate_id shop_leased = 90"
  "job_kind shop_leased = SYNC_PULL_REQUESTS" "job_state shop_leased = LEASED"
  "job_claimed_by shop_leased = Some ''w''" "job_lease_until shop_leased = Some 60000002"
  by (simp_all add: shop_leased_def lease_def shop_job_def new_job_def)

lemma shop_issued: "issued SYNC_PULL_REQUESTS (claim_of shop_leased ''w'') (jobs shop_running)"
  by (rule issued_claim) (simp_all add: shop_running_def sync_shop_def shop_leased_facts)

lemma shop_completes: "pull_step\<^sup>*\<^sup>* shop_running shop_completed"
  using pull_step.complete [OF shop_issued shop_complete] by (rule r_into_rtranclp)

theorem snapshots_move_forward_witness:
  "pr_github_updated_at (hd (pull_requests shop_running)) < pr_github_updated_at (hd (pull_requests shop_completed)) \<and>
   (\<exists>q \<in> set (pull_requests shop_completed). pr_id q = pr_id shop_old)"
  using snapshots_move_forward [OF shop_running_inv shop_completes, of shop_old]
  by (auto simp: shop_running_defs)

theorem completed_claim_is_spent_witness:
  "snd (execute_sync 7 7 shop_clock shop_clock (\<lambda>_. Inr ([(62, 8, shop_answer)], None, False)) (\<lambda>x. x)
     (claim_of shop_leased ''w'') False shop_completed) = shop_completed"
proof -
  have "fence (ck_fence shop_clock) (claim_of shop_leased ''w'') False shop_running = Inr (Some shop_leased, shop_running)"
    by (simp add: fence_def holds_lease_def claim_of_def shop_running_def sync_shop_def shop_leased_facts shop_clock_def
        txn_eval row_ops)
  from completed_claim_is_spent [OF shop_running_inv shop_issued this, of "shop_run\<lparr>sr_status := RUNNING\<rparr>", OF _ _ shop_complete rtranclp.rtrancl_refl]
  show ?thesis by (simp add: shop_running_def sync_shop_def shop_run_def new_sync_def claim_of_def shop_leased_facts)
qed

end
