(* ===== verification/Scanning.thy ===== *)
theory Scanning
  imports Json
begin

section \<open>Scanning text\<close>

text \<open>
  Character classes and the scanning operations of the analyzer: \<open>str.splitlines\<close>, counting line
  breaks before an offset, and the two secret patterns that \<open>re.finditer\<close> looks for, as explicit
  matchers. Characters are the code points below 256.
\<close>

subsection \<open>Character classes\<close>

definition char_code :: "char \<Rightarrow> nat" where
  "char_code c = of_char c"

definition is_digit :: "char \<Rightarrow> bool" where
  "is_digit c \<longleftrightarrow> 48 \<le> char_code c \<and> char_code c \<le> 57"

definition is_upper_ascii :: "char \<Rightarrow> bool" where
  "is_upper_ascii c \<longleftrightarrow> 65 \<le> char_code c \<and> char_code c \<le> 90"

definition is_lower_ascii :: "char \<Rightarrow> bool" where
  "is_lower_ascii c \<longleftrightarrow> 97 \<le> char_code c \<and> char_code c \<le> 122"

definition is_alnum_ascii :: "char \<Rightarrow> bool" where
  "is_alnum_ascii c \<longleftrightarrow> is_digit c \<or> is_upper_ascii c \<or> is_lower_ascii c"

text \<open>The class \<open>\w\<close> of a text pattern: the underscore and what \<open>str.isalnum\<close> accepts.\<close>

definition word_char :: "char \<Rightarrow> bool" where
  "word_char c \<longleftrightarrow> is_alnum_ascii c \<or> c = CHR ''_'' \<or>
     char_code c \<in> {170, 178, 179, 181, 185, 186, 188, 189, 190} \<or>
     (192 \<le> char_code c \<and> char_code c \<noteq> 215 \<and> char_code c \<noteq> 247)"

text \<open>The boundary \<open>\b\<close> between what was read last and what comes next.\<close>

definition word_edge :: "char option \<Rightarrow> string \<Rightarrow> bool" where
  "word_edge before rest \<longleftrightarrow>
     (case before of None \<Rightarrow> False | Some c \<Rightarrow> word_char c) \<noteq>
     (case rest of [] \<Rightarrow> False | c # _ \<Rightarrow> word_char c)"

subsection \<open>Lines\<close>

definition LF :: char where "LF = CHR 0x0A"

definition CR :: char where "CR = CHR 0x0D"

definition line_break :: "char \<Rightarrow> bool" where
  "line_break c \<longleftrightarrow> char_code c \<in> {10, 11, 12, 13, 28, 29, 30, 133}"

text \<open>\<open>s.splitlines()\<close>; a line feed right after a carriage return belongs to it.\<close>

fun lines_from :: "bool \<Rightarrow> string \<Rightarrow> string \<Rightarrow> string list" where
  "lines_from after_cr acc [] = (if acc = [] then [] else [rev acc])"
| "lines_from after_cr acc (c # cs) =
     (if after_cr \<and> c = LF then lines_from False acc cs
      else if line_break c then rev acc # lines_from (c = CR) [] cs
      else lines_from False (c # acc) cs)"

definition splitlines :: "string \<Rightarrow> string list" where
  "splitlines s = lines_from False [] s"

text \<open>\<open>content.count("\n", 0, pos) + 1\<close>\<close>

definition line_of :: "string \<Rightarrow> nat \<Rightarrow> nat" where
  "line_of content pos = length (filter (\<lambda>c. c = LF) (take pos content)) + 1"

lemma line_of_pos: "1 \<le> line_of content pos"
  by (simp add: line_of_def)

lemma line_of_mono: "a \<le> b \<Longrightarrow> line_of content a \<le> line_of content b"
proof -
  assume "a \<le> b"
  then have "take b content = take a content @ take (b - a) (drop a content)"
    by (metis le_add_diff_inverse take_add)
  then show ?thesis by (simp add: line_of_def)
qed

text \<open>Text written as lines, each ended by a line feed, is read back as those lines.\<close>

lemma lines_from_plain:
  "\<forall>c \<in> set l. \<not> line_break c \<Longrightarrow> lines_from b acc (l @ LF # s) =
   (if b \<and> l = [] then lines_from False acc s else (rev acc @ l) # lines_from False [] s)"
proof (induction l arbitrary: b acc)
  case Nil
  show ?case by (simp add: line_break_def LF_def CR_def char_code_def)
next
  case (Cons c l)
  have "c \<noteq> LF" using Cons.prems by (auto simp: line_break_def LF_def char_code_def)
  with Cons show ?case by simp
qed

lemma splitlines_lines:
  assumes "\<forall>l \<in> set ls. \<forall>c \<in> set l. \<not> line_break c"
  shows "splitlines (concat (map (\<lambda>l. l @ [LF]) ls)) = ls"
  using assms unfolding splitlines_def by (induction ls) (simp_all add: lines_from_plain)

subsection \<open>The patterns of secrets\<close>

definition key_kinds :: "string list" where
  "key_kinds = [''RSA '', ''EC '', ''DSA '', ''OPENSSH '', ''ENCRYPTED '', '''']"

definition key_mark :: "string \<Rightarrow> string \<Rightarrow> string" where
  "key_mark edge kind = ''-----'' @ edge @ '' '' @ kind @ ''PRIVATE KEY-----''"

definition mark_at :: "string \<Rightarrow> string \<Rightarrow> nat option" where
  "mark_at edge s =
     map_option (\<lambda>k. length (key_mark edge k)) (find (\<lambda>k. starts_with (key_mark edge k) s) key_kinds)"

text \<open>\<open>[\s\S]*?\<close> and the end marker: the offset behind the nearest one.\<close>

fun key_end :: "string \<Rightarrow> nat option" where
  "key_end [] = None"
| "key_end (c # cs) =
     (case mark_at ''END'' (c # cs) of
        Some n \<Rightarrow> Some n
      | None \<Rightarrow> map_option Suc (key_end cs))"

definition key_at :: "char option \<Rightarrow> string \<Rightarrow> nat option" where
  "key_at before s =
     (case mark_at ''BEGIN'' s of
        None \<Rightarrow> None
      | Some n \<Rightarrow> map_option (\<lambda>k. n + k) (key_end (drop n s)))"

definition run_of :: "(char \<Rightarrow> bool) \<Rightarrow> nat \<Rightarrow> string \<Rightarrow> bool" where
  "run_of P n s \<longleftrightarrow> n \<le> length s \<and> list_all P (take n s)"

text \<open>The three alternatives begin differently, so at most one can match; each has a fixed length.\<close>

definition token_body :: "string \<Rightarrow> nat option" where
  "token_body s =
     (if starts_with ''gh'' s \<and> 3 < length s \<and> s ! 2 \<in> set ''pousr'' \<and> s ! 3 = CHR ''_'' \<and>
         run_of is_alnum_ascii 36 (drop 4 s) then Some 40
      else if starts_with ''github_pat_'' s \<and>
         run_of (\<lambda>c. is_alnum_ascii c \<or> c = CHR ''_'') 82 (drop 11 s) then Some 93
      else if starts_with ''AKIA'' s \<and>
         run_of (\<lambda>c. is_upper_ascii c \<or> is_digit c) 16 (drop 4 s) then Some 20
      else None)"

definition token_at :: "char option \<Rightarrow> string \<Rightarrow> nat option" where
  "token_at before s =
     (case token_body s of
        None \<Rightarrow> None
      | Some n \<Rightarrow>
          if word_edge before s \<and> word_edge (Some (s ! (n - 1))) (drop n s) then Some n else None)"

text \<open>
  \<open>re.finditer\<close>: the leftmost matches from left to right, each search resuming behind the last
  match; \<open>pos\<close> is the offset of the rest in the whole text. A match is never empty here.
\<close>

function find_spans ::
  "(char option \<Rightarrow> string \<Rightarrow> nat option) \<Rightarrow> nat \<Rightarrow> char option \<Rightarrow> string \<Rightarrow> (nat \<times> nat) list" where
  "find_spans m pos before [] = []"
| "find_spans m pos before (c # cs) =
     (case m before (c # cs) of
        None \<Rightarrow> find_spans m (pos + 1) (Some c) cs
      | Some n \<Rightarrow>
          (let k = max 1 n in
           (pos, pos + k) #
           find_spans m (pos + k) (Some (last (take k (c # cs)))) (drop k (c # cs))))"
  by pat_completeness auto
termination by (relation "measure (\<lambda>(m, pos, before, s). length s)") auto

text \<open>Every span starts where the matcher accepts, and the spans follow each other.\<close>

lemma find_spans_ordered:
  "(a, b) \<in> set (find_spans m pos before s) \<Longrightarrow> pos \<le> a \<and> a < b"
proof (induction m pos before s rule: find_spans.induct)
  case (2 m pos before c cs)
  then show ?case by (fastforce simp: Let_def split: option.splits)
qed simp

end
