(* ===== verification/Analysis_Rules.thy ===== *)
theory Analysis_Rules
  imports Scanning Row_Store
begin

section \<open>Rules of the static analysis\<close>

text \<open>
  \<^verbatim>\<open>app/domain/analysis/contracts.py\<close>: the catalogue of rules with their classification (the
  public message of a rule is presentation text), the language of a path, the rules that apply to a
  language, and the record an evaluation returns.
\<close>

datatype language = JAVA | PYTHON | JAVASCRIPT | TYPESCRIPT

datatype category = ARCHITECTURE | SECURITY | RELIABILITY | MAINTAINABILITY | STYLE | PERFORMANCE

datatype severity = INFO | WARNING | ERROR | CRITICAL

datatype confidence = HIGH | MEDIUM | LOW

record rule =
  rule_id :: string
  rule_category :: category
  rule_severity :: severity
  rule_confidence :: confidence
  rule_version :: string

definition mk_rule :: "string \<Rightarrow> category \<Rightarrow> severity \<Rightarrow> confidence \<Rightarrow> rule" where
  "mk_rule i c s h =
     \<lparr>rule_id = i, rule_category = c, rule_severity = s, rule_confidence = h, rule_version = ''1.0.0''\<rparr>"

definition max_file :: nat where "max_file = 200 * 1024"
definition max_total :: nat where "max_total = 3 * 1024 * 1024"
definition max_files :: nat where "max_files = 100"

definition rules :: "rule list" where
  "rules =
     [mk_rule ''COM-001'' MAINTAINABILITY INFO HIGH,
      mk_rule ''COM-002'' MAINTAINABILITY WARNING HIGH,
      mk_rule ''COM-004'' MAINTAINABILITY WARNING HIGH,
      mk_rule ''COM-003'' MAINTAINABILITY WARNING HIGH,
      mk_rule ''PY-004'' SECURITY WARNING MEDIUM,
      mk_rule ''PY-005'' SECURITY WARNING MEDIUM,
      mk_rule ''PY-008'' RELIABILITY WARNING MEDIUM,
      mk_rule ''JS-005'' SECURITY WARNING MEDIUM,
      mk_rule ''JS-006'' SECURITY WARNING MEDIUM,
      mk_rule ''COM-009'' SECURITY CRITICAL MEDIUM,
      mk_rule ''COM-010'' SECURITY CRITICAL HIGH,
      mk_rule ''JAVA-004'' RELIABILITY WARNING HIGH,
      mk_rule ''JAVA-005'' STYLE INFO HIGH,
      mk_rule ''JAVA-006'' RELIABILITY WARNING HIGH,
      mk_rule ''JAVA-007'' RELIABILITY WARNING HIGH,
      mk_rule ''JAVA-008'' RELIABILITY WARNING MEDIUM,
      mk_rule ''PY-001'' RELIABILITY WARNING HIGH,
      mk_rule ''PY-002'' RELIABILITY WARNING HIGH,
      mk_rule ''PY-003'' RELIABILITY WARNING HIGH,
      mk_rule ''PY-006'' STYLE INFO HIGH,
      mk_rule ''JS-001'' STYLE INFO HIGH,
      mk_rule ''JS-002'' RELIABILITY WARNING HIGH,
      mk_rule ''JS-003'' RELIABILITY WARNING HIGH,
      mk_rule ''JS-004'' RELIABILITY WARNING HIGH,
      mk_rule ''TS-001'' MAINTAINABILITY WARNING HIGH,
      mk_rule ''TS-002'' MAINTAINABILITY WARNING HIGH,
      mk_rule ''TS-003'' MAINTAINABILITY WARNING HIGH,
      mk_rule ''TS-004'' RELIABILITY WARNING MEDIUM,
      mk_rule ''TS-005'' MAINTAINABILITY WARNING MEDIUM]"

definition find_rule :: "string \<Rightarrow> rule option" where
  "find_rule i = find (\<lambda>r. rule_id r = i) rules"

text \<open>A finding as the evaluation reports it: the rule and its lines, both counted from one.\<close>

record observation =
  ob_rule :: string
  ob_start :: int
  ob_end :: int

datatype file_status = INCLUDED | EXCLUDED | LIMIT_EXCEEDED | PARSE_ERROR | SOURCE_UNAVAILABLE

record evaluation =
  ev_language :: "language option"
  ev_status :: file_status
  ev_reason :: "string option"
  ev_findings :: "observation list"
  ev_evaluated :: "string list"
  ev_not_evaluated :: "string list"
  ev_limit :: bool

definition new_evaluation :: "language option \<Rightarrow> file_status \<Rightarrow> string option \<Rightarrow> evaluation" where
  "new_evaluation language status reason =
     \<lparr>ev_language = language, ev_status = status, ev_reason = reason, ev_findings = [],
      ev_evaluated = [], ev_not_evaluated = [], ev_limit = False\<rparr>"

text \<open>The constraints the models declare on an observation and on the list of findings.\<close>

definition observation_ok :: "observation \<Rightarrow> bool" where
  "observation_ok o' \<longleftrightarrow> 1 \<le> ob_start o' \<and> 1 \<le> ob_end o'"

definition evaluation_ok :: "evaluation \<Rightarrow> bool" where
  "evaluation_ok e \<longleftrightarrow> length (ev_findings e) \<le> 100 \<and> list_all observation_ok (ev_findings e)"

text \<open>\<open>path.rsplit(".", 1)[-1].lower()\<close> is what follows the last dot, or the whole path.\<close>

definition extension :: "string \<Rightarrow> string" where
  "extension path = lower (last (split_on (CHR ''.'') path))"

definition languages :: "(string \<times> language) list" where
  "languages =
     [(''java'', JAVA), (''py'', PYTHON),
      (''js'', JAVASCRIPT), (''jsx'', JAVASCRIPT), (''mjs'', JAVASCRIPT), (''cjs'', JAVASCRIPT),
      (''ts'', TYPESCRIPT), (''tsx'', TYPESCRIPT), (''mts'', TYPESCRIPT), (''cts'', TYPESCRIPT)]"

definition language_for :: "string \<Rightarrow> language option" where
  "language_for path = map_of languages (extension path)"

fun rule_prefixes :: "language \<Rightarrow> string list" where
  "rule_prefixes JAVA = [''JAVA-'']"
| "rule_prefixes PYTHON = [''PY-'']"
| "rule_prefixes JAVASCRIPT = [''JS-'']"
| "rule_prefixes TYPESCRIPT = [''JS-'', ''TS-'']"

definition applies :: "language option \<Rightarrow> string \<Rightarrow> bool" where
  "applies language r \<longleftrightarrow>
     r \<in> {''COM-009'', ''COM-010''} \<or>
     (case language of
        None \<Rightarrow> False
      | Some l \<Rightarrow> starts_with ''COM-'' r \<or> list_ex (\<lambda>p. starts_with p r) (rule_prefixes l))"

definition applicable :: "language option \<Rightarrow> string list" where
  "applicable language = filter (applies language) (map rule_id rules)"

text \<open>The rules of each language, written out.\<close>

definition secret_rules :: "string list" where
  "secret_rules = [''COM-009'', ''COM-010'']"

lemma applicable_None: "applicable None = secret_rules"
  by code_simp

lemma applicable_Some:
  "applicable (Some JAVA) =
     [''COM-001'', ''COM-002'', ''COM-004'', ''COM-003'', ''COM-009'', ''COM-010'', ''JAVA-004'', ''JAVA-005'',
      ''JAVA-006'', ''JAVA-007'', ''JAVA-008'']"
  "applicable (Some PYTHON) =
     [''COM-001'', ''COM-002'', ''COM-004'', ''COM-003'', ''PY-004'', ''PY-005'', ''PY-008'', ''COM-009'',
      ''COM-010'', ''PY-001'', ''PY-002'', ''PY-003'', ''PY-006'']"
  "applicable (Some JAVASCRIPT) =
     [''COM-001'', ''COM-002'', ''COM-004'', ''COM-003'', ''JS-005'', ''JS-006'', ''COM-009'', ''COM-010'',
      ''JS-001'', ''JS-002'', ''JS-003'', ''JS-004'']"
  "applicable (Some TYPESCRIPT) =
     [''COM-001'', ''COM-002'', ''COM-004'', ''COM-003'', ''JS-005'', ''JS-006'', ''COM-009'', ''COM-010'',
      ''JS-001'', ''JS-002'', ''JS-003'', ''JS-004'', ''TS-001'', ''TS-002'', ''TS-003'', ''TS-004'', ''TS-005'']"
  by code_simp+

lemma rule_ids_distinct: "distinct (map rule_id rules)"
  by code_simp

lemma applicable_distinct: "distinct (applicable language)"
  unfolding applicable_def by (rule distinct_filter [OF rule_ids_distinct])

lemma find_rule_applicable: "r \<in> set (applicable language) \<Longrightarrow> \<exists>x. find_rule r = Some x \<and> rule_id x = r"
proof -
  assume "r \<in> set (applicable language)"
  then have "\<exists>x \<in> set rules. rule_id x = r" by (auto simp: applicable_def)
  then obtain x where "find_rule r = Some x"
    unfolding find_rule_def by (metis (mono_tags, lifting) find_None_iff not_None_eq)
  moreover from this have "rule_id x = r" unfolding find_rule_def using find_SomeD by fast
  ultimately show ?thesis by blast
qed

end
