(* ===== verification/Analyzer.thy ===== *)
theory Analyzer
  imports Analysis_Rules
begin

section \<open>The syntax analyzer\<close>

text \<open>
  \<^verbatim>\<open>app/domain/analysis/analyzer.py\<close>: \<open>evaluate\<close> scans one file for secrets and, when its syntax
  tree has no error, evaluates the structural rules on it. The parser (tree-sitter) and the
  decoder are arguments; the tree it returns is the data type \<open>node\<close>.
\<close>

subsection \<open>Syntax trees\<close>

text \<open>
  A node with its identity in the tree, its type, whether it is named, its text, its first row and
  its end point, and its children, each with the field it fills.
\<close>

datatype node =
  Node (nd_id: nat) (nd_type: string) (nd_named: bool) (nd_text: string)
    (nd_start: nat) (nd_end: nat) (nd_end_column: nat) (nd_children: "(string option \<times> node) list")

definition children :: "node \<Rightarrow> node list" where
  "children n = map snd (nd_children n)"

definition named_children :: "node \<Rightarrow> node list" where
  "named_children n = filter nd_named (children n)"

text \<open>\<open>child_by_field_name\<close>, \<open>text_of\<close>, equality of two nodes and \<open>c.type in (...)\<close>\<close>

definition field :: "string \<Rightarrow> node \<Rightarrow> node option" where
  "field name n = map_option snd (find (\<lambda>(f, c). f = Some name) (nd_children n))"

definition text_of :: "node option \<Rightarrow> string" where
  "text_of n = (case n of None \<Rightarrow> '''' | Some m \<Rightarrow> nd_text m)"

definition same_node :: "node option \<Rightarrow> node \<Rightarrow> bool" where
  "same_node a b = (case a of None \<Rightarrow> False | Some m \<Rightarrow> nd_id m = nd_id b)"

definition typed :: "string list \<Rightarrow> node \<Rightarrow> bool" where
  "typed ts n \<longleftrightarrow> nd_type n \<in> set ts"

definition has_type :: "string list \<Rightarrow> node option \<Rightarrow> bool" where
  "has_type ts n = (case n of None \<Rightarrow> False | Some m \<Rightarrow> typed ts m)"

lemma sizes_of_children:
  "sum_list (map size (map snd cs)) \<le> size_list (size_prod (\<lambda>x. 0) size) (cs :: (string option \<times> node) list)"
  by (induction cs) auto

lemma named_children_size: "sum_list (map size (named_children n)) < size n"
proof -
  have "sum_list (map size (named_children n)) \<le> sum_list (map size (children n))"
    unfolding named_children_def by (rule sum_list_filter_le_nat)
  also have "\<dots> \<le> size_list (size_prod (\<lambda>x. 0) size) (nd_children n)"
    unfolding children_def by (rule sizes_of_children)
  also have "\<dots> < size n" by (cases n) simp
  finally show ?thesis .
qed

subsection \<open>Walking the tree\<close>

text \<open>
  The loop \<open>while stack: n = stack.pop(); stack.extend(reversed(n.named_children))\<close>, with the top
  of the stack first: the nodes in the order they are popped.
\<close>

function walk :: "node list \<Rightarrow> node list" where
  "walk [] = []"
| "walk (n # stack) = n # walk (named_children n @ stack)"
  by pat_completeness auto
termination
  by (relation "measure (\<lambda>stack. sum_list (map size stack))") (use named_children_size in auto)

definition function_types :: "string list" where
  "function_types =
     [''function_definition'', ''method_declaration'', ''constructor_declaration'', ''function_declaration'',
      ''generator_function_declaration'', ''function_expression'', ''generator_function'', ''arrow_function'',
      ''method_definition'']"

definition scope_types :: "string list" where
  "scope_types = function_types @ [''lambda_expression'', ''lambda'']"

definition control_types :: "string list" where
  "control_types =
     [''if_statement'', ''elif_clause'', ''for_statement'', ''for_in_statement'', ''enhanced_for_statement'',
      ''while_statement'', ''do_statement'']"

text \<open>
  The second loop carries the parent and the nesting depth; an \<open>elif\<close> or \<open>else if\<close> does not add a
  level.
\<close>

definition chained :: "node option \<Rightarrow> node \<Rightarrow> bool" where
  "chained parent n \<longleftrightarrow>
     nd_type n = ''elif_clause'' \<or>
     nd_type n = ''if_statement'' \<and>
       (case parent of
          None \<Rightarrow> False
        | Some p \<Rightarrow>
            nd_type p = ''else_clause'' \<or>
            nd_type p = ''if_statement'' \<and> same_node (field ''alternative'' p) n)"

definition depth_in :: "node \<Rightarrow> nat \<Rightarrow> nat" where
  "depth_in n depth = (if typed scope_types n then 0 else depth)"

definition depth_below :: "node option \<Rightarrow> node \<Rightarrow> nat \<Rightarrow> nat" where
  "depth_below parent n depth =
     (if typed control_types n \<and> \<not> chained parent n then depth_in n depth + 1 else depth_in n depth)"

type_synonym located = "node option \<times> node"

function walk_depth :: "(located \<times> nat) list \<Rightarrow> (located \<times> nat) list" where
  "walk_depth [] = []"
| "walk_depth (((parent, n), depth) # stack) =
     ((parent, n), depth) #
     walk_depth (map (\<lambda>c. ((Some n, c), depth_below parent n depth)) (named_children n) @ stack)"
  by pat_completeness auto
termination
  by (relation "measure (\<lambda>stack. sum_list (map (\<lambda>((p, n), d). size n) stack))")
    (use named_children_size in \<open>auto simp: comp_def\<close>)

text \<open>COM-003 fires where the nesting reaches five.\<close>

definition too_deep :: "located \<times> nat \<Rightarrow> bool" where
  "too_deep x =
     (case x of ((parent, n), depth) \<Rightarrow>
        typed control_types n \<and> \<not> chained parent n \<and> depth_below parent n depth = 5)"

subsection \<open>Rules that need the bindings of the file\<close>

text \<open>
  \<open>unbound(name, allowed)\<close>: no occurrence of the name in the file binds it or uses it elsewhere than
  as the callee; one rule per node of the loop, whose early \<open>return False\<close> ends it.
\<close>

definition identifier_types :: "string list" where
  "identifier_types =
     [''identifier'', ''type_identifier'', ''shorthand_property_identifier_pattern'', ''shorthand_property_identifier'']"

definition callee_field :: "node \<Rightarrow> string" where
  "callee_field n = (if nd_type n = ''new_expression'' then ''constructor'' else ''function'')"

definition unbound_at :: "language \<Rightarrow> string \<Rightarrow> string list \<Rightarrow> located \<Rightarrow> bool" where
  "unbound_at language name allowed x =
     (case x of (parent, n) \<Rightarrow>
        if language = PYTHON \<and> nd_type n = ''wildcard_import'' then False
        else if nd_type n = ''with_statement'' \<and> language \<noteq> PYTHON then False
        else if nd_type n = ''property_identifier'' \<and> nd_text n = name then False
        else if \<not> typed identifier_types n \<or> nd_text n \<noteq> name then True
        else
          (case parent of
             None \<Rightarrow> False
           | Some p \<Rightarrow>
               if \<not> typed allowed p then False
               else if typed [''call'', ''call_expression'', ''new_expression''] p
               then same_node (field (callee_field p) p) n
               else True))"

definition unbound :: "language \<Rightarrow> located list \<Rightarrow> string \<Rightarrow> string list \<Rightarrow> bool" where
  "unbound language nodes name allowed = list_all (unbound_at language name allowed) nodes"

definition dynamic_at :: "string \<Rightarrow> node \<Rightarrow> bool" where
  "dynamic_at name n \<longleftrightarrow>
     nd_type n = ''call'' \<and>
       text_of (field ''function'' n) \<in> {''globals'', ''locals'', ''vars'', ''setattr'', ''__import__''} \<or>
     nd_type n = ''identifier'' \<and>
       nd_text n \<in> {''globalThis'', ''window'', ''global'', ''builtins'', ''__builtins__''} \<or>
     name \<noteq> ''exec'' \<and> nd_type n = ''call'' \<and> text_of (field ''function'' n) = ''exec'' \<or>
     name \<noteq> ''eval'' \<and> nd_type n = ''call_expression'' \<and> text_of (field ''function'' n) = ''eval''"

fun targets :: "language \<Rightarrow> (string \<times> string) list" where
  "targets PYTHON = [(''eval'', ''PY-004''), (''exec'', ''PY-005'')]"
| "targets JAVASCRIPT = [(''eval'', ''JS-005''), (''Function'', ''JS-006'')]"
| "targets TYPESCRIPT = [(''eval'', ''JS-005''), (''Function'', ''JS-006'')]"
| "targets JAVA = []"

definition callers :: "language \<Rightarrow> string \<Rightarrow> string list" where
  "callers language name =
     (if language = PYTHON then [''call''] else [''call_expression'']) @
     (if name = ''Function'' then [''new_expression''] else [])"

definition direct_call :: "string list \<Rightarrow> string \<Rightarrow> node \<Rightarrow> bool" where
  "direct_call allowed name n \<longleftrightarrow>
     typed allowed n \<and>
     (case field (callee_field n) n of
        None \<Rightarrow> False
      | Some callee \<Rightarrow> nd_type callee = ''identifier'' \<and> nd_text callee = name)"

text \<open>A rule and the node it fires at, in the order of the calls of \<open>emit\<close>.\<close>

type_synonym emission = "string \<times> node"

text \<open>\<open>out.evaluated\<close> and \<open>out.not_evaluated\<close>\<close>

type_synonym accounting = "string list \<times> string list"

definition withdraw :: "string \<Rightarrow> accounting \<Rightarrow> accounting" where
  "withdraw rule acc = (remove1 rule (fst acc), snd acc @ [rule])"

fun check_targets ::
  "language \<Rightarrow> located list \<Rightarrow> (string \<times> string) list \<Rightarrow> accounting \<Rightarrow> emission list \<times> accounting" where
  "check_targets language nodes [] acc = ([], acc)"
| "check_targets language nodes ((name, rule) # ts) acc =
     (let allowed = callers language name in
      if \<not> unbound language nodes name allowed \<or> list_ex (dynamic_at name) (map snd nodes)
      then check_targets language nodes ts (withdraw rule acc)
      else
        (case check_targets language nodes ts acc of
           (es, acc') \<Rightarrow>
             (map (\<lambda>n. (rule, n)) (filter (direct_call allowed name) (map snd nodes)) @ es, acc')))"

text \<open>PY-008: a handler for every exception whose body does something.\<close>

definition first_block :: "node \<Rightarrow> node option" where
  "first_block n = find (typed [''block'']) (named_children n)"

definition only_pass :: "node option \<Rightarrow> bool" where
  "only_pass body =
     (case body of
        None \<Rightarrow> False
      | Some b \<Rightarrow> list_all (typed [''pass_statement'', ''comment'']) (named_children b))"

definition handler_value :: "node \<Rightarrow> exn + node option" where
  "handler_value n =
     (let value = field ''value'' n in
      if has_type [''as_pattern''] value
      then (case named_children (the value) of [] \<Rightarrow> Inl IndexError | v # _ \<Rightarrow> Inr (Some v))
      else Inr value)"

definition handler_values :: "node option \<Rightarrow> node option list" where
  "handler_values value =
     (if has_type [''tuple''] value then map Some (named_children (the value)) else [value])"

definition catches_all :: "node option \<Rightarrow> bool" where
  "catches_all v =
     (case v of
        None \<Rightarrow> False
      | Some m \<Rightarrow> nd_type m = ''identifier'' \<and> nd_text m \<in> {''Exception'', ''BaseException''})"

text \<open>The nodes emitted before the loop ends, and the exception that ends it early, if any.\<close>

fun broad_handlers :: "node list \<Rightarrow> node list \<times> exn option" where
  "broad_handlers [] = ([], None)"
| "broad_handlers (n # ns) =
     (if nd_type n \<noteq> ''except_clause'' \<or> only_pass (first_block n) then broad_handlers ns
      else
        (case handler_value n of
           Inl e \<Rightarrow> ([], Some e)
         | Inr value \<Rightarrow>
             (case broad_handlers ns of
                (es, failure) \<Rightarrow>
                  (if list_ex catches_all (handler_values value) then n # es else es, failure))))"

definition evaluate_additional ::
  "node \<Rightarrow> language \<Rightarrow> accounting \<Rightarrow> emission list \<times> accounting \<times> exn option" where
  "evaluate_additional root language acc =
     (let walked = walk_depth [((None, root), 0)];
          nodes = map fst walked;
          deep = map (\<lambda>((p, n), d). (''COM-003'', n)) (filter too_deep walked);
          (calls, acc') = check_targets language nodes (targets language) acc
      in if language \<noteq> PYTHON then (deep @ calls, acc', None)
         else if \<not> list_all (\<lambda>name. unbound language nodes name [''except_clause'', ''as_pattern'', ''tuple''])
                   [''Exception'', ''BaseException'']
         then (deep @ calls, withdraw ''PY-008'' acc', None)
         else
           (case broad_handlers (map snd nodes) of
              (ns, failure) \<Rightarrow> (deep @ calls @ map (\<lambda>n. (''PY-008'', n)) ns, acc', failure)))"

subsection \<open>Rules of single nodes\<close>

definition empty_body :: "node option \<Rightarrow> bool" where
  "empty_body n =
     (case n of
        None \<Rightarrow> False
      | Some b \<Rightarrow>
          list_all (typed [''comment'', ''line_comment'', ''block_comment'']) (named_children b))"

definition parameters_of :: "node \<Rightarrow> node option" where
  "parameters_of n = (case field ''parameters'' n of None \<Rightarrow> field ''parameter'' n | Some p \<Rightarrow> Some p)"

definition counted_parameters :: "language \<Rightarrow> node \<Rightarrow> node list" where
  "counted_parameters language params =
     (let values = filter (\<lambda>c. \<not> typed [''comment'', ''type_parameters''] c) (named_children params)
      in if language = PYTHON
         then filter (\<lambda>c. \<not> typed [''positional_separator'', ''keyword_separator''] c \<and>
                nd_text c \<notin> {''self'', ''cls''}) values
         else values)"

definition when_rule :: "bool \<Rightarrow> string \<Rightarrow> string list" where
  "when_rule b r = (if b then [r] else [])"

definition function_rules :: "language \<Rightarrow> node \<Rightarrow> string list" where
  "function_rules language n =
     (if \<not> typed function_types n then []
      else when_rule (60 < int (nd_end n) - int (nd_start n) + 1) ''COM-002'' @
           (case parameters_of n of
              None \<Rightarrow> []
            | Some params \<Rightarrow> when_rule (5 < length (counted_parameters language params)) ''COM-004''))"

definition comparison :: "node \<Rightarrow> bool" where
  "comparison n \<longleftrightarrow>
     nd_type n = ''binary_expression'' \<and> text_of (field ''operator'' n) \<in> {''=='', ''!=''}"

definition shared_field :: "node \<Rightarrow> bool" where
  "shared_field n =
     (let types = (case find (typed [''modifiers'']) (children n) of
                     None \<Rightarrow> []
                   | Some mods \<Rightarrow> map nd_type (children mods))
      in ''public'' \<in> set types \<and> ''static'' \<in> set types \<and> ''final'' \<notin> set types)"

definition java_rules :: "node \<Rightarrow> string list" where
  "java_rules n =
     when_rule (nd_type n = ''catch_clause'' \<and> empty_body (field ''body'' n)) ''JAVA-004'' @
     when_rule (nd_type n = ''import_declaration'' \<and> list_ex (typed [''asterisk'']) (named_children n)) ''JAVA-005'' @
     when_rule (typed [''for_statement'', ''enhanced_for_statement'', ''while_statement'', ''do_statement''] n \<and>
       has_type ['';''] (field ''body'' n)) ''JAVA-006'' @
     when_rule (nd_type n = ''field_declaration'' \<and> shared_field n) ''JAVA-007'' @
     when_rule (comparison n \<and> list_ex (typed [''string_literal'']) (named_children n)) ''JAVA-008''"

definition python_rules :: "node \<Rightarrow> string list" where
  "python_rules n =
     when_rule (typed [''default_parameter'', ''typed_default_parameter''] n \<and>
       has_type [''list'', ''dictionary'', ''set''] (field ''value'' n)) ''PY-001'' @
     (if nd_type n = ''except_clause''
      then (if filter (\<lambda>c. \<not> typed [''block'', ''comment''] c) (named_children n) = [] then [''PY-002'']
            else when_rule (only_pass (first_block n)) ''PY-003'')
      else []) @
     when_rule (nd_type n = ''import_from_statement'' \<and> list_ex (typed [''wildcard_import'']) (named_children n))
       ''PY-006''"

definition script_rules :: "node \<Rightarrow> string list" where
  "script_rules n =
     when_rule (nd_type n = ''variable_declaration'') ''JS-001'' @
     when_rule (nd_type n = ''debugger_statement'') ''JS-003'' @
     when_rule (nd_type n = ''catch_clause'' \<and> empty_body (field ''body'' n)) ''JS-004'' @
     when_rule (comparison n \<and> \<not> list_ex (typed [''null'']) (named_children n)) ''JS-002''"

text \<open>
  The pattern of a directive comment: white space, two or three slashes or a slash and stars, white
  space, the directive and a word boundary. The alternatives leave no choice, so no backtracking.
\<close>

definition comment_opening :: "string \<Rightarrow> string option" where
  "comment_opening s =
     (if starts_with ''///'' s then Some (drop 3 s)
      else if starts_with ''//'' s then Some (drop 2 s)
      else if starts_with ''/*'' s then Some (dropWhile (\<lambda>c. c = CHR ''*'') (drop 1 s))
      else None)"

definition skip_white :: "string \<Rightarrow> string" where
  "skip_white s = dropWhile (\<lambda>c. c \<in> white) s"

definition directive :: "string \<Rightarrow> string \<Rightarrow> bool" where
  "directive name s =
     (case comment_opening (skip_white s) of
        None \<Rightarrow> False
      | Some rest \<Rightarrow>
          (let mark = ''@ts-'' @ name; body = skip_white rest in
           starts_with mark body \<and> word_edge (Some (last mark)) (drop (length mark) body)))"

definition double_assertion :: "node \<Rightarrow> bool" where
  "double_assertion n \<longleftrightarrow>
     nd_type n = ''as_expression'' \<and>
     (case named_children n of
        [] \<Rightarrow> False
      | inner # _ \<Rightarrow>
          nd_type inner = ''as_expression'' \<and> named_children inner \<noteq> [] \<and>
          nd_text (last (named_children inner)) \<in> {''any'', ''unknown''})"

definition typescript_rules :: "node \<Rightarrow> string list" where
  "typescript_rules n =
     when_rule (nd_type n = ''predefined_type'' \<and> nd_text n = ''any'') ''TS-001'' @
     when_rule (nd_type n = ''comment'' \<and> directive ''ignore'' (nd_text n)) ''TS-002'' @
     when_rule (nd_type n = ''comment'' \<and> directive ''nocheck'' (nd_text n)) ''TS-003'' @
     when_rule (nd_type n = ''non_null_expression'') ''TS-004'' @
     when_rule (double_assertion n) ''TS-005''"

definition node_rules :: "language \<Rightarrow> node \<Rightarrow> string list" where
  "node_rules language n =
     function_rules language n @
     (if language = JAVA then java_rules n else []) @
     (if language = PYTHON then python_rules n else []) @
     (if language = JAVASCRIPT \<or> language = TYPESCRIPT then script_rules n else []) @
     (if language = TYPESCRIPT then typescript_rules n else [])"

definition node_emissions :: "language \<Rightarrow> node \<Rightarrow> emission list" where
  "node_emissions language root =
     concat (map (\<lambda>n. map (\<lambda>r. (r, n)) (node_rules language n)) (walk [root]))"

subsection \<open>Collecting findings\<close>

text \<open>
  \<open>add\<close>: a finding that was seen is dropped, the first hundred are kept and a further one only
  sets the limit; pydantic rejects an observation outside its constraints.
\<close>

type_synonym span = "string \<times> int \<times> int"

record findings =
  fs_seen :: "span list"
  fs_found :: "observation list"
  fs_limit :: bool

definition no_findings :: findings where
  "no_findings = \<lparr>fs_seen = [], fs_found = [], fs_limit = False\<rparr>"

definition observation_of :: "span \<Rightarrow> observation" where
  "observation_of x = (case x of (r, a, b) \<Rightarrow> \<lparr>ob_rule = r, ob_start = a, ob_end = b\<rparr>)"

definition add_finding :: "span \<Rightarrow> findings \<Rightarrow> exn + findings" where
  "add_finding x st =
     (if x \<in> set (fs_seen st) then Inr st
      else if 100 \<le> length (fs_found st)
      then Inr (st\<lparr>fs_seen := x # fs_seen st, fs_limit := True\<rparr>)
      else if \<not> observation_ok (observation_of x) then Inl (ValueError ''Observation'')
      else Inr (st\<lparr>fs_seen := x # fs_seen st, fs_found := fs_found st @ [observation_of x]\<rparr>))"

fun add_findings :: "span list \<Rightarrow> findings \<Rightarrow> exn + findings" where
  "add_findings [] st = Inr st"
| "add_findings (x # xs) st =
     (case add_finding x st of Inl e \<Rightarrow> Inl e | Inr st' \<Rightarrow> add_findings xs st')"

definition node_span :: "emission \<Rightarrow> span" where
  "node_span x =
     (case x of (r, n) \<Rightarrow>
        (r, int (nd_start n) + 1, int (nd_end n) + (if nd_end_column n = 0 then 0 else 1)))"

subsection \<open>Evaluating a file\<close>

definition key_lines :: "string \<Rightarrow> (nat \<times> nat) list" where
  "key_lines content =
     map (\<lambda>(a, b). (line_of content a, line_of content b)) (find_spans key_at 0 None content)"

definition secret_spans :: "string \<Rightarrow> span list" where
  "secret_spans content =
     (let keys = key_lines content;
          tokens = map (\<lambda>(a, b). line_of content a) (find_spans token_at 0 None content)
      in map (\<lambda>(a, b). (''COM-010'', int a, int b)) keys @
         map (\<lambda>l. (''COM-009'', int l, int l))
           (filter (\<lambda>l. \<not> list_ex (\<lambda>(a, b). a \<le> l \<and> l \<le> b) keys) tokens))"

definition result_of :: "evaluation \<Rightarrow> findings \<Rightarrow> evaluation" where
  "result_of out st = out\<lparr>ev_findings := fs_found st, ev_limit := fs_limit st\<rparr>"

definition declaration_file :: "string \<Rightarrow> bool" where
  "declaration_file path = list_ex (\<lambda>e. ends_with e path) [''.d.ts'', ''.d.mts'', ''.d.cts'']"

definition generated_file :: "string \<Rightarrow> string \<Rightarrow> bool" where
  "generated_file path content \<longleftrightarrow>
     list_ex (\<lambda>e. ends_with e path) [''.min.js'', ''.min.css''] \<or> contains ''@generated'' (take 1000 content)"

datatype grammar = JAVA_GRAMMAR | PYTHON_GRAMMAR | JAVASCRIPT_GRAMMAR | TYPESCRIPT_GRAMMAR | TSX_GRAMMAR

fun parser_for :: "language \<Rightarrow> string \<Rightarrow> grammar" where
  "parser_for JAVA path = JAVA_GRAMMAR"
| "parser_for PYTHON path = PYTHON_GRAMMAR"
| "parser_for JAVASCRIPT path = JAVASCRIPT_GRAMMAR"
| "parser_for TYPESCRIPT path = (if ends_with ''.tsx'' path then TSX_GRAMMAR else TYPESCRIPT_GRAMMAR)"

text \<open>The part that runs on a tree without error, from the findings collected so far.\<close>

definition evaluate_tree ::
  "language \<Rightarrow> string \<Rightarrow> node \<Rightarrow> evaluation \<Rightarrow> findings \<Rightarrow> exn + evaluation" where
  "evaluate_tree language content root out st0 =
     (let lines = length (splitlines content);
          (extra, (evaluated, not_evaluated), failure) =
            evaluate_additional root language (ev_evaluated out, ev_not_evaluated out)
      in case add_findings ((if 500 < lines then [(''COM-001'', 1, int lines)] else []) @ map node_span extra) st0 of
           Inl e \<Rightarrow> Inl e
         | Inr st1 \<Rightarrow>
             (case failure of
                Some e \<Rightarrow> Inl e
              | None \<Rightarrow>
                  (case add_findings (map node_span (node_emissions language root)) st1 of
                     Inl e \<Rightarrow> Inl e
                   | Inr st2 \<Rightarrow>
                       Inr (result_of
                         (out\<lparr>ev_evaluated := evaluated, ev_not_evaluated := not_evaluated,
                              ev_reason := (if not_evaluated \<noteq> [] then Some ''BINDING_UNRESOLVED'' else ev_reason out)\<rparr>)
                         st2))))"

definition evaluate ::
  "(string \<Rightarrow> string option) \<Rightarrow> (grammar \<Rightarrow> string \<Rightarrow> node \<times> bool) \<Rightarrow> string \<Rightarrow> string \<Rightarrow> bool \<Rightarrow> exn + evaluation" where
  "evaluate decode parse path source ignored =
     (let language = language_for path in
      if max_file < length source
      then Inr (new_evaluation language LIMIT_EXCEEDED (Some ''FILE_SIZE_LIMIT''))
      else
        (case decode source of
           None \<Rightarrow> Inr (new_evaluation language EXCLUDED (Some ''ENCODING_UNSUPPORTED''))
         | Some content \<Rightarrow>
             if CHR 0x00 \<in> set content \<or> starts_with ''version https://git-lfs.github.com/spec/v1'' content
             then Inr (new_evaluation language EXCLUDED (Some ''BINARY_OR_LFS''))
             else
               (case add_findings (secret_spans content) no_findings of
                  Inl e \<Rightarrow> Inl e
                | Inr st \<Rightarrow>
                    (let out = (new_evaluation language INCLUDED None)\<lparr>ev_evaluated := [''COM-009'', ''COM-010'']\<rparr> in
                     case language of
                       None \<Rightarrow>
                         Inr (result_of (out\<lparr>ev_reason := Some (if ignored then ''IGNORED_SOURCE_RULES'' else ''SECRET_SCAN_ONLY'')\<rparr>) st)
                     | Some l \<Rightarrow>
                         if ignored \<or> declaration_file path
                         then Inr (result_of (out\<lparr>ev_reason := Some (if ignored then ''IGNORED_SOURCE_RULES'' else ''SECRET_SCAN_ONLY'')\<rparr>) st)
                         else if generated_file path content
                         then Inr (result_of (out\<lparr>ev_reason := Some ''GENERATED_SECRET_SCAN_ONLY''\<rparr>) st)
                         else
                           (let (root, has_error) = parse (parser_for l path) source;
                                structural = filter (\<lambda>r. r \<notin> set (ev_evaluated out)) (applicable language)
                            in if has_error
                               then Inr (result_of (out\<lparr>ev_status := PARSE_ERROR, ev_reason := Some ''SYNTAX_ERROR'',
                                      ev_not_evaluated := structural\<rparr>) st)
                               else evaluate_tree l content root (out\<lparr>ev_evaluated := ev_evaluated out @ structural\<rparr>) st)))))"

end
