(* ===== verification/Effects.thy ===== *)
theory Effects
  imports Json Row_Store
begin

section \<open>Effects outside the database\<close>

text \<open>
  Code that talks to the network or to a process: an action on a world that may raise; unlike a
  transaction it keeps what it has done when it raises. With the standard-library functions on
  bytes and paths that this code uses: base64, URL quoting, file patterns, JSON text of a string.
\<close>

type_synonym ('w, 'a) io = "'w \<Rightarrow> (exn + 'a) \<times> 'w"

definition io_ret :: "'a \<Rightarrow> ('w, 'a) io" where
  "io_ret x w = (Inr x, w)"

definition io_raise :: "exn \<Rightarrow> ('w, 'a) io" where
  "io_raise e w = (Inl e, w)"

definition io_bind :: "('w, 'a) io \<Rightarrow> ('a \<Rightarrow> ('w, 'b) io) \<Rightarrow> ('w, 'b) io" where
  "io_bind m f w = (case m w of (Inl e, w') \<Rightarrow> (Inl e, w') | (Inr x, w') \<Rightarrow> f x w')"

text \<open>\<open>try: m; except ... as e: h(e)\<close>; the handler starts from the world the body left.\<close>

definition io_try :: "('w, 'a) io \<Rightarrow> (exn \<Rightarrow> ('w, 'a) io) \<Rightarrow> ('w, 'a) io" where
  "io_try m h w = (case m w of (Inl e, w') \<Rightarrow> h e w' | (Inr x, w') \<Rightarrow> (Inr x, w'))"

text \<open>An action of the outer world, run beside local variables.\<close>

definition io_lift :: "('w, 'a) io \<Rightarrow> ('w \<times> 'l, 'a) io" where
  "io_lift m s = (case m (fst s) of (r, w') \<Rightarrow> (r, (w', snd s)))"

definition io_get :: "('l \<Rightarrow> 'a) \<Rightarrow> ('w \<times> 'l, 'a) io" where
  "io_get f s = (Inr (f (snd s)), s)"

definition io_put :: "('l \<Rightarrow> 'l) \<Rightarrow> ('w \<times> 'l, unit) io" where
  "io_put f s = (Inr (), (fst s, f (snd s)))"

lemma io_bind_Inr: "io_bind m f w = (Inr y, w') \<longleftrightarrow> (\<exists>x v. m w = (Inr x, v) \<and> f x v = (Inr y, w'))"
  by (auto simp: io_bind_def split: prod.splits sum.splits)

lemma io_bindE:
  assumes "io_bind m f w = (Inr y, w')"
  obtains x v where "m w = (Inr x, v)" "f x v = (Inr y, w')"
  using assms by (auto simp: io_bind_Inr)

lemma io_try_Inr:
  "io_try m h w = (Inr y, w') \<longleftrightarrow> m w = (Inr y, w') \<or> (\<exists>e v. m w = (Inl e, v) \<and> h e v = (Inr y, w'))"
  by (auto simp: io_try_def split: prod.splits sum.splits)

lemma io_simps [simp]:
  "io_ret x w = (Inr y, w') \<longleftrightarrow> y = x \<and> w' = w"
  "io_raise e w = (Inr y, w') \<longleftrightarrow> False"
  "io_raise e w = (Inl e', w') \<longleftrightarrow> e' = e \<and> w' = w"
  "io_get f s = (Inr z, s') \<longleftrightarrow> z = f (snd s) \<and> s' = s"
  "io_put g s = (Inr u, s') \<longleftrightarrow> s' = (fst s, g (snd s))"
  by (auto simp: io_ret_def io_raise_def io_get_def io_put_def)

lemma io_lift_Inr:
  "io_lift m s = (Inr x, s') \<longleftrightarrow> m (fst s) = (Inr x, fst s') \<and> snd s' = snd s"
  by (cases s'; cases "m (fst s)") (auto simp: io_lift_def)

lemma io_lift_local: "io_lift m s = (r, s') \<Longrightarrow> snd s' = snd s"
  by (auto simp: io_lift_def split: prod.splits)

lemmas io_eval = io_ret_def io_raise_def io_bind_def io_try_def io_lift_def io_get_def io_put_def

subsection \<open>Base64\<close>

definition b64_value :: "char \<Rightarrow> nat option" where
  "b64_value c =
     (let n = of_char c :: nat in
      if 65 \<le> n \<and> n \<le> 90 then Some (n - 65)
      else if 97 \<le> n \<and> n \<le> 122 then Some (n - 71)
      else if 48 \<le> n \<and> n \<le> 57 then Some (n + 4)
      else if n = 43 then Some 62
      else if n = 47 then Some 63
      else None)"

definition b64_bytes :: "nat \<Rightarrow> nat \<Rightarrow> nat \<Rightarrow> nat \<Rightarrow> string" where
  "b64_bytes a b c d =
     [char_of (a * 4 + b div 16), char_of ((b mod 16) * 16 + c div 4), char_of ((c mod 4) * 64 + d)]"

text \<open>\<open>base64.b64decode(s, validate=True)\<close>: groups of four, padding only at the end.\<close>

fun b64_decode :: "string \<Rightarrow> string option" where
  "b64_decode [] = Some []"
| "b64_decode (a # b # c # d # rest) =
     (case (b64_value a, b64_value b) of
        (Some x, Some y) \<Rightarrow>
          (if d = CHR ''='' \<and> rest = [] then
             (if c = CHR ''='' then Some (take 1 (b64_bytes x y 0 0))
              else (case b64_value c of None \<Rightarrow> None | Some z \<Rightarrow> Some (take 2 (b64_bytes x y z 0))))
           else
             (case (b64_value c, b64_value d) of
                (Some z, Some v) \<Rightarrow> map_option (\<lambda>t. b64_bytes x y z v @ t) (b64_decode rest)
              | _ \<Rightarrow> None))
      | _ \<Rightarrow> None)"
| "b64_decode _ = None"

subsection \<open>Text of bytes\<close>

text \<open>The UTF-8 bytes of text below code point 256.\<close>

definition utf8 :: "string \<Rightarrow> string" where
  "utf8 s = concat (map (\<lambda>c. let n = of_char c :: nat in
     if n < 128 then [c] else [char_of (192 + n div 64), char_of (128 + n mod 64)]) s)"

definition unreserved :: "char \<Rightarrow> bool" where
  "unreserved c \<longleftrightarrow>
     (let n = of_char c :: nat in
      48 \<le> n \<and> n \<le> 57 \<or> 65 \<le> n \<and> n \<le> 90 \<or> 97 \<le> n \<and> n \<le> 122 \<or> c \<in> set ''_.-~'')"

text \<open>\<open>urllib.parse.quote(s, safe="")\<close>\<close>

definition quote :: "string \<Rightarrow> string" where
  "quote s = concat (map (\<lambda>c. if unreserved c then [c]
     else CHR ''%'' # (let n = of_char c :: nat; h = ''0123456789ABCDEF'' in [h ! (n div 16), h ! (n mod 16)]))
     (utf8 s))"

text \<open>The JSON text of a string, with every character above ASCII escaped.\<close>

definition json_char :: "char \<Rightarrow> string" where
  "json_char c =
     (let n = of_char c :: nat in
      if c = CHR 0x22 then [CHR 0x5C, CHR 0x22]
      else if c = CHR 0x5C then [CHR 0x5C, CHR 0x5C]
      else if n = 10 then [CHR 0x5C, CHR ''n'']
      else if n = 13 then [CHR 0x5C, CHR ''r'']
      else if n = 9 then [CHR 0x5C, CHR ''t'']
      else if n = 12 then [CHR 0x5C, CHR ''f'']
      else if n = 8 then [CHR 0x5C, CHR ''b'']
      else if 32 \<le> n \<and> n \<le> 126 then [c]
      else [CHR 0x5C, CHR ''u'', CHR ''0'', CHR ''0'', hex_chars ! (n div 16), hex_chars ! (n mod 16)])"

definition json_quote :: "string \<Rightarrow> string" where
  "json_quote s = CHR 0x22 # concat (map json_char s) @ [CHR 0x22]"

text \<open>The text of a string ends where it says: two of them never overlap.\<close>

lemma hex_chars_nth: "m < 16 \<Longrightarrow> n < 16 \<Longrightarrow> hex_chars ! m = hex_chars ! n \<longleftrightarrow> m = n"
proof -
  have d: "distinct hex_chars" by (simp add: hex_chars_def)
  assume "m < 16" "n < 16"
  then show ?thesis using nth_eq_iff_index_eq [OF d, of m n] by (simp add: hex_chars_def)
qed

lemma json_char_cases:
  obtains (plain) "json_char c = [c]" "c \<noteq> CHR 0x22" "c \<noteq> CHR 0x5C"
  | (escape) x where "json_char c = [CHR 0x5C, x]" "x \<noteq> CHR ''u''"
      "(x, c) \<in> {(CHR 0x22, CHR 0x22), (CHR 0x5C, CHR 0x5C), (CHR ''n'', CHR 0x0A), (CHR ''r'', CHR 0x0D), (CHR ''t'', CHR 0x09), (CHR ''f'', CHR 0x0C), (CHR ''b'', CHR 0x08)}"
  | (unicode) "json_char c = [CHR 0x5C, CHR ''u'', CHR ''0'', CHR ''0'', hex_chars ! (of_char c div 16), hex_chars ! (of_char c mod 16)]"
proof -
  have code: "c = d" if "(of_char c :: nat) = of_char d" for d using that by simp
  show thesis
  proof (cases "c = CHR 0x22 \<or> c = CHR 0x5C")
    case True
    then show thesis by (intro escape [of c]) (auto simp: json_char_def Let_def)
  next
    case False
    consider "(of_char c :: nat) = 10" | "(of_char c :: nat) = 13" | "(of_char c :: nat) = 9" | "(of_char c :: nat) = 12"
      | "(of_char c :: nat) = 8" | "(of_char c :: nat) \<notin> {8, 9, 10, 12, 13}" by auto
    then show thesis
    proof cases
      case 1
      then have "c = CHR 0x0A" using code [of "CHR 0x0A"] by simp
      then show thesis by (intro escape [of "CHR ''n''"]) (auto simp: json_char_def Let_def)
    next
      case 2
      then have "c = CHR 0x0D" using code [of "CHR 0x0D"] by simp
      then show thesis by (intro escape [of "CHR ''r''"]) (auto simp: json_char_def Let_def)
    next
      case 3
      then have "c = CHR 0x09" using code [of "CHR 0x09"] by simp
      then show thesis by (intro escape [of "CHR ''t''"]) (auto simp: json_char_def Let_def)
    next
      case 4
      then have "c = CHR 0x0C" using code [of "CHR 0x0C"] by simp
      then show thesis by (intro escape [of "CHR ''f''"]) (auto simp: json_char_def Let_def)
    next
      case 5
      then have "c = CHR 0x08" using code [of "CHR 0x08"] by simp
      then show thesis by (intro escape [of "CHR ''b''"]) (auto simp: json_char_def Let_def)
    next
      case 6
      then show thesis using False
        by (cases "32 \<le> (of_char c :: nat) \<and> (of_char c :: nat) \<le> 126")
          (auto intro: plain unicode simp: json_char_def Let_def)
    qed
  qed
qed

lemma json_char_append:
  assumes "json_char c @ s = json_char d @ t"
  shows "c = d \<and> s = t"
proof (cases c rule: json_char_cases)
  case plain
  with assms show ?thesis by (cases d rule: json_char_cases) auto
next
  case (escape x)
  with assms show ?thesis by (cases d rule: json_char_cases) auto
next
  case unicode
  note u = this
  show ?thesis
  proof (cases d rule: json_char_cases)
    case unicode
    have "(of_char c :: nat) < 256" "(of_char d :: nat) < 256" by simp_all
    then have "(of_char c :: nat) div 16 < 16" "(of_char d :: nat) div 16 < 16" by (simp_all only: div_less_iff_less_mult)
    with assms u unicode have "(of_char c :: nat) div 16 = of_char d div 16" "(of_char c :: nat) mod 16 = of_char d mod 16" "s = t"
      by (auto simp: hex_chars_nth)
    then have "(of_char c :: nat) = of_char d" by (metis mult_div_mod_eq)
    with \<open>s = t\<close> show ?thesis by simp
  qed (use assms u in auto)
qed

lemma json_char_no_quote: "json_char c \<noteq> [] \<and> hd (json_char c) \<noteq> CHR 0x22"
  by (cases c rule: json_char_cases) auto

lemma json_quote_append: "json_quote r @ s = json_quote r' @ t \<longleftrightarrow> r = r' \<and> s = t"
proof -
  have "concat (map json_char r) @ CHR 0x22 # s = concat (map json_char r') @ CHR 0x22 # t \<Longrightarrow> r = r' \<and> s = t"
  proof (induction r arbitrary: r')
    case Nil
    show ?case
    proof (cases r')
      case (Cons d ds)
      with Nil show ?thesis using json_char_no_quote [of d] by (cases "json_char d") auto
    qed (use Nil in simp)
  next
    case (Cons c cs)
    show ?case
    proof (cases r')
      case Nil
      with Cons.prems show ?thesis using json_char_no_quote [of c] by (cases "json_char c") auto
    next
      case (Cons d ds)
      from Cons.prems have "json_char c @ (concat (map json_char cs) @ CHR 0x22 # s) = json_char d @ (concat (map json_char ds) @ CHR 0x22 # t)"
        by (simp add: Cons)
      from json_char_append [OF this] Cons.IH [of ds] Cons show ?thesis by simp
    qed
  qed
  then show ?thesis by (auto simp: json_quote_def)
qed

lemma json_quote_inj: "json_quote r = json_quote r' \<longleftrightarrow> r = r'"
  using json_quote_append [of r "[]" r' "[]"] by simp

subsection \<open>File patterns\<close>

text \<open>The items of a bracket expression: single characters and ranges, read from the left.\<close>

fun in_items :: "char \<Rightarrow> string \<Rightarrow> bool" where
  "in_items x (a # b # c # rest) =
     (if b = CHR ''-'' then (a \<le> x \<and> x \<le> c) \<or> in_items x rest
      else x = a \<or> in_items x (b # c # rest))"
| "in_items x [a, b] = (x = a \<or> x = b)"
| "in_items x [a] = (x = a)"
| "in_items x [] = False"

text \<open>The body of a bracket expression and the pattern behind it, when it is closed.\<close>

definition bracket :: "string \<Rightarrow> ((bool \<times> string) \<times> string) option" where
  "bracket p =
     (let neg = starts_with ''!'' p; q = (if neg then drop 1 p else p);
          first = (if starts_with '']'' q then '']'' else []); r = drop (length first) q;
          body = takeWhile (\<lambda>c. c \<noteq> CHR '']'') r; rest = dropWhile (\<lambda>c. c \<noteq> CHR '']'') r
      in if rest = [] then None else Some ((neg, first @ body), drop 1 rest))"

lemma bracket_shorter: "bracket p = Some (b, rest) \<Longrightarrow> length rest < length p"
proof -
  assume b: "bracket p = Some (b, rest)"
  have d: "length (dropWhile P r) \<le> length r" for P and r :: string by (rule length_dropWhile_le)
  define q where "q = (if starts_with ''!'' p then drop 1 p else p)"
  define r where "r = drop (length (if starts_with '']'' q then '']'' else [])) q"
  have "rest = drop 1 (dropWhile (\<lambda>c. c \<noteq> CHR '']'') r)" "dropWhile (\<lambda>c. c \<noteq> CHR '']'') r \<noteq> []"
    using b by (auto simp: bracket_def Let_def q_def r_def split: if_splits)
  then have "length rest < length (dropWhile (\<lambda>c. c \<noteq> CHR '']'') r)" by (cases "dropWhile (\<lambda>c. c \<noteq> CHR '']'') r") auto
  also have "\<dots> \<le> length r" by (rule d)
  also have "\<dots> \<le> length p" by (simp add: r_def q_def)
  finally show ?thesis .
qed

text \<open>\<open>fnmatch.fnmatchcase(name, pattern)\<close>\<close>

function glob :: "string \<Rightarrow> string \<Rightarrow> bool" where
  "glob [] s = (s = [])"
| "glob (p # ps) s =
     (if p = CHR ''*'' then glob ps s \<or> (case s of [] \<Rightarrow> False | _ # cs \<Rightarrow> glob (p # ps) cs)
      else
        (case s of
           [] \<Rightarrow> False
         | c # cs \<Rightarrow>
             if p = CHR ''?'' then glob ps cs
             else if p = CHR ''['' then
               (case bracket ps of
                  None \<Rightarrow> c = p \<and> glob ps cs
                | Some ((neg, body), rest) \<Rightarrow> in_items c body \<noteq> neg \<and> glob rest cs)
             else c = p \<and> glob ps cs))"
  by pat_completeness auto
termination
  by (relation "measure (\<lambda>(p, s). length p + length s)") (auto dest: bracket_shorter)

end
