(* ===== verification/Patches.thy ===== *)
theory Patches
  imports Effects Analysis_Rules
begin

section \<open>Paths and patches of a pull request\<close>

text \<open>
  \<open>safe_path\<close> and \<open>changed_lines\<close> of \<^verbatim>\<open>app/domain/analysis/pipeline.py\<close>: the check of a path GitHub
  sends, and the reader of a unified diff that finds the added lines of a file.
\<close>

subsection \<open>Safe paths\<close>

definition invalid_path :: exn where
  "invalid_path = GitHubFailure ''GITHUB_INVALID_PATH'' None"

definition bad_segment :: "string \<Rightarrow> bool" where
  "bad_segment p \<longleftrightarrow> p = [] \<or> p = ''.'' \<or> p = ''..''"

definition safe_path :: "json \<Rightarrow> exn + string" where
  "safe_path v =
     (case as_str v of
        None \<Rightarrow> Inl invalid_path
      | Some path \<Rightarrow>
          if \<not> (1 \<le> length (utf8 path) \<and> length (utf8 path) \<le> 4096) \<or>
             starts_with ''/'' path \<or> CHR 0x5C \<in> set path \<or>
             list_ex (\<lambda>c. c \<in> set path) [CHR 0x00, CR, LF] \<or>
             list_ex bad_segment (split_on (CHR ''/'') path)
          then Inl invalid_path
          else Inr path)"

subsection \<open>Hunks\<close>

text \<open>
  \<open>re.match(r"^@@ -\d+(?:,(\d+))? \+(\d+)(?:,(\d+))? @@", line)\<close>: a number is the longest run of
  digits, so the match involves no choice. The result is the three groups.
\<close>

definition number :: "string \<Rightarrow> (nat \<times> string) option" where
  "number s =
     (let ds = takeWhile is_digit s in
      if ds = [] then None
      else Some (foldl (\<lambda>n c. 10 * n + (char_code c - 48)) 0 ds, drop (length ds) s))"

definition expect :: "string \<Rightarrow> string \<Rightarrow> string option" where
  "expect p s = (if starts_with p s then Some (drop (length p) s) else None)"

text \<open>A number with an optional \<open>,n\<close> behind it.\<close>

definition range_text :: "string \<Rightarrow> ((nat \<times> nat option) \<times> string) option" where
  "range_text s =
     (case number s of
        None \<Rightarrow> None
      | Some (a, rest) \<Rightarrow>
          (case expect '','' rest of
             None \<Rightarrow> Some ((a, None), rest)
           | Some rest' \<Rightarrow>
               (case number rest' of
                  None \<Rightarrow> Some ((a, None), rest)
                | Some (n, rest'') \<Rightarrow> Some ((a, Some n), rest''))))"

definition hunk_header :: "string \<Rightarrow> (nat option \<times> nat \<times> nat option) option" where
  "hunk_header line =
     (case expect ''@@ -'' line of
        None \<Rightarrow> None
      | Some s1 \<Rightarrow>
          (case range_text s1 of
             None \<Rightarrow> None
           | Some ((_, old), s2) \<Rightarrow>
               (case expect '' +'' s2 of
                  None \<Rightarrow> None
                | Some s3 \<Rightarrow>
                    (case range_text s3 of
                       None \<Rightarrow> None
                     | Some ((start, new), s4) \<Rightarrow>
                         (case expect '' @@'' s4 of None \<Rightarrow> None | Some _ \<Rightarrow> Some (old, start, new))))))"

record hunk_state =
  hs_lines :: "int list"
  hs_added :: int
  hs_removed :: int
  hs_old :: int
  hs_new :: int
  hs_current :: int
  hs_hunk :: bool

definition no_hunk :: hunk_state where
  "no_hunk = \<lparr>hs_lines = [], hs_added = 0, hs_removed = 0, hs_old = 0, hs_new = 0, hs_current = 0,
     hs_hunk = False\<rparr>"

definition count_of :: "nat option \<Rightarrow> int" where
  "count_of n = (case n of None \<Rightarrow> 1 | Some k \<Rightarrow> int k)"

definition within :: "hunk_state \<Rightarrow> hunk_state option" where
  "within h = (if hs_new h < 0 \<or> hs_old h < 0 then None else Some h)"

text \<open>One line of the patch; \<open>None\<close> is the early return.\<close>

definition patch_line :: "string \<Rightarrow> hunk_state \<Rightarrow> hunk_state option" where
  "patch_line line h =
     (case hunk_header line of
        Some (old, start, new) \<Rightarrow>
          if hs_old h \<noteq> 0 \<or> hs_new h \<noteq> 0 then None
          else within (h\<lparr>hs_old := count_of old, hs_current := int start, hs_new := count_of new, hs_hunk := True\<rparr>)
      | None \<Rightarrow>
          if starts_with [CHR 0x5C] line then Some h
          else if hs_hunk h \<and> starts_with ''+'' line
          then within (h\<lparr>hs_lines := hs_lines h @ [hs_current h], hs_current := hs_current h + 1,
                 hs_added := hs_added h + 1, hs_new := hs_new h - 1\<rparr>)
          else if hs_hunk h \<and> starts_with ''-'' line
          then within (h\<lparr>hs_removed := hs_removed h + 1, hs_old := hs_old h - 1\<rparr>)
          else if hs_hunk h \<and> starts_with '' '' line
          then within (h\<lparr>hs_current := hs_current h + 1, hs_new := hs_new h - 1, hs_old := hs_old h - 1\<rparr>)
          else None)"

fun patch_lines :: "string list \<Rightarrow> hunk_state \<Rightarrow> hunk_state option" where
  "patch_lines [] h = Some h"
| "patch_lines (l # ls) h = (case patch_line l h of None \<Rightarrow> None | Some h' \<Rightarrow> patch_lines ls h')"

text \<open>\<open>n == v\<close> for an integer and a decoded value: a Boolean is a number, an integral float is equal.\<close>

definition int_equals :: "int \<Rightarrow> json \<Rightarrow> bool" where
  "int_equals n v =
     (case v of
        JInt k \<Rightarrow> k = n
      | JBool b \<Rightarrow> n = (if b then 1 else 0)
      | JFloat x \<Rightarrow> x = int_text n @ ''.0''
      | _ \<Rightarrow> False)"

text \<open>The set of added lines, as a list in the order of the patch.\<close>

definition changed_lines :: "json \<Rightarrow> json \<Rightarrow> json \<Rightarrow> int list option" where
  "changed_lines patch additions deletions =
     (case as_str patch of
        None \<Rightarrow> None
      | Some text \<Rightarrow>
          if max_file < length text then None
          else
            (case patch_lines (splitlines text) no_hunk of
               None \<Rightarrow> None
             | Some h \<Rightarrow>
                 if hs_hunk h \<and> hs_new h = 0 \<and> hs_old h = 0 \<and>
                    int_equals (hs_added h) additions \<and> int_equals (hs_removed h) deletions
                 then Some (hs_lines h) else None))"

subsection \<open>What a patch says\<close>

text \<open>
  The reference: a patch is a list of hunks, each with its first old and new line and its lines;
  the lines it adds are the new-file positions of its additions.
\<close>

datatype diff_line = Kept string | Removed string | Added string

record hunk =
  hk_old :: nat
  hk_new :: nat
  hk_lines :: "diff_line list"

fun line_text :: "diff_line \<Rightarrow> string" where
  "line_text (Kept t) = CHR '' '' # t"
| "line_text (Removed t) = CHR ''-'' # t"
| "line_text (Added t) = CHR ''+'' # t"

fun in_old :: "diff_line \<Rightarrow> bool" where
  "in_old (Added _) = False"
| "in_old _ = True"

fun in_new :: "diff_line \<Rightarrow> bool" where
  "in_new (Removed _) = False"
| "in_new _ = True"

fun is_added :: "diff_line \<Rightarrow> bool" where
  "is_added (Added _) = True"
| "is_added _ = False"

fun is_removed :: "diff_line \<Rightarrow> bool" where
  "is_removed (Removed _) = True"
| "is_removed _ = False"

definition old_count :: "hunk \<Rightarrow> nat" where
  "old_count h = length (filter in_old (hk_lines h))"

definition new_count :: "hunk \<Rightarrow> nat" where
  "new_count h = length (filter in_new (hk_lines h))"

definition header_text :: "hunk \<Rightarrow> string" where
  "header_text h =
     ''@@ -'' @ digits (hk_old h) @ '','' @ digits (old_count h) @ '' +'' @ digits (hk_new h) @ '','' @
     digits (new_count h) @ '' @@''"

definition hunk_text :: "hunk \<Rightarrow> string list" where
  "hunk_text h = header_text h # map line_text (hk_lines h)"

fun added_from :: "int \<Rightarrow> diff_line list \<Rightarrow> int list" where
  "added_from n [] = []"
| "added_from n (Added _ # ls) = n # added_from (n + 1) ls"
| "added_from n (Kept _ # ls) = added_from (n + 1) ls"
| "added_from n (Removed _ # ls) = added_from n ls"

definition patch_text :: "hunk list \<Rightarrow> string" where
  "patch_text hs = concat (map (\<lambda>l. l @ [LF]) (concat (map hunk_text hs)))"

subsection \<open>Reading back\<close>

lemma digit_code: "d < 10 \<Longrightarrow> char_code (char_of (48 + d)) = 48 + d"
  by (simp add: char_code_def)

lemma digits_digits: "c \<in> set (digits n) \<Longrightarrow> is_digit c"
  using digits_chars [of c n] by (auto simp: is_digit_def digit_code)

lemma takeWhile_digits:
  "\<not> (case s of [] \<Rightarrow> False | c # _ \<Rightarrow> is_digit c) \<Longrightarrow> takeWhile is_digit (digits n @ s) = digits n"
  using digits_digits by (subst takeWhile_append2) (auto split: list.splits)

lemma foldl_digits: "foldl (\<lambda>n c. 10 * n + (char_code c - 48)) 0 (digits n) = n"
proof (induction n rule: digits.induct)
  case (1 n)
  show ?case
  proof (cases "n < 10")
    case True
    then show ?thesis using digit_code [of n] by (simp add: digits.simps [of n])
  next
    case False
    then show ?thesis using 1 digit_code [of "n mod 10"] by (simp add: digits.simps [of n])
  qed
qed

lemma number_digits:
  "\<not> (case s of [] \<Rightarrow> False | c # _ \<Rightarrow> is_digit c) \<Longrightarrow> number (digits n @ s) = Some (n, s)"
  by (simp add: number_def takeWhile_digits foldl_digits Let_def)

lemma expect_append [simp]: "expect p (p @ s) = Some s"
  using starts_with_append [of p "p @ s"] by (simp add: expect_def)

lemma range_text_pair:
  "\<not> (case s of [] \<Rightarrow> False | c # _ \<Rightarrow> is_digit c) \<Longrightarrow>
   range_text (digits a @ '','' @ digits b @ s) = Some ((a, Some b), s)"
proof -
  assume s: "\<not> (case s of [] \<Rightarrow> False | c # _ \<Rightarrow> is_digit c)"
  have "number (digits a @ '','' @ digits b @ s) = Some (a, '','' @ digits b @ s)"
    by (rule number_digits) (simp add: is_digit_def char_code_def)
  then show ?thesis using number_digits [OF s, of b] expect_append [of "'',''" "digits b @ s"]
    by (simp add: range_text_def del: append_Cons)
qed

lemma hunk_header_text: "hunk_header (header_text h) = Some (Some (old_count h), hk_new h, Some (new_count h))"
proof -
  have tail: "\<not> (case '' +'' @ t of [] \<Rightarrow> False | c # _ \<Rightarrow> is_digit c)"
    "\<not> (case '' @@'' @ t of [] \<Rightarrow> False | c # _ \<Rightarrow> is_digit c)" for t
    by (simp_all add: is_digit_def char_code_def)
  show ?thesis
    unfolding hunk_header_def header_text_def
    using range_text_pair [OF tail(1)] range_text_pair [OF tail(2) [of "[]"]]
    by (simp only: expect_append option.case prod.case append_Nil2)
      (metis append_Nil2 expect_append option.simps(5))
qed


lemma line_text_no_header: "hunk_header (line_text l) = None"
  by (cases l) (simp_all add: hunk_header_def expect_def)

lemma patch_line_text:
  assumes "hs_hunk h"
  shows "patch_line (line_text (Kept t)) h =
      within (h\<lparr>hs_current := hs_current h + 1, hs_new := hs_new h - 1, hs_old := hs_old h - 1\<rparr>)"
    and "patch_line (line_text (Removed t)) h = within (h\<lparr>hs_removed := hs_removed h + 1, hs_old := hs_old h - 1\<rparr>)"
    and "patch_line (line_text (Added t)) h =
      within (h\<lparr>hs_lines := hs_lines h @ [hs_current h], hs_current := hs_current h + 1,
        hs_added := hs_added h + 1, hs_new := hs_new h - 1\<rparr>)"
  using assms line_text_no_header [of "Kept t"] line_text_no_header [of "Removed t"] line_text_no_header [of "Added t"]
  by (simp_all add: patch_line_def)

definition count_if :: "('a \<Rightarrow> bool) \<Rightarrow> 'a list \<Rightarrow> int" where
  "count_if P xs = int (length (filter P xs))"

lemma count_if_simps [simp]:
  "count_if P [] = 0" "count_if P (x # xs) = (if P x then 1 else 0) + count_if P xs"
  "count_if P (xs @ ys) = count_if P xs + count_if P ys" "0 \<le> count_if P xs" "\<not> count_if P xs < 0"
  by (simp_all add: count_if_def)

text \<open>The body of a hunk uses up exactly the counts its header announces.\<close>

lemma patch_lines_body:
  assumes "hs_hunk h" and "hs_old h = count_if in_old ls" and "hs_new h = count_if in_new ls"
  shows "patch_lines (map line_text ls) h =
    Some (h\<lparr>hs_lines := hs_lines h @ added_from (hs_current h) ls, hs_added := hs_added h + count_if is_added ls,
      hs_removed := hs_removed h + count_if is_removed ls, hs_old := 0, hs_new := 0,
      hs_current := hs_current h + count_if in_new ls\<rparr>)"
  using assms
proof (induction ls arbitrary: h)
  case Nil
  then show ?case by simp
next
  case (Cons l ls)
  show ?case
  proof (cases l)
    case (Kept t)
    let ?h = "h\<lparr>hs_current := hs_current h + 1, hs_new := hs_new h - 1, hs_old := hs_old h - 1\<rparr>"
    have "patch_line (line_text l) h = Some ?h"
      using Cons.prems Kept by (simp add: patch_line_text(1) within_def del: line_text.simps)
    with Cons.IH [of ?h] Cons.prems Kept show ?thesis by (simp add: algebra_simps del: line_text.simps)
  next
    case (Removed t)
    let ?h = "h\<lparr>hs_removed := hs_removed h + 1, hs_old := hs_old h - 1\<rparr>"
    have "patch_line (line_text l) h = Some ?h"
      using Cons.prems Removed by (simp add: patch_line_text(2) within_def del: line_text.simps)
    with Cons.IH [of ?h] Cons.prems Removed show ?thesis by (simp add: algebra_simps del: line_text.simps)
  next
    case (Added t)
    let ?h = "h\<lparr>hs_lines := hs_lines h @ [hs_current h], hs_current := hs_current h + 1,
        hs_added := hs_added h + 1, hs_new := hs_new h - 1\<rparr>"
    have "patch_line (line_text l) h = Some ?h"
      using Cons.prems Added by (simp add: patch_line_text(3) within_def del: line_text.simps)
    with Cons.IH [of ?h] Cons.prems Added show ?thesis by (simp add: algebra_simps del: line_text.simps)
  qed
qed

lemma patch_lines_append:
  "patch_lines (xs @ ys) h = (case patch_lines xs h of None \<Rightarrow> None | Some h' \<Rightarrow> patch_lines ys h')"
  by (induction xs arbitrary: h) (auto split: option.splits)

lemma patch_lines_hunk:
  assumes "hs_old h = 0" and "hs_new h = 0"
  shows "\<exists>c. patch_lines (hunk_text k) h =
    Some (h\<lparr>hs_lines := hs_lines h @ added_from (int (hk_new k)) (hk_lines k),
      hs_added := hs_added h + count_if is_added (hk_lines k),
      hs_removed := hs_removed h + count_if is_removed (hk_lines k), hs_current := c, hs_hunk := True\<rparr>)"
proof -
  let ?h = "h\<lparr>hs_old := int (old_count k), hs_current := int (hk_new k), hs_new := int (new_count k), hs_hunk := True\<rparr>"
  have "patch_line (header_text k) h = Some ?h"
    using assms by (simp add: patch_line_def hunk_header_text within_def count_of_def)
  moreover have "patch_lines (map line_text (hk_lines k)) ?h =
      Some (?h\<lparr>hs_lines := hs_lines h @ added_from (int (hk_new k)) (hk_lines k),
        hs_added := hs_added h + count_if is_added (hk_lines k),
        hs_removed := hs_removed h + count_if is_removed (hk_lines k), hs_old := 0, hs_new := 0,
        hs_current := int (hk_new k) + count_if in_new (hk_lines k)\<rparr>)"
    by (subst patch_lines_body) (simp_all add: old_count_def new_count_def count_if_def)
  ultimately show ?thesis
    using assms by (intro exI [of _ "int (hk_new k) + count_if in_new (hk_lines k)"]) (cases h, simp add: hunk_text_def)
qed

lemma patch_lines_hunks:
  assumes "hs_old h = 0" and "hs_new h = 0"
  shows "\<exists>c. patch_lines (concat (map hunk_text ks)) h =
    Some (h\<lparr>hs_lines := hs_lines h @ concat (map (\<lambda>k. added_from (int (hk_new k)) (hk_lines k)) ks),
      hs_added := hs_added h + count_if is_added (concat (map hk_lines ks)),
      hs_removed := hs_removed h + count_if is_removed (concat (map hk_lines ks)), hs_current := c,
      hs_hunk := (hs_hunk h \<or> ks \<noteq> [])\<rparr>)"
  using assms
proof (induction ks arbitrary: h)
  case Nil
  then show ?case by (intro exI [of _ "hs_current h"]) simp
next
  case (Cons k ks)
  obtain c where c: "patch_lines (hunk_text k) h =
    Some (h\<lparr>hs_lines := hs_lines h @ added_from (int (hk_new k)) (hk_lines k),
      hs_added := hs_added h + count_if is_added (hk_lines k),
      hs_removed := hs_removed h + count_if is_removed (hk_lines k), hs_current := c, hs_hunk := True\<rparr>)"
    using patch_lines_hunk [OF Cons.prems] by blast
  let ?h = "h\<lparr>hs_lines := hs_lines h @ added_from (int (hk_new k)) (hk_lines k),
      hs_added := hs_added h + count_if is_added (hk_lines k),
      hs_removed := hs_removed h + count_if is_removed (hk_lines k), hs_current := c, hs_hunk := True\<rparr>"
  have "hs_old ?h = 0" "hs_new ?h = 0" using Cons.prems by simp_all
  from Cons.IH [OF this] c show ?case by (simp add: patch_lines_append add.assoc)
qed

definition one_line :: "string \<Rightarrow> bool" where
  "one_line t \<longleftrightarrow> (\<forall>c \<in> set t. \<not> line_break c)"

fun line_content :: "diff_line \<Rightarrow> string" where
  "line_content (Kept t) = t"
| "line_content (Removed t) = t"
| "line_content (Added t) = t"

lemma digit_no_break: "is_digit c \<Longrightarrow> \<not> line_break c"
  by (auto simp: is_digit_def line_break_def)

lemma header_one_line: "one_line (header_text h)"
proof -
  have "\<forall>c \<in> set (''@@ -'' @ '','' @ '' +'' @ '','' @ '' @@''). \<not> line_break c"
    by (simp add: line_break_def char_code_def)
  then show ?thesis using digits_digits digit_no_break unfolding one_line_def header_text_def by auto
qed

lemma line_text_one_line: "one_line (line_content l) \<Longrightarrow> one_line (line_text l)"
  by (cases l) (auto simp: one_line_def line_break_def char_code_def)

lemma splitlines_patch:
  assumes "\<forall>k \<in> set ks. \<forall>l \<in> set (hk_lines k). one_line (line_content l)"
  shows "splitlines (patch_text ks) = concat (map hunk_text ks)"
  unfolding patch_text_def
  by (rule splitlines_lines)
    (use assms header_one_line line_text_one_line in \<open>fastforce simp: hunk_text_def one_line_def\<close>)

text \<open>
  C20. The diff reader finds exactly the added lines. For every patch that is the text of some hunks
  whose lines hold no line break, with the counts of additions and deletions GitHub reports for it,
  the lines it returns are the positions of the additions in the new file, hunk by hunk; and with
  any other pair of counts it returns nothing rather than a wrong set.
\<close>

theorem changed_lines_round_trip:
  assumes "ks \<noteq> []" and "\<forall>k \<in> set ks. \<forall>l \<in> set (hk_lines k). one_line (line_content l)"
    and "length (patch_text ks) \<le> max_file"
  shows "changed_lines (JStr (patch_text ks)) (JInt a) (JInt d) =
    (if a = count_if is_added (concat (map hk_lines ks)) \<and> d = count_if is_removed (concat (map hk_lines ks))
     then Some (concat (map (\<lambda>k. added_from (int (hk_new k)) (hk_lines k)) ks)) else None)"
proof -
  obtain c where "patch_lines (concat (map hunk_text ks)) no_hunk =
    Some (no_hunk\<lparr>hs_lines := concat (map (\<lambda>k. added_from (int (hk_new k)) (hk_lines k)) ks),
      hs_added := count_if is_added (concat (map hk_lines ks)),
      hs_removed := count_if is_removed (concat (map hk_lines ks)), hs_current := c, hs_hunk := True\<rparr>)"
    using patch_lines_hunks [of no_hunk ks] assms(1) by (auto simp: no_hunk_def)
  then show ?thesis
    using assms(3) by (auto simp: changed_lines_def splitlines_patch [OF assms(2)] no_hunk_def int_equals_def)
qed

definition small_patch :: "hunk list" where
  "small_patch = [\<lparr>hk_old = 1, hk_new = 1, hk_lines = [Kept ''a'', Removed ''b'', Added ''c'', Added ''d'']\<rparr>]"

theorem changed_lines_round_trip_witness:
  "changed_lines (JStr (patch_text small_patch)) (JInt 2) (JInt 1) = Some [2, 3]"
proof -
  have "length (patch_text small_patch) \<le> max_file"
    by (simp add: small_patch_def patch_text_def hunk_text_def header_text_def old_count_def new_count_def
        digits.simps max_file_def)
  with changed_lines_round_trip [of small_patch 2 1] show ?thesis
    by (simp add: small_patch_def one_line_def line_break_def char_code_def)
qed

end
