(* ===== verification/Pipeline.thy ===== *)
theory Pipeline
  imports Analyzer Patches Repositories
begin

section \<open>Analysing the changed files of a pull request\<close>

text \<open>
  \<open>app/domain/analysis/pipeline.py\<close> with \<open>parser_process.py\<close> and \<open>parser_entry.py\<close>: the
  snapshot is verified against GitHub, each changed file is read from the immutable head commit,
  evaluated in a parser process and reported, and the snapshot is verified again.

  The world is a parameter: the client of GitHub, the checkpoint of the worker, the fate of a
  parser process and the grammars (tree-sitter) are the fields of \<open>services\<close>; hashing and UTF-8
  decoding are fields too. The local variables that survive an exception of one file, the cache of
  trees and the bytes read so far, are a record beside the world.
\<close>

subsection \<open>The outside\<close>

text \<open>How a parser process ends: not in time, by a failure, or with so many bytes of output.\<close>

datatype process_end = Timed_out | Died | Wrote nat

record 'w services =
  sv_token :: "int \<Rightarrow> int \<Rightarrow> ('w, string) io"
  sv_request :: "string \<Rightarrow> string \<Rightarrow> ('w, json) io"
  sv_checkpoint :: "('w, unit) io"
  sv_process :: "string \<Rightarrow> string \<Rightarrow> bool \<Rightarrow> 'w \<Rightarrow> process_end \<times> 'w"
  sv_parse :: "grammar \<Rightarrow> string \<Rightarrow> node \<times> bool"
  sv_decode :: "string \<Rightarrow> string option"
  sv_sha1 :: "string \<Rightarrow> string"
  sv_sha256 :: "string \<Rightarrow> string"

record pull_snapshot =
  sn_number :: int
  sn_base_sha :: string
  sn_head_sha :: string

record source_state =
  lc_trees :: "(string \<times> json list) list"
  lc_total :: int

type_synonym ('w, 'a) step = "('w \<times> source_state, 'a) io"

definition fail :: "string \<Rightarrow> exn" where
  "fail c = GitHubFailure c None"

definition io_check :: "bool \<Rightarrow> exn \<Rightarrow> ('w, unit) io" where
  "io_check b e = (if b then io_ret () else io_raise e)"

definition io_of :: "exn + 'a \<Rightarrow> ('w, 'a) io" where
  "io_of r = (case r of Inl e \<Rightarrow> io_raise e | Inr x \<Rightarrow> io_ret x)"

definition checkpoint :: "'w services \<Rightarrow> ('w, unit) step" where
  "checkpoint sv = io_lift (sv_checkpoint sv)"

definition fetch_json :: "'w services \<Rightarrow> string \<Rightarrow> string \<Rightarrow> ('w, json) step" where
  "fetch_json sv token path = io_lift (sv_request sv path token)"

subsection \<open>The parser process\<close>

text \<open>
  \<open>parser_entry.py\<close>: the process evaluates the text it was sent, encoded again; an exception ends
  it with a failure. \<open>parse_file\<close>: outside the bounds of time, size and exit status a fixed
  evaluation stands for the file; \<open>model_validate_json\<close> and the test on the rules reject an output
  with a \<open>ValueError\<close>.
\<close>

definition parser_entry :: "'w services \<Rightarrow> string \<Rightarrow> string \<Rightarrow> bool \<Rightarrow> exn + evaluation" where
  "parser_entry sv path content ignored = evaluate (sv_decode sv) (sv_parse sv) path (utf8 content) ignored"

definition known_observation :: "observation \<Rightarrow> bool" where
  "known_observation f \<longleftrightarrow> find_rule (ob_rule f) \<noteq> None \<and> ob_start f \<le> ob_end f"

definition read_output :: "evaluation \<Rightarrow> exn + evaluation" where
  "read_output e =
     (if \<not> evaluation_ok e then Inl (ValueError ''Evaluation'')
      else if \<not> list_all known_observation (ev_findings e) then Inl (ValueError ''Invalid parser output'')
      else Inr e)"

definition parse_file :: "'w services \<Rightarrow> string \<Rightarrow> string \<Rightarrow> bool \<Rightarrow> ('w, evaluation) io" where
  "parse_file sv path source ignored w =
     (let language = language_for path in
      if max_file < length source
      then (Inr (new_evaluation language LIMIT_EXCEEDED (Some ''FILE_SIZE_LIMIT'')), w)
      else
        (case sv_decode sv source of
           None \<Rightarrow> (Inr (new_evaluation language EXCLUDED (Some ''ENCODING_UNSUPPORTED'')), w)
         | Some content \<Rightarrow>
             (let (end_of, w') = sv_process sv path content ignored w;
                  failed = Inr (new_evaluation language PARSE_ERROR (Some ''PARSER_FAILED''))
              in ((case end_of of
                     Timed_out \<Rightarrow> Inr (new_evaluation language LIMIT_EXCEEDED (Some ''PARSER_TIMEOUT''))
                   | Died \<Rightarrow> failed
                   | Wrote n \<Rightarrow>
                       (case parser_entry sv path content ignored of
                          Inl _ \<Rightarrow> failed
                        | Inr e \<Rightarrow> if 65536 < n then failed else read_output e)), w'))))"

subsection \<open>The snapshot\<close>

text \<open>
  \<open>v.get(k, {}).get(k2)\<close>: a missing key reads as an empty object, a value that is no object has
  no \<open>get\<close>.
\<close>

definition get_in :: "string \<Rightarrow> string \<Rightarrow> json \<Rightarrow> exn + json" where
  "get_in k k2 v =
     (case lookup_last k (entries v) of
        None \<Rightarrow> Inr JNull
      | Some x \<Rightarrow> if is_obj x then Inr (json_get k2 x) else Inl AttributeError)"

definition repo_prefix :: "repository_snapshot \<Rightarrow> string" where
  "repo_prefix repo = ''/repos/'' @ quote (rs_owner_login repo) @ ''/'' @ quote (rs_name repo)"

definition pull_path :: "repository_snapshot \<Rightarrow> pull_snapshot \<Rightarrow> string" where
  "pull_path repo snap = repo_prefix repo @ ''/pulls/'' @ int_text (sn_number snap)"

definition same_snapshot :: "pull_snapshot \<Rightarrow> json \<Rightarrow> exn + bool" where
  "same_snapshot snap row =
     (if \<not> is_obj row then Inr False
      else
        (case get_in ''base'' ''sha'' row of
           Inl e \<Rightarrow> Inl e
         | Inr b \<Rightarrow>
             if b \<noteq> JStr (sn_base_sha snap) then Inr False
             else map_sum id (\<lambda>h. h = JStr (sn_head_sha snap)) (get_in ''head'' ''sha'' row)))"

definition changed_files :: "json \<Rightarrow> exn + int" where
  "changed_files row =
     (case as_int (json_get ''changed_files'' row) of
        None \<Rightarrow> Inl (fail ''GITHUB_INVALID_RESPONSE'')
      | Some n \<Rightarrow> if n < 0 then Inl (fail ''GITHUB_INVALID_RESPONSE'') else Inr n)"

definition verify :: "'w services \<Rightarrow> repository_snapshot \<Rightarrow> pull_snapshot \<Rightarrow> string \<Rightarrow> ('w, int) step" where
  "verify sv repo snap token =
     io_bind (checkpoint sv) (\<lambda>_.
     io_bind (fetch_json sv token (pull_path repo snap)) (\<lambda>row.
     io_bind (io_of (same_snapshot snap row)) (\<lambda>same.
     io_bind (io_check same (fail ''SNAPSHOT_CHANGED'')) (\<lambda>_.
     io_of (changed_files row)))))"

subsection \<open>The tree of the head commit\<close>

definition source_unavailable :: exn where
  "source_unavailable = fail ''SOURCE_UNAVAILABLE''"

definition hex_sha :: "json \<Rightarrow> exn + string" where
  "hex_sha v =
     (case as_str v of
        None \<Rightarrow> Inl source_unavailable
      | Some sha \<Rightarrow> if is_hex 40 sha then Inr sha else Inl source_unavailable)"

definition root_tree :: "'w services \<Rightarrow> repository_snapshot \<Rightarrow> pull_snapshot \<Rightarrow> string \<Rightarrow> ('w, string) step" where
  "root_tree sv repo snap token =
     io_bind (checkpoint sv) (\<lambda>_.
     io_bind (fetch_json sv token (repo_prefix repo @ ''/git/commits/'' @ sn_head_sha snap)) (\<lambda>commit.
     io_bind (io_of (if is_obj commit then get_in ''tree'' ''sha'' commit else Inr JNull)) (\<lambda>root.
     io_of (hex_sha root))))"

text \<open>\<open>next((v for v in trees[sha] if v.get("path") == part), None)\<close>\<close>

fun find_item :: "string \<Rightarrow> json list \<Rightarrow> exn + json option" where
  "find_item part [] = Inr None"
| "find_item part (v # vs) =
     (if \<not> is_obj v then Inl AttributeError
      else if json_get ''path'' v = JStr part then Inr (Some v)
      else find_item part vs)"

definition tree_items :: "'w services \<Rightarrow> repository_snapshot \<Rightarrow> string \<Rightarrow> string \<Rightarrow> ('w, json list) step" where
  "tree_items sv repo token sha =
     io_bind (io_get lc_trees) (\<lambda>trees.
     case map_of trees sha of
       Some items \<Rightarrow> io_ret items
     | None \<Rightarrow>
         io_bind (fetch_json sv token (repo_prefix repo @ ''/git/trees/'' @ sha)) (\<lambda>tree.
         case (if is_obj tree \<and> \<not> json_true (json_get ''truncated'' tree) then as_arr (json_get ''tree'' tree) else None) of
           None \<Rightarrow> io_raise source_unavailable
         | Some items \<Rightarrow>
             io_bind (io_put (\<lambda>l. l\<lparr>lc_trees := (sha, items) # lc_trees l\<rparr>)) (\<lambda>_. io_ret items)))"

fun entry :: "'w services \<Rightarrow> repository_snapshot \<Rightarrow> string \<Rightarrow> string \<Rightarrow> string list \<Rightarrow> ('w, json) step" where
  "entry sv repo token sha [] = io_raise source_unavailable"
| "entry sv repo token sha (part # rest) =
     io_bind (checkpoint sv) (\<lambda>_.
     io_bind (tree_items sv repo token sha) (\<lambda>items.
     io_bind (io_of (find_item part items)) (\<lambda>found.
     case found of
       None \<Rightarrow> io_raise source_unavailable
     | Some item \<Rightarrow>
         if rest = [] then io_ret item
         else if json_get ''type'' item \<noteq> JStr ''tree'' then io_raise source_unavailable
         else io_bind (io_of (hex_sha (json_get ''sha'' item))) (\<lambda>sha'. entry sv repo token sha' rest))))"

subsection \<open>One file\<close>

definition git_blob :: "string \<Rightarrow> string" where
  "git_blob source = ''blob '' @ int_text (int (length source)) @ CHR 0x00 # source"

text \<open>The bytes of a blob, checked against its size and its object id.\<close>

definition blob_source :: "'w services \<Rightarrow> json \<Rightarrow> int \<Rightarrow> string \<Rightarrow> exn + string" where
  "blob_source sv blob n sha =
     (case (if is_obj blob \<and> json_get ''encoding'' blob = JStr ''base64'' then as_str (json_get ''content'' blob) else None) of
        None \<Rightarrow> Inl source_unavailable
      | Some body \<Rightarrow>
          if max_file * 2 < length body then Inl source_unavailable
          else
            (case b64_decode (filter (\<lambda>c. c \<noteq> LF) body) of
               None \<Rightarrow> Inl source_unavailable
             | Some source \<Rightarrow>
                 if int (length source) \<noteq> n \<or> sv_sha1 sv (git_blob source) \<noteq> sha
                 then Inl source_unavailable else Inr source))"

definition regular_file :: "json \<Rightarrow> bool" where
  "regular_file item \<longleftrightarrow>
     json_get ''mode'' item \<in> {JStr ''100644'', JStr ''100755''} \<and> json_get ''type'' item = JStr ''blob''"

definition removed_file :: "string \<Rightarrow> evaluation" where
  "removed_file path = new_evaluation (language_for path) EXCLUDED (Some ''REMOVED'')"

definition read_blob ::
  "'w services \<Rightarrow> repository_snapshot \<Rightarrow> string \<Rightarrow> string list \<Rightarrow> string \<Rightarrow> int \<Rightarrow> json \<Rightarrow>
   ('w, evaluation \<times> string option) step" where
  "read_blob sv repo token ignored path n item =
     io_bind (io_of (hex_sha (json_get ''sha'' item))) (\<lambda>sha.
     io_bind (checkpoint sv) (\<lambda>_.
     io_bind (fetch_json sv token (repo_prefix repo @ ''/git/blobs/'' @ sha)) (\<lambda>blob.
     io_bind (io_of (blob_source sv blob n sha)) (\<lambda>source.
     io_bind (io_put (\<lambda>l. l\<lparr>lc_total := lc_total l + int (length source)\<rparr>)) (\<lambda>_.
     io_bind (io_lift (parse_file sv path source (list_ex (\<lambda>p. glob p path) ignored))) (\<lambda>e.
     io_ret (e, Some sha)))))))"

definition inspect ::
  "'w services \<Rightarrow> repository_snapshot \<Rightarrow> string \<Rightarrow> string list \<Rightarrow> string \<Rightarrow> string \<Rightarrow>
   ('w, evaluation \<times> string option) step" where
  "inspect sv repo token ignored root path =
     io_bind (entry sv repo token root (split_on (CHR ''/'') path)) (\<lambda>item.
     if \<not> regular_file item
     then io_ret ((removed_file path)\<lparr>ev_reason := Some ''NON_REGULAR_FILE''\<rparr>, None)
     else
       (case as_int (json_get ''size'' item) of
          None \<Rightarrow> io_raise source_unavailable
        | Some n \<Rightarrow>
            if n < 0 then io_raise source_unavailable
            else
              io_bind (io_get lc_total) (\<lambda>total.
              if int max_file < n \<or> int max_total < total + n
              then io_ret ((removed_file path)\<lparr>ev_status := LIMIT_EXCEEDED, ev_reason := Some ''SOURCE_SIZE_LIMIT''\<rparr>, None)
              else read_blob sv repo token ignored path n item)))"

text \<open>
  The exception handler of one file: the loss of access, of the quota or of the service ends the
  analysis, any other failure of GitHub makes this file unavailable.
\<close>

definition fatal_codes :: "string list" where
  "fatal_codes = [''GITHUB_ACCESS_UNAVAILABLE'', ''GITHUB_RATE_LIMIT'', ''GITHUB_UNAVAILABLE'']"

fun file_failure :: "string \<Rightarrow> exn \<Rightarrow> ('w, evaluation \<times> string option) step" where
  "file_failure path (GitHubFailure c d) =
     (if c \<in> set fatal_codes then io_raise (GitHubFailure c d)
      else io_ret ((removed_file path)\<lparr>ev_status := SOURCE_UNAVAILABLE, ev_reason := Some ''SOURCE_UNAVAILABLE''\<rparr>, None))"
| "file_failure path e = io_raise e"

definition file_evaluation ::
  "'w services \<Rightarrow> repository_snapshot \<Rightarrow> string \<Rightarrow> string list \<Rightarrow> string \<Rightarrow> string \<Rightarrow> json \<Rightarrow>
   ('w, evaluation \<times> string option) step" where
  "file_evaluation sv repo token ignored root path change =
     (if json_get ''status'' change = JStr ''removed'' then io_ret (removed_file path, None)
      else io_try (inspect sv repo token ignored root path) (file_failure path))"

subsection \<open>Reports\<close>

datatype side = HEAD | BASE | FILE_SIDE
datatype scope_location = CHANGED | CONTEXT | FILE
datatype coverage = FULL_SCOPE | PARTIAL | NONE

record rule_outcome =
  oc_rule_id :: string
  oc_rule_version :: string
  oc_evaluated :: bool
  oc_reason_code :: "string option"

record file_data =
  fd_file_path :: string
  fd_path_digest :: string
  fd_side :: side
  fd_language :: "language option"
  fd_source_sha :: "string option"
  fd_status :: file_status
  fd_reason_code :: "string option"
  fd_finding_limit_reached :: bool
  fd_rule_outcomes :: "rule_outcome list"

record finding_data =
  fn_rule_id :: string
  fn_rule_version :: string
  fn_category :: category
  fn_severity :: severity
  fn_confidence :: confidence
  fn_language :: "language option"
  fn_file_path :: string
  fn_start_line :: int
  fn_end_line :: int
  fn_side :: side
  fn_scope_location :: scope_location
  fn_message_code :: string
  fn_fingerprint :: string

record analysis_result =
  an_files :: "file_data list"
  an_findings :: "finding_data list"
  an_coverage :: coverage
  an_reason :: "string option"

definition rule_of :: "string \<Rightarrow> exn + rule" where
  "rule_of r = (case find_rule r of None \<Rightarrow> Inl KeyError | Some x \<Rightarrow> Inr x)"

fun collect_results :: "('a \<Rightarrow> exn + 'b) \<Rightarrow> 'a list \<Rightarrow> exn + 'b list" where
  "collect_results f [] = Inr []"
| "collect_results f (x # xs) =
     (case f x of
        Inl e \<Rightarrow> Inl e
      | Inr y \<Rightarrow> (case collect_results f xs of Inl e \<Rightarrow> Inl e | Inr ys \<Rightarrow> Inr (y # ys)))"

definition outcome_of :: "evaluation \<Rightarrow> string \<Rightarrow> exn + rule_outcome" where
  "outcome_of e r =
     map_sum id (\<lambda>x.
       \<lparr>oc_rule_id = r, oc_rule_version = rule_version x, oc_evaluated = (r \<in> set (ev_evaluated e)),
        oc_reason_code = (if r \<in> set (ev_evaluated e) then None else ev_reason e)\<rparr>) (rule_of r)"

text \<open>\<open>digest\<close>: SHA-256 of the JSON text, of a path and of the list that identifies a finding.\<close>

definition fingerprint_text :: "string \<Rightarrow> string \<Rightarrow> int \<Rightarrow> int \<Rightarrow> string" where
  "fingerprint_text r path a b =
     ''['' @ json_quote r @ '','' @ json_quote path @ '','' @ int_text a @ '','' @ int_text b @ '']''"

definition scope_of :: "string \<Rightarrow> int list option \<Rightarrow> observation \<Rightarrow> scope_location" where
  "scope_of r ranges f =
     (if r = ''COM-001'' then FILE
      else
        (case ranges of
           None \<Rightarrow> CONTEXT
         | Some lines \<Rightarrow> if list_ex (\<lambda>v. ob_start f \<le> v \<and> v \<le> ob_end f) lines then CHANGED else CONTEXT))"

definition finding_of ::
  "'w services \<Rightarrow> string \<Rightarrow> int list option \<Rightarrow> evaluation \<Rightarrow> observation \<Rightarrow> exn + finding_data" where
  "finding_of sv path ranges e f =
     map_sum id (\<lambda>x.
       \<lparr>fn_rule_id = rule_id x, fn_rule_version = rule_version x, fn_category = rule_category x,
        fn_severity = rule_severity x, fn_confidence = rule_confidence x, fn_language = ev_language e,
        fn_file_path = path, fn_start_line = ob_start f, fn_end_line = ob_end f, fn_side = HEAD,
        fn_scope_location = scope_of (rule_id x) ranges f, fn_message_code = rule_id x,
        fn_fingerprint = sv_sha256 sv (fingerprint_text (rule_id x) path (ob_start f) (ob_end f))\<rparr>)
       (rule_of (ob_rule f))"

definition file_of :: "'w services \<Rightarrow> string \<Rightarrow> json \<Rightarrow> evaluation \<Rightarrow> string option \<Rightarrow> rule_outcome list \<Rightarrow> file_data" where
  "file_of sv path change e source_sha outcomes =
     \<lparr>fd_file_path = path, fd_path_digest = sv_sha256 sv (json_quote path),
      fd_side = (if json_get ''status'' change = JStr ''removed'' then BASE else HEAD),
      fd_language = ev_language e, fd_source_sha = source_sha, fd_status = ev_status e,
      fd_reason_code = ev_reason e, fd_finding_limit_reached = ev_limit e, fd_rule_outcomes = outcomes\<rparr>"

definition narrowed :: "evaluation \<Rightarrow> bool" where
  "narrowed e \<longleftrightarrow>
     ev_status e \<notin> {INCLUDED, EXCLUDED} \<or> ev_limit e \<or> ev_not_evaluated e \<noteq> [] \<or>
     ev_reason e \<in> Some ` {''SECRET_SCAN_ONLY'', ''IGNORED_SOURCE_RULES'', ''GENERATED_SECRET_SCAN_ONLY''}"

subsection \<open>The loop over the changes\<close>

record report =
  rp_files :: "file_data list"
  rp_findings :: "finding_data list"
  rp_partial :: bool
  rp_paths :: "string list"

definition change_path :: "json \<Rightarrow> string list \<Rightarrow> exn + string" where
  "change_path change paths =
     (if \<not> is_obj change then Inl (fail ''GITHUB_INVALID_RESPONSE'')
      else
        (case safe_path (json_get ''filename'' change) of
           Inl e \<Rightarrow> Inl e
         | Inr path \<Rightarrow> if path \<in> set paths then Inl (fail ''GITHUB_INVALID_RESPONSE'') else Inr path))"

definition report_file ::
  "'w services \<Rightarrow> string \<Rightarrow> json \<Rightarrow> evaluation \<times> string option \<Rightarrow> report \<Rightarrow> exn + report" where
  "report_file sv path change x rp =
     (case x of (e, source_sha) \<Rightarrow>
       (let ranges = changed_lines (json_get ''patch'' change) (json_get ''additions'' change) (json_get ''deletions'' change)
        in case collect_results (outcome_of e) (applicable (ev_language e)) of
             Inl err \<Rightarrow> Inl err
           | Inr outcomes \<Rightarrow>
               map_sum id (\<lambda>found.
                 \<lparr>rp_files = rp_files rp @ [file_of sv path change e source_sha outcomes],
                  rp_findings = rp_findings rp @ found,
                  rp_partial = (rp_partial rp \<or> narrowed e), rp_paths = path # rp_paths rp\<rparr>)
               (collect_results (finding_of sv path ranges e) (ev_findings e))))"

fun analyze_changes ::
  "'w services \<Rightarrow> repository_snapshot \<Rightarrow> string \<Rightarrow> string list \<Rightarrow> string \<Rightarrow> json list \<Rightarrow> report \<Rightarrow> ('w, report) step" where
  "analyze_changes sv repo token ignored root [] rp = io_ret rp"
| "analyze_changes sv repo token ignored root (change # changes) rp =
     io_bind (checkpoint sv) (\<lambda>_.
     io_bind (io_of (change_path change (rp_paths rp))) (\<lambda>path.
     io_bind (file_evaluation sv repo token ignored root path change) (\<lambda>x.
     io_bind (io_of (report_file sv path change x rp)) (\<lambda>rp'.
     analyze_changes sv repo token ignored root changes rp'))))"

definition file_list :: "'w services \<Rightarrow> repository_snapshot \<Rightarrow> pull_snapshot \<Rightarrow> string \<Rightarrow> int \<Rightarrow> ('w, json list) step" where
  "file_list sv repo snap token count =
     io_bind (fetch_json sv token (pull_path repo snap @ ''/files?per_page=100&page=1'')) (\<lambda>changes.
     case as_arr changes of
       None \<Rightarrow> io_raise (fail ''GITHUB_INCOMPLETE_FILE_LIST'')
     | Some xs \<Rightarrow>
         if int (length xs) \<noteq> min count (int max_files) then io_raise (fail ''GITHUB_INCOMPLETE_FILE_LIST'')
         else io_ret xs)"

definition result_of_report :: "int \<Rightarrow> report \<Rightarrow> analysis_result" where
  "result_of_report count rp =
     (let included = list_ex (\<lambda>f. fd_status f = INCLUDED) (rp_files rp);
          supported = list_ex (\<lambda>f. fd_status f = INCLUDED \<and> fd_language f \<noteq> None) (rp_files rp)
      in \<lparr>an_files = rp_files rp, an_findings = rp_findings rp,
          an_coverage = (if \<not> supported then NONE else if rp_partial rp then PARTIAL else FULL_SCOPE),
          an_reason =
            (if included \<and> \<not> supported then Some ''NO_SUPPORTED_FILES''
             else if int max_files < count then Some ''FILE_LIMIT''
             else if rp_partial rp then Some ''INCOMPLETE_SCOPE''
             else if included then None
             else Some ''NO_EVALUATED_FILES'')\<rparr>)"

definition analyze_local ::
  "'w services \<Rightarrow> repository_snapshot \<Rightarrow> pull_snapshot \<Rightarrow> string list \<Rightarrow> ('w, analysis_result) step" where
  "analyze_local sv repo snap ignored =
     io_bind (checkpoint sv) (\<lambda>_.
     io_bind (io_lift (sv_token sv (rs_installation_id repo) (rs_github_id repo))) (\<lambda>token.
     io_bind (verify sv repo snap token) (\<lambda>count.
     io_bind (file_list sv repo snap token count) (\<lambda>changes.
     io_bind (root_tree sv repo snap token) (\<lambda>root.
     io_bind (analyze_changes sv repo token ignored root changes
                \<lparr>rp_files = [], rp_findings = [], rp_partial = (int max_files < count), rp_paths = []\<rparr>) (\<lambda>rp.
     io_bind (verify sv repo snap token) (\<lambda>_.
     io_ret (result_of_report count rp))))))))"

definition analyze ::
  "'w services \<Rightarrow> repository_snapshot \<Rightarrow> pull_snapshot \<Rightarrow> string list \<Rightarrow> ('w, analysis_result) io" where
  "analyze sv repo snap ignored w =
     (case analyze_local sv repo snap ignored (w, \<lparr>lc_trees = [], lc_total = 0\<rparr>) of (r, s) \<Rightarrow> (r, fst s))"

end
