(* ===== verification/Content.thy ===== *)
theory Content
  imports Scanning Effects
begin

section \<open>Untrusted text: the secret filter and JSON text\<close>

text \<open>
  \<^verbatim>\<open>app/shared/content_safety.py\<close>: the pattern of suspected secrets as an explicit matcher, and the text
  that \<open>json.dumps(value, ensure_ascii=False)\<close> writes, whose UTF-8 length bounds what is sent to a
  provider. Characters are the code points below 256.
\<close>

subsection \<open>Suspected secrets\<close>

text \<open>
  \<open>re.search\<close> with \<open>re.I\<close>: the alternatives are tried at every position of the text in lower case
  (the classes of the pattern hold both cases of the ASCII letters, and no other letter below 256
  folds into them).
\<close>

fun somewhere :: "(string \<Rightarrow> bool) \<Rightarrow> string \<Rightarrow> bool" where
  "somewhere P [] = P []"
| "somewhere P (c # cs) = (P (c # cs) \<or> somewhere P cs)"

lemma somewhere_iff: "somewhere P s \<longleftrightarrow> (\<exists>a b. s = a @ b \<and> P b)"
proof (induction s)
  case (Cons c cs)
  have "(\<exists>a b. c # cs = a @ b \<and> P b) \<longleftrightarrow> P (c # cs) \<or> (\<exists>a b. cs = a @ b \<and> P b)"
    by (metis append_Cons append_Nil neq_Nil_conv list.inject)
  with Cons show ?case by simp
qed simp

text \<open>\<open>[A-Z ]*PRIVATE KEY\<close>\<close>

fun private_key_after :: "string \<Rightarrow> bool" where
  "private_key_after [] = False"
| "private_key_after (c # cs) =
     (starts_with ''private key'' (c # cs) \<or> (is_lower_ascii c \<or> c = CHR '' '') \<and> private_key_after cs)"

definition credential_at :: "string \<Rightarrow> bool" where
  "credential_at s \<longleftrightarrow>
     list_ex (\<lambda>x. starts_with [CHR ''g'', CHR ''h'', x, CHR ''_''] s) ''pousr'' \<and> run_of is_alnum_ascii 15 (drop 4 s) \<or>
     starts_with ''github_pat_'' s \<and> run_of (\<lambda>c. is_alnum_ascii c \<or> c = CHR ''_'') 15 (drop 11 s) \<or>
     starts_with ''sk-'' s \<and> run_of (\<lambda>c. is_alnum_ascii c \<or> c = CHR ''_'' \<or> c = CHR ''-'') 12 (drop 3 s) \<or>
     starts_with ''akia'' s \<and> run_of (\<lambda>c. is_alnum_ascii c \<or> c = CHR ''-'') 16 (drop 4 s)"

definition quote_mark :: "char \<Rightarrow> bool" where
  "quote_mark c \<longleftrightarrow> c = CHR 0x22 \<or> c = CHR 0x27"

definition quoted_plain :: "char \<Rightarrow> bool" where
  "quoted_plain c \<longleftrightarrow> \<not> quote_mark c \<and> c \<noteq> CR \<and> c \<noteq> LF"

text \<open>\<open>\s*[:=]\s*\<close>, a quote, four plain characters or more, a quote\<close>

definition quoted_value :: "string \<Rightarrow> bool" where
  "quoted_value s =
     (case dropWhile (\<lambda>c. c \<in> white) s of
        [] \<Rightarrow> False
      | c # rest \<Rightarrow>
          (c = CHR '':'' \<or> c = CHR ''='') \<and>
          (case dropWhile (\<lambda>c. c \<in> white) rest of
             [] \<Rightarrow> False
           | q # body \<Rightarrow>
               quote_mark q \<and> 4 \<le> length (takeWhile quoted_plain body) \<and>
               (case dropWhile quoted_plain body of [] \<Rightarrow> False | e # _ \<Rightarrow> quote_mark e)))"

definition secret_names :: "string list" where
  "secret_names = [''password'', ''secret'', ''api_key'', ''api-key'', ''apikey'', ''token'']"

definition secret_at :: "string \<Rightarrow> bool" where
  "secret_at s \<longleftrightarrow>
     starts_with ''-----begin '' s \<and> private_key_after (drop 11 s) \<or>
     credential_at s \<or>
     list_ex (\<lambda>name. starts_with name s \<and> quoted_value (drop (length name) s)) secret_names"

definition has_secret :: "string \<Rightarrow> bool" where
  "has_secret s = somewhere secret_at (lower s)"

lemma has_secret_append: "has_secret b \<Longrightarrow> has_secret (a @ b)"
  unfolding has_secret_def somewhere_iff lower_def by (metis append.assoc map_append)

subsection \<open>JSON text\<close>

text \<open>
  \<open>json.dumps(value, ensure_ascii=False)\<close> with its default separators: only the quotation mark, the
  backslash and the control characters are escaped.
\<close>

definition raw_char :: "char \<Rightarrow> string" where
  "raw_char c =
     (let n = of_char c :: nat in
      if c = CHR 0x22 then [CHR 0x5C, CHR 0x22]
      else if c = CHR 0x5C then [CHR 0x5C, CHR 0x5C]
      else if n = 10 then [CHR 0x5C, CHR ''n'']
      else if n = 13 then [CHR 0x5C, CHR ''r'']
      else if n = 9 then [CHR 0x5C, CHR ''t'']
      else if n = 12 then [CHR 0x5C, CHR ''f'']
      else if n = 8 then [CHR 0x5C, CHR ''b'']
      else if n < 32 then [CHR 0x5C, CHR ''u'', CHR ''0'', CHR ''0'', hex_chars ! (n div 16), hex_chars ! (n mod 16)]
      else [c])"

definition raw_quote :: "string \<Rightarrow> string" where
  "raw_quote s = CHR 0x22 # concat (map raw_char s) @ [CHR 0x22]"

fun separated :: "string list \<Rightarrow> string" where
  "separated [] = []"
| "separated [x] = x"
| "separated (x # xs) = x @ '', '' @ separated xs"

fun dumps :: "json \<Rightarrow> string" where
  "dumps JNull = ''null''"
| "dumps (JBool b) = (if b then ''true'' else ''false'')"
| "dumps (JInt n) = int_text n"
| "dumps (JFloat t) = t"
| "dumps (JStr t) = raw_quote t"
| "dumps (JArr vs) = ''['' @ separated (map dumps vs) @ '']''"
| "dumps (JObj kvs) = ''{'' @ separated (map (\<lambda>(k, v). raw_quote k @ '': '' @ dumps v) kvs) @ ''}''"

text \<open>\<open>len(json.dumps(value, ensure_ascii=False).encode())\<close>\<close>

definition wire_size :: "json \<Rightarrow> nat" where
  "wire_size v = length (utf8 (dumps v))"

lemma utf8_append [simp]: "utf8 (a @ b) = utf8 a @ utf8 b"
  by (simp add: utf8_def)

lemma utf8_Nil [simp]: "utf8 [] = []"
  by (simp add: utf8_def)

lemma separated_append:
  "xs \<noteq> [] \<Longrightarrow> ys \<noteq> [] \<Longrightarrow> separated (xs @ ys) = separated xs @ '', '' @ separated ys"
proof (induction xs rule: separated.induct)
  case (2 x)
  then show ?case by (cases ys) simp_all
qed simp_all

text \<open>A longer array takes more bytes.\<close>

lemma wire_size_prefix: "wire_size (JArr vs) \<le> wire_size (JArr (vs @ ws))"
proof (cases "vs = [] \<or> ws = []")
  case True
  then show ?thesis by (auto simp: wire_size_def utf8_def)
next
  case False
  then show ?thesis by (simp add: wire_size_def separated_append utf8_def)
qed

lemma wire_size_more: "vs \<noteq> [] \<Longrightarrow> ws \<noteq> [] \<Longrightarrow> wire_size (JArr vs) < wire_size (JArr (vs @ ws))"
  by (simp add: wire_size_def separated_append utf8_def)

end
