(* ===== verification/Analysis.thy ===== *)
theory Analysis
  imports Pipeline Pull_Requests Content
begin

section \<open>Analysis runs\<close>

text \<open>
  \<^verbatim>\<open>app/domain/analysis\<close> above the pipeline: the tables (\<^verbatim>\<open>models.py\<close>), the request, the cancellation
  and the readers of runs (\<^verbatim>\<open>service.py\<close>), the worker that executes the job of a run
  (\<^verbatim>\<open>worker.py\<close>) and the snapshot for the review domain (\<^verbatim>\<open>api.py\<close>). What the pipeline returns is an
  argument of the worker; the digest of the analyzer's build and SHA-256 are parameters.
\<close>

subsection \<open>Tables\<close>

text \<open>The inputs that identify an execution: \<open>**inputs\<close> of the request, without the constant scope.\<close>

record analysis_inputs =
  ar_workspace_id :: uuid
  ar_repository_id :: uuid
  ar_connection_generation :: int
  ar_pr_id :: uuid
  ar_base_sha :: string
  ar_head_sha :: string
  ar_merge_base_sha :: "string option"
  ar_rule_set_version :: string
  ar_config_id :: uuid
  ar_config_digest :: string
  ar_build_digest :: string

record analysis_run = analysis_inputs +
  ar_id :: uuid
  ar_created_at :: datetime
  ar_actor :: actor
  ar_requested_by :: "uuid option"
  ar_generation :: int
  ar_execution_key :: string
  ar_status :: run_status
  ar_coverage :: "coverage option"
  ar_coverage_reason :: "string option"
  ar_total_files :: int
  ar_included_files :: int
  ar_excluded_files :: int
  ar_failed_files :: int
  ar_not_evaluated_rules :: int
  ar_finding_count :: int
  ar_started_at :: "datetime option"
  ar_finished_at :: "datetime option"
  ar_error_code :: "string option"

record analysis_file =
  af_id :: uuid
  af_workspace_id :: uuid
  af_analysis_id :: uuid
  af_data :: file_data

record finding =
  fg_id :: uuid
  fg_workspace_id :: uuid
  fg_analysis_id :: uuid
  fg_data :: finding_data

record analysis_tables = pull_tables +
  analysis_runs :: "analysis_run list"
  analysis_files :: "analysis_file list"
  findings_stored :: "finding list"

definition terminal_runs :: "run_status list" where
  "terminal_runs = [COMPLETED, FAILED, RUN_CANCELED]"

definition analysis_row_ok :: "analysis_run \<Rightarrow> bool" where
  "analysis_row_ok r \<longleftrightarrow>
     (ar_actor r = USER) = (ar_requested_by r \<noteq> None) \<and>
     0 \<le> ar_generation r \<and> 0 < ar_connection_generation r \<and>
     (ar_status r \<in> set terminal_runs) = (ar_finished_at r \<noteq> None) \<and>
     (ar_status r = COMPLETED \<longrightarrow> ar_coverage r \<noteq> None) \<and>
     0 \<le> ar_total_files r \<and> 0 \<le> ar_included_files r \<and> 0 \<le> ar_excluded_files r \<and> 0 \<le> ar_failed_files r \<and>
     0 \<le> ar_not_evaluated_rules r \<and> 0 \<le> ar_finding_count r \<and>
     is_hex 40 (ar_base_sha r) \<and> is_hex 40 (ar_head_sha r) \<and>
     (case ar_merge_base_sha r of None \<Rightarrow> True | Some m \<Rightarrow> is_hex 40 m) \<and>
     is_hex 64 (ar_execution_key r) \<and> is_hex 64 (ar_config_digest r) \<and> is_hex 64 (ar_build_digest r)"

definition analysis_runs_ok :: "analysis_run list \<Rightarrow> bool" where
  "analysis_runs_ok rs \<longleftrightarrow>
     distinct (map ar_id rs) \<and> distinct (map ar_execution_key rs) \<and> list_all analysis_row_ok rs"

definition path_ok :: "string \<Rightarrow> bool" where
  "path_ok p \<longleftrightarrow> 1 \<le> length (utf8 p) \<and> length (utf8 p) \<le> 4096"

text \<open>
  The value of the JSONB column \<open>rule_outcomes\<close>. PostgreSQL prints it with the separators of
  \<open>json.dumps\<close> and the keys ordered by length.
\<close>

definition rule_outcome_json :: "rule_outcome \<Rightarrow> json" where
  "rule_outcome_json oc =
     JObj [(''status'', JStr (if oc_evaluated oc then ''EVALUATED'' else ''NOT_EVALUATED'')),
           (''rule_id'', JStr (oc_rule_id oc)),
           (''reason_code'', case oc_reason_code oc of None \<Rightarrow> JNull | Some r \<Rightarrow> JStr r),
           (''rule_version'', JStr (oc_rule_version oc))]"

definition file_row_ok :: "analysis_file \<Rightarrow> bool" where
  "file_row_ok f \<longleftrightarrow>
     path_ok (fd_file_path (af_data f)) \<and> is_hex 64 (fd_path_digest (af_data f)) \<and>
     wire_size (JArr (map rule_outcome_json (fd_rule_outcomes (af_data f)))) \<le> 65536 \<and>
     (case fd_source_sha (af_data f) of None \<Rightarrow> True | Some sha \<Rightarrow> length sha \<le> 40) \<and>
     (case fd_reason_code (af_data f) of None \<Rightarrow> True | Some r \<Rightarrow> length r \<le> 64)"

definition file_rows_ok :: "analysis_file list \<Rightarrow> bool" where
  "file_rows_ok fs \<longleftrightarrow>
     distinct (map af_id fs) \<and>
     distinct (map (\<lambda>f. (af_analysis_id f, fd_side (af_data f), fd_path_digest (af_data f))) fs) \<and>
     list_all file_row_ok fs"

definition finding_row_ok :: "finding \<Rightarrow> bool" where
  "finding_row_ok f \<longleftrightarrow>
     1 \<le> fn_start_line (fg_data f) \<and> fn_start_line (fg_data f) \<le> fn_end_line (fg_data f) \<and>
     path_ok (fn_file_path (fg_data f)) \<and> is_hex 64 (fn_fingerprint (fg_data f)) \<and>
     length (fn_rule_id (fg_data f)) \<le> 64 \<and> length (fn_rule_version (fg_data f)) \<le> 64 \<and>
     length (fn_message_code (fg_data f)) \<le> 64"

definition finding_rows_ok :: "finding list \<Rightarrow> bool" where
  "finding_rows_ok fs \<longleftrightarrow>
     distinct (map fg_id fs) \<and> distinct (map (\<lambda>f. (fg_analysis_id f, fn_fingerprint (fg_data f))) fs) \<and>
     list_all finding_row_ok fs"

definition analysis_schema :: "'a analysis_tables_scheme \<Rightarrow> bool" where
  "analysis_schema s \<longleftrightarrow>
     pull_schema s \<and> analysis_runs_ok (analysis_runs s) \<and> file_rows_ok (analysis_files s) \<and>
     finding_rows_ok (findings_stored s)"

interpretation analysis_store: row_store analysis_runs analysis_runs_update ar_id
  by unfold_locales simp_all

subsection \<open>Access\<close>

definition analysis_error :: "string \<Rightarrow> exn" where
  "analysis_error c = AppException c CONFLICT"

definition find_run :: "uuid \<Rightarrow> uuid \<Rightarrow> ('a analysis_tables_scheme, analysis_run) txn" where
  "find_run wid aid =
     bind (select_one analysis_runs (\<lambda>r. ar_id r = aid \<and> ar_workspace_id r = wid)) (\<lambda>found.
     case found of
       None \<Rightarrow> raise (AppException ''ANALYSIS_NOT_FOUND'' NOT_FOUND)
     | Some r \<Rightarrow> ret r)"

definition analysis_access ::
  "uuid \<Rightarrow> uuid \<Rightarrow> uuid \<Rightarrow> bool \<Rightarrow> ('a analysis_tables_scheme, analysis_run) txn" where
  "analysis_access uid wid aid active =
     bind (require_permission uid wid ''read'') (\<lambda>_.
     bind (find_run wid aid) (\<lambda>r.
     bind (repo_require uid wid (ar_repository_id r) ''read'' active) (\<lambda>repo.
     bind (check (\<not> (active \<and> rs_generation repo \<noteq> ar_connection_generation r))
            (analysis_error ''CONNECTION_CHANGED'')) (\<lambda>_.
     ret r))))"

subsection \<open>Requesting a run\<close>

text \<open>The JSON text under the execution key: sorted keys, no blanks, identifiers as strings.\<close>

definition json_field :: "string \<times> string \<Rightarrow> string" where
  "json_field kv = json_quote (fst kv) @ '':'' @ snd kv"

fun comma_list :: "string list \<Rightarrow> string" where
  "comma_list [] = []"
| "comma_list [x] = x"
| "comma_list (x # xs) = x @ '','' @ comma_list xs"

definition json_object :: "(string \<times> string) list \<Rightarrow> string" where
  "json_object kvs = ''{'' @ comma_list (map json_field kvs) @ ''}''"

definition json_uuid :: "uuid \<Rightarrow> string" where
  "json_uuid u = json_quote (uuid_text u)"

definition execution_text :: "analysis_inputs \<Rightarrow> int \<Rightarrow> string" where
  "execution_text x generation =
     json_object
       [(''analyzer_build_digest'', json_quote (ar_build_digest x)),
        (''base_sha'', json_quote (ar_base_sha x)),
        (''config_version_id'', json_uuid (ar_config_id x)),
        (''connection_generation'', int_text (ar_connection_generation x)),
        (''effective_config_digest'', json_quote (ar_config_digest x)),
        (''generation'', int_text generation),
        (''head_sha'', json_quote (ar_head_sha x)),
        (''merge_base_sha'', (case ar_merge_base_sha x of None \<Rightarrow> ''null'' | Some m \<Rightarrow> json_quote m)),
        (''pr_id'', json_uuid (ar_pr_id x)),
        (''repository_connection_id'', json_uuid (ar_repository_id x)),
        (''rule_set_version'', json_quote (ar_rule_set_version x)),
        (''scope'', json_quote ''PR_CHANGED_FILES''),
        (''workspace_id'', json_uuid (ar_workspace_id x))]"

definition rule_set :: string where
  "rule_set = ''static-1.1.0''"

definition analysis_open :: "analysis_run \<Rightarrow> bool" where
  "analysis_open r \<longleftrightarrow> ar_status r = PENDING \<or> ar_status r = RUNNING"

text \<open>The commits of the pull request, or those of the earlier run that is repeated.\<close>

definition rerun_commits ::
  "uuid \<Rightarrow> uuid \<Rightarrow> repository_snapshot \<Rightarrow> uuid option \<Rightarrow> string option \<times> string option \<Rightarrow>
   ('a analysis_tables_scheme, string option \<times> string option) txn" where
  "rerun_commits wid pid repo rerun_of commits =
     (case rerun_of of
        None \<Rightarrow> ret commits
      | Some aid \<Rightarrow>
          bind (find_run wid aid) (\<lambda>previous.
          bind (check (ar_pr_id previous = pid \<and> ar_repository_id previous = rs_repo_id repo \<and>
                       ar_connection_generation previous = rs_generation repo \<and>
                       ar_status previous \<in> set terminal_runs)
                 (analysis_error ''INVALID_RERUN'')) (\<lambda>_.
          ret (Some (ar_base_sha previous), Some (ar_head_sha previous)))))"

definition commit_of :: "string option \<Rightarrow> exn + string" where
  "commit_of x =
     (case x of
        Some v \<Rightarrow> if is_hex 40 v then Inr v else Inl (analysis_error ''PR_SNAPSHOT_REQUIRED'')
      | None \<Rightarrow> Inl (analysis_error ''PR_SNAPSHOT_REQUIRED''))"

definition inputs_of ::
  "string \<Rightarrow> uuid \<Rightarrow> uuid \<Rightarrow> repository_snapshot \<Rightarrow> uuid \<times> string \<Rightarrow> string \<Rightarrow> string \<Rightarrow> analysis_inputs" where
  "inputs_of build wid pid repo config base head =
     \<lparr>ar_workspace_id = wid, ar_repository_id = rs_repo_id repo,
      ar_connection_generation = rs_generation repo, ar_pr_id = pid, ar_base_sha = base,
      ar_head_sha = head, ar_merge_base_sha = None, ar_rule_set_version = rule_set,
      ar_config_id = fst config, ar_config_digest = snd config, ar_build_digest = build\<rparr>"

definition next_generation :: "uuid option \<Rightarrow> analysis_inputs \<Rightarrow> analysis_run list \<Rightarrow> int" where
  "next_generation rerun_of x rs =
     (if rerun_of = None then 0
      else
        (let gs = map ar_generation (filter (\<lambda>r. analysis_inputs.truncate r = x) rs)
         in (if gs = [] then 0 else Max (set gs)) + 1))"

definition new_run :: "datetime \<Rightarrow> uuid \<Rightarrow> uuid \<Rightarrow> analysis_inputs \<Rightarrow> int \<Rightarrow> string \<Rightarrow> analysis_run" where
  "new_run db_now aid uid x generation key =
     analysis_inputs.extend x
       \<lparr>ar_id = aid, ar_created_at = db_now, ar_actor = USER, ar_requested_by = Some uid,
        ar_generation = generation, ar_execution_key = key, ar_status = PENDING, ar_coverage = None,
        ar_coverage_reason = None, ar_total_files = 0, ar_included_files = 0, ar_excluded_files = 0,
        ar_failed_files = 0, ar_not_evaluated_rules = 0, ar_finding_count = 0, ar_started_at = None,
        ar_finished_at = None, ar_error_code = None\<rparr>"

text \<open>The last part of \<open>start\<close>: an execution with this key, a run in progress, or a new one.\<close>

definition request_run ::
  "(string \<Rightarrow> string) \<Rightarrow> datetime \<Rightarrow> uuid \<Rightarrow> uuid \<Rightarrow> uuid \<Rightarrow> uuid option \<Rightarrow> analysis_inputs \<Rightarrow>
   ('a analysis_tables_scheme, analysis_run) txn" where
  "request_run sha db_now aid jid uid rerun_of x =
     bind (gets (\<lambda>s. next_generation rerun_of x (analysis_runs s))) (\<lambda>generation.
     (let key = sha (execution_text x generation) in
      bind (select_first analysis_runs (\<lambda>r. ar_execution_key r = key)) (\<lambda>existing.
      case existing of
        Some r \<Rightarrow> ret r
      | None \<Rightarrow>
          bind (select_first analysis_runs (\<lambda>r.
                  ar_pr_id r = ar_pr_id x \<and> ar_workspace_id r = ar_workspace_id x \<and> analysis_open r)) (\<lambda>active.
          bind (check (active = None) (analysis_error ''ANALYSIS_IN_PROGRESS'')) (\<lambda>_.
          (let row = new_run db_now aid uid x generation key in
           bind (add_row analysis_runs_update row) (\<lambda>_.
           bind (flush analysis_schema) (\<lambda>_.
           bind (enqueue_job sha db_now jid ANALYZE_PR aid (Some (ar_workspace_id x))) (\<lambda>_.
           ret row)))))))))"

definition start_analysis ::
  "(string \<Rightarrow> string) \<Rightarrow> string \<Rightarrow> bool \<Rightarrow> datetime \<Rightarrow> uuid \<Rightarrow> uuid \<Rightarrow> uuid \<Rightarrow> uuid \<Rightarrow> uuid \<Rightarrow> uuid option \<Rightarrow>
   ('a analysis_tables_scheme, analysis_run) txn" where
  "start_analysis sha build enabled db_now aid jid uid wid pid rerun_of =
     bind (check enabled (AppException ''ANALYSIS_RUNNER_DISABLED'' UNAVAILABLE)) (\<lambda>_.
     bind (analysis_snapshot uid wid pid) (\<lambda>pr.
     bind (repo_require uid wid (pv_repository_id pr) ''sync'' True) (\<lambda>repo.
     bind (analysis_config uid wid (rs_repo_id repo) None) (\<lambda>(config, config_digest, ignored).
     bind (rerun_commits wid pid repo rerun_of (pv_base_sha pr, pv_head_sha pr)) (\<lambda>(base, head).
     (case commit_of base of
        Inl e \<Rightarrow> raise e
      | Inr b \<Rightarrow>
          (case commit_of head of
             Inl e \<Rightarrow> raise e
           | Inr h \<Rightarrow> request_run sha db_now aid jid uid rerun_of
                        (inputs_of build wid pid repo (config, config_digest) b h))))))))"

subsection \<open>Reading and cancelling\<close>

definition get_analysis :: "uuid \<Rightarrow> uuid \<Rightarrow> uuid \<Rightarrow> ('a analysis_tables_scheme, analysis_run) txn" where
  "get_analysis uid wid aid = analysis_access uid wid aid False"

definition analysis_history ::
  "uuid \<Rightarrow> uuid \<Rightarrow> uuid \<Rightarrow> ('a analysis_tables_scheme, analysis_run list) txn" where
  "analysis_history uid wid pid =
     bind (analysis_snapshot uid wid pid) (\<lambda>_.
     gets (\<lambda>s. take 50 (rev (sort_key (\<lambda>r. (ar_created_at r, ar_id r))
       (filter (\<lambda>r. ar_workspace_id r = wid \<and> ar_pr_id r = pid) (analysis_runs s))))))"

fun severity_rank :: "severity \<Rightarrow> nat" where
  "severity_rank CRITICAL = 0"
| "severity_rank ERROR = 1"
| "severity_rank WARNING = 2"
| "severity_rank INFO = 3"

definition finding_order :: "finding \<Rightarrow> nat \<times> uuid" where
  "finding_order f = (severity_rank (fn_severity (fg_data f)), fg_id f)"

definition finding_results ::
  "uuid \<Rightarrow> uuid \<Rightarrow> uuid \<Rightarrow> uuid option \<Rightarrow> category option \<Rightarrow> ('a analysis_tables_scheme, finding list) txn" where
  "finding_results uid wid aid cursor category =
     bind (analysis_access uid wid aid False) (\<lambda>_.
     (let rows = (\<lambda>P. gets (\<lambda>s. take 101 (sort_key finding_order
            (filter (\<lambda>f. fg_workspace_id f = wid \<and> fg_analysis_id f = aid \<and>
               (case category of None \<Rightarrow> True | Some c \<Rightarrow> fn_category (fg_data f) = c) \<and> P f) (findings_stored s)))))
      in case cursor of
           None \<Rightarrow> rows (\<lambda>_. True)
         | Some fid \<Rightarrow>
             bind (select_first findings_stored (\<lambda>f. fg_workspace_id f = wid \<and> fg_analysis_id f = aid \<and> fg_id f = fid)) (\<lambda>found.
             case found of
               None \<Rightarrow> raise (AppException ''INVALID_CURSOR'' INVALID_INPUT)
             | Some previous \<Rightarrow> rows (\<lambda>f. finding_order previous < finding_order f))))"

definition file_results ::
  "uuid \<Rightarrow> uuid \<Rightarrow> uuid \<Rightarrow> uuid option \<Rightarrow> ('a analysis_tables_scheme, analysis_file list) txn" where
  "file_results uid wid aid cursor =
     bind (analysis_access uid wid aid False) (\<lambda>_.
     gets (\<lambda>s. take 101 (sort_key af_id (filter (\<lambda>f. af_workspace_id f = wid \<and> af_analysis_id f = aid \<and>
       (case cursor of None \<Rightarrow> True | Some c \<Rightarrow> c < af_id f)) (analysis_files s)))))"

definition cancel_run :: "datetime \<Rightarrow> analysis_run \<Rightarrow> analysis_run" where
  "cancel_run now r =
     r\<lparr>ar_status := RUN_CANCELED, ar_finished_at := Some now, ar_error_code := Some ''USER_CANCELED''\<rparr>"

definition cancel_analysis ::
  "datetime \<Rightarrow> uuid \<Rightarrow> uuid \<Rightarrow> uuid \<Rightarrow> ('a analysis_tables_scheme, analysis_run) txn" where
  "cancel_analysis now uid wid aid =
     bind (analysis_access uid wid aid False) (\<lambda>r.
     bind (if ar_requested_by r \<noteq> Some uid then bind (require_permission uid wid ''manage'') (\<lambda>_. ret ()) else ret ()) (\<lambda>_.
     if ar_status r \<in> set terminal_runs then ret r
     else
       bind (select_first jobs (\<lambda>j. job_kind j = ANALYZE_PR \<and> job_aggregate_id j = aid)) (\<lambda>found.
       case found of
         None \<Rightarrow> raise (analysis_error ''JOB_NOT_FOUND'')
       | Some j \<Rightarrow>
           bind (save_row jobs_update job_id (cancel_analysis_job now j)) (\<lambda>_.
           bind (save_row analysis_runs_update ar_id (cancel_run now r)) (\<lambda>_.
           ret (cancel_run now r))))))"

subsection \<open>The worker\<close>

definition checkpoint_analysis :: "datetime \<Rightarrow> claim \<Rightarrow> ('a analysis_tables_scheme, unit) txn" where
  "checkpoint_analysis now c =
     (case claim_workspace_id c of
        None \<Rightarrow> raise AssertionError
      | Some wid \<Rightarrow>
          bind (lock_system wid) (\<lambda>active.
          bind (check active (analysis_error ''ACCESS_REVOKED'')) (\<lambda>_.
          bind (find_run wid (claim_aggregate_id c)) (\<lambda>r.
          bind (check (ar_status r \<notin> set terminal_runs) (analysis_error ''ANALYSIS_CANCELED'')) (\<lambda>_.
          case ar_requested_by r of
            None \<Rightarrow> raise AssertionError
          | Some uid \<Rightarrow>
              bind (analysis_access uid (ar_workspace_id r) (ar_id r) True) (\<lambda>_.
              bind (fence now c False) (\<lambda>job.
              check (job \<noteq> None) (analysis_error ''LEASE_LOST''))))))))"

text \<open>What the first transaction hands to the pipeline.\<close>

record analysis_task =
  tk_repo :: repository_snapshot
  tk_snapshot :: pull_snapshot
  tk_ignored :: "string list"

definition prepare_analysis ::
  "string \<Rightarrow> datetime \<Rightarrow> uuid \<Rightarrow> analysis_run \<Rightarrow> ('a analysis_tables_scheme, analysis_task) txn" where
  "prepare_analysis build now' uid r =
     bind (analysis_access uid (ar_workspace_id r) (ar_id r) True) (\<lambda>_.
     bind (repo_require uid (ar_workspace_id r) (ar_repository_id r) ''read'' True) (\<lambda>repo.
     bind (analysis_config uid (ar_workspace_id r) (rs_repo_id repo) (Some (ar_config_id r))) (\<lambda>(config, digest, ignored).
     bind (check (ar_build_digest r = build \<and> ar_rule_set_version r = rule_set \<and> config = ar_config_id r \<and>
                  digest = ar_config_digest r) (analysis_error ''ANALYZER_VERSION_CHANGED'')) (\<lambda>_.
     bind (analysis_snapshot uid (ar_workspace_id r) (ar_pr_id r)) (\<lambda>pr.
     bind (save_row analysis_runs_update ar_id (r\<lparr>ar_status := RUNNING, ar_started_at := Some now'\<rparr>)) (\<lambda>_.
     ret \<lparr>tk_repo = repo,
          tk_snapshot = \<lparr>sn_number = pv_number pr, sn_base_sha = ar_base_sha r, sn_head_sha = ar_head_sha r\<rparr>,
          tk_ignored = ignored\<rparr>))))))"

definition begin_analysis ::
  "string \<Rightarrow> datetime \<Rightarrow> datetime \<Rightarrow> claim \<Rightarrow> ('a analysis_tables_scheme, analysis_task option) txn" where
  "begin_analysis build now now' c =
     (case claim_workspace_id c of
        None \<Rightarrow> raise AssertionError
      | Some wid \<Rightarrow>
          bind (lock_system wid) (\<lambda>active.
          bind (check active (analysis_error ''ACCESS_REVOKED'')) (\<lambda>_.
          bind (find_run wid (claim_aggregate_id c)) (\<lambda>r.
          if ar_status r \<in> set terminal_runs then ret None
          else
            bind (fence now c False) (\<lambda>job.
            if job = None then ret None
            else
              (case ar_requested_by r of
                 None \<Rightarrow> raise AssertionError
               | Some uid \<Rightarrow> bind (prepare_analysis build now' uid r) (\<lambda>task. ret (Some task))))))))"

text \<open>Storing a result: its rows, under fresh keys, and the counters of the run.\<close>

definition file_rows :: "(nat \<Rightarrow> uuid) \<Rightarrow> analysis_run \<Rightarrow> file_data list \<Rightarrow> analysis_file list" where
  "file_rows keys r fs =
     map (\<lambda>(n, f). \<lparr>af_id = keys n, af_workspace_id = ar_workspace_id r, af_analysis_id = ar_id r, af_data = f\<rparr>)
       (enumerate 0 fs)"

definition finding_rows :: "(nat \<Rightarrow> uuid) \<Rightarrow> analysis_run \<Rightarrow> finding_data list \<Rightarrow> finding list" where
  "finding_rows keys r fs =
     map (\<lambda>(n, f). \<lparr>fg_id = keys n, fg_workspace_id = ar_workspace_id r, fg_analysis_id = ar_id r, fg_data = f\<rparr>)
       (enumerate 0 fs)"

definition counted :: "('a \<Rightarrow> bool) \<Rightarrow> 'a list \<Rightarrow> int" where
  "counted P xs = int (length (filter P xs))"

definition summarize :: "analysis_result \<Rightarrow> analysis_run \<Rightarrow> analysis_run" where
  "summarize x r =
     (let total = int (length (an_files x));
          included = counted (\<lambda>f. fd_status f = INCLUDED) (an_files x);
          excluded = counted (\<lambda>f. fd_status f = EXCLUDED) (an_files x)
      in r\<lparr>ar_coverage := Some (an_coverage x), ar_coverage_reason := an_reason x, ar_total_files := total,
           ar_finding_count := int (length (an_findings x)), ar_included_files := included,
           ar_excluded_files := excluded, ar_failed_files := total - included - excluded,
           ar_not_evaluated_rules :=
             counted (\<lambda>oc. \<not> oc_evaluated oc) (concat (map fd_rule_outcomes (an_files x)))\<rparr>)"

definition store_result ::
  "(nat \<Rightarrow> uuid) \<Rightarrow> (nat \<Rightarrow> uuid) \<Rightarrow> analysis_result \<Rightarrow> analysis_run \<Rightarrow> ('a analysis_tables_scheme, analysis_run) txn" where
  "store_result fkeys gkeys x r =
     bind (modify (analysis_files_update (\<lambda>fs. fs @ file_rows fkeys r (an_files x)))) (\<lambda>_.
     bind (modify (findings_stored_update (\<lambda>fs. fs @ finding_rows gkeys r (an_findings x)))) (\<lambda>_.
     ret (summarize x r)))"

definition cancel_codes :: "string list" where
  "cancel_codes = [''ACCESS_REVOKED'', ''ANALYSIS_CANCELED'', ''CONNECTION_CHANGED'']"

definition closing_status :: "job_state \<Rightarrow> string option \<Rightarrow> run_status" where
  "closing_status state code =
     (if state = READY then PENDING
      else
        (case code of
           None \<Rightarrow> COMPLETED
         | Some c \<Rightarrow> if c \<in> set cancel_codes then RUN_CANCELED else if c \<noteq> [] then FAILED else COMPLETED))"

definition close_run :: "datetime \<Rightarrow> job_state \<Rightarrow> string option \<Rightarrow> analysis_run \<Rightarrow> analysis_run" where
  "close_run now state code r =
     r\<lparr>ar_status := closing_status state code, ar_error_code := code,
       ar_finished_at := (if state = READY then None else Some now)\<rparr>"

definition finish_run ::
  "datetime \<Rightarrow> datetime \<Rightarrow> string option \<Rightarrow> bool \<Rightarrow> int \<Rightarrow> job \<Rightarrow> analysis_run \<Rightarrow> ('a analysis_tables_scheme, unit) txn" where
  "finish_run now now' code retry delay j r =
     bind (finish_job now code retry delay j) (\<lambda>j'.
     bind (if closing_status (job_state j') code = RUN_CANCELED
           then save_row jobs_update job_id (cancel_finished False j') else ret ()) (\<lambda>_.
     save_row analysis_runs_update ar_id (close_run now' (job_state j') code r)))"

text \<open>The clock readings of one completion and the keys of the rows it may insert.\<close>

record analysis_clock =
  ak_fence :: datetime
  ak_finish :: datetime
  ak_closed :: datetime
  ak_files :: "nat \<Rightarrow> uuid"
  ak_findings :: "nat \<Rightarrow> uuid"

definition revoked_outcome ::
  "exn + analysis_run \<Rightarrow> analysis_result option \<times> string option \<times> bool \<Rightarrow>
   analysis_result option \<times> string option \<times> bool" where
  "revoked_outcome access x = (case access of Inl _ \<Rightarrow> (None, Some ''ACCESS_REVOKED'', False) | Inr _ \<Rightarrow> x)"

definition complete_analysis ::
  "analysis_clock \<Rightarrow> claim \<Rightarrow> analysis_result option \<Rightarrow> string option \<Rightarrow> bool \<Rightarrow> bool \<Rightarrow> int \<Rightarrow>
   ('a analysis_tables_scheme, unit) txn" where
  "complete_analysis ck c result0 code0 retry0 expired delay =
     (case claim_workspace_id c of
        None \<Rightarrow> raise AssertionError
      | Some wid \<Rightarrow>
          bind (lock_system wid) (\<lambda>_.
          bind (find_run wid (claim_aggregate_id c)) (\<lambda>r.
          if ar_status r \<in> set terminal_runs then ret ()
          else
            (case ar_requested_by r of
               None \<Rightarrow> raise AssertionError
             | Some uid \<Rightarrow>
                 bind (attempt_app (analysis_access uid (ar_workspace_id r) (ar_id r) True)) (\<lambda>access.
                 (case revoked_outcome access (result0, code0, retry0) of (result, code, retry) \<Rightarrow>
                   bind (fence (ak_fence ck) c expired) (\<lambda>fenced.
                   case fenced of
                     None \<Rightarrow> ret ()
                   | Some j \<Rightarrow>
                       bind (case result of
                               Some x \<Rightarrow> if code = None then store_result (ak_files ck) (ak_findings ck) x r else ret r
                             | None \<Rightarrow> ret r) (\<lambda>r'.
                       finish_run (ak_finish ck) (ak_closed ck) code retry delay j r'))))))))"

text \<open>
  \<open>execute\<close>: two transactions around the pipeline, which runs outside any transaction under a time
  limit; \<open>analyzed\<close> is its result, \<open>meanwhile\<close> what other transactions, the checkpoints among them,
  do to the database before the second one. Whatever the body raises, \<open>complete\<close> included, is
  recorded by a further completion.
\<close>

fun failure_outcome :: "exn \<Rightarrow> string \<times> bool \<times> int" where
  "failure_outcome TimeoutError = (''ANALYSIS_TIMEOUT'', False, 5)"
| "failure_outcome (GitHubFailure code after) =
     (code, code = ''GITHUB_UNAVAILABLE'' \<or> code = ''GITHUB_RATE_LIMIT'', sync_delay after)"
| "failure_outcome (AppException code kind) = (code, False, 5)"
| "failure_outcome e = (''ANALYSIS_FAILED'', False, 5)"

definition analysis_failure ::
  "analysis_clock \<Rightarrow> claim \<Rightarrow> exn \<Rightarrow> 'a analysis_tables_scheme \<Rightarrow> (exn + unit) \<times> 'a analysis_tables_scheme" where
  "analysis_failure ck c e s =
     (case failure_outcome e of (code, retry, delay) \<Rightarrow>
        transaction analysis_schema (complete_analysis ck c None (Some code) retry False delay) s)"

definition execute_analysis ::
  "string \<Rightarrow> datetime \<Rightarrow> datetime \<Rightarrow> analysis_clock \<Rightarrow> analysis_clock \<Rightarrow> (analysis_task \<Rightarrow> exn + analysis_result) \<Rightarrow>
   ('a analysis_tables_scheme \<Rightarrow> 'a analysis_tables_scheme) \<Rightarrow> claim \<Rightarrow> bool \<Rightarrow>
   'a analysis_tables_scheme \<Rightarrow> (exn + unit) \<times> 'a analysis_tables_scheme" where
  "execute_analysis build now now' ck ck' analyzed meanwhile c expired s =
     (if expired
      then transaction analysis_schema (complete_analysis ck c None (Some ''LEASE_EXPIRED'') True True 5) s
      else if claim_workspace_id c = None then (Inl AssertionError, s)
      else
        (case transaction analysis_schema (begin_analysis build now now' c) s of
           (Inl e, s1) \<Rightarrow> analysis_failure ck' c e s1
         | (Inr None, s1) \<Rightarrow> (Inr (), s1)
         | (Inr (Some task), s1) \<Rightarrow>
             (case analyzed task of
                Inl e \<Rightarrow> analysis_failure ck' c e (meanwhile s1)
              | Inr x \<Rightarrow>
                  (case transaction analysis_schema (complete_analysis ck c (Some x) None False False 5) (meanwhile s1) of
                     (Inl e, s2) \<Rightarrow> analysis_failure ck' c e s2
                   | ok \<Rightarrow> ok))))"

subsection \<open>The snapshot for the review\<close>

record review_finding =
  rf_rule_id :: string
  rf_severity :: severity
  rf_language :: "language option"

record review_snapshot =
  vs_id :: uuid
  vs_pr_id :: uuid
  vs_repository_id :: uuid
  vs_generation :: int
  vs_base_sha :: string
  vs_head_sha :: string
  vs_findings :: "review_finding list"
  vs_config_id :: uuid

text \<open>\<open>findings.sort(key=...)\<close> is stable over the thousand smallest fingerprints.\<close>

definition review_findings :: "uuid \<Rightarrow> uuid \<Rightarrow> finding list \<Rightarrow> review_finding list" where
  "review_findings wid aid fs =
     take 10 (map (\<lambda>f. \<lparr>rf_rule_id = fn_rule_id (fg_data f), rf_severity = fn_severity (fg_data f),
                        rf_language = fn_language (fg_data f)\<rparr>)
       (filter (\<lambda>f. fn_category (fg_data f) \<noteq> SECURITY)
         (sort_key (\<lambda>f. severity_rank (fn_severity (fg_data f)))
           (take 1000 (sort_key (\<lambda>f. fn_fingerprint (fg_data f))
             (filter (\<lambda>f. fg_workspace_id f = wid \<and> fg_analysis_id f = aid) fs))))))"

definition review_snapshot_of :: "uuid \<Rightarrow> uuid \<Rightarrow> uuid \<Rightarrow> ('a analysis_tables_scheme, review_snapshot) txn" where
  "review_snapshot_of uid wid aid =
     bind (analysis_access uid wid aid True) (\<lambda>r.
     bind (check (ar_status r = COMPLETED) (analysis_error ''ANALYSIS_NOT_COMPLETED'')) (\<lambda>_.
     bind (gets findings_stored) (\<lambda>fs.
     ret \<lparr>vs_id = ar_id r, vs_pr_id = ar_pr_id r, vs_repository_id = ar_repository_id r,
          vs_generation = ar_connection_generation r, vs_base_sha = ar_base_sha r, vs_head_sha = ar_head_sha r,
          vs_findings = review_findings wid aid fs, vs_config_id = ar_config_id r\<rparr>)))"

end
