(* ===== verification/Analyzer_Results.thy ===== *)
theory Analyzer_Results
  imports Analyzer "HOL-Library.Multiset"
begin

section \<open>Correctness of the analyzer\<close>

subsection \<open>The two walks\<close>

text \<open>The reference order: a node, then its named children from left to right, recursively.\<close>

fun preorder :: "nat \<Rightarrow> node \<Rightarrow> node list" where
  "preorder 0 n = [n]"
| "preorder (Suc k) n = n # concat (map (preorder k) (named_children n))"

lemma child_smaller: "m \<in> set (named_children n) \<Longrightarrow> size m < size n"
  using named_children_size [of n] member_le_sum_list [of "size m" "map size (named_children n)"] by simp

text \<open>Any fuel of at least the size of the node gives the whole order.\<close>

lemma preorder_fuel: "size n \<le> k \<Longrightarrow> size n \<le> k' \<Longrightarrow> preorder k n = preorder k' n"
proof (induction k arbitrary: n k')
  case 0
  then show ?case by (cases n) simp
next
  case (Suc k)
  have "size n \<noteq> 0" by (cases n) simp
  with Suc.prems(2) obtain i where i: "k' = Suc i" by (cases k') auto
  have "preorder k m = preorder i m" if m: "m \<in> set (named_children n)" for m
  proof (rule Suc.IH)
    show "size m \<le> k" "size m \<le> i" using child_smaller [OF m] Suc.prems i by linarith+
  qed
  then show ?case by (simp add: i cong: map_cong)
qed

definition visit :: "node \<Rightarrow> node list" where
  "visit n = preorder (size n) n"

lemma visit_unfold: "visit n = n # concat (map visit (named_children n))"
proof -
  obtain k where k: "size n = Suc k" by (cases n) simp
  have "preorder k m = visit m" if "m \<in> set (named_children n)" for m
    unfolding visit_def using child_smaller [OF that] k by (intro preorder_fuel) auto
  then show ?thesis by (simp add: visit_def k cong: map_cong)
qed

lemma walk_visits: "walk stack = concat (map visit stack)"
proof (induction stack rule: walk.induct)
  case (2 n stack)
  have "concat (map visit (n # stack)) = n # concat (map visit (named_children n @ stack))"
    using visit_unfold [of n] by simp
  with 2 show ?case by simp
qed simp

lemma walk_depth_nodes: "map (\<lambda>x. snd (fst x)) (walk_depth stack) = walk (map (\<lambda>x. snd (fst x)) stack)"
proof (induction stack rule: walk_depth.induct)
  case (2 parent n depth stack)
  then show ?case by (simp add: comp_def)
qed simp

definition child_of :: "located \<Rightarrow> bool" where
  "child_of x = (case fst x of None \<Rightarrow> True | Some p \<Rightarrow> snd x \<in> set (named_children p))"

lemma walk_depth_parents:
  "\<forall>x \<in> set stack. child_of (fst x) \<Longrightarrow> \<forall>x \<in> set (walk_depth stack). child_of (fst x)"
proof (induction stack rule: walk_depth.induct)
  case (2 parent n depth stack)
  have "\<forall>x \<in> set (map (\<lambda>c. ((Some n, c), depth_below parent n depth)) (named_children n) @ stack). child_of (fst x)"
    using 2(2) by (auto simp: child_of_def)
  then show ?case using 2 by simp
qed simp

subsection \<open>Findings\<close>

text \<open>The reference: the distinct elements in the order of their first occurrence.\<close>

definition firsts :: "'a list \<Rightarrow> 'a list" where
  "firsts xs = rev (remdups (rev xs))"

lemma firsts_snoc: "firsts (xs @ [x]) = (if x \<in> set xs then firsts xs else firsts xs @ [x])"
  by (simp add: firsts_def)

lemma firsts_simps [simp]: "set (firsts xs) = set xs" "distinct (firsts xs)" "firsts [] = []"
  by (simp_all add: firsts_def)

definition collected :: "span list \<Rightarrow> findings \<Rightarrow> bool" where
  "collected xs st \<longleftrightarrow>
     fs_seen st = rev (firsts xs) \<and> fs_found st = map observation_of (take 100 (firsts xs)) \<and>
     fs_limit st = (100 < length (firsts xs)) \<and> list_all observation_ok (fs_found st)"

lemma collected_none: "collected [] no_findings"
  by (simp add: collected_def no_findings_def)

lemma collected_add:
  assumes "collected xs st" and "add_finding x st = Inr st'"
  shows "collected (xs @ [x]) st'"
proof (cases "x \<in> set xs")
  case True
  then have "x \<in> set (fs_seen st)" and same: "firsts (xs @ [x]) = firsts xs"
    using assms(1) by (simp_all add: firsts_snoc collected_def)
  with assms(2) have "st' = st" by (simp add: add_finding_def)
  then show ?thesis using assms(1) unfolding collected_def same by blast
next
  case False
  then have new: "firsts (xs @ [x]) = firsts xs @ [x]" and fresh: "x \<notin> set (fs_seen st)"
    using assms(1) by (simp_all add: firsts_snoc collected_def)
  show ?thesis
  proof (cases "100 \<le> length (firsts xs)")
    case True
    then have "100 \<le> length (fs_found st)" using assms(1) by (simp add: collected_def)
    with assms fresh new True show ?thesis by (auto simp: collected_def add_finding_def)
  next
    case False
    then have "\<not> 100 \<le> length (fs_found st)" using assms(1) by (simp add: collected_def)
    with assms fresh new False show ?thesis
      by (auto simp: collected_def add_finding_def split: if_splits)
  qed
qed

lemma collected_adds:
  "collected xs st \<Longrightarrow> add_findings ys st = Inr st' \<Longrightarrow> collected (xs @ ys) st'"
proof (induction ys arbitrary: xs st)
  case (Cons y ys)
  from Cons.prems obtain st1 where st1: "add_finding y st = Inr st1" "add_findings ys st1 = Inr st'"
    by (auto split: sum.splits)
  with Cons.IH [OF collected_add [OF Cons.prems(1) st1(1)] st1(2)] show ?case by simp
qed simp

lemma add_findings_total:
  assumes "list_all (\<lambda>x. observation_ok (observation_of x)) ys"
  shows "\<exists>st'. add_findings ys st = Inr st'"
  using assms
proof (induction ys arbitrary: st)
  case (Cons y ys)
  then have "\<exists>st1. add_finding y st = Inr st1" by (simp add: add_finding_def)
  with Cons show ?case by auto
qed simp

subsection \<open>Accounting of the rules\<close>

text \<open>A target whose binding is uncertain; the loop withdraws the rules of exactly these.\<close>

definition blocked :: "language \<Rightarrow> located list \<Rightarrow> string \<Rightarrow> bool" where
  "blocked language nodes name \<longleftrightarrow>
     \<not> unbound language nodes name (callers language name) \<or> list_ex (dynamic_at name) (map snd nodes)"

definition withdrawn :: "language \<Rightarrow> located list \<Rightarrow> (string \<times> string) list \<Rightarrow> string list" where
  "withdrawn language nodes ts = map snd (filter (\<lambda>t. blocked language nodes (fst t)) ts)"

lemma check_targets_eq:
  "check_targets language nodes ts acc =
   (concat (map (\<lambda>(name, rule). map (\<lambda>n. (rule, n)) (filter (direct_call (callers language name) name) (map snd nodes)))
      (filter (\<lambda>t. \<not> blocked language nodes (fst t)) ts)),
    fold withdraw (withdrawn language nodes ts) acc)"
proof (induction ts arbitrary: acc)
  case Nil
  show ?case by (simp add: withdrawn_def)
next
  case (Cons t ts)
  then show ?case by (cases t) (simp add: blocked_def withdrawn_def Let_def)
qed

lemma fold_withdraw:
  "distinct ev \<Longrightarrow> fold withdraw rs (ev, nev) = (filter (\<lambda>r. r \<notin> set rs) ev, nev @ rs)"
proof (induction rs arbitrary: ev nev)
  case (Cons r rs)
  have "remove1 r ev = filter (\<lambda>x. x \<noteq> r) ev"
    using Cons.prems by (simp add: distinct_remove1_removeAll removeAll_filter_not_eq neq_commute)
  with Cons show ?case by (simp add: withdraw_def conj_commute)
qed simp

lemma targets_distinct: "distinct (map snd (targets l))"
  by (cases l) simp_all

lemma target_name_unique: "(a, r) \<in> set (targets l) \<Longrightarrow> (b, r) \<in> set (targets l) \<Longrightarrow> a = b"
  by (cases l) auto

text \<open>The rules of one language, as \<open>evaluate\<close> lists them once the tree is known to have no error.\<close>

definition all_rules :: "language \<Rightarrow> string list" where
  "all_rules l = secret_rules @ filter (\<lambda>r. r \<notin> set secret_rules) (applicable (Some l))"

lemma all_rules_eq:
  "all_rules JAVA =
     [''COM-009'', ''COM-010'', ''COM-001'', ''COM-002'', ''COM-004'', ''COM-003'', ''JAVA-004'', ''JAVA-005'',
      ''JAVA-006'', ''JAVA-007'', ''JAVA-008'']"
  "all_rules PYTHON =
     [''COM-009'', ''COM-010'', ''COM-001'', ''COM-002'', ''COM-004'', ''COM-003'', ''PY-004'', ''PY-005'', ''PY-008'',
      ''PY-001'', ''PY-002'', ''PY-003'', ''PY-006'']"
  "all_rules JAVASCRIPT =
     [''COM-009'', ''COM-010'', ''COM-001'', ''COM-002'', ''COM-004'', ''COM-003'', ''JS-005'', ''JS-006'',
      ''JS-001'', ''JS-002'', ''JS-003'', ''JS-004'']"
  "all_rules TYPESCRIPT =
     [''COM-009'', ''COM-010'', ''COM-001'', ''COM-002'', ''COM-004'', ''COM-003'', ''JS-005'', ''JS-006'',
      ''JS-001'', ''JS-002'', ''JS-003'', ''JS-004'', ''TS-001'', ''TS-002'', ''TS-003'', ''TS-004'', ''TS-005'']"
  by (simp_all add: all_rules_def secret_rules_def applicable_Some)

lemma all_rules_mset: "mset (all_rules l) = mset (applicable (Some l))"
  by (cases l) (simp_all add: all_rules_eq applicable_Some)

lemma all_rules_distinct: "distinct (all_rules l)"
  by (cases l) (simp_all add: all_rules_eq)

definition uncertain_rules :: "language \<Rightarrow> string list" where
  "uncertain_rules l = map snd (targets l) @ (if l = PYTHON then [''PY-008''] else [])"

lemma uncertain_subset: "set (uncertain_rules l) \<subseteq> set (all_rules l)"
  by (cases l) (simp_all add: uncertain_rules_def all_rules_eq)

lemma uncertain_distinct: "distinct (uncertain_rules l)"
  by (cases l) (simp_all add: uncertain_rules_def)

lemma subset_steps:
  "E \<subseteq> insert c C \<Longrightarrow> C \<subseteq> T - N \<Longrightarrow> N \<subseteq> T \<Longrightarrow> c \<notin> T \<Longrightarrow> E \<subseteq> insert c T - N"
  "E \<subseteq> insert c C \<Longrightarrow> C \<subseteq> T - N \<Longrightarrow> N \<subseteq> T \<Longrightarrow> c \<notin> T \<Longrightarrow> p \<notin> T \<Longrightarrow> c \<noteq> p \<Longrightarrow>
   E \<subseteq> insert c (insert p T) - insert p N"
  "E \<subseteq> insert c (insert p C) \<Longrightarrow> C \<subseteq> T - N \<Longrightarrow> N \<subseteq> T \<Longrightarrow> c \<notin> T \<Longrightarrow> p \<notin> T \<Longrightarrow>
   E \<subseteq> insert c (insert p T) - N"
  by blast+

lemma evaluate_additional_accounts:
  assumes "evaluate_additional root l (all_rules l, []) = (es, (ev, nev), failure)"
  shows "ev = filter (\<lambda>r. r \<notin> set nev) (all_rules l)" and "distinct nev"
    and "set nev \<subseteq> set (uncertain_rules l)"
    and "fst ` set es \<subseteq> (insert ''COM-003'' (set (uncertain_rules l))) - set nev"
proof -
  define nodes where "nodes = map fst (walk_depth [((None, root), 0)])"
  define wd where "wd = withdrawn l nodes (targets l)"
  have w: "set wd \<subseteq> set (map snd (targets l))" "distinct wd"
    using targets_distinct [of l] by (auto simp: wd_def withdrawn_def intro: distinct_map_filter)
  have fold: "fold withdraw wd (all_rules l, []) = (filter (\<lambda>r. r \<notin> set wd) (all_rules l), wd)"
    using fold_withdraw [OF all_rules_distinct] by simp
  have py: "''PY-008'' \<notin> set (map snd (targets l))" by (cases l) simp_all
  have calls: "fst ` set (fst (check_targets l nodes (targets l) acc)) \<subseteq> set (map snd (targets l)) - set wd" for acc
  proof
    fix r assume "r \<in> fst ` set (fst (check_targets l nodes (targets l) acc))"
    then obtain name where t: "(name, r) \<in> set (targets l)" "\<not> blocked l nodes name"
      by (auto simp: check_targets_eq)
    have "r \<notin> set wd"
    proof
      assume "r \<in> set wd"
      then obtain other where "(other, r) \<in> set (targets l)" "blocked l nodes other"
        by (auto simp: wd_def withdrawn_def)
      with t target_name_unique show False by metis
    qed
    with t(1) show "r \<in> set (map snd (targets l)) - set wd" by force
  qed
  obtain cs where c: "check_targets l nodes (targets l) (all_rules l, []) =
      (cs, (filter (\<lambda>r. r \<notin> set wd) (all_rules l), wd))"
    using fold by (simp add: check_targets_eq wd_def)
  then have cs: "fst ` set cs \<subseteq> set (map snd (targets l)) - set wd" using calls [of "(all_rules l, [])"] by simp
  have com: "''COM-003'' \<notin> set (map snd (targets l))" by (cases l) simp_all
  consider (other) "l \<noteq> PYTHON" "nev = wd" "ev = filter (\<lambda>r. r \<notin> set wd) (all_rules l)"
      "fst ` set es \<subseteq> insert ''COM-003'' (fst ` set cs)"
    | (unsure) "l = PYTHON" "nev = wd @ [''PY-008'']" "ev = remove1 ''PY-008'' (filter (\<lambda>r. r \<notin> set wd) (all_rules l))"
      "fst ` set es \<subseteq> insert ''COM-003'' (fst ` set cs)"
    | (sure) "l = PYTHON" "nev = wd" "ev = filter (\<lambda>r. r \<notin> set wd) (all_rules l)"
      "fst ` set es \<subseteq> insert ''COM-003'' (insert ''PY-008'' (fst ` set cs))"
  proof -
    define deep where "deep = map (\<lambda>((p, n), d). (''COM-003'', n)) (filter too_deep (walk_depth [((None, root), 0)]))"
    define sure where "sure \<longleftrightarrow> list_all (\<lambda>name. unbound l nodes name [''except_clause'', ''as_pattern'', ''tuple'']) [''Exception'', ''BaseException'']"
    obtain ns f where b: "broad_handlers (map snd nodes) = (ns, f)" by fastforce
    have deep: "fst ` set deep \<subseteq> {''COM-003''}" by (auto simp: deep_def)
    have e: "evaluate_additional root l (all_rules l, []) =
        (if l \<noteq> PYTHON then (deep @ cs, (filter (\<lambda>r. r \<notin> set wd) (all_rules l), wd), None)
         else if \<not> sure then (deep @ cs, withdraw ''PY-008'' (filter (\<lambda>r. r \<notin> set wd) (all_rules l), wd), None)
         else (deep @ cs @ map (\<lambda>n. (''PY-008'', n)) ns, (filter (\<lambda>r. r \<notin> set wd) (all_rules l), wd), f))"
      unfolding evaluate_additional_def Let_def nodes_def [symmetric] c b deep_def sure_def by (simp only: prod.case)
    show ?thesis
    proof (cases "l = PYTHON")
      case False
      with e assms deep that(1) show ?thesis by (auto simp: image_Un)
    next
      case True
      show ?thesis
      proof (cases sure)
        case True
        with \<open>l = PYTHON\<close> e assms have "es = deep @ cs @ map (\<lambda>n. (''PY-008'', n)) ns" "nev = wd"
            "ev = filter (\<lambda>r. r \<notin> set wd) (all_rules l)" by auto
        with \<open>l = PYTHON\<close> deep that(3) show ?thesis by (auto simp: image_Un image_image)
      next
        case False
        with True e assms have "es = deep @ cs" "nev = wd @ [''PY-008'']"
            "ev = remove1 ''PY-008'' (filter (\<lambda>r. r \<notin> set wd) (all_rules l))"
          by (auto simp: withdraw_def)
        with True deep that(2) show ?thesis by (auto simp: image_Un)
      qed
    qed
  qed
  then have "ev = filter (\<lambda>r. r \<notin> set nev) (all_rules l) \<and> distinct nev \<and> set nev \<subseteq> set (uncertain_rules l) \<and>
      fst ` set es \<subseteq> (insert ''COM-003'' (set (uncertain_rules l))) - set nev"
  proof cases
    case other
    have "set (uncertain_rules l) = set (map snd (targets l))" using other by (simp add: uncertain_rules_def)
    with other w subset_steps(1) [OF other(4) cs w(1) com] show ?thesis by simp
  next
    case unsure
    have "remove1 ''PY-008'' (filter (\<lambda>r. r \<notin> set wd) (all_rules l)) =
        filter (\<lambda>r. r \<notin> set (wd @ [''PY-008''])) (all_rules l)"
      using all_rules_distinct [of l]
      by (simp add: distinct_remove1_removeAll removeAll_filter_not_eq conj_commute neq_commute)
    moreover have "set (uncertain_rules l) = insert ''PY-008'' (set (map snd (targets l)))"
      using unsure by (auto simp: uncertain_rules_def)
    moreover have "''PY-008'' \<notin> set wd" "set wd \<subseteq> insert ''PY-008'' (set (map snd (targets l)))" using w(1) py by blast+
    ultimately show ?thesis using unsure w subset_steps(2) [OF unsure(4) cs w(1) com py] by simp
  next
    case sure
    have "set (uncertain_rules l) = insert ''PY-008'' (set (map snd (targets l)))"
      using sure by (auto simp: uncertain_rules_def)
    moreover have "set wd \<subseteq> insert ''PY-008'' (set (map snd (targets l)))" using w(1) by blast
    ultimately show ?thesis using sure w subset_steps(3) [OF sure(4) cs w(1) com py] by simp
  qed
  then show "ev = filter (\<lambda>r. r \<notin> set nev) (all_rules l)" "distinct nev" "set nev \<subseteq> set (uncertain_rules l)"
    "fst ` set es \<subseteq> (insert ''COM-003'' (set (uncertain_rules l))) - set nev" by blast+
qed


subsection \<open>Every rule of a node belongs to the language\<close>

lemma when_rule_set: "set (when_rule b r) \<subseteq> {r}"
  by (auto simp: when_rule_def)

lemma node_rules_known: "set (node_rules l n) \<subseteq> set (all_rules l) - set (''COM-003'' # uncertain_rules l)"
  by (cases l)
    (auto simp: node_rules_def function_rules_def java_rules_def python_rules_def script_rules_def typescript_rules_def
      all_rules_eq uncertain_rules_def dest!: subsetD [OF when_rule_set] split: if_splits option.splits)

lemma node_emissions_known:
  "fst ` set (node_emissions l root) \<subseteq> set (all_rules l) - set (''COM-003'' # uncertain_rules l)"
proof
  fix r assume "r \<in> fst ` set (node_emissions l root)"
  then obtain n where "r \<in> set (node_rules l n)" by (auto simp: node_emissions_def)
  then show "r \<in> set (all_rules l) - set (''COM-003'' # uncertain_rules l)" using node_rules_known by blast
qed

lemma fst_node_span [simp]: "fst (node_span x) = fst x"
  by (simp add: node_span_def split: prod.splits)

subsection \<open>Secrets\<close>

lemma secret_spans_known: "fst ` set (secret_spans content) \<subseteq> set secret_rules"
  by (auto simp: secret_spans_def secret_rules_def Let_def)

text \<open>A span of lines is well formed when it starts at line one or later and does not end before it starts.\<close>

definition span_ok :: "span \<Rightarrow> bool" where
  "span_ok x \<longleftrightarrow> 1 \<le> fst (snd x) \<and> fst (snd x) \<le> snd (snd x)"

lemma span_observation: "span_ok x \<Longrightarrow> observation_ok (observation_of x) \<and>
    ob_start (observation_of x) \<le> ob_end (observation_of x)"
  by (auto simp: span_ok_def observation_ok_def observation_of_def split: prod.splits)

lemma secret_spans_ok: "x \<in> set (secret_spans content) \<Longrightarrow> span_ok x"
  using line_of_pos [of content] line_of_mono [of _ _ content]
  by (fastforce simp: secret_spans_def key_lines_def Let_def span_ok_def dest!: find_spans_ordered less_imp_le)

subsection \<open>What an evaluation reports\<close>

text \<open>
  The findings are the first hundred distinct spans of some sequence whose rules are all reported as
  evaluated, and the limit says that there were more.
\<close>

definition reports :: "evaluation \<Rightarrow> span list \<Rightarrow> bool" where
  "reports e xs \<longleftrightarrow>
     ev_findings e = map observation_of (take 100 (firsts xs)) \<and>
     ev_limit e = (100 < length (firsts xs)) \<and>
     fst ` set xs \<subseteq> set (ev_evaluated e) \<and> evaluation_ok e"

lemma reports_result:
  "collected xs st \<Longrightarrow> fst ` set xs \<subseteq> set (ev_evaluated out) \<Longrightarrow> reports (result_of out st) xs"
  by (auto simp: reports_def collected_def result_of_def evaluation_ok_def)

lemma reports_nothing: "reports (new_evaluation language status reason) []"
  by (simp add: reports_def new_evaluation_def evaluation_ok_def)

definition accounted :: "evaluation \<Rightarrow> bool" where
  "accounted e \<longleftrightarrow>
     distinct (ev_evaluated e) \<and> distinct (ev_not_evaluated e) \<and>
     set (ev_evaluated e) \<inter> set (ev_not_evaluated e) = {} \<and>
     set (ev_evaluated e) \<union> set (ev_not_evaluated e) \<subseteq> set (applicable (ev_language e))"

lemma applicable_all_rules: "set (applicable (Some l)) = set (all_rules l)"
  using all_rules_mset [of l] by (metis set_mset_mset)

lemma secret_applicable: "set secret_rules \<subseteq> set (applicable language)"
  by (auto simp: secret_rules_def applicable_def applies_def rules_def mk_rule_def)

text \<open>The spans the tree can contribute: the long file, and nodes of the tree.\<close>

definition tree_span :: "node \<Rightarrow> string \<Rightarrow> span \<Rightarrow> bool" where
  "tree_span root content y \<longleftrightarrow>
     500 < length (splitlines content) \<and> y = (''COM-001'', 1, int (length (splitlines content))) \<or>
     (\<exists>r. \<exists>n \<in> set (visit root). y = node_span (r, n))"

lemma broad_handlers_nodes: "set (fst (broad_handlers ns)) \<subseteq> set ns"
  by (induction ns) (auto split: sum.splits prod.splits)

lemma additional_nodes:
  assumes "evaluate_additional root l acc = (es, acc', failure)"
  shows "snd ` set es \<subseteq> set (visit root)"
proof -
  define walked where "walked = walk_depth [((None, root), 0)]"
  have v: "map (\<lambda>x. snd (fst x)) walked = visit root"
    unfolding walked_def walk_depth_nodes by (simp del: walk.simps add: walk_visits)
  have all: "set (map snd (map fst walked)) = set (visit root)"
    using arg_cong [OF v, of set] by (simp add: image_image)
  define found where "found = map (\<lambda>((p, n), d). (''COM-003'', n)) (filter too_deep walked)"
  have deep: "snd ` set found \<subseteq> set (visit root)"
    unfolding all [symmetric] found_def by force
  have calls: "snd ` set (fst (check_targets l (map fst walked) ts a)) \<subseteq> set (visit root)" for ts a
    unfolding all [symmetric] by (force simp: check_targets_eq)
  have broad: "set (fst (broad_handlers (map snd (map fst walked)))) \<subseteq> set (visit root)"
    unfolding all [symmetric] by (rule broad_handlers_nodes)
  obtain cs a' where c: "check_targets l (map fst walked) (targets l) acc = (cs, a')"
    by (cases "check_targets l (map fst walked) (targets l) acc")
  obtain ns f where b: "broad_handlers (map snd (map fst walked)) = (ns, f)"
    by (cases "broad_handlers (map snd (map fst walked))")
  have "snd ` set cs \<subseteq> set (visit root)" using calls [of "targets l" acc] c by simp
  moreover have "set ns \<subseteq> set (visit root)" using broad b by simp
  moreover have "es = found @ cs \<or> es = found @ cs @ map (\<lambda>n. (''PY-008'', n)) ns"
    using assms unfolding evaluate_additional_def Let_def walked_def [symmetric] c b found_def
    by (auto split: if_splits)
  moreover have "snd ` set (found @ cs @ map (\<lambda>n. (''PY-008'', n)) ns) = snd ` set found \<union> snd ` set cs \<union> set ns"
    by (simp add: image_Un image_image Un_assoc)
  ultimately show ?thesis using deep by (metis Un_least image_Un set_append)
qed

definition tree_evaluation :: "language \<Rightarrow> evaluation" where
  "tree_evaluation l = (new_evaluation (Some l) INCLUDED None)\<lparr>ev_evaluated := all_rules l\<rparr>"

lemma evaluate_tree_reports:
  assumes "evaluate_tree l content root (tree_evaluation l) st0 = Inr e" and "collected xs st0"
    and "fst ` set xs \<subseteq> set secret_rules"
  shows "\<exists>ys. reports e ys \<and> (\<forall>y \<in> set ys. y \<in> set xs \<or> tree_span root content y)" and "accounted e"
    and "set (ev_evaluated e) \<union> set (ev_not_evaluated e) = set (applicable (ev_language e))"
    and "ev_language e = Some l" "ev_status e = INCLUDED" "ev_reason e \<in> {None, Some ''BINDING_UNRESOLVED''}"
proof -
  obtain es ev nev failure where a: "evaluate_additional root l (all_rules l, []) = (es, (ev, nev), failure)"
    by (metis prod.exhaust)
  let ?first = "(if 500 < length (splitlines content) then [(''COM-001'', 1, int (length (splitlines content)))] else [])
    @ map node_span es"
  let ?out = "(tree_evaluation l)\<lparr>ev_evaluated := ev, ev_not_evaluated := nev,
    ev_reason := (if nev \<noteq> [] then Some ''BINDING_UNRESOLVED'' else None)\<rparr>"
  from assms(1) a obtain st1 st2 where 1: "add_findings ?first st0 = Inr st1"
    and 2: "add_findings (map node_span (node_emissions l root)) st1 = Inr st2"
    and e: "e = result_of ?out st2"
    unfolding evaluate_tree_def by (auto simp: tree_evaluation_def new_evaluation_def Let_def split: sum.splits option.splits)
  let ?all = "(xs @ ?first) @ map node_span (node_emissions l root)"
  have col: "collected ?all st2" using collected_adds [OF collected_adds [OF assms(2) 1] 2] .
  note acc = evaluate_additional_accounts [OF a]
  have sec: "set secret_rules \<subseteq> set (all_rules l) - set (''COM-003'' # uncertain_rules l)"
    by (cases l) (simp_all add: secret_rules_def all_rules_eq uncertain_rules_def)
  have com: "''COM-003'' \<in> set (all_rules l) - set (uncertain_rules l)"
      "''COM-001'' \<in> set (all_rules l) - set (uncertain_rules l)"
    by (cases l; simp add: all_rules_eq uncertain_rules_def)+
  have ev: "set ev = set (all_rules l) - set nev" using acc(1) by auto
  have "fst ` set ?all \<subseteq> set ev"
  proof -
    have "fst ` set xs \<subseteq> set ev" using assms(3) sec acc(3) ev by auto
    moreover have "fst ` set es \<subseteq> set ev" using acc(3,4) ev com uncertain_subset [of l] by auto
    moreover have "''COM-001'' \<in> set ev" using com(2) acc(3) ev by auto
    moreover have "fst ` set (node_emissions l root) \<subseteq> set ev" using node_emissions_known acc(3) ev by fastforce
    ultimately show ?thesis by (auto simp: image_Un image_image)
  qed
  then have "reports (result_of ?out st2) ?all" by (intro reports_result [OF col]) simp
  moreover have "\<forall>y \<in> set ?all. y \<in> set xs \<or> tree_span root content y"
    using additional_nodes [OF a] by (fastforce simp: tree_span_def node_emissions_def walk_visits)
  ultimately show "\<exists>ys. reports e ys \<and> (\<forall>y \<in> set ys. y \<in> set xs \<or> tree_span root content y)"
    unfolding e by blast
  show "accounted e" "set (ev_evaluated e) \<union> set (ev_not_evaluated e) = set (applicable (ev_language e))"
    "ev_language e = Some l" "ev_status e = INCLUDED" "ev_reason e \<in> {None, Some ''BINDING_UNRESOLVED''}"
    using acc(1-3) ev uncertain_subset [of l] all_rules_distinct [of l]
    by (auto simp: e result_of_def tree_evaluation_def new_evaluation_def accounted_def applicable_all_rules)
qed


definition secrets_only :: "evaluation \<Rightarrow> bool" where
  "secrets_only e \<longleftrightarrow>
     ev_reason e \<in> Some ` {''SECRET_SCAN_ONLY'', ''IGNORED_SOURCE_RULES'', ''GENERATED_SECRET_SCAN_ONLY''}"

text \<open>The ways an evaluation ends: without findings, after the secrets, or after the tree.\<close>

lemma evaluate_cases:
  assumes "evaluate decode parse path source ignored = Inr e"
  obtains (nothing_read) status reason where "e = new_evaluation (language_for path) status (Some reason)"
      "status = LIMIT_EXCEEDED \<or> status = EXCLUDED" "length reason \<le> 64"
  | (secrets) st xs out where "e = result_of out st" "collected xs st" "fst ` set xs \<subseteq> set secret_rules" "\<forall>x \<in> set xs. span_ok x"
      "ev_language out = language_for path" "ev_evaluated out = secret_rules" "ev_not_evaluated out = []"
      "ev_status out = INCLUDED" "secrets_only out"
  | (broken) st xs out l where "e = result_of out st" "collected xs st" "fst ` set xs \<subseteq> set secret_rules" "\<forall>x \<in> set xs. span_ok x"
      "language_for path = Some l" "ev_language out = Some l" "ev_evaluated out = secret_rules"
      "ev_not_evaluated out = filter (\<lambda>r. r \<notin> set secret_rules) (applicable (Some l))" "ev_status out = PARSE_ERROR"
      "ev_reason out = Some ''SYNTAX_ERROR''"
  | (tree) st xs l root content where "evaluate_tree l content root (tree_evaluation l) st = Inr e" "collected xs st"
      "fst ` set xs \<subseteq> set secret_rules" "\<forall>x \<in> set xs. span_ok x" "language_for path = Some l"
      "decode source = Some content" "parse (parser_for l path) source = (root, False)"
proof (cases "max_file < length source")
  case True
  with assms nothing_read show ?thesis by (auto simp: evaluate_def Let_def)
next
  case small: False
  show ?thesis
  proof (cases "decode source")
    case None
    with assms small nothing_read show ?thesis by (auto simp: evaluate_def Let_def)
  next
    case (Some content)
    show ?thesis
    proof (cases "CHR 0x00 \<in> set content \<or> starts_with ''version https://git-lfs.github.com/spec/v1'' content")
      case True
      with assms small Some have "e = new_evaluation (language_for path) EXCLUDED (Some ''BINARY_OR_LFS'')"
        by (simp add: evaluate_def Let_def)
      with nothing_read show ?thesis by simp
    next
      case readable: False
      obtain st where st: "add_findings (secret_spans content) no_findings = Inr st"
        using add_findings_total [of "secret_spans content" no_findings] secret_spans_ok span_observation
        by (metis list_all_iff)
      have col: "collected (secret_spans content) st" using collected_adds [OF collected_none st] by simp
      have known: "fst ` set (secret_spans content) \<subseteq> set secret_rules" "\<forall>x \<in> set (secret_spans content). span_ok x"
        using secret_spans_known secret_spans_ok by blast+
      let ?out = "(new_evaluation (language_for path) INCLUDED None)\<lparr>ev_evaluated := [''COM-009'', ''COM-010'']\<rparr>"
      note head = small Some readable st
      show ?thesis
      proof (cases "language_for path")
        case None
        with assms head have "e = result_of (?out\<lparr>ev_reason := Some (if ignored then ''IGNORED_SOURCE_RULES'' else ''SECRET_SCAN_ONLY'')\<rparr>) st"
          by (simp add: evaluate_def Let_def)
        from secrets [OF this col known] show ?thesis
          by (simp add: new_evaluation_def secret_rules_def secrets_only_def)
      next
        case (Some l)
        show ?thesis
        proof (cases "ignored \<or> declaration_file path")
          case True
          with assms head Some have "e = result_of (?out\<lparr>ev_reason := Some (if ignored then ''IGNORED_SOURCE_RULES'' else ''SECRET_SCAN_ONLY'')\<rparr>) st"
            by (simp add: evaluate_def Let_def)
          from secrets [OF this col known] show ?thesis
            by (simp add: new_evaluation_def secret_rules_def secrets_only_def)
        next
          case plain: False
          show ?thesis
          proof (cases "generated_file path content")
            case True
            with assms head Some plain have "e = result_of (?out\<lparr>ev_reason := Some ''GENERATED_SECRET_SCAN_ONLY''\<rparr>) st"
              by (simp add: evaluate_def Let_def)
            from secrets [OF this col known] show ?thesis
              by (simp add: new_evaluation_def secret_rules_def secrets_only_def)
          next
            case False
            obtain root has_error where r: "parse (parser_for l path) source = (root, has_error)" by fastforce
            show ?thesis
            proof (cases has_error)
              case True
              with assms head Some plain False r have "e = result_of (?out\<lparr>ev_status := PARSE_ERROR, ev_reason := Some ''SYNTAX_ERROR'',
                  ev_not_evaluated := filter (\<lambda>r. r \<notin> set [''COM-009'', ''COM-010'']) (applicable (Some l))\<rparr>) st"
                by (simp add: evaluate_def Let_def new_evaluation_def)
              from broken [OF this col known Some] Some show ?thesis
                by (simp add: new_evaluation_def secret_rules_def)
            next
              case fine: False
              with assms head Some plain False r have "evaluate_tree l content root (tree_evaluation l) st = Inr e"
                by (simp add: evaluate_def Let_def new_evaluation_def tree_evaluation_def all_rules_def secret_rules_def)
              from tree [OF this col known Some head(2)] r fine show ?thesis by simp
            qed
          qed
        qed
      qed
    qed
  qed
qed

lemma evaluate_reports:
  assumes "evaluate decode parse path source ignored = Inr e"
  shows "\<exists>xs. reports e xs"
  using assms
proof (cases rule: evaluate_cases)
  case nothing_read
  then show ?thesis using reports_nothing by blast
next
  case secrets
  then show ?thesis by (metis reports_result)
next
  case broken
  then show ?thesis by (metis reports_result)
next
  case (tree st xs l root content)
  then show ?thesis using evaluate_tree_reports(1) [OF tree(1-3)] by blast
qed

text \<open>The reason of an evaluation is a short code.\<close>

definition short_reason :: "evaluation \<Rightarrow> bool" where
  "short_reason e \<longleftrightarrow> (case ev_reason e of None \<Rightarrow> True | Some r \<Rightarrow> length r \<le> 64)"

lemma evaluate_reason:
  assumes "evaluate decode parse path source ignored = Inr e"
  shows "short_reason e"
  using assms
proof (cases rule: evaluate_cases)
  case nothing_read
  then show ?thesis by (simp add: short_reason_def new_evaluation_def)
next
  case secrets
  then show ?thesis by (auto simp: short_reason_def result_of_def secrets_only_def)
next
  case broken
  then show ?thesis by (simp add: short_reason_def result_of_def)
next
  case (tree st xs l root content)
  then show ?thesis using evaluate_tree_reports(6) [OF tree(1-3)] by (auto simp: short_reason_def)
qed

subsection \<open>What an evaluation keeps\<close>

lemma evaluate_accounts:
  assumes "evaluate decode parse path source ignored = Inr e"
  shows "ev_language e = language_for path \<and> accounted e \<and>
    (ev_status e = PARSE_ERROR \<or> ev_status e = INCLUDED \<and> \<not> secrets_only e \<longrightarrow>
       set (ev_evaluated e) \<union> set (ev_not_evaluated e) = set (applicable (ev_language e)))"
  using assms
proof (cases rule: evaluate_cases)
  case nothing_read
  then show ?thesis by (auto simp: new_evaluation_def accounted_def)
next
  case (secrets st xs out)
  have "distinct secret_rules" by (simp add: secret_rules_def)
  with secrets show ?thesis
    using secret_applicable [of "language_for path"] by (simp add: result_of_def accounted_def secrets_only_def)
next
  case (broken st xs out l)
  have "distinct secret_rules" by (simp add: secret_rules_def)
  with broken show ?thesis
    using secret_applicable [of "Some l"] applicable_distinct [of "Some l"]
    by (auto simp: result_of_def accounted_def)
next
  case (tree st xs l root content)
  then show ?thesis using evaluate_tree_reports [OF tree(1-3)] by simp
qed

lemma evaluate_bounds:
  assumes "evaluate decode parse path source ignored = Inr e"
  shows "length (ev_findings e) \<le> 100 \<and> distinct (ev_findings e) \<and> list_all observation_ok (ev_findings e) \<and>
    (\<forall>f \<in> set (ev_findings e). ob_rule f \<in> set (ev_evaluated e)) \<and>
    (ev_limit e \<longrightarrow> length (ev_findings e) = 100)"
proof -
  obtain xs where xs: "reports e xs" using evaluate_reports [OF assms] by blast
  have "inj_on observation_of A" for A by (rule inj_onI) (auto simp: observation_of_def split: prod.splits)
  then have "distinct (map observation_of (take 100 (firsts xs)))"
    by (simp add: distinct_map distinct_take)
  moreover have "ob_rule f \<in> set (ev_evaluated e)" if "f \<in> set (ev_findings e)" for f
  proof -
    from that xs obtain x where "x \<in> set (take 100 (firsts xs))" "f = observation_of x" by (auto simp: reports_def)
    moreover from this have "x \<in> set xs" by (auto dest: in_set_takeD)
    ultimately show ?thesis using xs by (auto simp: reports_def observation_of_def split: prod.splits)
  qed
  moreover have "length (ev_findings e) \<le> 100" "list_all observation_ok (ev_findings e)"
    using xs unfolding reports_def evaluation_ok_def by blast+
  moreover have "ev_limit e \<Longrightarrow> length (ev_findings e) = 100" using xs by (simp add: reports_def)
  moreover have "ev_findings e = map observation_of (take 100 (firsts xs))" using xs by (simp add: reports_def)
  ultimately show ?thesis by metis
qed

subsection \<open>Properties\<close>

text \<open>
  C12. The analyzer accounts for every rule. The rules it reports as evaluated and as not evaluated
  are distinct, disjoint and apply to the language of the path; and whenever the tree of the file
  was considered (it was not limited to the secret scan, excluded or over a limit) together they are
  exactly the applicable rules.
\<close>

theorem every_rule_accounted:
  assumes "evaluate decode parse path source ignored = Inr e"
  shows "ev_language e = language_for path \<and> accounted e \<and>
    (ev_status e = PARSE_ERROR \<or> ev_status e = INCLUDED \<and> \<not> secrets_only e \<longrightarrow>
       set (ev_evaluated e) \<union> set (ev_not_evaluated e) = set (applicable (ev_language e)))"
  using assms by (rule evaluate_accounts)

text \<open>
  C13. The findings of a file are bounded and honest: at most a hundred, pairwise different, on lines
  counted from one, each of a rule that is reported as evaluated; and the limit flag is set only when
  the hundred places are used up.
\<close>

theorem findings_bounded:
  assumes "evaluate decode parse path source ignored = Inr e"
  shows "length (ev_findings e) \<le> 100 \<and> distinct (ev_findings e) \<and> list_all observation_ok (ev_findings e) \<and>
    (\<forall>f \<in> set (ev_findings e). ob_rule f \<in> set (ev_evaluated e)) \<and>
    (ev_limit e \<longrightarrow> length (ev_findings e) = 100)"
  using assms by (rule evaluate_bounds)

text \<open>
  C14. Both traversals of the analyzer, written as loops over a stack, visit exactly the named nodes
  reachable from the root in document order, each once, and the second one pairs each node with its
  parent: the loops agree with the recursive definition of the order.
\<close>

theorem traversals_agree:
  "walk [root] = visit root \<and>
   map (\<lambda>x. snd (fst x)) (walk_depth [((None, root), 0)]) = visit root \<and>
   visit root = root # concat (map visit (named_children root)) \<and>
   list_all (\<lambda>x. case fst (fst x) of None \<Rightarrow> snd (fst x) = root | Some p \<Rightarrow> snd (fst x) \<in> set (named_children p))
     (walk_depth [((None, root), 0)])"
proof -
  have tail: "\<forall>x \<in> set stack. fst (fst x) \<noteq> None \<Longrightarrow> \<forall>x \<in> set (walk_depth stack). fst (fst x) \<noteq> None" for stack
  proof (induction stack rule: walk_depth.induct)
    case (2 parent n depth stack)
    have "\<forall>x \<in> set (map (\<lambda>c. ((Some n, c), depth_below parent n depth)) (named_children n) @ stack). fst (fst x) \<noteq> None"
      using 2(2) by auto
    from 2(1) [OF this] 2(2) show ?case by simp
  qed simp
  have parents: "\<forall>x \<in> set (walk_depth [((None, root), 0)]). child_of (fst x)"
    by (rule walk_depth_parents) (simp add: child_of_def)
  have start: "snd (fst x) = root" if "x \<in> set (walk_depth [((None, root), 0)])" "fst (fst x) = None" for x
    using that tail [of "map (\<lambda>c. ((Some root, c), depth_below None root 0)) (named_children root)"] by fastforce
  have "list_all (\<lambda>x. case fst (fst x) of None \<Rightarrow> snd (fst x) = root
      | Some p \<Rightarrow> snd (fst x) \<in> set (named_children p)) (walk_depth [((None, root), 0)])"
    unfolding list_all_iff
  proof
    fix x assume x: "x \<in> set (walk_depth [((None, root), 0)])"
    then have c: "child_of (fst x)" using parents by blast
    show "case fst (fst x) of None \<Rightarrow> snd (fst x) = root | Some p \<Rightarrow> snd (fst x) \<in> set (named_children p)"
    proof (cases "fst (fst x)")
      case None
      have "snd (fst x) = root" using x None by (rule start)
      with None show ?thesis by simp
    next
      case (Some p)
      with c show ?thesis by (simp add: child_of_def)
    qed
  qed
  moreover have w: "walk [root] = visit root" by (simp only: walk_visits) simp
  moreover have "map (\<lambda>x. snd (fst x)) (walk_depth [((None, root), 0)]) = visit root"
    unfolding walk_depth_nodes w [symmetric] by simp
  ultimately show ?thesis using visit_unfold by blast
qed


text \<open>
  A tree as the parser builds it: every node covers some text, and what is bound by an \<open>as\<close>
  pattern has a part that is bound.
\<close>

definition well_formed :: "node \<Rightarrow> bool" where
  "well_formed root \<longleftrightarrow>
     list_all (\<lambda>n. nd_start n < nd_end n + (if nd_end_column n = 0 then 0 else 1) \<and>
       (case field ''value'' n of None \<Rightarrow> True | Some v \<Rightarrow> nd_type v = ''as_pattern'' \<longrightarrow> named_children v \<noteq> []))
       (visit root)"

lemma tree_span_ok: "well_formed root \<Longrightarrow> tree_span root content y \<Longrightarrow> span_ok y"
proof -
  assume wf: "well_formed root" and y: "tree_span root content y"
  have node: "span_ok (node_span (r, n))" if "n \<in> set (visit root)" for r n
  proof -
    have "nd_start n < nd_end n + (if nd_end_column n = 0 then 0 else 1)"
      using wf that by (simp add: well_formed_def list_all_iff)
    then show ?thesis by (simp add: span_ok_def node_span_def split: if_splits)
  qed
  with y show ?thesis by (auto simp: tree_span_def span_ok_def)
qed

lemma broad_handlers_total:
  assumes "\<forall>n \<in> set ns. case field ''value'' n of None \<Rightarrow> True
      | Some v \<Rightarrow> nd_type v = ''as_pattern'' \<longrightarrow> named_children v \<noteq> []"
  shows "snd (broad_handlers ns) = None"
  using assms
proof (induction ns)
  case (Cons n ns)
  have "\<exists>v. handler_value n = Inr v"
    using Cons.prems by (auto simp: handler_value_def has_type_def typed_def Let_def split: option.splits list.splits)
  with Cons show ?case by (auto split: prod.splits)
qed simp

lemma additional_total:
  assumes "well_formed root" and "evaluate_additional root l acc = (es, acc', failure)"
  shows "failure = None"
proof -
  define walked where "walked = walk_depth [((None, root), 0)]"
  have v: "map snd (map fst walked) = visit root"
    unfolding walked_def using walk_depth_nodes [of "[((None, root), 0)]"] by (simp del: walk.simps walk_depth.simps add: walk_visits comp_def)
  have "snd (broad_handlers (map snd (map fst walked))) = None"
    unfolding v using assms(1) by (intro broad_handlers_total) (simp add: well_formed_def list_all_iff)
  with assms(2) show ?thesis
    unfolding evaluate_additional_def Let_def walked_def [symmetric]
    by (auto split: if_splits prod.splits)
qed

lemma evaluate_tree_total:
  assumes "well_formed root"
  shows "\<exists>e. evaluate_tree l content root out st = Inr e"
proof -
  obtain es ev nev failure where a: "evaluate_additional root l (ev_evaluated out, ev_not_evaluated out) = (es, (ev, nev), failure)"
    by (metis prod.exhaust)
  have f: "failure = None" using additional_total [OF assms a] .
  have ok: "observation_ok (observation_of y)" if "tree_span root content y" for y
    using tree_span_ok [OF assms that] span_observation by blast
  let ?first = "(if 500 < length (splitlines content) then [(''COM-001'', 1, int (length (splitlines content)))] else [])
    @ map node_span es"
  have "list_all (\<lambda>y. observation_ok (observation_of y)) ?first"
    using additional_nodes [OF a] unfolding list_all_iff by (fastforce intro!: ok simp: tree_span_def)
  then obtain st1 where 1: "add_findings ?first st = Inr st1" using add_findings_total by blast
  have "list_all (\<lambda>y. observation_ok (observation_of y)) (map node_span (node_emissions l root))"
    unfolding list_all_iff by (fastforce intro!: ok simp: tree_span_def node_emissions_def walk_visits)
  then obtain st2 where 2: "add_findings (map node_span (node_emissions l root)) st1 = Inr st2"
    using add_findings_total by blast
  from 1 2 a f show ?thesis by (simp add: evaluate_tree_def Let_def)
qed

text \<open>
  The evaluation of a file always ends with a result, whatever the file holds: the loops
  terminate, no branch raises as long as the parser returns well-formed trees, and every finding it
  reports ends on or after the line it starts on, which is what the reading end of the parser
  process insists on.
\<close>

theorem evaluation_total:
  assumes "\<And>g src. well_formed (fst (parse g src))"
  shows "\<exists>e. evaluate decode parse path source ignored = Inr e \<and>
    (\<forall>f \<in> set (ev_findings e). ob_start f \<le> ob_end f)"
proof -
  have "\<exists>e. evaluate decode parse path source ignored = Inr e"
  proof -
    have secrets: "\<exists>st. add_findings (secret_spans content) no_findings = Inr st" for content
      using add_findings_total [of "secret_spans content" no_findings] secret_spans_ok span_observation
      by (metis list_all_iff)
    show ?thesis
    proof (cases "decode source")
      case None
      then show ?thesis by (simp add: evaluate_def Let_def)
    next
      case (Some content)
      obtain st where st: "add_findings (secret_spans content) no_findings = Inr st" using secrets by blast
      show ?thesis
      proof (cases "language_for path")
        case None
        with Some st show ?thesis by (simp add: evaluate_def Let_def)
      next
        case lang: (Some l)
        obtain root has_error where r: "parse (parser_for l path) source = (root, has_error)" by fastforce
        then have "well_formed root" using assms by (metis fst_conv)
        then have "\<exists>e. evaluate_tree l content root out st = Inr e" for out by (rule evaluate_tree_total)
        with Some st lang r show ?thesis by (simp add: evaluate_def Let_def)
      qed
    qed
  qed
  then obtain e where e: "evaluate decode parse path source ignored = Inr e" ..
  from e have "\<exists>xs. reports e xs \<and> (\<forall>x \<in> set xs. span_ok x)"
  proof (cases rule: evaluate_cases)
    case nothing_read
    then show ?thesis using reports_nothing by (intro exI [of _ "[]"]) simp
  next
    case (secrets st xs out)
    then show ?thesis by (intro exI [of _ xs]) (simp add: reports_result)
  next
    case (broken st xs out l)
    then show ?thesis by (intro exI [of _ xs]) (simp add: reports_result)
  next
    case (tree st xs l root content)
    then have "well_formed root" using assms by (metis fst_conv)
    with evaluate_tree_reports(1) [OF tree(1-3)] tree(4) show ?thesis using tree_span_ok by blast
  qed
  then obtain xs where xs: "reports e xs" "\<forall>x \<in> set xs. span_ok x" by blast
  have "ob_start f \<le> ob_end f" if "f \<in> set (ev_findings e)" for f
  proof -
    from that xs(1) obtain x where "x \<in> set (take 100 (firsts xs))" "f = observation_of x" by (auto simp: reports_def)
    moreover from this have "x \<in> set xs" by (auto dest: in_set_takeD)
    ultimately show ?thesis using xs(2) span_observation by blast
  qed
  with e show ?thesis by blast
qed

subsection \<open>A concrete file\<close>

definition any_node :: node where
  "any_node = Node 2 ''predefined_type'' True ''any'' 0 0 3 []"

definition any_root :: node where
  "any_root = Node 1 ''program'' True ''any'' 0 0 3 [(None, any_node)]"

definition any_result :: evaluation where
  "any_result = \<lparr>ev_language = Some TYPESCRIPT, ev_status = INCLUDED, ev_reason = None,
     ev_findings = [\<lparr>ob_rule = ''TS-001'', ob_start = 1, ob_end = 1\<rparr>], ev_evaluated = all_rules TYPESCRIPT,
     ev_not_evaluated = [], ev_limit = False\<rparr>"

lemma any_evaluated: "evaluate Some (\<lambda>g s. (any_root, False)) ''a.ts'' ''any'' False = Inr any_result"
proof -
  have lang: "language_for ''a.ts'' = Some TYPESCRIPT" by code_simp
  have secrets: "secret_spans ''any'' = []" by code_simp
  have plain: "\<not> declaration_file ''a.ts''" "\<not> generated_file ''a.ts'' ''any''" by code_simp+
  have small: "\<not> max_file < length ''any''" by (simp add: max_file_def)
  have readable: "CHR 0x00 \<notin> set ''any''" "\<not> starts_with ''version https://git-lfs.github.com/spec/v1'' ''any''" by simp_all
  have tree: "evaluate_tree TYPESCRIPT ''any'' any_root (tree_evaluation TYPESCRIPT) no_findings = Inr any_result"
    by code_simp
  from lang secrets plain small readable tree show ?thesis
    by (simp add: evaluate_def Let_def new_evaluation_def tree_evaluation_def all_rules_def secret_rules_def)
qed

theorem every_rule_accounted_witness:
  "ev_language any_result = language_for ''a.ts'' \<and>
   set (ev_evaluated any_result) = set (applicable (Some TYPESCRIPT))"
  using every_rule_accounted [OF any_evaluated]
  by (simp add: any_result_def secrets_only_def)

theorem findings_bounded_witness:
  "distinct (ev_findings any_result) \<and>
   list_all (\<lambda>f. ob_rule f \<in> set (ev_evaluated any_result)) (ev_findings any_result)"
  using findings_bounded [OF any_evaluated] unfolding list_all_iff by blast

lemma any_well_formed: "well_formed any_root"
  by code_simp

theorem evaluation_total_witness:
  "\<exists>e. evaluate Some (\<lambda>g s. (any_root, False)) ''a.ts'' ''any'' False = Inr e \<and>
    list_all (\<lambda>f. ob_start f \<le> ob_end f) (ev_findings e)"
  unfolding list_all_iff by (rule evaluation_total) (simp add: any_well_formed)

end
