(* ===== verification/Pipeline_Results.thy ===== *)
theory Pipeline_Results
  imports Pipeline Analyzer_Results
begin

section \<open>Properties of the analysis of a pull request\<close>

text \<open>
  What a report of \<open>Pipeline\<close> says of the files it names: rules for one evaluation, for one file
  and, by induction over the list of changes, for the whole report; then the properties.
\<close>

lemma io_of_Inr: "io_of r w = (Inr x, w') \<longleftrightarrow> r = Inr x \<and> w' = w"
  by (auto simp: io_of_def split: sum.splits)

lemma io_check_Inr: "io_check b e w = (Inr u, w') \<longleftrightarrow> b \<and> w' = w"
  by (auto simp: io_check_def)

lemma collect_results_Inr:
  "collect_results f xs = Inr ys \<Longrightarrow> list_all2 (\<lambda>x y. f x = Inr y) xs ys"
  by (induction xs arbitrary: ys) (auto split: sum.splits)

lemma list_all2_source: "list_all2 P xs ys \<Longrightarrow> y \<in> set ys \<Longrightarrow> \<exists>x \<in> set xs. P x y"
  by (induction rule: list_all2_induct) auto

subsection \<open>One evaluation\<close>

text \<open>What holds of the evaluation of every file, whichever way it was obtained.\<close>

definition sound_evaluation :: "string \<Rightarrow> evaluation \<Rightarrow> bool" where
  "sound_evaluation path e \<longleftrightarrow>
     ev_language e = language_for path \<and> short_reason e \<and> length (ev_findings e) \<le> 100 \<and> distinct (ev_findings e) \<and>
     list_all observation_ok (ev_findings e) \<and> list_all known_observation (ev_findings e) \<and>
     (ev_status e = INCLUDED \<and> ev_not_evaluated e = [] \<and> \<not> secrets_only e \<longrightarrow>
        set (ev_evaluated e) = set (applicable (ev_language e)))"

lemma narrowed_eq:
  "narrowed e \<longleftrightarrow> ev_status e \<notin> {INCLUDED, EXCLUDED} \<or> ev_limit e \<or> ev_not_evaluated e \<noteq> [] \<or> secrets_only e"
  by (simp add: narrowed_def secrets_only_def)

lemma sound_without_findings:
  "status \<noteq> INCLUDED \<Longrightarrow> length reason \<le> 64 \<Longrightarrow>
   sound_evaluation path (new_evaluation (language_for path) status (Some reason))"
  by (simp add: sound_evaluation_def new_evaluation_def short_reason_def)

lemma sound_removed [simp]:
  "sound_evaluation path (removed_file path)"
  "length reason \<le> 64 \<Longrightarrow> sound_evaluation path (removed_file path\<lparr>ev_reason := Some reason\<rparr>)"
  "status \<noteq> INCLUDED \<Longrightarrow> length reason \<le> 64 \<Longrightarrow>
   sound_evaluation path (removed_file path\<lparr>ev_status := status, ev_reason := Some reason\<rparr>)"
  by (simp_all add: sound_evaluation_def removed_file_def new_evaluation_def short_reason_def)

lemma sound_output:
  assumes "evaluate decode parse path source ignored = Inr e" and "read_output e = Inr e'"
  shows "sound_evaluation path e'"
proof -
  have "e' = e" "list_all known_observation (ev_findings e)"
    using assms(2) by (auto simp: read_output_def split: if_splits)
  then show ?thesis
    using evaluate_accounts [OF assms(1)] evaluate_bounds [OF assms(1)] evaluate_reason [OF assms(1)] by (auto simp: sound_evaluation_def)
qed

lemma sound_parse_file: "parse_file sv path source ignored w = (Inr e, w') \<Longrightarrow> sound_evaluation path e"
  by (auto simp: parse_file_def Let_def parser_entry_def sound_without_findings
      intro: sound_output split: if_splits option.splits prod.splits process_end.splits sum.splits)

text \<open>The object id that is kept with a file whose source was read.\<close>

definition source_id_ok :: "string option \<Rightarrow> bool" where
  "source_id_ok v \<longleftrightarrow> (case v of None \<Rightarrow> True | Some sha \<Rightarrow> is_hex 40 sha)"

lemma hex_sha_Inr: "hex_sha v = Inr sha \<Longrightarrow> is_hex 40 sha"
  by (auto simp: hex_sha_def split: option.splits if_splits)

lemma sound_inspect:
  assumes "inspect sv repo token ignored root path s = (Inr x, s')"
  shows "sound_evaluation path (fst x) \<and> source_id_ok (snd x)"
  using assms
  by (auto simp: inspect_def read_blob_def io_bind_Inr io_of_Inr io_lift_Inr sound_parse_file source_id_ok_def
      dest: hex_sha_Inr split: if_splits option.splits)

lemma file_failure_Inr: "file_failure path e s = (Inr x, s') \<Longrightarrow> sound_evaluation path (fst x) \<and> source_id_ok (snd x)"
  by (cases e) (auto simp: source_id_ok_def split: if_splits)

lemma sound_file_evaluation:
  assumes "file_evaluation sv repo token ignored root path change s = (Inr x, s')"
  shows "sound_evaluation path (fst x) \<and> source_id_ok (snd x)"
proof (cases "json_get ''status'' change = JStr ''removed''")
  case True
  then show ?thesis using assms by (auto simp: file_evaluation_def source_id_ok_def)
next
  case False
  then have "io_try (inspect sv repo token ignored root path) (file_failure path) s = (Inr x, s')"
    using assms by (simp add: file_evaluation_def)
  then show ?thesis unfolding io_try_Inr using sound_inspect file_failure_Inr by blast
qed

subsection \<open>One file\<close>

text \<open>The rows a file contributes: the file itself and its findings.\<close>

definition reported :: "'w services \<Rightarrow> file_data \<Rightarrow> finding_data list \<Rightarrow> bool" where
  "reported sv f found \<longleftrightarrow>
     (\<exists>path change e sha outcomes ranges.
        safe_path (json_get ''filename'' change) = Inr path \<and> sound_evaluation path e \<and> source_id_ok sha \<and>
        collect_results (outcome_of e) (applicable (ev_language e)) = Inr outcomes \<and>
        collect_results (finding_of sv path ranges e) (ev_findings e) = Inr found \<and>
        f = file_of sv path change e sha outcomes)"

definition narrowed_file :: "file_data \<Rightarrow> bool" where
  "narrowed_file f \<longleftrightarrow>
     fd_status f \<notin> {INCLUDED, EXCLUDED} \<or> fd_finding_limit_reached f \<or>
     fd_status f = INCLUDED \<and> \<not> list_all oc_evaluated (fd_rule_outcomes f)"

lemma outcomes_eq:
  "list_all2 (\<lambda>r oc. outcome_of e r = Inr oc) rs ocs \<Longrightarrow>
   map oc_rule_id ocs = rs \<and> map oc_evaluated ocs = map (\<lambda>r. r \<in> set (ev_evaluated e)) rs"
  by (induction rs ocs rule: list_all2_induct)
     (auto simp: outcome_of_def rule_of_def split: option.splits)

lemma outcomes_of_file:
  assumes "collect_results (outcome_of e) (applicable (ev_language e)) = Inr ocs"
  shows "map oc_rule_id ocs = applicable (ev_language e)"
    and "list_all oc_evaluated ocs \<longleftrightarrow> set (applicable (ev_language e)) \<subseteq> set (ev_evaluated e)"
proof -
  note eq = outcomes_eq [OF collect_results_Inr [OF assms]]
  then show "map oc_rule_id ocs = applicable (ev_language e)" by simp
  have "list_all oc_evaluated ocs \<longleftrightarrow> (\<forall>b \<in> set (map oc_evaluated ocs). b)" by (simp add: list_all_iff)
  also have "\<dots> \<longleftrightarrow> set (applicable (ev_language e)) \<subseteq> set (ev_evaluated e)" by (auto simp: eq)
  finally show "list_all oc_evaluated ocs \<longleftrightarrow> set (applicable (ev_language e)) \<subseteq> set (ev_evaluated e)" .
qed

lemma narrowed_file_narrowed:
  assumes "sound_evaluation path e"
    and "collect_results (outcome_of e) (applicable (ev_language e)) = Inr ocs"
    and "narrowed_file (file_of sv path change e sha ocs)"
  shows "narrowed e"
proof (rule ccontr)
  assume wide: "\<not> narrowed e"
  then have "ev_status e \<in> {INCLUDED, EXCLUDED}" "\<not> ev_limit e" by (simp_all add: narrowed_eq)
  then have "ev_status e = INCLUDED" "\<not> list_all oc_evaluated ocs"
    using assms(3) by (simp_all add: narrowed_file_def file_of_def)
  moreover from this wide have "set (ev_evaluated e) = set (applicable (ev_language e))"
    using assms(1) by (simp add: sound_evaluation_def narrowed_eq)
  ultimately show False using outcomes_of_file(2) [OF assms(2)] by simp
qed

lemma change_path_Inr:
  "change_path change paths = Inr path \<longleftrightarrow>
   is_obj change \<and> safe_path (json_get ''filename'' change) = Inr path \<and> path \<notin> set paths"
  by (auto simp: change_path_def split: sum.splits)

lemma report_file_Inr:
  assumes "report_file sv path change x rp = Inr rp'" and "sound_evaluation path (fst x) \<and> source_id_ok (snd x)"
    and "safe_path (json_get ''filename'' change) = Inr path"
  obtains f found where "reported sv f found" "fd_file_path f = path"
    "rp_files rp' = rp_files rp @ [f]" "rp_findings rp' = rp_findings rp @ found"
    "rp_paths rp' = path # rp_paths rp" "rp_partial rp \<or> narrowed_file f \<longrightarrow> rp_partial rp'"
proof -
  obtain e sha where x: "x = (e, sha)" by (cases x)
  define ranges where "ranges = changed_lines (json_get ''patch'' change) (json_get ''additions'' change) (json_get ''deletions'' change)"
  obtain ocs found where ocs: "collect_results (outcome_of e) (applicable (ev_language e)) = Inr ocs"
    and found: "collect_results (finding_of sv path ranges e) (ev_findings e) = Inr found"
    and rp': "rp' = \<lparr>rp_files = rp_files rp @ [file_of sv path change e sha ocs], rp_findings = rp_findings rp @ found,
      rp_partial = (rp_partial rp \<or> narrowed e), rp_paths = path # rp_paths rp\<rparr>"
    using assms(1) by (auto simp: report_file_def x Let_def ranges_def map_sum_def split: sum.splits)
  have "narrowed_file (file_of sv path change e sha ocs) \<Longrightarrow> narrowed e"
    using narrowed_file_narrowed ocs assms(2) x by fastforce
  moreover have "reported sv (file_of sv path change e sha ocs) found"
    unfolding reported_def using assms(2,3) ocs found unfolding x fst_conv snd_conv by blast
  ultimately show thesis by (intro that [of "file_of sv path change e sha ocs" found]) (auto simp: rp' file_of_def)
qed

subsection \<open>The whole report\<close>

definition report_ok :: "'w services \<Rightarrow> report \<Rightarrow> bool" where
  "report_ok sv rp \<longleftrightarrow>
     (\<exists>found. list_all2 (reported sv) (rp_files rp) found \<and> rp_findings rp = concat found) \<and>
     rev (rp_paths rp) = map fd_file_path (rp_files rp) \<and> distinct (rp_paths rp) \<and>
     (\<not> rp_partial rp \<longrightarrow> (\<forall>f \<in> set (rp_files rp). \<not> narrowed_file f))"

lemma report_ok_step:
  assumes "report_ok sv rp" and "report_file sv path change x rp = Inr rp'"
    and "sound_evaluation path (fst x) \<and> source_id_ok (snd x)" and "change_path change (rp_paths rp) = Inr path"
  shows "report_ok sv rp' \<and> length (rp_files rp') = Suc (length (rp_files rp)) \<and> (rp_partial rp \<longrightarrow> rp_partial rp')"
proof -
  have path: "safe_path (json_get ''filename'' change) = Inr path" "path \<notin> set (rp_paths rp)"
    using assms(4) by (auto simp: change_path_Inr)
  obtain f found where step: "reported sv f found" "fd_file_path f = path"
    "rp_files rp' = rp_files rp @ [f]" "rp_findings rp' = rp_findings rp @ found"
    "rp_paths rp' = path # rp_paths rp" "rp_partial rp \<or> narrowed_file f \<longrightarrow> rp_partial rp'"
    using report_file_Inr [OF assms(2,3) path(1)] by blast
  obtain fs where fs: "list_all2 (reported sv) (rp_files rp) fs" "rp_findings rp = concat fs"
    using assms(1) by (auto simp: report_ok_def)
  have "list_all2 (reported sv) (rp_files rp @ [f]) (fs @ [found])"
    using fs(1) step(1) by (simp add: list_all2_appendI)
  moreover have "rp_findings rp' = concat (fs @ [found])" using fs(2) step(4) by simp
  ultimately show ?thesis using assms(1) step path(2) unfolding report_ok_def by auto
qed

lemma report_ok_changes:
  "analyze_changes sv repo token ignored root changes rp s = (Inr rp', s') \<Longrightarrow> report_ok sv rp \<Longrightarrow>
   report_ok sv rp' \<and> length (rp_files rp') = length (rp_files rp) + length changes \<and> (rp_partial rp \<longrightarrow> rp_partial rp')"
proof (induction changes arbitrary: rp s)
  case (Cons change changes)
  from Cons.prems(1) obtain path x rp1 s1 s2 s3 where
    path: "change_path change (rp_paths rp) = Inr path"
    and x: "file_evaluation sv repo token ignored root path change s1 = (Inr x, s2)"
    and rp1: "report_file sv path change x rp = Inr rp1"
    and rest: "analyze_changes sv repo token ignored root changes rp1 s3 = (Inr rp', s')"
    by (auto simp: io_bind_Inr io_of_Inr)
  have "report_ok sv rp1 \<and> length (rp_files rp1) = Suc (length (rp_files rp)) \<and> (rp_partial rp \<longrightarrow> rp_partial rp1)"
    by (rule report_ok_step [OF Cons.prems(2) rp1 sound_file_evaluation [OF x] path])
  with Cons.IH [OF rest] show ?case by simp
qed simp

lemma verify_Inr:
  "verify sv repo snap token s = (Inr n, s') \<longleftrightarrow>
   (\<exists>w1 row. checkpoint sv s = (Inr (), (w1, snd s)) \<and>
      sv_request sv (pull_path repo snap) token w1 = (Inr row, fst s') \<and> snd s' = snd s \<and>
      same_snapshot snap row = Inr True \<and> changed_files row = Inr n)"
  by (cases s; cases s')
     (auto simp: verify_def io_bind_Inr io_of_Inr io_check_Inr fetch_json_def checkpoint_def io_lift_Inr)

lemma analyze_Inr:
  assumes "analyze sv repo snap ignored w = (Inr r, w')"
  obtains token count count' changes root rp s0 s1 s2 s3 s4 s5 s6 where
    "verify sv repo snap token s1 = (Inr count, s2)"
    "file_list sv repo snap token count s2 = (Inr changes, s3)"
    "analyze_changes sv repo token ignored root changes
       \<lparr>rp_files = [], rp_findings = [], rp_partial = (int max_files < count), rp_paths = []\<rparr> s4 = (Inr rp, s5)"
    "verify sv repo snap token s5 = (Inr count', s6)" "w' = fst s6" "r = result_of_report count rp"
proof -
  obtain s where s: "analyze_local sv repo snap ignored (w, \<lparr>lc_trees = [], lc_total = 0\<rparr>) = (Inr r, s)" "w' = fst s"
    using assms by (auto simp: analyze_def split: prod.splits)
  then obtain token count count' changes root rp s1 s2 s3 s4 s5 s6 where
    "verify sv repo snap token s1 = (Inr count, s2)"
    "file_list sv repo snap token count s2 = (Inr changes, s3)"
    "analyze_changes sv repo token ignored root changes
       \<lparr>rp_files = [], rp_findings = [], rp_partial = (int max_files < count), rp_paths = []\<rparr> s4 = (Inr rp, s5)"
    "verify sv repo snap token s5 = (Inr count', s6)" "io_ret (result_of_report count rp) s6 = (Inr r, s)"
    unfolding analyze_local_def by (elim io_bindE) (rule that)
  with s(2) show thesis by (intro that) simp_all
qed

lemma analyze_report:
  assumes "analyze sv repo snap ignored w = (Inr r, w')"
  obtains count rp where "r = result_of_report count rp" "report_ok sv rp" "0 \<le> count"
    "int (length (rp_files rp)) = min count (int max_files)" "int max_files < count \<longrightarrow> rp_partial rp"
proof -
  obtain token count count' changes root rp s1 s2 s3 s4 s5 s6 where
    v: "verify sv repo snap token s1 = (Inr count, s2)"
    and c: "file_list sv repo snap token count s2 = (Inr changes, s3)"
    and l: "analyze_changes sv repo token ignored root changes
       \<lparr>rp_files = [], rp_findings = [], rp_partial = (int max_files < count), rp_paths = []\<rparr> s4 = (Inr rp, s5)"
    and "verify sv repo snap token s5 = (Inr count', s6)" "w' = fst s6"
    and r: "r = result_of_report count rp"
    by (rule analyze_Inr [OF assms])
  have "report_ok sv \<lparr>rp_files = [], rp_findings = [], rp_partial = (int max_files < count), rp_paths = []\<rparr>"
    by (simp add: report_ok_def)
  from report_ok_changes [OF l this] have "report_ok sv rp" "length (rp_files rp) = length changes"
    "int max_files < count \<longrightarrow> rp_partial rp" by simp_all
  moreover have "int (length changes) = min count (int max_files)"
    using c by (auto simp: file_list_def io_bind_Inr split: option.splits if_splits)
  moreover have "0 \<le> count" using v by (auto simp: verify_Inr changed_files_def split: option.splits if_splits)
  ultimately show thesis using that r by metis
qed

lemma reported_file:
  assumes "reported sv f found"
  shows "fd_language f = language_for (fd_file_path f)"
    "map oc_rule_id (fd_rule_outcomes f) = applicable (fd_language f)"
proof -
  obtain path change e sha outcomes where e: "sound_evaluation path e"
    "collect_results (outcome_of e) (applicable (ev_language e)) = Inr outcomes" "f = file_of sv path change e sha outcomes"
    using assms by (auto simp: reported_def)
  show "fd_language f = language_for (fd_file_path f)"
    "map oc_rule_id (fd_rule_outcomes f) = applicable (fd_language f)"
    using e(1) outcomes_of_file(1) [OF e(2)] by (simp_all add: e(3) file_of_def sound_evaluation_def)
qed

lemma full_scope_report:
  assumes "an_coverage (result_of_report n rp) = FULL_SCOPE" and "int max_files < n \<longrightarrow> rp_partial rp"
  shows "\<not> rp_partial rp" "an_reason (result_of_report n rp) = None"
    "list_ex (\<lambda>f. fd_status f = INCLUDED \<and> fd_language f \<noteq> None) (rp_files rp)"
proof -
  show "\<not> rp_partial rp" and supported: "list_ex (\<lambda>f. fd_status f = INCLUDED \<and> fd_language f \<noteq> None) (rp_files rp)"
    using assms(1) by (auto simp: result_of_report_def Let_def split: if_splits)
  from supported have "list_ex (\<lambda>f. fd_status f = INCLUDED) (rp_files rp)" by (auto simp: list_ex_iff)
  with assms supported \<open>\<not> rp_partial rp\<close> show "an_reason (result_of_report n rp) = None"
    by (simp add: result_of_report_def Let_def)
qed

lemma counted_report:
  assumes listed: "file_list sv repo snap token k s2 = (Inr changes, s3)"
    and loop: "analyze_changes sv repo token ignored root changes
       \<lparr>rp_files = [], rp_findings = [], rp_partial = (int max_files < k), rp_paths = []\<rparr> s4 = (Inr rp, s5)"
  shows "int (length (an_files (result_of_report k rp))) = min k (int max_files) \<and>
    (int max_files < k \<longrightarrow> an_coverage (result_of_report k rp) \<noteq> FULL_SCOPE)"
proof -
  have "report_ok sv \<lparr>rp_files = [], rp_findings = [], rp_partial = (int max_files < k), rp_paths = []\<rparr>"
    by (simp add: report_ok_def)
  from report_ok_changes [OF loop this] have files: "length (rp_files rp) = length changes"
    and partial: "int max_files < k \<longrightarrow> rp_partial rp" by simp_all
  have "int (length changes) = min k (int max_files)"
    using listed by (auto simp: file_list_def io_bind_Inr split: option.splits if_splits)
  with files have "int (length (an_files (result_of_report k rp))) = min k (int max_files)"
    by (simp add: result_of_report_def Let_def)
  then show ?thesis using full_scope_report(1) partial by blast
qed

subsection \<open>The order of the requests\<close>

text \<open>
  The same services with a protocol: every request to GitHub is written down with its answer, in
  the order in which it is made. \<open>records\<close> says that an action does with them what it does without,
  and that all its requests are of a kind.
\<close>

type_synonym exchange = "string \<times> (exn + json)"

definition recorded :: "'w services \<Rightarrow> ('w \<times> exchange list) services" where
  "recorded sv =
     \<lparr>sv_token = (\<lambda>i g. io_lift (sv_token sv i g)),
      sv_request = (\<lambda>path token s. case sv_request sv path token (fst s) of (x, w) \<Rightarrow> (x, (w, snd s @ [(path, x)]))),
      sv_checkpoint = io_lift (sv_checkpoint sv),
      sv_process = (\<lambda>path content ignored s. case sv_process sv path content ignored (fst s) of (x, w) \<Rightarrow> (x, (w, snd s))),
      sv_parse = sv_parse sv, sv_decode = sv_decode sv, sv_sha1 = sv_sha1 sv, sv_sha256 = sv_sha256 sv\<rparr>"

definition records ::
  "(string \<Rightarrow> bool) \<Rightarrow> ('w, 'a) step \<Rightarrow> ('w \<times> exchange list, 'a) step \<Rightarrow> bool" where
  "records P m m' \<longleftrightarrow>
     (\<forall>w l log x w1 l1. m (w, l) = (x, (w1, l1)) \<longrightarrow>
        (\<exists>seen. m' ((w, log), l) = (x, ((w1, log @ seen), l1)) \<and> list_all (\<lambda>q. P (fst q)) seen))"

lemma records_run:
  assumes "records P m m'" and "m s = (x, s')"
  obtains seen where "m' ((fst s, log), snd s) = (x, ((fst s', log @ seen), snd s'))" "list_all (\<lambda>q. P (fst q)) seen"
  using assms unfolding records_def by (metis prod.collapse)

lemma records_silent:
  assumes "\<And>w l. \<exists>x l1. m (w, l) = (x, (w, l1)) \<and> (\<forall>log. m' ((w, log), l) = (x, ((w, log), l1)))"
  shows "records P m m'"
  unfolding records_def
proof (intro allI impI)
  fix w l log x w1 l1 assume "m (w, l) = (x, (w1, l1))"
  moreover obtain y l2 where "m (w, l) = (y, (w, l2))" "m' ((w, log), l) = (y, ((w, log), l2))" using assms by blast
  ultimately show "\<exists>seen. m' ((w, log), l) = (x, ((w1, log @ seen), l1)) \<and> list_all (\<lambda>q. P (fst q)) seen"
    by (intro exI [of _ "[]"]) simp
qed

lemma records_basic [simp]:
  "records P (io_ret v) (io_ret v)" "records P (io_raise e) (io_raise e)" "records P (io_get f) (io_get f)"
  "records P (io_put g) (io_put g)" "records P (io_of r) (io_of r)"
  by (rule records_silent; auto simp: io_ret_def io_raise_def io_get_def io_put_def io_of_def split: sum.split)+

lemma records_bind:
  assumes "records P m m'" and "\<And>v. records P (f v) (f' v)"
  shows "records P (io_bind m f) (io_bind m' f')"
  unfolding records_def
proof (intro allI impI)
  fix w l log x w1 l1 assume run: "io_bind m f (w, l) = (x, (w1, l1))"
  obtain y s where y: "m (w, l) = (y, s)" by (cases "m (w, l)")
  obtain seen where seen: "m' ((w, log), l) = (y, ((fst s, log @ seen), snd s))" "list_all (\<lambda>q. P (fst q)) seen"
    using records_run [OF assms(1) y] by auto
  show "\<exists>seen. io_bind m' f' ((w, log), l) = (x, ((w1, log @ seen), l1)) \<and> list_all (\<lambda>q. P (fst q)) seen"
  proof (cases y)
    case (Inl e)
    then show ?thesis using run y seen by (intro exI [of _ seen]) (auto simp: io_bind_def)
  next
    case (Inr v)
    then have "f v s = (x, (w1, l1))" using run y by (simp add: io_bind_def)
    from records_run [OF assms(2) this, where log = "log @ seen"] obtain more where
      "f' v ((fst s, log @ seen), snd s) = (x, ((w1, (log @ seen) @ more), l1))" "list_all (\<lambda>q. P (fst q)) more" by auto
    then show ?thesis using Inr seen by (intro exI [of _ "seen @ more"]) (simp add: io_bind_def)
  qed
qed

lemma records_of:
  "(\<And>v. r = Inr v \<Longrightarrow> records P (f v) (f' v)) \<Longrightarrow> records P (io_bind (io_of r) f) (io_bind (io_of r) f')"
  by (cases r) (auto simp: records_def io_bind_def io_of_def io_raise_def io_ret_def)

lemma records_try:
  assumes "records P m m'" and "\<And>e. records P (h e) (h' e)"
  shows "records P (io_try m h) (io_try m' h')"
  unfolding records_def
proof (intro allI impI)
  fix w l log x w1 l1 assume run: "io_try m h (w, l) = (x, (w1, l1))"
  obtain y s where y: "m (w, l) = (y, s)" by (cases "m (w, l)")
  obtain seen where seen: "m' ((w, log), l) = (y, ((fst s, log @ seen), snd s))" "list_all (\<lambda>q. P (fst q)) seen"
    using records_run [OF assms(1) y] by auto
  show "\<exists>seen. io_try m' h' ((w, log), l) = (x, ((w1, log @ seen), l1)) \<and> list_all (\<lambda>q. P (fst q)) seen"
  proof (cases y)
    case (Inl e)
    then have "h e s = (x, (w1, l1))" using run y by (simp add: io_try_def)
    from records_run [OF assms(2) this, where log = "log @ seen"] obtain more where
      "h' e ((fst s, log @ seen), snd s) = (x, ((w1, (log @ seen) @ more), l1))" "list_all (\<lambda>q. P (fst q)) more" by auto
    then show ?thesis using Inl seen by (intro exI [of _ "seen @ more"]) (simp add: io_try_def)
  next
    case (Inr v)
    then show ?thesis using run y seen by (intro exI [of _ seen]) (auto simp: io_try_def)
  qed
qed

text \<open>What the analysis reads between the two answers: trees and blobs by their object id.\<close>

definition object_path :: "repository_snapshot \<Rightarrow> string \<Rightarrow> bool" where
  "object_path repo path \<longleftrightarrow>
     (\<exists>sha. is_hex 40 sha \<and>
        (path = repo_prefix repo @ ''/git/trees/'' @ sha \<or> path = repo_prefix repo @ ''/git/blobs/'' @ sha))"

lemma records_checkpoint [simp]: "records P (checkpoint sv) (checkpoint (recorded sv))"
  by (auto simp: records_def checkpoint_def recorded_def io_lift_def split: prod.splits intro!: exI [of _ "[]"])

lemma recorded_pure [simp]:
  "sv_parse (recorded sv) = sv_parse sv" "sv_decode (recorded sv) = sv_decode sv"
  "sv_sha1 (recorded sv) = sv_sha1 sv" "sv_sha256 (recorded sv) = sv_sha256 sv"
  "parser_entry (recorded sv) = parser_entry sv"
  by (simp_all add: recorded_def parser_entry_def [abs_def])

lemma recorded_process [simp]:
  "sv_process (recorded sv) path content ignored s =
     (case sv_process sv path content ignored (fst s) of (x, w) \<Rightarrow> (x, (w, snd s)))"
  by (simp add: recorded_def)

lemma records_parse [simp]:
  "records P (io_lift (parse_file sv path source ignored)) (io_lift (parse_file (recorded sv) path source ignored))"
  by (auto simp: records_def io_lift_def parse_file_def Let_def
      split: prod.splits option.splits process_end.splits intro!: exI [of _ "[]"])

lemma records_fetch: "P path \<Longrightarrow> records P (fetch_json sv token path) (fetch_json (recorded sv) token path)"
  by (auto simp: records_def fetch_json_def recorded_def io_lift_def split: prod.splits)

lemma recorded_reports [simp]:
  "blob_source (recorded sv) blob n sha = blob_source sv blob n sha"
  "finding_of (recorded sv) = finding_of sv" "file_of (recorded sv) = file_of sv"
  by (simp_all add: blob_source_def finding_of_def [abs_def] file_of_def [abs_def] split: option.split)

lemma recorded_report_file [simp]: "report_file (recorded sv) path change x rp = report_file sv path change x rp"
  by (simp add: report_file_def Let_def split: prod.split sum.split)

lemma records_tree_items:
  "is_hex 40 sha \<Longrightarrow> records (object_path repo) (tree_items sv repo token sha) (tree_items (recorded sv) repo token sha)"
  unfolding tree_items_def
  by (intro records_bind records_basic)
    (auto split: option.split intro!: records_bind records_fetch simp: object_path_def)

lemma records_entry:
  "is_hex 40 sha \<Longrightarrow> records (object_path repo) (entry sv repo token sha parts) (entry (recorded sv) repo token sha parts)"
proof (induction parts arbitrary: sha)
  case (Cons part rest)
  show ?case
    using Cons.prems
    by (auto intro!: records_bind records_of records_tree_items Cons.IH dest: hex_sha_Inr split: option.split)
qed simp

lemma records_read_blob:
  "records (object_path repo) (read_blob sv repo token ignored path n item) (read_blob (recorded sv) repo token ignored path n item)"
  unfolding read_blob_def
  by (auto intro!: records_bind records_of records_fetch dest: hex_sha_Inr simp: object_path_def)

lemma records_inspect:
  "is_hex 40 root \<Longrightarrow>
   records (object_path repo) (inspect sv repo token ignored root path) (inspect (recorded sv) repo token ignored root path)"
  unfolding inspect_def
  by (auto intro!: records_bind records_entry records_read_blob split: option.split)

lemma file_failure_same: "records P (file_failure path e) (file_failure path e)"
  by (cases e) simp_all

lemma records_changes:
  "is_hex 40 root \<Longrightarrow>
   records (object_path repo) (analyze_changes sv repo token ignored root changes rp)
     (analyze_changes (recorded sv) repo token ignored root changes rp)"
proof (induction changes arbitrary: rp)
  case (Cons change changes)
  then show ?case
    by (auto simp: file_evaluation_def intro!: records_bind records_try records_inspect file_failure_same)
qed simp

text \<open>A single request with what it is answered.\<close>

lemma fetch_recorded:
  "fetch_json sv token path s = (x, s') \<Longrightarrow>
   fetch_json (recorded sv) token path ((fst s, log), snd s) = (x, ((fst s', log @ [(path, x)]), snd s'))"
  by (auto simp: fetch_json_def recorded_def io_lift_def split: prod.splits)

lemma checkpoint_recorded:
  "checkpoint sv s = (x, s') \<Longrightarrow> checkpoint (recorded sv) ((fst s, log), snd s) = (x, ((fst s', log), snd s'))"
  by (auto simp: checkpoint_def recorded_def io_lift_def split: prod.splits)

lemma verify_recorded:
  assumes "verify sv repo snap token s = (Inr n, s')"
  obtains row where "same_snapshot snap row = Inr True" "changed_files row = Inr n"
    "verify (recorded sv) repo snap token ((fst s, log), snd s) =
       (Inr n, ((fst s', log @ [(pull_path repo snap, Inr row)]), snd s'))"
proof -
  from assms obtain s1 row s2 where 1: "checkpoint sv s = (Inr (), s1)"
    and 2: "fetch_json sv token (pull_path repo snap) s1 = (Inr row, s2)"
    and same: "same_snapshot snap row = Inr True" "changed_files row = Inr n" "s' = s2"
    unfolding verify_def by (auto elim!: io_bindE simp: io_of_Inr io_check_Inr)
  have "verify (recorded sv) repo snap token ((fst s, log), snd s) =
       (Inr n, ((fst s2, log @ [(pull_path repo snap, Inr row)]), snd s2))"
    using checkpoint_recorded [OF 1] fetch_recorded [OF 2] same
    by (simp add: verify_def io_bind_def io_of_def io_check_def io_ret_def)
  with same show thesis by (intro that) simp_all
qed

lemma file_list_recorded:
  assumes "file_list sv repo snap token k s = (Inr changes, s')"
  obtains answer where "file_list (recorded sv) repo snap token k ((fst s, log), snd s) =
    (Inr changes, ((fst s', log @ [(pull_path repo snap @ ''/files?per_page=100&page=1'', answer)]), snd s'))"
proof -
  from assms obtain v s1 where 1: "fetch_json sv token (pull_path repo snap @ ''/files?per_page=100&page=1'') s = (Inr v, s1)"
    and 2: "as_arr v = Some changes" "int (length changes) = min k (int max_files)" "s' = s1"
    unfolding file_list_def by (auto elim!: io_bindE split: option.splits if_splits)
  show thesis
    by (rule that [of "Inr v"]) (use fetch_recorded [OF 1] 2 in \<open>simp add: file_list_def io_bind_def io_ret_def\<close>)
qed

lemma root_tree_recorded:
  assumes "root_tree sv repo snap token s = (Inr root, s')"
  obtains answer where "root_tree (recorded sv) repo snap token ((fst s, log), snd s) =
    (Inr root, ((fst s', log @ [(repo_prefix repo @ ''/git/commits/'' @ sn_head_sha snap, answer)]), snd s'))" "is_hex 40 root"
proof -
  from assms obtain s1 commit s2 v where 1: "checkpoint sv s = (Inr (), s1)"
    and 2: "fetch_json sv token (repo_prefix repo @ ''/git/commits/'' @ sn_head_sha snap) s1 = (Inr commit, s2)"
    and 3: "(if is_obj commit then get_in ''tree'' ''sha'' commit else Inr JNull) = Inr v" "hex_sha v = Inr root" "s' = s2"
    unfolding root_tree_def by (auto elim!: io_bindE simp: io_of_Inr)
  show thesis
    by (rule that [of "Inr commit"])
      (use checkpoint_recorded [OF 1] fetch_recorded [OF 2] 3 hex_sha_Inr [OF 3(2)] in
        \<open>simp_all add: root_tree_def io_bind_def io_of_def io_ret_def\<close>)
qed

subsection \<open>Properties\<close>

text \<open>
  C15. A report is about the snapshot it was asked for. Of all the requests that a successful
  analysis makes, in their order, the first asks for the pull request and GitHub names the base and
  head commit of the snapshot; then come the list of changed files and the head commit of the
  snapshot, then only trees and blobs by their object id, and the last one asks for the pull
  request again and GitHub names the same commits. The report has one entry for each changed file
  up to the limit, and never claims the full scope when the pull request has more files.
\<close>

theorem analysis_reads_snapshot:
  assumes "analyze sv repo snap ignored w = (Inr r, w')"
  shows "\<exists>row n listed commit objects row'.
    analyze (recorded sv) repo snap ignored (w, []) = (Inr r, (w',
      [(pull_path repo snap, Inr row), (pull_path repo snap @ ''/files?per_page=100&page=1'', listed),
       (repo_prefix repo @ ''/git/commits/'' @ sn_head_sha snap, commit)] @ objects @ [(pull_path repo snap, Inr row')])) \<and>
    same_snapshot snap row = Inr True \<and> changed_files row = Inr n \<and> same_snapshot snap row' = Inr True \<and>
    list_all (\<lambda>q. object_path repo (fst q)) objects \<and>
    int (length (an_files r)) = min n (int max_files) \<and> (int max_files < n \<longrightarrow> an_coverage r \<noteq> FULL_SCOPE)"
proof -
  define s where "s = (w, \<lparr>lc_trees = [], lc_total = 0\<rparr>)"
  obtain s' where "analyze_local sv repo snap ignored s = (Inr r, s')" and w': "w' = fst s'"
    using assms by (auto simp: analyze_def s_def split: prod.splits)
  then obtain s0 token s1 count s2 changes s3 root s4 rp s5 count' where
    begun: "checkpoint sv s = (Inr (), s0)"
    and token: "io_lift (sv_token sv (rs_installation_id repo) (rs_github_id repo)) s0 = (Inr token, s1)"
    and first: "verify sv repo snap token s1 = (Inr count, s2)"
    and listed: "file_list sv repo snap token count s2 = (Inr changes, s3)"
    and tree: "root_tree sv repo snap token s3 = (Inr root, s4)"
    and loop: "analyze_changes sv repo token ignored root changes
       \<lparr>rp_files = [], rp_findings = [], rp_partial = (int max_files < count), rp_paths = []\<rparr> s4 = (Inr rp, s5)"
    and last: "verify sv repo snap token s5 = (Inr count', s')" and r: "r = result_of_report count rp"
    unfolding analyze_local_def by (elim io_bindE) (simp add: io_ret_def)
  have lift: "io_lift (sv_token (recorded sv) (rs_installation_id repo) (rs_github_id repo)) ((fst s0, []), snd s0) =
      (Inr token, ((fst s1, []), snd s1))"
    using token by (auto simp: io_lift_def recorded_def split: prod.splits)
  obtain row where row: "same_snapshot snap row = Inr True" "changed_files row = Inr count"
    and v1: "verify (recorded sv) repo snap token ((fst s1, []), snd s1) = (Inr count, ((fst s2, [(pull_path repo snap, Inr row)]), snd s2))"
    using verify_recorded [OF first, where log = "[]"] by auto
  define log1 where "log1 = [(pull_path repo snap, Inr row :: exn + json)]"
  obtain a where v2: "file_list (recorded sv) repo snap token count ((fst s2, log1), snd s2) =
      (Inr changes, ((fst s3, log1 @ [(pull_path repo snap @ ''/files?per_page=100&page=1'', a)]), snd s3))"
    by (rule file_list_recorded [OF listed])
  define log2 where "log2 = log1 @ [(pull_path repo snap @ ''/files?per_page=100&page=1'', a)]"
  obtain b where v3: "root_tree (recorded sv) repo snap token ((fst s3, log2), snd s3) =
      (Inr root, ((fst s4, log2 @ [(repo_prefix repo @ ''/git/commits/'' @ sn_head_sha snap, b)]), snd s4))"
    and root: "is_hex 40 root"
    by (rule root_tree_recorded [OF tree])
  define log3 where "log3 = log2 @ [(repo_prefix repo @ ''/git/commits/'' @ sn_head_sha snap, b)]"
  obtain objects where v4: "analyze_changes (recorded sv) repo token ignored root changes
       \<lparr>rp_files = [], rp_findings = [], rp_partial = (int max_files < count), rp_paths = []\<rparr> ((fst s4, log3), snd s4) =
       (Inr rp, ((fst s5, log3 @ objects), snd s5))" and objects: "list_all (\<lambda>q. object_path repo (fst q)) objects"
    by (rule records_run [OF records_changes [OF root] loop])
  obtain row' where row': "same_snapshot snap row' = Inr True"
    and v5: "verify (recorded sv) repo snap token ((fst s5, log3 @ objects), snd s5) =
      (Inr count', ((fst s', (log3 @ objects) @ [(pull_path repo snap, Inr row')]), snd s'))"
    by (rule verify_recorded [OF last])
  have "analyze_local (recorded sv) repo snap ignored ((w, []), \<lparr>lc_trees = [], lc_total = 0\<rparr>) =
      (Inr r, ((fst s', (log3 @ objects) @ [(pull_path repo snap, Inr row')]), snd s'))"
    using checkpoint_recorded [OF begun, of "[]"] lift v1 v2 v3 v4 v5
    unfolding analyze_local_def s_def log1_def [symmetric] log2_def [symmetric] log3_def [symmetric]
    by (simp add: io_bind_def io_ret_def r)
  then have run: "analyze (recorded sv) repo snap ignored (w, []) =
      (Inr r, (w', (log3 @ objects) @ [(pull_path repo snap, Inr row')]))"
    by (simp add: analyze_def w')
  have "int (length (an_files r)) = min count (int max_files) \<and> (int max_files < count \<longrightarrow> an_coverage r \<noteq> FULL_SCOPE)"
    using counted_report [OF listed loop] by (simp add: r)
  with run row row' objects show ?thesis
    by (intro exI [of _ row] exI [of _ count] exI [of _ a] exI [of _ b] exI [of _ objects] exI [of _ row'])
      (simp add: log1_def log2_def log3_def)
qed

text \<open>
  Full scope means what it says: no reason is given, some file in a supported language was
  included, every file was either included or excluded and kept all its findings, and for each
  included file every rule that applies to the language of its path was evaluated.
\<close>

theorem full_scope_is_complete:
  assumes "analyze sv repo snap ignored w = (Inr r, w')" and "an_coverage r = FULL_SCOPE"
  shows "an_reason r = None \<and> list_ex (\<lambda>f. fd_status f = INCLUDED \<and> fd_language f \<noteq> None) (an_files r) \<and>
    list_all (\<lambda>f. fd_status f \<in> {INCLUDED, EXCLUDED} \<and> \<not> fd_finding_limit_reached f \<and>
      map oc_rule_id (fd_rule_outcomes f) = applicable (language_for (fd_file_path f)) \<and>
      (fd_status f = INCLUDED \<longrightarrow> list_all oc_evaluated (fd_rule_outcomes f))) (an_files r)"
proof -
  obtain count rp where r: "r = result_of_report count rp" and ok: "report_ok sv rp"
    and "0 \<le> count" "int (length (rp_files rp)) = min count (int max_files)"
    and limit: "int max_files < count \<longrightarrow> rp_partial rp"
    by (rule analyze_report [OF assms(1)])
  note full = full_scope_report [OF assms(2) [unfolded r] limit]
  have files: "an_files r = rp_files rp" by (simp add: r result_of_report_def Let_def)
  have "map oc_rule_id (fd_rule_outcomes f) = applicable (language_for (fd_file_path f)) \<and> \<not> narrowed_file f"
    if f: "f \<in> set (rp_files rp)" for f
  proof -
    obtain found where "reported sv f found" using ok f by (auto simp: report_ok_def list_all2_conv_all_nth in_set_conv_nth)
    moreover have "\<not> narrowed_file f" using ok full(1) f by (simp add: report_ok_def)
    ultimately show ?thesis using reported_file by metis
  qed
  then have "list_all (\<lambda>f. fd_status f \<in> {INCLUDED, EXCLUDED} \<and> \<not> fd_finding_limit_reached f \<and>
      map oc_rule_id (fd_rule_outcomes f) = applicable (language_for (fd_file_path f)) \<and>
      (fd_status f = INCLUDED \<longrightarrow> list_all oc_evaluated (fd_rule_outcomes f))) (rp_files rp)"
    unfolding list_all_iff narrowed_file_def by blast
  then show ?thesis using full(2,3) unfolding files by (simp add: r)
qed

subsection \<open>A concrete analysis\<close>

text \<open>One TypeScript file, unchanged between the two verifications.\<close>

definition sample_snap :: pull_snapshot where
  "sample_snap = \<lparr>sn_number = 1, sn_base_sha = replicate 40 (CHR ''b''), sn_head_sha = replicate 40 (CHR ''c'')\<rparr>"

definition sample_pull_row :: json where
  "sample_pull_row = JObj [(''base'', JObj [(''sha'', JStr (sn_base_sha sample_snap))]),
     (''head'', JObj [(''sha'', JStr (sn_head_sha sample_snap))]), (''changed_files'', JInt 1)]"

definition sample_change :: json where
  "sample_change = JObj [(''filename'', JStr ''a.ts''), (''status'', JStr ''modified'')]"

definition sample_item :: json where
  "sample_item = JObj [(''path'', JStr ''a.ts''), (''mode'', JStr ''100644''), (''type'', JStr ''blob''),
     (''size'', JInt 3), (''sha'', JStr (replicate 40 (CHR ''d'')))]"

definition sample_blob :: json where
  "sample_blob = JObj [(''encoding'', JStr ''base64''), (''content'', JStr ''YW55'')]"

definition sample_answer :: "string \<Rightarrow> string \<Rightarrow> (unit, json) io" where
  "sample_answer path token = io_ret
     (if path = ''/repos/o/r/pulls/1'' then sample_pull_row
      else if path = ''/repos/o/r/pulls/1/files?per_page=100&page=1'' then JArr [sample_change]
      else if path = ''/repos/o/r/git/commits/'' @ replicate 40 (CHR ''c'')
      then JObj [(''tree'', JObj [(''sha'', JStr (replicate 40 (CHR ''e'')))])]
      else if path = ''/repos/o/r/git/trees/'' @ replicate 40 (CHR ''e'') then JObj [(''tree'', JArr [sample_item])]
      else if path = ''/repos/o/r/git/blobs/'' @ replicate 40 (CHR ''d'') then sample_blob
      else JNull)"

definition sample_hash :: "string \<Rightarrow> string" where
  "sample_hash t = replicate 64 (if t = json_quote ''a.ts'' then CHR ''a'' else CHR ''b'')"

definition sample_services :: "unit services" where
  "sample_services =
     \<lparr>sv_token = (\<lambda>_ _. io_ret ''t''), sv_request = sample_answer, sv_checkpoint = io_ret (),
      sv_process = (\<lambda>_ _ _ w. (Wrote 100, w)), sv_parse = (\<lambda>g s. (any_root, False)), sv_decode = Some,
      sv_sha1 = (\<lambda>_. replicate 40 (CHR ''d'')), sv_sha256 = sample_hash\<rparr>"

definition sample_repo :: repository_snapshot where
  "sample_repo = \<lparr>rs_repo_id = 1, rs_workspace_id = 2, rs_github_id = 3, rs_installation_id = 4,
     rs_owner_login = ''o'', rs_name = ''r'', rs_status = R_ACTIVE, rs_generation = 1, rs_last_sync_at = None\<rparr>"

lemma sample_paths:
  "repo_prefix sample_repo = ''/repos/o/r''"
  "pull_path sample_repo sample_snap = ''/repos/o/r/pulls/1''"
  by code_simp+

lemmas sample_simps =
  sample_paths io_eval checkpoint_def fetch_json_def sample_services_def sample_answer_def fst_conv snd_conv

lemma sample_calls:
  "sv_checkpoint sample_services = io_ret ()" "sv_token sample_services = (\<lambda>_ _. io_ret ''t'')"
  "sv_request sample_services = sample_answer"
  by (simp_all add: sample_services_def)

lemma sample_verify: "verify sample_services sample_repo sample_snap t ((), l) = (Inr 1, ((), l))"
proof -
  have "same_snapshot sample_snap sample_pull_row = Inr True" "changed_files sample_pull_row = Inr 1"
    by code_simp+
  then show ?thesis by (simp add: verify_def sample_simps io_of_def io_check_def)
qed

lemma sample_file_list: "file_list sample_services sample_repo sample_snap t 1 ((), l) = (Inr [sample_change], ((), l))"
  by (simp add: file_list_def sample_simps max_files_def)

lemma sample_root: "root_tree sample_services sample_repo sample_snap t ((), l) = (Inr (replicate 40 (CHR ''e'')), ((), l))"
proof -
  have sha: "hex_sha (JStr (replicate 40 (CHR ''e''))) = Inr (replicate 40 (CHR ''e''))" by code_simp
  show ?thesis
    by (simp add: root_tree_def sample_simps sample_snap_def io_of_def get_in_def lookup_last_def json_get_def
        sha)
qed

lemma sample_entry:
  "\<exists>l. entry sample_services sample_repo t (replicate 40 (CHR ''e'')) [''a.ts''] (w, \<lparr>lc_trees = [], lc_total = 0\<rparr>) =
    (Inr sample_item, (w, \<lparr>lc_trees = l, lc_total = 0\<rparr>))"
  by (simp add: tree_items_def sample_simps io_of_def lookup_last_def json_get_def sample_item_def)

lemma sample_parse: "parse_file sample_services ''a.ts'' ''any'' False w = (Inr any_result, w)"
proof -
  have "utf8 ''any'' = ''any''" "read_output any_result = Inr any_result" by code_simp+
  then show ?thesis using any_evaluated
    by (simp add: parse_file_def parser_entry_def sample_services_def max_file_def)
qed

lemma sample_inspect:
  "\<exists>l. inspect sample_services sample_repo t [] (replicate 40 (CHR ''e'')) ''a.ts'' (w, \<lparr>lc_trees = [], lc_total = 0\<rparr>) =
    (Inr (any_result, Some (replicate 40 (CHR ''d''))), (w, \<lparr>lc_trees = l, lc_total = 3\<rparr>))"
proof -
  have path: "split_on (CHR ''/'') ''a.ts'' = [''a.ts'']" by code_simp
  have item: "regular_file sample_item" "json_get ''size'' sample_item = JInt 3"
    "json_get ''sha'' sample_item = JStr (replicate 40 (CHR ''d''))" by code_simp+
  have sha: "hex_sha (JStr (replicate 40 (CHR ''d''))) = Inr (replicate 40 (CHR ''d''))" by code_simp
  have blob: "blob_source sample_services sample_blob 3 (replicate 40 (CHR ''d'')) = Inr ''any''"
  proof -
    have "b64_decode ''YW55'' = Some ''any''" by code_simp
    then show ?thesis
      by (simp add: blob_source_def sample_blob_def sample_services_def json_get_def lookup_last_def max_file_def LF_def)
  qed
  obtain l where "entry sample_services sample_repo t (replicate 40 (CHR ''e'')) [''a.ts''] (w, \<lparr>lc_trees = [], lc_total = 0\<rparr>) =
    (Inr sample_item, (w, \<lparr>lc_trees = l, lc_total = 0\<rparr>))" using sample_entry by blast
  then show ?thesis
    using item sha blob sample_parse
    by (simp add: inspect_def read_blob_def path io_eval checkpoint_def fetch_json_def io_of_def max_file_def max_total_def
        sample_answer_def sample_calls sample_paths del: entry.simps)
qed

definition sample_result :: analysis_result where
  "sample_result =
     (case report_file sample_services ''a.ts'' sample_change (any_result, Some (replicate 40 (CHR ''d'')))
             \<lparr>rp_files = [], rp_findings = [], rp_partial = False, rp_paths = []\<rparr> of
        Inr rp \<Rightarrow> result_of_report 1 rp)"

lemma sample_analysis: "analyze sample_services sample_repo sample_snap [] () = (Inr sample_result, ())"
proof -
  define rp0 where "rp0 = \<lparr>rp_files = [], rp_findings = [], rp_partial = False, rp_paths = []\<rparr>"
  have path: "change_path sample_change [] = Inr ''a.ts''" by code_simp
  have modified: "json_get ''status'' sample_change \<noteq> JStr ''removed''" by code_simp
  have "(case report_file sample_services ''a.ts'' sample_change (any_result, Some (replicate 40 (CHR ''d''))) rp0 of
      Inl _ \<Rightarrow> False | Inr rp \<Rightarrow> rp_paths rp = [''a.ts''])"
    unfolding rp0_def by code_simp
  then obtain rp where rp: "report_file sample_services ''a.ts'' sample_change (any_result, Some (replicate 40 (CHR ''d''))) rp0 = Inr rp"
    by (auto split: sum.splits)
  obtain l where inspected: "inspect sample_services sample_repo ''t'' [] (replicate 40 (CHR ''e'')) ''a.ts'' ((), \<lparr>lc_trees = [], lc_total = 0\<rparr>) =
    (Inr (any_result, Some (replicate 40 (CHR ''d''))), ((), \<lparr>lc_trees = l, lc_total = 3\<rparr>))"
    using sample_inspect by blast
  have "analyze_local sample_services sample_repo sample_snap [] ((), \<lparr>lc_trees = [], lc_total = 0\<rparr>) =
      (Inr (result_of_report 1 rp), ((), \<lparr>lc_trees = l, lc_total = 3\<rparr>))"
    using path modified rp inspected
    by (simp add: analyze_local_def io_eval checkpoint_def sample_calls sample_verify sample_file_list sample_root
        file_evaluation_def io_of_def max_files_def rp0_def)
  then show ?thesis using rp by (simp add: analyze_def sample_result_def rp0_def)
qed

theorem analysis_reads_snapshot_witness:
  "\<exists>row log. analyze (recorded sample_services) sample_repo sample_snap [] ((), []) = (Inr sample_result, ((), log)) \<and>
    hd log = (pull_path sample_repo sample_snap, Inr row) \<and> same_snapshot sample_snap row = Inr True"
  using analysis_reads_snapshot [OF sample_analysis] by (elim exE conjE) (intro exI conjI, assumption, simp_all)

lemma sample_coverage: "an_coverage sample_result = FULL_SCOPE"
  by code_simp

theorem full_scope_is_complete_witness:
  "an_reason sample_result = None \<and> list_all (\<lambda>f. \<not> fd_finding_limit_reached f) (an_files sample_result)"
  using full_scope_is_complete [OF sample_analysis sample_coverage] by (auto simp: list_all_iff)

end
