(* ===== verification/Analysis_Results.thy ===== *)
theory Analysis_Results
  imports Analysis Pipeline_Results Pull_Request_Results
begin

section \<open>Correctness of the analysis runs\<close>

subsection \<open>What the operations do\<close>

definition may_analyse :: "uuid \<Rightarrow> uuid \<Rightarrow> uuid \<Rightarrow> bool \<Rightarrow> analysis_run \<Rightarrow> 'a analysis_tables_scheme \<Rightarrow> bool" where
  "may_analyse uid wid aid active r s \<longleftrightarrow>
     r \<in> set (analysis_runs s) \<and> ar_id r = aid \<and> ar_workspace_id r = wid \<and>
     (\<exists>q. repo_authorized uid wid (ar_repository_id r) ''read'' active q s \<and>
        (active \<longrightarrow> rc_generation q = ar_connection_generation r))"

lemma find_run_reads:
  "find_run wid aid s = Inr (r, s') \<Longrightarrow>
   s' = s \<and> r \<in> set (analysis_runs s) \<and> ar_id r = aid \<and> ar_workspace_id r = wid"
  unfolding find_run_def by (auto simp: bind_Inr split: option.splits dest!: select_one_Some)

lemma analysis_access_reads:
  assumes "analysis_access uid wid aid active s = Inr (r, s')"
  shows "s' = s \<and> may_analyse uid wid aid active r s"
  using assms unfolding analysis_access_def may_analyse_def
  by (auto simp: bind_Inr repo_snapshot_def dest!: require_permission_reads find_run_reads repo_require_reads)

interpretation analysis_guard: reader "analysis_access uid wid aid active" "may_analyse uid wid aid active"
  using analysis_access_reads by unfold_locales

lemma attempt_analysis_reads: "attempt_app (analysis_access uid wid aid active) s = Inr (x, s') \<Longrightarrow> s' = s"
  by (auto simp: attempt_app_Inr dest: analysis_access_reads)

lemma pull_reads: "get_pull wid pid s = Inr (x, s') \<Longrightarrow> s' = s"
  unfolding get_pull_def by (rule select_one_state)

lemma analysis_snapshot_reads: "analysis_snapshot uid wid pid s = Inr (x, s') \<Longrightarrow> s' = s"
  unfolding analysis_snapshot_def
  by (auto simp: bind_Inr split: option.splits dest!: require_permission_reads pull_reads repo_require_reads)

lemma analysis_config_reads: "analysis_config uid wid rid v s = Inr (x, s') \<Longrightarrow> s' = s"
  unfolding analysis_config_def
  by (auto simp: bind_Inr split: option.splits if_splits dest!: repo_access_reads elim!: select_first_Inr_cases)

lemma rerun_commits_reads: "rerun_commits wid pid repo previous commits s = Inr (x, s') \<Longrightarrow> s' = s"
  unfolding rerun_commits_def by (auto simp: bind_Inr split: option.splits dest!: find_run_reads)

lemma request_run_Inr:
  assumes "request_run sha db_now aid jid uid rerun_of x s = Inr (r, s')"
  obtains (existing) "s' = s" "r \<in> set (analysis_runs s)"
      "ar_execution_key r = sha (execution_text x (next_generation rerun_of x (analysis_runs s)))"
  | (fresh) "\<forall>q \<in> set (analysis_runs s). \<not> (ar_pr_id q = ar_pr_id x \<and> ar_workspace_id q = ar_workspace_id x \<and> analysis_open q)"
      "r = new_run db_now aid uid x (next_generation rerun_of x (analysis_runs s))
             (sha (execution_text x (next_generation rerun_of x (analysis_runs s))))"
      "s' = jobs_update (\<lambda>js. js @ [new_job sha db_now jid ANALYZE_PR aid (Some (ar_workspace_id x))])
             (analysis_runs_update (\<lambda>rs. rs @ [r]) s)"
proof -
  define key where "key = sha (execution_text x (next_generation rerun_of x (analysis_runs s)))"
  from assms obtain found s1 where f: "select_first analysis_runs (\<lambda>r. ar_execution_key r = key) s = Inr (found, s1)"
    and rest: "(case found of
        Some r \<Rightarrow> ret r
      | None \<Rightarrow>
          bind (select_first analysis_runs (\<lambda>r.
                  ar_pr_id r = ar_pr_id x \<and> ar_workspace_id r = ar_workspace_id x \<and> analysis_open r)) (\<lambda>active.
          bind (check (active = None) (analysis_error ''ANALYSIS_IN_PROGRESS'')) (\<lambda>_.
          (let row = new_run db_now aid uid x (next_generation rerun_of x (analysis_runs s)) key in
           bind (add_row analysis_runs_update row) (\<lambda>_.
           bind (flush analysis_schema) (\<lambda>_.
           bind (enqueue_job sha db_now jid ANALYZE_PR aid (Some (ar_workspace_id x))) (\<lambda>_.
           ret row))))))) s1 = Inr (r, s')"
    unfolding request_run_def key_def Let_def bind_Inr [of "gets _"] bind_Inr [of "select_first _ (\<lambda>r. ar_execution_key r = _)"]
    by (auto simp: Let_def)
  from f show ?thesis
  proof (cases rule: select_first_Inr_cases)
    case None
    with rest obtain active where active: "select_first analysis_runs (\<lambda>r.
                  ar_pr_id r = ar_pr_id x \<and> ar_workspace_id r = ar_workspace_id x \<and> analysis_open r) s = Inr (active, s)"
      and "active = None"
      and "r = new_run db_now aid uid x (next_generation rerun_of x (analysis_runs s)) key"
      "s' = jobs_update (\<lambda>js. js @ [new_job sha db_now jid ANALYZE_PR aid (Some (ar_workspace_id x))])
             (analysis_runs_update (\<lambda>rs. rs @ [r]) s)"
      by (auto simp: bind_Inr Let_def enqueue_job_def elim: select_first_Inr_cases)
    then show ?thesis unfolding key_def by (intro fresh) (auto elim: select_first_Inr_cases)
  next
    case (Some q)
    with rest show ?thesis by (intro existing) (auto simp: key_def)
  qed
qed

lemma start_analysis_Inr:
  assumes "start_analysis sha build enabled db_now aid jid uid wid pid rerun_of s = Inr (r, s')"
  obtains x where "request_run sha db_now aid jid uid rerun_of x s = Inr (r, s')" "ar_workspace_id x = wid"
    "ar_pr_id x = pid"
proof -
  from assms obtain s0 pr repo config commits s1 s2 s3 s4 where
    "check enabled (AppException ''ANALYSIS_RUNNER_DISABLED'' UNAVAILABLE) s = Inr ((), s0)"
    "analysis_snapshot uid wid pid s0 = Inr (pr, s1)"
    "repo_require uid wid (pv_repository_id pr) ''sync'' True s1 = Inr (repo, s2)"
    "analysis_config uid wid (rs_repo_id repo) None s2 = Inr (config, s3)"
    "rerun_commits wid pid repo rerun_of (pv_base_sha pr, pv_head_sha pr) s3 = Inr (commits, s4)"
    and rest: "(case config of (config, config_digest, ignored) \<Rightarrow> \<lambda>s. (case commits of (base, head) \<Rightarrow>
      (case commit_of base of
        Inl e \<Rightarrow> raise e
      | Inr b \<Rightarrow>
          (case commit_of head of
             Inl e \<Rightarrow> raise e
           | Inr h \<Rightarrow> request_run sha db_now aid jid uid rerun_of
                        (inputs_of build wid pid repo (config, config_digest) b h)))) s) s4 = Inr (r, s')"
    unfolding start_analysis_def by (elim bindE) (auto elim!: bindE)
  then have "s4 = s"
    by (auto dest!: analysis_snapshot_reads repo_require_reads analysis_config_reads rerun_commits_reads)
  with rest that show ?thesis by (auto simp: inputs_of_def split: prod.splits sum.splits)
qed

lemma prepare_analysis_Inr:
  assumes "prepare_analysis build now' uid r s = Inr (task, s')"
  shows "s' = analysis_runs_update (put_row ar_id (r\<lparr>ar_status := RUNNING, ar_started_at := Some now'\<rparr>)) s \<and>
    ar_build_digest r = build \<and> sn_base_sha (tk_snapshot task) = ar_base_sha r \<and> sn_head_sha (tk_snapshot task) = ar_head_sha r"
  using assms unfolding prepare_analysis_def
  by (auto simp: bind_Inr dest!: analysis_access_reads repo_require_reads analysis_config_reads analysis_snapshot_reads)

lemma begin_analysis_Inr:
  assumes "begin_analysis build now now' c s = Inr (x, s')"
  obtains (idle) "s' = s" "x = None"
  | (started) r j task uid where "r \<in> set (analysis_runs s)" "ar_id r = claim_aggregate_id c" "ar_status r \<notin> set terminal_runs"
      "j \<in> set (jobs s)" "job_id j = claim_id c" "holds_lease c j" "x = Some task"
      "ar_requested_by r = Some uid" "prepare_analysis build now' uid r s = Inr (task, s')"
proof -
  from assms obtain wid b s1 s2 r s3 where "claim_workspace_id c = Some wid" "lock_system wid s = Inr (b, s1)"
    "find_run wid (claim_aggregate_id c) s1 = Inr (r, s3)"
    and rest: "(if ar_status r \<in> set terminal_runs then ret None
          else
            bind (fence now c False) (\<lambda>job.
            if job = None then ret None
            else
              (case ar_requested_by r of
                 None \<Rightarrow> raise AssertionError
               | Some uid \<Rightarrow> bind (prepare_analysis build now' uid r) (\<lambda>task. ret (Some task))))) s3 = Inr (x, s')"
    unfolding begin_analysis_def by (auto elim!: bindE split: option.splits)
  then have run: "s3 = s" "r \<in> set (analysis_runs s)" "ar_id r = claim_aggregate_id c"
    by (auto dest!: lock_system_reads find_run_reads)
  show ?thesis
  proof (cases "ar_status r \<in> set terminal_runs")
    case True
    with rest run idle show ?thesis by simp
  next
    case False
    with rest run obtain job s4 where fenced: "fence now c False s = Inr (job, s4)"
      and rest: "(if job = None then ret None
            else
              (case ar_requested_by r of
                 None \<Rightarrow> raise AssertionError
               | Some uid \<Rightarrow> bind (prepare_analysis build now' uid r) (\<lambda>task. ret (Some task)))) s4 = Inr (x, s')"
      by (auto simp: bind_Inr)
    from fenced show ?thesis
    proof (cases rule: fence_Inr)
      case 1
      with rest idle show ?thesis by simp
    next
      case (2 j)
      with rest started [OF run(2,3) False] show ?thesis by (auto simp: bind_Inr split: option.splits)
    qed
  qed
qed

lemma cancel_analysis_Inr:
  assumes "cancel_analysis now uid wid aid s = Inr (r, s')"
  obtains (closed) "s' = s" "r \<in> set (analysis_runs s)" "ar_id r = aid" "ar_status r \<in> set terminal_runs"
  | (canceled) q j where "q \<in> set (analysis_runs s)" "ar_id q = aid" "ar_status q \<notin> set terminal_runs"
      "j \<in> set (jobs s)" "carries ANALYZE_PR aid j" "r = cancel_run now q"
      "s' = analysis_runs_update (put_row ar_id (cancel_run now q)) (jobs_update (put_row job_id (cancel_analysis_job now j)) s)"
proof -
  from assms obtain q s1 s2 where "analysis_access uid wid aid False s = Inr (q, s1)"
    and perm: "(if ar_requested_by q \<noteq> Some uid then bind (require_permission uid wid ''manage'') (\<lambda>_. ret ()) else ret ()) s1 = Inr ((), s2)"
    and rest: "(if ar_status q \<in> set terminal_runs then ret q
     else
       bind (select_first jobs (\<lambda>j. job_kind j = ANALYZE_PR \<and> job_aggregate_id j = aid)) (\<lambda>found.
       case found of
         None \<Rightarrow> raise (analysis_error ''JOB_NOT_FOUND'')
       | Some j \<Rightarrow>
           bind (save_row jobs_update job_id (cancel_analysis_job now j)) (\<lambda>_.
           bind (save_row analysis_runs_update ar_id (cancel_run now q)) (\<lambda>_.
           ret (cancel_run now q))))) s2 = Inr (r, s')"
    unfolding cancel_analysis_def bind_Inr [of "analysis_access _ _ _ _"] bind_Inr [of "if _ then _ else _"] by auto
  then have run: "s1 = s" "q \<in> set (analysis_runs s)" "ar_id q = aid"
    by (auto dest!: analysis_access_reads simp: may_analyse_def)
  have "s2 = s1" using perm by (auto simp: bind_Inr split: if_splits dest!: require_permission_reads)
  with run rest show ?thesis
    using closed canceled [of q]
    by (auto simp: bind_Inr carries_def split: if_splits elim!: select_first_Inr_cases)
qed

text \<open>The job a completion leaves: finished, and cancelled when the run is.\<close>

definition closing_job :: "string option \<Rightarrow> job \<Rightarrow> job" where
  "closing_job code j = (if closing_status (job_state j) code = RUN_CANCELED then cancel_finished False j else j)"

lemma finish_run_Inr:
  assumes "finish_run now now' code retry delay j r s = Inr (u, s')"
  obtains j1 where "finish now code retry delay j = Inr j1"
    "s' = analysis_runs_update (put_row ar_id (close_run now' (job_state j1) code r))
            (jobs_update (put_row job_id (closing_job code j1)) s)"
proof -
  from assms obtain j1 s1 s2 where fin: "finish_job now code retry delay j s = Inr (j1, s1)"
    and "(if closing_status (job_state j1) code = RUN_CANCELED
           then save_row jobs_update job_id (cancel_finished False j1) else ret ()) s1 = Inr ((), s2)"
    and "save_row analysis_runs_update ar_id (close_run now' (job_state j1) code r) s2 = Inr (u, s')"
    unfolding finish_run_def by (auto elim!: bindE)
  moreover have "finish now code retry delay j = Inr j1" "s1 = jobs_update (put_row job_id j1) s"
    using fin by (auto simp: finish_job_Inr)
  ultimately show thesis
    using that [of j1] by (auto simp: closing_job_def put_row_twice cancel_keeps comp_def split: if_splits)
qed

definition rows_of_run :: "analysis_run \<Rightarrow> analysis_file list \<Rightarrow> finding list \<Rightarrow> bool" where
  "rows_of_run r fs gs \<longleftrightarrow>
     (\<forall>f \<in> set fs. af_analysis_id f = ar_id r \<and> af_workspace_id f = ar_workspace_id r) \<and>
     (\<forall>g \<in> set gs. fg_analysis_id g = ar_id r \<and> fg_workspace_id g = ar_workspace_id r)"

lemma rows_of_run_stored: "rows_of_run r (file_rows fkeys r fs) (finding_rows gkeys r gs)"
  by (auto simp: rows_of_run_def file_rows_def finding_rows_def)

lemma complete_analysis_Inr:
  assumes "complete_analysis ck c result0 code0 retry0 expired delay s = Inr (u, s')"
  obtains (idle) "s' = s" "(\<exists>r \<in> set (analysis_runs s). ar_id r = claim_aggregate_id c \<and> ar_status r \<in> set terminal_runs) \<or>
        fence (ak_fence ck) c expired s = Inr (None, s)"
  | (closed) r j j' r' fs gs code retry where "r \<in> set (analysis_runs s)" "ar_id r = claim_aggregate_id c"
      "ar_status r \<notin> set terminal_runs" "j \<in> set (jobs s)" "job_id j = claim_id c" "holds_lease c j"
      "(the (job_lease_until j) \<le> ak_fence ck) = expired" "finish (ak_finish ck) code retry delay j = Inr j'"
      "rows_of_run r fs gs" "code \<noteq> None \<longrightarrow> r' = r \<and> fs = [] \<and> gs = []"
      "code = None \<longrightarrow> r' = (case result0 of None \<Rightarrow> r | Some x \<Rightarrow> summarize x r)"
      "s' = analysis_runs_update (put_row ar_id (close_run (ak_closed ck) (job_state j') code r'))
              (jobs_update (put_row job_id (closing_job code j'))
                (findings_stored_update (\<lambda>xs. xs @ gs) (analysis_files_update (\<lambda>xs. xs @ fs) s)))"
proof -
  from assms obtain wid b s1 r s2 where "lock_system wid s = Inr (b, s1)"
    "find_run wid (claim_aggregate_id c) s1 = Inr (r, s2)"
    and rest: "(if ar_status r \<in> set terminal_runs then ret ()
          else
            (case ar_requested_by r of
               None \<Rightarrow> raise AssertionError
             | Some uid \<Rightarrow>
                 bind (attempt_app (analysis_access uid (ar_workspace_id r) (ar_id r) True)) (\<lambda>access.
                 (case revoked_outcome access (result0, code0, retry0) of (result, code, retry) \<Rightarrow>
                   bind (fence (ak_fence ck) c expired) (\<lambda>fenced.
                   case fenced of
                     None \<Rightarrow> ret ()
                   | Some j \<Rightarrow>
                       bind (case result of
                               Some x \<Rightarrow> if code = None then store_result (ak_files ck) (ak_findings ck) x r else ret r
                             | None \<Rightarrow> ret r) (\<lambda>r'.
                       finish_run (ak_finish ck) (ak_closed ck) code retry delay j r')))))) s2 = Inr (u, s')"
    unfolding complete_analysis_def by (auto elim!: bindE split: option.splits)
  then have run: "s2 = s" "r \<in> set (analysis_runs s)" "ar_id r = claim_aggregate_id c"
    by (auto dest!: lock_system_reads find_run_reads)
  show ?thesis
  proof (cases "ar_status r \<in> set terminal_runs")
    case True
    with rest run have "s' = s" by simp
    with run True idle show ?thesis by blast
  next
    case False
    with rest run obtain uid where uid: "ar_requested_by r = Some uid" by (cases "ar_requested_by r") auto
    with rest run False obtain access s3 result code retry fenced s4 where
      access: "attempt_app (analysis_access uid (ar_workspace_id r) (ar_id r) True) s = Inr (access, s3)"
      and out: "revoked_outcome access (result0, code0, retry0) = (result, code, retry)"
      and fenced: "fence (ak_fence ck) c expired s3 = Inr (fenced, s4)"
      and rest: "(case fenced of
                     None \<Rightarrow> ret ()
                   | Some j \<Rightarrow>
                       bind (case result of
                               Some x \<Rightarrow> if code = None then store_result (ak_files ck) (ak_findings ck) x r else ret r
                             | None \<Rightarrow> ret r) (\<lambda>r'.
                       finish_run (ak_finish ck) (ak_closed ck) code retry delay j r')) s4 = Inr (u, s')"
      by (auto elim!: bindE split: prod.splits)
    have s3: "s3 = s" using attempt_analysis_reads [OF access] .
    from fenced show ?thesis unfolding s3
    proof (cases rule: fence_Inr)
      case 1
      with rest fenced s3 idle show ?thesis by simp
    next
      case (2 j)
      with rest obtain r' s5 where stored: "(case result of
                               Some x \<Rightarrow> if code = None then store_result (ak_files ck) (ak_findings ck) x r else ret r
                             | None \<Rightarrow> ret r) s = Inr (r', s5)"
        and fin: "finish_run (ak_finish ck) (ak_closed ck) code retry delay j r' s5 = Inr (u, s')"
        by (auto elim!: bindE)
      from fin obtain j' where j': "finish (ak_finish ck) code retry delay j = Inr j'"
        "s' = analysis_runs_update (put_row ar_id (close_run (ak_closed ck) (job_state j') code r'))
            (jobs_update (put_row job_id (closing_job code j')) s5)"
        by (rule finish_run_Inr)
      have res: "code = None \<longrightarrow> result = result0"
        using out by (auto simp: revoked_outcome_def split: sum.splits)
      have "\<exists>fs gs. rows_of_run r fs gs \<and> (code \<noteq> None \<longrightarrow> r' = r \<and> fs = [] \<and> gs = []) \<and>
          (code = None \<longrightarrow> r' = (case result0 of None \<Rightarrow> r | Some x \<Rightarrow> summarize x r)) \<and>
          s5 = findings_stored_update (\<lambda>xs. xs @ gs) (analysis_files_update (\<lambda>xs. xs @ fs) s)"
      proof (cases "code = None \<and> result \<noteq> None")
        case True
        then obtain x where "result = Some x" "code = None" by auto
        with stored res show ?thesis
          by (intro exI [of _ "file_rows (ak_files ck) r (an_files x)"] exI [of _ "finding_rows (ak_findings ck) r (an_findings x)"])
             (auto simp: store_result_def bind_Inr rows_of_run_stored)
      next
        case False
        with stored res show ?thesis
          by (intro exI [of _ "[]"]) (auto simp: rows_of_run_def split: option.splits if_splits)
      qed
      then obtain fs gs where "rows_of_run r fs gs" "code \<noteq> None \<longrightarrow> r' = r \<and> fs = [] \<and> gs = []"
        "code = None \<longrightarrow> r' = (case result0 of None \<Rightarrow> r | Some x \<Rightarrow> summarize x r)"
        "s5 = findings_stored_update (\<lambda>xs. xs @ gs) (analysis_files_update (\<lambda>xs. xs @ fs) s)" by blast
      with closed [OF run(2,3) False 2(3-6) j'(1)] j'(2) show ?thesis by blast
    qed
  qed
qed

end
