(* ===== verification/Analysis_System.thy ===== *)
theory Analysis_System
  imports Analysis_Results
begin

section \<open>The analysis as a transition system\<close>

text \<open>
  The transactions on analysis runs as steps, what every reachable state keeps, and the abstract
  life of a run that the steps implement.
\<close>

definition analysis_phase :: "analysis_run \<Rightarrow> phase" where
  "analysis_phase r = run_phase (ar_status r)"

interpretation analysis_tracking: tracked_runs ANALYZE_PR ar_id analysis_phase analysis_runs_ok
  by unfold_locales (simp add: analysis_runs_ok_def)

text \<open>At most one run of a pull request is open.\<close>

definition pull_of :: "analysis_run \<Rightarrow> uuid \<times> uuid" where
  "pull_of r = (ar_workspace_id r, ar_pr_id r)"

definition one_open_run :: "analysis_run list \<Rightarrow> bool" where
  "one_open_run rs \<longleftrightarrow> distinct (map pull_of (filter analysis_open rs))"

definition analysis_inv :: "'a analysis_tables_scheme \<Rightarrow> bool" where
  "analysis_inv s \<longleftrightarrow>
     analysis_schema s \<and> jobs_inv s \<and> tracked ANALYZE_PR ar_id analysis_phase (analysis_runs s) (jobs s) \<and>
     one_open_run (analysis_runs s) \<and> list_all (\<lambda>r. ar_actor r = USER) (analysis_runs s)"

text \<open>
  The transactions of the component, the queue operations on its jobs, and any transaction of
  another component (it writes neither runs nor results nor the jobs of runs).
\<close>

inductive analysis_step :: "'a analysis_tables_scheme \<Rightarrow> 'a analysis_tables_scheme \<Rightarrow> bool" where
  others: "analysis_runs s' = analysis_runs s \<Longrightarrow> analysis_files s' = analysis_files s \<Longrightarrow>
    findings_stored s' = findings_stored s \<Longrightarrow> jobs_of ANALYZE_PR (jobs s') = jobs_of ANALYZE_PR (jobs s) \<Longrightarrow>
    analysis_schema s' \<Longrightarrow> jobs_inv s' \<Longrightarrow> analysis_step s s'"
| claim: "transaction analysis_schema (claim_job locked now worker kinds) s = (Inr x, s') \<Longrightarrow> analysis_step s s'"
| heartbeat: "transaction analysis_schema (heartbeat now now' c) s = (Inr b, s') \<Longrightarrow> analysis_step s s'"
| request: "transaction analysis_schema (start_analysis sha build enabled db_now aid jid uid wid pid rerun_of) s = (Inr r, s') \<Longrightarrow>
    analysis_step s s'"
| start: "issued ANALYZE_PR c (jobs s) \<Longrightarrow>
    transaction analysis_schema (begin_analysis build now now' c) s = (Inr t, s') \<Longrightarrow> analysis_step s s'"
| complete: "issued ANALYZE_PR c (jobs s) \<Longrightarrow>
    transaction analysis_schema (complete_analysis ck c result code retry expired delay) s = (Inr u, s') \<Longrightarrow>
    analysis_step s s'"
| cancel: "transaction analysis_schema (cancel_analysis now uid wid aid) s = (Inr r, s') \<Longrightarrow> analysis_step s s'"

subsection \<open>Rows that change\<close>

lemma analysis_inv_parts:
  assumes "analysis_inv s"
  shows "analysis_schema s" "jobs_inv s" "tracked ANALYZE_PR ar_id analysis_phase (analysis_runs s) (jobs s)"
    "one_open_run (analysis_runs s)" "list_all (\<lambda>r. ar_actor r = USER) (analysis_runs s)"
    "jobs_ok (jobs s)" "distinct (map ar_id (analysis_runs s))"
  using assms by (simp_all add: analysis_inv_def analysis_schema_def pull_schema_def jobs_schema_def analysis_runs_ok_def)

lemma not_terminal_open: "ar_status r \<notin> set terminal_runs \<longleftrightarrow> analysis_open r"
  by (cases "ar_status r") (simp_all add: terminal_runs_def analysis_open_def)

lemma one_open_run_add:
  assumes "one_open_run rs" and "\<forall>q \<in> set rs. \<not> (pull_of q = pull_of r \<and> analysis_open q)"
  shows "one_open_run (rs @ [r])"
  using assms by (auto simp: one_open_run_def)

lemma one_open_run_put:
  assumes "one_open_run rs" and "distinct (map ar_id rs)" and "r \<in> set rs" and "analysis_open r"
    and "ar_id r' = ar_id r" and "pull_of r' = pull_of r"
  shows "one_open_run (put_row ar_id r' rs)"
  unfolding one_open_run_def
proof (rule distinct_filter_put_row [OF assms(2)])
  show same: "distinct (map pull_of (filter analysis_open rs))" using assms(1) by (simp add: one_open_run_def)
  show "pull_of x \<noteq> pull_of r'" if "x \<in> set rs" "analysis_open x" "ar_id x \<noteq> ar_id r'" for x
    using distinct_key_unique [OF same, of x r] that assms(3-6) by auto
qed

lemma one_open_run_unique:
  assumes "one_open_run rs" and "r \<in> set rs" and "q \<in> set rs" and "analysis_open r" and "analysis_open q"
    and "pull_of r = pull_of q"
  shows "r = q"
  using assms unfolding one_open_run_def by (auto dest!: distinct_key_unique [where x = r and y = q])

lemma run_keeps [simp]:
  "ar_id (close_run t st code r) = ar_id r" "ar_id (summarize x r) = ar_id r" "ar_id (cancel_run t r) = ar_id r"
  "pull_of (close_run t st code r) = pull_of r" "pull_of (summarize x r) = pull_of r" "pull_of (cancel_run t r) = pull_of r"
  "ar_actor (close_run t st code r) = ar_actor r" "ar_actor (summarize x r) = ar_actor r" "ar_actor (cancel_run t r) = ar_actor r"
  by (simp_all add: close_run_def summarize_def cancel_run_def pull_of_def Let_def)

lemma new_run_simps [simp]:
  "ar_id (new_run db_now aid uid x g key) = aid" "ar_status (new_run db_now aid uid x g key) = PENDING"
  "ar_actor (new_run db_now aid uid x g key) = USER"
  "pull_of (new_run db_now aid uid x g key) = (ar_workspace_id x, ar_pr_id x)"
  by (simp_all add: new_run_def analysis_inputs.extend_def pull_of_def)

text \<open>The run closes exactly as its job is left.\<close>

lemma closing_job_keeps:
  "job_id (closing_job code j) = job_id j" "job_kind (closing_job code j) = job_kind j"
  "job_aggregate_id (closing_job code j) = job_aggregate_id j"
  by (simp_all add: closing_job_def cancel_keeps)

lemma finish_states:
  "finish now code retry delay j = Inr j' \<Longrightarrow>
   job_state j' = READY \<or> (if truthy code then job_state j' = DEAD else job_state j' = SUCCEEDED)"
  by (auto elim!: finish_Inr split: if_splits)

lemma closing_phase:
  assumes "finish now code retry delay j = Inr j'"
  shows "job_phase (job_state (closing_job code j')) = run_phase (closing_status (job_state j') code)"
  using finish_states [OF assms]
  by (cases code) (auto simp: closing_job_def closing_status_def cancel_keeps cancel_codes_def truthy_def split: if_splits)

lemma closing_inv:
  assumes "jobs_inv s" and "j \<in> set (jobs s)" and "finish now code retry delay j = Inr j'"
  shows "jobs_inv (jobs_update (put_row job_id (closing_job code j')) s)"
proof -
  have fin: "jobs_inv (jobs_update (put_row job_id j') s)" by (rule jobs_inv_finish [OF assms])
  show ?thesis
  proof (cases "closing_status (job_state j') code = RUN_CANCELED")
    case False
    with fin show ?thesis by (simp add: closing_job_def)
  next
    case True
    have "j' \<in> set (put_row job_id j' (jobs s))"
      using assms(2) finish_keeps [OF assms(3)] by (intro put_row_mem) auto
    moreover have "job_state j' = DEAD"
      using True finish_states [OF assms(3)] by (auto simp: closing_status_def truthy_def cancel_codes_def split: option.splits if_splits)
    ultimately have "jobs_inv (jobs_update (put_row job_id (cancel_finished False j')) (jobs_update (put_row job_id j') s))"
      using fin by (intro job_step_inv [OF job_step.discard]) simp_all
    then show ?thesis using True by (simp add: closing_job_def put_row_twice cancel_keeps comp_def)
  qed
qed

subsection \<open>The invariant\<close>

lemma analysis_inv_requested:
  assumes inv: "analysis_inv s" and ok: "analysis_schema s'"
    and req: "request_run sha db_now aid jid uid rerun_of x s = Inr (r, s')"
  shows "analysis_inv s'"
  using req
proof (cases rule: request_run_Inr)
  case existing
  with inv show ?thesis by simp
next
  case fresh
  define js where "js = jobs s @ [new_job sha db_now jid ANALYZE_PR aid (Some (ar_workspace_id x))]"
  have rows: "analysis_runs s' = analysis_runs s @ [r]" "jobs s' = js"
    by (simp_all add: fresh(3) js_def)
  have "jobs_inv s'"
    using ok rows(2) unfolding js_def
    by (intro jobs_inv_add [OF analysis_inv_parts(2) [OF inv]]) (simp_all add: analysis_schema_def pull_schema_def)
  moreover have "tracked ANALYZE_PR ar_id analysis_phase (analysis_runs s') (jobs s')"
    unfolding rows js_def fresh(2)
    by (rule analysis_tracking.tracked_request [OF analysis_inv_parts(3) [OF inv]])
       (simp_all add: carries_def new_job_def analysis_phase_def)
  moreover have "one_open_run (analysis_runs s')"
  proof -
    have r: "pull_of r = (ar_workspace_id x, ar_pr_id x)" by (simp add: fresh(2))
    have "\<forall>q \<in> set (analysis_runs s). \<not> (pull_of q = pull_of r \<and> analysis_open q)"
      using fresh(1) unfolding r by (auto simp: pull_of_def)
    then show ?thesis unfolding rows by (rule one_open_run_add [OF analysis_inv_parts(4) [OF inv]])
  qed
  moreover have "list_all (\<lambda>r. ar_actor r = USER) (analysis_runs s')"
    using analysis_inv_parts(5) [OF inv] fresh(2) by (simp add: rows)
  ultimately show ?thesis using ok by (simp add: analysis_inv_def)
qed

text \<open>A write to an open run, with a matching write to its job.\<close>

lemma analysis_inv_written:
  assumes inv: "analysis_inv s" and ok: "analysis_schema s'" and jobs: "jobs_inv s'"
    and r: "r \<in> set (analysis_runs s)" "analysis_open r" "ar_id r' = ar_id r" "pull_of r' = pull_of r" "ar_actor r' = ar_actor r"
    and rows: "analysis_runs s' = put_row ar_id r' (analysis_runs s)"
    and tracked: "tracked ANALYZE_PR ar_id analysis_phase (put_row ar_id r' (analysis_runs s)) (jobs s')"
  shows "analysis_inv s'"
proof -
  have "one_open_run (analysis_runs s')" unfolding rows
    by (rule one_open_run_put [OF analysis_inv_parts(4,7) [OF inv] r(1,2,3,4)])
  moreover have "list_all (\<lambda>r. ar_actor r = USER) (analysis_runs s')"
    unfolding rows using analysis_inv_parts(5) [OF inv] r(1,5) by (intro list_all_put_row) (auto simp: list_all_iff)
  ultimately show ?thesis using ok jobs tracked by (simp add: analysis_inv_def rows)
qed

lemma analysis_open_phase: "run_phase (ar_status r) = Open \<longleftrightarrow> analysis_open r"
  by (cases "ar_status r") (simp_all add: analysis_open_def)

lemma analysis_step_inv:
  assumes inv: "analysis_inv s" and step: "analysis_step s s'"
  shows "analysis_inv s'"
proof -
  note p = analysis_inv_parts [OF inv]
  from step show ?thesis
  proof (cases rule: analysis_step.cases)
    case others
    with p show ?thesis by (auto simp: analysis_inv_def intro: analysis_tracking.tracked_others)
  next
    case (claim locked now worker kinds x)
    then have op: "claim_job locked now worker kinds s = Inr (x, s')" and ok': "analysis_schema s'"
      by (simp_all add: transaction_Inr_iff)
    then have "analysis_runs s' = analysis_runs s" by (auto elim!: claim_job_Inr)
    with op ok' p show ?thesis
      using jobs_inv_claim [OF op p(2)] analysis_tracking.tracked_claim [OF op p(2,3)]
      by (simp add: analysis_inv_def)
  next
    case (heartbeat now now' c b)
    then have op: "Jobs.heartbeat now now' c s = Inr (b, s')" and ok': "analysis_schema s'"
      by (simp_all add: transaction_Inr_iff)
    then have "analysis_runs s' = analysis_runs s" by (auto elim!: heartbeat_Inr)
    with op ok' p show ?thesis
      using jobs_inv_heartbeat [OF op p(2)] analysis_tracking.tracked_heartbeat [OF op p(2,3)]
      by (simp add: analysis_inv_def)
  next
    case (request sha build enabled db_now aid jid uid wid pid rerun_of r)
    then have op: "start_analysis sha build enabled db_now aid jid uid wid pid rerun_of s = Inr (r, s')"
      and ok': "analysis_schema s'"
      by (simp_all add: transaction_Inr_iff)
    from op show ?thesis by (rule start_analysis_Inr) (rule analysis_inv_requested [OF inv ok'])
  next
    case (start c build now now' t)
    then have op: "begin_analysis build now now' c s = Inr (t, s')" and ok': "analysis_schema s'"
      by (simp_all add: transaction_Inr_iff)
    from op show ?thesis
    proof (cases rule: begin_analysis_Inr)
      case idle
      with inv show ?thesis by simp
    next
      case (started r j task uid)
      have open_run: "analysis_open r" using started(3) by (simp add: not_terminal_open)
      define r' where "r' = r\<lparr>ar_status := RUNNING, ar_started_at := Some now'\<rparr>"
      have s': "s' = analysis_runs_update (put_row ar_id r') s"
        using prepare_analysis_Inr [OF started(9)] by (simp add: r'_def)
      have "tracked ANALYZE_PR ar_id analysis_phase (put_row ar_id r' (analysis_runs s)) (jobs s)"
        using open_run analysis_open_phase [of r] by (intro analysis_tracking.tracked_run [OF p(3) started(1)])
          (simp_all add: r'_def analysis_phase_def)
      moreover have "jobs_inv s'" using p(2) by (simp add: s' jobs_inv_def jobs_schema_def)
      ultimately show ?thesis
        by (intro analysis_inv_written [OF inv ok' _ started(1) open_run, of r']) (simp_all add: s' r'_def pull_of_def)
    qed
  next
    case (complete c ck result code0 retry expired delay u)
    then have op: "complete_analysis ck c result code0 retry expired delay s = Inr (u, s')" and ok': "analysis_schema s'"
      by (simp_all add: transaction_Inr_iff)
    from op show ?thesis
    proof (cases rule: complete_analysis_Inr)
      case idle
      with inv show ?thesis by simp
    next
      case (closed r j j' r' fs gs code retry)
      have open_run: "analysis_open r" using closed(3) by (simp add: not_terminal_open)
      have same: "ar_id r' = ar_id r" "pull_of r' = pull_of r" "ar_actor r' = ar_actor r"
        using closed(10,11) by (auto split: option.splits)
      define q where "q = close_run (ak_closed ck) (job_state j') code r'"
      have carrier: "carries ANALYZE_PR (ar_id q) j"
        using issued_job [OF p(6) complete(1) closed(4,5)] closed(2) same(1) by (simp add: q_def)
      have "tracked ANALYZE_PR ar_id analysis_phase (put_row ar_id q (analysis_runs s)) (put_row job_id (closing_job code j') (jobs s))"
        using carrier closing_phase [OF closed(8)] finish_keeps [OF closed(8)]
        by (intro analysis_tracking.tracked_together [OF p(3,6) closed(4)])
           (auto simp: closing_job_keeps carries_def q_def close_run_def analysis_phase_def)
      moreover have "jobs_inv s'"
        using closing_inv [OF p(2) closed(4,8)] by (simp add: closed(12) jobs_inv_def jobs_schema_def)
      ultimately show ?thesis
        using same by (intro analysis_inv_written [OF inv ok' _ closed(1) open_run, of q]) (simp_all add: closed(12) q_def)
    qed
  next
    case (cancel now uid wid aid r)
    then have op: "cancel_analysis now uid wid aid s = Inr (r, s')" and ok': "analysis_schema s'"
      by (simp_all add: transaction_Inr_iff)
    from op show ?thesis
    proof (cases rule: cancel_analysis_Inr)
      case closed
      with inv show ?thesis by simp
    next
      case (canceled q j)
      have open_run: "analysis_open q" using canceled(3) by (simp add: not_terminal_open)
      have "tracked ANALYZE_PR ar_id analysis_phase (put_row ar_id (cancel_run now q) (analysis_runs s))
          (put_row job_id (cancel_analysis_job now j) (jobs s))"
        using canceled(2,5)
        by (intro analysis_tracking.tracked_together [OF p(3,6) canceled(4)])
           (simp_all add: cancel_keeps carries_def cancel_run_def analysis_phase_def)
      moreover have "jobs_inv s'"
        using job_step_inv [OF job_step.cancel [OF canceled(4)] p(2)] by (simp add: canceled(7) jobs_inv_def jobs_schema_def)
      ultimately show ?thesis
        by (intro analysis_inv_written [OF inv ok' _ canceled(1) open_run, of "cancel_run now q"]) (simp_all add: canceled(7))
    qed
  qed
qed

subsection \<open>What a step does to runs and results\<close>

lemma closing_completed:
  "finish now None retry delay j = Inr j' \<Longrightarrow> closing_status (job_state j') None = COMPLETED"
  by (auto simp: closing_status_def elim!: finish_Inr split: if_splits)

lemma analysis_step_effect:
  assumes step: "analysis_step s s'" and inv: "analysis_inv s"
  obtains (same) "analysis_runs s' = analysis_runs s" "analysis_files s' = analysis_files s" "findings_stored s' = findings_stored s"
  | (added) r where "analysis_runs s' = analysis_runs s @ [r]" "ar_status r = PENDING"
      "analysis_files s' = analysis_files s" "findings_stored s' = findings_stored s"
  | (written) r r' fs gs where "r \<in> set (analysis_runs s)" "analysis_open r" "ar_id r' = ar_id r"
      "analysis_runs s' = put_row ar_id r' (analysis_runs s)"
      "analysis_files s' = analysis_files s @ fs" "findings_stored s' = findings_stored s @ gs" "rows_of_run r fs gs"
      "ar_status r' = COMPLETED \<or> fs = [] \<and> gs = []" "pull_of r' = pull_of r"
  using step
proof (cases rule: analysis_step.cases)
  case others
  then show ?thesis by (intro same)
next
  case (claim locked now worker kinds x)
  then have "claim_job locked now worker kinds s = Inr (x, s')" by (simp add: transaction_Inr_iff)
  then show ?thesis by (cases rule: claim_job_Inr) (auto intro: same)
next
  case (heartbeat now now' c b)
  then have "Jobs.heartbeat now now' c s = Inr (b, s')" by (simp add: transaction_Inr_iff)
  then show ?thesis by (cases rule: heartbeat_Inr) (auto intro: same)
next
  case (request sha build enabled db_now aid jid uid wid pid rerun_of r)
  then have "start_analysis sha build enabled db_now aid jid uid wid pid rerun_of s = Inr (r, s')"
    by (simp add: transaction_Inr_iff)
  then show ?thesis
  proof (rule start_analysis_Inr)
    fix x assume "request_run sha db_now aid jid uid rerun_of x s = Inr (r, s')"
    then show thesis
    proof (cases rule: request_run_Inr)
      case existing
      then show ?thesis by (intro same) simp_all
    next
      case fresh
      then show ?thesis by (intro added [of r]) (simp_all only: fresh(3), simp_all add: fresh(2))
    qed
  qed
next
  case (start c build now now' t)
  then have "begin_analysis build now now' c s = Inr (t, s')" by (simp add: transaction_Inr_iff)
  then show ?thesis
  proof (cases rule: begin_analysis_Inr)
    case idle
    then show ?thesis by (intro same) simp_all
  next
    case (started r j task uid)
    then show ?thesis using prepare_analysis_Inr [OF started(9)]
      by (intro written [of r "r\<lparr>ar_status := RUNNING, ar_started_at := Some now'\<rparr>" "[]" "[]"])
         (simp_all add: not_terminal_open rows_of_run_def pull_of_def)
  qed
next
  case (complete c ck result code0 retry expired delay u)
  then have "complete_analysis ck c result code0 retry expired delay s = Inr (u, s')" by (simp add: transaction_Inr_iff)
  then show ?thesis
  proof (cases rule: complete_analysis_Inr)
    case idle
    then show ?thesis by (intro same) simp_all
  next
    case (closed r j j' r' fs gs code retry)
    have "ar_id r' = ar_id r" "pull_of r' = pull_of r" using closed(10,11) by (auto split: option.splits)
    moreover have "ar_status (close_run (ak_closed ck) (job_state j') code r') = COMPLETED \<or> fs = [] \<and> gs = []"
      using closed(8,10) closing_completed by (cases code) (auto simp: close_run_def)
    ultimately show ?thesis
      using closed by (intro written [of r "close_run (ak_closed ck) (job_state j') code r'" fs gs])
        (simp_all add: not_terminal_open)
  qed
next
  case (cancel now uid wid aid r)
  then have "cancel_analysis now uid wid aid s = Inr (r, s')" by (simp add: transaction_Inr_iff)
  then show ?thesis
  proof (cases rule: cancel_analysis_Inr)
    case closed
    then show ?thesis by (intro same) simp_all
  next
    case (canceled q j)
    then show ?thesis
      by (intro written [of q "cancel_run now q" "[]" "[]"]) (simp_all add: not_terminal_open rows_of_run_def)
  qed
qed

text \<open>Runs and the claims of their jobs stay known.\<close>

lemma analysis_step_run:
  assumes "analysis_step s s'" and inv: "analysis_inv s" and r: "r \<in> set (analysis_runs s)"
  shows "\<exists>q \<in> set (analysis_runs s'). ar_id q = ar_id r \<and> pull_of q = pull_of r"
  using assms(1) inv
proof (cases rule: analysis_step_effect)
  case (written x x' fs gs)
  show ?thesis
  proof (cases "ar_id r = ar_id x")
    case True
    then have "r = x" using distinct_key_unique [OF analysis_inv_parts(7) [OF inv] r written(1)] by simp
    then show ?thesis using written r by (intro bexI [of _ x']) (auto intro!: put_row_mem)
  next
    case False
    then show ?thesis using written(3,4) r by (intro bexI [of _ r]) (auto intro: put_row_other)
  qed
qed (use r in auto)

lemma analysis_step_persists:
  assumes inv: "analysis_inv s" and step: "analysis_step s s'"
  shows "job_persists ANALYZE_PR (jobs s) (jobs s')"
proof -
  have ids: "distinct (map job_id (jobs s))" by (rule jobs_inv_ids [OF analysis_inv_parts(2) [OF inv]])
  from step show ?thesis
  proof (cases rule: analysis_step.cases)
    case others
    then show ?thesis by (intro persists_same)
  next
    case (claim locked now worker kinds x)
    then have "claim_job locked now worker kinds s = Inr (x, s')" by (simp add: transaction_Inr_iff)
    then show ?thesis by (cases rule: claim_job_Inr) (auto intro!: persists_put [OF ids])
  next
    case (heartbeat now now' c b)
    then have "Jobs.heartbeat now now' c s = Inr (b, s')" by (simp add: transaction_Inr_iff)
    then show ?thesis by (cases rule: heartbeat_Inr) (auto intro!: persists_put [OF ids])
  next
    case (request sha build enabled db_now aid jid uid wid pid rerun_of r)
    then have "start_analysis sha build enabled db_now aid jid uid wid pid rerun_of s = Inr (r, s')"
      by (simp add: transaction_Inr_iff)
    then obtain x where "request_run sha db_now aid jid uid rerun_of x s = Inr (r, s')" by (rule start_analysis_Inr)
    then show ?thesis by (cases rule: request_run_Inr) simp_all
  next
    case (start c build now now' t)
    then have "begin_analysis build now now' c s = Inr (t, s')" by (simp add: transaction_Inr_iff)
    then show ?thesis by (cases rule: begin_analysis_Inr) (auto dest!: prepare_analysis_Inr)
  next
    case (complete c ck result code0 retry expired delay u)
    then have "complete_analysis ck c result code0 retry expired delay s = Inr (u, s')" by (simp add: transaction_Inr_iff)
    then show ?thesis
      by (cases rule: complete_analysis_Inr) (auto simp: closing_job_keeps finish_keeps intro!: persists_put [OF ids])
  next
    case (cancel now uid wid aid r)
    then have "cancel_analysis now uid wid aid s = Inr (r, s')" by (simp add: transaction_Inr_iff)
    then show ?thesis
      by (cases rule: cancel_analysis_Inr) (auto simp: cancel_keeps intro!: persists_put [OF ids])
  qed
qed

subsection \<open>The abstract life of a run\<close>

text \<open>
  What a run is to its users: a status, and the files and findings that were stored for it. The
  steps of the abstract machine name the only ways it changes: results come with completion, and
  a run that has ended has no further step.
\<close>

type_synonym life = "run_status \<times> file_data list \<times> finding_data list"

inductive lifecycle :: "(uuid \<rightharpoonup> life) \<Rightarrow> (uuid \<rightharpoonup> life) \<Rightarrow> bool" where
  rest: "lifecycle m m"
| request: "m i = None \<Longrightarrow> lifecycle m (m(i \<mapsto> (PENDING, [], [])))"
| move: "m i = Some (a, [], []) \<Longrightarrow> a \<notin> set terminal_runs \<Longrightarrow> lifecycle m (m(i \<mapsto> (b, [], [])))"
| complete: "m i = Some (a, [], []) \<Longrightarrow> a \<notin> set terminal_runs \<Longrightarrow> lifecycle m (m(i \<mapsto> (COMPLETED, fs, gs)))"

inductive_cases lifecycleE: "lifecycle m m'"

lemma lifecycle_final:
  "lifecycle m m' \<Longrightarrow> m i = Some (a, fs, gs) \<Longrightarrow> a \<in> set terminal_runs \<Longrightarrow> m' i = Some (a, fs, gs)"
  by (auto elim!: lifecycleE)

lemma lifecycle_known: "lifecycle m m' \<Longrightarrow> m i \<noteq> None \<Longrightarrow> m' i \<noteq> None"
  by (auto elim!: lifecycleE)

definition files_of :: "uuid \<Rightarrow> 'a analysis_tables_scheme \<Rightarrow> file_data list" where
  "files_of i s = map af_data (filter (\<lambda>f. af_analysis_id f = i) (analysis_files s))"

definition findings_of :: "uuid \<Rightarrow> 'a analysis_tables_scheme \<Rightarrow> finding_data list" where
  "findings_of i s = map fg_data (filter (\<lambda>f. fg_analysis_id f = i) (findings_stored s))"

definition statuses :: "analysis_run list \<Rightarrow> (uuid \<rightharpoonup> run_status)" where
  "statuses rs = map_of (map (\<lambda>r. (ar_id r, ar_status r)) rs)"

definition life_of :: "'a analysis_tables_scheme \<Rightarrow> (uuid \<rightharpoonup> life)" where
  "life_of s i = map_option (\<lambda>a. (a, files_of i s, findings_of i s)) (statuses (analysis_runs s) i)"

definition results_owned :: "'a analysis_tables_scheme \<Rightarrow> bool" where
  "results_owned s \<longleftrightarrow>
     (\<forall>f \<in> set (analysis_files s). statuses (analysis_runs s) (af_analysis_id f) = Some COMPLETED) \<and>
     (\<forall>g \<in> set (findings_stored s). statuses (analysis_runs s) (fg_analysis_id g) = Some COMPLETED)"

definition analysis_state_ok :: "'a analysis_tables_scheme \<Rightarrow> bool" where
  "analysis_state_ok s \<longleftrightarrow> analysis_inv s \<and> results_owned s"

lemma statuses_row:
  "distinct (map ar_id rs) \<Longrightarrow> r \<in> set rs \<Longrightarrow> statuses rs (ar_id r) = Some (ar_status r)"
  unfolding statuses_def by (rule map_of_is_SomeI) (auto simp: comp_def)

lemma statuses_absent: "statuses rs i = None \<longleftrightarrow> i \<notin> ar_id ` set rs"
  by (simp add: statuses_def map_of_eq_None_iff image_image)

lemma statuses_add:
  assumes "ar_id r \<notin> ar_id ` set rs"
  shows "statuses (rs @ [r]) = (statuses rs)(ar_id r \<mapsto> ar_status r)"
proof
  fix i
  have "statuses (xs @ [r]) i =
      (case statuses xs i of Some a \<Rightarrow> Some a | None \<Rightarrow> if i = ar_id r then Some (ar_status r) else None)" for xs
    by (induction xs) (auto simp: statuses_def)
  then show "statuses (rs @ [r]) i = ((statuses rs)(ar_id r \<mapsto> ar_status r)) i"
    using statuses_absent [of rs "ar_id r"] assms by (cases "i = ar_id r") (auto split: option.splits)
qed

lemma statuses_put:
  assumes "r \<in> set rs" and "ar_id r' = ar_id r"
  shows "statuses (put_row ar_id r' rs) = (statuses rs)(ar_id r \<mapsto> ar_status r')"
proof -
  have "statuses (put_row ar_id r' xs) i = (if i = ar_id r \<and> i \<in> ar_id ` set xs then Some (ar_status r') else statuses xs i)" for xs i
    by (induction xs) (auto simp: statuses_def put_row_def assms(2))
  with assms(1) show ?thesis by auto
qed

lemma no_results:
  assumes "results_owned s" and "statuses (analysis_runs s) i \<noteq> Some COMPLETED"
  shows "files_of i s = []" "findings_of i s = []"
  using assms by (auto simp: results_owned_def files_of_def findings_of_def filter_empty_conv)

lemma rows_of_other:
  assumes "rows_of_run r fs gs"
  shows "map af_data (filter (\<lambda>f. af_analysis_id f = i) fs) = (if i = ar_id r then map af_data fs else [])"
    "map fg_data (filter (\<lambda>g. fg_analysis_id g = i) gs) = (if i = ar_id r then map fg_data gs else [])"
proof -
  have f: "\<forall>f \<in> set fs. af_analysis_id f = ar_id r" and g: "\<forall>g \<in> set gs. fg_analysis_id g = ar_id r"
    using assms by (simp_all add: rows_of_run_def)
  have "filter (\<lambda>f. af_analysis_id f = i) fs = (if i = ar_id r then fs else [])"
    using f by (auto simp: filter_empty_conv filter_id_conv)
  then show "map af_data (filter (\<lambda>f. af_analysis_id f = i) fs) = (if i = ar_id r then map af_data fs else [])" by simp
  have "filter (\<lambda>g. fg_analysis_id g = i) gs = (if i = ar_id r then gs else [])"
    using g by (auto simp: filter_empty_conv filter_id_conv)
  then show "map fg_data (filter (\<lambda>g. fg_analysis_id g = i) gs) = (if i = ar_id r then map fg_data gs else [])" by simp
qed

lemma analysis_step_refines:
  assumes ok: "analysis_state_ok s" and step: "analysis_step s s'"
  shows "lifecycle (life_of s) (life_of s') \<and> results_owned s'"
proof -
  have inv: "analysis_inv s" and owned: "results_owned s" using ok by (simp_all add: analysis_state_ok_def)
  have ids: "distinct (map ar_id (analysis_runs s))" "distinct (map ar_id (analysis_runs s'))"
    using analysis_inv_parts(7) [OF inv] analysis_inv_parts(7) [OF analysis_step_inv [OF inv step]] .
  from step inv show ?thesis
  proof (cases rule: analysis_step_effect)
    case same
    then have "life_of s' = life_of s" by (simp add: fun_eq_iff life_of_def files_of_def findings_of_def)
    with same owned show ?thesis by (simp add: lifecycle.rest results_owned_def)
  next
    case (added r)
    have fresh: "ar_id r \<notin> ar_id ` set (analysis_runs s)" using ids(2) by (auto simp: added(1))
    have st: "statuses (analysis_runs s') = (statuses (analysis_runs s))(ar_id r \<mapsto> PENDING)"
      by (simp add: added(1,2) statuses_add [OF fresh])
    have none: "statuses (analysis_runs s) (ar_id r) = None" using fresh by (simp add: statuses_absent)
    have "life_of s' = (life_of s)(ar_id r \<mapsto> (PENDING, [], []))"
      using no_results [OF owned, of "ar_id r"] none added(3,4)
      by (auto simp: fun_eq_iff life_of_def st files_of_def findings_of_def)
    moreover have "life_of s (ar_id r) = None" by (simp add: life_of_def none)
    moreover have "results_owned s'" using owned none unfolding results_owned_def added(3,4) st by auto
    ultimately show ?thesis by (simp add: lifecycle.request)
  next
    case (written r r' fs gs)
    have st: "statuses (analysis_runs s') = (statuses (analysis_runs s))(ar_id r \<mapsto> ar_status r')"
      by (simp add: written(4) statuses_put [OF written(1,3)])
    have now: "statuses (analysis_runs s) (ar_id r) = Some (ar_status r)" by (rule statuses_row [OF ids(1) written(1)])
    have open_run: "ar_status r \<notin> set terminal_runs" using written(2) by (simp add: not_terminal_open)
    have none: "files_of (ar_id r) s = []" "findings_of (ar_id r) s = []"
      using no_results [OF owned, of "ar_id r"] open_run by (simp_all add: now terminal_runs_def)
    have m: "life_of s (ar_id r) = Some (ar_status r, [], [])" by (simp add: life_of_def now none)
    have "life_of s' = (life_of s)(ar_id r \<mapsto> (ar_status r', map af_data fs, map fg_data gs))"
    proof
      fix i
      have "files_of i s' = files_of i s @ (if i = ar_id r then map af_data fs else [])"
        "findings_of i s' = findings_of i s @ (if i = ar_id r then map fg_data gs else [])"
        by (simp_all add: files_of_def findings_of_def written(5,6) rows_of_other [OF written(7)])
      then show "life_of s' i = ((life_of s)(ar_id r \<mapsto> (ar_status r', map af_data fs, map fg_data gs))) i"
        by (auto simp: life_of_def st none)
    qed
    moreover have "results_owned s'"
      using owned written(7,8) open_run now
      unfolding results_owned_def written(5,6) st rows_of_run_def by (auto simp: terminal_runs_def)
    ultimately show ?thesis
      using written(8) lifecycle.move [of "life_of s" "ar_id r" "ar_status r"]
        lifecycle.complete [of "life_of s" "ar_id r" "ar_status r"] m open_run by auto
  qed
qed

lemma analysis_state_step: "analysis_state_ok s \<Longrightarrow> analysis_step s s' \<Longrightarrow> analysis_state_ok s'"
  using analysis_step_refines analysis_step_inv by (auto simp: analysis_state_ok_def)

definition lives_on :: "'a analysis_tables_scheme \<Rightarrow> 'a analysis_tables_scheme \<Rightarrow> bool" where
  "lives_on s s' \<longleftrightarrow> lifecycle\<^sup>*\<^sup>* (life_of s) (life_of s')"

interpretation analysis: evolving_system analysis_state_ok analysis_step analysis_state_ok lives_on
  by unfold_locales
    (auto simp: lives_on_def intro: analysis_state_step dest: analysis_step_refines intro: r_into_rtranclp rtranclp_trans)

lemma analysis_steps_run:
  "analysis_step\<^sup>*\<^sup>* s t \<Longrightarrow> analysis_state_ok s \<Longrightarrow> r \<in> set (analysis_runs s) \<Longrightarrow> issued ANALYZE_PR c (jobs s) \<Longrightarrow>
   (\<exists>q \<in> set (analysis_runs t). ar_id q = ar_id r \<and> pull_of q = pull_of r) \<and> issued ANALYZE_PR c (jobs t)"
proof (induction rule: rtranclp_induct)
  case (step t u)
  have inv: "analysis_inv t" using analysis.inv_steps [OF step(1,4)] by (simp add: analysis_state_ok_def)
  from step obtain q where "q \<in> set (analysis_runs t)" "ar_id q = ar_id r" "pull_of q = pull_of r" "issued ANALYZE_PR c (jobs t)"
    by blast
  with analysis_step_run [OF step(2) inv] persists_issued [OF analysis_step_persists [OF inv step(2)]] show ?case
    by metis
qed auto

lemma lifecycle_steps_final:
  "lifecycle\<^sup>*\<^sup>* m m' \<Longrightarrow> m i = Some (a, fs, gs) \<Longrightarrow> a \<in> set terminal_runs \<Longrightarrow> m' i = Some (a, fs, gs)"
  by (induction rule: rtranclp_induct) (auto intro: lifecycle_final)

subsection \<open>Properties\<close>

text \<open>
  C16. The analysis implements the life of a run. Every transaction on analysis runs (a request, a
  start, a completion, a cancellation, the queue operations and what other components write) is
  a step of the abstract machine: a run is requested without results, results are attached only in
  the step that completes it, and a run that has ended takes no step.
\<close>

theorem analysis_refines_lifecycle:
  assumes "analysis_state_ok s" and "analysis_step s s'"
  shows "lifecycle (life_of s) (life_of s') \<and> analysis_state_ok s'"
  using analysis_step_refines [OF assms] analysis_state_step [OF assms] by simp

text \<open>
  A run that has ended is final: whatever happens afterwards, its status and the files and
  findings stored for it stay exactly as they were; in particular nothing is stored for a
  cancelled run when a worker is still busy with it.
\<close>

theorem ended_run_is_final:
  assumes "analysis_state_ok s" and "r \<in> set (analysis_runs s)" and "ar_status r \<in> set terminal_runs"
    and "analysis_step\<^sup>*\<^sup>* s s'"
  shows "(\<exists>r' \<in> set (analysis_runs s'). ar_id r' = ar_id r \<and> ar_status r' = ar_status r) \<and>
    files_of (ar_id r) s' = files_of (ar_id r) s \<and> findings_of (ar_id r) s' = findings_of (ar_id r) s"
proof -
  have ids: "distinct (map ar_id (analysis_runs s))"
    using assms(1) analysis_inv_parts(7) [of s] by (simp add: analysis_state_ok_def)
  have "life_of s (ar_id r) = Some (ar_status r, files_of (ar_id r) s, findings_of (ar_id r) s)"
    by (simp add: life_of_def statuses_row [OF ids assms(2)])
  moreover have "lifecycle\<^sup>*\<^sup>* (life_of s) (life_of s')"
    using analysis.evolves_steps [OF assms(4,1)] by (simp add: lives_on_def)
  ultimately have "life_of s' (ar_id r) = Some (ar_status r, files_of (ar_id r) s, findings_of (ar_id r) s)"
    using lifecycle_steps_final assms(3) by blast
  then have st: "statuses (analysis_runs s') (ar_id r) = Some (ar_status r)"
    and "files_of (ar_id r) s' = files_of (ar_id r) s \<and> findings_of (ar_id r) s' = findings_of (ar_id r) s"
    by (auto simp: life_of_def)
  moreover from st obtain r' where "r' \<in> set (analysis_runs s')" "ar_id r' = ar_id r" "ar_status r' = ar_status r"
    unfolding statuses_def by (auto dest!: map_of_SomeD)
  ultimately show ?thesis by blast
qed

text \<open>
  C17. Runs and jobs agree in every reachable state: each run has exactly one job, the run is open
  exactly while that job can be claimed and otherwise ended as the job did; at most one run of a
  pull request is open; and results are stored for completed runs only.
\<close>

theorem analysis_runs_match_jobs:
  assumes "analysis_state_ok s" and "analysis_step\<^sup>*\<^sup>* s s'" and "r \<in> set (analysis_runs s')"
  shows "(\<exists>!j. j \<in> set (jobs s') \<and> carries ANALYZE_PR (ar_id r) j \<and> job_phase (job_state j) = run_phase (ar_status r)) \<and>
    (\<forall>q \<in> set (analysis_runs s'). analysis_open q \<and> analysis_open r \<and> pull_of q = pull_of r \<longrightarrow> q = r) \<and>
    (files_of (ar_id r) s' \<noteq> [] \<or> findings_of (ar_id r) s' \<noteq> [] \<longrightarrow> ar_status r = COMPLETED)"
proof -
  have ok: "analysis_state_ok s'" using analysis.inv_steps [OF assms(2,1)] .
  then have inv: "analysis_inv s'" and owned: "results_owned s'" by (simp_all add: analysis_state_ok_def)
  note p = analysis_inv_parts [OF inv]
  have "\<exists>!j. j \<in> set (jobs s') \<and> carries ANALYZE_PR (ar_id r) j \<and> job_phase (job_state j) = run_phase (ar_status r)"
    using analysis_tracking.tracked_carrier [OF p(3,6) assms(3)] by (auto simp: analysis_phase_def)
  moreover have "q = r" if "q \<in> set (analysis_runs s')" "analysis_open q" "analysis_open r" "pull_of q = pull_of r" for q
    using one_open_run_unique [OF p(4)] that assms(3) by metis
  moreover have "ar_status r = COMPLETED" if "files_of (ar_id r) s' \<noteq> [] \<or> findings_of (ar_id r) s' \<noteq> []"
    using no_results [OF owned, of "ar_id r"] that statuses_row [OF p(7) assms(3)] by auto
  ultimately show ?thesis by blast
qed

subsection \<open>Concrete runs\<close>

text \<open>A running analysis whose job is leased; its user cancels it while the worker is busy.\<close>

definition analysis_shop :: "analysis_run list \<Rightarrow> job list \<Rightarrow> analysis_tables" where
  "analysis_shop rs js =
     pull_tables.extend (sync_shop [] js []) \<lparr>analysis_runs = rs, analysis_files = [], findings_stored = []\<rparr>"

definition shop_inputs :: analysis_inputs where
  "shop_inputs = \<lparr>ar_workspace_id = 10, ar_repository_id = 70, ar_connection_generation = 1, ar_pr_id = 60,
     ar_base_sha = replicate 40 (CHR ''b''), ar_head_sha = replicate 40 (CHR ''c''), ar_merge_base_sha = None,
     ar_rule_set_version = rule_set, ar_config_id = 71, ar_config_digest = replicate 64 (CHR ''a''),
     ar_build_digest = replicate 64 (CHR ''a'')\<rparr>"

definition shop_analysis :: analysis_run where
  "shop_analysis = (new_run 1 80 1 shop_inputs 0 (replicate 64 (CHR ''a'')))\<lparr>ar_status := RUNNING\<rparr>"

definition shop_analysis_job :: job where
  "shop_analysis_job = lease 2 ''w'' (new_job space_digest 1 81 ANALYZE_PR 80 (Some 10))"

definition shop_busy :: analysis_tables where
  "shop_busy = analysis_shop [shop_analysis] [shop_analysis_job]"

definition shop_stopped :: analysis_tables where
  "shop_stopped = analysis_shop [cancel_run 5 shop_analysis] [cancel_analysis_job 5 shop_analysis_job]"

lemma shop_analysis_job_facts:
  "job_id shop_analysis_job = 81" "job_kind shop_analysis_job = ANALYZE_PR" "job_aggregate_id shop_analysis_job = 80"
  "job_state shop_analysis_job = LEASED"
  by (simp_all add: shop_analysis_job_def lease_def new_job_def)

lemma shop_analysis_job_inv: "job_inv shop_analysis_job"
  unfolding shop_analysis_job_def
  by (intro job_inv_lease job_inv_new) (simp_all add: space_digest_def hex_chars_def new_job_def)

lemma shop_analysis_facts:
  "ar_id shop_analysis = 80" "ar_workspace_id shop_analysis = 10" "ar_repository_id shop_analysis = 70"
  "ar_requested_by shop_analysis = Some 1" "ar_status shop_analysis = RUNNING" "ar_actor shop_analysis = USER"
  "ar_connection_generation shop_analysis = 1"
  by (simp_all add: shop_analysis_def new_run_def analysis_inputs.extend_def shop_inputs_def)

lemma is_hex_40 [simp]: "is_hex 40 (replicate 40 c) \<longleftrightarrow> c \<in> set hex_chars"
  by (auto simp: is_hex_def list_all_iff)

lemma shop_analysis_row:
  "analysis_row_ok shop_analysis" "analysis_row_ok (cancel_run 5 shop_analysis)"
  by (simp_all add: analysis_row_ok_def cancel_run_def shop_analysis_def new_run_def analysis_inputs.extend_def
      shop_inputs_def terminal_runs_def hex_chars_def del: replicate.simps)

lemma analysis_shop_fields [simp]:
  "analysis_runs (analysis_shop rs js) = rs" "jobs (analysis_shop rs js) = js"
  "analysis_files (analysis_shop rs js) = []" "findings_stored (analysis_shop rs js) = []"
  by (simp_all add: analysis_shop_def pull_tables.extend_def sync_shop_def)

lemma analysis_shop_pulls: "pull_schema (analysis_shop rs js) \<longleftrightarrow> jobs_ok js"
  using sync_shop_empty
  by (simp add: pull_schema_def repository_schema_def workspace_schema_def jobs_schema_def analysis_shop_def
      pull_tables.extend_def sync_shop_def jobs_ok_def)

lemma analysis_shop_ok:
  assumes "job_inv j" and "analysis_row_ok r" and "ar_actor r = USER" and "carries ANALYZE_PR (ar_id r) j"
    and "job_phase (job_state j) = run_phase (ar_status r)"
  shows "analysis_state_ok (analysis_shop [r] [j])"
proof -
  have "jobs_ok [j]" using job_inv_row_ok [OF assms(1)] by (simp add: jobs_ok_def)
  with assms show ?thesis
    by (simp add: analysis_state_ok_def analysis_inv_def analysis_schema_def analysis_shop_pulls analysis_runs_ok_def
        file_rows_ok_def finding_rows_ok_def jobs_inv_def jobs_schema_def tracked_def one_open_run_def results_owned_def
        analysis_phase_def)
qed

lemma shop_busy_ok: "analysis_state_ok shop_busy"
  unfolding shop_busy_def
  by (rule analysis_shop_ok)
    (simp_all add: shop_analysis_job_inv shop_analysis_row shop_analysis_facts shop_analysis_job_facts carries_def)

lemma shop_stopped_ok: "analysis_state_ok shop_stopped"
  unfolding shop_stopped_def
  by (rule analysis_shop_ok)
    (simp_all add: job_inv_cancel_analysis shop_analysis_job_inv shop_analysis_row shop_analysis_facts
      shop_analysis_job_facts carries_def cancel_keeps, simp add: cancel_run_def)

lemma analysis_shop_guard:
  assumes "r = shop_analysis \<or> r = cancel_run 5 shop_analysis"
  shows "analysis_access 1 10 80 False (analysis_shop [r] js) = Inr (r, analysis_shop [r] js)"
proof -
  have r: "ar_id r = 80" "ar_workspace_id r = 10" "ar_repository_id r = 70" "ar_connection_generation r = 1"
    using assms by (auto simp: cancel_run_def shop_analysis_facts)
  show ?thesis
    by (simp add: analysis_access_def find_run_def r pull_eval analysis_shop_def pull_tables.extend_def sync_shop_defs)
qed

lemma shop_cancels: "transaction analysis_schema (cancel_analysis 5 1 10 80) shop_busy = (Inr (cancel_run 5 shop_analysis), shop_stopped)"
proof -
  have "cancel_analysis 5 1 10 80 shop_busy = Inr (cancel_run 5 shop_analysis, shop_stopped)"
    unfolding cancel_analysis_def shop_busy_def bind_def analysis_shop_guard [OF disjI1 [OF refl]]
    by (simp add: shop_analysis_facts shop_analysis_job_facts terminal_runs_def txn_eval row_ops shop_stopped_def
        put_row_def cancel_keeps)
      (simp add: analysis_shop_def pull_tables.extend_def sync_shop_def put_row_def cancel_keeps shop_analysis_facts shop_analysis_job_facts)
  moreover have "analysis_schema shop_stopped"
    using shop_stopped_ok by (simp add: analysis_state_ok_def analysis_inv_def)
  ultimately show ?thesis by (simp add: transaction_def)
qed

lemma shop_step: "analysis_step shop_busy shop_stopped"
  by (rule analysis_step.cancel [OF shop_cancels])

text \<open>The busy worker comes back with a result.\<close>

definition shop_late :: "analysis_tables \<Rightarrow> (exn + unit) \<times> analysis_tables" where
  "shop_late s = transaction analysis_schema
     (complete_analysis \<lparr>ak_fence = 6, ak_finish = 6, ak_closed = 6, ak_files = (\<lambda>n. 200 + n), ak_findings = (\<lambda>n. 300 + n)\<rparr>
        (claim_of shop_analysis_job ''w'') (Some sample_result) None False False 5) s"

lemma shop_late_idle: "shop_late shop_stopped = (Inr (), shop_stopped)"
proof -
  have "claim_workspace_id (claim_of shop_analysis_job ''w'') = Some 10" "claim_aggregate_id (claim_of shop_analysis_job ''w'') = 80"
    by (simp_all add: claim_of_def shop_analysis_job_def lease_def new_job_def)
  moreover have "lock_system 10 shop_stopped = Inr (True, shop_stopped)"
    by (simp add: lock_system_def pull_eval shop_stopped_def analysis_shop_def pull_tables.extend_def sync_shop_defs)
  moreover have "find_run 10 80 shop_stopped = Inr (cancel_run 5 shop_analysis, shop_stopped)"
    by (simp add: find_run_def txn_eval row_ops shop_stopped_def cancel_run_def shop_analysis_facts)
  moreover have "ar_status (cancel_run 5 shop_analysis) \<in> set terminal_runs"
    by (simp add: cancel_run_def terminal_runs_def)
  ultimately show ?thesis
    using shop_stopped_ok
    by (simp add: shop_late_def transaction_def complete_analysis_def bind_def ret_def analysis_state_ok_def analysis_inv_def)
qed

theorem analysis_refines_lifecycle_witness:
  "lifecycle (life_of shop_busy) (life_of shop_stopped) \<and> life_of shop_stopped 80 = Some (RUN_CANCELED, [], [])"
  using analysis_refines_lifecycle [OF shop_busy_ok shop_step]
  by (simp add: life_of_def statuses_def shop_stopped_def cancel_run_def shop_analysis_facts files_of_def findings_of_def)

theorem ended_run_is_final_witness:
  "files_of 80 (snd (shop_late shop_stopped)) = [] \<and>
   (\<exists>r' \<in> set (analysis_runs (snd (shop_late shop_stopped))). ar_id r' = 80 \<and> ar_status r' = RUN_CANCELED)"
proof -
  have issued: "issued ANALYZE_PR (claim_of shop_analysis_job ''w'') (jobs shop_stopped)"
    by (simp add: issued_def shop_stopped_def carries_def claim_of_def cancel_keeps shop_analysis_job_facts)
  have "analysis_step\<^sup>*\<^sup>* shop_stopped shop_stopped"
    using analysis_step.complete [OF issued shop_late_idle [unfolded shop_late_def]] by (rule r_into_rtranclp)
  from ended_run_is_final [OF shop_stopped_ok _ _ this, of "cancel_run 5 shop_analysis"] show ?thesis
    unfolding shop_late_idle snd_conv
    by (simp add: shop_stopped_def cancel_run_def terminal_runs_def shop_analysis_facts files_of_def)
qed

theorem analysis_runs_match_jobs_witness:
  "\<exists>!j. j \<in> set (jobs shop_stopped) \<and> carries ANALYZE_PR 80 j \<and> job_phase (job_state j) = Stopped"
proof -
  have "analysis_step\<^sup>*\<^sup>* shop_busy shop_stopped" using shop_step by (rule r_into_rtranclp)
  from analysis_runs_match_jobs [OF shop_busy_ok this, of "cancel_run 5 shop_analysis"] show ?thesis
    by (simp add: shop_stopped_def shop_analysis_facts) (simp add: cancel_run_def)
qed

end
