(* ===== verification/Analysis_Properties.thy ===== *)
theory Analysis_Properties
  imports Analysis_System
begin

section \<open>The outcome of executing an analysis\<close>

text \<open>
  Two properties that span the pipeline, the worker and the tables: the rows of a result fit the
  constraints of the tables, and an execution that keeps its lease settles its run, whatever the
  pipeline does.
\<close>

subsection \<open>An execution settles its run\<close>

text \<open>The claim holds the job of a run until the given time.\<close>

definition holds_run :: "claim \<Rightarrow> datetime \<Rightarrow> analysis_run \<Rightarrow> job \<Rightarrow> 'a analysis_tables_scheme \<Rightarrow> bool" where
  "holds_run c until r j s \<longleftrightarrow>
     analysis_state_ok s \<and> r \<in> set (analysis_runs s) \<and> j \<in> set (jobs s) \<and>
     ar_id r = claim_aggregate_id c \<and> claim_workspace_id c = Some (ar_workspace_id r) \<and>
     job_id j = claim_id c \<and> carries ANALYZE_PR (ar_id r) j \<and> holds_lease c j \<and> job_lease_until j = Some until"

lemma holds_run_parts:
  assumes "holds_run c until r j s"
  shows "analysis_inv s" "r \<in> set (analysis_runs s)" "j \<in> set (jobs s)" "ar_id r = claim_aggregate_id c"
    "claim_workspace_id c = Some (ar_workspace_id r)" "job_id j = claim_id c" "carries ANALYZE_PR (ar_id r) j"
    "holds_lease c j" "job_lease_until j = Some until" "analysis_state_ok s"
  using assms unfolding holds_run_def analysis_state_ok_def by blast+

lemma holds_run_open:
  assumes "holds_run c until r j s"
  shows "ar_status r \<notin> set terminal_runs" "\<exists>uid. ar_requested_by r = Some uid" "analysis_row_ok r"
proof -
  note h = holds_run_parts [OF assms]
  note p = analysis_inv_parts [OF h(1)]
  have "job_phase (job_state j) = run_phase (ar_status r)"
    using analysis_tracking.tracked_carrier(2) [OF p(3,6) h(2,3,7)] by (simp add: analysis_phase_def)
  then have "run_phase (ar_status r) = Open" using holds_lease_leased [OF h(8)] by simp
  then show "ar_status r \<notin> set terminal_runs" by (simp add: analysis_open_phase not_terminal_open)
  show ok: "analysis_row_ok r"
    using p(1) h(2) by (auto simp: analysis_schema_def analysis_runs_ok_def list_all_iff)
  have "ar_actor r = USER" using p(5) h(2) by (simp add: list_all_iff)
  with ok show "\<exists>uid. ar_requested_by r = Some uid" by (auto simp: analysis_row_ok_def)
qed

lemma find_run_found:
  assumes "analysis_inv s" and "r \<in> set (analysis_runs s)"
  shows "find_run (ar_workspace_id r) (ar_id r) s = Inr (r, s)"
proof -
  have "select_one analysis_runs (\<lambda>q. ar_id q = ar_id r \<and> ar_workspace_id q = ar_workspace_id r) s = Inr (Some r, s)"
    using analysis_inv_parts(7) [OF assms(1)] assms(2) by (intro select_one_found [of ar_id]) auto
  then show ?thesis by (simp add: find_run_def bind_def ret_def)
qed

lemma analysis_access_error:
  assumes "analysis_schema s" and "distinct (map ar_id (analysis_runs s))" and "analysis_access uid wid aid active s = Inl e"
  shows "is_app e"
proof -
  have ws: "workspace_schema s" and repos: "repositories_ok (repositories s)"
    using assms(1) by (simp_all add: analysis_schema_def pull_schema_def repository_schema_def)
  have guard: "is_app e" if "require_permission uid wid p s = Inl e" for p e
    using require_permission_error [OF ws that]
    by (auto simp: guard_error_def workspace_missing_def permission_denied_def user_unavailable_def)
  have found: "is_app e" if "find_run wid aid s = Inl e" for e
  proof -
    have "select_one analysis_runs (\<lambda>r. ar_id r = aid \<and> ar_workspace_id r = wid) s \<noteq> Inl e'" for e'
      by (rule select_one_unique [where f = ar_id and c = aid]) (use assms(2) in auto)
    with that show ?thesis by (auto simp: find_run_def bind_Inl split: option.splits)
  qed
  have repo: "is_app e" if "repo_require uid wid rid p active s = Inl e" for rid p e
    using that get_repository_total [OF repos] guard
    by (auto simp: repo_require_def repo_access_def bind_Inl repository_not_found_def repository_inactive_def
        split: option.splits if_splits dest!: require_permission_reads)
  from assms(3) show ?thesis
    unfolding analysis_access_def bind_Inl
    by (auto simp: analysis_error_def intro: guard found repo
        dest!: require_permission_reads find_run_reads repo_require_reads)
qed

definition settled :: "uuid \<Rightarrow> 'a analysis_tables_scheme \<Rightarrow> bool" where
  "settled i s \<longleftrightarrow>
     (\<exists>r \<in> set (analysis_runs s). ar_id r = i \<and> ar_status r \<noteq> RUNNING \<and>
        (ar_status r = PENDING \<longrightarrow> (\<exists>j \<in> set (jobs s). carries ANALYZE_PR i j \<and> job_state j = READY)))"

lemma closing_status_cases:
  "closing_status st code \<noteq> RUNNING" "closing_status st code = PENDING \<Longrightarrow> st = READY"
  by (auto simp: closing_status_def split: if_splits option.splits)

lemma complete_settles:
  assumes h: "holds_run c until r j s" and fence: "(until \<le> ak_fence ck) = expired"
    and op: "complete_analysis ck c result code0 retry0 expired delay s = Inr (u, s')"
  shows "settled (ar_id r) s'"
proof -
  note p = holds_run_parts [OF h]
  have ids: "distinct (map ar_id (analysis_runs s))" using analysis_inv_parts(7) [OF p(1)] .
  have same: "q = r" if "q \<in> set (analysis_runs s)" "ar_id q = claim_aggregate_id c" for q
    using distinct_key_unique [OF ids that(1) p(2)] that(2) p(4) by simp
  have held: "fence (ak_fence ck) c expired s = Inr (Some j, s)"
    using fence p(9) by (intro fence_Some [OF analysis_inv_parts(2) [OF p(1)] p(3,6,8)]) simp
  from op show ?thesis
  proof (cases rule: complete_analysis_Inr)
    case idle
    with held holds_run_open(1) [OF h] same show ?thesis by auto
  next
    case (closed q k k' r' fs gs code retry)
    have q: "q = r" using same closed(1,2) by blast
    have k: "k = j" using jobs_inv_ids [OF analysis_inv_parts(2) [OF p(1)]] closed(4,5) p(3,6)
      by (auto dest: distinct_key_unique)
    have id: "ar_id r' = ar_id r" using closed(10,11) q by (auto split: option.splits)
    define z where "z = close_run (ak_closed ck) (job_state k') code r'"
    have z: "z \<in> set (analysis_runs s')" "ar_id z = ar_id r"
      using p(2) id by (auto simp: closed(12) z_def intro!: put_row_mem)
    have st: "ar_status z = closing_status (job_state k') code" by (simp add: z_def close_run_def)
    have "\<exists>i \<in> set (jobs s'). carries ANALYZE_PR (ar_id r) i \<and> job_state i = READY" if "ar_status z = PENDING"
    proof (rule bexI [of _ k'])
      have ready: "job_state k' = READY" using that closing_status_cases(2) by (simp add: st)
      show "carries ANALYZE_PR (ar_id r) k' \<and> job_state k' = READY"
        using ready p(7) finish_keeps [OF closed(8)] by (simp add: k carries_def)
      have "closing_job code k' = k'" using that by (simp add: closing_job_def st)
      moreover have "k' \<in> set (put_row job_id k' (jobs s))"
        using closed(4) finish_keeps [OF closed(8)] by (intro put_row_mem) auto
      ultimately show "k' \<in> set (jobs s')" by (simp add: closed(12))
    qed
    with z st closing_status_cases(1) show ?thesis unfolding settled_def by metis
  qed
qed

text \<open>Recording a failure cannot fail.\<close>

lemma close_run_row:
  assumes "analysis_row_ok r" and "code \<noteq> []"
  shows "analysis_row_ok (close_run t st (Some code) r)"
  using assms by (auto simp: analysis_row_ok_def close_run_def closing_status_def terminal_runs_def)

lemma complete_failure_total:
  assumes h: "holds_run c until r j s" and fence: "(until \<le> ak_fence ck) = expired" and code: "code \<noteq> []"
  shows "\<exists>s'. complete_analysis ck c None (Some code) retry expired delay s = Inr ((), s') \<and> analysis_schema s'"
proof -
  note p = holds_run_parts [OF h]
  note i = analysis_inv_parts [OF p(1)]
  obtain uid where uid: "ar_requested_by r = Some uid" using holds_run_open(2) [OF h] by blast
  obtain b where locked: "lock_system (ar_workspace_id r) s = Inr (b, s)"
  proof -
    have "workspaces_ok (workspaces s)"
      using i(1) by (simp add: analysis_schema_def pull_schema_def repository_schema_def workspace_schema_def)
    then have "lock_system (ar_workspace_id r) s \<noteq> Inl e" for e by (rule lock_system_total)
    then obtain b s1 where "lock_system (ar_workspace_id r) s = Inr (b, s1)"
      by (cases "lock_system (ar_workspace_id r) s") auto
    with that show thesis using lock_system_reads by metis
  qed
  obtain access where access: "attempt_app (analysis_access uid (ar_workspace_id r) (ar_id r) True) s = Inr (access, s)"
  proof (cases "analysis_access uid (ar_workspace_id r) (ar_id r) True s")
    case (Inl e)
    then have "is_app e" by (rule analysis_access_error [OF i(1,7)])
    with Inl that show thesis by (simp add: attempt_app_def)
  next
    case (Inr x)
    then obtain q where "x = (q, s)" by (cases x) (auto dest: analysis_access_reads)
    with Inr that show thesis by (simp add: attempt_app_def)
  qed
  obtain code' retry' where out: "revoked_outcome access (None, Some code, retry) = (None, Some code', retry')" "code' \<noteq> []"
    using code by (cases access) (auto simp: revoked_outcome_def)
  have held: "fence (ak_fence ck) c expired s = Inr (Some j, s)"
    using fence p(9) by (intro fence_Some [OF i(2) p(3,6,8)]) simp
  have leased: "job_state j = LEASED" by (rule holds_lease_leased [OF p(8)])
  have "job_inv j" using i(2) p(3) by (rule jobs_inv_row)
  then have "job_attempt_history j \<noteq> []" using leased by (intro history_nonempty) (simp_all add: job_inv_def)
  then obtain j1 where fin: "finish (ak_finish ck) (Some code') retry' delay j = Inr j1" using finish_total by blast
  define z where "z = close_run (ak_closed ck) (job_state j1) (Some code') r"
  define s' where "s' = analysis_runs_update (put_row ar_id z) (jobs_update (put_row job_id (closing_job (Some code') j1)) s)"
  have finished: "finish_run (ak_finish ck) (ak_closed ck) (Some code') retry' delay j r s = Inr ((), s')"
    by (simp add: finish_run_def finish_job_def fin bind_def ret_def modify_def save_row_def s'_def z_def closing_job_def
        put_row_twice cancel_keeps comp_def)
  have "complete_analysis ck c None (Some code) retry expired delay s = Inr ((), s')"
    using p(4,5) locked find_run_found [OF p(1,2)] holds_run_open(1) [OF h] uid access out held finished
    by (simp add: complete_analysis_def bind_def ret_def)
  moreover have "analysis_schema s'"
  proof -
    have "jobs_inv (jobs_update (put_row job_id (closing_job (Some code') j1)) s)" by (rule closing_inv [OF i(2) p(3) fin])
    then have jobs: "jobs_schema (jobs_update (put_row job_id (closing_job (Some code') j1)) s)" by (rule jobs_inv_schema)
    have key: "ar_execution_key x = ar_execution_key z" if "x \<in> set (analysis_runs s)" "ar_id x = ar_id z" for x
      using distinct_key_unique [OF i(7) that(1) p(2)] that(2) by (simp add: z_def close_run_def)
    have "analysis_row_ok z" unfolding z_def by (rule close_run_row [OF holds_run_open(3) [OF h] out(2)])
    then have "analysis_runs_ok (put_row ar_id z (analysis_runs s))"
      using i(1) put_row_column [of "analysis_runs s" ar_id z ar_execution_key, OF key]
      by (simp add: analysis_schema_def analysis_runs_ok_def list_all_put_row)
    with i(1) jobs show ?thesis
      by (simp add: s'_def analysis_schema_def pull_schema_def repository_schema_def workspace_schema_def jobs_schema_def)
  qed
  ultimately show ?thesis by blast
qed

lemma failure_settles:
  assumes h: "holds_run c until r j s" and fence: "\<not> until \<le> ak_fence ck" and "fst (failure_outcome e) \<noteq> []"
  shows "settled (ar_id r) (snd (analysis_failure ck c e s))"
proof -
  obtain code retry delay where f: "failure_outcome e = (code, retry, delay)" by (cases "failure_outcome e") auto
  obtain s' where s': "complete_analysis ck c None (Some code) retry False delay s = Inr ((), s')" "analysis_schema s'"
    using complete_failure_total [OF h, of ck False code] fence assms(3) f by auto
  then have "analysis_failure ck c e s = (Inr (), s')" by (simp add: analysis_failure_def f transaction_commit)
  with complete_settles [OF h _ s'(1)] fence show ?thesis by simp
qed

text \<open>The first transaction keeps the claim.\<close>

lemma begin_keeps:
  assumes h: "holds_run c until r j s" and op: "transaction analysis_schema (begin_analysis build now now' c) s = (Inr x, s')"
    and "\<not> until \<le> now"
  shows "x \<noteq> None \<and> (\<exists>r'. ar_id r' = ar_id r \<and> holds_run c until r' j s')"
proof -
  note p = holds_run_parts [OF h]
  note i = analysis_inv_parts [OF p(1)]
  from op have body: "begin_analysis build now now' c s = Inr (x, s')" by (simp add: transaction_Inr_iff)
  have "issued ANALYZE_PR c (jobs s)" using p(3,4,6,7) by (auto simp: issued_def)
  then have ok: "analysis_state_ok s'" using analysis_state_step [OF p(10) analysis_step.start [OF _ op]] by blast
  have held: "fence now c False s = Inr (Some j, s)"
    using assms(3) p(9) by (intro fence_Some [OF i(2) p(3,6,8)]) simp
  from body show ?thesis
  proof (cases rule: begin_analysis_Inr)
    case idle
    obtain uid where uid: "ar_requested_by r = Some uid" using holds_run_open(2) [OF h] by blast
    from body p(5) obtain b where "lock_system (ar_workspace_id r) s = Inr (b, s)"
      unfolding begin_analysis_def by (auto elim!: bindE dest: lock_system_reads)
    then have "begin_analysis build now now' c s =
        (if b then (case prepare_analysis build now' uid r s of Inl e \<Rightarrow> Inl e | Inr (task, t) \<Rightarrow> ret (Some task) t)
         else Inl (analysis_error ''ACCESS_REVOKED''))"
      using p(4,5) find_run_found [OF p(1,2)] holds_run_open(1) [OF h] held uid
      by (simp add: begin_analysis_def bind_def check_def ret_def [of "()"] raise_def)
    with body idle(2) show ?thesis by (simp split: if_splits sum.splits prod.splits)
  next
    case (started q k task uid)
    have q: "q = r" using distinct_key_unique [OF i(7) started(1) p(2)] started(2) p(4) by simp
    define r' where "r' = r\<lparr>ar_status := RUNNING, ar_started_at := Some now'\<rparr>"
    have s': "s' = analysis_runs_update (put_row ar_id r') s"
      using prepare_analysis_Inr [OF started(9)] by (simp add: r'_def q)
    have "r' \<in> set (analysis_runs s')" using p(2) by (auto simp: s' r'_def intro!: put_row_mem)
    then have "holds_run c until r' j s'"
      using p ok by (simp add: holds_run_def s' r'_def)
    then show ?thesis using started(7) by (intro conjI exI [of _ r']) (simp_all add: r'_def)
  qed
qed

text \<open>Every exception the transactions raise is recorded under a code.\<close>

definition coded :: "('s, 'a) txn \<Rightarrow> bool" where
  "coded m \<longleftrightarrow> (\<forall>s e. m s = Inl e \<longrightarrow> fst (failure_outcome e) \<noteq> [])"

lemma coded_bind: "coded m \<Longrightarrow> (\<And>x. coded (f x)) \<Longrightarrow> coded (bind m f)"
  by (auto simp: coded_def bind_Inl)

lemma coded_raise: "fst (failure_outcome e) \<noteq> [] \<Longrightarrow> coded (raise e)"
  by (simp add: coded_def)

lemma coded_check: "fst (failure_outcome e) \<noteq> [] \<Longrightarrow> coded (check b e)"
  by (simp add: coded_def)

lemma coded_if: "coded m \<Longrightarrow> coded n \<Longrightarrow> coded (if b then m else n)"
  by simp

lemma coded_option: "coded m \<Longrightarrow> (\<And>x. coded (f x)) \<Longrightarrow> coded (case v of None \<Rightarrow> m | Some x \<Rightarrow> f x)"
  by (cases v) simp_all

lemma coded_prod: "(\<And>x y. coded (f x y)) \<Longrightarrow> coded (case v of (x, y) \<Rightarrow> f x y)"
  by (cases v) simp

lemma coded_ops [simp]:
  "coded (ret x)" "coded (gets f)" "coded (modify g)" "coded (add_row u r)" "coded (save_row u k r)"
  "coded (flush ok)" "coded (select_one rows P)" "coded (select_first rows P)"
  by (auto simp: coded_def flush_def select_one_def one_or_none_def select_first_def gets_def split: list.splits)

lemma coded_attempt: "coded m \<Longrightarrow> coded (attempt_app m)"
  by (auto simp: coded_def attempt_app_def split: sum.splits if_splits)

lemmas coded_rules = coded_bind coded_check coded_raise coded_if coded_option coded_prod coded_attempt

lemma coded_access [simp]:
  "coded (lock_system wid)" "coded (require_permission uid wid p)" "coded (repo_require uid wid rid p active)"
  "coded (find_run wid aid)" "coded (analysis_access uid wid aid active)" "coded (fence now c expired)"
  "coded (analysis_config uid wid rid v)" "coded (analysis_snapshot uid wid pid)"
proof -
  show lock: "coded (lock_system wid)"
    unfolding lock_system_def lock_workspace_def by (intro coded_rules) simp_all
  show req: "coded (require_permission uid wid p)" for p
    unfolding require_permission_def require_def lock_workspace_def find_member_def get_active_def active_user_def
    by (intro coded_rules)
      (simp_all add: workspace_missing_def permission_denied_def user_unavailable_def)
  show repo: "coded (repo_require uid wid rid p active)" for rid p active
    unfolding repo_require_def repo_access_def get_repository_def
    by (intro coded_rules req) (simp_all add: repository_not_found_def repository_inactive_def)
  show run: "coded (find_run wid aid)"
    unfolding find_run_def by (intro coded_rules) simp_all
  show "coded (analysis_access uid wid aid active)"
    unfolding analysis_access_def by (intro coded_rules req repo run) (simp_all add: analysis_error_def)
  show "coded (fence now c expired)"
    unfolding fence_def by (intro coded_rules) simp_all
  show "coded (analysis_config uid wid rid v)"
    unfolding analysis_config_def repo_access_def get_repository_def
    by (intro coded_rules req)
      (simp_all add: repository_not_found_def repository_inactive_def config_unsupported_def)
  show "coded (analysis_snapshot uid wid pid)"
    unfolding analysis_snapshot_def get_pull_def by (intro coded_rules req repo) (simp_all add: not_found_def)
qed

lemma coded_begin: "coded (begin_analysis build now now' c)"
  unfolding begin_analysis_def prepare_analysis_def
  by (intro coded_rules) (simp_all add: analysis_error_def)

lemma coded_finish: "coded (finish_job now code retry delay j)"
  unfolding finish_job_def finish_def close_last_def Let_def
  by (auto simp: coded_def bind_Inl split: sum.splits if_splits)

lemma coded_complete: "coded (complete_analysis ck c result code retry expired delay)"
  unfolding complete_analysis_def finish_run_def store_result_def
  by (intro coded_rules coded_finish) (simp_all add: analysis_error_def)

lemma coded_transaction:
  "coded m \<Longrightarrow> transaction ok m s = (Inl e, s') \<Longrightarrow> fst (failure_outcome e) \<noteq> []"
  by (auto simp: transaction_def coded_def split: sum.splits if_splits prod.splits)

text \<open>
  The claim still holds a lease that lasts beyond the given time, and the opposite outcome that
  other transactions can bring about: the run has ended.
\<close>

definition lease_lasts :: "claim \<Rightarrow> datetime \<Rightarrow> 'a job_tables_scheme \<Rightarrow> bool" where
  "lease_lasts c t s \<longleftrightarrow>
     (\<exists>j \<in> set (jobs s). job_id j = claim_id c \<and> holds_lease c j \<and> (\<exists>u. job_lease_until j = Some u \<and> t < u))"

definition run_ended :: "uuid \<Rightarrow> 'a analysis_tables_scheme \<Rightarrow> bool" where
  "run_ended i s \<longleftrightarrow> (\<exists>r \<in> set (analysis_runs s). ar_id r = i \<and> ar_status r \<in> set terminal_runs)"

lemma ended_settled: "run_ended i s \<Longrightarrow> settled i s"
  unfolding run_ended_def settled_def by (auto simp: terminal_runs_def)

lemma lease_lasts_holds:
  assumes h: "holds_run c until r j s" and steps: "analysis_step\<^sup>*\<^sup>* s t" and "lease_lasts c now t"
  obtains u r1 j1 where "holds_run c u r1 j1 t" "ar_id r1 = ar_id r" "now < u"
proof -
  note p = holds_run_parts [OF h]
  have "issued ANALYZE_PR c (jobs s)" using p(3,4,6,7) by (auto simp: issued_def)
  from analysis_steps_run [OF steps p(10,2) this] obtain r1 where r1: "r1 \<in> set (analysis_runs t)" "ar_id r1 = ar_id r"
      "pull_of r1 = pull_of r" and issued: "issued ANALYZE_PR c (jobs t)" by blast
  have ok: "analysis_state_ok t" using analysis.inv_steps [OF steps p(10)] .
  then have jobs: "jobs_ok (jobs t)" by (simp add: analysis_state_ok_def analysis_inv_parts)
  obtain j1 u where j1: "j1 \<in> set (jobs t)" "job_id j1 = claim_id c" "holds_lease c j1" "job_lease_until j1 = Some u" "now < u"
    using assms(3) by (auto simp: lease_lasts_def)
  then have "carries ANALYZE_PR (ar_id r1) j1" using issued_job [OF jobs issued] r1(2) p(4) by simp
  then have "holds_run c u r1 j1 t"
    using ok r1 j1 p(4,5) by (simp add: holds_run_def pull_of_def)
  then show thesis using r1(2) j1(5) by (rule that)
qed

text \<open>A completion leaves an ended run alone, whether it returns or raises.\<close>

lemma ended_completion:
  assumes "analysis_state_ok s" and "run_ended (claim_aggregate_id c) s"
  shows "snd (transaction analysis_schema (complete_analysis ck c result code retry expired delay) s) = s"
proof (cases "transaction analysis_schema (complete_analysis ck c result code retry expired delay) s")
  case (Pair x s')
  show ?thesis
  proof (cases x)
    case (Inl e)
    then show ?thesis using transaction_raises Pair by fastforce
  next
    case (Inr u)
    then have "complete_analysis ck c result code retry expired delay s = Inr (u, s')"
      using Pair by (simp add: transaction_Inr_iff)
    then have "s' = s"
    proof (cases rule: complete_analysis_Inr)
      case (closed r j j' r' fs gs code' retry')
      obtain q where q: "q \<in> set (analysis_runs s)" "ar_id q = ar_id r" "ar_status q \<in> set terminal_runs"
        using assms(2) closed(2) by (auto simp: run_ended_def)
      moreover have "distinct (map ar_id (analysis_runs s))"
        using assms(1) by (simp add: analysis_state_ok_def analysis_inv_parts)
      ultimately have "q = r" using closed(1) by (metis distinct_key_unique)
      with q(3) closed(3) show ?thesis by simp
    qed simp
    with Pair show ?thesis by simp
  qed
qed

lemma ended_failure:
  assumes "analysis_state_ok s" and "run_ended (claim_aggregate_id c) s"
  shows "snd (analysis_failure ck c e s) = s"
  using ended_completion [OF assms] by (simp add: analysis_failure_def split: prod.split)

text \<open>The part of an execution after the pipeline, on a run that is held or has ended.\<close>

definition record_analysis ::
  "analysis_clock \<Rightarrow> analysis_clock \<Rightarrow> claim \<Rightarrow> exn + analysis_result \<Rightarrow> 'a analysis_tables_scheme \<Rightarrow>
   (exn + unit) \<times> 'a analysis_tables_scheme" where
  "record_analysis ck ck' c outcome s =
     (case outcome of
        Inl e \<Rightarrow> analysis_failure ck' c e s
      | Inr x \<Rightarrow>
          (case transaction analysis_schema (complete_analysis ck c (Some x) None False False 5) s of
             (Inl e, s2) \<Rightarrow> analysis_failure ck' c e s2
           | ok \<Rightarrow> ok))"

lemma record_settles:
  assumes h: "holds_run c until r j s" and late: "\<not> until \<le> ak_fence ck" "\<not> until \<le> ak_fence ck'"
    and coded: "\<And>e. outcome = Inl e \<Longrightarrow> fst (failure_outcome e) \<noteq> []"
  shows "settled (ar_id r) (snd (record_analysis ck ck' c outcome s))"
proof (cases outcome)
  case (Inl e)
  then show ?thesis using failure_settles [OF h late(2) coded [OF Inl]] by (simp add: record_analysis_def)
next
  case result: (Inr y)
  obtain z s2 where completed: "transaction analysis_schema (complete_analysis ck c (Some y) None False False 5) s = (z, s2)"
    by (cases "transaction analysis_schema (complete_analysis ck c (Some y) None False False 5) s") auto
  show ?thesis
  proof (cases z)
    case (Inl e)
    have "s2 = s" by (rule transaction_raises [OF completed [unfolded Inl]])
    moreover have "fst (failure_outcome e) \<noteq> []"
      by (rule coded_transaction [OF coded_complete completed [unfolded Inl]])
    ultimately show ?thesis
      using result completed Inl failure_settles [OF h late(2), of e] by (simp add: record_analysis_def)
  next
    case done_run: (Inr u)
    then have "complete_analysis ck c (Some y) None False False 5 s = Inr (u, s2)"
      using completed by (simp add: transaction_Inr_iff)
    with late(1) have "settled (ar_id r) s2" by (intro complete_settles [OF h, of ck False]) simp_all
    then show ?thesis using result completed done_run by (simp add: record_analysis_def)
  qed
qed

lemma record_ended:
  assumes "analysis_state_ok s" and "run_ended (claim_aggregate_id c) s"
  shows "snd (record_analysis ck ck' c outcome s) = s"
proof (cases outcome)
  case (Inl e)
  then show ?thesis using ended_failure [OF assms] by (simp add: record_analysis_def)
next
  case (Inr y)
  obtain z s2 where completed: "transaction analysis_schema (complete_analysis ck c (Some y) None False False 5) s = (z, s2)"
    by (cases "transaction analysis_schema (complete_analysis ck c (Some y) None False False 5) s") auto
  then have "s2 = s" using ended_completion [OF assms, of ck "Some y" None False False 5] by simp
  then show ?thesis
    using Inr completed ended_failure [OF assms] by (cases z) (simp_all add: record_analysis_def)
qed

text \<open>
  C18. An execution that keeps its lease settles its run. While the pipeline runs, other
  transactions may commit in any number: heartbeats of this claim, a cancellation, requests and
  completions of other runs, writes of other components. Unless the claim has lost its lease
  when the outcome is recorded without the run having ended, then whatever the pipeline returned
  or raised, and even when its rows violate a constraint of the tables, afterwards the run is not
  left in progress: it has ended, or it is pending again and its job is ready to be claimed.
\<close>

theorem execution_settles_run:
  assumes "holds_run c until r j s"
    and "if expired then until \<le> ak_fence ck else now < until"
    and "\<And>task e. analyzed task = Inl e \<Longrightarrow> fst (failure_outcome e) \<noteq> []"
    and "\<And>e t. transaction analysis_schema (begin_analysis build now now' c) s = (Inl e, t) \<Longrightarrow> ak_fence ck' < until"
    and "\<And>task t. transaction analysis_schema (begin_analysis build now now' c) s = (Inr (Some task), t) \<Longrightarrow>
      analysis_step\<^sup>*\<^sup>* t (meanwhile t) \<and>
      (lease_lasts c (max (ak_fence ck) (ak_fence ck')) (meanwhile t) \<or> run_ended (ar_id r) (meanwhile t))"
  shows "settled (ar_id r) (snd (execute_analysis build now now' ck ck' analyzed meanwhile c expired s))"
proof (cases expired)
  case True
  obtain s' where s': "complete_analysis ck c None (Some ''LEASE_EXPIRED'') True expired 5 s = Inr ((), s')" "analysis_schema s'"
    using complete_failure_total [OF assms(1), of ck expired "''LEASE_EXPIRED''"] assms(2) True by auto
  then show ?thesis using complete_settles [OF assms(1) _ s'(1)] assms(2) True
    by (simp add: execute_analysis_def transaction_commit)
next
  case False
  then have late: "\<not> until \<le> now" using assms(2) by simp
  note wid = holds_run_parts(5) [OF assms(1)]
  obtain x s1 where begun: "transaction analysis_schema (begin_analysis build now now' c) s = (x, s1)"
    by (cases "transaction analysis_schema (begin_analysis build now now' c) s") auto
  show ?thesis
  proof (cases x)
    case (Inl e)
    have "s1 = s" by (rule transaction_raises [OF begun [unfolded Inl]])
    moreover have "fst (failure_outcome e) \<noteq> []" by (rule coded_transaction [OF coded_begin begun [unfolded Inl]])
    moreover have "\<not> until \<le> ak_fence ck'" using assms(4) [OF begun [unfolded Inl]] by simp
    ultimately show ?thesis
      using Inl begun False wid failure_settles [OF assms(1), of ck' e] by (simp add: execute_analysis_def)
  next
    case (Inr t)
    with begin_keeps [OF assms(1), of build now now' t s1] begun late obtain task r' where
      t: "t = Some task" and r': "ar_id r' = ar_id r" and h: "holds_run c until r' j s1" by auto
    have run: "execute_analysis build now now' ck ck' analyzed meanwhile c expired s =
        record_analysis ck ck' c (analyzed task) (meanwhile s1)"
      using Inr begun t False wid by (simp add: execute_analysis_def record_analysis_def)
    have steps: "analysis_step\<^sup>*\<^sup>* s1 (meanwhile s1)"
      and kept: "lease_lasts c (max (ak_fence ck) (ak_fence ck')) (meanwhile s1) \<or> run_ended (ar_id r) (meanwhile s1)"
      using assms(5) begun Inr t by blast+
    from kept show ?thesis
    proof
      assume "lease_lasts c (max (ak_fence ck) (ak_fence ck')) (meanwhile s1)"
      with h steps obtain u r1 j1 where h1: "holds_run c u r1 j1 (meanwhile s1)" "ar_id r1 = ar_id r'"
          "max (ak_fence ck) (ak_fence ck') < u"
        by (rule lease_lasts_holds)
      then have "settled (ar_id r1) (snd (record_analysis ck ck' c (analyzed task) (meanwhile s1)))"
        using assms(3) by (intro record_settles) auto
      then show ?thesis using h1(2) r' by (simp add: run)
    next
      assume ended: "run_ended (ar_id r) (meanwhile s1)"
      have "analysis_state_ok (meanwhile s1)"
        using analysis.inv_steps [OF steps] holds_run_parts(10) [OF h] by blast
      with ended holds_run_parts(4) [OF assms(1)] show ?thesis by (simp add: run record_ended ended_settled)
    qed
  qed
qed

definition late_clock :: analysis_clock where
  "late_clock = \<lparr>ak_fence = 6, ak_finish = 6, ak_closed = 6, ak_files = (\<lambda>n. 200 + n), ak_findings = (\<lambda>n. 300 + n)\<rparr>"

text \<open>The worker's heartbeat renews the lease while the pipeline runs into its time limit.\<close>

definition beat :: "analysis_tables \<Rightarrow> analysis_tables" where
  "beat s = snd (transaction analysis_schema (heartbeat 4 5 (claim_of shop_analysis_job ''w'')) s)"

lemma beat_keeps_lease:
  assumes h: "holds_run (claim_of shop_analysis_job ''w'') until r j t" and "6 < until"
  shows "analysis_step\<^sup>*\<^sup>* t (beat t) \<and> lease_lasts (claim_of shop_analysis_job ''w'') 6 (beat t)"
proof -
  let ?c = "claim_of shop_analysis_job ''w''"
  note p = holds_run_parts [OF h]
  have lasts: "lease_lasts ?c 6 t" using p(3,6,8,9) assms(2) by (auto simp: lease_lasts_def)
  obtain x t' where tx: "transaction analysis_schema (heartbeat 4 5 ?c) t = (x, t')"
    by (cases "transaction analysis_schema (heartbeat 4 5 ?c) t") auto
  show ?thesis
  proof (cases x)
    case (Inl e)
    then show ?thesis using lasts transaction_raises [OF tx [unfolded Inl]] tx by (simp add: beat_def)
  next
    case (Inr b)
    then have "analysis_step t t'" using tx by (intro analysis_step.heartbeat) simp
    moreover have "heartbeat 4 5 ?c t = Inr (b, t')" using tx Inr by (simp add: transaction_Inr_iff)
    then have "lease_lasts ?c 6 t'"
    proof (cases rule: heartbeat_Inr)
      case 1
      with lasts show ?thesis by simp
    next
      case (2 k)
      let ?k = "k\<lparr>job_lease_until := Some (5 + seconds 60)\<rparr>"
      have "?k \<in> set (jobs t')" using 2(2) by (auto simp: 2(6) intro!: put_row_mem)
      then show ?thesis using 2(3,4) unfolding lease_lasts_def by (intro bexI [of _ ?k]) (auto simp: holds_lease_def)
    qed
    ultimately show ?thesis using tx by (simp add: beat_def)
  qed
qed

theorem execution_settles_run_witness:
  "settled 80 (snd (execute_analysis (replicate 64 (CHR ''a'')) 3 3 late_clock late_clock (\<lambda>_. Inl TimeoutError) beat
     (claim_of shop_analysis_job ''w'') False shop_busy))"
proof -
  let ?c = "claim_of shop_analysis_job ''w''"
  have h: "holds_run ?c 60000002 shop_analysis shop_analysis_job shop_busy"
    using shop_busy_ok
    by (simp add: holds_run_def shop_busy_def shop_analysis_facts claim_of_def carries_def shop_analysis_job_facts)
      (simp add: holds_lease_def shop_analysis_job_def lease_def new_job_def)
  have beats: "analysis_step\<^sup>*\<^sup>* t (beat t) \<and> lease_lasts ?c 6 (beat t)"
    if "transaction analysis_schema (begin_analysis (replicate 64 (CHR ''a'')) 3 3 ?c) shop_busy = (Inr (Some task), t)" for task t
    using begin_keeps [OF h that] beat_keeps_lease [of 60000002 _ shop_analysis_job t] by auto
  have "settled (ar_id shop_analysis) (snd (execute_analysis (replicate 64 (CHR ''a'')) 3 3 late_clock late_clock
      (\<lambda>_. Inl TimeoutError) beat ?c False shop_busy))"
    by (rule execution_settles_run [OF h]) (use beats in \<open>auto simp: late_clock_def\<close>)
  then show ?thesis by (simp add: shop_analysis_facts)
qed

subsection \<open>The rows of a result fit the tables\<close>

lemma int_text_no_comma:
  assumes "0 \<le> n"
  shows "CHR '','' \<notin> set (int_text n)"
proof -
  have "\<not> is_digit (CHR '','')" by code_simp
  then have none: "CHR '','' \<notin> set (digits m)" for m using digits_digits by blast
  have "int_text n = digits (nat n)" using assms by (simp add: int_text_def)
  then show ?thesis by (rule ssubst) (rule none)
qed

lemma int_text_inj: "0 \<le> m \<Longrightarrow> 0 \<le> n \<Longrightarrow> int_text m = int_text n \<longleftrightarrow> m = n"
  by (metis option.inject parse_int_text)

lemma fingerprint_text_inj:
  assumes "0 \<le> a" and "0 \<le> b" and "0 \<le> a'" and "0 \<le> b'"
  shows "fingerprint_text r p a b = fingerprint_text r' p' a' b' \<longleftrightarrow> (r, p, a, b) = (r', p', a', b')"
proof
  assume "fingerprint_text r p a b = fingerprint_text r' p' a' b'"
  then have rest: "r = r'" "p = p'" "int_text a @ CHR '','' # int_text b = int_text a' @ CHR '','' # int_text b'"
    by (simp_all add: fingerprint_text_def json_quote_append)
  then have "int_text a = int_text a'" "int_text b = int_text b'"
    using append_Cons_eq_iff [OF int_text_no_comma int_text_no_comma, OF assms(1,2)] by simp_all
  with rest(1,2) show "(r, p, a, b) = (r', p', a', b')" using int_text_inj assms by simp
qed simp

text \<open>What a finding is: its rule, path and lines.\<close>

definition place :: "finding_data \<Rightarrow> string \<times> string \<times> int \<times> int" where
  "place g = (fn_rule_id g, fn_file_path g, fn_start_line g, fn_end_line g)"

definition place_text :: "finding_data \<Rightarrow> string" where
  "place_text g = fingerprint_text (fn_rule_id g) (fn_file_path g) (fn_start_line g) (fn_end_line g)"

lemma rule_of_id: "rule_of i = Inr x \<Longrightarrow> rule_id x = i"
  by (auto simp: rule_of_def find_rule_def split: option.splits dest!: find_SomeD)

lemma finding_of_Inr:
  assumes "finding_of sv path ranges e f = Inr g"
  shows "place g = (ob_rule f, path, ob_start f, ob_end f)" "fn_fingerprint g = sv_sha256 sv (place_text g)"
  using assms by (auto simp: finding_of_def place_def place_text_def map_sum_def rule_of_id split: sum.splits dest: rule_of_id)

lemma finding_places:
  assumes "collect_results (finding_of sv path ranges e) obs = Inr found"
  shows "map place found = map (\<lambda>f. (ob_rule f, path, ob_start f, ob_end f)) obs"
    "\<forall>g \<in> set found. fn_fingerprint g = sv_sha256 sv (place_text g)"
proof -
  have "list_all2 (\<lambda>f g. finding_of sv path ranges e f = Inr g) obs found" using assms by (rule collect_results_Inr)
  then show "map place found = map (\<lambda>f. (ob_rule f, path, ob_start f, ob_end f)) obs"
    "\<forall>g \<in> set found. fn_fingerprint g = sv_sha256 sv (place_text g)"
    by (induction obs found rule: list_all2_induct) (auto dest: finding_of_Inr)
qed

text \<open>The bytes of the outcomes of a file.\<close>

lemma raw_quote_length:
  assumes "length s \<le> n"
  shows "length (raw_quote s) \<le> 2 + 6 * n"
proof -
  have "length (raw_char c) \<le> 6" for c by (simp add: raw_char_def Let_def)
  then have "length (concat (map raw_char s)) \<le> 6 * length s"
    by (induction s) (simp_all add: add_mono)
  with assms show ?thesis by (simp add: raw_quote_def)
qed

lemma utf8_length: "length (utf8 s) \<le> 2 * length s"
  by (induction s) (simp_all add: utf8_def Let_def)

lemma separated_bound: "(\<And>x. x \<in> set xs \<Longrightarrow> length x \<le> k) \<Longrightarrow> length (separated xs) \<le> length xs * (k + 2)"
proof (induction xs rule: separated.induct)
  case (3 x y ys)
  then have "length x \<le> k" "length (separated (y # ys)) \<le> length (y # ys) * (k + 2)" by simp_all
  then show ?case by simp
qed auto

lemma outcome_length:
  assumes "length (oc_rule_id oc) \<le> 16" and "length (oc_rule_version oc) \<le> 8"
    and "case oc_reason_code oc of None \<Rightarrow> True | Some r \<Rightarrow> length r \<le> 64"
  shows "length (dumps (rule_outcome_json oc)) \<le> 900"
proof -
  have keys: "length (raw_quote ''status'') \<le> 38" "length (raw_quote ''rule_id'') \<le> 44"
    "length (raw_quote ''reason_code'') \<le> 68" "length (raw_quote ''rule_version'') \<le> 74"
    by (rule order_trans [OF raw_quote_length], rule order_refl, simp)+
  have "length (raw_quote (if oc_evaluated oc then ''EVALUATED'' else ''NOT_EVALUATED'')) \<le> 80"
    by (rule order_trans [OF raw_quote_length [where n = 13]]) simp_all
  moreover have "length (raw_quote (oc_rule_id oc)) \<le> 98" "length (raw_quote (oc_rule_version oc)) \<le> 50"
    using raw_quote_length [OF assms(1)] raw_quote_length [OF assms(2)] by simp_all
  moreover have "length (dumps (case oc_reason_code oc of None \<Rightarrow> JNull | Some r \<Rightarrow> JStr r)) \<le> 386"
    using assms(3) raw_quote_length [where n = 64] by (auto split: option.splits)
  ultimately show ?thesis using keys by (simp add: rule_outcome_json_def)
qed

lemma rules_short: "x \<in> set rules \<Longrightarrow> length (rule_id x) \<le> 16 \<and> length (rule_version x) \<le> 8"
  by (auto simp: rules_def mk_rule_def)

lemma rule_of_known: "rule_of i = Inr x \<Longrightarrow> x \<in> set rules"
  by (auto simp: rule_of_def find_rule_def split: option.splits dest!: find_SomeD)

lemma outcomes_fit:
  assumes "collect_results (outcome_of e) (applicable l) = Inr ocs" and "short_reason e"
  shows "wire_size (JArr (map rule_outcome_json ocs)) \<le> 65536"
proof -
  have outcomes: "list_all2 (\<lambda>r oc. outcome_of e r = Inr oc) (applicable l) ocs" using assms(1) by (rule collect_results_Inr)
  have "length (applicable l) \<le> length rules"
    unfolding applicable_def by (metis length_filter_le length_map)
  moreover have "length rules \<le> 32" by (simp add: rules_def)
  ultimately have count: "length ocs \<le> 32" using list_all2_lengthD [OF outcomes] by simp
  have "length (dumps (rule_outcome_json oc)) \<le> 900" if oc_in: "oc \<in> set ocs" for oc
  proof -
    obtain r where "outcome_of e r = Inr oc"
      using list_all2_source [OF outcomes oc_in] by blast
    then obtain x where r: "rule_of r = Inr x" and oc: "oc = \<lparr>oc_rule_id = r, oc_rule_version = rule_version x,
        oc_evaluated = (r \<in> set (ev_evaluated e)), oc_reason_code = (if r \<in> set (ev_evaluated e) then None else ev_reason e)\<rparr>"
      by (cases "rule_of r") (simp_all add: outcome_of_def)
    have "length r \<le> 16" "length (rule_version x) \<le> 8"
      using rules_short [OF rule_of_known [OF r]] rule_of_id [OF r] by auto
    then show ?thesis using assms(2) by (intro outcome_length) (auto simp: oc short_reason_def split: option.splits)
  qed
  then have "length (separated (map dumps (map rule_outcome_json ocs))) \<le> length ocs * 902"
    using separated_bound [of "map dumps (map rule_outcome_json ocs)" 900] by auto
  then have "length (dumps (JArr (map rule_outcome_json ocs))) \<le> 32 * 902 + 2" using count by simp
  then show ?thesis using utf8_length [of "dumps (JArr (map rule_outcome_json ocs))"] by (simp add: wire_size_def)
qed

lemma finding_texts:
  assumes "collect_results (finding_of sv path ranges e) obs = Inr found" and "g \<in> set found"
  shows "length (fn_rule_id g) \<le> 16 \<and> length (fn_rule_version g) \<le> 8 \<and> length (fn_message_code g) \<le> 16"
proof -
  have "list_all2 (\<lambda>f g. finding_of sv path ranges e f = Inr g) obs found" using assms(1) by (rule collect_results_Inr)
  from list_all2_source [OF this assms(2)] obtain f where "finding_of sv path ranges e f = Inr g" by blast
  then obtain x where "rule_of (ob_rule f) = Inr x" "fn_rule_id g = rule_id x" "fn_rule_version g = rule_version x"
      "fn_message_code g = rule_id x"
    by (auto simp: finding_of_def map_sum_def split: sum.splits)
  with rules_short [OF rule_of_known] show ?thesis by simp
qed

lemma safe_path_ok: "safe_path v = Inr path \<Longrightarrow> path_ok path"
  by (auto simp: safe_path_def path_ok_def split: option.splits if_splits)

text \<open>The findings of one file: well placed in it, and in different places.\<close>

definition finding_fits :: "'w services \<Rightarrow> string \<Rightarrow> finding_data \<Rightarrow> bool" where
  "finding_fits sv path g \<longleftrightarrow>
     fn_file_path g = path \<and> path_ok path \<and> 1 \<le> fn_start_line g \<and> fn_start_line g \<le> fn_end_line g \<and>
     length (fn_rule_id g) \<le> 16 \<and> length (fn_rule_version g) \<le> 8 \<and> length (fn_message_code g) \<le> 16 \<and>
     fn_fingerprint g = sv_sha256 sv (place_text g)"

lemma reported_fits:
  assumes "reported sv f found"
  shows "path_ok (fd_file_path f)" "fd_path_digest f = sv_sha256 sv (json_quote (fd_file_path f))"
    "distinct (map place found)" "\<forall>g \<in> set found. finding_fits sv (fd_file_path f) g"
    "wire_size (JArr (map rule_outcome_json (fd_rule_outcomes f))) \<le> 65536" "source_id_ok (fd_source_sha f)"
    "case fd_reason_code f of None \<Rightarrow> True | Some r \<Rightarrow> length r \<le> 64"
proof -
  obtain path change e sha outcomes ranges where path: "safe_path (json_get ''filename'' change) = Inr path"
    and e: "sound_evaluation path e" and found: "collect_results (finding_of sv path ranges e) (ev_findings e) = Inr found"
    and outcomes: "collect_results (outcome_of e) (applicable (ev_language e)) = Inr outcomes" and sha: "source_id_ok sha"
    and f: "f = file_of sv path change e sha outcomes"
    using assms by (auto simp: reported_def)
  have short: "short_reason e" using e by (simp add: sound_evaluation_def)
  show "wire_size (JArr (map rule_outcome_json (fd_rule_outcomes f))) \<le> 65536"
    using outcomes_fit [OF outcomes short] by (simp add: f file_of_def)
  show "source_id_ok (fd_source_sha f)" "case fd_reason_code f of None \<Rightarrow> True | Some r \<Rightarrow> length r \<le> 64"
    using sha short by (simp_all add: f file_of_def short_reason_def)
  show ok: "path_ok (fd_file_path f)" using safe_path_ok [OF path] by (simp add: f file_of_def)
  show "fd_path_digest f = sv_sha256 sv (json_quote (fd_file_path f))" by (simp add: f file_of_def)
  have "inj_on (\<lambda>o'. (ob_rule o', path, ob_start o', ob_end o')) A" for A :: "observation set"
    by (rule inj_onI) simp
  then show "distinct (map place found)"
    using e unfolding finding_places(1) [OF found] distinct_map sound_evaluation_def by blast
  show "\<forall>g \<in> set found. finding_fits sv (fd_file_path f) g"
  proof
    fix g assume g: "g \<in> set found"
    then have "place g \<in> set (map place found)" by simp
    then obtain ob where ob: "ob \<in> set (ev_findings e)" "place g = (ob_rule ob, path, ob_start ob, ob_end ob)"
      unfolding finding_places(1) [OF found] by auto
    then have "1 \<le> ob_start ob" "ob_start ob \<le> ob_end ob"
      using e by (auto simp: sound_evaluation_def list_all_iff observation_ok_def known_observation_def)
    moreover have "length (fn_rule_id g) \<le> 16 \<and> length (fn_rule_version g) \<le> 8 \<and> length (fn_message_code g) \<le> 16"
      using finding_texts [OF found] g by blast
    ultimately show "finding_fits sv (fd_file_path f) g"
      using ob ok g finding_places(2) [OF found] by (simp add: finding_fits_def place_def f file_of_def)
  qed
qed

lemma places_distinct:
  "list_all2 (reported sv) fs found \<Longrightarrow> distinct (map fd_file_path fs) \<Longrightarrow>
   distinct (map place (concat found)) \<and> (\<forall>g \<in> set (concat found). \<exists>f \<in> set fs. finding_fits sv (fd_file_path f) g)"
proof (induction fs found rule: list_all2_induct)
  case (Cons f fs g gs)
  have later: "fn_file_path x \<noteq> fn_file_path y" if "x \<in> set g" "y \<in> set (concat gs)" for x y
    using that Cons reported_fits(4) [OF Cons.hyps(1)] by (fastforce simp: finding_fits_def)
  have "set (map place g) \<inter> set (map place (concat gs)) = {}"
    using later by (fastforce simp: place_def)
  with Cons reported_fits(3,4) [OF Cons.hyps(1)] show ?case by auto
qed simp

lemma rows_distinct:
  "inj keys \<Longrightarrow> distinct (map (\<lambda>(n, x). keys n) (enumerate k xs))"
  by (induction xs arbitrary: k) (auto simp: in_set_enumerate_eq inj_eq)

lemma distinct_pairs: "distinct (map (Pair i) zs) = distinct zs"
  by (simp add: distinct_map inj_on_def)

lemma result_reports:
  assumes "analyze sv repo snap ignored w = (Inr x, w')"
  obtains found where "list_all2 (reported sv) (an_files x) found" "an_findings x = concat found"
    "distinct (map fd_file_path (an_files x))"
proof -
  obtain count rp where x: "x = result_of_report count rp" and ok: "report_ok sv rp" by (rule analyze_report [OF assms])
  have rows: "an_files x = rp_files rp" "an_findings x = rp_findings rp"
    by (simp_all add: x result_of_report_def Let_def)
  from ok obtain found where "list_all2 (reported sv) (an_files x) found" "an_findings x = concat found"
    unfolding report_ok_def rows by blast
  moreover have "distinct (map fd_file_path (an_files x))"
    using ok unfolding report_ok_def rows by (metis distinct_rev)
  ultimately show thesis by (rule that)
qed

text \<open>The texts that are hashed for the rows of a result.\<close>

definition hashed_texts :: "analysis_result \<Rightarrow> string set" where
  "hashed_texts x = (\<lambda>f. json_quote (fd_file_path f)) ` set (an_files x) \<union> place_text ` set (an_findings x)"

lemma distinct_hashed:
  assumes "distinct (map key xs)" and "inj_on h (tx ` set xs)" and "\<And>x. x \<in> set xs \<Longrightarrow> d x = h (tx x)"
    and "\<And>x y. x \<in> set xs \<Longrightarrow> y \<in> set xs \<Longrightarrow> tx x = tx y \<Longrightarrow> key x = key y"
  shows "distinct (map d xs)"
proof -
  have "inj_on key (set xs)" "distinct xs" using assms(1) by (simp_all add: distinct_map)
  moreover have "inj_on d (set xs)"
  proof (rule inj_onI)
    fix x y assume x: "x \<in> set xs" "y \<in> set xs" "d x = d y"
    then have "tx x = tx y" using assms(2,3) by (metis imageI inj_onD)
    then have "key x = key y" using assms(4) x by blast
    then show "x = y" using \<open>inj_on key (set xs)\<close> x by (metis inj_onD)
  qed
  ultimately show ?thesis by (simp add: distinct_map)
qed

lemma file_rows_fit:
  assumes "analyze sv repo snap ignored w = (Inr x, w')" and "\<And>t. is_hex 64 (sv_sha256 sv t)"
    and "inj_on (sv_sha256 sv) (hashed_texts x)" and "inj fkeys"
  shows "file_rows_ok (file_rows fkeys r (an_files x))"
proof -
  obtain found where rep: "list_all2 (reported sv) (an_files x) found"
    and paths: "distinct (map fd_file_path (an_files x))" by (rule result_reports [OF assms(1)])
  have row: "path_ok (fd_file_path f) \<and> fd_path_digest f = sv_sha256 sv (json_quote (fd_file_path f)) \<and>
      wire_size (JArr (map rule_outcome_json (fd_rule_outcomes f))) \<le> 65536 \<and>
      (case fd_source_sha f of None \<Rightarrow> True | Some sha \<Rightarrow> length sha \<le> 40) \<and>
      (case fd_reason_code f of None \<Rightarrow> True | Some r \<Rightarrow> length r \<le> 64)"
    if f: "f \<in> set (an_files x)" for f
  proof -
    obtain g where g: "reported sv f g" using rep f by (metis in_set_conv_nth list_all2_nthD)
    then have "case fd_source_sha f of None \<Rightarrow> True | Some sha \<Rightarrow> length sha \<le> 40"
      using reported_fits(6) [OF g] by (auto simp: source_id_ok_def is_hex_def split: option.splits)
    then show ?thesis using reported_fits(1,2,5,7) [OF g] by simp
  qed
  have "distinct (map fd_path_digest (an_files x))"
    using row by (intro distinct_hashed [where tx = "\<lambda>f. json_quote (fd_file_path f)", OF paths inj_on_subset [OF assms(3)]])
      (auto simp: hashed_texts_def json_quote_inj)
  then have digests: "distinct (map (\<lambda>f. (fd_side f, fd_path_digest f)) (an_files x))"
    by (auto simp: distinct_map inj_on_def)
  have ids: "map af_id (file_rows fkeys r (an_files x)) = map (\<lambda>(n, f). fkeys n) (enumerate 0 (an_files x))"
    by (auto simp: file_rows_def)
  have "map (\<lambda>f. (af_analysis_id f, fd_side (af_data f), fd_path_digest (af_data f))) (file_rows fkeys r (an_files x)) =
      map (Pair (ar_id r)) (map (\<lambda>f. (fd_side f, fd_path_digest f)) (map snd (enumerate 0 (an_files x))))"
    by (auto simp: file_rows_def simp del: map_snd_enumerate)
  also have "distinct \<dots>" by (simp only: distinct_pairs map_snd_enumerate digests)
  finally show ?thesis
    using rows_distinct [OF assms(4)] row assms(2) unfolding file_rows_ok_def ids
    by (auto simp: list_all_iff file_row_ok_def file_rows_def in_set_enumerate_eq)
qed

lemma finding_rows_fit:
  assumes "analyze sv repo snap ignored w = (Inr x, w')" and "\<And>t. is_hex 64 (sv_sha256 sv t)"
    and "inj_on (sv_sha256 sv) (hashed_texts x)" and "inj gkeys"
  shows "finding_rows_ok (finding_rows gkeys r (an_findings x))"
proof -
  obtain found where rep: "list_all2 (reported sv) (an_files x) found" and found: "an_findings x = concat found"
    and paths: "distinct (map fd_file_path (an_files x))" by (rule result_reports [OF assms(1)])
  have places: "distinct (map place (an_findings x))" and fits: "\<forall>g \<in> set (an_findings x). \<exists>p. finding_fits sv p g"
    using places_distinct [OF rep paths] unfolding found by blast+
  have prints: "distinct (map fn_fingerprint (an_findings x))"
  proof (rule distinct_hashed [where tx = place_text, OF places inj_on_subset [OF assms(3)]])
    show "place g = place h" if "g \<in> set (an_findings x)" "h \<in> set (an_findings x)" "place_text g = place_text h" for g h
    proof -
      have "0 \<le> fn_start_line g" "0 \<le> fn_end_line g" "0 \<le> fn_start_line h" "0 \<le> fn_end_line h"
        using fits that(1,2) by (fastforce simp: finding_fits_def)+
      from fingerprint_text_inj [OF this] that(3) show ?thesis by (simp add: place_text_def place_def)
    qed
  qed (use fits in \<open>auto simp: hashed_texts_def finding_fits_def\<close>)
  have ids: "map fg_id (finding_rows gkeys r (an_findings x)) = map (\<lambda>(n, f). gkeys n) (enumerate 0 (an_findings x))"
    by (auto simp: finding_rows_def)
  have "map (\<lambda>f. (fg_analysis_id f, fn_fingerprint (fg_data f))) (finding_rows gkeys r (an_findings x)) =
      map (Pair (ar_id r)) (map fn_fingerprint (map snd (enumerate 0 (an_findings x))))"
    by (auto simp: finding_rows_def simp del: map_snd_enumerate)
  also have "distinct \<dots>" by (simp only: distinct_pairs map_snd_enumerate prints)
  moreover have "finding_row_ok g" if "g \<in> set (finding_rows gkeys r (an_findings x))" for g
  proof -
    from that have "fg_data g \<in> set (an_findings x)" by (auto simp: finding_rows_def in_set_enumerate_eq)
    then show ?thesis using fits assms(2) by (fastforce simp: finding_row_ok_def finding_fits_def)
  qed
  ultimately show ?thesis
    using rows_distinct [OF assms(4)] unfolding finding_rows_ok_def ids by (simp add: list_all_iff)
qed

text \<open>
  C19. The result of an analysis fits the tables. Whatever GitHub and the parser processes return,
  the rows that a completion adds have distinct keys and satisfy the checks and unique constraints
  on files and findings: paths of 1 to 4096 bytes, digests of 64 hexadecimal digits, rule outcomes
  whose JSON text takes at most 65536 bytes, line ranges from 1 on, one row per file and side, one
  row per fingerprint; and the texts fit their columns (40 characters for the object id of the
  source, 64 for the reason, the rule, its version and the message code). The checks on enumerated
  columns hold by the types. The hash is one that gives 64 hexadecimal digits without a collision
  among the texts of this result, and the keys drawn are fresh; the column of the message text,
  which the model does not carry, is left out.
\<close>

theorem result_rows_fit:
  assumes "analyze sv repo snap ignored w = (Inr x, w')" and "\<And>t. is_hex 64 (sv_sha256 sv t)"
    and "inj_on (sv_sha256 sv) (hashed_texts x)" and "inj fkeys" and "inj gkeys"
  shows "file_rows_ok (file_rows fkeys r (an_files x)) \<and> finding_rows_ok (finding_rows gkeys r (an_findings x))"
  using file_rows_fit [OF assms(1-4)] finding_rows_fit [OF assms(1-3,5)] ..

theorem result_rows_fit_witness:
  "file_rows_ok (file_rows (\<lambda>n. 200 + n) shop_analysis (an_files sample_result)) \<and>
   finding_rows_ok (finding_rows (\<lambda>n. 300 + n) shop_analysis (an_findings sample_result))"
proof -
  have hex: "is_hex 64 (sv_sha256 sample_services t)" for t
    by (simp add: sample_services_def sample_hash_def hex_chars_def)
  have "map (\<lambda>f. json_quote (fd_file_path f)) (an_files sample_result) = [json_quote ''a.ts'']" by code_simp
  moreover have "list_all (\<lambda>t. t \<noteq> json_quote ''a.ts'') (map place_text (an_findings sample_result))" by code_simp
  moreover have "length (an_findings sample_result) = 1" by code_simp
  ultimately obtain t where "hashed_texts sample_result = {json_quote ''a.ts'', t}" "t \<noteq> json_quote ''a.ts''"
    by (auto simp: hashed_texts_def length_Suc_conv simp flip: set_map)
  then have "inj_on (sv_sha256 sample_services) (hashed_texts sample_result)"
    by (auto simp: inj_on_def sample_services_def sample_hash_def)
  show ?thesis by (rule result_rows_fit [OF sample_analysis hex \<open>inj_on _ _\<close>]) (simp_all add: inj_def)
qed

end
