(* ===== verification/Webhooks.thy ===== *)
theory Webhooks
  imports Pull_Requests
begin

section \<open>Webhook deliveries\<close>

text \<open>
  \<^verbatim>\<open>app/domain/webhook\<close>: the validation of a delivery (\<^verbatim>\<open>verifier.py\<close>), the route
  that receives it (\<^verbatim>\<open>router.py\<close>), the table of deliveries (\<^verbatim>\<open>models.py\<close>,
  \<^verbatim>\<open>repository.py\<close>), the transaction that records a delivery once and enqueues its job, and
  the worker (\<^verbatim>\<open>service.py\<close>). The bytes of a body are characters. HMAC and SHA-256 (hex
  digests) and the JSON decoder are parameters.
\<close>

subsection \<open>Validation\<close>

definition max_body :: nat where
  "max_body = 1024 * 1024"

definition pr_actions :: "string list" where
  "pr_actions =
     [''opened'', ''reopened'', ''synchronize'', ''ready_for_review'', ''converted_to_draft'',
      ''closed'', ''edited'']"

record hook_event =
  he_delivery_id :: string
  he_event :: string
  he_action :: string
  he_installation_id :: int
  he_repository_id :: "int option"
  he_number :: "int option"
  he_affected :: "int list"
  he_digest :: string

definition positive :: "json \<Rightarrow> exn + int" where
  "positive v =
     (case as_int v of
        None \<Rightarrow> Inl (ValueError [])
      | Some n \<Rightarrow> if 0 < n \<and> n < 2 ^ 63 then Inr n else Inl (ValueError []))"

text \<open>\<open>v[k]\<close> for a string key: only an object has such an item.\<close>

fun subscript :: "string \<Rightarrow> json \<Rightarrow> exn + json" where
  "subscript k (JObj kvs) = (case lookup_last k kvs of None \<Rightarrow> Inl KeyError | Some v \<Rightarrow> Inr v)"
| "subscript k _ = Inl TypeError"

fun removed_ids :: "json list \<Rightarrow> exn + int list" where
  "removed_ids [] = Inr []"
| "removed_ids (item # rest) =
     proceed (proceed (subscript ''id'' item) positive) (\<lambda>n.
     proceed (removed_ids rest) (\<lambda>ns. Inr (n # ns)))"

definition allowed_actions :: "string \<Rightarrow> string list" where
  "allowed_actions event =
     (if event = ''pull_request'' then pr_actions
      else if event = ''installation'' then [''deleted'', ''suspend'']
      else [''removed''])"

text \<open>The repository, the number and the affected repositories of a payload.\<close>

definition event_targets :: "string \<Rightarrow> json \<Rightarrow> exn + int option \<times> int option \<times> int list" where
  "event_targets event data =
     (if event = ''pull_request'' then
        proceed (proceed (proceed (subscript ''repository'' data) (subscript ''id'')) positive) (\<lambda>rid.
        proceed (proceed (subscript ''number'' data) positive) (\<lambda>number.
        if number > 2 ^ 31 - 1 then Inl (ValueError []) else Inr (Some rid, Some number, [])))
      else if event = ''installation_repositories'' then
        proceed (subscript ''repositories_removed'' data) (\<lambda>removed.
        case as_arr removed of
          None \<Rightarrow> Inl (ValueError [])
        | Some items \<Rightarrow>
            if length items > 10000 then Inl (ValueError [])
            else proceed (removed_ids items) (\<lambda>ids. Inr (None, None, sort (remdups ids))))
      else Inr (None, None, []))"

definition read_event ::
  "(string \<Rightarrow> exn + json) \<Rightarrow> (string \<Rightarrow> string) \<Rightarrow> string \<Rightarrow> string \<Rightarrow> string \<Rightarrow> exn + hook_event option" where
  "read_event loads sha body delivery event =
     proceed (loads body) (\<lambda>data.
     proceed (subscript ''action'' data) (\<lambda>act.
     case as_str act of
       None \<Rightarrow> Inr None
     | Some action \<Rightarrow>
         if action \<notin> set (allowed_actions event) then Inr None
         else
           proceed (proceed (proceed (subscript ''installation'' data) (subscript ''id'')) positive) (\<lambda>installation.
           proceed (event_targets event data) (\<lambda>(rid, number, affected).
           Inr (Some \<lparr>he_delivery_id = delivery, he_event = event, he_action = action,
                      he_installation_id = installation, he_repository_id = rid, he_number = number,
                      he_affected = affected, he_digest = sha body\<rparr>)))))"

text \<open>\<open>except (ValueError, KeyError, TypeError, RecursionError)\<close>\<close>

fun payload_error :: "exn \<Rightarrow> exn" where
  "payload_error (ValueError m) = WebhookRejected ''WEBHOOK_PAYLOAD_INVALID''"
| "payload_error KeyError = WebhookRejected ''WEBHOOK_PAYLOAD_INVALID''"
| "payload_error TypeError = WebhookRejected ''WEBHOOK_PAYLOAD_INVALID''"
| "payload_error RecursionError = WebhookRejected ''WEBHOOK_PAYLOAD_INVALID''"
| "payload_error e = e"

definition signature_shape :: "string \<Rightarrow> bool" where
  "signature_shape x \<longleftrightarrow> take 7 x = ''sha256='' \<and> is_hex 64 (drop 7 x)"

definition delivery_char :: "char \<Rightarrow> bool" where
  "delivery_char c \<longleftrightarrow>
     (let n = of_char c :: nat in
      65 \<le> n \<and> n \<le> 90 \<or> 97 \<le> n \<and> n \<le> 122 \<or> 48 \<le> n \<and> n \<le> 57 \<or> n = 95 \<or> n = 45)"

definition delivery_shape :: "string \<Rightarrow> bool" where
  "delivery_shape x \<longleftrightarrow> 1 \<le> length x \<and> length x \<le> 128 \<and> list_all delivery_char x"

definition hook_events :: "string list" where
  "hook_events = [''pull_request'', ''installation'', ''installation_repositories'']"

definition verify_delivery ::
  "(string \<Rightarrow> exn + json) \<Rightarrow> (string \<Rightarrow> string \<Rightarrow> string) \<Rightarrow> (string \<Rightarrow> string) \<Rightarrow>
   string \<Rightarrow> string \<Rightarrow> string \<Rightarrow> string \<Rightarrow> string \<Rightarrow> exn + hook_event option" where
  "verify_delivery loads hmac sha body signature secret delivery event =
     (if length body > max_body then Inl (WebhookRejected ''WEBHOOK_BODY_TOO_LARGE'')
      else if \<not> signature_shape signature \<or> signature \<noteq> ''sha256='' @ hmac secret body
      then Inl (WebhookRejected ''WEBHOOK_SIGNATURE_INVALID'')
      else if \<not> delivery_shape delivery then Inl (WebhookRejected ''WEBHOOK_DELIVERY_INVALID'')
      else if event \<notin> set hook_events then Inr None
      else (case read_event loads sha body delivery event of
              Inl e \<Rightarrow> Inl (payload_error e)
            | Inr ev \<Rightarrow> Inr ev))"

subsection \<open>The table\<close>

datatype delivery_status =
  WH_PENDING | WH_PROCESSING | WH_PROCESSED | WH_FAILED | WH_CANCELED | WH_IGNORED

record webhook_delivery =
  wd_id :: uuid
  wd_provider :: string
  wd_delivery_id :: string
  wd_event :: string
  wd_action :: "string option"
  wd_installation_id :: int
  wd_github_repository_id :: "int option"
  wd_pr_number :: "int option"
  wd_workspace_id :: "uuid option"
  wd_connection_id :: "uuid option"
  wd_generation :: "int option"
  wd_affected :: "int list"
  wd_body_digest :: string
  wd_status :: delivery_status
  wd_received_at :: datetime
  wd_processed_at :: "datetime option"
  wd_error_code :: "string option"

record webhook_tables = pull_tables +
  deliveries :: "webhook_delivery list"

text \<open>A comparison with \<open>NULL\<close> is unknown, and an unknown check does not reject the row.\<close>

definition null_or_positive :: "int option \<Rightarrow> bool" where
  "null_or_positive x = (case x of None \<Rightarrow> True | Some n \<Rightarrow> 0 < n)"

definition delivery_row_ok :: "webhook_delivery \<Rightarrow> bool" where
  "delivery_row_ok d \<longleftrightarrow>
     wd_provider d = ''GITHUB'' \<and> 0 < wd_installation_id d \<and>
     wd_event d \<in> set hook_events \<and>
     null_or_positive (wd_github_repository_id d) \<and> null_or_positive (wd_pr_number d) \<and>
     null_or_positive (wd_generation d) \<and>
     (wd_workspace_id d = None \<and> wd_connection_id d = None \<and> wd_generation d = None \<or>
      wd_workspace_id d \<noteq> None \<and> wd_connection_id d \<noteq> None \<and> wd_generation d \<noteq> None) \<and>
     (wd_event d \<noteq> ''pull_request'' \<or>
      wd_workspace_id d \<noteq> None \<and> wd_github_repository_id d \<noteq> None \<and> wd_pr_number d \<noteq> None) \<and>
     (wd_status d \<in> {WH_PROCESSED, WH_FAILED, WH_CANCELED, WH_IGNORED}) = (wd_processed_at d \<noteq> None) \<and>
     is_hex 64 (wd_body_digest d)"

definition deliveries_ok :: "webhook_delivery list \<Rightarrow> bool" where
  "deliveries_ok ds \<longleftrightarrow>
     distinct (map wd_id ds) \<and> distinct (map (\<lambda>d. (wd_provider d, wd_delivery_id d)) ds) \<and>
     list_all delivery_row_ok ds"

definition webhook_schema :: "'a webhook_tables_scheme \<Rightarrow> bool" where
  "webhook_schema s \<longleftrightarrow> pull_schema s \<and> deliveries_ok (deliveries s)"

interpretation delivery_store: row_store deliveries deliveries_update wd_id
  by unfold_locales simp_all

subsection \<open>Queries\<close>

text \<open>
  A row that another transaction commits after the query (\<open>unseen\<close>, by id) is not in its answer.
\<close>

definition by_delivery ::
  "uuid list \<Rightarrow> string \<Rightarrow> ('a webhook_tables_scheme, webhook_delivery option) txn" where
  "by_delivery unseen delivery =
     select_one deliveries (\<lambda>d. wd_provider d = ''GITHUB'' \<and> wd_delivery_id d = delivery \<and>
       wd_id d \<notin> set unseen)"

definition get_delivery :: "uuid \<Rightarrow> ('a webhook_tables_scheme, webhook_delivery option) txn" where
  "get_delivery did = select_one deliveries (\<lambda>d. wd_id d = did)"

definition new_delivery ::
  "datetime \<Rightarrow> uuid \<Rightarrow> hook_event \<Rightarrow> repository_snapshot option \<Rightarrow> webhook_delivery" where
  "new_delivery db_now did ev repo =
     \<lparr>wd_id = did, wd_provider = ''GITHUB'', wd_delivery_id = he_delivery_id ev,
      wd_event = he_event ev, wd_action = Some (he_action ev),
      wd_installation_id = he_installation_id ev,
      wd_github_repository_id = he_repository_id ev, wd_pr_number = he_number ev,
      wd_workspace_id = map_option rs_workspace_id repo, wd_connection_id = map_option rs_repo_id repo,
      wd_generation = map_option rs_generation repo, wd_affected = he_affected ev,
      wd_body_digest = he_digest ev, wd_status = WH_PENDING, wd_received_at = db_now,
      wd_processed_at = None, wd_error_code = None\<rparr>"

text \<open>\<open>insert ... on conflict (provider, delivery_id) do nothing returning id\<close>\<close>

definition add_delivery ::
  "datetime \<Rightarrow> uuid \<Rightarrow> hook_event \<Rightarrow> repository_snapshot option \<Rightarrow>
   ('a webhook_tables_scheme, uuid option) txn" where
  "add_delivery db_now did ev repo =
     (let d = new_delivery db_now did ev repo in
      bind (gets (\<lambda>s. \<exists>x \<in> set (deliveries s). wd_provider x = wd_provider d \<and> wd_delivery_id x = wd_delivery_id d)) (\<lambda>taken.
      if taken then ret None
      else bind (add_row deliveries_update d) (\<lambda>_. bind (flush webhook_schema) (\<lambda>_. ret (Some did)))))"

subsection \<open>Receiving\<close>

definition delivery_mismatch :: exn where
  "delivery_mismatch = WebhookRejected ''WEBHOOK_DELIVERY_MISMATCH''"

text \<open>A known delivery is answered without effect, unless it carries something else.\<close>

definition same_delivery :: "hook_event \<Rightarrow> webhook_delivery \<Rightarrow> ('s, int) txn" where
  "same_delivery ev d =
     (if wd_body_digest d \<noteq> he_digest ev \<or> wd_event d \<noteq> he_event ev then raise delivery_mismatch
      else ret 200)"

definition record_delivery ::
  "(string \<Rightarrow> string) \<Rightarrow> datetime \<Rightarrow> uuid \<Rightarrow> uuid \<Rightarrow> hook_event \<Rightarrow> repository_snapshot option \<Rightarrow>
   ('a webhook_tables_scheme, int) txn" where
  "record_delivery sha db_now did jid ev repo =
     bind (add_delivery db_now did ev repo) (\<lambda>inserted.
     case inserted of
       None \<Rightarrow>
         bind (by_delivery [] (he_delivery_id ev)) (\<lambda>previous.
         case previous of None \<Rightarrow> raise AssertionError | Some d \<Rightarrow> same_delivery ev d)
     | Some _ \<Rightarrow>
         bind (enqueue_job sha db_now jid PROCESS_WEBHOOK did (map_option rs_workspace_id repo)) (\<lambda>_.
         ret 202))"

definition receive ::
  "(string \<Rightarrow> string) \<Rightarrow> datetime \<Rightarrow> uuid list \<Rightarrow> uuid \<Rightarrow> uuid \<Rightarrow> hook_event \<Rightarrow>
   ('a webhook_tables_scheme, int) txn" where
  "receive sha db_now unseen did jid ev =
     bind (by_delivery unseen (he_delivery_id ev)) (\<lambda>existing.
     case existing of
       Some d \<Rightarrow> same_delivery ev d
     | None \<Rightarrow>
         if he_event ev \<noteq> ''pull_request'' then record_delivery sha db_now did jid ev None
         else
           (case he_repository_id ev of
              None \<Rightarrow> raise AssertionError
            | Some gid \<Rightarrow>
                if gid = 0 then raise AssertionError
                else
                  bind (attempt_app (event_mapped (he_installation_id ev) gid)) (\<lambda>mapped.
                  case mapped of
                    Inl _ \<Rightarrow> ret 204
                  | Inr None \<Rightarrow> ret 204
                  | Inr (Some repo) \<Rightarrow> record_delivery sha db_now did jid ev (Some repo))))"

subsection \<open>The route\<close>

text \<open>A response with its status and, for an \<open>HTTPException\<close>, its detail.\<close>

record reply =
  rp_status :: int
  rp_detail :: "string option"

record hook_headers =
  hh_signature :: string
  hh_delivery :: string
  hh_event :: string

fun read_body :: "string \<Rightarrow> string list \<Rightarrow> string option" where
  "read_body data [] = Some data"
| "read_body data (chunk # chunks) =
     (if length data + length chunk > max_body then None else read_body (data @ chunk) chunks)"

definition rejection_status :: "string \<Rightarrow> int" where
  "rejection_status code =
     (if code = ''WEBHOOK_BODY_TOO_LARGE'' then 413
      else if code = ''WEBHOOK_SIGNATURE_INVALID'' then 401
      else if code = ''WEBHOOK_DELIVERY_MISMATCH'' then 409
      else 422)"

fun rejected :: "exn \<Rightarrow> exn + reply" where
  "rejected (WebhookRejected code) = Inr \<lparr>rp_status = rejection_status code, rp_detail = Some code\<rparr>"
| "rejected e = Inl e"

text \<open>\<open>secret\<close> is the configured secret and \<open>connected\<close> says that there is an engine.\<close>

definition github_webhook ::
  "(string \<Rightarrow> exn + json) \<Rightarrow> (string \<Rightarrow> string \<Rightarrow> string) \<Rightarrow> (string \<Rightarrow> string) \<Rightarrow> bool \<Rightarrow> string option \<Rightarrow>
   datetime \<Rightarrow> uuid list \<Rightarrow> uuid \<Rightarrow> uuid \<Rightarrow> hook_headers \<Rightarrow> string list \<Rightarrow>
   'a webhook_tables_scheme \<Rightarrow> (exn + reply) \<times> 'a webhook_tables_scheme" where
  "github_webhook loads hmac sha connected secret db_now unseen did jid headers chunks s =
     (if \<not> connected \<or> \<not> truthy secret
      then (Inr \<lparr>rp_status = 503, rp_detail = Some ''WEBHOOK_NOT_CONFIGURED''\<rparr>, s)
      else
        (case read_body [] chunks of
           None \<Rightarrow> (Inr \<lparr>rp_status = 413, rp_detail = Some ''WEBHOOK_BODY_TOO_LARGE''\<rparr>, s)
         | Some body \<Rightarrow>
             (case verify_delivery loads hmac sha body (hh_signature headers) (the secret)
                     (hh_delivery headers) (hh_event headers) of
                Inl e \<Rightarrow> (rejected e, s)
              | Inr None \<Rightarrow> (Inr \<lparr>rp_status = 204, rp_detail = None\<rparr>, s)
              | Inr (Some ev) \<Rightarrow>
                  (case transaction webhook_schema (receive sha db_now unseen did jid ev) s of
                     (Inl e, s') \<Rightarrow> (rejected e, s')
                   | (Inr status, s') \<Rightarrow> (Inr \<lparr>rp_status = status, rp_detail = None\<rparr>, s')))))"

subsection \<open>The worker\<close>

record hook_clock =
  hc_fence :: datetime
  hc_finish :: datetime
  hc_processed :: datetime

text \<open>
  Taking the locks: the refusal of the connection of a pull request, or the connections an
  installation event is about.
\<close>

definition lock_targets ::
  "webhook_delivery \<Rightarrow> ('a webhook_tables_scheme, string option \<times> uuid list) txn" where
  "lock_targets d =
     (if wd_event d = ''pull_request'' then
        (case (wd_workspace_id d, wd_connection_id d, wd_generation d) of
           (Some wid, Some rid, Some generation) \<Rightarrow>
             if generation = 0 then raise AssertionError
             else
               bind (attempt_app (event_require wid rid generation)) (\<lambda>access.
               case access of
                 Inl _ \<Rightarrow> ret (Some ''CONNECTION_CHANGED'', [])
               | Inr _ \<Rightarrow> ret (None, []))
         | _ \<Rightarrow> raise AssertionError)
      else
        bind (lock_affected (wd_installation_id d)
                (if wd_event d = ''installation_repositories'' then Some (wd_affected d) else None)
                (wd_received_at d)) (\<lambda>targets. ret (None, targets)))"

definition apply_delivery ::
  "(string \<Rightarrow> string) \<Rightarrow> datetime \<Rightarrow> uuid \<Rightarrow> uuid \<Rightarrow> bool \<Rightarrow> uuid list \<Rightarrow> webhook_delivery \<Rightarrow>
   ('a webhook_tables_scheme, string option) txn" where
  "apply_delivery sha db_now sid jid expired targets d =
     (if expired then ret (Some ''LEASE_EXPIRED'')
      else if wd_event d = ''pull_request'' then
        (case (wd_workspace_id d, wd_connection_id d, wd_generation d, wd_pr_number d) of
           (Some wid, Some rid, Some generation, Some number) \<Rightarrow>
             if generation = 0 \<or> number = 0 then raise AssertionError
             else
               bind (request_event_sync sha db_now sid jid wid rid generation number) (\<lambda>run.
               ret (if run = None then Some ''SYNC_IN_PROGRESS'' else None))
         | _ \<Rightarrow> raise AssertionError)
      else bind (suspend_locked targets) (\<lambda>_. ret None))"

definition cancel_delivery :: "datetime \<Rightarrow> string \<Rightarrow> webhook_delivery \<Rightarrow> webhook_delivery" where
  "cancel_delivery now code d =
     d\<lparr>wd_status := WH_CANCELED, wd_error_code := Some code, wd_processed_at := Some now\<rparr>"

definition close_delivery ::
  "datetime \<Rightarrow> job_state \<Rightarrow> string option \<Rightarrow> webhook_delivery \<Rightarrow> webhook_delivery" where
  "close_delivery now state code d =
     d\<lparr>wd_status := (if state = READY then WH_PENDING else if truthy code then WH_FAILED else WH_PROCESSED),
       wd_error_code := code,
       wd_processed_at := (if state = READY then None else Some now)\<rparr>"

definition process_delivery ::
  "(string \<Rightarrow> string) \<Rightarrow> datetime \<Rightarrow> uuid \<Rightarrow> uuid \<Rightarrow> hook_clock \<Rightarrow> claim \<Rightarrow> bool \<Rightarrow>
   ('a webhook_tables_scheme, unit) txn" where
  "process_delivery sha db_now sid jid ck c expired =
     bind (get_delivery (claim_aggregate_id c)) (\<lambda>found.
     case found of
       None \<Rightarrow> ret ()
     | Some d \<Rightarrow>
         bind (lock_targets d) (\<lambda>(refused, targets).
         bind (get_delivery (wd_id d)) (\<lambda>again.
         case again of
           None \<Rightarrow> raise AssertionError
         | Some row \<Rightarrow>
             bind (fence (hc_fence ck) c expired) (\<lambda>fenced.
             case fenced of
               None \<Rightarrow> ret ()
             | Some job \<Rightarrow>
                 (case refused of
                    Some code \<Rightarrow>
                      bind (finish_job (hc_finish ck) (Some code) False 5 job) (\<lambda>job'.
                      bind (save_row jobs_update job_id (cancel_finished True job')) (\<lambda>_.
                      save_row deliveries_update wd_id (cancel_delivery (hc_processed ck) code row)))
                  | None \<Rightarrow>
                      bind (apply_delivery sha db_now sid jid expired targets row) (\<lambda>code.
                      bind (finish_job (hc_finish ck) code (truthy code)
                              (if code = Some ''SYNC_IN_PROGRESS'' then 30 else 5) job) (\<lambda>job'.
                      save_row deliveries_update wd_id
                        (close_delivery (hc_processed ck) (job_state job') code row))))))))"

definition execute_webhook ::
  "(string \<Rightarrow> string) \<Rightarrow> datetime \<Rightarrow> uuid \<Rightarrow> uuid \<Rightarrow> hook_clock \<Rightarrow> claim \<Rightarrow> bool \<Rightarrow>
   'a webhook_tables_scheme \<Rightarrow> (exn + unit) \<times> 'a webhook_tables_scheme" where
  "execute_webhook sha db_now sid jid ck c expired s =
     transaction webhook_schema (process_delivery sha db_now sid jid ck c expired) s"

end
