(* ===== verification/Webhook_Results.thy ===== *)
theory Webhook_Results
  imports Webhooks Pull_Request_Results
begin

section \<open>Results on webhook deliveries\<close>

text \<open>
  What a validated event is, what the transactions on deliveries do to the tables, and the
  transition system of deliveries with their jobs beside the synchronisation runs.
\<close>

subsection \<open>Validated events\<close>

lemma positive_Inr: "positive v = Inr n \<longleftrightarrow> v = JInt n \<and> 0 < n \<and> n < 2 ^ 63"
  by (cases v) (auto simp: positive_def)

lemma removed_ids_Inr:
  "removed_ids items = Inr ns \<Longrightarrow> length ns = length items \<and> list_all (\<lambda>n. 0 < n \<and> n < 2 ^ 63) ns"
  by (induction items arbitrary: ns) (auto simp: proceed_Inr positive_Inr)

definition bigint_id :: "int \<Rightarrow> bool" where
  "bigint_id n \<longleftrightarrow> 0 < n \<and> n < 2 ^ 63"

text \<open>The shape of an event that \<open>verify\<close> hands on: every value fits its column.\<close>

definition event_valid :: "hook_event \<Rightarrow> bool" where
  "event_valid ev \<longleftrightarrow>
     he_event ev \<in> set hook_events \<and> delivery_shape (he_delivery_id ev) \<and>
     he_action ev \<in> set (allowed_actions (he_event ev)) \<and> bigint_id (he_installation_id ev) \<and>
     (if he_event ev = ''pull_request''
      then (case (he_repository_id ev, he_number ev) of
              (Some rid, Some n) \<Rightarrow> bigint_id rid \<and> 0 < n \<and> n < 2 ^ 31
            | _ \<Rightarrow> False)
      else he_repository_id ev = None \<and> he_number ev = None) \<and>
     sorted (he_affected ev) \<and> distinct (he_affected ev) \<and> length (he_affected ev) \<le> 10000 \<and>
     list_all bigint_id (he_affected ev) \<and> is_hex 64 (he_digest ev)"

lemma event_targets_Inr:
  assumes "event_targets event data = Inr (rid, number, affected)"
  shows "if event = ''pull_request''
         then (\<exists>i n. rid = Some i \<and> number = Some n \<and> affected = [] \<and> bigint_id i \<and> 0 < n \<and> n < 2 ^ 31)
         else rid = None \<and> number = None \<and> sorted affected \<and> distinct affected \<and> length affected \<le> 10000 \<and>
              list_all bigint_id affected"
proof (cases "event = ''installation_repositories''")
  case True
  then obtain removed items ns where ns: "removed_ids items = Inr ns" and small: "length items \<le> 10000"
    and affected: "affected = sort (remdups ns)" "rid = None" "number = None"
    using assms by (auto simp: event_targets_def proceed_Inr split: option.splits if_splits)
  have "length (remdups ns) \<le> length ns" by (rule length_remdups_leq)
  with removed_ids_Inr [OF ns] small affected True show ?thesis
    by (auto simp: list_all_iff bigint_id_def)
next
  case False
  with assms show ?thesis
    by (auto simp: event_targets_def proceed_Inr positive_Inr bigint_id_def split: if_splits)
qed

lemma verify_delivery_Some:
  assumes "verify_delivery loads hmac sha body signature secret delivery event = Inr (Some ev)"
  shows "length body \<le> max_body" "signature = ''sha256='' @ hmac secret body"
    "he_delivery_id ev = delivery" "he_event ev = event" "he_digest ev = sha body"
    "is_hex 64 (sha body) \<Longrightarrow> event_valid ev"
proof -
  show head: "length body \<le> max_body" "signature = ''sha256='' @ hmac secret body"
    using assms by (auto simp: verify_delivery_def split: if_splits)
  have shape: "delivery_shape delivery" "event \<in> set hook_events"
    and read: "read_event loads sha body delivery event = Inr (Some ev)"
    using assms by (auto simp: verify_delivery_def split: if_splits sum.splits)
  from read obtain data action installation rid number affected
    where data: "loads body = Inr data" "action \<in> set (allowed_actions event)"
      and inst: "bigint_id installation"
      and targets: "event_targets event data = Inr (rid, number, affected)"
      and ev: "ev = \<lparr>he_delivery_id = delivery, he_event = event, he_action = action,
                     he_installation_id = installation, he_repository_id = rid, he_number = number,
                     he_affected = affected, he_digest = sha body\<rparr>"
    unfolding read_event_def proceed_Inr
    by (auto simp: proceed_Inr positive_Inr bigint_id_def split: option.splits if_splits)
  show "he_delivery_id ev = delivery" "he_event ev = event" "he_digest ev = sha body"
    by (simp_all add: ev)
  show "event_valid ev" if "is_hex 64 (sha body)"
    using event_targets_Inr [OF targets] shape data(2) inst that
    by (auto simp: ev event_valid_def split: if_splits)
qed

subsection \<open>The transactions\<close>

lemma by_delivery_reads:
  "by_delivery unseen i s = Inr (x, s') \<Longrightarrow> s' = s \<and>
     (case x of None \<Rightarrow> True | Some d \<Rightarrow> d \<in> set (deliveries s) \<and> wd_delivery_id d = i)"
  unfolding by_delivery_def by (erule select_one_Inr_cases) auto

lemma get_delivery_reads:
  "get_delivery did s = Inr (x, s') \<Longrightarrow> s' = s \<and>
     (case x of None \<Rightarrow> True | Some d \<Rightarrow> d \<in> set (deliveries s) \<and> wd_id d = did)"
  unfolding get_delivery_def by (erule select_one_Inr_cases) auto

lemma live_connection_snapshot:
  "live_connection wid rid g x s \<Longrightarrow> rs_workspace_id x = wid \<and> rs_repo_id x = rid \<and> rs_generation x = g"
  by (auto simp: live_connection_def repo_snapshot_def)

lemma live_connection_self:
  "live_connection wid rid g x s \<Longrightarrow> live_connection (rs_workspace_id x) (rs_repo_id x) (rs_generation x) x s"
  by (metis live_connection_snapshot)

lemma event_mapped_reads:
  assumes "event_mapped inst gid s = Inr (x, s')"
  shows "s' = s \<and>
     (case x of None \<Rightarrow> True
      | Some repo \<Rightarrow> live_connection (rs_workspace_id repo) (rs_repo_id repo) (rs_generation repo) repo s)"
proof -
  from assms obtain r s1 where "event_mapping inst gid s = Inr (r, s1)"
    and rest: "(case r of None \<Rightarrow> ret None
        | Some r \<Rightarrow> bind (event_require (rc_workspace_id r) (rc_id r) (rc_generation r)) (\<lambda>x. ret (Some x))) s1 = Inr (x, s')"
    unfolding event_mapped_def by (elim bindE)
  then have "s1 = s" by (auto simp: event_mapping_def dest: select_one_state)
  with rest show ?thesis
    by (auto simp: bind_Inr split: option.splits dest!: event_require_reads intro: live_connection_self)
qed

lemma lock_each_reads: "lock_each inst before cs s = Inr (x, s') \<Longrightarrow> s' = s"
  by (induction cs arbitrary: x s')
    (auto simp: bind_Inr split: option.splits if_splits dest!: lock_system_reads get_repository_reads)

lemma lock_affected_reads: "lock_affected inst ids before s = Inr (x, s') \<Longrightarrow> s' = s"
  by (auto simp: lock_affected_def event_candidates_def bind_Inr dest: lock_each_reads)

lemma attempt_require_reads: "attempt_app (event_require wid rid g) s = Inr (x, s') \<Longrightarrow> s' = s"
  by (auto simp: attempt_app_Inr dest: event_require_reads)

lemma lock_targets_reads: "lock_targets d s = Inr (x, s') \<Longrightarrow> s' = s"
  unfolding lock_targets_def
  by (auto split: if_splits option.splits elim!: bindE dest!: attempt_require_reads lock_affected_reads)
    (auto split: sum.splits)

definition delivered :: "datetime \<Rightarrow> (string \<Rightarrow> string) \<Rightarrow> uuid \<Rightarrow> uuid \<Rightarrow> hook_event \<Rightarrow> repository_snapshot option \<Rightarrow>
   'a webhook_tables_scheme \<Rightarrow> 'a webhook_tables_scheme" where
  "delivered db_now sha did jid ev repo s =
     jobs_update (\<lambda>js. js @ [new_job sha db_now jid PROCESS_WEBHOOK did (map_option rs_workspace_id repo)])
       (deliveries_update (\<lambda>ds. ds @ [new_delivery db_now did ev repo]) s)"

lemma record_delivery_Inr:
  assumes "record_delivery sha db_now did jid ev repo s = Inr (status, s')"
  obtains (known) d where "d \<in> set (deliveries s)" "wd_delivery_id d = he_delivery_id ev"
      "wd_body_digest d = he_digest ev" "wd_event d = he_event ev" "status = 200" "s' = s"
  | (fresh) "\<forall>d \<in> set (deliveries s). \<not> (wd_provider d = ''GITHUB'' \<and> wd_delivery_id d = he_delivery_id ev)"
      "status = 202" "s' = delivered db_now sha did jid ev repo s"
proof -
  from assms obtain x s1 where x: "add_delivery db_now did ev repo s = Inr (x, s1)"
    and rest: "(case x of None \<Rightarrow>
         bind (by_delivery [] (he_delivery_id ev)) (\<lambda>previous.
         case previous of None \<Rightarrow> raise AssertionError | Some d \<Rightarrow> same_delivery ev d)
     | Some _ \<Rightarrow>
         bind (enqueue_job sha db_now jid PROCESS_WEBHOOK did (map_option rs_workspace_id repo)) (\<lambda>_.
         ret 202)) s1 = Inr (status, s')"
    unfolding record_delivery_def by (elim bindE)
  show ?thesis
  proof (cases x)
    case None
    with x have "s1 = s" by (auto simp: add_delivery_def bind_Inr Let_def split: if_splits)
    with rest None obtain d where "d \<in> set (deliveries s)" "wd_delivery_id d = he_delivery_id ev"
      and same: "same_delivery ev d s = Inr (status, s')"
      by (auto elim!: bindE split: option.splits dest!: by_delivery_reads)
    then show ?thesis by (intro known [of d]) (auto simp: same_delivery_def split: if_splits)
  next
    case (Some i)
    with x have s1: "s1 = deliveries_update (\<lambda>ds. ds @ [new_delivery db_now did ev repo]) s"
      and new: "\<forall>d \<in> set (deliveries s). \<not> (wd_provider d = ''GITHUB'' \<and> wd_delivery_id d = he_delivery_id ev)"
      by (auto simp: add_delivery_def bind_Inr Let_def new_delivery_def split: if_splits)
    from rest Some have "status = 202" "s' = delivered db_now sha did jid ev repo s"
      by (auto simp: bind_Inr enqueue_job_def delivered_def s1)
    with new show ?thesis by (rule fresh)
  qed
qed

lemma receive_Inr:
  assumes "receive sha db_now unseen did jid ev s = Inr (status, s')"
  obtains (known) d where "d \<in> set (deliveries s)" "wd_delivery_id d = he_delivery_id ev"
      "wd_body_digest d = he_digest ev" "wd_event d = he_event ev" "status = 200" "s' = s"
  | (unmapped) "he_event ev = ''pull_request''" "status = 204" "s' = s"
  | (fresh) repo where "\<forall>d \<in> set (deliveries s). \<not> (wd_provider d = ''GITHUB'' \<and> wd_delivery_id d = he_delivery_id ev)"
      "status = 202" "s' = delivered db_now sha did jid ev repo s"
      "case repo of None \<Rightarrow> he_event ev \<noteq> ''pull_request''
       | Some x \<Rightarrow> live_connection (rs_workspace_id x) (rs_repo_id x) (rs_generation x) x s"
proof -
  from assms obtain x s1 where x: "by_delivery unseen (he_delivery_id ev) s = Inr (x, s1)"
    and rest: "(case x of
       Some d \<Rightarrow> same_delivery ev d
     | None \<Rightarrow>
         if he_event ev \<noteq> ''pull_request'' then record_delivery sha db_now did jid ev None
         else
           (case he_repository_id ev of
              None \<Rightarrow> raise AssertionError
            | Some gid \<Rightarrow>
                if gid = 0 then raise AssertionError
                else
                  bind (attempt_app (event_mapped (he_installation_id ev) gid)) (\<lambda>mapped.
                  case mapped of
                    Inl _ \<Rightarrow> ret 204
                  | Inr None \<Rightarrow> ret 204
                  | Inr (Some repo) \<Rightarrow> record_delivery sha db_now did jid ev (Some repo)))) s1 = Inr (status, s')"
    unfolding receive_def by (elim bindE)
  have s1: "s1 = s" using by_delivery_reads [OF x] by simp
  show ?thesis
  proof (cases x)
    case (Some d)
    with rest by_delivery_reads [OF x] show ?thesis
      by (auto simp: same_delivery_def split: if_splits intro: known)
  next
    case None
    show ?thesis
    proof (cases "he_event ev = ''pull_request''")
      case False
      with rest None s1 have "record_delivery sha db_now did jid ev None s = Inr (status, s')" by simp
      then show ?thesis
        by (cases rule: record_delivery_Inr) (auto intro: known fresh [of None] simp: False)
    next
      case True
      with rest None s1 obtain gid m s2 where m: "attempt_app (event_mapped (he_installation_id ev) gid) s = Inr (m, s2)"
        and rec: "(case m of Inl _ \<Rightarrow> ret 204 | Inr None \<Rightarrow> ret 204
             | Inr (Some repo) \<Rightarrow> record_delivery sha db_now did jid ev (Some repo)) s2 = Inr (status, s')"
        by (auto simp: bind_Inr split: option.splits if_splits)
      have s2: "s2 = s" using m by (auto simp: attempt_app_Inr dest: event_mapped_reads)
      show ?thesis
      proof (cases "\<exists>repo. m = Inr (Some repo)")
        case False
        with rec s2 True show ?thesis by (intro unmapped) (auto split: sum.splits option.splits)
      next
        case True
        then obtain repo where repo: "m = Inr (Some repo)" by blast
        with m have live: "live_connection (rs_workspace_id repo) (rs_repo_id repo) (rs_generation repo) repo s"
          by (auto simp: attempt_app_Inr dest: event_mapped_reads)
        from rec repo s2 have "record_delivery sha db_now did jid ev (Some repo) s = Inr (status, s')" by simp
        then show ?thesis
          by (cases rule: record_delivery_Inr) (use live in \<open>auto intro: known fresh [of "Some repo"]\<close>)
      qed
    qed
  qed
qed

text \<open>What the worker applies before it finishes the job.\<close>

definition applied :: "string option \<Rightarrow> 'a webhook_tables_scheme \<Rightarrow> 'a webhook_tables_scheme \<Rightarrow> bool" where
  "applied code s m \<longleftrightarrow>
     (code \<noteq> None \<longrightarrow> m = s) \<and>
     (m = s \<or> (\<exists>f. m = repositories_update f s) \<or>
      (\<exists>sha db_now sid jid wid rid g n. request_event_sync sha db_now sid jid wid rid g n s = Inr (Some sid, m)))"

lemma request_event_sync_result:
  "request_event_sync sha db_now sid jid wid rid g n s = Inr (x, m) \<Longrightarrow> x = None \<and> m = s \<or> x = Some sid"
  by (erule request_event_sync_Inr) simp_all

lemma apply_delivery_Inr:
  assumes "apply_delivery sha db_now sid jid expired targets d s = Inr (code, m)"
  shows "applied code s m"
proof (cases "expired \<or> wd_event d \<noteq> ''pull_request''")
  case True
  with assms show ?thesis
    by (auto simp: apply_delivery_def applied_def bind_Inr split: if_splits dest: suspend_locked_frame)
next
  case False
  with assms obtain wid rid g n x where x: "request_event_sync sha db_now sid jid wid rid g n s = Inr (x, m)"
    and code: "code = (if x = None then Some ''SYNC_IN_PROGRESS'' else None)"
    by (auto simp: apply_delivery_def bind_Inr split: option.splits if_splits)
  with request_event_sync_result [OF x] show ?thesis by (auto simp: applied_def)
qed

lemma process_delivery_Inr:
  assumes "process_delivery sha db_now sid jid ck c expired s = Inr (u, s')"
    and "distinct (map wd_id (deliveries s))"
  obtains (idle) "s' = s"
  | (refused) d j j' code where "d \<in> set (deliveries s)" "wd_id d = claim_aggregate_id c"
      "wd_event d = ''pull_request''" "code = ''CONNECTION_CHANGED''"
      "j \<in> set (jobs s)" "job_id j = claim_id c" "holds_lease c j"
      "finish (hc_finish ck) (Some code) False 5 j = Inr j'"
      "s' = deliveries_update (put_row wd_id (cancel_delivery (hc_processed ck) code d))
              (jobs_update (put_row job_id (cancel_finished True j')) s)"
  | (closed) d j j' code m delay targets where "d \<in> set (deliveries s)" "wd_id d = claim_aggregate_id c"
      "j \<in> set (jobs s)" "job_id j = claim_id c" "holds_lease c j"
      "lock_targets d s = Inr ((None, targets), s)"
      "apply_delivery sha db_now sid jid expired targets d s = Inr (code, m)"
      "finish (hc_finish ck) code (truthy code) delay j = Inr j'"
      "s' = deliveries_update (put_row wd_id (close_delivery (hc_processed ck) (job_state j') code d))
              (jobs_update (put_row job_id j') m)"
proof -
  from assms(1) obtain f s1 where f: "get_delivery (claim_aggregate_id c) s = Inr (f, s1)"
    and rest: "(case f of None \<Rightarrow> ret () | Some d \<Rightarrow>
         bind (lock_targets d) (\<lambda>(refused, targets).
         bind (get_delivery (wd_id d)) (\<lambda>again.
         case again of
           None \<Rightarrow> raise AssertionError
         | Some row \<Rightarrow>
             bind (fence (hc_fence ck) c expired) (\<lambda>fenced.
             case fenced of
               None \<Rightarrow> ret ()
             | Some job \<Rightarrow>
                 (case refused of
                    Some code \<Rightarrow>
                      bind (finish_job (hc_finish ck) (Some code) False 5 job) (\<lambda>job'.
                      bind (save_row jobs_update job_id (cancel_finished True job')) (\<lambda>_.
                      save_row deliveries_update wd_id (cancel_delivery (hc_processed ck) code row)))
                  | None \<Rightarrow>
                      bind (apply_delivery sha db_now sid jid expired targets row) (\<lambda>code.
                      bind (finish_job (hc_finish ck) code (truthy code)
                              (if code = Some ''SYNC_IN_PROGRESS'' then 30 else 5) job) (\<lambda>job'.
                      save_row deliveries_update wd_id
                        (close_delivery (hc_processed ck) (job_state job') code row)))))))) s1 = Inr (u, s')"
    unfolding process_delivery_def by (elim bindE)
  have s1: "s1 = s" using get_delivery_reads [OF f] by simp
  show ?thesis
  proof (cases f)
    case None
    with rest s1 idle show ?thesis by simp
  next
    case (Some d)
    have d: "d \<in> set (deliveries s)" "wd_id d = claim_aggregate_id c"
      using get_delivery_reads [OF f] Some by simp_all
    from rest obtain refused targets s2 row s3 x s4 where lock: "lock_targets d s = Inr ((refused, targets), s2)"
      and again: "get_delivery (wd_id d) s2 = Inr (Some row, s3)"
      and fenced: "fence (hc_fence ck) c expired s3 = Inr (x, s4)"
      and body: "(case x of None \<Rightarrow> ret () | Some job \<Rightarrow>
          (case refused of
                    Some code \<Rightarrow>
                      bind (finish_job (hc_finish ck) (Some code) False 5 job) (\<lambda>job'.
                      bind (save_row jobs_update job_id (cancel_finished True job')) (\<lambda>_.
                      save_row deliveries_update wd_id (cancel_delivery (hc_processed ck) code row)))
                  | None \<Rightarrow>
                      bind (apply_delivery sha db_now sid jid expired targets row) (\<lambda>code.
                      bind (finish_job (hc_finish ck) code (truthy code)
                              (if code = Some ''SYNC_IN_PROGRESS'' then 30 else 5) job) (\<lambda>job'.
                      save_row deliveries_update wd_id
                        (close_delivery (hc_processed ck) (job_state job') code row))))) s4 = Inr (u, s')"
      unfolding Some s1 option.case by (auto elim!: bindE split: option.splits prod.splits)
    have st: "s2 = s" "s3 = s" "s4 = s" and row: "row = d"
      using lock_targets_reads [OF lock] get_delivery_reads [OF again] fence_reads [OF fenced] d(1) assms(2)
      by (auto dest: distinct_key_unique)
    show ?thesis
    proof (cases x)
      case None
      with body st idle show ?thesis by simp
    next
      case (Some j)
      have j: "j \<in> set (jobs s)" "job_id j = claim_id c" "holds_lease c j"
        using fenced Some st by (auto elim!: fence_Inr)
      show ?thesis
      proof (cases refused)
        case None
        with body Some st row obtain code m j' where ap: "apply_delivery sha db_now sid jid expired targets d s = Inr (code, m)"
          and fin: "finish (hc_finish ck) code (truthy code) (if code = Some ''SYNC_IN_PROGRESS'' then 30 else 5) j = Inr j'"
          and s': "s' = deliveries_update (put_row wd_id (close_delivery (hc_processed ck) (job_state j') code d))
              (jobs_update (put_row job_id j') m)"
          by (auto elim!: bindE simp: finish_job_Inr)
        from lock None st have "lock_targets d s = Inr ((None, targets), s)" by simp
        from closed [OF d j this ap fin s'] show ?thesis .
      next
        case (Some code)
        with lock have ev: "wd_event d = ''pull_request''" "code = ''CONNECTION_CHANGED''"
          by (auto simp: lock_targets_def elim!: bindE split: if_splits option.splits sum.splits)
        from body Some \<open>x = Some j\<close> st row obtain j' where fin: "finish (hc_finish ck) (Some code) False 5 j = Inr j'"
          and s': "s' = deliveries_update (put_row wd_id (cancel_delivery (hc_processed ck) code d))
              (jobs_update (put_row job_id (cancel_finished True j')) (jobs_update (put_row job_id j') s))"
          by (auto elim!: bindE simp: finish_job_Inr)
        have "jobs_update (put_row job_id (cancel_finished True j')) (jobs_update (put_row job_id j') s) =
            jobs_update (put_row job_id (cancel_finished True j')) s"
          by (simp add: put_row_twice cancel_keeps comp_def)
        with s' show ?thesis using refused [OF d ev j fin] by simp
      qed
    qed
  qed
qed

end
