(* ===== verification/Webhook_System.thy ===== *)
theory Webhook_System
  imports Webhook_Results
begin

section \<open>Deliveries as a transition system\<close>

text \<open>
  The transactions on deliveries as steps, beside the steps of the synchronisation they start:
  deliveries and their jobs move together, and so do the runs and theirs.
\<close>

fun status_phase :: "delivery_status \<Rightarrow> phase" where
  "status_phase WH_PENDING = Open"
| "status_phase WH_PROCESSING = Open"
| "status_phase WH_PROCESSED = Done"
| "status_phase WH_FAILED = Broken"
| "status_phase WH_CANCELED = Stopped"
| "status_phase WH_IGNORED = Done"

definition delivery_phase :: "webhook_delivery \<Rightarrow> phase" where
  "delivery_phase d = status_phase (wd_status d)"

interpretation delivery_tracking: tracked_runs PROCESS_WEBHOOK wd_id delivery_phase deliveries_ok
  by unfold_locales (simp add: deliveries_ok_def)

definition webhook_inv :: "'a webhook_tables_scheme \<Rightarrow> bool" where
  "webhook_inv s \<longleftrightarrow>
     webhook_schema s \<and> pull_inv s \<and>
     tracked PROCESS_WEBHOOK wd_id delivery_phase (deliveries s) (jobs s)"

inductive webhook_step :: "'a webhook_tables_scheme \<Rightarrow> 'a webhook_tables_scheme \<Rightarrow> bool" where
  pulls: "pull_step s s' \<Longrightarrow> deliveries s' = deliveries s \<Longrightarrow>
    jobs_of PROCESS_WEBHOOK (jobs s') = jobs_of PROCESS_WEBHOOK (jobs s) \<Longrightarrow> webhook_step s s'"
| claim: "transaction webhook_schema (claim_job locked now worker kinds) s = (Inr x, s') \<Longrightarrow> webhook_step s s'"
| heartbeat: "transaction webhook_schema (heartbeat now now' c) s = (Inr b, s') \<Longrightarrow> webhook_step s s'"
| receive: "transaction webhook_schema (receive sha db_now unseen did jid ev) s = (Inr status, s') \<Longrightarrow>
    webhook_step s s'"
| execute: "issued PROCESS_WEBHOOK c (jobs s) \<Longrightarrow>
    execute_webhook sha db_now sid jid ck c expired s = (Inr u, s') \<Longrightarrow> webhook_step s s'"

lemma webhook_inv_parts:
  assumes "webhook_inv s"
  shows "webhook_schema s" "pull_schema s" "jobs_inv s" "jobs_ok (jobs s)" "distinct (map wd_id (deliveries s))"
    "tracked SYNC_PULL_REQUESTS sr_id sync_phase (sync_runs s) (jobs s)"
    "tracked PROCESS_WEBHOOK wd_id delivery_phase (deliveries s) (jobs s)"
  using assms
  by (simp_all add: webhook_inv_def webhook_schema_def pull_inv_def pull_schema_def jobs_schema_def deliveries_ok_def)

lemma webhook_invI:
  assumes "webhook_schema s" and "jobs_inv s" and "tracked SYNC_PULL_REQUESTS sr_id sync_phase (sync_runs s) (jobs s)"
    and "tracked PROCESS_WEBHOOK wd_id delivery_phase (deliveries s) (jobs s)"
  shows "webhook_inv s"
  using assms by (simp add: webhook_inv_def webhook_schema_def pull_inv_def)

lemma delivery_keeps [simp]:
  "wd_id (cancel_delivery t code d) = wd_id d" "wd_id (close_delivery t st err d) = wd_id d"
  by (simp_all add: cancel_delivery_def close_delivery_def)

lemma close_delivery_phase:
  "finish now code retry delay j = Inr j' \<Longrightarrow>
   delivery_phase (close_delivery t (job_state j') code d) = job_phase (job_state j')"
  by (auto simp: delivery_phase_def close_delivery_def elim!: finish_Inr)

text \<open>A refused delivery: its dead job becomes a cancelled one.\<close>

lemma refused_inv:
  assumes "jobs_inv s" and "j \<in> set (jobs s)" and fin: "finish now (Some code) False delay j = Inr j'" and "code \<noteq> []"
  shows "jobs_inv (jobs_update (put_row job_id (cancel_finished True j')) s)"
proof -
  have one: "jobs_inv (jobs_update (put_row job_id j') s)" by (rule jobs_inv_finish [OF assms(1,2) fin])
  have "j' \<in> set (put_row job_id j' (jobs s))"
    using assms(2) finish_keeps [OF fin] by (intro put_row_mem) auto
  moreover have "job_state j' = DEAD" "job_attempt_history j' \<noteq> []"
    using fin assms(4) by (auto elim!: finish_Inr simp: close_last_def truthy_def split: if_splits list.splits)
  ultimately have "jobs_inv (jobs_update (put_row job_id (cancel_finished True j')) (jobs_update (put_row job_id j') s))"
    using one by (intro job_step_inv [OF job_step.discard]) simp_all
  then show ?thesis by (simp add: put_row_twice cancel_keeps comp_def)
qed

text \<open>
  What the worker applied and the job it finished: at most a new synchronisation run with its job
  is added beside the finished job.
\<close>

lemma put_row_append: "key r \<noteq> key x \<Longrightarrow> put_row key r (rs @ [x]) = put_row key r rs @ [x]"
  by (simp add: put_row_def)

lemma applied_jobs:
  assumes "applied code s m"
  obtains (same) "deliveries m = deliveries s" "sync_runs m = sync_runs s" "jobs m = jobs s"
  | (run) sha db_now sid jid wid r where "deliveries m = deliveries s" "sync_runs m = sync_runs s @ [r]" "sr_id r = sid"
      "sync_phase r = Open" "jobs m = jobs s @ [new_job sha db_now jid SYNC_PULL_REQUESTS sid (Some wid)]"
  using assms unfolding applied_def
  by (auto elim!: request_event_sync_Inr simp: new_sync_id new_sync_phase)

lemma applied_inv:
  assumes inv: "jobs_inv s" "tracked SYNC_PULL_REQUESTS sr_id sync_phase (sync_runs s) (jobs s)"
    and ap: "applied code s m"
    and j: "j \<in> set (jobs s)" "job_kind j = PROCESS_WEBHOOK" and fin: "finish now code retry delay j = Inr j'"
    and ok: "jobs_schema s'" and s': "jobs s' = put_row job_id j' (jobs m)" "sync_runs s' = sync_runs m"
  shows "jobs_inv s'" and "tracked SYNC_PULL_REQUESTS sr_id sync_phase (sync_runs s') (jobs s')"
    and "\<exists>ks. jobs s' = put_row job_id j' (jobs s) @ ks \<and> jobs_of PROCESS_WEBHOOK ks = []"
proof -
  define s1 where "s1 = jobs_update (put_row job_id j') s"
  have keep: "job_id j' = job_id j" "job_kind j' = job_kind j" "job_aggregate_id j' = job_aggregate_id j"
    using finish_keeps [OF fin] by simp_all
  have js1: "jobs s1 = put_row job_id j' (jobs s)" "sync_runs s1 = sync_runs s" by (simp_all add: s1_def)
  have inv1: "jobs_inv s1" unfolding s1_def by (rule jobs_inv_finish [OF inv(1) j(1) fin])
  have tr1: "tracked SYNC_PULL_REQUESTS sr_id sync_phase (sync_runs s) (jobs s1)"
    unfolding js1 using inv j keep by (intro sync_tracking.tracked_job) (auto simp: jobs_inv_def jobs_schema_def)
  have "jobs_inv s' \<and> tracked SYNC_PULL_REQUESTS sr_id sync_phase (sync_runs s') (jobs s') \<and>
      (\<exists>ks. jobs s' = put_row job_id j' (jobs s) @ ks \<and> jobs_of PROCESS_WEBHOOK ks = [])"
    using ap
  proof (cases rule: applied_jobs)
    case same
    then have eq: "jobs s' = jobs s1" "sync_runs s' = sync_runs s" by (simp_all add: s' js1)
    with jobs_inv_cong [OF eq(1)] inv1 tr1 show ?thesis by (simp add: js1 jobs_of_def)
  next
    case (run sha db_now sid jid wid r)
    let ?new = "new_job sha db_now jid SYNC_PULL_REQUESTS sid (Some wid)"
    have "distinct (map job_id (jobs m))" using ok by (simp add: jobs_schema_def jobs_ok_def s'(1))
    then have "job_id ?new \<notin> job_id ` set (jobs s)" by (simp add: run(5))
    with j(1) have "job_id j' \<noteq> job_id ?new" unfolding keep(1) by (metis imageI)
    then have eq: "jobs s' = jobs s1 @ [?new]" by (simp add: s' run(5) js1 put_row_append)
    have "jobs_inv s'" by (rule jobs_inv_add [OF inv1 ok eq])
    moreover have "tracked SYNC_PULL_REQUESTS sr_id sync_phase (sync_runs s') (jobs s')"
      unfolding s'(2) run(2) eq by (rule sync_tracking.tracked_request [OF tr1]) (simp_all add: run(3,4) carries_def new_job_def)
    ultimately show ?thesis by (auto simp: eq js1 jobs_of_def new_job_def)
  qed
  then show "jobs_inv s'" "tracked SYNC_PULL_REQUESTS sr_id sync_phase (sync_runs s') (jobs s')"
    "\<exists>ks. jobs s' = put_row job_id j' (jobs s) @ ks \<and> jobs_of PROCESS_WEBHOOK ks = []" by blast+
qed

subsection \<open>The invariant\<close>

lemma tracked_more:
  "tracked kind key phase rs js \<Longrightarrow> tracked kind key phase rs (js @ ks)"
  unfolding tracked_def by (metis Un_iff set_append)

lemma webhook_inv_executed:
  assumes inv: "webhook_inv s" and iss: "issued PROCESS_WEBHOOK c (jobs s)"
    and op: "process_delivery sha db_now sid jid ck c expired s = Inr (u, s')" and ok: "webhook_schema s'"
  shows "webhook_inv s'"
proof -
  note p = webhook_inv_parts [OF inv]
  have oks: "jobs_schema s'" using ok by (simp add: webhook_schema_def pull_schema_def)
  from op p(5) show ?thesis
  proof (cases rule: process_delivery_Inr)
    case idle
    with inv show ?thesis by simp
  next
    case (refused d j j' code)
    have carrier: "carries PROCESS_WEBHOOK (wd_id d) j"
      using issued_job [OF p(4) iss refused(5,6)] refused(2) by simp
    then have kind: "job_kind j = PROCESS_WEBHOOK" by (simp add: carries_def)
    have jobs: "jobs_inv s'"
      using refused_inv [OF p(3) refused(5,8)] refused(4,9) by (simp add: jobs_inv_def jobs_schema_def)
    have "tracked SYNC_PULL_REQUESTS sr_id sync_phase (sync_runs s') (jobs s')"
      using p kind refused(5) finish_keeps [OF refused(8)]
      by (auto simp: refused(9) cancel_keeps intro!: sync_tracking.tracked_job)
    moreover have "tracked PROCESS_WEBHOOK wd_id delivery_phase (deliveries s') (jobs s')"
      using carrier finish_keeps [OF refused(8)] refused(5)
      by (auto simp: refused(9) cancel_keeps carries_def delivery_phase_def cancel_delivery_def
          intro!: delivery_tracking.tracked_together [OF p(7,4)])
    ultimately show ?thesis using ok jobs by (intro webhook_invI)
  next
    case (closed d j j' code m delay targets)
    have carrier: "carries PROCESS_WEBHOOK (wd_id d) j"
      using issued_job [OF p(4) iss closed(3,4)] closed(2) by simp
    then have kind: "job_kind j = PROCESS_WEBHOOK" by (simp add: carries_def)
    have ap: "applied code s m" by (rule apply_delivery_Inr [OF closed(7)])
    have rows: "jobs s' = put_row job_id j' (jobs m)" "sync_runs s' = sync_runs m" by (simp_all add: closed(9))
    note new = applied_inv [OF p(3,6) ap closed(3) kind closed(8) oks rows]
    from new(3) obtain ks where ks: "jobs s' = put_row job_id j' (jobs s) @ ks" by blast
    have "deliveries s' = put_row wd_id (close_delivery (hc_processed ck) (job_state j') code d) (deliveries s)"
      using ap by (cases rule: applied_jobs) (simp_all add: closed(9))
    moreover have "tracked PROCESS_WEBHOOK wd_id delivery_phase
        (put_row wd_id (close_delivery (hc_processed ck) (job_state j') code d) (deliveries s)) (put_row job_id j' (jobs s))"
      using carrier finish_keeps [OF closed(8)]
      by (intro delivery_tracking.tracked_together [OF p(7,4) closed(3)])
        (auto simp: carries_def close_delivery_phase [OF closed(8)])
    ultimately have "tracked PROCESS_WEBHOOK wd_id delivery_phase (deliveries s') (jobs s')"
      by (simp add: ks tracked_more)
    with ok new show ?thesis by (intro webhook_invI)
  qed
qed

lemma webhook_inv_received:
  assumes inv: "webhook_inv s" and op: "receive sha db_now unseen did jid ev s = Inr (status, s')"
    and ok: "webhook_schema s'"
  shows "webhook_inv s'"
  using op
proof (cases rule: receive_Inr)
  case (fresh repo)
  note p = webhook_inv_parts [OF inv]
  have rows: "deliveries s' = deliveries s @ [new_delivery db_now did ev repo]" "sync_runs s' = sync_runs s"
    "jobs s' = jobs s @ [new_job sha db_now jid PROCESS_WEBHOOK did (map_option rs_workspace_id repo)]"
    by (simp_all add: fresh(3) delivered_def)
  have "jobs_inv s'"
    using ok by (intro jobs_inv_add [OF p(3) _ rows(3)]) (simp add: webhook_schema_def pull_schema_def)
  moreover have "tracked SYNC_PULL_REQUESTS sr_id sync_phase (sync_runs s') (jobs s')"
    unfolding rows by (rule tracked_more [OF p(6)])
  moreover have "tracked PROCESS_WEBHOOK wd_id delivery_phase (deliveries s') (jobs s')"
    unfolding rows
    by (rule delivery_tracking.tracked_request [OF p(7)])
      (simp_all add: carries_def new_job_def new_delivery_def delivery_phase_def)
  ultimately show ?thesis using ok by (intro webhook_invI)
qed (use inv in simp_all)

lemma webhook_step_inv:
  assumes inv: "webhook_inv s" and step: "webhook_step s s'"
  shows "webhook_inv s'"
proof -
  note p = webhook_inv_parts [OF inv]
  from step show ?thesis
  proof (cases rule: webhook_step.cases)
    case pulls
    have "pull_inv s'" using pull_step_inv pulls(1) inv by (auto simp: webhook_inv_def)
    moreover have "tracked PROCESS_WEBHOOK wd_id delivery_phase (deliveries s') (jobs s')"
      using p(7) pulls(2,3) by (auto intro: delivery_tracking.tracked_others)
    ultimately show ?thesis using p(1) pulls(2) by (simp add: webhook_inv_def webhook_schema_def pull_inv_def)
  next
    case (claim locked now worker kinds x)
    then have op: "claim_job locked now worker kinds s = Inr (x, s')" and ok: "webhook_schema s'"
      by (simp_all add: transaction_Inr_iff)
    then have "deliveries s' = deliveries s" "sync_runs s' = sync_runs s" by (auto elim!: claim_job_Inr)
    with op ok p show ?thesis
      using jobs_inv_claim [OF op p(3)] sync_tracking.tracked_claim [OF op p(3,6)]
        delivery_tracking.tracked_claim [OF op p(3,7)]
      by (intro webhook_invI) simp_all
  next
    case (heartbeat now now' c b)
    then have op: "Jobs.heartbeat now now' c s = Inr (b, s')" and ok: "webhook_schema s'"
      by (simp_all add: transaction_Inr_iff)
    then have "deliveries s' = deliveries s" "sync_runs s' = sync_runs s" by (auto elim!: heartbeat_Inr)
    with op ok p show ?thesis
      using jobs_inv_heartbeat [OF op p(3)] sync_tracking.tracked_heartbeat [OF op p(3,6)]
        delivery_tracking.tracked_heartbeat [OF op p(3,7)]
      by (intro webhook_invI) simp_all
  next
    case receive
    then show ?thesis by (auto simp: transaction_Inr_iff intro: webhook_inv_received [OF inv])
  next
    case execute
    then show ?thesis by (auto simp: execute_webhook_def transaction_Inr_iff intro: webhook_inv_executed [OF inv])
  qed
qed

interpretation webhooks: transition_system webhook_inv webhook_step webhook_inv
  by unfold_locales (auto intro: webhook_step_inv)

end
