(* ===== verification/Webhook_Properties.thy ===== *)
theory Webhook_Properties
  imports Webhook_System
begin

section \<open>Properties of webhook deliveries\<close>

text \<open>
  Which requests may store a delivery, that a delivery is stored once, that deliveries move with
  their jobs, and what the removal of an installation does to the connections.
\<close>

subsection \<open>Deliveries and jobs\<close>

text \<open>
  C21. Every stored delivery is carried to its end: in every state that receipts, workers, the queue
  and the synchronisation reach together, a delivery has exactly one job; it waits precisely while
  that job can still be executed, is PROCESSED or IGNORED precisely when the job succeeded, FAILED
  when it is dead and CANCELED when it is cancelled; no delivery id is stored twice; and the
  synchronisation runs that deliveries start keep matching their own jobs.
\<close>

theorem deliveries_match_jobs:
  assumes "webhook_inv s" and "webhook_step\<^sup>*\<^sup>* s t" and "d \<in> set (deliveries t)"
  shows "(\<exists>j. (\<forall>k \<in> set (jobs t). carries PROCESS_WEBHOOK (wd_id d) k = (k = j)) \<and> j \<in> set (jobs t) \<and>
      (wd_status d = WH_PENDING \<or> wd_status d = WH_PROCESSING) = (job_state j = READY \<or> job_state j = LEASED) \<and>
      (wd_status d = WH_PROCESSED \<or> wd_status d = WH_IGNORED) = (job_state j = SUCCEEDED) \<and>
      (wd_status d = WH_FAILED) = (job_state j = DEAD) \<and>
      (wd_status d = WH_CANCELED) = (job_state j = CANCELED)) \<and>
    distinct (map wd_delivery_id (deliveries t)) \<and>
    tracked SYNC_PULL_REQUESTS sr_id sync_phase (sync_runs t) (jobs t)"
proof -
  note p = webhook_inv_parts [OF webhooks.inv_steps [OF assms(2,1)]]
  obtain j where j: "j \<in> set (jobs t)" "carries PROCESS_WEBHOOK (wd_id d) j"
    using delivery_tracking.tracked_carrier(1) [OF p(7,4) assms(3)] by blast
  have phase: "job_phase (job_state j) = status_phase (wd_status d)"
    using delivery_tracking.tracked_carrier(2) [OF p(7,4) assms(3) j] by (simp add: delivery_phase_def)
  have "(wd_status d = WH_PENDING \<or> wd_status d = WH_PROCESSING) = (job_state j = READY \<or> job_state j = LEASED)"
    "(wd_status d = WH_PROCESSED \<or> wd_status d = WH_IGNORED) = (job_state j = SUCCEEDED)"
    "(wd_status d = WH_FAILED) = (job_state j = DEAD)" "(wd_status d = WH_CANCELED) = (job_state j = CANCELED)"
    using phase by (cases "job_state j"; cases "wd_status d"; simp)+
  moreover have "\<forall>k \<in> set (jobs t). carries PROCESS_WEBHOOK (wd_id d) k = (k = j)"
    using j carrier_unique [OF p(4) j(1) _ j(2)] by blast
  moreover have "distinct (map wd_delivery_id (deliveries t))"
  proof -
    have ok: "deliveries_ok (deliveries t)" using p(1) by (simp add: webhook_schema_def)
    then have "map (\<lambda>d. (wd_provider d, wd_delivery_id d)) (deliveries t) = map (Pair ''GITHUB'') (map wd_delivery_id (deliveries t))"
      by (auto simp: deliveries_ok_def delivery_row_ok_def list_all_iff)
    moreover have "distinct (map (\<lambda>d. (wd_provider d, wd_delivery_id d)) (deliveries t))"
      using ok by (simp add: deliveries_ok_def)
    ultimately show ?thesis by (simp only: distinct_map)
  qed
  ultimately show ?thesis using j(1) p(6) by blast
qed

subsection \<open>Signed deliveries only\<close>

lemma read_body_concat: "read_body data chunks = Some body \<Longrightarrow> body = data @ concat chunks"
  by (induction chunks arbitrary: data) (fastforce split: if_splits)+

text \<open>
  C22. Only a request signed with the configured secret can change anything: if a request to the
  route changes the database, the secret is configured, the body is at most one mebibyte, the
  signature header is the HMAC of exactly these bytes, and what was added is one delivery, whose
  values are those of the validated event and satisfy every constraint of the table, with one ready
  job for it.
\<close>

theorem signed_deliveries_only:
  assumes "github_webhook loads hmac sha connected secret db_now unseen did jid headers chunks s = (r, s')"
    and "s' \<noteq> s" and "\<forall>x. is_hex 64 (sha x)"
  shows "connected \<and> truthy secret \<and> length (concat chunks) \<le> max_body \<and>
    hh_signature headers = ''sha256='' @ hmac (the secret) (concat chunks) \<and>
    r = Inr \<lparr>rp_status = 202, rp_detail = None\<rparr> \<and>
    (\<exists>ev repo. verify_delivery loads hmac sha (concat chunks) (hh_signature headers) (the secret)
         (hh_delivery headers) (hh_event headers) = Inr (Some ev) \<and> event_valid ev \<and>
       deliveries s' = deliveries s @ [new_delivery db_now did ev repo] \<and>
       delivery_row_ok (new_delivery db_now did ev repo) \<and>
       jobs s' = jobs s @ [new_job sha db_now jid PROCESS_WEBHOOK did (map_option rs_workspace_id repo)])"
proof -
  have conf: "connected" "truthy secret"
    using assms(1,2) by (auto simp: github_webhook_def split: if_splits)
  with assms(1,2) obtain body where body: "read_body [] chunks = Some body"
    by (auto simp: github_webhook_def split: option.splits)
  let ?v = "verify_delivery loads hmac sha body (hh_signature headers) (the secret) (hh_delivery headers) (hh_event headers)"
  have run: "(case ?v of Inl e \<Rightarrow> (rejected e, s) | Inr None \<Rightarrow> (Inr \<lparr>rp_status = 204, rp_detail = None\<rparr>, s)
      | Inr (Some ev) \<Rightarrow>
          (case transaction webhook_schema (receive sha db_now unseen did jid ev) s of
             (Inl e, s') \<Rightarrow> (rejected e, s')
           | (Inr status, s') \<Rightarrow> (Inr \<lparr>rp_status = status, rp_detail = None\<rparr>, s'))) = (r, s')"
    using assms(1) conf body by (simp add: github_webhook_def)
  with assms(2) obtain ev where ev: "?v = Inr (Some ev)"
    by (auto split: sum.splits option.splits)
  obtain a s1 where "transaction webhook_schema (receive sha db_now unseen did jid ev) s = (a, s1)" by fastforce
  with run ev have tx: "transaction webhook_schema (receive sha db_now unseen did jid ev) s = (a, s')"
    and r: "r = (case a of Inl e \<Rightarrow> rejected e | Inr status \<Rightarrow> Inr \<lparr>rp_status = status, rp_detail = None\<rparr>)"
    by (auto split: sum.splits)
  have all: "body = concat chunks" using read_body_concat [OF body] by simp
  note v = verify_delivery_Some [OF ev]
  from tx assms(2) obtain status where a: "a = Inr status"
    by (cases a) (auto dest: transaction_raises)
  with tx have op: "receive sha db_now unseen did jid ev s = Inr (status, s')" and ok: "webhook_schema s'"
    by (simp_all add: transaction_Inr_iff)
  from op show ?thesis
  proof (cases rule: receive_Inr)
    case (fresh repo)
    have "delivery_row_ok (new_delivery db_now did ev repo)"
      using ok by (simp add: fresh(3) delivered_def webhook_schema_def deliveries_ok_def)
    with conf v all ev r a fresh(2) assms(3) show ?thesis
      by (auto simp: fresh(3) delivered_def)
  qed (use assms(2) in simp_all)
qed

subsection \<open>Receipts\<close>

definition fresh_hook_keys :: "(string \<Rightarrow> string) \<Rightarrow> uuid \<Rightarrow> uuid \<Rightarrow> uuid option \<Rightarrow> 'a webhook_tables_scheme \<Rightarrow> bool" where
  "fresh_hook_keys sha did jid wid s \<longleftrightarrow>
     (\<forall>d \<in> set (deliveries s). wd_id d \<noteq> did) \<and>
     (\<forall>j \<in> set (jobs s). job_id j \<noteq> jid \<and> job_aggregate_id j \<noteq> did \<and>
        job_dedupe_key j \<noteq> sha (dedupe_text PROCESS_WEBHOOK did wid)) \<and>
     is_hex 64 (sha (dedupe_text PROCESS_WEBHOOK did wid))"

text \<open>The connection an event of a pull request is mapped to, in an active workspace.\<close>

definition connected_for :: "int \<Rightarrow> int \<Rightarrow> repository \<Rightarrow> 'a repository_tables_scheme \<Rightarrow> bool" where
  "connected_for inst gid q s \<longleftrightarrow>
     q \<in> set (repositories s) \<and> rc_installation_id q = inst \<and> rc_github_id q = gid \<and> rc_status q = R_ACTIVE \<and>
     (\<exists>w \<in> set (workspaces s). ws_id w = rc_workspace_id q \<and> ws_status w = ACTIVE)"

lemma event_require_holds:
  assumes "repository_schema s" and "connected_for inst gid q s"
  shows "event_require (rc_workspace_id q) (rc_id q) (rc_generation q) s = Inr (repo_snapshot q, s)"
proof -
  from assms(2) obtain w where w: "w \<in> set (workspaces s)" "ws_id w = rc_workspace_id q" "ws_status w = ACTIVE"
    by (auto simp: connected_for_def)
  have "lock_workspace (rc_workspace_id q) s = Inr (Some w, s)"
    using lock_workspace_found [OF _ w(1)] assms(1) w(2) by (simp add: repository_schema_def workspace_schema_def)
  then have "lock_system (rc_workspace_id q) s = Inr (True, s)"
    using w(3) by (simp add: lock_system_def bind_def ret_def active_workspace_def)
  moreover have "get_repository (rc_workspace_id q) (rc_id q) s = Inr (Some q, s)"
    using assms by (intro get_repository_found) (simp_all add: connected_for_def)
  ultimately show ?thesis
    using assms(2) by (simp add: event_require_def bind_def ret_def connected_for_def)
qed

lemma event_mapping_total:
  assumes "repositories_ok (repositories s)"
  shows "event_mapping inst gid s \<noteq> Inl e"
proof -
  have "filter (\<lambda>r. rc_installation_id r = inst \<and> rc_github_id r = gid \<and> rc_status r = R_ACTIVE) (repositories s) =
      filter (\<lambda>r. rc_installation_id r = inst \<and> rc_github_id r = gid \<and> rc_status r = R_ACTIVE)
        (filter repo_live (repositories s))"
    by (auto simp: repo_live_def intro!: filter_cong)
  moreover have "length (filter (\<lambda>r. rc_installation_id r = inst \<and> rc_github_id r = gid \<and> rc_status r = R_ACTIVE)
        (filter repo_live (repositories s))) \<le> 1"
    using assms by (intro length_filter_distinct [of rc_github_id _ _ gid]) (auto simp: repositories_ok_def)
  ultimately show ?thesis by (simp add: event_mapping_def select_one_def one_or_none_Inl)
qed

lemma live_same_id:
  "repositories_ok rs \<Longrightarrow> x \<in> set rs \<Longrightarrow> y \<in> set rs \<Longrightarrow> repo_live x \<Longrightarrow> repo_live y \<Longrightarrow>
   rc_github_id x = rc_github_id y \<Longrightarrow> x = y"
  unfolding repositories_ok_def by (auto dest!: distinct_key_unique [where x = x and y = y])

text \<open>The mapping of an event reads, and either finds its connection or refuses it.\<close>

lemma event_mapped_outcomes:
  assumes "repository_schema s"
  shows "connected_for inst gid q s \<Longrightarrow> attempt_app (event_mapped inst gid) s = Inr (Inr (Some (repo_snapshot q)), s)"
    and "\<nexists>q. connected_for inst gid q s \<Longrightarrow> \<exists>m. attempt_app (event_mapped inst gid) s = Inr (m, s) \<and>
      (\<forall>repo. m \<noteq> Inr (Some repo))"
proof -
  have ok: "repositories_ok (repositories s)" using assms by (simp add: repository_schema_def)
  then obtain f s1 where f: "event_mapping inst gid s = Inr (f, s1)"
    using event_mapping_total by (metis old.sum.exhaust surj_pair)
  have s1: "s1 = s" and some: "case f of None \<Rightarrow> \<forall>r \<in> set (repositories s).
        \<not> (rc_installation_id r = inst \<and> rc_github_id r = gid \<and> rc_status r = R_ACTIVE)
      | Some r \<Rightarrow> r \<in> set (repositories s) \<and> rc_installation_id r = inst \<and> rc_github_id r = gid \<and> rc_status r = R_ACTIVE"
    using f unfolding event_mapping_def by (auto elim!: select_one_Inr_cases)
  {
    assume q: "connected_for inst gid q s"
    with some obtain r where r: "f = Some r" "r \<in> set (repositories s)" "rc_github_id r = gid" "rc_status r = R_ACTIVE"
      by (auto simp: connected_for_def split: option.splits)
    have "r = q" using q r by (intro live_same_id [OF ok]) (auto simp: connected_for_def repo_live_def)
    with f s1 r(1) event_require_holds [OF assms q]
    show "attempt_app (event_mapped inst gid) s = Inr (Inr (Some (repo_snapshot q)), s)"
      by (simp add: attempt_app_def event_mapped_def bind_def ret_def)
  next
    assume no: "\<nexists>q. connected_for inst gid q s"
    show "\<exists>m. attempt_app (event_mapped inst gid) s = Inr (m, s) \<and> (\<forall>repo. m \<noteq> Inr (Some repo))"
    proof (cases f)
      case None
      with f s1 show ?thesis by (simp add: attempt_app_def event_mapped_def bind_def ret_def)
    next
      case (Some r)
      let ?m = "event_require (rc_workspace_id r) (rc_id r) (rc_generation r)"
      have "\<exists>e. ?m s = Inl e"
      proof (rule ccontr)
        assume "\<nexists>e. ?m s = Inl e"
        then obtain x s2 where "?m s = Inr (x, s2)" by (cases "?m s") auto
        then have "\<exists>w \<in> set (workspaces s). ws_id w = rc_workspace_id r \<and> ws_status w = ACTIVE"
          by (auto dest!: event_require_reads simp: live_connection_def)
        with some Some no show False by (auto simp: connected_for_def)
      qed
      then have "?m s = Inl connection_changed" using event_require_error [OF assms] by blast
      with f s1 Some show ?thesis
        by (simp add: attempt_app_def event_mapped_def bind_def connection_changed_def)
    qed
  }
qed

lemma by_delivery_found:
  assumes "deliveries_ok (deliveries s)"
  shows "by_delivery [] i s = Inr (find (\<lambda>d. wd_delivery_id d = i) (deliveries s), s)"
proof -
  have github: "\<And>d. d \<in> set (deliveries s) \<Longrightarrow> wd_provider d = ''GITHUB''"
    using assms by (simp add: deliveries_ok_def delivery_row_ok_def list_all_iff)
  have keys: "distinct (map (\<lambda>d. (wd_provider d, wd_delivery_id d)) (deliveries s))"
    using assms by (simp add: deliveries_ok_def)
  show ?thesis
  proof (cases "find (\<lambda>d. wd_delivery_id d = i) (deliveries s)")
    case None
    then have "filter (\<lambda>d. wd_provider d = ''GITHUB'' \<and> wd_delivery_id d = i \<and> wd_id d \<notin> set []) (deliveries s) = []"
      by (auto simp: find_None_iff filter_empty_conv)
    then show ?thesis unfolding None by_delivery_def select_one_def by (simp add: one_or_none_def ret_def)
  next
    case (Some d)
    then have d: "d \<in> set (deliveries s)" "wd_delivery_id d = i" by (auto dest: find_SomeD)
    have "by_delivery [] i s = Inr (Some d, s)" unfolding by_delivery_def
      by (rule select_one_found [of "\<lambda>d. (wd_provider d, wd_delivery_id d)"]) (use keys d github in auto)
    with Some show ?thesis by simp
  qed
qed

lemma record_delivery_fresh:
  assumes ok: "webhook_schema s" and ev: "event_valid ev" and new: "\<forall>d \<in> set (deliveries s). wd_delivery_id d \<noteq> he_delivery_id ev"
    and keys: "fresh_hook_keys sha did jid (map_option rs_workspace_id repo) s"
    and repo: "if he_event ev = ''pull_request'' then \<exists>x. repo = Some x \<and> 0 < rs_generation x else repo = None"
  shows "record_delivery sha db_now did jid ev repo s = Inr (202, delivered db_now sha did jid ev repo s)"
    and "webhook_schema (delivered db_now sha did jid ev repo s)"
proof -
  let ?d = "new_delivery db_now did ev repo" and ?j = "new_job sha db_now jid PROCESS_WEBHOOK did (map_option rs_workspace_id repo)"
  have row: "delivery_row_ok ?d"
    using ev repo unfolding event_valid_def
    by (auto simp: delivery_row_ok_def new_delivery_def null_or_positive_def bigint_id_def split: option.splits if_splits)
  have rows: "deliveries_ok (deliveries s @ [?d])"
    using ok keys new row by (auto simp: webhook_schema_def deliveries_ok_def fresh_hook_keys_def new_delivery_def)
  have "job_row_ok ?j" using keys by (auto simp: job_row_ok_def new_job_def fresh_hook_keys_def)
  then have jobs: "jobs_ok (jobs s @ [?j])"
    using ok keys
    by (auto simp: webhook_schema_def pull_schema_def jobs_schema_def jobs_ok_def fresh_hook_keys_def new_job_def)
  have mid: "webhook_schema (deliveries_update (\<lambda>ds. ds @ [?d]) s)"
    using ok rows by (simp add: webhook_schema_def pull_schema_def jobs_schema_def repository_schema_def workspace_schema_def)
  show "webhook_schema (delivered db_now sha did jid ev repo s)"
    using ok rows jobs
    by (simp add: delivered_def webhook_schema_def pull_schema_def jobs_schema_def repository_schema_def workspace_schema_def)
  show "record_delivery sha db_now did jid ev repo s = Inr (202, delivered db_now sha did jid ev repo s)"
    using new mid
    by (auto simp: record_delivery_def add_delivery_def delivered_def enqueue_job_def Let_def new_delivery_def
        add_row_def txn_eval)
qed

text \<open>
  A delivery is recorded once. A delivery whose id is stored already changes nothing: it is
  answered 200 when it carries the same event and body, and refused as a mismatch otherwise. A new
  one for a repository that no active connection of an active workspace tracks is answered 204 and
  changes nothing. Any other new one is answered 202 and adds exactly one pending delivery with one
  ready job, and no constraint of the database can refuse them.
\<close>

theorem delivery_recorded_once:
  assumes "webhook_schema s" and "event_valid ev"
    and "\<And>wid. fresh_hook_keys sha did jid wid s"
  shows "(case find (\<lambda>d. wd_delivery_id d = he_delivery_id ev) (deliveries s) of
       Some d \<Rightarrow>
         transaction webhook_schema (receive sha db_now [] did jid ev) s =
           (if wd_body_digest d = he_digest ev \<and> wd_event d = he_event ev then Inr 200 else Inl delivery_mismatch, s)
     | None \<Rightarrow>
         if he_event ev \<noteq> ''pull_request''
         then transaction webhook_schema (receive sha db_now [] did jid ev) s =
                (Inr 202, delivered db_now sha did jid ev None s)
         else
           (case find (\<lambda>q. connected_for (he_installation_id ev) (the (he_repository_id ev)) q s) (repositories s) of
              None \<Rightarrow> transaction webhook_schema (receive sha db_now [] did jid ev) s = (Inr 204, s)
            | Some q \<Rightarrow> transaction webhook_schema (receive sha db_now [] did jid ev) s =
                (Inr 202, delivered db_now sha did jid ev (Some (repo_snapshot q)) s)))"
proof -
  let ?x = "find (\<lambda>d. wd_delivery_id d = he_delivery_id ev) (deliveries s)"
  have found: "by_delivery [] (he_delivery_id ev) s = Inr (?x, s)"
    using assms(1) by (intro by_delivery_found) (simp add: webhook_schema_def)
  have repos: "repository_schema s" using assms(1) by (simp add: webhook_schema_def pull_schema_def)
  show ?thesis
  proof (cases ?x)
    case (Some d)
    with found assms(1) show ?thesis
      by (simp add: receive_def same_delivery_def transaction_def bind_def ret_def raise_def)
  next
    case None
    then have new: "\<forall>d \<in> set (deliveries s). wd_delivery_id d \<noteq> he_delivery_id ev" by (auto simp: find_None_iff)
    show ?thesis
    proof (cases "he_event ev = ''pull_request''")
      case False
      with record_delivery_fresh [OF assms(1,2) new, of sha did jid None db_now] assms(3) found None
      show ?thesis by (simp add: receive_def transaction_def bind_def)
    next
      case True
      then obtain gid where gid: "he_repository_id ev = Some gid" "gid \<noteq> 0"
        using assms(2) by (auto simp: event_valid_def bigint_id_def split: option.splits)
      let ?q = "find (\<lambda>q. connected_for (he_installation_id ev) gid q s) (repositories s)"
      show ?thesis
      proof (cases ?q)
        case None
        then have "\<nexists>q. connected_for (he_installation_id ev) gid q s"
          by (auto simp: find_None_iff connected_for_def)
        from event_mapped_outcomes(2) [OF repos this] obtain m
          where "attempt_app (event_mapped (he_installation_id ev) gid) s = Inr (m, s)" "\<forall>repo. m \<noteq> Inr (Some repo)"
          by blast
        with found \<open>?x = None\<close> None True gid assms(1) show ?thesis
          by (auto simp: receive_def transaction_def bind_def ret_def split: sum.splits option.splits)
      next
        case (Some q)
        then have q: "connected_for (he_installation_id ev) gid q s" by (auto dest: find_SomeD)
        have "0 < rc_generation q"
          using repos q by (auto simp: repository_schema_def repositories_ok_def repository_row_ok_def list_all_iff connected_for_def)
        with record_delivery_fresh [OF assms(1,2) new, of sha did jid "Some (repo_snapshot q)" db_now] assms(3)
          event_mapped_outcomes(1) [OF repos q] found \<open>?x = None\<close> Some True gid
        show ?thesis by (simp add: receive_def transaction_def bind_def repo_snapshot_def)
      qed
    qed
  qed
qed

subsection \<open>Removal of an installation\<close>

definition removable :: "int \<Rightarrow> int list option \<Rightarrow> datetime \<Rightarrow> repository \<Rightarrow> bool" where
  "removable inst ids before r \<longleftrightarrow>
     rc_installation_id r = inst \<and> rc_status r = R_ACTIVE \<and> rc_connected_at r \<le> before \<and>
     (case ids of None \<Rightarrow> True | Some gs \<Rightarrow> rc_github_id r \<in> set gs)"

definition suspended :: "repository \<Rightarrow> repository" where
  "suspended r = r\<lparr>rc_status := SUSPENDED\<rparr>"

lemma suspended_keeps [simp]:
  "rc_id (suspended r) = rc_id r" "rc_status (suspended r) = SUSPENDED" "rc_workspace_id (suspended r) = rc_workspace_id r"
  "rc_github_id (suspended r) = rc_github_id r"
  by (simp_all add: suspended_def)

lemma suspended_live: "rc_status r = R_ACTIVE \<Longrightarrow> repo_live (suspended r) = repo_live r"
  by (simp add: repo_live_def)

lemma suspended_row: "rc_status r = R_ACTIVE \<Longrightarrow> repository_row_ok r \<Longrightarrow> repository_row_ok (suspended r)"
  by (auto simp: suspended_def repository_row_ok_def)

lemma lock_each_result:
  assumes "repository_schema s" and "set cs \<subseteq> set (repositories s)"
  shows "lock_each inst before cs s =
    Inr (map rc_id (filter (\<lambda>r. rc_status r = R_ACTIVE \<and> rc_installation_id r = inst \<and> rc_connected_at r \<le> before) cs), s)"
  using assms(2)
proof (induction cs)
  case Nil
  show ?case by (simp add: ret_def)
next
  case (Cons c cs)
  have "lock_system (rc_workspace_id c) s \<noteq> Inl e" for e
    using lock_system_total assms(1) by (auto simp: repository_schema_def workspace_schema_def)
  then obtain b s1 where b: "lock_system (rc_workspace_id c) s = Inr (b, s1)" by (metis old.sum.exhaust surj_pair)
  then have "s1 = s" using lock_system_reads by blast
  moreover have "get_repository (rc_workspace_id c) (rc_id c) s = Inr (Some c, s)"
    using assms(1) Cons.prems by (intro get_repository_found) simp_all
  ultimately show ?case using b Cons by (simp add: bind_def ret_def)
qed

lemma lock_affected_result:
  assumes "repository_schema s"
  shows "\<exists>rids. lock_affected inst ids before s = Inr (rids, s) \<and>
    set rids = rc_id ` {r \<in> set (repositories s). removable inst ids before r}"
  by (auto simp: lock_affected_def event_candidates_def bind_def gets_def removable_def lock_each_result [OF assms] split: option.splits)

lemma suspend_locked_result:
  assumes "distinct (map rc_id (repositories s))"
  shows "suspend_locked rids s =
    Inr ((), repositories_update (map (\<lambda>r. if rc_id r \<in> set rids \<and> rc_status r = R_ACTIVE then suspended r else r)) s)"
  using assms
proof (induction rids arbitrary: s)
  case Nil
  have "repositories_update (map (\<lambda>r. r)) s = s" by simp
  then show ?case by (simp add: ret_def)
next
  case (Cons rid rids)
  have "select_one repositories (\<lambda>r. rc_id r = rid) s \<noteq> Inl e" for e
    using Cons.prems by (intro select_one_unique [of rc_id _ _ _ rid]) auto
  then obtain f s1 where f: "select_one repositories (\<lambda>r. rc_id r = rid) s = Inr (f, s1)"
    by (metis old.sum.exhaust surj_pair)
  then show ?case
  proof (cases rule: select_one_Inr_cases)
    case None
    then have "map (\<lambda>r. if rc_id r \<in> set rids \<and> rc_status r = R_ACTIVE then suspended r else r) (repositories s) =
        map (\<lambda>r. if rc_id r \<in> set (rid # rids) \<and> rc_status r = R_ACTIVE then suspended r else r) (repositories s)"
      by (intro map_cong) auto
    with None f Cons show ?thesis
      by (auto simp: event_by_id_def bind_def intro: repository_tables.unfold_congs)
  next
    case (Some q)
    show ?thesis
    proof (cases "rc_status q = R_ACTIVE")
      case True
      have put: "put_row rc_id (suspended q) (repositories s) =
          map (\<lambda>r. if rc_id r = rid \<and> rc_status r = R_ACTIVE then suspended r else r) (repositories s)"
        unfolding put_row_def using Some(3,4) True Cons.prems
        by (intro map_cong) (auto dest: distinct_key_unique)
      let ?s = "repositories_update (put_row rc_id (suspended q)) s"
      have "suspend_locked (rid # rids) s = suspend_locked rids ?s"
        using Some f True by (simp add: event_by_id_def bind_def save_row_def modify_def suspended_def)
      also have "\<dots> = Inr ((), repositories_update (map (\<lambda>r. if rc_id r \<in> set rids \<and> rc_status r = R_ACTIVE then suspended r else r)) ?s)"
        using Cons.prems by (intro Cons.IH) simp
      also have "repositories_update (map (\<lambda>r. if rc_id r \<in> set rids \<and> rc_status r = R_ACTIVE then suspended r else r)) ?s =
          repositories_update (map (\<lambda>r. if rc_id r \<in> set (rid # rids) \<and> rc_status r = R_ACTIVE then suspended r else r)) s"
        by simp (rule repository_tables.unfold_congs, auto simp: put)
      finally show ?thesis .
    next
      case False
      have "map (\<lambda>r. if rc_id r \<in> set rids \<and> rc_status r = R_ACTIVE then suspended r else r) (repositories s) =
        map (\<lambda>r. if rc_id r \<in> set (rid # rids) \<and> rc_status r = R_ACTIVE then suspended r else r) (repositories s)"
        using Some(3,4) False Cons.prems by (intro map_cong) (auto dest: distinct_key_unique)
      with Some f Cons False show ?thesis
        by (auto simp: event_by_id_def bind_def intro: repository_tables.unfold_congs)
    qed
  qed
qed

lemma repositories_ok_suspended:
  assumes "repositories_ok rs" and "\<And>r. P r \<Longrightarrow> rc_status r = R_ACTIVE"
  shows "repositories_ok (map (\<lambda>r. if P r then suspended r else r) rs)"
proof -
  let ?f = "\<lambda>r. if P r then suspended r else r"
  have cols: "map rc_id (map ?f rs) = map rc_id rs"
    "map (\<lambda>r. (rc_workspace_id r, rc_github_id r)) (map ?f rs) = map (\<lambda>r. (rc_workspace_id r, rc_github_id r)) rs"
    by simp_all
  have "map rc_github_id (filter repo_live (map ?f rs)) = map rc_github_id (filter repo_live rs)"
    using assms(2) by (induction rs) (auto simp: suspended_live)
  moreover have "list_all repository_row_ok (map ?f rs)"
    using assms by (auto simp: repositories_ok_def list_all_iff suspended_row)
  ultimately show ?thesis using assms(1) unfolding repositories_ok_def by (simp only: cols)
qed

lemma deliveries_ok_closed:
  assumes "deliveries_ok ds" and "d \<in> set ds" and "st \<noteq> READY"
  shows "deliveries_ok (put_row wd_id (close_delivery t st code d) ds)"
proof -
  have row: "delivery_row_ok d" using assms by (simp add: deliveries_ok_def list_all_iff)
  then have "delivery_row_ok (close_delivery t st code d)"
    using assms(3) by (auto simp: delivery_row_ok_def close_delivery_def)
  moreover have "map (\<lambda>d. (wd_provider d, wd_delivery_id d)) (put_row wd_id (close_delivery t st code d) ds) =
      map (\<lambda>d. (wd_provider d, wd_delivery_id d)) ds"
    using assms(1,2)
    by (intro put_row_column) (auto simp: deliveries_ok_def close_delivery_def dest: distinct_key_unique)
  ultimately show ?thesis using assms(1) unfolding deliveries_ok_def by (simp add: list_all_put_row)
qed

text \<open>
  C23. The removal of an installation, or of some of its repositories, suspends exactly the
  connections it is about. A worker that still holds its lease completes such a delivery: of all
  connections those become suspended that are active, belong to the installation, were connected
  before the delivery was received and, when the event lists repositories, are among these; no
  other row of the table changes, a connection made after the removal included; the delivery is
  PROCESSED and its job succeeded.
\<close>

theorem removal_suspends_exactly:
  assumes "webhook_inv s" and "d \<in> set (deliveries s)" and "wd_event d \<noteq> ''pull_request''"
    and "wd_id d = claim_aggregate_id c" and "j \<in> set (jobs s)" and "job_id j = claim_id c" and "holds_lease c j"
    and "hc_fence ck < the (job_lease_until j)"
  shows "\<exists>s'. execute_webhook sha db_now sid jid ck c False s = (Inr (), s') \<and>
    repositories s' = map (\<lambda>r. if removable (wd_installation_id d)
        (if wd_event d = ''installation_repositories'' then Some (wd_affected d) else None) (wd_received_at d) r
      then suspended r else r) (repositories s) \<and>
    (\<exists>d' \<in> set (deliveries s'). wd_id d' = wd_id d \<and> wd_status d' = WH_PROCESSED) \<and>
    (\<exists>j' \<in> set (jobs s'). job_id j' = job_id j \<and> job_state j' = SUCCEEDED) \<and>
    sync_runs s' = sync_runs s \<and> workspaces s' = workspaces s"
proof -
  note p = webhook_inv_parts [OF assms(1)]
  have repos: "repository_schema s" using p(2) by (simp add: pull_schema_def)
  then have rok: "repositories_ok (repositories s)" by (simp add: repository_schema_def)
  let ?ids = "if wd_event d = ''installation_repositories'' then Some (wd_affected d) else None"
  let ?P = "removable (wd_installation_id d) ?ids (wd_received_at d)"
  have get: "get_delivery (wd_id d) s = Inr (Some d, s)"
    unfolding get_delivery_def using p(5) assms(2) by (intro select_one_key) simp_all
  obtain rids where lock: "lock_affected (wd_installation_id d) ?ids (wd_received_at d) s = Inr (rids, s)"
    and rids: "set rids = rc_id ` {r \<in> set (repositories s). ?P r}"
    using lock_affected_result [OF repos] by blast
  have targets: "lock_targets d s = Inr ((None, rids), s)"
    using assms(3) lock by (simp add: lock_targets_def bind_def ret_def)
  have fenced: "fence (hc_fence ck) c False s = Inr (Some j, s)"
    using assms(5-8) by (intro fence_Some [OF p(3)]) auto
  have history: "job_attempt_history j \<noteq> []"
    using jobs_inv_row [OF p(3) assms(5)] holds_lease_leased [OF assms(7)] by (rule leased_history_nonempty)
  obtain j' where fin: "finish (hc_finish ck) None False 5 j = Inr j'" using finish_total [OF history] by blast
  have j': "job_state j' = SUCCEEDED" "job_id j' = job_id j"
    using finish_keeps [OF fin] fin by (auto elim!: finish_Inr)
  let ?d = "close_delivery (hc_processed ck) (job_state j') None d"
  let ?m = "repositories_update (map (\<lambda>r. if rc_id r \<in> set rids \<and> rc_status r = R_ACTIVE then suspended r else r)) s"
  let ?s = "deliveries_update (put_row wd_id ?d) (jobs_update (put_row job_id j') ?m)"
  have "suspend_locked rids s = Inr ((), ?m)"
    using rok by (intro suspend_locked_result) (simp add: repositories_ok_def)
  then have run: "process_delivery sha db_now sid jid ck c False s = Inr ((), ?s)"
    using get targets fenced fin assms(3,4)
    by (simp add: process_delivery_def apply_delivery_def finish_job_def save_row_def txn_eval)
  have same: "repositories ?s = map (\<lambda>r. if ?P r then suspended r else r) (repositories s)"
  proof -
    have "rc_id r \<in> set rids \<and> rc_status r = R_ACTIVE \<longleftrightarrow> ?P r" if "r \<in> set (repositories s)" for r
      using that rids repositories_unique [OF rok] by (auto simp: removable_def image_iff)
    then show ?thesis by simp
  qed
  have "repositories_ok (repositories ?s)"
    unfolding same using rok by (rule repositories_ok_suspended) (simp add: removable_def)
  moreover have "jobs_ok (put_row job_id j' (jobs s))"
    using jobs_inv_finish [OF p(3) assms(5) fin] by (simp add: jobs_inv_def jobs_schema_def)
  moreover have "deliveries_ok (put_row wd_id ?d (deliveries s))"
    using p(1) assms(2) j'(1) by (intro deliveries_ok_closed) (simp_all add: webhook_schema_def)
  ultimately have ok: "webhook_schema ?s"
    using p(1) by (simp add: webhook_schema_def pull_schema_def repository_schema_def workspace_schema_def jobs_schema_def)
  have "?d \<in> set (deliveries ?s)" using assms(2) by (auto intro!: put_row_mem)
  then have "\<exists>d' \<in> set (deliveries ?s). wd_id d' = wd_id d \<and> wd_status d' = WH_PROCESSED"
    by (rule bexI [rotated]) (simp add: close_delivery_def j'(1))
  moreover have "j' \<in> set (jobs ?s)" using assms(5) j'(2) by (auto intro!: put_row_mem)
  then have "\<exists>j' \<in> set (jobs ?s). job_id j' = job_id j \<and> job_state j' = SUCCEEDED"
    using j' by (intro bexI [of _ j']) simp_all
  moreover have "execute_webhook sha db_now sid jid ck c False s = (Inr (), ?s)"
    using run ok by (simp add: execute_webhook_def transaction_def)
  ultimately show ?thesis
    using same by (intro exI [of _ ?s]) simp
qed

subsection \<open>Concrete deliveries\<close>

text \<open>
  GitHub reports the deletion of installation 5, which the workspace 10 is connected through: the
  request is signed, stored with its job, leased by a worker and executed.
\<close>

definition hook_shop :: "webhook_delivery list \<Rightarrow> job list \<Rightarrow> webhook_tables" where
  "hook_shop ds js = pull_tables.extend (sync_shop [] js []) (webhook_tables.fields ds)"

definition shop_event :: hook_event where
  "shop_event = \<lparr>he_delivery_id = ''d'', he_event = ''installation'', he_action = ''deleted'', he_installation_id = 5,
     he_repository_id = None, he_number = None, he_affected = [], he_digest = replicate 64 CHR ''a''\<rparr>"

definition shop_payload :: json where
  "shop_payload = JObj [(''action'', JStr ''deleted''), (''installation'', JObj [(''id'', JInt 5)])]"

definition shop_digest :: "string \<Rightarrow> string" where
  "shop_digest x = replicate 64 CHR ''a''"

definition shop_mac :: "string \<Rightarrow> string \<Rightarrow> string" where
  "shop_mac key x = replicate 64 CHR ''b''"

definition shop_headers :: hook_headers where
  "shop_headers = \<lparr>hh_signature = ''sha256='' @ shop_mac ''k'' ''{}'', hh_delivery = ''d'', hh_event = ''installation''\<rparr>"

definition shop_delivery :: webhook_delivery where
  "shop_delivery = new_delivery 2 95 shop_event None"

definition shop_hook_job :: job where
  "shop_hook_job = new_job shop_digest 2 96 PROCESS_WEBHOOK 95 None"

lemma hook_shop_fields [simp]:
  "deliveries (hook_shop ds js) = ds" "jobs (hook_shop ds js) = js" "sync_runs (hook_shop ds js) = []"
  "repositories (hook_shop ds js) = [shop_row]"
  "deliveries_update f (hook_shop ds js) = hook_shop (f ds) js" "jobs_update g (hook_shop ds js) = hook_shop ds (g js)"
  by (simp_all add: hook_shop_def pull_tables.extend_def webhook_tables.fields_def sync_shop_def)

lemma hook_shop_pulls: "pull_schema (hook_shop ds js) \<longleftrightarrow> jobs_ok js"
  by (simp add: hook_shop_def pull_tables.extend_def webhook_tables.fields_def pull_schema_def repository_schema_def
      repositories_ok_def repository_row_ok_def candidate_sets_ok_def rule_configs_ok_def jobs_schema_def
      pulls_ok_def sync_runs_ok_def sync_shop_def space_ok_defs shop_row_def new_repository_def shop_verified_def
      space_user_def new_member_def repo_live_def)

lemma hook_shop_inv: "webhook_inv (hook_shop [] [])"
  by (rule webhook_invI)
    (simp_all add: webhook_schema_def hook_shop_pulls deliveries_ok_def jobs_inv_def jobs_schema_def jobs_ok_def tracked_def)

lemma shop_event_valid: "event_valid shop_event"
  by (simp add: event_valid_def shop_event_def hook_events_def delivery_shape_def delivery_char_def allowed_actions_def
      bigint_id_def hex_chars_def)

lemma shop_verifies:
  "verify_delivery (\<lambda>_. Inr shop_payload) shop_mac shop_digest ''{}'' (hh_signature shop_headers) ''k'' ''d'' ''installation'' =
   Inr (Some shop_event)"
  by (simp add: verify_delivery_def max_body_def shop_headers_def shop_mac_def signature_shape_def delivery_shape_def
      delivery_char_def hook_events_def read_event_def proceed_def shop_payload_def lookup_last_def allowed_actions_def
      positive_def event_targets_def shop_digest_def shop_event_def hex_chars_def)

lemma shop_fresh: "fresh_hook_keys shop_digest 95 96 wid (hook_shop [] [])"
  by (simp add: fresh_hook_keys_def shop_digest_def hex_chars_def)

lemma shop_receives:
  "transaction webhook_schema (receive shop_digest 2 [] 95 96 shop_event) (hook_shop [] []) =
   (Inr 202, hook_shop [shop_delivery] [shop_hook_job])"
proof -
  have ok: "webhook_schema (hook_shop [] [])" using webhook_inv_parts(1) [OF hook_shop_inv] .
  have "by_delivery [] ''d'' (hook_shop [] []) = Inr (None, hook_shop [] [])"
    using ok by (subst by_delivery_found) (simp_all add: webhook_schema_def)
  then show ?thesis
    using record_delivery_fresh [OF ok shop_event_valid _ shop_fresh, of None 2]
    by (simp add: receive_def transaction_def bind_def shop_event_def delivered_def shop_delivery_def shop_hook_job_def)
qed

theorem delivery_recorded_once_witness:
  "transaction webhook_schema (receive shop_digest 2 [] 95 96 shop_event) (hook_shop [] []) =
   (Inr 202, delivered 2 shop_digest 95 96 shop_event None (hook_shop [] []))"
  using delivery_recorded_once [OF webhook_inv_parts(1) [OF hook_shop_inv] shop_event_valid shop_fresh, of 2]
  by (simp add: shop_event_def)

theorem deliveries_match_jobs_witness:
  "wd_status shop_delivery = WH_PENDING \<and> job_state shop_hook_job = READY"
proof -
  have "webhook_step\<^sup>*\<^sup>* (hook_shop [] []) (hook_shop [shop_delivery] [shop_hook_job])"
    using webhook_step.receive [OF shop_receives] by (rule r_into_rtranclp)
  from deliveries_match_jobs [OF hook_shop_inv this, of shop_delivery] show ?thesis
    by (auto simp: shop_delivery_def shop_hook_job_def new_delivery_def new_job_def)
qed

theorem signed_deliveries_only_witness:
  "hh_signature shop_headers = ''sha256='' @ shop_mac ''k'' (concat [''{'', ''}'']) \<and>
   deliveries (snd (github_webhook (\<lambda>_. Inr shop_payload) shop_mac shop_digest True (Some ''k'') 2 [] 95 96 shop_headers
     [''{'', ''}''] (hook_shop [] []))) \<noteq> []"
proof -
  let ?r = "github_webhook (\<lambda>_. Inr shop_payload) shop_mac shop_digest True (Some ''k'') 2 [] 95 96 shop_headers
     [''{'', ''}''] (hook_shop [] [])"
  have r: "?r = (Inr \<lparr>rp_status = 202, rp_detail = None\<rparr>, hook_shop [shop_delivery] [shop_hook_job])"
    using shop_verifies shop_receives by (simp add: github_webhook_def max_body_def shop_headers_def)
  have "deliveries (hook_shop [shop_delivery] [shop_hook_job]) \<noteq> deliveries (hook_shop [] [])" by simp
  then have changed: "hook_shop [shop_delivery] [shop_hook_job] \<noteq> hook_shop [] []" by metis
  have digest: "\<forall>x. is_hex 64 (shop_digest x)" by (simp add: shop_digest_def hex_chars_def)
  show ?thesis using signed_deliveries_only [OF r changed digest] r by simp
qed

definition shop_hook_leased :: job where
  "shop_hook_leased = lease 3 ''w'' shop_hook_job"

lemma shop_hook_leased_facts: "job_id shop_hook_leased = 96" "job_kind shop_hook_leased = PROCESS_WEBHOOK"
  "job_aggregate_id shop_hook_leased = 95" "job_state shop_hook_leased = LEASED"
  "job_claimed_by shop_hook_leased = Some ''w''" "job_lease_until shop_hook_leased = Some 60000003"
  by (simp_all add: shop_hook_leased_def lease_def shop_hook_job_def new_job_def)

lemma shop_hook_leased_inv: "job_inv shop_hook_leased"
  unfolding shop_hook_leased_def shop_hook_job_def
  by (intro job_inv_lease job_inv_new) (simp_all add: shop_digest_def hex_chars_def new_job_def)

lemma shop_delivery_facts: "wd_id shop_delivery = 95" "wd_status shop_delivery = WH_PENDING"
  "wd_event shop_delivery = ''installation''" "wd_installation_id shop_delivery = 5" "wd_received_at shop_delivery = 2"
  by (simp_all add: shop_delivery_def new_delivery_def shop_event_def)

lemma hook_busy_inv: "webhook_inv (hook_shop [shop_delivery] [shop_hook_leased])"
proof (rule webhook_invI)
  have row: "job_row_ok shop_hook_leased" using shop_hook_leased_inv by (simp add: job_inv_def)
  then show inv: "jobs_inv (hook_shop [shop_delivery] [shop_hook_leased])"
    using shop_hook_leased_inv by (simp add: jobs_inv_def jobs_schema_def jobs_ok_def)
  have "delivery_row_ok shop_delivery"
    by (simp add: shop_delivery_def new_delivery_def shop_event_def delivery_row_ok_def null_or_positive_def hook_events_def hex_chars_def)
  then show "webhook_schema (hook_shop [shop_delivery] [shop_hook_leased])"
    using row by (simp add: webhook_schema_def hook_shop_pulls deliveries_ok_def jobs_ok_def)
qed (simp_all add: tracked_def carries_def delivery_phase_def shop_hook_leased_facts shop_delivery_facts)

theorem removal_suspends_exactly_witness:
  "repositories (snd (execute_webhook shop_digest 4 97 98 \<lparr>hc_fence = 4, hc_finish = 5, hc_processed = 5\<rparr>
     (claim_of shop_hook_leased ''w'') False (hook_shop [shop_delivery] [shop_hook_leased]))) = [suspended shop_row]"
proof -
  have "removable 5 None 2 shop_row"
    by (simp add: removable_def shop_row_def new_repository_def shop_verified_def)
  then show ?thesis
    using removal_suspends_exactly [OF hook_busy_inv, of shop_delivery "claim_of shop_hook_leased ''w''" shop_hook_leased
        "\<lparr>hc_fence = 4, hc_finish = 5, hc_processed = 5\<rparr>" shop_digest 4 97 98]
    by (auto simp: shop_delivery_facts shop_hook_leased_facts claim_of_def holds_lease_def)
qed

end
