(* ===== verification/GitHub_Client.thy ===== *)
theory GitHub_Client
  imports Effects Pull_Requests
begin

section \<open>The GitHub client\<close>

text \<open>
  \<^verbatim>\<open>app/shared/github/client.py\<close>: one request with the classification of its answer, the tokens of a
  user and of an installation; \<^verbatim>\<open>app/domain/pull_request/github.py\<close>: one page or one pull request;
  \<^verbatim>\<open>app/domain/repository/github.py\<close>: the repositories a user may connect. The HTTP library, the JSON
  decoder, the signature of the application token and the validation of the declared models
  (pydantic) are parameters.
\<close>

text \<open>
  An answer: its status, its headers (lower-case names) and the chunks of its body; \<open>hs_cut\<close> says that
  the stream fails after them.
\<close>

record http_request =
  hq_method :: string
  hq_url :: string
  hq_headers :: "(string \<times> string) list"
  hq_body :: "json option"

record http_response =
  hs_status :: int
  hs_headers :: "(string \<times> string) list"
  hs_chunks :: "string list"
  hs_cut :: bool

record 'w github =
  gh_http :: "http_request \<Rightarrow> ('w, http_response) io"
  gh_loads :: "string \<Rightarrow> exn + json"
  gh_sign :: "int \<Rightarrow> int \<Rightarrow> string \<Rightarrow> exn + string"
  gh_time :: int
  gh_ready :: bool
  gh_app_id :: int
  gh_client_id :: string
  gh_client_secret :: string
  gh_callback_url :: string

definition unavailable :: exn where
  "unavailable = GitHubFailure ''GITHUB_UNAVAILABLE'' None"

definition invalid_response :: exn where
  "invalid_response = GitHubFailure ''GITHUB_INVALID_RESPONSE'' None"

definition github_ready :: "'w github \<Rightarrow> ('w, unit) io" where
  "github_ready g = (if gh_ready g then io_ret () else io_raise (GitHubFailure ''GITHUB_APP_NOT_CONFIGURED'' None))"

fun config_error :: "exn \<Rightarrow> exn" where
  "config_error (ValueError m) = GitHubFailure ''GITHUB_APP_CONFIG_INVALID'' None"
| "config_error TypeError = GitHubFailure ''GITHUB_APP_CONFIG_INVALID'' None"
| "config_error InvalidTokenError = GitHubFailure ''GITHUB_APP_CONFIG_INVALID'' None"
| "config_error e = e"

definition app_jwt :: "'w github \<Rightarrow> ('w, string) io" where
  "app_jwt g =
     io_bind (github_ready g) (\<lambda>_.
     case gh_sign g (gh_time g - 60) (gh_time g + 480) (int_text (gh_app_id g)) of
       Inl e \<Rightarrow> io_raise (config_error e)
     | Inr token \<Rightarrow> io_ret token)"

subsection \<open>One request\<close>

definition header :: "string \<Rightarrow> http_response \<Rightarrow> string option" where
  "header name r = map_of (hs_headers r) name"

definition max_response :: nat where
  "max_response = 2 * 1024 * 1024"

fun read_chunks :: "string \<Rightarrow> string list \<Rightarrow> exn + string" where
  "read_chunks content [] = Inr content"
| "read_chunks content (c # cs) =
     (let content' = content @ c in
      if length content' > max_response then Inl (GitHubFailure ''GITHUB_RESPONSE_TOO_LARGE'' None)
      else read_chunks content' cs)"

text \<open>The delay asked for; a text that is no number leaves the delay as it is.\<close>

definition retry_delay :: "int \<Rightarrow> http_response \<Rightarrow> int" where
  "retry_delay now r =
     (let after = (case header ''retry-after'' r of None \<Rightarrow> ''60'' | Some x \<Rightarrow> x);
          delay = (case parse_int after of None \<Rightarrow> 60 | Some n \<Rightarrow> max 1 (min 86400 n));
          reset = (case header ''x-ratelimit-reset'' r of None \<Rightarrow> ''0'' | Some x \<Rightarrow> x)
      in case parse_int reset of None \<Rightarrow> delay | Some t \<Rightarrow> max delay (min 86400 (t - now + 1)))"

definition rate_limited :: "http_response \<Rightarrow> bool" where
  "rate_limited r \<longleftrightarrow>
     hs_status r \<in> {403, 429} \<and>
     (truthy (header ''retry-after'' r) \<or> header ''x-ratelimit-remaining'' r = Some ''0'')"

text \<open>The decoded body with the entity tag; without \<open>cache\<close> the caller gets no tag.\<close>

definition read_response :: "'w github \<Rightarrow> bool \<Rightarrow> http_response \<Rightarrow> exn + json \<times> string option" where
  "read_response g cache r =
     (case read_chunks [] (hs_chunks r) of
        Inl e \<Rightarrow> Inl e
      | Inr content \<Rightarrow>
          if hs_cut r then Inl HTTPError
          else
            (case gh_loads g content of
               Inl e \<Rightarrow> Inl e
             | Inr data \<Rightarrow>
                 (let tag = header ''etag'' r;
                      tag' = (if truthy tag \<and> length (the tag) > 512 then None else tag)
                  in Inr (data, if cache then tag' else None))))"

definition respond ::
  "'w github \<Rightarrow> string option \<Rightarrow> bool \<Rightarrow> http_response \<Rightarrow> exn + json \<times> string option" where
  "respond g etag cache r =
     (if hs_status r = 304 \<and> cache then
        (if \<not> truthy etag then Inl invalid_response else Inr (JNull, etag))
      else if rate_limited r then Inl (GitHubFailure ''GITHUB_RATE_LIMIT'' (Some (retry_delay (gh_time g) r)))
      else if hs_status r \<in> {401, 403, 404} then Inl (GitHubFailure ''GITHUB_ACCESS_UNAVAILABLE'' None)
      else if hs_status r \<ge> 500 then Inl unavailable
      else if \<not> (200 \<le> hs_status r \<and> hs_status r < 300) then Inl invalid_response
      else read_response g cache r)"

text \<open>\<open>except (httpx.HTTPError, ValueError)\<close>\<close>

fun transport_error :: "exn \<Rightarrow> exn" where
  "transport_error HTTPError = unavailable"
| "transport_error (ValueError m) = unavailable"
| "transport_error e = e"

definition request_headers :: "bool \<Rightarrow> string option \<Rightarrow> string option \<Rightarrow> (string \<times> string) list" where
  "request_headers oauth etag token =
     [(''Accept'', if oauth then ''application/json'' else ''application/vnd.github+json''),
      (''X-GitHub-Api-Version'', ''2022-11-28'')] @
     (if truthy etag then [(''If-None-Match'', the etag)] else []) @
     (if truthy token then [(''Authorization'', ''Bearer '' @ the token)] else [])"

definition github_request ::
  "'w github \<Rightarrow> string \<Rightarrow> string \<Rightarrow> string option \<Rightarrow> json option \<Rightarrow> bool \<Rightarrow> string option \<Rightarrow> bool \<Rightarrow>
   ('w, json \<times> string option) io" where
  "github_request g method path token body oauth etag cache =
     (if \<not> starts_with ''/'' path \<or> starts_with ''//'' path then io_raise unavailable
      else
        io_try
          (io_bind
            (gh_http g
              \<lparr>hq_method = method,
               hq_url = (if oauth then ''https://github.com'' else ''https://api.github.com'') @ path,
               hq_headers = request_headers oauth etag token, hq_body = body\<rparr>)
            (\<lambda>r. case respond g etag cache r of Inl e \<Rightarrow> io_raise e | Inr x \<Rightarrow> io_ret x))
          (\<lambda>e. io_raise (transport_error e)))"

subsection \<open>Tokens\<close>

text \<open>A token is text of 1 to 4096 characters.\<close>

definition token_of :: "string \<Rightarrow> json \<Rightarrow> ('w, string) io" where
  "token_of k data =
     (case as_str (json_get k data) of
        None \<Rightarrow> io_raise unavailable
      | Some t \<Rightarrow> if 1 \<le> length t \<and> length t \<le> 4096 then io_ret t else io_raise unavailable)"

definition user_token :: "'w github \<Rightarrow> string \<Rightarrow> string \<Rightarrow> ('w, string) io" where
  "user_token g code binding =
     io_bind (github_ready g) (\<lambda>_.
     io_bind (github_request g ''POST'' ''/login/oauth/access_token'' None
        (Some (JObj [(''client_id'', JStr (gh_client_id g)), (''client_secret'', JStr (gh_client_secret g)),
           (''code'', JStr code), (''redirect_uri'', JStr (gh_callback_url g)), (''code_verifier'', JStr binding)]))
        True None False) (\<lambda>(data, _). token_of ''access_token'' data))"

definition installation_token :: "'w github \<Rightarrow> int \<Rightarrow> int \<Rightarrow> ('w, string) io" where
  "installation_token g inst repository =
     io_bind (app_jwt g) (\<lambda>jwt.
     io_bind (github_request g ''POST'' (''/app/installations/'' @ int_text inst @ ''/access_tokens'') (Some jwt)
        (Some (JObj [(''repository_ids'', JArr [JInt repository]),
           (''permissions'', JObj [(''contents'', JStr ''read''), (''pull_requests'', JStr ''read''), (''issues'', JStr ''read'')])]))
        False None False) (\<lambda>(data, _). token_of ''token'' data))"

subsection \<open>Pull requests\<close>

definition pulls_path :: "string \<Rightarrow> string \<Rightarrow> int \<Rightarrow> int option \<Rightarrow> string" where
  "pulls_path owner name pg number =
     ''/repos/'' @ owner @ ''/'' @ name @ ''/pulls'' @
     (case number of
        Some n \<Rightarrow> if n = 0 then ''?state=all&sort=updated&direction=desc&per_page=30&page='' @ int_text pg
                  else ''/'' @ int_text n
      | None \<Rightarrow> ''?state=all&sort=updated&direction=desc&per_page=30&page='' @ int_text pg)"

fun validate_all :: "(json \<Rightarrow> 'a option) \<Rightarrow> json list \<Rightarrow> 'a list option" where
  "validate_all validate [] = Some []"
| "validate_all validate (x # xs) =
     (case validate x of
        None \<Rightarrow> None
      | Some p \<Rightarrow> map_option (\<lambda>ps. p # ps) (validate_all validate xs))"

text \<open>\<open>if number\<close>: the number 0 asks for a page.\<close>

definition numbered :: "int option \<Rightarrow> bool" where
  "numbered number \<longleftrightarrow> (case number of None \<Rightarrow> False | Some n \<Rightarrow> n \<noteq> 0)"

definition read_pulls :: "(json \<Rightarrow> remote_pull option) \<Rightarrow> int option \<Rightarrow> json \<Rightarrow> exn + remote_pull list" where
  "read_pulls validate number data =
     (case as_arr (if numbered number then JArr [data] else data) of
        None \<Rightarrow> Inl invalid_response
      | Some items \<Rightarrow>
          if length items > 30 then Inl invalid_response
          else
            (case validate_all validate items of
               None \<Rightarrow> Inl invalid_response
             | Some rows \<Rightarrow> if \<exists>p \<in> set rows. \<not> rp_zoned p then Inl invalid_response else Inr rows))"

definition fetch_pulls ::
  "'w github \<Rightarrow> (json \<Rightarrow> remote_pull option) \<Rightarrow> int \<Rightarrow> int \<Rightarrow> string \<Rightarrow> string \<Rightarrow> int \<Rightarrow> int option \<Rightarrow> string option \<Rightarrow>
   ('w, remote_pull list \<times> string option \<times> bool) io" where
  "fetch_pulls g validate inst gid owner name pg number etag =
     io_bind (installation_token g inst gid) (\<lambda>token.
     io_bind (github_request g ''GET'' (pulls_path owner name pg number) (Some token) None False etag True) (\<lambda>(data, tag).
     if data = JNull then io_ret ([], tag, True)
     else
       (case read_pulls validate number data of
          Inl e \<Rightarrow> io_raise e
        | Inr rows \<Rightarrow> io_ret (rows, tag, False))))"

end
