(* ===== verification/Connect_Repository.thy ===== *)
theory Connect_Repository
  imports GitHub_Client
begin

section \<open>Connecting repositories chosen from GitHub\<close>

text \<open>
  \<^verbatim>\<open>app/domain/repository/github.py\<close>: the repositories the signed-in user may connect, collected with
  the user's token; \<^verbatim>\<open>app/workflows/connect_repository.py\<close>: the start of the authorisation, its callback
  that stores the candidates, and the connection of the chosen ones, each in a transaction of its own
  with its first synchronisation.
\<close>

subsection \<open>Collecting the candidates\<close>

record installation =
  in_id :: int
  in_app_id :: int
  in_suspended_at :: "string option"
  in_permissions :: "string \<Rightarrow> string option"

record remote_repository =
  rr_id :: int
  rr_name :: string
  rr_owner_login :: string
  rr_private :: bool
  rr_default_branch :: "string option"
  rr_admin :: bool

definition max_installations :: nat where
  "max_installations = 20"

definition max_candidates :: nat where
  "max_candidates = 300"

definition required_permissions :: "string list" where
  "required_permissions = [''contents'', ''pull_requests'', ''issues'']"

definition usable_installation :: "int \<Rightarrow> installation \<Rightarrow> bool" where
  "usable_installation app i \<longleftrightarrow>
     in_app_id i = app \<and> \<not> truthy (in_suspended_at i) \<and>
     list_all (\<lambda>p. in_permissions i p \<in> {Some ''read'', Some ''write''}) required_permissions"

text \<open>The usable installations in order, and the number of the others, invalid ones included.\<close>

fun sort_installations ::
  "(json \<Rightarrow> installation option) \<Rightarrow> int \<Rightarrow> json list \<Rightarrow> installation list \<times> int" where
  "sort_installations validate app [] = ([], 0)"
| "sort_installations validate app (raw # raws) =
     (case sort_installations validate app raws of (usable, skipped) \<Rightarrow>
        (case validate raw of
           None \<Rightarrow> (usable, skipped + 1)
         | Some i \<Rightarrow> if usable_installation app i then (i # usable, skipped) else (usable, skipped + 1)))"

definition candidate_of :: "int \<Rightarrow> remote_repository \<Rightarrow> candidate" where
  "candidate_of inst r =
     \<lparr>cr_github_id = rr_id r, cr_installation_id = inst, cr_owner_login = rr_owner_login r, cr_name = rr_name r,
      cr_is_private = rr_private r, cr_default_branch = rr_default_branch r, cr_admin = rr_admin r\<rparr>"

text \<open>One page: invalid entries are passed over, the first entry of a repository stays.\<close>

fun add_page ::
  "(json \<Rightarrow> remote_repository option) \<Rightarrow> int \<Rightarrow> json list \<Rightarrow> candidate list \<times> bool \<Rightarrow> candidate list \<times> bool" where
  "add_page validate inst [] st = st"
| "add_page validate inst (raw # raws) (items, truncated) =
     (case validate raw of
        None \<Rightarrow> add_page validate inst raws (items, truncated)
      | Some r \<Rightarrow>
          if rr_id r \<in> cr_github_id ` set items then add_page validate inst raws (items, truncated)
          else if max_candidates \<le> length items then add_page validate inst raws (items, True)
          else add_page validate inst raws (items @ [candidate_of inst r], truncated))"

definition list_in :: "string \<Rightarrow> json \<Rightarrow> ('w, json list) io" where
  "list_in k data = (case as_arr (json_get k data) of None \<Rightarrow> io_raise invalid_response | Some xs \<Rightarrow> io_ret xs)"

text \<open>The pages of one installation; a last full page says that there may be more.\<close>

fun collect_pages ::
  "'w github \<Rightarrow> (json \<Rightarrow> remote_repository option) \<Rightarrow> string \<Rightarrow> int \<Rightarrow> int list \<Rightarrow> candidate list \<times> bool \<Rightarrow>
   ('w, candidate list \<times> bool) io" where
  "collect_pages g validate token inst [] st = io_ret (fst st, True)"
| "collect_pages g validate token inst (pg # pgs) st =
     io_bind (github_request g ''GET''
        (''/user/installations/'' @ int_text inst @ ''/repositories?per_page=100&page='' @ int_text pg)
        (Some token) None False None False) (\<lambda>(data, _).
     io_bind (list_in ''repositories'' data) (\<lambda>raws.
     if length raws < 100 then io_ret (add_page validate inst raws st)
     else collect_pages g validate token inst pgs (add_page validate inst raws st)))"

fun collect_installations ::
  "'w github \<Rightarrow> (json \<Rightarrow> remote_repository option) \<Rightarrow> string \<Rightarrow> installation list \<Rightarrow> candidate list \<times> bool \<Rightarrow>
   ('w, candidate list \<times> bool) io" where
  "collect_installations g validate token [] st = io_ret st"
| "collect_installations g validate token (i # is) st =
     io_bind (collect_pages g validate token (in_id i) [1, 2, 3] st) (\<lambda>st'.
     collect_installations g validate token is st')"

definition collect ::
  "'w github \<Rightarrow> (json \<Rightarrow> installation option) \<Rightarrow> (json \<Rightarrow> remote_repository option) \<Rightarrow> string \<Rightarrow> string \<Rightarrow> int \<Rightarrow>
   ('w, candidate_list) io" where
  "collect g check_inst check_repo code binding expected_user =
     io_bind (user_token g code binding) (\<lambda>token.
     io_bind (github_request g ''GET'' ''/user'' (Some token) None False None False) (\<lambda>(user, _).
     if as_int (json_get ''id'' user) \<noteq> Some expected_user
     then io_raise (GitHubFailure ''GITHUB_USER_MISMATCH'' None)
     else
       io_bind (github_request g ''GET'' ''/user/installations?per_page=100'' (Some token) None False None False) (\<lambda>(data, _).
       io_bind (list_in ''installations'' data) (\<lambda>raws.
       case sort_installations check_inst (gh_app_id g) raws of (usable, skipped) \<Rightarrow>
         io_bind (collect_installations g check_repo token (take max_installations usable)
                    ([], max_installations < length usable)) (\<lambda>(items, truncated).
         io_ret \<lparr>cl_items = items, cl_truncated = truncated, cl_skipped = skipped\<rparr>)))))"

subsection \<open>The workflow\<close>

text \<open>
  \<open>connected\<close> says that there is an engine. The transactions run on the tables of the pull requests;
  \<open>collected\<close> is the answer of \<open>collect\<close>, that \<open>asyncio.timeout\<close> may end.
\<close>

definition workflow_ready :: "bool \<Rightarrow> bool \<Rightarrow> exn option" where
  "workflow_ready app_ready connected =
     (if \<not> app_ready then Some (GitHubFailure ''GITHUB_APP_NOT_CONFIGURED'' None)
      else if \<not> connected then Some (AppException ''DATABASE_UNAVAILABLE'' UNAVAILABLE)
      else None)"

definition connect_start ::
  "bool \<Rightarrow> bool \<Rightarrow> auth_env \<Rightarrow> uuid \<Rightarrow> uuid \<Rightarrow> 'a pull_tables_scheme \<Rightarrow>
   (exn + string \<times> string) \<times> 'a pull_tables_scheme" where
  "connect_start app_ready connected ev uid wid s =
     (case workflow_ready app_ready connected of
        Some e \<Rightarrow> (Inl e, s)
      | None \<Rightarrow>
          (case transaction pull_schema (require_permission uid wid ''manage'') s of
             (Inl e, s1) \<Rightarrow> (Inl e, s1)
           | (Inr _, s1) \<Rightarrow> install_start ev uid wid ''repositories'' s1))"

text \<open>The clock readings and the fresh key of the stored list.\<close>

record callback_env =
  cb_db_now :: datetime
  cb_now :: datetime
  cb_fresh :: uuid

definition connect_callback ::
  "bool \<Rightarrow> bool \<Rightarrow> auth_env \<Rightarrow> callback_env \<Rightarrow> (int \<Rightarrow> exn + candidate_list) \<Rightarrow> string \<Rightarrow> string \<Rightarrow> string \<Rightarrow>
   'a pull_tables_scheme \<Rightarrow> (exn + uuid) \<times> 'a pull_tables_scheme" where
  "connect_callback app_ready connected ev cb collected code state binding s =
     (case workflow_ready app_ready connected of
        Some e \<Rightarrow> (Inl e, s)
      | None \<Rightarrow>
          if code = [] \<or> 1024 < length code then (Inl (AppException ''INVALID_CODE'' INVALID_INPUT), s)
          else
            (case install_consume ev state binding s of
               (Inl e, s1) \<Rightarrow> (Inl e, s1)
             | (Inr (Some uid, Some wid, _), s1) \<Rightarrow>
                 (case transaction pull_schema
                         (bind (require_permission uid wid ''manage'') (\<lambda>_. get_active uid)) s1 of
                    (Inl e, s2) \<Rightarrow> (Inl e, s2)
                  | (Inr user, s2) \<Rightarrow>
                      (case collected (us_github_user_id user) of
                         Inl e \<Rightarrow> (Inl e, s2)
                       | Inr found \<Rightarrow>
                           (case transaction pull_schema
                                   (save_candidates (cb_db_now cb) (cb_now cb) (cb_fresh cb) uid wid found) s2 of
                              (Inl e, s3) \<Rightarrow> (Inl e, s3)
                            | (Inr _, s3) \<Rightarrow> (Inr wid, s3))))
             | (Inr _, s1) \<Rightarrow> (Inl AssertionError, s1)))"

record select_result =
  sl_github_id :: int
  sl_owner_login :: "string option"
  sl_name :: "string option"
  sl_status :: string
  sl_repository_id :: "uuid option"

definition not_in_list :: "int \<Rightarrow> select_result" where
  "not_in_list gid =
     \<lparr>sl_github_id = gid, sl_owner_login = None, sl_name = None, sl_status = ''NOT_IN_LIST'', sl_repository_id = None\<rparr>"

definition selected :: "int \<Rightarrow> candidate \<Rightarrow> string \<Rightarrow> uuid option \<Rightarrow> select_result" where
  "selected gid item status rid =
     \<lparr>sl_github_id = gid, sl_owner_login = Some (cr_owner_login item), sl_name = Some (cr_name item),
      sl_status = status, sl_repository_id = rid\<rparr>"

definition verified_of :: "candidate \<Rightarrow> verified" where
  "verified_of item =
     \<lparr>vr_github_id = cr_github_id item, vr_installation_id = cr_installation_id item,
      vr_owner_login = cr_owner_login item, vr_name = cr_name item, vr_is_private = cr_is_private item,
      vr_default_branch = cr_default_branch item\<rparr>"

text \<open>The clock readings and fresh keys of one connection.\<close>

record connect_env =
  ce_db_now :: datetime
  ce_now :: datetime
  ce_repository :: uuid
  ce_config :: uuid
  ce_sync :: uuid
  ce_job :: uuid

definition connect_and_sync ::
  "(string \<Rightarrow> string) \<Rightarrow> connect_env \<Rightarrow> uuid \<Rightarrow> uuid \<Rightarrow> verified \<Rightarrow>
   ('a pull_tables_scheme, repository_snapshot) txn" where
  "connect_and_sync sha ce uid wid v =
     bind (connect sha (ce_db_now ce) (ce_now ce) (ce_repository ce) (ce_config ce) uid wid v) (\<lambda>repo.
     bind (request_sync sha (ce_db_now ce) (ce_sync ce) (ce_job ce) uid wid (rs_repo_id repo)) (\<lambda>_.
     ret repo))"

definition connect_one ::
  "(string \<Rightarrow> string) \<Rightarrow> connect_env \<Rightarrow> uuid \<Rightarrow> uuid \<Rightarrow> int \<Rightarrow> candidate option \<Rightarrow>
   'a pull_tables_scheme \<Rightarrow> (exn + select_result) \<times> 'a pull_tables_scheme" where
  "connect_one sha ce uid wid gid found s =
     (case found of
        None \<Rightarrow> (Inr (not_in_list gid), s)
      | Some item \<Rightarrow>
          if \<not> cr_admin item then (Inr (selected gid item ''ADMIN_REQUIRED'' None), s)
          else
            (case transaction pull_schema (connect_and_sync sha ce uid wid (verified_of item)) s of
               (Inr repo, s') \<Rightarrow> (Inr (selected gid item ''CONNECTED'' (Some (rs_repo_id repo))), s')
             | (Inl e, s') \<Rightarrow>
                 (if e = IntegrityError then (Inr (selected gid item ''CONFLICT'' None), s')
                  else if is_app e then
                    (Inr (selected gid item (if app_code e = ''REPOSITORY_EXISTS'' then ''ALREADY_CONNECTED'' else ''FAILED'') None), s')
                  else (Inl e, s'))))"

fun connect_each ::
  "(string \<Rightarrow> string) \<Rightarrow> uuid \<Rightarrow> uuid \<Rightarrow> (int \<Rightarrow> candidate option) \<Rightarrow> (int \<times> connect_env) list \<Rightarrow>
   'a pull_tables_scheme \<Rightarrow> (exn + select_result list) \<times> 'a pull_tables_scheme" where
  "connect_each sha uid wid listed [] s = (Inr [], s)"
| "connect_each sha uid wid listed ((gid, ce) # rest) s =
     (case connect_one sha ce uid wid gid (listed gid) s of
        (Inl e, s1) \<Rightarrow> (Inl e, s1)
      | (Inr x, s1) \<Rightarrow>
          (case connect_each sha uid wid listed rest s1 of
             (Inl e, s2) \<Rightarrow> (Inl e, s2)
           | (Inr xs, s2) \<Rightarrow> (Inr (x # xs), s2)))"

definition connect_selected ::
  "bool \<Rightarrow> bool \<Rightarrow> (string \<Rightarrow> string) \<Rightarrow> datetime \<Rightarrow> uuid \<Rightarrow> uuid \<Rightarrow> (int \<times> connect_env) list \<Rightarrow>
   'a pull_tables_scheme \<Rightarrow> (exn + select_result list) \<times> 'a pull_tables_scheme" where
  "connect_selected app_ready connected sha now uid wid ids s =
     (case workflow_ready app_ready connected of
        Some e \<Rightarrow> (Inl e, s)
      | None \<Rightarrow>
          (case transaction pull_schema (candidate_map now uid wid) s of
             (Inl e, s1) \<Rightarrow> (Inl e, s1)
           | (Inr listed, s1) \<Rightarrow> connect_each sha uid wid listed ids s1))"

end
