(* ===== verification/Connect_Results.thy ===== *)
theory Connect_Results
  imports Connect_Repository Pull_Request_Results
begin

section \<open>Results on the GitHub client and on chosen repositories\<close>

subsection \<open>Failures of a request\<close>

text \<open>The failures the workers know how to handle: a fixed set of codes, a delay of at most a day.\<close>

definition failure_codes :: "string list" where
  "failure_codes =
     [''GITHUB_UNAVAILABLE'', ''GITHUB_INVALID_RESPONSE'', ''GITHUB_RATE_LIMIT'',
      ''GITHUB_ACCESS_UNAVAILABLE'', ''GITHUB_RESPONSE_TOO_LARGE'']"

definition known_failure :: "exn \<Rightarrow> bool" where
  "known_failure e \<longleftrightarrow>
     (\<exists>code after. e = GitHubFailure code after \<and> code \<in> set failure_codes \<and>
        (case after of None \<Rightarrow> True | Some d \<Rightarrow> code = ''GITHUB_RATE_LIMIT'' \<and> 1 \<le> d \<and> d \<le> 86400))"

lemma retry_delay_bounds: "1 \<le> retry_delay now r" "retry_delay now r \<le> 86400"
proof -
  have first: "1 \<le> (case x of None \<Rightarrow> 60 | Some n \<Rightarrow> max 1 (min 86400 n))"
    "(case x of None \<Rightarrow> 60 | Some n \<Rightarrow> max 1 (min 86400 n)) \<le> 86400" for x :: "int option"
    by (cases x; simp)+
  have second: "1 \<le> (case y of None \<Rightarrow> d | Some t \<Rightarrow> max d (min 86400 (t - now + 1)))"
    "(case y of None \<Rightarrow> d | Some t \<Rightarrow> max d (min 86400 (t - now + 1))) \<le> 86400"
    if "1 \<le> d" "d \<le> 86400" for d and y :: "int option"
    using that by (cases y; simp add: le_max_iff_disj)+
  show "1 \<le> retry_delay now r" unfolding retry_delay_def Let_def by (rule second(1) [OF first])
  show "retry_delay now r \<le> 86400" unfolding retry_delay_def Let_def by (rule second(2) [OF first])
qed

lemma too_large_known: "known_failure (GitHubFailure ''GITHUB_RESPONSE_TOO_LARGE'' None)"
  by (simp add: known_failure_def failure_codes_def)

lemma read_chunks_error: "read_chunks content cs = Inl e \<Longrightarrow> known_failure e"
  by (induction cs arbitrary: content) (auto simp: Let_def too_large_known split: if_splits)

lemma respond_error:
  assumes "respond g etag cache r = Inl e" and "\<And>c x. gh_loads g c = Inl x \<Longrightarrow> \<exists>m. x = ValueError m"
  shows "known_failure (transport_error e)"
proof -
  have known: "known_failure unavailable" "known_failure invalid_response"
    "known_failure (GitHubFailure ''GITHUB_ACCESS_UNAVAILABLE'' None)"
    "known_failure (GitHubFailure ''GITHUB_RATE_LIMIT'' (Some (retry_delay t r)))" for t
    using retry_delay_bounds by (auto simp: known_failure_def failure_codes_def unavailable_def invalid_response_def)
  have keep: "known_failure x \<Longrightarrow> transport_error x = x" for x by (auto simp: known_failure_def)
  have "known_failure (transport_error e)" if "read_response g cache r = Inl e"
    using that known(1) read_chunks_error assms(2) keep
    by (auto simp: read_response_def Let_def split: sum.splits if_splits dest!: assms(2))
  with assms(1) known keep show ?thesis by (auto simp: respond_def split: if_splits)
qed

text \<open>
  Whatever the server answers, a request either returns decoded data or raises a failure of the fixed
  set, with a retry delay between a second and a day exactly for a rate limit, if the HTTP library
  raises only its own error and the decoder only a \<open>ValueError\<close>.
\<close>

lemma request_failures:
  assumes "github_request g method path token body oauth etag cache w = (Inl e, w')"
    and "\<And>q w x v. gh_http g q w = (Inl x, v) \<Longrightarrow> x = HTTPError"
    and "\<And>c x. gh_loads g c = Inl x \<Longrightarrow> \<exists>m. x = ValueError m"
  shows "known_failure e"
proof -
  have un: "known_failure unavailable" by (simp add: known_failure_def unavailable_def failure_codes_def)
  show ?thesis
  proof (cases "\<not> starts_with ''/'' path \<or> starts_with ''//'' path")
    case True
    with assms(1) un show ?thesis by (auto simp: github_request_def)
  next
    case False
    let ?q = "\<lparr>hq_method = method, hq_url = (if oauth then ''https://github.com'' else ''https://api.github.com'') @ path,
        hq_headers = request_headers oauth etag token, hq_body = body\<rparr>"
    obtain a v where a: "gh_http g ?q w = (a, v)" by fastforce
    show ?thesis
    proof (cases a)
      case (Inl x)
      with a assms(2) have "x = HTTPError" by blast
      with assms(1) False a Inl un show ?thesis by (simp add: github_request_def io_try_def io_bind_def)
    next
      case (Inr r)
      with assms(1) False a obtain x where "respond g etag cache r = Inl x" "e = transport_error x"
        by (auto simp: github_request_def io_try_def io_bind_def io_raise_def io_ret_def split: sum.splits)
      with respond_error assms(3) show ?thesis by blast
    qed
  qed
qed

text \<open>
  A body of JSON \<open>null\<close> with a successful status reads like an unmodified page: nothing is stored
  and the run is closed as a success.
\<close>

lemma null_reads_as_unmodified:
  assumes "installation_token g inst gid w = (Inr token, w1)"
    and "github_request g ''GET'' (pulls_path owner name pg number) (Some token) None False etag True w1 = (Inr (JNull, tag), w2)"
  shows "fetch_pulls g validate inst gid owner name pg number etag w = (Inr ([], tag, True), w2)"
  using assms by (simp add: fetch_pulls_def io_bind_def io_ret_def)

subsection \<open>Collected candidates\<close>

text \<open>The list is bounded, names each repository once, and only usable installations contribute.\<close>

definition candidates_ok :: "candidate list \<Rightarrow> bool" where
  "candidates_ok cs \<longleftrightarrow> length cs \<le> max_candidates \<and> distinct (map cr_github_id cs)"

lemma add_page_ok: "candidates_ok (fst st) \<Longrightarrow> candidates_ok (fst (add_page validate inst raws st))"
  by (induction validate inst raws st rule: add_page.induct)
    (auto simp: candidates_ok_def candidate_of_def split: option.splits)

lemma collect_pages_ok:
  "collect_pages g validate token inst pgs st w = (Inr st', w') \<Longrightarrow> candidates_ok (fst st) \<Longrightarrow> candidates_ok (fst st')"
proof (induction pgs arbitrary: st w)
  case (Cons pg pgs)
  from Cons.prems(1) obtain raws v where "(if length raws < 100 then io_ret (add_page validate inst raws st)
      else collect_pages g validate token inst pgs (add_page validate inst raws st)) v = (Inr st', w')"
    by (auto elim!: io_bindE)
  with Cons.IH add_page_ok [OF Cons.prems(2)] show ?case by (simp split: if_splits)
qed auto

lemma collect_installations_ok:
  "collect_installations g validate token is st w = (Inr st', w') \<Longrightarrow> candidates_ok (fst st) \<Longrightarrow> candidates_ok (fst st')"
  by (induction "is" arbitrary: st w) (auto elim!: io_bindE dest: collect_pages_ok simp del: collect_pages.simps)

lemma collect_bounded:
  assumes "collect g check_inst check_repo code binding expected w = (Inr found, w')"
  shows "length (cl_items found) \<le> 300 \<and> distinct (map cr_github_id (cl_items found))"
proof -
  obtain token inst st st' v v' where "collect_installations g check_repo token inst ([], st) v = (Inr st', v')"
    and "cl_items found = fst st'"
    using assms unfolding collect_def by (auto elim!: io_bindE split: if_splits prod.splits)
  then show ?thesis
    using collect_installations_ok [of g check_repo token inst "([], st)" v st' v']
    by (simp add: candidates_ok_def max_candidates_def)
qed

subsection \<open>The connection of one repository\<close>

lemma candidate_map_reads:
  assumes "candidate_map now uid wid s = Inr (listed, s')"
  shows "s' = s \<and> (\<exists>row \<in> set (candidate_sets s). cs_workspace_id row = wid \<and> cs_user_id row = uid \<and>
    now < cs_expires_at row \<and> listed = keyed (cs_items row))"
proof -
  from assms obtain p s1 f s2 where "require_permission uid wid ''manage'' s = Inr (p, s1)"
    and f: "load_candidate_set now uid wid s1 = Inr (f, s2)"
    and rest: "(case f of None \<Rightarrow> raise candidates_not_found
       | Some row \<Rightarrow> ret (map_of (rev (map (\<lambda>c. (cr_github_id c, c)) (cs_items row))))) s2 = Inr (listed, s')"
    unfolding candidate_map_def by (elim bindE)
  then have "s1 = s" using require_permission_reads by blast
  with f have f: "s2 = s" "f = find (\<lambda>c. cs_workspace_id c = wid \<and> cs_user_id c = uid \<and> now < cs_expires_at c) (candidate_sets s)"
    by (auto simp: load_candidate_set_def select_first_Inr)
  show ?thesis
  proof (cases f)
    case None
    with rest show ?thesis by simp
  next
    case (Some row)
    have "row \<in> set (candidate_sets s) \<and> cs_workspace_id row = wid \<and> cs_user_id row = uid \<and> now < cs_expires_at row"
      by (rule find_SomeD) (use f(2) Some in simp)
    moreover have "s' = s" "listed = keyed (cs_items row)"
      using rest f(1) unfolding Some by (simp_all add: keyed_def)
    ultimately show ?thesis by blast
  qed
qed

lemma keyed_mem: "keyed items gid = Some item \<Longrightarrow> item \<in> set items \<and> cr_github_id item = gid"
  by (auto simp: keyed_def dest!: map_of_SomeD)

text \<open>A connection made from a candidate.\<close>

definition connected_from :: "verified \<Rightarrow> uuid \<Rightarrow> uuid \<Rightarrow> repository \<Rightarrow> bool" where
  "connected_from v uid wid r \<longleftrightarrow>
     rc_github_id r = vr_github_id v \<and> rc_installation_id r = vr_installation_id v \<and>
     rc_owner_login r = vr_owner_login v \<and> rc_name r = vr_name v \<and>
     rc_workspace_id r = wid \<and> rc_connected_by r = uid \<and> rc_status r = R_ACTIVE"

lemma connect_pull_inv:
  assumes "pull_inv s" and "repository_schema s'" and "s' = repositories_update f s \<or> s' = rule_configs_update h (repositories_update f s)"
  shows "pull_inv s'"
proof -
  have "jobs s' = jobs s" "sync_runs s' = sync_runs s" "pull_requests s' = pull_requests s" using assms(3) by auto
  with assms(1,2) jobs_inv_cong [of s' s] show ?thesis
    by (simp add: pull_inv_def pull_schema_def jobs_schema_def)
qed

lemma connect_flushed:
  "connect sha db_now now rid cid uid wid v s = Inr (x, s') \<Longrightarrow> repository_schema s'"
  unfolding connect_def by (auto simp: bind_Inr split: option.splits if_splits)

lemma connect_and_sync_Inr:
  assumes inv: "pull_inv s" and op: "connect_and_sync sha ce uid wid v s = Inr (repo, s')" and ok: "pull_schema s'"
  obtains r where "pull_inv s'" "connected_from v uid wid r" "rs_repo_id repo = rc_id r" "r \<in> set (repositories s')"
    "\<And>q. q \<in> set (repositories s') \<Longrightarrow> q = r \<or> q \<in> set (repositories s)"
    "\<And>q. q \<in> set (repositories s) \<Longrightarrow> rc_status q = R_ACTIVE \<Longrightarrow> q \<in> set (repositories s')"
    "\<exists>x \<in> set (sync_runs s'). sr_repository_id x = rc_id r \<and> sync_open x"
    "set (sync_runs s) \<subseteq> set (sync_runs s')"
proof -
  from op obtain s1 x where con: "connect sha (ce_db_now ce) (ce_now ce) (ce_repository ce) (ce_config ce) uid wid v s = Inr (repo, s1)"
    and enq: "enqueue_sync sha (ce_db_now ce) (ce_sync ce) (ce_job ce) uid wid (rs_repo_id repo) 1 None s1 = Inr (x, s')"
    by (auto simp: connect_and_sync_def request_sync_def bind_Inr)
  have rok: "repositories_ok (repositories s)" using inv by (simp add: pull_inv_def pull_schema_def repository_schema_def)
  from con obtain r where r: "connected_from v uid wid r" "rs_repo_id repo = rc_id r" "r \<in> set (repositories s1)"
      "\<And>q. q \<in> set (repositories s1) \<Longrightarrow> q = r \<or> q \<in> set (repositories s)"
      "\<And>q. q \<in> set (repositories s) \<Longrightarrow> rc_status q = R_ACTIVE \<Longrightarrow> q \<in> set (repositories s1)"
    and s1: "sync_runs s1 = sync_runs s" "pull_inv s1"
  proof (cases rule: connect_Inr)
    case (again q)
    let ?r = "reconnect (ce_now ce) uid v q"
    have "pull_inv s1" by (rule connect_pull_inv [OF inv connect_flushed [OF con]]) (use again(7) in blast)
    show ?thesis
    proof (rule that [of ?r])
      show "connected_from v uid wid ?r" "rs_repo_id repo = rc_id ?r"
        using again(3,4,6) by (simp_all add: connected_from_def repo_snapshot_def) (simp_all add: reconnect_def)
      show "?r \<in> set (repositories s1)" using again(2) by (auto simp: again(7) intro!: put_row_mem)
      show "x = ?r \<or> x \<in> set (repositories s)" if "x \<in> set (repositories s1)" for x
        using that put_row_in [of x rc_id ?r] by (auto simp: again(7))
      show "x \<in> set (repositories s1)" if "x \<in> set (repositories s)" "rc_status x = R_ACTIVE" for x
        using that again(2,5) repositories_unique [OF rok that(1) again(2)]
        by (auto simp: again(7) intro!: put_row_other)
    qed (use again(7) \<open>pull_inv s1\<close> in simp_all)
  next
    case first
    let ?r = "new_repository (ce_db_now ce) (ce_repository ce) (ce_config ce) uid wid v"
    have "pull_inv s1" by (rule connect_pull_inv [OF inv connect_flushed [OF con]]) (use first(4) in blast)
    then show ?thesis
      using first that [of ?r] by (auto simp: connected_from_def repo_snapshot_def new_repository_def)
  qed
  have repos: "repositories s' = repositories s1" and runs: "set (sync_runs s) \<subseteq> set (sync_runs s')"
    and run: "\<exists>x \<in> set (sync_runs s'). sr_repository_id x = rc_id r \<and> sync_open x"
    using enq r(2) s1(1) by (auto elim!: enqueue_sync_Inr simp: new_sync_def sync_open_def)
  have "transaction pull_schema (enqueue_sync sha (ce_db_now ce) (ce_sync ce) (ce_job ce) uid wid (rs_repo_id repo) 1 None) s1 = (Inr x, s')"
    using enq ok by (simp add: transaction_def)
  then have "pull_inv s'" by (intro pull_step_inv [OF s1(2)] pull_step.request)
  with that [of r] r repos runs run show ?thesis by simp
qed

subsection \<open>A selection\<close>

text \<open>What a result promises: a connected repository is active and its first synchronisation is open.\<close>

definition result_holds :: "select_result \<Rightarrow> 'a pull_tables_scheme \<Rightarrow> bool" where
  "result_holds x s \<longleftrightarrow>
     sl_status x \<noteq> ''CONNECTED'' \<or>
     (\<exists>r \<in> set (repositories s). sl_repository_id x = Some (rc_id r) \<and> rc_github_id r = sl_github_id x \<and>
        rc_status r = R_ACTIVE \<and> (\<exists>run \<in> set (sync_runs s). sr_repository_id run = rc_id r \<and> sync_open run))"

text \<open>How one selection may change the connections: only rows made from the listed candidates are new.\<close>

definition only_listed ::
  "(int \<Rightarrow> candidate option) \<Rightarrow> int list \<Rightarrow> uuid \<Rightarrow> uuid \<Rightarrow> 'a pull_tables_scheme \<Rightarrow> 'a pull_tables_scheme \<Rightarrow> bool" where
  "only_listed listed ids uid wid s s' \<longleftrightarrow>
     (\<forall>q \<in> set (repositories s'). q \<in> set (repositories s) \<or>
        (\<exists>gid \<in> set ids. \<exists>item. listed gid = Some item \<and> cr_admin item \<and> connected_from (verified_of item) uid wid q)) \<and>
     (\<forall>q \<in> set (repositories s). rc_status q = R_ACTIVE \<longrightarrow> q \<in> set (repositories s')) \<and>
     set (sync_runs s) \<subseteq> set (sync_runs s')"

lemma only_listed_refl: "only_listed listed ids uid wid s s"
  by (auto simp: only_listed_def)

lemma only_listed_trans:
  assumes "only_listed listed [gid] uid wid s t" and "only_listed listed ids uid wid t u"
  shows "only_listed listed (gid # ids) uid wid s u"
  unfolding only_listed_def
proof (intro conjI ballI impI)
  fix q assume q: "q \<in> set (repositories u)"
  show "q \<in> set (repositories s) \<or> (\<exists>gid \<in> set (gid # ids). \<exists>item. listed gid = Some item \<and> cr_admin item \<and>
      connected_from (verified_of item) uid wid q)"
  proof (cases "q \<in> set (repositories t)")
    case True
    with assms(1) show ?thesis unfolding only_listed_def by fastforce
  next
    case False
    with assms(2) q show ?thesis unfolding only_listed_def by fastforce
  qed
qed (use assms in \<open>auto simp: only_listed_def\<close>)

lemma result_holds_later:
  assumes "result_holds x s" and "only_listed listed ids uid wid s t"
  shows "result_holds x t"
  using assms unfolding result_holds_def only_listed_def by blast

lemma connect_one_step:
  assumes inv: "pull_inv s" and op: "connect_one sha ce uid wid gid (listed gid) s = (r, s')"
    and gids: "\<And>item. listed gid = Some item \<Longrightarrow> cr_github_id item = gid"
  shows "pull_inv s' \<and> only_listed listed [gid] uid wid s s' \<and>
    (case r of Inl e \<Rightarrow> True | Inr x \<Rightarrow> sl_github_id x = gid \<and> result_holds x s')"
proof (cases "\<exists>item. listed gid = Some item \<and> cr_admin item")
  case False
  with op inv show ?thesis
    by (auto simp: connect_one_def not_in_list_def selected_def result_holds_def only_listed_refl split: option.splits if_splits)
next
  case True
  then obtain item where item: "listed gid = Some item" "cr_admin item" by blast
  obtain a t where tx: "transaction pull_schema (connect_and_sync sha ce uid wid (verified_of item)) s = (a, t)" by fastforce
  show ?thesis
  proof (cases a)
    case (Inl e)
    with tx have "t = s" by (auto dest: transaction_raises)
    with op item tx Inl inv show ?thesis
      by (auto simp: connect_one_def selected_def result_holds_def only_listed_refl split: if_splits)
  next
    case (Inr repo)
    with op item tx have r: "r = Inr (selected gid item ''CONNECTED'' (Some (rs_repo_id repo)))" and s': "s' = t"
      by (simp_all add: connect_one_def)
    from tx Inr s' have "connect_and_sync sha ce uid wid (verified_of item) s = Inr (repo, s')" "pull_schema s'"
      by (simp_all add: transaction_Inr_iff)
    from connect_and_sync_Inr [OF inv this] obtain q where q: "pull_inv s'" "connected_from (verified_of item) uid wid q"
      "rs_repo_id repo = rc_id q" "q \<in> set (repositories s')"
      "\<And>x. x \<in> set (repositories s') \<Longrightarrow> x = q \<or> x \<in> set (repositories s)"
      "\<And>x. x \<in> set (repositories s) \<Longrightarrow> rc_status x = R_ACTIVE \<Longrightarrow> x \<in> set (repositories s')"
      "\<exists>x \<in> set (sync_runs s'). sr_repository_id x = rc_id q \<and> sync_open x" "set (sync_runs s) \<subseteq> set (sync_runs s')"
      by blast
    have "only_listed listed [gid] uid wid s s'"
      unfolding only_listed_def using q(2,5,6,8) item by fastforce
    moreover have "result_holds (selected gid item ''CONNECTED'' (Some (rs_repo_id repo))) s'"
      using q(2,3,4,7) gids [OF item(1)]
      by (auto simp: result_holds_def selected_def connected_from_def verified_of_def)
    ultimately show ?thesis using q(1) r by (simp add: selected_def)
  qed
qed

lemma connect_each_steps:
  assumes "pull_inv s" and "connect_each sha uid wid listed ids s = (r, s')"
    and gids: "\<And>gid item. listed gid = Some item \<Longrightarrow> cr_github_id item = gid"
  shows "pull_inv s' \<and> only_listed listed (map fst ids) uid wid s s' \<and>
    (case r of Inl e \<Rightarrow> True | Inr xs \<Rightarrow> map sl_github_id xs = map fst ids \<and> (\<forall>x \<in> set xs. result_holds x s'))"
  using assms(1,2)
proof (induction ids arbitrary: s r)
  case Nil
  then show ?case by (auto simp: only_listed_refl)
next
  case (Cons p rest)
  obtain gid ce where p: "p = (gid, ce)" by fastforce
  obtain a t where one: "connect_one sha ce uid wid gid (listed gid) s = (a, t)" by fastforce
  have step: "pull_inv t \<and> only_listed listed [gid] uid wid s t \<and>
    (case a of Inl e \<Rightarrow> True | Inr x \<Rightarrow> sl_github_id x = gid \<and> result_holds x t)"
    by (rule connect_one_step [where listed = listed, OF Cons.prems(1) one]) (rule gids)
  show ?case
  proof (cases a)
    case (Inl e)
    with Cons.prems(2) one p have "r = Inl e" "s' = t" by simp_all
    with step only_listed_trans [OF _ only_listed_refl] show ?thesis by (auto simp: p)
  next
    case (Inr x)
    obtain b u where more: "connect_each sha uid wid listed rest t = (b, u)" by fastforce
    with Cons.prems(2) one p Inr have r: "s' = u" "r = (case b of Inl e \<Rightarrow> Inl e | Inr xs \<Rightarrow> Inr (x # xs))"
      by (auto split: sum.splits)
    have IH: "pull_inv u \<and> only_listed listed (map fst rest) uid wid t u \<and>
      (case b of Inl e \<Rightarrow> True | Inr xs \<Rightarrow> map sl_github_id xs = map fst rest \<and> (\<forall>x \<in> set xs. result_holds x u))"
      using Cons.IH [OF _ more [folded r(1)]] step r(1) by blast
    have "only_listed listed (map fst (p # rest)) uid wid s u"
      using only_listed_trans step IH by (simp add: p) blast
    moreover have "result_holds x u" using result_holds_later step IH Inr by auto blast
    ultimately show ?thesis using IH step Inr by (cases b) (auto simp: r p)
  qed
qed

text \<open>
  C24. Choosing repositories connects only what may be connected. Every connection that a selection
  adds or reopens belongs to a chosen repository that the caller's own unexpired list for this team
  names and that the caller administers on GitHub, with the installation of that list; there is one
  result for each chosen id in order; a result CONNECTED names an active connection of that
  repository whose first synchronisation is open; and the synchronisation runs still match their
  jobs, whatever the other selections did.
\<close>

theorem selection_connects_only_listed:
  assumes "pull_inv s" and "connect_selected app_ready connected sha now uid wid ids s = (r, s')"
  shows "pull_inv s' \<and>
    (\<forall>q \<in> set (repositories s'). q \<in> set (repositories s) \<or>
       (\<exists>row \<in> set (candidate_sets s). \<exists>item \<in> set (cs_items row).
          cs_user_id row = uid \<and> cs_workspace_id row = wid \<and> now < cs_expires_at row \<and> cr_admin item \<and>
          cr_github_id item \<in> fst ` set ids \<and> connected_from (verified_of item) uid wid q)) \<and>
    (\<forall>xs. r = Inr xs \<longrightarrow> map sl_github_id xs = map fst ids \<and>
       (\<forall>x \<in> set xs. sl_status x = ''CONNECTED'' \<longrightarrow>
          (\<exists>q \<in> set (repositories s'). sl_repository_id x = Some (rc_id q) \<and> rc_github_id q = sl_github_id x \<and>
             rc_status q = R_ACTIVE \<and> (\<exists>run \<in> set (sync_runs s'). sr_repository_id run = rc_id q \<and> sync_open run))))"
proof (cases "\<exists>listed. fst (transaction pull_schema (candidate_map now uid wid) s) = Inr listed \<and>
    workflow_ready app_ready connected = None")
  case False
  then have "s' = s" "\<exists>e. r = Inl e"
    using assms(2) by (auto simp: connect_selected_def split: option.splits prod.splits sum.splits dest: transaction_raises)
  with assms(1) show ?thesis by auto
next
  case True
  then obtain listed s1 where tx: "transaction pull_schema (candidate_map now uid wid) s = (Inr listed, s1)"
    and ready: "workflow_ready app_ready connected = None"
    by (metis prod.collapse)
  from tx have "candidate_map now uid wid s = Inr (listed, s1)" by (simp add: transaction_Inr_iff)
  from candidate_map_reads [OF this] obtain row where s1: "s1 = s" and row: "row \<in> set (candidate_sets s)"
    "cs_workspace_id row = wid" "cs_user_id row = uid" "now < cs_expires_at row" and listed: "listed = keyed (cs_items row)"
    by blast
  have each: "connect_each sha uid wid listed ids s = (r, s')"
    using assms(2) tx ready s1 by (simp add: connect_selected_def)
  have steps: "pull_inv s' \<and> only_listed listed (map fst ids) uid wid s s' \<and>
    (case r of Inl e \<Rightarrow> True | Inr xs \<Rightarrow> map sl_github_id xs = map fst ids \<and> (\<forall>x \<in> set xs. result_holds x s'))"
    by (rule connect_each_steps [OF assms(1) each]) (auto simp: listed dest: keyed_mem)
  have "\<exists>row \<in> set (candidate_sets s). \<exists>item \<in> set (cs_items row).
      cs_user_id row = uid \<and> cs_workspace_id row = wid \<and> now < cs_expires_at row \<and> cr_admin item \<and>
      cr_github_id item \<in> fst ` set ids \<and> connected_from (verified_of item) uid wid q"
    if "q \<in> set (repositories s')" "q \<notin> set (repositories s)" for q
  proof -
    from steps that obtain gid item where item: "gid \<in> set (map fst ids)" "listed gid = Some item" "cr_admin item"
      "connected_from (verified_of item) uid wid q" unfolding only_listed_def by blast
    with keyed_mem [of "cs_items row" gid item] row show ?thesis unfolding listed by auto
  qed
  moreover have "map sl_github_id xs = map fst ids \<and>
       (\<forall>x \<in> set xs. sl_status x = ''CONNECTED'' \<longrightarrow>
          (\<exists>q \<in> set (repositories s'). sl_repository_id x = Some (rc_id q) \<and> rc_github_id q = sl_github_id x \<and>
             rc_status q = R_ACTIVE \<and> (\<exists>run \<in> set (sync_runs s'). sr_repository_id run = rc_id q \<and> sync_open run)))"
    if "r = Inr xs" for xs
    using steps that unfolding result_holds_def by (auto split: sum.splits)
  ultimately show ?thesis using steps by blast
qed

subsection \<open>A concrete selection\<close>

definition shop_candidate :: candidate where
  "shop_candidate = \<lparr>cr_github_id = 99, cr_installation_id = 5, cr_owner_login = ''o'', cr_name = ''n'',
     cr_is_private = True, cr_default_branch = None, cr_admin = True\<rparr>"

definition shop_list :: candidate_set where
  "shop_list = \<lparr>cs_id = 50, cs_created_at = 1, cs_workspace_id = 10, cs_user_id = 1, cs_expires_at = 9,
     cs_truncated = False, cs_skipped = 0, cs_items = [shop_candidate]\<rparr>"

definition shop_listed :: "repository list \<Rightarrow> rule_config list \<Rightarrow> sync_run list \<Rightarrow> job list \<Rightarrow> pull_tables" where
  "shop_listed rs cs runs js = (sync_shop runs js [])\<lparr>repositories := rs, candidate_sets := [shop_list], rule_configs := cs\<rparr>"

definition shop_connect :: connect_env where
  "shop_connect = \<lparr>ce_db_now = 1, ce_now = 2, ce_repository = 70, ce_config = 80, ce_sync = 90, ce_job = 91\<rparr>"

lemma shop_listed_inv: "pull_inv (shop_listed [] [] [] [])"
  by (simp add: pull_inv_def jobs_inv_def jobs_schema_def jobs_ok_def tracked_def pull_ok_defs space_ok_defs
      shop_listed_def shop_list_def sync_shop_defs)

lemma shop_selects:
  "connect_selected True True space_digest 3 1 10 [(99, shop_connect), (5, shop_connect)] (shop_listed [] [] [] []) =
   (Inr [selected 99 shop_candidate ''CONNECTED'' (Some 70), not_in_list 5],
    shop_listed [shop_row] [default_config space_digest 80 70 1 10] [shop_run] [shop_job])"
proof -
  have map: "transaction pull_schema (candidate_map 3 1 10) (shop_listed [] [] [] []) = (Inr (keyed [shop_candidate]), shop_listed [] [] [] [])"
    by (simp add: candidate_map_def load_candidate_set_def keyed_def shop_listed_def shop_list_def pull_eval
        pull_ok_defs space_ok_defs sync_shop_defs)
  have keys: "keyed [shop_candidate] 99 = Some shop_candidate" "keyed [shop_candidate] 5 = None"
    by (simp_all add: keyed_def shop_candidate_def)
  have "transaction pull_schema (connect_and_sync space_digest shop_connect 1 10 (verified_of shop_candidate)) (shop_listed [] [] [] []) =
      (Inr (repo_snapshot shop_row), shop_listed [shop_row] [default_config space_digest 80 70 1 10] [shop_run] [shop_job])"
    by (simp add: connect_and_sync_def connect_def by_github_def request_sync_def enqueue_sync_def active_sync_def
        cached_sync_def newest_def sync_mode_of_def sync_cursor_of_def enqueue_job_def default_config_def verified_of_def
        shop_candidate_def shop_connect_def shop_listed_def shop_list_def pull_eval pull_ok_defs space_ok_defs
        space_digest_def sync_shop_defs)
  with map keys show ?thesis
    by (simp add: connect_selected_def workflow_ready_def connect_one_def)
      (simp add: shop_candidate_def selected_def repo_snapshot_def shop_row_def new_repository_def shop_verified_def)
qed

theorem selection_connects_only_listed_witness:
  "rc_status shop_row = R_ACTIVE \<and> connected_from (verified_of shop_candidate) 1 10 shop_row"
  using selection_connects_only_listed [OF shop_listed_inv shop_selects]
  by (auto simp: shop_listed_def sync_shop_def shop_list_def selected_def)

end
