(* ===== verification/Standard_Index.thy ===== *)
theory Standard_Index
  imports Content
begin

section \<open>Team documents: validation, sections and retrieval\<close>

text \<open>
  \<^verbatim>\<open>app/domain/standards/index.py\<close>: the path patterns, the validation of a document, the cutting
  of its text into sections, and the bounded retrieval of sections by \<open>BM25\<close>.

  Scores are exact numbers of an ordered field, with \<open>math.log\<close> a parameter. The heading of text
  before the first heading is the Korean word for a document and a parameter, as is the text that
  \<open>model_dump_json\<close> writes. The validation of single fields by pydantic is written out as the
  bounds that the fields declare. Characters are the code points below 256, so the branches of
  \<open>terms\<close> for Hangul do not occur.
\<close>

subsection \<open>Path patterns\<close>

definition path_matches :: "string \<Rightarrow> string list \<Rightarrow> bool" where
  "path_matches path patterns \<longleftrightarrow>
     list_ex (\<lambda>p. glob p path \<or> (starts_with ''**/'' p \<and> glob (drop 3 p) path)) patterns"

subsection \<open>Terms\<close>

text \<open>\<open>re.sub(r"([a-z])([A-Z])", r"\1 \2", value)\<close>\<close>

fun camel_split :: "string \<Rightarrow> string" where
  "camel_split (a # b # cs) =
     (if is_lower_ascii a \<and> is_upper_ascii b then a # CHR '' '' # camel_split (b # cs)
      else a # camel_split (b # cs))"
| "camel_split s = s"

text \<open>\<open>re.findall\<close> of a class repeated: the maximal runs.\<close>

function runs :: "(char \<Rightarrow> bool) \<Rightarrow> string \<Rightarrow> string list" where
  "runs P [] = []"
| "runs P (c # cs) = (if P c then (c # takeWhile P cs) # runs P (dropWhile P cs) else runs P cs)"
  by pat_completeness auto
termination
  by (relation "measure (\<lambda>(P, s). length s)") (auto simp: less_Suc_eq_le length_dropWhile_le)

definition terms :: "string \<Rightarrow> string list" where
  "terms value = runs (\<lambda>c. is_alnum_ascii c \<or> c = CHR ''_'') (lower (camel_split value))"

text \<open>\<open>Counter(ts)\<close>: its items, in some order.\<close>

type_synonym term_counts = "(string \<times> nat) list"

definition counter :: "string list \<Rightarrow> term_counts" where
  "counter ts = map (\<lambda>t. (t, count_list ts t)) (remdups ts)"

definition times_in :: "term_counts \<Rightarrow> string \<Rightarrow> nat" where
  "times_in c t = (case map_of c t of None \<Rightarrow> 0 | Some n \<Rightarrow> n)"

subsection \<open>Sections\<close>

record doc_section =
  sc_id :: string
  sc_heading :: string
  sc_text :: string
  sc_terms :: term_counts

function chunks :: "nat \<Rightarrow> string \<Rightarrow> string list" where
  "chunks n s = (if n = 0 \<or> s = [] then [] else take n s # chunks n (drop n s))"
  by pat_completeness auto
termination by (relation "measure (\<lambda>(n, s). length s)") auto

declare chunks.simps [simp del]

definition section_name :: "nat \<Rightarrow> string" where
  "section_name n = ''s'' @ digits n"

definition mk_section :: "nat \<Rightarrow> string \<Rightarrow> string \<Rightarrow> doc_section" where
  "mk_section n title t =
     \<lparr>sc_id = section_name n, sc_heading = title, sc_text = t, sc_terms = counter (terms (title @ '' '' @ t))\<rparr>"

text \<open>The inner function \<open>flush\<close>.\<close>

definition flush_section :: "string \<Rightarrow> string list \<Rightarrow> doc_section list \<Rightarrow> doc_section list" where
  "flush_section title ls sections =
     sections @ map (\<lambda>(n, t). mk_section n title t)
       (enumerate (length sections + 1) (chunks 1200 (strip_white (join_with LF ls))))"

text \<open>
  \<open>^ {0,3}(`{3,}|~{3,})(.*)$\<close>: at most three blanks, the run of one mark, the rest of the line.
\<close>

definition fence_marker :: "string \<Rightarrow> (string \<times> string) option" where
  "fence_marker line =
     (let t = dropWhile (\<lambda>c. c = CHR '' '') line in
      if 3 < length line - length t then None
      else
        (case t of
           [] \<Rightarrow> None
         | m # _ \<Rightarrow>
             (let run = takeWhile (\<lambda>c. c = m) t in
              if (m = CHR ''`'' \<or> m = CHR ''~'') \<and> 3 \<le> length run
              then Some (run, dropWhile (\<lambda>c. c = m) t) else None)))"

definition next_fence :: "string \<Rightarrow> string \<Rightarrow> string" where
  "next_fence fence line =
     (let marker = fence_marker line in
      if fence \<noteq> [] then
        (case marker of
           None \<Rightarrow> fence
         | Some (run, rest) \<Rightarrow>
             if hd run = hd fence \<and> length fence \<le> length run \<and> strip_white rest = [] then [] else fence)
      else
        (case marker of
           None \<Rightarrow> fence
         | Some (run, rest) \<Rightarrow> if hd run \<noteq> CHR ''`'' \<or> CHR ''`'' \<notin> set rest then run else fence))"

text \<open>\<open>^#{1,6}\s+(.+)$\<close>: of a heading of blanks alone, the last blank is the group.\<close>

definition heading_text :: "string \<Rightarrow> string option" where
  "heading_text line =
     (let marks = takeWhile (\<lambda>c. c = CHR ''#'') line; r = dropWhile (\<lambda>c. c = CHR ''#'') line;
          blanks = takeWhile (\<lambda>c. c \<in> white) r; t = dropWhile (\<lambda>c. c \<in> white) r
      in if marks = [] \<or> 6 < length marks \<or> blanks = [] then None
         else if t \<noteq> [] then Some t
         else if 2 \<le> length blanks then Some [last blanks] else None)"

fun index_lines ::
  "string list \<Rightarrow> string \<Rightarrow> string \<Rightarrow> string list \<Rightarrow> doc_section list \<Rightarrow> doc_section list" where
  "index_lines [] fence title ls sections = flush_section title ls sections"
| "index_lines (line # rest) fence title ls sections =
     (let fence' = next_fence fence line in
      case (if fence' = [] then heading_text line else None) of
        Some h \<Rightarrow> index_lines rest fence' (take 160 h) [] (flush_section title ls sections)
      | None \<Rightarrow> index_lines rest fence' title (ls @ [line]) sections)"

definition index_document :: "string \<Rightarrow> string \<Rightarrow> doc_section list" where
  "index_document untitled content = index_lines (splitlines content) [] untitled [] []"

subsection \<open>Validation\<close>

datatype path_rule_kind = NAME_SUFFIX | PATH_PREFIX | FORBIDDEN_IMPORT

record path_rule =
  pr_rule_kind :: path_rule_kind
  pr_value :: string
  pr_section :: string
  pr_include :: "string list"
  pr_exclude :: "string list"

datatype standard_kind = CONVENTION | STRUCTURE

record document_config =
  dc_include :: "string list"
  dc_exclude :: "string list"
  dc_required :: bool
  dc_rules :: "path_rule list"

record document_input = document_config +
  di_title :: string
  di_kind :: standard_kind
  di_content :: string
  di_expected_version :: int

text \<open>The fields' declared bounds; \<open>^s[1-9][0-9]{0,3}$\<close>.\<close>

definition section_pattern :: "string \<Rightarrow> bool" where
  "section_pattern t \<longleftrightarrow>
     2 \<le> length t \<and> length t \<le> 5 \<and> hd t = CHR ''s'' \<and> list_all is_digit (tl t) \<and> hd (tl t) \<noteq> CHR ''0''"

definition rule_fields_ok :: "path_rule \<Rightarrow> bool" where
  "rule_fields_ok r \<longleftrightarrow>
     1 \<le> length (pr_value r) \<and> length (pr_value r) \<le> 160 \<and> section_pattern (pr_section r) \<and>
     1 \<le> length (pr_include r) \<and> length (pr_include r) \<le> 8 \<and> length (pr_exclude r) \<le> 8"

definition document_fields_ok :: "document_input \<Rightarrow> bool" where
  "document_fields_ok b \<longleftrightarrow>
     1 \<le> length (di_title b) \<and> length (di_title b) \<le> 120 \<and>
     1 \<le> length (di_content b) \<and> length (di_content b) \<le> 65536 \<and>
     1 \<le> length (dc_include b) \<and> length (dc_include b) \<le> 8 \<and> length (dc_exclude b) \<le> 8 \<and>
     length (dc_rules b) \<le> 20 \<and> list_all rule_fields_ok (dc_rules b) \<and> 0 \<le> di_expected_version b"

definition control :: "char \<Rightarrow> bool" where
  "control c \<longleftrightarrow> char_code c < 32"

definition pattern_ok :: "string \<Rightarrow> bool" where
  "pattern_ok p \<longleftrightarrow>
     p \<noteq> [] \<and> length p \<le> 160 \<and> CHR 0x5C \<notin> set p \<and> \<not> starts_with ''/'' p \<and>
     ''..'' \<notin> set (split_on CHR ''/'' p) \<and> \<not> list_ex control p"

text \<open>The validator \<open>safe\<close>: whether a document is accepted.\<close>

definition document_safe :: "(document_input \<Rightarrow> string) \<Rightarrow> string \<Rightarrow> document_input \<Rightarrow> bool" where
  "document_safe dump untitled b \<longleftrightarrow>
     strip_white (di_title b) \<noteq> [] \<and> strip_white (di_content b) \<noteq> [] \<and>
     length (utf8 (di_content b)) \<le> 65536 \<and>
     \<not> list_ex (\<lambda>c. control c \<and> c \<notin> {LF, CR, CHR 0x09}) (di_content b) \<and>
     \<not> has_secret (dump b) \<and>
     list_all (\<lambda>r. \<not> list_ex control (pr_value r) \<and> CHR 0x5C \<notin> set (pr_value r)) (dc_rules b) \<and>
     list_all pattern_ok
       (dc_include b @ dc_exclude b @ concat (map (\<lambda>r. pr_include r @ pr_exclude r) (dc_rules b))) \<and>
     (let ids = map sc_id (index_document untitled (di_content b)) in
      ids \<noteq> [] \<and> list_all (\<lambda>r. pr_section r \<in> set ids) (dc_rules b))"

definition document_valid :: "(document_input \<Rightarrow> string) \<Rightarrow> string \<Rightarrow> document_input \<Rightarrow> bool" where
  "document_valid dump untitled b \<longleftrightarrow> document_fields_ok b \<and> document_safe dump untitled b"

subsection \<open>Retrieval\<close>

text \<open>A candidate of \<open>retrieve\<close>: the entries of its dictionary.\<close>

record passage =
  ps_id :: string
  ps_document_id :: uuid
  ps_version_id :: uuid
  ps_version :: int
  ps_title :: string
  ps_kind :: standard_kind
  ps_section :: string
  ps_heading :: string
  ps_text :: string
  ps_terms :: "term_counts option"
  ps_required :: bool
  ps_file_ids :: "string list"

fun standard_kind_text :: "standard_kind \<Rightarrow> string" where
  "standard_kind_text CONVENTION = ''CONVENTION''"
| "standard_kind_text STRUCTURE = ''STRUCTURE''"

definition passage_json :: "passage \<Rightarrow> json" where
  "passage_json p =
     JObj [(''id'', JStr (ps_id p)), (''document_id'', JStr (uuid_text (ps_document_id p))),
           (''version_id'', JStr (uuid_text (ps_version_id p))), (''version'', JInt (ps_version p)),
           (''title'', JStr (ps_title p)), (''kind'', JStr (standard_kind_text (ps_kind p))),
           (''section'', JStr (ps_section p)), (''heading'', JStr (ps_heading p)),
           (''text'', JStr (ps_text p)), (''required'', JBool (ps_required p)),
           (''file_ids'', JArr (map JStr (ps_file_ids p)))]"

definition passages_size :: "passage list \<Rightarrow> nat" where
  "passages_size ps = wire_size (JArr (map passage_json ps))"

definition counts_of :: "passage \<Rightarrow> term_counts" where
  "counts_of p =
     (case ps_terms p of Some c \<Rightarrow> c | None \<Rightarrow> counter (terms (ps_heading p @ '' '' @ ps_text p)))"

definition total_count :: "term_counts \<Rightarrow> nat" where
  "total_count c = sum_list (map snd c)"

definition bm25 ::
  "('r :: linordered_field \<Rightarrow> 'r) \<Rightarrow> string list \<Rightarrow> term_counts list \<Rightarrow> term_counts \<Rightarrow> 'r" where
  "bm25 log query counts c =
     (let n = of_nat (length counts);
          mean = of_nat (sum_list (map total_count counts)) / of_nat (max (length counts) 1);
          avg = (if mean = 0 then 1 else mean);
          length = of_nat (total_count c)
      in sum_list (map (\<lambda>t.
           (let f = of_nat (times_in c t);
                df = of_nat (List.length (filter (\<lambda>d. t \<in> fst ` set d) counts))
            in log (1 + (n - df + 1/2) / (df + 1/2)) * f * (22/10) / (f + 12/10 * (1/4 + 3/4 * length / avg))))
         (filter (\<lambda>t. times_in c t \<noteq> 0) query)))"

definition max_context :: nat where
  "max_context = 12 * 1024"

definition too_large :: exn where
  "too_large = ValueError ''STANDARDS_REQUIRED_TOO_LARGE''"

text \<open>The loop over the scored candidates.\<close>

fun choose_passages ::
  "nat \<Rightarrow> bool \<Rightarrow> (passage \<times> 'r :: linordered_field) list \<Rightarrow> passage list \<Rightarrow> exn + passage list" where
  "choose_passages limit fallback [] chosen = Inr chosen"
| "choose_passages limit fallback ((p, score) # rest) chosen =
     (if \<not> ps_required p \<and> (score \<le> 0 \<and> \<not> fallback \<or> 12 \<le> length chosen)
      then choose_passages limit fallback rest chosen
      else if limit < passages_size (chosen @ [p])
      then (if ps_required p then Inl too_large else choose_passages limit fallback rest chosen)
      else choose_passages limit fallback rest (chosen @ [p]))"

record retrieval =
  rt_sections :: "passage list"
  rt_candidate_count :: nat
  rt_omitted :: nat
  rt_fallback :: bool

definition scored_passages ::
  "('r :: linordered_field \<Rightarrow> 'r) \<Rightarrow> passage list \<Rightarrow> string \<Rightarrow> (passage \<times> 'r) list" where
  "scored_passages log candidates query =
     (let counts = map counts_of candidates; words = remdups (terms query) in
      map snd (sort_key (\<lambda>(i, p, score). (\<not> ps_required p, - score, i))
        (enumerate 0 (map (\<lambda>p. (p, bm25 log words counts (counts_of p))) candidates))))"

definition retrieve ::
  "('r :: linordered_field \<Rightarrow> 'r) \<Rightarrow> passage list \<Rightarrow> string \<Rightarrow> nat \<Rightarrow> exn + retrieval" where
  "retrieve log candidates query max_bytes =
     (let scored = scored_passages log candidates query;
          fallback = (scored \<noteq> [] \<and> \<not> list_ex (\<lambda>(p, score). ps_required p \<or> 0 < score) scored)
      in case choose_passages (min max_bytes max_context) fallback scored [] of
           Inl e \<Rightarrow> Inl e
         | Inr chosen \<Rightarrow>
             Inr \<lparr>rt_sections = chosen, rt_candidate_count = length candidates,
                  rt_omitted = length candidates - length chosen, rt_fallback = fallback\<rparr>)"

end
