(* ===== verification/Import_References.thy ===== *)
theory Import_References
  imports Analyzer Effects
begin

section \<open>References of import statements\<close>

text \<open>
  \<open>import_references\<close> of \<^verbatim>\<open>app/domain/analysis/api.py\<close>: the modules that the given lines import,
  read from the syntax tree. The grammars (tree-sitter), the mark of a node with a syntax error and
  Python's own parser \<open>ast.parse\<close> on one statement are parameters.
\<close>

text \<open>What \<open>ast.parse(text).body[0]\<close> is, where it is of interest; \<open>None\<close> when parsing raises.\<close>

datatype py_statement =
    Py_Import "string list"
  | Py_Import_From "string option" nat
  | Py_Other

text \<open>\<open>"\n".join(numbered.get(n, "") for n in range(1, max(numbered) + 1))\<close>\<close>

definition numbered_lines :: "(int \<times> string) list \<Rightarrow> (int \<times> string) list" where
  "numbered_lines ls = filter (\<lambda>(n, _). 0 < n \<and> n \<le> 200000) ls"

definition numbered_line :: "(int \<times> string) list \<Rightarrow> int \<Rightarrow> string" where
  "numbered_line ls n = (case map_of (rev ls) n of None \<Rightarrow> [] | Some code \<Rightarrow> code)"

definition source_text :: "(int \<times> string) list \<Rightarrow> string" where
  "source_text ls = join_with LF (map (numbered_line ls) [1..Max (set (map fst ls))])"

text \<open>\<open>pending.pop()\<close> takes the last node; an import statement is not entered.\<close>

definition import_types :: "string list" where
  "import_types = [''import_statement'', ''import_from_statement'', ''import_declaration'']"

function import_nodes :: "node list \<Rightarrow> node list" where
  "import_nodes [] = []"
| "import_nodes (n # stack) =
     (if typed import_types n then n # import_nodes stack
      else import_nodes (rev (named_children n) @ stack))"
  by pat_completeness auto
termination
proof (relation "measure (\<lambda>stack. sum_list (map size stack))")
  fix n :: node and stack :: "node list"
  have "sum_list (map size (rev (named_children n))) < size n"
    using named_children_size [of n] by (simp add: rev_map [symmetric])
  then show "(rev (named_children n) @ stack, n # stack) \<in> measure (\<lambda>stack. sum_list (map size stack))"
    by simp
  show "(stack, n # stack) \<in> measure (\<lambda>stack. sum_list (map size stack))"
    by (cases n) simp
qed simp

text \<open>
  \<open>import\s+(?:static\s+)?([\w.*]+)\<close>: the optional group is dropped when no name follows it.
\<close>

definition name_char :: "char \<Rightarrow> bool" where
  "name_char c \<longleftrightarrow> word_char c \<or> c = CHR ''.'' \<or> c = CHR ''*''"

definition some_text :: "string \<Rightarrow> string option" where
  "some_text t = (if t = [] then None else Some t)"

definition spaced :: "string \<Rightarrow> string option" where
  "spaced t = (case t of [] \<Rightarrow> None | c # _ \<Rightarrow> if c \<in> white then Some (skip_white t) else None)"

definition java_target :: "string \<Rightarrow> string option" where
  "java_target t =
     (if \<not> starts_with ''import'' t then None
      else
        (case spaced (drop 6 t) of
           None \<Rightarrow> None
         | Some r \<Rightarrow>
             (let direct = some_text (takeWhile name_char r) in
              if starts_with ''static'' r then
                (case spaced (drop 6 r) of
                   None \<Rightarrow> direct
                 | Some u \<Rightarrow>
                     (case some_text (takeWhile name_char u) of None \<Rightarrow> direct | Some name \<Rightarrow> Some name))
              else direct)))"

definition remove_suffix :: "string \<Rightarrow> string \<Rightarrow> string" where
  "remove_suffix p t = (if ends_with p t then take (length t - length p) t else t)"

definition imports_of ::
  "(string \<Rightarrow> py_statement option) \<Rightarrow> language \<Rightarrow> node \<Rightarrow> (int \<times> string) list" where
  "imports_of ast_parse language n =
     (let line = int (nd_start n) + 1 in
      case language of
        PYTHON \<Rightarrow>
          (case ast_parse (nd_text n) of
             Some (Py_Import names) \<Rightarrow> map (\<lambda>name. (line, name)) names
           | Some (Py_Import_From module level) \<Rightarrow>
               (if truthy module then [(line, replicate level (CHR ''.'') @ the module)] else [])
           | _ \<Rightarrow> [])
      | JAVA \<Rightarrow>
          (case java_target (nd_text n) of
             None \<Rightarrow> []
           | Some t \<Rightarrow> [(line, remove_suffix ''.*'' t)])
      | _ \<Rightarrow>
          (case field ''source'' n of
             None \<Rightarrow> []
           | Some src \<Rightarrow> [(line, strip_set {CHR 0x22, CHR 0x27} (nd_text src))]))"

definition import_references ::
  "(grammar \<Rightarrow> string \<Rightarrow> node \<times> bool) \<Rightarrow> (node \<Rightarrow> bool) \<Rightarrow> (string \<Rightarrow> py_statement option) \<Rightarrow>
   string \<Rightarrow> (int \<times> string) list \<Rightarrow> (int \<times> string) list" where
  "import_references parse broken ast_parse path ls =
     (case language_for path of
        None \<Rightarrow> []
      | Some language \<Rightarrow>
          (let numbered = numbered_lines ls in
           if numbered = [] then []
           else
             (let (root, _) = parse (parser_for language path) (utf8 (source_text numbered)) in
              concat (map (imports_of ast_parse language)
                (filter (\<lambda>n. \<not> broken n) (import_nodes [root]))))))"

end
