(* ===== verification/Standards.thy ===== *)
theory Standards
  imports Standard_Index Import_References Analysis
begin

section \<open>Team documents and their versions\<close>

text \<open>
  \<^verbatim>\<open>app/domain/standards\<close>: the tables (\<^verbatim>\<open>models.py\<close>), the queries (\<^verbatim>\<open>repository.py\<close>), the
  operations on documents (\<^verbatim>\<open>service.py\<close>) and what the review domain reads (\<^verbatim>\<open>api.py\<close>): immutable
  snapshots, the sections that apply to changed files, the checks of the rules. SHA-256 and the text
  of \<open>model_dump_json\<close> are parameters. A body is one that the validation accepted.
\<close>

subsection \<open>Tables\<close>

record standard_document =
  sd_id :: uuid
  sd_created_at :: datetime
  sd_workspace_id :: uuid
  sd_repository_id :: uuid
  sd_created_by :: uuid
  sd_current_version :: int
  sd_active :: bool

record standard_version =
  vn_id :: uuid
  vn_created_at :: datetime
  vn_workspace_id :: uuid
  vn_document_id :: uuid
  vn_version :: int
  vn_title :: string
  vn_kind :: standard_kind
  vn_content :: string
  vn_digest :: string
  vn_config :: document_config
  vn_sections :: "doc_section list"

record standard_tables = analysis_tables +
  standard_documents :: "standard_document list"
  standard_versions :: "standard_version list"

definition standard_documents_ok :: "standard_document list \<Rightarrow> bool" where
  "standard_documents_ok ds \<longleftrightarrow> distinct (map sd_id ds) \<and> list_all (\<lambda>d. 0 < sd_current_version d) ds"

definition standard_versions_ok :: "standard_version list \<Rightarrow> bool" where
  "standard_versions_ok vs \<longleftrightarrow>
     distinct (map vn_id vs) \<and> distinct (map (\<lambda>v. (vn_document_id v, vn_version v)) vs) \<and>
     list_all (\<lambda>v. 0 < vn_version v) vs"

definition standard_schema :: "'a standard_tables_scheme \<Rightarrow> bool" where
  "standard_schema s \<longleftrightarrow>
     analysis_schema s \<and> standard_documents_ok (standard_documents s) \<and>
     standard_versions_ok (standard_versions s)"

interpretation document_store: row_store standard_documents standard_documents_update sd_id
  by unfold_locales simp_all

interpretation version_store: row_store standard_versions standard_versions_update vn_id
  by unfold_locales simp_all

subsection \<open>Queries\<close>

definition stored_document ::
  "uuid \<Rightarrow> uuid \<Rightarrow> uuid \<Rightarrow> ('a standard_tables_scheme, standard_document option) txn" where
  "stored_document wid repo did =
     select_first standard_documents
       (\<lambda>d. sd_workspace_id d = wid \<and> sd_repository_id d = repo \<and> sd_id d = did)"

definition current_of :: "uuid \<Rightarrow> standard_document \<Rightarrow> standard_version \<Rightarrow> bool" where
  "current_of wid d v \<longleftrightarrow>
     vn_document_id v = sd_id d \<and> vn_version v = sd_current_version d \<and> vn_workspace_id v = wid"

definition document_listing ::
  "uuid \<Rightarrow> uuid \<Rightarrow> ('a standard_tables_scheme, (standard_document \<times> standard_version) list) txn" where
  "document_listing wid repo =
     gets (\<lambda>s. concat (map (\<lambda>d. map (Pair d) (filter (current_of wid d) (standard_versions s)))
       (sort_key (\<lambda>d. (sd_created_at d, sd_id d))
         (filter (\<lambda>d. sd_workspace_id d = wid \<and> sd_repository_id d = repo) (standard_documents s)))))"

definition document_versions ::
  "uuid \<Rightarrow> uuid \<Rightarrow> ('a standard_tables_scheme, standard_version list) txn" where
  "document_versions wid did =
     gets (\<lambda>s. sort_key (\<lambda>v. - vn_version v)
       (filter (\<lambda>v. vn_workspace_id v = wid \<and> vn_document_id v = did) (standard_versions s)))"

definition numbered_version ::
  "uuid \<Rightarrow> uuid \<Rightarrow> int \<Rightarrow> ('a standard_tables_scheme, standard_version option) txn" where
  "numbered_version wid did n =
     select_first standard_versions
       (\<lambda>v. vn_workspace_id v = wid \<and> vn_document_id v = did \<and> vn_version v = n)"

definition document_count :: "uuid \<Rightarrow> uuid \<Rightarrow> ('a standard_tables_scheme, nat) txn" where
  "document_count wid repo =
     gets (\<lambda>s. length (filter (\<lambda>d. sd_workspace_id d = wid \<and> sd_repository_id d = repo) (standard_documents s)))"

definition delete_document :: "standard_document \<Rightarrow> ('a standard_tables_scheme, unit) txn" where
  "delete_document d =
     bind (delete_where standard_versions_update
             (\<lambda>v. vn_workspace_id v = sd_workspace_id d \<and> vn_document_id v = sd_id d)) (\<lambda>_.
     delete_where standard_documents_update (\<lambda>x. sd_id x = sd_id d))"

text \<open>The documents that a version is joined with.\<close>

definition snapshot_row ::
  "uuid \<Rightarrow> uuid \<Rightarrow> uuid list option \<Rightarrow> standard_document list \<Rightarrow> standard_version \<Rightarrow> bool" where
  "snapshot_row wid repo ids ds v \<longleftrightarrow>
     vn_workspace_id v = wid \<and>
     list_ex (\<lambda>d. vn_document_id v = sd_id d \<and> sd_workspace_id d = wid \<and> sd_repository_id d = repo \<and>
       sd_active d \<and>
       (case ids of None \<Rightarrow> vn_version v = sd_current_version d | Some xs \<Rightarrow> vn_id v \<in> set xs)) ds"

definition snapshot_rows ::
  "uuid \<Rightarrow> uuid \<Rightarrow> uuid list option \<Rightarrow> ('a standard_tables_scheme, standard_version list) txn" where
  "snapshot_rows wid repo ids =
     gets (\<lambda>s. sort_key vn_id
       (filter (snapshot_row wid repo ids (standard_documents s)) (standard_versions s)))"

subsection \<open>Service\<close>

definition standard_error :: "string \<Rightarrow> exn" where
  "standard_error c = AppException c CONFLICT"

definition standard_not_found :: exn where
  "standard_not_found = AppException ''STANDARD_NOT_FOUND'' NOT_FOUND"

definition find_document ::
  "uuid \<Rightarrow> uuid \<Rightarrow> uuid \<Rightarrow> ('a standard_tables_scheme, standard_document) txn" where
  "find_document wid repo did =
     bind (stored_document wid repo did) (\<lambda>found.
     case found of None \<Rightarrow> raise standard_not_found | Some d \<Rightarrow> ret d)"

record document_view =
  dv_id :: uuid
  dv_version_id :: uuid
  dv_version :: int
  dv_current_version :: int
  dv_active :: bool
  dv_title :: string
  dv_kind :: standard_kind
  dv_created_at :: datetime
  dv_digest :: string
  dv_section_count :: nat
  dv_config :: document_config
  dv_full :: "(string \<times> (string \<times> string \<times> string) list) option"

definition view_document :: "standard_document \<Rightarrow> standard_version \<Rightarrow> bool \<Rightarrow> document_view" where
  "view_document d v full =
     \<lparr>dv_id = sd_id d, dv_version_id = vn_id v, dv_version = vn_version v,
      dv_current_version = sd_current_version d, dv_active = sd_active d, dv_title = vn_title v,
      dv_kind = vn_kind v, dv_created_at = vn_created_at v, dv_digest = vn_digest v,
      dv_section_count = length (vn_sections v), dv_config = vn_config v,
      dv_full = (if full
                 then Some (vn_content v, map (\<lambda>x. (sc_id x, sc_heading x, sc_text x)) (vn_sections v))
                 else None)\<rparr>"

definition standards_access ::
  "uuid \<Rightarrow> uuid \<Rightarrow> uuid \<Rightarrow> bool \<Rightarrow> ('a standard_tables_scheme, unit) txn" where
  "standards_access uid wid repo writes =
     bind (require_permission uid wid (if writes then ''owner'' else ''read'')) (\<lambda>_.
     bind (repo_require uid wid repo ''read'' writes) (\<lambda>_. ret ()))"

definition list_documents ::
  "uuid \<Rightarrow> uuid \<Rightarrow> uuid \<Rightarrow> ('a standard_tables_scheme, document_view list) txn" where
  "list_documents uid wid repo =
     bind (standards_access uid wid repo False) (\<lambda>_.
     bind (document_listing wid repo) (\<lambda>rows.
     ret (map (\<lambda>(d, v). view_document d v False) rows)))"

definition document_history ::
  "uuid \<Rightarrow> uuid \<Rightarrow> uuid \<Rightarrow> uuid \<Rightarrow> ('a standard_tables_scheme, document_view list) txn" where
  "document_history uid wid repo did =
     bind (standards_access uid wid repo False) (\<lambda>_.
     bind (find_document wid repo did) (\<lambda>d.
     bind (document_versions wid did) (\<lambda>vs.
     ret (map (\<lambda>v. view_document d v False) vs))))"

definition get_document ::
  "uuid \<Rightarrow> uuid \<Rightarrow> uuid \<Rightarrow> uuid \<Rightarrow> int \<Rightarrow> ('a standard_tables_scheme, document_view) txn" where
  "get_document uid wid repo did n =
     bind (standards_access uid wid repo False) (\<lambda>_.
     bind (find_document wid repo did) (\<lambda>d.
     bind (numbered_version wid did n) (\<lambda>found.
     case found of
       None \<Rightarrow> raise standard_not_found
     | Some v \<Rightarrow> ret (view_document d v True))))"

text \<open>The document that a new version belongs to: a new one, or the stored one a version further.\<close>

definition new_document :: "datetime \<Rightarrow> uuid \<Rightarrow> uuid \<Rightarrow> uuid \<Rightarrow> uuid \<Rightarrow> standard_document" where
  "new_document db_now did uid wid repo =
     \<lparr>sd_id = did, sd_created_at = db_now, sd_workspace_id = wid, sd_repository_id = repo,
      sd_created_by = uid, sd_current_version = 1, sd_active = True\<rparr>"

definition versioned_document ::
  "datetime \<Rightarrow> uuid \<Rightarrow> uuid \<Rightarrow> uuid \<Rightarrow> uuid \<Rightarrow> document_input \<Rightarrow> uuid option \<Rightarrow>
   ('a standard_tables_scheme, standard_document) txn" where
  "versioned_document db_now fresh uid wid repo body did =
     (case did of
        None \<Rightarrow>
          bind (document_count wid repo) (\<lambda>n.
          bind (check (n < 8) (standard_error ''STANDARD_LIMIT'')) (\<lambda>_.
          bind (check (di_expected_version body = 0) (standard_error ''STANDARD_CONFLICT'')) (\<lambda>_.
          bind (add_row standard_documents_update (new_document db_now fresh uid wid repo)) (\<lambda>_.
          bind (flush standard_schema) (\<lambda>_.
          ret (new_document db_now fresh uid wid repo))))))
      | Some x \<Rightarrow>
          bind (find_document wid repo x) (\<lambda>d.
          bind (check (di_expected_version body = sd_current_version d) (standard_error ''STANDARD_CONFLICT'')) (\<lambda>_.
          bind (check (sd_current_version d < 20) (standard_error ''STANDARD_LIMIT'')) (\<lambda>_.
          bind (save_row standard_documents_update sd_id (d\<lparr>sd_current_version := sd_current_version d + 1\<rparr>)) (\<lambda>_.
          ret (d\<lparr>sd_current_version := sd_current_version d + 1\<rparr>))))))"

text \<open>\<open>digest\<close> and the row of a version; \<open>text\<close> is the JSON of a body without \<open>expected_version\<close>.\<close>

definition new_version ::
  "(string \<Rightarrow> string) \<Rightarrow> (document_input \<Rightarrow> string) \<Rightarrow> string \<Rightarrow> datetime \<Rightarrow> uuid \<Rightarrow> uuid \<Rightarrow> document_input \<Rightarrow>
   standard_document \<Rightarrow> standard_version" where
  "new_version sha body_text untitled db_now vid wid body d =
     \<lparr>vn_id = vid, vn_created_at = db_now, vn_workspace_id = wid, vn_document_id = sd_id d,
      vn_version = sd_current_version d, vn_title = strip_white (di_title body), vn_kind = di_kind body,
      vn_content = di_content body, vn_digest = sha (utf8 (body_text body)),
      vn_config = document_config.truncate body, vn_sections = index_document untitled (di_content body)\<rparr>"

definition save_document ::
  "(string \<Rightarrow> string) \<Rightarrow> (document_input \<Rightarrow> string) \<Rightarrow> string \<Rightarrow> datetime \<Rightarrow> uuid \<Rightarrow> uuid \<Rightarrow> uuid \<Rightarrow> uuid \<Rightarrow> uuid \<Rightarrow>
   document_input \<Rightarrow> uuid option \<Rightarrow> ('a standard_tables_scheme, document_view) txn" where
  "save_document sha body_text untitled db_now fresh vid uid wid repo body did =
     bind (standards_access uid wid repo True) (\<lambda>_.
     bind (versioned_document db_now fresh uid wid repo body did) (\<lambda>d.
     (let v = new_version sha body_text untitled db_now vid wid body d in
      bind (add_row standard_versions_update v) (\<lambda>_.
      bind (flush standard_schema) (\<lambda>_.
      ret (view_document d v True))))))"

definition expected_document ::
  "uuid \<Rightarrow> uuid \<Rightarrow> uuid \<Rightarrow> int \<Rightarrow> ('a standard_tables_scheme, standard_document) txn" where
  "expected_document wid repo did expected =
     bind (find_document wid repo did) (\<lambda>d.
     bind (check (sd_current_version d = expected) (standard_error ''STANDARD_CONFLICT'')) (\<lambda>_. ret d))"

definition set_document_state ::
  "uuid \<Rightarrow> uuid \<Rightarrow> uuid \<Rightarrow> uuid \<Rightarrow> bool \<Rightarrow> int \<Rightarrow> ('a standard_tables_scheme, unit) txn" where
  "set_document_state uid wid repo did active expected =
     bind (standards_access uid wid repo True) (\<lambda>_.
     bind (expected_document wid repo did expected) (\<lambda>d.
     save_row standard_documents_update sd_id (d\<lparr>sd_active := active\<rparr>)))"

definition remove_document ::
  "uuid \<Rightarrow> uuid \<Rightarrow> uuid \<Rightarrow> uuid \<Rightarrow> int \<Rightarrow> ('a standard_tables_scheme, unit) txn" where
  "remove_document uid wid repo did expected =
     bind (standards_access uid wid repo True) (\<lambda>_.
     bind (expected_document wid repo did expected) (\<lambda>d.
     delete_document d))"

subsection \<open>Snapshots for the review domain\<close>

record standard_snapshot =
  ss_id :: uuid
  ss_document_id :: uuid
  ss_version :: int
  ss_title :: string
  ss_kind :: standard_kind
  ss_include :: "string list"
  ss_exclude :: "string list"
  ss_required :: bool
  ss_rules :: "path_rule list"
  ss_sections :: "doc_section list"

definition snapshot_of :: "standard_version \<Rightarrow> standard_snapshot" where
  "snapshot_of v =
     \<lparr>ss_id = vn_id v, ss_document_id = vn_document_id v, ss_version = vn_version v, ss_title = vn_title v,
      ss_kind = vn_kind v, ss_include = dc_include (vn_config v), ss_exclude = dc_exclude (vn_config v),
      ss_required = dc_required (vn_config v), ss_rules = dc_rules (vn_config v), ss_sections = vn_sections v\<rparr>"

definition standards_unavailable :: exn where
  "standards_unavailable = standard_error ''STANDARDS_UNAVAILABLE''"

definition standards_snapshot ::
  "uuid \<Rightarrow> uuid \<Rightarrow> uuid list option \<Rightarrow> ('a standard_tables_scheme, standard_snapshot list) txn" where
  "standards_snapshot wid repo ids =
     bind (snapshot_rows wid repo ids) (\<lambda>rows.
     bind (check (rows \<noteq> [] \<and> (case ids of None \<Rightarrow> True | Some xs \<Rightarrow> length rows = length xs)) standards_unavailable) (\<lambda>_.
     ret (map snapshot_of rows)))"

subsection \<open>The sections that apply\<close>

definition in_scope :: "string list \<Rightarrow> string list \<Rightarrow> string \<Rightarrow> bool" where
  "in_scope include exclude path \<longleftrightarrow> path_matches path include \<and> \<not> path_matches path exclude"

definition passage_of :: "standard_snapshot \<Rightarrow> string list \<Rightarrow> doc_section \<Rightarrow> passage" where
  "passage_of d file_ids x =
     \<lparr>ps_id = uuid_text (ss_id d) @ '':'' @ sc_id x, ps_document_id = ss_document_id d, ps_version_id = ss_id d,
      ps_version = ss_version d, ps_title = ss_title d, ps_kind = ss_kind d, ps_section = sc_id x,
      ps_heading = sc_heading x, ps_text = sc_text x, ps_terms = Some (sc_terms x),
      ps_required = ss_required d, ps_file_ids = file_ids\<rparr>"

definition passages_of :: "(string \<times> string) list \<Rightarrow> standard_snapshot \<Rightarrow> passage list" where
  "passages_of paths d =
     (let file_ids = map fst (filter (\<lambda>(fid, path). in_scope (ss_include d) (ss_exclude d) path) paths) in
      if file_ids = [] then [] else map (passage_of d file_ids) (ss_sections d))"

definition standards_context ::
  "('r :: linordered_field \<Rightarrow> 'r) \<Rightarrow> standard_snapshot list \<Rightarrow> (string \<times> string) list \<Rightarrow> string \<Rightarrow> nat \<Rightarrow>
   exn + retrieval" where
  "standards_context log documents paths query max_bytes =
     retrieve log (concat (map (passages_of paths) documents)) query max_bytes"

subsection \<open>Checks of the rules\<close>

datatype check_status = VIOLATION | LIMITED | CHECKED

record rule_report =
  rr_rule :: string
  rr_kind :: path_rule_kind
  rr_value :: string
  rr_file_id :: string
  rr_file_path :: string
  rr_line :: "int option"
  rr_status :: check_status
  rr_document_id :: uuid
  rr_version :: int
  rr_title :: string
  rr_section :: string
  rr_heading :: string

text \<open>A line of a changed file: its number, its code, whether it changed.\<close>

type_synonym file_line = "int \<times> string \<times> bool"

definition rstrip_set :: "char set \<Rightarrow> string \<Rightarrow> string" where
  "rstrip_set cs s = rev (dropWhile (\<lambda>c. c \<in> cs) (rev s))"

definition import_hits :: "string \<Rightarrow> file_line list \<Rightarrow> (int \<times> string) list \<Rightarrow> (int \<times> string) list" where
  "import_hits value ls references =
     (let changed = map fst (filter (\<lambda>(_, _, ch). ch) ls); prefix = rstrip_set {CHR ''.'', CHR ''/''} value in
      filter (\<lambda>(n, target). n \<in> set changed \<and>
        (target = value \<or> starts_with (prefix @ ''.'') target \<or> starts_with (prefix @ ''/'') target)) references)"

definition rule_verdict ::
  "(string \<Rightarrow> (int \<times> string) list \<Rightarrow> (int \<times> string) list) \<Rightarrow> (string \<times> file_line list) list \<Rightarrow>
   path_rule \<Rightarrow> string \<Rightarrow> string \<Rightarrow> exn + bool \<times> int option \<times> bool" where
  "rule_verdict references files r fid path =
     (case pr_rule_kind r of
        NAME_SUFFIX \<Rightarrow> Inr (\<not> ends_with (pr_value r) (last (split_on CHR ''/'' path)), None, False)
      | PATH_PREFIX \<Rightarrow>
          Inr (\<not> starts_with (rstrip_set {CHR ''/''} (pr_value r) @ ''/'') path, None, False)
      | FORBIDDEN_IMPORT \<Rightarrow>
          (case map_of (rev files) fid of
             None \<Rightarrow> Inl KeyError
           | Some ls \<Rightarrow>
               (let hits = import_hits (pr_value r) ls (references path (map (\<lambda>(n, code, _). (n, code)) ls))
                in Inr (hits \<noteq> [], (if hits = [] then None else Some (fst (hd hits))), True))))"

definition report_of ::
  "standard_snapshot \<Rightarrow> nat \<Rightarrow> path_rule \<Rightarrow> doc_section \<Rightarrow> string \<Rightarrow> string \<Rightarrow> bool \<times> int option \<times> bool \<Rightarrow> rule_report" where
  "report_of d index r x fid path outcome =
     (case outcome of (violation, line, limited) \<Rightarrow>
       \<lparr>rr_rule = uuid_text (ss_id d) @ '':r'' @ digits (index + 1), rr_kind = pr_rule_kind r, rr_value = pr_value r,
        rr_file_id = fid, rr_file_path = path, rr_line = line,
        rr_status = (if violation then VIOLATION else if limited then LIMITED else CHECKED),
        rr_document_id = ss_document_id d, rr_version = ss_version d, rr_title = ss_title d,
        rr_section = pr_section r, rr_heading = sc_heading x\<rparr>)"

fun check_files ::
  "(string \<Rightarrow> (int \<times> string) list \<Rightarrow> (int \<times> string) list) \<Rightarrow> (string \<times> file_line list) list \<Rightarrow>
   standard_snapshot \<Rightarrow> nat \<Rightarrow> path_rule \<Rightarrow> doc_section \<Rightarrow> (string \<times> string) list \<Rightarrow> exn + rule_report list" where
  "check_files references files d index r x [] = Inr []"
| "check_files references files d index r x ((fid, path) # paths) =
     (if \<not> in_scope (ss_include d) (ss_exclude d) path \<or> \<not> in_scope (pr_include r) (pr_exclude r) path
      then check_files references files d index r x paths
      else
        (case rule_verdict references files r fid path of
           Inl e \<Rightarrow> Inl e
         | Inr outcome \<Rightarrow>
             (case check_files references files d index r x paths of
                Inl e \<Rightarrow> Inl e
              | Inr reports \<Rightarrow> Inr (report_of d index r x fid path outcome # reports))))"

fun check_document ::
  "(string \<Rightarrow> (int \<times> string) list \<Rightarrow> (int \<times> string) list) \<Rightarrow> (string \<times> file_line list) list \<Rightarrow>
   (string \<times> string) list \<Rightarrow> standard_snapshot \<Rightarrow> nat \<Rightarrow> path_rule list \<Rightarrow> exn + rule_report list" where
  "check_document references files paths d index [] = Inr []"
| "check_document references files paths d index (r # rest) =
     (case find (\<lambda>x. sc_id x = pr_section r) (ss_sections d) of
        None \<Rightarrow> Inl StopIteration
      | Some x \<Rightarrow>
          (case check_files references files d index r x paths of
             Inl e \<Rightarrow> Inl e
           | Inr reports \<Rightarrow>
               (case check_document references files paths d (index + 1) rest of
                  Inl e \<Rightarrow> Inl e
                | Inr others \<Rightarrow> Inr (reports @ others))))"

fun check_rules ::
  "(string \<Rightarrow> (int \<times> string) list \<Rightarrow> (int \<times> string) list) \<Rightarrow> standard_snapshot list \<Rightarrow>
   (string \<times> string) list \<Rightarrow> (string \<times> file_line list) list \<Rightarrow> exn + rule_report list" where
  "check_rules references [] paths files = Inr []"
| "check_rules references (d # documents) paths files =
     (case check_document references files paths d 0 (ss_rules d) of
        Inl e \<Rightarrow> Inl e
      | Inr reports \<Rightarrow>
          (case check_rules references documents paths files of
             Inl e \<Rightarrow> Inl e
           | Inr others \<Rightarrow> Inr (reports @ others)))"

end
