(* ===== verification/Standards_Results.thy ===== *)
theory Standards_Results
  imports Standards Analysis_Results Transition_System
begin

section \<open>What the operations on team documents do\<close>

text \<open>
  The operations inverted (what a successful call read and wrote), the invariant of documents and
  versions, the documents as a transition system, and the laws of retrieval and of the rule checks.
\<close>

subsection \<open>Reads\<close>

lemma standards_access_reads: "standards_access uid wid repo w s = Inr (x, s') \<Longrightarrow> s' = s"
  unfolding standards_access_def by (auto simp: bind_Inr dest!: require_permission_reads repo_require_reads)

lemma find_document_reads:
  "find_document wid repo did s = Inr (d, s') \<Longrightarrow>
   s' = s \<and> d \<in> set (standard_documents s) \<and> sd_workspace_id d = wid \<and> sd_repository_id d = repo \<and> sd_id d = did"
  unfolding find_document_def stored_document_def
  by (auto simp: bind_Inr split: option.splits elim!: select_first_Inr_cases)

lemma expected_document_reads:
  "expected_document wid repo did expected s = Inr (d, s') \<Longrightarrow>
   s' = s \<and> d \<in> set (standard_documents s) \<and> sd_workspace_id d = wid \<and> sd_repository_id d = repo \<and> sd_id d = did \<and>
   sd_current_version d = expected"
  unfolding expected_document_def by (auto simp: bind_Inr dest!: find_document_reads)

lemma standards_snapshot_Inr:
  "standards_snapshot wid repo ids s = Inr (ds, s') \<longleftrightarrow>
   (let rows = sort_key vn_id (filter (snapshot_row wid repo ids (standard_documents s)) (standard_versions s))
    in s' = s \<and> ds = map snapshot_of rows \<and> rows \<noteq> [] \<and>
       (case ids of None \<Rightarrow> True | Some xs \<Rightarrow> length rows = length xs))"
  unfolding standards_snapshot_def snapshot_rows_def by (auto simp: bind_Inr Let_def)

lemma standards_snapshot_Inl:
  "standards_snapshot wid repo ids s = Inl e \<Longrightarrow> e = standards_unavailable"
  unfolding standards_snapshot_def snapshot_rows_def by (auto simp: bind_Inl)

subsection \<open>Writes\<close>

text \<open>The document after a save, and the documents of the table with it.\<close>

lemma versioned_document_Inr:
  assumes "versioned_document db_now fresh uid wid repo body did s = Inr (d, s')"
  obtains (new) "did = None" "d = new_document db_now fresh uid wid repo" "standard_schema s'"
      "length (filter (\<lambda>d. sd_workspace_id d = wid \<and> sd_repository_id d = repo) (standard_documents s)) < 8"
      "di_expected_version body = 0" "s' = standard_documents_update (\<lambda>ds. ds @ [d]) s"
  | (next_version) old where "did = Some (sd_id old)" "old \<in> set (standard_documents s)" "sd_workspace_id old = wid"
      "sd_repository_id old = repo" "di_expected_version body = sd_current_version old" "sd_current_version old < 20"
      "d = old\<lparr>sd_current_version := sd_current_version old + 1\<rparr>"
      "s' = standard_documents_update (put_row sd_id d) s"
proof (cases did)
  case None
  with assms new show ?thesis
    by (auto simp: versioned_document_def document_count_def bind_Inr)
next
  case (Some x)
  from assms obtain old where old: "find_document wid repo x s = Inr (old, s)"
    and rest: "di_expected_version body = sd_current_version old" "sd_current_version old < 20"
      "d = old\<lparr>sd_current_version := sd_current_version old + 1\<rparr>"
      "s' = standard_documents_update (put_row sd_id d) s"
    by (auto simp: versioned_document_def Some bind_Inr dest: find_document_reads)
  from find_document_reads [OF old] rest Some show ?thesis by (intro next_version) auto
qed

lemma save_document_Inr:
  assumes "save_document sha body_text untitled db_now fresh vid uid wid repo body did s = Inr (x, s')"
  obtains d m where "versioned_document db_now fresh uid wid repo body did s = Inr (d, m)"
    "s' = standard_versions_update (\<lambda>vs. vs @ [new_version sha body_text untitled db_now vid wid body d]) m"
    "standard_schema s'" "x = view_document d (new_version sha body_text untitled db_now vid wid body d) True"
  using assms unfolding save_document_def
  by (auto simp: bind_Inr Let_def dest!: standards_access_reads)

lemma set_document_state_Inr:
  assumes "set_document_state uid wid repo did active expected s = Inr (x, s')"
  obtains d where "d \<in> set (standard_documents s)" "sd_id d = did" "sd_workspace_id d = wid" "sd_repository_id d = repo"
    "sd_current_version d = expected" "s' = standard_documents_update (put_row sd_id (d\<lparr>sd_active := active\<rparr>)) s"
  using assms unfolding set_document_state_def
  by (auto simp: bind_Inr dest!: standards_access_reads expected_document_reads)

lemma remove_document_Inr:
  assumes "remove_document uid wid repo did expected s = Inr (x, s')"
  obtains d where "d \<in> set (standard_documents s)" "sd_id d = did" "sd_workspace_id d = wid" "sd_repository_id d = repo"
    "sd_current_version d = expected"
    "standard_documents s' = filter (\<lambda>y. sd_id y \<noteq> did) (standard_documents s)"
    "standard_versions s' = filter (\<lambda>v. \<not> (vn_workspace_id v = wid \<and> vn_document_id v = did)) (standard_versions s)"
proof -
  from assms obtain d where d: "d \<in> set (standard_documents s)" "sd_id d = did" "sd_workspace_id d = wid"
    "sd_repository_id d = repo" "sd_current_version d = expected" and del: "delete_document d s = Inr (x, s')"
    unfolding remove_document_def by (auto simp: bind_Inr dest!: standards_access_reads expected_document_reads)
  from del have "standard_documents s' = filter (\<lambda>y. sd_id y \<noteq> did) (standard_documents s)"
    "standard_versions s' = filter (\<lambda>v. \<not> (vn_workspace_id v = wid \<and> vn_document_id v = did)) (standard_versions s)"
    unfolding delete_document_def by (auto simp: bind_Inr d)
  with d that show ?thesis by blast
qed

subsection \<open>The invariant\<close>

definition document_ok :: "standard_version list \<Rightarrow> standard_document \<Rightarrow> bool" where
  "document_ok vs d \<longleftrightarrow>
     vn_version ` {v \<in> set vs. vn_document_id v = sd_id d} = {1..sd_current_version d} \<and>
     sd_current_version d \<le> 20 \<and>
     (\<forall>v \<in> set vs. vn_document_id v = sd_id d \<longrightarrow> vn_workspace_id v = sd_workspace_id d)"

definition rules_grounded :: "path_rule list \<Rightarrow> doc_section list \<Rightarrow> bool" where
  "rules_grounded rs xs \<longleftrightarrow> list_all (\<lambda>r. pr_section r \<in> set (map sc_id xs)) rs"

definition version_ok :: "string \<Rightarrow> standard_document list \<Rightarrow> standard_version \<Rightarrow> bool" where
  "version_ok untitled ds v \<longleftrightarrow>
     vn_document_id v \<in> sd_id ` set ds \<and> vn_sections v = index_document untitled (vn_content v) \<and>
     vn_sections v \<noteq> [] \<and> rules_grounded (dc_rules (vn_config v)) (vn_sections v)"

definition documents_in :: "uuid \<Rightarrow> uuid \<Rightarrow> standard_document list \<Rightarrow> standard_document list" where
  "documents_in wid repo ds = filter (\<lambda>d. sd_workspace_id d = wid \<and> sd_repository_id d = repo) ds"

definition standards_inv :: "string \<Rightarrow> 'a standard_tables_scheme \<Rightarrow> bool" where
  "standards_inv untitled s \<longleftrightarrow>
     standard_schema s \<and> list_all (document_ok (standard_versions s)) (standard_documents s) \<and>
     list_all (version_ok untitled (standard_documents s)) (standard_versions s) \<and>
     (\<forall>wid repo. length (documents_in wid repo (standard_documents s)) \<le> 8)"

lemma standards_inv_ids:
  assumes "standards_inv untitled s"
  shows "distinct (map sd_id (standard_documents s))" "distinct (map vn_id (standard_versions s))"
    "distinct (map (\<lambda>v. (vn_document_id v, vn_version v)) (standard_versions s))"
  using assms
  by (simp_all add: standards_inv_def standard_schema_def standard_documents_ok_def standard_versions_ok_def)

lemma version_ok_mono: "sd_id ` set ds \<subseteq> sd_id ` set ds' \<Longrightarrow> version_ok untitled ds v \<Longrightarrow> version_ok untitled ds' v"
  by (auto simp: version_ok_def)

lemma version_ok_ids: "sd_id ` set ds = sd_id ` set ds' \<Longrightarrow> version_ok untitled ds v = version_ok untitled ds' v"
  by (simp add: version_ok_def)

lemma put_row_ids: "key ` set (put_row key r rs) = key ` set rs"
  using put_row_keys [of key r rs] by (metis list.set_map)

lemma documents_in_put:
  assumes "distinct (map sd_id ds)" and "old \<in> set ds" and "sd_id d = sd_id old"
    and "sd_workspace_id d = sd_workspace_id old" and "sd_repository_id d = sd_repository_id old"
  shows "length (documents_in wid repo (put_row sd_id d ds)) = length (documents_in wid repo ds)"
proof -
  have "x = old" if "x \<in> set ds" "sd_id x = sd_id d" for x
    using distinct_key_unique [OF assms(1), of x old] assms(2,3) that by simp
  then have "\<forall>x \<in> set ds. sd_id x = sd_id d \<longrightarrow> sd_workspace_id x = sd_workspace_id d \<and> sd_repository_id x = sd_repository_id d"
    using assms(4,5) by auto
  then show ?thesis by (induction ds) (auto simp: documents_in_def put_row_def)
qed

text \<open>A new version in sequence, seen from its document and from another.\<close>

definition versions_of :: "standard_version list \<Rightarrow> uuid \<Rightarrow> standard_version set" where
  "versions_of vs did = {v \<in> set vs. vn_document_id v = did}"

lemma document_ok_iff:
  "document_ok vs d \<longleftrightarrow>
   vn_version ` versions_of vs (sd_id d) = {1..sd_current_version d} \<and> sd_current_version d \<le> 20 \<and>
   (\<forall>v \<in> versions_of vs (sd_id d). vn_workspace_id v = sd_workspace_id d)"
  by (auto simp: document_ok_def versions_of_def)

lemma versions_of_add [simp]:
  "versions_of (vs @ [v]) did = (if vn_document_id v = did then insert v (versions_of vs did) else versions_of vs did)"
  by (auto simp: versions_of_def)

lemma document_ok_next:
  assumes "document_ok vs old" and "sd_current_version old < 20" and "sd_id d = sd_id old"
    and "sd_workspace_id d = sd_workspace_id old" and "sd_current_version d = sd_current_version old + 1"
    and "0 < sd_current_version old" and "vn_document_id v = sd_id old" and "vn_version v = sd_current_version d"
    and "vn_workspace_id v = sd_workspace_id d"
  shows "document_ok (vs @ [v]) d"
proof -
  have "insert (sd_current_version old + 1) {1..sd_current_version old} = {1..sd_current_version old + 1}"
    using assms(6) by auto
  with assms show ?thesis by (simp add: document_ok_iff)
qed

lemma save_keeps_inv:
  assumes inv: "standards_inv untitled s" and ok: "document_valid dump untitled body"
    and save: "save_document sha body_text untitled db_now fresh vid uid wid repo body did s = Inr (x, s')"
  shows "standards_inv untitled s'"
proof -
  obtain d m where ver: "versioned_document db_now fresh uid wid repo body did s = Inr (d, m)"
    and s': "s' = standard_versions_update (\<lambda>vs. vs @ [new_version sha body_text untitled db_now vid wid body d]) m"
    and schema: "standard_schema s'"
    using save by (elim save_document_Inr)
  define v where "v = new_version sha body_text untitled db_now vid wid body d"
  have v: "vn_document_id v = sd_id d" "vn_version v = sd_current_version d" "vn_workspace_id v = wid"
    "vn_sections v = index_document untitled (vn_content v)" "vn_content v = di_content body"
    "dc_rules (vn_config v) = dc_rules body"
    by (simp_all add: v_def new_version_def document_config.truncate_def)
  have grounded: "vn_sections v \<noteq> [] \<and> rules_grounded (dc_rules (vn_config v)) (vn_sections v)"
    using ok by (simp add: document_valid_def document_safe_def Let_def rules_grounded_def v)
  have vs': "standard_versions m = standard_versions s" "standard_versions s' = standard_versions s @ [v]"
    "standard_documents s' = standard_documents m"
    using ver by (auto elim!: versioned_document_Inr simp: s' v_def)
  have parts: "list_all (document_ok (standard_versions s)) (standard_documents s)"
    "list_all (version_ok untitled (standard_documents s)) (standard_versions s)"
    "length (documents_in w r (standard_documents s)) \<le> 8" for w r
    using inv by (simp_all add: standards_inv_def)
  from ver have "list_all (document_ok (standard_versions s')) (standard_documents m) \<and>
      sd_id ` set (standard_documents s) \<subseteq> sd_id ` set (standard_documents m) \<and> sd_id d \<in> sd_id ` set (standard_documents m) \<and>
      (\<forall>w r. length (documents_in w r (standard_documents m)) \<le> 8)"
  proof (cases rule: versioned_document_Inr)
    case new
    have "distinct (map sd_id (standard_documents m))"
      using new(3) by (simp add: standard_schema_def standard_documents_ok_def)
    then have unused: "sd_id d \<notin> sd_id ` set (standard_documents s)" by (simp add: new(6))
    then have empty: "versions_of (standard_versions s) (sd_id d) = {}"
      using parts(2) unfolding versions_of_def list_all_iff version_ok_def by (metis (mono_tags, lifting) empty_Collect_eq)
    from unused have "list_all (document_ok (standard_versions s @ [v])) (standard_documents s)"
      using parts(1) v by (auto simp: list_all_iff document_ok_iff)
    moreover have "document_ok (standard_versions s @ [v]) d"
      using v empty by (simp add: document_ok_iff) (simp add: new(2) new_document_def)
    moreover have "length (documents_in w r (standard_documents s @ [d])) \<le> 8" for w r
      using new(4) parts(3) [of w r] by (auto simp: documents_in_def new(2) new_document_def)
    ultimately show ?thesis by (auto simp: vs' new(6))
  next
    case (next_version old)
    have pos: "0 < sd_current_version old"
      using inv next_version(2) by (auto simp: standards_inv_def standard_schema_def standard_documents_ok_def list_all_iff)
    have ids: "sd_id d = sd_id old" "sd_workspace_id d = sd_workspace_id old" "sd_repository_id d = sd_repository_id old"
      by (simp_all add: next_version(7))
    have "list_all (document_ok (standard_versions s')) (put_row sd_id d (standard_documents s))"
      unfolding list_all_iff vs'
    proof
      fix e assume "e \<in> set (put_row sd_id d (standard_documents s))"
      then consider "e = d" | "e \<in> set (standard_documents s)" "sd_id e \<noteq> sd_id d" using put_row_in by metis
      then show "document_ok (standard_versions s @ [v]) e"
      proof cases
        case 1
        have "document_ok (standard_versions s) old" using parts(1) next_version(2) by (simp add: list_all_iff)
        with 1 next_version pos v show ?thesis by (auto intro: document_ok_next)
      next
        case 2
        with parts(1) v show ?thesis by (auto simp: list_all_iff document_ok_iff)
      qed
    qed
    moreover have "length (documents_in w r (put_row sd_id d (standard_documents s))) \<le> 8" for w r
      using parts(3) [of w r] documents_in_put [OF standards_inv_ids(1) [OF inv] next_version(2) ids, of w r] by simp
    moreover have "sd_id d \<in> sd_id ` set (standard_documents s)" using ids next_version(2) by auto
    ultimately show ?thesis by (simp add: vs' next_version(8) put_row_ids)
  qed
  then have docs: "list_all (document_ok (standard_versions s')) (standard_documents s')"
    "sd_id ` set (standard_documents s) \<subseteq> sd_id ` set (standard_documents s')" "sd_id d \<in> sd_id ` set (standard_documents s')"
    "\<forall>w r. length (documents_in w r (standard_documents s')) \<le> 8"
    by (simp_all add: vs')
  have "list_all (version_ok untitled (standard_documents s')) (standard_versions s')"
    unfolding list_all_iff
  proof
    fix w assume "w \<in> set (standard_versions s')"
    then consider "w = v" | "w \<in> set (standard_versions s)" by (auto simp: vs'(2))
    then show "version_ok untitled (standard_documents s') w"
    proof cases
      case 1
      with grounded docs(3) v(1,4) show ?thesis by (simp add: version_ok_def)
    next
      case 2
      with parts(2) have "version_ok untitled (standard_documents s) w" by (simp add: list_all_iff)
      then show ?thesis by (rule version_ok_mono [OF docs(2)])
    qed
  qed
  with schema docs show ?thesis by (simp add: standards_inv_def)
qed

lemma state_keeps_inv:
  assumes inv: "standards_inv untitled s"
    and set_state: "set_document_state uid wid repo did active expected s = Inr (x, s')" and schema: "standard_schema s'"
  shows "standards_inv untitled s'"
proof -
  from set_state obtain d where d: "d \<in> set (standard_documents s)"
    and s': "s' = standard_documents_update (put_row sd_id (d\<lparr>sd_active := active\<rparr>)) s"
    by (elim set_document_state_Inr)
  let ?e = "d\<lparr>sd_active := active\<rparr>"
  have "document_ok (standard_versions s) d" using inv d by (simp add: standards_inv_def list_all_iff)
  then have "document_ok (standard_versions s) ?e" by (simp add: document_ok_def)
  then have "list_all (document_ok (standard_versions s')) (standard_documents s')"
    using inv by (simp add: s' list_all_put_row standards_inv_def)
  moreover have "list_all (version_ok untitled (standard_documents s')) (standard_versions s')"
    using inv version_ok_ids [OF put_row_ids [of sd_id ?e "standard_documents s"], of untitled]
    by (simp add: s' standards_inv_def list_all_iff)
  moreover have "length (documents_in w r (standard_documents s')) \<le> 8" for w r
    using inv documents_in_put [OF standards_inv_ids(1) [OF inv] d, of ?e w r] by (simp add: s' standards_inv_def)
  ultimately show ?thesis using schema by (simp add: standards_inv_def)
qed

lemma remove_keeps_inv:
  assumes inv: "standards_inv untitled s"
    and rem: "remove_document uid wid repo did expected s = Inr (x, s')" and schema: "standard_schema s'"
  shows "standards_inv untitled s'"
proof -
  from rem obtain d where d: "d \<in> set (standard_documents s)" "sd_id d = did" "sd_workspace_id d = wid"
    and docs: "standard_documents s' = filter (\<lambda>y. sd_id y \<noteq> did) (standard_documents s)"
    and vers: "standard_versions s' = filter (\<lambda>v. \<not> (vn_workspace_id v = wid \<and> vn_document_id v = did)) (standard_versions s)"
    by (elim remove_document_Inr)
  have own: "vn_workspace_id v = wid" if "v \<in> set (standard_versions s)" "vn_document_id v = did" for v
    using inv that d by (auto simp: standards_inv_def document_ok_def list_all_iff)
  have keep: "versions_of (standard_versions s') (sd_id e) = versions_of (standard_versions s) (sd_id e)" if "sd_id e \<noteq> did" for e
    using that by (auto simp: versions_of_def vers)
  have "list_all (document_ok (standard_versions s')) (standard_documents s')"
    using inv by (auto simp: standards_inv_def list_all_iff docs document_ok_iff keep)
  moreover have "list_all (version_ok untitled (standard_documents s')) (standard_versions s')"
    unfolding list_all_iff
  proof
    fix v assume "v \<in> set (standard_versions s')"
    then have v: "v \<in> set (standard_versions s)" "vn_document_id v \<noteq> did" using own by (auto simp: vers)
    have "version_ok untitled (standard_documents s) v" using inv v(1) by (simp add: standards_inv_def list_all_iff)
    with v(2) show "version_ok untitled (standard_documents s') v" by (auto simp: version_ok_def docs)
  qed
  moreover have "length (documents_in w r (standard_documents s')) \<le> 8" for w r
  proof -
    have "documents_in w r (standard_documents s') = filter (\<lambda>y. sd_id y \<noteq> did) (documents_in w r (standard_documents s))"
      by (simp add: documents_in_def docs conj_commute)
    then have "length (documents_in w r (standard_documents s')) \<le> length (documents_in w r (standard_documents s))" by simp
    also have "\<dots> \<le> 8" using inv by (simp add: standards_inv_def)
    finally show ?thesis .
  qed
  ultimately show ?thesis using schema by (simp add: standards_inv_def)
qed

end
