(* ===== verification/Standard_Index_Results.thy ===== *)
theory Standard_Index_Results
  imports Standard_Index "HOL-Library.Multiset"
begin

section \<open>Sections and retrieval\<close>

text \<open>
  What retrieval keeps: the required sections first and all of them, or an error when they do not
  fit; and the shape of the sections that the text of a document is cut into.
\<close>

subsection \<open>Sizes\<close>

text \<open>The bytes of an array depend on its elements, not on their order.\<close>

lemma separated_length:
  "xs \<noteq> [] \<Longrightarrow> length (utf8 (separated xs)) + 2 = sum_list (map (\<lambda>x. length (utf8 x) + 2) xs)"
proof (induction xs rule: separated.induct)
  case (3 x y xs)
  then show ?case by (simp add: utf8_def)
qed simp_all

lemma wire_size_arr:
  "vs \<noteq> [] \<Longrightarrow> wire_size (JArr vs) = sum_list (map (\<lambda>v. wire_size v + 2) vs)"
  using separated_length [of "map dumps vs"]
  by (simp add: wire_size_def comp_def) (simp add: utf8_def)

lemma passages_size_mset:
  assumes "mset ps = mset qs"
  shows "passages_size ps = passages_size qs"
proof (cases "ps = []")
  case True
  with assms show ?thesis by simp
next
  case False
  with assms have "qs \<noteq> []" by auto
  let ?f = "\<lambda>p. wire_size (passage_json p) + 2"
  have "sum_list (map ?f xs) = sum_mset (image_mset ?f (mset xs))" for xs
    by (simp only: sum_mset_sum_list flip: mset_map)
  then have "sum_list (map ?f ps) = sum_list (map ?f qs)" using assms by simp
  with False \<open>qs \<noteq> []\<close> show ?thesis by (simp add: passages_size_def wire_size_arr comp_def)
qed

lemma passages_size_prefix: "passages_size ps \<le> passages_size (ps @ qs)"
  by (simp add: passages_size_def wire_size_prefix)

subsection \<open>The order of the candidates\<close>

lemma sorted_split:
  fixes k :: "'a \<Rightarrow> 'k :: linorder"
  assumes "sorted (map (\<lambda>x. (\<not> P x, k x)) xs)"
  shows "xs = filter P xs @ filter (\<lambda>x. \<not> P x) xs"
  using assms
proof (induction xs)
  case (Cons x xs)
  then have ih: "xs = filter P xs @ filter (\<lambda>x. \<not> P x) xs" by simp
  show ?case
  proof (cases "P x")
    case True
    then show ?thesis using ih by simp
  next
    case False
    have "\<not> P y" if "y \<in> set xs" for y using Cons.prems that False by auto
    then have "filter P xs = []" "filter (\<lambda>x. \<not> P x) xs = xs" by auto
    with False show ?thesis by simp
  qed
qed simp

lemma scored_passages_split:
  obtains R Q where "scored_passages log candidates query = R @ Q" "\<forall>x \<in> set R. ps_required (fst x)"
    "\<forall>x \<in> set Q. \<not> ps_required (fst x)" "mset (map fst R) = mset (filter ps_required candidates)"
    "mset (map fst Q) = mset (filter (\<lambda>p. \<not> ps_required p) candidates)"
proof -
  define g where "g = (\<lambda>p. bm25 log (remdups (terms query)) (map counts_of candidates) (counts_of p))"
  define xs where "xs = sort_key (\<lambda>(i, p, score). (\<not> ps_required p, - score, i)) (enumerate 0 (map (\<lambda>p. (p, g p)) candidates))"
  have scored: "scored_passages log candidates query = map snd xs"
    by (simp add: scored_passages_def xs_def g_def Let_def)
  let ?P = "\<lambda>x. ps_required (fst (snd x))"
  have "sorted (map (\<lambda>(i, p, score). (\<not> ps_required p, - score, i)) xs)" by (simp add: xs_def)
  moreover have "map (\<lambda>(i, p, score). (\<not> ps_required p, - score, i)) xs = map (\<lambda>x. (\<not> ?P x, (- snd (snd x), fst x))) xs"
    by auto
  ultimately have "sorted (map (\<lambda>x. (\<not> ?P x, (- snd (snd x), fst x))) xs)" by simp
  from sorted_split [OF this] have split: "xs = filter ?P xs @ filter (\<lambda>x. \<not> ?P x) xs" .
  have pairs: "map (fst \<circ> snd) (enumerate 0 (map (\<lambda>p. (p, g p)) candidates)) = candidates"
    by (simp only: map_map [symmetric] map_snd_enumerate) (simp add: comp_def)
  have "mset (map (fst \<circ> snd) xs) = mset (map (fst \<circ> snd) (enumerate 0 (map (\<lambda>p. (p, g p)) candidates)))"
    by (simp only: xs_def mset_map mset_sort)
  then have "mset (map (fst \<circ> snd) xs) = mset candidates" unfolding pairs .
  then have ms: "image_mset (fst \<circ> snd) (mset xs) = mset candidates" by simp
  have f: "mset (map fst (map snd (filter (\<lambda>x. T (fst (snd x))) xs))) = mset (filter T candidates)" for T
    using arg_cong [OF ms, of "filter_mset T"] by (simp add: filter_mset_image_mset comp_def image_mset.compositionality)
  show thesis
  proof (rule that [of "map snd (filter ?P xs)" "map snd (filter (\<lambda>x. \<not> ?P x) xs)"])
    show "scored_passages log candidates query = map snd (filter ?P xs) @ map snd (filter (\<lambda>x. \<not> ?P x) xs)"
      unfolding scored by (subst split) simp
  qed (use f [of ps_required] f [of "\<lambda>p. \<not> ps_required p"] in auto)
qed

subsection \<open>The choice\<close>

lemma choose_required:
  assumes "\<forall>x \<in> set R. ps_required (fst x)"
  shows "choose_passages limit fallback (R @ Q) chosen =
    (if R \<noteq> [] \<and> limit < passages_size (chosen @ map fst R) then Inl too_large
     else choose_passages limit fallback Q (chosen @ map fst R))"
  using assms
proof (induction R arbitrary: chosen)
  case (Cons x R)
  obtain p score where x: "x = (p, score)" by (cases x)
  have req: "ps_required p" using Cons.prems x by simp
  have mono: "passages_size (chosen @ [p]) \<le> passages_size (chosen @ p # map fst R)"
    using passages_size_prefix [of "chosen @ [p]" "map fst R"] by simp
  show ?case using Cons mono req by (cases "R = []") (auto simp: x)
qed simp

lemma choose_optional:
  assumes "\<forall>x \<in> set Q. \<not> ps_required (fst x)"
  obtains K where "choose_passages limit fallback Q chosen = Inr (chosen @ K)"
    "mset K \<subseteq># mset (map fst Q)" "K = [] \<or> passages_size (chosen @ K) \<le> limit" "K = [] \<or> length (chosen @ K) \<le> 12"
    "\<forall>p \<in> set K. fallback \<or> (\<exists>score > 0. (p, score) \<in> set Q)"
  using assms
proof (induction Q arbitrary: chosen thesis)
  case (Cons x Q)
  obtain p score where x: "x = (p, score)" by (cases x)
  have opt: "\<not> ps_required p" "\<forall>x \<in> set Q. \<not> ps_required (fst x)" using Cons.prems(2) x by auto
  let ?skip = "score \<le> 0 \<and> \<not> fallback \<or> 12 \<le> length chosen \<or> limit < passages_size (chosen @ [p])"
  show ?case
  proof (cases ?skip)
    case True
    obtain K where K: "choose_passages limit fallback Q chosen = Inr (chosen @ K)"
      "mset K \<subseteq># mset (map fst Q)" "K = [] \<or> passages_size (chosen @ K) \<le> limit" "K = [] \<or> length (chosen @ K) \<le> 12"
      "\<forall>p \<in> set K. fallback \<or> (\<exists>score > 0. (p, score) \<in> set Q)"
      using Cons.IH [of chosen] opt(2) by blast
    show ?thesis
    proof (rule Cons.prems(1) [of K])
      show "choose_passages limit fallback (x # Q) chosen = Inr (chosen @ K)" using True K(1) opt(1) by (auto simp: x)
      show "mset K \<subseteq># mset (map fst (x # Q))" by (rule subset_mset.order_trans [OF K(2)]) simp
    qed (use K in auto)
  next
    case False
    obtain K where K: "choose_passages limit fallback Q (chosen @ [p]) = Inr ((chosen @ [p]) @ K)"
      "mset K \<subseteq># mset (map fst Q)" "K = [] \<or> passages_size ((chosen @ [p]) @ K) \<le> limit"
      "K = [] \<or> length ((chosen @ [p]) @ K) \<le> 12"
      "\<forall>p \<in> set K. fallback \<or> (\<exists>score > 0. (p, score) \<in> set Q)"
      using Cons.IH [of "chosen @ [p]"] opt(2) by blast
    show ?thesis
    proof (rule Cons.prems(1) [of "p # K"])
      show "choose_passages limit fallback (x # Q) chosen = Inr (chosen @ p # K)" using False K(1) opt(1) by (auto simp: x)
      show "mset (p # K) \<subseteq># mset (map fst (x # Q))" using K(2) by (simp add: x)
      show "p # K = [] \<or> passages_size (chosen @ p # K) \<le> limit" using K(3) False by (cases "K = []") auto
      show "p # K = [] \<or> length (chosen @ p # K) \<le> 12" using K(4) False by (cases "K = []") auto
      show "\<forall>q \<in> set (p # K). fallback \<or> (\<exists>score > 0. (q, score) \<in> set (x # Q))"
        using K(5) False by (simp add: x) (metis not_le)
    qed
  qed
qed simp


lemma scored_passage: "(p, score) \<in> set (scored_passages log candidates query) \<Longrightarrow>
  score = bm25 log (remdups (terms query)) (map counts_of candidates) (counts_of p)"
  by (auto simp: scored_passages_def Let_def in_set_enumerate_eq)

text \<open>Retrieval keeps every required section or fails: it fails exactly when the required
sections together exceed the byte bound; otherwise the answer begins with all of them, adds only
candidates that are relevant (or, when nothing is, any), fits the bound, has at most 12 sections when
an optional one is among them, and accounts for every section left out.\<close>

theorem retrieval_complete:
  "case retrieve log candidates query max_bytes of
     Inl e \<Rightarrow> e = too_large \<and> filter ps_required candidates \<noteq> [] \<and>
       min max_bytes max_context < passages_size (filter ps_required candidates)
   | Inr r \<Rightarrow>
       (filter ps_required candidates = [] \<or> passages_size (filter ps_required candidates) \<le> min max_bytes max_context) \<and>
       (\<exists>R K. rt_sections r = R @ K \<and> mset R = mset (filter ps_required candidates) \<and>
          mset K \<subseteq># mset (filter (\<lambda>p. \<not> ps_required p) candidates) \<and>
          set K \<subseteq> {p. rt_fallback r \<or> 0 < bm25 log (remdups (terms query)) (map counts_of candidates) (counts_of p)} \<and>
          (R @ K = [] \<or> passages_size (R @ K) \<le> min max_bytes max_context) \<and>
          (K = [] \<or> length (R @ K) \<le> 12)) \<and>
       rt_candidate_count r = length candidates \<and>
       rt_omitted r + length (rt_sections r) = length candidates"
proof -
  define scored where "scored = scored_passages log candidates query"
  define fb where "fb = (scored \<noteq> [] \<and> \<not> list_ex (\<lambda>(p, score). ps_required p \<or> 0 < score) scored)"
  define limit where "limit = min max_bytes max_context"
  obtain R Q where sc: "scored = R @ Q" "\<forall>x \<in> set R. ps_required (fst x)" "\<forall>x \<in> set Q. \<not> ps_required (fst x)"
    and mR: "mset (map fst R) = mset (filter ps_required candidates)"
    and mQ: "mset (map fst Q) = mset (filter (\<lambda>p. \<not> ps_required p) candidates)"
    unfolding scored_def by (rule scored_passages_split)
  have size: "passages_size (map fst R) = passages_size (filter ps_required candidates)"
    by (rule passages_size_mset [OF mR])
  have none: "R = [] \<longleftrightarrow> filter ps_required candidates = []" using mR by (metis list.map_disc_iff mset_zero_iff)
  obtain K where K: "choose_passages limit fb Q (map fst R) = Inr (map fst R @ K)" "mset K \<subseteq># mset (map fst Q)"
    "K = [] \<or> passages_size (map fst R @ K) \<le> limit" "K = [] \<or> length (map fst R @ K) \<le> 12"
    "\<forall>p \<in> set K. fb \<or> (\<exists>score > 0. (p, score) \<in> set Q)"
    using choose_optional [OF sc(3)] by metis
  have res: "retrieve log candidates query max_bytes =
    (case choose_passages limit fb scored [] of Inl e \<Rightarrow> Inl e
     | Inr chosen \<Rightarrow> Inr \<lparr>rt_sections = chosen, rt_candidate_count = length candidates,
         rt_omitted = length candidates - length chosen, rt_fallback = fb\<rparr>)"
    unfolding retrieve_def Let_def fb_def limit_def scored_def ..
  have total: "length (map fst R) + length (map fst Q) = length candidates"
    using sum_length_filter_compl [of ps_required candidates] by (simp only: mset_eq_length [OF mR] mset_eq_length [OF mQ])
  have "length K \<le> length (map fst Q)" using size_mset_mono [OF K(2)] by simp
  with total have count: "length candidates - length (map fst R @ K) + length (map fst R @ K) = length candidates" by simp
  have relevant: "set K \<subseteq> {p. fb \<or> 0 < bm25 log (remdups (terms query)) (map counts_of candidates) (counts_of p)}"
  proof
    fix p assume "p \<in> set K"
    with K(5) consider fb | score where "0 < score" "(p, score) \<in> set scored" by (auto simp: sc(1))
    then show "p \<in> {p. fb \<or> 0 < bm25 log (remdups (terms query)) (map counts_of candidates) (counts_of p)}"
      by cases (auto simp: scored_def dest: scored_passage)
  qed
  show ?thesis
  proof (cases "R \<noteq> [] \<and> limit < passages_size (map fst R)")
    case True
    then have "retrieve log candidates query max_bytes = Inl too_large"
      by (simp add: res sc(1) choose_required [OF sc(2)])
    with True none size show ?thesis by (simp add: limit_def)
  next
    case False
    then have r: "retrieve log candidates query max_bytes =
      Inr \<lparr>rt_sections = map fst R @ K, rt_candidate_count = length candidates,
           rt_omitted = length candidates - length (map fst R @ K), rt_fallback = fb\<rparr>"
      using K(1) by (auto simp: res sc(1) choose_required [OF sc(2)])
    have fits: "filter ps_required candidates = [] \<or> passages_size (filter ps_required candidates) \<le> limit"
      using False none size by auto
    have "map fst R @ K = [] \<or> passages_size (map fst R @ K) \<le> limit"
      using K(3) False by (cases "K = []") auto
    with r fits K(2,4) mR mQ relevant count show ?thesis
      by (simp only: sum.case retrieval.simps limit_def) metis
  qed
qed

end
