(* ===== verification/Standards_Properties.thy ===== *)
theory Standards_Properties
  imports Standards_Results Standard_Index_Results Analysis_System
begin

section \<open>Team documents: histories, pinned versions, rule checks\<close>

text \<open>
  The transactions on team documents as a transition system over the tables and the set of version
  keys ever used (a fresh UUID is one never used before), with the properties of its reachable states.
\<close>

subsection \<open>The system\<close>

type_synonym 'a standards_state = "'a standard_tables_scheme \<times> uuid set"

text \<open>\<open>others\<close> is any transaction of another component: it leaves the two tables alone.\<close>

inductive standards_step ::
  "(document_input \<Rightarrow> string) \<Rightarrow> string \<Rightarrow> 'a standards_state \<Rightarrow> 'a standards_state \<Rightarrow> bool"
  for dump :: "document_input \<Rightarrow> string" and untitled :: string where
  others: "standard_documents s' = standard_documents s \<Longrightarrow> standard_versions s' = standard_versions s \<Longrightarrow>
    standard_schema s' \<Longrightarrow> standards_step dump untitled (s, used) (s', used)"
| save: "document_valid dump untitled body \<Longrightarrow> vid \<notin> used \<Longrightarrow>
    transaction standard_schema (save_document sha body_text untitled db_now fresh vid uid wid repo body did) s = (Inr x, s') \<Longrightarrow>
    standards_step dump untitled (s, used) (s', insert vid used)"
| set_state: "transaction standard_schema (set_document_state uid wid repo did active expected) s = (Inr x, s') \<Longrightarrow>
    standards_step dump untitled (s, used) (s', used)"
| remove: "transaction standard_schema (remove_document uid wid repo did expected) s = (Inr x, s') \<Longrightarrow>
    standards_step dump untitled (s, used) (s', used)"

definition standards_start :: "'a standards_state \<Rightarrow> bool" where
  "standards_start q \<longleftrightarrow>
     standard_schema (fst q) \<and> standard_documents (fst q) = [] \<and> standard_versions (fst q) = []"

definition standards_state_inv :: "string \<Rightarrow> 'a standards_state \<Rightarrow> bool" where
  "standards_state_inv untitled q \<longleftrightarrow>
     standards_inv untitled (fst q) \<and> vn_id ` set (standard_versions (fst q)) \<subseteq> snd q"

text \<open>A version that is there, and whose key was in use before, is the version that was there before.\<close>

definition versions_kept :: "'a standards_state \<Rightarrow> 'a standards_state \<Rightarrow> bool" where
  "versions_kept p q \<longleftrightarrow>
     snd p \<subseteq> snd q \<and> {v \<in> set (standard_versions (fst q)). vn_id v \<in> snd p} \<subseteq> set (standard_versions (fst p))"

lemma save_versions:
  assumes "save_document sha body_text untitled db_now fresh vid uid wid repo body did s = Inr (x, s')"
  obtains v where "standard_versions s' = standard_versions s @ [v]" "vn_id v = vid"
  using assms
  by (elim save_document_Inr versioned_document_Inr) (auto simp: new_version_def)

lemma standards_step_inv:
  assumes "standards_step dump untitled p q" and "standards_state_inv untitled p"
  shows "standards_state_inv untitled q \<and> versions_kept p q"
  using assms
proof (induction rule: standards_step.induct)
  case (others s' s used)
  then show ?case by (auto simp: standards_state_inv_def standards_inv_def versions_kept_def)
next
  case (save body vid used sha body_text db_now fresh uid wid repo did s x s')
  then have run: "save_document sha body_text untitled db_now fresh vid uid wid repo body did s = Inr (x, s')"
    by (simp add: transaction_Inr_iff)
  obtain v where "standard_versions s' = standard_versions s @ [v]" "vn_id v = vid" by (rule save_versions [OF run])
  moreover have "standards_inv untitled s'" using save by (auto intro: save_keeps_inv [OF _ _ run] simp: standards_state_inv_def)
  ultimately show ?case using save.prems save.hyps(2) by (auto simp: standards_state_inv_def versions_kept_def)
next
  case (set_state uid wid repo did active expected s x s' used)
  then have run: "set_document_state uid wid repo did active expected s = Inr (x, s')" and ok: "standard_schema s'"
    by (simp_all add: transaction_Inr_iff)
  from run have "standard_versions s' = standard_versions s" by (elim set_document_state_Inr) simp
  moreover have "standards_inv untitled s'"
    using set_state.prems by (auto intro: state_keeps_inv [OF _ run ok] simp: standards_state_inv_def)
  ultimately show ?case using set_state.prems by (auto simp: standards_state_inv_def versions_kept_def)
next
  case (remove uid wid repo did expected s x s' used)
  then have run: "remove_document uid wid repo did expected s = Inr (x, s')" and ok: "standard_schema s'"
    by (simp_all add: transaction_Inr_iff)
  from run have "set (standard_versions s') \<subseteq> set (standard_versions s)" by (elim remove_document_Inr) auto
  moreover have "standards_inv untitled s'"
    using remove.prems by (auto intro: remove_keeps_inv [OF _ run ok] simp: standards_state_inv_def)
  ultimately show ?case using remove.prems by (auto simp: standards_state_inv_def versions_kept_def)
qed

interpretation documents: evolving_system standards_start "standards_step dump untitled" "standards_state_inv untitled"
  versions_kept
proof unfold_locales
  show "standards_state_inv untitled s" if "standards_start s" for s :: "'a standards_state"
    using that by (simp add: standards_start_def standards_state_inv_def standards_inv_def documents_in_def)
  show "standards_state_inv untitled t" if "standards_state_inv untitled s" "standards_step dump untitled s t"
    for s t :: "'a standards_state" using standards_step_inv [OF that(2,1)] by blast
  show "versions_kept s s" for s :: "'a standards_state" by (simp add: versions_kept_def)
  show "versions_kept s u" if "versions_kept s t" "versions_kept t u" for s t u :: "'a standards_state"
    using that unfolding versions_kept_def by blast
  show "versions_kept s t" if "standards_state_inv untitled s" "standards_step dump untitled s t"
    for s t :: "'a standards_state" using standards_step_inv [OF that(2,1)] by blast
qed

subsection \<open>Histories\<close>

text \<open>The numbers of the versions of a document, in ascending order.\<close>

definition version_numbers :: "standard_version list \<Rightarrow> uuid \<Rightarrow> int list" where
  "version_numbers vs did = sort (map vn_version (filter (\<lambda>v. vn_document_id v = did) vs))"

lemma version_numbers_upto:
  assumes inv: "standards_inv untitled s" and d: "d \<in> set (standard_documents s)"
  shows "version_numbers (standard_versions s) (sd_id d) = [1..sd_current_version d]"
proof (rule sorted_distinct_set_unique)
  let ?own = "filter (\<lambda>v. vn_document_id v = sd_id d) (standard_versions s)"
  have ok: "document_ok (standard_versions s) d" using inv d by (simp add: standards_inv_def list_all_iff)
  have "distinct (map (\<lambda>v. (vn_document_id v, vn_version v)) ?own)"
    using standards_inv_ids(3) [OF inv] by (simp add: distinct_map_filter)
  then have "inj_on vn_version (set ?own)" "distinct ?own"
    by (auto simp: distinct_map inj_on_def)
  then show "distinct (version_numbers (standard_versions s) (sd_id d))"
    by (simp add: version_numbers_def distinct_map)
  show "set (version_numbers (standard_versions s) (sd_id d)) = set [1..sd_current_version d]"
    using ok by (simp add: version_numbers_def document_ok_def)
qed (simp_all add: version_numbers_def)

text \<open>C37. In every reachable state the stored versions of a document are numbered 1, 2, ... up to its
current version without a gap or a repetition, at most 20 of them, all in the document's workspace;
no version is left without its document, and a repository has at most 8 documents.\<close>

theorem document_history_contiguous:
  assumes "standards_start p" and "(standards_step dump untitled)\<^sup>*\<^sup>* p (s, used)"
  shows "(\<forall>d \<in> set (standard_documents s).
      version_numbers (standard_versions s) (sd_id d) = [1..sd_current_version d] \<and>
      1 \<le> sd_current_version d \<and> sd_current_version d \<le> 20 \<and>
      vn_workspace_id ` versions_of (standard_versions s) (sd_id d) = {sd_workspace_id d}) \<and>
    vn_document_id ` set (standard_versions s) = sd_id ` set (standard_documents s) \<and>
    (\<forall>wid repo. length (documents_in wid repo (standard_documents s)) \<le> 8)"
proof -
  have "standards_state_inv untitled (s, used)" by (rule documents.inv_reachable [OF assms])
  then have inv: "standards_inv untitled s" by (simp add: standards_state_inv_def)
  have each: "version_numbers (standard_versions s) (sd_id d) = [1..sd_current_version d] \<and>
      1 \<le> sd_current_version d \<and> sd_current_version d \<le> 20 \<and>
      vn_workspace_id ` versions_of (standard_versions s) (sd_id d) = {sd_workspace_id d} \<and>
      sd_id d \<in> vn_document_id ` set (standard_versions s)"
    if d: "d \<in> set (standard_documents s)" for d
  proof -
    have ok: "document_ok (standard_versions s) d" using inv d by (simp add: standards_inv_def list_all_iff)
    have pos: "1 \<le> sd_current_version d"
      using inv d by (auto simp: standards_inv_def standard_schema_def standard_documents_ok_def list_all_iff)
    then have "1 \<in> vn_version ` versions_of (standard_versions s) (sd_id d)" using ok by (simp add: document_ok_iff)
    then obtain v where v: "v \<in> versions_of (standard_versions s) (sd_id d)" by blast
    then have "sd_id d \<in> vn_document_id ` set (standard_versions s)" by (force simp: versions_of_def)
    moreover have "vn_workspace_id ` versions_of (standard_versions s) (sd_id d) = {sd_workspace_id d}"
      using v ok by (auto simp: document_ok_iff)
    ultimately show ?thesis using ok pos version_numbers_upto [OF inv d] by (simp add: document_ok_iff)
  qed
  moreover have "vn_document_id v \<in> sd_id ` set (standard_documents s)" if "v \<in> set (standard_versions s)" for v
    using inv that by (simp add: standards_inv_def version_ok_def list_all_iff)
  ultimately have "vn_document_id ` set (standard_versions s) = sd_id ` set (standard_documents s)"
    by (intro equalityI image_subsetI) simp_all
  moreover have "\<forall>wid repo. length (documents_in wid repo (standard_documents s)) \<le> 8" using inv by (simp add: standards_inv_def)
  ultimately show ?thesis using each by (intro conjI ballI) simp_all
qed

subsection \<open>Pinned versions\<close>

lemma snapshot_ids: "map ss_id (map snapshot_of vs) = map vn_id vs"
  by (simp add: snapshot_of_def)

text \<open>C38. A review reads the versions it was started with or none: when a snapshot of the current
versions is pinned by its keys, then at any later time, whatever was saved, switched or removed in
between, reading the pinned keys gives exactly the same documents or STANDARDS_UNAVAILABLE.\<close>

theorem pinned_versions_stable:
  assumes "standards_start p" and "(standards_step dump untitled)\<^sup>*\<^sup>* p (s, used)"
    and pin: "standards_snapshot wid repo ids s = Inr (ds, s1)"
    and later: "(standards_step dump untitled)\<^sup>*\<^sup>* (s, used) (t, used')"
  shows "standards_snapshot wid repo (Some (map ss_id ds)) t = Inl standards_unavailable \<or>
    standards_snapshot wid repo (Some (map ss_id ds)) t = Inr (ds, t)"
proof (cases "standards_snapshot wid repo (Some (map ss_id ds)) t")
  case (Inl e)
  then show ?thesis using standards_snapshot_Inl by metis
next
  case (Inr r)
  then obtain ds' t1 where r: "standards_snapshot wid repo (Some (map ss_id ds)) t = Inr (ds', t1)" by (cases r) auto
  have inv_s: "standards_state_inv untitled (s, used)" by (rule documents.inv_reachable [OF assms(1,2)])
  have inv_t: "standards_state_inv untitled (t, used')" by (rule documents.inv_steps [OF later inv_s])
  have kept: "versions_kept (s, used) (t, used')" by (rule documents.evolves_steps [OF later inv_s])
  define rs where "rs = sort_key vn_id (filter (snapshot_row wid repo ids (standard_documents s)) (standard_versions s))"
  define ks where "ks = sort_key vn_id
    (filter (snapshot_row wid repo (Some (map ss_id ds)) (standard_documents t)) (standard_versions t))"
  have ds: "ds = map snapshot_of rs" using pin by (simp add: standards_snapshot_Inr Let_def rs_def)
  have ds': "ds' = map snapshot_of ks" "t1 = t" "length ks = length rs"
    using r by (simp_all add: standards_snapshot_Inr Let_def ks_def ds)
  have ids: "distinct (map vn_id (standard_versions s))" "distinct (map vn_id (standard_versions t))"
    using inv_s inv_t standards_inv_ids by (auto simp: standards_state_inv_def)
  have "set ks \<subseteq> set rs"
  proof
    fix v assume "v \<in> set ks"
    then have v: "v \<in> set (standard_versions t)" and "vn_id v \<in> set (map ss_id ds)"
      by (auto simp: ks_def snapshot_row_def list_ex_iff)
    then obtain w where w: "w \<in> set rs" "vn_id w = vn_id v" unfolding ds snapshot_ids by auto
    then have ws: "w \<in> set (standard_versions s)" by (simp add: rs_def)
    then have "vn_id v \<in> used" using inv_s w(2) by (auto simp: standards_state_inv_def)
    with v have "v \<in> set (standard_versions s)" using kept by (auto simp: versions_kept_def)
    with ws w(2) have "v = w" by (intro distinct_key_unique [OF ids(1)]) simp_all
    with w(1) show "v \<in> set rs" by simp
  qed
  moreover have d: "distinct (map vn_id rs)" "distinct (map vn_id ks)"
    using ids by (auto simp: rs_def ks_def distinct_map intro: inj_on_subset)
  moreover have "sorted (map vn_id rs)" "sorted (map vn_id ks)" by (simp_all add: rs_def ks_def)
  ultimately have "ks = rs"
    using ds'(3) by (metis card_subset_eq distinct_card distinct_map inj_on_subset List.finite_set
        map_sorted_distinct_set_unique sup.absorb1)
  with r ds ds' show ?thesis by simp
qed

subsection \<open>Checks of the rules\<close>

text \<open>The rules of a snapshot with the files that each applies to, in the order of the checks.\<close>

definition files_under :: "standard_snapshot \<Rightarrow> path_rule \<Rightarrow> (string \<times> string) list \<Rightarrow> (string \<times> string) list" where
  "files_under d r paths =
     filter (\<lambda>(fid, path). in_scope (ss_include d) (ss_exclude d) path \<and> in_scope (pr_include r) (pr_exclude r) path) paths"

definition applicable_checks :: "standard_snapshot list \<Rightarrow> (string \<times> string) list \<Rightarrow> (string \<times> string) list" where
  "applicable_checks ds paths =
     concat (map (\<lambda>d. concat (map (\<lambda>(i, r).
         map (\<lambda>(fid, path). (uuid_text (ss_id d) @ '':r'' @ digits (i + 1), fid)) (files_under d r paths))
       (enumerate 0 (ss_rules d)))) ds)"

lemma rule_outcome_total:
  "fid \<in> fst ` set files \<Longrightarrow> \<exists>x. rule_verdict references files r fid path = Inr x"
proof -
  assume "fid \<in> fst ` set files"
  then have "map_of (rev files) fid \<noteq> None" by (simp add: map_of_eq_None_iff)
  then show ?thesis by (auto simp: rule_verdict_def Let_def split: path_rule_kind.splits)
qed

lemma check_files_total:
  assumes "fst ` set paths \<subseteq> fst ` set files"
  shows "\<exists>reports. check_files references files d i r x paths = Inr reports \<and>
    map (\<lambda>x. (rr_rule x, rr_file_id x)) reports =
    map (\<lambda>(fid, path). (uuid_text (ss_id d) @ '':r'' @ digits (i + 1), fid)) (files_under d r paths)"
  using assms
proof (induction paths)
  case Nil
  show ?case by (simp add: files_under_def)
next
  case (Cons f paths)
  obtain fid path where f: "f = (fid, path)" by (cases f)
  obtain reports where reports: "check_files references files d i r x paths = Inr reports"
    "map (\<lambda>x. (rr_rule x, rr_file_id x)) reports =
     map (\<lambda>(fid, path). (uuid_text (ss_id d) @ '':r'' @ digits (i + 1), fid)) (files_under d r paths)"
    using Cons by auto
  obtain out where "rule_verdict references files r fid path = Inr out"
    using rule_outcome_total [of fid files references r path] Cons.prems f by (metis image_insert insert_subset list.simps(15) fst_conv)
  with reports show ?case by (auto simp: f files_under_def report_of_def split: prod.splits)
qed

lemma check_document_total:
  assumes "fst ` set paths \<subseteq> fst ` set files" and "rules_grounded rs (ss_sections d)"
  shows "\<exists>reports. check_document references files paths d i rs = Inr reports \<and>
    map (\<lambda>x. (rr_rule x, rr_file_id x)) reports =
    concat (map (\<lambda>(i, r). map (\<lambda>(fid, path). (uuid_text (ss_id d) @ '':r'' @ digits (i + 1), fid)) (files_under d r paths))
      (enumerate i rs))"
  using assms(2)
proof (induction rs arbitrary: i)
  case (Cons r rs)
  then have "pr_section r \<in> set (map sc_id (ss_sections d))" and ground: "rules_grounded rs (ss_sections d)"
    by (simp_all add: rules_grounded_def)
  then obtain x where x: "find (\<lambda>x. sc_id x = pr_section r) (ss_sections d) = Some x"
    by (cases "find (\<lambda>x. sc_id x = pr_section r) (ss_sections d)") (auto simp: find_None_iff)
  obtain here where here: "check_files references files d i r x paths = Inr here"
    "map (\<lambda>x. (rr_rule x, rr_file_id x)) here =
     map (\<lambda>(fid, path). (uuid_text (ss_id d) @ '':r'' @ digits (i + 1), fid)) (files_under d r paths)"
    using check_files_total [OF assms(1)] by blast
  obtain later where "check_document references files paths d (i + 1) rs = Inr later"
    "map (\<lambda>x. (rr_rule x, rr_file_id x)) later =
     concat (map (\<lambda>(i, r). map (\<lambda>(fid, path). (uuid_text (ss_id d) @ '':r'' @ digits (i + 1), fid)) (files_under d r paths))
       (enumerate (i + 1) rs))"
    using Cons.IH [OF ground] by blast
  with x here show ?case by simp
qed simp

lemma check_rules_total:
  assumes "fst ` set paths \<subseteq> fst ` set files" and "\<forall>d \<in> set ds. rules_grounded (ss_rules d) (ss_sections d)"
  shows "\<exists>reports. check_rules references ds paths files = Inr reports \<and>
    map (\<lambda>x. (rr_rule x, rr_file_id x)) reports = applicable_checks ds paths"
  using assms(2)
proof (induction ds)
  case (Cons d ds)
  obtain here where "check_document references files paths d 0 (ss_rules d) = Inr here"
    "map (\<lambda>x. (rr_rule x, rr_file_id x)) here =
     concat (map (\<lambda>(i, r). map (\<lambda>(fid, path). (uuid_text (ss_id d) @ '':r'' @ digits (i + 1), fid)) (files_under d r paths))
       (enumerate 0 (ss_rules d)))"
    using check_document_total [OF assms(1)] Cons.prems by fastforce
  moreover obtain later where "check_rules references ds paths files = Inr later"
    "map (\<lambda>x. (rr_rule x, rr_file_id x)) later = applicable_checks ds paths"
    using Cons by auto
  ultimately show ?case by (simp add: applicable_checks_def)
qed (simp add: applicable_checks_def)

text \<open>C39. The rules of a snapshot are checked completely: for the documents a review reads in any
reachable state and the paths of files whose lines are supplied, the checks never raise, and they
report exactly once, in order, every rule for every one of these files that both the document and the
rule apply to.\<close>

theorem rule_checks_complete:
  assumes "standards_start p" and "(standards_step dump untitled)\<^sup>*\<^sup>* p (s, used)"
    and "standards_snapshot wid repo ids s = Inr (ds, s1)" and "fst ` set paths \<subseteq> fst ` set files"
  shows "\<exists>reports. check_rules references ds paths files = Inr reports \<and>
    map (\<lambda>x. (rr_rule x, rr_file_id x)) reports = applicable_checks ds paths"
proof (rule check_rules_total [OF assms(4)])
  have "standards_state_inv untitled (s, used)" by (rule documents.inv_reachable [OF assms(1,2)])
  then have "list_all (version_ok untitled (standard_documents s)) (standard_versions s)"
    by (simp add: standards_state_inv_def standards_inv_def)
  with assms(3) show "\<forall>d \<in> set ds. rules_grounded (ss_rules d) (ss_sections d)"
    by (auto simp: standards_snapshot_Inr Let_def list_all_iff version_ok_def snapshot_of_def)
qed

subsection \<open>Concurrent edits\<close>

lemma find_unique:
  assumes "x \<in> set xs" and "P x" and "\<And>y. y \<in> set xs \<Longrightarrow> P y \<Longrightarrow> y = x"
  shows "find P xs = Some x"
proof (cases "find P xs")
  case None
  with assms(1,2) show ?thesis by (auto simp: find_None_iff)
next
  case (Some y)
  with find_SomeD [OF this] assms(3) show ?thesis by metis
qed

text \<open>C40. Of two edits that start from the same version one is refused: after a saved edit of a
document, another edit with the same expected version, by anybody who may edit the documents of the
repository, is refused as a conflict and changes nothing.\<close>

theorem concurrent_edits_conflict:
  assumes first: "transaction standard_schema (save_document sha body_text untitled now f v uid wid repo body (Some did)) s = (Inr x, t)"
    and same: "di_expected_version body' = di_expected_version body"
    and may: "standards_access uid' wid repo True t = Inr ((), t)"
  shows "transaction standard_schema (save_document sha' body_text' untitled now' f' v' uid' wid repo body' (Some did)) t =
    (Inl (standard_error ''STANDARD_CONFLICT''), t)"
proof -
  from first have run: "save_document sha body_text untitled now f v uid wid repo body (Some did) s = Inr (x, t)"
    by (simp add: transaction_Inr_iff)
  obtain d m where ver: "versioned_document now f uid wid repo body (Some did) s = Inr (d, m)"
    and t: "t = standard_versions_update (\<lambda>vs. vs @ [new_version sha body_text untitled now v wid body d]) m"
    and ok: "standard_schema t"
    using run by (elim save_document_Inr)
  obtain old where old: "did = sd_id old" "old \<in> set (standard_documents s)" "sd_workspace_id old = wid"
    "sd_repository_id old = repo" "di_expected_version body = sd_current_version old"
    "d = old\<lparr>sd_current_version := sd_current_version old + 1\<rparr>" "m = standard_documents_update (put_row sd_id d) s"
    using ver by (elim versioned_document_Inr) auto
  have d: "d \<in> set (standard_documents t)" "sd_id d = did" "sd_workspace_id d = wid" "sd_repository_id d = repo"
    using old by (auto simp: t intro!: put_row_mem)
  have ids: "distinct (map sd_id (standard_documents t))"
    using ok by (simp add: standard_schema_def standard_documents_ok_def)
  have "find (\<lambda>e. sd_workspace_id e = wid \<and> sd_repository_id e = repo \<and> sd_id e = did) (standard_documents t) = Some d"
    using d distinct_key_unique [OF ids] by (intro find_unique) auto
  then have "find_document wid repo did t = Inr (d, t)"
    by (simp add: find_document_def stored_document_def select_first_def txn_eval)
  moreover have "di_expected_version body' \<noteq> sd_current_version d" using same old(5,6) by simp
  ultimately show ?thesis
    by (simp add: transaction_def save_document_def bind_def may versioned_document_def check_def raise_def)
qed

subsection \<open>Examples\<close>

text \<open>The shop with team documents: one is saved, with a rule on file names, then edited.\<close>

definition doc_shop :: "standard_document list \<Rightarrow> standard_version list \<Rightarrow> standard_tables" where
  "doc_shop ds vs = analysis_tables.extend (analysis_shop [] []) (standard_tables.fields ds vs)"

definition shop_body :: document_input where
  "shop_body = \<lparr>dc_include = [''**''], dc_exclude = [], dc_required = True,
     dc_rules = [\<lparr>pr_rule_kind = NAME_SUFFIX, pr_value = ''.py'', pr_section = ''s1'', pr_include = [''**''], pr_exclude = []\<rparr>],
     di_title = ''T'', di_kind = CONVENTION, di_content = ''# A'' @ [LF] @ ''rule'', di_expected_version = 0\<rparr>"

definition shop_dump :: "document_input \<Rightarrow> string" where
  "shop_dump b = di_content b"

lemma shop_sections: "index_document ''U'' (di_content shop_body) =
  [\<lparr>sc_id = ''s1'', sc_heading = ''A'', sc_text = ''rule'', sc_terms = [(''a'', 1), (''rule'', 1)]\<rparr>]"
  by code_simp

lemma shop_body_facts:
  "has_secret (shop_dump shop_body) = False" "strip_white (di_title shop_body) \<noteq> []" "strip_white (di_content shop_body) \<noteq> []"
  "list_ex (\<lambda>c. control c \<and> c \<notin> {LF, CR, CHR 0x09}) (di_content shop_body) = False"
  "list_all (\<lambda>r. \<not> list_ex control (pr_value r) \<and> CHR 0x5C \<notin> set (pr_value r)) (dc_rules shop_body)"
  "list_all rule_fields_ok (dc_rules shop_body)"
  "list_all pattern_ok (dc_include shop_body @ dc_exclude shop_body @
     concat (map (\<lambda>r. pr_include r @ pr_exclude r) (dc_rules shop_body)))"
  "utf8 (di_content shop_body) = di_content shop_body"
  by code_simp+

lemma shop_body_valid: "document_valid shop_dump ''U'' shop_body"
proof -
  have "document_fields_ok shop_body" using shop_body_facts(6) by (simp add: document_fields_ok_def) (simp add: shop_body_def)
  moreover have "length (di_content shop_body) \<le> 65536" by (simp add: shop_body_def)
  moreover have "list_all (\<lambda>r. pr_section r \<in> {''s1''}) (dc_rules shop_body)" by (simp add: shop_body_def)
  ultimately show ?thesis
    using shop_body_facts by (simp add: document_valid_def document_safe_def shop_sections)
qed

lemma doc_shop_fields [simp]:
  "standard_documents (doc_shop ds vs) = ds" "standard_versions (doc_shop ds vs) = vs"
  "standard_documents_update f (doc_shop ds vs) = doc_shop (f ds) vs"
  "standard_versions_update g (doc_shop ds vs) = doc_shop ds (g vs)"
  by (simp_all add: doc_shop_def analysis_tables.extend_def standard_tables.fields_def)

lemma doc_shop_schema: "standard_schema (doc_shop ds vs) \<longleftrightarrow> standard_documents_ok ds \<and> standard_versions_ok vs"
proof -
  have "analysis_schema (doc_shop ds vs) = analysis_schema (analysis_shop [] [])"
    by (simp add: analysis_schema_def pull_schema_def repository_schema_def workspace_schema_def jobs_schema_def
        doc_shop_def analysis_tables.extend_def standard_tables.fields_def)
  moreover have "analysis_schema (analysis_shop [] [])"
    by (simp add: analysis_schema_def analysis_shop_pulls jobs_ok_def analysis_runs_ok_def file_rows_ok_def finding_rows_ok_def)
  ultimately show ?thesis by (simp add: standard_schema_def)
qed

lemma doc_shop_access: "standards_access 1 10 70 w (doc_shop ds vs) = Inr ((), doc_shop ds vs)"
  by (simp add: standards_access_def pull_eval doc_shop_def analysis_tables.extend_def standard_tables.fields_def
      analysis_shop_def pull_tables.extend_def sync_shop_defs)

definition shop_document :: "int \<Rightarrow> standard_document" where
  "shop_document n = (new_document 5 120 1 10 70)\<lparr>sd_current_version := n\<rparr>"

definition shop_version :: "datetime \<Rightarrow> uuid \<Rightarrow> int \<Rightarrow> standard_version" where
  "shop_version now vid n = new_version (\<lambda>_. ''d'') shop_dump ''U'' now vid 10 shop_body (shop_document n)"

abbreviation shop_saved :: standard_tables where
  "shop_saved \<equiv> doc_shop [shop_document 1] [shop_version 5 130 1]"

abbreviation shop_edited :: standard_tables where
  "shop_edited \<equiv> doc_shop [shop_document 2] [shop_version 5 130 1, shop_version 6 131 2]"

definition shop_edit :: document_input where
  "shop_edit = shop_body\<lparr>di_expected_version := 1\<rparr>"

lemma shop_document_facts [simp]:
  "sd_id (shop_document n) = 120" "sd_workspace_id (shop_document n) = 10" "sd_repository_id (shop_document n) = 70"
  "sd_current_version (shop_document n) = n" "sd_active (shop_document n)"
  by (simp_all add: shop_document_def new_document_def)

lemma shop_version_facts [simp]:
  "vn_id (shop_version now vid n) = vid" "vn_document_id (shop_version now vid n) = 120"
  "vn_version (shop_version now vid n) = n" "vn_workspace_id (shop_version now vid n) = 10"
  by (simp_all add: shop_version_def new_version_def)

lemma shop_save:
  "transaction standard_schema (save_document (\<lambda>_. ''d'') shop_dump ''U'' 5 120 130 1 10 70 shop_body None) (doc_shop [] []) =
   (Inr (view_document (shop_document 1) (shop_version 5 130 1) True), shop_saved)"
proof -
  have "new_document 5 120 1 10 70 = shop_document 1" by (simp add: shop_document_def new_document_def)
  then show ?thesis
    by (simp add: transaction_def save_document_def bind_def doc_shop_access versioned_document_def document_count_def txn_eval
        add_row_def doc_shop_schema standard_documents_ok_def standard_versions_ok_def Let_def del: One_nat_def flip: shop_version_def)
      (simp add: shop_body_def)
qed

lemma shop_edits:
  "transaction standard_schema (save_document (\<lambda>_. ''d'') shop_dump ''U'' 6 0 131 1 10 70 shop_edit (Some 120)) shop_saved =
   (Inr (view_document (shop_document 2) (shop_version 6 131 2) True), shop_edited)"
proof -
  have next_doc: "(shop_document 1)\<lparr>sd_current_version := 2\<rparr> = shop_document 2" by (simp add: shop_document_def)
  have v: "new_version (\<lambda>_. ''d'') shop_dump ''U'' 6 131 10 shop_edit (shop_document 2) = shop_version 6 131 2"
    by (simp add: shop_version_def new_version_def shop_edit_def shop_dump_def document_config.truncate_def)
  have "find_document 10 70 120 shop_saved = Inr (shop_document 1, shop_saved)"
    by (simp add: find_document_def stored_document_def select_first_def txn_eval)
  moreover have "di_expected_version shop_edit = 1" by (simp add: shop_edit_def)
  ultimately show ?thesis
    by (simp add: transaction_def save_document_def bind_def doc_shop_access versioned_document_def txn_eval next_doc v
        add_row_def save_row_def put_row_def doc_shop_schema standard_documents_ok_def standard_versions_ok_def Let_def del: One_nat_def)
qed

lemma shop_edit_valid: "document_valid shop_dump ''U'' shop_edit"
  using shop_body_valid by (simp add: document_valid_def document_fields_ok_def document_safe_def shop_edit_def shop_dump_def)

lemma shop_start: "standards_start (doc_shop [] [], {})"
  by (simp add: standards_start_def doc_shop_schema standard_documents_ok_def standard_versions_ok_def)

lemma shop_saves: "(standards_step shop_dump ''U'')\<^sup>*\<^sup>* (doc_shop [] [], {}) (shop_saved, {130})"
  using standards_step.save [OF shop_body_valid _ shop_save, of "{}"] by blast

lemma shop_goes_on: "(standards_step shop_dump ''U'')\<^sup>*\<^sup>* (shop_saved, {130}) (shop_edited, {131, 130})"
  using standards_step.save [OF shop_edit_valid _ shop_edits, of "{130}"] by auto

theorem document_history_contiguous_witness:
  "version_numbers (standard_versions shop_edited) 120 = [1..2]"
  using document_history_contiguous [OF shop_start rtranclp_trans [OF shop_saves shop_goes_on]] by simp

lemma shop_snapshot: "standards_snapshot 10 70 None shop_saved = Inr ([snapshot_of (shop_version 5 130 1)], shop_saved)"
  by (simp add: standards_snapshot_Inr snapshot_row_def)

theorem pinned_versions_stable_witness:
  "standards_snapshot 10 70 (Some [130]) shop_edited = Inr ([snapshot_of (shop_version 5 130 1)], shop_edited)"
proof -
  have "standards_snapshot 10 70 (Some [130]) shop_edited \<noteq> Inl standards_unavailable"
    by (simp add: standards_snapshot_def snapshot_rows_def snapshot_row_def txn_eval)
  moreover have "map ss_id [snapshot_of (shop_version 5 130 1)] = [130]" by (simp add: snapshot_of_def)
  ultimately show ?thesis
    using pinned_versions_stable [OF shop_start shop_saves shop_snapshot shop_goes_on] by simp
qed

lemma shop_checks: "applicable_checks [snapshot_of (shop_version 5 130 1)] [(''f1'', ''a.ts'')] =
  [(uuid_text 130 @ '':r1'', ''f1'')]"
proof -
  have "in_scope [''**''] [] ''a.ts''" by code_simp
  moreover have "digits 1 = ''1''" by code_simp
  ultimately show ?thesis
    by (simp add: applicable_checks_def files_under_def snapshot_of_def shop_version_def new_version_def shop_body_def
        document_config.truncate_def)
qed

theorem rule_checks_complete_witness:
  "\<exists>reports. check_rules (\<lambda>_ _. []) [snapshot_of (shop_version 5 130 1)] [(''f1'', ''a.ts'')] [(''f1'', [])] = Inr reports \<and>
    map (\<lambda>x. (rr_rule x, rr_file_id x)) reports = [(uuid_text 130 @ '':r1'', ''f1'')]"
  using rule_checks_complete [OF shop_start shop_saves shop_snapshot, of "[(''f1'', ''a.ts'')]" "[(''f1'', [])]" "\<lambda>_ _. []"]
  by (simp add: shop_checks)

theorem concurrent_edits_conflict_witness:
  "transaction standard_schema (save_document (\<lambda>_. ''d'') shop_dump ''U'' 7 0 132 1 10 70 shop_edit (Some 120)) shop_edited =
   (Inl (standard_error ''STANDARD_CONFLICT''), shop_edited)"
  by (rule concurrent_edits_conflict [OF shop_edits refl doc_shop_access])

end
