(* ===== verification/Review_Policy.thy ===== *)
theory Review_Policy
  imports Standard_Index Patches Users
begin

section \<open>Review policy: what is sent and what is accepted\<close>

text \<open>
  \<^verbatim>\<open>app/domain/review/policy.py\<close> with the output contract (\<^verbatim>\<open>output_schema.py\<close>): which changed files
  enter the context of a review and within which bounds, and the validation that every accepted
  claim of the model's answer is tied to supplied lines. A payload is the JSON value that its text
  was written from, as a record that keeps the order of its keys. Parameters: the parser of an answer
  (pydantic behind \<^verbatim>\<open>strip_api_metadata\<close>), the parser of Python expressions, SHA-256, and the Korean
  texts of a summary and of a withheld suggestion.
\<close>

definition review_policy :: string where "review_policy = ''BOUNDED_CODE_V5''"
definition max_patch :: nat where "max_patch = 16384"
definition max_input :: nat where "max_input = 49152"

subsection \<open>The identity of an issue\<close>

text \<open>\<open>s.split()\<close>\<close>

definition words :: "string \<Rightarrow> string list" where
  "words s = runs (\<lambda>c. c \<notin> white) s"

definition spaced_words :: "string \<Rightarrow> string" where
  "spaced_words s = join_with CHR '' '' (words s)"

definition issue_key :: "(string \<Rightarrow> string) \<Rightarrow> string \<Rightarrow> string \<Rightarrow> string" where
  "issue_key sha path title = sha (utf8 (path @ [CHR 0x00] @ spaced_words (lower title)))"

subsection \<open>Excluded files\<close>

definition source_suffixes :: "string list" where
  "source_suffixes = [''.java'', ''.py'', ''.js'', ''.jsx'', ''.ts'', ''.tsx'']"

definition closed_directories :: "string list" where
  "closed_directories = [''secrets'', ''credentials'', ''node_modules'', ''vendor'']"

definition path_invalid :: "string \<Rightarrow> bool" where
  "path_invalid p \<longleftrightarrow>
     4096 < length (utf8 p) \<or> list_ex (\<lambda>x. x \<in> {'''', ''.'', ''..''}) (split_on CHR ''/'' p) \<or>
     CHR 0x5C \<in> set p \<or> list_ex control p"

definition path_reason :: "string \<Rightarrow> string list \<Rightarrow> string option" where
  "path_reason p ignored =
     (if path_invalid p then Some ''INVALID_PATH''
      else if has_secret p then Some ''SENSITIVE_PATH''
      else if \<not> list_ex (\<lambda>x. ends_with x p) source_suffixes then Some ''UNSUPPORTED_LANGUAGE''
      else if list_ex (\<lambda>pattern. glob pattern p) ignored \<or>
              list_ex (\<lambda>part. lower part \<in> set closed_directories) (split_on CHR ''/'' p)
      then Some ''EXCLUDED_PATH''
      else None)"

definition exclusion :: "json \<Rightarrow> json \<Rightarrow> string list \<Rightarrow> nat \<Rightarrow> string option" where
  "exclusion path patch ignored per_file =
     (case as_str path of
        None \<Rightarrow> Some ''INVALID_PATH''
      | Some p \<Rightarrow>
          (case path_reason p ignored of
             Some r \<Rightarrow> Some r
           | None \<Rightarrow>
               (case as_str patch of
                  None \<Rightarrow> Some ''PATCH_UNAVAILABLE''
                | Some t \<Rightarrow>
                    if has_secret t then Some ''SECRET_SUSPECTED''
                    else if per_file < length (utf8 t) then Some ''PATCH_TOO_LARGE''
                    else None)))"

subsection \<open>The lines on the side of the head commit\<close>

record head_line =
  hl_line :: int
  hl_code :: string
  hl_changed :: bool

fun head_lines_from :: "string list \<Rightarrow> int \<Rightarrow> head_line list" where
  "head_lines_from [] n = []"
| "head_lines_from (l # ls) n =
     (case hunk_header l of
        Some (_, start, _) \<Rightarrow> head_lines_from ls (int start)
      | None \<Rightarrow>
          if n \<noteq> 0 \<and> (starts_with ''+'' l \<or> starts_with '' '' l)
          then \<lparr>hl_line = n, hl_code = drop 1 l, hl_changed = starts_with ''+'' l\<rparr> # head_lines_from ls (n + 1)
          else head_lines_from ls n)"

definition head_lines :: "string \<Rightarrow> head_line list" where
  "head_lines patch = head_lines_from (splitlines patch) 0"

subsection \<open>The payload\<close>

record review_file =
  wf_id :: string
  wf_language :: string
  wf_role :: "string option"
  wf_lines :: "head_line list"

definition head_line_json :: "head_line \<Rightarrow> json" where
  "head_line_json l =
     JObj [(''line'', JInt (hl_line l)), (''code'', JStr (hl_code l)), (''changed'', JBool (hl_changed l))]"

definition optional :: "string \<Rightarrow> ('a \<Rightarrow> json) \<Rightarrow> 'a option \<Rightarrow> (string \<times> json) list" where
  "optional k f x = (case x of None \<Rightarrow> [] | Some v \<Rightarrow> [(k, f v)])"

definition review_file_json :: "review_file \<Rightarrow> json" where
  "review_file_json f =
     JObj ([(''file_id'', JStr (wf_id f)), (''language'', JStr (wf_language f))] @
       optional ''role'' JStr (wf_role f) @ [(''lines'', JArr (map head_line_json (wf_lines f)))])"

text \<open>
  The keys in the order the code sets them: those of \<open>prepare\<close>, those added before the purpose
  (\<open>cx_extra\<close>), the purpose and the team documents, and those added last (\<open>cx_more\<close>).
\<close>

record review_context =
  cx_files :: "review_file list"
  cx_findings :: json
  cx_mode :: "string option"
  cx_contract :: "string option"
  cx_extra :: "(string \<times> json) list"
  cx_purpose :: "string option"
  cx_paths :: "(string \<times> string) list option"
  cx_standards :: "passage list option"
  cx_more :: "(string \<times> json) list"

definition context_json :: "review_context \<Rightarrow> json" where
  "context_json c =
     JObj ([(''files'', JArr (map review_file_json (cx_files c))), (''static_findings'', cx_findings c)] @
       optional ''review_mode'' JStr (cx_mode c) @ optional ''behavior_contract'' JStr (cx_contract c) @ cx_extra c @
       optional ''purpose'' JStr (cx_purpose c) @
       optional ''file_paths'' (\<lambda>ps. JObj (map (\<lambda>(fid, p). (fid, JStr p)) ps)) (cx_paths c) @
       optional ''untrusted_standards'' (\<lambda>ps. JArr (map passage_json ps)) (cx_standards c) @ cx_more c)"

definition payload_text :: "review_context \<Rightarrow> string" where
  "payload_text c = dumps (context_json c)"

record input_bundle =
  ib_context :: review_context
  ib_anchors :: "(string \<times> string \<times> int list) list"
  ib_omitted :: nat
  ib_coverage :: "(string \<times> json) list"

subsection \<open>Preparing the payload\<close>

definition fresh_context :: "review_file list \<Rightarrow> json \<Rightarrow> string option \<Rightarrow> review_context" where
  "fresh_context files findings mode =
     \<lparr>cx_files = files, cx_findings = findings, cx_mode = mode, cx_contract = None, cx_extra = [],
      cx_purpose = None, cx_paths = None, cx_standards = None, cx_more = []\<rparr>"

record preparation =
  pp_files :: "review_file list"
  pp_anchors :: "(string \<times> string \<times> int list) list"
  pp_excluded :: "(json \<times> string) list"

definition hidden_path :: "string option \<Rightarrow> json \<Rightarrow> json" where
  "hidden_path reason path =
     (if reason \<in> {Some ''INVALID_PATH'', Some ''SENSITIVE_PATH''} then JNull else path)"

definition exclude_file :: "json \<Rightarrow> string \<Rightarrow> preparation \<Rightarrow> preparation" where
  "exclude_file path reason st = st\<lparr>pp_excluded := pp_excluded st @ [(path, reason)]\<rparr>"

definition file_item :: "nat \<Rightarrow> string \<Rightarrow> head_line list \<Rightarrow> review_file" where
  "file_item n path ls =
     \<lparr>wf_id = ''f'' @ digits (n + 1), wf_language = last (split_on CHR ''.'' path), wf_role = None, wf_lines = ls\<rparr>"

definition admit_file ::
  "nat \<Rightarrow> nat \<Rightarrow> json \<Rightarrow> string option \<Rightarrow> string \<Rightarrow> string \<Rightarrow> preparation \<Rightarrow> preparation" where
  "admit_file per_file max_bytes findings mode path patch st =
     (let ls = head_lines patch; item = file_item (length (pp_files st)) path ls in
      if ls = [] then exclude_file (JStr path) ''NO_HEAD_LINES'' st
      else if per_file < wire_size (review_file_json item) then exclude_file (JStr path) ''PATCH_TOO_LARGE'' st
      else if max_bytes < length (utf8 (payload_text (fresh_context (pp_files st @ [item]) findings mode)))
      then exclude_file (JStr path) ''INPUT_LIMIT'' st
      else st\<lparr>pp_files := pp_files st @ [item],
              pp_anchors := pp_anchors st @ [(wf_id item, path, remdups (map hl_line ls))]\<rparr>)"

definition prepare_change ::
  "nat \<Rightarrow> nat \<Rightarrow> string list \<Rightarrow> json \<Rightarrow> string option \<Rightarrow> json \<Rightarrow> preparation \<Rightarrow> preparation" where
  "prepare_change per_file max_bytes ignored findings mode change st =
     (let path = json_get ''filename'' change; patch = json_get ''patch'' change;
          reason = exclusion path patch ignored per_file
      in if reason \<noteq> None \<or> 8 \<le> length (pp_files st)
         then exclude_file (hidden_path reason path) (case reason of Some r \<Rightarrow> r | None \<Rightarrow> ''FILE_LIMIT'') st
         else
           (case (as_str path, as_str patch) of
              (Some p, Some t) \<Rightarrow> admit_file per_file max_bytes findings mode p t st
            | _ \<Rightarrow> st))"

definition coverage_file :: "string \<times> string \<times> int list \<Rightarrow> json" where
  "coverage_file a =
     (case a of (fid, path, ls) \<Rightarrow>
        JObj [(''file_id'', JStr fid), (''file_path'', JStr path), (''provided_lines'', JInt (int (length ls)))])"

definition excluded_json :: "json \<times> string \<Rightarrow> json" where
  "excluded_json x = JObj [(''file_path'', fst x), (''reason'', JStr (snd x))]"

definition bundle_of :: "preparation \<Rightarrow> json \<Rightarrow> string option \<Rightarrow> int option \<Rightarrow> nat \<Rightarrow> input_bundle" where
  "bundle_of st findings mode total_files considered =
     \<lparr>ib_context = fresh_context (pp_files st) findings mode, ib_anchors = pp_anchors st,
      ib_omitted = length (pp_excluded st),
      ib_coverage =
        [(''files'', JArr (map coverage_file (pp_anchors st))),
         (''excluded'', JArr (map excluded_json (pp_excluded st))),
         (''unfetched_files'', (case total_files of None \<Rightarrow> JNull | Some n \<Rightarrow> JInt (max 0 (n - int considered))))]\<rparr>"

definition mode_text :: "string option \<Rightarrow> exn + string option" where
  "mode_text mode =
     (if truthy mode
      then (case parse_review_mode (the mode) of
              Inl e \<Rightarrow> Inl e
            | Inr JUNIOR \<Rightarrow> Inr (Some ''JUNIOR'')
            | Inr SENIOR \<Rightarrow> Inr (Some ''SENIOR''))
      else Inr None)"

definition prepare_changes ::
  "nat \<Rightarrow> nat \<Rightarrow> json list \<Rightarrow> json \<Rightarrow> string list \<Rightarrow> int option \<Rightarrow> string option \<Rightarrow> exn + input_bundle" where
  "prepare_changes per_file max_bytes changes0 findings ignored total_files mode0 =
     (case mode_text mode0 of
        Inl e \<Rightarrow> Inl e
      | Inr mode \<Rightarrow>
          (let changes = take 100 changes0;
               st = fold (prepare_change per_file max_bytes ignored findings mode) changes
                      \<lparr>pp_files = [], pp_anchors = [], pp_excluded = []\<rparr>;
               text = payload_text (fresh_context (pp_files st) findings mode)
           in if pp_files st = [] then Inl (ValueError ''NO_SAFE_CONTEXT'')
              else if has_secret text \<or> max_bytes < length (utf8 text) then Inl (ValueError ''UNSAFE_CONTEXT'')
              else Inr (bundle_of st findings mode total_files (length changes))))"

end
