(* ===== verification/Review_Output.thy ===== *)
theory Review_Output
  imports Review_Policy
begin

section \<open>The output contract\<close>

text \<open>
  \<^verbatim>\<open>app/domain/review/output_schema.py\<close>: what a parsed answer of the model consists of, with the bounds
  its schema declares.
\<close>

subsection \<open>The answer of the model\<close>

datatype issue_severity = SEV_INFO | SEV_WARNING | SEV_ERROR

datatype issue_basis = SUPPORTED | NEEDS_CONTEXT

record expression_repair =
  xr_line :: int
  xr_before :: string
  xr_after :: string

record issue =
  is_citations :: "string list"
  is_file_id :: string
  is_line :: int
  is_severity :: issue_severity
  is_basis :: issue_basis
  is_evidence_lines :: "int list"
  is_trigger :: string
  is_consequence :: string
  is_assumptions :: "string list"
  is_title :: string
  is_evidence :: string
  is_suggestion :: string
  is_contract_quote :: string
  is_repair :: "expression_repair option"

record context_request =
  cq_file_id :: string
  cq_symbol :: string
  cq_need :: string

record review_output =
  ro_summary :: string
  ro_issues :: "issue list"
  ro_limitations :: string
  ro_requests :: "context_request list"

definition length_in :: "nat \<Rightarrow> nat \<Rightarrow> 'a list \<Rightarrow> bool" where
  "length_in a b xs \<longleftrightarrow> a \<le> length xs \<and> length xs \<le> b"

definition repair_fields_ok :: "expression_repair \<Rightarrow> bool" where
  "repair_fields_ok r \<longleftrightarrow> 1 \<le> xr_line r \<and> length_in 1 160 (xr_before r) \<and> length_in 1 160 (xr_after r)"

definition issue_fields_ok :: "issue \<Rightarrow> bool" where
  "issue_fields_ok i \<longleftrightarrow>
     length_in 0 4 (is_citations i) \<and> length_in 0 8 (is_file_id i) \<and> 1 \<le> is_line i \<and>
     length_in 1 8 (is_evidence_lines i) \<and> length_in 1 400 (is_trigger i) \<and> length_in 1 400 (is_consequence i) \<and>
     length_in 0 3 (is_assumptions i) \<and> length_in 1 160 (is_title i) \<and> length_in 1 800 (is_evidence i) \<and>
     length_in 1 800 (is_suggestion i) \<and> length_in 0 240 (is_contract_quote i) \<and>
     (case is_repair i of None \<Rightarrow> True | Some r \<Rightarrow> repair_fields_ok r)"

definition symbol_pattern :: "string \<Rightarrow> bool" where
  "symbol_pattern t \<longleftrightarrow>
     length_in 1 80 t \<and> \<not> is_digit (hd t) \<and> list_all (\<lambda>c. is_alnum_ascii c \<or> c = CHR ''_'') t"

definition request_fields_ok :: "context_request \<Rightarrow> bool" where
  "request_fields_ok q \<longleftrightarrow> length_in 0 8 (cq_file_id q) \<and> symbol_pattern (cq_symbol q) \<and> length_in 1 160 (cq_need q)"

definition output_fields_ok :: "review_output \<Rightarrow> bool" where
  "output_fields_ok x \<longleftrightarrow>
     length_in 1 1600 (ro_summary x) \<and> length_in 0 10 (ro_issues x) \<and> list_all issue_fields_ok (ro_issues x) \<and>
     length_in 1 1600 (ro_limitations x) \<and> length_in 0 2 (ro_requests x) \<and> list_all request_fields_ok (ro_requests x)"

end
