(* ===== verification/Expressions.thy ===== *)
theory Expressions
  imports Review_Output
begin

section \<open>The bounded interpreter of suggested expressions\<close>

text \<open>
  \<^verbatim>\<open>app/domain/review/semantics.py\<close>: a small interpreter for Python expressions that compares a returned
  expression with its suggested replacement on a fixed set of samples, and the illustrative observations
  of changed lines. The analysed code is never executed. \<open>ast.parse(e, mode="eval").body\<close> is a parameter:
  the expression, or \<open>None\<close> when it raises (a \<open>SyntaxError\<close>, \<open>ValueError\<close> or \<open>RecursionError\<close>).
\<close>

subsection \<open>Expressions\<close>

text \<open>
  A constant keeps what the interpreter distinguishes. \<open>Py_Other n es\<close> is any other expression: the nodes
  of its own that \<open>ast.walk\<close> visits, and its subexpressions. \<open>Py_Bool\<close> is \<open>or\<close> when its flag is set;
  the keywords of a call are their values.
\<close>

datatype py_constant = Const_Int int | Const_Bool bool | Const_Str string | Const_None | Const_Other

datatype py_operator = Op_Add | Op_Sub | Op_Mult

datatype py_expr =
    Py_Const py_constant
  | Py_Name string
  | Py_Negative py_expr
  | Py_Bool bool py_expr "py_expr list"
  | Py_Binary py_operator py_expr py_expr
  | Py_Call py_expr "py_expr list" "py_expr list"
  | Py_Other nat "py_expr list"

text \<open>\<open>len(list(ast.walk(node)))\<close>: a name has its context, an operation its operator, a keyword its node.\<close>

fun node_count :: "py_expr \<Rightarrow> nat" where
  "node_count (Py_Const _) = 1"
| "node_count (Py_Name _) = 2"
| "node_count (Py_Negative e) = 2 + node_count e"
| "node_count (Py_Bool _ e es) = 2 + node_count e + sum_list (map node_count es)"
| "node_count (Py_Binary _ a b) = 2 + node_count a + node_count b"
| "node_count (Py_Call f es ks) = 1 + node_count f + sum_list (map node_count es) + sum_list (map (\<lambda>k. 1 + node_count k) ks)"
| "node_count (Py_Other n es) = n + sum_list (map node_count es)"

fun expr_names :: "py_expr \<Rightarrow> string list" where
  "expr_names (Py_Const _) = []"
| "expr_names (Py_Name x) = [x]"
| "expr_names (Py_Negative e) = expr_names e"
| "expr_names (Py_Bool _ e es) = expr_names e @ concat (map expr_names es)"
| "expr_names (Py_Binary _ a b) = expr_names a @ expr_names b"
| "expr_names (Py_Call f es ks) = expr_names f @ concat (map expr_names es) @ concat (map expr_names ks)"
| "expr_names (Py_Other _ es) = concat (map expr_names es)"

definition parse_expression :: "(string \<Rightarrow> py_expr option) \<Rightarrow> string \<Rightarrow> py_expr option" where
  "parse_expression parser t =
     (if 160 < length t then None
      else (case parser t of None \<Rightarrow> None | Some e \<Rightarrow> if 40 < node_count e then None else Some e))"

subsection \<open>Values\<close>

text \<open>Lists come from \<open>range\<close> only, so they hold integers.\<close>

datatype py_value = Val_Int int | Val_Bool bool | Val_Str string | Val_None | Val_List "int list"

type_synonym bindings = "(string \<times> py_value) list"

fun truth :: "py_value \<Rightarrow> bool" where
  "truth (Val_Int n) = (n \<noteq> 0)"
| "truth (Val_Bool b) = b"
| "truth (Val_Str t) = (t \<noteq> [])"
| "truth Val_None = False"
| "truth (Val_List xs) = (xs \<noteq> [])"

definition unsupported :: "exn + 'a" where
  "unsupported = Inl (ValueError ''UNSUPPORTED'')"

definition max_number :: int where "max_number = 10000000000"

fun constant_value :: "py_constant \<Rightarrow> exn + py_value" where
  "constant_value (Const_Int n) = (if max_number < \<bar>n\<bar> then unsupported else Inr (Val_Int n))"
| "constant_value (Const_Bool b) = Inr (Val_Bool b)"
| "constant_value (Const_Str t) = (if 64 < length t then unsupported else Inr (Val_Str t))"
| "constant_value Const_None = Inr Val_None"
| "constant_value Const_Other = unsupported"

fun apply_operator :: "py_operator \<Rightarrow> int \<Rightarrow> int \<Rightarrow> int" where
  "apply_operator Op_Add a b = a + b"
| "apply_operator Op_Sub a b = a - b"
| "apply_operator Op_Mult a b = a * b"

text \<open>\<open>len(range(a, b, k))\<close> and its elements, for a step that is not zero.\<close>

definition range_length :: "int \<Rightarrow> int \<Rightarrow> int \<Rightarrow> int" where
  "range_length a b k =
     (if 0 < k then (if a < b then (b - a - 1) div k + 1 else 0)
      else (if b < a then (a - b - 1) div (- k) + 1 else 0))"

definition range_value :: "int \<Rightarrow> int \<Rightarrow> int \<Rightarrow> exn + py_value" where
  "range_value a b k =
     (if k = 0 then Inl (ValueError ''range() arg 3 must not be zero'')
      else if 32 < range_length a b k then unsupported
      else Inr (Val_List (map (\<lambda>i. a + int i * k) [0..<nat (range_length a b k)])))"

fun ints_of :: "py_value list \<Rightarrow> int list option" where
  "ints_of [] = Some []"
| "ints_of (Val_Int n # vs) = map_option (Cons n) (ints_of vs)"
| "ints_of _ = None"

definition builtin_names :: "string list" where
  "builtin_names = [''range'', ''list'', ''len'', ''min'', ''max'']"

text \<open>The calls that are understood, on evaluated arguments.\<close>

definition call_value :: "string \<Rightarrow> py_value list \<Rightarrow> exn + py_value" where
  "call_value f vs =
     (if f = ''range'' \<and> 1 \<le> length vs \<and> length vs \<le> 3 \<and> ints_of vs \<noteq> None then
        (case the (ints_of vs) of
           [b] \<Rightarrow> range_value 0 b 1
         | [a, b] \<Rightarrow> range_value a b 1
         | [a, b, k] \<Rightarrow> range_value a b k
         | _ \<Rightarrow> unsupported)
      else
        (case (f, vs) of
           (_, [Val_List xs]) \<Rightarrow>
             if f = ''list'' then Inr (Val_List xs) else if f = ''len'' then Inr (Val_Int (int (length xs))) else unsupported
         | (_, [Val_Str t]) \<Rightarrow> if f = ''len'' then Inr (Val_Int (int (length t))) else unsupported
         | _ \<Rightarrow>
             if f \<in> {''min'', ''max''} \<and> 1 < length vs \<and> length vs \<le> 3 \<and> ints_of vs \<noteq> None
             then Inr (Val_Int (if f = ''min'' then Min (set (the (ints_of vs))) else Max (set (the (ints_of vs)))))
             else unsupported))"

subsection \<open>The interpreter\<close>

text \<open>\<open>interpret\<close> with the inner \<open>read\<close>: the arguments of a call and the parts of \<open>and\<close> and \<open>or\<close> are read one deeper.\<close>

fun interpret_expr :: "bindings \<Rightarrow> nat \<Rightarrow> py_expr \<Rightarrow> exn + py_value"
  and interpret_all :: "bindings \<Rightarrow> nat \<Rightarrow> py_expr list \<Rightarrow> exn + py_value list"
  and interpret_parts :: "bindings \<Rightarrow> nat \<Rightarrow> bool \<Rightarrow> py_value \<Rightarrow> py_expr list \<Rightarrow> exn + py_value" where
  "interpret_expr b d (Py_Const c) = (if 12 < d then unsupported else constant_value c)"
| "interpret_expr b d (Py_Name x) =
     (if 12 < d then unsupported else (case map_of b x of None \<Rightarrow> unsupported | Some v \<Rightarrow> Inr v))"
| "interpret_expr b d (Py_Negative e) =
     (if 12 < d then unsupported
      else proceed (interpret_expr b (d + 1) e) (\<lambda>v. case v of Val_Int n \<Rightarrow> Inr (Val_Int (- n)) | _ \<Rightarrow> unsupported))"
| "interpret_expr b d (Py_Bool is_or e es) =
     (if 12 < d then unsupported
      else proceed (interpret_expr b (d + 1) e) (\<lambda>v. interpret_parts b (d + 1) is_or v es))"
| "interpret_expr b d (Py_Binary op x y) =
     (if 12 < d then unsupported
      else
        proceed (interpret_expr b (d + 1) x) (\<lambda>l.
        proceed (interpret_expr b (d + 1) y) (\<lambda>r.
        case (l, r) of
          (Val_Int m, Val_Int n) \<Rightarrow>
            (let v = apply_operator op m n in if max_number < \<bar>v\<bar> then unsupported else Inr (Val_Int v))
        | _ \<Rightarrow> unsupported)))"
| "interpret_expr b d (Py_Call f es ks) =
     (if 12 < d then unsupported
      else (case f of
              Py_Name name \<Rightarrow>
                if ks \<noteq> [] \<or> name \<notin> set builtin_names \<or> 3 < length es then unsupported
                else proceed (interpret_all b (d + 1) es) (call_value name)
            | _ \<Rightarrow> unsupported))"
| "interpret_expr b d (Py_Other _ _) = unsupported"
| "interpret_all b d [] = Inr []"
| "interpret_all b d (e # es) =
     proceed (interpret_expr b d e) (\<lambda>v. proceed (interpret_all b d es) (\<lambda>vs. Inr (v # vs)))"
| "interpret_parts b d is_or v [] = Inr v"
| "interpret_parts b d is_or v (e # es) =
     (if truth v = is_or then Inr v else proceed (interpret_expr b d e) (\<lambda>v'. interpret_parts b d is_or v' es))"

subsection \<open>Observations\<close>

fun value_json :: "py_value \<Rightarrow> json" where
  "value_json (Val_Int n) = JInt n"
| "value_json (Val_Bool b) = JBool b"
| "value_json (Val_Str t) = JStr t"
| "value_json Val_None = JNull"
| "value_json (Val_List xs) = JArr (map JInt xs)"

text \<open>The three shapes of an observation.\<close>

datatype sighting = Seen py_value | Raised string | Unknown

definition observe :: "bindings \<Rightarrow> py_expr \<Rightarrow> sighting" where
  "observe b e =
     (case interpret_expr b 0 e of
        Inr v \<Rightarrow> Seen v
      | Inl TypeError \<Rightarrow> Raised ''TypeError''
      | Inl (ValueError m) \<Rightarrow> if m = ''UNSUPPORTED'' then Unknown else Raised ''ValueError''
      | Inl _ \<Rightarrow> Unknown)"

fun outcome_json :: "sighting \<Rightarrow> json" where
  "outcome_json (Seen v) = JObj [(''value'', value_json v)]"
| "outcome_json (Raised t) = JObj [(''exception'', JStr t)]"
| "outcome_json Unknown = JObj [(''unknown'', JBool True)]"

definition bindings_json :: "bindings \<Rightarrow> json" where
  "bindings_json b = JObj (map (\<lambda>(x, v). (x, value_json v)) b)"

definition sample_values :: "py_value list" where
  "sample_values = [Val_Int (- 1), Val_Int 0, Val_Int 1, Val_Int 3, Val_None, Val_Str [], Val_Bool False]"

fun tuples :: "nat \<Rightarrow> py_value list list" where
  "tuples 0 = [[]]"
| "tuples (Suc n) = concat (map (\<lambda>v. map (Cons v) (tuples n)) sample_values)"

definition sample_names :: "py_expr \<Rightarrow> string list" where
  "sample_names e = sort (filter (\<lambda>x. x \<notin> set builtin_names) (remdups (expr_names e)))"

definition samples :: "py_expr \<Rightarrow> bindings list" where
  "samples e =
     (let names = sample_names e
      in if 2 < length names then [] else take 49 (map (zip names) (tuples (length names))))"

subsection \<open>The check of a repair\<close>

record repair_report =
  ck_status :: string
  ck_samples :: nat
  ck_counterexamples :: "json list option"
  ck_inferred :: bool

definition no_report :: "string \<Rightarrow> repair_report" where
  "no_report status = \<lparr>ck_status = status, ck_samples = 0, ck_counterexamples = None, ck_inferred = False\<rparr>"

text \<open>The samples on which both are understood and the original returns a value.\<close>

definition comparable :: "py_expr \<Rightarrow> py_expr \<Rightarrow> bindings \<Rightarrow> bool" where
  "comparable before after b \<longleftrightarrow>
     (\<exists>v. observe b before = Seen v) \<and> observe b after \<noteq> Unknown"

definition deviates :: "py_expr \<Rightarrow> py_expr \<Rightarrow> bindings \<Rightarrow> bool" where
  "deviates before after b \<longleftrightarrow> observe b after \<noteq> observe b before"

lemma comparable_code [code]:
  "comparable before after b \<longleftrightarrow>
     (case observe b before of Seen v \<Rightarrow> observe b after \<noteq> Unknown | _ \<Rightarrow> False)"
  by (cases "observe b before") (simp_all add: comparable_def)

definition compare_expressions :: "py_expr \<Rightarrow> py_expr \<Rightarrow> repair_report" where
  "compare_expressions before after =
     (let probes = filter (comparable before after) (samples before); changed = filter (deviates before after) probes
      in \<lparr>ck_status = (if changed \<noteq> [] then ''CHANGES_SUCCESSFUL_SAMPLES''
                       else if probes \<noteq> [] then ''PRESERVES_SAMPLES'' else ''NOT_VERIFIED''),
          ck_samples = length probes,
          ck_counterexamples = Some (map (\<lambda>b. JObj [(''inputs'', bindings_json b),
             (''before'', outcome_json (observe b before)), (''after'', outcome_json (observe b after))]) (take 2 changed)),
          ck_inferred = False\<rparr>)"

definition repair_check ::
  "(string \<Rightarrow> py_expr option) \<Rightarrow> expression_repair \<Rightarrow> review_file \<Rightarrow> repair_report" where
  "repair_check parser r f =
     (if wf_language f \<noteq> ''py'' then no_report ''NOT_VERIFIED''
      else
        (case find (\<lambda>l. hl_line l = xr_line r) (wf_lines f) of
           None \<Rightarrow> no_report ''SOURCE_MISMATCH''
         | Some l \<Rightarrow>
             if strip_white (hl_code l) \<noteq> ''return '' @ strip_white (xr_before r) then no_report ''SOURCE_MISMATCH''
             else
               (case (parse_expression parser (xr_before r), parse_expression parser (xr_after r)) of
                  (Some before, Some after) \<Rightarrow> compare_expressions before after
                | _ \<Rightarrow> no_report ''NOT_VERIFIED'')))"

text \<open>\<open>re.findall(r"\brange\([^()\n]{1,64}\)", text)\<close>: the leftmost mentions, without overlap.\<close>

definition range_mention :: "char option \<Rightarrow> string \<Rightarrow> string option" where
  "range_mention before s =
     (let body = takeWhile (\<lambda>c. c \<notin> {CHR ''('', CHR '')'', LF}) (drop 6 s) in
      if word_edge before s \<and> starts_with ''range('' s \<and> body \<noteq> [] \<and> length body \<le> 64 \<and>
         starts_with '')'' (drop (6 + length body) s)
      then Some (''range('' @ body @ '')'') else None)"

function range_mentions :: "char option \<Rightarrow> string \<Rightarrow> string list" where
  "range_mentions before [] = []"
| "range_mentions before (c # cs) =
     (case range_mention before (c # cs) of
        None \<Rightarrow> range_mentions (Some c) cs
      | Some m \<Rightarrow> m # range_mentions (Some CHR '')'') (drop (length m - 1) cs))"
  by pat_completeness auto
termination by (relation "measure (\<lambda>(_, s). length s)") auto

definition returned_range :: "issue \<Rightarrow> head_line \<Rightarrow> bool" where
  "returned_range i l \<longleftrightarrow>
     hl_line l \<in> set (is_evidence_lines i) \<and> starts_with ''return list(range('' (strip_white (hl_code l))"

fun first_inferred ::
  "(string \<Rightarrow> py_expr option) \<Rightarrow> review_file \<Rightarrow> int \<Rightarrow> string \<Rightarrow> string list \<Rightarrow> repair_report option" where
  "first_inferred parser f n before [] = None"
| "first_inferred parser f n before (choice # rest) =
     (if 160 < length before then None
      else
        (let check = repair_check parser \<lparr>xr_line = n, xr_before = before, xr_after = ''list('' @ choice @ '')''\<rparr> f
         in if ck_status check = ''CHANGES_SUCCESSFUL_SAMPLES'' then Some (check\<lparr>ck_inferred := True\<rparr>)
            else first_inferred parser f n before rest))"

definition inferred_check :: "(string \<Rightarrow> py_expr option) \<Rightarrow> issue \<Rightarrow> review_file \<Rightarrow> repair_report option" where
  "inferred_check parser i f =
     (if wf_language f \<noteq> ''py'' then None
      else
        (case filter (returned_range i) (wf_lines f) of
           [l] \<Rightarrow> first_inferred parser f (hl_line l) (drop 7 (strip_white (hl_code l))) (take 3 (range_mentions None (is_suggestion i)))
         | _ \<Rightarrow> None))"

definition suggestion_check :: "(string \<Rightarrow> py_expr option) \<Rightarrow> issue \<Rightarrow> review_file \<Rightarrow> repair_report" where
  "suggestion_check parser i f =
     (let structured = map_option (\<lambda>r. repair_check parser r f) (is_repair i) in
      case structured of
        Some r \<Rightarrow>
          if ck_status r \<notin> {''SOURCE_MISMATCH'', ''NOT_VERIFIED''} then r
          else (case inferred_check parser i f of Some c \<Rightarrow> c | None \<Rightarrow> r)
      | None \<Rightarrow> (case inferred_check parser i f of Some c \<Rightarrow> c | None \<Rightarrow> no_report ''NOT_VERIFIED''))"

text \<open>The dictionary of a report, with the mark of a withheld suggestion.\<close>

definition check_report :: "repair_report \<Rightarrow> bool \<Rightarrow> json" where
  "check_report r withheld =
     JObj ([(''status'', JStr (ck_status r)), (''samples'', JInt (int (ck_samples r)))] @
       (case ck_counterexamples r of
          None \<Rightarrow> []
        | Some cs \<Rightarrow> [(''counterexamples'', JArr cs), (''scope'', JStr ''EXPRESSION_ONLY_ASSUMING_BUILTINS'')]) @
       (if ck_inferred r then [(''inferred_from_text'', JBool True)] else []) @
       (if withheld then [(''withheld'', JBool True)] else []))"

subsection \<open>Illustrative observations\<close>

definition observed_line :: "(string \<Rightarrow> py_expr option) \<Rightarrow> string \<Rightarrow> int \<Rightarrow> string \<Rightarrow> json option" where
  "observed_line parser fid n code =
     (case parse_expression parser (drop 7 code) of
        None \<Rightarrow> None
      | Some e \<Rightarrow>
          (let seen = take 7 (filter (\<lambda>b. observe b e \<noteq> Unknown) (samples e)) in
           if seen = [] then None
           else Some (JObj [(''file_id'', JStr fid), (''line'', JInt n), (''scope'', JStr ''EXPRESSION_ONLY_ASSUMING_BUILTINS''),
             (''observations'', JArr (map (\<lambda>b. JObj ((''inputs'', bindings_json b) # entries (outcome_json (observe b e)))) seen))])))"

text \<open>\<open>re.search(r"\bor\b", code)\<close>\<close>

fun mentions_or :: "char option \<Rightarrow> string \<Rightarrow> bool" where
  "mentions_or before [] = False"
| "mentions_or before (c # cs) \<longleftrightarrow>
     word_edge before (c # cs) \<and> starts_with ''or'' (c # cs) \<and> word_edge (Some CHR ''r'') (drop 1 cs) \<or> mentions_or (Some c) cs"

definition or_observation :: "string \<Rightarrow> int \<Rightarrow> json" where
  "or_observation fid n =
     JObj [(''file_id'', JStr fid), (''line'', JInt n), (''scope'', JStr ''OPERATOR_ONLY''),
       (''observations'', JArr
          [JObj [(''expression'', JStr (''None or '' @ [CHR 0x27, CHR 0x27])), (''value'', JStr [])],
           JObj [(''expression'', JStr ([CHR 0x27, CHR 0x27] @ '' or None'')), (''value'', JNull)]])]"

definition line_fact :: "(string \<Rightarrow> py_expr option) \<Rightarrow> review_file \<Rightarrow> head_line \<Rightarrow> json option" where
  "line_fact parser f l =
     (let code = strip_white (hl_code l) in
      if \<not> hl_changed l \<or> wf_language f \<noteq> ''py'' then None
      else if starts_with ''return '' code then observed_line parser (wf_id f) (hl_line l) code
      else if mentions_or None code then Some (or_observation (wf_id f) (hl_line l)) else None)"

definition semantic_facts :: "(string \<Rightarrow> py_expr option) \<Rightarrow> review_context \<Rightarrow> json list" where
  "semantic_facts parser c =
     take 6 (concat (map (\<lambda>f. concat (map (\<lambda>l. case line_fact parser f l of None \<Rightarrow> [] | Some x \<Rightarrow> [x]) (wf_lines f)))
       (cx_files c)))"

end
