(* ===== verification/Expressions_Results.thy ===== *)
theory Expressions_Results
  imports Expressions
begin

section \<open>The interpreter is bounded and its reports are counterexamples\<close>

text \<open>
  Every value the interpreter computes is small, and a suggestion is reported as changing behaviour only
  with a sample that shows it.
\<close>

definition small_value :: "py_value \<Rightarrow> bool" where
  "small_value v \<longleftrightarrow>
     (case v of
        Val_Int n \<Rightarrow> \<bar>n\<bar> \<le> max_number
      | Val_Str t \<Rightarrow> length t \<le> 64
      | Val_List xs \<Rightarrow> length xs \<le> 32 \<and> (\<forall>n \<in> set xs. \<bar>n\<bar> \<le> max_number)
      | _ \<Rightarrow> True)"

definition small_bindings :: "bindings \<Rightarrow> bool" where
  "small_bindings b \<longleftrightarrow> (\<forall>x v. map_of b x = Some v \<longrightarrow> small_value v)"

lemma small_simps [simp]:
  "small_value (Val_Int n) = (\<bar>n\<bar> \<le> max_number)" "small_value (Val_Bool c)" "small_value Val_None"
  "small_value (Val_Str t) = (length t \<le> 64)"
  "small_value (Val_List xs) = (length xs \<le> 32 \<and> (\<forall>n \<in> set xs. \<bar>n\<bar> \<le> max_number))"
  by (simp_all add: small_value_def)

lemma unsupported_Inr [simp]: "unsupported \<noteq> Inr v"
  by (simp add: unsupported_def)

lemma constant_small: "constant_value c = Inr v \<Longrightarrow> small_value v"
  by (cases c) (auto split: if_splits)

text \<open>The elements of a range lie between its ends.\<close>

lemma range_element:
  assumes "k \<noteq> 0" and "0 \<le> i" and "i < range_length a b k"
  shows "min a b \<le> a + i * k \<and> a + i * k \<le> max a b"
proof (cases "0 < k")
  case True
  with assms have ab: "a < b" and i: "i \<le> (b - a - 1) div k" by (auto simp: range_length_def split: if_splits)
  have "i * k \<le> (b - a - 1) div k * k" using i True by (intro mult_right_mono) auto
  also have "\<dots> \<le> b - a - 1" using pos_mod_sign [OF True, of "b - a - 1"] by (simp add: minus_mod_eq_div_mult [symmetric])
  finally have "i * k \<le> b - a - 1" .
  moreover have "0 \<le> i * k" using assms(2) True by simp
  ultimately show ?thesis using ab by simp
next
  case False
  then have k: "0 < - k" using assms(1) by simp
  with assms have ab: "b < a" and i: "i \<le> (a - b - 1) div (- k)" by (auto simp: range_length_def split: if_splits)
  have "i * (- k) \<le> (a - b - 1) div (- k) * (- k)" using i k by (intro mult_right_mono) auto
  also have "\<dots> \<le> a - b - 1"
    using pos_mod_sign [OF k, of "a - b - 1"] by (simp only: minus_mod_eq_div_mult [symmetric])
  finally have "i * (- k) \<le> a - b - 1" .
  moreover have "0 \<le> i * (- k)" using assms(2) k by (intro mult_nonneg_nonneg) auto
  ultimately show ?thesis using ab by simp
qed

lemma range_small:
  assumes "range_value a b k = Inr v" and "\<bar>a\<bar> \<le> max_number" and "\<bar>b\<bar> \<le> max_number"
  shows "small_value v"
proof -
  let ?n = "range_length a b k"
  have k: "k \<noteq> 0" "?n \<le> 32" and v: "v = Val_List (map (\<lambda>i. a + int i * k) [0..<nat ?n])"
    using assms(1) by (auto simp: range_value_def split: if_splits)
  have "\<bar>a + int i * k\<bar> \<le> max_number" if "i < nat ?n" for i
  proof -
    have "int i < ?n" using that by linarith
    then have "min a b \<le> a + int i * k \<and> a + int i * k \<le> max a b" using k(1) by (intro range_element) auto
    with assms(2,3) show ?thesis by (auto simp: min_def max_def split: if_splits)
  qed
  with k v show ?thesis by auto
qed

lemma ints_of_Some: "ints_of vs = Some ns \<Longrightarrow> vs = map Val_Int ns"
  by (induction vs arbitrary: ns rule: ints_of.induct) auto

lemma call_small:
  assumes "call_value f vs = Inr v" and "\<forall>x \<in> set vs. small_value x"
  shows "small_value v"
proof (cases "f = ''range'' \<and> 1 \<le> length vs \<and> length vs \<le> 3 \<and> ints_of vs \<noteq> None")
  case True
  then obtain ns where ns: "ints_of vs = Some ns" by auto
  have small: "\<forall>n \<in> set ns. \<bar>n\<bar> \<le> max_number" using assms(2) ints_of_Some [OF ns] by auto
  have zero: "\<bar>0 :: int\<bar> \<le> max_number" by (simp add: max_number_def)
  from True ns assms(1) small show ?thesis
    by (auto simp: call_value_def split: list.splits intro: range_small [OF _ zero] range_small)
next
  case False
  have lens: "int (length t) \<le> max_number" if "length t \<le> 64" for t :: "'z list"
    using that by (simp add: max_number_def)
  show ?thesis
  proof (cases "f \<in> {''min'', ''max''} \<and> 1 < length vs \<and> length vs \<le> 3 \<and> ints_of vs \<noteq> None")
    case True
    then obtain ns where ns: "ints_of vs = Some ns" by auto
    have vs: "vs = map Val_Int ns" by (rule ints_of_Some [OF ns])
    have "ns \<noteq> []" using True vs by auto
    then have "Min (set ns) \<in> set ns" "Max (set ns) \<in> set ns" by simp_all
    with assms(2) vs have "\<bar>Min (set ns)\<bar> \<le> max_number" "\<bar>Max (set ns)\<bar> \<le> max_number" by auto
    with assms(1) True False ns show ?thesis
      by (auto simp: call_value_def vs split: list.splits if_splits)
  next
    case other: False
    have "\<exists>xs. vs = [Val_List xs] \<and> (v = Val_List xs \<or> v = Val_Int (int (length xs))) \<or> (\<exists>t. vs = [Val_Str t] \<and> v = Val_Int (int (length t)))"
      using assms(1) False other by (auto simp: call_value_def split: list.splits py_value.splits if_splits)
    with assms(2) lens show ?thesis by (auto simp: max_number_def)
  qed
qed

lemma interpret_small:
  "small_bindings b \<Longrightarrow> interpret_expr b d e = Inr v \<Longrightarrow> small_value v"
  "small_bindings b \<Longrightarrow> interpret_all b d es = Inr vs \<Longrightarrow> \<forall>x \<in> set vs. small_value x"
  "small_bindings b \<Longrightarrow> interpret_parts b d is_or w es = Inr v \<Longrightarrow> small_value w \<Longrightarrow> small_value v"
proof (induction b d e and b d es and b d is_or w es arbitrary: v and vs and v
    rule: interpret_expr_interpret_all_interpret_parts.induct)
  case (1 b d c)
  then show ?case by (auto split: if_splits intro: constant_small)
next
  case (2 b d x)
  then show ?case by (auto simp: small_bindings_def split: if_splits option.splits)
next
  case (3 b d e)
  from 3(3) obtain w where "interpret_expr b (d + 1) e = Inr w" "\<not> 12 < d"
    and v: "(case w of Val_Int n \<Rightarrow> Inr (Val_Int (- n)) | _ \<Rightarrow> unsupported) = Inr v"
    by (auto simp: proceed_Inr split: if_splits)
  with 3(1,2) have "small_value w" by blast
  with v show ?case by (cases w) auto
next
  case (4 b d is_or e es)
  from 4(4) obtain w where "interpret_expr b (d + 1) e = Inr w" "\<not> 12 < d" "interpret_parts b (d + 1) is_or w es = Inr v"
    by (auto simp: proceed_Inr split: if_splits)
  with 4(1,2,3) show ?case by blast
next
  case (5 b d op x y)
  from 5(4) obtain l r where
    "(case (l, r) of (Val_Int m, Val_Int n) \<Rightarrow>
        (let v = apply_operator op m n in if max_number < \<bar>v\<bar> then unsupported else Inr (Val_Int v))
      | _ \<Rightarrow> unsupported) = Inr v"
    by (auto simp: proceed_Inr split: if_splits)
  then show ?case by (cases l; cases r) (auto simp: Let_def split: if_splits)
next
  case (6 b d f es ks)
  then show ?case by (auto simp: proceed_Inr split: if_splits py_expr.splits intro: call_small)
next
  case (9 b d e es)
  then show ?case by (auto simp: proceed_Inr)
next
  case (11 b d is_or w e es)
  show ?case
  proof (cases "truth w = is_or")
    case True
    with 11 show ?thesis by simp
  next
    case False
    with 11(4) obtain x where "interpret_expr b d e = Inr x" "interpret_parts b d is_or x es = Inr v"
      by (auto simp: proceed_Inr)
    with 11(1,2,3) False show ?thesis by blast
  qed
qed simp_all

text \<open>C32.
  The interpreter of suggested expressions is bounded: whatever expression it is given and at whatever
  depth, from bindings of small values every value it computes is small as well - integers stay within
  ten to the tenth power, strings within 64 characters, lists within 32 such integers. So an expression
  of the analysed code cannot make the server compute or store anything large.
\<close>

theorem interpreted_values_bounded:
  assumes "small_bindings b" and "interpret_expr b d e = Inr v"
  shows "small_value v"
  using interpret_small(1) [OF assms] .

theorem interpreted_values_bounded_witness:
  "small_value (Val_List [1, 2, 3])"
proof -
  have 1: "small_bindings [(''n'', Val_Int 3)]"
    by (simp add: small_bindings_def max_number_def)
  have 2: "interpret_expr [(''n'', Val_Int 3)] 0
      (Py_Call (Py_Name ''range'') [Py_Const (Const_Int 1), Py_Binary Op_Add (Py_Name ''n'') (Py_Const (Const_Int 1))] [])
    = Inr (Val_List [1, 2, 3])"
    by code_simp
  show ?thesis by (rule interpreted_values_bounded [OF 1 2])
qed

subsection \<open>Samples and reports\<close>

lemma tuples_in: "vs \<in> set (tuples n) \<Longrightarrow> length vs = n \<and> set vs \<subseteq> set sample_values"
proof (induction n arbitrary: vs)
  case (Suc n)
  then obtain w ws where "vs = w # ws" "w \<in> set sample_values" "ws \<in> set (tuples n)" by auto
  with Suc.IH [of ws] show ?case by simp
qed simp

lemma sample_values_small: "v \<in> set sample_values \<Longrightarrow> small_value v"
  by (auto simp: sample_values_def max_number_def)

lemma samples_small:
  assumes "b \<in> set (samples e)"
  shows "small_bindings b"
proof -
  obtain vs where vs: "vs \<in> set (tuples (length (sample_names e)))" and b: "b = zip (sample_names e) vs"
    using assms by (auto simp: samples_def Let_def split: if_splits dest!: in_set_takeD)
  have "small_value v" if "(x, v) \<in> set b" for x v
    using that b tuples_in [OF vs] sample_values_small by (auto dest!: set_zip_rightD)
  then show ?thesis by (auto simp: small_bindings_def dest: map_of_SomeD)
qed

lemma samples_few: "length (samples e) \<le> 49"
  by (simp add: samples_def Let_def)

text \<open>A sample that shows a difference: the original returns a value there, the replacement something else.\<close>

definition shows_change :: "py_expr \<Rightarrow> py_expr \<Rightarrow> bindings \<Rightarrow> bool" where
  "shows_change before after b \<longleftrightarrow>
     b \<in> set (samples before) \<and>
     (\<exists>v. interpret_expr b 0 before = Inr v \<and> observe b after \<noteq> Seen v \<and> observe b after \<noteq> Unknown)"

lemma observe_Seen: "observe b e = Seen v \<longleftrightarrow> interpret_expr b 0 e = Inr v"
  by (auto simp: observe_def split: sum.splits exn.splits)

text \<open>A counterexample as it is shown: the inputs, and what either expression does with them.\<close>

definition counterexample :: "py_expr \<Rightarrow> py_expr \<Rightarrow> bindings \<Rightarrow> json" where
  "counterexample before after b =
     JObj [(''inputs'', bindings_json b), (''before'', outcome_json (observe b before)),
           (''after'', outcome_json (observe b after))]"

lemma comparison_shows_change:
  assumes "ck_status (compare_expressions before after) = ''CHANGES_SUCCESSFUL_SAMPLES''"
  obtains bs where "ck_counterexamples (compare_expressions before after) = Some (map (counterexample before after) bs)"
    "bs \<noteq> []" "length bs \<le> 2" "\<forall>b \<in> set bs. shows_change before after b"
proof -
  let ?changed = "filter (deviates before after) (filter (comparable before after) (samples before))"
  have "?changed \<noteq> []"
    using assms by (auto simp: compare_expressions_def Let_def split: if_splits)
  moreover have "shows_change before after b" if "b \<in> set (take 2 ?changed)" for b
  proof -
    have "b \<in> set ?changed" using that by (rule in_set_takeD)
    then show ?thesis by (auto simp: shows_change_def comparable_def deviates_def observe_Seen [symmetric])
  qed
  moreover have "ck_counterexamples (compare_expressions before after) = Some (map (counterexample before after) (take 2 ?changed))"
    by (simp add: compare_expressions_def Let_def counterexample_def [abs_def])
  ultimately show thesis by (intro that [of "take 2 ?changed"]) auto
qed

text \<open>
  The replacement is compared with a line of the file that returns the original, and the examples
  shown are samples on which it differs.
\<close>

definition refutes :: "(string \<Rightarrow> py_expr option) \<Rightarrow> review_file \<Rightarrow> string \<Rightarrow> json list \<Rightarrow> bool" where
  "refutes parser f after cs \<longleftrightarrow>
     wf_language f = ''py'' \<and>
     (\<exists>l before x y bs.
        l \<in> set (wf_lines f) \<and> strip_white (hl_code l) = ''return '' @ strip_white before \<and>
        parse_expression parser before = Some x \<and> parse_expression parser after = Some y \<and>
        cs = map (counterexample x y) bs \<and> bs \<noteq> [] \<and> length bs \<le> 2 \<and> (\<forall>b \<in> set bs. shows_change x y b))"

lemma find_in: "find p xs = Some x \<Longrightarrow> x \<in> set xs"
  by (auto simp: find_Some_iff)

lemma repair_refutes:
  assumes "ck_status (repair_check parser r f) = ''CHANGES_SUCCESSFUL_SAMPLES''"
  obtains cs where "ck_counterexamples (repair_check parser r f) = Some cs" "refutes parser f (xr_after r) cs"
proof -
  from assms obtain l x y where l: "wf_language f = ''py''" "find (\<lambda>l. hl_line l = xr_line r) (wf_lines f) = Some l"
      "strip_white (hl_code l) = ''return '' @ strip_white (xr_before r)"
      "parse_expression parser (xr_before r) = Some x" "parse_expression parser (xr_after r) = Some y"
    and check: "repair_check parser r f = compare_expressions x y"
    by (auto simp: repair_check_def no_report_def split: if_splits option.splits)
  from assms obtain bs where "ck_counterexamples (compare_expressions x y) = Some (map (counterexample x y) bs)"
    "bs \<noteq> []" "length bs \<le> 2" "\<forall>b \<in> set bs. shows_change x y b"
    unfolding check by (rule comparison_shows_change)
  with l find_in [OF l(2)] check show thesis
    by (intro that [of "map (counterexample x y) bs"]) (auto simp: refutes_def)
qed

lemma first_inferred_refutes:
  assumes "first_inferred parser f n before choices = Some c"
  shows "\<exists>choice \<in> set choices. \<exists>cs. ck_counterexamples c = Some cs \<and> refutes parser f (''list('' @ choice @ '')'') cs"
  using assms
proof (induction choices)
  case (Cons choice rest)
  let ?r = "\<lparr>xr_line = n, xr_before = before, xr_after = ''list('' @ choice @ '')''\<rparr>"
  show ?case
  proof (cases "ck_status (repair_check parser ?r f) = ''CHANGES_SUCCESSFUL_SAMPLES''")
    case True
    then obtain cs where "ck_counterexamples (repair_check parser ?r f) = Some cs" "refutes parser f (xr_after ?r) cs"
      by (rule repair_refutes)
    moreover have "c = (repair_check parser ?r f)\<lparr>ck_inferred := True\<rparr>"
      using Cons.prems True by (simp add: Let_def split: if_splits)
    ultimately show ?thesis by (intro bexI [of _ choice] exI [of _ cs]) simp_all
  next
    case False
    then have "first_inferred parser f n before rest = Some c"
      using Cons.prems by (simp add: Let_def split: if_splits)
    from Cons.IH [OF this] show ?thesis by (meson list.set_intros(2))
  qed
qed simp

lemma inferred_refutes:
  assumes "inferred_check parser i f = Some c"
  shows "\<exists>m \<in> set (range_mentions None (is_suggestion i)). \<exists>cs. ck_counterexamples c = Some cs \<and>
    refutes parser f (''list('' @ m @ '')'') cs"
proof -
  obtain n before where
    "first_inferred parser f n before (take 3 (range_mentions None (is_suggestion i))) = Some c"
    using assms by (auto simp: inferred_check_def split: if_splits list.splits)
  from first_inferred_refutes [OF this] show ?thesis by (meson in_set_takeD)
qed

lemma suggestion_refutes:
  assumes "ck_status (suggestion_check parser i f) = ''CHANGES_SUCCESSFUL_SAMPLES''"
  obtains after cs where "ck_counterexamples (suggestion_check parser i f) = Some cs" "refutes parser f after cs"
    "(\<exists>r. is_repair i = Some r \<and> after = xr_after r) \<or>
     (\<exists>m \<in> set (range_mentions None (is_suggestion i)). after = ''list('' @ m @ '')'')"
proof (cases "\<exists>c. inferred_check parser i f = Some c \<and> suggestion_check parser i f = c")
  case True
  with inferred_refutes [of parser i f] that show ?thesis by metis
next
  case False
  then obtain r where r: "is_repair i = Some r" "suggestion_check parser i f = repair_check parser r f"
    using assms
    by (cases "is_repair i") (auto simp: suggestion_check_def no_report_def Let_def split: option.splits if_splits)
  with assms obtain cs where "ck_counterexamples (repair_check parser r f) = Some cs" "refutes parser f (xr_after r) cs"
    using repair_refutes by metis
  with r show ?thesis by (intro that [of cs "xr_after r"]) auto
qed

end
