(* ===== verification/Review_Validation.thy ===== *)
theory Review_Validation
  imports Expressions Standards
begin

section \<open>Validation of a review\<close>

text \<open>
  \<open>validate_result\<close> and \<open>quote_supported\<close> of \<^verbatim>\<open>app/domain/review/policy.py\<close>, the checks of the second
  reviewer (\<^verbatim>\<open>verification.py\<close>: \<open>apply_verification\<close>) and of the files (\<^verbatim>\<open>empty_review.py\<close>). A parsed
  answer satisfies the bounds its schema declares (\<^verbatim>\<open>Review_Output\<close>, \<^verbatim>\<open>empty_schema.py\<close>); the parser
  is a parameter. The result keeps the accepted claims as records and the entries that are
  presentation or measurement as JSON. The JSON decoder, the parsers (pydantic), the writer of an
  output's JSON text and the independent static projections (\<^verbatim>\<open>grounded_claims.py\<close>) are parameters.
\<close>

subsection \<open>Quotes\<close>

text \<open>The comment marks at the two ends of a line, in the order of the alternatives.\<close>

definition leading_mark :: "string \<Rightarrow> string option" where
  "leading_mark t =
     (if starts_with ''/*'' t then Some (let r = drop 2 t in if starts_with ''*'' r then drop 1 r else r)
      else if starts_with ''*/'' t then Some (drop 2 t)
      else if starts_with ''*'' t then Some (drop 1 t)
      else if starts_with ''//'' t then Some (dropWhile (\<lambda>c. c = CHR ''/'') t)
      else if starts_with ''#'' t then Some (dropWhile (\<lambda>c. c = CHR ''#'') t)
      else if starts_with (replicate 3 CHR 0x22) t then Some (drop 3 t)
      else if starts_with (replicate 3 CHR 0x27) t then Some (drop 3 t)
      else None)"

definition drop_leading_mark :: "string \<Rightarrow> string" where
  "drop_leading_mark line =
     (case leading_mark (dropWhile (\<lambda>c. c \<in> white) line) of
        None \<Rightarrow> line
      | Some r \<Rightarrow> (case r of [] \<Rightarrow> [] | c # cs \<Rightarrow> if c \<in> white then cs else r))"

definition drop_trailing_mark :: "string \<Rightarrow> string" where
  "drop_trailing_mark line =
     (let t = rstrip_set white line in
      case find (\<lambda>m. ends_with m t) [''*/'', replicate 3 CHR 0x22, replicate 3 CHR 0x27] of
        None \<Rightarrow> line
      | Some m \<Rightarrow> rstrip_set white (take (length t - length m) t))"

definition clean_line :: "string \<Rightarrow> string" where
  "clean_line line = strip_white (drop_trailing_mark (drop_leading_mark line))"

definition joined_lines :: "string list \<Rightarrow> string" where
  "joined_lines ls = join_with CHR '' '' (map spaced_words (filter (\<lambda>r. r \<noteq> []) (map clean_line ls)))"

definition quote_supported :: "string \<Rightarrow> string list \<Rightarrow> string list list \<Rightarrow> bool" where
  "quote_supported q texts blocks =
     (let wanted = spaced_words q in
      if wanted = [] then False
      else list_ex (contains q) texts \<or> list_ex (\<lambda>ls. contains wanted (joined_lines ls)) blocks)"

subsection \<open>Accepted claims\<close>

record review_item =
  it_line :: int
  it_severity :: issue_severity
  it_basis :: issue_basis
  it_evidence_lines :: "int list"
  it_trigger :: string
  it_consequence :: string
  it_assumptions :: "string list"
  it_title :: string
  it_evidence :: string
  it_suggestion :: string
  it_file_path :: string
  it_check :: json
  it_withheld :: bool
  it_citations :: "passage list"
  it_key :: string

record review_result =
  rx_summary :: string
  rx_issues :: "review_item list"
  rx_questions :: "review_item list"
  rx_limitations :: string
  rx_reviewed_files :: nat
  rx_omitted_files :: nat
  rx_coverage :: "(string \<times> json) list"
  rx_more :: "(string \<times> json) list"

text \<open>What validation calls and cannot see here: see the header of \<^verbatim>\<open>Review_Policy\<close>.\<close>

record policy_tools =
  pt_loads :: "string \<Rightarrow> exn + json"
  pt_parse :: "string \<Rightarrow> exn + review_output"
  pt_write :: "review_output \<Rightarrow> string"
  pt_expr :: "string \<Rightarrow> py_expr option"
  pt_sha :: "string \<Rightarrow> string"
  pt_withheld :: string
  pt_summary :: "review_item list \<Rightarrow> review_item list \<Rightarrow> string"

definition invalid :: "string \<Rightarrow> exn + 'a" where
  "invalid c = Inl (ValueError c)"

definition changed_of :: "review_file \<Rightarrow> int list" where
  "changed_of f = map hl_line (filter hl_changed (wf_lines f))"

definition anchor_of :: "input_bundle \<Rightarrow> string \<Rightarrow> (string \<times> int list) option" where
  "anchor_of b fid = map_of (rev (ib_anchors b)) fid"

definition file_of_id :: "review_context \<Rightarrow> string \<Rightarrow> review_file option" where
  "file_of_id c fid = find (\<lambda>f. wf_id f = fid) (rev (cx_files c))"

definition section_of_id :: "review_context \<Rightarrow> string \<Rightarrow> passage option" where
  "section_of_id c cid =
     find (\<lambda>p. ps_id p = cid) (rev (case cx_standards c of None \<Rightarrow> [] | Some ps \<Rightarrow> ps))"

definition supplied_texts :: "review_context \<Rightarrow> string list" where
  "supplied_texts c =
     [case cx_contract c of None \<Rightarrow> [] | Some t \<Rightarrow> t] @
     concat (map (\<lambda>f. map hl_code (wf_lines f)) (cx_files c)) @
     map ps_text (case cx_standards c of None \<Rightarrow> [] | Some ps \<Rightarrow> ps)"

definition supplied_blocks :: "review_context \<Rightarrow> string list list" where
  "supplied_blocks c = map (\<lambda>f. map hl_code (wf_lines f)) (cx_files c)"

definition cites :: "review_context \<Rightarrow> issue \<Rightarrow> string \<Rightarrow> bool" where
  "cites c i cid \<longleftrightarrow>
     (case section_of_id c cid of None \<Rightarrow> False | Some p \<Rightarrow> is_file_id i \<in> set (ps_file_ids p))"

text \<open>The refusal of an issue, in the order of the checks; \<open>None\<close> accepts it.\<close>

definition location_error :: "(string \<times> int list) option \<Rightarrow> issue \<Rightarrow> string option" where
  "location_error anchor i =
     (if is_basis i = NEEDS_CONTEXT \<and> is_severity i = SEV_ERROR then Some ''UNSUPPORTED_SEVERITY''
      else
        (case anchor of
           None \<Rightarrow> Some ''INVALID_OUTPUT_LOCATION''
         | Some (_, ls) \<Rightarrow> if is_line i \<notin> set ls then Some ''INVALID_OUTPUT_LOCATION'' else None))"

definition evidence_error :: "int list \<Rightarrow> int list \<Rightarrow> issue \<Rightarrow> string option" where
  "evidence_error lines changed i =
     (let refs = is_evidence_lines i in
      if \<not> distinct refs \<or> is_line i \<notin> set refs \<or> \<not> set refs \<subseteq> set lines \<or> set refs \<inter> set changed = {}
      then Some ''INVALID_EVIDENCE_LINES''
      else if list_ex (\<lambda>t. strip_white t = [] \<or> 400 < length t) (is_assumptions i) then Some ''INVALID_ASSUMPTIONS''
      else if (is_basis i = SUPPORTED) \<noteq> (is_assumptions i = []) then Some ''INCONSISTENT_EVIDENCE_BASIS''
      else if strip_white (is_trigger i) = [] \<or> strip_white (is_consequence i) = [] then Some ''EMPTY_EVIDENCE''
      else None)"

definition citation_error :: "review_context \<Rightarrow> issue \<Rightarrow> string option" where
  "citation_error c i =
     (if cx_purpose c = Some ''STANDARDS'' then
        (if is_citations i = [] \<or> \<not> distinct (is_citations i) then Some ''MISSING_STANDARD_CITATION''
         else if \<not> list_all (cites c i) (is_citations i) then Some ''INVALID_STANDARD_CITATION''
         else None)
      else if is_citations i \<noteq> [] then Some ''UNEXPECTED_STANDARD_CITATION''
      else None)"

definition quote_error :: "review_context \<Rightarrow> issue \<Rightarrow> string option" where
  "quote_error c i =
     (if is_contract_quote i \<noteq> [] \<and>
         \<not> quote_supported (is_contract_quote i) (supplied_texts c) (supplied_blocks c)
      then Some ''INVALID_CONTRACT_QUOTE'' else None)"

definition item_of :: "policy_tools \<Rightarrow> review_context \<Rightarrow> string \<Rightarrow> review_file \<Rightarrow> issue \<Rightarrow> review_item" where
  "item_of pt c path f i =
     (let check = suggestion_check (pt_expr pt) i f; withheld = (ck_status check = ''CHANGES_SUCCESSFUL_SAMPLES'')
      in \<lparr>it_line = is_line i, it_severity = is_severity i, it_basis = is_basis i,
          it_evidence_lines = is_evidence_lines i, it_trigger = is_trigger i, it_consequence = is_consequence i,
          it_assumptions = is_assumptions i, it_title = is_title i, it_evidence = is_evidence i,
          it_suggestion = (if withheld then pt_withheld pt else is_suggestion i), it_file_path = path,
          it_check = check_report check withheld, it_withheld = withheld,
          it_citations = concat (map (\<lambda>cid. case section_of_id c cid of None \<Rightarrow> [] | Some p \<Rightarrow> [p]) (is_citations i)),
          it_key = issue_key (pt_sha pt) path (is_title i)\<rparr>)"

fun first_error :: "string option list \<Rightarrow> string option" where
  "first_error [] = None"
| "first_error (None # es) = first_error es"
| "first_error (Some e # es) = Some e"

definition validate_issue :: "policy_tools \<Rightarrow> input_bundle \<Rightarrow> issue \<Rightarrow> exn + review_item" where
  "validate_issue pt b i =
     (let c = ib_context b in
      case location_error (anchor_of b (is_file_id i)) i of
        Some e \<Rightarrow> invalid e
      | None \<Rightarrow>
          (case (anchor_of b (is_file_id i), file_of_id c (is_file_id i)) of
             (Some (path, ls), Some f) \<Rightarrow>
               (case first_error [evidence_error ls (changed_of f) i, citation_error c i, quote_error c i] of
                  Some e \<Rightarrow> invalid e
                | None \<Rightarrow> Inr (item_of pt c path f i))
           | _ \<Rightarrow> Inl KeyError))"

fun validate_issues :: "policy_tools \<Rightarrow> input_bundle \<Rightarrow> issue list \<Rightarrow> exn + review_item list" where
  "validate_issues pt b [] = Inr []"
| "validate_issues pt b (i # rest) =
     (case validate_issue pt b i of
        Inl e \<Rightarrow> Inl e
      | Inr x \<Rightarrow> (case validate_issues pt b rest of Inl e \<Rightarrow> Inl e | Inr xs \<Rightarrow> Inr (x # xs)))"

text \<open>\<open>strip_api_metadata\<close> of \<^verbatim>\<open>model_output.py\<close>: a decoded object is a dict, without repeated keys.\<close>

definition strip_api_metadata :: "(string \<Rightarrow> exn + json) \<Rightarrow> string \<Rightarrow> exn + string" where
  "strip_api_metadata loads raw =
     (case loads raw of
        Inl (ValueError _) \<Rightarrow> Inr raw
      | Inl e \<Rightarrow> Inl e
      | Inr v \<Rightarrow>
          if json_get ''type'' v = JStr ''json_object''
          then Inr (dumps (JObj (filter (\<lambda>kv. fst kv \<noteq> ''type'') (entries v)))) else Inr raw)"

definition parse_output :: "policy_tools \<Rightarrow> string \<Rightarrow> exn + review_output" where
  "parse_output pt raw =
     (case strip_api_metadata (pt_loads pt) raw of Inl e \<Rightarrow> Inl e | Inr t \<Rightarrow> pt_parse pt t)"

definition max_output :: nat where "max_output = 24000"

definition result_of_items ::
  "policy_tools \<Rightarrow> input_bundle \<Rightarrow> string \<Rightarrow> review_item list \<Rightarrow> review_result" where
  "result_of_items pt b limitations items =
     (let issues = filter (\<lambda>x. it_basis x = SUPPORTED) items; questions = filter (\<lambda>x. it_basis x \<noteq> SUPPORTED) items
      in \<lparr>rx_summary = pt_summary pt issues questions, rx_issues = issues, rx_questions = questions,
          rx_limitations = limitations, rx_reviewed_files = length (remdups (map fst (ib_anchors b))),
          rx_omitted_files = ib_omitted b, rx_coverage = ib_coverage b, rx_more = []\<rparr>)"

definition validate_output :: "policy_tools \<Rightarrow> input_bundle \<Rightarrow> review_output \<Rightarrow> exn + review_result" where
  "validate_output pt b x =
     (case validate_issues pt b (ro_issues x) of
        Inl e \<Rightarrow> Inl e
      | Inr items \<Rightarrow> Inr (result_of_items pt b (ro_limitations x) items))"

definition validate_result :: "policy_tools \<Rightarrow> string \<Rightarrow> input_bundle \<Rightarrow> exn + review_result" where
  "validate_result pt raw b =
     (if max_output < length (utf8 raw) \<or> has_secret raw then invalid ''INVALID_OUTPUT''
      else (case parse_output pt raw of Inl e \<Rightarrow> Inl e | Inr x \<Rightarrow> validate_output pt b x))"

subsection \<open>Checks of the files\<close>

datatype check_outcome = OUT_FINDING | OUT_NO_FINDING | OUT_LIMITED

record file_check =
  fk_file_id :: string
  fk_line :: "int option"
  fk_outcome :: check_outcome
  fk_observation :: string

definition check_fields_ok :: "file_check \<Rightarrow> bool" where
  "check_fields_ok x \<longleftrightarrow>
     length_in 0 8 (fk_file_id x) \<and> (case fk_line x of None \<Rightarrow> True | Some n \<Rightarrow> 1 \<le> n) \<and> length_in 1 240 (fk_observation x)"

definition changed_review_files :: "review_context \<Rightarrow> review_file list" where
  "changed_review_files c = filter (\<lambda>f. wf_role f \<in> {None, Some ''changed''}) (cx_files c)"

definition validate_check :: "input_bundle \<Rightarrow> string list \<Rightarrow> file_check \<Rightarrow> exn + file_check \<times> string" where
  "validate_check b findings x =
     (case (find (\<lambda>f. wf_id f = fk_file_id x) (rev (changed_review_files (ib_context b))), anchor_of b (fk_file_id x)) of
        (Some f, Some (path, ls)) \<Rightarrow>
          (let changed = changed_of f; permitted = (if changed \<noteq> [] then changed else ls) in
           if permitted = [] \<or> strip_white (fk_observation x) = [] \<or>
              (case fk_line x of None \<Rightarrow> False | Some n \<Rightarrow> n \<notin> set ls)
           then invalid ''INVALID_FILE_CHECK''
           else if changed = [] \<and> fk_outcome x \<noteq> OUT_LIMITED then invalid ''REMOVAL_ONLY_CONTEXT''
           else if (fk_outcome x = OUT_FINDING) \<noteq> (fk_file_id x \<in> set findings) then invalid ''INCONSISTENT_FILE_CHECK''
           else Inr (x\<lparr>fk_line := Some (Min (set permitted))\<rparr>, path))
      | _ \<Rightarrow> Inl KeyError)"

fun validate_checks :: "input_bundle \<Rightarrow> string list \<Rightarrow> file_check list \<Rightarrow> exn + (file_check \<times> string) list" where
  "validate_checks b findings [] = Inr []"
| "validate_checks b findings (x # rest) =
     (case validate_check b findings x of
        Inl e \<Rightarrow> Inl e
      | Inr y \<Rightarrow> (case validate_checks b findings rest of Inl e \<Rightarrow> Inl e | Inr ys \<Rightarrow> Inr (y # ys)))"

definition validate_file_checks ::
  "input_bundle \<Rightarrow> review_output \<Rightarrow> file_check list \<Rightarrow> exn + (file_check \<times> string) list" where
  "validate_file_checks b x checks =
     (let ids = map fk_file_id checks in
      if \<not> distinct ids \<or> set ids \<noteq> set (map wf_id (changed_review_files (ib_context b)))
      then invalid ''INCOMPLETE_FILE_CHECKS''
      else validate_checks b (map is_file_id (ro_issues x)) checks)"

subsection \<open>The second reviewer\<close>

datatype decision_action = KEEP | REVISE | DROP_ISSUE

datatype decision_reason =
  CONFIRMED | WRONG_CONSEQUENCE | GUARDED_PATH | MISSING_CONTRACT | DUPLICATE_ISSUE | UNSUPPORTED | OVERSTATED

record decision =
  de_index :: nat
  de_action :: decision_action
  de_reason :: decision_reason
  de_revised :: "issue option"
  de_consequence :: "string option"

record verification_output =
  ve_decisions :: "decision list"
  ve_new :: "issue list"
  ve_checks :: "file_check list"

record decision_counts =
  dn_kept :: nat
  dn_revised :: nat
  dn_dropped :: nat

definition blank :: "string option \<Rightarrow> bool" where
  "blank x = (case x of None \<Rightarrow> True | Some t \<Rightarrow> t = [] \<or> strip_white t = [])"

text \<open>One decision about the draft issue: the accepted issue, if any, and the counter it moves.\<close>

definition decide :: "issue \<Rightarrow> decision \<Rightarrow> exn + issue option \<times> string" where
  "decide i d =
     (case de_action d of
        REVISE \<Rightarrow>
          (case de_revised d of
             None \<Rightarrow> invalid ''MISSING_REVISION''
           | Some r \<Rightarrow>
               if (is_file_id r, is_line r) \<noteq> (is_file_id i, is_line i) then invalid ''VERIFICATION_MOVED_FINDING''
               else if is_basis i = NEEDS_CONTEXT \<and> is_basis r \<noteq> NEEDS_CONTEXT then invalid ''VERIFICATION_PROMOTED_FINDING''
               else if blank (de_consequence d) then invalid ''MISSING_CHECKED_CONSEQUENCE''
               else Inr (Some (r\<lparr>is_consequence := the (de_consequence d)\<rparr>), ''revised''))
      | act \<Rightarrow>
          if de_revised d \<noteq> None \<or> (act = KEEP) \<noteq> (de_reason d = CONFIRMED) then invalid ''INCONSISTENT_VERIFICATION''
          else if act = KEEP
          then (if blank (de_consequence d) then invalid ''MISSING_CHECKED_CONSEQUENCE''
                else Inr (Some (i\<lparr>is_consequence := the (de_consequence d)\<rparr>),
                          if is_consequence i \<noteq> the (de_consequence d) then ''revised'' else ''kept''))
          else if de_consequence d \<noteq> None then invalid ''INCONSISTENT_VERIFICATION''
          else Inr (None, ''dropped''))"

fun decide_all :: "issue list \<Rightarrow> decision list \<Rightarrow> exn + (issue option \<times> string) list" where
  "decide_all drafts [] = Inr []"
| "decide_all drafts (d # ds) =
     (case decide (drafts ! de_index d) d of
        Inl e \<Rightarrow> Inl e
      | Inr x \<Rightarrow> (case decide_all drafts ds of Inl e \<Rightarrow> Inl e | Inr xs \<Rightarrow> Inr (x # xs)))"

definition same_claim :: "issue \<Rightarrow> issue \<Rightarrow> bool" where
  "same_claim i j \<longleftrightarrow>
     is_file_id i = is_file_id j \<and> is_line i = is_line j \<and> strip_white (is_trigger i) = strip_white (is_trigger j) \<and>
     strip_white (is_consequence i) = strip_white (is_consequence j)"

fun add_new :: "issue list \<Rightarrow> issue list \<Rightarrow> issue list" where
  "add_new accepted [] = accepted"
| "add_new accepted (i # rest) =
     (if list_ex (same_claim i) accepted then add_new accepted rest else add_new (accepted @ [i]) rest)"

definition count_text :: "string \<Rightarrow> (issue option \<times> string) list \<Rightarrow> nat" where
  "count_text t xs = length (filter (\<lambda>x. snd x = t) xs)"

record verification_summary =
  vm_kept :: nat
  vm_revised :: nat
  vm_dropped :: nat
  vm_added :: nat

text \<open>\<open>apply_verification\<close> on the parsed verification and the parsed draft.\<close>

definition apply_decisions ::
  "string \<Rightarrow> verification_output \<Rightarrow> review_output \<Rightarrow> exn + review_output \<times> verification_summary" where
  "apply_decisions notice v draft =
     (if length (ve_decisions v) \<noteq> length (ro_issues draft) \<or>
         set (map de_index (ve_decisions v)) \<noteq> set [0..<length (ro_issues draft)]
      then invalid ''INCOMPLETE_VERIFICATION''
      else
        (case decide_all (ro_issues draft) (sort_key de_index (ve_decisions v)) of
           Inl e \<Rightarrow> Inl e
         | Inr xs \<Rightarrow>
             (let kept = concat (map (\<lambda>x. case fst x of None \<Rightarrow> [] | Some i \<Rightarrow> [i]) xs);
                  accepted = add_new kept (ve_new v)
              in if 10 < length accepted then invalid ''TOO_MANY_VERIFIED_FINDINGS''
                 else Inr (draft\<lparr>ro_issues := accepted, ro_requests := [], ro_limitations := notice\<rparr>,
                           \<lparr>vm_kept = count_text ''kept'' xs, vm_revised = count_text ''revised'' xs,
                            vm_dropped = count_text ''dropped'' xs, vm_added = length accepted - length kept\<rparr>))))"

fun outcome_text :: "check_outcome \<Rightarrow> string" where
  "outcome_text OUT_FINDING = ''FINDING''"
| "outcome_text OUT_NO_FINDING = ''NO_FINDING''"
| "outcome_text OUT_LIMITED = ''LIMITED''"

definition check_json :: "file_check \<times> string \<Rightarrow> json" where
  "check_json c =
     (case c of (x, path) \<Rightarrow>
        JObj [(''file_id'', JStr (fk_file_id x)), (''line'', (case fk_line x of None \<Rightarrow> JNull | Some n \<Rightarrow> JInt n)),
              (''outcome'', JStr (outcome_text (fk_outcome x))), (''observation'', JStr (fk_observation x)),
              (''file_path'', JStr path)])"

definition checks_json :: "(file_check \<times> string) list \<Rightarrow> json" where
  "checks_json cs = JArr (map check_json cs)"

definition verification_json ::
  "verification_output \<Rightarrow> verification_summary \<Rightarrow> (file_check \<times> string) list \<Rightarrow> json" where
  "verification_json v m cs =
     (let added = (''added'', JInt (int (vm_added m))); checks = (''file_checks'', checks_json cs) in
      JObj ([(''status'', JStr ''CHECKED''), (''kept'', JInt (int (vm_kept m))), (''revised'', JInt (int (vm_revised m))),
             (''dropped'', JInt (int (vm_dropped m)))] @
        (if ve_new v \<noteq> [] \<or> ve_checks v \<noteq> [] then [added, checks] else [checks, (''added'', JInt 0)])))"

definition apply_verification ::
  "policy_tools \<Rightarrow> (string \<Rightarrow> exn + verification_output) \<Rightarrow> string \<Rightarrow> string \<Rightarrow> string \<Rightarrow>
   exn + review_output \<times> verification_output \<times> verification_summary" where
  "apply_verification pt parse_verification notice raw draft =
     (if max_output < length (utf8 raw) \<or> has_secret raw then invalid ''INVALID_VERIFICATION''
      else
        proceed (proceed (strip_api_metadata (pt_loads pt) raw) parse_verification) (\<lambda>v.
        proceed (parse_output pt draft) (\<lambda>original.
        proceed (apply_decisions notice v original) (\<lambda>(revised, m). Inr (revised, v, m)))))"

text \<open>\<open>verified_result\<close> of \<^verbatim>\<open>refinement.py\<close>, with the grounding of assertions a parameter.\<close>

definition verified_result ::
  "policy_tools \<Rightarrow> (string \<Rightarrow> exn + verification_output) \<Rightarrow> (review_result \<Rightarrow> input_bundle \<Rightarrow> exn + review_result) \<Rightarrow>
   string \<Rightarrow> string \<Rightarrow> string \<Rightarrow> input_bundle \<Rightarrow> exn + review_result" where
  "verified_result pt parse_verification ground notice raw draft b =
     proceed (apply_verification pt parse_verification notice raw draft) (\<lambda>(revised, v, m).
     proceed (validate_result pt (pt_write pt revised) b) (\<lambda>result.
     proceed (parse_verification raw) (\<lambda>again.
     proceed (pt_parse pt (pt_write pt revised)) (\<lambda>output.
     proceed (validate_file_checks b output (ve_checks again)) (\<lambda>checks.
     ground (result\<lparr>rx_more := rx_more result @ [(''verification'', verification_json v m checks)]\<rparr>) b)))))"

text \<open>\<open>validate_empty_review\<close> of \<^verbatim>\<open>empty_review.py\<close>\<close>

record empty_output = review_output +
  eo_checks :: "file_check list"

definition validate_empty_review ::
  "policy_tools \<Rightarrow> (string \<Rightarrow> exn + empty_output) \<Rightarrow> (review_result \<Rightarrow> input_bundle \<Rightarrow> exn + review_result) \<Rightarrow>
   string \<Rightarrow> input_bundle \<Rightarrow> exn + review_result" where
  "validate_empty_review pt parse_empty ground raw b =
     (if max_output < length (utf8 raw) \<or> has_secret raw then invalid ''INVALID_OUTPUT''
      else
        proceed (proceed (strip_api_metadata (pt_loads pt) raw) parse_empty) (\<lambda>x.
        proceed (validate_result pt (pt_write pt (review_output.truncate x)) b) (\<lambda>result.
        proceed (validate_file_checks b (review_output.truncate x) (eo_checks x)) (\<lambda>checks.
        ground (result\<lparr>rx_more := rx_more result @
          [(''verification'', JObj [(''status'', JStr ''EMPTY_RECHECKED''), (''file_checks'', checks_json checks)])]\<rparr>) b))))"

end
