(* ===== verification/Review_Policy_Results.thy ===== *)
theory Review_Policy_Results
  imports Expressions_Results Review_Validation "HOL-Library.Multiset"
begin

section \<open>What a review is given and what it may claim\<close>

text \<open>
  The context that is sent is bounded and free of suspected secrets and excluded files; the lines it
  shows are the head side of the patch; every accepted claim is tied to supplied lines; the second
  reviewer only narrows the draft or adds claims that pass the same validation.
\<close>

subsection \<open>Head-side lines\<close>

text \<open>The reference: the lines of a hunk in the new file, with their numbers.\<close>

fun new_side :: "int \<Rightarrow> diff_line list \<Rightarrow> head_line list" where
  "new_side n [] = []"
| "new_side n (Kept t # ls) = \<lparr>hl_line = n, hl_code = t, hl_changed = False\<rparr> # new_side (n + 1) ls"
| "new_side n (Added t # ls) = \<lparr>hl_line = n, hl_code = t, hl_changed = True\<rparr> # new_side (n + 1) ls"
| "new_side n (Removed t # ls) = new_side n ls"

lemma head_lines_body:
  assumes "0 < n"
  shows "\<exists>m > 0. head_lines_from (map line_text ls @ rest) n = new_side n ls @ head_lines_from rest m"
  using assms
proof (induction ls arbitrary: n)
  case Nil
  then show ?case by auto
next
  case (Cons l ls)
  have no: "hunk_header (line_text l) = None" by (rule line_text_no_header)
  show ?case
  proof (cases l)
    case (Kept t)
    obtain m where "m > 0" "head_lines_from (map line_text ls @ rest) (n + 1) = new_side (n + 1) ls @ head_lines_from rest m"
      using Cons.IH [of "n + 1"] Cons.prems by auto
    with no Cons.prems Kept show ?thesis by (intro exI [of _ m]) simp
  next
    case (Removed t)
    obtain m where "m > 0" "head_lines_from (map line_text ls @ rest) n = new_side n ls @ head_lines_from rest m"
      using Cons.IH [of n] Cons.prems by auto
    with no Cons.prems Removed show ?thesis by (intro exI [of _ m]) simp
  next
    case (Added t)
    obtain m where "m > 0" "head_lines_from (map line_text ls @ rest) (n + 1) = new_side (n + 1) ls @ head_lines_from rest m"
      using Cons.IH [of "n + 1"] Cons.prems by auto
    with no Cons.prems Added show ?thesis by (intro exI [of _ m]) simp
  qed
qed

text \<open>A hunk that leaves nothing in the new file starts at line 0 there.\<close>

lemma head_lines_removed:
  assumes "list_all is_removed ls"
  shows "head_lines_from (map line_text ls @ rest) n = head_lines_from rest n" and "new_side n ls = []"
proof -
  show "head_lines_from (map line_text ls @ rest) n = head_lines_from rest n"
    using assms
  proof (induction ls)
    case (Cons l ls)
    then show ?case using line_text_no_header [of l] by (cases l) simp_all
  qed simp
  show "new_side n ls = []" using assms
  proof (induction ls)
    case (Cons l ls)
    then show ?case by (cases l) simp_all
  qed simp
qed

lemma head_lines_hunks:
  assumes "\<forall>k \<in> set ks. hk_new k = 0 \<longrightarrow> list_all is_removed (hk_lines k)"
  shows "head_lines_from (concat (map hunk_text ks)) n = concat (map (\<lambda>k. new_side (int (hk_new k)) (hk_lines k)) ks)"
  using assms
proof (induction ks arbitrary: n)
  case (Cons k ks)
  have header: "head_lines_from (header_text k # ls) n = head_lines_from ls (int (hk_new k))" for ls
    by (simp add: hunk_header_text)
  have parts: "concat (map hunk_text (k # ks)) = header_text k # map line_text (hk_lines k) @ concat (map hunk_text ks)"
    by (simp add: hunk_text_def)
  have rest: "head_lines_from (concat (map hunk_text ks)) m = concat (map (\<lambda>k. new_side (int (hk_new k)) (hk_lines k)) ks)" for m
    using Cons by simp
  show ?case
  proof (cases "hk_new k = 0")
    case True
    then have "list_all is_removed (hk_lines k)" using Cons.prems by simp
    then show ?thesis unfolding parts header by (simp add: head_lines_removed rest)
  next
    case False
    then obtain m where "head_lines_from (map line_text (hk_lines k) @ concat (map hunk_text ks)) (int (hk_new k)) =
        new_side (int (hk_new k)) (hk_lines k) @ head_lines_from (concat (map hunk_text ks)) m"
      using head_lines_body [of "int (hk_new k)"] by auto
    then show ?thesis unfolding parts header by (simp add: rest)
  qed
qed simp

text \<open>The model sees the new side of the diff and nothing else, at its true line numbers: for
every patch that is the text of some hunks whose lines hold no line break, the lines put into the
context are exactly the kept and the added lines of the hunks, numbered as in the head commit, with
the added ones marked as changed.\<close>

theorem context_lines_of_patch:
  assumes "\<forall>k \<in> set ks. \<forall>l \<in> set (hk_lines k). one_line (line_content l)"
    and "\<forall>k \<in> set ks. hk_new k = 0 \<longrightarrow> list_all is_removed (hk_lines k)"
  shows "head_lines (patch_text ks) = concat (map (\<lambda>k. new_side (int (hk_new k)) (hk_lines k)) ks)"
  unfolding head_lines_def splitlines_patch [OF assms(1)] by (rule head_lines_hunks [OF assms(2)])

theorem context_lines_of_patch_witness:
  "head_lines (patch_text small_patch) =
   [\<lparr>hl_line = 1, hl_code = ''a'', hl_changed = False\<rparr>, \<lparr>hl_line = 2, hl_code = ''c'', hl_changed = True\<rparr>,
    \<lparr>hl_line = 3, hl_code = ''d'', hl_changed = True\<rparr>]"
  using context_lines_of_patch [of small_patch]
  by (simp add: small_patch_def one_line_def line_break_def char_code_def)

text \<open>A form feed inside an added line splits it, and what follows is numbered one too high.\<close>

lemma form_feed_shifts_lines:
  "head_lines (''@@ -0,0 +1,2 @@'' @ [LF] @ ''+a'' @ [CHR 0x0C] @ '' b'' @ [LF] @ ''+c'' @ [LF]) =
   [\<lparr>hl_line = 1, hl_code = ''a'', hl_changed = True\<rparr>, \<lparr>hl_line = 2, hl_code = ''b'', hl_changed = False\<rparr>,
    \<lparr>hl_line = 3, hl_code = ''c'', hl_changed = True\<rparr>]"
  by code_simp

subsection \<open>The bounds of the context\<close>

definition admitted :: "nat \<Rightarrow> string list \<Rightarrow> json list \<Rightarrow> review_file \<Rightarrow> string \<Rightarrow> bool" where
  "admitted per_file ignored changes f path \<longleftrightarrow>
     (\<exists>patch. (\<exists>ch \<in> set changes. json_get ''filename'' ch = JStr path \<and> json_get ''patch'' ch = JStr patch) \<and>
        exclusion (JStr path) (JStr patch) ignored per_file = None \<and> wf_lines f = head_lines patch \<and>
        wf_lines f \<noteq> [] \<and> wire_size (review_file_json f) \<le> per_file)"

text \<open>The invariant of the loop over the changes.\<close>

definition prepared :: "nat \<Rightarrow> nat \<Rightarrow> string list \<Rightarrow> json \<Rightarrow> string option \<Rightarrow> json list \<Rightarrow> preparation \<Rightarrow> bool" where
  "prepared per_file max_bytes ignored findings mode changes st \<longleftrightarrow>
     length (pp_files st) \<le> 8 \<and>
     map fst (pp_anchors st) = map wf_id (pp_files st) \<and>
     map wf_id (pp_files st) = map (\<lambda>n. ''f'' @ digits (n + 1)) [0..<length (pp_files st)] \<and>
     list_all2 (\<lambda>f a. admitted per_file ignored changes f (fst (snd a)) \<and> set (snd (snd a)) = hl_line ` set (wf_lines f))
       (pp_files st) (pp_anchors st) \<and>
     (pp_files st \<noteq> [] \<longrightarrow> length (utf8 (payload_text (fresh_context (pp_files st) findings mode))) \<le> max_bytes)"

lemma exclude_file_prepared [simp]:
  "prepared pf mb ig fi mo chs (exclude_file p r st) = prepared pf mb ig fi mo chs st"
  by (simp add: prepared_def exclude_file_def)

lemma admit_file_prepared:
  assumes "prepared pf mb ig fi mo chs st" and "length (pp_files st) < 8"
    and "ch \<in> set chs" "json_get ''filename'' ch = JStr p" "json_get ''patch'' ch = JStr t"
    and "exclusion (JStr p) (JStr t) ig pf = None"
  shows "prepared pf mb ig fi mo chs (admit_file pf mb fi mo p t st)"
proof (cases "admit_file pf mb fi mo p t st = exclude_file (JStr p) ''NO_HEAD_LINES'' st \<or>
    admit_file pf mb fi mo p t st = exclude_file (JStr p) ''PATCH_TOO_LARGE'' st \<or>
    admit_file pf mb fi mo p t st = exclude_file (JStr p) ''INPUT_LIMIT'' st")
  case True
  then show ?thesis using assms(1) by auto
next
  case False
  let ?item = "file_item (length (pp_files st)) p (head_lines t)"
  have ok: "head_lines t \<noteq> []" "wire_size (review_file_json ?item) \<le> pf"
    "length (utf8 (payload_text (fresh_context (pp_files st @ [?item]) fi mo))) \<le> mb"
    using False by (auto simp: admit_file_def Let_def split: if_splits)
  then have st': "admit_file pf mb fi mo p t st =
    st\<lparr>pp_files := pp_files st @ [?item], pp_anchors := pp_anchors st @ [(wf_id ?item, p, remdups (map hl_line (head_lines t)))]\<rparr>"
    by (auto simp: admit_file_def Let_def)
  have "admitted pf ig chs ?item p"
    using assms(3-6) ok by (auto simp: admitted_def file_item_def)
  moreover have "wf_lines ?item = head_lines t" "wf_id ?item = ''f'' @ digits (length (pp_files st) + 1)"
    by (simp_all add: file_item_def)
  ultimately have "list_all2 (\<lambda>f a. admitted pf ig chs f (fst (snd a)) \<and> set (snd (snd a)) = hl_line ` set (wf_lines f))
      (pp_files st @ [?item]) (pp_anchors st @ [(wf_id ?item, p, remdups (map hl_line (head_lines t)))])"
    using assms(1) by (intro list_all2_appendI) (simp_all add: prepared_def)
  with assms(1,2) ok(3) show ?thesis
    by (simp add: st' prepared_def) (simp add: file_item_def)
qed

lemma prepare_change_prepared:
  assumes "prepared pf mb ig fi mo chs st" and "ch \<in> set chs"
  shows "prepared pf mb ig fi mo chs (prepare_change pf mb ig fi mo ch st)"
proof -
  let ?path = "json_get ''filename'' ch" and ?patch = "json_get ''patch'' ch"
  show ?thesis
  proof (cases "exclusion ?path ?patch ig pf \<noteq> None \<or> 8 \<le> length (pp_files st)")
    case True
    with assms show ?thesis by (simp add: prepare_change_def Let_def)
  next
    case False
    then obtain p t where pt: "?path = JStr p" "?patch = JStr t"
      by (auto simp: exclusion_def split: option.splits) (cases "?path"; cases "?patch"; simp)
    with False assms admit_file_prepared [OF assms(1) _ assms(2) pt] show ?thesis
      by (simp add: prepare_change_def Let_def)
  qed
qed

lemma prepare_fold_prepared:
  assumes "prepared pf mb ig fi mo chs st" and "set cs \<subseteq> set chs"
  shows "prepared pf mb ig fi mo chs (fold (prepare_change pf mb ig fi mo) cs st)"
  using assms by (induction cs arbitrary: st) (auto intro: prepare_change_prepared)

text \<open>A change that alone could be sent: it passes every exclusion and the bounds of size.\<close>

definition sendable :: "nat \<Rightarrow> nat \<Rightarrow> string list \<Rightarrow> json \<Rightarrow> string option \<Rightarrow> json \<Rightarrow> bool" where
  "sendable per_file max_bytes ignored findings mode ch \<longleftrightarrow>
     (\<exists>p t. json_get ''filename'' ch = JStr p \<and> json_get ''patch'' ch = JStr t \<and>
        exclusion (JStr p) (JStr t) ignored per_file = None \<and> head_lines t \<noteq> [] \<and>
        wire_size (review_file_json (file_item 0 p (head_lines t))) \<le> per_file \<and>
        length (utf8 (payload_text (fresh_context [file_item 0 p (head_lines t)] findings mode))) \<le> max_bytes)"

lemma exclusion_texts: "exclusion v w ig pf = None \<Longrightarrow> \<exists>p t. v = JStr p \<and> w = JStr t"
  by (cases v; cases w) (simp_all add: exclusion_def split: option.splits)

lemma prepare_change_files:
  "pp_files (prepare_change pf mb ig fi mo ch st) = [] \<longleftrightarrow> pp_files st = [] \<and> \<not> sendable pf mb ig fi mo ch"
proof (cases "exclusion (json_get ''filename'' ch) (json_get ''patch'' ch) ig pf")
  case None
  from exclusion_texts [OF this] obtain p t where "json_get ''filename'' ch = JStr p" "json_get ''patch'' ch = JStr t" by blast
  with None show ?thesis
    by (auto simp: prepare_change_def Let_def admit_file_def exclude_file_def sendable_def)
next
  case (Some e)
  then show ?thesis by (auto simp: prepare_change_def Let_def exclude_file_def sendable_def)
qed

lemma prepare_fold_files:
  "pp_files (fold (prepare_change pf mb ig fi mo) cs st) = [] \<longleftrightarrow>
   pp_files st = [] \<and> (\<forall>ch \<in> set cs. \<not> sendable pf mb ig fi mo ch)"
  by (induction cs arbitrary: st) (auto simp: prepare_change_files)

text \<open>C33. What is sent to the provider is bounded and safe: a prepared context has between one and
eight files, its text has at most the permitted number of UTF-8 bytes and no suspected secret; every
file in it is one of the first hundred changes whose path and patch pass every exclusion, shows
exactly the head-side lines of its patch within the bound per file, and is anchored at exactly those
lines. Otherwise preparation fails: with NO_SAFE_CONTEXT when none of the first hundred changes could
be sent even alone, and only then; with UNSAFE_CONTEXT when some could, but the text that was put
together from admitted files holds a suspected secret.\<close>

theorem prepared_context_bounded:
  assumes "mode_text mode0 = Inr mode"
  shows "case prepare_changes per_file max_bytes changes findings ignored total_files mode0 of
      Inl e \<Rightarrow>
        if \<exists>ch \<in> set (take 100 changes). sendable per_file max_bytes ignored findings mode ch
        then e = ValueError ''UNSAFE_CONTEXT'' \<and>
          (\<exists>fs. fs \<noteq> [] \<and> (\<forall>f \<in> set fs. \<exists>p. admitted per_file ignored (take 100 changes) f p) \<and>
             has_secret (payload_text (fresh_context fs findings mode)))
        else e = ValueError ''NO_SAFE_CONTEXT''
    | Inr b \<Rightarrow>
        cx_files (ib_context b) \<noteq> [] \<and> length (cx_files (ib_context b)) \<le> 8 \<and>
        length (utf8 (payload_text (ib_context b))) \<le> max_bytes \<and> \<not> has_secret (payload_text (ib_context b)) \<and>
        distinct (map wf_id (cx_files (ib_context b))) \<and>
        map fst (ib_anchors b) = map wf_id (cx_files (ib_context b)) \<and>
        list_all2 (\<lambda>f a. admitted per_file ignored (take 100 changes) f (fst (snd a)) \<and>
            set (snd (snd a)) = hl_line ` set (wf_lines f)) (cx_files (ib_context b)) (ib_anchors b)"
proof -
  let ?chs = "take 100 changes" and ?start = "\<lparr>pp_files = [], pp_anchors = [], pp_excluded = []\<rparr>"
  let ?st = "fold (prepare_change per_file max_bytes ignored findings mode) ?chs ?start"
  have inv: "prepared per_file max_bytes ignored findings mode ?chs ?st"
    by (rule prepare_fold_prepared) (simp_all add: prepared_def)
  have none: "pp_files ?st = [] \<longleftrightarrow> \<not> (\<exists>ch \<in> set ?chs. sendable per_file max_bytes ignored findings mode ch)"
    by (simp add: prepare_fold_files)
  have files: "\<forall>f \<in> set (pp_files ?st). \<exists>p. admitted per_file ignored ?chs f p"
    using inv unfolding prepared_def by (metis (no_types, lifting) in_set_conv_nth list_all2_conv_all_nth)
  have dist: "distinct (map (\<lambda>n. ''f'' @ digits (n + 1)) [0..<k])" for k
  proof -
    have "inj_on (\<lambda>n. ''f'' @ digits (n + 1)) (set [0..<k])"
      by (rule inj_onI) (metis Suc_eq_plus1 foldl_digits nat.inject same_append_eq)
    then show ?thesis by (simp add: distinct_map)
  qed
  show ?thesis
  proof (cases "pp_files ?st = [] \<or> has_secret (payload_text (fresh_context (pp_files ?st) findings mode)) \<or>
      max_bytes < length (utf8 (payload_text (fresh_context (pp_files ?st) findings mode)))")
    case True
    show ?thesis
    proof (cases "pp_files ?st = []")
      case empty: True
      then have "prepare_changes per_file max_bytes changes findings ignored total_files mode0 = Inl (ValueError ''NO_SAFE_CONTEXT'')"
        using assms by (simp add: prepare_changes_def Let_def)
      with empty none show ?thesis by simp
    next
      case False
      then have secret: "has_secret (payload_text (fresh_context (pp_files ?st) findings mode))"
        using True inv unfolding prepared_def by auto
      then have "prepare_changes per_file max_bytes changes findings ignored total_files mode0 = Inl (ValueError ''UNSAFE_CONTEXT'')"
        using assms False by (simp add: prepare_changes_def Let_def)
      with False none secret files show ?thesis by auto
    qed
  next
    case False
    then have "prepare_changes per_file max_bytes changes findings ignored total_files mode0 =
        Inr (bundle_of ?st findings mode total_files (length ?chs))"
      using assms by (simp add: prepare_changes_def Let_def)
    with False inv dist show ?thesis by (auto simp: bundle_of_def prepared_def fresh_context_def)
  qed
qed

definition small_change :: json where
  "small_change = JObj [(''filename'', JStr ''a.py''), (''patch'', JStr (''@@ -0,0 +1 @@'' @ [LF] @ ''+x = 1''))]"

definition small_file :: review_file where
  "small_file = \<lparr>wf_id = ''f1'', wf_language = ''py'', wf_role = None,
     wf_lines = [\<lparr>hl_line = 1, hl_code = ''x = 1'', hl_changed = True\<rparr>]\<rparr>"

definition small_bundle :: input_bundle where
  "small_bundle = \<lparr>ib_context = fresh_context [small_file] (JArr []) None, ib_anchors = [(''f1'', ''a.py'', [1])],
     ib_omitted = 0, ib_coverage =
       [(''files'', JArr [coverage_file (''f1'', ''a.py'', [1])]), (''excluded'', JArr []), (''unfetched_files'', JInt 0)]\<rparr>"

lemma small_prepared: "prepare_changes 300 300 [small_change] (JArr []) [] (Some 1) None = Inr small_bundle"
  by code_simp

theorem prepared_context_bounded_witness:
  "length (cx_files (ib_context small_bundle)) = 1 \<and> \<not> has_secret (payload_text (ib_context small_bundle))"
  using prepared_context_bounded [where per_file = 300 and max_bytes = 300 and changes = "[small_change]"
      and findings = "JArr []" and ignored = "[]" and total_files = "Some 1" and ?mode0.0 = None and mode = None]
  unfolding small_prepared by (simp add: mode_text_def small_bundle_def fresh_context_def)

subsection \<open>Accepted claims\<close>

definition supplied_sections :: "review_context \<Rightarrow> passage list" where
  "supplied_sections c = (case cx_standards c of None \<Rightarrow> [] | Some ps \<Rightarrow> ps)"

lemma section_of_id_supplied: "section_of_id c cid = Some p \<Longrightarrow> p \<in> set (supplied_sections c) \<and> ps_id p = cid"
  unfolding section_of_id_def supplied_sections_def by (auto dest!: find_SomeD)

text \<open>
  What supports an accepted claim: the supplied file it names, the lines it rests on, and in a
  review of team documents the supplied sections it cites.
\<close>

definition supported_by :: "input_bundle \<Rightarrow> review_item \<Rightarrow> bool" where
  "supported_by b x \<longleftrightarrow>
     (\<exists>fid ls f. anchor_of b fid = Some (it_file_path x, ls) \<and> file_of_id (ib_context b) fid = Some f \<and>
        it_line x \<in> set (it_evidence_lines x) \<and> distinct (it_evidence_lines x) \<and>
        set (it_evidence_lines x) \<subseteq> set ls \<and> set (it_evidence_lines x) \<inter> set (changed_of f) \<noteq> {} \<and>
        (cx_purpose (ib_context b) = Some ''STANDARDS'' \<longrightarrow>
           it_citations x \<noteq> [] \<and> distinct (map ps_id (it_citations x)) \<and>
           (\<forall>p \<in> set (it_citations x). p \<in> set (supplied_sections (ib_context b)) \<and> fid \<in> set (ps_file_ids p)))) \<and>
     (cx_purpose (ib_context b) \<noteq> Some ''STANDARDS'' \<longrightarrow> it_citations x = [])"

definition honest_basis :: "review_item \<Rightarrow> bool" where
  "honest_basis x \<longleftrightarrow>
     (it_basis x = SUPPORTED \<longleftrightarrow> it_assumptions x = []) \<and> (it_basis x = NEEDS_CONTEXT \<longrightarrow> it_severity x \<noteq> SEV_ERROR) \<and>
     strip_white (it_trigger x) \<noteq> [] \<and> strip_white (it_consequence x) \<noteq> []"

lemma first_error_None: "first_error es = None \<longleftrightarrow> set es \<subseteq> {None}"
  by (induction es rule: first_error.induct) auto

lemma validate_issue_Inr:
  assumes "validate_issue pt b i = Inr x"
  obtains path ls f where "anchor_of b (is_file_id i) = Some (path, ls)" "file_of_id (ib_context b) (is_file_id i) = Some f"
    "location_error (Some (path, ls)) i = None" "evidence_error ls (changed_of f) i = None"
    "citation_error (ib_context b) i = None" "quote_error (ib_context b) i = None"
    "x = item_of pt (ib_context b) path f i"
  using assms
  by (auto simp: validate_issue_def Let_def invalid_def first_error_None split: option.splits prod.splits)

lemma citations_of_cited:
  assumes "list_all (cites c i) cs" and "cs \<noteq> []"
  shows "concat (map (\<lambda>cid. case section_of_id c cid of None \<Rightarrow> [] | Some p \<Rightarrow> [p]) cs) \<noteq> []"
    and "\<forall>p \<in> set (concat (map (\<lambda>cid. case section_of_id c cid of None \<Rightarrow> [] | Some p \<Rightarrow> [p]) cs)).
      p \<in> set (supplied_sections c) \<and> is_file_id i \<in> set (ps_file_ids p)"
    and "map ps_id (concat (map (\<lambda>cid. case section_of_id c cid of None \<Rightarrow> [] | Some p \<Rightarrow> [p]) cs)) = cs"
proof -
  show "concat (map (\<lambda>cid. case section_of_id c cid of None \<Rightarrow> [] | Some p \<Rightarrow> [p]) cs) \<noteq> []"
    using assms by (cases cs) (auto simp: cites_def split: option.splits)
  show "\<forall>p \<in> set (concat (map (\<lambda>cid. case section_of_id c cid of None \<Rightarrow> [] | Some p \<Rightarrow> [p]) cs)).
      p \<in> set (supplied_sections c) \<and> is_file_id i \<in> set (ps_file_ids p)"
    using assms(1) by (fastforce simp: cites_def list_all_iff dest: section_of_id_supplied split: option.splits)
  show "map ps_id (concat (map (\<lambda>cid. case section_of_id c cid of None \<Rightarrow> [] | Some p \<Rightarrow> [p]) cs)) = cs"
    using assms(1) by (induction cs) (auto simp: cites_def dest: section_of_id_supplied split: option.splits)
qed

lemma validate_issue_supported:
  assumes "validate_issue pt b i = Inr x"
  shows "supported_by b x" and "honest_basis x"
proof -
  obtain path ls f where a: "anchor_of b (is_file_id i) = Some (path, ls)" "file_of_id (ib_context b) (is_file_id i) = Some f"
    and e: "location_error (Some (path, ls)) i = None" "evidence_error ls (changed_of f) i = None"
      "citation_error (ib_context b) i = None"
    and x: "x = item_of pt (ib_context b) path f i"
    using assms by (rule validate_issue_Inr)
  have fields: "it_file_path x = path" "it_evidence_lines x = is_evidence_lines i" "it_line x = is_line i"
    "it_basis x = is_basis i" "it_assumptions x = is_assumptions i" "it_severity x = is_severity i"
    "it_trigger x = is_trigger i" "it_consequence x = is_consequence i"
    "it_citations x = concat (map (\<lambda>cid. case section_of_id (ib_context b) cid of None \<Rightarrow> [] | Some p \<Rightarrow> [p]) (is_citations i))"
    by (simp_all add: x item_of_def Let_def split: prod.splits)
  have ev: "is_line i \<in> set (is_evidence_lines i)" "distinct (is_evidence_lines i)" "set (is_evidence_lines i) \<subseteq> set ls"
    "set (is_evidence_lines i) \<inter> set (changed_of f) \<noteq> {}" "is_basis i = SUPPORTED \<longleftrightarrow> is_assumptions i = []"
    "strip_white (is_trigger i) \<noteq> []" "strip_white (is_consequence i) \<noteq> []"
    using e(2) by (auto simp: evidence_error_def Let_def split: if_splits)
  have basis: "is_basis i = NEEDS_CONTEXT \<longrightarrow> is_severity i \<noteq> SEV_ERROR"
    using e(1) by (auto simp: location_error_def split: if_splits)
  show "honest_basis x" using ev basis by (simp add: honest_basis_def fields)
  have cit: "it_citations x \<noteq> [] \<and> distinct (map ps_id (it_citations x)) \<and>
      (\<forall>p \<in> set (it_citations x). p \<in> set (supplied_sections (ib_context b)) \<and> is_file_id i \<in> set (ps_file_ids p))"
    if "cx_purpose (ib_context b) = Some ''STANDARDS''"
    using e(3) that citations_of_cited unfolding fields citation_error_def by (simp split: if_splits)
  have "it_citations x = []" if "cx_purpose (ib_context b) \<noteq> Some ''STANDARDS''"
    using e(3) that unfolding fields citation_error_def by (simp split: if_splits)
  then show "supported_by b x"
    unfolding supported_by_def using a ev cit fields(1-3)
    by (intro conjI exI [of _ "is_file_id i"] exI [of _ ls] exI [of _ f]) auto
qed

lemma validate_issues_supported:
  "validate_issues pt b issues = Inr xs \<Longrightarrow> length xs = length issues \<and> (\<forall>x \<in> set xs. supported_by b x \<and> honest_basis x)"
  by (induction issues arbitrary: xs) (auto split: sum.splits dest: validate_issue_supported)

lemma validate_result_Inr:
  assumes "validate_result pt raw b = Inr r"
  obtains t x items where "strip_api_metadata (pt_loads pt) raw = Inr t" "pt_parse pt t = Inr x"
    "validate_issues pt b (ro_issues x) = Inr items" "r = result_of_items pt b (ro_limitations x) items"
    "length (utf8 raw) \<le> max_output" "\<not> has_secret raw"
  using assms
  by (auto simp: validate_result_def parse_output_def validate_output_def invalid_def split: if_splits sum.splits)

text \<open>C29. Every accepted claim is grounded in what was sent: whatever the model answers, each issue and
question of a validated result names a supplied file and rests on distinct lines supplied for it, one
of them the claim's own and one of them changed by the pull request; issues have no open assumption,
questions have one and are never errors; in a review of team documents each claim cites sections,
each of them once, that were supplied with the context and apply to its file, elsewhere it cites
none; and there are at most ten.\<close>

theorem accepted_claims_grounded:
  assumes "validate_result pt raw b = Inr r" and "\<forall>t x. pt_parse pt t = Inr x \<longrightarrow> output_fields_ok x"
  shows "(\<forall>x \<in> set (rx_issues r @ rx_questions r). supported_by b x \<and> honest_basis x) \<and>
    (\<forall>x \<in> set (rx_issues r). it_assumptions x = []) \<and>
    (\<forall>x \<in> set (rx_questions r). it_assumptions x \<noteq> [] \<and> it_severity x \<noteq> SEV_ERROR) \<and>
    length (rx_issues r) + length (rx_questions r) \<le> 10"
proof -
  obtain t x items where v: "pt_parse pt t = Inr x" "validate_issues pt b (ro_issues x) = Inr items"
    "r = result_of_items pt b (ro_limitations x) items"
    using validate_result_Inr [OF assms(1)] by metis
  have items: "length items = length (ro_issues x)" "\<forall>y \<in> set items. supported_by b y \<and> honest_basis y"
    using validate_issues_supported [OF v(2)] by auto
  have r: "rx_issues r = filter (\<lambda>x. it_basis x = SUPPORTED) items" "rx_questions r = filter (\<lambda>x. it_basis x \<noteq> SUPPORTED) items"
    by (simp_all add: v(3) result_of_items_def Let_def)
  have "length (ro_issues x) \<le> 10" using assms(2) v(1) by (auto simp: output_fields_ok_def length_in_def)
  then have "length (rx_issues r) + length (rx_questions r) \<le> 10"
    using items(1) sum_length_filter_compl [of "\<lambda>x. it_basis x = SUPPORTED" items] by (simp add: r)
  moreover have "y \<in> set (rx_issues r @ rx_questions r) \<Longrightarrow> y \<in> set items" for y by (auto simp: r)
  moreover have "it_assumptions y \<noteq> [] \<and> it_severity y \<noteq> SEV_ERROR" if "y \<in> set (rx_questions r)" for y
    using items(2) that by (cases "it_basis y") (auto simp: r honest_basis_def)
  moreover have "it_assumptions y = []" if "y \<in> set (rx_issues r)" for y
    using items(2) that by (auto simp: r honest_basis_def)
  ultimately show ?thesis using items(2) by blast
qed

definition small_issue :: issue where
  "small_issue = \<lparr>is_citations = [], is_file_id = ''f1'', is_line = 1, is_severity = SEV_WARNING, is_basis = SUPPORTED,
     is_evidence_lines = [1], is_trigger = ''t'', is_consequence = ''c'', is_assumptions = [], is_title = ''T'',
     is_evidence = ''e'', is_suggestion = ''s'', is_contract_quote = ''x  =  1'', is_repair = None\<rparr>"

definition small_output :: review_output where
  "small_output = \<lparr>ro_summary = ''s'', ro_issues = [small_issue], ro_limitations = ''l'', ro_requests = []\<rparr>"

definition small_tools :: policy_tools where
  "small_tools = \<lparr>pt_loads = (\<lambda>_. Inr (JObj [])), pt_parse = (\<lambda>_. Inr small_output), pt_write = (\<lambda>_. ''{}''),
     pt_expr = (\<lambda>_. None), pt_sha = (\<lambda>t. t), pt_withheld = ''w'', pt_summary = (\<lambda>_ _. ''s'')\<rparr>"

lemma small_validated:
  "\<exists>x. validate_issues small_tools small_bundle [small_issue] = Inr [x] \<and> it_basis x = SUPPORTED \<and> it_file_path x = ''a.py''"
proof -
  have "validate_issue small_tools small_bundle small_issue =
    Inr (item_of small_tools (ib_context small_bundle) ''a.py'' small_file small_issue)"
    by code_simp
  moreover have "is_basis small_issue = SUPPORTED" by (simp add: small_issue_def)
  ultimately show ?thesis by (simp add: item_of_def Let_def)
qed

lemma small_tools_simps [simp]:
  "pt_loads small_tools t = Inr (JObj [])" "pt_parse small_tools t = Inr small_output"
  "ro_issues small_output = [small_issue]"
  by (simp_all add: small_tools_def small_output_def)

lemma small_result: "\<exists>r x. validate_result small_tools ''{}'' small_bundle = Inr r \<and> rx_issues r = [x] \<and> it_file_path x = ''a.py''"
proof -
  have safe: "has_secret ''{}'' = False" "utf8 ''{}'' = ''{}''" by code_simp+
  obtain x where x: "validate_issues small_tools small_bundle [small_issue] = Inr [x]" "it_basis x = SUPPORTED" "it_file_path x = ''a.py''"
    using small_validated by blast
  have "validate_result small_tools ''{}'' small_bundle =
      Inr (result_of_items small_tools small_bundle (ro_limitations small_output) [x])"
    using safe x(1) by (simp add: validate_result_def max_output_def parse_output_def strip_api_metadata_def validate_output_def
        del: validate_issues.simps)
  with x show ?thesis by (simp add: result_of_items_def Let_def)
qed

theorem accepted_claims_grounded_witness:
  "\<exists>r x. validate_result small_tools ''{}'' small_bundle = Inr r \<and> rx_issues r = [x] \<and> supported_by small_bundle x"
proof -
  obtain r x where r: "validate_result small_tools ''{}'' small_bundle = Inr r" "rx_issues r = [x]" using small_result by blast
  have "\<forall>t x. pt_parse small_tools t = Inr x \<longrightarrow> output_fields_ok x"
    by (simp add: small_tools_def output_fields_ok_def small_output_def small_issue_def issue_fields_ok_def length_in_def)
  from accepted_claims_grounded [OF r(1) this] r show ?thesis by auto
qed

subsection \<open>Withheld suggestions\<close>








subsection \<open>The second reviewer\<close>

definition narrows :: "issue \<Rightarrow> issue \<Rightarrow> bool" where
  "narrows i j \<longleftrightarrow>
     is_file_id i = is_file_id j \<and> is_line i = is_line j \<and> (is_basis j = NEEDS_CONTEXT \<longrightarrow> is_basis i = NEEDS_CONTEXT)"

lemma decide_Inr:
  assumes "decide j d = Inr (x, t)"
  shows "(case x of None \<Rightarrow> t = ''dropped'' | Some i \<Rightarrow> t \<in> {''kept'', ''revised''} \<and> narrows i j)"
  using assms
  by (auto simp: decide_def invalid_def narrows_def split: decision_action.splits option.splits if_splits)

definition kept_issues :: "(issue option \<times> string) list \<Rightarrow> issue list" where
  "kept_issues xs = concat (map (\<lambda>x. case fst x of None \<Rightarrow> [] | Some i \<Rightarrow> [i]) xs)"

lemma decide_all_Inr:
  assumes "decide_all drafts ds = Inr xs" and "set (map de_index ds) \<subseteq> {..<length drafts}"
  shows "length xs = length ds"
    and "\<forall>i \<in> set (kept_issues xs). \<exists>j \<in> set drafts. narrows i j"
    and "count_text ''kept'' xs + count_text ''revised'' xs = length (kept_issues xs)"
    and "count_text ''dropped'' xs + length (kept_issues xs) = length ds"
  using assms
proof (induction ds arbitrary: xs)
  case Nil
  {
    case 1 then show ?case by simp
  next
    case 2 then show ?case by (simp add: kept_issues_def)
  next
    case 3 then show ?case by (simp add: kept_issues_def count_text_def)
  next
    case 4 then show ?case by (simp add: kept_issues_def count_text_def)
  }
next
  case (Cons d ds)
  have step: "\<exists>x t rest. xs = (x, t) # rest \<and> decide (drafts ! de_index d) d = Inr (x, t) \<and> decide_all drafts ds = Inr rest \<and>
      drafts ! de_index d \<in> set drafts \<and> set (map de_index ds) \<subseteq> {..<length drafts}"
    if "decide_all drafts (d # ds) = Inr xs" "set (map de_index (d # ds)) \<subseteq> {..<length drafts}" for xs
    using that by (auto split: sum.splits)
  {
    case 1 then show ?case using step Cons.IH(1) by fastforce
  next
    case 2
    then obtain x t rest where x: "xs = (x, t) # rest" "decide (drafts ! de_index d) d = Inr (x, t)"
      "decide_all drafts ds = Inr rest" "drafts ! de_index d \<in> set drafts" "set (map de_index ds) \<subseteq> {..<length drafts}"
      using step by blast
    with Cons.IH(2) [OF x(3,5)] decide_Inr [OF x(2)] show ?case
      by (auto simp: kept_issues_def split: option.splits)
  next
    case 3
    then obtain x t rest where x: "xs = (x, t) # rest" "decide (drafts ! de_index d) d = Inr (x, t)"
      "decide_all drafts ds = Inr rest" "set (map de_index ds) \<subseteq> {..<length drafts}"
      using step by blast
    with Cons.IH(3) [OF x(3,4)] decide_Inr [OF x(2)] show ?case
      by (auto simp: kept_issues_def count_text_def split: option.splits)
  next
    case 4
    then obtain x t rest where x: "xs = (x, t) # rest" "decide (drafts ! de_index d) d = Inr (x, t)"
      "decide_all drafts ds = Inr rest" "set (map de_index ds) \<subseteq> {..<length drafts}"
      using step by blast
    with Cons.IH(4) [OF x(3,4)] decide_Inr [OF x(2)] show ?case
      by (auto simp: kept_issues_def count_text_def split: option.splits)
  }
qed

lemma add_new_parts: "\<exists>more. add_new accepted new = accepted @ more \<and> set more \<subseteq> set new"
proof (induction new arbitrary: accepted)
  case (Cons i new)
  obtain m where "add_new accepted new = accepted @ m" "set m \<subseteq> set new" using Cons by blast
  moreover obtain m' where "add_new (accepted @ [i]) new = (accepted @ [i]) @ m'" "set m' \<subseteq> set new" using Cons by blast
  ultimately show ?case by auto
qed simp

text \<open>C36. The second reviewer cannot strengthen the draft: it decides every issue of the draft exactly
once; each accepted issue either stays at the file and line of a draft issue, without promoting an
uncertain one, or is a new finding (validated like any other); no request for more context survives,
at most ten issues remain, and the reported counts add up.\<close>

theorem second_review_narrows:
  assumes "apply_decisions notice v draft = Inr (out, m)"
  shows "(\<forall>i \<in> set (ro_issues out). (\<exists>j \<in> set (ro_issues draft). narrows i j) \<or> i \<in> set (ve_new v)) \<and>
    mset (map de_index (ve_decisions v)) = mset [0..<length (ro_issues draft)] \<and>
    vm_kept m + vm_revised m + vm_dropped m = length (ro_issues draft) \<and>
    length (ro_issues out) = vm_kept m + vm_revised m + vm_added m \<and>
    length (ro_issues out) \<le> 10 \<and> ro_requests out = []"
proof -
  define ds where "ds = sort_key de_index (ve_decisions v)"
  from assms obtain xs where complete: "length (ve_decisions v) = length (ro_issues draft)"
      "set (map de_index (ve_decisions v)) = set [0..<length (ro_issues draft)]"
    and xs: "decide_all (ro_issues draft) ds = Inr xs"
    and out: "out = draft\<lparr>ro_issues := add_new (kept_issues xs) (ve_new v), ro_requests := [], ro_limitations := notice\<rparr>"
    and m: "m = \<lparr>vm_kept = count_text ''kept'' xs, vm_revised = count_text ''revised'' xs, vm_dropped = count_text ''dropped'' xs,
      vm_added = length (add_new (kept_issues xs) (ve_new v)) - length (kept_issues xs)\<rparr>"
    and le: "length (add_new (kept_issues xs) (ve_new v)) \<le> 10"
    by (auto simp: apply_decisions_def Let_def invalid_def ds_def kept_issues_def split: if_splits sum.splits)
  have "set (map de_index ds) \<subseteq> {..<length (ro_issues draft)}" using complete(2) by (auto simp: ds_def)
  note d = decide_all_Inr [OF xs this]
  have "length ds = length (ro_issues draft)" by (simp add: ds_def complete(1))
  moreover obtain more where more: "add_new (kept_issues xs) (ve_new v) = kept_issues xs @ more" "set more \<subseteq> set (ve_new v)"
    using add_new_parts by blast
  moreover have "mset (map de_index (ve_decisions v)) = mset [0..<length (ro_issues draft)]"
  proof -
    have "distinct (map de_index (ve_decisions v))"
      by (rule card_distinct) (simp only: complete(2), simp add: complete(1))
    then show ?thesis using complete(2) set_eq_iff_mset_eq_distinct distinct_upt by blast
  qed
  ultimately show ?thesis using d le unfolding out m by auto
qed

definition small_decision :: decision where
  "small_decision = \<lparr>de_index = 0, de_action = KEEP, de_reason = CONFIRMED, de_revised = None, de_consequence = Some ''c''\<rparr>"

theorem second_review_narrows_witness:
  "\<exists>out m. apply_decisions ''n'' \<lparr>ve_decisions = [small_decision], ve_new = [], ve_checks = []\<rparr> small_output = Inr (out, m) \<and>
     vm_kept m + vm_revised m + vm_dropped m = 1 \<and> ro_requests out = []"
proof -
  have "\<not> blank (Some ''c'')" by code_simp
  then have "\<exists>r. apply_decisions ''n'' \<lparr>ve_decisions = [small_decision], ve_new = [], ve_checks = []\<rparr> small_output = Inr r"
    by (simp add: apply_decisions_def small_decision_def decide_def Let_def)
  then obtain out m where "apply_decisions ''n'' \<lparr>ve_decisions = [small_decision], ve_new = [], ve_checks = []\<rparr> small_output = Inr (out, m)"
    by (metis surj_pair)
  with second_review_narrows [OF this] show ?thesis by auto
qed

text \<open>
  The flag that JSON mode echoes is dropped before the first parse of a verification, and not before
  the second one: a strict parser, which refuses the unknown key, refuses the whole verified review.
\<close>

lemma echoed_flag_fails_verification:
  assumes "parse_verification raw = Inl (ValueError e)"
  shows "verified_result pt parse_verification ground notice raw draft b \<noteq> Inr r"
  using assms by (auto simp: verified_result_def proceed_Inr)

end
