(* ===== verification/Reviews.thy ===== *)
theory Reviews
  imports Review_Validation
begin

section \<open>Review runs\<close>

text \<open>
  \<^verbatim>\<open>app/domain/review\<close> around the policy: the tables (\<^verbatim>\<open>models.py\<close>), requesting, reading and
  cancelling a review (\<^verbatim>\<open>service.py\<close>), the transactions of its worker (\<^verbatim>\<open>worker.py\<close>: the start, the
  reservation of each call to the provider, the completion) and the feedback on findings
  (\<^verbatim>\<open>feedback.py\<close>). SHA-256 and the version of the prompt are parameters.
\<close>

subsection \<open>Tables\<close>

record review_run =
  rv_id :: uuid
  rv_created_at :: datetime
  rv_purpose :: string
  rv_mode :: review_mode
  rv_standard_versions :: "uuid list"
  rv_workspace_id :: uuid
  rv_analysis_id :: uuid
  rv_pr_id :: uuid
  rv_repository_id :: uuid
  rv_connection_generation :: int
  rv_requested_by :: uuid
  rv_head_sha :: string
  rv_model :: string
  rv_prompt_version :: string
  rv_policy_version :: string
  rv_generation :: int
  rv_execution_key :: string
  rv_status :: run_status
  rv_consented_at :: datetime
  rv_started_at :: "datetime option"
  rv_finished_at :: "datetime option"
  rv_call_attempts :: int
  rv_input_tokens :: int
  rv_output_tokens :: int
  rv_usage_uncertain :: bool
  rv_error_code :: "string option"
  rv_result :: "review_result option"

record review_feedback =
  fb_id :: uuid
  fb_updated_at :: datetime
  fb_workspace_id :: uuid
  fb_review_id :: uuid
  fb_user_id :: uuid
  fb_issue_key :: string
  fb_state :: string
  fb_note :: string

record review_tables = standard_tables +
  reviews :: "review_run list"
  feedbacks :: "review_feedback list"

definition review_purposes :: "string list" where
  "review_purposes = [''CODE'', ''SECURITY'', ''STANDARDS'']"

definition feedback_states :: "string list" where
  "feedback_states = [''OPEN'', ''ACKNOWLEDGED'', ''PLANNED'', ''INTENDED'', ''FALSE_POSITIVE'']"

definition review_row_ok :: "review_run \<Rightarrow> bool" where
  "review_row_ok r \<longleftrightarrow>
     (rv_status r \<in> set terminal_runs) = (rv_finished_at r \<noteq> None) \<and>
     0 \<le> rv_generation r \<and> 0 < rv_connection_generation r \<and> 0 \<le> rv_input_tokens r \<and> 0 \<le> rv_output_tokens r \<and>
     0 \<le> rv_call_attempts r \<and> rv_call_attempts r \<le> 2 \<and>
     is_hex 40 (rv_head_sha r) \<and> is_hex 64 (rv_execution_key r) \<and>
     (rv_status r = COMPLETED \<longrightarrow> rv_result r \<noteq> None) \<and> rv_purpose r \<in> set review_purposes"

definition reviews_ok :: "review_run list \<Rightarrow> bool" where
  "reviews_ok rs \<longleftrightarrow>
     distinct (map rv_id rs) \<and> distinct (map rv_execution_key rs) \<and> list_all review_row_ok rs"

definition feedbacks_ok :: "review_feedback list \<Rightarrow> bool" where
  "feedbacks_ok fs \<longleftrightarrow>
     distinct (map fb_id fs) \<and> distinct (map (\<lambda>f. (fb_review_id f, fb_user_id f, fb_issue_key f)) fs) \<and>
     list_all (\<lambda>f. fb_state f \<in> set feedback_states \<and> is_hex 64 (fb_issue_key f)) fs"

definition review_schema :: "'a review_tables_scheme \<Rightarrow> bool" where
  "review_schema s \<longleftrightarrow> standard_schema s \<and> reviews_ok (reviews s) \<and> feedbacks_ok (feedbacks s)"

interpretation review_store: row_store reviews reviews_update rv_id
  by unfold_locales simp_all

interpretation feedback_store: row_store feedbacks feedbacks_update fb_id
  by unfold_locales simp_all

subsection \<open>Access\<close>

definition review_error :: "string \<Rightarrow> exn" where
  "review_error c = AppException c CONFLICT"

definition review_row :: "uuid \<Rightarrow> uuid \<Rightarrow> ('a review_tables_scheme, review_run) txn" where
  "review_row wid rid =
     bind (select_first reviews (\<lambda>r. rv_workspace_id r = wid \<and> rv_id r = rid)) (\<lambda>found.
     case found of
       None \<Rightarrow> raise (AppException ''REVIEW_NOT_FOUND'' NOT_FOUND)
     | Some r \<Rightarrow> ret r)"

definition authorize_review ::
  "uuid \<Rightarrow> uuid \<Rightarrow> uuid \<Rightarrow> bool \<Rightarrow> ('a review_tables_scheme, review_run) txn" where
  "authorize_review uid wid rid execute =
     bind (require_permission uid wid (if execute then ''owner'' else ''read'')) (\<lambda>_.
     bind (review_row wid rid) (\<lambda>r.
     bind (repo_require uid wid (rv_repository_id r) ''read'' execute) (\<lambda>repo.
     bind (check (\<not> (execute \<and> rs_generation repo \<noteq> rv_connection_generation r)) (review_error ''ACCESS_REVOKED'')) (\<lambda>_.
     bind (if execute \<and> rv_purpose r = ''STANDARDS''
           then bind (standards_snapshot wid (rv_repository_id r) (Some (rv_standard_versions r))) (\<lambda>_. ret ())
           else ret ()) (\<lambda>_.
     ret r)))))"

subsection \<open>Requesting a review\<close>

record review_settings =
  rg_enabled :: bool
  rg_model :: string
  rg_daily_limit :: nat
  rg_prompt :: string

text \<open>What identifies an execution, besides its generation.\<close>

definition same_review :: "review_settings \<Rightarrow> uuid \<Rightarrow> uuid \<Rightarrow> string \<Rightarrow> review_mode \<Rightarrow> review_run \<Rightarrow> bool" where
  "same_review g wid aid purpose mode r \<longleftrightarrow>
     rv_purpose r = purpose \<and> rv_mode r = mode \<and> rv_workspace_id r = wid \<and> rv_analysis_id r = aid \<and>
     rv_model r = rg_model g \<and> rv_prompt_version r = rg_prompt g \<and> rv_policy_version r = review_policy"

definition review_generation ::
  "review_settings \<Rightarrow> uuid \<Rightarrow> uuid \<Rightarrow> string \<Rightarrow> review_mode \<Rightarrow> uuid option \<Rightarrow> ('a review_tables_scheme, int) txn" where
  "review_generation g wid aid purpose mode rerun =
     (case rerun of
        None \<Rightarrow> ret 0
      | Some rid \<Rightarrow>
          bind (review_row wid rid) (\<lambda>previous.
          bind (check (rv_analysis_id previous = aid \<and> rv_purpose previous = purpose \<and> rv_status previous \<in> set terminal_runs)
                 (review_error ''INVALID_RERUN'')) (\<lambda>_.
          gets (\<lambda>s. (let gs = map rv_generation (filter (same_review g wid aid purpose mode) (reviews s))
                     in if gs = [] then 0 else Max (set gs)) + 1))))"

fun mode_name :: "review_mode \<Rightarrow> string" where
  "mode_name JUNIOR = ''JUNIOR''"
| "mode_name SENIOR = ''SENIOR''"

definition review_key_text ::
  "review_settings \<Rightarrow> uuid \<Rightarrow> uuid \<Rightarrow> int \<Rightarrow> int \<Rightarrow> string \<Rightarrow> review_mode \<Rightarrow> uuid list \<Rightarrow> string" where
  "review_key_text g wid aid connection generation purpose mode versions =
     join_with CHR '':''
       [uuid_text wid, uuid_text aid, int_text connection, rg_model g, rg_prompt g, review_policy,
        int_text generation, purpose, mode_name mode, join_with CHR '','' (map uuid_text versions)]"

definition day_start :: "datetime \<Rightarrow> datetime" where
  "day_start now = now - now mod days 1"

definition review_open :: "review_run \<Rightarrow> bool" where
  "review_open r \<longleftrightarrow> rv_status r = PENDING \<or> rv_status r = RUNNING"

definition used_since :: "uuid \<Rightarrow> datetime \<Rightarrow> review_run list \<Rightarrow> nat" where
  "used_since wid t rs = length (filter (\<lambda>r. rv_workspace_id r = wid \<and> t \<le> rv_created_at r) rs)"

definition new_review ::
  "review_settings \<Rightarrow> datetime \<Rightarrow> datetime \<Rightarrow> uuid \<Rightarrow> uuid \<Rightarrow> uuid \<Rightarrow> uuid \<Rightarrow> string \<Rightarrow> review_mode \<Rightarrow> uuid list \<Rightarrow>
   review_snapshot \<Rightarrow> int \<Rightarrow> string \<Rightarrow> review_run" where
  "new_review g db_now now rid uid wid aid purpose mode versions snap generation key =
     \<lparr>rv_id = rid, rv_created_at = db_now, rv_purpose = purpose, rv_mode = mode, rv_standard_versions = versions,
      rv_workspace_id = wid, rv_analysis_id = aid, rv_pr_id = vs_pr_id snap, rv_repository_id = vs_repository_id snap,
      rv_connection_generation = vs_generation snap, rv_requested_by = uid, rv_head_sha = vs_head_sha snap,
      rv_model = rg_model g, rv_prompt_version = rg_prompt g, rv_policy_version = review_policy,
      rv_generation = generation, rv_execution_key = key, rv_status = PENDING, rv_consented_at = now,
      rv_started_at = None, rv_finished_at = None, rv_call_attempts = 0, rv_input_tokens = 0, rv_output_tokens = 0,
      rv_usage_uncertain = False, rv_error_code = None, rv_result = None\<rparr>"

text \<open>The last part of \<open>start\<close>: a run with this key, a run in progress, the daily limit, or a new run.\<close>

definition request_review ::
  "(string \<Rightarrow> string) \<Rightarrow> review_settings \<Rightarrow> datetime \<Rightarrow> datetime \<Rightarrow> uuid \<Rightarrow> uuid \<Rightarrow> uuid \<Rightarrow> uuid \<Rightarrow> uuid \<Rightarrow> string \<Rightarrow>
   review_mode \<Rightarrow> uuid list \<Rightarrow> review_snapshot \<Rightarrow> int \<Rightarrow> ('a review_tables_scheme, review_run) txn" where
  "request_review sha g db_now now rid jid uid wid aid purpose mode versions snap generation =
     (let key = sha (utf8 (review_key_text g wid aid (vs_generation snap) generation purpose mode versions));
          row = new_review g db_now now rid uid wid aid purpose mode versions snap generation key
      in bind (select_first reviews (\<lambda>r. rv_execution_key r = key)) (\<lambda>existing.
         case existing of
           Some r \<Rightarrow> ret r
         | None \<Rightarrow>
             bind (select_first reviews (\<lambda>r. rv_workspace_id r = wid \<and> review_open r)) (\<lambda>active.
             bind (check (active = None) (review_error ''REVIEW_IN_PROGRESS'')) (\<lambda>_.
             bind (gets (\<lambda>s. used_since wid (day_start now) (reviews s))) (\<lambda>used.
             bind (check (used < rg_daily_limit g) (review_error ''AI_DAILY_LIMIT'')) (\<lambda>_.
             bind (add_row reviews_update row) (\<lambda>_.
             bind (flush review_schema) (\<lambda>_.
             bind (enqueue_job sha db_now jid EXPLAIN_FINDINGS rid (Some wid)) (\<lambda>_.
             ret row)))))))))"

definition start_review ::
  "(string \<Rightarrow> string) \<Rightarrow> review_settings \<Rightarrow> datetime \<Rightarrow> datetime \<Rightarrow> uuid \<Rightarrow> uuid \<Rightarrow> uuid \<Rightarrow> uuid \<Rightarrow> uuid \<Rightarrow> bool \<Rightarrow>
   uuid option \<Rightarrow> string \<Rightarrow> ('a review_tables_scheme, review_run) txn" where
  "start_review sha g db_now now rid jid uid wid aid consent rerun purpose =
     bind (check (purpose \<in> set review_purposes) (AppException ''INVALID_REVIEW_PURPOSE'' INVALID_INPUT)) (\<lambda>_.
     bind (check (rg_enabled g) (AppException ''AI_DISABLED'' UNAVAILABLE)) (\<lambda>_.
     bind (check consent (AppException ''AI_CONSENT_REQUIRED'' INVALID_INPUT)) (\<lambda>_.
     bind (require_permission uid wid ''owner'') (\<lambda>_.
     bind (review_snapshot_of uid wid aid) (\<lambda>snap.
     bind (get_active uid) (\<lambda>user.
     bind (if purpose = ''STANDARDS''
           then bind (standards_snapshot wid (vs_repository_id snap) None) (\<lambda>ds. ret (map ss_id ds))
           else ret []) (\<lambda>versions.
     bind (review_generation g wid aid purpose (us_review_mode user) rerun) (\<lambda>generation.
     request_review sha g db_now now rid jid uid wid aid purpose (us_review_mode user) versions snap generation))))))))"

subsection \<open>Reading and cancelling\<close>

definition review_history ::
  "uuid \<Rightarrow> uuid \<Rightarrow> uuid \<Rightarrow> string \<Rightarrow> ('a review_tables_scheme, review_run list) txn" where
  "review_history uid wid aid purpose =
     bind (analysis_access uid wid aid False) (\<lambda>_.
     gets (\<lambda>s. take 50 (rev (sort_key (\<lambda>r. (rv_created_at r, rv_id r))
       (filter (\<lambda>r. rv_workspace_id r = wid \<and> rv_analysis_id r = aid \<and> rv_purpose r = purpose) (reviews s))))))"

definition get_review :: "uuid \<Rightarrow> uuid \<Rightarrow> uuid \<Rightarrow> ('a review_tables_scheme, review_run) txn" where
  "get_review uid wid rid = authorize_review uid wid rid False"

definition canceled_review :: "datetime \<Rightarrow> review_run \<Rightarrow> review_run" where
  "canceled_review now r =
     r\<lparr>rv_status := RUN_CANCELED, rv_finished_at := Some now, rv_error_code := Some ''USER_CANCELED'',
       rv_usage_uncertain := 0 < rv_call_attempts r\<rparr>"

definition cancel_review ::
  "datetime \<Rightarrow> uuid \<Rightarrow> uuid \<Rightarrow> uuid \<Rightarrow> ('a review_tables_scheme, review_run) txn" where
  "cancel_review now uid wid rid =
     bind (authorize_review uid wid rid True) (\<lambda>r.
     if rv_status r \<in> set terminal_runs then ret r
     else
       bind (select_first jobs (\<lambda>j. job_kind j = EXPLAIN_FINDINGS \<and> job_aggregate_id j = rid)) (\<lambda>found.
       case found of
         None \<Rightarrow> raise AssertionError
       | Some j \<Rightarrow>
           bind (save_row jobs_update job_id (cancel_review_job now j)) (\<lambda>_.
           bind (save_row reviews_update rv_id (canceled_review now r)) (\<lambda>_.
           ret (canceled_review now r)))))"

subsection \<open>Feedback\<close>

definition result_items :: "review_run \<Rightarrow> review_item list" where
  "result_items r = (case rv_result r of None \<Rightarrow> [] | Some x \<Rightarrow> rx_issues x @ rx_questions x)"

definition key_of_item :: "(string \<Rightarrow> string) \<Rightarrow> review_item \<Rightarrow> string" where
  "key_of_item sha x = issue_key sha (it_file_path x) (it_title x)"

definition list_feedback ::
  "uuid \<Rightarrow> uuid \<Rightarrow> uuid \<Rightarrow> ('a review_tables_scheme, review_feedback list) txn" where
  "list_feedback uid wid rid =
     bind (authorize_review uid wid rid False) (\<lambda>_.
     select_all feedbacks (\<lambda>f. fb_workspace_id f = wid \<and> fb_review_id f = rid \<and> fb_user_id f = uid))"

definition save_feedback ::
  "(string \<Rightarrow> string) \<Rightarrow> datetime \<Rightarrow> uuid \<Rightarrow> uuid \<Rightarrow> uuid \<Rightarrow> uuid \<Rightarrow> string \<Rightarrow> string \<Rightarrow> string \<Rightarrow>
   ('a review_tables_scheme, review_feedback) txn" where
  "save_feedback sha db_now fid uid wid rid key state note =
     bind (check (\<not> (has_secret note \<or> 500 < length note \<or> state \<notin> set feedback_states))
            (AppException ''INVALID_FEEDBACK'' INVALID_INPUT)) (\<lambda>_.
     bind (authorize_review uid wid rid False) (\<lambda>r.
     bind (check (rv_status r = COMPLETED \<and> key \<in> set (map (key_of_item sha) (result_items r)))
            (AppException ''FINDING_NOT_FOUND'' NOT_FOUND)) (\<lambda>_.
     bind (select_first feedbacks (\<lambda>f. fb_workspace_id f = wid \<and> fb_review_id f = rid \<and> fb_user_id f = uid \<and> fb_issue_key f = key)) (\<lambda>found.
     (let row = (case found of
            None \<Rightarrow> \<lparr>fb_id = fid, fb_updated_at = db_now, fb_workspace_id = wid, fb_review_id = rid, fb_user_id = uid,
                     fb_issue_key = key, fb_state = state, fb_note = strip_white note\<rparr>
          | Some f \<Rightarrow>
              if fb_state f = state \<and> fb_note f = strip_white note then f
              else f\<lparr>fb_state := state, fb_note := strip_white note, fb_updated_at := db_now\<rparr>)
      in bind (if found = None then add_row feedbacks_update row else save_row feedbacks_update fb_id row) (\<lambda>_.
         bind (flush review_schema) (\<lambda>_. ret row)))))))"

text \<open>The five latest decisions of the user on other reviews of the pull request; \<open>row.purpose or "CODE"\<close>.\<close>

definition prior_records ::
  "review_run \<Rightarrow> review_feedback list \<Rightarrow> review_run list \<Rightarrow> (review_feedback \<times> review_run) list" where
  "prior_records r fs rs =
     take 5 (rev (sort_key (\<lambda>(f, _). fb_updated_at f)
       (concat (map (\<lambda>f. map (Pair f) (filter (\<lambda>q. rv_id q = fb_review_id f \<and> rv_pr_id q = rv_pr_id r \<and>
            rv_purpose q = (if rv_purpose r = [] then ''CODE'' else rv_purpose r) \<and> rv_id q \<noteq> rv_id r) rs))
          (filter (\<lambda>f. fb_workspace_id f = rv_workspace_id r \<and> fb_user_id f = rv_requested_by r \<and> fb_state f \<noteq> ''OPEN'') fs)))))"

definition prior_feedback ::
  "(string \<Rightarrow> string) \<Rightarrow> review_run \<Rightarrow> ('a review_tables_scheme, (string \<times> string \<times> string) list) txn" where
  "prior_feedback sha r =
     gets (\<lambda>s. concat (map (\<lambda>(f, q).
       case find (\<lambda>x. key_of_item sha x = fb_issue_key f) (result_items q) of
         None \<Rightarrow> []
       | Some x \<Rightarrow> [(it_title x, fb_state f, fb_note f)]) (prior_records r (feedbacks s) (reviews s))))"

subsection \<open>The transactions of the worker\<close>

record review_task =
  rk_purpose :: string
  rk_mode :: review_mode
  rk_snapshot :: review_snapshot
  rk_repo :: repository_snapshot
  rk_number :: int
  rk_ignored :: "string list"
  rk_feedback :: "(string \<times> string \<times> string) list"
  rk_standards :: "standard_snapshot list"

definition prepare_review ::
  "(string \<Rightarrow> string) \<Rightarrow> review_settings \<Rightarrow> datetime \<Rightarrow> review_run \<Rightarrow> ('a review_tables_scheme, review_task) txn" where
  "prepare_review sha g now' r =
     bind (authorize_review (rv_requested_by r) (rv_workspace_id r) (rv_id r) True) (\<lambda>_.
     bind (check (rv_call_attempts r = 0 \<and> rv_model r = rg_model g \<and> rv_policy_version r = review_policy \<and>
                  rv_prompt_version r = rg_prompt g) (review_error ''REVIEW_REPLAY_BLOCKED'')) (\<lambda>_.
     bind (review_snapshot_of (rv_requested_by r) (rv_workspace_id r) (rv_analysis_id r)) (\<lambda>snap.
     bind (repo_require (rv_requested_by r) (rv_workspace_id r) (vs_repository_id snap) ''read'' True) (\<lambda>repo.
     bind (analysis_config (rv_requested_by r) (rv_workspace_id r) (rs_repo_id repo) (Some (vs_config_id snap))) (\<lambda>(_, _, ignored).
     bind (analysis_snapshot (rv_requested_by r) (rv_workspace_id r) (vs_pr_id snap)) (\<lambda>pr.
     bind (prior_feedback sha r) (\<lambda>feedback.
     bind (if rv_purpose r = ''STANDARDS''
           then standards_snapshot (rv_workspace_id r) (vs_repository_id snap) (Some (rv_standard_versions r))
           else ret []) (\<lambda>standards.
     bind (save_row reviews_update rv_id (r\<lparr>rv_status := RUNNING, rv_started_at := Some now'\<rparr>)) (\<lambda>_.
     ret \<lparr>rk_purpose = rv_purpose r, rk_mode = rv_mode r, rk_snapshot = snap, rk_repo = repo, rk_number = pv_number pr,
          rk_ignored = ignored, rk_feedback = feedback, rk_standards = standards\<rparr>)))))))))"

definition begin_review ::
  "(string \<Rightarrow> string) \<Rightarrow> review_settings \<Rightarrow> datetime \<Rightarrow> datetime \<Rightarrow> claim \<Rightarrow> ('a review_tables_scheme, review_task option) txn" where
  "begin_review sha g now now' c =
     (case claim_workspace_id c of
        None \<Rightarrow> raise AssertionError
      | Some wid \<Rightarrow>
          bind (lock_system wid) (\<lambda>_.
          bind (review_row wid (claim_aggregate_id c)) (\<lambda>r.
          if rv_status r \<in> set terminal_runs then ret None
          else
            bind (fence now c False) (\<lambda>job.
            if job = None then ret None else bind (prepare_review sha g now' r) (\<lambda>task. ret (Some task))))))"

definition still_authorized :: "datetime \<Rightarrow> claim \<Rightarrow> ('a review_tables_scheme, bool) txn" where
  "still_authorized now c =
     (case claim_workspace_id c of
        None \<Rightarrow> raise AssertionError
      | Some wid \<Rightarrow>
          bind (lock_system wid) (\<lambda>_.
          bind (review_row wid (claim_aggregate_id c)) (\<lambda>r.
          if rv_status r \<noteq> RUNNING then ret False
          else
            bind (fence now c False) (\<lambda>job.
            if job = None then ret False
            else bind (authorize_review (rv_requested_by r) (rv_workspace_id r) (rv_id r) True) (\<lambda>_. ret True)))))"

definition count_tokens :: "int \<Rightarrow> int \<Rightarrow> review_run \<Rightarrow> review_run" where
  "count_tokens incoming outgoing r =
     r\<lparr>rv_input_tokens := max (max (rv_input_tokens r) incoming) 0,
       rv_output_tokens := max (max (rv_output_tokens r) outgoing) 0\<rparr>"

definition reserved :: "int \<Rightarrow> review_run \<Rightarrow> review_run" where
  "reserved expected r = r\<lparr>rv_call_attempts := expected + 1, rv_usage_uncertain := True\<rparr>"

text \<open>
  The token counts are part of the transaction, so they are written whether the call is granted or
  not; an exception of the authorization takes them back.
\<close>

definition reserve_call ::
  "datetime \<Rightarrow> claim \<Rightarrow> int \<Rightarrow> int \<Rightarrow> int \<Rightarrow> ('a review_tables_scheme, bool) txn" where
  "reserve_call now c expected incoming outgoing =
     (case claim_workspace_id c of
        None \<Rightarrow> raise AssertionError
      | Some wid \<Rightarrow>
          bind (lock_system wid) (\<lambda>_.
          bind (review_row wid (claim_aggregate_id c)) (\<lambda>r0.
          (let r = count_tokens incoming outgoing r0 in
           bind (save_row reviews_update rv_id r) (\<lambda>_.
           if rv_status r \<noteq> RUNNING \<or> rv_call_attempts r \<noteq> expected then ret False
           else
             bind (fence now c False) (\<lambda>job.
             if job = None then ret False
             else
               bind (authorize_review (rv_requested_by r) (rv_workspace_id r) (rv_id r) True) (\<lambda>_.
               bind (save_row reviews_update rv_id (reserved expected r)) (\<lambda>_.
               ret True))))))))"

record review_clock =
  rc_fence :: datetime
  rc_finish :: datetime
  rc_closed :: datetime

definition closed_review :: "datetime \<Rightarrow> string option \<Rightarrow> review_result option \<Rightarrow> review_run \<Rightarrow> review_run" where
  "closed_review now code result r =
     r\<lparr>rv_status := (if truthy code then FAILED else COMPLETED), rv_error_code := code, rv_finished_at := Some now,
       rv_result := result, rv_usage_uncertain := (truthy code \<and> rv_call_attempts r \<noteq> 0)\<rparr>"

definition revoked_review ::
  "exn + review_run \<Rightarrow> review_result option \<times> string option \<Rightarrow> review_result option \<times> string option" where
  "revoked_review access x = (case access of Inl _ \<Rightarrow> (None, Some ''ACCESS_REVOKED'') | Inr _ \<Rightarrow> x)"

definition complete_review ::
  "review_clock \<Rightarrow> claim \<Rightarrow> review_result option \<Rightarrow> string option \<Rightarrow> bool \<Rightarrow> int \<Rightarrow> int \<Rightarrow>
   ('a review_tables_scheme, unit) txn" where
  "complete_review ck c result0 code0 expired incoming outgoing =
     (case claim_workspace_id c of
        None \<Rightarrow> raise AssertionError
      | Some wid \<Rightarrow>
          bind (lock_system wid) (\<lambda>_.
          bind (review_row wid (claim_aggregate_id c)) (\<lambda>r0.
          (let r = count_tokens incoming outgoing r0 in
           bind (save_row reviews_update rv_id r) (\<lambda>_.
           if rv_status r \<in> set terminal_runs then ret ()
           else
             bind (attempt_app (authorize_review (rv_requested_by r) (rv_workspace_id r) (rv_id r) True)) (\<lambda>access.
             (case revoked_review access (result0, code0) of (result, code) \<Rightarrow>
                bind (fence (rc_fence ck) c expired) (\<lambda>fenced.
                case fenced of
                  None \<Rightarrow> ret ()
                | Some j \<Rightarrow>
                    bind (finish_job (rc_finish ck) code False 5 j) (\<lambda>_.
                    save_row reviews_update rv_id (closed_review (rc_closed ck) code result r))))))))))"

end
