(* ===== verification/Review_Results.thy ===== *)
theory Review_Results
  imports Reviews Standards_Results
begin

section \<open>What the operations on reviews do\<close>

text \<open>
  The operations inverted: what a successful call read, what it checked and what it wrote. The guard
  \<open>authorize\<close> is a read-only step that establishes who may do what at this moment.
\<close>

subsection \<open>Access\<close>

text \<open>The requester and the connection when a review may run, and the documents pinned to it.\<close>

definition documents_active :: "review_run \<Rightarrow> 'a review_tables_scheme \<Rightarrow> bool" where
  "documents_active r s \<longleftrightarrow>
     (\<exists>ds. standards_snapshot (rv_workspace_id r) (rv_repository_id r) (Some (rv_standard_versions r)) s = Inr (ds, s))"

definition may_review :: "uuid \<Rightarrow> uuid \<Rightarrow> uuid \<Rightarrow> bool \<Rightarrow> review_run \<Rightarrow> 'a review_tables_scheme \<Rightarrow> bool" where
  "may_review uid wid rid execute r s \<longleftrightarrow>
     r \<in> set (reviews s) \<and> rv_id r = rid \<and> rv_workspace_id r = wid \<and>
     (\<exists>m. authorized uid wid (if execute then ''owner'' else ''read'') m s) \<and>
     (\<exists>q. repo_authorized uid wid (rv_repository_id r) ''read'' execute q s \<and>
        (execute \<longrightarrow> rc_generation q = rv_connection_generation r)) \<and>
     (execute \<and> rv_purpose r = ''STANDARDS'' \<longrightarrow> documents_active r s)"

lemma review_row_reads:
  "review_row wid rid s = Inr (r, s') \<Longrightarrow>
   s' = s \<and> r \<in> set (reviews s) \<and> rv_id r = rid \<and> rv_workspace_id r = wid"
  unfolding review_row_def by (auto simp: bind_Inr split: option.splits elim!: select_first_Inr_cases)

lemma standards_snapshot_reads: "standards_snapshot wid repo ids s = Inr (ds, s') \<Longrightarrow> s' = s"
  by (simp add: standards_snapshot_Inr Let_def)

lemma authorize_review_reads:
  assumes "authorize_review uid wid rid execute s = Inr (r, s')"
  shows "s' = s \<and> may_review uid wid rid execute r s"
proof -
  from assms obtain u s1 q s2 repo s3 s4 v where
    perm: "require_permission uid wid (if execute then ''owner'' else ''read'') s = Inr (u, s1)"
    and row: "review_row wid rid s1 = Inr (q, s2)"
    and repo: "repo_require uid wid (rv_repository_id q) ''read'' execute s2 = Inr (repo, s3)"
    and gen: "check (\<not> (execute \<and> rs_generation repo \<noteq> rv_connection_generation q)) (review_error ''ACCESS_REVOKED'') s3 = Inr ((), s4)"
    and docs: "(if execute \<and> rv_purpose q = ''STANDARDS''
       then bind (standards_snapshot wid (rv_repository_id q) (Some (rv_standard_versions q))) (\<lambda>_. ret ())
       else ret ()) s4 = Inr (v, s')" and "r = q"
    unfolding authorize_review_def by (auto elim!: bindE)
  with require_permission_reads [OF perm] review_row_reads [OF row] repo_require_reads [OF repo]
  show ?thesis
    by (auto simp: may_review_def documents_active_def repo_snapshot_def bind_Inr split: if_splits
        dest: standards_snapshot_reads)
qed

interpretation review_guard: reader "authorize_review uid wid rid execute" "may_review uid wid rid execute"
  using authorize_review_reads by unfold_locales

lemma attempt_review_reads: "attempt_app (authorize_review uid wid rid execute) s = Inr (x, s') \<Longrightarrow> s' = s"
  by (auto simp: attempt_app_Inr dest: authorize_review_reads)

subsection \<open>Requesting\<close>

lemma review_snapshot_of_reads: "review_snapshot_of uid wid aid s = Inr (x, s') \<Longrightarrow> s' = s"
  unfolding review_snapshot_of_def
  by (auto simp: bind_Inr split: option.splits if_splits dest!: analysis_access_reads)

lemma review_generation_reads: "review_generation g wid aid purpose mode rerun s = Inr (x, s') \<Longrightarrow> s' = s"
  unfolding review_generation_def by (auto simp: bind_Inr split: option.splits dest!: review_row_reads)

text \<open>A request returns a run that exists, or adds a run with its job.\<close>

lemma request_review_Inr:
  assumes "request_review sha g db_now now rid jid uid wid aid purpose mode versions snap generation s = Inr (r, s')"
  obtains (existing) "s' = s" "r \<in> set (reviews s)"
      "rv_execution_key r = sha (utf8 (review_key_text g wid aid (vs_generation snap) generation purpose mode versions))"
  | (fresh) "\<forall>q \<in> set (reviews s). \<not> (rv_workspace_id q = wid \<and> review_open q)"
      "used_since wid (day_start now) (reviews s) < rg_daily_limit g"
      "r = new_review g db_now now rid uid wid aid purpose mode versions snap generation
             (sha (utf8 (review_key_text g wid aid (vs_generation snap) generation purpose mode versions)))"
      "s' = jobs_update (\<lambda>js. js @ [new_job sha db_now jid EXPLAIN_FINDINGS rid (Some wid)])
             (reviews_update (\<lambda>rs. rs @ [r]) s)"
proof -
  define key where "key = sha (utf8 (review_key_text g wid aid (vs_generation snap) generation purpose mode versions))"
  define row where "row = new_review g db_now now rid uid wid aid purpose mode versions snap generation key"
  from assms obtain found s1 where f: "select_first reviews (\<lambda>r. rv_execution_key r = key) s = Inr (found, s1)"
    and rest: "(case found of
           Some r \<Rightarrow> ret r
         | None \<Rightarrow>
             bind (select_first reviews (\<lambda>r. rv_workspace_id r = wid \<and> review_open r)) (\<lambda>active.
             bind (check (active = None) (review_error ''REVIEW_IN_PROGRESS'')) (\<lambda>_.
             bind (gets (\<lambda>s. used_since wid (day_start now) (reviews s))) (\<lambda>used.
             bind (check (used < rg_daily_limit g) (review_error ''AI_DAILY_LIMIT'')) (\<lambda>_.
             bind (add_row reviews_update row) (\<lambda>_.
             bind (flush review_schema) (\<lambda>_.
             bind (enqueue_job sha db_now jid EXPLAIN_FINDINGS rid (Some wid)) (\<lambda>_.
             ret row)))))))) s1 = Inr (r, s')"
    unfolding request_review_def key_def row_def Let_def by (rule bindE)
  from f show ?thesis
  proof (cases rule: select_first_Inr_cases)
    case None
    with rest obtain active where active: "select_first reviews (\<lambda>r. rv_workspace_id r = wid \<and> review_open r) s = Inr (active, s)"
      and "active = None" and "used_since wid (day_start now) (reviews s) < rg_daily_limit g" and "r = row"
      "s' = jobs_update (\<lambda>js. js @ [new_job sha db_now jid EXPLAIN_FINDINGS rid (Some wid)])
             (reviews_update (\<lambda>rs. rs @ [r]) s)"
      by (auto simp: bind_Inr enqueue_job_def elim: select_first_Inr_cases)
    then show ?thesis unfolding row_def key_def by (intro fresh) (auto elim: select_first_Inr_cases)
  next
    case (Some q)
    with rest show ?thesis by (intro existing) (auto simp: key_def)
  qed
qed

lemma start_review_Inr:
  assumes "start_review sha g db_now now rid jid uid wid aid consent rerun purpose s = Inr (r, s')"
  obtains mode versions snap generation where
    "request_review sha g db_now now rid jid uid wid aid purpose mode versions snap generation s = Inr (r, s')"
    "consent" "rg_enabled g" "\<exists>m. authorized uid wid ''owner'' m s"
proof -
  from assms obtain c0 s0 c1 s1 c2 s2 u s3 snap s4 user s5 versions s6 generation s7 where
    "check (purpose \<in> set review_purposes) (AppException ''INVALID_REVIEW_PURPOSE'' INVALID_INPUT) s = Inr (c0, s0)"
    "check (rg_enabled g) (AppException ''AI_DISABLED'' UNAVAILABLE) s0 = Inr (c1, s1)"
    "check consent (AppException ''AI_CONSENT_REQUIRED'' INVALID_INPUT) s1 = Inr (c2, s2)"
    "require_permission uid wid ''owner'' s2 = Inr (u, s3)"
    "review_snapshot_of uid wid aid s3 = Inr (snap, s4)"
    "get_active uid s4 = Inr (user, s5)"
    and docs: "(if purpose = ''STANDARDS''
           then bind (standards_snapshot wid (vs_repository_id snap) None) (\<lambda>ds. ret (map ss_id ds))
           else ret []) s5 = Inr (versions, s6)"
    and "review_generation g wid aid purpose (us_review_mode user) rerun s6 = Inr (generation, s7)"
    and rest: "request_review sha g db_now now rid jid uid wid aid purpose (us_review_mode user) versions snap generation s7 = Inr (r, s')"
    unfolding start_review_def by (elim bindE) (rule, assumption+)
  have "s6 = s5" using docs by (auto simp: bind_Inr split: if_splits dest: standards_snapshot_reads)
  then have "s7 = s" "consent" "rg_enabled g" "\<exists>m. authorized uid wid ''owner'' m s"
    using \<open>check _ _ s = _\<close> \<open>check _ _ s0 = _\<close> \<open>check _ _ s1 = _\<close> \<open>require_permission _ _ _ _ = _\<close>
      \<open>review_snapshot_of _ _ _ _ = _\<close> \<open>get_active _ _ = _\<close> \<open>review_generation _ _ _ _ _ _ _ = _\<close>
    by (auto dest!: require_permission_reads review_snapshot_of_reads review_generation_reads user_read.reads)
  with rest that show ?thesis by simp
qed

subsection \<open>Cancelling\<close>

lemma cancel_review_Inr:
  assumes "cancel_review now uid wid rid s = Inr (r, s')"
  obtains (closed) "s' = s" "r \<in> set (reviews s)" "rv_id r = rid" "rv_status r \<in> set terminal_runs"
  | (canceled) q j where "q \<in> set (reviews s)" "rv_id q = rid" "rv_status q \<notin> set terminal_runs"
      "j \<in> set (jobs s)" "carries EXPLAIN_FINDINGS rid j" "r = canceled_review now q"
      "s' = reviews_update (put_row rv_id (canceled_review now q)) (jobs_update (put_row job_id (cancel_review_job now j)) s)"
proof -
  from assms obtain q s1 where "authorize_review uid wid rid True s = Inr (q, s1)"
    and rest: "(if rv_status q \<in> set terminal_runs then ret q
     else
       bind (select_first jobs (\<lambda>j. job_kind j = EXPLAIN_FINDINGS \<and> job_aggregate_id j = rid)) (\<lambda>found.
       case found of
         None \<Rightarrow> raise AssertionError
       | Some j \<Rightarrow>
           bind (save_row jobs_update job_id (cancel_review_job now j)) (\<lambda>_.
           bind (save_row reviews_update rv_id (canceled_review now q)) (\<lambda>_.
           ret (canceled_review now q))))) s1 = Inr (r, s')"
    unfolding cancel_review_def by (rule bindE)
  then have run: "s1 = s" "q \<in> set (reviews s)" "rv_id q = rid"
    by (auto dest!: authorize_review_reads simp: may_review_def)
  with rest show ?thesis
    using closed canceled [of q] by (auto simp: bind_Inr carries_def split: if_splits elim!: select_first_Inr_cases)
qed

subsection \<open>The transactions of the worker\<close>

lemma prior_feedback_reads: "prior_feedback sha r s = Inr (x, s') \<Longrightarrow> s' = s"
  by (auto simp: prior_feedback_def)

lemma prepare_review_Inr:
  assumes "prepare_review sha g now' r s = Inr (task, s')"
  shows "s' = reviews_update (put_row rv_id (r\<lparr>rv_status := RUNNING, rv_started_at := Some now'\<rparr>)) s \<and>
    rv_call_attempts r = 0 \<and> rk_purpose task = rv_purpose r \<and>
    (\<exists>q. may_review (rv_requested_by r) (rv_workspace_id r) (rv_id r) True q s)"
proof -
  from assms obtain q s1 s2 snap s3 repo s4 config s5 pr s6 feedback s7 standards s8 where
    access: "authorize_review (rv_requested_by r) (rv_workspace_id r) (rv_id r) True s = Inr (q, s1)"
    and replay: "check (rv_call_attempts r = 0 \<and> rv_model r = rg_model g \<and> rv_policy_version r = review_policy \<and>
                  rv_prompt_version r = rg_prompt g) (review_error ''REVIEW_REPLAY_BLOCKED'') s1 = Inr ((), s2)"
    and reads: "review_snapshot_of (rv_requested_by r) (rv_workspace_id r) (rv_analysis_id r) s2 = Inr (snap, s3)"
      "repo_require (rv_requested_by r) (rv_workspace_id r) (vs_repository_id snap) ''read'' True s3 = Inr (repo, s4)"
      "analysis_config (rv_requested_by r) (rv_workspace_id r) (rs_repo_id repo) (Some (vs_config_id snap)) s4 = Inr (config, s5)"
      "analysis_snapshot (rv_requested_by r) (rv_workspace_id r) (vs_pr_id snap) s5 = Inr (pr, s6)"
      "prior_feedback sha r s6 = Inr (feedback, s7)"
    and docs: "(if rv_purpose r = ''STANDARDS''
           then standards_snapshot (rv_workspace_id r) (vs_repository_id snap) (Some (rv_standard_versions r))
           else ret []) s7 = Inr (standards, s8)"
    and rest: "s' = reviews_update (put_row rv_id (r\<lparr>rv_status := RUNNING, rv_started_at := Some now'\<rparr>)) s8"
      "rk_purpose task = rv_purpose r"
    unfolding prepare_review_def by (elim bindE) (auto elim!: bindE)
  have "s8 = s7" using docs by (auto split: if_splits dest: standards_snapshot_reads)
  with access replay reads have "s8 = s" "rv_call_attempts r = 0"
    "may_review (rv_requested_by r) (rv_workspace_id r) (rv_id r) True q s"
    by (auto dest!: authorize_review_reads review_snapshot_of_reads repo_require_reads analysis_config_reads
        analysis_snapshot_reads prior_feedback_reads)
  with rest show ?thesis by auto
qed

lemma begin_review_Inr:
  assumes "begin_review sha g now now' c s = Inr (x, s')"
  obtains (idle) "s' = s" "x = None"
  | (started) r j task where "r \<in> set (reviews s)" "rv_id r = claim_aggregate_id c" "rv_status r \<notin> set terminal_runs"
      "j \<in> set (jobs s)" "job_id j = claim_id c" "holds_lease c j" "x = Some task"
      "prepare_review sha g now' r s = Inr (task, s')"
proof -
  from assms obtain wid b s1 r s2 where "claim_workspace_id c = Some wid" "lock_system wid s = Inr (b, s1)"
    "review_row wid (claim_aggregate_id c) s1 = Inr (r, s2)"
    and rest: "(if rv_status r \<in> set terminal_runs then ret None
          else
            bind (fence now c False) (\<lambda>job.
            if job = None then ret None else bind (prepare_review sha g now' r) (\<lambda>task. ret (Some task)))) s2 = Inr (x, s')"
    unfolding begin_review_def by (auto elim!: bindE split: option.splits)
  then have run: "s2 = s" "r \<in> set (reviews s)" "rv_id r = claim_aggregate_id c"
    by (auto dest!: lock_system_reads review_row_reads)
  show ?thesis
  proof (cases "rv_status r \<in> set terminal_runs")
    case True
    with rest run idle show ?thesis by simp
  next
    case False
    with rest run obtain job s3 where fenced: "fence now c False s = Inr (job, s3)"
      and rest: "(if job = None then ret None else bind (prepare_review sha g now' r) (\<lambda>task. ret (Some task))) s3 = Inr (x, s')"
      by (auto simp: bind_Inr)
    from fenced show ?thesis
    proof (cases rule: fence_Inr)
      case 1
      with rest idle show ?thesis by simp
    next
      case (2 j)
      with rest started [OF run(2,3) False] show ?thesis by (auto simp: bind_Inr)
    qed
  qed
qed

lemma still_authorized_reads: "still_authorized now c s = Inr (x, s') \<Longrightarrow> s' = s"
  unfolding still_authorized_def
  by (auto simp: bind_Inr split: option.splits if_splits
      dest!: lock_system_reads review_row_reads fence_reads authorize_review_reads)

lemma save_then: "bind (save_row upd key r) f s = f () (upd (put_row key r) s)"
  by (simp add: bind_def save_row_def modify_def)

text \<open>A reservation counts the tokens in any case, and the call when everything allows it.\<close>

lemma reserve_call_Inr:
  assumes "reserve_call now c expected incoming outgoing s = Inr (granted, s')"
  obtains (refused) r where "\<not> granted" "r \<in> set (reviews s)" "rv_id r = claim_aggregate_id c"
      "s' = reviews_update (put_row rv_id (count_tokens incoming outgoing r)) s"
  | (granted) r j q where "granted" "r \<in> set (reviews s)" "rv_id r = claim_aggregate_id c"
      "rv_status r = RUNNING" "rv_call_attempts r = expected"
      "j \<in> set (jobs s)" "job_id j = claim_id c" "holds_lease c j" "now < the (job_lease_until j)"
      "may_review (rv_requested_by r) (rv_workspace_id r) (rv_id r) True q
         (reviews_update (put_row rv_id (count_tokens incoming outgoing r)) s)"
      "s' = reviews_update (put_row rv_id (reserved expected (count_tokens incoming outgoing r))) s"
proof -
  from assms obtain wid b s1 r s2 where "claim_workspace_id c = Some wid" "lock_system wid s = Inr (b, s1)"
    "review_row wid (claim_aggregate_id c) s1 = Inr (r, s2)"
    and rest: "(let r = count_tokens incoming outgoing r in
           bind (save_row reviews_update rv_id r) (\<lambda>_.
           if rv_status r \<noteq> RUNNING \<or> rv_call_attempts r \<noteq> expected then ret False
           else
             bind (fence now c False) (\<lambda>job.
             if job = None then ret False
             else
               bind (authorize_review (rv_requested_by r) (rv_workspace_id r) (rv_id r) True) (\<lambda>_.
               bind (save_row reviews_update rv_id (reserved expected r)) (\<lambda>_.
               ret True))))) s2 = Inr (granted, s')"
    unfolding reserve_call_def by (auto elim!: bindE split: option.splits)
  then have run: "s2 = s" "r \<in> set (reviews s)" "rv_id r = claim_aggregate_id c"
    by (auto dest!: lock_system_reads review_row_reads)
  define r1 where "r1 = count_tokens incoming outgoing r"
  define t where "t = reviews_update (put_row rv_id r1) s"
  have r1: "rv_status r1 = rv_status r" "rv_call_attempts r1 = rv_call_attempts r" "rv_id r1 = rv_id r"
    "rv_requested_by r1 = rv_requested_by r" "rv_workspace_id r1 = rv_workspace_id r" "jobs t = jobs s"
    by (simp_all add: r1_def count_tokens_def t_def)
  have rest: "(if rv_status r \<noteq> RUNNING \<or> rv_call_attempts r \<noteq> expected then ret False
           else
             bind (fence now c False) (\<lambda>job.
             if job = None then ret False
             else
               bind (authorize_review (rv_requested_by r1) (rv_workspace_id r1) (rv_id r1) True) (\<lambda>_.
               bind (save_row reviews_update rv_id (reserved expected r1)) (\<lambda>_.
               ret True)))) t = Inr (granted, s')"
    using rest [unfolded Let_def run(1) save_then [where r = "count_tokens incoming outgoing r" and s = s], folded r1_def, folded t_def, unfolded r1(1,2)] .
  show ?thesis
  proof (cases "rv_status r \<noteq> RUNNING \<or> rv_call_attempts r \<noteq> expected")
    case True
    with rest have "s' = t" "\<not> granted" by (simp_all split: if_splits)
    then show ?thesis using run refused [of r] by (simp add: t_def r1_def)
  next
    case False
    with rest obtain job s3 where fenced: "fence now c False t = Inr (job, s3)"
      and rest: "(if job = None then ret False
             else
               bind (authorize_review (rv_requested_by r1) (rv_workspace_id r1) (rv_id r1) True) (\<lambda>_.
               bind (save_row reviews_update rv_id (reserved expected r1)) (\<lambda>_.
               ret True))) s3 = Inr (granted, s')"
      by (auto elim: bindE)
    from fenced show ?thesis
    proof (cases rule: fence_Inr)
      case 1
      with rest have "s' = t" "\<not> granted" by simp_all
      then show ?thesis using run refused [of r] by (simp add: t_def r1_def)
    next
      case (2 j)
      with rest obtain q s4 where access: "authorize_review (rv_requested_by r1) (rv_workspace_id r1) (rv_id r1) True t = Inr (q, s4)"
        and rest: "granted" "s' = reviews_update (put_row rv_id (reserved expected r1)) s4"
        by (auto simp: bind_Inr)
      have "s4 = t" "may_review (rv_requested_by r) (rv_workspace_id r) (rv_id r) True q t"
        using authorize_review_reads [OF access] by (auto simp: r1)
      moreover have "s' = reviews_update (put_row rv_id (reserved expected r1)) s"
        using rest(2) \<open>s4 = t\<close> by (simp add: t_def put_row_twice reserved_def comp_def)
      moreover have "now < the (job_lease_until j)" using 2(6) by auto
      ultimately show ?thesis
        using granted [of r j q] rest(1) run(2,3) False 2(3-5) by (simp add: r1 t_def r1_def)
    qed
  qed
qed

lemma complete_review_Inr:
  assumes "complete_review ck c result0 code0 expired incoming outgoing s = Inr (u, s')"
  obtains (idle) r where "r \<in> set (reviews s)" "rv_id r = claim_aggregate_id c"
      "s' = reviews_update (put_row rv_id (count_tokens incoming outgoing r)) s"
      "rv_status r \<in> set terminal_runs \<or>
       fence (rc_fence ck) c expired s' = Inr (None, s')"
  | (closed) r j j' code result where "r \<in> set (reviews s)" "rv_id r = claim_aggregate_id c"
      "rv_status r \<notin> set terminal_runs" "j \<in> set (jobs s)" "job_id j = claim_id c" "holds_lease c j"
      "(the (job_lease_until j) \<le> rc_fence ck) = expired" "finish (rc_finish ck) code False 5 j = Inr j'"
      "(result, code) = (result0, code0) \<or> (result, code) = (None, Some ''ACCESS_REVOKED'')"
      "s' = reviews_update (put_row rv_id (closed_review (rc_closed ck) code result (count_tokens incoming outgoing r)))
              (jobs_update (put_row job_id j') s)"
proof -
  from assms obtain wid b s1 r s2 where "claim_workspace_id c = Some wid" "lock_system wid s = Inr (b, s1)"
    "review_row wid (claim_aggregate_id c) s1 = Inr (r, s2)"
    and rest: "(let r = count_tokens incoming outgoing r in
           bind (save_row reviews_update rv_id r) (\<lambda>_.
           if rv_status r \<in> set terminal_runs then ret ()
           else
             bind (attempt_app (authorize_review (rv_requested_by r) (rv_workspace_id r) (rv_id r) True)) (\<lambda>access.
             (case revoked_review access (result0, code0) of (result, code) \<Rightarrow>
                bind (fence (rc_fence ck) c expired) (\<lambda>fenced.
                case fenced of
                  None \<Rightarrow> ret ()
                | Some j \<Rightarrow>
                    bind (finish_job (rc_finish ck) code False 5 j) (\<lambda>_.
                    save_row reviews_update rv_id (closed_review (rc_closed ck) code result r))))))) s2 = Inr (u, s')"
    unfolding complete_review_def by (auto elim!: bindE split: option.splits)
  then have run: "s2 = s" "r \<in> set (reviews s)" "rv_id r = claim_aggregate_id c"
    by (auto dest!: lock_system_reads review_row_reads)
  define r1 where "r1 = count_tokens incoming outgoing r"
  define t where "t = reviews_update (put_row rv_id r1) s"
  have r1: "rv_status r1 = rv_status r" "rv_id r1 = rv_id r" "jobs t = jobs s"
    by (simp_all add: r1_def count_tokens_def t_def)
  have rest: "(if rv_status r \<in> set terminal_runs then ret ()
           else
             bind (attempt_app (authorize_review (rv_requested_by r1) (rv_workspace_id r1) (rv_id r) True)) (\<lambda>access.
             (case revoked_review access (result0, code0) of (result, code) \<Rightarrow>
                bind (fence (rc_fence ck) c expired) (\<lambda>fenced.
                case fenced of
                  None \<Rightarrow> ret ()
                | Some j \<Rightarrow>
                    bind (finish_job (rc_finish ck) code False 5 j) (\<lambda>_.
                    save_row reviews_update rv_id (closed_review (rc_closed ck) code result r1)))))) t = Inr (u, s')"
    using rest [unfolded Let_def run(1) save_then [where r = "count_tokens incoming outgoing r" and s = s], folded r1_def, folded t_def, unfolded r1(1,2)] .
  show ?thesis
  proof (cases "rv_status r \<in> set terminal_runs")
    case True
    with rest run idle [of r] show ?thesis by (simp add: t_def r1_def)
  next
    case False
    with rest obtain access s3 result code fenced s4 where
      access: "attempt_app (authorize_review (rv_requested_by r1) (rv_workspace_id r1) (rv_id r) True) t = Inr (access, s3)"
      and out: "revoked_review access (result0, code0) = (result, code)"
      and fenced: "fence (rc_fence ck) c expired s3 = Inr (fenced, s4)"
      and rest: "(case fenced of
                  None \<Rightarrow> ret ()
                | Some j \<Rightarrow>
                    bind (finish_job (rc_finish ck) code False 5 j) (\<lambda>_.
                    save_row reviews_update rv_id (closed_review (rc_closed ck) code result r1))) s4 = Inr (u, s')"
      by (auto elim!: bindE split: prod.splits)
    have s3: "s3 = t" by (rule attempt_review_reads [OF access])
    have out: "(result, code) = (result0, code0) \<or> (result, code) = (None, Some ''ACCESS_REVOKED'')"
      using out by (auto simp: revoked_review_def split: sum.splits)
    from fenced show ?thesis unfolding s3
    proof (cases rule: fence_Inr)
      case 1
      with rest fenced s3 run idle [of r] show ?thesis by (simp add: t_def r1_def)
    next
      case (2 j)
      with rest obtain j' where "finish (rc_finish ck) code False 5 j = Inr j'"
        "s' = reviews_update (put_row rv_id (closed_review (rc_closed ck) code result r1)) (jobs_update (put_row job_id j') t)"
        by (auto simp: bind_Inr finish_job_Inr)
      then show ?thesis
        using closed [of r j code j' result] run(2,3) False 2 out
        by (simp add: t_def r1 put_row_twice closed_review_def comp_def flip: r1_def)
    qed
  qed
qed

subsection \<open>Feedback\<close>

lemma save_feedback_keeps:
  assumes "save_feedback sha db_now fid uid wid rid key state note s = Inr (f, s')"
  shows "reviews s' = reviews s \<and> jobs s' = jobs s"
proof -
  from assms obtain s0 r s1 s2 found s3 where
    "check (\<not> (has_secret note \<or> 500 < length note \<or> state \<notin> set feedback_states)) (AppException ''INVALID_FEEDBACK'' INVALID_INPUT) s = Inr ((), s0)"
    "authorize_review uid wid rid False s0 = Inr (r, s1)"
    "check (rv_status r = COMPLETED \<and> key \<in> set (map (key_of_item sha) (result_items r))) (AppException ''FINDING_NOT_FOUND'' NOT_FOUND) s1 = Inr ((), s2)"
    "select_first feedbacks (\<lambda>f. fb_workspace_id f = wid \<and> fb_review_id f = rid \<and> fb_user_id f = uid \<and> fb_issue_key f = key) s2 = Inr (found, s3)"
    and "reviews s' = reviews s3 \<and> jobs s' = jobs s3"
    unfolding save_feedback_def by (elim bindE) (auto simp: bind_Inr Let_def split: if_splits)
  then show ?thesis by (auto dest!: authorize_review_reads elim!: select_first_Inr_cases)
qed

end
