(* ===== verification/Review_System.thy ===== *)
theory Review_System
  imports Review_Results
begin

section \<open>The reviews as a transition system\<close>

text \<open>
  The committed transactions on reviews as steps, and what every reachable state keeps: reviews move with
  their jobs, a workspace has at most one open review, the daily limit holds, the calls of the provider
  are counted, and a review that has ended stays as it is.
\<close>

definition review_phase :: "review_run \<Rightarrow> phase" where
  "review_phase r = run_phase (rv_status r)"

interpretation review_tracking: tracked_runs EXPLAIN_FINDINGS rv_id review_phase reviews_ok
  by unfold_locales (simp add: reviews_ok_def)

definition one_open_review :: "review_run list \<Rightarrow> bool" where
  "one_open_review rs \<longleftrightarrow> distinct (map rv_workspace_id (filter review_open rs))"

text \<open>What was sent to the provider is on the run: until it is completed, its cost is uncertain.\<close>

definition spending_ok :: "review_run \<Rightarrow> bool" where
  "spending_ok r \<longleftrightarrow>
     rv_usage_uncertain r = (0 < rv_call_attempts r \<and> rv_status r \<noteq> COMPLETED) \<and>
     (rv_status r = PENDING \<longrightarrow> rv_call_attempts r = 0)"

text \<open>The reviews a workspace requested on a day, named by its first moment.\<close>

definition day_of :: "review_run \<Rightarrow> uuid \<times> datetime" where
  "day_of r = (rv_workspace_id r, day_start (rv_created_at r))"

definition used_on :: "uuid \<Rightarrow> datetime \<Rightarrow> review_run list \<Rightarrow> nat" where
  "used_on wid d rs = count_list (map day_of rs) (wid, d)"

definition review_inv :: "nat \<Rightarrow> 'a review_tables_scheme \<Rightarrow> bool" where
  "review_inv limit s \<longleftrightarrow>
     review_schema s \<and> jobs_inv s \<and> tracked EXPLAIN_FINDINGS rv_id review_phase (reviews s) (jobs s) \<and>
     one_open_review (reviews s) \<and> list_all spending_ok (reviews s) \<and>
     (\<forall>wid d. used_on wid d (reviews s) \<le> limit)"

text \<open>
  The transactions, the queue operations on the jobs, and any transaction of another component. A
  request reads the clock of the application for the day and the clock of the database for the row: the
  first may not be a day ahead of the second.
\<close>

inductive review_step :: "nat \<Rightarrow> 'a review_tables_scheme \<Rightarrow> 'a review_tables_scheme \<Rightarrow> bool" for limit where
  others: "reviews s' = reviews s \<Longrightarrow> jobs_of EXPLAIN_FINDINGS (jobs s') = jobs_of EXPLAIN_FINDINGS (jobs s) \<Longrightarrow>
    review_schema s' \<Longrightarrow> jobs_inv s' \<Longrightarrow> review_step limit s s'"
| claim: "transaction review_schema (claim_job locked now worker kinds) s = (Inr x, s') \<Longrightarrow> review_step limit s s'"
| heartbeat: "transaction review_schema (heartbeat now now' c) s = (Inr b, s') \<Longrightarrow> review_step limit s s'"
| request: "rg_daily_limit g \<le> limit \<Longrightarrow> day_start now \<le> db_now \<Longrightarrow>
    transaction review_schema (start_review sha g db_now now rid jid uid wid aid consent rerun purpose) s = (Inr r, s') \<Longrightarrow>
    review_step limit s s'"
| start: "transaction review_schema (begin_review sha g now now' c) s = (Inr t, s') \<Longrightarrow> review_step limit s s'"
| reserve: "0 \<le> expected \<Longrightarrow>
    transaction review_schema (reserve_call now c expected incoming outgoing) s = (Inr granted, s') \<Longrightarrow> review_step limit s s'"
| complete: "issued EXPLAIN_FINDINGS c (jobs s) \<Longrightarrow>
    transaction review_schema (complete_review ck c result code expired incoming outgoing) s = (Inr u, s') \<Longrightarrow>
    review_step limit s s'"
| cancel: "transaction review_schema (cancel_review now uid wid rid) s = (Inr r, s') \<Longrightarrow> review_step limit s s'"
| feedback: "transaction review_schema (save_feedback sha db_now fid uid wid rid key state note) s = (Inr f, s') \<Longrightarrow>
    review_step limit s s'"

subsection \<open>Rows that change\<close>

lemma review_inv_parts:
  assumes "review_inv limit s"
  shows "review_schema s" "jobs_inv s" "tracked EXPLAIN_FINDINGS rv_id review_phase (reviews s) (jobs s)"
    "one_open_review (reviews s)" "list_all spending_ok (reviews s)" "\<forall>wid d. used_on wid d (reviews s) \<le> limit"
    "jobs_ok (jobs s)" "distinct (map rv_id (reviews s))"
  using assms by (simp_all add: review_inv_def jobs_inv_def jobs_schema_def review_schema_def reviews_ok_def)

lemma not_terminal_review: "rv_status r \<notin> set terminal_runs \<longleftrightarrow> review_open r"
  by (cases "rv_status r") (simp_all add: terminal_runs_def review_open_def)

lemma review_open_phase: "run_phase (rv_status r) = Open \<longleftrightarrow> review_open r"
  by (cases "rv_status r") (simp_all add: review_open_def)

text \<open>What no write to a run changes.\<close>

definition same_request :: "review_run \<Rightarrow> review_run \<Rightarrow> bool" where
  "same_request r r' \<longleftrightarrow>
     rv_id r' = rv_id r \<and> rv_workspace_id r' = rv_workspace_id r \<and> rv_created_at r' = rv_created_at r"

lemma same_request_writes [simp]:
  "same_request r (count_tokens i n r)"
  "same_request r (reserved k (count_tokens i n r))"
  "same_request r (closed_review t code x (count_tokens i n r))"
  "same_request r (canceled_review t r)"
  "same_request r (r\<lparr>rv_status := st, rv_started_at := t'\<rparr>)"
  by (simp_all add: same_request_def count_tokens_def reserved_def closed_review_def canceled_review_def)

lemma written_columns [simp]:
  "rv_status (count_tokens i n r) = rv_status r" "rv_call_attempts (count_tokens i n r) = rv_call_attempts r"
  "rv_usage_uncertain (count_tokens i n r) = rv_usage_uncertain r" "rv_id (count_tokens i n r) = rv_id r"
  "rv_status (reserved k r) = rv_status r" "rv_call_attempts (reserved k r) = k + 1" "rv_usage_uncertain (reserved k r)"
  "rv_status (canceled_review t r) = RUN_CANCELED" "rv_call_attempts (canceled_review t r) = rv_call_attempts r"
  "rv_usage_uncertain (canceled_review t r) = (0 < rv_call_attempts r)"
  "rv_status (closed_review t code x r) = (if truthy code then FAILED else COMPLETED)"
  "rv_call_attempts (closed_review t code x r) = rv_call_attempts r"
  "rv_usage_uncertain (closed_review t code x r) = (truthy code \<and> rv_call_attempts r \<noteq> 0)"
  by (simp_all add: count_tokens_def reserved_def canceled_review_def closed_review_def)

lemma used_on_put:
  assumes "distinct (map rv_id rs)" and "r \<in> set rs" and "same_request r r'"
  shows "used_on wid d (put_row rv_id r' rs) = used_on wid d rs"
proof -
  have "map day_of (put_row rv_id r' rs) = map day_of rs"
  proof (rule put_row_column)
    fix x assume "x \<in> set rs" "rv_id x = rv_id r'"
    then have "x = r" using assms distinct_key_unique [OF assms(1)] by (simp add: same_request_def)
    with assms(3) show "day_of x = day_of r'" by (simp add: same_request_def day_of_def)
  qed
  then show ?thesis by (simp add: used_on_def)
qed

lemma one_open_review_put:
  assumes "one_open_review rs" and "distinct (map rv_id rs)" and "r \<in> set rs" and "same_request r r'"
    and "review_open r' \<Longrightarrow> review_open r"
  shows "one_open_review (put_row rv_id r' rs)"
  unfolding one_open_review_def
proof (rule distinct_filter_put_row [OF assms(2)])
  show same: "distinct (map rv_workspace_id (filter review_open rs))" using assms(1) by (simp add: one_open_review_def)
  show "rv_workspace_id x \<noteq> rv_workspace_id r'"
    if "x \<in> set rs" "review_open x" "rv_id x \<noteq> rv_id r'" "review_open r'" for x
    using distinct_key_unique [OF same, of x r] that assms(3-5) by (auto simp: same_request_def)
qed

lemma one_open_review_unique:
  assumes "one_open_review rs" and "r \<in> set rs" and "q \<in> set rs" and "review_open r" and "review_open q"
    and "rv_workspace_id r = rv_workspace_id q"
  shows "r = q"
  using assms unfolding one_open_review_def by (auto dest!: distinct_key_unique [where x = r and y = q])

subsection \<open>The daily limit\<close>

lemma day_start_mono: "day_start a \<le> b \<Longrightarrow> day_start a \<le> day_start b"
proof -
  have k: "0 < days 1" by simp
  have day: "day_start t = days 1 * (t div days 1)" for t
    by (simp add: day_start_def minus_mod_eq_mult_div)
  assume "day_start a \<le> b"
  then have "a div days 1 \<le> b div days 1"
    using zdiv_mono1 [of "day_start a" b "days 1"] k unfolding day by simp
  then show ?thesis using k unfolding day by (simp add: mult_left_mono)
qed

lemma day_start_le: "day_start t \<le> t"
  by (simp add: day_start_def)

lemma used_on_since:
  assumes "t \<le> d"
  shows "used_on wid d rs \<le> used_since wid t rs"
proof (induction rs)
  case (Cons r rs)
  have "t \<le> rv_created_at r" if "day_start (rv_created_at r) = d"
    using that assms day_start_le [of "rv_created_at r"] by simp
  with Cons show ?case by (simp add: used_on_def used_since_def day_of_def)
qed (simp add: used_on_def)

lemma used_on_add:
  assumes "\<forall>wid d. used_on wid d rs \<le> limit" and "used_since wid (day_start now) rs < limit"
    and "day_start now \<le> db_now" and "rv_workspace_id r = wid" and "rv_created_at r = db_now"
  shows "used_on w d (rs @ [r]) \<le> limit"
proof (cases "(w, d) = day_of r")
  case True
  then have "used_on w d rs < limit"
    using used_on_since [OF day_start_mono [OF assms(3)], of wid rs] assms(2,4,5) by (simp add: day_of_def)
  with True show ?thesis by (simp add: used_on_def)
next
  case False
  with assms(1) show ?thesis by (auto simp: used_on_def)
qed

subsection \<open>The invariant\<close>

lemma review_inv_requested:
  assumes inv: "review_inv limit s" and ok: "review_schema s'"
    and req: "request_review sha g db_now now rid jid uid wid aid purpose mode versions snap generation s = Inr (r, s')"
    and "rg_daily_limit g \<le> limit" and "day_start now \<le> db_now"
  shows "review_inv limit s'"
  using req
proof (cases rule: request_review_Inr)
  case existing
  with inv show ?thesis by simp
next
  case fresh
  define js where "js = jobs s @ [new_job sha db_now jid EXPLAIN_FINDINGS rid (Some wid)]"
  have rows: "reviews s' = reviews s @ [r]" "jobs s' = js" by (simp_all add: fresh(4) js_def)
  have r: "rv_id r = rid" "rv_workspace_id r = wid" "rv_created_at r = db_now" "rv_status r = PENDING"
    "rv_call_attempts r = 0" "\<not> rv_usage_uncertain r"
    by (simp_all add: fresh(3) new_review_def)
  have "jobs_schema s'" using review_inv_parts(2) [OF inv] ok by (simp add: review_schema_def standard_schema_def analysis_schema_def pull_schema_def)
  then have "jobs_inv s'"
    using rows(2) unfolding js_def by (intro jobs_inv_add [OF review_inv_parts(2) [OF inv]])
  moreover have "tracked EXPLAIN_FINDINGS rv_id review_phase (reviews s') (jobs s')"
    unfolding rows js_def
    by (rule review_tracking.tracked_request [OF review_inv_parts(3) [OF inv]])
       (simp_all add: carries_def new_job_def review_phase_def r)
  moreover have "one_open_review (reviews s')"
    using review_inv_parts(4) [OF inv] fresh(1) r(2) by (auto simp: rows one_open_review_def)
  moreover have "list_all spending_ok (reviews s')"
    using review_inv_parts(5) [OF inv] by (simp add: rows spending_ok_def r)
  moreover have "\<forall>wid d. used_on wid d (reviews s') \<le> limit"
    unfolding rows using used_on_add [OF review_inv_parts(6) [OF inv] _ assms(5) r(2,3)] fresh(2) assms(4) by auto
  ultimately show ?thesis using ok by (simp add: review_inv_def)
qed

lemma review_inv_written:
  assumes inv: "review_inv limit s" and ok: "review_schema s'" and jobs: "jobs_inv s'"
    and r: "r \<in> set (reviews s)" "same_request r r'" "review_open r' \<Longrightarrow> review_open r" "spending_ok r'"
    and rows: "reviews s' = put_row rv_id r' (reviews s)"
    and tracked: "tracked EXPLAIN_FINDINGS rv_id review_phase (put_row rv_id r' (reviews s)) (jobs s')"
  shows "review_inv limit s'"
  using one_open_review_put [OF review_inv_parts(4,8) [OF inv] r(1-3)]
    list_all_put_row [OF review_inv_parts(5) [OF inv] r(4)] used_on_put [OF review_inv_parts(8) [OF inv] r(1,2)]
    review_inv_parts(6) [OF inv] ok jobs tracked
  by (simp add: review_inv_def rows)

text \<open>A write that leaves the status alone leaves the job alone.\<close>

lemma review_inv_same_phase:
  assumes inv: "review_inv limit s" and ok: "review_schema s'"
    and r: "r \<in> set (reviews s)" "same_request r r'" "review_phase r' = review_phase r" "spending_ok r'"
    and s': "s' = reviews_update (put_row rv_id r') s"
  shows "review_inv limit s'"
proof (rule review_inv_written [OF inv ok _ r(1,2) _ r(4)])
  show "jobs_inv s'" using review_inv_parts(2) [OF inv] by (simp add: s' jobs_inv_def jobs_schema_def)
  show "review_open r" if "review_open r'"
    using that r(3) review_open_phase [of r] review_open_phase [of r'] by (simp add: review_phase_def)
  show "tracked EXPLAIN_FINDINGS rv_id review_phase (put_row rv_id r' (reviews s)) (jobs s')"
    using review_tracking.tracked_run [OF review_inv_parts(3) [OF inv] r(1) _ r(3)] r(2) by (simp add: s' same_request_def)
qed (simp add: s')

lemma review_spending: "review_inv limit s \<Longrightarrow> r \<in> set (reviews s) \<Longrightarrow> spending_ok r"
  using review_inv_parts(5) by (auto simp: list_all_iff)

lemma review_attempts: "review_inv limit s \<Longrightarrow> r \<in> set (reviews s) \<Longrightarrow> 0 \<le> rv_call_attempts r \<and> rv_call_attempts r \<le> 2"
  by (auto simp: review_inv_def review_schema_def reviews_ok_def review_row_ok_def list_all_iff)

text \<open>Closing a run with its job.\<close>

lemma review_inv_closed:
  assumes inv: "review_inv limit s" and ok: "review_schema s'" and iss: "issued EXPLAIN_FINDINGS c (jobs s)"
    and r: "r \<in> set (reviews s)" "rv_id r = claim_aggregate_id c" "rv_status r \<notin> set terminal_runs"
    and j: "j \<in> set (jobs s)" "job_id j = claim_id c" and fin: "finish now code False 5 j = Inr j'"
    and s': "s' = reviews_update (put_row rv_id (closed_review t code x (count_tokens i n r))) (jobs_update (put_row job_id j') s)"
  shows "review_inv limit s'"
proof (rule review_inv_written [OF inv ok _ r(1)])
  note p = review_inv_parts [OF inv]
  show "jobs_inv s'"
    using jobs_inv_finish [OF p(2) j(1) fin] by (simp add: s' jobs_inv_def jobs_schema_def)
  show "same_request r (closed_review t code x (count_tokens i n r))" by simp
  show "review_open r" using r(3) by (simp add: not_terminal_review)
  show "spending_ok (closed_review t code x (count_tokens i n r))"
    using review_attempts [OF inv r(1)] by (auto simp: spending_ok_def)
  have "job_state j' = (if truthy code then DEAD else SUCCEEDED)"
    using fin by (auto elim!: finish_Inr split: if_splits)
  then show "tracked EXPLAIN_FINDINGS rv_id review_phase (put_row rv_id (closed_review t code x (count_tokens i n r)) (reviews s)) (jobs s')"
    using issued_job [OF p(7) iss j] finish_keeps [OF fin] r(2)
    by (simp add: s', intro review_tracking.tracked_together [OF p(3,7) j(1)])
       (simp_all add: carries_def review_phase_def closed_review_def count_tokens_def)
qed (simp add: s')

lemma review_inv_canceled:
  assumes inv: "review_inv limit s" and ok: "review_schema s'"
    and q: "q \<in> set (reviews s)" "rv_id q = rid" "rv_status q \<notin> set terminal_runs"
    and j: "j \<in> set (jobs s)" "carries EXPLAIN_FINDINGS rid j"
    and s': "s' = reviews_update (put_row rv_id (canceled_review now q)) (jobs_update (put_row job_id (cancel_review_job now j)) s)"
  shows "review_inv limit s'"
proof (rule review_inv_written [OF inv ok _ q(1)])
  note p = review_inv_parts [OF inv]
  show "jobs_inv s'"
    using job_step_inv [OF job_step.cancel_review [OF j(1)] p(2)] by (simp add: s' jobs_inv_def jobs_schema_def)
  show "same_request q (canceled_review now q)" by simp
  show "review_open q" using q(3) by (simp add: not_terminal_review)
  show "spending_ok (canceled_review now q)" by (simp add: spending_ok_def)
  show "tracked EXPLAIN_FINDINGS rv_id review_phase (put_row rv_id (canceled_review now q) (reviews s)) (jobs s')"
    using q(2) j(2) by (simp add: s', intro review_tracking.tracked_together [OF p(3,7) j(1)])
      (simp_all add: cancel_keeps carries_def review_phase_def canceled_review_def)
qed (simp add: s')

lemma review_step_inv:
  assumes inv: "review_inv limit s" and step: "review_step limit s s'"
  shows "review_inv limit s'"
proof -
  note p = review_inv_parts [OF inv]
  from step show ?thesis
  proof (cases rule: review_step.cases)
    case others
    with p show ?thesis by (auto simp: review_inv_def intro: review_tracking.tracked_others)
  next
    case (claim locked now worker kinds x)
    then have op: "claim_job locked now worker kinds s = Inr (x, s')" and ok': "review_schema s'"
      by (simp_all add: transaction_Inr_iff)
    then have "reviews s' = reviews s" by (auto elim!: claim_job_Inr)
    with ok' p show ?thesis
      using jobs_inv_claim [OF op p(2)] review_tracking.tracked_claim [OF op p(2,3)] by (simp add: review_inv_def)
  next
    case (heartbeat now now' c b)
    then have op: "Jobs.heartbeat now now' c s = Inr (b, s')" and ok': "review_schema s'"
      by (simp_all add: transaction_Inr_iff)
    then have "reviews s' = reviews s" by (auto elim!: heartbeat_Inr)
    with ok' p show ?thesis
      using jobs_inv_heartbeat [OF op p(2)] review_tracking.tracked_heartbeat [OF op p(2,3)] by (simp add: review_inv_def)
  next
    case (request g now db_now sha rid jid uid wid aid consent rerun purpose r)
    then have op: "start_review sha g db_now now rid jid uid wid aid consent rerun purpose s = Inr (r, s')"
      and ok': "review_schema s'"
      by (simp_all add: transaction_Inr_iff)
    from op show ?thesis by (rule start_review_Inr) (rule review_inv_requested [OF inv ok' _ request(1,2)])
  next
    case (start sha g now now' c t)
    then have op: "begin_review sha g now now' c s = Inr (t, s')" and ok': "review_schema s'"
      by (simp_all add: transaction_Inr_iff)
    from op show ?thesis
    proof (cases rule: begin_review_Inr)
      case idle
      with inv show ?thesis by simp
    next
      case (started r j task)
      have open_run: "review_open r" using started(3) by (simp add: not_terminal_review)
      have now: "s' = reviews_update (put_row rv_id (r\<lparr>rv_status := RUNNING, rv_started_at := Some now'\<rparr>)) s" "rv_call_attempts r = 0"
        using prepare_review_Inr [OF started(8)] by simp_all
      show ?thesis
      proof (rule review_inv_same_phase [OF inv ok' started(1) _ _ _ now(1)])
        show "review_phase (r\<lparr>rv_status := RUNNING, rv_started_at := Some now'\<rparr>) = review_phase r"
          using open_run review_open_phase [of r] by (simp add: review_phase_def)
        show "spending_ok (r\<lparr>rv_status := RUNNING, rv_started_at := Some now'\<rparr>)"
          using review_spending [OF inv started(1)] now(2) by (simp add: spending_ok_def)
      qed simp
    qed
  next
    case (reserve expected now c incoming outgoing granted)
    then have op: "reserve_call now c expected incoming outgoing s = Inr (granted, s')" and ok': "review_schema s'"
      by (simp_all add: transaction_Inr_iff)
    from op show ?thesis
    proof (cases rule: reserve_call_Inr)
      case (refused r)
      show ?thesis
        using review_spending [OF inv refused(2)]
        by (intro review_inv_same_phase [OF inv ok' refused(2) _ _ _ refused(4)]) (simp_all add: review_phase_def spending_ok_def)
    next
      case (granted r j q)
      show ?thesis
        using granted(4) reserve(1)
        by (intro review_inv_same_phase [OF inv ok' granted(2) _ _ _ granted(11)]) (simp_all add: review_phase_def spending_ok_def)
    qed
  next
    case (complete c ck result code expired incoming outgoing u)
    then have op: "complete_review ck c result code expired incoming outgoing s = Inr (u, s')" and ok': "review_schema s'"
      by (simp_all add: transaction_Inr_iff)
    from op show ?thesis
    proof (cases rule: complete_review_Inr)
      case (idle r)
      show ?thesis
        using review_spending [OF inv idle(1)]
        by (intro review_inv_same_phase [OF inv ok' idle(1) _ _ _ idle(3)]) (simp_all add: review_phase_def spending_ok_def)
    next
      case (closed r j j' code result)
      show ?thesis by (rule review_inv_closed [OF inv ok' complete(1) closed(1-5,8,10)])
    qed
  next
    case (cancel now uid wid rid r)
    then have op: "cancel_review now uid wid rid s = Inr (r, s')" and ok': "review_schema s'"
      by (simp_all add: transaction_Inr_iff)
    from op show ?thesis
    proof (cases rule: cancel_review_Inr)
      case closed
      with inv show ?thesis by simp
    next
      case (canceled q j)
      show ?thesis by (rule review_inv_canceled [OF inv ok' canceled(1-5,7)])
    qed
  next
    case (feedback sha db_now fid uid wid rid key state remark f)
    then have "save_feedback sha db_now fid uid wid rid key state remark s = Inr (f, s')" and ok': "review_schema s'"
      by (simp_all add: transaction_Inr_iff)
    from save_feedback_keeps [OF this(1)] ok' p show ?thesis by (simp add: review_inv_def jobs_inv_def jobs_schema_def)
  qed
qed

subsection \<open>How a review changes\<close>

text \<open>A review keeps its request and counts its calls upwards; one that has ended keeps its outcome.\<close>

definition review_evolves :: "review_run \<Rightarrow> review_run \<Rightarrow> bool" where
  "review_evolves r r' \<longleftrightarrow>
     same_request r r' \<and> rv_call_attempts r \<le> rv_call_attempts r' \<and>
     (rv_status r \<in> set terminal_runs \<longrightarrow>
        rv_status r' = rv_status r \<and> rv_result r' = rv_result r \<and> rv_error_code r' = rv_error_code r \<and>
        rv_finished_at r' = rv_finished_at r \<and> rv_call_attempts r' = rv_call_attempts r)"

definition reviews_evolve :: "'a review_tables_scheme \<Rightarrow> 'a review_tables_scheme \<Rightarrow> bool" where
  "reviews_evolve s s' \<longleftrightarrow> (\<forall>r \<in> set (reviews s). \<exists>r' \<in> set (reviews s'). review_evolves r r')"

lemma review_evolves_refl [simp]: "review_evolves r r"
  by (simp add: review_evolves_def same_request_def)

lemma review_evolves_trans: "review_evolves a b \<Longrightarrow> review_evolves b c \<Longrightarrow> review_evolves a c"
  by (auto simp: review_evolves_def same_request_def)

lemma review_evolves_tokens [simp]: "review_evolves r (count_tokens i n r)"
  by (simp add: review_evolves_def count_tokens_def same_request_def)

lemma review_evolves_open:
  "same_request r r' \<Longrightarrow> rv_call_attempts r \<le> rv_call_attempts r' \<Longrightarrow> rv_status r \<notin> set terminal_runs \<Longrightarrow> review_evolves r r'"
  by (simp add: review_evolves_def)

lemma reviews_evolve_same: "reviews s' = reviews s \<Longrightarrow> reviews_evolve s s'"
  by (metis reviews_evolve_def review_evolves_refl)

lemma reviews_evolve_trans: "reviews_evolve s t \<Longrightarrow> reviews_evolve t u \<Longrightarrow> reviews_evolve s u"
  unfolding reviews_evolve_def using review_evolves_trans by blast

lemma reviews_evolve_add: "reviews s' = reviews s @ [r] \<Longrightarrow> reviews_evolve s s'"
  using review_evolves_refl by (fastforce simp: reviews_evolve_def)

lemma reviews_evolve_put:
  assumes "reviews_ok (reviews s)" and "r \<in> set (reviews s)" and "review_evolves r r'"
    and "reviews s' = put_row rv_id r' (reviews s)"
  shows "reviews_evolve s s'"
  unfolding reviews_evolve_def
proof
  fix x assume x: "x \<in> set (reviews s)"
  have id: "rv_id r' = rv_id r" using assms(3) by (simp add: review_evolves_def same_request_def)
  show "\<exists>x' \<in> set (reviews s'). review_evolves x x'"
  proof (cases "rv_id x = rv_id r")
    case True
    then have "x = r" using x assms(1,2) by (auto simp: reviews_ok_def dest: distinct_key_unique)
    moreover have "r' \<in> set (reviews s')" unfolding assms(4) using assms(2) id by (intro put_row_mem) auto
    ultimately show ?thesis using assms(3) by blast
  next
    case False
    with x id have "x \<in> set (reviews s')" unfolding assms(4) by (intro put_row_other) auto
    then show ?thesis by (intro bexI [of _ x]) simp_all
  qed
qed

text \<open>Each operation of the worker, committed or not, lets the reviews evolve.\<close>

lemma begin_review_evolves:
  "reviews_ok (reviews s) \<Longrightarrow> begin_review sha g now now' c s = Inr (t, s') \<Longrightarrow> reviews_evolve s s'"
proof (erule begin_review_Inr, goal_cases)
  case 1
  then show ?case by (simp add: reviews_evolve_same)
next
  case (2 r j task)
  have "s' = reviews_update (put_row rv_id (r\<lparr>rv_status := RUNNING, rv_started_at := Some now'\<rparr>)) s"
    using prepare_review_Inr [OF 2(9)] by simp
  then show ?case
    by (intro reviews_evolve_put [OF 2(1,2) review_evolves_open [OF _ _ 2(4)]]) simp_all
qed

lemma reserve_call_evolves:
  "reviews_ok (reviews s) \<Longrightarrow> reserve_call now c k i n s = Inr (granted, s') \<Longrightarrow> reviews_evolve s s'"
proof (erule reserve_call_Inr, goal_cases)
  case (1 r)
  then show ?case by (auto intro: reviews_evolve_put [where r' = "count_tokens i n r"])
next
  case (2 r j q)
  then show ?case
    by (auto intro!: reviews_evolve_put [where r' = "reserved k (count_tokens i n r)" and r = r] review_evolves_open
        simp: terminal_runs_def)
qed

lemma complete_review_evolves:
  "reviews_ok (reviews s) \<Longrightarrow> complete_review ck c result code expired i n s = Inr (u, s') \<Longrightarrow> reviews_evolve s s'"
proof (erule complete_review_Inr, goal_cases)
  case (1 r)
  then show ?case by (auto intro: reviews_evolve_put [where r' = "count_tokens i n r"])
next
  case (2 r j j' code result)
  show ?case
    by (rule reviews_evolve_put [OF 2(1,2) review_evolves_open [OF same_request_writes(3) _ 2(4)]])
       (simp_all add: 2(11))
qed

lemma review_step_evolves:
  assumes inv: "review_inv limit s" and step: "review_step limit s s'"
  shows "reviews_evolve s s'"
proof -
  have ok: "reviews_ok (reviews s)" using review_inv_parts(1) [OF inv] by (simp add: review_schema_def)
  from step show ?thesis
  proof (cases rule: review_step.cases)
    case others
    then show ?thesis by (intro reviews_evolve_same)
  next
    case (claim locked now worker kinds x)
    then show ?thesis by (auto simp: transaction_Inr_iff intro!: reviews_evolve_same elim!: claim_job_Inr)
  next
    case (heartbeat now now' c b)
    then show ?thesis by (auto simp: transaction_Inr_iff intro!: reviews_evolve_same elim!: heartbeat_Inr)
  next
    case (request g now db_now sha rid jid uid wid aid consent rerun purpose r)
    then have "start_review sha g db_now now rid jid uid wid aid consent rerun purpose s = Inr (r, s')"
      by (simp add: transaction_Inr_iff)
    then obtain mode versions snap generation where
      "request_review sha g db_now now rid jid uid wid aid purpose mode versions snap generation s = Inr (r, s')"
      by (rule start_review_Inr)
    then show ?thesis
      by (rule request_review_Inr) (simp_all add: reviews_evolve_same reviews_evolve_add)
  next
    case start
    then show ?thesis by (auto simp: transaction_Inr_iff intro: begin_review_evolves [OF ok])
  next
    case reserve
    then show ?thesis by (auto simp: transaction_Inr_iff intro: reserve_call_evolves [OF ok])
  next
    case complete
    then show ?thesis by (auto simp: transaction_Inr_iff intro: complete_review_evolves [OF ok])
  next
    case (cancel now uid wid rid r)
    then have "cancel_review now uid wid rid s = Inr (r, s')" by (simp add: transaction_Inr_iff)
    then show ?thesis
    proof (cases rule: cancel_review_Inr)
      case closed
      then show ?thesis by (simp add: reviews_evolve_same)
    next
      case (canceled q j)
      show ?thesis
        by (rule reviews_evolve_put [OF ok canceled(1) review_evolves_open [OF same_request_writes(4) _ canceled(3)]])
           (simp_all add: canceled(7))
    qed
  next
    case (feedback sha db_now fid uid wid rid key state remark f)
    then show ?thesis by (auto simp: transaction_Inr_iff intro!: reviews_evolve_same dest!: save_feedback_keeps)
  qed
qed

interpretation reviewing: evolving_system "review_inv limit" "review_step limit" "review_inv limit" reviews_evolve
  by unfold_locales
    (auto intro: review_step_inv review_step_evolves reviews_evolve_same reviews_evolve_trans)

end
