(* ===== verification/Python_Code.thy ===== *)
theory Python_Code
  imports Expressions
begin

section \<open>Syntax trees of Python code\<close>

text \<open>
  What the observations of a review read of the trees of \<^verbatim>\<open>ast.parse\<close>, which is a parameter: a module is
  the list of its statements. A node has the line it starts on and, where it is read, the line it ends
  on. The other nodes keep what \<open>ast.walk\<close> finds in them: \<open>X_Other n names es\<close> has \<open>n\<close> nodes of its own,
  among them the arguments \<open>names\<close> (of a \<open>lambda\<close>), and the expressions \<open>es\<close>. The flag of a name says
  that it is stored to, the one of \<open>X_Bool\<close> that it is an \<open>or\<close>. A key of a dictionary is \<open>None\<close> for an
  unpacked one, the name of a keyword for unpacked arguments.
\<close>

datatype comparator = Cmp_Eq | Cmp_Not_Eq | Cmp_Is | Cmp_Is_Not | Cmp_Other

datatype code_exp =
    X_Const py_constant
  | X_Name string bool
  | X_Attribute code_exp string
  | X_Subscript nat code_exp code_exp
  | X_Call nat nat code_exp "code_exp list" "(string option \<times> code_exp) list"
  | X_Dict "code_exp option list" "code_exp list"
  | X_List "code_exp list"
  | X_Bool bool "code_exp list"
  | X_Compare code_exp "comparator list" "code_exp list"
  | X_Negative code_exp
  | X_Binary py_operator code_exp code_exp
  | X_Other nat "string list" "code_exp list"

text \<open>
  The parameters of a function: positional only, plain, the star, keyword only and the double star; the
  defaults of the plain and positional ones; other expressions (annotations, keyword defaults).
\<close>

datatype code_params =
  Params "string list" "string list" "string option" "string list" "string option" "code_exp list" "code_exp list"

text \<open>
  Statements. A function has a flag for \<open>async\<close>, its lines, name, parameters, body, decorators and other
  expressions (its result annotation). Any other statement has parts: expressions, statements, and nodes
  such as handlers and cases with parts of their own.
\<close>

datatype code_stmt =
    C_Function bool nat nat string code_params "code_stmt list" "code_exp list" "code_exp list"
  | C_Assign nat "code_exp list" code_exp
  | C_If nat code_exp "code_stmt list" "code_stmt list"
  | C_Return nat "code_exp option"
  | C_Expr nat code_exp
  | C_Assert nat code_exp "code_exp option"
  | C_Import nat "(string \<times> string option) list"
  | C_Import_From nat "string option" "(string \<times> string option) list"
  | C_Other nat "code_part list"
  and code_part = Part_Exp code_exp | Part_Stmt code_stmt | Part_Node "code_part list"

fun stmt_line :: "code_stmt \<Rightarrow> nat" where
  "stmt_line (C_Function _ n _ _ _ _ _ _) = n"
| "stmt_line (C_Assign n _ _) = n"
| "stmt_line (C_If n _ _ _) = n"
| "stmt_line (C_Return n _) = n"
| "stmt_line (C_Expr n _) = n"
| "stmt_line (C_Assert n _ _) = n"
| "stmt_line (C_Import n _) = n"
| "stmt_line (C_Import_From n _ _) = n"
| "stmt_line (C_Other n _) = n"

subsection \<open>Walking a tree\<close>

text \<open>The subexpressions of an expression.\<close>

fun exp_parts :: "code_exp \<Rightarrow> code_exp list" where
  "exp_parts (X_Const _) = []"
| "exp_parts (X_Name _ _) = []"
| "exp_parts (X_Attribute e _) = [e]"
| "exp_parts (X_Subscript _ e i) = [e, i]"
| "exp_parts (X_Call _ _ f es ks) = f # es @ map snd ks"
| "exp_parts (X_Dict ks es) = concat (map (\<lambda>k. case k of None \<Rightarrow> [] | Some e \<Rightarrow> [e]) ks) @ es"
| "exp_parts (X_List es) = es"
| "exp_parts (X_Bool _ es) = es"
| "exp_parts (X_Compare e _ es) = e # es"
| "exp_parts (X_Negative e) = [e]"
| "exp_parts (X_Binary _ a b) = [a, b]"
| "exp_parts (X_Other _ _ es) = es"

text \<open>The nodes an expression has besides its subexpressions: contexts, operators, keywords.\<close>

fun own_nodes :: "code_exp \<Rightarrow> nat" where
  "own_nodes (X_Const _) = 1"
| "own_nodes (X_Name _ _) = 2"
| "own_nodes (X_Attribute _ _) = 2"
| "own_nodes (X_Subscript _ _ _) = 2"
| "own_nodes (X_Call _ _ _ _ ks) = 1 + length ks"
| "own_nodes (X_Dict _ _) = 1"
| "own_nodes (X_List _) = 2"
| "own_nodes (X_Bool _ _) = 2"
| "own_nodes (X_Compare _ ops _) = 1 + length ops"
| "own_nodes (X_Negative _) = 2"
| "own_nodes (X_Binary _ _ _) = 2"
| "own_nodes (X_Other n _ _) = n"

lemma size_member: "x \<in> set xs \<Longrightarrow> f x \<le> size_list f xs"
  by (rule size_list_estimation' [OF _ le_refl])

lemma exp_parts_smaller: "x \<in> set (exp_parts e) \<Longrightarrow> size x < size e"
proof (cases e)
  case (X_Call l m f es ks)
  assume "x \<in> set (exp_parts e)"
  then consider "x = f" | "x \<in> set es" | k where "(k, x) \<in> set ks" by (auto simp: X_Call)
  then show ?thesis
  proof cases
    case 3
    from size_member [OF this, of "size_prod (\<lambda>_. 0) size"] show ?thesis by (simp add: X_Call)
  qed (use size_member [of x es size] in \<open>auto simp: X_Call\<close>)
next
  case (X_Dict ks es)
  assume "x \<in> set (exp_parts e)"
  then consider "Some x \<in> set ks" | "x \<in> set es" by (auto simp: X_Dict split: option.splits)
  then show ?thesis
  proof cases
    case 1
    from size_member [OF this, of "size_option size"] show ?thesis by (simp add: X_Dict)
  qed (use size_member [of x es size] in \<open>auto simp: X_Dict\<close>)
qed (auto dest: size_member [where f = size])

text \<open>Every expression below and including one, itself first.\<close>

function exp_walk :: "code_exp \<Rightarrow> code_exp list" where
  "exp_walk e = e # concat (map exp_walk (exp_parts e))"
  by pat_completeness auto
termination by (relation "measure size") (auto dest: exp_parts_smaller)

declare exp_walk.simps [simp del]

fun params_names :: "code_params \<Rightarrow> string list" where
  "params_names (Params ps xs s ks d _ _) = ps @ xs @ (case s of None \<Rightarrow> [] | Some x \<Rightarrow> [x]) @ ks @ (case d of None \<Rightarrow> [] | Some x \<Rightarrow> [x])"

fun params_exps :: "code_params \<Rightarrow> code_exp list" where
  "params_exps (Params _ _ _ _ _ defaults es) = defaults @ es"

text \<open>The outermost expressions of statements, and the parameters of the functions in them.\<close>

fun stmt_exps :: "code_stmt \<Rightarrow> code_exp list"
  and part_exps :: "code_part \<Rightarrow> code_exp list" where
  "stmt_exps (C_Function _ _ _ _ ps body ds es) = params_exps ps @ concat (map stmt_exps body) @ ds @ es"
| "stmt_exps (C_Assign _ ts e) = ts @ [e]"
| "stmt_exps (C_If _ e ss es) = e # concat (map stmt_exps ss) @ concat (map stmt_exps es)"
| "stmt_exps (C_Return _ e) = (case e of None \<Rightarrow> [] | Some x \<Rightarrow> [x])"
| "stmt_exps (C_Expr _ e) = [e]"
| "stmt_exps (C_Assert _ e m) = e # (case m of None \<Rightarrow> [] | Some x \<Rightarrow> [x])"
| "stmt_exps (C_Import _ _) = []"
| "stmt_exps (C_Import_From _ _ _) = []"
| "stmt_exps (C_Other _ ps) = concat (map part_exps ps)"
| "part_exps (Part_Exp e) = [e]"
| "part_exps (Part_Stmt s) = stmt_exps s"
| "part_exps (Part_Node ps) = concat (map part_exps ps)"

fun stmt_params :: "code_stmt \<Rightarrow> code_params list"
  and part_params :: "code_part \<Rightarrow> code_params list" where
  "stmt_params (C_Function _ _ _ _ ps body _ _) = ps # concat (map stmt_params body)"
| "stmt_params (C_If _ _ ss es) = concat (map stmt_params ss) @ concat (map stmt_params es)"
| "stmt_params (C_Other _ ps) = concat (map part_params ps)"
| "stmt_params _ = []"
| "part_params (Part_Exp _) = []"
| "part_params (Part_Stmt s) = stmt_params s"
| "part_params (Part_Node ps) = concat (map part_params ps)"

text \<open>The nodes of a statement that are not expressions.\<close>

fun stmt_nodes :: "code_stmt \<Rightarrow> nat"
  and part_nodes :: "code_part \<Rightarrow> nat" where
  "stmt_nodes (C_Function _ _ _ _ ps body _ _) = 2 + length (params_names ps) + sum_list (map stmt_nodes body)"
| "stmt_nodes (C_If _ _ ss es) = 1 + sum_list (map stmt_nodes ss) + sum_list (map stmt_nodes es)"
| "stmt_nodes (C_Import _ names) = 1 + length names"
| "stmt_nodes (C_Import_From _ _ names) = 1 + length names"
| "stmt_nodes (C_Other _ ps) = 1 + sum_list (map part_nodes ps)"
| "stmt_nodes _ = 1"
| "part_nodes (Part_Exp _) = 0"
| "part_nodes (Part_Stmt s) = stmt_nodes s"
| "part_nodes (Part_Node ps) = 1 + sum_list (map part_nodes ps)"

text \<open>Every expression of statements, and \<open>len(list(ast.walk(tree)))\<close> of a module.\<close>

definition code_exps :: "code_stmt list \<Rightarrow> code_exp list" where
  "code_exps ss = concat (map exp_walk (concat (map stmt_exps ss)))"

definition module_nodes :: "code_stmt list \<Rightarrow> nat" where
  "module_nodes ss = 1 + sum_list (map stmt_nodes ss) + sum_list (map own_nodes (code_exps ss))"

text \<open>The names that are stored to, and those of parameters, anywhere in the statements.\<close>

definition stored_names :: "code_stmt list \<Rightarrow> string list" where
  "stored_names ss = concat (map (\<lambda>e. case e of X_Name x True \<Rightarrow> [x] | _ \<Rightarrow> []) (code_exps ss))"

definition argument_names :: "code_stmt list \<Rightarrow> string list" where
  "argument_names ss =
     concat (map params_names (concat (map stmt_params ss))) @
     concat (map (\<lambda>e. case e of X_Other _ names _ \<Rightarrow> names | _ \<Rightarrow> []) (code_exps ss))"

text \<open>
  The assertions of a statement with their depth in it and their line. \<open>ast.walk\<close> goes through a tree by
  depth, on one depth from left to right.
\<close>

type_synonym assertion = "nat \<times> nat \<times> code_exp"

fun stmt_asserts :: "nat \<Rightarrow> code_stmt \<Rightarrow> assertion list"
  and part_asserts :: "nat \<Rightarrow> code_part \<Rightarrow> assertion list" where
  "stmt_asserts d (C_Assert n e _) = [(d, n, e)]"
| "stmt_asserts d (C_Function _ _ _ _ _ body _ _) = concat (map (stmt_asserts (d + 1)) body)"
| "stmt_asserts d (C_If _ _ ss es) = concat (map (stmt_asserts (d + 1)) ss) @ concat (map (stmt_asserts (d + 1)) es)"
| "stmt_asserts d (C_Other _ ps) = concat (map (part_asserts (d + 1)) ps)"
| "stmt_asserts d _ = []"
| "part_asserts d (Part_Exp _) = []"
| "part_asserts d (Part_Stmt s) = stmt_asserts d s"
| "part_asserts d (Part_Node ps) = concat (map (part_asserts (d + 1)) ps)"

definition module_asserts :: "code_stmt list \<Rightarrow> (nat \<times> code_exp) list" where
  "module_asserts ss = map snd (sort_key fst (concat (map (stmt_asserts 1) ss)))"

end
