(* ===== verification/Retrieval.thy ===== *)
theory Retrieval
  imports Review_Policy
begin

section \<open>Finding related source\<close>

text \<open>
  \<^verbatim>\<open>app/domain/review/retrieval.py\<close> and \<^verbatim>\<open>context_plan.py\<close>: which files of the head tree may be related to
  a change, which lines around a place are shown together, and the pool of candidates in its order.
  Everything is a hint by names; the metadata of a file comes from a separate process and is an
  argument. Line numbers start at 1. A set of the code is a list without duplicates, a dictionary an
  association list in insertion order. Paths are relative and have passed \<open>exclusion\<close>, so they have no
  empty, \<^verbatim>\<open>.\<close> or \<^verbatim>\<open>..\<close> parts.
\<close>

definition max_candidate_files :: nat where "max_candidate_files = 12"
definition max_pool :: nat where "max_pool = 24"
definition max_snippet_lines :: int where "max_snippet_lines = 160"
definition max_groups :: nat where "max_groups = 8"

subsection \<open>Metadata of a file\<close>

record code_span =
  sp_start :: int
  sp_end :: int
  sp_name :: string

record syntax_info =
  si_spans :: "code_span list"
  si_identifiers :: "string list"
  si_imports :: "string list"
  si_calls :: "(int \<times> string) list"
  si_symbols :: "(int \<times> string) list"
  si_partial :: bool

definition no_info :: syntax_info where
  "no_info = \<lparr>si_spans = [], si_identifiers = [], si_imports = [], si_calls = [], si_symbols = [], si_partial = False\<rparr>"

type_synonym syntax_table = "(string \<times> syntax_info) list"
type_synonym source_table = "(string \<times> string list) list"

text \<open>
  \<open>metadata.get(path, {})\<close>: every key of an absent entry reads as empty. An entry of the table that is
  itself empty counts as partial, like one with that key.
\<close>

definition info_of :: "syntax_table \<Rightarrow> string \<Rightarrow> syntax_info" where
  "info_of m path = (case map_of m path of None \<Rightarrow> no_info | Some i \<Rightarrow> i)"

subsection \<open>Words and names in text\<close>

text \<open>\<open>re.sub(r"([a-z0-9])([A-Z])", r"\1 \2", value)\<close>\<close>

fun split_humps :: "string \<Rightarrow> string" where
  "split_humps (a # b # cs) =
     (if (is_lower_ascii a \<or> is_digit a) \<and> is_upper_ascii b then a # CHR '' '' # split_humps (b # cs)
      else a # split_humps (b # cs))"
| "split_humps s = s"

definition common_words :: "string list" where
  "common_words =
     [''java'', ''main'', ''src'', ''test'', ''tests'', ''class'', ''public'', ''return'', ''const'', ''void'']"

definition name_words :: "string \<Rightarrow> string list" where
  "name_words value =
     remdups (filter (\<lambda>w. w \<notin> set common_words)
       (map lower (filter (\<lambda>w. 3 \<le> length w) (runs (\<lambda>c. is_upper_ascii c \<or> is_lower_ascii c) (split_humps value)))))"

definition quotes :: "char list" where "quotes = [CHR 0x22, CHR 0x27]"

text \<open>\<open>re.findall(r"[\"']([^\"']+)[\"']", statement)\<close>\<close>

function quoted_parts :: "string \<Rightarrow> string list" where
  "quoted_parts [] = []"
| "quoted_parts (c # cs) =
     (let body = takeWhile (\<lambda>x. x \<notin> set quotes) cs; rest = dropWhile (\<lambda>x. x \<notin> set quotes) cs in
      if c \<in> set quotes \<and> body \<noteq> [] \<and> rest \<noteq> [] then body # quoted_parts (drop 1 rest)
      else quoted_parts cs)"
  by pat_completeness auto
termination
  by (relation "measure length") (auto simp: less_Suc_eq_le intro: le_trans [OF diff_le_self length_dropWhile_le])

text \<open>\<open>re.findall(r"(?:from|import)\s+([\w.]+)", statement)\<close>\<close>

definition keyword_at :: "string \<Rightarrow> string option" where
  "keyword_at s =
     (if starts_with ''from'' s then Some (drop 4 s) else if starts_with ''import'' s then Some (drop 6 s) else None)"

definition module_char :: "char \<Rightarrow> bool" where
  "module_char c \<longleftrightarrow> word_char c \<or> c = CHR ''.''"

definition module_at :: "string \<Rightarrow> (string \<times> string) option" where
  "module_at s =
     (case keyword_at s of
        None \<Rightarrow> None
      | Some rest \<Rightarrow>
          (let t = dropWhile (\<lambda>c. c \<in> white) rest; name = takeWhile module_char t in
           if t = rest \<or> name = [] then None else Some (name, drop (length name) t)))"

lemma module_at_shorter: "module_at s = Some (m, rest) \<Longrightarrow> length rest < length s"
proof -
  assume m: "module_at s = Some (m, rest)"
  then obtain k where k: "keyword_at s = Some k" by (auto simp: module_at_def split: option.splits)
  then have "length k < length s" by (cases s) (auto simp: keyword_at_def split: if_splits)
  moreover have "length rest \<le> length (dropWhile (\<lambda>c. c \<in> white) k)"
    using m k by (auto simp: module_at_def Let_def split: if_splits)
  moreover have "length (dropWhile (\<lambda>c. c \<in> white) k) \<le> length k" by (rule length_dropWhile_le)
  ultimately show ?thesis by simp
qed

function imported_names :: "string \<Rightarrow> string list" where
  "imported_names [] = []"
| "imported_names (c # cs) =
     (case module_at (c # cs) of
        Some (m, rest) \<Rightarrow> m # imported_names rest
      | None \<Rightarrow> imported_names cs)"
  by pat_completeness auto
termination by (relation "measure length") (auto dest!: module_at_shorter)

text \<open>\<open>re.findall(r"\b[A-Za-z_$][\w$]*\b", line)\<close>: after a name the pattern gives back characters to end at a boundary.\<close>

definition name_start :: "char \<Rightarrow> bool" where
  "name_start c \<longleftrightarrow> is_upper_ascii c \<or> is_lower_ascii c \<or> c = CHR ''_'' \<or> c = CHR ''$''"

text \<open>The longest tail after a character behind which there is a boundary.\<close>

fun name_tail :: "char \<Rightarrow> string \<Rightarrow> string option" where
  "name_tail l [] = (if word_edge (Some l) [] then Some [] else None)"
| "name_tail l (c # cs) =
     (case (if word_char c \<or> c = CHR ''$'' then name_tail c cs else None) of
        Some m \<Rightarrow> Some (c # m)
      | None \<Rightarrow> if word_edge (Some l) (c # cs) then Some [] else None)"

definition name_at :: "char option \<Rightarrow> string \<Rightarrow> string option" where
  "name_at before s =
     (case s of
        [] \<Rightarrow> None
      | c # cs \<Rightarrow> if word_edge before s \<and> name_start c then map_option (Cons c) (name_tail c cs) else None)"

lemma name_at_nonempty: "name_at before s = Some m \<Longrightarrow> m \<noteq> []"
  by (auto simp: name_at_def split: list.splits if_splits)

function names_in :: "char option \<Rightarrow> string \<Rightarrow> string list" where
  "names_in before [] = []"
| "names_in before (c # cs) =
     (case name_at before (c # cs) of
        Some m \<Rightarrow> m # names_in (Some (last m)) (drop (length m - 1) cs)
      | None \<Rightarrow> names_in (Some c) cs)"
  by pat_completeness auto
termination by (relation "measure (\<lambda>(_, s). length s)") auto

text \<open>\<open>re.findall(r"\b[A-Za-z_]\w{2,}\b", text)\<close>\<close>

definition plain_names :: "string \<Rightarrow> string list" where
  "plain_names t =
     filter (\<lambda>w. 3 \<le> length w \<and> (is_upper_ascii (hd w) \<or> is_lower_ascii (hd w) \<or> hd w = CHR ''_'')) (runs word_char t)"

subsection \<open>Paths\<close>

definition path_name :: "string \<Rightarrow> string" where
  "path_name path = last (split_on CHR ''/'' path)"

definition path_parent :: "string \<Rightarrow> string list" where
  "path_parent path = butlast (split_on CHR ''/'' path)"

text \<open>\<open>PurePosixPath(path).stem\<close>: without the last suffix, unless the dot is the first or the last character.\<close>

definition stem_of :: "string \<Rightarrow> string" where
  "stem_of name =
     (let parts = split_on CHR ''.'' name; stem = join_with CHR ''.'' (butlast parts) in
      if length parts = 1 \<or> stem = [] \<or> last parts = [] then name else stem)"

definition path_stem :: "string \<Rightarrow> string" where
  "path_stem path = stem_of (path_name path)"

text \<open>\<open>str(PurePosixPath(path).with_suffix(""))\<close>\<close>

definition without_suffix :: "string \<Rightarrow> string" where
  "without_suffix path = join_with CHR ''/'' (path_parent path @ [path_stem path])"

text \<open>A relative import, resolved against the directory of the file.\<close>

fun resolve_parts :: "string list \<Rightarrow> string list \<Rightarrow> string list" where
  "resolve_parts parts [] = parts"
| "resolve_parts parts (p # ps) =
     (if p = ''..'' \<and> parts \<noteq> [] then resolve_parts (butlast parts) ps
      else if p \<in> {''.'', ''..'', ''''} then resolve_parts parts ps
      else resolve_parts (parts @ [p]) ps)"

definition quoted_import :: "string \<Rightarrow> string \<Rightarrow> string" where
  "quoted_import path m =
     (if starts_with ''.'' m then join_with CHR ''/'' (resolve_parts (path_parent path) (split_on CHR ''/'' m)) else m)"

definition statement_imports :: "string \<Rightarrow> string \<Rightarrow> string list" where
  "statement_imports path statement =
     map (quoted_import path) (quoted_parts statement) @
     map (map (\<lambda>c. if c = CHR ''.'' then CHR ''/'' else c)) (imported_names statement)"

subsection \<open>Related files\<close>

text \<open>What is known of a changed file: the imports and identifiers of its query.\<close>

record query_info =
  qi_imports :: "string list"
  qi_identifiers :: "string list"

definition related_names :: "(string \<times> string list) list \<Rightarrow> (string \<times> query_info) list \<Rightarrow> string list" where
  "related_names changed m =
     concat (map (\<lambda>(path, ls).
        (case map_of m path of
           Some i \<Rightarrow> qi_identifiers i
         | None \<Rightarrow> plain_names (take 8192 (join_with LF ls)))) changed)"

definition related_imports :: "(string \<times> string list) list \<Rightarrow> (string \<times> query_info) list \<Rightarrow> string list" where
  "related_imports changed m =
     concat (map (\<lambda>(path, ls).
        (case map_of m path of
           Some i \<Rightarrow> concat (map (statement_imports path) (qi_imports i))
         | None \<Rightarrow> [])) changed)"

definition imports_path :: "string list \<Rightarrow> string \<Rightarrow> bool" where
  "imports_path imported path \<longleftrightarrow>
     list_ex (\<lambda>p. path = p \<or> ends_with (CHR ''/'' # p) path \<or>
       without_suffix path = p \<or> ends_with (CHR ''/'' # p) (without_suffix path)) imported"

definition path_score :: "string list \<Rightarrow> string list \<Rightarrow> string list \<Rightarrow> string \<Rightarrow> int" where
  "path_score imported names path_words path =
     (if imports_path imported path then 100 else 0) + (if path_stem path \<in> set names then 30 else 0) +
     4 * int (length (filter (\<lambda>w. w \<in> set path_words) (name_words (path_stem path))))"

definition candidate_paths ::
  "string list \<Rightarrow> (string \<times> string list) list \<Rightarrow> (string \<times> query_info) list \<Rightarrow> (string \<times> int) list" where
  "candidate_paths regular changed m =
     (let names = related_names changed m; imported = related_imports changed m;
          path_words = concat (map (\<lambda>(path, _). name_words (path_stem path)) changed);
          others = sort (remdups (filter (\<lambda>p. p \<notin> fst ` set changed) regular));
          scored = filter (\<lambda>(_, n). n \<noteq> 0) (map (\<lambda>p. (p, path_score imported names path_words p)) others)
      in take max_candidate_files (sort_key (\<lambda>(p, n). (- n, p)) scored))"

subsection \<open>The lines around a place\<close>

definition inside :: "int \<Rightarrow> code_span \<Rightarrow> bool" where
  "inside n s \<longleftrightarrow> sp_start s \<le> n \<and> n \<le> sp_end s"

text \<open>\<open>min(spans, key=...)\<close>: the first of the shortest.\<close>

fun shortest :: "code_span \<Rightarrow> code_span list \<Rightarrow> code_span" where
  "shortest s [] = s"
| "shortest s (t # ts) = shortest (if sp_end t - sp_start t < sp_end s - sp_start s then t else s) ts"

definition span_at :: "code_span list \<Rightarrow> int \<Rightarrow> code_span option" where
  "span_at spans n = (case filter (inside n) spans of [] \<Rightarrow> None | s # ts \<Rightarrow> Some (shortest s ts))"

definition last_lines :: "int \<Rightarrow> int list \<Rightarrow> int list" where
  "last_lines k ns = drop (length ns - nat k) ns"

definition around :: "string list \<Rightarrow> int \<Rightarrow> syntax_info \<Rightarrow> int list" where
  "around ls center info =
     (let n = int (length ls) in
      case span_at (si_spans info) center of
        None \<Rightarrow> [max 1 (center - 15)..min n (center + 15)]
      | Some s \<Rightarrow>
          if sp_end s - sp_start s < max_snippet_lines
          then last_lines max_snippet_lines [max 1 (sp_start s - 2)..min n (sp_end s)]
          else sort (remdups ([sp_start s..min (sp_start s + 4) (n + 1) - 1] @
                 [max (sp_start s) (center - 60)..min (min (sp_end s) (center + 60)) n] @
                 [max (sp_start s) (sp_end s - 31)..min (sp_end s) n])))"

text \<open>\<open>lines[n - 1]\<close>\<close>

definition line_at :: "string list \<Rightarrow> int \<Rightarrow> string" where
  "line_at ls n = (if 1 \<le> n then ls ! nat (n - 1) else ls ! nat (int (length ls) + n - 1))"

definition code_of :: "string list \<Rightarrow> int list \<Rightarrow> string" where
  "code_of ls ns = join_with LF (map (line_at ls) ns)"

subsection \<open>Candidates\<close>

record snippet =
  ca_path :: string
  ca_numbers :: "int list"
  ca_code :: string
  ca_score :: int
  ca_protected :: bool
  ca_groups :: "nat list"

definition line_hits :: "string list \<Rightarrow> string list \<Rightarrow> (int \<times> int) list" where
  "line_hits ls identifiers =
     map (\<lambda>(n, l). (int n + 1, int (length (filter (\<lambda>x. x \<in> set identifiers) (remdups (names_in None l))))))
       (enumerate 0 ls)"

definition ranked_hits :: "string list \<Rightarrow> syntax_info \<Rightarrow> string list \<Rightarrow> (int \<times> int) list" where
  "ranked_hits ls info identifiers =
     (let hits = sort_key (\<lambda>(n, k). (- k, n)) (filter (\<lambda>(n, k). k \<noteq> 0) (line_hits ls identifiers));
          starts = map (\<lambda>s. (sp_start s, 0)) (take 2 (si_spans info))
      in if hits \<noteq> [] then hits else if starts \<noteq> [] then starts else [(1, 0)])"

definition direct_starts :: "syntax_info \<Rightarrow> string list \<Rightarrow> int list" where
  "direct_starts info calls = sort (remdups (map sp_start (filter (\<lambda>s. sp_name s \<in> set calls) (si_spans info))))"

fun chunks_of ::
  "string \<Rightarrow> int \<Rightarrow> string list \<Rightarrow> syntax_info \<Rightarrow> int list \<Rightarrow> nat \<Rightarrow> int list list \<Rightarrow> (int \<times> int) list \<Rightarrow> snippet list" where
  "chunks_of path score ls info direct g seen [] = []"
| "chunks_of path score ls info direct g seen ((center, k) # hits) =
     (let ns = around ls center info; code = code_of ls ns in
      if ns \<in> set seen \<or> 14000 < int (length (utf8 code)) then chunks_of path score ls info direct g seen hits
      else
        \<lparr>ca_path = path, ca_numbers = ns, ca_code = code, ca_score = score + 8 * k,
         ca_protected = (center \<in> set direct), ca_groups = [g]\<rparr> #
        (if length seen = 3 then [] else chunks_of path score ls info direct g (seen @ [ns]) hits))"

definition file_snippets ::
  "source_table \<Rightarrow> syntax_table \<Rightarrow> string list \<Rightarrow> string list \<Rightarrow> nat \<Rightarrow> string \<times> int \<Rightarrow> snippet list" where
  "file_snippets sources m identifiers calls g p =
     (case map_of sources (fst p) of
        None \<Rightarrow> []
      | Some ls \<Rightarrow>
          if ls = [] then []
          else
            (let info = info_of m (fst p); direct = direct_starts info calls
             in chunks_of (fst p) (snd p) ls info direct g []
                  (map (\<lambda>n. (n, 0)) direct @ ranked_hits ls info identifiers)))"

definition snippets ::
  "(string \<times> int) list \<Rightarrow> source_table \<Rightarrow> syntax_table \<Rightarrow> string list \<Rightarrow> string list \<Rightarrow> nat \<Rightarrow> snippet list" where
  "snippets paths sources m identifiers calls g =
     take max_pool
       (sort_key (\<lambda>c. (\<not> ca_protected c, - ca_score c, ca_path c, ca_numbers c))
         (concat (map (file_snippets sources m identifiers calls g) paths)))"

subsection \<open>Queries\<close>

text \<open>\<open>[x for row in zip_longest(*xss) for x in row if x is not None]\<close>\<close>

function interleave :: "'a list list \<Rightarrow> 'a list" where
  "interleave xss =
     (let left = filter (\<lambda>xs. xs \<noteq> []) xss in if left = [] then [] else map hd left @ interleave (map tl left))"
  by pat_completeness auto

lemma sum_tl_less: "xss \<noteq> [] \<Longrightarrow> \<forall>xs \<in> set xss. xs \<noteq> [] \<Longrightarrow> sum_list (map length (map tl xss)) < sum_list (map length xss)"
proof (induction xss)
  case (Cons xs xss)
  then have "length (tl xs) < length xs" by (cases xs) auto
  moreover have "sum_list (map length (map tl xss)) \<le> sum_list (map length xss)"
    by (auto simp: comp_def intro: sum_list_mono)
  ultimately show ?case by simp
qed simp

lemma sum_filter_nonempty: "sum_list (map length (filter (\<lambda>xs. xs \<noteq> []) xss)) = sum_list (map length xss)"
  by (induction xss) auto

termination interleave
proof (relation "measure (\<lambda>xss. sum_list (map length xss))")
  fix xss :: "'a list list" and left
  assume left: "left = filter (\<lambda>xs. xs \<noteq> []) xss" "left \<noteq> []"
  have "sum_list (map length (map tl left)) < sum_list (map length left)"
    by (rule sum_tl_less [OF left(2)]) (simp add: left(1))
  then show "(map tl left, xss) \<in> measure (\<lambda>xss. sum_list (map length xss))"
    unfolding left(1) sum_filter_nonempty in_measure .
qed simp

declare interleave.simps [simp del]

record search_query =
  qu_path :: string
  qu_numbers :: "int list"
  qu_identifiers :: "string list"
  qu_calls :: "string list"
  qu_code :: string

text \<open>A group is a function, or thirty lines where there is none.\<close>

type_synonym group_place = "int \<times> int + int"

definition group_key :: "syntax_info \<Rightarrow> int \<Rightarrow> group_place" where
  "group_key info n =
     (case span_at (si_spans info) n of Some s \<Rightarrow> Inl (sp_start s, sp_end s) | None \<Rightarrow> Inr (n div 30))"

definition names_between :: "(int \<times> string) list \<Rightarrow> int \<Rightarrow> int \<Rightarrow> string list" where
  "names_between xs a b = remdups (map snd (filter (\<lambda>x. a \<le> fst x \<and> fst x \<le> b) xs))"

text \<open>\<open>min(numbers)\<close> of no numbers raises.\<close>

definition query_at :: "string \<Rightarrow> string list \<Rightarrow> syntax_info \<Rightarrow> int \<Rightarrow> exn + search_query" where
  "query_at path ls info n =
     (let ns = around ls n info in
      case span_at (si_spans info) n of
        Some s \<Rightarrow> Inr \<lparr>qu_path = path, qu_numbers = ns, qu_identifiers = names_between (si_symbols info) (sp_start s) (sp_end s),
                     qu_calls = names_between (si_calls info) (sp_start s) (sp_end s), qu_code = code_of ls ns\<rparr>
      | None \<Rightarrow>
          if ns = [] then Inl (ValueError ''min() iterable argument is empty'')
          else Inr \<lparr>qu_path = path, qu_numbers = ns,
                    qu_identifiers = names_between (si_symbols info) (Min (set ns)) (Max (set ns)),
                    qu_calls = names_between (si_calls info) (Min (set ns)) (Max (set ns)), qu_code = code_of ls ns\<rparr>)"

fun file_groups ::
  "string \<Rightarrow> string list \<Rightarrow> syntax_info \<Rightarrow> (group_place \<times> search_query) list \<Rightarrow> head_line list \<Rightarrow> exn + search_query list" where
  "file_groups path ls info groups [] = Inr (map snd groups)"
| "file_groups path ls info groups (row # rows) =
     (let key = group_key info (hl_line row) in
      if \<not> hl_changed row \<or> key \<in> fst ` set groups then file_groups path ls info groups rows
      else proceed (query_at path ls info (hl_line row)) (\<lambda>q. file_groups path ls info (groups @ [(key, q)]) rows))"

fun file_queries ::
  "review_file list \<Rightarrow> (string \<times> string) list \<Rightarrow> source_table \<Rightarrow> syntax_table \<Rightarrow> exn + search_query list list" where
  "file_queries [] paths sources m = Inr []"
| "file_queries (f # fs) paths sources m =
     (case map_of paths (wf_id f) of
        None \<Rightarrow> Inl KeyError
      | Some path \<Rightarrow>
          proceed (case map_of sources path of
                     None \<Rightarrow> Inr []
                   | Some ls \<Rightarrow> if ls = [] then Inr [] else file_groups path ls (info_of m path) [] (wf_lines f)) (\<lambda>qs.
          proceed (file_queries fs paths sources m) (\<lambda>rest. Inr (qs # rest))))"

definition queries ::
  "review_file list \<Rightarrow> (string \<times> string) list \<Rightarrow> source_table \<Rightarrow> syntax_table \<Rightarrow> exn + search_query list \<times> nat" where
  "queries files paths sources m =
     proceed (file_queries files paths sources m) (\<lambda>per_file.
     let fair = interleave per_file in Inr (take max_groups fair, length fair - max_groups))"

subsection \<open>Files to read and the pool\<close>

definition query_paths :: "string list \<Rightarrow> string list \<Rightarrow> syntax_table \<Rightarrow> search_query \<Rightarrow> (string \<times> int) list" where
  "query_paths regular changed m q =
     candidate_paths (filter (\<lambda>p. p \<notin> set changed) regular) [(qu_path q, splitlines (qu_code q))]
       [(qu_path q, \<lparr>qi_imports = si_imports (info_of m (qu_path q)), qi_identifiers = sort (qu_identifiers q)\<rparr>)]"

fun choose_paths :: "(string \<times> int) list \<Rightarrow> (string \<times> int) list \<Rightarrow> (string \<times> int) list" where
  "choose_paths chosen [] = chosen"
| "choose_paths chosen ((p, n) # rest) =
     (if p \<in> fst ` set chosen then choose_paths (map (\<lambda>(q, k). (q, if q = p then max k n else k)) chosen) rest
      else if length chosen < 12 then choose_paths (chosen @ [(p, max 0 n)]) rest
      else choose_paths chosen rest)"

definition discover ::
  "string list \<Rightarrow> search_query list \<Rightarrow> syntax_table \<Rightarrow> string list \<Rightarrow> (string \<times> int) list \<times> (string \<times> int) list list" where
  "discover regular groups m changed =
     (let per_group = map (query_paths regular changed m) groups in (choose_paths [] (interleave per_group), per_group))"

definition calls_into :: "syntax_table \<Rightarrow> search_query \<Rightarrow> string \<Rightarrow> bool" where
  "calls_into m q path \<longleftrightarrow> list_ex (\<lambda>s. sp_name s \<in> set (qu_calls q)) (si_spans (info_of m path))"

fun query_pool ::
  "source_table \<Rightarrow> syntax_table \<Rightarrow> string list \<Rightarrow> nat \<times> search_query \<times> (string \<times> int) list \<Rightarrow> snippet list" where
  "query_pool sources m changed (i, q, paths) =
     snippets
       ((qu_path q, 100) #
        map (\<lambda>p. (p, 90)) (filter (calls_into m q) (sort (remdups (filter (\<lambda>p. p \<noteq> qu_path q) changed)))) @ paths)
       sources m (qu_identifiers q) (qu_calls q) i"

definition same_chunk :: "snippet \<Rightarrow> snippet \<Rightarrow> bool" where
  "same_chunk c d \<longleftrightarrow> ca_path c = ca_path d \<and> ca_numbers c = ca_numbers d"

fun merge_pool :: "snippet list \<Rightarrow> snippet list \<Rightarrow> snippet list" where
  "merge_pool merged [] = merged"
| "merge_pool merged (c # cs) =
     (if list_ex (same_chunk c) merged
      then merge_pool (map (\<lambda>d. if same_chunk c d then d\<lparr>ca_groups := sort (remdups (ca_groups d @ ca_groups c))\<rparr> else d) merged) cs
      else if length merged < max_pool then merge_pool (merged @ [c]) cs
      else merge_pool merged cs)"

definition pool_for ::
  "search_query list \<Rightarrow> (string \<times> int) list list \<Rightarrow> source_table \<Rightarrow> syntax_table \<Rightarrow> string list \<Rightarrow> snippet list" where
  "pool_for groups per_group sources m changed =
     (let pools = map (query_pool sources m changed) (enumerate 0 (zip groups per_group)) in
      merge_pool (merge_pool [] (interleave (map (filter ca_protected) pools)))
        (interleave (map (filter (\<lambda>c. \<not> ca_protected c)) pools)))"

fun add_indices :: "nat list \<Rightarrow> nat list \<Rightarrow> nat list" where
  "add_indices result [] = result"
| "add_indices result (i # is) = add_indices (if i \<in> set result then result else result @ [i]) is"

definition prioritized :: "snippet list \<Rightarrow> nat list list \<Rightarrow> nat list" where
  "prioritized pool orders =
     add_indices (filter (\<lambda>i. ca_protected (pool ! i)) [0..<length pool]) (interleave orders)"

definition ranking_query :: "string \<Rightarrow> string" where
  "ranking_query code =
     ''Find implementations and callers needed to understand this changed code:'' @ [LF] @ take 1800 code"

end
