(* ===== verification/Related_Context.thy ===== *)
theory Related_Context
  imports Retrieval Review_Output GitHub_Client Pipeline "HOL-Library.AList" Complex_Main
begin

section \<open>Related source of the head commit\<close>

text \<open>
  \<^verbatim>\<open>app/domain/review/context.py\<close>, \<^verbatim>\<open>reranker.py\<close>, \<^verbatim>\<open>context_selection.py\<close> and \<^verbatim>\<open>supplement.py\<close>: reading
  files of the pinned commit, ranking them, and adding whole chunks of them to the payload under its
  bounds.

  Parameters: the requests to GitHub, the UTF-8 decoder, the process that reads the syntax of files
  (\<open>None\<close> when it fails, answers too much or no object), the ranking service, and the deadlines: an
  expired \<open>asyncio.timeout\<close> is a \<open>TimeoutError\<close> of an action. Reads that the code starts together are
  made one after the other.
\<close>

subsection \<open>Reading a file\<close>

record 'w ranking_service =
  rg_post :: "string \<Rightarrow> ('w, http_response) io"
  rg_loads :: "string \<Rightarrow> exn + json"
  rg_float :: "string \<Rightarrow> rat option"
  rg_elapsed :: string
  rg_limit :: "('w, unit) io"

record 'w source_tools =
  st_get :: "string \<Rightarrow> ('w, json) io"
  st_decode :: "string \<Rightarrow> string option"
  st_inspect :: "source_table \<Rightarrow> ('w, syntax_table option) io"
  st_ranker :: "'w ranking_service option"
  st_deadline :: "('w, unit) io"

definition quote_path :: "string \<Rightarrow> string" where
  "quote_path path = join_with CHR ''/'' (map quote (split_on CHR ''/'' path))"

definition read_tree :: "'w source_tools \<Rightarrow> string \<Rightarrow> string \<Rightarrow> ('w, json) io" where
  "read_tree st prefix sha =
     io_bind (st_get st (prefix @ ''/git/commits/'' @ sha)) (\<lambda>commit.
     case as_str (json_get ''sha'' (json_get ''tree'' commit)) of
       None \<Rightarrow> io_raise (ValueError ''INVALID_TREE'')
     | Some tree_sha \<Rightarrow>
         if \<not> is_hex 40 tree_sha then io_raise (ValueError ''INVALID_TREE'')
         else
           io_bind (st_get st (prefix @ ''/git/trees/'' @ tree_sha @ ''?recursive=1'')) (\<lambda>tree.
           if as_arr (json_get ''tree'' tree) = None then io_raise (ValueError ''INVALID_TREE'') else io_ret tree))"

definition regular_entry :: "json \<Rightarrow> bool" where
  "regular_entry t \<longleftrightarrow>
     as_str (json_get ''path'' t) \<noteq> None \<and> json_get ''type'' t = JStr ''blob'' \<and>
     json_get ''mode'' t \<in> {JStr ''100644'', JStr ''100755''}"

definition regular_files :: "json \<Rightarrow> string list" where
  "regular_files tree =
     (case as_arr (json_get ''tree'' tree) of
        None \<Rightarrow> []
      | Some ts \<Rightarrow> remdups (map (\<lambda>t. the (as_str (json_get ''path'' t))) (filter regular_entry (take 5000 ts))))"

definition no_source :: exn where
  "no_source = ValueError ''SOURCE_UNAVAILABLE''"

text \<open>\<open>exclusion(path, "", ignored)\<close> as a condition.\<close>

definition closed_path :: "string \<Rightarrow> string list \<Rightarrow> bool" where
  "closed_path path ignored \<longleftrightarrow> exclusion (JStr path) (JStr []) ignored max_patch \<noteq> None"

definition encoded_content :: "json \<Rightarrow> string option" where
  "encoded_content data =
     (case (as_int (json_get ''size'' data), as_str (json_get ''content'' data)) of
        (Some n, Some t) \<Rightarrow>
          if json_get ''type'' data = JStr ''file'' \<and> json_get ''encoding'' data = JStr ''base64'' \<and>
             0 \<le> n \<and> n \<le> 200000 \<and> int (length t) \<le> 280000
          then Some t else None
      | _ \<Rightarrow> None)"

definition decoded_lines :: "(string \<Rightarrow> string option) \<Rightarrow> json \<Rightarrow> string list option" where
  "decoded_lines decode data =
     (case encoded_content data of
        None \<Rightarrow> None
      | Some t \<Rightarrow>
          (case b64_decode (concat (words t)) of
             None \<Rightarrow> None
           | Some raw \<Rightarrow>
               (case decode raw of
                  None \<Rightarrow> None
                | Some txt \<Rightarrow>
                    if 200000 < int (length raw) \<or> CHR 0x00 \<in> set txt \<or> has_secret txt then None
                    else Some (splitlines txt))))"

definition source ::
  "'w source_tools \<Rightarrow> string \<Rightarrow> string \<Rightarrow> string list option \<Rightarrow> string \<Rightarrow> ('w, string list) io" where
  "source st prefix sha regular path =
     (if closed_path path [] \<or> \<not> is_hex 40 sha then io_raise no_source
      else
        io_bind (case regular of
                   Some paths \<Rightarrow> io_ret paths
                 | None \<Rightarrow> io_bind (read_tree st prefix sha) (\<lambda>tree. io_ret (regular_files tree))) (\<lambda>paths.
        if path \<notin> set paths then io_raise no_source
        else
          io_bind (st_get st (prefix @ ''/contents/'' @ quote_path path @ ''?ref='' @ sha)) (\<lambda>data.
          case decoded_lines (st_decode st) data of
            None \<Rightarrow> io_raise no_source
          | Some ls \<Rightarrow> io_ret ls)))"

subsection \<open>The metadata process\<close>

definition inspect_sources :: "'w source_tools \<Rightarrow> source_table \<Rightarrow> ('w, syntax_table) io" where
  "inspect_sources st sources =
     (if sources = [] then io_ret []
      else
        io_bind (st_inspect st sources) (\<lambda>r.
        case r of
          None \<Rightarrow> io_ret []
        | Some m \<Rightarrow> io_ret (if set (map fst m) = set (map fst sources) then m else [])))"

subsection \<open>Ranking\<close>

definition rank_model :: string where "rank_model = ''cross-encoder/ms-marco-MiniLM-L6-v2''"
definition rank_revision :: string where "rank_revision = ''233902d25c440f23af6f7d6e94d2946bac0bee0a''"

definition rank_body :: "string \<Rightarrow> snippet list \<Rightarrow> string" where
  "rank_body query cs =
     dumps (JObj [(''query'', JStr (ranking_query query)), (''documents'', JArr (map (\<lambda>c. JStr (ca_code c)) cs))])"

definition invalid_ranking :: exn where
  "invalid_ranking = ValueError ''INVALID_RANKING''"

definition ranking_answer :: "'w ranking_service \<Rightarrow> http_response \<Rightarrow> exn + json" where
  "ranking_answer rs r =
     (if \<not> (200 \<le> hs_status r \<and> hs_status r < 300) then Inl HTTPError
      else if 8192 < length (concat (hs_chunks r)) then Inl invalid_ranking
      else if hs_cut r then Inl HTTPError
      else rg_loads rs (concat (hs_chunks r)))"

text \<open>
  \<open>math.isfinite\<close> on a number: an integer beyond the range of a double raises, a value of another type
  is invalid.
\<close>

definition double_limit :: int where "double_limit = 2 ^ 1024 - 2 ^ 970"

fun score_value :: "(string \<Rightarrow> rat option) \<Rightarrow> json \<Rightarrow> exn + rat" where
  "score_value float (JInt n) = (if double_limit \<le> \<bar>n\<bar> then Inl OverflowError else Inr (of_int n))"
| "score_value float (JFloat t) = (case float t of None \<Rightarrow> Inl invalid_ranking | Some x \<Rightarrow> Inr x)"
| "score_value float _ = Inl invalid_ranking"

fun score_values :: "(string \<Rightarrow> rat option) \<Rightarrow> json list \<Rightarrow> exn + rat list" where
  "score_values float [] = Inr []"
| "score_values float (v # vs) =
     proceed (score_value float v) (\<lambda>x. proceed (score_values float vs) (\<lambda>xs. Inr (x # xs)))"

text \<open>The order of an answer with the number of truncated documents.\<close>

definition read_ranking :: "'w ranking_service \<Rightarrow> nat \<Rightarrow> json \<Rightarrow> exn + nat list \<times> int" where
  "read_ranking rs n data =
     (if \<not> is_obj data then Inl AttributeError
      else if json_get ''model'' data \<noteq> JStr rank_model \<or> json_get ''revision'' data \<noteq> JStr rank_revision
      then Inl invalid_ranking
      else
        (case as_arr (json_get ''scores'' data) of
           None \<Rightarrow> Inl invalid_ranking
         | Some vs \<Rightarrow>
             if length vs \<noteq> n then Inl invalid_ranking
             else
               proceed (score_values (rg_float rs) vs) (\<lambda>xs.
               case as_int (json_get ''truncated_documents'' data) of
                 None \<Rightarrow> Inl invalid_ranking
               | Some k \<Rightarrow>
                   if 0 \<le> k \<and> k \<le> int n then Inr (sort_key (\<lambda>i. (- (xs ! i), i)) [0..<n], k)
                   else Inl invalid_ranking)))"

fun rank_failure :: "exn \<Rightarrow> string option" where
  "rank_failure TimeoutError = Some ''RERANK_TIMEOUT''"
| "rank_failure HTTPError = Some ''RERANK_UNAVAILABLE_OR_INVALID''"
| "rank_failure (ValueError _) = Some ''RERANK_UNAVAILABLE_OR_INVALID''"
| "rank_failure TypeError = Some ''RERANK_UNAVAILABLE_OR_INVALID''"
| "rank_failure AttributeError = Some ''RERANK_UNAVAILABLE_OR_INVALID''"
| "rank_failure _ = None"

text \<open>\<open>LocalReranker.rank\<close>\<close>

definition rank :: "'w ranking_service \<Rightarrow> string \<Rightarrow> snippet list \<Rightarrow> ('w, nat list \<times> (string \<times> json) list) io" where
  "rank rs query cs =
     (let fallback = [0..<length cs]; count = (''candidate_count'', JInt (int (length cs)));
          rules = [(''mode'', JStr ''rules''), count]; body = rank_body query cs;
          time = (''duration_ms'', JFloat (rg_elapsed rs))
      in if cs = [] then io_ret (fallback, rules)
         else if 196608 < length (utf8 body) \<or> has_secret body
         then io_ret (fallback, rules @ [(''fallback'', JStr ''UNSAFE_RERANK_INPUT'')])
         else
           io_try
             (io_bind (rg_post rs body) (\<lambda>r.
              io_bind (io_of (proceed (ranking_answer rs r) (read_ranking rs (length cs)))) (\<lambda>(order, k).
              io_ret (order,
                [(''mode'', JStr ''local_reranker''), count, (''model'', JStr rank_model),
                 (''revision'', JStr rank_revision), (''truncated_documents'', JInt k), time]))))
             (\<lambda>e. case rank_failure e of
                    None \<Rightarrow> io_raise e
                  | Some reason \<Rightarrow> io_ret (fallback, rules @ [(''fallback'', JStr reason), time])))"

end
