(* ===== verification/Context_Selection.thy ===== *)
theory Context_Selection
  imports Related_Context
begin

section \<open>Adding related source to the payload\<close>

text \<open>
  \<^verbatim>\<open>app/domain/review/context_selection.py\<close> and \<^verbatim>\<open>supplement.py\<close>: what of the related source enters the
  payload. A chunk is added whole or not at all. The dictionary of the code from paths to the files of
  the payload is one from paths to their identifiers.
\<close>

definition context_bytes :: "review_context \<Rightarrow> nat" where
  "context_bytes c = length (utf8 (payload_text c))"

subsection \<open>One chunk\<close>

record gathering =
  ga_context :: review_context
  ga_anchors :: "(string \<times> string \<times> int list) list"
  ga_by_path :: "(string \<times> string) list"
  ga_notes :: "(string \<times> string) list"
  ga_missing :: nat

definition add_note :: "string \<Rightarrow> string \<Rightarrow> gathering \<Rightarrow> gathering" where
  "add_note fid reason g = g\<lparr>ga_notes := ga_notes g @ [(fid, reason)]\<rparr>"

text \<open>\<open>{r["line"]: r for r in lines}\<close>\<close>

definition rows_by_line :: "head_line list \<Rightarrow> (int \<times> head_line) list" where
  "rows_by_line ls = fold (\<lambda>r. AList.update (hl_line r) r) ls []"

definition source_lines :: "source_table \<Rightarrow> string \<Rightarrow> string list" where
  "source_lines sources path = (case map_of sources path of None \<Rightarrow> [] | Some ls \<Rightarrow> ls)"

definition plain_line :: "string list \<Rightarrow> int \<Rightarrow> head_line" where
  "plain_line ls n = \<lparr>hl_line = n, hl_code = line_at ls n, hl_changed = False\<rparr>"

definition with_lines :: "string list \<Rightarrow> int list \<Rightarrow> head_line list \<Rightarrow> head_line list" where
  "with_lines ls ns prior =
     (let rows = rows_by_line prior in
      sort_key hl_line (map snd rows @ map (plain_line ls) (remdups (filter (\<lambda>n. n \<notin> fst ` set rows) ns))))"

definition set_file :: "review_file \<Rightarrow> review_file list \<Rightarrow> review_file list" where
  "set_file f fs = map (\<lambda>x. if wf_id x = wf_id f then f else x) fs"

definition related_file :: "nat \<Rightarrow> string \<Rightarrow> review_file" where
  "related_file n path =
     \<lparr>wf_id = ''c'' @ digits (n + 1), wf_language = last (split_on CHR ''.'' path), wf_role = Some ''related'', wf_lines = []\<rparr>"

text \<open>The file of a path with the files of the payload it belongs to, and whether it is new.\<close>

definition chunk_file :: "gathering \<Rightarrow> string \<Rightarrow> (review_file \<times> review_file list \<times> bool) option" where
  "chunk_file g path =
     (let files = cx_files (ga_context g) in
      case map_of (ga_by_path g) path of
        Some fid \<Rightarrow> map_option (\<lambda>f. (f, files, False)) (find (\<lambda>f. wf_id f = fid) files)
      | None \<Rightarrow>
          if 4 \<le> length (filter (\<lambda>f. wf_role f = Some ''related'') files) then None
          else (let f = related_file (length files) path in Some (f, files @ [f], True)))"

definition append_chunk ::
  "nat \<Rightarrow> nat \<Rightarrow> source_table \<Rightarrow> bool \<Rightarrow> string \<times> int list \<Rightarrow> gathering \<Rightarrow> gathering" where
  "append_chunk per_file limit sources protected chunk g =
     (case chunk of (path, ns) \<Rightarrow>
        let refuse = (\<lambda>fid reason g. (add_note fid reason g)\<lparr>ga_missing := ga_missing g + (if protected then 1 else 0)\<rparr>) in
        case chunk_file g path of
          None \<Rightarrow> refuse [] ''RELATED_CONTEXT_LIMIT'' g
        | Some (f, files, fresh) \<Rightarrow>
            let f' = f\<lparr>wf_lines := with_lines (source_lines sources path) ns (wf_lines f)\<rparr>;
                c' = (ga_context g)\<lparr>cx_files := set_file f' files\<rparr>
            in if per_file < wire_size (review_file_json f') \<or> limit < context_bytes c'
               then refuse (if fresh then [] else wf_id f) ''CONTEXT_LIMIT'' g
               else g\<lparr>ga_context := c', ga_by_path := AList.update path (wf_id f) (ga_by_path g),
                      ga_anchors := AList.update (wf_id f) (path, map hl_line (wf_lines f')) (ga_anchors g)\<rparr>)"

subsection \<open>Reading\<close>

definition readable :: "exn \<Rightarrow> bool" where
  "readable e = (case e of GitHubFailure _ _ \<Rightarrow> True | ValueError _ \<Rightarrow> True | _ \<Rightarrow> False)"

definition try_source ::
  "'w source_tools \<Rightarrow> string \<Rightarrow> string \<Rightarrow> string list \<Rightarrow> string \<Rightarrow> ('w, string list option) io" where
  "try_source st prefix sha regular path =
     io_try (io_bind (source st prefix sha (Some regular) path) (\<lambda>ls. io_ret (Some ls)))
       (\<lambda>e. if readable e then io_ret None else io_raise e)"

fun read_sources ::
  "'w source_tools \<Rightarrow> string \<Rightarrow> string \<Rightarrow> string list \<Rightarrow> string list \<Rightarrow> (string \<times> string list option) list \<Rightarrow>
   ('w, (string \<times> string list option) list) io" where
  "read_sources st prefix sha regular [] loaded = io_ret loaded"
| "read_sources st prefix sha regular (p # ps) loaded =
     io_bind (try_source st prefix sha regular p) (\<lambda>r. read_sources st prefix sha regular ps (AList.update p r loaded))"

text \<open>The tree with the note of what is missing of it.\<close>

definition search_tree :: "'w source_tools \<Rightarrow> string \<Rightarrow> string \<Rightarrow> ('w, json \<times> (string \<times> string) list) io" where
  "search_tree st prefix sha =
     io_try
       (io_bind (read_tree st prefix sha) (\<lambda>tree.
        io_ret (tree,
          if json_true (json_get ''truncated'' tree) \<or> (case as_arr (json_get ''tree'' tree) of None \<Rightarrow> False | Some ts \<Rightarrow> 5000 < length ts)
          then [([], ''TREE_TRUNCATED'')] else [])))
       (\<lambda>e. if readable e then io_ret (JObj [(''tree'', JArr [])], [([], ''RELATED_SEARCH_UNAVAILABLE'')])
            else io_raise e)"

definition matches_source :: "string list \<Rightarrow> head_line \<Rightarrow> bool" where
  "matches_source ls r \<longleftrightarrow> hl_line r \<le> int (length ls) \<and> line_at ls (hl_line r) = hl_code r"

text \<open>The changed files whose supplied lines are those of the commit, and the notes of the others.\<close>

fun safe_sources ::
  "(string \<times> string) list \<Rightarrow> (string \<times> string list option) list \<Rightarrow> review_file list \<Rightarrow> source_table \<Rightarrow> (string \<times> string) list \<Rightarrow>
   exn + source_table \<times> (string \<times> string) list" where
  "safe_sources changed loaded [] safe notes = Inr (safe, notes)"
| "safe_sources changed loaded (f # fs) safe notes =
     (case map_of changed (wf_id f) of
        None \<Rightarrow> Inl KeyError
      | Some path \<Rightarrow>
          (case map_of loaded path of
             Some (Some ls) \<Rightarrow>
               if list_all (matches_source ls) (wf_lines f)
               then safe_sources changed loaded fs (AList.update path ls safe) notes
               else safe_sources changed loaded fs safe (notes @ [(wf_id f, ''SOURCE_UNAVAILABLE'')])
           | _ \<Rightarrow> safe_sources changed loaded fs safe (notes @ [(wf_id f, ''SOURCE_UNAVAILABLE'')])))"

definition related_sources :: "(string \<times> string list option) list \<Rightarrow> source_table \<times> (string \<times> string) list" where
  "related_sources loaded =
     (concat (map (\<lambda>(p, r). case r of None \<Rightarrow> [] | Some ls \<Rightarrow> [(p, ls)]) loaded),
      concat (map (\<lambda>(p, r). case r of None \<Rightarrow> [([], ''RELATED_SOURCE_UNAVAILABLE'')] | Some ls \<Rightarrow> []) loaded))"

text \<open>\<open>{**a, **b}\<close>\<close>

definition joined :: "(string \<times> 'a) list \<Rightarrow> (string \<times> 'a) list \<Rightarrow> (string \<times> 'a) list" where
  "joined a b = fold (\<lambda>(k, v). AList.update k v) b a"

subsection \<open>Ranking the pool\<close>

fun rank_groups ::
  "'w ranking_service \<Rightarrow> snippet list \<Rightarrow> (search_query \<times> nat list) list \<Rightarrow>
   ('w, nat list list \<times> (string \<times> json) list list) io" where
  "rank_groups rs pool [] = io_ret ([], [])"
| "rank_groups rs pool ((q, indices) # rest) =
     io_bind (rg_limit rs) (\<lambda>_.
     if indices = [] then io_bind (rank_groups rs pool rest) (\<lambda>(orders, ds). io_ret ([] # orders, ds))
     else
       io_bind (rank rs (qu_code q) (map (\<lambda>i. pool ! i) indices)) (\<lambda>(order, d).
       io_bind (rank_groups rs pool rest) (\<lambda>(orders, ds). io_ret (map (\<lambda>i. indices ! i) order # orders, d # ds))))"

text \<open>\<open>int(str(d.get("truncated_documents", 0)))\<close>\<close>

definition truncated_count :: "(string \<times> json) list \<Rightarrow> exn + int" where
  "truncated_count d =
     (case lookup_last ''truncated_documents'' d of
        None \<Rightarrow> Inr 0
      | Some (JInt n) \<Rightarrow> Inr n
      | Some (JStr t) \<Rightarrow> (case parse_int t of None \<Rightarrow> Inl (ValueError ''invalid literal'') | Some n \<Rightarrow> Inr n)
      | Some _ \<Rightarrow> Inl (ValueError ''invalid literal''))"

fun truncated_sum :: "(string \<times> json) list list \<Rightarrow> exn + int" where
  "truncated_sum [] = Inr 0"
| "truncated_sum (d # ds) = proceed (truncated_count d) (\<lambda>n. proceed (truncated_sum ds) (\<lambda>m. Inr (n + m)))"

definition merge_entries :: "(string \<times> json) list \<Rightarrow> (string \<times> json) list \<Rightarrow> (string \<times> json) list" where
  "merge_entries new old = fold (\<lambda>(k, v). set_entry k v) new old"

definition ranked_entries ::
  "string \<Rightarrow> (string \<times> json) list list \<Rightarrow> (string \<times> json) list \<Rightarrow> exn + (string \<times> json) list" where
  "ranked_entries elapsed ds base =
     proceed (truncated_sum ds) (\<lambda>n.
     Inr (merge_entries
       [(''queries'', JArr (map JObj ds)), (''duration_ms'', JFloat elapsed), (''truncated_documents'', JInt n)]
       (case ds of
          [] \<Rightarrow> base
        | [d] \<Rightarrow> merge_entries d base
        | _ \<Rightarrow> set_entry ''mode''
                (JStr (if list_all (\<lambda>d. lookup_last ''mode'' d = Some (JStr ''local_reranker'')) ds then ''local_reranker''
                       else ''rules_or_mixed'')) base)))"

definition rank_pool ::
  "'w source_tools \<Rightarrow> search_query list \<Rightarrow> snippet list \<Rightarrow> nat list list \<Rightarrow> (string \<times> json) list \<Rightarrow>
   ('w, nat list list \<times> (string \<times> json) list) io" where
  "rank_pool st groups pool orders base =
     (case st_ranker st of
        None \<Rightarrow> io_ret (orders, base)
      | Some rs \<Rightarrow>
          if pool = [] then io_ret (orders, base)
          else
            io_try
              (io_bind (rank_groups rs pool (zip groups orders)) (\<lambda>(ranked, ds).
               io_bind (io_of (ranked_entries (rg_elapsed rs) ds base)) (\<lambda>entries. io_ret (ranked, entries))))
              (\<lambda>e. if e = TimeoutError then io_ret (orders, set_entry ''fallback'' (JStr ''RERANK_TOTAL_TIMEOUT'') base)
                   else io_raise e))"

subsection \<open>The new payload\<close>

text \<open>Protected chunks first, then the functions of the change themselves, then the rest in rank order.\<close>

definition add_chunks ::
  "nat \<Rightarrow> nat \<Rightarrow> source_table \<Rightarrow> snippet list \<Rightarrow> nat list \<Rightarrow> search_query list \<Rightarrow> gathering \<Rightarrow> gathering" where
  "add_chunks per_file limit sources pool order groups g =
     (let chunk = (\<lambda>i. (ca_path (pool ! i), ca_numbers (pool ! i))) in
      fold (\<lambda>i. append_chunk per_file limit sources False (chunk i)) (filter (\<lambda>i. \<not> ca_protected (pool ! i)) order)
        (fold (\<lambda>q. append_chunk per_file limit sources False (qu_path q, qu_numbers q)) groups
          (fold (\<lambda>i. append_chunk per_file limit sources True (chunk i)) (filter (\<lambda>i. ca_protected (pool ! i)) order) g)))"

definition cut_function :: "int list \<Rightarrow> code_span \<Rightarrow> bool" where
  "cut_function provided s \<longleftrightarrow>
     (let ns = [sp_start s..sp_end s] in list_ex (\<lambda>n. n \<in> set provided) ns \<and> \<not> list_all (\<lambda>n. n \<in> set provided) ns)"

definition note_partial :: "string \<times> syntax_info \<Rightarrow> gathering \<Rightarrow> gathering" where
  "note_partial x g =
     (case x of (path, info) \<Rightarrow>
        (case map_of (ga_by_path g) path of
           None \<Rightarrow> g
         | Some fid \<Rightarrow>
             (case find (\<lambda>f. wf_id f = fid) (cx_files (ga_context g)) of
                None \<Rightarrow> g
              | Some f \<Rightarrow>
                  (let g1 = (if si_partial info then add_note fid ''SYNTAX_PARTIAL'' g else g) in
                   if list_ex (cut_function (map hl_line (wf_lines f))) (si_spans info)
                   then add_note fid ''FUNCTION_PARTIAL'' g1 else g1))))"

text \<open>The anchors of every file of the payload are its lines.\<close>

fun anchored ::
  "(string \<times> string \<times> int list) list \<Rightarrow> review_file list \<Rightarrow> exn + (string \<times> string \<times> int list) list" where
  "anchored anchors [] = Inr anchors"
| "anchored anchors (f # fs) =
     (case map_of anchors (wf_id f) of
        None \<Rightarrow> Inl KeyError
      | Some (path, _) \<Rightarrow> anchored (AList.update (wf_id f) (path, remdups (map hl_line (wf_lines f))) anchors) fs)"

definition covered_file :: "(string \<times> string \<times> int list) list \<Rightarrow> review_file \<Rightarrow> json" where
  "covered_file anchors f =
     JObj [(''file_id'', JStr (wf_id f)),
           (''file_path'', (case map_of anchors (wf_id f) of None \<Rightarrow> JNull | Some (path, _) \<Rightarrow> JStr path)),
           (''provided_lines'', JInt (int (length (wf_lines f)))),
           (''role'', JStr (case wf_role f of None \<Rightarrow> ''changed'' | Some r \<Rightarrow> r))]"

definition note_json :: "string \<times> string \<Rightarrow> json" where
  "note_json n = JObj [(''file_id'', JStr (fst n)), (''reason'', JStr (snd n))]"

text \<open>\<open>dict.fromkeys(...)\<close> keeps the first of equal entries.\<close>

definition first_notes :: "'a list \<Rightarrow> 'a list" where
  "first_notes xs = rev (remdups (rev xs))"

definition enriched_bundle :: "input_bundle \<Rightarrow> (string \<times> json) list \<Rightarrow> gathering \<Rightarrow> exn + input_bundle" where
  "enriched_bundle b ranking g =
     (let files = cx_files (ga_context g) in
      proceed (anchored (ga_anchors g) files) (\<lambda>anchors.
      Inr (b\<lparr>ib_context := ga_context g, ib_anchors := anchors,
             ib_coverage :=
               set_entry ''retrieval'' (JObj ranking)
                 (set_entry ''context_notes'' (JArr (map note_json (first_notes (ga_notes g))))
                   (set_entry ''files'' (JArr (map (covered_file anchors) files)) (ib_coverage b)))\<rparr>)))"

subsection \<open>Collecting\<close>

definition pool_orders :: "snippet list \<Rightarrow> nat \<Rightarrow> nat list list" where
  "pool_orders pool n = map (\<lambda>g. filter (\<lambda>i. g \<in> set (ca_groups (pool ! i))) [0..<length pool]) [0..<n]"

definition ranking_base :: "nat \<Rightarrow> nat \<Rightarrow> snippet list \<Rightarrow> nat \<Rightarrow> nat \<Rightarrow> nat \<Rightarrow> (string \<times> json) list" where
  "ranking_base per_file limit pool fetched groups omitted =
     [(''mode'', JStr ''rules''), (''candidate_count'', JInt (int (length pool))), (''fetched_files'', JInt (int fetched)),
      (''query_count'', JInt (int groups)), (''omitted_queries'', JInt (int omitted)),
      (''protected_candidates'', JInt (int (length (filter ca_protected pool)))),
      (''per_file_bytes'', JInt (int per_file)), (''max_input_bytes'', JInt (int limit))]"

definition start_gathering :: "input_bundle \<Rightarrow> (string \<times> string) list \<Rightarrow> (string \<times> string) list \<Rightarrow> gathering" where
  "start_gathering b changed notes =
     \<lparr>ga_context = ib_context b, ga_anchors = ib_anchors b,
      ga_by_path = fold (\<lambda>f. case map_of changed (wf_id f) of None \<Rightarrow> id | Some p \<Rightarrow> AList.update p (wf_id f)) (cx_files (ib_context b)) [],
      ga_notes = notes, ga_missing = 0\<rparr>"

text \<open>From the pool to the new bundle: the chunks, the notes on what is partial, and the report.\<close>

definition gathered ::
  "nat \<Rightarrow> nat \<Rightarrow> source_table \<Rightarrow> syntax_table \<Rightarrow> snippet list \<Rightarrow> nat list list \<Rightarrow> search_query list \<Rightarrow> nat \<Rightarrow> gathering \<Rightarrow> gathering" where
  "gathered per_file limit sources m pool orders groups omitted g =
     (let g1 = fold note_partial m (add_chunks per_file limit sources pool (prioritized pool orders) groups g)
      in if omitted \<noteq> 0 then add_note [] ''QUERY_LIMIT'' g1 else g1)"

definition finish_gathering ::
  "'w source_tools \<Rightarrow> nat \<Rightarrow> nat \<Rightarrow> input_bundle \<Rightarrow> (string \<times> string) list \<Rightarrow> (string \<times> string) list \<Rightarrow> source_table \<Rightarrow>
   syntax_table \<Rightarrow> snippet list \<Rightarrow> search_query list \<Rightarrow> nat \<Rightarrow> nat \<Rightarrow> ('w, input_bundle) io" where
  "finish_gathering st per_file limit b changed notes sources m pool groups fetched omitted =
     io_bind (rank_pool st groups pool (pool_orders pool (length groups))
                (ranking_base per_file limit pool fetched (length groups) omitted)) (\<lambda>ranked.
     io_bind (st_deadline st) (\<lambda>_.
     let g = gathered per_file limit sources m pool (fst ranked) groups omitted (start_gathering b changed notes) in
     io_of (enriched_bundle b (set_entry ''protected_missing'' (JInt (int (ga_missing g))) (snd ranked)) g)))"

definition bundle_paths :: "input_bundle \<Rightarrow> (string \<times> string) list" where
  "bundle_paths b = map (\<lambda>(fid, path, _). (fid, path)) (ib_anchors b)"

text \<open>The related files are read and inspected; then the pool is complete.\<close>

definition with_related ::
  "'w source_tools \<Rightarrow> nat \<Rightarrow> nat \<Rightarrow> string \<Rightarrow> string \<Rightarrow> string list \<Rightarrow> input_bundle \<Rightarrow> (string \<times> string) list \<Rightarrow> source_table \<Rightarrow>
   syntax_table \<Rightarrow> search_query list \<Rightarrow> nat \<Rightarrow> ('w, input_bundle) io" where
  "with_related st per_file limit prefix sha regular b notes safe m groups omitted =
     (let changed = bundle_paths b; found = discover regular groups m (map snd changed) in
      io_bind (read_sources st prefix sha regular (map fst (fst found)) []) (\<lambda>loaded.
      let related = fst (related_sources loaded) in
      io_bind (inspect_sources st related) (\<lambda>related_m.
      let sources = joined safe related; all_m = joined m related_m;
          pool = pool_for groups (snd found) sources all_m (map fst safe)
      in finish_gathering st per_file limit b changed (notes @ snd (related_sources loaded)) sources all_m pool groups
           (length (fst found)) omitted)))"

text \<open>The changed files are compared and inspected, and their queries collected.\<close>

definition with_sources ::
  "'w source_tools \<Rightarrow> nat \<Rightarrow> nat \<Rightarrow> string \<Rightarrow> string \<Rightarrow> string list \<Rightarrow> input_bundle \<Rightarrow> (string \<times> string) list \<Rightarrow>
   (string \<times> string list option) list \<Rightarrow> ('w, input_bundle) io" where
  "with_sources st per_file limit prefix sha regular b notes loaded =
     (let changed = bundle_paths b; files = cx_files (ib_context b) in
      io_bind (io_of (safe_sources changed loaded files [] notes)) (\<lambda>safe.
      io_bind (inspect_sources st (fst safe)) (\<lambda>m.
      io_bind (io_of (queries files changed (fst safe) m)) (\<lambda>groups.
      with_related st per_file limit prefix sha regular b (snd safe) (fst safe) m (fst groups) (snd groups)))))"

definition collect_context ::
  "'w source_tools \<Rightarrow> nat \<Rightarrow> nat \<Rightarrow> string \<Rightarrow> string \<Rightarrow> string list \<Rightarrow> input_bundle \<Rightarrow> ('w, input_bundle) io" where
  "collect_context st per_file limit prefix sha ignored b =
     io_bind (search_tree st prefix sha) (\<lambda>found.
     let regular = filter (\<lambda>p. \<not> closed_path p ignored) (regular_files (fst found)) in
     io_bind (read_sources st prefix sha regular (map snd (bundle_paths b)) []) (\<lambda>loaded.
     with_sources st per_file limit prefix sha regular b (snd found) loaded))"

text \<open>On a deadline or an error of the system the safe payload is left as it is.\<close>

definition unchanged_bundle :: "input_bundle \<Rightarrow> input_bundle" where
  "unchanged_bundle b =
     b\<lparr>ib_coverage :=
         set_entry ''retrieval'' (JObj [(''mode'', JStr ''diff_only''), (''fallback'', JStr ''CONTEXT_UNAVAILABLE'')])
           (set_entry ''context_notes''
             (JArr [JObj [(''file_id'', JStr []), (''reason'', JStr ''CONTEXT_UNAVAILABLE'')]]) (ib_coverage b))\<rparr>"

definition enrich ::
  "'w source_tools \<Rightarrow> nat \<Rightarrow> nat \<Rightarrow> string \<Rightarrow> string \<Rightarrow> string list \<Rightarrow> input_bundle \<Rightarrow> ('w, input_bundle) io" where
  "enrich st per_file limit prefix sha ignored b =
     io_try (collect_context st per_file limit prefix sha ignored b)
       (\<lambda>e. if e \<in> {TimeoutError, OSError} then io_ret (unchanged_bundle b) else io_raise e)"

subsection \<open>Requested files\<close>

text \<open>\<open>fits\<close>\<close>

definition supplement_fits :: "review_context \<Rightarrow> nat \<Rightarrow> bool" where
  "supplement_fits c reserve \<longleftrightarrow>
     context_bytes (c\<lparr>cx_standards := None, cx_paths := None\<rparr>) + reserve \<le> max_input \<and>
     context_bytes c + reserve \<le> max_input + (if cx_purpose c = Some ''STANDARDS'' then 12 * 1024 else 0)"

text \<open>\<open>re.search(r"\b" + re.escape(symbol) + r"\b", code)\<close> for a symbol that is not empty.\<close>

fun mentions :: "string \<Rightarrow> char option \<Rightarrow> string \<Rightarrow> bool" where
  "mentions symbol before [] = False"
| "mentions symbol before (c # cs) \<longleftrightarrow>
     word_edge before (c # cs) \<and> starts_with symbol (c # cs) \<and> word_edge (Some (last symbol)) (drop (length symbol) (c # cs)) \<or>
     mentions symbol (Some c) cs"

record supplement_state =
  su_context :: review_context
  su_anchors :: "(string \<times> string \<times> int list) list"
  su_coverage :: "(string \<times> json) list"
  su_cache :: source_table

definition whole_file :: "string list \<Rightarrow> review_file \<Rightarrow> review_file" where
  "whole_file ls f =
     f\<lparr>wf_lines := map (\<lambda>n. case map_of (rows_by_line (wf_lines f)) n of Some r \<Rightarrow> r | None \<Rightarrow> plain_line ls n)
                    [1..int (length ls)]\<rparr>"

definition recount :: "string \<Rightarrow> nat \<Rightarrow> (string \<times> json) list \<Rightarrow> (string \<times> json) list" where
  "recount fid n coverage =
     map (\<lambda>(k, v). (k,
        if k = ''files'' then
          (case v of
             JArr xs \<Rightarrow>
               JArr (map (\<lambda>x. if json_get ''file_id'' x = JStr fid
                              then JObj (set_entry ''provided_lines'' (JInt (int n)) (entries x)) else x) xs)
           | _ \<Rightarrow> v)
        else v)) coverage"

text \<open>What a request does once the file is read.\<close>

definition supplement_file ::
  "string \<Rightarrow> string \<Rightarrow> review_file \<Rightarrow> string list \<Rightarrow> supplement_state \<Rightarrow> string \<times> supplement_state" where
  "supplement_file fid path f ls s =
     (if \<not> list_all (matches_source ls) (wf_lines f) then (''SOURCE_MISMATCH'', s)
      else if 160 < length ls then (''FILE_TOO_LARGE'', s)
      else
        (let f' = whole_file ls f; c' = (su_context s)\<lparr>cx_files := set_file f' (cx_files (su_context s))\<rparr>
         in if max_patch < wire_size (review_file_json f') \<or> \<not> supplement_fits c' 1024 then (''BUDGET_LIMIT'', s)
            else
              (if length (wf_lines f) = length ls then ''ALREADY_PROVIDED'' else ''ADDED'',
               s\<lparr>su_context := c', su_anchors := AList.update fid (path, [1..int (length ls)]) (su_anchors s),
                 su_coverage := recount fid (length ls) (su_coverage s)\<rparr>)))"

definition skipped_read :: "exn \<Rightarrow> bool" where
  "skipped_read e \<longleftrightarrow> readable e \<or> e \<in> {TimeoutError, OSError}"

definition cached_source ::
  "'w source_tools \<Rightarrow> string \<Rightarrow> string \<Rightarrow> string \<Rightarrow> source_table \<Rightarrow> ('w, string list option) io" where
  "cached_source st prefix sha path cache =
     (case map_of cache path of
        Some ls \<Rightarrow> io_ret (Some ls)
      | None \<Rightarrow>
          io_try (io_bind (source st prefix sha None path) (\<lambda>ls. io_ret (Some ls)))
            (\<lambda>e. if skipped_read e then io_ret None else io_raise e))"

definition supplement_request ::
  "'w source_tools \<Rightarrow> string \<Rightarrow> string \<Rightarrow> string list \<Rightarrow> context_request \<Rightarrow> supplement_state \<Rightarrow>
   ('w, string \<times> supplement_state) io" where
  "supplement_request st prefix sha ignored q s =
     (case map_of (su_anchors s) (cq_file_id q) of
        None \<Rightarrow> io_ret (''UNAVAILABLE'', s)
      | Some (path, _) \<Rightarrow>
          if closed_path path ignored then io_ret (''UNAVAILABLE'', s)
          else
            (case find (\<lambda>f. wf_id f = cq_file_id q) (cx_files (su_context s)) of
               None \<Rightarrow> io_raise StopIteration
             | Some f \<Rightarrow>
                 if \<not> list_ex (\<lambda>r. mentions (cq_symbol q) None (hl_code r)) (wf_lines f)
                 then io_ret (''SYMBOL_NOT_PROVIDED'', s)
                 else
                   io_bind (cached_source st prefix sha path (su_cache s)) (\<lambda>r.
                   case r of
                     None \<Rightarrow> io_ret (''UNAVAILABLE'', s)
                   | Some ls \<Rightarrow>
                       io_ret (supplement_file (cq_file_id q) path f ls
                                 (s\<lparr>su_cache := AList.update path ls (su_cache s)\<rparr>)))))"

fun supplement_requests ::
  "'w source_tools \<Rightarrow> string \<Rightarrow> string \<Rightarrow> string list \<Rightarrow> context_request list \<Rightarrow> supplement_state \<Rightarrow>
   ('w, (context_request \<times> string) list \<times> supplement_state) io" where
  "supplement_requests st prefix sha ignored [] s = io_ret ([], s)"
| "supplement_requests st prefix sha ignored (q # qs) s =
     io_bind (supplement_request st prefix sha ignored q s) (\<lambda>(status, s').
     io_bind (supplement_requests st prefix sha ignored qs s') (\<lambda>(notes, s'').
     io_ret ((q, status) # notes, s'')))"

definition request_note :: "context_request \<times> string \<Rightarrow> json" where
  "request_note x =
     JObj [(''file_id'', JStr (cq_file_id (fst x))), (''symbol'', JStr (cq_symbol (fst x))), (''status'', JStr (snd x))]"

text \<open>The notes enter the payload as its last key; without room for them the bundle stays as it was.\<close>

definition supplemented_bundle ::
  "input_bundle \<Rightarrow> (context_request \<times> string) list \<Rightarrow> supplement_state \<Rightarrow> input_bundle" where
  "supplemented_bundle b notes s =
     (let report = JArr (map request_note notes);
          c = (su_context s)\<lparr>cx_more := set_entry ''context_supplement'' report (cx_more (su_context s))\<rparr>
      in if notes = [] then b\<lparr>ib_anchors := su_anchors s, ib_coverage := su_coverage s\<rparr>
         else if supplement_fits c 0
         then b\<lparr>ib_context := c, ib_anchors := su_anchors s,
                ib_coverage := set_entry ''context_supplement'' report (su_coverage s)\<rparr>
         else b\<lparr>ib_coverage := set_entry ''context_supplement''
                  (JArr (map (\<lambda>(q, _). request_note (q, ''BUDGET_LIMIT'')) notes)) (ib_coverage b)\<rparr>)"

definition supplement ::
  "'w source_tools \<Rightarrow> string \<Rightarrow> string \<Rightarrow> string list \<Rightarrow> input_bundle \<Rightarrow> context_request list \<Rightarrow> ('w, input_bundle) io" where
  "supplement st prefix sha ignored b requests =
     io_bind (supplement_requests st prefix sha ignored (take 2 requests)
        \<lparr>su_context = ib_context b, su_anchors = ib_anchors b, su_coverage = ib_coverage b, su_cache = []\<rparr>) (\<lambda>(notes, s).
     io_ret (supplemented_bundle b notes s))"

end
