(* ===== verification/Security_Signals.thy ===== *)
theory Security_Signals
  imports Python_Code Context_Selection
begin

section \<open>Security signals\<close>

text \<open>
  \<open>scan\<close> of \<^verbatim>\<open>app/domain/review/security_evidence.py\<close>: a value of a web request that reaches a shell in
  straight-line code of a changed Python function. \<open>ast.parse\<close> of a module is a parameter: its statements,
  or \<open>None\<close> when it raises a \<open>SyntaxError\<close> or \<open>RecursionError\<close>. A dictionary is an association list.
\<close>

subsection \<open>Names of the modules\<close>

definition shell_modules :: "string list" where
  "shell_modules = [''os'', ''subprocess'']"

definition bound_alias :: "string \<times> string option \<Rightarrow> string" where
  "bound_alias a = (case snd a of None \<Rightarrow> fst a | Some x \<Rightarrow> x)"

fun add_import :: "code_stmt \<Rightarrow> (string \<times> string) list \<Rightarrow> (string \<times> string) list" where
  "add_import (C_Import _ names) m =
     fold (\<lambda>a. if fst a \<in> set shell_modules then AList.update (bound_alias a) (fst a) else id) names m"
| "add_import (C_Import_From _ package names) m =
     (if package = Some ''flask''
      then fold (\<lambda>a. if fst a = ''request'' then AList.update (bound_alias a) ''flask.request'' else id) names m else m)"
| "add_import _ m = m"

text \<open>A name that is bound anywhere else is not known to be the module.\<close>

definition known_imports :: "code_stmt list \<Rightarrow> (string \<times> string) list" where
  "known_imports tree =
     (let rebound = set (stored_names tree) \<union> set (argument_names tree)
      in filter (\<lambda>x. fst x \<notin> rebound) (fold add_import tree []))"

fun qualified_name :: "(string \<times> string) list \<Rightarrow> code_exp \<Rightarrow> string" where
  "qualified_name m (X_Name x _) = (case map_of m x of None \<Rightarrow> [] | Some t \<Rightarrow> t)"
| "qualified_name m (X_Attribute e a) = qualified_name m e @ CHR ''.'' # a"
| "qualified_name m _ = []"

subsection \<open>One function\<close>

type_synonym taint = "(string \<times> nat) list"

text \<open>The line at which the value of an expression came from the request.\<close>

fun origin :: "(string \<times> string) list \<Rightarrow> taint \<Rightarrow> code_exp \<Rightarrow> nat option" where
  "origin m tainted (X_Name x _) = map_of tainted x"
| "origin m tainted (X_Call n _ f _ _) =
     (if qualified_name m f \<in> {''flask.request.args.get'', ''flask.request.form.get''} then Some n else None)"
| "origin m tainted (X_Subscript n e _) =
     (if qualified_name m e \<in> {''flask.request.args'', ''flask.request.form''} then Some n else None)"
| "origin m tainted _ = None"

record signal =
  sg_file :: string
  sg_line :: nat
  sg_source :: nat
  sg_lines :: "nat list"

definition row_at :: "head_line list \<Rightarrow> nat \<Rightarrow> head_line option" where
  "row_at rows n = map_of (rows_by_line rows) (int n)"

definition supplied :: "head_line list \<Rightarrow> nat \<Rightarrow> bool" where
  "supplied rows n \<longleftrightarrow> row_at rows n \<noteq> None"

definition changed_row :: "head_line list \<Rightarrow> nat \<Rightarrow> bool" where
  "changed_row rows n \<longleftrightarrow> (case row_at rows n of None \<Rightarrow> False | Some r \<Rightarrow> hl_changed r)"

definition is_shell :: "(string \<times> string) list \<Rightarrow> code_exp \<Rightarrow> (string option \<times> code_exp) list \<Rightarrow> bool" where
  "is_shell m f ks \<longleftrightarrow>
     qualified_name m f = ''os.system'' \<or>
     qualified_name m f \<in> {''subprocess.run'', ''subprocess.call'', ''subprocess.Popen''} \<and>
     list_ex (\<lambda>k. k = (Some ''shell'', X_Const (Const_Bool True))) ks"

text \<open>The call of a statement, and the signal it gives.\<close>

fun stmt_value :: "code_stmt \<Rightarrow> code_exp option" where
  "stmt_value (C_Assign _ _ e) = Some e"
| "stmt_value (C_Expr _ e) = Some e"
| "stmt_value (C_Return _ e) = e"
| "stmt_value _ = None"

fun call_signal ::
  "(string \<times> string) list \<Rightarrow> head_line list \<Rightarrow> string \<Rightarrow> taint \<Rightarrow> code_exp option \<Rightarrow> signal list" where
  "call_signal m rows fid tainted (Some (X_Call n n' f (a # as) ks)) =
     (case origin m tainted a of
        None \<Rightarrow> []
      | Some start \<Rightarrow>
          (let lines = [start..<n' + 1] in
           if is_shell m f ks \<and> start \<noteq> 0 \<and> length lines \<le> 40 \<and> list_all (supplied rows) lines \<and> list_ex (changed_row rows) lines
           then [\<lparr>sg_file = fid, sg_line = n, sg_source = start, sg_lines = lines\<rparr>] else []))"
| "call_signal m rows fid tainted _ = []"

text \<open>An assignment to one name moves the mark; a call of anything but the request clears all marks.\<close>

fun assign_taint :: "(string \<times> string) list \<Rightarrow> code_stmt \<Rightarrow> taint \<Rightarrow> taint" where
  "assign_taint m (C_Assign _ [X_Name x _] e) tainted =
     (case origin m tainted e of
        None \<Rightarrow> AList.delete x tainted
      | Some n \<Rightarrow> AList.delete x tainted @ [(x, n)])"
| "assign_taint m _ tainted = tainted"

fun clear_taint :: "(string \<times> string) list \<Rightarrow> code_exp option \<Rightarrow> taint \<Rightarrow> taint" where
  "clear_taint m (Some (X_Call _ _ f _ _)) tainted =
     (if starts_with ''flask.request.'' (qualified_name m f) then tainted else [])"
| "clear_taint m _ tainted = tainted"

definition straight :: "code_stmt \<Rightarrow> bool" where
  "straight s = (case s of C_Assign _ _ _ \<Rightarrow> True | C_Expr _ _ \<Rightarrow> True | _ \<Rightarrow> False)"

text \<open>
  The body of a function: the signals with those found before, and whether the scan is complete because
  ten are found. The last statement of a straight line ends the function before they are counted.
\<close>

fun scan_body ::
  "(string \<times> string) list \<Rightarrow> head_line list \<Rightarrow> string \<Rightarrow> code_stmt list \<Rightarrow> taint \<Rightarrow> signal list \<Rightarrow> signal list \<times> bool" where
  "scan_body m rows fid [] tainted found = (found, False)"
| "scan_body m rows fid (s # ss) tainted found =
     (let marked = assign_taint m s tainted; found' = found @ call_signal m rows fid marked (stmt_value s) in
      if \<not> straight s then (found', False)
      else if 10 \<le> length found' then (found', True)
      else scan_body m rows fid ss (clear_taint m (stmt_value s) marked) found')"

subsection \<open>The payload\<close>

fun scan_functions ::
  "(string \<times> string) list \<Rightarrow> head_line list \<Rightarrow> string \<Rightarrow> code_stmt list \<Rightarrow> signal list \<Rightarrow> signal list \<times> bool" where
  "scan_functions m rows fid [] found = (found, False)"
| "scan_functions m rows fid (s # ss) found =
     (case s of
        C_Function _ _ n' _ _ body _ _ \<Rightarrow>
          if list_all (supplied rows) [1..<n' + 1] then
            (case scan_body m rows fid body [] found of
               (found', True) \<Rightarrow> (found', True)
             | (found', False) \<Rightarrow> scan_functions m rows fid ss found')
          else scan_functions m rows fid ss found
      | _ \<Rightarrow> scan_functions m rows fid ss found)"

definition file_text :: "head_line list \<Rightarrow> string" where
  "file_text rows =
     join_with LF (map (\<lambda>n. case row_at rows n of None \<Rightarrow> [] | Some r \<Rightarrow> hl_code r) [1..<nat (Max (hl_line ` set rows)) + 1])"

definition scannable :: "review_file \<Rightarrow> bool" where
  "scannable f \<longleftrightarrow>
     wf_language f = ''py'' \<and> wf_role f \<in> {None, Some ''changed''} \<and> wf_lines f \<noteq> [] \<and> Max (hl_line ` set (wf_lines f)) \<le> 2000"

fun scan_files :: "(string \<Rightarrow> code_stmt list option) \<Rightarrow> review_file list \<Rightarrow> signal list \<Rightarrow> signal list" where
  "scan_files parse [] found = found"
| "scan_files parse (f # fs) found =
     (if \<not> scannable f then scan_files parse fs found
      else
        (case parse (file_text (wf_lines f)) of
           None \<Rightarrow> scan_files parse fs found
         | Some tree \<Rightarrow>
             (case scan_functions (known_imports tree) (wf_lines f) (wf_id f) tree found of
                (found', True) \<Rightarrow> found'
              | (found', False) \<Rightarrow> scan_files parse fs found')))"

definition scan :: "(string \<Rightarrow> code_stmt list option) \<Rightarrow> review_context \<Rightarrow> signal list" where
  "scan parse c = scan_files parse (cx_files c) []"

text \<open>The dictionary of a signal; its title and detail are texts for the reader.\<close>

definition signal_entries :: "string \<times> string \<Rightarrow> signal \<Rightarrow> string \<times> (string \<times> json) list" where
  "signal_entries texts x =
     (sg_file x,
      [(''rule_id'', JStr ''PY-INPUT-SHELL-1''), (''file_id'', JStr (sg_file x)), (''line'', JInt (int (sg_line x))),
       (''source_line'', JInt (int (sg_source x))), (''evidence_lines'', JArr (map (\<lambda>n. JInt (int n)) (sg_lines x))),
       (''severity'', JStr ''WARNING''), (''title'', JStr (fst texts)), (''detail'', JStr (snd texts))])"

subsection \<open>What a signal rests on\<close>





















subsection \<open>Examples\<close>

text \<open>A request value that is stored and handed to the shell on the next line.\<close>

definition request_value :: "nat \<Rightarrow> code_exp" where
  "request_value n =
     X_Call n n (X_Attribute (X_Attribute (X_Name ''request'' False) ''args'') ''get'') [X_Const (Const_Str ''q'')] []"

definition shell_call :: "nat \<Rightarrow> code_exp \<Rightarrow> code_exp" where
  "shell_call n e = X_Call n n (X_Attribute (X_Name ''os'' False) ''system'') [e] []"

definition plain_function :: "nat \<Rightarrow> nat \<Rightarrow> code_stmt list \<Rightarrow> code_stmt" where
  "plain_function a b body = C_Function False a b ''f'' (Params [] [] None [] None [] []) body [] []"

definition shell_imports :: "code_stmt list" where
  "shell_imports = [C_Import 1 [(''os'', None)], C_Import_From 2 (Some ''flask'') [(''request'', None)]]"


definition shell_context :: review_context where
  "shell_context = fresh_context [\<lparr>wf_id = ''f1'', wf_language = ''py'', wf_role = None,
     wf_lines = map (\<lambda>n. \<lparr>hl_line = n, hl_code = ''code'', hl_changed = (n = 5)\<rparr>) [1..5]\<rparr>] (JArr []) None"



text \<open>
  The limit of ten signals is not one: a function that ends with the call it returns is left before the
  signals are counted.
\<close>

definition returning_tree :: "nat \<Rightarrow> code_stmt list" where
  "returning_tree k = shell_imports @ replicate k (plain_function 3 5 [C_Return 5 (Some (shell_call 5 (request_value 5)))])"

lemma signals_exceed_limit: "length (scan (\<lambda>_. Some (returning_tree 11)) shell_context) = 11"
  by code_simp

end
