(* ===== verification/Review_Worker.thy ===== *)
theory Review_Worker
  imports Reviews Security_Signals Complex_Main
begin

section \<open>Executing a review\<close>

text \<open>
  \<open>ReviewWorker.execute\<close> of \<^verbatim>\<open>app/domain/review/worker.py\<close>: the transactions of \<^verbatim>\<open>Reviews\<close> around the
  reads from GitHub and at most two calls of the provider, with the exceptions mapped to the code the
  run ends with.

  The world is the database and the rest of the outside. What happens outside is a parameter: each
  action may raise (a timeout included) and other transactions may commit while it runs;
  \<open>ov_pause\<close> stands for the waiting before a transaction or a call. The related context is that of
  \<^verbatim>\<open>Context_Selection\<close>, read with the requests and the token of the worker; when the limit of the whole
  review expires inside it, the next action outside it raises. Parameters are also the parts of the
  review that are not modelled: the observations, the prompts (\<open>compose\<close>) and the payload of the second
  reviewer. The local variables that the handlers read are a record beside the world; in it,
  \<open>lv_calls\<close> records the database at each call of the provider and is read by no code.
\<close>

subsection \<open>The outside\<close>

type_synonym answer = "string \<times> int \<times> int"

record 'w review_outside =
  ov_pause :: "('w, unit) io"
  ov_token :: "int \<Rightarrow> int \<Rightarrow> ('w, string) io"
  ov_request :: "string \<Rightarrow> string \<Rightarrow> ('w, json) io"
  ov_decode :: "string \<Rightarrow> string option"
  ov_inspect :: "source_table \<Rightarrow> ('w, syntax_table option) io"
  ov_ranker :: "'w ranking_service option"
  ov_deadline :: "('w, unit) io"
  ov_review :: "string \<Rightarrow> ('w, answer) io"
  ov_verify :: "string \<Rightarrow> ('w, answer) io"
  ov_recheck :: "string \<Rightarrow> ('w, answer) io"

record review_pure =
  rp_tools :: policy_tools
  rp_parse_verification :: "string \<Rightarrow> exn + verification_output"
  rp_parse_empty :: "string \<Rightarrow> exn + empty_output"
  rp_ground :: "review_result \<Rightarrow> input_bundle \<Rightarrow> exn + review_result"
  rp_notice :: string
  rp_log :: "rat \<Rightarrow> rat"
  rp_references :: "string \<Rightarrow> (int \<times> string) list \<Rightarrow> (int \<times> string) list"
  rp_observe :: "input_bundle \<Rightarrow> exn + input_bundle"
  rp_parse_module :: "string \<Rightarrow> code_stmt list option"
  rp_signal_texts :: "string \<times> string"
  rp_compose :: "input_bundle \<Rightarrow> exn + json"
  rp_second_payload :: "input_bundle \<Rightarrow> string \<Rightarrow> exn + string"
  rp_independent_texts :: "string \<times> string \<times> string"

record 's review_locals =
  lv_incoming :: int
  lv_outgoing :: int
  lv_independent :: "review_result option"
  lv_calls :: "'s list"

type_synonym ('s, 'o, 'a) act = "(('s \<times> 'o) \<times> 's review_locals, 'a) io"

definition in_db :: "('a review_tables_scheme, 'b) txn \<Rightarrow> ('a review_tables_scheme, 'o, 'b) act" where
  "in_db m w = (case w of ((s, x), l) \<Rightarrow> case transaction review_schema m s of (r, s') \<Rightarrow> (r, ((s', x), l)))"

definition outside :: "('s \<times> 'o, 'a) io \<Rightarrow> ('s, 'o, 'a) act" where
  "outside m = io_lift m"

definition pure :: "exn + 'a \<Rightarrow> ('s, 'o, 'a) act" where
  "pure r = io_of r"

text \<open>A call of the provider; the token counts of its answer are added when it returns.\<close>

definition add_tokens :: "int \<Rightarrow> int \<Rightarrow> 's review_locals \<Rightarrow> 's review_locals" where
  "add_tokens i n l = l\<lparr>lv_incoming := lv_incoming l + i, lv_outgoing := lv_outgoing l + n\<rparr>"

definition record_call :: "('s, 'o, unit) act" where
  "record_call w = (case w of ((s, x), l) \<Rightarrow> (Inr (), ((s, x), l\<lparr>lv_calls := lv_calls l @ [s]\<rparr>)))"

definition provider_call :: "('s \<times> 'o, unit) io \<Rightarrow> ('s \<times> 'o, answer) io \<Rightarrow> ('s, 'o, string) act" where
  "provider_call pause call =
     io_bind (outside pause) (\<lambda>_.
     io_bind record_call (\<lambda>_.
     io_bind (outside call) (\<lambda>(raw, i, n).
     io_bind (io_put (add_tokens i n)) (\<lambda>_. io_ret raw))))"

subsection \<open>The context\<close>

definition reviewed_pull :: "review_task \<Rightarrow> string" where
  "reviewed_pull t = repo_prefix (rk_repo t) @ ''/pulls/'' @ int_text (rk_number t)"

text \<open>The tools that read related source: the requests of the worker, with its token.\<close>

definition reading :: "'w review_outside \<Rightarrow> string \<Rightarrow> 'w source_tools" where
  "reading ov token =
     \<lparr>st_get = (\<lambda>path. ov_request ov path token), st_decode = ov_decode ov, st_inspect = ov_inspect ov,
      st_ranker = ov_ranker ov, st_deadline = ov_deadline ov\<rparr>"

definition snapshot_count :: "review_snapshot \<Rightarrow> json \<Rightarrow> exn + int option" where
  "snapshot_count snap remote =
     (if \<not> is_obj remote then Inl (review_error ''SNAPSHOT_CHANGED'')
      else
        proceed (get_in ''head'' ''sha'' remote) (\<lambda>head.
        if head \<noteq> JStr (vs_head_sha snap) then Inl (review_error ''SNAPSHOT_CHANGED'')
        else
          proceed (get_in ''base'' ''sha'' remote) (\<lambda>base.
          if base \<noteq> JStr (vs_base_sha snap) then Inl (review_error ''SNAPSHOT_CHANGED'')
          else Inr (case as_int (json_get ''changed_files'' remote) of
                      None \<Rightarrow> None | Some n \<Rightarrow> if 0 \<le> n then Some n else None))))"

definition verify_pull :: "('s \<times> 'o) review_outside \<Rightarrow> review_task \<Rightarrow> string \<Rightarrow> ('s, 'o, int option) act" where
  "verify_pull ov t token =
     io_bind (outside (ov_request ov (reviewed_pull t) token)) (\<lambda>remote. pure (snapshot_count (rk_snapshot t) remote))"

definition finding_json :: "review_finding \<Rightarrow> json" where
  "finding_json f =
     JObj [(''rule_id'', JStr (rf_rule_id f)),
           (''severity'', JStr (case rf_severity f of INFO \<Rightarrow> ''INFO'' | WARNING \<Rightarrow> ''WARNING'' | ERROR \<Rightarrow> ''ERROR'' | CRITICAL \<Rightarrow> ''CRITICAL'')),
           (''language'', (case rf_language f of
              None \<Rightarrow> JNull | Some JAVA \<Rightarrow> JStr ''JAVA'' | Some PYTHON \<Rightarrow> JStr ''PYTHON''
            | Some JAVASCRIPT \<Rightarrow> JStr ''JAVASCRIPT'' | Some TYPESCRIPT \<Rightarrow> JStr ''TYPESCRIPT''))]"

definition change_list :: "json \<Rightarrow> exn + json list" where
  "change_list v =
     (case as_arr v of
        None \<Rightarrow> Inl (review_error ''GITHUB_INVALID_RESPONSE'')
      | Some fs \<Rightarrow> if list_all is_obj fs then Inr fs else Inl (review_error ''GITHUB_INVALID_RESPONSE''))"

definition feedback_json :: "(string \<times> string \<times> string) list \<Rightarrow> json" where
  "feedback_json fs =
     JArr (map (\<lambda>(title, state, note). JObj [(''title'', JStr title), (''state'', JStr state), (''note'', JStr note)]) fs)"

definition with_feedback :: "(string \<times> string \<times> string) list \<Rightarrow> input_bundle \<Rightarrow> input_bundle" where
  "with_feedback fs b =
     (let c = ib_context b; c' = c\<lparr>cx_extra := set_entry ''untrusted_prior_feedback'' (feedback_json fs) (cx_extra c)\<rparr>;
          text = payload_text c'; included = (fs \<noteq> [] \<and> length (utf8 text) \<le> max_input \<and> \<not> has_secret text);
          n = (if included then length fs else 0)
      in b\<lparr>ib_context := (if included then c' else c),
           ib_coverage := set_entry ''prior_feedback_count'' (JInt (int n)) (ib_coverage b)\<rparr>)"

definition anchor_paths :: "input_bundle \<Rightarrow> (string \<times> string) list" where
  "anchor_paths b = map (\<lambda>(fid, path, _). (fid, path)) (ib_anchors b)"

definition context_lines :: "review_context \<Rightarrow> (string \<times> file_line list) list" where
  "context_lines c = map (\<lambda>f. (wf_id f, map (\<lambda>l. (hl_line l, hl_code l, hl_changed l)) (wf_lines f))) (cx_files c)"

text \<open>
  The purpose and, for a review of team documents, the paths, the sections that apply and the rule
  checks; the bytes left for the sections are what the empty list leaves of the bound.
\<close>

definition with_purpose ::
  "review_pure \<Rightarrow> review_task \<Rightarrow> input_bundle \<Rightarrow> exn + input_bundle \<times> (retrieval \<times> rule_report list) option" where
  "with_purpose rp t b =
     (if rk_purpose t = ''CODE'' then Inr (b, None)
      else if rk_purpose t \<noteq> ''STANDARDS''
      then Inr (b\<lparr>ib_context := (ib_context b)\<lparr>cx_purpose := Some (rk_purpose t)\<rparr>\<rparr>, None)
      else
        (let paths = anchor_paths b;
             c = (ib_context b)\<lparr>cx_purpose := Some ''STANDARDS'', cx_paths := Some paths, cx_standards := Some []\<rparr>;
             available = int max_input + 12 * 1024 - int (length (utf8 (payload_text c))) - 32;
             query = join_with CHR '' '' (map snd paths) @ payload_text (ib_context b)
         in if available < 0 then Inl too_large
            else
              proceed (standards_context (rp_log rp) (rk_standards t) paths query (nat available)) (\<lambda>knowledge.
              if rt_sections knowledge = [] then Inl (review_error ''STANDARDS_NO_MATCH'')
              else
                proceed (check_rules (rp_references rp) (rk_standards t) paths (context_lines c)) (\<lambda>reports.
                Inr (b\<lparr>ib_context := c\<lparr>cx_standards := Some (rt_sections knowledge)\<rparr>\<rparr>, Some (knowledge, reports))))))"

text \<open>The security signals that do not depend on the provider.\<close>

definition signal_json :: "input_bundle \<Rightarrow> string \<times> (string \<times> json) list \<Rightarrow> exn + json" where
  "signal_json b x =
     (case x of (fid, kvs) \<Rightarrow>
        (case anchor_of b fid of
           None \<Rightarrow> Inl KeyError
         | Some (path, _) \<Rightarrow> Inr (JObj (set_entry ''file_path'' (JStr path) kvs))))"

fun signals_json :: "input_bundle \<Rightarrow> (string \<times> (string \<times> json) list) list \<Rightarrow> exn + json list" where
  "signals_json b [] = Inr []"
| "signals_json b (x # xs) = proceed (signal_json b x) (\<lambda>j. proceed (signals_json b xs) (\<lambda>js. Inr (j # js)))"

definition independent_result ::
  "review_pure \<Rightarrow> input_bundle \<Rightarrow> (string \<times> (string \<times> json) list) list \<Rightarrow> exn + review_result option" where
  "independent_result rp b signals =
     (if signals = [] then Inr None
      else
        (case rp_independent_texts rp of (summary, limitations, scope) \<Rightarrow>
           proceed (signals_json b signals) (\<lambda>js.
           Inr (Some \<lparr>rx_summary = summary, rx_issues = [], rx_questions = [], rx_limitations = limitations,
                      rx_reviewed_files = length (remdups (map fst (ib_anchors b))), rx_omitted_files = ib_omitted b,
                      rx_coverage = ib_coverage b,
                      rx_more = [(''purpose'', JStr ''SECURITY''), (''scope'', JStr scope), (''security_evidence'', JArr js)]\<rparr>))))"

record prepared_review =
  pv_bundle :: input_bundle
  pv_knowledge :: "(retrieval \<times> rule_report list) option"
  pv_signals :: "(string \<times> (string \<times> json) list) list"
  pv_harness :: json
  pv_token :: string

text \<open>\<open>security_scan(bundle.payload) if purpose == "SECURITY" else []\<close>\<close>

definition signals_of :: "review_pure \<Rightarrow> review_task \<Rightarrow> input_bundle \<Rightarrow> (string \<times> (string \<times> json) list) list" where
  "signals_of rp t b =
     (if rk_purpose t = ''SECURITY''
      then map (signal_entries (rp_signal_texts rp)) (scan (rp_parse_module rp) (ib_context b)) else [])"

definition gather_context ::
  "('s \<times> 'o) review_outside \<Rightarrow> review_pure \<Rightarrow> review_task \<Rightarrow> ('s, 'o, prepared_review) act" where
  "gather_context ov rp t =
     io_bind (outside (ov_token ov (rs_installation_id (rk_repo t)) (rs_github_id (rk_repo t)))) (\<lambda>token.
     io_bind (verify_pull ov t token) (\<lambda>total.
     io_bind (outside (ov_request ov (reviewed_pull t @ ''/files?per_page=100&page=1'') token)) (\<lambda>answer.
     io_bind (pure (change_list answer)) (\<lambda>changes.
     io_bind (pure (prepare_changes max_patch max_input changes (JArr (map finding_json (vs_findings (rk_snapshot t))))
                (rk_ignored t) total (Some (mode_name (rk_mode t))))) (\<lambda>b0.
     io_bind (outside (enrich (reading ov token) max_patch max_input (repo_prefix (rk_repo t)) (vs_head_sha (rk_snapshot t))
                (rk_ignored t) b0)) (\<lambda>b1.
     io_bind (pure (with_purpose rp t (with_feedback (rk_feedback t) b1))) (\<lambda>(b2, knowledge).
     io_bind (pure (rp_observe rp b2)) (\<lambda>b3.
     let signals = signals_of rp t b3 in
     io_bind (pure (independent_result rp b3 signals)) (\<lambda>independent.
     io_bind (io_put (\<lambda>l. l\<lparr>lv_independent := independent\<rparr>)) (\<lambda>_.
     io_bind (verify_pull ov t token) (\<lambda>_.
     io_bind (pure (rp_compose rp b3)) (\<lambda>harness.
     io_ret \<lparr>pv_bundle = b3, pv_knowledge = knowledge, pv_signals = signals, pv_harness = harness, pv_token = token\<rparr>))))))))))))"

subsection \<open>The calls\<close>

text \<open>
  The draft: an invalid one is discarded (\<open>recovered\<close>). The requests are parsed from the answer as it
  came.
\<close>

record draft =
  dr_recovered :: bool
  dr_requests :: "context_request list"
  dr_result :: "review_result option"

definition no_draft :: draft where
  "no_draft = \<lparr>dr_recovered = True, dr_requests = [], dr_result = None\<rparr>"

definition read_draft :: "policy_tools \<Rightarrow> string \<Rightarrow> input_bundle \<Rightarrow> exn + draft" where
  "read_draft pt raw b =
     (case proceed (validate_result pt raw b) (\<lambda>result. proceed (pt_parse pt raw) (\<lambda>x.
             Inr \<lparr>dr_recovered = False, dr_requests = ro_requests x, dr_result = Some result\<rparr>)) of
        Inl (ValueError _) \<Rightarrow> Inr no_draft
      | r \<Rightarrow> r)"

definition draft_claims :: "draft \<Rightarrow> bool" where
  "draft_claims d \<longleftrightarrow> (case dr_result d of None \<Rightarrow> False | Some r \<Rightarrow> rx_issues r \<noteq> [] \<or> rx_questions r \<noteq> [])"

definition set_recovered :: "(string \<times> json) list \<Rightarrow> (string \<times> json) list" where
  "set_recovered kvs =
     map (\<lambda>(k, v). (k, if k = ''verification'' then JObj (set_entry ''status'' (JStr ''OUTPUT_RECOVERED'') (entries v)) else v)) kvs"

definition report_json :: "rule_report \<Rightarrow> json" where
  "report_json x =
     JObj [(''rule'', JStr (rr_rule x)),
           (''kind'', JStr (case rr_kind x of NAME_SUFFIX \<Rightarrow> ''NAME_SUFFIX'' | PATH_PREFIX \<Rightarrow> ''PATH_PREFIX'' | FORBIDDEN_IMPORT \<Rightarrow> ''FORBIDDEN_IMPORT'')),
           (''value'', JStr (rr_value x)), (''file_id'', JStr (rr_file_id x)), (''file_path'', JStr (rr_file_path x)),
           (''line'', (case rr_line x of None \<Rightarrow> JNull | Some n \<Rightarrow> JInt n)),
           (''status'', JStr (case rr_status x of VIOLATION \<Rightarrow> ''VIOLATION'' | LIMITED \<Rightarrow> ''LIMITED'' | CHECKED \<Rightarrow> ''CHECKED'')),
           (''citation'', JObj [(''document_id'', JStr (uuid_text (rr_document_id x))), (''version'', JInt (rr_version x)),
              (''title'', JStr (rr_title x)), (''section'', JStr (rr_section x)), (''heading'', JStr (rr_heading x))])]"

definition document_json :: "standard_snapshot \<Rightarrow> json" where
  "document_json d =
     JObj [(''document_id'', JStr (uuid_text (ss_document_id d))), (''version_id'', JStr (uuid_text (ss_id d))),
           (''version'', JInt (ss_version d)), (''title'', JStr (ss_title d)), (''kind'', JStr (standard_kind_text (ss_kind d)))]"

definition standards_entries :: "review_task \<Rightarrow> (retrieval \<times> rule_report list) option \<Rightarrow> (string \<times> json) list" where
  "standards_entries t x =
     (case x of
        None \<Rightarrow> []
      | Some (k, reports) \<Rightarrow>
          [(''standards'', JObj [(''candidate_count'', JInt (int (rt_candidate_count k))),
              (''omitted_sections'', JInt (int (rt_omitted k))), (''method'', JStr ''PATH_BM25_V1''),
              (''scope_fallback'', JBool (rt_fallback k)), (''documents'', JArr (map document_json (rk_standards t)))]),
           (''standard_checks'', JArr (map report_json reports)),
           (''standard_sources'', JArr (map (\<lambda>p. JObj (filter (\<lambda>kv. fst kv \<noteq> ''text'') (entries (passage_json p)))) (rt_sections k)))])"

text \<open>The result as it is stored: with the independent signals, the harness, the purpose and the documents.\<close>

definition stored_result :: "review_task \<Rightarrow> prepared_review \<Rightarrow> input_bundle \<Rightarrow> review_result \<Rightarrow> exn + review_result" where
  "stored_result t p b r =
     proceed (if pv_signals p = [] then Inr (rx_more r)
              else proceed (signals_json b (pv_signals p)) (\<lambda>js. Inr (set_entry ''security_evidence'' (JArr js) (rx_more r)))) (\<lambda>more.
     Inr (r\<lparr>rx_more := set_entry ''purpose'' (JStr (rk_purpose t)) (set_entry ''harness'' (pv_harness p) more) @
              standards_entries t (pv_knowledge p)\<rparr>))"

text \<open>\<open>None\<close>: the worker returns without completing the run.\<close>

definition supplemented ::
  "('a review_tables_scheme \<times> 'o) review_outside \<Rightarrow> datetime \<Rightarrow> claim \<Rightarrow> review_task \<Rightarrow> prepared_review \<Rightarrow> draft \<Rightarrow>
   ('a review_tables_scheme, 'o, input_bundle option) act" where
  "supplemented ov now c t p d =
     (if dr_requests d = [] then io_ret (Some (pv_bundle p))
      else
        io_bind (outside (supplement (reading ov (pv_token p)) (repo_prefix (rk_repo t)) (vs_head_sha (rk_snapshot t))
                   (rk_ignored t) (pv_bundle p) (dr_requests d))) (\<lambda>b.
        io_bind (verify_pull ov t (pv_token p)) (\<lambda>_.
        io_bind (outside (ov_pause ov)) (\<lambda>_.
        io_bind (in_db (still_authorized now c)) (\<lambda>ok. io_ret (if ok then Some b else None))))))"

definition second_call ::
  "('s \<times> 'o) review_outside \<Rightarrow> review_pure \<Rightarrow> input_bundle \<Rightarrow> string \<Rightarrow> draft \<Rightarrow> ('s, 'o, review_result) act" where
  "second_call ov rp b raw d =
     (if draft_claims d then
        io_bind (pure (rp_second_payload rp b raw)) (\<lambda>payload.
        io_bind (provider_call (ov_pause ov) (ov_verify ov payload)) (\<lambda>checked.
        pure (verified_result (rp_tools rp) (rp_parse_verification rp) (rp_ground rp) (rp_notice rp) checked raw b)))
      else
        io_bind (provider_call (ov_pause ov) (ov_recheck ov (payload_text (ib_context b)))) (\<lambda>checked.
        io_bind (pure (validate_empty_review (rp_tools rp) (rp_parse_empty rp) (rp_ground rp) checked b)) (\<lambda>r.
        io_ret (if dr_recovered d then r\<lparr>rx_more := set_recovered (rx_more r)\<rparr> else r))))"

text \<open>The clock readings of an execution, in order.\<close>

record worker_clock =
  wk_begin :: datetime
  wk_started :: datetime
  wk_first :: datetime
  wk_second :: datetime
  wk_still :: datetime
  wk_complete :: review_clock
  wk_failed :: review_clock

definition complete_with ::
  "('a review_tables_scheme \<times> 'o) review_outside \<Rightarrow> review_clock \<Rightarrow> claim \<Rightarrow> review_result option \<Rightarrow> string option \<Rightarrow>
   ('a review_tables_scheme, 'o, unit) act" where
  "complete_with ov ck c result code =
     io_bind (outside (ov_pause ov)) (\<lambda>_.
     io_bind (io_get lv_incoming) (\<lambda>incoming.
     io_bind (io_get lv_outgoing) (\<lambda>outgoing.
     in_db (complete_review ck c result code False incoming outgoing))))"

definition after_first_call ::
  "('a review_tables_scheme \<times> 'o) review_outside \<Rightarrow> review_pure \<Rightarrow> worker_clock \<Rightarrow> claim \<Rightarrow> review_task \<Rightarrow> prepared_review \<Rightarrow>
   string \<Rightarrow> ('a review_tables_scheme, 'o, unit) act" where
  "after_first_call ov rp wk c t p raw =
     io_bind (pure (read_draft (rp_tools rp) raw (pv_bundle p))) (\<lambda>d.
     io_bind (verify_pull ov t (pv_token p)) (\<lambda>_.
     io_bind (io_get lv_incoming) (\<lambda>incoming.
     io_bind (io_get lv_outgoing) (\<lambda>outgoing.
     io_bind (outside (ov_pause ov)) (\<lambda>_.
     io_bind (in_db (reserve_call (wk_second wk) c 1 incoming outgoing)) (\<lambda>granted.
     if \<not> granted then io_ret ()
     else
       io_bind (supplemented ov (wk_still wk) c t p d) (\<lambda>b.
       case b of
         None \<Rightarrow> io_ret ()
       | Some b \<Rightarrow>
           io_bind (second_call ov rp b raw d) (\<lambda>r.
           io_bind (pure (stored_result t p b r)) (\<lambda>stored.
           complete_with ov (wk_complete wk) c (Some stored) None)))))))))"

definition review_body ::
  "('a review_tables_scheme \<times> 'o) review_outside \<Rightarrow> review_pure \<Rightarrow> review_settings \<Rightarrow> worker_clock \<Rightarrow> claim \<Rightarrow>
   ('a review_tables_scheme, 'o, unit) act" where
  "review_body ov rp g wk c =
     io_bind (in_db (begin_review (pt_sha (rp_tools rp)) g (wk_begin wk) (wk_started wk) c)) (\<lambda>task.
     case task of
       None \<Rightarrow> io_ret ()
     | Some t \<Rightarrow>
         io_bind (gather_context ov rp t) (\<lambda>p.
         io_bind (outside (ov_pause ov)) (\<lambda>_.
         io_bind (in_db (reserve_call (wk_first wk) c 0 0 0)) (\<lambda>granted.
         if \<not> granted then io_ret ()
         else
           io_bind (provider_call (ov_pause ov) (ov_review ov (payload_text (ib_context (pv_bundle p))))) (\<lambda>raw.
           after_first_call ov rp wk c t p raw)))))"

subsection \<open>Exceptions\<close>

fun failure_code :: "exn \<Rightarrow> string" where
  "failure_code TimeoutError = ''AI_TIMEOUT''"
| "failure_code (GitHubFailure c _) = c"
| "failure_code (AppException c _) = c"
| "failure_code (ValueError m) =
     (if m \<in> {''NO_SAFE_CONTEXT'', ''STANDARDS_REQUIRED_TOO_LARGE''} then m else ''AI_CONTEXT_OR_OUTPUT_INVALID'')"
| "failure_code e = ''AI_PROVIDER_FAILED''"

definition execute_review ::
  "('a review_tables_scheme \<times> 'o) review_outside \<Rightarrow> review_pure \<Rightarrow> review_settings \<Rightarrow> worker_clock \<Rightarrow> claim \<Rightarrow> bool \<Rightarrow>
   ('a review_tables_scheme, 'o, unit) act" where
  "execute_review ov rp g wk c expired =
     (if expired then in_db (complete_review (wk_failed wk) c None (Some ''LEASE_EXPIRED'') True 0 0)
      else if claim_workspace_id c = None then io_raise AssertionError
      else
        io_try (review_body ov rp g wk c) (\<lambda>e.
        io_bind (io_get lv_independent) (\<lambda>independent.
        complete_with ov (wk_failed wk) c independent (Some (failure_code e)))))"

end
