(* ===== verification/Review_Properties.thy ===== *)
theory Review_Properties
  imports Review_System Review_Worker Standards_Properties
begin

section \<open>Properties of the reviews\<close>

text \<open>
  What holds of the reviews and their jobs in every reachable state, what a reservation of a call
  requires, and that the worker sends nothing without one.
\<close>

subsection \<open>Reachable states\<close>

text \<open>C27. Reviews and jobs agree in every reachable state: each review has exactly one job, is open
exactly while that job can be executed and otherwise ended as the job did; a workspace has at most one
open review; a review makes at most two calls, none before it starts, and its cost is marked as
uncertain from its first call until it is completed.\<close>

theorem reviews_match_jobs:
  assumes "review_inv limit s" and "(review_step limit)\<^sup>*\<^sup>* s s'" and "r \<in> set (reviews s')"
  shows "(\<exists>!j. j \<in> set (jobs s') \<and> carries EXPLAIN_FINDINGS (rv_id r) j) \<and>
    (\<exists>j \<in> set (jobs s'). carries EXPLAIN_FINDINGS (rv_id r) j \<and> job_phase (job_state j) = run_phase (rv_status r)) \<and>
    (\<forall>q \<in> set (reviews s'). review_open q \<and> review_open r \<and> rv_workspace_id q = rv_workspace_id r \<longrightarrow> q = r) \<and>
    rv_call_attempts r \<le> 2 \<and> (rv_status r = PENDING \<longrightarrow> rv_call_attempts r = 0) \<and>
    rv_usage_uncertain r = (0 < rv_call_attempts r \<and> rv_status r \<noteq> COMPLETED)"
proof -
  have inv: "review_inv limit s'" using reviewing.inv_steps [OF assms(2,1)] .
  note p = review_inv_parts [OF inv]
  have "\<exists>!j. j \<in> set (jobs s') \<and> carries EXPLAIN_FINDINGS (rv_id r) j"
    using review_tracking.tracked_carrier [OF p(3,7) assms(3)] by simp
  moreover have "\<exists>j \<in> set (jobs s'). carries EXPLAIN_FINDINGS (rv_id r) j \<and> job_phase (job_state j) = run_phase (rv_status r)"
    using p(3) assms(3) by (auto simp: tracked_def review_phase_def)
  moreover have "q = r" if "q \<in> set (reviews s')" "review_open q" "review_open r" "rv_workspace_id q = rv_workspace_id r" for q
    using one_open_review_unique [OF p(4)] that assms(3) by metis
  ultimately show ?thesis
    using review_attempts [OF inv assms(3)] review_spending [OF inv assms(3)] by (auto simp: spending_ok_def)
qed

text \<open>C28. The daily limit holds: whatever is requested, repeated, cancelled and executed, the reviews a
workspace requested on one day (UTC) are never more than the configured limit, provided the clock of
the application is not a day ahead of the clock of the database.\<close>

theorem daily_limit_kept:
  assumes "review_inv limit s" and "(review_step limit)\<^sup>*\<^sup>* s s'"
  shows "length (filter (\<lambda>r. rv_workspace_id r = wid \<and> day_start (rv_created_at r) = d) (reviews s')) \<le> limit"
proof -
  have "used_on wid d (reviews s') \<le> limit"
    using review_inv_parts(6) [OF reviewing.inv_steps [OF assms(2,1)]] by simp
  moreover have "used_on wid d rs = length (filter (\<lambda>r. rv_workspace_id r = wid \<and> day_start (rv_created_at r) = d) rs)" for rs
    by (induction rs) (simp_all add: used_on_def day_of_def)
  ultimately show ?thesis by simp
qed

text \<open>A review that has ended is final: whatever happens afterwards, a worker that comes back late
included, its status, its result, its error and its number of calls stay as they are.\<close>

theorem ended_review_is_final:
  assumes "review_inv limit s" and "r \<in> set (reviews s)" and "rv_status r \<in> set terminal_runs"
    and "(review_step limit)\<^sup>*\<^sup>* s s'"
  shows "\<exists>r' \<in> set (reviews s'). rv_id r' = rv_id r \<and> rv_status r' = rv_status r \<and> rv_result r' = rv_result r \<and>
    rv_error_code r' = rv_error_code r \<and> rv_call_attempts r' = rv_call_attempts r"
proof -
  have "reviews_evolve s s'" by (rule reviewing.evolves_steps [OF assms(4,1)])
  with assms(2,3) show ?thesis unfolding reviews_evolve_def review_evolves_def same_request_def by metis
qed

subsection \<open>Reservations\<close>

lemma may_review_other_row:
  "may_review uid wid rid execute r (reviews_update f s) \<Longrightarrow> execute \<Longrightarrow>
   (\<exists>m. authorized uid wid ''owner'' m s) \<and>
   (\<exists>q. q \<in> set (repositories s) \<and> rc_id q = rv_repository_id r \<and> rc_workspace_id q = wid \<and> rc_status q = R_ACTIVE \<and>
      rc_generation q = rv_connection_generation r) \<and>
   (rv_purpose r = ''STANDARDS'' \<longrightarrow>
      (\<exists>ds. standards_snapshot wid (rv_repository_id r) (Some (rv_standard_versions r)) s = Inr (ds, s)))"
  unfolding may_review_def documents_active_def repo_authorized_def
  by (auto simp: authorized_def standards_snapshot_Inr Let_def)

lemma granted_counts:
  assumes "reserve_call now c k incoming outgoing s = Inr (True, t)"
  shows "\<exists>r' \<in> set (reviews t). rv_id r' = claim_aggregate_id c \<and> rv_call_attempts r' = k + 1 \<and> rv_usage_uncertain r'"
  using assms
proof (cases rule: reserve_call_Inr)
  case (granted r j q)
  let ?r = "reserved k (count_tokens incoming outgoing r)"
  have "?r \<in> set (reviews t)" "rv_id ?r = claim_aggregate_id c"
    unfolding granted(11) using granted(2,3) by (auto simp: reserved_def count_tokens_def intro!: put_row_mem)
  then show ?thesis using written_columns(6,7) by metis
qed simp

text \<open>C26. A call of the provider is only granted to the worker that may make it now: when a reservation
is committed, the run is running with exactly the expected number of calls, the claim holds the
unexpired lease of its job, the requester is at this moment the active owner of the active workspace,
the repository is connected in the generation the review was requested for, and the documents pinned by a
review of team documents are all still active; the call is then counted before it is made.\<close>

theorem reservation_needs_authority:
  assumes "transaction review_schema (reserve_call now c k incoming outgoing) s = (Inr True, t)"
  shows "\<exists>r \<in> set (reviews s). rv_id r = claim_aggregate_id c \<and> rv_status r = RUNNING \<and> rv_call_attempts r = k \<and>
    (\<exists>j \<in> set (jobs s). job_id j = claim_id c \<and> holds_lease c j \<and> now < the (job_lease_until j)) \<and>
    (\<exists>m. authorized (rv_requested_by r) (rv_workspace_id r) ''owner'' m s) \<and>
    (\<exists>q \<in> set (repositories s). rc_id q = rv_repository_id r \<and> rc_workspace_id q = rv_workspace_id r \<and>
       rc_status q = R_ACTIVE \<and> rc_generation q = rv_connection_generation r) \<and>
    (rv_purpose r = ''STANDARDS'' \<longrightarrow>
       (\<exists>ds. standards_snapshot (rv_workspace_id r) (rv_repository_id r) (Some (rv_standard_versions r)) s = Inr (ds, s))) \<and>
    (\<exists>r' \<in> set (reviews t). rv_id r' = rv_id r \<and> rv_call_attempts r' = k + 1 \<and> rv_usage_uncertain r')"
proof -
  have run: "reserve_call now c k incoming outgoing s = Inr (True, t)" using assms by (simp add: transaction_Inr_iff)
  then show ?thesis
  proof (cases rule: reserve_call_Inr)
    case (granted r j q)
    let ?r = "count_tokens incoming outgoing r"
    have "q \<in> set (put_row rv_id ?r (reviews s))" "rv_id q = rv_id r"
      using granted(10) by (simp_all add: may_review_def)
    then have q: "q = ?r" by (auto dest!: put_row_in)
    have same: "rv_repository_id ?r = rv_repository_id r" "rv_connection_generation ?r = rv_connection_generation r"
      "rv_purpose ?r = rv_purpose r" "rv_standard_versions ?r = rv_standard_versions r"
      by (simp_all add: count_tokens_def)
    from may_review_other_row [OF granted(10)] show ?thesis
      unfolding q same using granted(2-9) granted_counts [OF run] by (intro bexI [of _ r]) auto
  qed simp
qed

subsection \<open>Examples\<close>

text \<open>The shop with a running review of its team documents; the worker holds the job.\<close>

definition review_shop :: "review_run list \<Rightarrow> job list \<Rightarrow> review_tables" where
  "review_shop rs js =
     standard_tables.extend
       (analysis_tables.extend (analysis_shop [] js) (standard_tables.fields [shop_document 1] [shop_version 5 130 1]))
       (review_tables.fields rs [])"

definition shop_review :: review_run where
  "shop_review =
     \<lparr>rv_id = 90, rv_created_at = 1, rv_purpose = ''STANDARDS'', rv_mode = SENIOR, rv_standard_versions = [130],
      rv_workspace_id = 10, rv_analysis_id = 80, rv_pr_id = 60, rv_repository_id = 70, rv_connection_generation = 1,
      rv_requested_by = 1, rv_head_sha = replicate 40 (CHR ''c''), rv_model = ''m'', rv_prompt_version = ''p'',
      rv_policy_version = review_policy, rv_generation = 0, rv_execution_key = replicate 64 (CHR ''a''), rv_status = RUNNING,
      rv_consented_at = 1, rv_started_at = Some 2, rv_finished_at = None, rv_call_attempts = 0, rv_input_tokens = 0,
      rv_output_tokens = 0, rv_usage_uncertain = False, rv_error_code = None, rv_result = None\<rparr>"

definition shop_review_job :: job where
  "shop_review_job = lease 2 ''w'' (new_job space_digest 1 91 EXPLAIN_FINDINGS 90 (Some 10))"

abbreviation shop_reviewing :: review_tables where
  "shop_reviewing \<equiv> review_shop [shop_review] [shop_review_job]"

abbreviation shop_reserved :: review_tables where
  "shop_reserved \<equiv> review_shop [reserved 0 (count_tokens 0 0 shop_review)] [shop_review_job]"

abbreviation shop_unreviewed :: review_tables where
  "shop_unreviewed \<equiv> review_shop [canceled_review 5 shop_review] [cancel_review_job 5 shop_review_job]"

lemma review_shop_fields [simp]:
  "reviews (review_shop rs js) = rs" "jobs (review_shop rs js) = js" "feedbacks (review_shop rs js) = []"
  "standard_documents (review_shop rs js) = [shop_document 1]" "standard_versions (review_shop rs js) = [shop_version 5 130 1]"
  "reviews_update f (review_shop rs js) = review_shop (f rs) js"
  by (simp_all add: review_shop_def standard_tables.extend_def review_tables.fields_def analysis_tables.extend_def
      standard_tables.fields_def analysis_shop_def pull_tables.extend_def sync_shop_def)

lemma review_shop_jobs: "jobs_update f (review_shop rs js) = review_shop rs (f js)"
  by (simp add: review_shop_def standard_tables.extend_def review_tables.fields_def analysis_tables.extend_def
      standard_tables.fields_def analysis_shop_def pull_tables.extend_def sync_shop_def)

lemma review_shop_schema: "review_schema (review_shop rs js) \<longleftrightarrow> jobs_ok js \<and> reviews_ok rs"
proof -
  have "analysis_schema (review_shop rs js) = analysis_schema (analysis_shop [] js)"
    by (simp add: analysis_schema_def pull_schema_def repository_schema_def workspace_schema_def jobs_schema_def
        review_shop_def standard_tables.extend_def review_tables.fields_def analysis_tables.extend_def standard_tables.fields_def)
  moreover have "analysis_schema (analysis_shop [] js) = jobs_ok js"
    by (simp add: analysis_schema_def analysis_shop_pulls analysis_runs_ok_def file_rows_ok_def finding_rows_ok_def)
  moreover have "standard_documents_ok [shop_document 1]" "standard_versions_ok [shop_version 5 130 1]"
    by (simp_all add: standard_documents_ok_def standard_versions_ok_def)
  ultimately show ?thesis by (simp add: review_schema_def standard_schema_def feedbacks_ok_def)
qed

lemma shop_review_facts [simp]:
  "rv_id shop_review = 90" "rv_workspace_id shop_review = 10" "rv_repository_id shop_review = 70"
  "rv_requested_by shop_review = 1" "rv_status shop_review = RUNNING" "rv_call_attempts shop_review = 0"
  "rv_connection_generation shop_review = 1" "rv_purpose shop_review = ''STANDARDS''" "rv_standard_versions shop_review = [130]"
  "rv_created_at shop_review = 1" "\<not> rv_usage_uncertain shop_review"
  by (simp_all add: shop_review_def)

lemma shop_review_job_facts [simp]:
  "job_id shop_review_job = 91" "job_kind shop_review_job = EXPLAIN_FINDINGS" "job_aggregate_id shop_review_job = 90"
  "job_state shop_review_job = LEASED"
  by (simp_all add: shop_review_job_def lease_def new_job_def)

lemma shop_review_job_inv: "job_inv shop_review_job"
  unfolding shop_review_job_def
  by (intro job_inv_lease job_inv_new) (simp_all add: space_digest_def hex_chars_def new_job_def)

lemma shop_review_rows:
  "review_row_ok shop_review" "review_row_ok (reserved 0 (count_tokens 0 0 shop_review))" "review_row_ok (canceled_review 5 shop_review)"
  by (simp_all add: review_row_ok_def shop_review_def reserved_def count_tokens_def canceled_review_def terminal_runs_def
      review_purposes_def hex_chars_def del: replicate.simps)

lemma review_shop_inv:
  assumes "job_inv j" and "review_row_ok r" and "carries EXPLAIN_FINDINGS (rv_id r) j"
    and "job_phase (job_state j) = run_phase (rv_status r)" and "spending_ok r" and "1 \<le> limit"
  shows "review_inv limit (review_shop [r] [j])"
proof -
  have "jobs_ok [j]" using job_inv_row_ok [OF assms(1)] by (simp add: jobs_ok_def)
  with assms show ?thesis
    by (simp add: review_inv_def review_shop_schema reviews_ok_def jobs_inv_def jobs_schema_def tracked_def
        one_open_review_def review_phase_def used_on_def)
qed

lemma shop_reviewing_inv: "review_inv 1 shop_reviewing"
  by (rule review_shop_inv)
    (simp_all add: shop_review_job_inv shop_review_rows carries_def spending_ok_def)

lemmas review_shop_eval = pull_eval review_shop_def standard_tables.extend_def review_tables.fields_def
  analysis_tables.extend_def standard_tables.fields_def analysis_shop_def pull_tables.extend_def sync_shop_defs

lemma review_shop_permission:
  "require_permission 1 10 ''owner'' (review_shop rs js) = Inr (OWNER, review_shop rs js)"
  by (simp add: review_shop_eval)

lemma review_shop_repository:
  "repo_require 1 10 70 ''read'' True (review_shop rs js) = Inr (repo_snapshot (hd (repositories (review_shop rs js))), review_shop rs js)"
  "rs_generation (repo_snapshot (hd (repositories (review_shop rs js)))) = 1"
  by (simp_all add: review_shop_eval repo_snapshot_def)

lemma shop_review_guard:
  assumes "r \<in> {shop_review, count_tokens 0 0 shop_review, canceled_review 5 shop_review}"
  shows "authorize_review 1 10 90 True (review_shop [r] js) = Inr (r, review_shop [r] js)"
proof -
  have r: "rv_id r = 90" "rv_workspace_id r = 10" "rv_repository_id r = 70" "rv_connection_generation r = 1"
    "rv_purpose r = ''STANDARDS''" "rv_standard_versions r = [130]"
    using assms by (auto simp: canceled_review_def count_tokens_def)
  have docs: "standards_snapshot 10 70 (Some [130]) (review_shop [r] js) =
      Inr ([snapshot_of (shop_version 5 130 1)], review_shop [r] js)"
    by (simp add: standards_snapshot_Inr snapshot_row_def)
  have row: "review_row 10 90 (review_shop [r] js) = Inr (r, review_shop [r] js)"
    by (simp add: review_row_def bind_def select_first_def gets_def ret_def r)
  show ?thesis
    unfolding authorize_review_def
    by (simp add: review_shop_permission review_shop_repository row docs r txn_eval del: One_nat_def)
qed

definition shop_review_claim :: claim where
  "shop_review_claim = claim_of shop_review_job ''w''"

lemma shop_review_claim_facts [simp]:
  "claim_workspace_id shop_review_claim = Some 10" "claim_aggregate_id shop_review_claim = 90" "claim_id shop_review_claim = 91"
  by (simp_all add: shop_review_claim_def claim_of_def shop_review_job_def lease_def new_job_def)

lemma review_shop_lock: "lock_system 10 (review_shop rs js) = Inr (True, review_shop rs js)"
  by (simp add: lock_system_def review_shop_eval)

lemma review_shop_row: "rv_id r = 90 \<Longrightarrow> rv_workspace_id r = 10 \<Longrightarrow> review_row 10 90 (review_shop [r] js) = Inr (r, review_shop [r] js)"
  by (simp add: review_row_def bind_def select_first_def gets_def ret_def)

lemma shop_review_fence: "fence 3 shop_review_claim False (review_shop rs [shop_review_job]) = Inr (Some shop_review_job, review_shop rs [shop_review_job])"
  by (simp add: fence_def txn_eval row_ops shop_review_claim_def claim_of_def shop_review_job_def lease_def new_job_def holds_lease_def
      review_shop_fields)

lemma shop_reserves:
  "transaction review_schema (reserve_call 3 shop_review_claim 0 0 0) shop_reviewing = (Inr True, shop_reserved)"
proof -
  have tokens: "count_tokens 0 0 shop_review = shop_review" by (simp add: count_tokens_def shop_review_def)
  have put: "put_row rv_id (reserved 0 shop_review) [shop_review] = [reserved 0 shop_review]" "put_row rv_id shop_review [shop_review] = [shop_review]"
    by (simp_all add: put_row_def reserved_def)
  have "reserve_call 3 shop_review_claim 0 0 0 shop_reviewing = Inr (True, shop_reserved)"
    by (simp add: reserve_call_def bind_def review_shop_lock review_shop_row Let_def tokens shop_review_fence shop_review_guard
        save_row_def modify_def put ret_def del: One_nat_def)
  moreover have "review_schema shop_reserved"
    using job_inv_row_ok [OF shop_review_job_inv] shop_review_rows(2)
    by (simp add: review_shop_schema jobs_ok_def reviews_ok_def)
  ultimately show ?thesis by (simp add: transaction_def)
qed

theorem reservation_needs_authority_witness:
  "(\<exists>m. authorized 1 10 ''owner'' m shop_reviewing) \<and>
   (\<exists>ds. standards_snapshot 10 70 (Some [130]) shop_reviewing = Inr (ds, shop_reviewing))"
  using reservation_needs_authority [OF shop_reserves] by simp

lemma shop_review_cancels:
  "transaction review_schema (cancel_review 5 1 10 90) shop_reviewing = (Inr (canceled_review 5 shop_review), shop_unreviewed)"
proof -
  have put: "put_row rv_id (canceled_review 5 shop_review) [shop_review] = [canceled_review 5 shop_review]"
    "put_row job_id (cancel_review_job 5 shop_review_job) [shop_review_job] = [cancel_review_job 5 shop_review_job]"
    by (simp_all add: put_row_def canceled_review_def cancel_keeps)
  have "cancel_review 5 1 10 90 shop_reviewing = Inr (canceled_review 5 shop_review, shop_unreviewed)"
    by (simp add: cancel_review_def bind_def shop_review_guard terminal_runs_def select_first_def gets_def
        save_row_def modify_def review_shop_jobs put ret_def del: One_nat_def)
  moreover have "review_schema shop_unreviewed"
    using job_inv_row_ok [OF job_inv_cancel_review [OF shop_review_job_inv]] shop_review_rows(3)
    by (simp add: review_shop_schema jobs_ok_def reviews_ok_def)
  ultimately show ?thesis by (simp add: transaction_def)
qed

lemma shop_review_step: "(review_step 1)\<^sup>*\<^sup>* shop_reviewing shop_unreviewed"
  using review_step.cancel [OF shop_review_cancels] by (rule r_into_rtranclp)

theorem reviews_match_jobs_witness:
  "\<exists>j \<in> set (jobs shop_unreviewed). carries EXPLAIN_FINDINGS 90 j \<and> job_phase (job_state j) = Stopped"
  using reviews_match_jobs [OF shop_reviewing_inv shop_review_step, of "canceled_review 5 shop_review"]
  by (simp add: canceled_review_def)

theorem daily_limit_kept_witness:
  "length (filter (\<lambda>r. rv_workspace_id r = 10 \<and> day_start (rv_created_at r) = 0) (reviews shop_unreviewed)) \<le> 1"
  by (rule daily_limit_kept [OF shop_reviewing_inv shop_review_step])

text \<open>The worker comes back with a result for the cancelled review.\<close>

definition shop_result :: review_result where
  "shop_result = \<lparr>rx_summary = ''S'', rx_issues = [], rx_questions = [], rx_limitations = ''L'', rx_reviewed_files = 1,
     rx_omitted_files = 0, rx_coverage = [], rx_more = []\<rparr>"

definition shop_review_late :: "(exn + unit) \<times> review_tables" where
  "shop_review_late = transaction review_schema
     (complete_review \<lparr>rc_fence = 6, rc_finish = 6, rc_closed = 6\<rparr> shop_review_claim (Some shop_result) None False 7 9) shop_unreviewed"

lemma shop_unreviewed_inv: "review_inv 1 shop_unreviewed"
  by (rule review_shop_inv)
    (simp_all add: job_inv_cancel_review shop_review_job_inv shop_review_rows carries_def spending_ok_def cancel_keeps,
     simp_all add: canceled_review_def)

lemma shop_review_late_step: "(review_step 1)\<^sup>*\<^sup>* shop_unreviewed (snd shop_review_late)"
proof -
  have id: "rv_id (canceled_review 5 shop_review) = 90" "rv_workspace_id (canceled_review 5 shop_review) = 10"
    by (simp_all add: canceled_review_def)
  obtain t where t: "complete_review \<lparr>rc_fence = 6, rc_finish = 6, rc_closed = 6\<rparr> shop_review_claim (Some shop_result) None False 7 9 shop_unreviewed = Inr ((), t)"
    by (simp add: complete_review_def bind_def review_shop_lock review_shop_row id Let_def save_row_def modify_def ret_def
        terminal_runs_def)
  show ?thesis
  proof (cases "review_schema t")
    case True
    then have step: "shop_review_late = (Inr (), t)" by (simp add: shop_review_late_def transaction_def t)
    have "issued EXPLAIN_FINDINGS shop_review_claim (jobs shop_unreviewed)"
      by (simp add: issued_def carries_def cancel_keeps)
    from review_step.complete [OF this step [unfolded shop_review_late_def]] show ?thesis
      unfolding step snd_conv by (rule r_into_rtranclp)
  next
    case False
    then show ?thesis by (simp add: shop_review_late_def transaction_def t)
  qed
qed

theorem ended_review_is_final_witness:
  "\<exists>r' \<in> set (reviews (snd shop_review_late)). rv_id r' = 90 \<and> rv_status r' = RUN_CANCELED"
  using ended_review_is_final [OF shop_unreviewed_inv _ _ shop_review_late_step, of "canceled_review 5 shop_review"]
  by (auto simp: terminal_runs_def) (auto simp: canceled_review_def)

end
