(* ===== verification/Context_Steps.thy ===== *)
theory Context_Steps
  imports Context_Selection
begin

section \<open>The world while related source is read\<close>

text \<open>
  Looking for related source moves the world only by the actions it is given: a relation that is
  reflexive and transitive and that every request, inspection, ranking and deadline follows is followed
  by \<open>enrich\<close> and \<open>supplement\<close>, also when they raise.
\<close>

definition follows :: "('w \<Rightarrow> 'w \<Rightarrow> bool) \<Rightarrow> ('w, 'a) io \<Rightarrow> bool" where
  "follows leads m \<longleftrightarrow> (\<forall>w. leads w (snd (m w)))"

definition tools_follow :: "('w \<Rightarrow> 'w \<Rightarrow> bool) \<Rightarrow> 'w source_tools \<Rightarrow> bool" where
  "tools_follow leads st \<longleftrightarrow>
     (\<forall>p. follows leads (st_get st p)) \<and> (\<forall>m. follows leads (st_inspect st m)) \<and> follows leads (st_deadline st) \<and>
     (\<forall>rs \<in> set_option (st_ranker st). follows leads (rg_limit rs) \<and> (\<forall>p. follows leads (rg_post rs p)))"

locale world_order =
  fixes leads :: "'w \<Rightarrow> 'w \<Rightarrow> bool"
  assumes stays: "leads w w"
    and goes_on: "leads u v \<Longrightarrow> leads v w \<Longrightarrow> leads u w"
begin

lemma follows_ret: "follows leads (io_ret x)"
  by (simp add: follows_def io_ret_def stays)

lemma follows_raise: "follows leads (io_raise e)"
  by (simp add: follows_def io_raise_def stays)

lemma follows_of: "follows leads (io_of r)"
  by (cases r) (simp_all add: io_of_def follows_ret follows_raise)

lemma follows_bind:
  assumes "follows leads m" and "\<And>x. follows leads (f x)"
  shows "follows leads (io_bind m f)"
  unfolding follows_def
proof
  fix w
  obtain r v where m: "m w = (r, v)" by (cases "m w")
  then have "leads w v" using assms(1) unfolding follows_def by (metis snd_conv)
  with m assms(2) show "leads w (snd (io_bind m f w))"
    by (cases r) (auto simp: io_bind_def follows_def intro: goes_on)
qed

lemma follows_try:
  assumes "follows leads m" and "\<And>e. follows leads (h e)"
  shows "follows leads (io_try m h)"
  unfolding follows_def
proof
  fix w
  obtain r v where m: "m w = (r, v)" by (cases "m w")
  then have "leads w v" using assms(1) unfolding follows_def by (metis snd_conv)
  with m assms(2) show "leads w (snd (io_try m h w))"
    by (cases r) (auto simp: io_try_def follows_def intro: goes_on)
qed

lemmas follows_intros = follows_ret follows_raise follows_of follows_bind follows_try

lemma source_follows:
  fixes regular :: "string list option"
  assumes "tools_follow leads st"
  shows "follows leads (read_tree st prefix sha)" and "follows leads (source st prefix sha regular path)"
    and "follows leads (try_source st prefix sha rs path)" and "follows leads (search_tree st prefix sha)"
    and "follows leads (inspect_sources st m)"
proof -
  have get: "follows leads (st_get st p)" and inspect: "follows leads (st_inspect st m)" for p m
    using assms by (simp_all add: tools_follow_def)
  show tree: "follows leads (read_tree st prefix sha)" for prefix sha
    unfolding read_tree_def by (intro follows_intros get) (auto intro!: follows_intros get split: option.split)
  show src: "follows leads (source st prefix sha regular path)" for regular
    unfolding source_def by (auto intro!: follows_intros get tree split: option.split)
  show "follows leads (try_source st prefix sha rs path)"
    unfolding try_source_def by (auto intro!: follows_intros src)
  show "follows leads (search_tree st prefix sha)"
    unfolding search_tree_def by (auto intro!: follows_intros tree)
  show "follows leads (inspect_sources st m)"
    unfolding inspect_sources_def by (auto intro!: follows_intros inspect split: option.split)
qed

lemma read_sources_follows:
  "tools_follow leads st \<Longrightarrow> follows leads (read_sources st prefix sha regular ps loaded)"
  by (induction ps arbitrary: loaded) (auto intro!: follows_intros source_follows)

lemma rank_follows:
  assumes "follows leads (rg_limit rs)" and "\<And>p. follows leads (rg_post rs p)"
  shows "follows leads (rank rs query cs)" and "follows leads (rank_groups rs pool gs)"
proof -
  show r: "follows leads (rank rs query cs)" for query cs
    unfolding rank_def Let_def by (auto intro!: follows_intros assms(2) split: option.split)
  show "follows leads (rank_groups rs pool gs)"
    by (induction gs) (auto intro!: follows_intros assms(1) r split: prod.split)
qed

lemma rank_pool_follows:
  assumes "tools_follow leads st"
  shows "follows leads (rank_pool st groups pool orders base)"
proof (cases "st_ranker st")
  case (Some rs)
  then have "follows leads (rg_limit rs)" "\<And>p. follows leads (rg_post rs p)"
    using assms by (auto simp: tools_follow_def)
  then show ?thesis
    unfolding rank_pool_def by (auto simp: Some intro!: follows_intros rank_follows split: prod.split)
qed (simp add: rank_pool_def follows_ret)

theorem enrich_follows:
  assumes "tools_follow leads st"
  shows "follows leads (enrich st per_file limit prefix sha ignored b)"
proof -
  have deadline: "follows leads (st_deadline st)" using assms by (simp add: tools_follow_def)
  have finish: "follows leads (finish_gathering st per_file limit b changed ns srcs m pool groups fetched omitted)"
    for changed ns srcs m pool groups fetched omitted
    unfolding finish_gathering_def Let_def by (intro follows_intros rank_pool_follows deadline assms)
  have related: "follows leads (with_related st per_file limit prefix sha regular b ns safe m groups omitted)"
    for regular ns safe m groups omitted
    unfolding with_related_def Let_def
    by (intro follows_intros read_sources_follows source_follows finish assms)
  have sources: "follows leads (with_sources st per_file limit prefix sha regular b ns loaded)" for regular ns loaded
    unfolding with_sources_def Let_def by (intro follows_intros source_follows related assms)
  have "follows leads (collect_context st per_file limit prefix sha ignored b)"
    unfolding collect_context_def Let_def by (intro follows_intros source_follows read_sources_follows sources assms)
  then show ?thesis unfolding enrich_def by (auto intro!: follows_intros)
qed

theorem supplement_follows:
  assumes "tools_follow leads st"
  shows "follows leads (supplement st prefix sha ignored b qs)"
proof -
  have cached: "follows leads (cached_source st prefix sha path cache)" for path cache
    unfolding cached_source_def by (auto intro!: follows_intros source_follows assms split: option.split)
  have request: "follows leads (supplement_request st prefix sha ignored q s)" for q s
    unfolding supplement_request_def
    by (auto intro!: follows_intros cached split: option.split prod.split)
  have "follows leads (supplement_requests st prefix sha ignored rs s)" for rs s
    by (induction rs arbitrary: s) (auto intro!: follows_intros request split: prod.split)
  then show ?thesis unfolding supplement_def by (auto intro!: follows_intros split: prod.split)
qed

end

end
