(* ===== verification/Review_Execution.thy ===== *)
theory Review_Execution
  imports Review_Properties Context_Steps
begin

section \<open>The calls of an execution\<close>

text \<open>
  A logic of assertions for the worker: \<open>ends P m Q\<close> says that from a world with \<open>P\<close> the action \<open>m\<close>
  ends in a world with \<open>Q\<close>, or raises in a world with the assertion of the execution. With it,
  every call of the provider is preceded by its committed reservation, whatever happens outside.
\<close>

subsection \<open>Claims stay issued\<close>

lemma review_step_persists:
  assumes inv: "review_inv limit s" and step: "review_step limit s s'"
  shows "job_persists EXPLAIN_FINDINGS (jobs s) (jobs s')"
proof -
  have ids: "distinct (map job_id (jobs s))" by (rule jobs_inv_ids [OF review_inv_parts(2) [OF inv]])
  from step show ?thesis
  proof (cases rule: review_step.cases)
    case others
    then show ?thesis by (intro persists_same)
  next
    case (claim locked now worker kinds x)
    then have "claim_job locked now worker kinds s = Inr (x, s')" by (simp add: transaction_Inr_iff)
    then show ?thesis by (cases rule: claim_job_Inr) (auto intro!: persists_put [OF ids])
  next
    case (heartbeat now now' c b)
    then have "Jobs.heartbeat now now' c s = Inr (b, s')" by (simp add: transaction_Inr_iff)
    then show ?thesis by (cases rule: heartbeat_Inr) (auto intro!: persists_put [OF ids])
  next
    case (request g now db_now sha rid jid uid wid aid consent rerun purpose r)
    then have "start_review sha g db_now now rid jid uid wid aid consent rerun purpose s = Inr (r, s')"
      by (simp add: transaction_Inr_iff)
    then obtain mode versions snap generation where
      "request_review sha g db_now now rid jid uid wid aid purpose mode versions snap generation s = Inr (r, s')"
      by (rule start_review_Inr)
    then show ?thesis by (rule request_review_Inr) simp_all
  next
    case (start sha g now now' c t)
    then have "begin_review sha g now now' c s = Inr (t, s')" by (simp add: transaction_Inr_iff)
    then show ?thesis by (rule begin_review_Inr) (auto dest!: prepare_review_Inr)
  next
    case (reserve expected now c incoming outgoing granted)
    then have "reserve_call now c expected incoming outgoing s = Inr (granted, s')" by (simp add: transaction_Inr_iff)
    then show ?thesis by (rule reserve_call_Inr) simp_all
  next
    case (complete c ck result code expired incoming outgoing u)
    then have "complete_review ck c result code expired incoming outgoing s = Inr (u, s')" by (simp add: transaction_Inr_iff)
    then show ?thesis
      by (rule complete_review_Inr) (auto simp: finish_keeps intro!: persists_put [OF ids])
  next
    case (cancel now uid wid rid r)
    then have "cancel_review now uid wid rid s = Inr (r, s')" by (simp add: transaction_Inr_iff)
    then show ?thesis
      by (rule cancel_review_Inr) (auto simp: cancel_keeps intro!: persists_put [OF ids])
  next
    case (feedback sha db_now fid uid wid rid key state remark f)
    then have "save_feedback sha db_now fid uid wid rid key state remark s = Inr (f, s')" by (simp add: transaction_Inr_iff)
    from save_feedback_keeps [OF this] show ?thesis by simp
  qed
qed

lemma review_steps_issued:
  "(review_step limit)\<^sup>*\<^sup>* s t \<Longrightarrow> review_inv limit s \<Longrightarrow> issued EXPLAIN_FINDINGS c (jobs s) \<Longrightarrow> issued EXPLAIN_FINDINGS c (jobs t)"
proof (induction rule: rtranclp_induct)
  case (step t u)
  then have "review_inv limit t" by (blast intro: reviewing.inv_steps)
  with step show ?case by (blast intro: persists_issued review_step_persists)
qed

subsection \<open>Assertions\<close>

text \<open>The run has reserved at least so many calls.\<close>

definition has_reserved :: "uuid \<Rightarrow> nat \<Rightarrow> 'a review_tables_scheme \<Rightarrow> bool" where
  "has_reserved rid n s \<longleftrightarrow> n = 0 \<or> (\<exists>r \<in> set (reviews s). rv_id r = rid \<and> int n \<le> rv_call_attempts r)"

lemma has_reserved_evolves: "has_reserved rid n s \<Longrightarrow> reviews_evolve s t \<Longrightarrow> has_reserved rid n t"
  unfolding has_reserved_def reviews_evolve_def review_evolves_def same_request_def by (metis order_trans)

lemma has_reserved_less: "has_reserved rid n s \<Longrightarrow> m \<le> n \<Longrightarrow> has_reserved rid m s"
  unfolding has_reserved_def by force

text \<open>
  The world of an execution that began in the state \<open>s0\<close>: it was reached by steps, \<open>n\<close> calls are
  reserved, \<open>k\<close> were made, each after its reservation.
\<close>

type_synonym ('a, 'o) world = "('a review_tables_scheme \<times> 'o) \<times> 'a review_tables_scheme review_locals"

definition paid :: "nat \<Rightarrow> claim \<Rightarrow> 'a review_tables_scheme \<Rightarrow> nat \<Rightarrow> nat \<Rightarrow> ('a, 'o) world \<Rightarrow> bool" where
  "paid limit c s0 n k w \<longleftrightarrow>
     (review_step limit)\<^sup>*\<^sup>* s0 (fst (fst w)) \<and> has_reserved (claim_aggregate_id c) n (fst (fst w)) \<and>
     k \<le> n \<and> n \<le> 2 \<and> length (lv_calls (snd w)) = k \<and>
     (\<forall>i < k. has_reserved (claim_aggregate_id c) (i + 1) (lv_calls (snd w) ! i))"

definition settled_calls :: "nat \<Rightarrow> claim \<Rightarrow> 'a review_tables_scheme \<Rightarrow> ('a, 'o) world \<Rightarrow> bool" where
  "settled_calls limit c s0 w \<longleftrightarrow> (\<exists>n k. paid limit c s0 n k w)"

definition ends :: "nat \<Rightarrow> claim \<Rightarrow> 'a review_tables_scheme \<Rightarrow> (('a, 'o) world \<Rightarrow> bool) \<Rightarrow> (('a, 'o) world, 'b) io \<Rightarrow>
    ('b \<Rightarrow> ('a, 'o) world \<Rightarrow> bool) \<Rightarrow> bool" where
  "ends limit c s0 P m Q \<longleftrightarrow>
     (\<forall>w r w'. P w \<longrightarrow> m w = (r, w') \<longrightarrow> (case r of Inl e \<Rightarrow> settled_calls limit c s0 w' | Inr x \<Rightarrow> Q x w'))"

definition steady :: "nat \<Rightarrow> claim \<Rightarrow> 'a review_tables_scheme \<Rightarrow> (('a, 'o) world, 'b) io \<Rightarrow> bool" where
  "steady limit c s0 m \<longleftrightarrow> (\<forall>n k. ends limit c s0 (paid limit c s0 n k) m (\<lambda>_. paid limit c s0 n k))"

lemma ends_bind:
  assumes "ends limit c s0 P m Q" and "\<And>x. ends limit c s0 (Q x) (f x) R"
  shows "ends limit c s0 P (io_bind m f) R"
  unfolding ends_def
proof (intro allI impI)
  fix w r w' assume "P w" and run: "io_bind m f w = (r, w')"
  obtain r1 w1 where m: "m w = (r1, w1)" by (cases "m w")
  with assms(1) \<open>P w\<close> have q: "case r1 of Inl e \<Rightarrow> settled_calls limit c s0 w1 | Inr x \<Rightarrow> Q x w1" unfolding ends_def by blast
  show "case r of Inl e \<Rightarrow> settled_calls limit c s0 w' | Inr x \<Rightarrow> R x w'"
  proof (cases r1)
    case (Inl e)
    with q m run show ?thesis by (auto simp: io_bind_def)
  next
    case (Inr x)
    with q m run have "Q x w1" "f x w1 = (r, w')" by (simp_all add: io_bind_def)
    with assms(2) [of x] show ?thesis unfolding ends_def by blast
  qed
qed

lemma ends_ret: "(\<And>w. P w \<Longrightarrow> Q x w) \<Longrightarrow> ends limit c s0 P (io_ret x) Q"
  by (simp add: ends_def io_ret_def)

lemma ends_post: "ends limit c s0 P m Q \<Longrightarrow> (\<And>x w. Q x w \<Longrightarrow> R x w) \<Longrightarrow> ends limit c s0 P m R"
  unfolding ends_def by (fastforce split: sum.splits)

lemma ends_steady: "steady limit c s0 m \<Longrightarrow> ends limit c s0 (paid limit c s0 n k) m (\<lambda>_. paid limit c s0 n k)"
  by (simp add: steady_def)

lemma paid_settled: "paid limit c s0 n k w \<Longrightarrow> settled_calls limit c s0 w"
  by (auto simp: settled_calls_def)

lemma steady_bind: "steady limit c s0 m \<Longrightarrow> (\<And>x. steady limit c s0 (f x)) \<Longrightarrow> steady limit c s0 (io_bind m f)"
  unfolding steady_def by (blast intro: ends_bind)

lemma steady_same:
  assumes "\<And>w. fst (fst (snd (m w))) = fst (fst w) \<and> lv_calls (snd (snd (m w))) = lv_calls (snd w)"
  shows "steady limit c s0 m"
  unfolding steady_def ends_def
proof (intro allI impI)
  fix n k w r w' assume p: "paid limit c s0 n k w" and "m w = (r, w')"
  with assms [of w] have "paid limit c s0 n k w'" by (simp add: paid_def)
  then show "case r of Inl e \<Rightarrow> settled_calls limit c s0 w' | Inr x \<Rightarrow> paid limit c s0 n k w'"
    by (cases r) (auto intro: paid_settled)
qed

lemma steady_ret: "steady limit c s0 (io_ret x)"
  by (rule steady_same) (simp add: io_ret_def)

lemma steady_pure: "steady limit c s0 (pure x)"
  by (rule steady_same) (simp add: pure_def io_of_def io_ret_def io_raise_def split: sum.splits)

lemma steady_get: "steady limit c s0 (io_get f)"
  by (rule steady_same) (simp add: io_get_def)

lemma steady_put: "(\<And>l. lv_calls (f l) = lv_calls l) \<Longrightarrow> steady limit c s0 (io_put f)"
  by (rule steady_same) (simp add: io_put_def)

subsection \<open>Actions that take steps\<close>

lemma paid_steps:
  assumes "review_inv limit s0" and "paid limit c s0 n k ((s, x), l)" and "(review_step limit)\<^sup>*\<^sup>* s t"
  shows "paid limit c s0 n k ((t, y), l)"
proof -
  have s: "(review_step limit)\<^sup>*\<^sup>* s0 s" using assms(2) by (simp add: paid_def)
  have "reviews_evolve s t" by (rule reviewing.evolves_steps [OF assms(3) reviewing.inv_steps [OF s assms(1)]])
  with assms(2,3) s show ?thesis by (auto simp: paid_def intro: has_reserved_evolves)
qed

text \<open>While it is outside, other transactions of the system commit.\<close>

definition only_steps :: "nat \<Rightarrow> ('a review_tables_scheme \<times> 'o, 'b) io \<Rightarrow> bool" where
  "only_steps limit m \<longleftrightarrow> (\<forall>w. (review_step limit)\<^sup>*\<^sup>* (fst w) (fst (snd (m w))))"

definition outside_steps :: "nat \<Rightarrow> ('a review_tables_scheme \<times> 'o) review_outside \<Rightarrow> bool" where
  "outside_steps limit ov \<longleftrightarrow>
     only_steps limit (ov_pause ov) \<and> (\<forall>a b. only_steps limit (ov_token ov a b)) \<and>
     (\<forall>p t. only_steps limit (ov_request ov p t)) \<and> (\<forall>m. only_steps limit (ov_inspect ov m)) \<and>
     (\<forall>rs \<in> set_option (ov_ranker ov). only_steps limit (rg_limit rs) \<and> (\<forall>p. only_steps limit (rg_post rs p))) \<and>
     only_steps limit (ov_deadline ov) \<and> (\<forall>p. only_steps limit (ov_review ov p)) \<and>
     (\<forall>p. only_steps limit (ov_verify ov p)) \<and> (\<forall>p. only_steps limit (ov_recheck ov p))"

lemma steady_outside:
  assumes "review_inv limit s0" and "only_steps limit m"
  shows "steady limit c s0 (outside m)"
  unfolding steady_def ends_def
proof (intro allI impI)
  fix n k w r w' assume p: "paid limit c s0 n k w" and run: "outside m w = (r, w')"
  obtain s x l where w: "w = ((s, x), l)" by (metis prod.exhaust)
  obtain t y where w': "w' = ((t, y), l)" and m: "m (s, x) = (r, (t, y))"
    using run unfolding w outside_def io_lift_def by (cases "m (s, x)") auto
  have "(review_step limit)\<^sup>*\<^sup>* s t" using assms(2) m unfolding only_steps_def by (metis fst_conv snd_conv)
  then have "paid limit c s0 n k w'" using paid_steps [OF assms(1) p [unfolded w]] w' by simp
  then show "case r of Inl e \<Rightarrow> settled_calls limit c s0 w' | Inr x \<Rightarrow> paid limit c s0 n k w'"
    by (cases r) (auto intro: paid_settled)
qed

text \<open>A transaction of the worker is a step, or changes nothing.\<close>

lemma steady_db:
  assumes "review_inv limit s0" and "issued EXPLAIN_FINDINGS c (jobs s0)"
    and "\<And>s r s'. issued EXPLAIN_FINDINGS c (jobs s) \<Longrightarrow> transaction review_schema m s = (Inr r, s') \<Longrightarrow> (review_step limit)\<^sup>*\<^sup>* s s'"
  shows "steady limit c s0 (in_db m)"
  unfolding steady_def ends_def
proof (intro allI impI)
  fix n k w r w' assume p: "paid limit c s0 n k w" and run: "in_db m w = (r, w')"
  obtain s x l where w: "w = ((s, x), l)" by (metis prod.exhaust)
  obtain t where w': "w' = ((t, x), l)" and m: "transaction review_schema m s = (r, t)"
    using run unfolding w in_db_def by (cases "transaction review_schema m s") auto
  have "issued EXPLAIN_FINDINGS c (jobs s)"
    using p assms(1,2) by (auto simp: w paid_def intro: review_steps_issued)
  then have "(review_step limit)\<^sup>*\<^sup>* s t"
    using assms(3) [of s _ t] m transaction_raises [of review_schema m s _ t] by (cases r) auto
  then have "paid limit c s0 n k w'" using paid_steps [OF assms(1) p [unfolded w]] w' by simp
  then show "case r of Inl e \<Rightarrow> settled_calls limit c s0 w' | Inr x \<Rightarrow> paid limit c s0 n k w'"
    by (cases r) (auto intro: paid_settled)
qed

lemma ends_reserve:
  assumes "review_inv limit s0" and "n \<le> m + 1" and "m < 2" and "e = int m" and "m' = Suc m"
  shows "ends limit c s0 (paid limit c s0 n k) (in_db (reserve_call now c e i out))
    (\<lambda>granted. if granted then paid limit c s0 m' k else paid limit c s0 n k)"
  unfolding ends_def
proof (intro allI impI)
  fix w r w' assume p: "paid limit c s0 n k w" and run: "in_db (reserve_call now c e i out) w = (r, w')"
  obtain s x l where w: "w = ((s, x), l)" by (metis prod.exhaust)
  obtain t where w': "w' = ((t, x), l)" and tr: "transaction review_schema (reserve_call now c e i out) s = (r, t)"
    using run unfolding w in_db_def by (cases "transaction review_schema (reserve_call now c e i out) s") auto
  have "(review_step limit)\<^sup>*\<^sup>* s t"
    using tr transaction_raises [of review_schema _ s _ t] review_step.reserve [of e now c i out s _ t limit]
    by (cases r) (auto simp: assms(4))
  then have paid: "paid limit c s0 n k w'" using paid_steps [OF assms(1) p [unfolded w]] w' by simp
  show "case r of Inl e \<Rightarrow> settled_calls limit c s0 w'
    | Inr granted \<Rightarrow> (if granted then paid limit c s0 m' k else paid limit c s0 n k) w'"
  proof (cases "r = Inr True")
    case True
    have "has_reserved (claim_aggregate_id c) m' t"
      using granted_counts [of now c e i out s t] tr True by (fastforce simp: has_reserved_def transaction_Inr_iff assms(4,5))
    with paid assms(2,3,5) True show ?thesis by (auto simp: paid_def w')
  next
    case False
    with paid show ?thesis by (cases r) (auto intro: paid_settled)
  qed
qed

lemma ends_call:
  assumes "review_inv limit s0" and "only_steps limit pause" and "only_steps limit call" and "k < n" and "k' = Suc k"
  shows "ends limit c s0 (paid limit c s0 n k) (provider_call pause call) (\<lambda>_. paid limit c s0 n k')"
proof -
  have rec: "ends limit c s0 (paid limit c s0 n k) record_call (\<lambda>_. paid limit c s0 n k')"
    unfolding ends_def
  proof (intro allI impI)
    fix w r w' assume p: "paid limit c s0 n k w" and run: "record_call w = (r, w')"
    obtain s x l where w: "w = ((s, x), l)" by (metis prod.exhaust)
    have w': "w' = ((s, x), l\<lparr>lv_calls := lv_calls l @ [s]\<rparr>)" "r = Inr ()" using run by (simp_all add: record_call_def w)
    have "has_reserved (claim_aggregate_id c) (i + 1) ((lv_calls l @ [s]) ! i)" if "i < k'" for i
      using that p assms(4,5) has_reserved_less [of "claim_aggregate_id c" n s "i + 1"]
      by (auto simp: paid_def w nth_append less_Suc_eq)
    with p assms(4,5) show "case r of Inl e \<Rightarrow> settled_calls limit c s0 w' | Inr x \<Rightarrow> paid limit c s0 n k' w'"
      by (simp add: w' paid_def w)
  qed
  show ?thesis
    unfolding provider_call_def
    by (intro ends_bind [OF ends_steady [OF steady_outside [OF assms(1,2)]]] ends_bind [OF rec]
        ends_bind [OF ends_steady [OF steady_outside [OF assms(1,3)]]])
       (auto intro!: ends_bind [OF ends_steady [OF steady_put]] ends_ret simp: add_tokens_def split: prod.splits)
qed

subsection \<open>The execution\<close>

lemma outside_steps_parts:
  assumes "outside_steps limit ov"
  shows "only_steps limit (ov_pause ov)" "only_steps limit (ov_token ov a b)" "only_steps limit (ov_request ov p t)"
    "only_steps limit (ov_review ov p)" "only_steps limit (ov_verify ov p)" "only_steps limit (ov_recheck ov p)"
  using assms unfolding outside_steps_def by blast+

interpretation stepping: world_order "\<lambda>w w'. (review_step limit)\<^sup>*\<^sup>* (fst w) (fst w')" for limit
  by unfold_locales (auto intro: rtranclp_trans)

lemma reading_steps:
  assumes "outside_steps limit ov"
  shows "only_steps limit (enrich (reading ov token) per_file cap prefix sha ignored b)"
    and "only_steps limit (supplement (reading ov token) prefix sha ignored b qs)"
proof -
  have "tools_follow (\<lambda>w w'. (review_step limit)\<^sup>*\<^sup>* (fst w) (fst w')) (reading ov token)"
    using assms by (auto simp: tools_follow_def reading_def outside_steps_def only_steps_def follows_def)
  from stepping.enrich_follows [OF this] stepping.supplement_follows [OF this]
  show "only_steps limit (enrich (reading ov token) per_file cap prefix sha ignored b)"
    and "only_steps limit (supplement (reading ov token) prefix sha ignored b qs)"
    by (simp_all add: only_steps_def follows_def)
qed

lemmas steady_intros = steady_bind steady_ret steady_pure steady_get steady_put steady_outside

lemma steady_verify:
  "review_inv limit s0 \<Longrightarrow> outside_steps limit ov \<Longrightarrow> steady limit c s0 (verify_pull ov t token)"
  unfolding verify_pull_def by (intro steady_intros outside_steps_parts)

lemma steady_gather:
  assumes "review_inv limit s0" and "outside_steps limit ov"
  shows "steady limit c s0 (gather_context ov rp t)"
  unfolding gather_context_def Let_def
  by (intro steady_intros steady_verify outside_steps_parts reading_steps assms allI)
    (auto intro!: steady_intros steady_verify outside_steps_parts reading_steps assms split: prod.splits)

lemma begin_is_step:
  "transaction review_schema (begin_review sha g now now' c) s = (Inr r, s') \<Longrightarrow> (review_step limit)\<^sup>*\<^sup>* s s'"
  by (blast intro: review_step.start)

lemma complete_is_step:
  "issued EXPLAIN_FINDINGS c (jobs s) \<Longrightarrow>
   transaction review_schema (complete_review ck c result code expired i out) s = (Inr r, s') \<Longrightarrow> (review_step limit)\<^sup>*\<^sup>* s s'"
  by (blast intro: review_step.complete)

lemma still_is_step:
  "transaction review_schema (still_authorized now c) s = (Inr r, s') \<Longrightarrow> (review_step limit)\<^sup>*\<^sup>* s s'"
  by (auto simp: transaction_Inr_iff dest!: still_authorized_reads)

lemma steady_complete:
  assumes "review_inv limit s0" and "issued EXPLAIN_FINDINGS c (jobs s0)" and "outside_steps limit ov"
  shows "steady limit c s0 (complete_with ov ck c result code)"
  unfolding complete_with_def
  by (intro steady_intros steady_db [OF assms(1,2) complete_is_step] outside_steps_parts assms)

lemma steady_supplemented:
  assumes "review_inv limit s0" and "issued EXPLAIN_FINDINGS c (jobs s0)" and "outside_steps limit ov"
  shows "steady limit c s0 (supplemented ov now c t p d)"
  unfolding supplemented_def
  by (auto intro!: steady_intros steady_verify steady_db [OF assms(1,2) still_is_step] outside_steps_parts reading_steps assms)

lemma ends_second_call:
  assumes "review_inv limit s0" and "outside_steps limit ov"
  shows "ends limit c s0 (paid limit c s0 2 1) (second_call ov rp b raw d) (\<lambda>_. paid limit c s0 2 2)"
proof -
  have call: "ends limit c s0 (paid limit c s0 2 1) (provider_call (ov_pause ov) m) (\<lambda>_. paid limit c s0 2 2)"
    if "only_steps limit m" for m
    using that by (intro ends_call assms outside_steps_parts(1) [OF assms(2)]) simp_all
  show ?thesis
    unfolding second_call_def
    by (auto intro!: ends_bind [OF ends_steady [OF steady_pure]] ends_bind [OF call] ends_steady [OF steady_pure]
        ends_ret outside_steps_parts assms(2) simp del: One_nat_def)
qed

lemma ends_settled: "ends limit c s0 P m Q \<Longrightarrow> (\<And>x w. Q x w \<Longrightarrow> settled_calls limit c s0 w) \<Longrightarrow> ends limit c s0 P m (\<lambda>_. settled_calls limit c s0)"
  by (rule ends_post)

lemma ends_after_first_call:
  assumes "review_inv limit s0" and "issued EXPLAIN_FINDINGS c (jobs s0)" and "outside_steps limit ov"
  shows "ends limit c s0 (paid limit c s0 1 1) (after_first_call ov rp wk c t p raw) (\<lambda>_. settled_calls limit c s0)"
proof -
  note complete = ends_settled [OF ends_steady [OF steady_complete [OF assms]] paid_settled]
  have second: "ends limit c s0 (paid limit c s0 2 1)
      (io_bind (second_call ov rp b raw d) (\<lambda>r. io_bind (pure (stored_result t p b r)) (\<lambda>stored.
         complete_with ov (wk_complete wk) c (Some stored) None))) (\<lambda>_. settled_calls limit c s0)" for b d
    by (intro ends_bind [OF ends_second_call [OF assms(1,3)]] ends_bind [OF ends_steady [OF steady_pure]] complete)
  have granted: "ends limit c s0 (paid limit c s0 2 1)
      (io_bind (supplemented ov (wk_still wk) c t p d) (\<lambda>b.
       case b of
         None \<Rightarrow> io_ret ()
       | Some b \<Rightarrow>
           io_bind (second_call ov rp b raw d) (\<lambda>r.
           io_bind (pure (stored_result t p b r)) (\<lambda>stored.
           complete_with ov (wk_complete wk) c (Some stored) None)))) (\<lambda>_. settled_calls limit c s0)" for d
    by (rule ends_bind [OF ends_steady [OF steady_supplemented [OF assms]]])
      (auto intro!: ends_ret second paid_settled split: option.splits simp del: One_nat_def)
  have branch: "ends limit c s0 (if g then paid limit c s0 2 1 else paid limit c s0 1 1) (if \<not> g then io_ret () else m)
      (\<lambda>_. settled_calls limit c s0)"
    if "ends limit c s0 (paid limit c s0 2 1) m (\<lambda>_. settled_calls limit c s0)" for g and m
    using that by (auto intro!: ends_ret paid_settled)
  show ?thesis
    unfolding after_first_call_def
    by (intro ends_bind [OF ends_steady [OF steady_pure]] ends_bind [OF ends_steady [OF steady_verify [OF assms(1,3)]]]
        ends_bind [OF ends_steady [OF steady_get]]
        ends_bind [OF ends_steady [OF steady_outside [OF assms(1) outside_steps_parts(1) [OF assms(3)]]]]
        ends_bind [OF ends_reserve [OF assms(1), where m = 1 and m' = 2]] branch granted) simp_all
qed

lemma ends_body:
  assumes "review_inv limit s0" and "issued EXPLAIN_FINDINGS c (jobs s0)" and "outside_steps limit ov"
  shows "ends limit c s0 (paid limit c s0 0 0) (review_body ov rp g wk c) (\<lambda>_. settled_calls limit c s0)"
proof -
  note pause = ends_steady [OF steady_outside [OF assms(1) outside_steps_parts(1) [OF assms(3)]]]
  have called: "ends limit c s0 (paid limit c s0 1 0)
      (io_bind (provider_call (ov_pause ov) (ov_review ov (payload_text (ib_context (pv_bundle p))))) (\<lambda>raw.
       after_first_call ov rp wk c t p raw)) (\<lambda>_. settled_calls limit c s0)" for p t
    by (intro ends_bind [OF ends_call [OF assms(1) outside_steps_parts(1) [OF assms(3)] outside_steps_parts(4) [OF assms(3)], where k' = 1]]
        ends_after_first_call [OF assms]) simp_all
  have branch: "ends limit c s0 (if g then paid limit c s0 1 0 else paid limit c s0 0 0) (if \<not> g then io_ret () else m)
      (\<lambda>_. settled_calls limit c s0)"
    if "ends limit c s0 (paid limit c s0 1 0) m (\<lambda>_. settled_calls limit c s0)" for g and m
    using that by (auto intro!: ends_ret paid_settled)
  have task: "ends limit c s0 (paid limit c s0 0 0)
      (case task of
         None \<Rightarrow> io_ret ()
       | Some t \<Rightarrow>
         io_bind (gather_context ov rp t) (\<lambda>p.
         io_bind (outside (ov_pause ov)) (\<lambda>_.
         io_bind (in_db (reserve_call (wk_first wk) c 0 0 0)) (\<lambda>granted.
         if \<not> granted then io_ret ()
         else
           io_bind (provider_call (ov_pause ov) (ov_review ov (payload_text (ib_context (pv_bundle p))))) (\<lambda>raw.
           after_first_call ov rp wk c t p raw))))) (\<lambda>_. settled_calls limit c s0)" for task
  proof (cases task)
    case (Some t)
    show ?thesis unfolding Some option.case
      by (intro ends_bind [OF ends_steady [OF steady_gather [OF assms(1,3)]]] ends_bind [OF pause]
          ends_bind [OF ends_reserve [OF assms(1), where m = 0 and m' = 1]] branch called) simp_all
  qed (auto intro!: ends_ret paid_settled)
  show ?thesis
    unfolding review_body_def
    by (rule ends_bind [OF ends_steady [OF steady_db [OF assms(1,2) begin_is_step]] task])
qed

text \<open>The handlers complete the run from whatever world the body left.\<close>

lemma settled_handler:
  assumes "review_inv limit s0" and "issued EXPLAIN_FINDINGS c (jobs s0)" and "outside_steps limit ov" and "settled_calls limit c s0 w"
    and "io_bind (io_get lv_independent) (\<lambda>x. complete_with ov ck c x code) w = (r, w')"
  shows "settled_calls limit c s0 w'"
proof -
  obtain n k where p: "paid limit c s0 n k w" using assms(4) by (auto simp: settled_calls_def)
  have "ends limit c s0 (paid limit c s0 n k) (io_bind (io_get lv_independent) (\<lambda>x. complete_with ov ck c x code)) (\<lambda>_. paid limit c s0 n k)"
    by (intro ends_steady steady_bind steady_get steady_complete assms)
  with p assms(5) show ?thesis unfolding ends_def by (cases r) (fastforce intro: paid_settled)+
qed

lemma execution_paid:
  assumes "review_inv limit s0" and "issued EXPLAIN_FINDINGS c (jobs s0)" and "outside_steps limit ov"
    and "execute_review ov rp g wk c expired ((s0, x), l) = (r, w')" and "lv_calls l = []"
  shows "settled_calls limit c s0 w'"
proof -
  have start: "paid limit c s0 0 0 ((s0, x), l)" using assms(5) by (simp add: paid_def has_reserved_def)
  show ?thesis
  proof (cases "expired \<or> claim_workspace_id c = None")
    case True
    have "steady limit c s0 (execute_review ov rp g wk c expired)"
    proof (cases expired)
      case True
      then show ?thesis unfolding execute_review_def by (auto intro: steady_db [OF assms(1,2) complete_is_step])
    next
      case False
      with True show ?thesis unfolding execute_review_def
        by (auto intro!: steady_same simp: io_raise_def)
    qed
    with start assms(4) show ?thesis
      unfolding steady_def ends_def by (cases r) (fastforce intro: paid_settled)+
  next
    case False
    with assms(4) have run: "io_try (review_body ov rp g wk c)
        (\<lambda>e. io_bind (io_get lv_independent) (\<lambda>i. complete_with ov (wk_failed wk) c i (Some (failure_code e)))) ((s0, x), l) = (r, w')"
      by (auto simp: execute_review_def)
    obtain r1 w1 where body: "review_body ov rp g wk c ((s0, x), l) = (r1, w1)" by (cases "review_body ov rp g wk c ((s0, x), l)")
    have mid: "settled_calls limit c s0 w1"
      using ends_body [OF assms(1-3), of rp g wk] start body unfolding ends_def by (cases r1) fastforce+
    show ?thesis
    proof (cases r1)
      case (Inl e)
      with run body show ?thesis
        by (intro settled_handler [OF assms(1-3) mid, of "wk_failed wk" "Some (failure_code e)" r]) (simp add: io_try_def)
    next
      case (Inr y)
      with run body mid show ?thesis by (simp add: io_try_def)
    qed
  qed
qed

text \<open>C25. Nothing is sent that was not reserved. Whatever happens outside (GitHub and the provider may
answer or raise anything, and other transactions of the system may commit at any moment while the
worker is outside), an execution is a sequence of steps of the system; it calls the provider at most twice,
and each call finds the committed reservation of that call on its run. The final record of the run counts
every call that was made, so that no crash or cancellation hides one.\<close>

theorem calls_are_reserved:
  assumes "review_inv limit s" and "issued EXPLAIN_FINDINGS c (jobs s)" and "outside_steps limit ov"
    and "execute_review ov rp g wk c expired ((s, x), l) = (r, ((t, y), l'))" and "lv_calls l = []"
  shows "(review_step limit)\<^sup>*\<^sup>* s t \<and> length (lv_calls l') \<le> 2 \<and>
    (\<forall>i < length (lv_calls l'). \<exists>q \<in> set (reviews (lv_calls l' ! i)). rv_id q = claim_aggregate_id c \<and> int i < rv_call_attempts q) \<and>
    (lv_calls l' = [] \<or>
     (\<exists>q \<in> set (reviews t). rv_id q = claim_aggregate_id c \<and> int (length (lv_calls l')) \<le> rv_call_attempts q))"
proof -
  obtain n k where p: "paid limit c s n k ((t, y), l')"
    using execution_paid [OF assms] by (auto simp: settled_calls_def)
  have "has_reserved (claim_aggregate_id c) k t" using p by (auto simp: paid_def intro: has_reserved_less)
  with p show ?thesis by (fastforce simp: paid_def has_reserved_def)
qed

subsection \<open>An example\<close>

text \<open>Nothing happens outside, and GitHub does not answer in time.\<close>

definition quiet_outside :: "(review_tables \<times> unit) review_outside" where
  "quiet_outside =
     \<lparr>ov_pause = io_ret (), ov_token = (\<lambda>_ _. io_raise TimeoutError), ov_request = (\<lambda>_ _. io_raise TimeoutError),
      ov_decode = Some, ov_inspect = (\<lambda>_. io_ret None), ov_ranker = None, ov_deadline = io_ret (), ov_review = (\<lambda>_. io_raise TimeoutError),
      ov_verify = (\<lambda>_. io_raise TimeoutError), ov_recheck = (\<lambda>_. io_raise TimeoutError)\<rparr>"

lemma quiet_outside_steps: "outside_steps limit quiet_outside"
  by (simp add: outside_steps_def quiet_outside_def only_steps_def io_ret_def io_raise_def)

definition quiet_execution :: "review_pure \<Rightarrow> (exn + unit) \<times> ((review_tables \<times> unit) \<times> review_tables review_locals)" where
  "quiet_execution rp =
     execute_review quiet_outside rp \<lparr>rg_enabled = True, rg_model = ''m'', rg_daily_limit = 1, rg_prompt = ''p''\<rparr>
       \<lparr>wk_begin = 3, wk_started = 3, wk_first = 3, wk_second = 3, wk_still = 3,
        wk_complete = \<lparr>rc_fence = 3, rc_finish = 3, rc_closed = 3\<rparr>, wk_failed = \<lparr>rc_fence = 3, rc_finish = 3, rc_closed = 3\<rparr>\<rparr>
       shop_review_claim False
       ((shop_reviewing, ()), \<lparr>lv_incoming = 0, lv_outgoing = 0, lv_independent = None, lv_calls = []\<rparr>)"

theorem calls_are_reserved_witness:
  "\<forall>rp. length (lv_calls (snd (snd (quiet_execution rp)))) \<le> 2 \<and> (review_step 1)\<^sup>*\<^sup>* shop_reviewing (fst (fst (snd (quiet_execution rp))))"
proof
  fix rp
  have issued: "issued EXPLAIN_FINDINGS shop_review_claim (jobs shop_reviewing)"
    by (simp add: issued_def carries_def)
  obtain r t y l where run: "quiet_execution rp = (r, ((t, y), l))" by (metis prod.exhaust)
  from calls_are_reserved [OF shop_reviewing_inv issued quiet_outside_steps run [unfolded quiet_execution_def]]
  show "length (lv_calls (snd (snd (quiet_execution rp)))) \<le> 2 \<and> (review_step 1)\<^sup>*\<^sup>* shop_reviewing (fst (fst (snd (quiet_execution rp))))"
    by (simp add: run)
qed

end
