(* ===== verification/Context_Results.thy ===== *)
theory Context_Results
  imports Context_Selection Review_Policy_Results
begin

section \<open>What related source may add\<close>

text \<open>
  Adding context only adds: the supplied lines of the change stay, every added line is an unchanged line
  of a file that was read at the pinned commit, and the bounds of the payload and of a file are kept.
  Ranking is only advice on the order.
\<close>

subsection \<open>Lines around a place\<close>

lemma shortest_in: "shortest s ts \<in> set (s # ts)"
proof (induction ts arbitrary: s)
  case (Cons t ts)
  then show ?case using Cons.IH [of t] Cons.IH [of s] by auto
qed simp

lemma span_at_in: "span_at spans n = Some s \<Longrightarrow> s \<in> set spans \<and> inside n s"
proof -
  assume "span_at spans n = Some s"
  then obtain t ts where t: "filter (inside n) spans = t # ts" "s = shortest t ts"
    by (auto simp: span_at_def split: list.splits)
  have "s \<in> set (filter (inside n) spans)" unfolding t by (rule shortest_in)
  then show ?thesis by simp
qed

definition spans_ok :: "syntax_info \<Rightarrow> bool" where
  "spans_ok i \<longleftrightarrow> (\<forall>s \<in> set (si_spans i). 1 \<le> sp_start s)"

definition table_ok :: "syntax_table \<Rightarrow> bool" where
  "table_ok m \<longleftrightarrow> (\<forall>x \<in> set m. spans_ok (snd x))"

lemma info_of_ok: "table_ok m \<Longrightarrow> spans_ok (info_of m path)"
  by (auto simp: info_of_def table_ok_def spans_ok_def no_info_def split: option.splits dest: map_of_SomeD)

lemma last_lines_subset: "n \<in> set (last_lines k ns) \<Longrightarrow> n \<in> set ns"
  unfolding last_lines_def by (rule in_set_dropD)

lemma around_bounds:
  assumes "spans_ok info" and "n \<in> set (around ls center info)"
  shows "1 \<le> n \<and> n \<le> int (length ls)"
proof (cases "span_at (si_spans info) center")
  case None
  with assms(2) show ?thesis by (auto simp: around_def Let_def)
next
  case (Some s)
  then have "1 \<le> sp_start s" using assms(1) span_at_in by (auto simp: spans_ok_def)
  with Some assms(2) show ?thesis
    by (auto simp: around_def Let_def split: if_splits dest!: last_lines_subset)
qed

text \<open>A chunk of lines of a source.\<close>

definition chunk_ok :: "source_table \<Rightarrow> string \<times> int list \<Rightarrow> bool" where
  "chunk_ok sources x \<longleftrightarrow>
     (\<exists>ls. map_of sources (fst x) = Some ls \<and> (\<forall>n \<in> set (snd x). 1 \<le> n \<and> n \<le> int (length ls)))"

lemma chunks_of_ok:
  assumes "c \<in> set (chunks_of path score ls info direct g seen hits)" and "spans_ok info"
  shows "ca_path c = path \<and> (\<forall>n \<in> set (ca_numbers c). 1 \<le> n \<and> n \<le> int (length ls))"
  using assms(1)
proof (induction hits arbitrary: seen)
  case (Cons h hits)
  obtain center k where h: "h = (center, k)" by (cases h)
  from Cons show ?case
    by (auto simp: h Let_def split: if_splits dest: around_bounds [OF assms(2)])
qed simp

lemma file_snippets_ok:
  assumes "c \<in> set (file_snippets sources m ids calls g p)" and "table_ok m"
  shows "chunk_ok sources (ca_path c, ca_numbers c)"
proof -
  obtain ls hits where ls: "map_of sources (fst p) = Some ls"
    and c: "c \<in> set (chunks_of (fst p) (snd p) ls (info_of m (fst p)) (direct_starts (info_of m (fst p)) calls) g [] hits)"
    using assms(1)
    by (cases "map_of sources (fst p)") (auto simp: file_snippets_def Let_def split: if_splits)
  from chunks_of_ok [OF c info_of_ok [OF assms(2)]] ls show ?thesis by (simp add: chunk_ok_def)
qed

lemma snippets_ok:
  assumes "c \<in> set (snippets paths sources m ids calls g)" and "table_ok m"
  shows "chunk_ok sources (ca_path c, ca_numbers c)"
  using assms file_snippets_ok by (auto simp: snippets_def dest!: in_set_takeD)

lemma interleave_set: "set (interleave xss) = \<Union> (set ` set xss)"
proof (induction xss rule: interleave.induct)
  case (1 xss)
  define left where "left = filter (\<lambda>xs. xs \<noteq> []) xss"
  have all: "\<Union> (set ` set xss) = \<Union> (set ` set left)" by (auto simp: left_def)
  show ?case
  proof (cases "left = []")
    case True
    then show ?thesis using all by (simp add: interleave.simps [of xss] left_def [symmetric])
  next
    case False
    have "set (map hd left) \<union> \<Union> (set ` set (map tl left)) = \<Union> (set ` set left)"
    proof -
      have "\<forall>xs \<in> set left. set xs = insert (hd xs) (set (tl xs))"
        by (auto simp: left_def) (metis list.exhaust_sel set_ConsD, metis list.set_sel(2))
      then show ?thesis by auto
    qed
    moreover have "set (interleave (map tl left)) = \<Union> (set ` set (map tl left))"
      using "1" False left_def by blast
    ultimately show ?thesis using all False
      by (simp add: interleave.simps [of xss] left_def [symmetric] Let_def)
  qed
qed

abbreviation chunk_of :: "snippet \<Rightarrow> string \<times> int list" where
  "chunk_of c \<equiv> (ca_path c, ca_numbers c)"

lemma merge_pool_chunks: "chunk_of ` set (merge_pool merged cs) \<subseteq> chunk_of ` (set merged \<union> set cs)"
proof (induction cs arbitrary: merged)
  case (Cons x cs)
  let ?merged = "map (\<lambda>d. if same_chunk x d then d\<lparr>ca_groups := sort (remdups (ca_groups d @ ca_groups x))\<rparr> else d) merged"
  have same: "chunk_of ` set ?merged = chunk_of ` set merged"
    unfolding set_map image_image by (rule image_cong) simp_all
  consider "merge_pool merged (x # cs) = merge_pool ?merged cs" | "merge_pool merged (x # cs) = merge_pool (merged @ [x]) cs"
    | "merge_pool merged (x # cs) = merge_pool merged cs"
    by (cases "list_ex (same_chunk x) merged"; cases "length merged < max_pool") simp_all
  then show ?case
  proof cases
    case 1
    have "chunk_of ` set (merge_pool ?merged cs) \<subseteq> chunk_of ` (set merged \<union> set cs)"
      using Cons.IH [of ?merged] unfolding image_Un same .
    then show ?thesis unfolding 1 by auto
  next
    case 2
    show ?thesis unfolding 2 using Cons.IH [of "merged @ [x]"] by simp
  next
    case 3
    show ?thesis unfolding 3 using Cons.IH [of merged] by auto
  qed
qed simp

lemma pool_ok:
  assumes "c \<in> set (pool_for groups per_group sources m changed)" and "table_ok m"
  shows "chunk_ok sources (chunk_of c)"
proof -
  define pools where "pools = map (query_pool sources m changed) (enumerate 0 (zip groups per_group))"
  let ?some = "\<lambda>P. interleave (map (filter P) pools)"
  have sub: "set (?some P) \<subseteq> \<Union> (set ` set pools)" for P by (auto simp: interleave_set)
  have "c \<in> set (merge_pool (merge_pool [] (?some ca_protected)) (?some (\<lambda>c. \<not> ca_protected c)))"
    using assms(1) by (simp only: pool_for_def pools_def [symmetric] Let_def)
  then have "chunk_of c \<in> chunk_of ` (set (merge_pool [] (?some ca_protected)) \<union> set (?some (\<lambda>c. \<not> ca_protected c)))"
    by (rule subsetD [OF merge_pool_chunks imageI])
  moreover have "chunk_of ` set (merge_pool [] (?some ca_protected)) \<subseteq> chunk_of ` set (?some ca_protected)"
    using merge_pool_chunks [of "[]"] by simp
  ultimately have "chunk_of c \<in> chunk_of ` set (?some ca_protected) \<union> chunk_of ` set (?some (\<lambda>c. \<not> ca_protected c))"
    unfolding image_Un by blast
  also have "\<dots> \<subseteq> chunk_of ` \<Union> (set ` set pools)" by (intro Un_least image_mono sub)
  finally have "chunk_of c \<in> chunk_of ` \<Union> (set ` set pools)" .
  then obtain d where d: "d \<in> \<Union> (set ` set pools)" "ca_path c = ca_path d" "ca_numbers c = ca_numbers d" by auto
  from d(1) obtain x where "d \<in> set (query_pool sources m changed x)" by (auto simp: pools_def)
  then have "chunk_ok sources (ca_path d, ca_numbers d)"
    by (cases x) (auto dest!: snippets_ok [OF _ assms(2)])
  with d show ?thesis by simp
qed

lemma file_groups_ok:
  assumes "file_groups path ls info groups rows = Inr qs" and "spans_ok info"
    and "\<forall>q \<in> snd ` set groups. qu_path q = path \<and> (\<forall>n \<in> set (qu_numbers q). 1 \<le> n \<and> n \<le> int (length ls))"
  shows "\<forall>q \<in> set qs. qu_path q = path \<and> (\<forall>n \<in> set (qu_numbers q). 1 \<le> n \<and> n \<le> int (length ls))"
  using assms(1,3)
proof (induction rows arbitrary: groups)
  case (Cons r rows)
  have q: "qu_path q = path \<and> (\<forall>n \<in> set (qu_numbers q). 1 \<le> n \<and> n \<le> int (length ls))"
    if "query_at path ls info n = Inr q" for n q
    using that around_bounds [OF assms(2)] by (auto simp: query_at_def Let_def split: option.splits if_splits)
  show ?case
  proof (cases "\<not> hl_changed r \<or> group_key info (hl_line r) \<in> fst ` set groups")
    case False
    with Cons.prems(1) obtain x where x: "query_at path ls info (hl_line r) = Inr x"
      "file_groups path ls info (groups @ [(group_key info (hl_line r), x)]) rows = Inr qs"
      by (auto simp: Let_def proceed_Inr)
    show ?thesis by (rule Cons.IH [OF x(2)]) (use Cons.prems(2) q [OF x(1)] in auto)
  next
    case True
    with Cons.prems(1) have "file_groups path ls info groups rows = Inr qs" by (simp add: Let_def)
    from Cons.IH [OF this Cons.prems(2)] show ?thesis .
  qed
qed auto

lemma file_queries_ok:
  assumes "file_queries fs paths sources m = Inr qss" and "table_ok m" and "qs \<in> set qss" and "q \<in> set qs"
  shows "chunk_ok sources (qu_path q, qu_numbers q)"
  using assms(1,3)
proof (induction fs arbitrary: qss)
  case (Cons f fs)
  from Cons.prems(1) obtain path here rest where here: "map_of paths (wf_id f) = Some path"
      "(case map_of sources path of None \<Rightarrow> Inr []
        | Some ls \<Rightarrow> if ls = [] then Inr [] else file_groups path ls (info_of m path) [] (wf_lines f)) = Inr here"
    and rest: "file_queries fs paths sources m = Inr rest" "qss = here # rest"
    by (auto simp: proceed_Inr split: option.splits)
  show ?case
  proof (cases "qs = here")
    case True
    with assms(4) here(2) obtain ls where "map_of sources path = Some ls"
      "file_groups path ls (info_of m path) [] (wf_lines f) = Inr qs"
      by (auto split: option.splits if_splits)
    with file_groups_ok [OF this(2) info_of_ok [OF assms(2)]] assms(4) show ?thesis by (auto simp: chunk_ok_def)
  next
    case False
    with Cons.IH [OF rest(1)] Cons.prems(2) rest(2) show ?thesis by simp
  qed
qed simp

lemma queries_ok:
  assumes "queries fs paths sources m = Inr (groups, omitted)" and "table_ok m" and "q \<in> set groups"
  shows "chunk_ok sources (qu_path q, qu_numbers q)"
  using assms file_queries_ok
  by (fastforce simp: queries_def proceed_Inr Let_def interleave_set dest!: in_set_takeD)

lemma queries_few: "queries fs paths sources m = Inr (groups, omitted) \<Longrightarrow> length groups \<le> max_groups"
  by (auto simp: queries_def proceed_Inr Let_def)

subsection \<open>One chunk\<close>

lemma update_fresh: "k \<notin> fst ` set xs \<Longrightarrow> AList.update k v xs = xs @ [(k, v)]"
  by (induction xs) auto

lemma rows_by_line_distinct: "distinct (map hl_line ls) \<Longrightarrow> rows_by_line ls = map (\<lambda>r. (hl_line r, r)) ls"
proof -
  have "fold (\<lambda>r. AList.update (hl_line r) r) ls acc = acc @ map (\<lambda>r. (hl_line r, r)) ls"
    if "distinct (map hl_line ls)" "fst ` set acc \<inter> hl_line ` set ls = {}" for acc
    using that by (induction ls arbitrary: acc) (auto simp: update_fresh)
  then show "distinct (map hl_line ls) \<Longrightarrow> ?thesis" by (simp add: rows_by_line_def)
qed

lemma with_lines_set:
  assumes "distinct (map hl_line prior)"
  shows "set (with_lines ls ns prior) = set prior \<union> plain_line ls ` (set ns - hl_line ` set prior)"
    and "distinct (map hl_line (with_lines ls ns prior))"
proof -
  let ?new = "map (plain_line ls) (remdups (filter (\<lambda>n. n \<notin> hl_line ` set prior) ns))"
  have w: "with_lines ls ns prior = sort_key hl_line (prior @ ?new)"
    by (simp add: with_lines_def rows_by_line_distinct [OF assms] Let_def comp_def image_image)
  show "set (with_lines ls ns prior) = set prior \<union> plain_line ls ` (set ns - hl_line ` set prior)"
    by (auto simp: w)
  have "map hl_line ?new = remdups (filter (\<lambda>n. n \<notin> hl_line ` set prior) ns)"
    by (simp add: plain_line_def comp_def)
  then have "distinct (map hl_line (prior @ ?new))" using assms by (auto simp: plain_line_def)
  then show "distinct (map hl_line (with_lines ls ns prior))" unfolding w distinct_map by simp
qed

lemma set_file_set:
  assumes "f \<in> set fs" and "distinct (map wf_id fs)" and "wf_id f' = wf_id f"
  shows "set (set_file f' fs) = insert f' (set fs - {f})"
proof -
  have "x = f" if "x \<in> set fs" "wf_id x = wf_id f" for x
    using that assms(1,2) by (simp add: distinct_map inj_on_def)
  with assms show ?thesis by (auto simp: set_file_def)
qed

lemma set_file_map:
  assumes "f \<in> set fs" and "distinct (map wf_id fs)" and "wf_id f' = wf_id f" and "h f' = h f"
  shows "map h (set_file f' fs) = map h fs"
proof -
  have "x = f" if "x \<in> set fs" "wf_id x = wf_id f" for x
    using that assms(1,2) by (simp add: distinct_map inj_on_def)
  with assms show ?thesis by (auto simp: set_file_def)
qed

text \<open>A line taken from a source of the commit.\<close>

definition pinned_line :: "(string \<Rightarrow> string list \<Rightarrow> bool) \<Rightarrow> string \<Rightarrow> head_line \<Rightarrow> bool" where
  "pinned_line src path r \<longleftrightarrow>
     \<not> hl_changed r \<and>
     (\<exists>ls. src path ls \<and> 1 \<le> hl_line r \<and> hl_line r \<le> int (length ls) \<and> hl_code r = ls ! nat (hl_line r - 1))"

definition grown_file :: "(string \<Rightarrow> string list \<Rightarrow> bool) \<Rightarrow> review_file list \<Rightarrow> string \<Rightarrow> review_file \<Rightarrow> bool" where
  "grown_file src files path f \<longleftrightarrow>
     distinct (map hl_line (wf_lines f)) \<and>
     (\<forall>f0 \<in> set files. wf_id f0 = wf_id f \<longrightarrow> set (wf_lines f0) \<subseteq> set (wf_lines f)) \<and>
     (\<forall>r \<in> set (wf_lines f). pinned_line src path r \<or> (\<exists>f0 \<in> set files. wf_id f0 = wf_id f \<and> r \<in> set (wf_lines f0)))"

definition related_ids :: "nat \<Rightarrow> nat \<Rightarrow> string list" where
  "related_ids n m = map (\<lambda>k. ''c'' @ digits (k + 1)) [n..<n + m]"

definition gathering_ok ::
  "(string \<Rightarrow> string list \<Rightarrow> bool) \<Rightarrow> nat \<Rightarrow> nat \<Rightarrow> review_context \<Rightarrow> gathering \<Rightarrow> bool" where
  "gathering_ok src per_file limit c g \<longleftrightarrow>
     (ga_context g)\<lparr>cx_files := cx_files c\<rparr> = c \<and>
     (\<exists>m \<le> 4. map wf_id (cx_files (ga_context g)) = map wf_id (cx_files c) @ related_ids (length (cx_files c)) m \<and>
        map wf_role (cx_files (ga_context g)) = map wf_role (cx_files c) @ replicate m (Some ''related'')) \<and>
     (\<forall>f \<in> set (cx_files (ga_context g)). wire_size (review_file_json f) \<le> per_file \<and>
        (\<exists>path ns. map_of (ga_anchors g) (wf_id f) = Some (path, ns) \<and> grown_file src (cx_files c) path f)) \<and>
     (\<forall>p fid. map_of (ga_by_path g) p = Some fid \<longrightarrow>
        fid \<in> wf_id ` set (cx_files (ga_context g)) \<and> (\<exists>ns. map_of (ga_anchors g) fid = Some (p, ns))) \<and>
     context_bytes (ga_context g) \<le> limit"

text \<open>The files before any chunk is added.\<close>

definition plain_files :: "review_file list \<Rightarrow> bool" where
  "plain_files fs \<longleftrightarrow>
     distinct (map wf_id fs) \<and> (\<forall>f \<in> set fs. starts_with ''f'' (wf_id f) \<and> wf_role f = None \<and> distinct (map hl_line (wf_lines f)))"

lemma digits_inj: "digits a = digits b \<longleftrightarrow> a = b"
  by (metis foldl_digits)

lemma all_ids_distinct:
  assumes "plain_files fs"
  shows "distinct (map wf_id fs @ related_ids n m)"
proof -
  have "x \<notin> set (related_ids n m)" if "x \<in> wf_id ` set fs" for x
    using that assms by (auto simp: plain_files_def related_ids_def starts_with_append)
  moreover have "distinct (related_ids n m)"
    by (auto simp: related_ids_def distinct_map inj_on_def digits_inj)
  ultimately show ?thesis using assms by (auto simp: plain_files_def)
qed

lemma add_note_ok [simp]: "gathering_ok src pf cap c (add_note fid reason g) = gathering_ok src pf cap c g"
  by (simp add: gathering_ok_def add_note_def)

lemma missing_ok [simp]: "gathering_ok src pf cap c (g\<lparr>ga_missing := n\<rparr>) = gathering_ok src pf cap c g"
  by (simp add: gathering_ok_def)

lemma chunk_file_Some:
  assumes "chunk_file g path = Some (f, files, fresh)"
  shows "\<not> fresh \<and> files = cx_files (ga_context g) \<and> f \<in> set files \<and> map_of (ga_by_path g) path = Some (wf_id f) \<or>
    fresh \<and> f = related_file (length (cx_files (ga_context g))) path \<and> files = cx_files (ga_context g) @ [f] \<and>
      map_of (ga_by_path g) path = None \<and>
      length (filter (\<lambda>f. wf_role f = Some ''related'') (cx_files (ga_context g))) < 4"
  using assms by (auto simp: chunk_file_def Let_def find_Some_iff split: option.splits if_splits)

lemma related_count:
  assumes "map wf_role fs = map wf_role fs0 @ replicate m (Some ''related'')" and "plain_files fs0"
  shows "length (filter (\<lambda>f. wf_role f = Some ''related'') fs) = m"
proof -
  have "length (filter (\<lambda>f. wf_role f = Some ''related'') fs) = length (filter (\<lambda>r. r = Some ''related'') (map wf_role fs))"
    by (simp add: filter_map comp_def)
  also have "filter (\<lambda>r. r = Some ''related'') (map wf_role fs0) = []"
    using assms(2) by (auto simp: plain_files_def filter_empty_conv)
  then have "length (filter (\<lambda>r. r = Some ''related'') (map wf_role fs)) = m"
    by (simp add: assms(1))
  finally show ?thesis .
qed

text \<open>What the new version of a file is, whether the file was there or not.\<close>

definition chunk_pinned :: "(string \<Rightarrow> string list \<Rightarrow> bool) \<Rightarrow> source_table \<Rightarrow> string \<times> int list \<Rightarrow> bool" where
  "chunk_pinned src sources x \<longleftrightarrow>
     chunk_ok sources x \<and> (\<forall>ls. map_of sources (fst x) = Some ls \<longrightarrow> src (fst x) ls)"

lemma grown_with_lines:
  assumes "grown_file src fs path f" and "chunk_pinned src sources (path, ns)"
  shows "grown_file src fs path (f\<lparr>wf_lines := with_lines (source_lines sources path) ns (wf_lines f)\<rparr>)"
proof -
  obtain ls where ls: "map_of sources path = Some ls" "src path ls" "\<forall>n \<in> set ns. 1 \<le> n \<and> n \<le> int (length ls)"
    using assms(2) by (auto simp: chunk_pinned_def chunk_ok_def)
  have d: "distinct (map hl_line (wf_lines f))" using assms(1) by (simp add: grown_file_def)
  have "pinned_line src path (plain_line ls n)" if "n \<in> set ns" for n
    using that ls by (auto simp: pinned_line_def plain_line_def line_at_def)
  then show ?thesis
    using assms(1) with_lines_set [OF d, of ls ns] ls(1)
    by (auto simp: grown_file_def source_lines_def)
qed

lemma append_chunk_ok:
  assumes g: "gathering_ok src pf cap c g" and plain: "plain_files (cx_files c)"
    and pinned: "chunk_pinned src sources (path, ns)"
  shows "gathering_ok src pf cap c (append_chunk pf cap sources protected (path, ns) g)"
proof (cases "chunk_file g path")
  case None
  with g show ?thesis by (simp add: append_chunk_def)
next
  case (Some x)
  obtain f files fresh where x: "chunk_file g path = Some (f, files, fresh)" using Some by (metis prod_cases3)
  let ?f = "f\<lparr>wf_lines := with_lines (source_lines sources path) ns (wf_lines f)\<rparr>"
  let ?c = "(ga_context g)\<lparr>cx_files := set_file ?f files\<rparr>"
  show ?thesis
  proof (cases "pf < wire_size (review_file_json ?f) \<or> cap < context_bytes ?c")
    case True
    with x g show ?thesis by (simp add: append_chunk_def Let_def)
  next
    case False
    let ?old = "cx_files (ga_context g)" and ?n = "length (cx_files c)"
    obtain m where m: "m \<le> 4" "map wf_id ?old = map wf_id (cx_files c) @ related_ids ?n m"
      "map wf_role ?old = map wf_role (cx_files c) @ replicate m (Some ''related'')"
      using g by (auto simp: gathering_ok_def)
    have len: "length ?old = ?n + m" using arg_cong [OF m(3), of length] by simp
    have ids: "\<exists>m' \<le> 4. map wf_id files = map wf_id (cx_files c) @ related_ids ?n m' \<and>
        map wf_role files = map wf_role (cx_files c) @ replicate m' (Some ''related'')"
    proof (cases fresh)
      case True
      then have "files = ?old @ [related_file (length ?old) path]" "m < 4"
        using chunk_file_Some [OF x] related_count [OF m(3) plain] by auto
      then show ?thesis using m len
        by (intro exI [of _ "Suc m"]) (auto simp: related_ids_def related_file_def replicate_append_same [symmetric])
    qed (use chunk_file_Some [OF x] m in auto)
    then have distinct: "distinct (map wf_id files)" using all_ids_distinct [OF plain] by metis
    have f: "f \<in> set files" using chunk_file_Some [OF x] by auto
    have grown: "grown_file src (cx_files c) path f"
    proof (cases fresh)
      case True
      then have "f = related_file (length ?old) path" "files = ?old @ [f]" using chunk_file_Some [OF x] by auto
      with distinct m(2) have "wf_id f \<notin> set (map wf_id (cx_files c))" by simp
      then have "\<forall>f0 \<in> set (cx_files c). wf_id f0 \<noteq> wf_id f" by (metis image_eqI list.set_map)
      moreover have "wf_lines f = []" using \<open>f = _\<close> by (simp add: related_file_def)
      ultimately show ?thesis by (auto simp: grown_file_def)
    next
      case False
      then have "f \<in> set ?old" "map_of (ga_by_path g) path = Some (wf_id f)" using chunk_file_Some [OF x] by auto
      then obtain path' ns' where "map_of (ga_anchors g) (wf_id f) = Some (path', ns')" "grown_file src (cx_files c) path' f"
        "\<exists>ns. map_of (ga_anchors g) (wf_id f) = Some (path, ns)"
        using g unfolding gathering_ok_def by blast
      then show ?thesis by auto
    qed
    have set_eq: "set (set_file ?f files) = insert ?f (set files - {f})" by (rule set_file_set [OF f distinct]) simp
    have others: "f2 \<in> set ?old \<and> wf_id f2 \<noteq> wf_id f" if "f2 \<in> set files - {f}" for f2
    proof -
      have "wf_id f2 \<noteq> wf_id f" using that f distinct by (auto simp: distinct_map inj_on_def)
      moreover have "set files \<subseteq> insert f (set ?old)" using chunk_file_Some [OF x] by auto
      ultimately show ?thesis using that by auto
    qed
    have by_path: "p = path" if "map_of (ga_by_path g) p = Some (wf_id f)" for p
    proof (cases fresh)
      case True
      then have "files = ?old @ [f]" using chunk_file_Some [OF x] by auto
      then have "wf_id f \<notin> wf_id ` set ?old" using distinct by auto
      with g that show ?thesis by (auto simp: gathering_ok_def)
    next
      case False
      then have "map_of (ga_by_path g) path = Some (wf_id f)" using chunk_file_Some [OF x] by auto
      then have "\<exists>ns. map_of (ga_anchors g) (wf_id f) = Some (path, ns)" "\<exists>ns. map_of (ga_anchors g) (wf_id f) = Some (p, ns)"
        using g that unfolding gathering_ok_def by blast+
      then show ?thesis by auto
    qed
    have result: "append_chunk pf cap sources protected (path, ns) g =
        g\<lparr>ga_context := ?c, ga_by_path := AList.update path (wf_id f) (ga_by_path g),
          ga_anchors := AList.update (wf_id f) (path, map hl_line (wf_lines ?f)) (ga_anchors g)\<rparr>"
      using x False by (simp add: append_chunk_def Let_def)
    let ?g = "append_chunk pf cap sources protected (path, ns) g"
    have "(ga_context ?g)\<lparr>cx_files := cx_files c\<rparr> = c" using g by (simp add: result gathering_ok_def)
    moreover have "\<exists>m \<le> 4. map wf_id (cx_files (ga_context ?g)) = map wf_id (cx_files c) @ related_ids ?n m \<and>
        map wf_role (cx_files (ga_context ?g)) = map wf_role (cx_files c) @ replicate m (Some ''related'')"
      using ids set_file_map [OF f distinct, where f' = ?f and h = wf_id] set_file_map [OF f distinct, where f' = ?f and h = wf_role]
      by (simp add: result)
    moreover have "\<forall>f2 \<in> set (cx_files (ga_context ?g)). wire_size (review_file_json f2) \<le> pf \<and>
        (\<exists>path ns. map_of (ga_anchors ?g) (wf_id f2) = Some (path, ns) \<and> grown_file src (cx_files c) path f2)"
    proof
      fix f2 assume "f2 \<in> set (cx_files (ga_context ?g))"
      then have "f2 = ?f \<or> f2 \<in> set files - {f}" unfolding result by (simp add: set_eq)
      then show "wire_size (review_file_json f2) \<le> pf \<and>
        (\<exists>path ns. map_of (ga_anchors ?g) (wf_id f2) = Some (path, ns) \<and> grown_file src (cx_files c) path f2)"
      proof
        assume "f2 = ?f"
        then show ?thesis using False grown_with_lines [OF grown pinned] by (auto simp: result update_conv)
      next
        assume "f2 \<in> set files - {f}"
        from others [OF this] g show ?thesis by (auto simp: result update_conv gathering_ok_def)
      qed
    qed
    moreover have "\<forall>p fid. map_of (ga_by_path ?g) p = Some fid \<longrightarrow>
        fid \<in> wf_id ` set (cx_files (ga_context ?g)) \<and> (\<exists>ns. map_of (ga_anchors ?g) fid = Some (p, ns))"
    proof (intro allI impI)
      fix p fid assume p: "map_of (ga_by_path ?g) p = Some fid"
      have all: "wf_id ` set (cx_files (ga_context ?g)) = wf_id ` set files"
        using set_file_map [OF f distinct, where f' = ?f and h = wf_id] by (simp add: result) (metis image_set)
      have old: "wf_id ` set ?old \<subseteq> wf_id ` set files" using chunk_file_Some [OF x] by auto
      show "fid \<in> wf_id ` set (cx_files (ga_context ?g)) \<and> (\<exists>ns. map_of (ga_anchors ?g) fid = Some (p, ns))"
      proof (cases "p = path")
        case True
        then have "fid = wf_id f" using p by (simp add: result update_conv)
        then show ?thesis using f True unfolding all by (auto simp: result update_conv)
      next
        case False
        then have q: "map_of (ga_by_path g) p = Some fid" using p by (simp add: result update_conv)
        then have "fid \<noteq> wf_id f" using by_path False by auto
        moreover have "fid \<in> wf_id ` set ?old \<and> (\<exists>ns. map_of (ga_anchors g) fid = Some (p, ns))"
          using g q by (simp add: gathering_ok_def)
        ultimately show ?thesis using old unfolding all by (auto simp: result update_conv)
      qed
    qed
    moreover have "context_bytes (ga_context ?g) \<le> cap" using False by (simp add: result)
    ultimately show ?thesis unfolding gathering_ok_def by blast
  qed
qed

subsection \<open>Ranking is only advice\<close>

lemma read_ranking_order:
  assumes "read_ranking rs n data = Inr (order, k)"
  shows "\<exists>xs :: rat list. order = sort_key (\<lambda>i. (- (xs ! i), i)) [0..<n]"
proof -
  obtain vs where vs: "as_arr (json_get ''scores'' data) = Some vs" "length vs = n"
    using assms unfolding read_ranking_def by (simp split: if_splits option.splits)
  with assms obtain xs where "score_values (rg_float rs) vs = Inr xs"
    "(case as_int (json_get ''truncated_documents'' data) of None \<Rightarrow> Inl invalid_ranking
      | Some k \<Rightarrow> if 0 \<le> k \<and> k \<le> int n then Inr (sort_key (\<lambda>i. (- (xs ! i), i)) [0..<n], k) else Inl invalid_ranking)
      = Inr (order, k)"
    unfolding read_ranking_def by (simp only: proceed_Inr option.case split: if_splits) blast+
  then have "order = sort_key (\<lambda>i. (- (xs ! i), i)) [0..<n]" by (auto split: option.splits if_splits)
  then show ?thesis ..
qed

lemma rank_permutes:
  assumes "rank rs query cs w = (Inr (order, d), w')"
  shows "mset order = mset [0..<length cs]"
proof (cases "order = [0..<length cs]")
  case False
  with assms obtain data k where "read_ranking rs (length cs) data = Inr (order, k)"
    unfolding rank_def Let_def
    by (auto simp: io_try_Inr io_bind_Inr io_of_def proceed_Inr split: if_splits option.splits sum.splits)
  from read_ranking_order [OF this] show ?thesis by auto
qed simp

lemma rank_groups_Cons:
  assumes "rank_groups rs pool ((q, indices) # rest) w = (Inr (orders, ds), w')"
  obtains (skipped) w1 orders' ds' where "rank_groups rs pool rest w1 = (Inr (orders', ds'), w')" "orders = [] # orders'"
  | (ranked) w0 w1 order d orders' ds' where "rank rs (qu_code q) (map (\<lambda>i. pool ! i) indices) w0 = (Inr (order, d), w1)"
      "rank_groups rs pool rest w1 = (Inr (orders', ds'), w')" "orders = map (\<lambda>i. indices ! i) order # orders'"
proof (cases "indices = []")
  case True
  with assms obtain w1 orders' ds' where "rank_groups rs pool rest w1 = (Inr (orders', ds'), w')" "orders = [] # orders'"
    by (auto simp: io_bind_Inr)
  then show ?thesis by (rule skipped)
next
  case False
  with assms obtain w0 order d w1 orders' ds' where "rank rs (qu_code q) (map (\<lambda>i. pool ! i) indices) w0 = (Inr (order, d), w1)"
    "rank_groups rs pool rest w1 = (Inr (orders', ds'), w')" "orders = map (\<lambda>i. indices ! i) order # orders'"
    by (auto simp: io_bind_Inr)
  then show ?thesis by (rule ranked)
qed

lemma rank_groups_in:
  assumes "rank_groups rs pool xs w = (Inr (orders, ds), w')" and "\<forall>x \<in> set xs. set (snd x) \<subseteq> {..<length pool}"
  shows "\<forall>o1 \<in> set orders. set o1 \<subseteq> {..<length pool}"
  using assms
proof (induction xs arbitrary: w orders ds)
  case (Cons x xs)
  obtain q indices where x: "x = (q, indices)" by (cases x)
  have prems: "\<forall>x \<in> set xs. set (snd x) \<subseteq> {..<length pool}" using Cons.prems(2) by simp
  from Cons.prems(1) [unfolded x] show ?case
  proof (cases rule: rank_groups_Cons)
    case (skipped w1 orders' ds')
    with Cons.IH [OF skipped(1) prems] show ?thesis by simp
  next
    case (ranked w0 w1 order d orders' ds')
    have order: "set order = set [0..<length indices]" using mset_eq_setD [OF rank_permutes [OF ranked(1)]] by simp
    have "set (map (\<lambda>i. indices ! i) order) \<subseteq> set indices"
      unfolding set_map order by (auto intro: nth_mem)
    then show ?thesis using Cons.prems(2) Cons.IH [OF ranked(2) prems] by (auto simp: x ranked(3))
  qed
qed (simp add: io_ret_def)

lemma pool_orders_in: "\<forall>o1 \<in> set (pool_orders pool n). set o1 \<subseteq> {..<length pool}"
  by (auto simp: pool_orders_def)

lemma rank_pool_in:
  assumes "rank_pool st groups pool orders base w = (Inr (orders', es), w')"
    and "\<forall>o1 \<in> set orders. set o1 \<subseteq> {..<length pool}"
  shows "\<forall>o1 \<in> set orders'. set o1 \<subseteq> {..<length pool}"
proof (cases "orders' = orders")
  case False
  with assms(1) obtain rs ds w1 where "rank_groups rs pool (zip groups orders) w = (Inr (orders', ds), w1)"
    by (auto simp: rank_pool_def io_try_Inr io_bind_Inr io_of_def split: option.splits if_splits sum.splits)
  then show ?thesis by (rule rank_groups_in) (use assms(2) in \<open>auto dest!: set_zip_rightD\<close>)
qed (use assms(2) in simp)

lemma add_indices_set: "set (add_indices result is) = set result \<union> set is" for "is"
  by (induction result "is" rule: add_indices.induct) auto

lemma prioritized_in:
  assumes "\<forall>o1 \<in> set orders. set o1 \<subseteq> {..<length pool}"
  shows "set (prioritized pool orders) \<subseteq> {..<length pool}"
  using assms by (auto simp: prioritized_def add_indices_set interleave_set)

subsection \<open>All chunks\<close>

lemma fold_keeps: "P g \<Longrightarrow> (\<And>x g. x \<in> set xs \<Longrightarrow> P g \<Longrightarrow> P (F x g)) \<Longrightarrow> P (fold F xs g)"
  by (induction xs arbitrary: g) auto

lemma note_partial_ok [simp]: "gathering_ok src pf cap c (note_partial x g) = gathering_ok src pf cap c g"
  by (auto simp: note_partial_def Let_def split: prod.splits option.splits)

lemma gathered_ok:
  assumes "gathering_ok src pf cap c g" and "plain_files (cx_files c)"
    and pool: "\<And>x. x \<in> set pool \<Longrightarrow> chunk_pinned src sources (chunk_of x)"
    and groups: "\<And>q. q \<in> set groups \<Longrightarrow> chunk_pinned src sources (qu_path q, qu_numbers q)"
    and orders: "\<forall>o1 \<in> set orders. set o1 \<subseteq> {..<length pool}"
  shows "gathering_ok src pf cap c (gathered pf cap sources m pool orders groups omitted g)"
proof -
  have i: "pool ! i \<in> set pool" if "i \<in> set (prioritized pool orders)" for i
    using that prioritized_in [OF orders] by auto
  note append = append_chunk_ok [OF _ assms(2)]
  have "gathering_ok src pf cap c (add_chunks pf cap sources pool (prioritized pool orders) groups g)"
    unfolding add_chunks_def Let_def
  proof (rule fold_keeps, rule fold_keeps, rule fold_keeps)
    fix k g assume "k \<in> set (filter (\<lambda>i. ca_protected (pool ! i)) (prioritized pool orders))" "gathering_ok src pf cap c g"
    then show "gathering_ok src pf cap c (append_chunk pf cap sources True (chunk_of (pool ! k)) g)"
      by (intro append pool i) auto
  next
    fix q g assume "q \<in> set groups" "gathering_ok src pf cap c g"
    then show "gathering_ok src pf cap c (append_chunk pf cap sources False (qu_path q, qu_numbers q) g)"
      by (intro append groups)
  next
    fix k g assume "k \<in> set (filter (\<lambda>i. \<not> ca_protected (pool ! i)) (prioritized pool orders))" "gathering_ok src pf cap c g"
    then show "gathering_ok src pf cap c (append_chunk pf cap sources False (chunk_of (pool ! k)) g)"
      by (intro append pool i) auto
  next
    show "gathering_ok src pf cap c g" by (rule assms(1))
  qed
  then have "gathering_ok src pf cap c (fold note_partial m (add_chunks pf cap sources pool (prioritized pool orders) groups g))"
    by (rule fold_keeps) simp
  then show ?thesis by (simp add: gathered_def Let_def)
qed

subsection \<open>Sources of the commit\<close>

definition from_commit :: "'w source_tools \<Rightarrow> string \<Rightarrow> string \<Rightarrow> string \<Rightarrow> string list \<Rightarrow> bool" where
  "from_commit st prefix sha path ls \<longleftrightarrow> (\<exists>regular w w'. source st prefix sha regular path w = (Inr ls, w'))"

lemma set_update: "set (AList.update k v xs) \<subseteq> insert (k, v) (set xs)"
  by (induction xs) auto

lemma set_joined: "set (joined a b) \<subseteq> set a \<union> set b"
proof -
  have "set (fold (\<lambda>(k, v). AList.update k v) b a) \<subseteq> set a \<union> set b"
  proof (induction b arbitrary: a)
    case (Cons x b)
    obtain k v where x: "x = (k, v)" by (cases x)
    show ?case using Cons [of "AList.update k v a"] set_update [of k v a] by (auto simp: x)
  qed simp
  then show ?thesis by (simp add: joined_def)
qed

text \<open>The worlds a run goes through: each is left by one request or by one inspection of sources.\<close>

inductive later_world :: "'w source_tools \<Rightarrow> 'w \<Rightarrow> 'w \<Rightarrow> bool" for st where
  here: "later_world st w w"
| asked: "later_world st w w1 \<Longrightarrow> st_get st path w1 = (x, w2) \<Longrightarrow> later_world st w w2"
| inspected: "later_world st w w1 \<Longrightarrow> st_inspect st sources w1 = (y, w2) \<Longrightarrow> later_world st w w2"

lemma later_world_trans:
  assumes "later_world st u v" and "later_world st v w"
  shows "later_world st u w"
  using assms(2,1) by (induction rule: later_world.induct) (blast intro: later_world.intros)+

definition moves :: "'w source_tools \<Rightarrow> ('w, 'a) io \<Rightarrow> bool" where
  "moves st m \<longleftrightarrow> (\<forall>w x w'. m w = (x, w') \<longrightarrow> later_world st w w')"

lemma movesD: "moves st m \<Longrightarrow> m w = (x, w') \<Longrightarrow> later_world st w w'"
  by (simp add: moves_def)

lemma moves_bind: "moves st m \<Longrightarrow> (\<And>x. moves st (f x)) \<Longrightarrow> moves st (io_bind m f)"
  unfolding moves_def io_bind_def by (fastforce split: prod.splits sum.splits dest: later_world_trans)

lemma moves_try: "moves st m \<Longrightarrow> (\<And>e. moves st (h e)) \<Longrightarrow> moves st (io_try m h)"
  unfolding moves_def io_try_def by (fastforce split: prod.splits sum.splits dest: later_world_trans)

lemma moves_basic [simp]:
  "moves st (io_ret x)" "moves st (io_raise e)" "moves st (st_get st path)" "moves st (st_inspect st sources)"
  by (auto simp: moves_def io_ret_def io_raise_def intro: later_world.intros)

lemma moves_tree: "moves st (read_tree st prefix sha)"
  unfolding read_tree_def by (auto intro!: moves_bind split: option.split)

lemma moves_search: "moves st (search_tree st prefix sha)"
  unfolding search_tree_def by (auto intro!: moves_bind moves_try moves_tree)

lemma moves_try_source: "moves st (try_source st prefix sha regular path)"
  unfolding try_source_def source_def by (auto intro!: moves_bind moves_try split: option.split)

lemma moves_inspect: "moves st (inspect_sources st sources)"
  unfolding inspect_sources_def by (auto intro!: moves_bind split: option.split)

text \<open>
  A source of the commit, for a run that starts in the world \<open>w\<close>: the tree read at the start has a regular
  file of that path, the path is open under the ignored patterns, and in some world of the run GitHub
  answered the request for the contents of the path at the commit with text that has no suspected secret.
\<close>

definition tree_file :: "json \<Rightarrow> string \<Rightarrow> bool" where
  "tree_file tree path \<longleftrightarrow>
     (\<exists>ts t. as_arr (json_get ''tree'' tree) = Some ts \<and> t \<in> set ts \<and> json_get ''path'' t = JStr path \<and>
        json_get ''type'' t = JStr ''blob'' \<and> json_get ''mode'' t \<in> {JStr ''100644'', JStr ''100755''})"

definition sent_tree :: "'w source_tools \<Rightarrow> string \<Rightarrow> string \<Rightarrow> 'w \<Rightarrow> json \<Rightarrow> bool" where
  "sent_tree st prefix sha w tree \<longleftrightarrow>
     (\<exists>commit v tree_sha w0. st_get st (prefix @ ''/git/commits/'' @ sha) w = (Inr commit, v) \<and>
        json_get ''sha'' (json_get ''tree'' commit) = JStr tree_sha \<and>
        st_get st (prefix @ ''/git/trees/'' @ tree_sha @ ''?recursive=1'') v = (Inr tree, w0))"

definition sent_lines :: "'w source_tools \<Rightarrow> string \<Rightarrow> string \<Rightarrow> 'w \<Rightarrow> string \<Rightarrow> string list \<Rightarrow> bool" where
  "sent_lines st prefix sha w path ls \<longleftrightarrow>
     (\<exists>w1 data w2 txt. later_world st w w1 \<and>
        st_get st (prefix @ ''/contents/'' @ quote_path path @ ''?ref='' @ sha) w1 = (Inr data, w2) \<and>
        decoded_lines (st_decode st) data = Some ls \<and> ls = splitlines txt \<and> \<not> has_secret txt)"

definition pinned_source ::
  "'w source_tools \<Rightarrow> string \<Rightarrow> string \<Rightarrow> string list \<Rightarrow> 'w \<Rightarrow> string \<Rightarrow> string list \<Rightarrow> bool" where
  "pinned_source st prefix sha ignored w path ls \<longleftrightarrow>
     (\<exists>tree. sent_tree st prefix sha w tree \<and> tree_file tree path) \<and>
     \<not> closed_path path ignored \<and> \<not> closed_path path [] \<and> sent_lines st prefix sha w path ls"

lemma regular_entry_path: "regular_entry t \<Longrightarrow> json_get ''path'' t = JStr (the (as_str (json_get ''path'' t)))"
  by (cases "json_get ''path'' t") (simp_all add: regular_entry_def)

lemma regular_files_tree:
  assumes "p \<in> set (regular_files tree)"
  shows "tree_file tree p"
proof (cases "as_arr (json_get ''tree'' tree)")
  case (Some ts)
  with assms obtain t where t: "t \<in> set (take 5000 ts)" "regular_entry t" "p = the (as_str (json_get ''path'' t))"
    unfolding regular_files_def by auto
  with regular_entry_path [OF t(2)] in_set_takeD [OF t(1)] Some show ?thesis
    unfolding tree_file_def regular_entry_def by auto
qed (use assms in \<open>simp add: regular_files_def\<close>)

lemma read_tree_sent:
  assumes "read_tree st prefix sha w = (Inr tree, w')"
  shows "sent_tree st prefix sha w tree"
proof -
  from assms obtain commit v where c: "st_get st (prefix @ ''/git/commits/'' @ sha) w = (Inr commit, v)"
    and rest: "(case as_str (json_get ''sha'' (json_get ''tree'' commit)) of
       None \<Rightarrow> io_raise (ValueError ''INVALID_TREE'')
     | Some tree_sha \<Rightarrow>
         if \<not> is_hex 40 tree_sha then io_raise (ValueError ''INVALID_TREE'')
         else
           io_bind (st_get st (prefix @ ''/git/trees/'' @ tree_sha @ ''?recursive=1'')) (\<lambda>tree.
           if as_arr (json_get ''tree'' tree) = None then io_raise (ValueError ''INVALID_TREE'') else io_ret tree)) v = (Inr tree, w')"
    unfolding read_tree_def by (rule io_bindE)
  then obtain s where s: "as_str (json_get ''sha'' (json_get ''tree'' commit)) = Some s"
    by (auto simp: io_raise_def split: option.splits)
  then have "json_get ''sha'' (json_get ''tree'' commit) = JStr s"
    by (cases "json_get ''sha'' (json_get ''tree'' commit)") simp_all
  moreover obtain w0 where "st_get st (prefix @ ''/git/trees/'' @ s @ ''?recursive=1'') v = (Inr tree, w0)"
    using rest by (auto simp: s io_bind_Inr io_raise_def io_ret_def split: if_splits)
  ultimately show ?thesis using c unfolding sent_tree_def by blast
qed

lemma search_tree_regular:
  assumes "search_tree st prefix sha w = (Inr found, w')" and "p \<in> set (regular_files (fst found))"
  shows "\<exists>tree. sent_tree st prefix sha w tree \<and> tree_file tree p"
proof -
  have "regular_files (JObj [(''tree'', JArr [])]) = []" by code_simp
  then obtain w0 where "read_tree st prefix sha w = (Inr (fst found), w0)"
    using assms unfolding search_tree_def io_try_Inr io_bind_Inr by (auto simp: io_ret_def io_raise_def split: if_splits)
  from read_tree_sent [OF this] regular_files_tree [OF assms(2)] show ?thesis by blast
qed

lemma decoded_lines_safe: "decoded_lines decode data = Some ls \<Longrightarrow> \<exists>txt. ls = splitlines txt \<and> \<not> has_secret txt"
  by (auto simp: decoded_lines_def split: option.splits if_splits)

lemma try_source_sent:
  assumes "try_source st prefix sha regular path w1 = (Inr (Some ls), w2)" and "later_world st w w1"
  shows "path \<in> set regular \<and> \<not> closed_path path [] \<and> sent_lines st prefix sha w path ls"
proof -
  from assms(1) obtain v where "source st prefix sha (Some regular) path w1 = (Inr ls, v)"
    by (auto simp: try_source_def io_try_Inr io_bind_Inr io_ret_def io_raise_def split: if_splits)
  then obtain data v1 where "path \<in> set regular" "\<not> closed_path path []"
    "st_get st (prefix @ ''/contents/'' @ quote_path path @ ''?ref='' @ sha) w1 = (Inr data, v1)"
    "decoded_lines (st_decode st) data = Some ls"
    by (auto simp: source_def io_bind_Inr io_ret_def io_raise_def split: if_splits option.splits)
  with assms(2) decoded_lines_safe show ?thesis unfolding sent_lines_def by blast
qed

lemma read_sources_sent:
  assumes "read_sources st prefix sha regular ps loaded w1 = (Inr r, w')" and "later_world st w w1"
    and "\<And>p ls. (p, Some ls) \<in> set loaded \<Longrightarrow> p \<in> set regular \<and> \<not> closed_path p [] \<and> sent_lines st prefix sha w p ls"
  shows "later_world st w w' \<and>
    (\<forall>p ls. (p, Some ls) \<in> set r \<longrightarrow> p \<in> set regular \<and> \<not> closed_path p [] \<and> sent_lines st prefix sha w p ls)"
  using assms
proof (induction ps arbitrary: loaded w1)
  case (Cons q ps)
  from Cons.prems(1) obtain x w2 where x: "try_source st prefix sha regular q w1 = (Inr x, w2)"
    "read_sources st prefix sha regular ps (AList.update q x loaded) w2 = (Inr r, w')"
    by (auto elim: io_bindE)
  have "later_world st w w2"
    by (rule later_world_trans [OF Cons.prems(2) movesD [OF moves_try_source x(1)]])
  moreover have "p \<in> set regular \<and> \<not> closed_path p [] \<and> sent_lines st prefix sha w p ls"
    if "(p, Some ls) \<in> set (AList.update q x loaded)" for p ls
    using that set_update [of q x loaded] try_source_sent [OF _ Cons.prems(2)] x(1) Cons.prems(3) by auto
  ultimately show ?case using Cons.IH [OF x(2)] by blast
qed (auto simp: io_ret_def)

lemma safe_sources_in:
  "safe_sources changed loaded fs safe ns = Inr (safe', ns') \<Longrightarrow>
   set safe' \<subseteq> set safe \<union> {(p, ls). (p, Some ls) \<in> set loaded}"
proof (induction fs arbitrary: safe ns)
  case (Cons f fs)
  from Cons.prems obtain path where p: "map_of changed (wf_id f) = Some path" by (auto split: option.splits)
  consider ns1 where "safe_sources changed loaded fs safe ns1 = Inr (safe', ns')"
    | ls where "map_of loaded path = Some (Some ls)" "safe_sources changed loaded fs (AList.update path ls safe) ns = Inr (safe', ns')"
    using Cons.prems p by (auto split: option.splits if_splits)
  then show ?case
  proof cases
    case 1
    from Cons.IH [OF this] show ?thesis .
  next
    case 2
    from Cons.IH [OF 2(2)] set_update [of path ls safe] map_of_SomeD [OF 2(1)] show ?thesis by blast
  qed
qed simp

lemma related_sources_in: "related_sources loaded = (related, ns) \<Longrightarrow> set related \<subseteq> {(p, ls). (p, Some ls) \<in> set loaded}"
  by (auto simp: related_sources_def split: option.splits prod.splits)

subsection \<open>The whole search\<close>

definition ready_bundle :: "nat \<Rightarrow> nat \<Rightarrow> input_bundle \<Rightarrow> bool" where
  "ready_bundle per_file limit b \<longleftrightarrow>
     plain_files (cx_files (ib_context b)) \<and>
     (\<forall>f \<in> set (cx_files (ib_context b)). wire_size (review_file_json f) \<le> per_file) \<and>
     context_bytes (ib_context b) \<le> limit \<and> map fst (ib_anchors b) = map wf_id (cx_files (ib_context b))"

lemma bundle_paths_lookup: "map_of (bundle_paths b) fid = map_option fst (map_of (ib_anchors b) fid)"
proof -
  have "map_of (map (\<lambda>(fid, path, _). (fid, path)) xs) fid = map_option fst (map_of xs fid)" for xs :: "(string \<times> string \<times> int list) list"
    by (induction xs) auto
  then show ?thesis by (simp add: bundle_paths_def)
qed

lemma start_ok:
  assumes "ready_bundle pf cap b"
  shows "gathering_ok src pf cap (ib_context b) (start_gathering b (bundle_paths b) ns)"
proof -
  let ?fs = "cx_files (ib_context b)"
  let ?step = "\<lambda>f. case map_of (bundle_paths b) (wf_id f) of None \<Rightarrow> id | Some p \<Rightarrow> AList.update p (wf_id f)"
  have by_path: "\<forall>p fid. map_of (fold ?step ?fs []) p = Some fid \<longrightarrow>
      fid \<in> wf_id ` set ?fs \<and> map_of (bundle_paths b) fid = Some p"
    by (rule fold_keeps) (auto simp: update_conv split: option.splits if_splits)
  have anchors: "\<exists>path ms. map_of (ib_anchors b) (wf_id f) = Some (path, ms)" if "f \<in> set ?fs" for f
  proof -
    have "wf_id f \<in> set (map fst (ib_anchors b))" using that assms by (simp add: ready_bundle_def)
    then show ?thesis by (metis image_set map_of_eq_None_iff not_None_eq old.prod.exhaust)
  qed
  have own: "f0 = f" if "f0 \<in> set ?fs" "f \<in> set ?fs" "wf_id f0 = wf_id f" for f0 f
    using that assms by (auto simp: ready_bundle_def plain_files_def distinct_map inj_on_def)
  have grown: "grown_file src ?fs path f" if "f \<in> set ?fs" for f path
    using that assms own by (auto simp: grown_file_def ready_bundle_def plain_files_def)
  have "\<exists>m \<le> (4::nat). map wf_id ?fs = map wf_id ?fs @ related_ids (length ?fs) m \<and>
      map wf_role ?fs = map wf_role ?fs @ replicate m (Some ''related'')"
    by (rule exI [of _ 0]) (simp add: related_ids_def)
  moreover have "\<forall>f \<in> set ?fs. wire_size (review_file_json f) \<le> pf \<and>
      (\<exists>path ms. map_of (ib_anchors b) (wf_id f) = Some (path, ms) \<and> grown_file src ?fs path f)"
    using assms anchors grown unfolding ready_bundle_def by blast
  moreover have "\<forall>p fid. map_of (fold ?step ?fs []) p = Some fid \<longrightarrow>
      fid \<in> wf_id ` set ?fs \<and> (\<exists>ms. map_of (ib_anchors b) fid = Some (p, ms))"
    using by_path unfolding bundle_paths_lookup by fastforce
  ultimately show ?thesis
    using assms unfolding gathering_ok_def start_gathering_def ready_bundle_def by simp
qed

lemma anchored_Inr:
  assumes "anchored A fs = Inr A'" and "distinct (map wf_id fs)"
  shows "\<forall>f \<in> set fs. \<exists>path ns. map_of A (wf_id f) = Some (path, ns) \<and> map_of A' (wf_id f) = Some (path, remdups (map hl_line (wf_lines f)))"
    and "\<forall>fid. fid \<notin> wf_id ` set fs \<longrightarrow> map_of A' fid = map_of A fid"
  using assms
proof (induction fs arbitrary: A)
  case (Cons f fs)
  have step: "\<exists>path ns. map_of A (wf_id f) = Some (path, ns) \<and>
      anchored (AList.update (wf_id f) (path, remdups (map hl_line (wf_lines f))) A) fs = Inr A'"
    if "anchored A (f # fs) = Inr A'" for A
    using that by (auto split: option.splits)
  {
    case 1
    then obtain path ns where p: "map_of A (wf_id f) = Some (path, ns)"
      "anchored (AList.update (wf_id f) (path, remdups (map hl_line (wf_lines f))) A) fs = Inr A'" using step by blast
    have d: "distinct (map wf_id fs)" "wf_id f \<notin> wf_id ` set fs" using 1 by auto
    have "map_of A' (wf_id f) = Some (path, remdups (map hl_line (wf_lines f)))"
      using Cons.IH(2) [OF p(2) d(1)] d(2) by (simp add: update_conv)
    moreover have "map_of (AList.update (wf_id f) x A) (wf_id f2) = map_of A (wf_id f2)" if "f2 \<in> set fs" for f2 x
    proof -
      have "wf_id f2 \<noteq> wf_id f" using that d(2) by (metis image_eqI)
      then show ?thesis by (simp add: update_conv)
    qed
    ultimately show ?case using Cons.IH(1) [OF p(2) d(1)] p(1) by auto
  next
    case 2
    then obtain path ns where p: "map_of A (wf_id f) = Some (path, ns)"
      "anchored (AList.update (wf_id f) (path, remdups (map hl_line (wf_lines f))) A) fs = Inr A'" using step by blast
    with Cons.IH(2) [OF p(2)] 2 show ?case by (simp add: update_conv)
  }
qed auto

lemma enriched_bundle_Inr:
  assumes "enriched_bundle b r g = Inr b'" and "gathering_ok src pf cap (ib_context b) g" and "ready_bundle pf cap b"
  shows "(ib_context b')\<lparr>cx_files := cx_files (ib_context b)\<rparr> = ib_context b"
    and "context_bytes (ib_context b') \<le> cap"
    and "length (cx_files (ib_context b')) \<le> length (cx_files (ib_context b)) + 4"
    and "\<forall>f \<in> set (cx_files (ib_context b)). \<exists>f' \<in> set (cx_files (ib_context b')). wf_id f' = wf_id f \<and> set (wf_lines f) \<subseteq> set (wf_lines f')"
    and "\<forall>f \<in> set (cx_files (ib_context b')). wire_size (review_file_json f) \<le> pf \<and>
      (\<exists>path ls. map_of (ib_anchors b') (wf_id f) = Some (path, ls) \<and> set ls = hl_line ` set (wf_lines f) \<and>
        grown_file src (cx_files (ib_context b)) path f)"
proof -
  let ?fs = "cx_files (ga_context g)" and ?old = "cx_files (ib_context b)"
  obtain A where A: "anchored (ga_anchors g) ?fs = Inr A" and b': "ib_context b' = ga_context g" "ib_anchors b' = A"
    using assms(1) by (auto simp: enriched_bundle_def Let_def proceed_Inr)
  obtain m where m: "m \<le> 4" "map wf_id ?fs = map wf_id ?old @ related_ids (length ?old) m"
    using assms(2) by (auto simp: gathering_ok_def)
  have plain: "plain_files ?old" using assms(3) by (simp add: ready_bundle_def)
  have distinct: "distinct (map wf_id ?fs)" unfolding m(2) by (rule all_ids_distinct [OF plain])
  have files: "\<forall>f \<in> set ?fs. wire_size (review_file_json f) \<le> pf \<and>
        (\<exists>path ns. map_of (ga_anchors g) (wf_id f) = Some (path, ns) \<and> grown_file src ?old path f)"
    using assms(2) by (simp add: gathering_ok_def)
  show "(ib_context b')\<lparr>cx_files := ?old\<rparr> = ib_context b" "context_bytes (ib_context b') \<le> cap"
    using assms(2) by (simp_all add: b' gathering_ok_def)
  show "length (cx_files (ib_context b')) \<le> length ?old + 4"
  proof -
    have "length ?fs = length ?old + m"
      using arg_cong [OF m(2), of length] by (simp only: length_map length_append related_ids_def length_upt)
    with m(1) show ?thesis by (simp add: b')
  qed
  show "\<forall>f \<in> set ?old. \<exists>f' \<in> set (cx_files (ib_context b')). wf_id f' = wf_id f \<and> set (wf_lines f) \<subseteq> set (wf_lines f')"
  proof
    fix f assume f: "f \<in> set ?old"
    then have "wf_id f \<in> set (map wf_id ?fs)" unfolding m(2) by simp
    then obtain f' where "f' \<in> set ?fs" "wf_id f' = wf_id f" by auto
    moreover from this files obtain path where "grown_file src ?old path f'" by blast
    then have "wf_id f = wf_id f' \<longrightarrow> set (wf_lines f) \<subseteq> set (wf_lines f')" using f by (simp add: grown_file_def)
    ultimately show "\<exists>f' \<in> set (cx_files (ib_context b')). wf_id f' = wf_id f \<and> set (wf_lines f) \<subseteq> set (wf_lines f')"
      unfolding b' by auto
  qed
  show "\<forall>f \<in> set (cx_files (ib_context b')). wire_size (review_file_json f) \<le> pf \<and>
      (\<exists>path ls. map_of (ib_anchors b') (wf_id f) = Some (path, ls) \<and> set ls = hl_line ` set (wf_lines f) \<and>
        grown_file src ?old path f)"
  proof
    fix f assume f: "f \<in> set (cx_files (ib_context b'))"
    then obtain path ns where "map_of (ga_anchors g) (wf_id f) = Some (path, ns)" "map_of A (wf_id f) = Some (path, remdups (map hl_line (wf_lines f)))"
      using anchored_Inr(1) [OF A distinct] unfolding b' by blast
    with files f show "wire_size (review_file_json f) \<le> pf \<and>
      (\<exists>path ls. map_of (ib_anchors b') (wf_id f) = Some (path, ls) \<and> set ls = hl_line ` set (wf_lines f) \<and>
        grown_file src ?old path f)"
      unfolding b' by fastforce
  qed
qed

definition inspector_ok :: "'w source_tools \<Rightarrow> bool" where
  "inspector_ok st \<longleftrightarrow> (\<forall>sources w m w'. st_inspect st sources w = (Inr (Some m), w') \<longrightarrow> table_ok m)"

lemma inspect_sources_ok:
  assumes "inspect_sources st sources w = (Inr m, w')" and "inspector_ok st"
  shows "table_ok m"
proof -
  have "m = [] \<or> (\<exists>v. st_inspect st sources w = (Inr (Some m), v))"
    using assms(1) by (auto simp: inspect_sources_def io_bind_Inr split: if_splits option.splits)
  then show ?thesis using assms(2) by (auto simp: inspector_ok_def table_ok_def)
qed

text \<open>Related files are other files than the changed ones.\<close>

lemma choose_paths_keys: "fst ` set (choose_paths chosen xs) \<subseteq> fst ` set chosen \<union> fst ` set xs"
proof (induction xs arbitrary: chosen)
  case (Cons x xs)
  obtain p n where x: "x = (p, n)" by (cases x)
  let ?chosen = "map (\<lambda>(q, k). (q, if q = p then max k n else k)) chosen"
  have same: "fst ` set ?chosen = fst ` set chosen"
    unfolding set_map image_image by (rule image_cong) auto
  consider "choose_paths chosen (x # xs) = choose_paths ?chosen xs" | "choose_paths chosen (x # xs) = choose_paths (chosen @ [(p, max 0 n)]) xs"
    | "choose_paths chosen (x # xs) = choose_paths chosen xs"
    unfolding x by (cases "p \<in> fst ` set chosen"; cases "length chosen < 12") simp_all
  then show ?case
  proof cases
    case 1
    show ?thesis unfolding 1 using Cons [of ?chosen] unfolding same by auto
  next
    case 2
    show ?thesis unfolding 2 using Cons [of "chosen @ [(p, max 0 n)]"] by (auto simp: x)
  next
    case 3
    show ?thesis unfolding 3 using Cons [of chosen] by auto
  qed
qed simp

lemma discover_keys: "fst ` set (fst (discover regular groups m changed)) \<inter> set changed = {}"
proof -
  have "p \<notin> set changed" if "(p, n) \<in> set (query_paths regular changed m q)" for p n q
    using that by (auto simp: query_paths_def candidate_paths_def Let_def dest!: in_set_takeD)
  then have "fst ` set (interleave (map (query_paths regular changed m) groups)) \<inter> set changed = {}"
    by (auto simp: interleave_set)
  moreover have "fst ` set (fst (discover regular groups m changed)) \<subseteq> fst ` set (interleave (map (query_paths regular changed m) groups))"
    using choose_paths_keys [of "[]"] by (simp add: discover_def Let_def)
  ultimately show ?thesis by blast
qed

lemma read_sources_keys:
  "read_sources st prefix sha regular ps loaded w = (Inr r, w') \<Longrightarrow> fst ` set r \<subseteq> fst ` set loaded \<union> set ps"
proof (induction ps arbitrary: loaded w)
  case (Cons q ps)
  from Cons.prems obtain x w1 where
    "read_sources st prefix sha regular ps (AList.update q x loaded) w1 = (Inr r, w')"
    by (auto elim: io_bindE)
  then have "fst ` set r \<subseteq> fst ` set (AList.update q x loaded) \<union> set ps" by (rule Cons.IH)
  also have "fst ` set (AList.update q x loaded) \<subseteq> insert q (fst ` set loaded)"
    using image_mono [OF set_update [of q x loaded], of fst] by simp
  finally show ?case by auto
qed (simp add: io_ret_def)

lemma safe_sources_keys:
  "safe_sources changed loaded fs safe ns = Inr (safe', ns') \<Longrightarrow> fst ` set safe' \<subseteq> fst ` set safe \<union> snd ` set changed"
proof (induction fs arbitrary: safe ns)
  case (Cons f fs)
  from Cons.prems obtain path where p: "map_of changed (wf_id f) = Some path" by (auto split: option.splits)
  consider ns1 where "safe_sources changed loaded fs safe ns1 = Inr (safe', ns')"
    | ls where "safe_sources changed loaded fs (AList.update path ls safe) ns = Inr (safe', ns')"
    using Cons.prems p by (auto split: option.splits if_splits)
  then show ?case
  proof cases
    case 1
    from Cons.IH [OF this] show ?thesis .
  next
    case 2
    have "path \<in> snd ` set changed" using map_of_SomeD [OF p] by force
    moreover have "fst ` set (AList.update path ls safe) \<subseteq> insert path (fst ` set safe)"
      using image_mono [OF set_update [of path ls safe], of fst] by simp
    ultimately show ?thesis using Cons.IH [OF 2] by blast
  qed
qed simp

lemma joined_first: "map_of a p = Some x \<Longrightarrow> p \<notin> fst ` set b \<Longrightarrow> map_of (joined a b) p = Some x"
proof -
  have "map_of (fold (\<lambda>(k, v). AList.update k v) b a) p = map_of a p" if "p \<notin> fst ` set b" for a
    using that by (induction b arbitrary: a) (auto simp: update_conv)
  then show "map_of a p = Some x \<Longrightarrow> p \<notin> fst ` set b \<Longrightarrow> ?thesis" by (simp add: joined_def)
qed

lemma finish_gathering_Inr:
  assumes "finish_gathering st pf cap b changed ns sources m pool groups fetched omitted w = (Inr b', w')"
  obtains orders r where "\<forall>o1 \<in> set orders. set o1 \<subseteq> {..<length pool}"
    "enriched_bundle b r (gathered pf cap sources m pool orders groups omitted (start_gathering b changed ns)) = Inr b'"
proof -
  obtain ranked w1 w2 u where ranked: "rank_pool st groups pool (pool_orders pool (length groups))
        (ranking_base pf cap pool fetched (length groups) omitted) w = (Inr ranked, w1)"
    and rest: "(let g = gathered pf cap sources m pool (fst ranked) groups omitted (start_gathering b changed ns) in
      io_of (enriched_bundle b (set_entry ''protected_missing'' (JInt (int (ga_missing g))) (snd ranked)) g)) w2 = (Inr b', w')"
    using assms unfolding finish_gathering_def by (elim io_bindE) (rule that, assumption+)
  have "\<forall>o1 \<in> set (fst ranked). set o1 \<subseteq> {..<length pool}"
    using rank_pool_in [where orders' = "fst ranked" and es = "snd ranked"] ranked pool_orders_in by fastforce
  with rest that show thesis by (auto simp: Let_def io_of_def split: sum.splits)
qed

lemma with_related_Inr:
  assumes run: "with_related st pf cap prefix sha regular b ns safe m groups omitted w = (Inr b', w')"
    and ready: "ready_bundle pf cap b" and inspector: "inspector_ok st" and m: "table_ok m"
    and read: "\<And>ps loaded v p ls. read_sources st prefix sha regular ps [] w = (Inr loaded, v) \<Longrightarrow>
      (p, Some ls) \<in> set loaded \<Longrightarrow> src p ls"
    and safe: "\<And>p ls. (p, ls) \<in> set safe \<Longrightarrow> src p ls" "fst ` set safe \<subseteq> snd ` set (bundle_paths b)"
    and groups: "\<And>q. q \<in> set groups \<Longrightarrow> chunk_ok safe (qu_path q, qu_numbers q)"
  obtains g r where "enriched_bundle b r g = Inr b'" "gathering_ok src pf cap (ib_context b) g"
proof -
  let ?found = "discover regular groups m (map snd (bundle_paths b))"
  obtain loaded w1 where loaded: "read_sources st prefix sha regular (map fst (fst ?found)) [] w = (Inr loaded, w1)"
    and rest1: "(let related = fst (related_sources loaded) in
      io_bind (inspect_sources st related) (\<lambda>related_m.
      let sources = joined safe related; all_m = joined m related_m;
          pool = pool_for groups (snd ?found) sources all_m (map fst safe)
      in finish_gathering st pf cap b (bundle_paths b) (ns @ snd (related_sources loaded)) sources all_m pool groups
           (length (fst ?found)) omitted)) w1 = (Inr b', w')"
    using run unfolding with_related_def Let_def by (rule io_bindE) (rule that, assumption, simp only: Let_def)
  define related where "related = fst (related_sources loaded)"
  obtain related_m w2 where rm: "inspect_sources st related w1 = (Inr related_m, w2)"
    and rest2: "(let sources = joined safe related; all_m = joined m related_m;
          pool = pool_for groups (snd ?found) sources all_m (map fst safe)
      in finish_gathering st pf cap b (bundle_paths b) (ns @ snd (related_sources loaded)) sources all_m pool groups
           (length (fst ?found)) omitted) w2 = (Inr b', w')"
    using rest1 unfolding related_def [symmetric] Let_def by (rule io_bindE) (rule that, assumption, simp only: Let_def)
  let ?sources = "joined safe related" and ?m = "joined m related_m"
  let ?pool = "pool_for groups (snd ?found) ?sources ?m (map fst safe)"
  obtain orders r where orders: "\<forall>o1 \<in> set orders. set o1 \<subseteq> {..<length ?pool}"
    and b': "enriched_bundle b r (gathered pf cap ?sources ?m ?pool orders groups omitted
          (start_gathering b (bundle_paths b) (ns @ snd (related_sources loaded)))) = Inr b'"
    using rest2 unfolding Let_def by (rule finish_gathering_Inr)
  have in_loaded: "set related \<subseteq> {(p, ls). (p, Some ls) \<in> set loaded}"
    using related_sources_in [of loaded related] by (simp add: related_def prod_eq_iff)
  have src: "src p ls" if "(p, ls) \<in> set ?sources" for p ls
  proof -
    have "(p, ls) \<in> set safe \<or> (p, Some ls) \<in> set loaded" using that set_joined [of safe related] in_loaded by auto
    then show ?thesis
    proof
      assume "(p, Some ls) \<in> set loaded"
      with read [OF loaded] show ?thesis .
    qed (rule safe(1))
  qed
  have other: "p \<notin> fst ` set related" if "p \<in> fst ` set safe" for p
  proof -
    have "fst ` set related \<subseteq> fst ` set loaded" using in_loaded by force
    also have "\<dots> \<subseteq> fst ` set (fst ?found)" using read_sources_keys [OF loaded] by simp
    finally show ?thesis using that safe(2) discover_keys [of regular groups m "map snd (bundle_paths b)"] by auto
  qed
  have table: "table_ok ?m"
    using m inspect_sources_ok [OF rm inspector] set_joined [of m related_m] by (auto simp: table_ok_def)
  have pinned: "chunk_pinned src ?sources x" if "chunk_ok ?sources x" for x
    using that src by (auto simp: chunk_pinned_def dest: map_of_SomeD)
  have "gathering_ok src pf cap (ib_context b) (gathered pf cap ?sources ?m ?pool orders groups omitted
      (start_gathering b (bundle_paths b) (ns @ snd (related_sources loaded))))"
  proof (rule gathered_ok [OF start_ok [OF ready] _ _ _ orders])
    show "plain_files (cx_files (ib_context b))" using ready by (simp add: ready_bundle_def)
  next
    fix x assume "x \<in> set ?pool"
    then show "chunk_pinned src ?sources (chunk_of x)" by (intro pinned pool_ok [OF _ table])
  next
    fix q assume "q \<in> set groups"
    from groups [OF this] obtain ls where ls: "map_of safe (qu_path q) = Some ls" "\<forall>n \<in> set (qu_numbers q). 1 \<le> n \<and> n \<le> int (length ls)"
      by (auto simp: chunk_ok_def)
    have "qu_path q \<in> fst ` set safe" using map_of_SomeD [OF ls(1)] by force
    then have "map_of ?sources (qu_path q) = Some ls" by (intro joined_first [OF ls(1)] other)
    with ls(2) show "chunk_pinned src ?sources (qu_path q, qu_numbers q)" by (intro pinned) (simp add: chunk_ok_def)
  qed
  with b' show thesis by (rule that)
qed

lemma collect_Inr:
  assumes run: "collect_context st pf cap prefix sha ignored b w = (Inr b', w')"
    and ready: "ready_bundle pf cap b" and inspector: "inspector_ok st"
  obtains g r where "enriched_bundle b r g = Inr b'"
    "gathering_ok (pinned_source st prefix sha ignored w) pf cap (ib_context b) g"
proof -
  let ?regular = "\<lambda>found. filter (\<lambda>p. \<not> closed_path p ignored) (regular_files (fst found))"
  obtain found :: "json \<times> (string \<times> string) list" and w1 loaded w2 where search: "search_tree st prefix sha w = (Inr found, w1)"
    and loaded: "read_sources st prefix sha (?regular found) (map snd (bundle_paths b)) [] w1 = (Inr loaded, w2)"
    and rest: "with_sources st pf cap prefix sha (?regular found) b (snd found) loaded w2 = (Inr b', w')"
    using run unfolding collect_context_def Let_def by (elim io_bindE) (rule that, assumption+)
  define regular where "regular = ?regular found"
  note loaded = loaded [folded regular_def] and rest = rest [folded regular_def]
  have pinned: "pinned_source st prefix sha ignored w p ls"
    if "p \<in> set regular \<and> \<not> closed_path p [] \<and> sent_lines st prefix sha w p ls" for p ls
    using that search_tree_regular [OF search, of p] by (auto simp: pinned_source_def regular_def)
  have "later_world st w w1" by (rule movesD [OF moves_search search])
  note first = read_sources_sent [OF loaded this]
  have w2: "later_world st w w2" using first by simp
  obtain safe m groups w4 where safe: "safe_sources (bundle_paths b) loaded (cx_files (ib_context b)) [] (snd found) = Inr safe"
    and m: "inspect_sources st (fst safe) w2 = (Inr m, w4)"
    and groups: "queries (cx_files (ib_context b)) (bundle_paths b) (fst safe) m = Inr groups"
    and rest2: "with_related st pf cap prefix sha regular b (snd safe) (fst safe) m (fst groups) (snd groups) w4 = (Inr b', w')"
    using rest unfolding with_sources_def Let_def
    by (elim io_bindE) (auto simp: io_of_def split: sum.splits intro: that)
  have table: "table_ok m" by (rule inspect_sources_ok [OF m inspector])
  have safe': "safe_sources (bundle_paths b) loaded (cx_files (ib_context b)) [] (snd found) = Inr (fst safe, snd safe)"
    and groups': "queries (cx_files (ib_context b)) (bundle_paths b) (fst safe) m = Inr (fst groups, snd groups)"
    using safe groups by simp_all
  have in_safe: "pinned_source st prefix sha ignored w p ls" if "(p, ls) \<in> set (fst safe)" for p ls
  proof -
    have "(p, Some ls) \<in> set loaded"
      using subsetD [OF safe_sources_in [OF safe'] that] by simp
    with first show ?thesis by (intro pinned) simp
  qed
  have w4: "later_world st w w4"
    by (rule later_world_trans [OF w2 movesD [OF moves_inspect m]])
  have in_read: "pinned_source st prefix sha ignored w p ls"
    if "read_sources st prefix sha regular ps [] w4 = (Inr extra, v)" "(p, Some ls) \<in> set extra" for ps extra v p ls
    using read_sources_sent [OF that(1) w4] that(2) by (intro pinned) simp
  have keys: "fst ` set (fst safe) \<subseteq> snd ` set (bundle_paths b)"
    using safe_sources_keys [OF safe'] by simp
  have chunk: "chunk_ok (fst safe) (qu_path q, qu_numbers q)" if "q \<in> set (fst groups)" for q
    by (rule queries_ok [OF groups' table that])
  show thesis
    by (rule with_related_Inr [OF rest2 ready inspector table, where src = "pinned_source st prefix sha ignored w"])
      (fact in_read in_safe keys chunk that)+
qed

subsection \<open>A prepared bundle\<close>

lemma prepare_roles:
  assumes "\<forall>f \<in> set (pp_files st). wf_role f = None"
  shows "\<forall>f \<in> set (pp_files (fold (prepare_change pf mb ig fi mo) cs st)). wf_role f = None"
proof (rule fold_keeps [where P = "\<lambda>st :: preparation. \<forall>f \<in> set (pp_files st). wf_role f = None", OF assms])
  fix c and g :: preparation assume "\<forall>f \<in> set (pp_files g). wf_role f = None"
  then show "\<forall>f \<in> set (pp_files (prepare_change pf mb ig fi mo c g)). wf_role f = None"
    by (auto simp: prepare_change_def exclude_file_def admit_file_def file_item_def Let_def split: option.splits if_splits)
qed

text \<open>What every bundle of \<open>prepare\<close> satisfies before related source is added.\<close>

definition anchors_exact :: "input_bundle \<Rightarrow> bool" where
  "anchors_exact b \<longleftrightarrow>
     (\<forall>f \<in> set (cx_files (ib_context b)). \<exists>path ls. map_of (ib_anchors b) (wf_id f) = Some (path, ls) \<and> set ls = hl_line ` set (wf_lines f))"

lemma anchors_exact_list:
  assumes "list_all2 (\<lambda>f a. set (snd (snd a)) = hl_line ` set (wf_lines f)) fs as" and "map fst as = map wf_id fs"
    and "distinct (map wf_id fs)" and "f \<in> set fs"
  shows "\<exists>path ls. map_of as (wf_id f) = Some (path, ls) \<and> set ls = hl_line ` set (wf_lines f)"
proof -
  obtain i where i: "i < length fs" "f = fs ! i" using assms(4) by (metis in_set_conv_nth)
  then have l: "i < length as" "set (snd (snd (as ! i))) = hl_line ` set (wf_lines f)"
    using assms(1) by (auto simp: list_all2_conv_all_nth)
  have "fst (as ! i) = wf_id f" using assms(2) i l(1) by (metis nth_map)
  moreover have "distinct (map fst as)" using assms(2,3) by simp
  ultimately have "map_of as (wf_id f) = Some (snd (as ! i))"
    using l(1) by (metis map_of_eq_Some_iff nth_mem prod.collapse)
  with l(2) show ?thesis by (cases "snd (as ! i)") auto
qed

lemma prepared_ready:
  assumes "prepare_changes pf mb changes findings ignored n mode0 = Inr b"
    and "\<forall>f \<in> set (cx_files (ib_context b)). distinct (map hl_line (wf_lines f))"
  shows "ready_bundle pf mb b" and "anchors_exact b"
proof -
  obtain mode where mode: "mode_text mode0 = Inr mode" using assms(1) by (auto simp: prepare_changes_def split: sum.splits)
  let ?chs = "take 100 changes" and ?start = "\<lparr>pp_files = [], pp_anchors = [], pp_excluded = []\<rparr>"
  let ?st = "fold (prepare_change pf mb ignored findings mode) ?chs ?start"
  have st: "prepared pf mb ignored findings mode ?chs ?st"
    by (rule prepare_fold_prepared) (simp_all add: prepared_def)
  have b: "ib_context b = fresh_context (pp_files ?st) findings mode" "ib_anchors b = pp_anchors ?st"
    "length (utf8 (payload_text (fresh_context (pp_files ?st) findings mode))) \<le> mb"
    using assms(1) mode by (auto simp: prepare_changes_def Let_def bundle_of_def split: if_splits)
  then have files: "cx_files (ib_context b) = pp_files ?st" by (simp add: fresh_context_def)
  have ids: "map wf_id (pp_files ?st) = map (\<lambda>n. ''f'' @ digits (n + 1)) [0..<length (pp_files ?st)]"
    and keys: "map fst (pp_anchors ?st) = map wf_id (pp_files ?st)"
    using st by (auto simp: prepared_def)
  have all: "list_all2 (\<lambda>f a. admitted pf ignored ?chs f (fst (snd a)) \<and> set (snd (snd a)) = hl_line ` set (wf_lines f)) (pp_files ?st) (pp_anchors ?st)"
    using st by (auto simp: prepared_def)
  have distinct: "distinct (map wf_id (pp_files ?st))"
    unfolding ids by (auto simp: distinct_map inj_on_def digits_inj)
  have f: "starts_with ''f'' (wf_id f)" if "f \<in> set (pp_files ?st)" for f
  proof -
    have "wf_id f \<in> set (map wf_id (pp_files ?st))" using that by simp
    then show ?thesis unfolding ids by (auto simp: starts_with_append)
  qed
  have small: "wire_size (review_file_json f) \<le> pf" if "f \<in> set (pp_files ?st)" for f
    using that all by (fastforce simp: list_all2_conv_all_nth in_set_conv_nth admitted_def)
  have "\<forall>f \<in> set (pp_files ?st). wf_role f = None" by (rule prepare_roles) simp
  then show "ready_bundle pf mb b"
    using assms(2) distinct f small b keys unfolding ready_bundle_def plain_files_def files context_bytes_def by auto
  show "anchors_exact b"
    unfolding anchors_exact_def files b(2)
    using anchors_exact_list [OF list_all2_mono [OF all] keys distinct] by blast
qed

text \<open>C34. Looking for related source only adds to what the pull request changed, and only from the pinned
commit: whenever a prepared bundle is enriched, every line prepared for the review stays as it was, at
most four files are added, the payload and each file stay within their bounds, nothing but the files of
the payload changes, every file is anchored at a path and at exactly its lines, and every line that was
not prepared is an unchanged line, at its number, of a file of the head commit: an entry of the tree that
was read when the run began, of type blob and a regular mode, whose path no closed pattern and none of
the ignored patterns covers, and whose contents GitHub sent during the run for that path at that commit,
without a suspected secret. This holds whatever the ranking service answers and whatever fails on the
way.\<close>

theorem enrich_adds_pinned_lines:
  assumes "prepare_changes per_file limit changes findings ignored0 n mode0 = Inr b"
    and "\<forall>f \<in> set (cx_files (ib_context b)). distinct (map hl_line (wf_lines f))"
    and "inspector_ok st"
    and "enrich st per_file limit prefix sha ignored b w = (Inr b', w')"
  shows "(ib_context b')\<lparr>cx_files := cx_files (ib_context b)\<rparr> = ib_context b \<and>
    context_bytes (ib_context b') \<le> limit \<and>
    length (cx_files (ib_context b')) \<le> length (cx_files (ib_context b)) + 4 \<and>
    (\<forall>f \<in> set (cx_files (ib_context b)). \<exists>f' \<in> set (cx_files (ib_context b')). wf_id f' = wf_id f \<and> set (wf_lines f) \<subseteq> set (wf_lines f')) \<and>
    (\<forall>f \<in> set (cx_files (ib_context b')). wire_size (review_file_json f) \<le> per_file \<and>
      (\<exists>path ls. map_of (ib_anchors b') (wf_id f) = Some (path, ls) \<and> set ls = hl_line ` set (wf_lines f) \<and>
        grown_file (pinned_source st prefix sha ignored w) (cx_files (ib_context b)) path f))"
proof -
  let ?src = "pinned_source st prefix sha ignored w"
  note ready = prepared_ready [OF assms(1,2)]
  from assms(4) consider "collect_context st per_file limit prefix sha ignored b w = (Inr b', w')" | "b' = unchanged_bundle b"
    by (auto simp: enrich_def io_try_Inr split: if_splits)
  then show ?thesis
  proof cases
    case 1
    then obtain g r where g: "enriched_bundle b r g = Inr b'" "gathering_ok ?src per_file limit (ib_context b) g"
      using ready(1) assms(3) by (rule collect_Inr)
    from enriched_bundle_Inr [OF g ready(1)] show ?thesis by blast
  next
    case 2
    have "gathering_ok ?src per_file limit (ib_context b) (start_gathering b (bundle_paths b) [])" by (rule start_ok [OF ready(1)])
    then have "\<forall>f \<in> set (cx_files (ib_context b)). wire_size (review_file_json f) \<le> per_file \<and>
      (\<exists>path ls. map_of (ib_anchors b) (wf_id f) = Some (path, ls) \<and> set ls = hl_line ` set (wf_lines f) \<and>
        grown_file ?src (cx_files (ib_context b)) path f)"
      using ready(2) by (fastforce simp: gathering_ok_def start_gathering_def anchors_exact_def)
    moreover have "context_bytes (ib_context b) \<le> limit" using ready(1) by (simp add: ready_bundle_def)
    ultimately show ?thesis by (auto simp: 2 unchanged_bundle_def)
  qed
qed

definition zero_sha :: string where "zero_sha = replicate 40 (CHR ''0'')"

definition pinned_answer :: "string \<Rightarrow> json" where
  "pinned_answer path =
     (if starts_with ''/git/c'' path then JObj [(''tree'', JObj [(''sha'', JStr zero_sha)])]
      else if starts_with ''/git/t'' path
      then JObj [(''tree'', JArr [JObj [(''path'', JStr ''a.py''), (''type'', JStr ''blob''), (''mode'', JStr ''100644'')]])]
      else JObj [(''type'', JStr ''file''), (''encoding'', JStr ''base64''), (''size'', JInt 12), (''content'', JStr ''eCA9IDEKeSA9IDIK'')])"

definition pinned_tools :: "unit source_tools" where
  "pinned_tools =
     \<lparr>st_get = (\<lambda>path. io_ret (pinned_answer path)), st_decode = Some, st_inspect = (\<lambda>_. io_ret None), st_ranker = None,
      st_deadline = io_ret ()\<rparr>"

lemma wide_prepared: "prepare_changes 900 900 [small_change] (JArr []) [] (Some 1) None = Inr small_bundle"
  by code_simp

definition pinned_tree :: json where
  "pinned_tree = JObj [(''tree'', JArr [JObj [(''path'', JStr ''a.py''), (''type'', JStr ''blob''), (''mode'', JStr ''100644'')]])]"

definition pinned_lines :: source_table where "pinned_lines = [(''a.py'', [''x = 1'', ''y = 2''])]"

definition pinned_query :: search_query where
  "pinned_query = \<lparr>qu_path = ''a.py'', qu_numbers = [1, 2], qu_identifiers = [], qu_calls = [], qu_code = ''x = 1'' @ [LF] @ ''y = 2''\<rparr>"

definition pinned_pool :: "snippet list" where
  "pinned_pool = [\<lparr>ca_path = ''a.py'', ca_numbers = [1, 2], ca_code = ''x = 1'' @ [LF] @ ''y = 2'', ca_score = 100,
     ca_protected = False, ca_groups = [0]\<rparr>]"

definition pinned_gathering :: gathering where
  "pinned_gathering = gathered 900 900 pinned_lines [] pinned_pool [[0]] [pinned_query] 0 (start_gathering small_bundle [(''f1'', ''a.py'')] [])"

lemma pinned_steps:
  shows "search_tree pinned_tools [] zero_sha () = (Inr (pinned_tree, []), ())"
    and "filter (\<lambda>p. \<not> closed_path p []) (regular_files pinned_tree) = [''a.py'']"
    and "bundle_paths small_bundle = [(''f1'', ''a.py'')]"
    and "try_source pinned_tools [] zero_sha [''a.py''] ''a.py'' () = (Inr (Some [''x = 1'', ''y = 2'']), ())"
  by code_simp+

lemma pinned_queries:
  shows "safe_sources [(''f1'', ''a.py'')] [(''a.py'', Some [''x = 1'', ''y = 2''])] (cx_files (ib_context small_bundle)) [] [] = Inr (pinned_lines, [])"
    and "inspect_sources pinned_tools pinned_lines () = (Inr [], ())"
    and "inspect_sources pinned_tools [] () = (Inr [], ())"
    and "st_ranker pinned_tools = None"
    and "map fst pinned_lines = [''a.py'']"
    and "st_deadline pinned_tools = io_ret ()"
    and "queries (cx_files (ib_context small_bundle)) [(''f1'', ''a.py'')] pinned_lines [] = Inr ([pinned_query], 0)"
    and "discover [''a.py''] [pinned_query] [] [''a.py''] = ([], [[]])"
    and "pool_for [pinned_query] [[]] pinned_lines [] [''a.py''] = pinned_pool"
  by code_simp+

lemma pinned_anchors:
  "anchored (ga_anchors pinned_gathering) (cx_files (ga_context pinned_gathering)) = Inr [(''f1'', ''a.py'', [1, 2])]"
  by code_simp

lemma pinned_rows:
  "map (\<lambda>f. map (\<lambda>r. (hl_line r, hl_changed r)) (wf_lines f)) (cx_files (ga_context pinned_gathering)) = [[(1, True), (2, False)]]"
  by code_simp

lemma pinned_order: "pool_orders pinned_pool (Suc 0) = [[0]]"
  by (simp add: pool_orders_def pinned_pool_def)

lemma pinned_enriched:
  "\<exists>b'. enrich pinned_tools 900 900 [] zero_sha [] small_bundle () = (Inr b', ()) \<and> ib_context b' = ga_context pinned_gathering"
  by (simp add: enrich_def collect_context_def with_sources_def with_related_def finish_gathering_def rank_pool_def io_try_def
    io_bind_def io_ret_def io_of_def enriched_bundle_def proceed_def Let_def related_sources_def
    joined_def pinned_steps pinned_queries pinned_anchors pinned_order pinned_gathering_def [symmetric])

theorem enrich_adds_pinned_lines_witness:
  "\<exists>b'. enrich pinned_tools 900 900 [] zero_sha [] small_bundle () = (Inr b', ()) \<and>
     map (\<lambda>f. map (\<lambda>r. (hl_line r, hl_changed r)) (wf_lines f)) (cx_files (ib_context b')) = [[(1, True), (2, False)]] \<and>
     context_bytes (ib_context b') \<le> 900 \<and> length (cx_files (ib_context b')) \<le> 1 + 4"
proof -
  obtain b' where b': "enrich pinned_tools 900 900 [] zero_sha [] small_bundle () = (Inr b', ())"
    "ib_context b' = ga_context pinned_gathering"
    using pinned_enriched by blast
  have small: "length (cx_files (ib_context small_bundle)) = 1"
    "\<forall>f \<in> set (cx_files (ib_context small_bundle)). distinct (map hl_line (wf_lines f))"
    by (simp_all add: small_bundle_def small_file_def fresh_context_def)
  have ok: "inspector_ok pinned_tools" by (simp add: inspector_ok_def pinned_tools_def io_ret_def)
  show ?thesis
    using enrich_adds_pinned_lines [OF wide_prepared small(2) ok b'(1)] b' small(1) pinned_rows by simp
qed

end
