(* ===== verification/Supplement_Results.thy ===== *)
theory Supplement_Results
  imports Context_Results
begin

section \<open>What a requested file may add\<close>

text \<open>
  A request of the reviewer completes a file of the payload to the whole file of the pinned commit or
  leaves it as it is. Nothing supplied is lost, a file stays below 160 lines and its bound in bytes, and
  the payload fits.
\<close>

definition completed :: "(string \<Rightarrow> string list \<Rightarrow> bool) \<Rightarrow> string \<Rightarrow> review_file \<Rightarrow> review_file \<Rightarrow> bool" where
  "completed src path f f' \<longleftrightarrow>
     f'\<lparr>wf_lines := wf_lines f\<rparr> = f \<and> set (wf_lines f) \<subseteq> set (wf_lines f') \<and> wire_size (review_file_json f') \<le> max_patch \<and>
     (\<forall>r \<in> set (wf_lines f') - set (wf_lines f). \<not> hl_changed r) \<and>
     (\<exists>ls. src path ls \<and> length ls \<le> 160 \<and> map hl_line (wf_lines f') = [1..int (length ls)] \<and>
       map hl_code (wf_lines f') = ls)"

definition kept_file ::
  "(string \<Rightarrow> string list \<Rightarrow> bool) \<Rightarrow> (string \<times> string \<times> int list) list \<Rightarrow> review_file \<Rightarrow> review_file \<Rightarrow> bool" where
  "kept_file src anchors f f' \<longleftrightarrow>
     f' = f \<or> (\<exists>path ns. map_of anchors (wf_id f) = Some (path, ns) \<and> completed src path f f')"

definition rows_ok :: "review_file \<Rightarrow> bool" where
  "rows_ok f \<longleftrightarrow> distinct (map hl_line (wf_lines f)) \<and> (\<forall>r \<in> set (wf_lines f). 1 \<le> hl_line r)"

definition supplement_ok :: "(string \<Rightarrow> string list \<Rightarrow> bool) \<Rightarrow> input_bundle \<Rightarrow> supplement_state \<Rightarrow> bool" where
  "supplement_ok src b s \<longleftrightarrow>
     (su_context s)\<lparr>cx_files := cx_files (ib_context b)\<rparr> = ib_context b \<and>
     list_all2 (kept_file src (ib_anchors b)) (cx_files (ib_context b)) (cx_files (su_context s)) \<and>
     (\<forall>f \<in> set (cx_files (su_context s)). rows_ok f) \<and>
     (\<forall>fid. map_option fst (map_of (su_anchors s) fid) = map_option fst (map_of (ib_anchors b) fid)) \<and>
     (\<forall>f \<in> set (cx_files (su_context s)). \<exists>path ls. map_of (su_anchors s) (wf_id f) = Some (path, ls) \<and> set ls = hl_line ` set (wf_lines f)) \<and>
     (\<forall>(p, ls) \<in> set (su_cache s). src p ls)"

lemma kept_id: "kept_file src anchors f f' \<Longrightarrow> wf_id f' = wf_id f"
  by (auto simp: kept_file_def completed_def dest: arg_cong [where f = wf_id])

lemma kept_ids: "list_all2 (kept_file src anchors) fs fs' \<Longrightarrow> map wf_id fs' = map wf_id fs"
  by (induction rule: list_all2_induct) (auto simp: kept_id)

lemma completed_trans:
  assumes "completed src p f g" and "completed src p g h"
  shows "completed src p f h"
proof -
  have "h\<lparr>wf_lines := wf_lines f\<rparr> = (h\<lparr>wf_lines := wf_lines g\<rparr>)\<lparr>wf_lines := wf_lines f\<rparr>" by simp
  with assms show ?thesis unfolding completed_def by auto
qed

lemma kept_completed:
  assumes "kept_file src anchors f g" and "map_of anchors (wf_id f) = Some (p, ns)" and "completed src p g h"
  shows "kept_file src anchors f h"
  using assms by (auto simp: kept_file_def intro: completed_trans)

lemma whole_file_completed:
  assumes "rows_ok f" and "list_all (matches_source ls) (wf_lines f)" and "length ls \<le> 160" and "src path ls"
    and "wire_size (review_file_json (whole_file ls f)) \<le> max_patch"
  shows "completed src path f (whole_file ls f)" and "rows_ok (whole_file ls f)"
    and "hl_line ` set (wf_lines (whole_file ls f)) = {1..int (length ls)}"
proof -
  let ?row = "\<lambda>n. case map_of (rows_by_line (wf_lines f)) n of Some r \<Rightarrow> r | None \<Rightarrow> plain_line ls n"
  have rows: "rows_by_line (wf_lines f) = map (\<lambda>r. (hl_line r, r)) (wf_lines f)"
    using assms(1) by (simp add: rows_by_line_distinct rows_ok_def)
  have keys: "distinct (map fst (map (\<lambda>r. (hl_line r, r)) (wf_lines f)))"
    using assms(1) by (simp add: rows_ok_def comp_def)
  have old: "?row (hl_line r) = r" if "r \<in> set (wf_lines f)" for r
  proof -
    have "(hl_line r, r) \<in> set (map (\<lambda>r. (hl_line r, r)) (wf_lines f))" using that by simp
    from map_of_is_SomeI [OF keys this] show ?thesis by (simp add: rows)
  qed
  have new: "r \<in> set (wf_lines f) \<and> hl_line r = n \<or> r = plain_line ls n" if "?row n = r" for n r
    using that by (auto simp: rows split: option.splits dest: map_of_SomeD)
  have line: "hl_line (?row n) = n" for n using new [of n "?row n"] by (auto simp: plain_line_def)
  have code: "hl_code (?row n) = line_at ls n" for n
    using new [of n "?row n"] assms(2) by (auto simp: plain_line_def list_all_iff matches_source_def)
  have range: "1 \<le> hl_line r \<and> hl_line r \<le> int (length ls)" if "r \<in> set (wf_lines f)" for r
    using that assms(1,2) by (auto simp: rows_ok_def list_all_iff matches_source_def)
  have lines: "wf_lines (whole_file ls f) = map ?row [1..int (length ls)]" by (simp add: whole_file_def)
  have numbers: "map hl_line (wf_lines (whole_file ls f)) = [1..int (length ls)]"
    by (simp add: lines comp_def line)
  have codes: "map hl_code (wf_lines (whole_file ls f)) = ls"
    unfolding lines by (rule nth_equalityI) (auto simp: code line_at_def nth_upto)
  show "rows_ok (whole_file ls f)"
    unfolding rows_ok_def numbers by (auto simp: lines line)
  show "hl_line ` set (wf_lines (whole_file ls f)) = {1..int (length ls)}"
    using arg_cong [OF numbers, of set] by simp
  have "r \<in> set (wf_lines (whole_file ls f))" if "r \<in> set (wf_lines f)" for r
  proof -
    have "hl_line r \<in> set [1..int (length ls)]" using range [OF that] by simp
    then have "?row (hl_line r) \<in> ?row ` set [1..int (length ls)]" by (rule imageI)
    then show ?thesis by (simp only: lines set_map old [OF that])
  qed
  moreover have "\<not> hl_changed r" if "r \<in> set (wf_lines (whole_file ls f)) - set (wf_lines f)" for r
  proof -
    from that obtain n where "?row n = r" by (auto simp: lines)
    from new [OF this] that show ?thesis by (auto simp: plain_line_def)
  qed
  ultimately show "completed src path f (whole_file ls f)"
    using assms(3-5) numbers codes unfolding completed_def by (auto simp: whole_file_def)
qed


lemma kept_set_file:
  assumes "list_all2 (kept_file src anchors) fs gs" and "g \<in> set gs" and "distinct (map wf_id gs)"
    and "map_of anchors (wf_id g) = Some (p, ns)" and "completed src p g h"
  shows "list_all2 (kept_file src anchors) fs (set_file h gs)"
proof -
  have id: "wf_id h = wf_id g" using assms(5) by (auto simp: completed_def dest: arg_cong [where f = wf_id])
  have keeps: "kept_file src anchors f (if wf_id y = wf_id h then h else y)" if "kept_file src anchors f y" "y \<in> set gs" for f y
  proof (cases "wf_id y = wf_id h")
    case True
    then have "y = g" using assms(2,3) that(2) id by (metis eq_key_imp_eq_value distinct_map inj_onD)
    moreover have "wf_id f = wf_id y" using kept_id [OF that(1)] by simp
    ultimately show ?thesis using kept_completed [OF that(1)] assms(4,5) True by simp
  qed (simp add: that)
  show ?thesis
    unfolding set_file_def list_all2_map2 by (rule list.rel_mono_strong [OF assms(1)]) (rule keeps)
qed


lemma supplement_file_ok:
  assumes "supplement_ok src b s" and "distinct (map wf_id (cx_files (ib_context b)))" and "f \<in> set (cx_files (su_context s))"
    and "map_of (su_anchors s) (wf_id f) = Some (path, ns)" and "src path ls"
    and "supplement_file (wf_id f) path f ls s = (status, s')"
  shows "supplement_ok src b s'"
proof (cases "s' = s")
  case False
  let ?f = "whole_file ls f"
  have s': "s' = s\<lparr>su_context := (su_context s)\<lparr>cx_files := set_file ?f (cx_files (su_context s))\<rparr>,
      su_anchors := AList.update (wf_id f) (path, [1..int (length ls)]) (su_anchors s),
      su_coverage := recount (wf_id f) (length ls) (su_coverage s)\<rparr>"
    and ls: "list_all (matches_source ls) (wf_lines f)" "length ls \<le> 160" "wire_size (review_file_json ?f) \<le> max_patch"
    using assms(6) False by (auto simp: supplement_file_def Let_def split: if_splits)
  have kept: "list_all2 (kept_file src (ib_anchors b)) (cx_files (ib_context b)) (cx_files (su_context s))"
    and rows: "\<forall>f \<in> set (cx_files (su_context s)). rows_ok f"
    and paths: "map_option fst (map_of (su_anchors s) fid) = map_option fst (map_of (ib_anchors b) fid)"
    and exact: "\<forall>f \<in> set (cx_files (su_context s)). \<exists>path ls. map_of (su_anchors s) (wf_id f) = Some (path, ls) \<and> set ls = hl_line ` set (wf_lines f)"
    for fid
    using assms(1) by (simp_all add: supplement_ok_def)
  have dist: "distinct (map wf_id (cx_files (su_context s)))" using kept_ids [OF kept] assms(2) by simp
  note whole = whole_file_completed [where src = src and path = path, OF bspec [OF rows assms(3)] ls(1,2) assms(5) ls(3)]
  obtain ns0 where ns0: "map_of (ib_anchors b) (wf_id f) = Some (path, ns0)" using paths [of "wf_id f"] assms(4)
    by (cases "map_of (ib_anchors b) (wf_id f)") auto
  from kept_set_file [OF kept assms(3) dist ns0 whole(1)]
  have "list_all2 (kept_file src (ib_anchors b)) (cx_files (ib_context b)) (set_file ?f (cx_files (su_context s)))" .
  moreover have "wf_id ?f = wf_id f" by (simp add: whole_file_def)
  ultimately show ?thesis
    using assms(1,4) exact rows whole(2,3) paths unfolding s' supplement_ok_def
    by (auto simp: set_file_def update_conv ns0)
qed (simp add: assms(1))

lemma supplement_request_ok:
  assumes "supplement_ok (from_commit st prefix sha) b s" and "distinct (map wf_id (cx_files (ib_context b)))"
    and "supplement_request st prefix sha ignored q s w = (Inr (status, s'), w')"
  shows "supplement_ok (from_commit st prefix sha) b s'"
proof (cases "s' = s")
  case False
  then obtain path ns f ls v where f: "map_of (su_anchors s) (cq_file_id q) = Some (path, ns)"
    "find (\<lambda>f. wf_id f = cq_file_id q) (cx_files (su_context s)) = Some f"
    "cached_source st prefix sha path (su_cache s) w = (Inr (Some ls), v)"
    "supplement_file (cq_file_id q) path f ls (s\<lparr>su_cache := AList.update path ls (su_cache s)\<rparr>) = (status, s')"
    using assms(3) by (auto simp: supplement_request_def io_bind_Inr split: option.splits if_splits)
  have id: "wf_id f = cq_file_id q" "f \<in> set (cx_files (su_context s))"
    using f(2) by (auto simp: find_Some_iff)
  have src: "from_commit st prefix sha path ls"
  proof (cases "map_of (su_cache s) path")
    case None
    then show ?thesis using f(3)
      by (auto simp: cached_source_def from_commit_def io_try_Inr io_bind_Inr split: if_splits)
  next
    case (Some x)
    then show ?thesis using f(3) assms(1) by (auto simp: cached_source_def supplement_ok_def dest: map_of_SomeD)
  qed
  have "supplement_ok (from_commit st prefix sha) b (s\<lparr>su_cache := AList.update path ls (su_cache s)\<rparr>)"
    using assms(1) src set_update [of path ls "su_cache s"] unfolding supplement_ok_def by auto
  from supplement_file_ok [OF this assms(2) _ _ src] f(1,4) id show ?thesis by simp
qed (simp add: assms(1))

lemma supplement_requests_ok:
  assumes "distinct (map wf_id (cx_files (ib_context b)))"
  shows "supplement_ok (from_commit st prefix sha) b s \<Longrightarrow>
    supplement_requests st prefix sha ignored qs s w = (Inr (ns, s'), w') \<Longrightarrow> supplement_ok (from_commit st prefix sha) b s'"
proof (induction qs arbitrary: s ns w)
  case (Cons q qs)
  from Cons.prems(2) obtain status s1 v ns1 where
    "supplement_request st prefix sha ignored q s w = (Inr (status, s1), v)"
    "supplement_requests st prefix sha ignored qs s1 v = (Inr (ns1, s'), w')"
    by (auto simp: io_bind_Inr)
  then show ?case using Cons.IH supplement_request_ok [OF Cons.prems(1) assms] by blast
qed simp

lemma supplement_start:
  assumes "\<forall>f \<in> set (cx_files (ib_context b)). rows_ok f" and "anchors_exact b"
  shows "supplement_ok src b \<lparr>su_context = ib_context b, su_anchors = ib_anchors b, su_coverage = ib_coverage b, su_cache = []\<rparr>"
  using assms by (auto simp: supplement_ok_def anchors_exact_def kept_file_def intro: list.rel_refl)

text \<open>C35. What the reviewer asks for only completes files. After its requests were answered the payload
has the same files in the same order; each is as it was, or is now the whole file of the pinned commit -
every line of it with its number and text, at most 160 of them, with no further line marked as changed -
within the bound of a file, and keeps every line supplied before. Nothing else of the payload changes but
the notes on the requests, the anchors of each file are exactly its lines, and a changed payload fits the
input.\<close>

theorem supplement_completes_files:
  assumes "supplement st prefix sha ignored b qs w = (Inr b', w')"
    and "distinct (map wf_id (cx_files (ib_context b)))" and "\<forall>f \<in> set (cx_files (ib_context b)). rows_ok f"
    and "anchors_exact b"
  shows "list_all2 (kept_file (from_commit st prefix sha) (ib_anchors b)) (cx_files (ib_context b)) (cx_files (ib_context b')) \<and>
    (ib_context b')\<lparr>cx_files := cx_files (ib_context b), cx_more := cx_more (ib_context b)\<rparr> = ib_context b \<and>
    anchors_exact b' \<and> (ib_context b' = ib_context b \<or> supplement_fits (ib_context b') 0)"
proof -
  let ?src = "from_commit st prefix sha"
  let ?s = "\<lparr>su_context = ib_context b, su_anchors = ib_anchors b, su_coverage = ib_coverage b, su_cache = []\<rparr>"
  have start: "supplement_ok ?src b ?s" by (rule supplement_start [OF assms(3,4)])
  obtain ns s where run: "supplement_requests st prefix sha ignored (take 2 qs) ?s w = (Inr (ns, s), w')"
    and b': "b' = supplemented_bundle b ns s"
    using assms(1) by (auto simp: supplement_def io_bind_Inr)
  have s: "supplement_ok ?src b s" by (rule supplement_requests_ok [OF assms(2) start run])
  have same: "list_all2 (kept_file ?src (ib_anchors b)) (cx_files (ib_context b)) (cx_files (ib_context b))"
    by (simp add: list.rel_refl kept_file_def)
  have none: "s = ?s" if "ns = []"
    using run that by (cases "take 2 qs") (auto simp: io_bind_Inr)
  define c where "c = (su_context s)\<lparr>cx_more := set_entry ''context_supplement'' (JArr (map request_note ns)) (cx_more (su_context s))\<rparr>"
  consider "ns = []" | "ns \<noteq> []" "\<not> supplement_fits c 0" | "ns \<noteq> []" "supplement_fits c 0" by blast
  then show ?thesis
  proof cases
    case 1
    then show ?thesis using none assms(4) same by (simp add: b' supplemented_bundle_def anchors_exact_def)
  next
    case 2
    then have "ib_context b' = ib_context b" "ib_anchors b' = ib_anchors b"
      by (simp_all add: b' supplemented_bundle_def c_def Let_def)
    then show ?thesis using assms(4) same by (simp add: anchors_exact_def)
  next
    case 3
    then have new: "ib_context b' = c" "ib_anchors b' = su_anchors s"
      by (simp_all add: b' supplemented_bundle_def c_def Let_def)
    have "(su_context s)\<lparr>cx_files := cx_files (ib_context b), cx_more := cx_more (ib_context b)\<rparr> =
        ((su_context s)\<lparr>cx_files := cx_files (ib_context b)\<rparr>)\<lparr>cx_more := cx_more (ib_context b)\<rparr>" by simp
    also have "\<dots> = ib_context b" using s by (simp add: supplement_ok_def)
    finally show ?thesis using s 3(2) unfolding anchors_exact_def new by (simp add: c_def supplement_ok_def)
  qed
qed


definition asked :: context_request where
  "asked = \<lparr>cq_file_id = ''f1'', cq_symbol = ''x'', cq_need = ''callers''\<rparr>"

definition completed_context :: review_context where
  "completed_context = (ib_context small_bundle)\<lparr>cx_files := [whole_file [''x = 1'', ''y = 2''] small_file]\<rparr>"

definition noted_context :: review_context where
  "noted_context = completed_context\<lparr>cx_more := [(''context_supplement'', JArr [request_note (asked, ''ADDED'')])]\<rparr>"

lemma asked_sizes:
  shows "wire_size (review_file_json (whole_file [''x = 1'', ''y = 2''] small_file)) \<le> 900"
    and "context_bytes completed_context \<le> 900" and "context_bytes noted_context \<le> 900"
  by code_simp+

lemma asked_fits:
  "supplement_fits completed_context 1024 \<and> supplement_fits noted_context 0 \<and>
   wire_size (review_file_json (whole_file [''x = 1'', ''y = 2''] small_file)) \<le> max_patch"
proof -
  have "completed_context\<lparr>cx_standards := None, cx_paths := None\<rparr> = completed_context"
    and "noted_context\<lparr>cx_standards := None, cx_paths := None\<rparr> = noted_context"
    by (simp_all add: completed_context_def noted_context_def small_bundle_def fresh_context_def)
  then show ?thesis using asked_sizes by (simp add: supplement_fits_def max_input_def max_patch_def)
qed

lemma asked_parts:
  shows "cached_source pinned_tools [] zero_sha ''a.py'' [] () = (Inr (Some [''x = 1'', ''y = 2'']), ())"
    and "list_ex (\<lambda>r. mentions ''x'' None (hl_code r)) (wf_lines small_file)"
    and "list_all (matches_source [''x = 1'', ''y = 2'']) (wf_lines small_file)"
    and "closed_path ''a.py'' [] = False"
    and "set_file (whole_file [''x = 1'', ''y = 2''] small_file) [small_file] = [whole_file [''x = 1'', ''y = 2''] small_file]"
    and "length (wf_lines small_file) = 1"
  by code_simp+

lemma asked_bundle: "ib_context small_bundle = completed_context\<lparr>cx_files := [small_file]\<rparr> \<and>
    ib_anchors small_bundle = [(''f1'', ''a.py'', [1])] \<and> wf_id small_file = ''f1'' \<and> completed_context\<lparr>cx_files := [whole_file [''x = 1'', ''y = 2''] small_file]\<rparr> = completed_context"
  by (simp add: completed_context_def small_bundle_def fresh_context_def small_file_def)

lemma asked_answered:
  "\<exists>b'. supplement pinned_tools [] zero_sha [] small_bundle [asked] () = (Inr b', ()) \<and> ib_context b' = noted_context"
proof -
  have "supplement_request pinned_tools [] zero_sha [] asked
      \<lparr>su_context = ib_context small_bundle, su_anchors = ib_anchors small_bundle, su_coverage = ib_coverage small_bundle, su_cache = []\<rparr> () =
    (Inr (''ADDED'', \<lparr>su_context = completed_context, su_anchors = [(''f1'', ''a.py'', [1, 2])],
       su_coverage = recount ''f1'' (Suc (Suc 0)) (ib_coverage small_bundle), su_cache = [(''a.py'', [''x = 1'', ''y = 2''])]\<rparr>), ())"
    using asked_fits asked_bundle
    by (simp add: supplement_request_def supplement_file_def asked_parts asked_def io_bind_def io_ret_def Let_def upto.simps)
  moreover have "cx_more completed_context = []" by (simp add: completed_context_def small_bundle_def fresh_context_def)
  ultimately show ?thesis
    using asked_fits
    by (simp add: supplement_def io_bind_def io_ret_def supplemented_bundle_def Let_def noted_context_def set_entry_def)
qed

theorem supplement_completes_files_witness:
  "\<exists>b'. supplement pinned_tools [] zero_sha [] small_bundle [asked] () = (Inr b', ()) \<and>
     ib_context b' = noted_context \<and>
     list_all2 (kept_file (from_commit pinned_tools [] zero_sha) (ib_anchors small_bundle)) [small_file] [whole_file [''x = 1'', ''y = 2''] small_file]"
proof -
  obtain b' where b': "supplement pinned_tools [] zero_sha [] small_bundle [asked] () = (Inr b', ())" "ib_context b' = noted_context"
    using asked_answered by blast
  have ready: "distinct (map wf_id (cx_files (ib_context small_bundle)))" "\<forall>f \<in> set (cx_files (ib_context small_bundle)). rows_ok f"
    "anchors_exact small_bundle" "cx_files (ib_context small_bundle) = [small_file]"
    by (simp_all add: small_bundle_def small_file_def fresh_context_def rows_ok_def anchors_exact_def)
  have "cx_files noted_context = [whole_file [''x = 1'', ''y = 2''] small_file]"
    by (simp add: noted_context_def completed_context_def)
  with supplement_completes_files [OF b'(1) ready(1-3)] b' ready(4) show ?thesis by simp
qed

end
