(* ===== verification/Spec2Isabelle.thy ===== *)
theory Spec2Isabelle
  imports Job_Properties Auth_Results Workspace_Results Repository_Results Pull_Request_Results
    Analysis_Properties Webhook_Properties Connect_Results Standards_Properties Review_Policy_Results
    Review_Execution Supplement_Results
begin

text \<open>
  Verification development of the PRism backend: a service that connects GitHub repositories to
  teams, follows their pull requests, analyses the changed files with static rules and lets a
  language model explain the findings. All paths below are under \<^verbatim>\<open>app/\<close>.

  \<^bold>\<open>The program and the theories.\<close> Requests and workers run short transactions on PostgreSQL tables;
  everything slow (GitHub, parsers, the model) happens between transactions, in jobs of one queue. The
  theories follow the packages, each importing the packages it calls:

  \<^item> \<^verbatim>\<open>Prelude\<close>, \<^verbatim>\<open>Text\<close>, \<^verbatim>\<open>Json\<close>, \<^verbatim>\<open>Row_Store\<close>, \<^verbatim>\<open>Effects\<close>, \<^verbatim>\<open>Scanning\<close>: what the components share. A
    transaction is a state transformer that may raise (\<open>txn\<close>); \<open>transaction\<close> commits the state of a
    successful body that satisfies the constraints and restores the old one otherwise
    (\<^verbatim>\<open>shared/database/engine.py\<close>). A table is the list of its rows, a query a filter. \<open>io\<close> is an
    action on the outside world, which keeps what it did when it raises. The string functions of the
    standard library that the code calls are defined over character lists.
  \<^item> \<^verbatim>\<open>Jobs\<close>, \<^verbatim>\<open>Job_Queue\<close>, \<^verbatim>\<open>Job_Properties\<close>: \<^verbatim>\<open>shared/jobs\<close> (the queue with leases and fencing, the
    cycle of the runner). \<^verbatim>\<open>Run_Tracking\<close>: what every kind of run owes to the queue.
  \<^item> \<^verbatim>\<open>Users\<close>; \<^verbatim>\<open>Auth\<close>, \<^verbatim>\<open>Auth_Sessions\<close>, \<^verbatim>\<open>Auth_Properties\<close>, \<^verbatim>\<open>Auth_Results\<close>: \<^verbatim>\<open>domain/user\<close> and
    \<^verbatim>\<open>domain/auth\<close> (login attempts, families of refresh sessions, access tokens).
  \<^item> \<^verbatim>\<open>Workspaces\<close>, \<^verbatim>\<open>Workspace_Members\<close>, \<^verbatim>\<open>Workspace_System\<close>, \<^verbatim>\<open>Workspace_Results\<close>: \<^verbatim>\<open>domain/workspace\<close>.
  \<^item> \<^verbatim>\<open>Repositories\<close>, \<^verbatim>\<open>Repository_Results\<close>: \<^verbatim>\<open>domain/repository\<close> (connections with generations,
    configurations, candidate lists, the access guard, events).
  \<^item> \<^verbatim>\<open>GitHub_Client\<close>, \<^verbatim>\<open>Connect_Repository\<close>, \<^verbatim>\<open>Connect_Results\<close>: \<^verbatim>\<open>shared/github/client.py\<close>,
    \<^verbatim>\<open>domain/repository/github.py\<close>, \<^verbatim>\<open>domain/pull_request/github.py\<close>, \<^verbatim>\<open>workflows/connect_repository.py\<close>.
  \<^item> \<^verbatim>\<open>Pull_Requests\<close>, \<^verbatim>\<open>Pull_Request_Results\<close>: \<^verbatim>\<open>domain/pull_request\<close> (snapshots, sync runs, worker).
  \<^item> \<^verbatim>\<open>Webhooks\<close>, \<^verbatim>\<open>Webhook_Results\<close>, \<^verbatim>\<open>Webhook_System\<close>, \<^verbatim>\<open>Webhook_Properties\<close>: \<^verbatim>\<open>domain/webhook\<close>.
  \<^item> \<^verbatim>\<open>Analysis_Rules\<close>, \<^verbatim>\<open>Analyzer\<close>, \<^verbatim>\<open>Patches\<close>, \<^verbatim>\<open>Pipeline\<close> with their results, and \<^verbatim>\<open>Analysis\<close>,
    \<^verbatim>\<open>Analysis_Results\<close>, \<^verbatim>\<open>Analysis_System\<close>, \<^verbatim>\<open>Analysis_Properties\<close>: \<^verbatim>\<open>domain/analysis\<close> (the rules, the
    evaluation of one file, the analysis of a pull request; then runs, worker and results).
    \<^verbatim>\<open>Import_References\<close>: the references of import statements for the rule checks.
  \<^item> \<^verbatim>\<open>Content\<close>, \<^verbatim>\<open>Standard_Index\<close>, \<^verbatim>\<open>Standards\<close> with \<^verbatim>\<open>Standard_Index_Results\<close>,
    \<^verbatim>\<open>Standards_Results\<close>, \<^verbatim>\<open>Standards_Properties\<close>: \<^verbatim>\<open>shared/content_safety.py\<close> and \<^verbatim>\<open>domain/standards\<close>
    (the team's documents, their versions, retrieval of sections, rule checks).
  \<^item> \<^verbatim>\<open>Review_Policy\<close>, \<^verbatim>\<open>Review_Validation\<close>, \<^verbatim>\<open>Review_Policy_Results\<close>: \<^verbatim>\<open>domain/review/policy.py\<close>,
    \<^verbatim>\<open>output_schema.py\<close>, \<^verbatim>\<open>model_output.py\<close>, \<^verbatim>\<open>verification.py\<close>, \<^verbatim>\<open>empty_review.py\<close>, \<^verbatim>\<open>refinement.py\<close> (what is
    sent to the model and what is accepted from it). \<^verbatim>\<open>Review_Output\<close> holds the classes of
    \<^verbatim>\<open>output_schema.py\<close>; \<^verbatim>\<open>Expressions\<close> and \<^verbatim>\<open>Expressions_Results\<close> the bounded interpreter of
    \<^verbatim>\<open>semantics.py\<close>, which checks a suggested replacement on samples.
  \<^item> \<^verbatim>\<open>Reviews\<close>, \<^verbatim>\<open>Review_Worker\<close> with \<^verbatim>\<open>Review_Results\<close>, \<^verbatim>\<open>Review_System\<close>, \<^verbatim>\<open>Review_Properties\<close>,
    \<^verbatim>\<open>Review_Execution\<close>: \<^verbatim>\<open>models.py\<close>, \<^verbatim>\<open>service.py\<close>, \<^verbatim>\<open>feedback.py\<close> and \<^verbatim>\<open>worker.py\<close> of
    \<^verbatim>\<open>domain/review\<close>; the last theory proves, with a small logic of assertions, what the worker sends.
  \<^item> \<^verbatim>\<open>Retrieval\<close>, \<^verbatim>\<open>Related_Context\<close>, \<^verbatim>\<open>Context_Selection\<close>: \<^verbatim>\<open>retrieval.py\<close> and \<^verbatim>\<open>context_plan.py\<close> (which files
    and lines may be related to a change), \<^verbatim>\<open>context.py\<close> and \<^verbatim>\<open>reranker.py\<close> (reading files of the head
    commit, ranking), \<^verbatim>\<open>context_selection.py\<close> and \<^verbatim>\<open>supplement.py\<close> (what of them enters the payload).
    \<^verbatim>\<open>Python_Code\<close> and \<^verbatim>\<open>Security_Signals\<close>: syntax trees of Python code, and \<^verbatim>\<open>security_evidence.py\<close>.
    \<^verbatim>\<open>Context_Results\<close> and \<^verbatim>\<open>Supplement_Results\<close> show that both only add lines of the pinned commit within
    the bounds; \<^verbatim>\<open>Context_Steps\<close> that they move the world only by the actions they are given.

  \<^bold>\<open>State.\<close> The tables of a package extend those of the packages below it as a record
  (\<open>job_tables\<close>, ..., \<open>review_tables\<close>), so an operation is stated for every extension and runs unchanged
  inside the larger program. A row is a record with the columns of its class; the constraints of
  \<^verbatim>\<open>__table_args__\<close> are the schema predicates (\<open>jobs_schema\<close>, ..., \<open>review_schema\<close>) that a flush and a
  commit check. A commit is atomic and a transaction runs alone, which is what the row and advisory locks
  of the code are for; where the code commits and goes on (workers, the sign-in), the model has one
  transaction per commit and the steps of others may come in between.

  \<^bold>\<open>The proofs.\<close> Each component has: inversion lemmas (\<open>..._Inr\<close>: what a successful call read and wrote;
  \<open>..._reads\<close>: that a query leaves the state), an invariant with its preservation by every operation, a
  step relation of its committed transactions (\<open>others\<close> is any transaction of another component), and
  the properties of the reachable states. The interfaces are locales, each interpreted on the model:
  \<open>row_store\<close> (one table of the record; every table), \<open>reader\<close> (a guard that reads and establishes a
  fact; the permission, account, member, connection, sync, analysis and review guards), \<open>transition_system\<close> and
  \<open>evolving_system\<close> (invariants of reachable states, relations along every run; one per component),
  \<open>tracked_runs\<close> (runs that move with their jobs; sync runs, analyses, deliveries, reviews),
  \<open>world_order\<close> (a relation that the actions outside follow; the steps of other transactions).
  Where a property is about what was asked of GitHub and when, it speaks of the exchange itself: the
  analysis runs on services that record every request with its answer (\<open>recorded\<close>), and what the review
  reads is described by the answers a run received (\<open>later_world\<close>, \<open>pinned_source\<close>). Executions of a
  job are stated under interference: any steps of the other transactions come in between.
  The analysis is also related to an abstract life cycle (a refinement), and both traversals of the
  analyzer to a recursive reference.

  \<^bold>\<open>Parameters.\<close> What the sources only call is an argument of the definitions: SHA-256 and HMAC, the
  token library, RSA signing, random tokens, fresh UUIDs and clock readings, the HTTP library, the JSON
  decoder and the pydantic validation of foreign values, tree-sitter and \<^verbatim>\<open>ast.parse\<close>, the logarithm (the
  scores of retrieval are computed in an exact ordered field, not in floating point). What other
  transactions do while a worker is outside is the parameter \<open>meanwhile\<close> or \<open>ov_pause\<close>; rows skipped
  because another transaction holds them are \<open>locked\<close>, rows not visible yet \<open>unseen\<close>. Properties that
  need something of a parameter (that decoding gives back the claims that were signed, that the
  parser of answers enforces the declared field bounds) state it as a hypothesis, and the witness shows a
  case. Parameters of the review that are code of the repository but not modelled: the process that reads
  the syntax of related files, the observations on paths and dictionaries, the grounding of assertions,
  the prompts and the payload of the second reviewer. A deadline that expires is a
  \<open>TimeoutError\<close> of an action.

  \<^bold>\<open>Bounds and termination.\<close> All functions are total. Where a loop is not structural its measure is proved
  (syntax trees by size, \<open>replace\<close> and \<open>split\<close> by length); the two traversals of the analyzer take the
  size of the tree as fuel, which is proved sufficient. Integers of the code are unbounded in Python; the
  columns that can overflow are 32 or 64 bits wide and their bounds are part of the row predicates
  where the code relies on them.

  \<^bold>\<open>Not modelled.\<close> The HTTP routers (but the webhook route), \<^verbatim>\<open>main.py\<close>, settings and logging; the exchange
  with GitHub at sign-in (\<^verbatim>\<open>domain/auth/github.py\<close>) and \<open>authorization_url\<close>; the live listing of reviews in
  \<^verbatim>\<open>domain/pull_request/query.py\<close>; \<open>build_digest\<close>; of the review the parts named above, the excerpts of
  \<^verbatim>\<open>source_view.py\<close>, \<^verbatim>\<open>provider.py\<close> and
  \<^verbatim>\<open>harness\<close>; migrations, deployment, scripts, tools and evaluations. The texts of error messages and other
  Korean literals are dropped or parameters: characters are those of \<open>char\<close> (code points below 256).
  Lengths of VARCHAR columns are part of a row predicate where a property is about them
  (\<open>result_rows_fit\<close>: every constraint of the two result tables, with the size of the JSON text of
  \<open>rule_outcomes\<close>, but for the message of a finding, which is Korean text). Python's limit on the digits of
  an integer is not modelled.
\<close>

end
